(* ===== verification/Trema_Prelude.thy ===== *)
theory Trema_Prelude
  imports Main "HOL-Library.Word"
begin

unbundle bit_operations_syntax

text \<open>
  Shared vocabulary of the development.

  \<^item> The outcome of a C function is a value of type \<open>'a res\<close>: \<open>Ok v\<close> when the function returns
    \<open>v\<close>, and \<open>Fault f\<close> when it does not come back (a read or write outside the object it was
    given, a null dereference, a use of memory that was freed, a call through a pointer to a function of
    another type, a failed \<open>assert\<close>, a call of \<open>die\<close>, or a loop that never ends).
    \<open>bnd\<close> sequences two such computations and \<open>chk\<close> is the idiom
    \<open>ret = f(); if ( ret < 0 ) return ret;\<close> of the sources.
  \<^item> Memory that is exchanged with a switch is a list of bytes.  \<open>rd n m i\<close> reads the \<open>n\<close> bytes
    at offset \<open>i\<close> as one number in network byte order, which is what \<open>ntohs\<close>, \<open>ntohl\<close> and
    \<open>ntohll\<close> of a field of a packed struct deliver on every host; \<open>wr i bs m\<close> stores bytes.
    Both fault outside the message.
\<close>

section \<open>Outcomes\<close>

datatype fault = Null_deref | Out_of_bounds | Assertion | Die | No_return | Use_after_free | Bad_call

datatype 'a res = Ok (the_ok: 'a) | Fault fault

primrec bnd :: "'a res \<Rightarrow> ('a \<Rightarrow> 'b res) \<Rightarrow> 'b res" where
  "bnd (Ok x) f = f x"
| "bnd (Fault e) f = Fault e"

definition chk :: "int res \<Rightarrow> int res \<Rightarrow> int res" where
  "chk r k = bnd r (\<lambda>ret. if ret < 0 then Ok ret else k)"

definition assert_then :: "bool \<Rightarrow> 'a res \<Rightarrow> 'a res" where
  "assert_then b k = (if b then k else Fault Assertion)"

definition die_unless :: "bool \<Rightarrow> 'a res \<Rightarrow> 'a res" where
  "die_unless b k = (if b then k else Fault Die)"

definition returns :: "'a res \<Rightarrow> bool" where
  "returns r \<longleftrightarrow> (\<exists>v. r = Ok v)"

named_theorems res_simps "facts that evaluate outcomes"

lemma bnd_assoc: "bnd (bnd r f) g = bnd r (\<lambda>x. bnd (f x) g)"
  by (cases r) simp_all

lemma bnd_Ok_right [simp]: "bnd r Ok = r"
  by (cases r) simp_all

lemma bnd_eq_Ok: "bnd r f = Ok v \<longleftrightarrow> (\<exists>x. r = Ok x \<and> f x = Ok v)"
  by (cases r) simp_all

lemma bnd_cong [fundef_cong]:
  "r = r' \<Longrightarrow> (\<And>x. r' = Ok x \<Longrightarrow> f x = f' x) \<Longrightarrow> bnd r f = bnd r' f'"
  by (cases r') simp_all

lemma returns_Ok [simp]: "returns (Ok v)" and returns_Fault [simp]: "\<not> returns (Fault e)"
  by (simp_all add: returns_def)

lemma returns_bnd [intro]: "returns r \<Longrightarrow> (\<And>x. r = Ok x \<Longrightarrow> returns (f x)) \<Longrightarrow> returns (bnd r f)"
  by (cases r) simp_all

lemma chk_Ok [simp]: "chk (Ok v) k = (if v < 0 then Ok v else k)"
  by (simp add: chk_def)

lemma chk_Fault [simp]: "chk (Fault e) k = Fault e"
  by (simp add: chk_def)

lemma chk_eq_Ok_zero: "chk r k = Ok 0 \<longleftrightarrow> (\<exists>v. r = Ok v \<and> 0 \<le> v \<and> k = Ok 0)"
  by (cases r) auto

lemma returns_chk [intro]: "returns r \<Longrightarrow> returns k \<Longrightarrow> returns (chk r k)"
  by (cases r) simp_all

lemmas [res_simps] = assert_then_def die_unless_def

section \<open>Bytes and network byte order\<close>

type_synonym byte = "8 word"
type_synonym bytes = "byte list"

text \<open>A number in decimal notation, as \<open>%d\<close> prints it.\<close>

fun decimal :: "nat \<Rightarrow> bytes" where
  "decimal n = (if n < 10 then [48 + of_nat n] else decimal (n div 10) @ [48 + of_nat (n mod 10)])"

declare decimal.simps [simp del]

definition be_get :: "bytes \<Rightarrow> 'a::len word" where
  "be_get bs = foldl (\<lambda>acc b. push_bit 8 acc OR ucast b) 0 bs"

definition be_put :: "nat \<Rightarrow> 'a::len word \<Rightarrow> bytes" where
  "be_put n w = map (\<lambda>i. ucast (drop_bit (8 * i) w)) (rev [0..<n])"

lemma length_be_put [simp]: "length (be_put n w) = n"
  by (simp add: be_put_def)

lemma be_put_not_Nil [simp]: "be_put n w = [] \<longleftrightarrow> n = 0"
  by (metis length_0_conv length_be_put)

lemma nth_be_put: "k < n \<Longrightarrow> be_put n w ! k = ucast (drop_bit (8 * (n - 1 - k)) w)"
  by (simp add: be_put_def rev_nth)

lemma bit_be_get:
  "bit (be_get bs :: 'a::len word) k \<longleftrightarrow>
     k < LENGTH('a) \<and> k div 8 < length bs \<and> bit (bs ! (length bs - 1 - k div 8)) (k mod 8)"
proof (induction bs arbitrary: k rule: rev_induct)
  case Nil
  show ?case by (simp add: be_get_def)
next
  case (snoc b bs)
  have step: "(be_get (bs @ [b]) :: 'a word) = push_bit 8 (be_get bs) OR ucast b"
    by (simp add: be_get_def)
  show ?case
  proof (cases "k < 8")
    case True
    then show ?thesis
      by (auto simp: step bit_or_iff bit_push_bit_iff bit_ucast_iff nth_append)
  next
    case False
    then obtain j where k: "k = j + 8"
      by (metis add.commute le_Suc_ex not_less)
    have d: "(j + 8) div 8 = Suc (j div 8)" by simp
    have "length bs - Suc (j div 8) < length bs \<longleftrightarrow> length bs > 0" by auto
    then show ?thesis
      using snoc.IH [of j]
      by (auto simp: step k d bit_or_iff bit_push_bit_iff bit_ucast_iff nth_append
          dest: bit_imp_le_length)
  qed
qed

lemma be_get_put: "LENGTH('a) \<le> 8 * n \<Longrightarrow> (be_get (be_put n w) :: 'a::len word) = w"
  by (rule bit_eqI)
    (auto simp: bit_be_get nth_be_put bit_ucast_iff bit_drop_bit_eq dest: bit_imp_le_length)

lemma be_put_get:
  assumes "8 * n \<le> LENGTH('a)" and "length bs = n"
  shows "be_put n (be_get bs :: 'a::len word) = bs"
proof (rule nth_equalityI)
  show "length (be_put n (be_get bs :: 'a word)) = length bs" using assms by simp
next
  fix k assume "k < length (be_put n (be_get bs :: 'a word))"
  with assms have k: "k < n" by simp
  show "be_put n (be_get bs :: 'a word) ! k = bs ! k"
  proof (rule bit_eqI)
    fix i assume i: "possible_bit TYPE(8 word) i"
    then have "i < 8" by simp
    have "8 * (n - 1 - k) + i < LENGTH('a)" using k \<open>i < 8\<close> assms(1) by linarith
    then show "bit (be_put n (be_get bs :: 'a word) ! k) i = bit (bs ! k) i"
      using k \<open>i < 8\<close> assms(2)
      by (auto simp: nth_be_put bit_ucast_iff bit_drop_bit_eq bit_be_get)
  qed
qed

definition rd :: "nat \<Rightarrow> bytes \<Rightarrow> nat \<Rightarrow> 'a::len word res" where
  "rd n m i = (if i + n \<le> length m then Ok (be_get (take n (drop i m))) else Fault Out_of_bounds)"

abbreviation rd8 :: "bytes \<Rightarrow> nat \<Rightarrow> 8 word res" where "rd8 \<equiv> rd 1"
abbreviation rd16 :: "bytes \<Rightarrow> nat \<Rightarrow> 16 word res" where "rd16 \<equiv> rd 2"
abbreviation rd32 :: "bytes \<Rightarrow> nat \<Rightarrow> 32 word res" where "rd32 \<equiv> rd 4"
abbreviation rd48 :: "bytes \<Rightarrow> nat \<Rightarrow> 48 word res" where "rd48 \<equiv> rd 6"
abbreviation rd64 :: "bytes \<Rightarrow> nat \<Rightarrow> 64 word res" where "rd64 \<equiv> rd 8"

abbreviation put8 :: "8 word \<Rightarrow> bytes" where "put8 \<equiv> be_put 1"
abbreviation put16 :: "16 word \<Rightarrow> bytes" where "put16 \<equiv> be_put 2"
abbreviation put32 :: "32 word \<Rightarrow> bytes" where "put32 \<equiv> be_put 4"
abbreviation put48 :: "48 word \<Rightarrow> bytes" where "put48 \<equiv> be_put 6"
abbreviation put64 :: "64 word \<Rightarrow> bytes" where "put64 \<equiv> be_put 8"

definition patch :: "nat \<Rightarrow> bytes \<Rightarrow> bytes \<Rightarrow> bytes" where
  "patch i bs m = take i m @ bs @ drop (i + length bs) m"

definition wr :: "nat \<Rightarrow> bytes \<Rightarrow> bytes \<Rightarrow> bytes res" where
  "wr i bs m = (if i + length bs \<le> length m then Ok (patch i bs m) else Fault Out_of_bounds)"

fun wrs :: "(nat \<times> bytes) list \<Rightarrow> bytes \<Rightarrow> bytes res" where
  "wrs [] m = Ok m"
| "wrs ((i, bs) # ws) m = bnd (wr i bs m) (wrs ws)"

lemma rd_in [simp]: "i + n \<le> length m \<Longrightarrow> rd n m i = Ok (be_get (take n (drop i m)))"
  by (simp add: rd_def)

lemma rd_out: "length m < i + n \<Longrightarrow> rd n m i = Fault Out_of_bounds"
  by (simp add: rd_def)

lemma returns_rd [simp]: "returns (rd n m i :: 'a::len word res) \<longleftrightarrow> i + n \<le> length m"
  by (simp add: rd_def)

lemma length_patch [simp]: "i + length bs \<le> length m \<Longrightarrow> length (patch i bs m) = length m"
  by (simp add: patch_def)

lemma patch_Nil [simp]: "patch i [] m = m"
  by (simp add: patch_def)

lemma take_drop_patch_before:
  "j + n \<le> i \<Longrightarrow> i + length bs \<le> length m \<Longrightarrow> take n (drop j (patch i bs m)) = take n (drop j m)"
  by (simp add: patch_def take_drop)

lemma take_drop_patch_after:
  "i + length bs \<le> j \<Longrightarrow> i + length bs \<le> length m \<Longrightarrow>
   take n (drop j (patch i bs m)) = take n (drop j m)"
  by (simp add: patch_def add.commute)

lemma take_drop_patch_inside:
  "i \<le> j \<Longrightarrow> j + n \<le> i + length bs \<Longrightarrow> i + length bs \<le> length m \<Longrightarrow>
   take n (drop j (patch i bs m)) = take n (drop (j - i) bs)"
  by (simp add: patch_def)

lemma patch_append: "i + length bs \<le> length m \<Longrightarrow> patch i bs (m @ m') = patch i bs m @ m'"
  by (simp add: patch_def)

lemma patch_adjacent:
  "i + length bs + length cs \<le> length m \<Longrightarrow>
   patch (i + length bs) cs (patch i bs m) = patch i (bs @ cs) m"
  by (simp add: patch_def ac_simps)

lemma wr_in [simp]: "i + length bs \<le> length m \<Longrightarrow> wr i bs m = Ok (patch i bs m)"
  by (simp add: wr_def)

lemma patch_all: "length bs = length m \<Longrightarrow> patch 0 bs m = bs"
  by (simp add: patch_def)

text \<open>A run of stores to adjacent places is one store.\<close>

fun contiguous :: "nat \<Rightarrow> (nat \<times> bytes) list \<Rightarrow> bool" where
  "contiguous off [] \<longleftrightarrow> True"
| "contiguous off ((i, bs) # ws) \<longleftrightarrow> i = off \<and> contiguous (off + length bs) ws"

definition written :: "(nat \<times> bytes) list \<Rightarrow> bytes" where
  "written ws = concat (map snd ws)"

lemma written_simps [simp]: "written [] = []" "written ((i, bs) # ws) = bs @ written ws"
  by (simp_all add: written_def)

lemma wrs_contiguous:
  "contiguous off ws \<Longrightarrow> off + length (written ws) \<le> length m \<Longrightarrow>
   wrs ws m = Ok (patch off (written ws) m)"
proof (induction ws arbitrary: off m)
  case (Cons w ws)
  obtain i bs where w: "w = (i, bs)" by (cases w)
  have "wrs ws (patch off bs m) = Ok (patch (off + length bs) (written ws) (patch off bs m))"
    using Cons.prems w by (intro Cons.IH) auto
  then show ?case using Cons.prems w patch_adjacent [of off bs "written ws" m] by simp
qed simp

lemma wrs_one: "wrs [(i, bs)] m = wr i bs m"
  by (cases "wr i bs m") simp_all

lemma patch_after:
  "length pre = i \<Longrightarrow> length bs \<le> length z \<Longrightarrow> patch i bs (pre @ z) = pre @ bs @ drop (length bs) z"
  by (simp add: patch_def)

section \<open>Words as numbers\<close>

lemma unat_and_mask: "unat (w AND mask k) = unat w mod 2 ^ k"
  unfolding take_bit_eq_mask [symmetric] unsigned_take_bit_eq by (rule take_bit_eq_mod)

lemma and_not_mask_eq: "(w :: 'a::len word) AND NOT (mask k) = push_bit k (drop_bit k w)"
  by (rule bit_word_eqI) (auto simp: bit_simps)

lemma unat_and_not_mask: "unat ((w :: 'a::len word) AND NOT (mask k)) = unat w div 2 ^ k * 2 ^ k"
proof -
  have "unat w div 2 ^ k * 2 ^ k \<le> unat w" by (rule div_times_less_eq_dividend)
  also have "unat w < 2 ^ LENGTH('a)" by (rule unsigned_less)
  finally have lt: "unat w div 2 ^ k * 2 ^ k < 2 ^ LENGTH('a)" .
  have "unat (push_bit k (drop_bit k w)) = take_bit LENGTH('a) (push_bit k (unat (drop_bit k w)))"
    by (rule unsigned_push_bit_eq)
  also have "unat (drop_bit k w) = unat w div 2 ^ k"
    unfolding unat_drop_bit_eq by (rule drop_bit_eq_div)
  also have "take_bit LENGTH('a) (push_bit k (unat w div 2 ^ k)) = unat w div 2 ^ k * 2 ^ k"
    unfolding push_bit_eq_mult take_bit_eq_mod using lt by (rule mod_less)
  finally show ?thesis by (simp only: and_not_mask_eq)
qed

text \<open>A counter that lives in the low \<open>k\<close> bits of a word and leaves the others alone.\<close>

definition low_counter :: "nat \<Rightarrow> 'a::len word \<Rightarrow> 'a word" where
  "low_counter k w = (if w AND mask k = mask k then w AND NOT (mask k) else w + 1)"

lemma unat_low_counter:
  assumes "k < LENGTH('a)"
  shows "unat (low_counter k (w :: 'a::len word)) =
           unat w div 2 ^ k * 2 ^ k + (unat w mod 2 ^ k + 1) mod 2 ^ k"
proof -
  have m: "unat (mask k :: 'a word) = 2 ^ k - 1"
    using assms
    by (simp add: uint_mask_eq min_def nat_mask_eq flip: nat_uint_eq)
      (simp add: mask_eq_exp_minus_1)
  then have full: "w AND mask k = mask k \<longleftrightarrow> unat w mod 2 ^ k = 2 ^ k - 1"
    by (metis unat_and_mask word_unat_eq_iff)
  show ?thesis
  proof (cases "w AND mask k = mask k")
    case True
    with full show ?thesis by (simp add: low_counter_def unat_and_not_mask)
  next
    case False
    then have "unat w mod 2 ^ k \<noteq> 2 ^ k - 1" using full by simp
    moreover have "unat w mod 2 ^ k < 2 ^ k" by simp
    ultimately have lt: "unat w mod 2 ^ k + 1 < 2 ^ k" by linarith
    have "2 ^ k dvd (2 ^ LENGTH('a) :: nat)" using assms by (simp add: le_imp_power_dvd)
    have split: "unat w = unat w div 2 ^ k * 2 ^ k + unat w mod 2 ^ k"
      by (rule div_mult_mod_eq [symmetric])
    have "unat w + 1 < 2 ^ LENGTH('a)"
    proof (rule ccontr)
      assume "\<not> ?thesis"
      moreover have "unat w < 2 ^ LENGTH('a)" by (rule unsigned_less)
      ultimately have "unat w + 1 = 2 ^ LENGTH('a)" by linarith
      then have "2 ^ k dvd unat w + 1" using \<open>2 ^ k dvd 2 ^ LENGTH('a)\<close> by simp
      then have "(unat w mod 2 ^ k + 1) mod 2 ^ k = 0" by (metis mod_0_imp_dvd dvd_imp_mod_0 mod_add_left_eq)
      then show False using lt by simp
    qed
    then have "unat (w + 1) = unat w + 1" by (simp add: unat_word_ariths)
    with False lt split show ?thesis by (simp add: low_counter_def)
  qed
qed

lemma unat_low_counter_iter:
  assumes "k < LENGTH('a)"
  shows "unat ((low_counter k ^^ n) (w :: 'a::len word)) =
           unat w div 2 ^ k * 2 ^ k + (unat w mod 2 ^ k + n) mod 2 ^ k"
proof (induction n)
  case 0
  show ?case by (simp only: funpow_0 add_0_right mod_mod_trivial div_mult_mod_eq)
next
  case (Suc n)
  let ?v = "(low_counter k ^^ n) w"
  have d: "unat ?v div 2 ^ k = unat w div 2 ^ k" "unat ?v mod 2 ^ k = (unat w mod 2 ^ k + n) mod 2 ^ k"
    unfolding Suc by simp_all
  have "unat ((low_counter k ^^ Suc n) w) = unat ?v div 2 ^ k * 2 ^ k + (unat ?v mod 2 ^ k + 1) mod 2 ^ k"
    using unat_low_counter [OF assms] by simp
  then show ?case unfolding d by (simp add: mod_Suc_eq)
qed

lemma low_counter_cycle:
  fixes w :: "'a::len word"
  assumes "k < LENGTH('a)"
  shows "drop_bit k ((low_counter k ^^ n) w) = drop_bit k w"
    and "(low_counter k ^^ 2 ^ k) w = w"
    and "inj_on (\<lambda>i. (low_counter k ^^ i) w) {..<2 ^ k}"
proof -
  note it = unat_low_counter_iter [OF assms]
  have "unat ((low_counter k ^^ n) w) div 2 ^ k = unat w div 2 ^ k" unfolding it by simp
  then show "drop_bit k ((low_counter k ^^ n) w) = drop_bit k w"
    unfolding word_unat_eq_iff unat_drop_bit_eq by (simp add: drop_bit_eq_div)
  show "(low_counter k ^^ 2 ^ k) w = w"
    unfolding word_unat_eq_iff it mod_add_self2 mod_mod_trivial by (rule div_mult_mod_eq)
  show "inj_on (\<lambda>i. (low_counter k ^^ i) w) {..<2 ^ k}"
  proof (rule inj_onI)
    fix i j assume ij: "i \<in> {..<2 ^ k}" "j \<in> {..<2 ^ k}" "(low_counter k ^^ i) w = (low_counter k ^^ j) w"
    then have "(unat w mod 2 ^ k + i) mod 2 ^ k = (unat w mod 2 ^ k + j) mod 2 ^ k"
      unfolding word_unat_eq_iff it by simp
    then have "i mod 2 ^ k = j mod 2 ^ k" unfolding nat_mod_eq_iff by auto
    with ij show "i = j" by simp
  qed
qed

end
