(* ===== verification/Openflow_Header.thy ===== *)
theory Openflow_Header
  imports Trema_Prelude
begin

text \<open>
  The protocol constants and the host-order structures of OpenFlow 1.0 that trema includes from
  \<open>openflow.h\<close>.  The header is unpacked by the build from the archive
  \<open>vendor/openflow-1.0.0.tar.gz\<close> of the repository (\<open>include/openflow/openflow.h\<close>); the values and
  the field order below are those of that file.  Sizes and offsets are the ones its build-time
  assertions fix.  A byte array of a fixed size (a MAC address, a port name) is a word of that many
  bits, its first byte the most significant one.
\<close>

section \<open>Constants\<close>

abbreviation "OFP_VERSION \<equiv> (1 :: 8 word)"

abbreviation "OFPT_HELLO \<equiv> (0 :: 8 word)"
abbreviation "OFPT_ERROR \<equiv> (1 :: 8 word)"
abbreviation "OFPT_ECHO_REQUEST \<equiv> (2 :: 8 word)"
abbreviation "OFPT_ECHO_REPLY \<equiv> (3 :: 8 word)"
abbreviation "OFPT_VENDOR \<equiv> (4 :: 8 word)"
abbreviation "OFPT_FEATURES_REQUEST \<equiv> (5 :: 8 word)"
abbreviation "OFPT_FEATURES_REPLY \<equiv> (6 :: 8 word)"
abbreviation "OFPT_GET_CONFIG_REQUEST \<equiv> (7 :: 8 word)"
abbreviation "OFPT_GET_CONFIG_REPLY \<equiv> (8 :: 8 word)"
abbreviation "OFPT_SET_CONFIG \<equiv> (9 :: 8 word)"
abbreviation "OFPT_PACKET_IN \<equiv> (10 :: 8 word)"
abbreviation "OFPT_FLOW_REMOVED \<equiv> (11 :: 8 word)"
abbreviation "OFPT_PORT_STATUS \<equiv> (12 :: 8 word)"
abbreviation "OFPT_PACKET_OUT \<equiv> (13 :: 8 word)"
abbreviation "OFPT_FLOW_MOD \<equiv> (14 :: 8 word)"
abbreviation "OFPT_PORT_MOD \<equiv> (15 :: 8 word)"
abbreviation "OFPT_STATS_REQUEST \<equiv> (16 :: 8 word)"
abbreviation "OFPT_STATS_REPLY \<equiv> (17 :: 8 word)"
abbreviation "OFPT_BARRIER_REQUEST \<equiv> (18 :: 8 word)"
abbreviation "OFPT_BARRIER_REPLY \<equiv> (19 :: 8 word)"
abbreviation "OFPT_QUEUE_GET_CONFIG_REQUEST \<equiv> (20 :: 8 word)"
abbreviation "OFPT_QUEUE_GET_CONFIG_REPLY \<equiv> (21 :: 8 word)"

abbreviation "OFPP_MAX \<equiv> (0xff00 :: 16 word)"
abbreviation "OFPP_IN_PORT \<equiv> (0xfff8 :: 16 word)"
abbreviation "OFPP_LOCAL \<equiv> (0xfffe :: 16 word)"
abbreviation "OFPP_NONE \<equiv> (0xffff :: 16 word)"

abbreviation "OFPFW_IN_PORT \<equiv> (0x1 :: 32 word)"
abbreviation "OFPFW_DL_VLAN \<equiv> (0x2 :: 32 word)"
abbreviation "OFPFW_DL_SRC \<equiv> (0x4 :: 32 word)"
abbreviation "OFPFW_DL_DST \<equiv> (0x8 :: 32 word)"
abbreviation "OFPFW_DL_TYPE \<equiv> (0x10 :: 32 word)"
abbreviation "OFPFW_NW_PROTO \<equiv> (0x20 :: 32 word)"
abbreviation "OFPFW_TP_SRC \<equiv> (0x40 :: 32 word)"
abbreviation "OFPFW_TP_DST \<equiv> (0x80 :: 32 word)"
abbreviation "OFPFW_NW_SRC_SHIFT \<equiv> (8 :: nat)"
abbreviation "OFPFW_NW_SRC_MASK \<equiv> (0x3f00 :: 32 word)"
abbreviation "OFPFW_NW_SRC_ALL \<equiv> (0x2000 :: 32 word)"
abbreviation "OFPFW_NW_DST_SHIFT \<equiv> (14 :: nat)"
abbreviation "OFPFW_NW_DST_MASK \<equiv> (0xfc000 :: 32 word)"
abbreviation "OFPFW_NW_DST_ALL \<equiv> (0x80000 :: 32 word)"
abbreviation "OFPFW_DL_VLAN_PCP \<equiv> (0x100000 :: 32 word)"
abbreviation "OFPFW_NW_TOS \<equiv> (0x200000 :: 32 word)"
abbreviation "OFPFW_ALL \<equiv> (0x3fffff :: 32 word)"

abbreviation "OFPFC_ADD \<equiv> (0 :: 16 word)"
abbreviation "OFPFC_MODIFY \<equiv> (1 :: 16 word)"
abbreviation "OFPFC_MODIFY_STRICT \<equiv> (2 :: 16 word)"
abbreviation "OFPFC_DELETE \<equiv> (3 :: 16 word)"
abbreviation "OFPFC_DELETE_STRICT \<equiv> (4 :: 16 word)"

abbreviation "OFPC_FRAG_MASK \<equiv> (3 :: 16 word)"
abbreviation "OFPR_ACTION \<equiv> (1 :: 8 word)"
abbreviation "OFPRR_DELETE \<equiv> (2 :: 8 word)"
abbreviation "OFPPR_MODIFY \<equiv> (2 :: 8 word)"
abbreviation "OFPSF_REPLY_MORE \<equiv> (1 :: 16 word)"
abbreviation "OFPFF_SEND_FLOW_REM \<equiv> (1 :: 16 word)"

abbreviation "OFPAT_OUTPUT \<equiv> (0 :: 16 word)"
abbreviation "OFPAT_SET_VLAN_VID \<equiv> (1 :: 16 word)"
abbreviation "OFPAT_SET_VLAN_PCP \<equiv> (2 :: 16 word)"
abbreviation "OFPAT_STRIP_VLAN \<equiv> (3 :: 16 word)"
abbreviation "OFPAT_SET_DL_SRC \<equiv> (4 :: 16 word)"
abbreviation "OFPAT_SET_DL_DST \<equiv> (5 :: 16 word)"
abbreviation "OFPAT_SET_NW_SRC \<equiv> (6 :: 16 word)"
abbreviation "OFPAT_SET_NW_DST \<equiv> (7 :: 16 word)"
abbreviation "OFPAT_SET_NW_TOS \<equiv> (8 :: 16 word)"
abbreviation "OFPAT_SET_TP_SRC \<equiv> (9 :: 16 word)"
abbreviation "OFPAT_SET_TP_DST \<equiv> (10 :: 16 word)"
abbreviation "OFPAT_ENQUEUE \<equiv> (11 :: 16 word)"
abbreviation "OFPAT_VENDOR \<equiv> (0xffff :: 16 word)"

abbreviation "OFPST_DESC \<equiv> (0 :: 16 word)"
abbreviation "OFPST_FLOW \<equiv> (1 :: 16 word)"
abbreviation "OFPST_AGGREGATE \<equiv> (2 :: 16 word)"
abbreviation "OFPST_TABLE \<equiv> (3 :: 16 word)"
abbreviation "OFPST_PORT \<equiv> (4 :: 16 word)"
abbreviation "OFPST_QUEUE \<equiv> (5 :: 16 word)"
abbreviation "OFPST_VENDOR \<equiv> (0xffff :: 16 word)"

abbreviation "OFPQT_NONE \<equiv> (0 :: 16 word)"
abbreviation "OFPQT_MIN_RATE \<equiv> (1 :: 16 word)"

abbreviation "OFPET_HELLO_FAILED \<equiv> (0 :: 16 word)"
abbreviation "OFPET_BAD_REQUEST \<equiv> (1 :: 16 word)"
abbreviation "OFPET_BAD_ACTION \<equiv> (2 :: 16 word)"
abbreviation "OFPET_FLOW_MOD_FAILED \<equiv> (3 :: 16 word)"
abbreviation "OFPET_PORT_MOD_FAILED \<equiv> (4 :: 16 word)"
abbreviation "OFPET_QUEUE_OP_FAILED \<equiv> (5 :: 16 word)"

abbreviation "OFPHFC_INCOMPATIBLE \<equiv> (0 :: 16 word)"
abbreviation "OFPBRC_BAD_VERSION \<equiv> (0 :: 16 word)"
abbreviation "OFPBRC_BAD_TYPE \<equiv> (1 :: 16 word)"
abbreviation "OFPBRC_BAD_STAT \<equiv> (2 :: 16 word)"
abbreviation "OFPBRC_EPERM \<equiv> (5 :: 16 word)"
abbreviation "OFPBRC_BAD_LEN \<equiv> (6 :: 16 word)"
abbreviation "OFPBAC_BAD_TYPE \<equiv> (0 :: 16 word)"
abbreviation "OFPBAC_BAD_LEN \<equiv> (1 :: 16 word)"
abbreviation "OFPBAC_BAD_OUT_PORT \<equiv> (4 :: 16 word)"
abbreviation "OFPBAC_BAD_ARGUMENT \<equiv> (5 :: 16 word)"
abbreviation "OFPFMFC_EPERM \<equiv> (2 :: 16 word)"
abbreviation "OFPFMFC_BAD_COMMAND \<equiv> (4 :: 16 word)"
abbreviation "OFPPMFC_BAD_PORT \<equiv> (0 :: 16 word)"
abbreviation "OFPQOFC_BAD_PORT \<equiv> (0 :: 16 word)"

abbreviation "UINT16_MAX \<equiv> (0xffff :: 16 word)"
abbreviation "UINT32_MAX \<equiv> (0xffffffff :: 32 word)"
abbreviation "UINT64_MAX \<equiv> (0xffffffffffffffff :: 64 word)"

section \<open>Host-order structures\<close>

type_synonym mac = "48 word"

record ofp_match =
  wildcards :: "32 word"
  in_port :: "16 word"
  dl_src :: mac
  dl_dst :: mac
  dl_vlan :: "16 word"
  dl_vlan_pcp :: "8 word"
  pad1 :: "8 word"
  dl_type :: "16 word"
  nw_tos :: "8 word"
  nw_proto :: "8 word"
  pad2 :: "16 word"
  nw_src :: "32 word"
  nw_dst :: "32 word"
  tp_src :: "16 word"
  tp_dst :: "16 word"

record ofp_phy_port =
  pp_port_no :: "16 word"
  pp_hw_addr :: mac
  pp_name :: "128 word"
  pp_config :: "32 word"
  pp_state :: "32 word"
  pp_curr :: "32 word"
  pp_advertised :: "32 word"
  pp_supported :: "32 word"
  pp_peer :: "32 word"

text \<open>
  The action structures.  The type field selects the structure, so an action is a tagged union;
  the pairs that share a structure (source and destination) keep their type field, and every
  constructor keeps the length field.  \<open>Undefined_action\<close> is a header whose type is none of the
  defined ones.
\<close>

datatype ofp_action =
    Action_output "16 word" "16 word" "16 word"
  | Action_vlan_vid "16 word" "16 word"
  | Action_vlan_pcp "16 word" "8 word"
  | Action_strip_vlan "16 word"
  | Action_dl_src "16 word" mac
  | Action_dl_dst "16 word" mac
  | Action_nw_src "16 word" "32 word"
  | Action_nw_dst "16 word" "32 word"
  | Action_nw_tos "16 word" "8 word"
  | Action_tp_src "16 word" "16 word"
  | Action_tp_dst "16 word" "16 word"
  | Action_enqueue "16 word" "16 word" "32 word"
  | Action_vendor "16 word" "32 word" bytes
  | Undefined_action "16 word" "16 word"

fun action_len :: "ofp_action \<Rightarrow> 16 word" where
  "action_len (Action_output len _ _) = len"
| "action_len (Action_vlan_vid len _) = len"
| "action_len (Action_vlan_pcp len _) = len"
| "action_len (Action_strip_vlan len) = len"
| "action_len (Action_dl_src len _) = len"
| "action_len (Action_dl_dst len _) = len"
| "action_len (Action_nw_src len _) = len"
| "action_len (Action_nw_dst len _) = len"
| "action_len (Action_nw_tos len _) = len"
| "action_len (Action_tp_src len _) = len"
| "action_len (Action_tp_dst len _) = len"
| "action_len (Action_enqueue len _ _) = len"
| "action_len (Action_vendor len _ _) = len"
| "action_len (Undefined_action _ len) = len"

record ofp_table_stats =
  ts_table_id :: "8 word"
  ts_name :: "256 word"
  ts_wildcards :: "32 word"
  ts_max_entries :: "32 word"
  ts_active_count :: "32 word"
  ts_lookup_count :: "64 word"
  ts_matched_count :: "64 word"

record ofp_port_stats =
  ps_port_no :: "16 word"
  ps_rx_packets :: "64 word"
  ps_tx_packets :: "64 word"
  ps_rx_bytes :: "64 word"
  ps_tx_bytes :: "64 word"
  ps_rx_dropped :: "64 word"
  ps_tx_dropped :: "64 word"
  ps_rx_errors :: "64 word"
  ps_tx_errors :: "64 word"
  ps_rx_frame_err :: "64 word"
  ps_rx_over_err :: "64 word"
  ps_rx_crc_err :: "64 word"
  ps_collisions :: "64 word"

record ofp_queue_stats =
  qs_port_no :: "16 word"
  qs_queue_id :: "32 word"
  qs_tx_bytes :: "64 word"
  qs_tx_packets :: "64 word"
  qs_tx_errors :: "64 word"

record ofp_flow_stats =
  fs_length :: "16 word"
  fs_table_id :: "8 word"
  fs_match :: ofp_match
  fs_duration_sec :: "32 word"
  fs_duration_nsec :: "32 word"
  fs_priority :: "16 word"
  fs_idle_timeout :: "16 word"
  fs_hard_timeout :: "16 word"
  fs_cookie :: "64 word"
  fs_packet_count :: "64 word"
  fs_byte_count :: "64 word"
  fs_actions :: "ofp_action list"

end
