(* ===== verification/Packet_Info.thy ===== *)
theory Packet_Info
  imports Openflow_Header
begin

text \<open>
  The parse result of a frame, \<open>packet_info\<close> of \<open>src/lib/packet_info.h\<close>, and the predicates of
  \<open>src/lib/packet_info.c\<close>.  A byte array is the number its bytes spell in network order; a pointer
  into the frame is an offset, \<open>None\<close> for \<open>NULL\<close>.  The predicates get the frame's \<open>user_data\<close>, which is
  \<open>None\<close> before the frame is parsed.
\<close>

section \<open>Constants\<close>

abbreviation "ETH_DIX \<equiv> (0x1 :: 32 word)"
abbreviation "ETH_8023_RAW \<equiv> (0x2 :: 32 word)"
abbreviation "ETH_8023_LLC \<equiv> (0x4 :: 32 word)"
abbreviation "ETH_8023_SNAP \<equiv> (0x8 :: 32 word)"
abbreviation "ETH_8021Q \<equiv> (0x10 :: 32 word)"
abbreviation "NW_IPV4 \<equiv> (0x100 :: 32 word)"
abbreviation "NW_ICMPV4 \<equiv> (0x200 :: 32 word)"
abbreviation "NW_IPV6 \<equiv> (0x400 :: 32 word)"
abbreviation "NW_ARP \<equiv> (0x1000 :: 32 word)"
abbreviation "NW_IGMP \<equiv> (0x2000 :: 32 word)"
abbreviation "NW_LLDP \<equiv> (0x4000 :: 32 word)"
abbreviation "NW_RARP \<equiv> (0x8000 :: 32 word)"
abbreviation "TP_TCP \<equiv> (0x10000 :: 32 word)"
abbreviation "TP_UDP \<equiv> (0x20000 :: 32 word)"
abbreviation "TP_ETHERIP \<equiv> (0x40000 :: 32 word)"

abbreviation "ETH_ETHTYPE_IPV4 \<equiv> (0x0800 :: 16 word)"
abbreviation "ETH_ETHTYPE_ARP \<equiv> (0x0806 :: 16 word)"
abbreviation "ETH_ETHTYPE_RARP \<equiv> (0x8035 :: 16 word)"
abbreviation "ETH_ETHTYPE_TPID \<equiv> (0x8100 :: 16 word)"
abbreviation "ETH_ETHTYPE_IPV6 \<equiv> (0x86dd :: 16 word)"
abbreviation "ETH_ETHTYPE_LLDP \<equiv> (0x88cc :: 16 word)"
abbreviation "ETH_MTU \<equiv> (1500 :: 16 word)"
abbreviation "IPPROTO_ICMP \<equiv> (1 :: 8 word)"
abbreviation "IPPROTO_IGMP \<equiv> (2 :: 8 word)"
abbreviation "IPPROTO_TCP \<equiv> (6 :: 8 word)"
abbreviation "IPPROTO_UDP \<equiv> (17 :: 8 word)"
abbreviation "IPPROTO_ETHERIP \<equiv> (97 :: 8 word)"
abbreviation "IP_OFFMASK \<equiv> (0x1fff :: 16 word)"
abbreviation "ARP_OP_REQUEST \<equiv> (1 :: 16 word)"
abbreviation "ARP_OP_REPLY \<equiv> (2 :: 16 word)"
abbreviation "ARP_OP_RREQUEST \<equiv> (3 :: 16 word)"
abbreviation "ARP_OP_RREPLY \<equiv> (4 :: 16 word)"
abbreviation "ICMP_TYPE_ECHOREP \<equiv> (0 :: 8 word)"
abbreviation "ICMP_TYPE_UNREACH \<equiv> (3 :: 8 word)"
abbreviation "ICMP_TYPE_REDIRECT \<equiv> (5 :: 8 word)"
abbreviation "ICMP_TYPE_ECHOREQ \<equiv> (8 :: 8 word)"
abbreviation "IGMP_TYPE_MEMBERSHIP_QUERY \<equiv> (0x11 :: 8 word)"
abbreviation "IGMP_TYPE_V1_MEMBERSHIP_REPORT \<equiv> (0x12 :: 8 word)"
abbreviation "IGMP_TYPE_V2_MEMBERSHIP_REPORT \<equiv> (0x16 :: 8 word)"
abbreviation "IGMP_TYPE_V2_LEAVE_GROUP \<equiv> (0x17 :: 8 word)"
abbreviation "IGMP_TYPE_V3_MEMBERSHIP_REPORT \<equiv> (0x22 :: 8 word)"

section \<open>The structure\<close>

record packet_info =
  format :: "32 word"
  eth_macda :: "48 word"
  eth_macsa :: "48 word"
  eth_type :: "16 word"
  vlan_tci :: "16 word"
  vlan_tpid :: "16 word"
  vlan_prio :: "8 word"
  vlan_cfi :: "8 word"
  vlan_vid :: "16 word"
  snap_llc :: "24 word"
  snap_oui :: "24 word"
  snap_type :: "16 word"
  arp_ar_hrd :: "16 word"
  arp_ar_pro :: "16 word"
  arp_ar_hln :: "8 word"
  arp_ar_pln :: "8 word"
  arp_ar_op :: "16 word"
  arp_sha :: "48 word"
  arp_spa :: "32 word"
  arp_tha :: "48 word"
  arp_tpa :: "32 word"
  ipv4_version :: "8 word"
  ipv4_ihl :: "8 word"
  ipv4_tos :: "8 word"
  ipv4_tot_len :: "16 word"
  ipv4_id :: "16 word"
  ipv4_frag_off :: "16 word"
  ipv4_ttl :: "8 word"
  ipv4_protocol :: "8 word"
  ipv4_checksum :: "16 word"
  ipv4_saddr :: "32 word"
  ipv4_daddr :: "32 word"
  ipv6_version :: "8 word"
  ipv6_tc :: "8 word"
  ipv6_flowlabel :: "32 word"
  ipv6_plen :: "16 word"
  ipv6_nexthdr :: "16 word"
  ipv6_hoplimit :: "16 word"
  ipv6_saddr :: "128 word"
  ipv6_daddr :: "128 word"
  icmpv4_type :: "8 word"
  icmpv4_code :: "8 word"
  icmpv4_checksum :: "16 word"
  icmpv4_id :: "16 word"
  icmpv4_seq :: "16 word"
  icmpv4_gateway :: "32 word"
  igmp_type :: "8 word"
  igmp_code :: "8 word"
  igmp_checksum :: "16 word"
  igmp_group :: "32 word"
  tcp_src_port :: "16 word"
  tcp_dst_port :: "16 word"
  tcp_seq_no :: "32 word"
  tcp_ack_no :: "32 word"
  tcp_offset :: "8 word"
  tcp_flags :: "8 word"
  tcp_window :: "16 word"
  tcp_checksum :: "16 word"
  tcp_urgent :: "16 word"
  udp_src_port :: "16 word"
  udp_dst_port :: "16 word"
  udp_len :: "16 word"
  udp_checksum :: "16 word"
  etherip_version :: "16 word"
  etherip_offset :: "16 word"
  l2_header :: "nat option"
  l2_payload :: "nat option"
  l2_payload_length :: nat
  l3_header :: "nat option"
  l3_payload :: "nat option"
  l3_payload_length :: nat
  l4_header :: "nat option"
  l4_payload :: "nat option"
  l4_payload_length :: nat

text \<open>The zeroed structure of \<open>calloc_packet_info\<close>.\<close>

definition calloc_packet_info :: packet_info where
  "calloc_packet_info =
    \<lparr>format = 0, eth_macda = 0, eth_macsa = 0, eth_type = 0, vlan_tci = 0, vlan_tpid = 0,
     vlan_prio = 0, vlan_cfi = 0, vlan_vid = 0, snap_llc = 0, snap_oui = 0, snap_type = 0,
     arp_ar_hrd = 0, arp_ar_pro = 0, arp_ar_hln = 0, arp_ar_pln = 0, arp_ar_op = 0, arp_sha = 0,
     arp_spa = 0, arp_tha = 0, arp_tpa = 0, ipv4_version = 0, ipv4_ihl = 0, ipv4_tos = 0,
     ipv4_tot_len = 0, ipv4_id = 0, ipv4_frag_off = 0, ipv4_ttl = 0, ipv4_protocol = 0,
     ipv4_checksum = 0, ipv4_saddr = 0, ipv4_daddr = 0, ipv6_version = 0, ipv6_tc = 0,
     ipv6_flowlabel = 0, ipv6_plen = 0, ipv6_nexthdr = 0, ipv6_hoplimit = 0, ipv6_saddr = 0,
     ipv6_daddr = 0, icmpv4_type = 0, icmpv4_code = 0, icmpv4_checksum = 0, icmpv4_id = 0,
     icmpv4_seq = 0, icmpv4_gateway = 0, igmp_type = 0, igmp_code = 0, igmp_checksum = 0,
     igmp_group = 0, tcp_src_port = 0, tcp_dst_port = 0, tcp_seq_no = 0, tcp_ack_no = 0,
     tcp_offset = 0, tcp_flags = 0, tcp_window = 0, tcp_checksum = 0, tcp_urgent = 0,
     udp_src_port = 0, udp_dst_port = 0, udp_len = 0, udp_checksum = 0, etherip_version = 0,
     etherip_offset = 0, l2_header = None, l2_payload = None, l2_payload_length = 0,
     l3_header = None, l3_payload = None, l3_payload_length = 0, l4_header = None,
     l4_payload = None, l4_payload_length = 0\<rparr>"

definition get_packet_info :: "packet_info option \<Rightarrow> packet_info" where
  "get_packet_info user_data = (case user_data of None \<Rightarrow> calloc_packet_info | Some info \<Rightarrow> info)"

section \<open>Predicates\<close>

definition if_packet_type :: "packet_info option \<Rightarrow> 32 word \<Rightarrow> bool" where
  "if_packet_type frame type \<longleftrightarrow> format (get_packet_info frame) AND type = type"

definition packet_type_eth_dix :: "packet_info option \<Rightarrow> bool" where
  "packet_type_eth_dix frame = if_packet_type frame ETH_DIX"

definition packet_type_eth_vtag :: "packet_info option \<Rightarrow> bool" where
  "packet_type_eth_vtag frame = if_packet_type frame ETH_8021Q"

definition packet_type_eth_raw :: "packet_info option \<Rightarrow> bool" where
  "packet_type_eth_raw frame = if_packet_type frame ETH_8023_RAW"

definition packet_type_eth_llc :: "packet_info option \<Rightarrow> bool" where
  "packet_type_eth_llc frame = if_packet_type frame ETH_8023_LLC"

definition packet_type_ether :: "packet_info option \<Rightarrow> bool" where
  "packet_type_ether frame \<longleftrightarrow> if_packet_type frame ETH_DIX \<or> if_packet_type frame ETH_8023_RAW \<or>
     if_packet_type frame ETH_8023_LLC \<or> if_packet_type frame ETH_8023_SNAP"

definition packet_type_eth_snap :: "packet_info option \<Rightarrow> bool" where
  "packet_type_eth_snap frame = if_packet_type frame ETH_8023_SNAP"

definition packet_type_arp :: "packet_info option \<Rightarrow> bool" where
  "packet_type_arp frame = if_packet_type frame NW_ARP"

definition packet_type_rarp :: "packet_info option \<Rightarrow> bool" where
  "packet_type_rarp frame = if_packet_type frame NW_RARP"

definition packet_type_ipv4 :: "packet_info option \<Rightarrow> bool" where
  "packet_type_ipv4 frame = if_packet_type frame NW_IPV4"

definition packet_type_ipv6 :: "packet_info option \<Rightarrow> bool" where
  "packet_type_ipv6 frame = if_packet_type frame NW_IPV6"

definition packet_type_lldp :: "packet_info option \<Rightarrow> bool" where
  "packet_type_lldp frame = if_packet_type frame NW_LLDP"

definition packet_type_icmpv4 :: "packet_info option \<Rightarrow> bool" where
  "packet_type_icmpv4 frame = if_packet_type frame NW_ICMPV4"

definition packet_type_igmp :: "packet_info option \<Rightarrow> bool" where
  "packet_type_igmp frame = if_packet_type frame NW_IGMP"

definition packet_type_ipv4_tcp :: "packet_info option \<Rightarrow> bool" where
  "packet_type_ipv4_tcp frame = if_packet_type frame (NW_IPV4 OR TP_TCP)"

definition packet_type_ipv6_tcp :: "packet_info option \<Rightarrow> bool" where
  "packet_type_ipv6_tcp frame = if_packet_type frame (NW_IPV6 OR TP_TCP)"

definition packet_type_ipv4_udp :: "packet_info option \<Rightarrow> bool" where
  "packet_type_ipv4_udp frame = if_packet_type frame (NW_IPV4 OR TP_UDP)"

definition packet_type_ipv6_udp :: "packet_info option \<Rightarrow> bool" where
  "packet_type_ipv6_udp frame = if_packet_type frame (NW_IPV6 OR TP_UDP)"

definition packet_type_ipv4_etherip :: "packet_info option \<Rightarrow> bool" where
  "packet_type_ipv4_etherip frame = if_packet_type frame (NW_IPV4 OR TP_ETHERIP)"

definition if_arp_opcode :: "packet_info option \<Rightarrow> 16 word \<Rightarrow> bool" where
  "if_arp_opcode frame c \<longleftrightarrow> arp_ar_op (get_packet_info frame) = c"

definition packet_type_arp_request :: "packet_info option \<Rightarrow> bool" where
  "packet_type_arp_request frame \<longleftrightarrow> if_packet_type frame NW_ARP \<and> if_arp_opcode frame ARP_OP_REQUEST"

definition packet_type_arp_reply :: "packet_info option \<Rightarrow> bool" where
  "packet_type_arp_reply frame \<longleftrightarrow> if_packet_type frame NW_ARP \<and> if_arp_opcode frame ARP_OP_REPLY"

definition packet_type_rarp_request :: "packet_info option \<Rightarrow> bool" where
  "packet_type_rarp_request frame \<longleftrightarrow> if_packet_type frame NW_RARP \<and> if_arp_opcode frame ARP_OP_RREQUEST"

definition packet_type_rarp_reply :: "packet_info option \<Rightarrow> bool" where
  "packet_type_rarp_reply frame \<longleftrightarrow> if_packet_type frame NW_RARP \<and> if_arp_opcode frame ARP_OP_RREPLY"

definition if_icmpv4_type :: "packet_info option \<Rightarrow> 8 word \<Rightarrow> bool" where
  "if_icmpv4_type frame c \<longleftrightarrow> icmpv4_type (get_packet_info frame) = c"

definition packet_type_icmpv4_echo_reply :: "packet_info option \<Rightarrow> bool" where
  "packet_type_icmpv4_echo_reply frame \<longleftrightarrow> if_packet_type frame NW_ICMPV4 \<and> if_icmpv4_type frame ICMP_TYPE_ECHOREP"

definition packet_type_icmpv4_dst_unreach :: "packet_info option \<Rightarrow> bool" where
  "packet_type_icmpv4_dst_unreach frame \<longleftrightarrow> if_packet_type frame NW_ICMPV4 \<and> if_icmpv4_type frame ICMP_TYPE_UNREACH"

definition packet_type_icmpv4_redirect :: "packet_info option \<Rightarrow> bool" where
  "packet_type_icmpv4_redirect frame \<longleftrightarrow> if_packet_type frame NW_ICMPV4 \<and> if_icmpv4_type frame ICMP_TYPE_REDIRECT"

definition packet_type_icmpv4_echo_request :: "packet_info option \<Rightarrow> bool" where
  "packet_type_icmpv4_echo_request frame \<longleftrightarrow> if_packet_type frame NW_ICMPV4 \<and> if_icmpv4_type frame ICMP_TYPE_ECHOREQ"

definition if_igmp_type :: "packet_info option \<Rightarrow> 8 word \<Rightarrow> bool" where
  "if_igmp_type frame c \<longleftrightarrow> igmp_type (get_packet_info frame) = c"

definition packet_type_igmp_membership_query :: "packet_info option \<Rightarrow> bool" where
  "packet_type_igmp_membership_query frame \<longleftrightarrow> if_packet_type frame NW_IGMP \<and> if_igmp_type frame IGMP_TYPE_MEMBERSHIP_QUERY"

definition packet_type_igmp_v1_membership_report :: "packet_info option \<Rightarrow> bool" where
  "packet_type_igmp_v1_membership_report frame \<longleftrightarrow> if_packet_type frame NW_IGMP \<and> if_igmp_type frame IGMP_TYPE_V1_MEMBERSHIP_REPORT"

definition packet_type_igmp_v2_membership_report :: "packet_info option \<Rightarrow> bool" where
  "packet_type_igmp_v2_membership_report frame \<longleftrightarrow> if_packet_type frame NW_IGMP \<and> if_igmp_type frame IGMP_TYPE_V2_MEMBERSHIP_REPORT"

definition packet_type_igmp_v2_leave_group :: "packet_info option \<Rightarrow> bool" where
  "packet_type_igmp_v2_leave_group frame \<longleftrightarrow> if_packet_type frame NW_IGMP \<and> if_igmp_type frame IGMP_TYPE_V2_LEAVE_GROUP"

definition packet_type_igmp_v3_membership_report :: "packet_info option \<Rightarrow> bool" where
  "packet_type_igmp_v3_membership_report frame \<longleftrightarrow> if_packet_type frame NW_IGMP \<and> if_igmp_type frame IGMP_TYPE_V3_MEMBERSHIP_REPORT"

end
