(* ===== verification/Byteorder.thy ===== *)
theory Byteorder
  imports Openflow_Header
begin

text \<open>
  The conversions of \<open>src/lib/byteorder.c\<close> between the structures in network byte order, which live
  in a message (bytes), and the structures in host byte order (records and \<open>ofp_action\<close>).
  \<open>ntoh_x m i\<close> reads the structure at offset \<open>i\<close> of \<open>m\<close>; \<open>hton_x s\<close> is the byte image that is
  written.  For most structures the header defines \<open>hton_x\<close> as \<open>ntoh_x\<close>, one function that swaps
  every field; here the two directions are two functions, and the theorems show them inverse.
\<close>

section \<open>Fields of a structure\<close>

definition rd_struct :: "nat \<Rightarrow> bytes \<Rightarrow> nat \<Rightarrow> bytes res" where
  "rd_struct n m i = (if i + n \<le> length m then Ok (take n (drop i m)) else Fault Out_of_bounds)"

definition fld :: "nat \<Rightarrow> bytes \<Rightarrow> nat \<Rightarrow> 'a::len word" where
  "fld n b i = be_get (take n (drop i b))"

lemma rd_struct_in [simp]: "i + n \<le> length m \<Longrightarrow> rd_struct n m i = Ok (take n (drop i m))"
  by (simp add: rd_struct_def)

lemma returns_rd_struct [simp]: "returns (rd_struct n m i) \<longleftrightarrow> i + n \<le> length m"
  by (simp add: rd_struct_def)

section \<open>Match, port and statistics structures\<close>

definition match_of :: "bytes \<Rightarrow> ofp_match" where
  "match_of b =
     \<lparr>wildcards = fld 4 b 0, in_port = fld 2 b 4, dl_src = fld 6 b 6, dl_dst = fld 6 b 12,
      dl_vlan = fld 2 b 18, dl_vlan_pcp = fld 1 b 20, pad1 = 0, dl_type = fld 2 b 22,
      nw_tos = fld 1 b 24, nw_proto = fld 1 b 25, pad2 = 0, nw_src = fld 4 b 28,
      nw_dst = fld 4 b 32, tp_src = fld 2 b 36, tp_dst = fld 2 b 38\<rparr>"

definition ntoh_match :: "bytes \<Rightarrow> nat \<Rightarrow> ofp_match res" where
  "ntoh_match m i = bnd (rd_struct 40 m i) (\<lambda>b. Ok (match_of b))"

definition hton_match :: "ofp_match \<Rightarrow> bytes" where
  "hton_match s =
     put32 (wildcards s) @ put16 (in_port s) @ put48 (dl_src s) @ put48 (dl_dst s) @
     put16 (dl_vlan s) @ put8 (dl_vlan_pcp s) @ replicate 1 0 @ put16 (dl_type s) @
     put8 (nw_tos s) @ put8 (nw_proto s) @ replicate 2 0 @ put32 (nw_src s) @
     put32 (nw_dst s) @ put16 (tp_src s) @ put16 (tp_dst s)"

definition phy_port_of :: "bytes \<Rightarrow> ofp_phy_port" where
  "phy_port_of b =
     \<lparr>pp_port_no = fld 2 b 0, pp_hw_addr = fld 6 b 2, pp_name = fld 16 b 8, pp_config = fld 4 b 24,
      pp_state = fld 4 b 28, pp_curr = fld 4 b 32, pp_advertised = fld 4 b 36,
      pp_supported = fld 4 b 40, pp_peer = fld 4 b 44\<rparr>"

definition ntoh_phy_port :: "bytes \<Rightarrow> nat \<Rightarrow> ofp_phy_port res" where
  "ntoh_phy_port m i = bnd (rd_struct 48 m i) (\<lambda>b. Ok (phy_port_of b))"

definition hton_phy_port :: "ofp_phy_port \<Rightarrow> bytes" where
  "hton_phy_port s =
     put16 (pp_port_no s) @ put48 (pp_hw_addr s) @ be_put 16 (pp_name s) @ put32 (pp_config s) @
     put32 (pp_state s) @ put32 (pp_curr s) @ put32 (pp_advertised s) @ put32 (pp_supported s) @
     put32 (pp_peer s)"

definition ntoh_table_stats :: "bytes \<Rightarrow> nat \<Rightarrow> ofp_table_stats res" where
  "ntoh_table_stats m i = bnd (rd_struct 64 m i) (\<lambda>b. Ok
     \<lparr>ts_table_id = fld 1 b 0, ts_name = fld 32 b 4, ts_wildcards = fld 4 b 36,
      ts_max_entries = fld 4 b 40, ts_active_count = fld 4 b 44, ts_lookup_count = fld 8 b 48,
      ts_matched_count = fld 8 b 56\<rparr>)"

definition hton_table_stats :: "ofp_table_stats \<Rightarrow> bytes" where
  "hton_table_stats s =
     put8 (ts_table_id s) @ replicate 3 0 @ be_put 32 (ts_name s) @ put32 (ts_wildcards s) @
     put32 (ts_max_entries s) @ put32 (ts_active_count s) @ put64 (ts_lookup_count s) @
     put64 (ts_matched_count s)"

definition ntoh_port_stats :: "bytes \<Rightarrow> nat \<Rightarrow> ofp_port_stats res" where
  "ntoh_port_stats m i = bnd (rd_struct 104 m i) (\<lambda>b. Ok
     \<lparr>ps_port_no = fld 2 b 0, ps_rx_packets = fld 8 b 8, ps_tx_packets = fld 8 b 16,
      ps_rx_bytes = fld 8 b 24, ps_tx_bytes = fld 8 b 32, ps_rx_dropped = fld 8 b 40,
      ps_tx_dropped = fld 8 b 48, ps_rx_errors = fld 8 b 56, ps_tx_errors = fld 8 b 64,
      ps_rx_frame_err = fld 8 b 72, ps_rx_over_err = fld 8 b 80, ps_rx_crc_err = fld 8 b 88,
      ps_collisions = fld 8 b 96\<rparr>)"

definition hton_port_stats :: "ofp_port_stats \<Rightarrow> bytes" where
  "hton_port_stats s =
     put16 (ps_port_no s) @ replicate 6 0 @ put64 (ps_rx_packets s) @ put64 (ps_tx_packets s) @
     put64 (ps_rx_bytes s) @ put64 (ps_tx_bytes s) @ put64 (ps_rx_dropped s) @
     put64 (ps_tx_dropped s) @ put64 (ps_rx_errors s) @ put64 (ps_tx_errors s) @
     put64 (ps_rx_frame_err s) @ put64 (ps_rx_over_err s) @ put64 (ps_rx_crc_err s) @
     put64 (ps_collisions s)"

definition ntoh_queue_stats :: "bytes \<Rightarrow> nat \<Rightarrow> ofp_queue_stats res" where
  "ntoh_queue_stats m i = bnd (rd_struct 32 m i) (\<lambda>b. Ok
     \<lparr>qs_port_no = fld 2 b 0, qs_queue_id = fld 4 b 4, qs_tx_bytes = fld 8 b 8,
      qs_tx_packets = fld 8 b 16, qs_tx_errors = fld 8 b 24\<rparr>)"

definition hton_queue_stats :: "ofp_queue_stats \<Rightarrow> bytes" where
  "hton_queue_stats s =
     put16 (qs_port_no s) @ replicate 2 0 @ put32 (qs_queue_id s) @ put64 (qs_tx_bytes s) @
     put64 (qs_tx_packets s) @ put64 (qs_tx_errors s)"

section \<open>Actions\<close>

definition ntoh_action_vendor :: "bytes \<Rightarrow> nat \<Rightarrow> ofp_action res" where
  "ntoh_action_vendor m i =
     bnd (rd_struct 8 m i) (\<lambda>b.
     let len = fld 2 b 2 in
     if unat len < 8 then Fault Out_of_bounds
     else bnd (rd_struct (unat len - 8) m (i + 8)) (\<lambda>body. Ok (Action_vendor len (fld 4 b 4) body)))"

definition hton_action_vendor :: "16 word \<Rightarrow> 32 word \<Rightarrow> bytes \<Rightarrow> bytes res" where
  "hton_action_vendor len vendor body =
     (if unat len < 8 then Fault Out_of_bounds
      else bnd (rd_struct (unat len - 8) body 0) (\<lambda>b.
           Ok (put16 OFPAT_VENDOR @ put16 len @ put32 vendor @ b)))"

definition ntoh_action :: "bytes \<Rightarrow> nat \<Rightarrow> ofp_action res" where
  "ntoh_action m i =
     bnd (rd16 m i) (\<lambda>type.
     if type = OFPAT_OUTPUT then
       bnd (rd_struct 8 m i) (\<lambda>b. Ok (Action_output (fld 2 b 2) (fld 2 b 4) (fld 2 b 6)))
     else if type = OFPAT_SET_VLAN_VID then
       bnd (rd_struct 8 m i) (\<lambda>b. Ok (Action_vlan_vid (fld 2 b 2) (fld 2 b 4)))
     else if type = OFPAT_SET_VLAN_PCP then
       bnd (rd_struct 8 m i) (\<lambda>b. Ok (Action_vlan_pcp (fld 2 b 2) (fld 1 b 4)))
     else if type = OFPAT_STRIP_VLAN then
       bnd (rd_struct 8 m i) (\<lambda>b. Ok (Action_strip_vlan (fld 2 b 2)))
     else if type = OFPAT_SET_DL_SRC then
       bnd (rd_struct 16 m i) (\<lambda>b. Ok (Action_dl_src (fld 2 b 2) (fld 6 b 4)))
     else if type = OFPAT_SET_DL_DST then
       bnd (rd_struct 16 m i) (\<lambda>b. Ok (Action_dl_dst (fld 2 b 2) (fld 6 b 4)))
     else if type = OFPAT_SET_NW_SRC then
       bnd (rd_struct 8 m i) (\<lambda>b. Ok (Action_nw_src (fld 2 b 2) (fld 4 b 4)))
     else if type = OFPAT_SET_NW_DST then
       bnd (rd_struct 8 m i) (\<lambda>b. Ok (Action_nw_dst (fld 2 b 2) (fld 4 b 4)))
     else if type = OFPAT_SET_NW_TOS then
       bnd (rd_struct 8 m i) (\<lambda>b. Ok (Action_nw_tos (fld 2 b 2) (fld 1 b 4)))
     else if type = OFPAT_SET_TP_SRC then
       bnd (rd_struct 8 m i) (\<lambda>b. Ok (Action_tp_src (fld 2 b 2) (fld 2 b 4)))
     else if type = OFPAT_SET_TP_DST then
       bnd (rd_struct 8 m i) (\<lambda>b. Ok (Action_tp_dst (fld 2 b 2) (fld 2 b 4)))
     else if type = OFPAT_ENQUEUE then
       bnd (rd_struct 16 m i) (\<lambda>b. Ok (Action_enqueue (fld 2 b 2) (fld 2 b 4) (fld 4 b 12)))
     else if type = OFPAT_VENDOR then ntoh_action_vendor m i
     else Fault Die)"

fun hton_action :: "ofp_action \<Rightarrow> bytes res" where
  "hton_action (Action_output len port max_len) =
     Ok (put16 OFPAT_OUTPUT @ put16 len @ put16 port @ put16 max_len)"
| "hton_action (Action_vlan_vid len vid) =
     Ok (put16 OFPAT_SET_VLAN_VID @ put16 len @ put16 vid @ replicate 2 0)"
| "hton_action (Action_vlan_pcp len pcp) =
     Ok (put16 OFPAT_SET_VLAN_PCP @ put16 len @ put8 pcp @ replicate 3 0)"
| "hton_action (Action_strip_vlan len) =
     Ok (put16 OFPAT_STRIP_VLAN @ put16 len @ replicate 4 0)"
| "hton_action (Action_dl_src len addr) =
     Ok (put16 OFPAT_SET_DL_SRC @ put16 len @ put48 addr @ replicate 6 0)"
| "hton_action (Action_dl_dst len addr) =
     Ok (put16 OFPAT_SET_DL_DST @ put16 len @ put48 addr @ replicate 6 0)"
| "hton_action (Action_nw_src len addr) =
     Ok (put16 OFPAT_SET_NW_SRC @ put16 len @ put32 addr)"
| "hton_action (Action_nw_dst len addr) =
     Ok (put16 OFPAT_SET_NW_DST @ put16 len @ put32 addr)"
| "hton_action (Action_nw_tos len tos) =
     Ok (put16 OFPAT_SET_NW_TOS @ put16 len @ put8 tos @ replicate 3 0)"
| "hton_action (Action_tp_src len port) =
     Ok (put16 OFPAT_SET_TP_SRC @ put16 len @ put16 port @ replicate 2 0)"
| "hton_action (Action_tp_dst len port) =
     Ok (put16 OFPAT_SET_TP_DST @ put16 len @ put16 port @ replicate 2 0)"
| "hton_action (Action_enqueue len port queue_id) =
     Ok (put16 OFPAT_ENQUEUE @ put16 len @ put16 port @ replicate 6 0 @ put32 queue_id)"
| "hton_action (Action_vendor len vendor body) = hton_action_vendor len vendor body"
| "hton_action (Undefined_action type len) = Fault Die"

section \<open>Flow statistics\<close>

text \<open>The actions of an entry: the loop is driven by the 16-bit length that remains.\<close>

fun hton_flow_actions :: "ofp_action list \<Rightarrow> 16 word \<Rightarrow> nat \<Rightarrow> bytes \<Rightarrow> bytes res" where
  "hton_flow_actions as actions_length off m =
     (if 8 \<le> unat actions_length then
        case as of
          [] \<Rightarrow> Fault Out_of_bounds
        | a # as' \<Rightarrow>
            bnd (hton_action a) (\<lambda>bs.
            bnd (wr off bs m) (\<lambda>m'.
            hton_flow_actions as' (actions_length - action_len a) (off + unat (action_len a)) m'))
      else Ok m)"

declare hton_flow_actions.simps [simp del]

definition hton_flow_stats_fixed :: "ofp_flow_stats \<Rightarrow> bytes" where
  "hton_flow_stats_fixed s =
     put16 (fs_length s) @ put8 (fs_table_id s) @ replicate 1 0 @ hton_match (fs_match s) @
     put32 (fs_duration_sec s) @ put32 (fs_duration_nsec s) @ put16 (fs_priority s) @
     put16 (fs_idle_timeout s) @ put16 (fs_hard_timeout s) @ replicate 6 0 @ put64 (fs_cookie s) @
     put64 (fs_packet_count s) @ put64 (fs_byte_count s)"

definition hton_flow_stats :: "ofp_flow_stats \<Rightarrow> nat \<Rightarrow> bytes \<Rightarrow> bytes res" where
  "hton_flow_stats s off m =
     bnd (wr off (hton_flow_stats_fixed s) m) (\<lambda>m'.
     hton_flow_actions (fs_actions s) (fs_length s - 88) (off + 88) m')"

fun ntoh_flow_actions :: "nat \<Rightarrow> bytes \<Rightarrow> nat \<Rightarrow> 16 word \<Rightarrow> ofp_action list res" where
  "ntoh_flow_actions 0 m off actions_length = Fault No_return"
| "ntoh_flow_actions (Suc fuel) m off actions_length =
     (if 8 \<le> unat actions_length then
        bnd (ntoh_action m off) (\<lambda>a.
        bnd (ntoh_flow_actions fuel m (off + unat (action_len a)) (actions_length - action_len a)) (\<lambda>as.
        Ok (a # as)))
      else Ok [])"

definition ntoh_flow_stats :: "nat \<Rightarrow> bytes \<Rightarrow> nat \<Rightarrow> ofp_flow_stats res" where
  "ntoh_flow_stats fuel m i =
     bnd (rd_struct 88 m i) (\<lambda>b.
     bnd (ntoh_flow_actions fuel m (i + 88) (fld 2 b 0 - 88)) (\<lambda>as.
     Ok \<lparr>fs_length = fld 2 b 0, fs_table_id = fld 1 b 2, fs_match = match_of (take 40 (drop 4 b)),
         fs_duration_sec = fld 4 b 44, fs_duration_nsec = fld 4 b 48, fs_priority = fld 2 b 52,
         fs_idle_timeout = fld 2 b 54, fs_hard_timeout = fld 2 b 56, fs_cookie = fld 8 b 64,
         fs_packet_count = fld 8 b 72, fs_byte_count = fld 8 b 80, fs_actions = as\<rparr>))"

section \<open>Aggregate statistics and packet queues\<close>

record ofp_aggregate_stats =
  as_packet_count :: "64 word"
  as_byte_count :: "64 word"
  as_flow_count :: "32 word"

definition ntoh_aggregate_stats :: "bytes \<Rightarrow> nat \<Rightarrow> ofp_aggregate_stats res" where
  "ntoh_aggregate_stats m i = bnd (rd_struct 24 m i) (\<lambda>b. Ok
     \<lparr>as_packet_count = fld 8 b 0, as_byte_count = fld 8 b 8, as_flow_count = fld 4 b 16\<rparr>)"

text \<open>
  A property of a queue; the field \<open>rate\<close> is there for \<open>OFPQT_MIN_RATE\<close>.  The copy \<open>ph\<close> has as many
  bytes as the length field says.
\<close>

record ofp_queue_prop =
  qp_property :: "16 word"
  qp_len :: "16 word"
  qp_rate :: "16 word option"

definition ntoh_queue_property :: "bytes \<Rightarrow> nat \<Rightarrow> ofp_queue_prop res" where
  "ntoh_queue_property m i =
     bnd (rd16 m i) (\<lambda>property.
     assert_then (property \<le> OFPQT_MIN_RATE)
      (bnd (rd16 m (i + 2)) (\<lambda>len.
       assert_then (len \<noteq> 0)
        (bnd (rd_struct (unat len) m i) (\<lambda>ph.
         bnd (rd_struct 4 ph 0) (\<lambda>_.
         if property = OFPQT_MIN_RATE
         then bnd (rd16 ph 8) (\<lambda>rate. Ok \<lparr>qp_property = property, qp_len = len, qp_rate = Some rate\<rparr>)
         else Ok \<lparr>qp_property = property, qp_len = len, qp_rate = None\<rparr>))))))"

record ofp_packet_queue =
  pq_queue_id :: "32 word"
  pq_len :: "16 word"
  pq_properties :: "ofp_queue_prop list"

fun ntoh_queue_properties :: "nat \<Rightarrow> bytes \<Rightarrow> nat \<Rightarrow> 16 word \<Rightarrow> ofp_queue_prop list res" where
  "ntoh_queue_properties 0 pq off properties_length = Fault No_return"
| "ntoh_queue_properties (Suc fuel) pq off properties_length =
     (if 8 \<le> unat properties_length then
        bnd (ntoh_queue_property pq off) (\<lambda>p.
        bnd (ntoh_queue_properties fuel pq (off + unat (qp_len p)) (properties_length - qp_len p)) (\<lambda>ps.
        Ok (p # ps)))
      else Ok [])"

definition ntoh_packet_queue :: "nat \<Rightarrow> bytes \<Rightarrow> nat \<Rightarrow> ofp_packet_queue res" where
  "ntoh_packet_queue fuel m i =
     bnd (rd16 m (i + 4)) (\<lambda>len.
     assert_then (len \<noteq> 0)
      (bnd (rd_struct (unat len) m i) (\<lambda>pq.
       bnd (rd_struct 8 pq 0) (\<lambda>b.
       bnd (ntoh_queue_properties fuel pq 8 (len - 8)) (\<lambda>ps.
       Ok \<lparr>pq_queue_id = fld 4 b 0, pq_len = len, pq_properties = ps\<rparr>)))))"

section \<open>The conversions are inverse\<close>

lemma length_hton [simp]:
  "length (hton_match s) = 40" "length (hton_phy_port p) = 48" "length (hton_table_stats t) = 64"
  "length (hton_port_stats q) = 104" "length (hton_queue_stats r) = 32"
  "length (hton_flow_stats_fixed f) = 88"
  by (simp_all add: hton_match_def hton_phy_port_def hton_table_stats_def hton_port_stats_def
      hton_queue_stats_def hton_flow_stats_fixed_def)

lemma match_of_hton: "match_of (hton_match s) = s\<lparr>pad1 := 0, pad2 := 0\<rparr>"
  by (simp add: match_of_def hton_match_def fld_def be_get_put)

lemma phy_port_of_hton: "phy_port_of (hton_phy_port s) = s"
  by (simp add: phy_port_of_def hton_phy_port_def fld_def be_get_put)

lemma rd_struct_at:
  "length b = n \<Longrightarrow> length pre = i \<Longrightarrow> rd_struct n (pre @ b @ post) i = Ok b"
  by simp

lemma ntoh_hton_match:
  "length pre = i \<Longrightarrow> ntoh_match (pre @ hton_match s @ post) i = Ok (s\<lparr>pad1 := 0, pad2 := 0\<rparr>)"
  by (simp add: ntoh_match_def match_of_hton)

lemma ntoh_hton_phy_port:
  "length pre = i \<Longrightarrow> ntoh_phy_port (pre @ hton_phy_port s @ post) i = Ok s"
  by (simp add: ntoh_phy_port_def phy_port_of_hton)

lemma ntoh_hton_table_stats:
  assumes "length pre = i" shows "ntoh_table_stats (pre @ hton_table_stats s @ post) i = Ok s"
proof -
  have "rd_struct 64 (pre @ hton_table_stats s @ post) i = Ok (hton_table_stats s)"
    using assms by (intro rd_struct_at) auto
  then show ?thesis by (simp add: ntoh_table_stats_def hton_table_stats_def fld_def be_get_put)
qed

lemma ntoh_hton_port_stats:
  assumes "length pre = i" shows "ntoh_port_stats (pre @ hton_port_stats s @ post) i = Ok s"
proof -
  have "rd_struct 104 (pre @ hton_port_stats s @ post) i = Ok (hton_port_stats s)"
    using assms by (intro rd_struct_at) auto
  then show ?thesis by (simp add: ntoh_port_stats_def hton_port_stats_def fld_def be_get_put)
qed

lemma ntoh_hton_queue_stats:
  assumes "length pre = i" shows "ntoh_queue_stats (pre @ hton_queue_stats s @ post) i = Ok s"
proof -
  have "rd_struct 32 (pre @ hton_queue_stats s @ post) i = Ok (hton_queue_stats s)"
    using assms by (intro rd_struct_at) auto
  then show ?thesis by (simp add: ntoh_queue_stats_def hton_queue_stats_def fld_def be_get_put)
qed

subsection \<open>Actions\<close>

text \<open>The size of the structure an action is stored in, and the actions whose length field says so.\<close>

fun action_size :: "ofp_action \<Rightarrow> nat" where
  "action_size (Action_dl_src _ _) = 16"
| "action_size (Action_dl_dst _ _) = 16"
| "action_size (Action_enqueue _ _ _) = 16"
| "action_size (Action_vendor _ _ body) = 8 + length body"
| "action_size _ = 8"

fun defined_action :: "ofp_action \<Rightarrow> bool" where
  "defined_action (Undefined_action _ _) = False"
| "defined_action _ = True"

definition action_wf :: "ofp_action \<Rightarrow> bool" where
  "action_wf a \<longleftrightarrow> defined_action a \<and> unat (action_len a) = action_size a"

definition enc_action :: "ofp_action \<Rightarrow> bytes" where
  "enc_action a = the_ok (hton_action a)"

lemma action_size_ge: "8 \<le> action_size a"
  by (cases a) auto

lemma hton_action_wf:
  assumes "action_wf a"
  shows "hton_action a = Ok (enc_action a)" and "length (enc_action a) = unat (action_len a)"
  using assms by (cases a; simp add: action_wf_def enc_action_def hton_action_vendor_def)+

lemma ntoh_hton_action:
  assumes "action_wf a" and "length pre = i"
  shows "ntoh_action (pre @ enc_action a @ post) i = Ok a"
  using assms
  by (cases a) (auto simp: action_wf_def enc_action_def hton_action_vendor_def ntoh_action_def
      ntoh_action_vendor_def fld_def be_get_put)

definition actions_size :: "ofp_action list \<Rightarrow> nat" where
  "actions_size as = sum_list (map action_size as)"

definition enc_actions :: "ofp_action list \<Rightarrow> bytes" where
  "enc_actions as = concat (map enc_action as)"

lemma actions_size_simps [simp]:
  "actions_size [] = 0" "actions_size (a # as) = action_size a + actions_size as"
  by (simp_all add: actions_size_def)

lemma enc_actions_simps [simp]:
  "enc_actions [] = []" "enc_actions (a # as) = enc_action a @ enc_actions as"
  by (simp_all add: enc_actions_def)

lemma length_enc_actions: "\<forall>a \<in> set as. action_wf a \<Longrightarrow> length (enc_actions as) = actions_size as"
  by (induction as) (auto simp: hton_action_wf action_wf_def)

subsection \<open>Flow statistics\<close>

definition flow_stats_wf :: "ofp_flow_stats \<Rightarrow> bool" where
  "flow_stats_wf s \<longleftrightarrow> (\<forall>a \<in> set (fs_actions s). action_wf a) \<and>
     unat (fs_length s) = 88 + actions_size (fs_actions s) \<and>
     pad1 (fs_match s) = 0 \<and> pad2 (fs_match s) = 0"

lemma unat_minus_word: "unat b \<le> unat a \<Longrightarrow> unat (a - b) = unat a - unat b"
  by (simp add: unat_sub word_le_nat_alt)

lemma hton_flow_actions_wf:
  assumes "\<forall>a \<in> set as. action_wf a" and "unat n = actions_size as"
    and "off + actions_size as \<le> length m"
  shows "hton_flow_actions as n off m = Ok (patch off (enc_actions as) m)"
  using assms
proof (induction as arbitrary: n off m)
  case Nil
  then show ?case by (subst hton_flow_actions.simps) simp
next
  case (Cons a as)
  then have a: "action_wf a" by simp
  then have len: "unat (action_len a) = action_size a" by (simp add: action_wf_def)
  then have n: "unat (n - action_len a) = actions_size as"
    using Cons.prems(2) by (simp add: unat_minus_word)
  have "hton_flow_actions (a # as) n off m =
      hton_flow_actions as (n - action_len a) (off + action_size a) (patch off (enc_action a) m)"
    using Cons.prems a len action_size_ge [of a]
    by (subst hton_flow_actions.simps) (simp add: hton_action_wf)
  also have "\<dots> = Ok (patch (off + action_size a) (enc_actions as) (patch off (enc_action a) m))"
    using Cons.prems n a len by (intro Cons.IH) (auto simp: hton_action_wf)
  also have "\<dots> = Ok (patch off (enc_actions (a # as)) m)"
    using patch_adjacent [of off "enc_action a" "enc_actions as" m] Cons.prems a len
    by (simp add: hton_action_wf length_enc_actions)
  finally show ?case .
qed

lemma ntoh_flow_actions_wf:
  assumes "\<forall>a \<in> set as. action_wf a" and "unat n = actions_size as" and "length as < fuel"
    and "length pre = off"
  shows "ntoh_flow_actions fuel (pre @ enc_actions as @ post) off n = Ok as"
  using assms
proof (induction as arbitrary: n off fuel pre)
  case Nil
  then show ?case by (cases fuel) auto
next
  case (Cons a as)
  then obtain f where f: "fuel = Suc f" "length as < f" by (cases fuel) auto
  from Cons.prems have a: "action_wf a" by simp
  then have len: "unat (action_len a) = action_size a" by (simp add: action_wf_def)
  then have n: "unat (n - action_len a) = actions_size as"
    using Cons.prems(2) by (simp add: unat_minus_word)
  have "ntoh_flow_actions f ((pre @ enc_action a) @ enc_actions as @ post) (off + action_size a)
      (n - action_len a) = Ok as"
    using Cons.prems n f a len by (intro Cons.IH) (auto simp: hton_action_wf)
  moreover have "ntoh_action (pre @ enc_action a @ enc_actions as @ post) off = Ok a"
    using a Cons.prems by (intro ntoh_hton_action) auto
  ultimately show ?case using f len action_size_ge [of a] Cons.prems(2) by simp
qed

lemma hton_flow_stats_wf:
  assumes "flow_stats_wf s" and "off + unat (fs_length s) \<le> length m"
  shows "hton_flow_stats s off m =
           Ok (patch off (hton_flow_stats_fixed s @ enc_actions (fs_actions s)) m)"
proof -
  have n: "unat (fs_length s - 88) = actions_size (fs_actions s)"
    using assms(1) by (simp add: flow_stats_wf_def unat_minus_word)
  have "hton_flow_actions (fs_actions s) (fs_length s - 88) (off + 88)
      (patch off (hton_flow_stats_fixed s) m) =
      Ok (patch (off + 88) (enc_actions (fs_actions s)) (patch off (hton_flow_stats_fixed s) m))"
    using assms n by (intro hton_flow_actions_wf) (auto simp: flow_stats_wf_def)
  moreover have "patch (off + 88) (enc_actions (fs_actions s)) (patch off (hton_flow_stats_fixed s) m) =
      patch off (hton_flow_stats_fixed s @ enc_actions (fs_actions s)) m"
    using patch_adjacent [of off "hton_flow_stats_fixed s" "enc_actions (fs_actions s)" m] assms
    by (simp add: flow_stats_wf_def length_enc_actions)
  ultimately show ?thesis using assms by (simp add: hton_flow_stats_def flow_stats_wf_def)
qed

lemma ntoh_hton_flow_stats:
  assumes "flow_stats_wf s" and "length (fs_actions s) < fuel" and "length pre = i"
  shows "ntoh_flow_stats fuel (pre @ (hton_flow_stats_fixed s @ enc_actions (fs_actions s)) @ post) i = Ok s"
proof -
  let ?m = "pre @ (hton_flow_stats_fixed s @ enc_actions (fs_actions s)) @ post"
  have b: "rd_struct 88 ?m i = Ok (hton_flow_stats_fixed s)"
    using rd_struct_at [of "hton_flow_stats_fixed s" 88 pre i "enc_actions (fs_actions s) @ post"] assms(3)
    by simp
  have len: "fld 2 (hton_flow_stats_fixed s) 0 = fs_length s"
    by (simp add: hton_flow_stats_fixed_def fld_def be_get_put)
  have "unat (fs_length s - 88) = actions_size (fs_actions s)"
    using assms(1) by (simp add: flow_stats_wf_def unat_minus_word)
  then have "ntoh_flow_actions fuel ((pre @ hton_flow_stats_fixed s) @ enc_actions (fs_actions s) @ post)
      (i + 88) (fs_length s - 88) = Ok (fs_actions s)"
    using assms by (intro ntoh_flow_actions_wf) (auto simp: flow_stats_wf_def)
  moreover have "match_of (take 40 (drop 4 (hton_flow_stats_fixed s))) = fs_match s"
    using assms(1) match_of_hton [of "fs_match s"]
    by (simp add: hton_flow_stats_fixed_def flow_stats_wf_def)
  ultimately show ?thesis
    unfolding ntoh_flow_stats_def b
    by (simp add: len) (simp add: hton_flow_stats_fixed_def fld_def be_get_put)
qed

end
