(* ===== verification/Packet_Parser.thy ===== *)
theory Packet_Parser
  imports Packet_Info Byteorder
begin

text \<open>
  The frame parser of \<open>src/lib/packet_parser.c\<close>.  A frame is a list of bytes, a pointer into it an
  offset, and every header is read as a block that must lie inside the frame.
  \<open>REMAINED_BUFFER_LENGTH\<close> is a difference of two values of type \<open>size_t\<close>: for a pointer behind the end of
  the frame it wraps around to a huge number, so that a header that is skipped without a test of its
  length lets the checks after it pass and the next header is read outside the frame.
\<close>

section \<open>The parser\<close>

text \<open>A frame has less than $2^{64}$ bytes, so the difference wraps around only behind its end.\<close>

definition remained :: "bytes \<Rightarrow> nat \<Rightarrow> nat" where
  "remained m ptr = (if ptr \<le> length m then length m - ptr else length m + 2 ^ 64 - ptr)"

definition header_at :: "nat option \<Rightarrow> (nat \<Rightarrow> packet_info res) \<Rightarrow> packet_info res" where
  "header_at ptr f = (case ptr of None \<Rightarrow> Fault Assertion | Some p \<Rightarrow> f p)"

text \<open>
  The three parts of \<open>parse_ether\<close> between the Ethernet header and the payload hand on the structure
  and the pointer, \<open>None\<close> when the function returns early.
\<close>

definition parse_vlan_tag :: "bytes \<Rightarrow> packet_info \<Rightarrow> nat \<Rightarrow> (packet_info \<times> nat option) res" where
  "parse_vlan_tag m info ptr =
     (if eth_type info = ETH_ETHTYPE_TPID then
        if remained m ptr < 4 then Ok (info, None)
        else bnd (rd_struct 4 m ptr) (\<lambda>h.
          let tci = fld 2 h 0 :: 16 word in
          Ok (info\<lparr>vlan_tci := tci, vlan_tpid := eth_type info,
                   vlan_prio := ucast (drop_bit 13 tci AND 7), vlan_cfi := ucast (drop_bit 12 tci AND 1),
                   vlan_vid := tci AND 0x0fff, eth_type := fld 2 h 2,
                   format := format info OR ETH_8021Q\<rparr>, Some (ptr + 4)))
      else Ok (info, Some ptr))"

function skip_vlan_tags :: "bytes \<Rightarrow> packet_info \<Rightarrow> nat \<Rightarrow> (packet_info \<times> nat option) res" where
  "skip_vlan_tags m info ptr =
     (if eth_type info = ETH_ETHTYPE_TPID then
        if remained m ptr < 4 then Ok (info, None)
        else bnd (rd_struct 4 m ptr) (\<lambda>h. skip_vlan_tags m (info\<lparr>eth_type := fld 2 h 2\<rparr>) (ptr + 4))
      else Ok (info, Some ptr))"
  by pat_completeness auto
termination
  by (relation "measure (\<lambda>(m, _, ptr). length m - ptr)") (auto simp: rd_struct_def split: if_splits)

declare skip_vlan_tags.simps [simp del]

definition parse_snap :: "bytes \<Rightarrow> packet_info \<Rightarrow> nat \<Rightarrow> (packet_info \<times> nat option) res" where
  "parse_snap m info ptr =
     (if eth_type info \<le> ETH_MTU then
        if remained m ptr < 8 then Ok (info, None)
        else bnd (rd_struct 8 m ptr) (\<lambda>h.
          Ok (info\<lparr>snap_llc := fld 3 h 0, snap_oui := fld 3 h 3, snap_type := fld 2 h 6,
                   format := format info OR ETH_8023_SNAP\<rparr>, Some (ptr + 8)))
      else Ok (info\<lparr>format := format info OR ETH_DIX\<rparr>, Some ptr))"

definition set_l2_payload :: "bytes \<Rightarrow> packet_info \<Rightarrow> nat \<Rightarrow> packet_info" where
  "set_l2_payload m info ptr =
     (if remained m ptr > 0 then info\<lparr>l2_payload := Some ptr, l2_payload_length := remained m ptr\<rparr> else info)"

definition set_l3_payload :: "bytes \<Rightarrow> packet_info \<Rightarrow> nat \<Rightarrow> packet_info" where
  "set_l3_payload m info ptr =
     (if remained m ptr > 0 then info\<lparr>l3_payload := Some ptr, l3_payload_length := remained m ptr\<rparr> else info)"

definition set_l4_payload :: "bytes \<Rightarrow> packet_info \<Rightarrow> nat \<Rightarrow> packet_info" where
  "set_l4_payload m info ptr =
     (if remained m ptr > 0 then info\<lparr>l4_payload := Some ptr, l4_payload_length := remained m ptr\<rparr> else info)"

definition and_then ::
  "(packet_info \<times> nat option) res \<Rightarrow> (packet_info \<Rightarrow> nat \<Rightarrow> (packet_info \<times> nat option) res) \<Rightarrow>
   (packet_info \<times> nat option) res" where
  "and_then r f = bnd r (\<lambda>(info, ptr). case ptr of None \<Rightarrow> Ok (info, None) | Some p \<Rightarrow> f info p)"

definition parse_ether :: "bytes \<Rightarrow> packet_info \<Rightarrow> packet_info res" where
  "parse_ether m info = header_at (l2_header info) (\<lambda>ptr.
     if remained m ptr < 14 then Ok info
     else bnd (rd_struct 14 m ptr) (\<lambda>h.
       let info = info\<lparr>eth_macsa := fld 6 h 6, eth_macda := fld 6 h 0, eth_type := fld 2 h 12\<rparr> in
       bnd (and_then (and_then (parse_vlan_tag m info (ptr + 14)) (skip_vlan_tags m)) (parse_snap m))
         (\<lambda>(info, p). Ok (case p of None \<Rightarrow> info | Some p \<Rightarrow> set_l2_payload m info p))))"

definition parse_arp :: "bytes \<Rightarrow> 32 word \<Rightarrow> packet_info \<Rightarrow> packet_info res" where
  "parse_arp m fmt info = header_at (l3_header info) (\<lambda>ptr.
     if remained m ptr < 28 then Ok info
     else bnd (rd_struct 28 m ptr) (\<lambda>h.
       Ok (info\<lparr>arp_ar_hrd := fld 2 h 0, arp_ar_pro := fld 2 h 2, arp_ar_hln := fld 1 h 4,
                arp_ar_pln := fld 1 h 5, arp_ar_op := fld 2 h 6, arp_sha := fld 6 h 8, arp_spa := fld 4 h 14,
                arp_tha := fld 6 h 18, arp_tpa := fld 4 h 24, format := format info OR fmt\<rparr>)))"

definition parse_ipv4 :: "bytes \<Rightarrow> packet_info \<Rightarrow> packet_info res" where
  "parse_ipv4 m info = header_at (l3_header info) (\<lambda>ptr.
     if remained m ptr < 20 then Ok info
     else bnd (rd_struct 20 m ptr) (\<lambda>h.
       let ihl = fld 1 h 0 AND 0x0f :: 8 word in
       if ihl < 5 then Ok info
       else if remained m ptr < unat ihl * 4 then Ok info
       else
         let info = info\<lparr>ipv4_version := drop_bit 4 (fld 1 h 0), ipv4_ihl := ihl, ipv4_tos := fld 1 h 1,
                        ipv4_tot_len := fld 2 h 2, ipv4_id := fld 2 h 4, ipv4_frag_off := fld 2 h 6,
                        ipv4_ttl := fld 1 h 8, ipv4_protocol := fld 1 h 9, ipv4_checksum := fld 2 h 10,
                        ipv4_saddr := fld 4 h 12, ipv4_daddr := fld 4 h 16\<rparr>;
             info = set_l3_payload m info (ptr + unat ihl * 4)
         in Ok (info\<lparr>format := format info OR NW_IPV4\<rparr>)))"

definition parse_ipv6 :: "bytes \<Rightarrow> packet_info \<Rightarrow> packet_info res" where
  "parse_ipv6 m info = header_at (l3_header info) (\<lambda>ptr.
     if remained m ptr < 40 then Ok info
     else bnd (rd_struct 40 m ptr) (\<lambda>h.
       let hdrctl = fld 4 h 0 :: 32 word in
       Ok (info\<lparr>ipv6_version := ucast (drop_bit 28 hdrctl), ipv6_tc := ucast (drop_bit 20 hdrctl AND 0xff),
                ipv6_flowlabel := hdrctl AND 0xfffff, ipv6_plen := fld 2 h 4,
                ipv6_nexthdr := ucast (fld 1 h 6 :: 8 word), ipv6_hoplimit := ucast (fld 1 h 7 :: 8 word),
                ipv6_saddr := fld 16 h 8, ipv6_daddr := fld 16 h 24, format := format info OR NW_IPV6\<rparr>)))"

definition parse_lldp :: "bytes \<Rightarrow> packet_info \<Rightarrow> packet_info res" where
  "parse_lldp m info = header_at (l3_header info) (\<lambda>ptr.
     let info = set_l3_payload m info ptr in Ok (info\<lparr>format := format info OR NW_LLDP\<rparr>))"

definition parse_icmp :: "bytes \<Rightarrow> packet_info \<Rightarrow> packet_info res" where
  "parse_icmp m info = header_at (l4_header info) (\<lambda>ptr.
     if remained m ptr < 8 then Ok info
     else bnd (rd_struct 8 m ptr) (\<lambda>h.
       let info = info\<lparr>icmpv4_type := fld 1 h 0, icmpv4_code := fld 1 h 1, icmpv4_checksum := fld 2 h 2\<rparr>;
           info = (if icmpv4_type info = ICMP_TYPE_ECHOREP \<or> icmpv4_type info = ICMP_TYPE_ECHOREQ
                   then info\<lparr>icmpv4_id := fld 2 h 4, icmpv4_seq := fld 2 h 6\<rparr>
                   else if icmpv4_type info = ICMP_TYPE_REDIRECT then info\<lparr>icmpv4_gateway := fld 4 h 4\<rparr>
                   else info);
           info = set_l4_payload m info (ptr + 8)
       in Ok (info\<lparr>format := format info OR NW_ICMPV4\<rparr>)))"

definition parse_udp :: "bytes \<Rightarrow> packet_info \<Rightarrow> packet_info res" where
  "parse_udp m info = header_at (l4_header info) (\<lambda>ptr.
     if remained m ptr < 8 then Ok info
     else bnd (rd_struct 8 m ptr) (\<lambda>h.
       let info = info\<lparr>udp_src_port := fld 2 h 0, udp_dst_port := fld 2 h 2, udp_len := fld 2 h 4,
                      udp_checksum := fld 2 h 6\<rparr>;
           info = set_l4_payload m info (ptr + 8)
       in Ok (info\<lparr>format := format info OR TP_UDP\<rparr>)))"

definition parse_tcp :: "bytes \<Rightarrow> packet_info \<Rightarrow> packet_info res" where
  "parse_tcp m info = header_at (l4_header info) (\<lambda>ptr.
     if remained m ptr < 20 then Ok info
     else bnd (rd_struct 20 m ptr) (\<lambda>h.
       let off = drop_bit 4 (fld 1 h 12) :: 8 word in
       if off < 5 then Ok info
       else if remained m ptr < unat off * 4 then Ok info
       else
         let info = info\<lparr>tcp_src_port := fld 2 h 0, tcp_dst_port := fld 2 h 2, tcp_seq_no := fld 4 h 4,
                        tcp_ack_no := fld 4 h 8, tcp_offset := off, tcp_flags := fld 1 h 13,
                        tcp_window := fld 2 h 14, tcp_checksum := fld 2 h 16, tcp_urgent := fld 2 h 18\<rparr>;
             info = set_l4_payload m info (ptr + unat off * 4)
         in Ok (info\<lparr>format := format info OR TP_TCP\<rparr>)))"

definition parse_igmp :: "bytes \<Rightarrow> packet_info \<Rightarrow> packet_info res" where
  "parse_igmp m info = header_at (l4_header info) (\<lambda>ptr.
     if remained m ptr < 8 then Ok info
     else bnd (rd_struct 8 m ptr) (\<lambda>h.
       Ok (info\<lparr>igmp_type := fld 1 h 0, igmp_code := fld 1 h 1, igmp_checksum := fld 2 h 2,
                igmp_group := fld 4 h 4, format := format info OR NW_IGMP\<rparr>)))"

definition parse_etherip :: "bytes \<Rightarrow> packet_info \<Rightarrow> packet_info res" where
  "parse_etherip m info = header_at (l4_header info) (\<lambda>ptr.
     if remained m ptr < 2 then Ok info
     else bnd (rd_struct 2 m ptr) (\<lambda>h.
       let info = info\<lparr>etherip_version := fld 2 h 0, etherip_offset := 0\<rparr>;
           info = (if remained m (ptr + 2) > 0
                   then (set_l4_payload m info (ptr + 2))\<lparr>etherip_offset := of_nat (ptr + 2)\<rparr> else info)
       in Ok (info\<lparr>format := format info OR TP_ETHERIP\<rparr>)))"

definition parse_l3 :: "bytes \<Rightarrow> packet_info \<Rightarrow> packet_info option res" where
  "parse_l3 m info =
     (let info' = info\<lparr>l3_header := l2_payload info\<rparr> in
      if eth_type info = ETH_ETHTYPE_ARP then bnd (parse_arp m NW_ARP info') (\<lambda>i. Ok (Some i))
      else if eth_type info = ETH_ETHTYPE_RARP then bnd (parse_arp m NW_RARP info') (\<lambda>i. Ok (Some i))
      else if eth_type info = ETH_ETHTYPE_IPV4 then bnd (parse_ipv4 m info') (\<lambda>i. Ok (Some i))
      else if eth_type info = ETH_ETHTYPE_IPV6 then bnd (parse_ipv6 m info') (\<lambda>i. Ok (Some i))
      else if eth_type info = ETH_ETHTYPE_LLDP then bnd (parse_lldp m info') (\<lambda>i. Ok (Some i))
      else Ok None)"

definition parse_l4 :: "bytes \<Rightarrow> packet_info \<Rightarrow> packet_info res" where
  "parse_l4 m info =
     (let info' = info\<lparr>l4_header := l3_payload info\<rparr> in
      if ipv4_protocol info = IPPROTO_ICMP then parse_icmp m info'
      else if ipv4_protocol info = IPPROTO_TCP then parse_tcp m info'
      else if ipv4_protocol info = IPPROTO_UDP then parse_udp m info'
      else if ipv4_protocol info = IPPROTO_IGMP then parse_igmp m info'
      else if ipv4_protocol info = IPPROTO_ETHERIP then parse_etherip m info'
      else Ok info)"

text \<open>
  \<open>parse_packet\<close> returns \<open>true\<close> on every path that returns; the result here is the \<open>user_data\<close> it
  leaves in the frame.
\<close>

definition parse_packet :: "bytes \<Rightarrow> packet_info res" where
  "parse_packet m =
     bnd (parse_ether m (calloc_packet_info\<lparr>l2_header := Some 0\<rparr>)) (\<lambda>info.
     bnd (parse_l3 m info) (\<lambda>r.
     case r of
       None \<Rightarrow> Ok info
     | Some info' \<Rightarrow>
         if format info' AND NW_IPV4 = 0 then Ok info'
         else if ipv4_frag_off info' AND IP_OFFMASK \<noteq> 0 then Ok info'
         else parse_l4 m info'))"

section \<open>The parser stays inside the frame\<close>

text \<open>
  What the parser leaves: a payload begins inside the frame and ends with it, and a header is not behind
  the end.
\<close>

definition payload_in :: "bytes \<Rightarrow> nat option \<Rightarrow> nat \<Rightarrow> bool" where
  "payload_in m ptr n \<longleftrightarrow> (case ptr of None \<Rightarrow> n = 0 | Some p \<Rightarrow> 0 < n \<and> p + n = length m)"

definition header_in :: "bytes \<Rightarrow> nat option \<Rightarrow> bool" where
  "header_in m ptr \<longleftrightarrow> (case ptr of None \<Rightarrow> True | Some p \<Rightarrow> p \<le> length m)"

definition frame_ok :: "bytes \<Rightarrow> packet_info \<Rightarrow> bool" where
  "frame_ok m info \<longleftrightarrow>
     payload_in m (l2_payload info) (l2_payload_length info) \<and> payload_in m (l3_payload info) (l3_payload_length info) \<and>
     payload_in m (l4_payload info) (l4_payload_length info) \<and>
     header_in m (l2_header info) \<and> header_in m (l3_header info) \<and> header_in m (l4_header info)"

definition parsed :: "bytes \<Rightarrow> packet_info res \<Rightarrow> bool" where
  "parsed m r \<longleftrightarrow> (\<exists>info. r = Ok info \<and> frame_ok m info)"

definition tag_parsed :: "bytes \<Rightarrow> (packet_info \<times> nat option) res \<Rightarrow> bool" where
  "tag_parsed m r \<longleftrightarrow> (\<exists>info ptr. r = Ok (info, ptr) \<and> frame_ok m info \<and> header_in m ptr)"

lemma remained_inside: "p \<le> length m \<Longrightarrow> remained m p = length m - p"
  by (simp add: remained_def)

lemma rd_struct_remained:
  "p \<le> length m \<Longrightarrow> \<not> remained m p < n \<Longrightarrow> rd_struct n m p = Ok (take n (drop p m)) \<and> p + n \<le> length m"
  by (simp add: rd_struct_def remained_inside)

lemma payload_in_header: "payload_in m ptr n \<Longrightarrow> header_in m ptr"
  by (auto simp: payload_in_def header_in_def split: option.splits)

lemma payload_in_remained: "p \<le> length m \<Longrightarrow> 0 < remained m p \<Longrightarrow> payload_in m (Some p) (remained m p)"
  by (simp add: payload_in_def remained_inside)

lemma set_payloads_ok:
  assumes "frame_ok m info" and "p \<le> length m"
  shows "frame_ok m (set_l2_payload m info p)" and "frame_ok m (set_l3_payload m info p)"
    and "frame_ok m (set_l4_payload m info p)"
  using assms payload_in_remained [OF assms(2)]
  by (simp_all add: frame_ok_def set_l2_payload_def set_l3_payload_def set_l4_payload_def)

lemma parse_vlan_tag_ok: "frame_ok m info \<Longrightarrow> p \<le> length m \<Longrightarrow> tag_parsed m (parse_vlan_tag m info p)"
  using rd_struct_remained [of p m 4]
  by (auto simp: parse_vlan_tag_def tag_parsed_def frame_ok_def header_in_def Let_def)

lemma skip_vlan_tags_ok: "frame_ok m info \<Longrightarrow> p \<le> length m \<Longrightarrow> tag_parsed m (skip_vlan_tags m info p)"
proof (induction m info p rule: skip_vlan_tags.induct)
  case (1 m info p)
  show ?case
  proof (cases "eth_type info = ETH_ETHTYPE_TPID \<and> \<not> remained m p < 4")
    case True
    have r: "rd_struct 4 m p = Ok (take 4 (drop p m))" "p + 4 \<le> length m"
      using rd_struct_remained [OF "1.prems"(2)] True by auto
    have "frame_ok m (info\<lparr>eth_type := fld 2 (take 4 (drop p m)) 2\<rparr>)" using "1.prems"(1) by (simp add: frame_ok_def)
    then show ?thesis
      using "1.IH" [OF _ _ r(1)] r True by (subst skip_vlan_tags.simps) simp
  next
    case False
    then show ?thesis using "1.prems" by (subst skip_vlan_tags.simps) (auto simp: tag_parsed_def header_in_def)
  qed
qed

lemma parse_snap_ok: "frame_ok m info \<Longrightarrow> p \<le> length m \<Longrightarrow> tag_parsed m (parse_snap m info p)"
  using rd_struct_remained [of p m 8]
  by (auto simp: parse_snap_def tag_parsed_def frame_ok_def header_in_def Let_def)

lemma and_then_ok:
  assumes "tag_parsed m r" and "\<And>info p. frame_ok m info \<Longrightarrow> p \<le> length m \<Longrightarrow> tag_parsed m (f info p)"
  shows "tag_parsed m (and_then r f)"
proof -
  obtain info ptr where r: "r = Ok (info, ptr)" "frame_ok m info" "header_in m ptr" using assms(1) by (auto simp: tag_parsed_def)
  then show ?thesis using assms(2)
    by (cases ptr) (auto simp: and_then_def tag_parsed_def header_in_def)
qed

lemma parse_ether_ok:
  assumes "frame_ok m info" and "l2_header info = Some p"
  shows "parsed m (parse_ether m info)"
proof (cases "remained m p < 14")
  case False
  have p: "p \<le> length m" using assms by (simp add: frame_ok_def header_in_def)
  let ?h = "take 14 (drop p m)"
  let ?info = "info\<lparr>eth_macsa := fld 6 ?h 6, eth_macda := fld 6 ?h 0, eth_type := fld 2 ?h 12\<rparr>"
  have r: "rd_struct 14 m p = Ok ?h" "p + 14 \<le> length m" using rd_struct_remained [OF p False] by auto
  have "frame_ok m ?info" using assms(1) by (simp add: frame_ok_def)
  then have "tag_parsed m (and_then (and_then (parse_vlan_tag m ?info (p + 14)) (skip_vlan_tags m)) (parse_snap m))"
    using r(2) by (intro and_then_ok parse_vlan_tag_ok skip_vlan_tags_ok parse_snap_ok)
  then obtain i q where t: "and_then (and_then (parse_vlan_tag m ?info (p + 14)) (skip_vlan_tags m)) (parse_snap m) = Ok (i, q)"
    "frame_ok m i" "header_in m q" unfolding tag_parsed_def by blast
  then have "parse_ether m info = Ok (case q of None \<Rightarrow> i | Some q \<Rightarrow> set_l2_payload m i q)"
    using r(1) False assms(2) by (simp add: parse_ether_def header_at_def Let_def)
  then show ?thesis using t set_payloads_ok(1) [OF t(2)] by (auto simp: parsed_def header_in_def split: option.splits)
qed (use assms in \<open>simp add: parse_ether_def header_at_def parsed_def\<close>)

lemmas parse_defs = parse_arp_def parse_ipv4_def parse_ipv6_def parse_lldp_def parse_icmp_def parse_tcp_def
  parse_udp_def parse_igmp_def parse_etherip_def

text \<open>The fields of a header do not change the pointers.\<close>

lemma frame_ok_fields [simp]:
  "frame_ok m (info\<lparr>arp_ar_hln := v1\<rparr>) = frame_ok m info" "frame_ok m (info\<lparr>arp_ar_hrd := v2\<rparr>) = frame_ok m info"
  "frame_ok m (info\<lparr>arp_ar_op := v3\<rparr>) = frame_ok m info" "frame_ok m (info\<lparr>arp_ar_pln := v4\<rparr>) = frame_ok m info"
  "frame_ok m (info\<lparr>arp_ar_pro := v5\<rparr>) = frame_ok m info" "frame_ok m (info\<lparr>arp_sha := v6\<rparr>) = frame_ok m info"
  "frame_ok m (info\<lparr>arp_spa := v7\<rparr>) = frame_ok m info" "frame_ok m (info\<lparr>arp_tha := v8\<rparr>) = frame_ok m info"
  "frame_ok m (info\<lparr>arp_tpa := v9\<rparr>) = frame_ok m info" "frame_ok m (info\<lparr>eth_macda := v10\<rparr>) = frame_ok m info"
  "frame_ok m (info\<lparr>eth_macsa := v11\<rparr>) = frame_ok m info" "frame_ok m (info\<lparr>eth_type := v12\<rparr>) = frame_ok m info"
  "frame_ok m (info\<lparr>etherip_offset := v13\<rparr>) = frame_ok m info" "frame_ok m (info\<lparr>etherip_version := v14\<rparr>) = frame_ok m info"
  "frame_ok m (info\<lparr>format := v15\<rparr>) = frame_ok m info" "frame_ok m (info\<lparr>icmpv4_checksum := v16\<rparr>) = frame_ok m info"
  "frame_ok m (info\<lparr>icmpv4_code := v17\<rparr>) = frame_ok m info" "frame_ok m (info\<lparr>icmpv4_gateway := v18\<rparr>) = frame_ok m info"
  "frame_ok m (info\<lparr>icmpv4_id := v19\<rparr>) = frame_ok m info" "frame_ok m (info\<lparr>icmpv4_seq := v20\<rparr>) = frame_ok m info"
  "frame_ok m (info\<lparr>icmpv4_type := v21\<rparr>) = frame_ok m info" "frame_ok m (info\<lparr>igmp_checksum := v22\<rparr>) = frame_ok m info"
  "frame_ok m (info\<lparr>igmp_code := v23\<rparr>) = frame_ok m info" "frame_ok m (info\<lparr>igmp_group := v24\<rparr>) = frame_ok m info"
  "frame_ok m (info\<lparr>igmp_type := v25\<rparr>) = frame_ok m info" "frame_ok m (info\<lparr>ipv4_checksum := v26\<rparr>) = frame_ok m info"
  "frame_ok m (info\<lparr>ipv4_daddr := v27\<rparr>) = frame_ok m info" "frame_ok m (info\<lparr>ipv4_frag_off := v28\<rparr>) = frame_ok m info"
  "frame_ok m (info\<lparr>ipv4_id := v29\<rparr>) = frame_ok m info" "frame_ok m (info\<lparr>ipv4_ihl := v30\<rparr>) = frame_ok m info"
  "frame_ok m (info\<lparr>ipv4_protocol := v31\<rparr>) = frame_ok m info" "frame_ok m (info\<lparr>ipv4_saddr := v32\<rparr>) = frame_ok m info"
  "frame_ok m (info\<lparr>ipv4_tos := v33\<rparr>) = frame_ok m info" "frame_ok m (info\<lparr>ipv4_tot_len := v34\<rparr>) = frame_ok m info"
  "frame_ok m (info\<lparr>ipv4_ttl := v35\<rparr>) = frame_ok m info" "frame_ok m (info\<lparr>ipv4_version := v36\<rparr>) = frame_ok m info"
  "frame_ok m (info\<lparr>ipv6_daddr := v37\<rparr>) = frame_ok m info" "frame_ok m (info\<lparr>ipv6_flowlabel := v38\<rparr>) = frame_ok m info"
  "frame_ok m (info\<lparr>ipv6_hoplimit := v39\<rparr>) = frame_ok m info" "frame_ok m (info\<lparr>ipv6_nexthdr := v40\<rparr>) = frame_ok m info"
  "frame_ok m (info\<lparr>ipv6_plen := v41\<rparr>) = frame_ok m info" "frame_ok m (info\<lparr>ipv6_saddr := v42\<rparr>) = frame_ok m info"
  "frame_ok m (info\<lparr>ipv6_tc := v43\<rparr>) = frame_ok m info" "frame_ok m (info\<lparr>ipv6_version := v44\<rparr>) = frame_ok m info"
  "frame_ok m (info\<lparr>snap_llc := v45\<rparr>) = frame_ok m info" "frame_ok m (info\<lparr>snap_oui := v46\<rparr>) = frame_ok m info"
  "frame_ok m (info\<lparr>snap_type := v47\<rparr>) = frame_ok m info" "frame_ok m (info\<lparr>tcp_ack_no := v48\<rparr>) = frame_ok m info"
  "frame_ok m (info\<lparr>tcp_checksum := v49\<rparr>) = frame_ok m info" "frame_ok m (info\<lparr>tcp_dst_port := v50\<rparr>) = frame_ok m info"
  "frame_ok m (info\<lparr>tcp_flags := v51\<rparr>) = frame_ok m info" "frame_ok m (info\<lparr>tcp_offset := v52\<rparr>) = frame_ok m info"
  "frame_ok m (info\<lparr>tcp_seq_no := v53\<rparr>) = frame_ok m info" "frame_ok m (info\<lparr>tcp_src_port := v54\<rparr>) = frame_ok m info"
  "frame_ok m (info\<lparr>tcp_urgent := v55\<rparr>) = frame_ok m info" "frame_ok m (info\<lparr>tcp_window := v56\<rparr>) = frame_ok m info"
  "frame_ok m (info\<lparr>udp_checksum := v57\<rparr>) = frame_ok m info" "frame_ok m (info\<lparr>udp_dst_port := v58\<rparr>) = frame_ok m info"
  "frame_ok m (info\<lparr>udp_len := v59\<rparr>) = frame_ok m info" "frame_ok m (info\<lparr>udp_src_port := v60\<rparr>) = frame_ok m info"
  "frame_ok m (info\<lparr>vlan_cfi := v61\<rparr>) = frame_ok m info" "frame_ok m (info\<lparr>vlan_prio := v62\<rparr>) = frame_ok m info"
  "frame_ok m (info\<lparr>vlan_tci := v63\<rparr>) = frame_ok m info" "frame_ok m (info\<lparr>vlan_tpid := v64\<rparr>) = frame_ok m info"
  "frame_ok m (info\<lparr>vlan_vid := v65\<rparr>) = frame_ok m info"
  by (simp_all add: frame_ok_def)

lemma parse_headers_ok:
  assumes f: "frame_ok m info" and h: "l3_header info = Some p"
  shows "parsed m (parse_arp m fmt info)" and "parsed m (parse_ipv4 m info)"
    and "parsed m (parse_ipv6 m info)" and "parsed m (parse_lldp m info)"
proof -
  have p: "p \<le> length m" using assms by (simp add: frame_ok_def header_in_def)
  note r = rd_struct_remained [OF p]
  show "parsed m (parse_arp m fmt info)" "parsed m (parse_ipv6 m info)" "parsed m (parse_lldp m info)"
    using f h r [of 28] r [of 40] set_payloads_ok(2) [OF f p]
    by (simp_all add: parse_arp_def parse_ipv6_def parse_lldp_def header_at_def parsed_def Let_def)
  have "frame_ok m (set_l3_payload m i (p + n))" if "\<not> remained m p < n" "frame_ok m i" for i n
    using set_payloads_ok(2) [OF that(2)] that(1) p by (simp add: remained_inside)
  then show "parsed m (parse_ipv4 m info)"
    using f h r [of 20] by (simp add: parse_ipv4_def header_at_def parsed_def Let_def)
qed

lemma parse_transport_ok:
  assumes f: "frame_ok m info" and h: "l4_header info = Some p"
  shows "parsed m (parse_icmp m info)" and "parsed m (parse_tcp m info)" and "parsed m (parse_udp m info)"
    and "parsed m (parse_igmp m info)" and "parsed m (parse_etherip m info)"
proof -
  have p: "p \<le> length m" using assms by (simp add: frame_ok_def header_in_def)
  note r = rd_struct_remained [OF p]
  have s: "frame_ok m (set_l4_payload m i (p + n))" if "\<not> remained m p < n" "frame_ok m i" for i n
    using set_payloads_ok(3) [OF that(2)] that(1) p by (simp add: remained_inside)
  show "parsed m (parse_icmp m info)" "parsed m (parse_udp m info)" "parsed m (parse_igmp m info)"
    "parsed m (parse_tcp m info)"
    using f h r [of 8] r [of 20] s
    by (simp_all add: parse_icmp_def parse_udp_def parse_igmp_def parse_tcp_def header_at_def parsed_def Let_def)
  show "parsed m (parse_etherip m info)"
    using f h r [of 2] s [of 2] by (auto simp: parse_etherip_def header_at_def parsed_def Let_def)
qed

lemma parse_no_header:
  "l3_header info = None \<Longrightarrow> parse_arp m fmt info = Fault Assertion"
  "l3_header info = None \<Longrightarrow> parse_ipv4 m info = Fault Assertion"
  "l3_header info = None \<Longrightarrow> parse_ipv6 m info = Fault Assertion"
  "l3_header info = None \<Longrightarrow> parse_lldp m info = Fault Assertion"
  "l4_header info = None \<Longrightarrow> parse_icmp m info = Fault Assertion"
  "l4_header info = None \<Longrightarrow> parse_tcp m info = Fault Assertion"
  "l4_header info = None \<Longrightarrow> parse_udp m info = Fault Assertion"
  "l4_header info = None \<Longrightarrow> parse_igmp m info = Fault Assertion"
  "l4_header info = None \<Longrightarrow> parse_etherip m info = Fault Assertion"
  by (simp_all add: parse_defs header_at_def)

definition known_l3 :: "16 word \<Rightarrow> bool" where
  "known_l3 t \<longleftrightarrow> t \<in> {ETH_ETHTYPE_ARP, ETH_ETHTYPE_RARP, ETH_ETHTYPE_IPV4, ETH_ETHTYPE_IPV6, ETH_ETHTYPE_LLDP}"

definition known_l4 :: "8 word \<Rightarrow> bool" where
  "known_l4 p \<longleftrightarrow> p \<in> {IPPROTO_ICMP, IPPROTO_TCP, IPPROTO_UDP, IPPROTO_IGMP, IPPROTO_ETHERIP}"

text \<open>An assertion fails exactly when the next header is looked for in a payload that is empty.\<close>

lemma parse_l3_outcome:
  assumes "frame_ok m info"
  shows "if known_l3 (eth_type info) \<and> l2_payload info = None then parse_l3 m info = Fault Assertion
     else \<exists>r. parse_l3 m info = Ok r \<and> (\<forall>i. r = Some i \<longrightarrow> frame_ok m i)"
proof (cases "l2_payload info")
  case None
  then show ?thesis by (auto simp: parse_l3_def known_l3_def parse_no_header Let_def)
next
  case (Some p)
  let ?i = "info\<lparr>l3_header := l2_payload info\<rparr>"
  have "frame_ok m ?i" using assms payload_in_header by (auto simp: frame_ok_def)
  then have "\<exists>i. parse_arp m fmt ?i = Ok i \<and> frame_ok m i" "\<exists>i. parse_ipv4 m ?i = Ok i \<and> frame_ok m i"
    "\<exists>i. parse_ipv6 m ?i = Ok i \<and> frame_ok m i" "\<exists>i. parse_lldp m ?i = Ok i \<and> frame_ok m i" for fmt
    using parse_headers_ok [of m ?i p] Some unfolding parsed_def by simp_all
  from this(1) [of NW_ARP] this(1) [of NW_RARP] this(2-4) show ?thesis
    using Some by (auto simp: parse_l3_def Let_def)
qed

lemma parse_l4_outcome:
  assumes "frame_ok m info"
  shows "if known_l4 (ipv4_protocol info) \<and> l3_payload info = None then parse_l4 m info = Fault Assertion
     else parsed m (parse_l4 m info)"
proof (cases "l3_payload info")
  case None
  then show ?thesis using assms by (auto simp: parse_l4_def known_l4_def parse_no_header parsed_def Let_def)
next
  case (Some p)
  let ?i = "info\<lparr>l4_header := l3_payload info\<rparr>"
  have "frame_ok m ?i" using assms payload_in_header by (auto simp: frame_ok_def)
  from parse_transport_ok [OF this] Some assms show ?thesis by (auto simp: parse_l4_def parsed_def Let_def)
qed

lemma parse_packet_ok: "parsed m (parse_packet m) \<or> parse_packet m = Fault Assertion"
proof -
  have "frame_ok m (calloc_packet_info\<lparr>l2_header := Some 0\<rparr>)"
    by (simp add: frame_ok_def payload_in_def header_in_def calloc_packet_info_def)
  from parse_ether_ok [OF this] obtain info where e: "parse_ether m (calloc_packet_info\<lparr>l2_header := Some 0\<rparr>) = Ok info"
    "frame_ok m info" by (auto simp: parsed_def)
  from parse_l3_outcome [OF e(2)] consider "parse_l3 m info = Fault Assertion" | "parse_l3 m info = Ok None"
    | i where "parse_l3 m info = Ok (Some i)" "frame_ok m i" by (metis option.exhaust)
  then show ?thesis
  proof cases
    case (3 i)
    then show ?thesis using e parse_l4_outcome [OF 3(2)] by (auto simp: parse_packet_def parsed_def split: if_splits)
  qed (use e in \<open>simp_all add: parse_packet_def parsed_def\<close>)
qed

section \<open>What the parser reads\<close>

text \<open>Headers as a sender builds them: Ethernet, an IPv4 header without options, and those inside.\<close>

definition eth_hdr :: "mac \<Rightarrow> mac \<Rightarrow> 16 word \<Rightarrow> bytes" where
  "eth_hdr da sa type = put48 da @ put48 sa @ put16 type"

definition ipv4_hdr ::
  "8 word \<Rightarrow> 16 word \<Rightarrow> 16 word \<Rightarrow> 16 word \<Rightarrow> 8 word \<Rightarrow> 8 word \<Rightarrow> 16 word \<Rightarrow> 32 word \<Rightarrow> 32 word \<Rightarrow> bytes" where
  "ipv4_hdr tos tot_len ident frag_off ttl protocol csum saddr daddr =
     put8 0x45 @ put8 tos @ put16 tot_len @ put16 ident @ put16 frag_off @ put8 ttl @ put8 protocol @
     put16 csum @ put32 saddr @ put32 daddr"

definition arp_pkt ::
  "16 word \<Rightarrow> 16 word \<Rightarrow> 8 word \<Rightarrow> 8 word \<Rightarrow> 16 word \<Rightarrow> mac \<Rightarrow> 32 word \<Rightarrow> mac \<Rightarrow> 32 word \<Rightarrow> bytes" where
  "arp_pkt hrd pro hln pln oper sha sip tha tip =
     put16 hrd @ put16 pro @ put8 hln @ put8 pln @ put16 oper @ put48 sha @ put32 sip @ put48 tha @ put32 tip"

definition tcp_hdr ::
  "16 word \<Rightarrow> 16 word \<Rightarrow> 32 word \<Rightarrow> 32 word \<Rightarrow> 8 word \<Rightarrow> 16 word \<Rightarrow> 16 word \<Rightarrow> 16 word \<Rightarrow> bytes" where
  "tcp_hdr src dst seq ack flags window csum urgent =
     put16 src @ put16 dst @ put32 seq @ put32 ack @ put8 0x50 @ put8 flags @ put16 window @ put16 csum @
     put16 urgent"

definition udp_hdr :: "16 word \<Rightarrow> 16 word \<Rightarrow> 16 word \<Rightarrow> 16 word \<Rightarrow> bytes" where
  "udp_hdr src dst len csum = put16 src @ put16 dst @ put16 len @ put16 csum"

lemma length_hdrs [simp]:
  "length (eth_hdr da sa type) = 14" "length (tcp_hdr src dst seq ack flags window csum urgent) = 20"
  "length (ipv4_hdr tos tot_len ident frag_off ttl protocol csum saddr daddr) = 20"
  "length (arp_pkt hrd pro hln pln oper sha sip tha tip) = 28" "length (udp_hdr src dst len csum) = 8"
  by (simp_all add: eth_hdr_def ipv4_hdr_def arp_pkt_def tcp_hdr_def udp_hdr_def)

definition eth_info :: "mac \<Rightarrow> mac \<Rightarrow> 16 word \<Rightarrow> packet_info" where
  "eth_info da sa type = calloc_packet_info\<lparr>l2_header := Some 0, eth_macsa := sa, eth_macda := da,
     eth_type := type, format := ETH_DIX\<rparr>"

lemma parse_ether_dix:
  assumes "type > ETH_MTU" and "type \<noteq> ETH_ETHTYPE_TPID"
  shows "parse_ether (eth_hdr da sa type @ rest) (calloc_packet_info\<lparr>l2_header := Some 0\<rparr>) =
     Ok (set_l2_payload (eth_hdr da sa type @ rest) (eth_info da sa type) 14)"
proof -
  have f: "fld 6 (eth_hdr da sa type) 6 = sa" "fld 6 (eth_hdr da sa type) 0 = da" "fld 2 (eth_hdr da sa type) 12 = type"
    by (simp_all add: eth_hdr_def fld_def be_get_put)
  have r: "rd_struct 14 (eth_hdr da sa type @ rest) 0 = Ok (eth_hdr da sa type)" by simp
  have "remained (eth_hdr da sa type @ rest) 0 = 14 + length rest" by (simp add: remained_def)
  with assms f r show ?thesis
    by (simp add: parse_ether_def header_at_def parse_vlan_tag_def skip_vlan_tags.simps parse_snap_def and_then_def
        Let_def eth_info_def calloc_packet_info_def)
qed

lemma take_drop_mid:
  "length pre = i \<Longrightarrow> length b = n \<Longrightarrow> take n (drop i (pre @ b @ post)) = b"
  by simp

lemma parse_ether_frame:
  assumes "type > ETH_MTU" and "type \<noteq> ETH_ETHTYPE_TPID" and "rest \<noteq> []"
  shows "parse_ether (eth_hdr da sa type @ rest) (calloc_packet_info\<lparr>l2_header := Some 0\<rparr>) =
     Ok ((eth_info da sa type)\<lparr>l2_payload := Some 14, l2_payload_length := length rest\<rparr>)"
  using assms parse_ether_dix [OF assms(1,2), of da sa rest]
  by (simp add: set_l2_payload_def remained_def)

definition ipv4_info ::
  "8 word \<Rightarrow> 16 word \<Rightarrow> 16 word \<Rightarrow> 16 word \<Rightarrow> 8 word \<Rightarrow> 8 word \<Rightarrow> 16 word \<Rightarrow> 32 word \<Rightarrow> 32 word \<Rightarrow> packet_info \<Rightarrow>
   packet_info" where
  "ipv4_info tos tot_len ident frag_off ttl protocol csum saddr daddr info =
     info\<lparr>ipv4_version := 4, ipv4_ihl := 5, ipv4_tos := tos, ipv4_tot_len := tot_len, ipv4_id := ident,
       ipv4_frag_off := frag_off, ipv4_ttl := ttl, ipv4_protocol := protocol, ipv4_checksum := csum,
       ipv4_saddr := saddr, ipv4_daddr := daddr, format := format info OR NW_IPV4\<rparr>"

lemma parse_ipv4_header:
  assumes "length pre = i" and "l3_header info = Some i" and "rest \<noteq> []"
  shows "parse_ipv4 (pre @ ipv4_hdr tos tot_len ident frag_off ttl protocol csum saddr daddr @ rest) info =
     Ok ((ipv4_info tos tot_len ident frag_off ttl protocol csum saddr daddr info)
        \<lparr>l3_payload := Some (i + 20), l3_payload_length := length rest\<rparr>)"
    (is "parse_ipv4 ?m info = _")
proof -
  let ?h = "ipv4_hdr tos tot_len ident frag_off ttl protocol csum saddr daddr"
  have r: "rd_struct 20 ?m i = Ok ?h" using rd_struct_at [of ?h 20 pre i rest] assms(1) by simp
  have len: "remained ?m i = 20 + length rest" "remained ?m (i + 20) = length rest"
    using assms(1) by (simp_all add: remained_def)
  have "fld 1 ?h 0 = (0x45 :: 8 word)" "fld 1 ?h 1 = tos" "fld 2 ?h 2 = tot_len" "fld 2 ?h 4 = ident"
    "fld 2 ?h 6 = frag_off" "fld 1 ?h 8 = ttl" "fld 1 ?h 9 = protocol" "fld 2 ?h 10 = csum" "fld 4 ?h 12 = saddr"
    "fld 4 ?h 16 = daddr"
    by (simp_all add: ipv4_hdr_def fld_def be_get_put)
  note f = this
  have "(0x45 AND 0x0f :: 8 word) = 5" "(drop_bit 4 0x45 :: 8 word) = 4" by simp_all
  with assms len show ?thesis
    unfolding parse_ipv4_def header_at_def r f
    by (simp add: r f Let_def set_l3_payload_def ipv4_info_def del: One_nat_def)
qed

lemma parse_ipv4_frame:
  assumes "rest \<noteq> []" and "frag_off AND IP_OFFMASK = 0"
  shows "parse_packet (eth_hdr da sa ETH_ETHTYPE_IPV4 @
       ipv4_hdr tos tot_len ident frag_off ttl protocol csum saddr daddr @ rest) =
     parse_l4 (eth_hdr da sa ETH_ETHTYPE_IPV4 @
       ipv4_hdr tos tot_len ident frag_off ttl protocol csum saddr daddr @ rest)
       ((ipv4_info tos tot_len ident frag_off ttl protocol csum saddr daddr
          ((eth_info da sa ETH_ETHTYPE_IPV4)\<lparr>l2_payload := Some 14, l2_payload_length := 20 + length rest,
             l3_header := Some 14\<rparr>))\<lparr>l3_payload := Some 34, l3_payload_length := length rest\<rparr>)"
    (is "parse_packet ?m = parse_l4 ?m ?info")
proof -
  let ?i2 = "(eth_info da sa ETH_ETHTYPE_IPV4)\<lparr>l2_payload := Some 14, l2_payload_length := 20 + length rest\<rparr>"
  have e: "parse_ether ?m (calloc_packet_info\<lparr>l2_header := Some 0\<rparr>) = Ok ?i2"
    by (subst parse_ether_frame) (simp_all add: ipv4_hdr_def)
  have p: "parse_ipv4 ?m (?i2\<lparr>l3_header := Some 14\<rparr>) = Ok ?info"
    using parse_ipv4_header [of "eth_hdr da sa ETH_ETHTYPE_IPV4" 14 "?i2\<lparr>l3_header := Some 14\<rparr>" rest] assms(1)
    by simp
  have l3: "parse_l3 ?m ?i2 = Ok (Some ?info)"
    unfolding parse_l3_def Let_def using p by (simp add: eth_info_def)
  have fmt: "format ?info AND NW_IPV4 \<noteq> 0" "ipv4_frag_off ?info AND IP_OFFMASK = 0"
    using assms(2) by (simp_all add: ipv4_info_def eth_info_def)
  show ?thesis unfolding parse_packet_def e l3 bnd.simps using fmt by simp
qed

lemma parse_tcp_header:
  assumes "length pre = i" and "l4_header info = Some i"
  shows "parse_tcp (pre @ tcp_hdr src dst seq ack flags window csum urgent @ rest) info =
     Ok (let info = set_l4_payload (pre @ tcp_hdr src dst seq ack flags window csum urgent @ rest)
           (info\<lparr>tcp_src_port := src, tcp_dst_port := dst, tcp_seq_no := seq, tcp_ack_no := ack, tcp_offset := 5,
              tcp_flags := flags, tcp_window := window, tcp_checksum := csum, tcp_urgent := urgent\<rparr>) (i + 20)
         in info\<lparr>format := format info OR TP_TCP\<rparr>)"
    (is "parse_tcp ?m info = _")
proof -
  let ?h = "tcp_hdr src dst seq ack flags window csum urgent"
  have r: "rd_struct 20 ?m i = Ok ?h" using rd_struct_at [of ?h 20 pre i rest] assms(1) by simp
  have len: "remained ?m i = 20 + length rest" using assms(1) by (simp add: remained_def)
  have f: "fld 2 ?h 0 = src" "fld 2 ?h 2 = dst" "fld 4 ?h 4 = seq" "fld 4 ?h 8 = ack" "fld 1 ?h 12 = (0x50 :: 8 word)"
    "fld 1 ?h 13 = flags" "fld 2 ?h 14 = window" "fld 2 ?h 16 = csum" "fld 2 ?h 18 = urgent"
    by (simp_all add: tcp_hdr_def fld_def be_get_put)
  have "(drop_bit 4 0x50 :: 8 word) = 5" by simp
  with assms len show ?thesis
    unfolding parse_tcp_def header_at_def r f by (simp add: r f Let_def del: One_nat_def)
qed

lemma parse_udp_header:
  assumes "length pre = i" and "l4_header info = Some i"
  shows "parse_udp (pre @ udp_hdr src dst len csum @ rest) info =
     Ok (let info = set_l4_payload (pre @ udp_hdr src dst len csum @ rest)
           (info\<lparr>udp_src_port := src, udp_dst_port := dst, udp_len := len, udp_checksum := csum\<rparr>) (i + 8)
         in info\<lparr>format := format info OR TP_UDP\<rparr>)"
    (is "parse_udp ?m info = _")
proof -
  let ?h = "udp_hdr src dst len csum"
  have r: "rd_struct 8 ?m i = Ok ?h" using rd_struct_at [of ?h 8 pre i rest] assms(1) by simp
  have len: "remained ?m i = 8 + length rest" using assms(1) by (simp add: remained_def)
  have f: "fld 2 ?h 0 = src" "fld 2 ?h 2 = dst" "fld 2 ?h 4 = len" "fld 2 ?h 6 = csum"
    by (simp_all add: udp_hdr_def fld_def be_get_put)
  from assms len show ?thesis
    unfolding parse_udp_def header_at_def r f by (simp add: r f Let_def del: One_nat_def)
qed

lemma parse_arp_header:
  assumes "length pre = i" and "l3_header info = Some i"
  shows "parse_arp (pre @ arp_pkt hrd pro hln pln oper sha sip tha tip @ rest) fmt info =
     Ok (info\<lparr>arp_ar_hrd := hrd, arp_ar_pro := pro, arp_ar_hln := hln, arp_ar_pln := pln, arp_ar_op := oper,
        arp_sha := sha, arp_spa := sip, arp_tha := tha, arp_tpa := tip, format := format info OR fmt\<rparr>)"
    (is "parse_arp ?m fmt info = _")
proof -
  let ?h = "arp_pkt hrd pro hln pln oper sha sip tha tip"
  have r: "rd_struct 28 ?m i = Ok ?h" using rd_struct_at [of ?h 28 pre i rest] assms(1) by simp
  have len: "remained ?m i = 28 + length rest" using assms(1) by (simp add: remained_def)
  have f: "fld 2 ?h 0 = hrd" "fld 2 ?h 2 = pro" "fld 1 ?h 4 = hln" "fld 1 ?h 5 = pln" "fld 2 ?h 6 = oper"
    "fld 6 ?h 8 = sha" "fld 4 ?h 14 = sip" "fld 6 ?h 18 = tha" "fld 4 ?h 24 = tip"
    by (simp_all add: arp_pkt_def fld_def be_get_put)
  from assms len show ?thesis
    unfolding parse_arp_def header_at_def r f by (simp add: r f Let_def del: One_nat_def)
qed

lemma parse_tcp_frame:
  assumes "frag_off AND IP_OFFMASK = 0"
  shows "\<exists>info. parse_packet (eth_hdr da sa ETH_ETHTYPE_IPV4 @
        ipv4_hdr tos tot_len ident frag_off ttl IPPROTO_TCP csum saddr daddr @
        tcp_hdr src dst seq ack flags window csum' urgent @ payload) = Ok info \<and>
     format info = ETH_DIX OR NW_IPV4 OR TP_TCP \<and> eth_macsa info = sa \<and> eth_macda info = da \<and>
     eth_type info = ETH_ETHTYPE_IPV4 \<and> ipv4_tos info = tos \<and> ipv4_protocol info = IPPROTO_TCP \<and>
     ipv4_saddr info = saddr \<and> ipv4_daddr info = daddr \<and> tcp_src_port info = src \<and> tcp_dst_port info = dst \<and>
     tcp_flags info = flags \<and> l4_payload info = (if payload = [] then None else Some 54) \<and>
     l4_payload_length info = length payload"
proof -
  let ?t = "tcp_hdr src dst seq ack flags window csum' urgent"
  let ?pre = "eth_hdr da sa ETH_ETHTYPE_IPV4 @ ipv4_hdr tos tot_len ident frag_off ttl IPPROTO_TCP csum saddr daddr"
  have "length ?pre = 34" "?t @ payload \<noteq> []" by (simp_all add: tcp_hdr_def)
  then show ?thesis
    using parse_ipv4_frame [of "?t @ payload" frag_off da sa tos tot_len ident ttl IPPROTO_TCP csum saddr daddr] assms
      parse_tcp_header [of ?pre 34 _ src dst seq ack flags window csum' urgent payload]
    by (simp add: parse_l4_def Let_def ipv4_info_def eth_info_def set_l4_payload_def remained_def
        calloc_packet_info_def)
qed

lemma parse_udp_frame:
  assumes "frag_off AND IP_OFFMASK = 0"
  shows "\<exists>info. parse_packet (eth_hdr da sa ETH_ETHTYPE_IPV4 @
        ipv4_hdr tos tot_len ident frag_off ttl IPPROTO_UDP csum saddr daddr @ udp_hdr src dst len csum' @ payload) =
        Ok info \<and>
     format info = ETH_DIX OR NW_IPV4 OR TP_UDP \<and> eth_macsa info = sa \<and> eth_macda info = da \<and>
     eth_type info = ETH_ETHTYPE_IPV4 \<and> ipv4_tos info = tos \<and> ipv4_protocol info = IPPROTO_UDP \<and>
     ipv4_saddr info = saddr \<and> ipv4_daddr info = daddr \<and> udp_src_port info = src \<and> udp_dst_port info = dst \<and>
     l4_payload info = (if payload = [] then None else Some 42) \<and> l4_payload_length info = length payload"
proof -
  let ?t = "udp_hdr src dst len csum'"
  let ?pre = "eth_hdr da sa ETH_ETHTYPE_IPV4 @ ipv4_hdr tos tot_len ident frag_off ttl IPPROTO_UDP csum saddr daddr"
  have "length ?pre = 34" "?t @ payload \<noteq> []" by (simp_all add: udp_hdr_def)
  then show ?thesis
    using parse_ipv4_frame [of "?t @ payload" frag_off da sa tos tot_len ident ttl IPPROTO_UDP csum saddr daddr] assms
      parse_udp_header [of ?pre 34 _ src dst len csum' payload]
    by (simp add: parse_l4_def Let_def ipv4_info_def eth_info_def set_l4_payload_def remained_def
        calloc_packet_info_def)
qed

lemma parse_arp_frame:
  "\<exists>info. parse_packet (eth_hdr da sa ETH_ETHTYPE_ARP @ arp_pkt hrd pro hln pln oper sha sip tha tip @ padding) = Ok info \<and>
     format info = ETH_DIX OR NW_ARP \<and> eth_macsa info = sa \<and> eth_macda info = da \<and>
     eth_type info = ETH_ETHTYPE_ARP \<and> arp_ar_op info = oper \<and> arp_sha info = sha \<and> arp_spa info = sip \<and>
     arp_tha info = tha \<and> arp_tpa info = tip"
    (is "\<exists>info. parse_packet ?m = _ \<and> _")
proof -
  let ?i2 = "(eth_info da sa ETH_ETHTYPE_ARP)\<lparr>l2_payload := Some 14, l2_payload_length := 28 + length padding\<rparr>"
  have e: "parse_ether ?m (calloc_packet_info\<lparr>l2_header := Some 0\<rparr>) = Ok ?i2"
    by (subst parse_ether_frame) (simp_all add: arp_pkt_def)
  show ?thesis
    unfolding parse_packet_def e bnd.simps
    using parse_arp_header [of "eth_hdr da sa ETH_ETHTYPE_ARP" 14 "?i2\<lparr>l3_header := Some 14\<rparr>"]
    by (simp add: parse_l3_def Let_def eth_info_def)
qed

text \<open>Frames that end with a header: the next one is looked for at \<open>NULL\<close>.\<close>

lemma parse_empty_payload:
  assumes "known_l3 type"
  shows "parse_packet (eth_hdr da sa type) = Fault Assertion"
proof -
  have t: "type > ETH_MTU" "type \<noteq> ETH_ETHTYPE_TPID" using assms by (auto simp: known_l3_def)
  have "parse_ether (eth_hdr da sa type) (calloc_packet_info\<lparr>l2_header := Some 0\<rparr>) = Ok (eth_info da sa type)"
    using parse_ether_dix [OF t, of da sa "[]"] by (simp add: set_l2_payload_def remained_def)
  moreover have "parse_l3 (eth_hdr da sa type) (eth_info da sa type) = Fault Assertion"
    using assms by (auto simp: known_l3_def parse_l3_def Let_def parse_no_header eth_info_def calloc_packet_info_def)
  ultimately show ?thesis by (simp add: parse_packet_def)
qed

lemma parse_ipv4_empty:
  assumes "frag_off AND IP_OFFMASK = 0" and "known_l4 protocol"
  shows "parse_packet (eth_hdr da sa ETH_ETHTYPE_IPV4 @
     ipv4_hdr tos tot_len ident frag_off ttl protocol csum saddr daddr) = Fault Assertion"
    (is "parse_packet ?m = _")
proof -
  let ?h = "ipv4_hdr tos tot_len ident frag_off ttl protocol csum saddr daddr"
  let ?i2 = "(eth_info da sa ETH_ETHTYPE_IPV4)\<lparr>l2_payload := Some 14, l2_payload_length := 20\<rparr>"
  let ?i3 = "ipv4_info tos tot_len ident frag_off ttl protocol csum saddr daddr (?i2\<lparr>l3_header := Some 14\<rparr>)"
  have e: "parse_ether ?m (calloc_packet_info\<lparr>l2_header := Some 0\<rparr>) = Ok ?i2"
    by (subst parse_ether_frame) (simp_all add: ipv4_hdr_def)
  have r: "rd_struct 20 ?m 14 = Ok ?h" by simp
  have len: "remained ?m 14 = 20" "remained ?m 34 = 0" by (simp_all add: remained_def)
  have f: "fld 1 ?h 0 = (0x45 :: 8 word)" "fld 1 ?h 1 = tos" "fld 2 ?h 2 = tot_len" "fld 2 ?h 4 = ident"
    "fld 2 ?h 6 = frag_off" "fld 1 ?h 8 = ttl" "fld 1 ?h 9 = protocol" "fld 2 ?h 10 = csum" "fld 4 ?h 12 = saddr"
    "fld 4 ?h 16 = daddr"
    by (simp_all add: ipv4_hdr_def fld_def be_get_put)
  have "(0x45 AND 0x0f :: 8 word) = 5" "(drop_bit 4 0x45 :: 8 word) = 4" by simp_all
  then have p: "parse_ipv4 ?m (?i2\<lparr>l3_header := Some 14\<rparr>) = Ok ?i3"
    unfolding parse_ipv4_def header_at_def
    by (simp add: r f len Let_def set_l3_payload_def ipv4_info_def del: One_nat_def)
  have l3: "parse_l3 ?m ?i2 = Ok (Some ?i3)"
    unfolding parse_l3_def Let_def using p by (simp add: eth_info_def)
  have l4: "parse_l4 ?m ?i3 = Fault Assertion"
    using assms(2) by (auto simp: known_l4_def parse_l4_def Let_def parse_no_header ipv4_info_def eth_info_def
        calloc_packet_info_def)
  have "format ?i3 AND NW_IPV4 \<noteq> 0" "ipv4_frag_off ?i3 AND IP_OFFMASK = 0"
    using assms(1) by (simp_all add: ipv4_info_def eth_info_def)
  then show ?thesis unfolding parse_packet_def e l3 bnd.simps using l4 by simp
qed

end
