(* ===== verification/Linked_List.thy ===== *)
theory Linked_List
  imports Trema_Prelude
begin

text \<open>
  The singly linked list of \<open>src/lib/linked_list.c\<close>.  A chain of \<open>list_element\<close> cells that starts
  at \<open>head\<close> and ends at \<open>NULL\<close> is the list of the \<open>data\<close> pointers it carries, in order; the empty
  list is the \<open>NULL\<close> head.  The loops of the sources are the recursions below, on the cell \<open>e\<close> and
  its \<open>next\<close>; where a loop starts by reading \<open>e->next\<close> of a \<open>NULL\<close> head the model faults.
\<close>

section \<open>Operations\<close>

definition create_list :: "'a list" where
  "create_list = []"

definition insert_in_front :: "'a list \<Rightarrow> 'a \<Rightarrow> 'a list" where
  "insert_in_front head data = data # head"

fun insert_before_loop :: "'a list \<Rightarrow> 'a \<Rightarrow> 'a \<Rightarrow> 'a list \<times> bool" where
  "insert_before_loop (e # n # rest) sibling data =
     (if n = sibling then (e # data # n # rest, True)
      else case insert_before_loop (n # rest) sibling data of (tail, r) \<Rightarrow> (e # tail, r))"
| "insert_before_loop es sibling data = (es, False)"

definition insert_before :: "'a list \<Rightarrow> 'a \<Rightarrow> 'a \<Rightarrow> ('a list \<times> bool) res" where
  "insert_before head sibling data =
     (if head = [] then Fault Null_deref else Ok (insert_before_loop head sibling data))"

fun append_to_tail :: "'a list \<Rightarrow> 'a \<Rightarrow> 'a list" where
  "append_to_tail [] data = [data]"
| "append_to_tail (e # es) data = e # append_to_tail es data"

fun list_length_loop :: "'a list \<Rightarrow> 32 word \<Rightarrow> 32 word" where
  "list_length_loop [] len = len"
| "list_length_loop (e # es) len = list_length_loop es (len + 1)"

definition list_length_of :: "'a list \<Rightarrow> 32 word" where
  "list_length_of head = (case head of [] \<Rightarrow> 0 | e # es \<Rightarrow> list_length_loop es 1)"

fun iterate_list_loop :: "'a list \<Rightarrow> ('a \<Rightarrow> 's \<Rightarrow> 's) \<Rightarrow> 's \<Rightarrow> 's" where
  "iterate_list_loop [] f s = s"
| "iterate_list_loop (e # es) f s = iterate_list_loop es f (f e s)"

definition iterate_list :: "'a list \<Rightarrow> ('a \<Rightarrow> 's \<Rightarrow> 's) option \<Rightarrow> 's \<Rightarrow> 's" where
  "iterate_list head f s = (case f of None \<Rightarrow> s | Some g \<Rightarrow> iterate_list_loop head g s)"

fun find_list_loop :: "'a list \<Rightarrow> ('a \<Rightarrow> bool) \<Rightarrow> 'a option" where
  "find_list_loop [] p = None"
| "find_list_loop (e # es) p = (if p e then Some e else find_list_loop es p)"

definition find_list_custom :: "'a list \<Rightarrow> ('a \<Rightarrow> bool) option \<Rightarrow> 'a option res" where
  "find_list_custom head f =
     die_unless (head \<noteq> []) (case f of None \<Rightarrow> Fault Die | Some p \<Rightarrow> Ok (find_list_loop head p))"

fun delete_element_loop :: "'a list \<Rightarrow> 'a \<Rightarrow> 'a list \<times> bool" where
  "delete_element_loop (e # n # rest) data =
     (if n = data then (e # rest, True)
      else case delete_element_loop (n # rest) data of (tail, r) \<Rightarrow> (e # tail, r))"
| "delete_element_loop es data = (es, False)"

definition delete_element :: "'a list \<Rightarrow> 'a \<Rightarrow> ('a list \<times> bool) res" where
  "delete_element head data =
     (case head of
        [] \<Rightarrow> Fault Null_deref
      | e # es \<Rightarrow> if e = data then Ok (es, True) else Ok (delete_element_loop head data))"

section \<open>What the operations compute\<close>

lemma append_to_tail_eq [simp]: "append_to_tail xs d = xs @ [d]"
  by (induction xs) simp_all

lemma list_length_loop_eq: "list_length_loop xs n = n + of_nat (length xs)"
  by (induction xs arbitrary: n) simp_all

lemma list_length_of_eq: "list_length_of xs = of_nat (length xs)"
  by (cases xs) (simp_all add: list_length_of_def list_length_loop_eq)

lemma iterate_list_loop_eq: "iterate_list_loop xs f s = fold f xs s"
  by (induction xs arbitrary: s) simp_all

lemma find_list_loop_eq: "find_list_loop xs p = List.find p xs"
  by (induction xs) simp_all

lemma insert_before_loop_absent: "sib \<notin> set (tl xs) \<Longrightarrow> insert_before_loop xs sib d = (xs, False)"
  by (induction xs sib d rule: insert_before_loop.induct) auto

lemma insert_before_loop_present:
  "sib \<notin> set ys \<Longrightarrow> insert_before_loop (x # ys @ sib # zs) sib d = (x # ys @ d # sib # zs, True)"
  by (induction ys arbitrary: x) auto

lemma delete_element_loop_eq:
  "delete_element_loop (x # xs) d = (x # remove1 d xs, d \<in> set xs)"
  by (induction xs arbitrary: x) auto

lemma delete_element_eq:
  "xs \<noteq> [] \<Longrightarrow> delete_element xs d = Ok (remove1 d xs, d \<in> set xs)"
  by (cases xs) (auto simp: delete_element_def delete_element_loop_eq)

lemma insert_before_eq:
  "sib \<notin> set ys \<Longrightarrow> insert_before (x # ys @ sib # zs) sib d = Ok (x # ys @ d # sib # zs, True)"
  by (simp add: insert_before_def insert_before_loop_present)

end
