(* ===== verification/Ofm_Actions.thy ===== *)
theory Ofm_Actions
  imports Byteorder Linked_List
begin

text \<open>
  The action lists of \<open>src/lib/openflow_message.c\<close> (\<open>create_actions\<close>, \<open>append_action_*\<close>,
  \<open>get_actions_length\<close>) and the two counters of the same file, \<open>get_transaction_id\<close> and
  \<open>get_cookie\<close>.  An appended action is stored at the tail of the list in host byte order, with the
  length of its structure.  A body is \<open>None\<close> for a \<open>NULL\<close> buffer pointer.
\<close>

abbreviation "VLAN_VID_MASK \<equiv> (0x0fff :: 16 word)"
abbreviation "VLAN_PCP_MASK \<equiv> (0x07 :: 8 word)"
abbreviation "NW_TOS_MASK \<equiv> (0xfc :: 8 word)"

section \<open>Building a list\<close>

record openflow_actions =
  n_actions :: int
  act_list :: "ofp_action list"

definition create_actions :: openflow_actions where
  "create_actions = \<lparr>n_actions = 0, act_list = create_list\<rparr>"

definition append_action :: "openflow_actions \<Rightarrow> ofp_action \<Rightarrow> openflow_actions" where
  "append_action acts a = acts\<lparr>act_list := append_to_tail (act_list acts) a, n_actions := n_actions acts + 1\<rparr>"

definition append_action_output ::
  "openflow_actions \<Rightarrow> 16 word \<Rightarrow> 16 word \<Rightarrow> openflow_actions res" where
  "append_action_output acts port max_len = Ok (append_action acts (Action_output 8 port max_len))"

definition append_action_set_vlan_vid :: "openflow_actions \<Rightarrow> 16 word \<Rightarrow> openflow_actions res" where
  "append_action_set_vlan_vid acts vlan_vid =
     assert_then (vlan_vid AND NOT VLAN_VID_MASK = 0) (Ok (append_action acts (Action_vlan_vid 8 vlan_vid)))"

definition append_action_set_vlan_pcp :: "openflow_actions \<Rightarrow> 8 word \<Rightarrow> openflow_actions res" where
  "append_action_set_vlan_pcp acts vlan_pcp =
     assert_then (vlan_pcp AND NOT VLAN_PCP_MASK = 0) (Ok (append_action acts (Action_vlan_pcp 8 vlan_pcp)))"

definition append_action_strip_vlan :: "openflow_actions \<Rightarrow> openflow_actions res" where
  "append_action_strip_vlan acts = Ok (append_action acts (Action_strip_vlan 8))"

definition append_action_set_dl_src :: "openflow_actions \<Rightarrow> mac \<Rightarrow> openflow_actions res" where
  "append_action_set_dl_src acts hw_addr = Ok (append_action acts (Action_dl_src 16 hw_addr))"

definition append_action_set_dl_dst :: "openflow_actions \<Rightarrow> mac \<Rightarrow> openflow_actions res" where
  "append_action_set_dl_dst acts hw_addr = Ok (append_action acts (Action_dl_dst 16 hw_addr))"

definition append_action_set_nw_src :: "openflow_actions \<Rightarrow> 32 word \<Rightarrow> openflow_actions res" where
  "append_action_set_nw_src acts nw_addr = Ok (append_action acts (Action_nw_src 8 nw_addr))"

definition append_action_set_nw_dst :: "openflow_actions \<Rightarrow> 32 word \<Rightarrow> openflow_actions res" where
  "append_action_set_nw_dst acts nw_addr = Ok (append_action acts (Action_nw_dst 8 nw_addr))"

definition append_action_set_nw_tos :: "openflow_actions \<Rightarrow> 8 word \<Rightarrow> openflow_actions res" where
  "append_action_set_nw_tos acts tos =
     assert_then (tos AND NOT NW_TOS_MASK = 0) (Ok (append_action acts (Action_nw_tos 8 tos)))"

definition append_action_set_tp_src :: "openflow_actions \<Rightarrow> 16 word \<Rightarrow> openflow_actions res" where
  "append_action_set_tp_src acts tp_port = Ok (append_action acts (Action_tp_src 8 tp_port))"

definition append_action_set_tp_dst :: "openflow_actions \<Rightarrow> 16 word \<Rightarrow> openflow_actions res" where
  "append_action_set_tp_dst acts tp_port = Ok (append_action acts (Action_tp_dst 8 tp_port))"

definition append_action_enqueue ::
  "openflow_actions \<Rightarrow> 16 word \<Rightarrow> 32 word \<Rightarrow> openflow_actions res" where
  "append_action_enqueue acts port queue_id = Ok (append_action acts (Action_enqueue 16 port queue_id))"

text \<open>The length of a buffer as the callers take it: the \<open>size_t\<close> cut to 16 bits, 0 for \<open>NULL\<close>.\<close>

definition data_length_of :: "bytes option \<Rightarrow> 16 word" where
  "data_length_of data = (case data of None \<Rightarrow> 0 | Some d \<Rightarrow> of_nat (length d))"

definition data_prefix :: "bytes option \<Rightarrow> bytes" where
  "data_prefix data = (case data of None \<Rightarrow> [] | Some d \<Rightarrow> take (unat (data_length_of data)) d)"

definition append_action_vendor ::
  "openflow_actions \<Rightarrow> 32 word \<Rightarrow> bytes option \<Rightarrow> openflow_actions res" where
  "append_action_vendor acts vendor body =
     (let body_length = data_length_of body in
      assert_then (body_length mod 8 = 0)
       (Ok (append_action acts (Action_vendor (8 + body_length) vendor (data_prefix body)))))"

text \<open>The requests a client makes, for statements about sequences of them.\<close>

datatype action_request =
    Req_output "16 word" "16 word" | Req_vlan_vid "16 word" | Req_vlan_pcp "8 word" | Req_strip_vlan
  | Req_dl_src mac | Req_dl_dst mac | Req_nw_src "32 word" | Req_nw_dst "32 word" | Req_nw_tos "8 word"
  | Req_tp_src "16 word" | Req_tp_dst "16 word" | Req_enqueue "16 word" "32 word"
  | Req_vendor "32 word" "bytes option"

fun append_request :: "openflow_actions \<Rightarrow> action_request \<Rightarrow> openflow_actions res" where
  "append_request acts (Req_output port max_len) = append_action_output acts port max_len"
| "append_request acts (Req_vlan_vid vid) = append_action_set_vlan_vid acts vid"
| "append_request acts (Req_vlan_pcp pcp) = append_action_set_vlan_pcp acts pcp"
| "append_request acts Req_strip_vlan = append_action_strip_vlan acts"
| "append_request acts (Req_dl_src addr) = append_action_set_dl_src acts addr"
| "append_request acts (Req_dl_dst addr) = append_action_set_dl_dst acts addr"
| "append_request acts (Req_nw_src addr) = append_action_set_nw_src acts addr"
| "append_request acts (Req_nw_dst addr) = append_action_set_nw_dst acts addr"
| "append_request acts (Req_nw_tos tos) = append_action_set_nw_tos acts tos"
| "append_request acts (Req_tp_src port) = append_action_set_tp_src acts port"
| "append_request acts (Req_tp_dst port) = append_action_set_tp_dst acts port"
| "append_request acts (Req_enqueue port qid) = append_action_enqueue acts port qid"
| "append_request acts (Req_vendor vendor body) = append_action_vendor acts vendor body"

fun append_requests :: "openflow_actions \<Rightarrow> action_request list \<Rightarrow> openflow_actions res" where
  "append_requests acts [] = Ok acts"
| "append_requests acts (r # rs) = bnd (append_request acts r) (\<lambda>acts'. append_requests acts' rs)"

section \<open>The total length\<close>

fun actions_length_loop :: "ofp_action list \<Rightarrow> int \<Rightarrow> int res" where
  "actions_length_loop [] n = Ok n"
| "actions_length_loop (a # as) n =
     assert_then (defined_action a) (actions_length_loop as (n + uint (action_len a)))"

definition get_actions_length :: "openflow_actions \<Rightarrow> 16 word res" where
  "get_actions_length acts =
     bnd (actions_length_loop (act_list acts) 0) (\<lambda>n.
     assert_then (\<not> n > 65535) (Ok (of_int n)))"

section \<open>Counters\<close>

definition init_transaction_id :: "32 word \<Rightarrow> 32 word" where
  "init_transaction_id pid = push_bit 16 pid"

definition get_transaction_id :: "32 word \<Rightarrow> 32 word" where
  "get_transaction_id transaction_id =
     (if transaction_id AND 0xffff = 0xffff then transaction_id AND 0xffff0000 else transaction_id + 1)"

definition init_cookie :: "32 word \<Rightarrow> 64 word" where
  "init_cookie pid = push_bit 48 (scast pid)"

definition get_cookie :: "64 word \<Rightarrow> 64 word" where
  "get_cookie cookie =
     (if cookie AND 0x0000ffffffffffff = 0x0000ffffffffffff then cookie AND 0xffff000000000000
      else cookie + 1)"

section \<open>What the appended actions look like\<close>

text \<open>
  The ranges the receiving side accepts (\<open>validate_actions\<close>): a port is not 0 and not reserved, a
  VLAN id has 12 bits or is the \<open>0xffff\<close> of ``no VLAN'', and so on.
\<close>

definition port_ok :: "16 word \<Rightarrow> bool" where
  "port_ok p \<longleftrightarrow> p \<noteq> 0 \<and> \<not> (p > OFPP_MAX \<and> p < OFPP_IN_PORT)"

fun action_args_ok :: "ofp_action \<Rightarrow> bool" where
  "action_args_ok (Action_output _ port _) = port_ok port"
| "action_args_ok (Action_vlan_vid _ vid) = (vid = UINT16_MAX \<or> vid AND NOT VLAN_VID_MASK = 0)"
| "action_args_ok (Action_vlan_pcp _ pcp) = (pcp AND NOT VLAN_PCP_MASK = 0)"
| "action_args_ok (Action_nw_tos _ tos) = (tos AND NOT NW_TOS_MASK = 0)"
| "action_args_ok (Action_enqueue _ port _) = port_ok port"
| "action_args_ok (Action_vendor len _ _) = (len mod 8 = 0)"
| "action_args_ok _ = True"

definition actions_ok :: "ofp_action list \<Rightarrow> bool" where
  "actions_ok as \<longleftrightarrow> (\<forall>a \<in> set as. action_wf a \<and> action_args_ok a)"

fun request_ok :: "action_request \<Rightarrow> bool" where
  "request_ok (Req_output port _) = port_ok port"
| "request_ok (Req_vlan_vid vid) = (vid AND NOT VLAN_VID_MASK = 0)"
| "request_ok (Req_vlan_pcp pcp) = (pcp AND NOT VLAN_PCP_MASK = 0)"
| "request_ok (Req_nw_tos tos) = (tos AND NOT NW_TOS_MASK = 0)"
| "request_ok (Req_enqueue port _) = port_ok port"
| "request_ok (Req_vendor _ body) =
     (case body of None \<Rightarrow> True | Some d \<Rightarrow> length d mod 8 = 0 \<and> length d < 65528)"
| "request_ok _ = True"

lemma append_action_list [simp]:
  "act_list (append_action acts a) = act_list acts @ [a]"
  "n_actions (append_action acts a) = n_actions acts + 1"
  by (simp_all add: append_action_def append_to_tail_eq)

lemma unat_of_nat16: "n < 65536 \<Longrightarrow> unat (of_nat n :: 16 word) = n"
  by (simp add: unat_of_nat)

lemma data_prefix_short: "length d < 65536 \<Longrightarrow> data_prefix (Some d) = d"
  by (simp add: data_prefix_def data_length_of_def unat_of_nat16)

lemma vendor_action_ok:
  assumes "length d mod 8 = 0" and "length d < 65528"
  shows "(of_nat (length d) :: 16 word) mod 8 = 0"
    and "unat (8 + of_nat (length d) :: 16 word) = 8 + length d"
    and "(8 + of_nat (length d) :: 16 word) mod 8 = 0"
proof -
  have d: "unat (of_nat (length d) :: 16 word) = length d" using assms by (simp add: unat_of_nat16)
  show "(of_nat (length d) :: 16 word) mod 8 = 0"
    using assms d by (simp add: word_unat_eq_iff unat_mod_distrib)
  show l: "unat (8 + of_nat (length d) :: 16 word) = 8 + length d"
    using assms d by (simp add: unat_word_ariths)
  have "(8 + length d) mod 8 = 0" using assms by simp
  then show "(8 + of_nat (length d) :: 16 word) mod 8 = 0"
    using l by (simp add: word_unat_eq_iff unat_mod_distrib del: of_nat_add)
qed

lemma append_request_ok:
  assumes "request_ok r"
  shows "\<exists>a. append_request acts r = Ok (append_action acts a) \<and> action_wf a \<and> action_args_ok a"
proof (cases r)
  case (Req_vendor v body)
  show ?thesis
  proof (cases body)
    case None
    then show ?thesis using Req_vendor
      by (auto simp: append_action_vendor_def data_length_of_def data_prefix_def assert_then_def
          action_wf_def)
  next
    case (Some d)
    with assms Req_vendor have d: "length d mod 8 = 0" "length d < 65528" by auto
    then have "append_request acts r =
        Ok (append_action acts (Action_vendor (8 + of_nat (length d)) v d))"
      using Req_vendor Some vendor_action_ok [OF d] data_prefix_short [of d]
      by (simp add: append_action_vendor_def data_length_of_def assert_then_def)
    moreover have "action_wf (Action_vendor (8 + of_nat (length d)) v d)"
      "action_args_ok (Action_vendor (8 + of_nat (length d)) v d)"
      using vendor_action_ok [OF d] by (auto simp: action_wf_def)
    ultimately show ?thesis by blast
  qed
qed (use assms in \<open>auto simp: append_action_output_def append_action_set_vlan_vid_def
  append_action_set_vlan_pcp_def append_action_strip_vlan_def append_action_set_dl_src_def
  append_action_set_dl_dst_def append_action_set_nw_src_def append_action_set_nw_dst_def
  append_action_set_nw_tos_def append_action_set_tp_src_def append_action_set_tp_dst_def
  append_action_enqueue_def assert_then_def action_wf_def\<close>)

lemma append_requests_ok:
  assumes "\<forall>r \<in> set rs. request_ok r" and "actions_ok (act_list acts)"
    and "n_actions acts = int (length (act_list acts))"
  shows "\<exists>acts'. append_requests acts rs = Ok acts' \<and> actions_ok (act_list acts') \<and>
           n_actions acts' = int (length (act_list acts')) \<and>
           length (act_list acts') = length (act_list acts) + length rs"
  using assms
proof (induction rs arbitrary: acts)
  case (Cons r rs)
  obtain a where a: "append_request acts r = Ok (append_action acts a)" "action_wf a" "action_args_ok a"
    using append_request_ok [of r acts] Cons.prems by auto
  then have "actions_ok (act_list (append_action acts a))"
    using Cons.prems by (auto simp: actions_ok_def)
  with a Cons.IH [of "append_action acts a"] Cons.prems show ?case by auto
qed auto

lemma actions_length_loop_eq:
  "\<forall>a \<in> set as. action_wf a \<Longrightarrow> actions_length_loop as n = Ok (n + int (actions_size as))"
proof (induction as arbitrary: n)
  case (Cons a as)
  then have "uint (action_len a) = int (action_size a)" "defined_action a"
    by (auto simp: action_wf_def uint_nat)
  with Cons show ?case by (simp add: assert_then_def add.assoc)
qed simp

lemma get_actions_length_eq:
  assumes "\<forall>a \<in> set (act_list acts). action_wf a"
  shows "get_actions_length acts =
           (if actions_size (act_list acts) \<le> 65535 then Ok (of_nat (actions_size (act_list acts)))
            else Fault Assertion)"
  using actions_length_loop_eq [OF assms, of 0]
  by (auto simp: get_actions_length_def assert_then_def)

lemma get_transaction_id_eq: "get_transaction_id = low_counter 16"
proof
  fix t :: "32 word"
  have "(0xffff :: 32 word) = mask 16" "(0xffff0000 :: 32 word) = NOT (mask 16)"
    by (simp_all add: mask_eq_exp_minus_1 not_eq_complement)
  then show "get_transaction_id t = low_counter 16 t"
    by (simp only: get_transaction_id_def low_counter_def)
qed

lemma get_cookie_eq: "get_cookie = low_counter 48"
proof
  fix c :: "64 word"
  have "(0x0000ffffffffffff :: 64 word) = mask 48" "(0xffff000000000000 :: 64 word) = NOT (mask 48)"
    by (simp_all add: mask_eq_exp_minus_1 not_eq_complement)
  then show "get_cookie c = low_counter 48 c"
    by (simp only: get_cookie_def low_counter_def)
qed

end
