(* ===== verification/Buffer.thy ===== *)
theory Buffer
  imports Trema_Prelude
begin

text \<open>
  The growing byte buffer of \<open>src/lib/buffer.c\<close>.  \<open>top\<close> is the allocated block (\<open>None\<close> for \<open>NULL\<close>),
  so \<open>real_length\<close> is its length; \<open>data_offset\<close> is \<open>data - top\<close>, i.e. \<open>front_length_of\<close>.  Memory
  from \<open>xmalloc\<close> (\<open>src/lib/wrapper.c\<close>) is filled with \<open>0xA5\<close>.  The mutex is not part of the state.

  The locale \<open>byte_buffer\<close> says what the operations mean for the bytes a client sees.
\<close>

section \<open>Representation and operations\<close>

record buffer =
  buf_top :: "bytes option"
  data_offset :: nat
  buf_length :: nat

definition xmalloc :: "nat \<Rightarrow> bytes" where
  "xmalloc n = replicate n 0xA5"

definition mem :: "buffer \<Rightarrow> bytes" where
  "mem b = (case buf_top b of None \<Rightarrow> [] | Some m \<Rightarrow> m)"

definition real_length :: "buffer \<Rightarrow> nat" where
  "real_length b = length (mem b)"

definition front_length_of :: "buffer \<Rightarrow> nat" where
  "front_length_of b = data_offset b"

definition already_allocated :: "buffer \<Rightarrow> nat \<Rightarrow> bool" where
  "already_allocated b n \<longleftrightarrow> real_length b \<ge> front_length_of b + buf_length b + n"

definition alloc_new_data :: "buffer \<Rightarrow> nat \<Rightarrow> buffer" where
  "alloc_new_data b n = b\<lparr>buf_top := Some (xmalloc n), data_offset := 0, buf_length := n\<rparr>"

definition alloc_buffer :: buffer where
  "alloc_buffer = \<lparr>buf_top = None, data_offset = 0, buf_length = 0\<rparr>"

definition alloc_buffer_with_length :: "nat \<Rightarrow> buffer res" where
  "alloc_buffer_with_length n =
     assert_then (n \<noteq> 0) (Ok \<lparr>buf_top = Some (xmalloc n), data_offset = 0, buf_length = 0\<rparr>)"

definition buf_contents :: "buffer \<Rightarrow> bytes" where
  "buf_contents b = take (buf_length b) (drop (data_offset b) (mem b))"

definition append_front :: "buffer \<Rightarrow> nat \<Rightarrow> buffer" where
  "append_front b n =
     b\<lparr>buf_top := Some (patch (front_length_of b + n) (buf_contents b)
                          (xmalloc (front_length_of b + buf_length b + n)))\<rparr>"

definition append_back :: "buffer \<Rightarrow> nat \<Rightarrow> buffer" where
  "append_back b n =
     b\<lparr>buf_top := Some (patch (front_length_of b) (buf_contents b)
                          (xmalloc (front_length_of b + buf_length b + n)))\<rparr>"

definition append_front_buffer :: "buffer \<Rightarrow> nat \<Rightarrow> buffer res" where
  "append_front_buffer b n =
     assert_then (n \<noteq> 0)
      (Ok (if buf_top b = None then alloc_new_data b n
           else let b' = (if already_allocated b n
                          then b\<lparr>buf_top := Some (patch (data_offset b) (replicate n 0)
                                  (patch (data_offset b + n) (buf_contents b) (mem b)))\<rparr>
                          else append_front b n)
                in b'\<lparr>buf_length := buf_length b' + n\<rparr>))"

definition remove_front_buffer :: "buffer \<Rightarrow> nat \<Rightarrow> buffer res" where
  "remove_front_buffer b n =
     assert_then (n \<noteq> 0)
      (assert_then (buf_length b \<ge> n)
        (Ok (b\<lparr>data_offset := data_offset b + n, buf_length := buf_length b - n\<rparr>)))"

text \<open>The second component is the offset in the block of the returned pointer.\<close>

definition append_back_buffer :: "buffer \<Rightarrow> nat \<Rightarrow> (buffer \<times> nat) res" where
  "append_back_buffer b n =
     assert_then (n \<noteq> 0)
      (Ok (if real_length b = 0 then (alloc_new_data b n, 0)
           else let b' = (if already_allocated b n then b else append_back b n)
                in (b'\<lparr>buf_length := buf_length b' + n\<rparr>, data_offset b' + buf_length b')))"

definition duplicate_buffer :: "buffer \<Rightarrow> buffer" where
  "duplicate_buffer b =
     (if real_length b = 0 then alloc_buffer
      else let n = alloc_new_data alloc_buffer (real_length b)
           in n\<lparr>buf_top := Some (patch 0 (mem b) (mem n)), buf_length := buf_length b,
                data_offset := data_offset n + front_length_of b\<rparr>)"

text \<open>A \<open>memcpy\<close> of a client to an offset of the block.\<close>

definition store_buffer :: "buffer \<Rightarrow> nat \<Rightarrow> bytes \<Rightarrow> buffer res" where
  "store_buffer b i bs = bnd (wr i bs (mem b)) (\<lambda>m. Ok (b\<lparr>buf_top := Some m\<rparr>))"

section \<open>The bytes a client sees\<close>

definition buf_inv :: "buffer \<Rightarrow> bool" where
  "buf_inv b \<longleftrightarrow> data_offset b + buf_length b \<le> real_length b \<and> buf_top b \<noteq> Some []"

lemma length_xmalloc [simp]: "length (xmalloc n) = n"
  by (simp add: xmalloc_def)

lemma buf_inv_alloc: "buf_inv alloc_buffer \<and> buf_contents alloc_buffer = []"
  by (simp add: buf_inv_def alloc_buffer_def buf_contents_def)

lemma buf_alloc_with_length:
  "n \<noteq> 0 \<Longrightarrow> \<exists>b. alloc_buffer_with_length n = Ok b \<and> buf_inv b \<and> buf_contents b = [] \<and>
                    real_length b = n \<and> data_offset b = 0"
  by (auto simp: alloc_buffer_with_length_def assert_then_def buf_inv_def buf_contents_def
      real_length_def mem_def xmalloc_def)

lemma length_buf_contents: "buf_inv b \<Longrightarrow> length (buf_contents b) = buf_length b"
  by (auto simp: buf_inv_def buf_contents_def real_length_def min_def)

lemma buf_contents_upd:
  "buf_contents (b\<lparr>buf_length := l, buf_top := Some m\<rparr>) = take l (drop (data_offset b) m)"
  by (simp add: buf_contents_def mem_def)

lemma mem_top [simp]: "mem (b\<lparr>buf_top := Some m\<rparr>) = m" "mem (b\<lparr>buf_length := n\<rparr>) = mem b"
  "mem (b\<lparr>data_offset := d\<rparr>) = mem b"
  by (simp_all add: mem_def)

lemma remove_front_contents:
  assumes "buf_inv b" "0 < n" "n \<le> buf_length b"
  shows "\<exists>b'. remove_front_buffer b n = Ok b' \<and> buf_inv b' \<and> buf_contents b' = drop n (buf_contents b) \<and>
              mem b' = mem b \<and> data_offset b' = data_offset b + n"
  using assms
  by (auto simp: remove_front_buffer_def assert_then_def buf_inv_def buf_contents_def real_length_def
      drop_take add.commute)

lemma append_back_contents:
  assumes inv: "buf_inv b" and n: "0 < n" and bs: "length bs = n"
  shows "\<exists>b' off b''. append_back_buffer b n = Ok (b', off) \<and> store_buffer b' off bs = Ok b'' \<and>
              buf_inv b'' \<and> buf_contents b'' = buf_contents b @ bs"
proof -
  consider (empty) "real_length b = 0" | (fits) "real_length b \<noteq> 0" "already_allocated b n"
    | (grow) "real_length b \<noteq> 0" "\<not> already_allocated b n" by blast
  then show ?thesis
  proof cases
    case empty
    then show ?thesis using inv n bs
      by (auto simp: append_back_buffer_def assert_then_def alloc_new_data_def store_buffer_def wr_def
          patch_def buf_inv_def buf_contents_def real_length_def)
  next
    case fits
    then show ?thesis using inv n bs
      by (auto simp: append_back_buffer_def assert_then_def store_buffer_def wr_def patch_def
          buf_inv_def buf_contents_def real_length_def already_allocated_def front_length_of_def
          min_def drop_take simp flip: take_take)
  next
    case grow
    then show ?thesis using inv n bs length_buf_contents [OF inv]
      by (auto simp: append_back_buffer_def assert_then_def store_buffer_def wr_def patch_def
          append_back_def buf_inv_def real_length_def buf_contents_upd front_length_of_def)
  qed
qed

lemma append_front_contents:
  assumes inv: "buf_inv b" and n: "0 < n"
  shows "\<exists>b' c. append_front_buffer b n = Ok b' \<and> buf_inv b' \<and> c \<in> {0, 0xA5} \<and>
              buf_contents b' = replicate n c @ buf_contents b"
proof -
  consider (empty) "buf_top b = None" | (fits) m where "buf_top b = Some m" "already_allocated b n"
    | (grow) m where "buf_top b = Some m" "\<not> already_allocated b n" by fastforce
  then show ?thesis
  proof cases
    case empty
    then show ?thesis using inv n
      by (auto simp: append_front_buffer_def assert_then_def alloc_new_data_def
          buf_inv_def buf_contents_def real_length_def xmalloc_def mem_def)
  next
    case fits
    then have "mem b = m" by (simp add: mem_def)
    with fits show ?thesis using inv n length_buf_contents [OF inv]
      by (auto simp: append_front_buffer_def assert_then_def patch_def already_allocated_def Let_def
          buf_inv_def real_length_def front_length_of_def buf_contents_def [of "_\<lparr>buf_top := _\<rparr>"]
          buf_contents_def [of "b\<lparr>buf_top := x, buf_length := y\<rparr>" for x y])
  next
    case grow
    then have "mem b = m" by (simp add: mem_def)
    with grow show ?thesis using inv n length_buf_contents [OF inv]
      by (auto simp: append_front_buffer_def assert_then_def patch_def Let_def append_front_def
          buf_inv_def real_length_def front_length_of_def xmalloc_def min_def
          buf_contents_def [of "b\<lparr>buf_top := x, buf_length := y\<rparr>" for x y])
  qed
qed

lemma duplicate_contents:
  assumes "buf_inv b"
  shows "buf_inv (duplicate_buffer b) \<and> buf_contents (duplicate_buffer b) = buf_contents b"
  using assms
  by (auto simp: duplicate_buffer_def alloc_new_data_def alloc_buffer_def buf_inv_def real_length_def
      buf_contents_def patch_def front_length_of_def mem_def Let_def split: option.splits)

section \<open>The contract clients rely on\<close>

text \<open>The idiom \<open>p = append_back_buffer( b, n ); memcpy( p, bs, n )\<close> of the clients.\<close>

definition push_back :: "buffer \<Rightarrow> bytes \<Rightarrow> buffer res" where
  "push_back b bs = bnd (append_back_buffer b (length bs)) (\<lambda>(b', off). store_buffer b' off bs)"

locale byte_stream =
  fixes inv :: "'b \<Rightarrow> bool"
    and contents :: "'b \<Rightarrow> bytes"
    and push :: "'b \<Rightarrow> bytes \<Rightarrow> 'b res"
    and pop :: "'b \<Rightarrow> nat \<Rightarrow> 'b res"
  assumes push_ok: "inv b \<Longrightarrow> bs \<noteq> [] \<Longrightarrow> \<exists>b'. push b bs = Ok b' \<and> inv b' \<and> contents b' = contents b @ bs"
    and pop_ok: "inv b \<Longrightarrow> 0 < n \<Longrightarrow> n \<le> length (contents b) \<Longrightarrow>
                   \<exists>b'. pop b n = Ok b' \<and> inv b' \<and> contents b' = drop n (contents b)"
begin

primrec push_all :: "'b \<Rightarrow> bytes list \<Rightarrow> 'b res" where
  "push_all b [] = Ok b"
| "push_all b (c # cs) = bnd (push b c) (\<lambda>b'. push_all b' cs)"

lemma push_all_ok:
  "inv b \<Longrightarrow> [] \<notin> set cs \<Longrightarrow>
   \<exists>b'. push_all b cs = Ok b' \<and> inv b' \<and> contents b' = contents b @ concat cs"
proof (induction cs arbitrary: b)
  case (Cons c cs)
  obtain b1 where "push b c = Ok b1" "inv b1" "contents b1 = contents b @ c"
    using push_ok [of b c] Cons.prems by auto
  with Cons.IH [of b1] Cons.prems show ?case by auto
qed simp

lemma push_pop:
  assumes "inv b" "contents b = []" "bs \<noteq> []"
  shows "\<exists>b' b''. push b bs = Ok b' \<and> pop b' (length bs) = Ok b'' \<and> inv b'' \<and> contents b'' = []"
proof -
  obtain b1 where b1: "push b bs = Ok b1" "inv b1" "contents b1 = bs"
    using push_ok [of b bs] assms by auto
  with pop_ok [of b1 "length bs"] assms(3) show ?thesis by auto
qed

end

lemma push_back_contents:
  assumes "buf_inv b" and "bs \<noteq> []"
  shows "\<exists>b'. push_back b bs = Ok b' \<and> buf_inv b' \<and> buf_contents b' = buf_contents b @ bs"
  using append_back_contents [OF assms(1), of "length bs" bs] assms(2)
  by (auto simp: push_back_def)

interpretation buf: byte_stream buf_inv buf_contents push_back remove_front_buffer
proof
  show "\<exists>b'. push_back b bs = Ok b' \<and> buf_inv b' \<and> buf_contents b' = buf_contents b @ bs"
    if "buf_inv b" "bs \<noteq> []" for b bs using that by (rule push_back_contents)
  show "\<exists>b'. remove_front_buffer b n = Ok b' \<and> buf_inv b' \<and> buf_contents b' = drop n (buf_contents b)"
    if "buf_inv b" "0 < n" "n \<le> length (buf_contents b)" for b n
    using remove_front_contents [of b n] that by (auto simp: length_buf_contents)
qed

end
