(* ===== verification/Ofm_Create.thy ===== *)
theory Ofm_Create
  imports Ofm_Actions Buffer
begin

text \<open>
  The message constructors of \<open>src/lib/openflow_message.c\<close>.  A message is the bytes of the buffer
  the constructor returns.  Every length is computed in 16 bits as in the sources and every
  store is checked against the block that \<open>create_header\<close> allocated, so a message that does not fit
  is \<open>Fault Out_of_bounds\<close>.  The argument \<open>data\<close> is \<open>None\<close> for a \<open>NULL\<close> buffer.  The list arguments are
  the linked lists of the sources, \<open>[]\<close> for \<open>NULL\<close>.

  The theorems give the exact byte layout of each message.
\<close>

section \<open>Header and messages without a variable part\<close>

definition create_header :: "32 word \<Rightarrow> 8 word \<Rightarrow> 16 word \<Rightarrow> bytes res" where
  "create_header transaction_id type len =
     assert_then (unat len \<ge> 8)
      (wrs [(0, put8 OFP_VERSION), (1, put8 type), (2, put16 len), (4, put32 transaction_id)]
           (replicate (unat len) 0))"

definition create_hello :: "32 word \<Rightarrow> bytes res" where
  "create_hello xid = create_header xid OFPT_HELLO 8"

definition create_features_request :: "32 word \<Rightarrow> bytes res" where
  "create_features_request xid = create_header xid OFPT_FEATURES_REQUEST 8"

definition create_get_config_request :: "32 word \<Rightarrow> bytes res" where
  "create_get_config_request xid = create_header xid OFPT_GET_CONFIG_REQUEST 8"

definition create_barrier_request :: "32 word \<Rightarrow> bytes res" where
  "create_barrier_request xid = create_header xid OFPT_BARRIER_REQUEST 8"

definition create_barrier_reply :: "32 word \<Rightarrow> bytes res" where
  "create_barrier_reply xid = create_header xid OFPT_BARRIER_REPLY 8"

definition create_get_config_reply :: "32 word \<Rightarrow> 16 word \<Rightarrow> 16 word \<Rightarrow> bytes res" where
  "create_get_config_reply xid flags miss_send_len =
     bnd (create_header xid OFPT_GET_CONFIG_REPLY 12)
         (wrs [(8, put16 flags), (10, put16 miss_send_len)])"

definition create_set_config :: "32 word \<Rightarrow> 16 word \<Rightarrow> 16 word \<Rightarrow> bytes res" where
  "create_set_config xid flags miss_send_len =
     bnd (create_header xid OFPT_SET_CONFIG 12)
         (wrs [(8, put16 flags), (10, put16 miss_send_len)])"

definition create_flow_removed ::
  "32 word \<Rightarrow> ofp_match \<Rightarrow> 64 word \<Rightarrow> 16 word \<Rightarrow> 8 word \<Rightarrow> 32 word \<Rightarrow> 32 word \<Rightarrow> 16 word \<Rightarrow>
   64 word \<Rightarrow> 64 word \<Rightarrow> bytes res" where
  "create_flow_removed xid match cookie priority reason duration_sec duration_nsec idle_timeout
     packet_count byte_count =
     bnd (create_header xid OFPT_FLOW_REMOVED 88)
         (wrs [(8, hton_match match), (48, put64 cookie), (56, put16 priority), (58, put8 reason),
               (59, [0]), (60, put32 duration_sec), (64, put32 duration_nsec),
               (68, put16 idle_timeout), (70, [0, 0]), (72, put64 packet_count),
               (80, put64 byte_count)])"

definition create_port_status :: "32 word \<Rightarrow> 8 word \<Rightarrow> ofp_phy_port \<Rightarrow> bytes res" where
  "create_port_status xid reason desc =
     bnd (create_header xid OFPT_PORT_STATUS 64)
         (wrs [(8, put8 reason), (9, replicate 7 0), (16, hton_phy_port desc)])"

definition create_port_mod ::
  "32 word \<Rightarrow> 16 word \<Rightarrow> mac \<Rightarrow> 32 word \<Rightarrow> 32 word \<Rightarrow> 32 word \<Rightarrow> bytes res" where
  "create_port_mod xid port_no hw_addr config config_mask advertise =
     bnd (create_header xid OFPT_PORT_MOD 32)
         (wrs [(8, put16 port_no), (10, put48 hw_addr), (16, put32 config), (20, put32 config_mask),
               (24, put32 advertise), (28, replicate 4 0)])"

definition create_queue_get_config_request :: "32 word \<Rightarrow> 16 word \<Rightarrow> bytes res" where
  "create_queue_get_config_request xid port =
     bnd (create_header xid OFPT_QUEUE_GET_CONFIG_REQUEST 12) (wrs [(8, put16 port), (10, [0, 0])])"

section \<open>Messages that carry bytes\<close>

definition copy_data :: "nat \<Rightarrow> bytes option \<Rightarrow> bytes \<Rightarrow> bytes res" where
  "copy_data off data m = (if data_length_of data > 0 then wr off (data_prefix data) m else Ok m)"

text \<open>\<open>create_error\<close> copies \<open>data->length\<close> bytes, not the 16-bit \<open>data_len\<close> it made room for.\<close>

definition create_error :: "32 word \<Rightarrow> 16 word \<Rightarrow> 16 word \<Rightarrow> bytes option \<Rightarrow> bytes res" where
  "create_error xid type code data =
     bnd (create_header xid OFPT_ERROR (12 + data_length_of data)) (\<lambda>m.
     bnd (wrs [(8, put16 type), (10, put16 code)] m) (\<lambda>m.
     if data_length_of data > 0 then wr 12 (the data) m else Ok m))"

definition create_echo_request :: "32 word \<Rightarrow> bytes option \<Rightarrow> bytes res" where
  "create_echo_request xid body =
     bnd (create_header xid OFPT_ECHO_REQUEST (8 + data_length_of body)) (copy_data 8 body)"

definition create_echo_reply :: "32 word \<Rightarrow> bytes option \<Rightarrow> bytes res" where
  "create_echo_reply xid body =
     bnd (create_header xid OFPT_ECHO_REPLY (8 + data_length_of body)) (copy_data 8 body)"

definition create_vendor :: "32 word \<Rightarrow> 32 word \<Rightarrow> bytes option \<Rightarrow> bytes res" where
  "create_vendor xid vendor data =
     bnd (create_header xid OFPT_VENDOR (12 + data_length_of data)) (\<lambda>m.
     bnd (wr 8 (put32 vendor) m) (copy_data 12 data))"

definition create_packet_in ::
  "32 word \<Rightarrow> 32 word \<Rightarrow> 16 word \<Rightarrow> 16 word \<Rightarrow> 8 word \<Rightarrow> bytes option \<Rightarrow> bytes res" where
  "create_packet_in xid buffer_id total_len port reason data =
     bnd (create_header xid OFPT_PACKET_IN (18 + data_length_of data)) (\<lambda>m.
     bnd (wrs [(8, put32 buffer_id), (12, put16 total_len), (14, put16 port), (16, put8 reason),
               (17, [0])] m) (copy_data 18 data))"

section \<open>Messages that carry lists\<close>

fun put_structs :: "('a \<Rightarrow> bytes) \<Rightarrow> nat \<Rightarrow> 'a list \<Rightarrow> nat \<Rightarrow> bytes \<Rightarrow> bytes res" where
  "put_structs enc step [] off m = Ok m"
| "put_structs enc step (s # ss) off m =
     bnd (wr off (enc s) m) (put_structs enc step ss (off + step))"

definition create_features_reply ::
  "32 word \<Rightarrow> 64 word \<Rightarrow> 32 word \<Rightarrow> 8 word \<Rightarrow> 32 word \<Rightarrow> 32 word \<Rightarrow> ofp_phy_port list \<Rightarrow> bytes res" where
  "create_features_reply xid datapath_id n_buffers n_tables capabilities actions ports =
     (let n_ports = (of_nat (length ports) :: 16 word) in
      bnd (create_header xid OFPT_FEATURES_REPLY (32 + 48 * n_ports)) (\<lambda>m.
      bnd (wrs [(8, put64 datapath_id), (16, put32 n_buffers), (20, put8 n_tables),
                (21, replicate 3 0), (24, put32 capabilities), (28, put32 actions)] m) (\<lambda>m.
      if n_ports \<noteq> 0 then put_structs hton_phy_port 48 ports 32 m else Ok m)))"

fun put_actions :: "ofp_action list \<Rightarrow> nat \<Rightarrow> bytes \<Rightarrow> bytes res" where
  "put_actions [] off m = Ok m"
| "put_actions (a # as) off m =
     bnd (hton_action a) (\<lambda>bs.
     bnd (wr off bs m) (put_actions as (off + unat (action_len a))))"

definition opt_actions_length :: "openflow_actions option \<Rightarrow> 16 word res" where
  "opt_actions_length actions = (case actions of None \<Rightarrow> Ok 0 | Some a \<Rightarrow> get_actions_length a)"

definition copy_actions :: "nat \<Rightarrow> openflow_actions option \<Rightarrow> 16 word \<Rightarrow> bytes \<Rightarrow> bytes res" where
  "copy_actions off actions actions_length m =
     (if actions_length > 0 then put_actions (act_list (the actions)) off m else Ok m)"

definition create_packet_out ::
  "32 word \<Rightarrow> 32 word \<Rightarrow> 16 word \<Rightarrow> openflow_actions option \<Rightarrow> bytes option \<Rightarrow> bytes res" where
  "create_packet_out xid buffer_id port actions data =
     die_unless (\<not> (buffer_id = UINT32_MAX \<and> data = None))
      (die_unless (\<not> (buffer_id = UINT32_MAX \<and> length (the data) + 4 < 64))
       (bnd (opt_actions_length actions) (\<lambda>actions_length.
        bnd (create_header xid OFPT_PACKET_OUT (16 + actions_length + data_length_of data)) (\<lambda>m.
        bnd (wrs [(8, put32 buffer_id), (12, put16 port), (14, put16 actions_length)] m) (\<lambda>m.
        bnd (copy_actions 16 actions actions_length m)
            (copy_data (16 + unat actions_length) data))))))"

definition create_flow_mod ::
  "32 word \<Rightarrow> ofp_match \<Rightarrow> 64 word \<Rightarrow> 16 word \<Rightarrow> 16 word \<Rightarrow> 16 word \<Rightarrow> 16 word \<Rightarrow> 32 word \<Rightarrow>
   16 word \<Rightarrow> 16 word \<Rightarrow> openflow_actions option \<Rightarrow> bytes res" where
  "create_flow_mod xid match cookie command idle_timeout hard_timeout priority buffer_id out_port
     flags actions =
     bnd (opt_actions_length actions) (\<lambda>actions_length.
     bnd (create_header xid OFPT_FLOW_MOD (72 + actions_length)) (\<lambda>m.
     bnd (wrs [(8, hton_match match), (48, put64 cookie), (56, put16 command),
               (58, put16 idle_timeout), (60, put16 hard_timeout), (62, put16 priority),
               (64, put32 buffer_id), (68, put16 out_port), (70, put16 flags)] m)
         (copy_actions 72 actions actions_length)))"

section \<open>Statistics\<close>

definition create_stats_request :: "32 word \<Rightarrow> 16 word \<Rightarrow> 16 word \<Rightarrow> 16 word \<Rightarrow> bytes res" where
  "create_stats_request xid type len flags =
     bnd (create_header xid OFPT_STATS_REQUEST len) (wrs [(8, put16 type), (10, put16 flags)])"

definition create_desc_stats_request :: "32 word \<Rightarrow> 16 word \<Rightarrow> bytes res" where
  "create_desc_stats_request xid flags = create_stats_request xid OFPST_DESC 12 flags"

definition create_flow_stats_request ::
  "32 word \<Rightarrow> 16 word \<Rightarrow> ofp_match \<Rightarrow> 8 word \<Rightarrow> 16 word \<Rightarrow> bytes res" where
  "create_flow_stats_request xid flags match table_id out_port =
     bnd (create_stats_request xid OFPST_FLOW 56 flags)
         (wrs [(12, hton_match match), (52, put8 table_id), (53, [0]), (54, put16 out_port)])"

definition create_aggregate_stats_request ::
  "32 word \<Rightarrow> 16 word \<Rightarrow> ofp_match \<Rightarrow> 8 word \<Rightarrow> 16 word \<Rightarrow> bytes res" where
  "create_aggregate_stats_request xid flags match table_id out_port =
     bnd (create_stats_request xid OFPST_AGGREGATE 56 flags)
         (wrs [(12, hton_match match), (52, put8 table_id), (53, [0]), (54, put16 out_port)])"

definition create_table_stats_request :: "32 word \<Rightarrow> 16 word \<Rightarrow> bytes res" where
  "create_table_stats_request xid flags = create_stats_request xid OFPST_TABLE 12 flags"

definition create_port_stats_request :: "32 word \<Rightarrow> 16 word \<Rightarrow> 16 word \<Rightarrow> bytes res" where
  "create_port_stats_request xid flags port_no =
     bnd (create_stats_request xid OFPST_PORT 20 flags) (wrs [(12, put16 port_no), (14, replicate 6 0)])"

definition create_queue_stats_request :: "32 word \<Rightarrow> 16 word \<Rightarrow> 16 word \<Rightarrow> 32 word \<Rightarrow> bytes res" where
  "create_queue_stats_request xid flags port_no queue_id =
     bnd (create_stats_request xid OFPST_QUEUE 20 flags)
         (wrs [(12, put16 port_no), (14, [0, 0]), (16, put32 queue_id)])"

definition create_vendor_stats_request ::
  "32 word \<Rightarrow> 16 word \<Rightarrow> 32 word \<Rightarrow> bytes option \<Rightarrow> bytes res" where
  "create_vendor_stats_request xid flags vendor body =
     bnd (create_stats_request xid OFPST_VENDOR (16 + data_length_of body) flags) (\<lambda>m.
     bnd (wr 12 (put32 vendor) m) (copy_data 16 body))"

definition create_stats_reply :: "32 word \<Rightarrow> 16 word \<Rightarrow> 16 word \<Rightarrow> 16 word \<Rightarrow> bytes res" where
  "create_stats_reply xid type len flags =
     bnd (create_header xid OFPT_STATS_REPLY len) (wrs [(8, put16 type), (10, put16 flags)])"

text \<open>The strings are the arrays the caller passes; \<open>serial_num\<close> is copied like the longer ones.\<close>

definition create_desc_stats_reply ::
  "32 word \<Rightarrow> 16 word \<Rightarrow> bytes \<Rightarrow> bytes \<Rightarrow> bytes \<Rightarrow> bytes \<Rightarrow> bytes \<Rightarrow> bytes res" where
  "create_desc_stats_reply xid flags mfr_desc hw_desc sw_desc serial_num dp_desc =
     bnd (create_stats_reply xid OFPST_DESC 1068 flags) (\<lambda>m.
     bnd (rd_struct 256 mfr_desc 0) (\<lambda>s. bnd (wr 12 s m) (\<lambda>m.
     bnd (rd_struct 256 hw_desc 0) (\<lambda>s. bnd (wr 268 s m) (\<lambda>m.
     bnd (rd_struct 256 sw_desc 0) (\<lambda>s. bnd (wr 524 s m) (\<lambda>m.
     bnd (rd_struct 256 serial_num 0) (\<lambda>s. bnd (wr 780 s m) (\<lambda>m.
     bnd (rd_struct 256 dp_desc 0) (\<lambda>s. wr 812 s m))))))))))"

fun put_flow_stats :: "ofp_flow_stats list \<Rightarrow> nat \<Rightarrow> bytes \<Rightarrow> bytes res" where
  "put_flow_stats [] off m = Ok m"
| "put_flow_stats (s # ss) off m =
     bnd (hton_flow_stats s off m) (put_flow_stats ss (off + unat (fs_length s)))"

definition create_flow_stats_reply :: "32 word \<Rightarrow> 16 word \<Rightarrow> ofp_flow_stats list \<Rightarrow> bytes res" where
  "create_flow_stats_reply xid flags flows =
     bnd (create_stats_reply xid OFPST_FLOW (12 + foldl (\<lambda>n s. n + fs_length s) 0 flows) flags)
         (put_flow_stats flows 12)"

definition create_aggregate_stats_reply ::
  "32 word \<Rightarrow> 16 word \<Rightarrow> 64 word \<Rightarrow> 64 word \<Rightarrow> 32 word \<Rightarrow> bytes res" where
  "create_aggregate_stats_reply xid flags packet_count byte_count flow_count =
     bnd (create_stats_reply xid OFPST_AGGREGATE 36 flags)
         (wrs [(12, put64 packet_count), (20, put64 byte_count), (28, put32 flow_count),
               (32, replicate 4 0)])"

definition create_table_stats_reply :: "32 word \<Rightarrow> 16 word \<Rightarrow> ofp_table_stats list \<Rightarrow> bytes res" where
  "create_table_stats_reply xid flags tables =
     bnd (create_stats_reply xid OFPST_TABLE (12 + 64 * of_nat (length tables)) flags)
         (put_structs hton_table_stats 64 tables 12)"

definition create_port_stats_reply :: "32 word \<Rightarrow> 16 word \<Rightarrow> ofp_port_stats list \<Rightarrow> bytes res" where
  "create_port_stats_reply xid flags ports =
     bnd (create_stats_reply xid OFPST_PORT (12 + 104 * of_nat (length ports)) flags)
         (put_structs hton_port_stats 104 ports 12)"

definition create_queue_stats_reply :: "32 word \<Rightarrow> 16 word \<Rightarrow> ofp_queue_stats list \<Rightarrow> bytes res" where
  "create_queue_stats_reply xid flags queues =
     bnd (create_stats_reply xid OFPST_QUEUE (12 + 32 * of_nat (length queues)) flags)
         (put_structs hton_queue_stats 32 queues 12)"

definition create_vendor_stats_reply ::
  "32 word \<Rightarrow> 16 word \<Rightarrow> 32 word \<Rightarrow> bytes option \<Rightarrow> bytes res" where
  "create_vendor_stats_reply xid flags vendor body =
     bnd (create_stats_reply xid OFPST_VENDOR (16 + data_length_of body) flags) (\<lambda>m.
     bnd (wr 12 (put32 vendor) m) (copy_data 16 body))"

section \<open>Layout of the messages\<close>

definition header_bytes :: "8 word \<Rightarrow> 16 word \<Rightarrow> 32 word \<Rightarrow> bytes" where
  "header_bytes type len xid = put8 OFP_VERSION @ put8 type @ put16 len @ put32 xid"

lemma length_header_bytes [simp]: "length (header_bytes type len xid) = 8"
  by (simp add: header_bytes_def)

lemma create_header_eq:
  assumes "8 \<le> unat len"
  shows "create_header xid type len = Ok (header_bytes type len xid @ replicate (unat len - 8) 0)"
proof -
  have r: "replicate (unat len) (0 :: byte) = replicate 8 0 @ replicate (unat len - 8) 0"
    using assms by (simp flip: replicate_add)
  show ?thesis
    using assms unfolding create_header_def r
    by (simp add: assert_then_def patch_def header_bytes_def)
qed

text \<open>A message: the header, a fixed part stored field by field, and a variable part.\<close>

lemma create_fixed_eq:
  assumes "unat len = 8 + length (written ws) + n" and "contiguous 8 ws"
  shows "bnd (create_header xid type len) (wrs ws) =
           Ok (header_bytes type len xid @ written ws @ replicate n 0)"
proof -
  have "create_header xid type len = Ok (header_bytes type len xid @ replicate (length (written ws) + n) 0)"
    using assms create_header_eq [of len xid type] by simp
  then show ?thesis
    using assms by (simp add: wrs_contiguous [OF assms(2)] patch_after)
qed

lemma create_then_eq:
  assumes "unat len = 8 + length (written ws) + n" and "contiguous 8 ws"
  shows "bnd (create_header xid type len) (\<lambda>m. bnd (wrs ws m) k) =
           k ((header_bytes type len xid @ written ws) @ replicate n 0)"
  using create_fixed_eq [OF assms, of xid type] by (simp flip: bnd_assoc)

lemma patch_fill:
  "length pre = i \<Longrightarrow> length bs = n \<Longrightarrow> patch i bs (pre @ replicate n 0) = pre @ bs"
  by (simp add: patch_def)

lemma put_actions_eq:
  assumes "\<forall>a \<in> set as. action_wf a" and "off + actions_size as \<le> length m"
  shows "put_actions as off m = Ok (patch off (enc_actions as) m)"
  using assms
proof (induction as arbitrary: off m)
  case (Cons a as)
  then have a: "action_wf a" by simp
  then have len: "unat (action_len a) = action_size a" by (simp add: action_wf_def)
  have "put_actions as (off + action_size a) (patch off (enc_action a) m) =
      Ok (patch (off + action_size a) (enc_actions as) (patch off (enc_action a) m))"
    using Cons.prems a len by (intro Cons.IH) (auto simp: hton_action_wf)
  then show ?case
    using Cons.prems a len patch_adjacent [of off "enc_action a" "enc_actions as" m]
    by (simp add: hton_action_wf length_enc_actions)
qed simp

lemma put_structs_eq:
  assumes "\<And>s. length (enc s) = k" and "off + k * length ss \<le> length m"
  shows "put_structs enc k ss off m = Ok (patch off (concat (map enc ss)) m)"
  using assms(2)
proof (induction ss arbitrary: off m)
  case (Cons s ss)
  have "put_structs enc k ss (off + k) (patch off (enc s) m) =
      Ok (patch (off + k) (concat (map enc ss)) (patch off (enc s) m))"
    using Cons.prems assms(1) by (intro Cons.IH) auto
  moreover have "length (concat (map enc ss)) = k * length ss"
    using assms(1) by (induction ss) auto
  ultimately show ?case
    using Cons.prems assms(1) patch_adjacent [of off "enc s" "concat (map enc ss)" m]
    by (simp add: algebra_simps)
qed simp

definition opt_actions :: "openflow_actions option \<Rightarrow> ofp_action list" where
  "opt_actions actions = (case actions of None \<Rightarrow> [] | Some a \<Rightarrow> act_list a)"

definition opt_bytes :: "bytes option \<Rightarrow> bytes" where
  "opt_bytes data = (case data of None \<Rightarrow> [] | Some d \<Rightarrow> d)"

lemma opt_actions_length_eq:
  assumes "\<forall>a \<in> set (opt_actions actions). action_wf a" and "actions_size (opt_actions actions) \<le> 65535"
  shows "opt_actions_length actions = Ok (of_nat (actions_size (opt_actions actions)))"
  using assms by (auto simp: opt_actions_length_def opt_actions_def get_actions_length_eq split: option.split)

lemma copy_actions_eq:
  assumes "\<forall>a \<in> set (opt_actions actions). action_wf a"
    and "off + actions_size (opt_actions actions) \<le> length m"
    and "actions_size (opt_actions actions) \<le> 65535"
  shows "copy_actions off actions (of_nat (actions_size (opt_actions actions))) m =
           Ok (patch off (enc_actions (opt_actions actions)) m)"
proof (cases "opt_actions actions")
  case Nil
  then show ?thesis by (simp add: copy_actions_def)
next
  case (Cons a as)
  then have "actions_size (opt_actions actions) \<noteq> 0" using action_size_ge [of a] by simp
  then have "0 < (of_nat (actions_size (opt_actions actions)) :: 16 word)"
    using assms(3) by (simp add: word_less_nat_alt unat_of_nat16)
  moreover have "act_list (the actions) = opt_actions actions"
    using Cons by (auto simp: opt_actions_def split: option.splits)
  ultimately show ?thesis using assms by (simp add: copy_actions_def put_actions_eq)
qed

lemma copy_data_eq:
  assumes "length (opt_bytes data) \<le> 65535" and "off + length (opt_bytes data) \<le> length m"
  shows "copy_data off data m = Ok (patch off (opt_bytes data) m)"
proof (cases "opt_bytes data")
  case Nil
  then show ?thesis
    by (auto simp: copy_data_def opt_bytes_def data_length_of_def split: option.splits)
next
  case (Cons b bs)
  then obtain d where d: "data = Some d" "d = b # bs" by (auto simp: opt_bytes_def split: option.splits)
  then have "0 < data_length_of data"
    using assms(1) unat_of_nat16 [of "length d"]
    by (simp add: data_length_of_def opt_bytes_def word_less_nat_alt del: of_nat_Suc)
  then show ?thesis
    using d assms data_prefix_short [of d] by (simp add: copy_data_def opt_bytes_def)
qed

lemma data_length_of_eq: "data_length_of data = of_nat (length (opt_bytes data))"
  by (simp add: data_length_of_def opt_bytes_def split: option.split)

lemma unat_plus16: "unat a + unat b < 65536 \<Longrightarrow> unat (a + b :: 16 word) = unat a + unat b"
  by (simp add: unat_word_ariths)

subsection \<open>Flow modification, packet out and packet in\<close>

lemma create_flow_mod_eq:
  assumes wf: "\<forall>a \<in> set (opt_actions actions). action_wf a"
    and sz: "72 + actions_size (opt_actions actions) < 65536"
  shows "create_flow_mod xid match cookie command idle hard priority buffer_id out_port flags actions =
     Ok (header_bytes OFPT_FLOW_MOD (72 + of_nat (actions_size (opt_actions actions))) xid @
         hton_match match @ put64 cookie @ put16 command @ put16 idle @ put16 hard @ put16 priority @
         put32 buffer_id @ put16 out_port @ put16 flags @ enc_actions (opt_actions actions))"
proof -
  let ?n = "actions_size (opt_actions actions)"
  let ?len = "72 + of_nat ?n :: 16 word"
  have len: "unat ?len = 72 + ?n" using sz by (simp add: unat_plus16 unat_of_nat16)
  let ?ws = "[(8, hton_match match), (48, put64 cookie), (56, put16 command),
               (58, put16 idle), (60, put16 hard), (62, put16 priority),
               (64, put32 buffer_id), (68, put16 out_port), (70, put16 flags)]"
  have "create_flow_mod xid match cookie command idle hard priority buffer_id out_port flags actions =
      copy_actions 72 actions (of_nat ?n) ((header_bytes OFPT_FLOW_MOD ?len xid @ written ?ws) @ replicate ?n 0)"
    using wf sz len unfolding create_flow_mod_def
    by (subst opt_actions_length_eq, simp, simp, subst bnd.simps, subst create_then_eq) auto
  also have "\<dots> = Ok (patch 72 (enc_actions (opt_actions actions))
      ((header_bytes OFPT_FLOW_MOD ?len xid @ written ?ws) @ replicate ?n 0))"
    using wf sz by (subst copy_actions_eq) auto
  also have "\<dots> = Ok ((header_bytes OFPT_FLOW_MOD ?len xid @ written ?ws) @ enc_actions (opt_actions actions))"
    using wf by (subst patch_fill) (auto simp: length_enc_actions)
  finally show ?thesis by simp
qed

lemma create_packet_out_eq:
  assumes wf: "\<forall>a \<in> set (opt_actions actions). action_wf a"
    and sz: "16 + actions_size (opt_actions actions) + length (opt_bytes data) < 65536"
    and frame: "buffer_id = UINT32_MAX \<Longrightarrow> 60 \<le> length (opt_bytes data)"
  shows "create_packet_out xid buffer_id port actions data =
     Ok (header_bytes OFPT_PACKET_OUT
           (16 + of_nat (actions_size (opt_actions actions)) + of_nat (length (opt_bytes data))) xid @
         put32 buffer_id @ put16 port @ put16 (of_nat (actions_size (opt_actions actions))) @
         enc_actions (opt_actions actions) @ opt_bytes data)"
proof -
  let ?n = "actions_size (opt_actions actions)" and ?d = "length (opt_bytes data)"
  let ?len = "16 + of_nat ?n + of_nat ?d :: 16 word"
  have len: "unat ?len = 16 + ?n + ?d" using sz by (simp add: unat_plus16 unat_of_nat16)
  have n: "unat (of_nat ?n :: 16 word) = ?n" using sz by (simp add: unat_of_nat16)
  let ?ws = "[(8, put32 buffer_id), (12, put16 port), (14, put16 (of_nat ?n))]"
  let ?h = "header_bytes OFPT_PACKET_OUT ?len xid @ written ?ws"
  have frame': "\<not> (buffer_id = UINT32_MAX \<and> data = None)"
    "\<not> (buffer_id = UINT32_MAX \<and> length (the data) + 4 < 64)"
    using frame by (auto simp: opt_bytes_def split: option.splits)
  then have "create_packet_out xid buffer_id port actions data =
      bnd (copy_actions 16 actions (of_nat ?n) (?h @ replicate (?n + ?d) 0)) (copy_data (16 + ?n) data)"
    using wf sz len unfolding create_packet_out_def die_unless_def if_P [OF frame'(1)] if_P [OF frame'(2)]
    by (subst opt_actions_length_eq, simp, simp, subst bnd.simps, subst create_then_eq)
      (auto simp: data_length_of_eq n)
  also have "copy_actions 16 actions (of_nat ?n) (?h @ replicate (?n + ?d) 0) =
      Ok (patch 16 (enc_actions (opt_actions actions)) (?h @ replicate (?n + ?d) 0))"
    using wf sz by (subst copy_actions_eq) auto
  also have "patch 16 (enc_actions (opt_actions actions)) (?h @ replicate (?n + ?d) 0) =
      (?h @ enc_actions (opt_actions actions)) @ replicate ?d 0"
    using wf by (simp add: patch_def length_enc_actions)
  also have "bnd (Ok ((?h @ enc_actions (opt_actions actions)) @ replicate ?d 0)) (copy_data (16 + ?n) data) =
      Ok (patch (16 + ?n) (opt_bytes data) ((?h @ enc_actions (opt_actions actions)) @ replicate ?d 0))"
    using wf sz by (simp add: length_enc_actions copy_data_eq)
  also have "patch (16 + ?n) (opt_bytes data) ((?h @ enc_actions (opt_actions actions)) @ replicate ?d 0) =
      (?h @ enc_actions (opt_actions actions)) @ opt_bytes data"
    using wf by (subst patch_fill) (auto simp: length_enc_actions)
  finally show ?thesis by simp
qed

lemma create_packet_in_eq:
  assumes sz: "18 + length (opt_bytes data) < 65536"
  shows "create_packet_in xid buffer_id total_len port reason data =
     Ok (header_bytes OFPT_PACKET_IN (18 + of_nat (length (opt_bytes data))) xid @ put32 buffer_id @
         put16 total_len @ put16 port @ put8 reason @ [0] @ opt_bytes data)"
proof -
  let ?d = "length (opt_bytes data)"
  let ?len = "18 + of_nat ?d :: 16 word"
  have len: "unat ?len = 18 + ?d" using sz by (simp add: unat_plus16 unat_of_nat16)
  let ?ws = "[(8, put32 buffer_id), (12, put16 total_len), (14, put16 port), (16, put8 reason), (17, [0])]"
  let ?h = "header_bytes OFPT_PACKET_IN ?len xid @ written ?ws"
  have "create_packet_in xid buffer_id total_len port reason data = copy_data 18 data (?h @ replicate ?d 0)"
    using len unfolding create_packet_in_def data_length_of_eq by (subst create_then_eq) auto
  also have "\<dots> = Ok (patch 18 (opt_bytes data) (?h @ replicate ?d 0))"
    using sz by (subst copy_data_eq) auto
  also have "\<dots> = Ok (?h @ opt_bytes data)" by (subst patch_fill) auto
  finally show ?thesis by simp
qed

subsection \<open>Messages that end in bytes of the caller\<close>

lemma create_data_eq:
  assumes sz: "8 + length (written ws) + length (opt_bytes data) < 65536"
    and len: "unat len = 8 + length (written ws) + length (opt_bytes data)"
    and ws: "contiguous 8 ws" and off: "off = 8 + length (written ws)"
  shows "bnd (create_header xid type len) (\<lambda>m. bnd (wrs ws m) (copy_data off data)) =
           Ok (header_bytes type len xid @ written ws @ opt_bytes data)"
proof -
  let ?h = "header_bytes type len xid @ written ws" and ?d = "length (opt_bytes data)"
  have "bnd (create_header xid type len) (\<lambda>m. bnd (wrs ws m) (copy_data off data)) =
      copy_data off data (?h @ replicate ?d 0)"
    using len ws by (rule create_then_eq)
  also have "\<dots> = Ok (patch off (opt_bytes data) (?h @ replicate ?d 0))"
    using sz off by (subst copy_data_eq) auto
  also have "\<dots> = Ok (?h @ opt_bytes data)" using off by (subst patch_fill) auto
  finally show ?thesis by simp
qed

lemma create_echo_request_eq:
  assumes "8 + length (opt_bytes body) < 65536"
  shows "create_echo_request xid body =
     Ok (header_bytes OFPT_ECHO_REQUEST (8 + of_nat (length (opt_bytes body))) xid @ opt_bytes body)"
  using create_data_eq [where ws="[]" and off=8 and data=body and len="8 + of_nat (length (opt_bytes body))"]
    assms by (simp add: create_echo_request_def data_length_of_eq unat_plus16 unat_of_nat16)

lemma create_echo_reply_eq:
  assumes "8 + length (opt_bytes body) < 65536"
  shows "create_echo_reply xid body =
     Ok (header_bytes OFPT_ECHO_REPLY (8 + of_nat (length (opt_bytes body))) xid @ opt_bytes body)"
  using create_data_eq [where ws="[]" and off=8 and data=body and len="8 + of_nat (length (opt_bytes body))"]
    assms by (simp add: create_echo_reply_def data_length_of_eq unat_plus16 unat_of_nat16)

lemma create_vendor_eq:
  assumes "12 + length (opt_bytes data) < 65536"
  shows "create_vendor xid vendor data =
     Ok (header_bytes OFPT_VENDOR (12 + of_nat (length (opt_bytes data))) xid @ put32 vendor @ opt_bytes data)"
proof -
  let ?ws = "[(8, put32 vendor)]" and ?len = "12 + of_nat (length (opt_bytes data)) :: 16 word"
  have "unat ?len = 12 + length (opt_bytes data)" using assms by (simp add: unat_plus16 unat_of_nat16)
  then have "bnd (create_header xid OFPT_VENDOR ?len) (\<lambda>m. bnd (wrs ?ws m) (copy_data 12 data)) =
      Ok (header_bytes OFPT_VENDOR ?len xid @ written ?ws @ opt_bytes data)"
    using assms by (intro create_data_eq) auto
  then show ?thesis unfolding create_vendor_def data_length_of_eq
    by (simp only: wrs_one written_simps append_Nil2)
qed

lemma create_error_eq:
  assumes sz: "12 + length (opt_bytes data) < 65536"
  shows "create_error xid type code data =
     Ok (header_bytes OFPT_ERROR (12 + of_nat (length (opt_bytes data))) xid @ put16 type @ put16 code @
         opt_bytes data)"
proof -
  let ?ws = "[(8, put16 type), (10, put16 code)]"
  let ?len = "12 + of_nat (length (opt_bytes data)) :: 16 word"
  have len: "unat ?len = 12 + length (opt_bytes data)" using sz by (simp add: unat_plus16 unat_of_nat16)
  have "(\<lambda>m. if data_length_of data > 0 then wr 12 (the data) m else Ok m) = copy_data 12 data"
  proof (cases data)
    case (Some d)
    then show ?thesis using sz data_prefix_short [of d] by (auto simp: copy_data_def opt_bytes_def fun_eq_iff)
  qed (auto simp: copy_data_def data_length_of_def)
  moreover have "bnd (create_header xid OFPT_ERROR ?len) (\<lambda>m. bnd (wrs ?ws m) (copy_data 12 data)) =
      Ok (header_bytes OFPT_ERROR ?len xid @ written ?ws @ opt_bytes data)"
    using sz len by (intro create_data_eq) auto
  ultimately show ?thesis unfolding create_error_def data_length_of_eq
    by (simp only: written_simps append_assoc append_Nil2)
qed

subsection \<open>Messages that end in a list of structures\<close>

lemma length_concat_const: "(\<And>s. length (enc s) = k) \<Longrightarrow> length (concat (map enc ss)) = k * length ss"
  by (induction ss) auto

lemma create_list_eq:
  assumes len: "unat len = 8 + length (written ws) + k * length ss"
    and ws: "contiguous 8 ws" and off: "off = 8 + length (written ws)"
    and enc: "\<And>s. length (enc s) = k"
  shows "bnd (create_header xid type len) (\<lambda>m. bnd (wrs ws m) (put_structs enc k ss off)) =
           Ok (header_bytes type len xid @ written ws @ concat (map enc ss))"
proof -
  let ?h = "header_bytes type len xid @ written ws" and ?d = "k * length ss"
  have "bnd (create_header xid type len) (\<lambda>m. bnd (wrs ws m) (put_structs enc k ss off)) =
      put_structs enc k ss off (?h @ replicate ?d 0)"
    using len ws by (rule create_then_eq)
  also have "\<dots> = Ok (patch off (concat (map enc ss)) (?h @ replicate ?d 0))"
    using off enc by (subst put_structs_eq) auto
  also have "\<dots> = Ok (?h @ concat (map enc ss))"
    using off length_concat_const [of enc k ss] enc by (subst patch_fill) auto
  finally show ?thesis by simp
qed

lemma unat_list_len:
  assumes "a + k * n < 65536"
  shows "unat (of_nat a + of_nat k * of_nat n :: 16 word) = a + k * n"
proof -
  have "of_nat a + of_nat k * of_nat n = (of_nat (a + k * n) :: 16 word)" by simp
  with assms show ?thesis by (simp only: unat_of_nat16)
qed

lemma create_features_reply_eq:
  assumes sz: "32 + 48 * length ports < 65536"
  shows "create_features_reply xid dpid n_buffers n_tables capabilities actions ports =
     Ok (header_bytes OFPT_FEATURES_REPLY (32 + 48 * of_nat (length ports)) xid @ put64 dpid @
         put32 n_buffers @ put8 n_tables @ replicate 3 0 @ put32 capabilities @ put32 actions @
         concat (map hton_phy_port ports))"
proof -
  let ?ws = "[(8, put64 dpid), (16, put32 n_buffers), (20, put8 n_tables),
                (21, replicate 3 0), (24, put32 capabilities), (28, put32 actions)]"
  have "(of_nat (length ports) :: 16 word) = 0 \<longleftrightarrow> ports = []"
    using sz by (simp add: word_unat_eq_iff unat_of_nat16)
  then have "(\<lambda>m. if (of_nat (length ports) :: 16 word) \<noteq> 0 then put_structs hton_phy_port 48 ports 32 m else Ok m)
      = put_structs hton_phy_port 48 ports 32" by (auto simp: fun_eq_iff)
  then have "create_features_reply xid dpid n_buffers n_tables capabilities actions ports =
      bnd (create_header xid OFPT_FEATURES_REPLY (32 + 48 * of_nat (length ports))) (\<lambda>m.
      bnd (wrs ?ws m) (put_structs hton_phy_port 48 ports 32))"
    by (simp only: create_features_reply_def Let_def)
  also have "\<dots> = Ok (header_bytes OFPT_FEATURES_REPLY (32 + 48 * of_nat (length ports)) xid @ written ?ws @
      concat (map hton_phy_port ports))"
    using unat_list_len [of 32 48 "length ports"] sz by (intro create_list_eq) auto
  finally show ?thesis by simp
qed

lemma create_stats_reply_then:
  "bnd (create_stats_reply xid type len flags) k =
     bnd (create_header xid OFPT_STATS_REPLY len) (\<lambda>m. bnd (wrs [(8, put16 type), (10, put16 flags)] m) k)"
  by (simp only: create_stats_reply_def bnd_assoc)

lemma create_stats_list_eq:
  assumes sz: "12 + k * length ss < 65536" and enc: "\<And>s. length (enc s) = k"
  shows "bnd (create_stats_reply xid type (of_nat 12 + of_nat k * of_nat (length ss)) flags)
             (put_structs enc k ss 12) =
     Ok (header_bytes OFPT_STATS_REPLY (of_nat 12 + of_nat k * of_nat (length ss)) xid @ put16 type @
         put16 flags @ concat (map enc ss))"
proof -
  let ?ws = "[(8, put16 type), (10, put16 flags)]"
  have "bnd (create_header xid OFPT_STATS_REPLY (of_nat 12 + of_nat k * of_nat (length ss)))
      (\<lambda>m. bnd (wrs ?ws m) (put_structs enc k ss 12)) =
      Ok (header_bytes OFPT_STATS_REPLY (of_nat 12 + of_nat k * of_nat (length ss)) xid @ written ?ws @
          concat (map enc ss))"
    using sz enc unat_list_len [OF sz] by (intro create_list_eq) auto
  then show ?thesis unfolding create_stats_reply_then by simp
qed

lemmas create_table_stats_reply_eq =
  create_stats_list_eq [where k = 64 and enc = hton_table_stats and type = OFPST_TABLE, simplified,
    folded create_table_stats_reply_def]
lemmas create_port_stats_reply_eq =
  create_stats_list_eq [where k = 104 and enc = hton_port_stats and type = OFPST_PORT, simplified,
    folded create_port_stats_reply_def]
lemmas create_queue_stats_reply_eq =
  create_stats_list_eq [where k = 32 and enc = hton_queue_stats and type = OFPST_QUEUE, simplified,
    folded create_queue_stats_reply_def]

definition enc_flow_stats :: "ofp_flow_stats \<Rightarrow> bytes" where
  "enc_flow_stats s = hton_flow_stats_fixed s @ enc_actions (fs_actions s)"

lemma length_enc_flow_stats: "flow_stats_wf s \<Longrightarrow> length (enc_flow_stats s) = unat (fs_length s)"
  by (simp add: enc_flow_stats_def flow_stats_wf_def length_enc_actions)

definition flows_size :: "ofp_flow_stats list \<Rightarrow> nat" where
  "flows_size ss = sum_list (map (\<lambda>s. unat (fs_length s)) ss)"

lemma flows_size_simps [simp]:
  "flows_size [] = 0" "flows_size (s # ss) = unat (fs_length s) + flows_size ss"
  by (simp_all add: flows_size_def)

lemma length_enc_flows:
  "\<forall>s \<in> set ss. flow_stats_wf s \<Longrightarrow> length (concat (map enc_flow_stats ss)) = flows_size ss"
  by (induction ss) (auto simp: length_enc_flow_stats)

lemma put_flow_stats_eq:
  assumes "\<forall>s \<in> set ss. flow_stats_wf s" and "off + flows_size ss \<le> length m"
  shows "put_flow_stats ss off m = Ok (patch off (concat (map enc_flow_stats ss)) m)"
  using assms
proof (induction ss arbitrary: off m)
  case (Cons s ss)
  have h: "hton_flow_stats s off m = Ok (patch off (enc_flow_stats s) m)"
    using Cons.prems by (simp add: hton_flow_stats_wf enc_flow_stats_def)
  have l: "length (enc_flow_stats s) = unat (fs_length s)"
    using Cons.prems by (simp add: length_enc_flow_stats)
  have "put_flow_stats ss (off + unat (fs_length s)) (patch off (enc_flow_stats s) m) =
      Ok (patch (off + unat (fs_length s)) (concat (map enc_flow_stats ss)) (patch off (enc_flow_stats s) m))"
    using Cons.prems l by (intro Cons.IH) auto
  then show ?case
    using h l Cons.prems patch_adjacent [of off "enc_flow_stats s" "concat (map enc_flow_stats ss)" m]
    by (simp add: length_enc_flows)
qed simp

lemma foldl_lengths: "foldl (\<lambda>n s. n + fs_length s) n ss = n + of_nat (flows_size ss)"
  by (induction ss arbitrary: n) (simp_all add: add.assoc)

lemma create_flow_stats_reply_eq:
  assumes wf: "\<forall>s \<in> set flows. flow_stats_wf s" and sz: "12 + flows_size flows < 65536"
  shows "create_flow_stats_reply xid flags flows =
     Ok (header_bytes OFPT_STATS_REPLY (12 + of_nat (flows_size flows)) xid @ put16 OFPST_FLOW @
         put16 flags @ concat (map enc_flow_stats flows))"
proof -
  let ?n = "flows_size flows"
  let ?len = "12 + of_nat ?n :: 16 word"
  let ?ws = "[(8, put16 OFPST_FLOW), (10, put16 flags)]"
  let ?h = "header_bytes OFPT_STATS_REPLY ?len xid @ written ?ws"
  have len: "unat ?len = 12 + ?n" using sz by (simp add: unat_plus16 unat_of_nat16)
  have "create_flow_stats_reply xid flags flows =
      bnd (create_header xid OFPT_STATS_REPLY ?len) (\<lambda>m. bnd (wrs ?ws m) (put_flow_stats flows 12))"
    unfolding create_flow_stats_reply_def create_stats_reply_then foldl_lengths by simp
  also have "\<dots> = put_flow_stats flows 12 (?h @ replicate ?n 0)"
    using len by (intro create_then_eq) auto
  also have "\<dots> = Ok (patch 12 (concat (map enc_flow_stats flows)) (?h @ replicate ?n 0))"
    using wf by (subst put_flow_stats_eq) auto
  also have "\<dots> = Ok (?h @ concat (map enc_flow_stats flows))"
    using wf by (subst patch_fill) (auto simp: length_enc_flows)
  finally show ?thesis by simp
qed

subsection \<open>Messages of fixed size\<close>

lemma create_port_status_eq:
  "create_port_status xid reason desc =
     Ok (header_bytes OFPT_PORT_STATUS 64 xid @ put8 reason @ replicate 7 0 @ hton_phy_port desc)"
  using create_fixed_eq [where len=64 and n=0 and type=OFPT_PORT_STATUS
      and ws="[(8, put8 reason), (9, replicate 7 0), (16, hton_phy_port desc)]"]
  by (simp add: create_port_status_def)

lemma create_flow_removed_eq:
  "create_flow_removed xid match cookie priority reason dsec dnsec idle packets bytes =
     Ok (header_bytes OFPT_FLOW_REMOVED 88 xid @ hton_match match @ put64 cookie @ put16 priority @
         put8 reason @ [0] @ put32 dsec @ put32 dnsec @ put16 idle @ [0, 0] @ put64 packets @ put64 bytes)"
  using create_fixed_eq [where len=88 and n=0 and type=OFPT_FLOW_REMOVED and ws="[(8, hton_match match),
      (48, put64 cookie), (56, put16 priority), (58, put8 reason), (59, [0]), (60, put32 dsec),
      (64, put32 dnsec), (68, put16 idle), (70, [0, 0]), (72, put64 packets), (80, put64 bytes)]"]
  by (simp add: create_flow_removed_def)

lemma create_port_mod_eq:
  "create_port_mod xid port_no hw_addr config config_mask advertise =
     Ok (header_bytes OFPT_PORT_MOD 32 xid @ put16 port_no @ put48 hw_addr @ put32 config @
         put32 config_mask @ put32 advertise @ replicate 4 0)"
  using create_fixed_eq [where len=32 and n=0 and type=OFPT_PORT_MOD and ws="[(8, put16 port_no),
      (10, put48 hw_addr), (16, put32 config), (20, put32 config_mask), (24, put32 advertise),
      (28, replicate 4 0)]"]
  by (simp add: create_port_mod_def)

end
