(* ===== verification/Ofm_Validate.thy ===== *)
theory Ofm_Validate
  imports Ofm_Create
begin

text \<open>
  The validation of received messages in \<open>src/lib/openflow_message.c\<close>.  A validator returns the
  \<open>int\<close> of the sources (0, or one of the negative error numbers of \<open>openflow_message.h\<close>) and reads
  the message, which has exactly \<open>message->length\<close> bytes, through \<open>rd\<close>: a read past its end is
  \<open>Fault Out_of_bounds\<close>.  Loops whose step comes from the message carry fuel (\<open>Fault No_return\<close>
  when it runs out); each turn of such a loop uses one unit, so \<open>length m\<close> units are enough for every
  loop that advances within the message.
\<close>

section \<open>Error numbers and masks\<close>

abbreviation "ERROR_UNSUPPORTED_VERSION \<equiv> (-60 :: int)"
abbreviation "ERROR_INVALID_LENGTH \<equiv> (-59 :: int)"
abbreviation "ERROR_TOO_SHORT_MESSAGE \<equiv> (-58 :: int)"
abbreviation "ERROR_TOO_LONG_MESSAGE \<equiv> (-57 :: int)"
abbreviation "ERROR_INVALID_TYPE \<equiv> (-56 :: int)"
abbreviation "ERROR_UNDEFINED_TYPE \<equiv> (-55 :: int)"
abbreviation "ERROR_UNSUPPORTED_TYPE \<equiv> (-54 :: int)"
abbreviation "ERROR_NO_TABLE_AVAILABLE \<equiv> (-53 :: int)"
abbreviation "ERROR_INVALID_PORT_NO \<equiv> (-52 :: int)"
abbreviation "ERROR_INVALID_PORT_CONFIG \<equiv> (-51 :: int)"
abbreviation "ERROR_INVALID_PORT_STATE \<equiv> (-50 :: int)"
abbreviation "ERROR_INVALID_PORT_FEATURES \<equiv> (-49 :: int)"
abbreviation "ERROR_INVALID_SWITCH_CONFIG \<equiv> (-48 :: int)"
abbreviation "ERROR_INVALID_PACKET_IN_REASON \<equiv> (-47 :: int)"
abbreviation "ERROR_INVALID_FLOW_REMOVED_REASON \<equiv> (-46 :: int)"
abbreviation "ERROR_INVALID_WILDCARDS \<equiv> (-45 :: int)"
abbreviation "ERROR_INVALID_VLAN_VID \<equiv> (-44 :: int)"
abbreviation "ERROR_INVALID_VLAN_PCP \<equiv> (-43 :: int)"
abbreviation "ERROR_INVALID_NW_TOS \<equiv> (-42 :: int)"
abbreviation "ERROR_INVALID_PORT_STATUS_REASON \<equiv> (-41 :: int)"
abbreviation "ERROR_TOO_SHORT_QUEUE_DESCRIPTION \<equiv> (-40 :: int)"
abbreviation "ERROR_TOO_SHORT_QUEUE_PROPERTY \<equiv> (-39 :: int)"
abbreviation "ERROR_TOO_LONG_QUEUE_PROPERTY \<equiv> (-38 :: int)"
abbreviation "ERROR_UNDEFINED_QUEUE_PROPERTY \<equiv> (-37 :: int)"
abbreviation "ERROR_TOO_SHORT_ACTION \<equiv> (-36 :: int)"
abbreviation "ERROR_UNDEFINED_ACTION_TYPE \<equiv> (-35 :: int)"
abbreviation "ERROR_INVALID_ACTION_TYPE \<equiv> (-34 :: int)"
abbreviation "ERROR_TOO_SHORT_ACTION_OUTPUT \<equiv> (-33 :: int)"
abbreviation "ERROR_TOO_LONG_ACTION_OUTPUT \<equiv> (-32 :: int)"
abbreviation "ERROR_TOO_SHORT_ACTION_VLAN_VID \<equiv> (-31 :: int)"
abbreviation "ERROR_TOO_LONG_ACTION_VLAN_VID \<equiv> (-30 :: int)"
abbreviation "ERROR_TOO_SHORT_ACTION_VLAN_PCP \<equiv> (-29 :: int)"
abbreviation "ERROR_TOO_LONG_ACTION_VLAN_PCP \<equiv> (-28 :: int)"
abbreviation "ERROR_TOO_SHORT_ACTION_STRIP_VLAN \<equiv> (-27 :: int)"
abbreviation "ERROR_TOO_LONG_ACTION_STRIP_VLAN \<equiv> (-26 :: int)"
abbreviation "ERROR_TOO_SHORT_ACTION_DL_SRC \<equiv> (-25 :: int)"
abbreviation "ERROR_TOO_LONG_ACTION_DL_SRC \<equiv> (-24 :: int)"
abbreviation "ERROR_TOO_SHORT_ACTION_DL_DST \<equiv> (-23 :: int)"
abbreviation "ERROR_TOO_LONG_ACTION_DL_DST \<equiv> (-22 :: int)"
abbreviation "ERROR_TOO_SHORT_ACTION_NW_SRC \<equiv> (-21 :: int)"
abbreviation "ERROR_TOO_LONG_ACTION_NW_SRC \<equiv> (-20 :: int)"
abbreviation "ERROR_TOO_SHORT_ACTION_NW_DST \<equiv> (-19 :: int)"
abbreviation "ERROR_TOO_LONG_ACTION_NW_DST \<equiv> (-18 :: int)"
abbreviation "ERROR_TOO_SHORT_ACTION_NW_TOS \<equiv> (-17 :: int)"
abbreviation "ERROR_TOO_LONG_ACTION_NW_TOS \<equiv> (-16 :: int)"
abbreviation "ERROR_TOO_SHORT_ACTION_TP_SRC \<equiv> (-15 :: int)"
abbreviation "ERROR_TOO_LONG_ACTION_TP_SRC \<equiv> (-14 :: int)"
abbreviation "ERROR_TOO_SHORT_ACTION_TP_DST \<equiv> (-13 :: int)"
abbreviation "ERROR_TOO_LONG_ACTION_TP_DST \<equiv> (-12 :: int)"
abbreviation "ERROR_TOO_SHORT_ACTION_ENQUEUE \<equiv> (-11 :: int)"
abbreviation "ERROR_TOO_LONG_ACTION_ENQUEUE \<equiv> (-10 :: int)"
abbreviation "ERROR_TOO_SHORT_ACTION_VENDOR \<equiv> (-9 :: int)"
abbreviation "ERROR_INVALID_LENGTH_ACTION_VENDOR \<equiv> (-8 :: int)"
abbreviation "ERROR_UNSUPPORTED_STATS_TYPE \<equiv> (-7 :: int)"
abbreviation "ERROR_INVALID_STATS_REPLY_FLAGS \<equiv> (-6 :: int)"
abbreviation "ERROR_INVALID_FLOW_PRIORITY \<equiv> (-5 :: int)"
abbreviation "ERROR_INVALID_FLOW_MOD_FLAGS \<equiv> (-4 :: int)"
abbreviation "ERROR_INVALID_PORT_MASK \<equiv> (-3 :: int)"
abbreviation "ERROR_INVALID_STATS_TYPE \<equiv> (-2 :: int)"
abbreviation "ERROR_INVALID_STATS_REQUEST_FLAGS \<equiv> (-1 :: int)"
abbreviation "ERROR_UNDEFINED_FLOW_MOD_COMMAND \<equiv> (0 :: int)"

abbreviation "PORT_CONFIG \<equiv> (0x7f :: 32 word)"
abbreviation "PORT_STATE \<equiv> (0x301 :: 32 word)"
abbreviation "PORT_FEATURES \<equiv> (0xfff :: 32 word)"
abbreviation "FLOW_MOD_FLAGS \<equiv> (7 :: 16 word)"

section \<open>Header and elementary checks\<close>

definition valid_message_version :: "8 word \<Rightarrow> 8 word \<Rightarrow> bool" where
  "valid_message_version type version =
     (if type \<noteq> OFPT_HELLO then version = OFP_VERSION else version \<ge> OFP_VERSION \<and> version \<le> 4)"

definition validate_header :: "bytes \<Rightarrow> 8 word \<Rightarrow> nat \<Rightarrow> nat \<Rightarrow> int res" where
  "validate_header m type min_length max_length =
     (if length m < 8 then Ok ERROR_TOO_SHORT_MESSAGE
      else
        bnd (rd8 m 0) (\<lambda>version.
        if \<not> valid_message_version type version then Ok ERROR_UNSUPPORTED_VERSION else
        bnd (rd8 m 1) (\<lambda>htype.
        if htype > OFPT_QUEUE_GET_CONFIG_REPLY then Ok ERROR_UNDEFINED_TYPE
        else if htype \<noteq> type then Ok ERROR_INVALID_TYPE else
        bnd (rd16 m 2) (\<lambda>len.
        if unat len > max_length then Ok ERROR_TOO_LONG_MESSAGE
        else if unat len < min_length then Ok ERROR_TOO_SHORT_MESSAGE
        else if unat len < length m then Ok ERROR_TOO_LONG_MESSAGE
        else if unat len > length m then Ok ERROR_TOO_SHORT_MESSAGE
        else if length m > max_length then Ok ERROR_TOO_LONG_MESSAGE
        else Ok 0))))"

definition validate_phy_port_no :: "16 word \<Rightarrow> int res" where
  "validate_phy_port_no port_no =
     (if port_no = 0 \<or> (port_no > OFPP_MAX \<and> port_no < OFPP_IN_PORT) then Ok ERROR_INVALID_PORT_NO
      else Ok 0)"

definition validate_phy_port :: "bytes \<Rightarrow> nat \<Rightarrow> int res" where
  "validate_phy_port m i =
     bnd (ntoh_phy_port m i) (\<lambda>port_h.
     chk (validate_phy_port_no (pp_port_no port_h))
      (if pp_config port_h AND NOT PORT_CONFIG \<noteq> 0 then Ok ERROR_INVALID_PORT_CONFIG
       else if pp_state port_h AND NOT PORT_STATE \<noteq> 0 then Ok ERROR_INVALID_PORT_STATE
       else if pp_curr port_h AND NOT PORT_FEATURES \<noteq> 0 \<or>
               pp_advertised port_h AND NOT PORT_FEATURES \<noteq> 0 \<or>
               pp_supported port_h AND NOT PORT_FEATURES \<noteq> 0 \<or>
               pp_peer port_h AND NOT PORT_FEATURES \<noteq> 0 then Ok ERROR_INVALID_PORT_FEATURES
       else Ok 0))"

text \<open>\<open>for ( i = 0; i < n; i++ )\<close> over structures of the same size.\<close>

fun for_structs :: "(nat \<Rightarrow> int res) \<Rightarrow> nat \<Rightarrow> nat \<Rightarrow> nat \<Rightarrow> int res" where
  "for_structs f step 0 off = Ok 0"
| "for_structs f step (Suc n) off = chk (f off) (for_structs f step n (off + step))"

definition validate_phy_ports :: "bytes \<Rightarrow> nat \<Rightarrow> nat \<Rightarrow> int res" where
  "validate_phy_ports m off n_ports =
     assert_then (n_ports \<noteq> 0) (for_structs (validate_phy_port m) 48 n_ports off)"

definition validate_wildcards :: "32 word \<Rightarrow> int res" where
  "validate_wildcards w = (if w AND NOT OFPFW_ALL \<noteq> 0 then Ok ERROR_INVALID_WILDCARDS else Ok 0)"

definition validate_vlan_vid :: "16 word \<Rightarrow> int res" where
  "validate_vlan_vid vid =
     (if vid \<noteq> UINT16_MAX \<and> vid AND NOT VLAN_VID_MASK \<noteq> 0 then Ok ERROR_INVALID_VLAN_VID else Ok 0)"

definition validate_vlan_pcp :: "8 word \<Rightarrow> int res" where
  "validate_vlan_pcp pcp = (if pcp AND NOT VLAN_PCP_MASK \<noteq> 0 then Ok ERROR_INVALID_VLAN_PCP else Ok 0)"

definition validate_nw_tos :: "8 word \<Rightarrow> int res" where
  "validate_nw_tos tos = (if tos AND NOT NW_TOS_MASK \<noteq> 0 then Ok ERROR_INVALID_NW_TOS else Ok 0)"

definition validate_match :: "ofp_match \<Rightarrow> int res" where
  "validate_match match =
     chk (validate_wildcards (wildcards match))
    (chk (validate_vlan_vid (dl_vlan match))
    (chk (validate_vlan_pcp (dl_vlan_pcp match))
    (chk (validate_nw_tos (nw_tos match)) (Ok 0))))"

section \<open>Actions\<close>

text \<open>The common part of the action validators: copy the structure, check its type and length.\<close>

definition validate_action_struct ::
  "bytes \<Rightarrow> nat \<Rightarrow> nat \<Rightarrow> 16 word \<Rightarrow> int \<Rightarrow> int \<Rightarrow> (bytes \<Rightarrow> int res) \<Rightarrow> int res" where
  "validate_action_struct m i sz type too_short too_long k =
     bnd (rd_struct sz m i) (\<lambda>b.
     if (fld 2 b 0 :: 16 word) \<noteq> type then Ok ERROR_INVALID_ACTION_TYPE
     else if unat (fld 2 b 2 :: 16 word) < sz then Ok too_short
     else if unat (fld 2 b 2 :: 16 word) > sz then Ok too_long
     else chk (k b) (Ok 0))"

definition validate_action_output :: "bytes \<Rightarrow> nat \<Rightarrow> int res" where
  "validate_action_output m i =
     validate_action_struct m i 8 OFPAT_OUTPUT ERROR_TOO_SHORT_ACTION_OUTPUT ERROR_TOO_LONG_ACTION_OUTPUT
       (\<lambda>b. validate_phy_port_no (fld 2 b 4))"

definition validate_action_set_vlan_vid :: "bytes \<Rightarrow> nat \<Rightarrow> int res" where
  "validate_action_set_vlan_vid m i =
     validate_action_struct m i 8 OFPAT_SET_VLAN_VID ERROR_TOO_SHORT_ACTION_VLAN_VID ERROR_TOO_LONG_ACTION_VLAN_VID
       (\<lambda>b. validate_vlan_vid (fld 2 b 4))"

definition validate_action_set_vlan_pcp :: "bytes \<Rightarrow> nat \<Rightarrow> int res" where
  "validate_action_set_vlan_pcp m i =
     validate_action_struct m i 8 OFPAT_SET_VLAN_PCP ERROR_TOO_SHORT_ACTION_VLAN_PCP ERROR_TOO_LONG_ACTION_VLAN_PCP
       (\<lambda>b. validate_vlan_pcp (fld 1 b 4))"

definition validate_action_strip_vlan :: "bytes \<Rightarrow> nat \<Rightarrow> int res" where
  "validate_action_strip_vlan m i =
     validate_action_struct m i 8 OFPAT_STRIP_VLAN ERROR_TOO_SHORT_ACTION_STRIP_VLAN ERROR_TOO_LONG_ACTION_STRIP_VLAN
       (\<lambda>_. Ok 0)"

definition validate_action_set_dl_src :: "bytes \<Rightarrow> nat \<Rightarrow> int res" where
  "validate_action_set_dl_src m i =
     validate_action_struct m i 16 OFPAT_SET_DL_SRC ERROR_TOO_SHORT_ACTION_DL_SRC ERROR_TOO_LONG_ACTION_DL_SRC
       (\<lambda>_. Ok 0)"

definition validate_action_set_dl_dst :: "bytes \<Rightarrow> nat \<Rightarrow> int res" where
  "validate_action_set_dl_dst m i =
     validate_action_struct m i 16 OFPAT_SET_DL_DST ERROR_TOO_SHORT_ACTION_DL_DST ERROR_TOO_LONG_ACTION_DL_DST
       (\<lambda>_. Ok 0)"

definition validate_action_set_nw_src :: "bytes \<Rightarrow> nat \<Rightarrow> int res" where
  "validate_action_set_nw_src m i =
     validate_action_struct m i 8 OFPAT_SET_NW_SRC ERROR_TOO_SHORT_ACTION_NW_SRC ERROR_TOO_LONG_ACTION_NW_SRC
       (\<lambda>_. Ok 0)"

definition validate_action_set_nw_dst :: "bytes \<Rightarrow> nat \<Rightarrow> int res" where
  "validate_action_set_nw_dst m i =
     validate_action_struct m i 8 OFPAT_SET_NW_DST ERROR_TOO_SHORT_ACTION_NW_DST ERROR_TOO_LONG_ACTION_NW_DST
       (\<lambda>_. Ok 0)"

definition validate_action_set_nw_tos :: "bytes \<Rightarrow> nat \<Rightarrow> int res" where
  "validate_action_set_nw_tos m i =
     validate_action_struct m i 8 OFPAT_SET_NW_TOS ERROR_TOO_SHORT_ACTION_NW_TOS ERROR_TOO_LONG_ACTION_NW_TOS
       (\<lambda>b. validate_nw_tos (fld 1 b 4))"

definition validate_action_set_tp_src :: "bytes \<Rightarrow> nat \<Rightarrow> int res" where
  "validate_action_set_tp_src m i =
     validate_action_struct m i 8 OFPAT_SET_TP_SRC ERROR_TOO_SHORT_ACTION_TP_SRC ERROR_TOO_LONG_ACTION_TP_SRC
       (\<lambda>_. Ok 0)"

definition validate_action_set_tp_dst :: "bytes \<Rightarrow> nat \<Rightarrow> int res" where
  "validate_action_set_tp_dst m i =
     validate_action_struct m i 8 OFPAT_SET_TP_DST ERROR_TOO_SHORT_ACTION_TP_DST ERROR_TOO_LONG_ACTION_TP_DST
       (\<lambda>_. Ok 0)"

definition validate_action_enqueue :: "bytes \<Rightarrow> nat \<Rightarrow> int res" where
  "validate_action_enqueue m i =
     validate_action_struct m i 16 OFPAT_ENQUEUE ERROR_TOO_SHORT_ACTION_ENQUEUE ERROR_TOO_LONG_ACTION_ENQUEUE
       (\<lambda>b. validate_phy_port_no (fld 2 b 4))"

definition validate_action_vendor :: "bytes \<Rightarrow> nat \<Rightarrow> int res" where
  "validate_action_vendor m i =
     bnd (rd16 m i) (\<lambda>type.
     if type \<noteq> OFPAT_VENDOR then Ok ERROR_INVALID_ACTION_TYPE else
     bnd (rd16 m (i + 2)) (\<lambda>len.
     if unat len < 8 then Ok ERROR_TOO_SHORT_ACTION_VENDOR
     else if unat len mod 8 \<noteq> 0 then Ok ERROR_INVALID_LENGTH_ACTION_VENDOR
     else Ok 0))"

definition validate_action :: "bytes \<Rightarrow> nat \<Rightarrow> int res" where
  "validate_action m i =
     bnd (rd16 m (i + 2)) (\<lambda>len.
     if unat len < 8 then Ok ERROR_TOO_SHORT_ACTION else
     bnd (rd16 m i) (\<lambda>type.
     if type = OFPAT_OUTPUT then validate_action_output m i
     else if type = OFPAT_SET_VLAN_VID then validate_action_set_vlan_vid m i
     else if type = OFPAT_SET_VLAN_PCP then validate_action_set_vlan_pcp m i
     else if type = OFPAT_STRIP_VLAN then validate_action_strip_vlan m i
     else if type = OFPAT_SET_DL_SRC then validate_action_set_dl_src m i
     else if type = OFPAT_SET_DL_DST then validate_action_set_dl_dst m i
     else if type = OFPAT_SET_NW_SRC then validate_action_set_nw_src m i
     else if type = OFPAT_SET_NW_DST then validate_action_set_nw_dst m i
     else if type = OFPAT_SET_NW_TOS then validate_action_set_nw_tos m i
     else if type = OFPAT_SET_TP_SRC then validate_action_set_tp_src m i
     else if type = OFPAT_SET_TP_DST then validate_action_set_tp_dst m i
     else if type = OFPAT_ENQUEUE then validate_action_enqueue m i
     else if type = OFPAT_VENDOR then validate_action_vendor m i
     else Ok ERROR_UNDEFINED_ACTION_TYPE))"

text \<open>The offset is a \<open>uint16_t\<close> and wraps; \<open>head\<close> is the place of the first action in the message.\<close>

fun validate_actions_loop :: "nat \<Rightarrow> bytes \<Rightarrow> nat \<Rightarrow> 16 word \<Rightarrow> 16 word \<Rightarrow> int res" where
  "validate_actions_loop 0 m head len offset = Fault No_return"
| "validate_actions_loop (Suc fuel) m head len offset =
     (if offset < len then
        chk (validate_action m (head + unat offset))
         (bnd (rd16 m (head + unat offset + 2)) (\<lambda>alen.
          validate_actions_loop fuel m head len (offset + alen)))
      else Ok 0)"

definition validate_actions :: "nat \<Rightarrow> bytes \<Rightarrow> nat \<Rightarrow> 16 word \<Rightarrow> int res" where
  "validate_actions fuel m head len = validate_actions_loop fuel m head len 0"

section \<open>Messages\<close>

definition validate_hello :: "bytes \<Rightarrow> int res" where
  "validate_hello m = validate_header m OFPT_HELLO 8 8"

definition validate_error :: "bytes \<Rightarrow> int res" where
  "validate_error m = chk (validate_header m OFPT_ERROR 12 65535) (Ok 0)"

definition validate_echo_request :: "bytes \<Rightarrow> int res" where
  "validate_echo_request m =
     chk (validate_header m OFPT_ECHO_REQUEST 8 65535)
      (bnd (rd16 m 2) (\<lambda>len. if length m \<noteq> unat len then Ok ERROR_INVALID_LENGTH else Ok 0))"

definition validate_echo_reply :: "bytes \<Rightarrow> int res" where
  "validate_echo_reply m =
     chk (validate_header m OFPT_ECHO_REPLY 8 65535)
      (bnd (rd16 m 2) (\<lambda>len. if length m \<noteq> unat len then Ok ERROR_INVALID_LENGTH else Ok 0))"

definition validate_vendor :: "bytes \<Rightarrow> int res" where
  "validate_vendor m =
     chk (validate_header m OFPT_VENDOR 12 65535)
      (bnd (rd16 m 2) (\<lambda>len. if length m \<noteq> unat len then Ok ERROR_INVALID_LENGTH else Ok 0))"

definition validate_features_request :: "bytes \<Rightarrow> int res" where
  "validate_features_request m = validate_header m OFPT_FEATURES_REQUEST 8 8"

definition validate_features_reply :: "bytes \<Rightarrow> int res" where
  "validate_features_reply m =
     chk (validate_header m OFPT_FEATURES_REPLY 32 65535)
      (bnd (rd8 m 20) (\<lambda>n_tables.
       if n_tables = 0 then Ok ERROR_NO_TABLE_AVAILABLE else
       bnd (rd16 m 2) (\<lambda>len.
       let port_length = len - 32 in
       if unat port_length mod 48 \<noteq> 0 then Ok ERROR_INVALID_LENGTH
       else if port_length > 0
       then chk (validate_phy_ports m 32 (unat port_length div 48)) (Ok 0)
       else Ok 0)))"

definition validate_get_config_request :: "bytes \<Rightarrow> int res" where
  "validate_get_config_request m = validate_header m OFPT_GET_CONFIG_REQUEST 8 8"

definition validate_switch_config :: "bytes \<Rightarrow> 8 word \<Rightarrow> int res" where
  "validate_switch_config m type =
     assert_then (type = OFPT_GET_CONFIG_REPLY \<or> type = OFPT_SET_CONFIG)
      (chk (validate_header m type 12 12)
        (bnd (rd16 m 8) (\<lambda>flags.
         if flags > OFPC_FRAG_MASK then Ok ERROR_INVALID_SWITCH_CONFIG else Ok 0)))"

definition validate_get_config_reply :: "bytes \<Rightarrow> int res" where
  "validate_get_config_reply m = validate_switch_config m OFPT_GET_CONFIG_REPLY"

definition validate_set_config :: "bytes \<Rightarrow> int res" where
  "validate_set_config m = validate_switch_config m OFPT_SET_CONFIG"

definition validate_packet_in :: "bytes \<Rightarrow> int res" where
  "validate_packet_in m =
     chk (validate_header m OFPT_PACKET_IN 18 65535)
      (bnd (rd16 m 14) (\<lambda>port.
       chk (validate_phy_port_no port)
        (bnd (rd8 m 16) (\<lambda>reason.
         if reason > OFPR_ACTION then Ok ERROR_INVALID_PACKET_IN_REASON else Ok 0))))"

definition validate_flow_removed :: "bytes \<Rightarrow> int res" where
  "validate_flow_removed m =
     chk (validate_header m OFPT_FLOW_REMOVED 88 88)
      (bnd (ntoh_match m 8) (\<lambda>match.
       chk (validate_match match)
        (bnd (rd16 m 56) (\<lambda>priority.
         if wildcards match AND OFPFW_ALL = 0 \<and> priority \<noteq> UINT16_MAX then Ok ERROR_INVALID_FLOW_PRIORITY
         else bnd (rd8 m 58) (\<lambda>reason.
              if reason > OFPRR_DELETE then Ok ERROR_INVALID_FLOW_REMOVED_REASON else Ok 0)))))"

definition validate_port_status :: "bytes \<Rightarrow> int res" where
  "validate_port_status m =
     chk (validate_header m OFPT_PORT_STATUS 64 64)
      (bnd (rd8 m 8) (\<lambda>reason.
       if reason > OFPPR_MODIFY then Ok ERROR_INVALID_PORT_STATUS_REASON
       else chk (validate_phy_port m 16) (Ok 0)))"

definition validate_packet_out :: "nat \<Rightarrow> bytes \<Rightarrow> int res" where
  "validate_packet_out fuel m =
     chk (validate_header m OFPT_PACKET_OUT 16 65535)
      (bnd (rd16 m 12) (\<lambda>port.
       chk (validate_phy_port_no port)
        (bnd (rd16 m 14) (\<lambda>actions_len.
         if actions_len > 0 then chk (validate_actions fuel m 16 actions_len) (Ok 0) else Ok 0))))"

definition validate_flow_mod :: "nat \<Rightarrow> bytes \<Rightarrow> int res" where
  "validate_flow_mod fuel m =
     chk (validate_header m OFPT_FLOW_MOD 72 65535)
      (bnd (ntoh_match m 8) (\<lambda>match.
       chk (validate_match match)
        (bnd (rd16 m 56) (\<lambda>command.
         if command > OFPFC_DELETE_STRICT then Ok ERROR_UNDEFINED_FLOW_MOD_COMMAND else
         bnd (rd16 m 62) (\<lambda>priority.
         if wildcards match AND OFPFW_ALL = 0 \<and> priority \<noteq> UINT16_MAX then Ok ERROR_INVALID_FLOW_PRIORITY else
         bnd (rd16 m 68) (\<lambda>out_port.
         chk (if (command = OFPFC_DELETE \<or> command = OFPFC_DELETE_STRICT) \<and> out_port \<noteq> OFPP_NONE
              then validate_phy_port_no out_port else Ok 0)
          (bnd (rd16 m 70) (\<lambda>flags.
           if flags AND NOT FLOW_MOD_FLAGS \<noteq> 0 then Ok ERROR_INVALID_FLOW_MOD_FLAGS else
           bnd (rd16 m 2) (\<lambda>len.
           let actions_length = len - 72 in
           if actions_length > 0 then chk (validate_actions fuel m 72 actions_length) (Ok 0) else Ok 0)))))))))"

definition validate_port_mod :: "bytes \<Rightarrow> int res" where
  "validate_port_mod m =
     chk (validate_header m OFPT_PORT_MOD 32 32)
      (bnd (rd16 m 8) (\<lambda>port_no.
       chk (validate_phy_port_no port_no)
        (if port_no > OFPP_MAX \<and> port_no \<noteq> OFPP_LOCAL then Ok ERROR_INVALID_PORT_NO else
         bnd (rd32 m 16) (\<lambda>config.
         if config AND NOT PORT_CONFIG \<noteq> 0 then Ok ERROR_INVALID_PORT_CONFIG else
         bnd (rd32 m 20) (\<lambda>config_mask.
         if config_mask AND NOT PORT_CONFIG \<noteq> 0 then Ok ERROR_INVALID_PORT_MASK else
         bnd (rd32 m 24) (\<lambda>advertise.
         if advertise AND NOT PORT_FEATURES \<noteq> 0 then Ok ERROR_INVALID_PORT_FEATURES else Ok 0))))))"

section \<open>Statistics\<close>

text \<open>Type and flags of a request, checked by every request validator.\<close>

definition validate_request_type :: "bytes \<Rightarrow> 16 word \<Rightarrow> int res \<Rightarrow> int res" where
  "validate_request_type m type k =
     bnd (rd16 m 8) (\<lambda>t.
     if t \<noteq> type then Ok ERROR_INVALID_STATS_TYPE else
     bnd (rd16 m 10) (\<lambda>flags.
     if flags \<noteq> 0 then Ok ERROR_INVALID_STATS_REQUEST_FLAGS else k))"

definition validate_desc_stats_request :: "bytes \<Rightarrow> int res" where
  "validate_desc_stats_request m =
     chk (validate_header m OFPT_STATS_REQUEST 12 12) (validate_request_type m OFPST_DESC (Ok 0))"

definition validate_flow_stats_request :: "bytes \<Rightarrow> int res" where
  "validate_flow_stats_request m =
     chk (validate_header m OFPT_STATS_REQUEST 56 56)
      (validate_request_type m OFPST_FLOW
        (bnd (ntoh_match m 12) (\<lambda>match.
         chk (validate_match match)
          (bnd (rd16 m 54) (\<lambda>out_port. chk (validate_phy_port_no out_port) (Ok 0))))))"

definition validate_aggregate_stats_request :: "bytes \<Rightarrow> int res" where
  "validate_aggregate_stats_request m =
     chk (validate_header m OFPT_STATS_REQUEST 56 56)
      (validate_request_type m OFPST_AGGREGATE
        (bnd (ntoh_match m 12) (\<lambda>match.
         chk (validate_match match)
          (bnd (rd16 m 54) (\<lambda>out_port. chk (validate_phy_port_no out_port) (Ok 0))))))"

definition validate_table_stats_request :: "bytes \<Rightarrow> int res" where
  "validate_table_stats_request m =
     chk (validate_header m OFPT_STATS_REQUEST 12 12) (validate_request_type m OFPST_TABLE (Ok 0))"

definition validate_port_stats_request :: "bytes \<Rightarrow> int res" where
  "validate_port_stats_request m =
     chk (validate_header m OFPT_STATS_REQUEST 20 20)
      (validate_request_type m OFPST_PORT
        (bnd (rd16 m 12) (\<lambda>port_no.
         chk (validate_phy_port_no port_no)
          (if port_no > OFPP_MAX \<and> port_no \<noteq> OFPP_NONE \<and> port_no \<noteq> OFPP_LOCAL
           then Ok ERROR_INVALID_PORT_NO else Ok 0))))"

definition validate_queue_stats_request :: "bytes \<Rightarrow> int res" where
  "validate_queue_stats_request m =
     chk (validate_header m OFPT_STATS_REQUEST 20 20)
      (validate_request_type m OFPST_QUEUE
        (bnd (rd16 m 12) (\<lambda>port_no. chk (validate_phy_port_no port_no) (Ok 0))))"

definition validate_vendor_stats_request :: "bytes \<Rightarrow> int res" where
  "validate_vendor_stats_request m =
     chk (validate_header m OFPT_STATS_REQUEST 16 65535) (validate_request_type m OFPST_VENDOR (Ok 0))"

definition validate_stats_request :: "bytes \<Rightarrow> int res" where
  "validate_stats_request m =
     bnd (rd16 m 8) (\<lambda>type.
     if type = OFPST_DESC then validate_desc_stats_request m
     else if type = OFPST_FLOW then validate_flow_stats_request m
     else if type = OFPST_AGGREGATE then validate_aggregate_stats_request m
     else if type = OFPST_TABLE then validate_table_stats_request m
     else if type = OFPST_PORT then validate_port_stats_request m
     else if type = OFPST_QUEUE then validate_queue_stats_request m
     else if type = OFPST_VENDOR then validate_vendor_stats_request m
     else Ok ERROR_UNSUPPORTED_STATS_TYPE)"

definition validate_reply_flags :: "bytes \<Rightarrow> 16 word \<Rightarrow> int res \<Rightarrow> int res" where
  "validate_reply_flags m allowed k =
     bnd (rd16 m 10) (\<lambda>flags.
     if flags AND NOT allowed \<noteq> 0 then Ok ERROR_INVALID_STATS_REPLY_FLAGS else k)"

definition validate_desc_stats_reply :: "bytes \<Rightarrow> int res" where
  "validate_desc_stats_reply m =
     chk (validate_header m OFPT_STATS_REPLY 12 1068) (validate_reply_flags m 0 (Ok 0))"

fun validate_flows_loop :: "nat \<Rightarrow> bytes \<Rightarrow> 16 word \<Rightarrow> nat \<Rightarrow> int res" where
  "validate_flows_loop 0 m flow_length off = Fault No_return"
| "validate_flows_loop (Suc fuel) m flow_length off =
     (if flow_length > 0 then
        bnd (ntoh_match m (off + 4)) (\<lambda>match.
        chk (validate_match match)
         (bnd (rd16 m (off + 52)) (\<lambda>priority.
          if wildcards match AND OFPFW_ALL = 0 \<and> priority < UINT16_MAX then Ok ERROR_INVALID_FLOW_PRIORITY else
          bnd (rd16 m off) (\<lambda>len.
          let actions_length = len - 88 in
          chk (if actions_length > 0 then validate_actions fuel m (off + 88) actions_length else Ok 0)
           (validate_flows_loop fuel m (flow_length - len) (off + unat len)))))
         )
      else Ok 0)"

definition validate_flow_stats_reply :: "nat \<Rightarrow> bytes \<Rightarrow> int res" where
  "validate_flow_stats_reply fuel m =
     chk (validate_header m OFPT_STATS_REPLY 12 65535)
      (validate_reply_flags m OFPSF_REPLY_MORE
        (bnd (rd16 m 2) (\<lambda>len. validate_flows_loop fuel m (len - 12) 12)))"

definition validate_aggregate_stats_reply :: "bytes \<Rightarrow> int res" where
  "validate_aggregate_stats_reply m =
     chk (validate_header m OFPT_STATS_REPLY 12 36) (validate_reply_flags m 0 (Ok 0))"

text \<open>The replies that carry an array: its length in bytes must be a multiple of the entry size.\<close>

definition validate_stats_array :: "bytes \<Rightarrow> nat \<Rightarrow> (nat \<Rightarrow> int res) \<Rightarrow> int res" where
  "validate_stats_array m sz f =
     bnd (rd16 m 2) (\<lambda>len.
     let array_length = len - 12 in
     if unat array_length mod sz \<noteq> 0 then Ok ERROR_INVALID_LENGTH
     else for_structs f sz (unat array_length div sz) 12)"

definition validate_table_stats_reply :: "bytes \<Rightarrow> int res" where
  "validate_table_stats_reply m =
     chk (validate_header m OFPT_STATS_REPLY 12 65535)
      (validate_reply_flags m OFPSF_REPLY_MORE
        (validate_stats_array m 64 (\<lambda>off. bnd (rd32 m (off + 36)) validate_wildcards)))"

definition validate_port_stats_reply :: "bytes \<Rightarrow> int res" where
  "validate_port_stats_reply m =
     chk (validate_header m OFPT_STATS_REPLY 12 65535)
      (validate_reply_flags m OFPSF_REPLY_MORE
        (validate_stats_array m 104 (\<lambda>off. bnd (rd16 m off) validate_phy_port_no)))"

definition validate_queue_stats_reply :: "bytes \<Rightarrow> int res" where
  "validate_queue_stats_reply m =
     chk (validate_header m OFPT_STATS_REPLY 12 65535)
      (validate_reply_flags m OFPSF_REPLY_MORE
        (validate_stats_array m 32 (\<lambda>off. bnd (rd16 m off) validate_phy_port_no)))"

definition validate_vendor_stats_reply :: "bytes \<Rightarrow> int res" where
  "validate_vendor_stats_reply m =
     chk (validate_header m OFPT_STATS_REPLY 12 65535) (validate_reply_flags m OFPSF_REPLY_MORE (Ok 0))"

definition validate_stats_reply :: "nat \<Rightarrow> bytes \<Rightarrow> int res" where
  "validate_stats_reply fuel m =
     bnd (rd16 m 8) (\<lambda>type.
     if type = OFPST_DESC then validate_desc_stats_reply m
     else if type = OFPST_FLOW then validate_flow_stats_reply fuel m
     else if type = OFPST_AGGREGATE then validate_aggregate_stats_reply m
     else if type = OFPST_TABLE then validate_table_stats_reply m
     else if type = OFPST_PORT then validate_port_stats_reply m
     else if type = OFPST_QUEUE then validate_queue_stats_reply m
     else if type = OFPST_VENDOR then validate_vendor_stats_reply m
     else Ok ERROR_UNSUPPORTED_STATS_TYPE)"

section \<open>Barrier and queue configuration\<close>

definition validate_barrier_request :: "bytes \<Rightarrow> int res" where
  "validate_barrier_request m = validate_header m OFPT_BARRIER_REQUEST 8 8"

definition validate_barrier_reply :: "bytes \<Rightarrow> int res" where
  "validate_barrier_reply m = validate_header m OFPT_BARRIER_REPLY 8 8"

definition validate_queue_get_config_request :: "bytes \<Rightarrow> int res" where
  "validate_queue_get_config_request m =
     chk (validate_header m OFPT_QUEUE_GET_CONFIG_REQUEST 12 12)
      (bnd (rd16 m 8) (\<lambda>port. chk (validate_phy_port_no port) (Ok 0)))"

definition validate_queue_property :: "bytes \<Rightarrow> nat \<Rightarrow> int res" where
  "validate_queue_property m i =
     bnd (rd16 m (i + 2)) (\<lambda>len.
     if unat len < 8 then Ok ERROR_TOO_SHORT_QUEUE_PROPERTY else
     bnd (rd16 m i) (\<lambda>property.
     if property = OFPQT_NONE then
       (if unat len < 8 then Ok ERROR_TOO_SHORT_QUEUE_PROPERTY
        else if unat len > 8 then Ok ERROR_TOO_LONG_QUEUE_PROPERTY else Ok 0)
     else if property = OFPQT_MIN_RATE then
       (if unat len < 16 then Ok ERROR_TOO_SHORT_QUEUE_PROPERTY
        else if unat len > 16 then Ok ERROR_TOO_LONG_QUEUE_PROPERTY else Ok 0)
     else Ok ERROR_UNDEFINED_QUEUE_PROPERTY))"

fun validate_queue_properties :: "nat \<Rightarrow> bytes \<Rightarrow> nat \<Rightarrow> 16 word \<Rightarrow> 16 word \<Rightarrow> int res" where
  "validate_queue_properties 0 m head properties_length offset = Fault No_return"
| "validate_queue_properties (Suc fuel) m head properties_length offset =
     (if offset < properties_length then
        chk (validate_queue_property m (head + unat offset))
         (bnd (rd16 m (head + unat offset + 2)) (\<lambda>len.
          validate_queue_properties fuel m head properties_length (offset + len)))
      else Ok 0)"

definition validate_packet_queue :: "nat \<Rightarrow> bytes \<Rightarrow> nat \<Rightarrow> int res" where
  "validate_packet_queue fuel m i =
     bnd (rd16 m (i + 4)) (\<lambda>len.
     if unat len < 16 then Ok ERROR_TOO_SHORT_QUEUE_DESCRIPTION
     else chk (validate_queue_properties fuel m (i + 8) (len - 8) 0) (Ok 0))"

fun validate_packet_queues :: "nat \<Rightarrow> bytes \<Rightarrow> nat \<Rightarrow> nat \<Rightarrow> int res" where
  "validate_packet_queues fuel m i 0 = Ok 0"
| "validate_packet_queues fuel m i (Suc n) =
     chk (validate_packet_queue fuel m i)
      (bnd (rd16 m (i + 4)) (\<lambda>len. validate_packet_queues fuel m (i + unat len) n))"

text \<open>The loop that counts the queues: the length that is left over and the number of queues.\<close>

fun count_queues :: "nat \<Rightarrow> bytes \<Rightarrow> nat \<Rightarrow> 16 word \<Rightarrow> nat \<Rightarrow> (16 word \<times> nat) res" where
  "count_queues 0 m i queues_length n = Fault No_return"
| "count_queues (Suc fuel) m i queues_length n =
     (if unat queues_length > 8 then
        bnd (rd16 m (i + 4)) (\<lambda>len. count_queues fuel m (i + unat len) (queues_length - len) (n + 1))
      else Ok (queues_length, n))"

definition validate_queue_get_config_reply :: "nat \<Rightarrow> bytes \<Rightarrow> int res" where
  "validate_queue_get_config_reply fuel m =
     chk (validate_header m OFPT_QUEUE_GET_CONFIG_REPLY 24 65535)
      (bnd (rd16 m 8) (\<lambda>port.
       chk (validate_phy_port_no port)
        (bnd (rd16 m 2) (\<lambda>len.
         bnd (count_queues fuel m 16 (len - 16) 0) (\<lambda>(queues_length, n_queues).
         if queues_length \<noteq> 0 then Ok ERROR_INVALID_LENGTH
         else if n_queues > 0 then chk (validate_packet_queues fuel m 16 n_queues) (Ok 0)
         else Ok 0)))))"

section \<open>Dispatch\<close>

text \<open>The \<open>debug\<close> call at the start reads the whole header, whatever the length of the message.\<close>

definition validate_openflow_message :: "nat \<Rightarrow> bytes \<Rightarrow> int res" where
  "validate_openflow_message fuel m =
     bnd (rd_struct 8 m 0) (\<lambda>_.
     bnd (rd8 m 1) (\<lambda>type.
     if type = OFPT_HELLO then validate_hello m
     else if type = OFPT_ERROR then validate_error m
     else if type = OFPT_ECHO_REQUEST then validate_echo_request m
     else if type = OFPT_ECHO_REPLY then validate_echo_reply m
     else if type = OFPT_VENDOR then validate_vendor m
     else if type = OFPT_FEATURES_REQUEST then validate_features_request m
     else if type = OFPT_FEATURES_REPLY then validate_features_reply m
     else if type = OFPT_GET_CONFIG_REQUEST then validate_get_config_request m
     else if type = OFPT_GET_CONFIG_REPLY then validate_get_config_reply m
     else if type = OFPT_SET_CONFIG then validate_set_config m
     else if type = OFPT_PACKET_IN then validate_packet_in m
     else if type = OFPT_FLOW_REMOVED then validate_flow_removed m
     else if type = OFPT_PORT_STATUS then validate_port_status m
     else if type = OFPT_PACKET_OUT then validate_packet_out fuel m
     else if type = OFPT_FLOW_MOD then validate_flow_mod fuel m
     else if type = OFPT_PORT_MOD then validate_port_mod m
     else if type = OFPT_STATS_REQUEST then validate_stats_request m
     else if type = OFPT_STATS_REPLY then validate_stats_reply fuel m
     else if type = OFPT_BARRIER_REQUEST then validate_barrier_request m
     else if type = OFPT_BARRIER_REPLY then validate_barrier_reply m
     else if type = OFPT_QUEUE_GET_CONFIG_REQUEST then validate_queue_get_config_request m
     else if type = OFPT_QUEUE_GET_CONFIG_REPLY then validate_queue_get_config_reply fuel m
     else Ok ERROR_UNDEFINED_TYPE))"

definition valid_openflow_message :: "nat \<Rightarrow> bytes \<Rightarrow> bool res" where
  "valid_openflow_message fuel m = bnd (validate_openflow_message fuel m) (\<lambda>ret. Ok (\<not> ret < 0))"

end
