(* ===== verification/Ofm_Valid_Create.thy ===== *)
theory Ofm_Valid_Create
  imports Ofm_Validate
begin

text \<open>
  The two ends of \<open>src/lib/openflow_message.c\<close> against each other: what the constructors build, the
  validators accept, when the arguments are in the ranges OpenFlow allows; and what the validators
  make of messages that no constructor builds.
\<close>

section \<open>The header check\<close>

lemma validate_header_returns: "returns (validate_header m type lo hi)"
  by (auto simp: validate_header_def)

lemma validate_header_nonpos: "validate_header m type lo hi = Ok r \<Longrightarrow> r \<le> 0"
  by (auto simp: validate_header_def split: if_splits)

lemma validate_header_ok:
  assumes "type \<le> OFPT_QUEUE_GET_CONFIG_REPLY"
  shows "validate_header m type lo hi = Ok 0 \<longleftrightarrow>
     8 \<le> length m \<and> (\<exists>v. rd8 m 0 = Ok v \<and> valid_message_version type v) \<and> rd8 m 1 = Ok type \<and>
     rd16 m 2 = Ok (of_nat (length m)) \<and> length m < 65536 \<and> lo \<le> length m \<and> length m \<le> hi"
proof (cases "8 \<le> length m")
  case True
  then obtain v t l where rd: "rd8 m 0 = Ok v" "rd8 m 1 = Ok t" "rd16 m 2 = Ok l"
    by (auto simp: rd_def)
  have l: "l = of_nat (length m) \<and> length m < 65536 \<longleftrightarrow> unat l = length m"
    using unsigned_less [of l, where ?'a = nat]
    by (auto simp: unat_of_nat16 word_unat_eq_iff)
  have "validate_header m type lo hi = Ok 0 \<longleftrightarrow>
      valid_message_version type v \<and> \<not> t > OFPT_QUEUE_GET_CONFIG_REPLY \<and> t = type \<and>
      unat l = length m \<and> lo \<le> length m \<and> length m \<le> hi"
    using True unfolding validate_header_def rd by auto
  with assms have "validate_header m type lo hi = Ok 0 \<longleftrightarrow>
      valid_message_version type v \<and> t = type \<and> unat l = length m \<and> lo \<le> length m \<and> length m \<le> hi"
    by auto
  then show ?thesis using True rd l by auto
qed (auto simp: validate_header_def)

lemma rd_header_fields:
  "rd8 (header_bytes type len xid @ rest) 0 = Ok OFP_VERSION"
  "rd8 (header_bytes type len xid @ rest) 1 = Ok type"
  "rd16 (header_bytes type len xid @ rest) 2 = Ok len"
  "rd_struct 8 (header_bytes type len xid @ rest) 0 = Ok (header_bytes type len xid)"
  by (simp_all add: header_bytes_def be_get_put)

lemma validate_header_created:
  assumes "type \<le> OFPT_QUEUE_GET_CONFIG_REPLY"
    and "unat len = 8 + length rest" and "lo \<le> unat len" and "unat len \<le> hi"
  shows "validate_header (header_bytes type len xid @ rest) type lo hi = Ok 0"
proof -
  have "len = of_nat (8 + length rest)" "unat len < 65536"
    using assms(2) unsigned_less [of len, where ?'a = nat] by (auto simp flip: assms(2))
  then show ?thesis
    using assms unfolding validate_header_ok [OF assms(1)] rd_header_fields
    by (auto simp: valid_message_version_def)
qed

lemma rd_after_header:
  "8 \<le> i \<Longrightarrow> rd n (header_bytes type len xid @ rest) i = rd n rest (i - 8)"
  by (auto simp: rd_def)

lemma rd_struct_after_header:
  "8 \<le> i \<Longrightarrow> rd_struct n (header_bytes type len xid @ rest) i = rd_struct n rest (i - 8)"
  by (auto simp: rd_struct_def)

section \<open>Actions\<close>

lemma validate_phy_port_no_ok: "validate_phy_port_no p = Ok 0 \<longleftrightarrow> port_ok p"
  by (auto simp: validate_phy_port_no_def port_ok_def)

lemma validate_action_ok:
  assumes "action_wf a" and "action_args_ok a" and "length pre = i"
  shows "validate_action (pre @ enc_action a @ post) i = Ok 0"
    and "rd16 (pre @ enc_action a @ post) (i + 2) = Ok (action_len a)"
proof -
  show "rd16 (pre @ enc_action a @ post) (i + 2) = Ok (action_len a)"
    using assms by (cases a) (auto simp: action_wf_def enc_action_def hton_action_vendor_def be_get_put)
  have port: "validate_phy_port_no p = Ok 0" if "port_ok p" for p
    using that by (simp add: validate_phy_port_no_ok)
  have m8: "unat l mod 8 = 0" if "l mod 8 = 0" for l :: "16 word"
    using arg_cong [OF that, of unat] by (simp add: unat_mod_distrib)
  show "validate_action (pre @ enc_action a @ post) i = Ok 0"
  proof (cases a)
    case (Action_vendor len vendor body)
    then show ?thesis using assms m8 [of len]
      by (simp add: action_wf_def enc_action_def hton_action_vendor_def be_get_put validate_action_def
          validate_action_vendor_def)
  qed (use assms port in \<open>simp_all add: action_wf_def enc_action_def be_get_put fld_def
    validate_action_def validate_action_struct_def
    validate_action_output_def validate_action_set_vlan_vid_def validate_action_set_vlan_pcp_def
    validate_action_strip_vlan_def validate_action_set_dl_src_def validate_action_set_dl_dst_def
    validate_action_set_nw_src_def validate_action_set_nw_dst_def validate_action_set_nw_tos_def
    validate_action_set_tp_src_def validate_action_set_tp_dst_def validate_action_enqueue_def
    validate_vlan_vid_def validate_vlan_pcp_def validate_nw_tos_def\<close>)
qed

lemma of_nat16_less: "a < b \<Longrightarrow> b < 65536 \<Longrightarrow> (of_nat a :: 16 word) < of_nat b"
  by (simp add: word_less_nat_alt unat_of_nat16)

lemma enc_actions_append: "enc_actions (as @ bs) = enc_actions as @ enc_actions bs"
  by (simp add: enc_actions_def)

lemma actions_size_append: "actions_size (as @ bs) = actions_size as + actions_size bs"
  by (simp add: actions_size_def)

lemma of_nat_action_size: "action_wf a \<Longrightarrow> of_nat (action_size a) = action_len a"
  unfolding action_wf_def by (metis of_nat_unat ucast_id)

lemma validate_actions_loop_ok:
  assumes "actions_ok (as @ bs)" and "actions_size (as @ bs) < 65536" and "length bs < fuel"
    and "length pre = head"
  shows "validate_actions_loop fuel (pre @ enc_actions (as @ bs) @ post) head
           (of_nat (actions_size (as @ bs))) (of_nat (actions_size as)) = Ok 0"
  using assms
proof (induction bs arbitrary: as fuel)
  case Nil
  then show ?case by (cases fuel) auto
next
  case (Cons b bs)
  then obtain f where f: "fuel = Suc f" "length bs < f" by (cases fuel) auto
  let ?m = "pre @ enc_actions (as @ b # bs) @ post" and ?o = "actions_size as"
  have b: "action_wf b" "action_args_ok b" and as: "\<forall>a \<in> set as. action_wf a"
    using Cons.prems by (auto simp: actions_ok_def)
  have o: "unat (of_nat ?o :: 16 word) = ?o" using Cons.prems by (simp add: unat_of_nat16 actions_size_append)
  have m: "?m = (pre @ enc_actions as) @ enc_action b @ (enc_actions bs @ post)"
    by (simp add: enc_actions_append)
  have l: "length (pre @ enc_actions as) = head + ?o"
    using Cons.prems as by (simp add: length_enc_actions)
  have v: "validate_action ?m (head + ?o) = Ok 0" "rd16 ?m (head + ?o + 2) = Ok (action_len b)"
    unfolding m using validate_action_ok [OF b l] by auto
  have "of_nat ?o < (of_nat (actions_size (as @ b # bs)) :: 16 word)"
    using Cons.prems action_size_ge [of b] by (intro of_nat16_less) (auto simp: actions_size_append)
  moreover have "of_nat ?o + action_len b = (of_nat (actions_size (as @ [b])) :: 16 word)"
    using b(1) of_nat_action_size [of b] by (simp add: actions_size_append)
  moreover have "validate_actions_loop f (pre @ enc_actions ((as @ [b]) @ bs) @ post) head
      (of_nat (actions_size ((as @ [b]) @ bs))) (of_nat (actions_size (as @ [b]))) = Ok 0"
    using Cons.prems f by (intro Cons.IH) auto
  ultimately show ?case using f v o by simp
qed

lemma validate_actions_ok:
  assumes "actions_ok as" and "actions_size as < 65536" and "length as < fuel" and "length pre = head"
  shows "validate_actions fuel (pre @ enc_actions as @ post) head (of_nat (actions_size as)) = Ok 0"
  using validate_actions_loop_ok [of "[]" as fuel pre head post] assms
  by (simp add: validate_actions_def)

section \<open>Created messages are valid\<close>

definition match_ok :: "ofp_match \<Rightarrow> bool" where
  "match_ok s \<longleftrightarrow> wildcards s AND NOT OFPFW_ALL = 0 \<and>
     (dl_vlan s = UINT16_MAX \<or> dl_vlan s AND NOT VLAN_VID_MASK = 0) \<and>
     dl_vlan_pcp s AND NOT VLAN_PCP_MASK = 0 \<and> nw_tos s AND NOT NW_TOS_MASK = 0"

lemma validate_match_ok: "validate_match s = Ok 0 \<longleftrightarrow> match_ok s"
  by (auto simp: validate_match_def match_ok_def validate_wildcards_def validate_vlan_vid_def
      validate_vlan_pcp_def validate_nw_tos_def)

lemma match_ok_pads [simp]: "match_ok (s\<lparr>pad1 := a, pad2 := b\<rparr>) = match_ok s"
  by (simp add: match_ok_def)

definition phy_port_ok :: "ofp_phy_port \<Rightarrow> bool" where
  "phy_port_ok p \<longleftrightarrow> port_ok (pp_port_no p) \<and> pp_config p AND NOT PORT_CONFIG = 0 \<and>
     pp_state p AND NOT PORT_STATE = 0 \<and> pp_curr p AND NOT PORT_FEATURES = 0 \<and>
     pp_advertised p AND NOT PORT_FEATURES = 0 \<and> pp_supported p AND NOT PORT_FEATURES = 0 \<and>
     pp_peer p AND NOT PORT_FEATURES = 0"

lemma validate_phy_port_created:
  assumes "phy_port_ok p" and "length pre = i"
  shows "validate_phy_port (pre @ hton_phy_port p @ post) i = Ok 0"
  using assms validate_phy_port_no_ok [of "pp_port_no p"]
  by (simp add: validate_phy_port_def ntoh_hton_phy_port phy_port_ok_def)

definition flow_mod_args_ok :: "ofp_match \<Rightarrow> 16 word \<Rightarrow> 16 word \<Rightarrow> 16 word \<Rightarrow> 16 word \<Rightarrow> bool" where
  "flow_mod_args_ok match command priority out_port flags \<longleftrightarrow>
     match_ok match \<and> command \<le> OFPFC_DELETE_STRICT \<and>
     (wildcards match AND OFPFW_ALL = 0 \<longrightarrow> priority = UINT16_MAX) \<and>
     (command = OFPFC_DELETE \<or> command = OFPFC_DELETE_STRICT \<longrightarrow> out_port = OFPP_NONE \<or> port_ok out_port) \<and>
     flags AND NOT FLOW_MOD_FLAGS = 0"

lemma word16_pos: "0 < n \<Longrightarrow> n < 65536 \<Longrightarrow> 0 < (of_nat n :: 16 word)"
  by (simp add: word_less_nat_alt unat_of_nat16)

lemma validate_created_flow_mod:
  assumes args: "flow_mod_args_ok match command priority out_port flags"
    and acts: "actions_ok as" and sz: "72 + actions_size as < 65536" and fuel: "length as < fuel"
  shows "validate_flow_mod fuel (header_bytes OFPT_FLOW_MOD (72 + of_nat (actions_size as)) xid @
         hton_match match @ put64 cookie @ put16 command @ put16 idle @ put16 hard @ put16 priority @
         put32 buffer_id @ put16 out_port @ put16 flags @ enc_actions as) = Ok 0"
    (is "validate_flow_mod fuel ?m = _")
proof -
  let ?len = "72 + of_nat (actions_size as) :: 16 word"
  have wf: "\<forall>a \<in> set as. action_wf a" using acts by (simp add: actions_ok_def)
  have len: "unat ?len = 72 + actions_size as" using sz by (simp add: unat_plus16 unat_of_nat16)
  have h: "validate_header ?m OFPT_FLOW_MOD 72 65535 = Ok 0"
    using len sz wf by (intro validate_header_created) (auto simp: length_enc_actions)
  have match: "ntoh_match ?m 8 = Ok (match\<lparr>pad1 := 0, pad2 := 0\<rparr>)"
    by (intro ntoh_hton_match) simp
  have vm: "validate_match (match\<lparr>pad1 := 0, pad2 := 0\<rparr>) = Ok 0"
    using args by (simp add: validate_match_ok flow_mod_args_ok_def)
  have f: "rd16 ?m 56 = Ok command" "rd16 ?m 62 = Ok priority" "rd16 ?m 68 = Ok out_port"
    "rd16 ?m 70 = Ok flags" "rd16 ?m 2 = Ok ?len"
    by (simp_all add: rd_after_header rd_header_fields be_get_put)
  have a: "validate_actions fuel ?m 72 (of_nat (actions_size as)) = Ok 0"
    using validate_actions_ok [of as fuel "header_bytes OFPT_FLOW_MOD ?len xid @
         hton_match match @ put64 cookie @ put16 command @ put16 idle @ put16 hard @ put16 priority @
         put32 buffer_id @ put16 out_port @ put16 flags" 72 "[]"] acts sz fuel by simp
  have port: "validate_phy_port_no out_port = Ok 0"
    if "(command = OFPFC_DELETE \<or> command = OFPFC_DELETE_STRICT) \<and> out_port \<noteq> OFPP_NONE"
    using that args by (auto simp: validate_phy_port_no_ok flow_mod_args_ok_def)
  show ?thesis
    unfolding validate_flow_mod_def h match f bnd.simps chk_Ok vm
    using args a port by (auto simp: flow_mod_args_ok_def Let_def not_less)
qed

lemma validate_created_packet_out:
  assumes acts: "actions_ok as" and sz: "16 + actions_size as + length d < 65536"
    and port: "port_ok port" and fuel: "length as < fuel"
  shows "validate_packet_out fuel (header_bytes OFPT_PACKET_OUT
           (16 + of_nat (actions_size as) + of_nat (length d)) xid @ put32 buffer_id @ put16 port @
           put16 (of_nat (actions_size as)) @ enc_actions as @ d) = Ok 0"
    (is "validate_packet_out fuel ?m = _")
proof -
  let ?len = "16 + of_nat (actions_size as) + of_nat (length d) :: 16 word"
  have wf: "\<forall>a \<in> set as. action_wf a" using acts by (simp add: actions_ok_def)
  have len: "unat ?len = 16 + actions_size as + length d" using sz by (simp add: unat_plus16 unat_of_nat16)
  have h: "validate_header ?m OFPT_PACKET_OUT 16 65535 = Ok 0"
    using len sz wf by (intro validate_header_created) (auto simp: length_enc_actions)
  have f: "rd16 ?m 12 = Ok port" "rd16 ?m 14 = Ok (of_nat (actions_size as))"
    by (simp_all add: rd_after_header be_get_put)
  have p: "validate_phy_port_no port = Ok 0" using port by (simp add: validate_phy_port_no_ok)
  have a: "validate_actions fuel ?m 16 (of_nat (actions_size as)) = Ok 0"
    using validate_actions_ok [of as fuel "header_bytes OFPT_PACKET_OUT ?len xid @ put32 buffer_id @ put16 port @
           put16 (of_nat (actions_size as))" 16 d] acts sz fuel by simp
  show ?thesis unfolding validate_packet_out_def h f p bnd.simps chk_Ok a by simp
qed

lemma validate_created_packet_in:
  assumes sz: "18 + length d < 65536" and port: "port_ok port" and reason: "reason \<le> OFPR_ACTION"
  shows "validate_packet_in (header_bytes OFPT_PACKET_IN (18 + of_nat (length d)) xid @ put32 buffer_id @
         put16 total_len @ put16 port @ put8 reason @ [0] @ d) = Ok 0"
    (is "validate_packet_in ?m = _")
proof -
  have len: "unat (18 + of_nat (length d) :: 16 word) = 18 + length d"
    using sz by (simp add: unat_plus16 unat_of_nat16)
  have h: "validate_header ?m OFPT_PACKET_IN 18 65535 = Ok 0"
    using len sz by (intro validate_header_created) auto
  have f: "rd16 ?m 14 = Ok port" "rd8 ?m 16 = Ok reason"
    by (simp_all add: rd_after_header be_get_put)
  have p: "validate_phy_port_no port = Ok 0" using port by (simp add: validate_phy_port_no_ok)
  show ?thesis unfolding validate_packet_in_def h f p bnd.simps chk_Ok using reason by (simp add: not_less)
qed

lemma for_structs_ok:
  assumes "\<And>k. k < n \<Longrightarrow> f (off + step * k) = Ok 0"
  shows "for_structs f step n off = Ok 0"
  using assms
proof (induction n arbitrary: off)
  case (Suc n)
  have "f off = Ok 0" using Suc.prems [of 0] by simp
  moreover have "for_structs f step n (off + step) = Ok 0"
    using Suc.prems [of "Suc _"] by (intro Suc.IH) (auto simp: add.assoc)
  ultimately show ?case by simp
qed simp

text \<open>The \<open>k\<close>-th of a list of structures of the same size is where the loops look for it.\<close>

lemma concat_nth_split:
  assumes "\<And>s. length (enc s) = sz" and "k < length ss"
  shows "\<exists>pre post. concat (map enc ss) = pre @ enc (ss ! k) @ post \<and> length pre = sz * k"
proof -
  have "ss = take k ss @ ss ! k # drop (Suc k) ss" using assms(2) by (rule id_take_nth_drop)
  then have "concat (map enc ss) = concat (map enc (take k ss)) @ enc (ss ! k) @ concat (map enc (drop (Suc k) ss))"
    by (metis concat_append concat.simps(2) list.simps(9) map_append)
  moreover have "length (concat (map enc (take k ss))) = sz * k"
    using length_concat_const [of enc sz "take k ss"] assms by simp
  ultimately show ?thesis by blast
qed

lemma validate_created_features_reply:
  assumes sz: "32 + 48 * length ports < 65536" and ports: "\<forall>p \<in> set ports. phy_port_ok p"
    and tables: "n_tables \<noteq> 0"
  shows "validate_features_reply (header_bytes OFPT_FEATURES_REPLY (32 + 48 * of_nat (length ports)) xid @
         put64 dpid @ put32 n_buffers @ put8 n_tables @ replicate 3 0 @ put32 capabilities @ put32 actions @
         concat (map hton_phy_port ports)) = Ok 0"
    (is "validate_features_reply ?m = _")
proof -
  let ?len = "32 + 48 * of_nat (length ports) :: 16 word"
  let ?pre = "header_bytes OFPT_FEATURES_REPLY ?len xid @ put64 dpid @ put32 n_buffers @ put8 n_tables @
      replicate 3 0 @ put32 capabilities @ put32 actions"
  have len: "unat ?len = 32 + 48 * length ports" using unat_list_len [of 32 48 "length ports"] sz by simp
  have h: "validate_header ?m OFPT_FEATURES_REPLY 32 65535 = Ok 0"
    using len sz length_concat_const [of hton_phy_port 48 ports]
    by (intro validate_header_created) auto
  have f: "rd8 ?m 20 = Ok n_tables" "rd16 ?m 2 = Ok ?len"
    by (simp_all add: rd_after_header rd_header_fields be_get_put)
  have n: "unat (?len - 32) = 48 * length ports" using unat_list_len [of 0 48 "length ports"] sz by simp
  have "validate_phy_port ?m (32 + 48 * k) = Ok 0" if k: "k < length ports" for k
  proof -
    obtain pre post where "concat (map hton_phy_port ports) = pre @ hton_phy_port (ports ! k) @ post"
      "length pre = 48 * k" using concat_nth_split [of hton_phy_port 48 k ports] k by auto
    then show ?thesis
      using validate_phy_port_created [of "ports ! k" "?pre @ pre" "32 + 48 * k" post] ports k by simp
  qed
  then have v: "for_structs (validate_phy_port ?m) 48 (length ports) 32 = Ok 0"
    by (rule for_structs_ok)
  show ?thesis
    unfolding validate_features_reply_def h f bnd.simps chk_Ok Let_def n validate_phy_ports_def
    using tables v by (auto simp: assert_then_def word_less_nat_alt n)
qed

lemma validate_created_port_status:
  assumes "phy_port_ok desc" and "reason \<le> OFPPR_MODIFY"
  shows "validate_port_status (header_bytes OFPT_PORT_STATUS 64 xid @ put8 reason @ replicate 7 0 @
           hton_phy_port desc) = Ok 0"
    (is "validate_port_status ?m = _")
proof -
  have h: "validate_header ?m OFPT_PORT_STATUS 64 64 = Ok 0"
    by (intro validate_header_created) auto
  have f: "rd8 ?m 8 = Ok reason" by (simp add: rd_after_header be_get_put)
  have v: "validate_phy_port ?m 16 = Ok 0"
    using validate_phy_port_created [of desc "header_bytes OFPT_PORT_STATUS 64 xid @ put8 reason @ replicate 7 0" 16 "[]"]
      assms by simp
  show ?thesis unfolding validate_port_status_def h f v bnd.simps chk_Ok using assms(2) by (simp add: not_less)
qed

lemma validate_created_flow_removed:
  assumes "match_ok match" and "wildcards match AND OFPFW_ALL = 0 \<Longrightarrow> priority = UINT16_MAX"
    and "reason \<le> OFPRR_DELETE"
  shows "validate_flow_removed (header_bytes OFPT_FLOW_REMOVED 88 xid @ hton_match match @ put64 cookie @
         put16 priority @ put8 reason @ [0] @ put32 dsec @ put32 dnsec @ put16 idle @ [0, 0] @
         put64 packets @ put64 bytes) = Ok 0"
    (is "validate_flow_removed ?m = _")
proof -
  have h: "validate_header ?m OFPT_FLOW_REMOVED 88 88 = Ok 0"
    by (intro validate_header_created) auto
  have match: "ntoh_match ?m 8 = Ok (match\<lparr>pad1 := 0, pad2 := 0\<rparr>)" by (intro ntoh_hton_match) simp
  have vm: "validate_match (match\<lparr>pad1 := 0, pad2 := 0\<rparr>) = Ok 0"
    using assms(1) by (simp add: validate_match_ok)
  have f: "rd16 ?m 56 = Ok priority" "rd8 ?m 58 = Ok reason" by (simp_all add: rd_after_header be_get_put)
  show ?thesis unfolding validate_flow_removed_def h match vm f bnd.simps chk_Ok
    using assms(2,3) by (auto simp: not_less)
qed

lemma validate_openflow_message_created:
  "validate_openflow_message fuel (header_bytes OFPT_FLOW_MOD len xid @ rest) =
     validate_flow_mod fuel (header_bytes OFPT_FLOW_MOD len xid @ rest)"
  "validate_openflow_message fuel (header_bytes OFPT_PACKET_OUT len xid @ rest) =
     validate_packet_out fuel (header_bytes OFPT_PACKET_OUT len xid @ rest)"
  "validate_openflow_message fuel (header_bytes OFPT_PACKET_IN len xid @ rest) =
     validate_packet_in (header_bytes OFPT_PACKET_IN len xid @ rest)"
  "validate_openflow_message fuel (header_bytes OFPT_FEATURES_REPLY len xid @ rest) =
     validate_features_reply (header_bytes OFPT_FEATURES_REPLY len xid @ rest)"
  "validate_openflow_message fuel (header_bytes OFPT_PORT_STATUS len xid @ rest) =
     validate_port_status (header_bytes OFPT_PORT_STATUS len xid @ rest)"
  "validate_openflow_message fuel (header_bytes OFPT_FLOW_REMOVED len xid @ rest) =
     validate_flow_removed (header_bytes OFPT_FLOW_REMOVED len xid @ rest)"
  "validate_openflow_message fuel (header_bytes OFPT_STATS_REPLY len xid @ rest) =
     validate_stats_reply fuel (header_bytes OFPT_STATS_REPLY len xid @ rest)"
  "validate_openflow_message fuel (header_bytes OFPT_ERROR len xid @ rest) =
     validate_error (header_bytes OFPT_ERROR len xid @ rest)"
  unfolding validate_openflow_message_def rd_header_fields bnd.simps by simp_all

subsection \<open>Flow statistics\<close>

definition flow_stats_ok :: "ofp_flow_stats \<Rightarrow> bool" where
  "flow_stats_ok s \<longleftrightarrow> flow_stats_wf s \<and> actions_ok (fs_actions s) \<and> match_ok (fs_match s) \<and>
     (wildcards (fs_match s) AND OFPFW_ALL = 0 \<longrightarrow> fs_priority s = UINT16_MAX)"

lemma flow_stats_fields:
  assumes "flow_stats_wf s" and "length pre = off"
  shows "ntoh_match (pre @ enc_flow_stats s @ post) (off + 4) = Ok (fs_match s)"
    and "rd16 (pre @ enc_flow_stats s @ post) (off + 52) = Ok (fs_priority s)"
    and "rd16 (pre @ enc_flow_stats s @ post) off = Ok (fs_length s)"
proof -
  let ?m = "pre @ enc_flow_stats s @ post"
  have split: "?m = (pre @ put16 (fs_length s) @ put8 (fs_table_id s) @ replicate 1 0) @
      hton_match (fs_match s) @ (drop 44 (hton_flow_stats_fixed s) @ enc_actions (fs_actions s) @ post)"
    by (simp add: enc_flow_stats_def hton_flow_stats_fixed_def)
  show "ntoh_match ?m (off + 4) = Ok (fs_match s)"
    unfolding split using assms by (subst ntoh_hton_match) (auto simp: flow_stats_wf_def)
  show "rd16 ?m (off + 52) = Ok (fs_priority s)" "rd16 ?m off = Ok (fs_length s)"
    using assms by (simp_all add: enc_flow_stats_def hton_flow_stats_fixed_def be_get_put)
qed

lemma validate_flows_loop_ok:
  assumes "\<forall>s \<in> set ss. flow_stats_ok s \<and> length (fs_actions s) + length ss < fuel"
    and "flows_size ss < 65536" and "length ss < fuel" and "length pre = off"
  shows "validate_flows_loop fuel (pre @ concat (map enc_flow_stats ss)) (of_nat (flows_size ss)) off = Ok 0"
  using assms
proof (induction ss arbitrary: pre off fuel)
  case Nil
  then show ?case by (cases fuel) auto
next
  case (Cons s ss)
  then obtain f where f: "fuel = Suc f" "length ss < f" by (cases fuel) auto
  have s: "flow_stats_wf s" "actions_ok (fs_actions s)" "match_ok (fs_match s)"
    "wildcards (fs_match s) AND OFPFW_ALL = 0 \<Longrightarrow> fs_priority s = UINT16_MAX"
    using Cons.prems(1) by (auto simp: flow_stats_ok_def)
  let ?post = "concat (map enc_flow_stats ss)" and ?n = "actions_size (fs_actions s)"
  let ?m = "pre @ enc_flow_stats s @ ?post"
  have l: "unat (fs_length s) = 88 + ?n" "88 + ?n < 65536"
    using s(1) Cons.prems(2) by (auto simp: flow_stats_wf_def)
  have n: "fs_length s - 88 = of_nat ?n"
    using l by (simp add: word_unat_eq_iff unat_minus_word unat_of_nat16)
  have acts: "validate_actions f ?m (off + 88) (of_nat ?n) = Ok 0"
    using validate_actions_ok [of "fs_actions s" f "pre @ hton_flow_stats_fixed s" "off + 88" ?post]
      s l Cons.prems f by (auto simp: enc_flow_stats_def)
  have vm: "validate_match (fs_match s) = Ok 0" using s by (simp add: validate_match_ok)
  have pos: "(of_nat (flows_size (s # ss)) :: 16 word) > 0"
    using l Cons.prems(2) by (intro word16_pos) auto
  have "of_nat (flows_size (s # ss)) - fs_length s = (of_nat (flows_size ss) :: 16 word)"
    by simp
  moreover have "validate_flows_loop f ((pre @ enc_flow_stats s) @ ?post) (of_nat (flows_size ss))
      (off + unat (fs_length s)) = Ok 0"
    using Cons.prems f length_enc_flow_stats [OF s(1)] by (intro Cons.IH) auto
  ultimately show ?case
    using f pos acts s(4)
    by (simp add: flow_stats_fields [OF s(1) Cons.prems(4)] vm Let_def n not_less)
qed

lemma validate_created_flow_stats_reply:
  assumes flows: "\<forall>s \<in> set flows. flow_stats_ok s \<and> length (fs_actions s) + length flows < fuel"
    and fuel: "length flows < fuel" and sz: "12 + flows_size flows < 65536"
    and flags: "flags AND NOT OFPSF_REPLY_MORE = 0"
  shows "validate_stats_reply fuel (header_bytes OFPT_STATS_REPLY (12 + of_nat (flows_size flows)) xid @
         put16 OFPST_FLOW @ put16 flags @ concat (map enc_flow_stats flows)) = Ok 0"
    (is "validate_stats_reply fuel ?m = _")
proof -
  let ?len = "12 + of_nat (flows_size flows) :: 16 word"
  have wf: "\<forall>s \<in> set flows. flow_stats_wf s" using flows by (simp add: flow_stats_ok_def)
  have len: "unat ?len = 12 + flows_size flows" using sz by (simp add: unat_plus16 unat_of_nat16)
  have h: "validate_header ?m OFPT_STATS_REPLY 12 65535 = Ok 0"
    using len sz wf by (intro validate_header_created) (auto simp: length_enc_flows)
  have f: "rd16 ?m 8 = Ok OFPST_FLOW" "rd16 ?m 10 = Ok flags" "rd16 ?m 2 = Ok ?len"
    by (simp_all add: rd_after_header rd_header_fields be_get_put)
  have v: "validate_flows_loop fuel ?m (of_nat (flows_size flows)) 12 = Ok 0"
    using validate_flows_loop_ok [of flows fuel "header_bytes OFPT_STATS_REPLY ?len xid @ put16 OFPST_FLOW @ put16 flags" 12]
      flows fuel sz by simp
  show ?thesis
    unfolding validate_stats_reply_def f bnd.simps
    using flags v by (simp add: validate_flow_stats_reply_def h validate_reply_flags_def f)
qed

section \<open>What the validators do with other messages\<close>

text \<open>
  The last number of the enumeration is \<open>-60 + 60\<close>: the ``error'' for an undefined command is 0.
\<close>

lemma undefined_command_accepted:
  assumes "validate_header m OFPT_FLOW_MOD 72 65535 = Ok 0" and "ntoh_match m 8 = Ok match"
    and "validate_match match = Ok 0" and "rd16 m 56 = Ok command" and "command > OFPFC_DELETE_STRICT"
  shows "validate_flow_mod fuel m = Ok 0"
  unfolding validate_flow_mod_def assms(1-4) chk_Ok bnd.simps using assms(5) by simp

text \<open>
  A vendor action of length \<open>65536 - n\<close> at offset \<open>n\<close> takes the 16-bit offset back to 0, and the loop
  starts over.
\<close>

lemma validate_actions_cycle:
  assumes "validate_action m head = Ok 0" and "rd16 m (head + 2) = Ok a"
    and "validate_action m (head + unat a) = Ok 0" and "rd16 m (head + unat a + 2) = Ok b"
    and "a + b = 0" and "0 < len" and "a < len"
  shows "validate_actions_loop fuel m head len 0 = Fault No_return \<and>
         validate_actions_loop fuel m head len a = Fault No_return"
proof (induction fuel)
  case (Suc fuel)
  then show ?case using assms by simp
qed simp

text \<open>A queue description whose length field is 0 keeps the counting loop where it is.\<close>

lemma count_queues_stuck:
  assumes "rd16 m (i + 4) = Ok 0" and "unat queues_length > 8"
  shows "count_queues fuel m i queues_length n = Fault No_return"
  using assms by (induction fuel arbitrary: n) auto

end
