(* ===== verification/Match.thy ===== *)
theory Match
  imports Openflow_Header
begin

text \<open>
  The match comparisons of \<open>src/lib/match.h\<close> (macros in the sources).
\<close>

definition create_nw_src_mask :: "32 word \<Rightarrow> 32 word" where
  "create_nw_src_mask w =
     (let m = drop_bit OFPFW_NW_SRC_SHIFT (w AND OFPFW_NW_SRC_MASK)
      in if m \<ge> 32 then 0 else push_bit (unat m) 0xffffffff)"

definition create_nw_dst_mask :: "32 word \<Rightarrow> 32 word" where
  "create_nw_dst_mask w =
     (let m = drop_bit OFPFW_NW_DST_SHIFT (w AND OFPFW_NW_DST_MASK)
      in if m \<ge> 32 then 0 else push_bit (unat m) 0xffffffff)"

definition compare_match :: "ofp_match \<Rightarrow> ofp_match \<Rightarrow> bool" where
  "compare_match x y =
     (let w = wildcards x OR wildcards y;
          sm = create_nw_src_mask (wildcards x) AND create_nw_src_mask (wildcards y);
          dm = create_nw_dst_mask (wildcards x) AND create_nw_dst_mask (wildcards y)
      in (w AND OFPFW_IN_PORT \<noteq> 0 \<or> in_port x = in_port y)
       \<and> (w AND OFPFW_DL_VLAN \<noteq> 0 \<or> dl_vlan x = dl_vlan y)
       \<and> (w AND OFPFW_DL_VLAN_PCP \<noteq> 0 \<or> dl_vlan_pcp x = dl_vlan_pcp y)
       \<and> (w AND OFPFW_DL_SRC \<noteq> 0 \<or> dl_src x = dl_src y)
       \<and> (w AND OFPFW_DL_DST \<noteq> 0 \<or> dl_dst x = dl_dst y)
       \<and> (w AND OFPFW_DL_TYPE \<noteq> 0 \<or> dl_type x = dl_type y)
       \<and> (nw_src x XOR nw_src y) AND sm = 0
       \<and> (nw_dst x XOR nw_dst y) AND dm = 0
       \<and> (w AND OFPFW_NW_TOS \<noteq> 0 \<or> nw_tos x = nw_tos y)
       \<and> (w AND OFPFW_NW_PROTO \<noteq> 0 \<or> nw_proto x = nw_proto y)
       \<and> (w AND OFPFW_TP_SRC \<noteq> 0 \<or> tp_src x = tp_src y)
       \<and> (w AND OFPFW_TP_DST \<noteq> 0 \<or> tp_dst x = tp_dst y))"

definition compare_match_strict :: "ofp_match \<Rightarrow> ofp_match \<Rightarrow> bool" where
  "compare_match_strict x y \<longleftrightarrow> (wildcards x XOR wildcards y) AND OFPFW_ALL = 0 \<and> compare_match x y"

section \<open>Laws of the comparisons\<close>

text \<open>Two words agree under a mask exactly when the mask hides every difference.\<close>

lemma xor_mask_zero: "(a XOR b) AND m = 0 \<longleftrightarrow> a AND m = (b AND m :: 'a::len word)"
proof
  assume "(a XOR b) AND m = 0"
  then have "\<not> (bit ((a XOR b) AND m) n)" for n by simp
  then show "a AND m = b AND m"
    by (intro bit_word_eqI) (auto simp: bit_and_iff bit_xor_iff)
next
  assume "a AND m = b AND m"
  then have "bit (a AND m) n = bit (b AND m) n" for n by simp
  then show "(a XOR b) AND m = 0"
    by (intro bit_word_eqI) (auto simp: bit_and_iff bit_xor_iff)
qed

lemma compare_match_refl: "compare_match x x"
  by (simp add: compare_match_def)

lemma compare_match_sym: "compare_match x y = compare_match y x"
  by (simp only: compare_match_def Let_def or.commute [of "wildcards x"] and.commute [of "create_nw_src_mask (wildcards x)"]
      and.commute [of "create_nw_dst_mask (wildcards x)"] xor.commute [of "nw_src x"] xor.commute [of "nw_dst x"]
      eq_commute [of "in_port x"] eq_commute [of "dl_vlan x"] eq_commute [of "dl_vlan_pcp x"]
      eq_commute [of "dl_src x"] eq_commute [of "dl_dst x"] eq_commute [of "dl_type x"]
      eq_commute [of "nw_tos x"] eq_commute [of "nw_proto x"] eq_commute [of "tp_src x"] eq_commute [of "tp_dst x"])

lemma compare_match_strict_sym: "compare_match_strict x y = compare_match_strict y x"
  by (simp only: compare_match_strict_def compare_match_sym [of x] xor.commute [of "wildcards x"])

lemma compare_match_strict_refl: "compare_match_strict x x"
  by (simp add: compare_match_strict_def compare_match_refl)

text \<open>
  The strict comparison is equality of what the two matches say: their wildcard bits, and every
  field that is not wildcarded (an address: its prefix).
\<close>

definition field_key :: "32 word \<Rightarrow> 32 word \<Rightarrow> 'a \<Rightarrow> 'a option" where
  "field_key w flag v = (if w AND flag \<noteq> 0 then None else Some v)"

definition strict_key where
  "strict_key x =
     (wildcards x AND OFPFW_ALL,
      (field_key (wildcards x) OFPFW_IN_PORT (in_port x), field_key (wildcards x) OFPFW_DL_VLAN (dl_vlan x),
       field_key (wildcards x) OFPFW_DL_VLAN_PCP (dl_vlan_pcp x), field_key (wildcards x) OFPFW_DL_SRC (dl_src x),
       field_key (wildcards x) OFPFW_DL_DST (dl_dst x), field_key (wildcards x) OFPFW_DL_TYPE (dl_type x)),
      (nw_src x AND create_nw_src_mask (wildcards x), nw_dst x AND create_nw_dst_mask (wildcards x)),
      (field_key (wildcards x) OFPFW_NW_TOS (nw_tos x), field_key (wildcards x) OFPFW_NW_PROTO (nw_proto x),
       field_key (wildcards x) OFPFW_TP_SRC (tp_src x), field_key (wildcards x) OFPFW_TP_DST (tp_dst x)))"

lemma masked_subset:
  assumes "a AND m = b AND m" and "m AND c = (c :: 'a::len word)"
  shows "a AND c = b AND c"
  using assms by (metis and.assoc)

lemma or_and_same: "a AND c = b AND c \<Longrightarrow> (a OR b) AND c = (a AND c :: 'a::len word)"
  by (metis bit.conj_disj_distrib2 or.idem)

lemma compare_match_strict_key: "compare_match_strict x y \<longleftrightarrow> strict_key x = strict_key y"
proof (cases "wildcards x AND OFPFW_ALL = wildcards y AND OFPFW_ALL")
  case True
  have sub: "wildcards x AND c = wildcards y AND c" if "OFPFW_ALL AND c = c" for c
    using True that by (rule masked_subset)
  have eqs: "wildcards x AND OFPFW_IN_PORT = wildcards y AND OFPFW_IN_PORT"
    "wildcards x AND OFPFW_DL_VLAN = wildcards y AND OFPFW_DL_VLAN"
    "wildcards x AND OFPFW_DL_VLAN_PCP = wildcards y AND OFPFW_DL_VLAN_PCP"
    "wildcards x AND OFPFW_DL_SRC = wildcards y AND OFPFW_DL_SRC"
    "wildcards x AND OFPFW_DL_DST = wildcards y AND OFPFW_DL_DST"
    "wildcards x AND OFPFW_DL_TYPE = wildcards y AND OFPFW_DL_TYPE"
    "wildcards x AND OFPFW_NW_TOS = wildcards y AND OFPFW_NW_TOS"
    "wildcards x AND OFPFW_NW_PROTO = wildcards y AND OFPFW_NW_PROTO"
    "wildcards x AND OFPFW_TP_SRC = wildcards y AND OFPFW_TP_SRC"
    "wildcards x AND OFPFW_TP_DST = wildcards y AND OFPFW_TP_DST"
    "wildcards x AND OFPFW_NW_SRC_MASK = wildcards y AND OFPFW_NW_SRC_MASK"
    "wildcards x AND OFPFW_NW_DST_MASK = wildcards y AND OFPFW_NW_DST_MASK"
    by (intro sub; simp)+
  note ors = eqs [THEN or_and_same]
  have masks: "create_nw_src_mask (wildcards x) = create_nw_src_mask (wildcards y)"
    "create_nw_dst_mask (wildcards x) = create_nw_dst_mask (wildcards y)"
    by (simp_all only: create_nw_src_mask_def create_nw_dst_mask_def eqs)
  have x: "(wildcards x XOR wildcards y) AND OFPFW_ALL = 0" using True by (simp add: xor_mask_zero)
  show ?thesis
    unfolding compare_match_strict_def compare_match_def Let_def ors strict_key_def field_key_def
      xor_mask_zero eqs masks and.idem
    using True by auto
next
  case False
  then show ?thesis by (simp add: compare_match_strict_def strict_key_def xor_mask_zero)
qed

section \<open>What a match admits\<close>

text \<open>
  A match read as a predicate on exact headers: every field is wildcarded or equal, and of an
  address the bits above the wildcarded low ones are equal.
\<close>

definition prefix_bits :: "32 word \<Rightarrow> nat" where
  "prefix_bits m = min 32 (unat m)"

definition admits :: "ofp_match \<Rightarrow> ofp_match \<Rightarrow> bool" where
  "admits x p \<longleftrightarrow>
     (let w = wildcards x in
      (w AND OFPFW_IN_PORT = 0 \<longrightarrow> in_port x = in_port p) \<and> (w AND OFPFW_DL_VLAN = 0 \<longrightarrow> dl_vlan x = dl_vlan p) \<and>
      (w AND OFPFW_DL_VLAN_PCP = 0 \<longrightarrow> dl_vlan_pcp x = dl_vlan_pcp p) \<and>
      (w AND OFPFW_DL_SRC = 0 \<longrightarrow> dl_src x = dl_src p) \<and> (w AND OFPFW_DL_DST = 0 \<longrightarrow> dl_dst x = dl_dst p) \<and>
      (w AND OFPFW_DL_TYPE = 0 \<longrightarrow> dl_type x = dl_type p) \<and>
      (let k = prefix_bits (drop_bit 8 (w AND OFPFW_NW_SRC_MASK)) in drop_bit k (nw_src x) = drop_bit k (nw_src p)) \<and>
      (let k = prefix_bits (drop_bit 14 (w AND OFPFW_NW_DST_MASK)) in drop_bit k (nw_dst x) = drop_bit k (nw_dst p)) \<and>
      (w AND OFPFW_NW_TOS = 0 \<longrightarrow> nw_tos x = nw_tos p) \<and> (w AND OFPFW_NW_PROTO = 0 \<longrightarrow> nw_proto x = nw_proto p) \<and>
      (w AND OFPFW_TP_SRC = 0 \<longrightarrow> tp_src x = tp_src p) \<and> (w AND OFPFW_TP_DST = 0 \<longrightarrow> tp_dst x = tp_dst p))"

lemma push_mask_eq:
  "a AND NOT (mask k) = (b AND NOT (mask k) :: 'a::len word) \<longleftrightarrow> drop_bit k a = drop_bit k b"
proof -
  have "drop_bit k (push_bit k (drop_bit k x)) = drop_bit k x" for x :: "'a word"
    by (rule bit_word_eqI) (auto simp: bit_simps dest: bit_imp_le_length)
  then show ?thesis unfolding and_not_mask_eq by metis
qed

lemma all_ones32: "(0xffffffff :: 32 word) = - 1"
  by simp

lemma drop_bit_all: "drop_bit 32 (w :: 32 word) = 0"
  by (rule bit_word_eqI) (auto simp: bit_simps dest: bit_imp_le_length)

lemma mask_prefix:
  fixes m :: "32 word"
  shows "a AND (if m \<ge> 32 then 0 else push_bit (unat m) 0xffffffff) =
     b AND (if m \<ge> 32 then 0 else push_bit (unat m) 0xffffffff) \<longleftrightarrow>
     drop_bit (prefix_bits m) a = drop_bit (prefix_bits m) (b :: 32 word)"
proof -
  show ?thesis
    unfolding all_ones32
    by (auto simp: push_mask_eq prefix_bits_def word_le_nat_alt drop_bit_all min_def)
qed

lemma compare_match_exact:
  assumes "wildcards p AND OFPFW_ALL = 0"
  shows "compare_match x p \<longleftrightarrow> admits x p"
proof -
  have sub: "wildcards p AND c = 0" if "OFPFW_ALL AND c = c" for c
    using masked_subset [of "wildcards p" OFPFW_ALL 0 c] assms that by simp
  have z: "(wildcards x OR wildcards p) AND c = wildcards x AND c" if "OFPFW_ALL AND c = c" for c
    using sub [OF that] by (simp add: bit.conj_disj_distrib2)
  have eqs: "(wildcards x OR wildcards p) AND OFPFW_IN_PORT = wildcards x AND OFPFW_IN_PORT"
    "(wildcards x OR wildcards p) AND OFPFW_DL_VLAN = wildcards x AND OFPFW_DL_VLAN"
    "(wildcards x OR wildcards p) AND OFPFW_DL_VLAN_PCP = wildcards x AND OFPFW_DL_VLAN_PCP"
    "(wildcards x OR wildcards p) AND OFPFW_DL_SRC = wildcards x AND OFPFW_DL_SRC"
    "(wildcards x OR wildcards p) AND OFPFW_DL_DST = wildcards x AND OFPFW_DL_DST"
    "(wildcards x OR wildcards p) AND OFPFW_DL_TYPE = wildcards x AND OFPFW_DL_TYPE"
    "(wildcards x OR wildcards p) AND OFPFW_NW_TOS = wildcards x AND OFPFW_NW_TOS"
    "(wildcards x OR wildcards p) AND OFPFW_NW_PROTO = wildcards x AND OFPFW_NW_PROTO"
    "(wildcards x OR wildcards p) AND OFPFW_TP_SRC = wildcards x AND OFPFW_TP_SRC"
    "(wildcards x OR wildcards p) AND OFPFW_TP_DST = wildcards x AND OFPFW_TP_DST"
    by (intro z; simp)+
  have "wildcards p AND OFPFW_NW_SRC_MASK = 0" "wildcards p AND OFPFW_NW_DST_MASK = 0"
    by (intro sub; simp)+
  then have masks: "a AND create_nw_src_mask (wildcards p) = a" "a AND create_nw_dst_mask (wildcards p) = a" for a
    unfolding create_nw_src_mask_def create_nw_dst_mask_def all_ones32 by simp_all
  have src: "nw_src x AND create_nw_src_mask w = nw_src p AND create_nw_src_mask w \<longleftrightarrow>
      (let k = prefix_bits (drop_bit 8 (w AND OFPFW_NW_SRC_MASK)) in drop_bit k (nw_src x) = drop_bit k (nw_src p))" for w
    unfolding create_nw_src_mask_def Let_def by (rule mask_prefix)
  have dst: "nw_dst x AND create_nw_dst_mask w = nw_dst p AND create_nw_dst_mask w \<longleftrightarrow>
      (let k = prefix_bits (drop_bit 14 (w AND OFPFW_NW_DST_MASK)) in drop_bit k (nw_dst x) = drop_bit k (nw_dst p))" for w
    unfolding create_nw_dst_mask_def Let_def by (rule mask_prefix)
  show ?thesis
    unfolding compare_match_def admits_def Let_def eqs masks xor_mask_zero
      src [unfolded Let_def] dst [unfolded Let_def] by blast
qed

end
