(* ===== verification/Ofm_Match.thy ===== *)
theory Ofm_Match
  imports Packet_Parser Ofm_Valid_Create Match
begin

text \<open>
  The two functions of \<open>src/lib/openflow_message.c\<close> that make matches: \<open>set_match_from_packet\<close>, from a
  parsed frame, and \<open>normalize_match\<close>, which brings a match into a canonical form.  In the structure
  of OpenFlow 1.0 the ICMP type and code share their fields and wildcard bits with the transport
  ports.
\<close>

section \<open>A match from a packet\<close>

definition zero_match :: ofp_match where
  "zero_match = \<lparr>wildcards = 0, in_port = 0, dl_src = 0, dl_dst = 0, dl_vlan = 0, dl_vlan_pcp = 0, pad1 = 0,
     dl_type = 0, nw_tos = 0, nw_proto = 0, pad2 = 0, nw_src = 0, nw_dst = 0, tp_src = 0, tp_dst = 0\<rparr>"

definition set_l2_match :: "16 word \<Rightarrow> 32 word \<Rightarrow> packet_info \<Rightarrow> ofp_match" where
  "set_l2_match port w info =
     (let m = zero_match\<lparr>wildcards := w\<rparr>;
          m = (if w AND OFPFW_IN_PORT = 0 then m\<lparr>in_port := port\<rparr> else m);
          m = (if w AND OFPFW_DL_SRC = 0 then m\<lparr>dl_src := eth_macsa info\<rparr> else m);
          m = (if w AND OFPFW_DL_DST = 0 then m\<lparr>dl_dst := eth_macda info\<rparr> else m);
          m = (if w AND OFPFW_DL_VLAN = 0 then
                 if packet_type_eth_vtag (Some info)
                 then m\<lparr>dl_vlan := if vlan_vid info AND NOT VLAN_VID_MASK \<noteq> 0 then vlan_vid info AND VLAN_VID_MASK
                                  else vlan_vid info\<rparr>
                 else m\<lparr>dl_vlan := UINT16_MAX\<rparr>
               else m);
          m = (if w AND OFPFW_DL_VLAN_PCP = 0 then
                 if packet_type_eth_vtag (Some info)
                 then m\<lparr>dl_vlan_pcp := if vlan_prio info AND NOT VLAN_PCP_MASK \<noteq> 0 then vlan_prio info AND VLAN_PCP_MASK
                                  else vlan_prio info\<rparr>
                 else m
               else m)
      in if w AND OFPFW_DL_TYPE = 0 then m\<lparr>dl_type := eth_type info\<rparr> else m)"

definition set_nw_addresses :: "32 word \<Rightarrow> 32 word \<Rightarrow> 32 word \<Rightarrow> ofp_match \<Rightarrow> ofp_match" where
  "set_nw_addresses w saddr daddr m =
     (let src_len = drop_bit OFPFW_NW_SRC_SHIFT (w AND OFPFW_NW_SRC_MASK);
          m = (if src_len < 32 then m\<lparr>nw_src := saddr AND push_bit (unat src_len) 0xffffffff\<rparr> else m);
          dst_len = drop_bit OFPFW_NW_DST_SHIFT (w AND OFPFW_NW_DST_MASK)
      in if dst_len < 32 then m\<lparr>nw_dst := daddr AND push_bit (unat dst_len) 0xffffffff\<rparr> else m)"

definition set_tp_ports :: "32 word \<Rightarrow> 16 word \<Rightarrow> 16 word \<Rightarrow> ofp_match \<Rightarrow> ofp_match" where
  "set_tp_ports w src dst m =
     (let m = (if w AND OFPFW_TP_SRC = 0 then m\<lparr>tp_src := src\<rparr> else m)
      in if w AND OFPFW_TP_DST = 0 then m\<lparr>tp_dst := dst\<rparr> else m)"

definition set_ipv4_match :: "32 word \<Rightarrow> packet_info \<Rightarrow> ofp_match \<Rightarrow> ofp_match" where
  "set_ipv4_match w info m =
     (let m = (if w AND OFPFW_NW_TOS = 0
               then m\<lparr>nw_tos := if ipv4_tos info AND NOT NW_TOS_MASK \<noteq> 0 then ipv4_tos info AND NW_TOS_MASK
                               else ipv4_tos info\<rparr> else m);
          m = (if w AND OFPFW_NW_PROTO = 0 then m\<lparr>nw_proto := ipv4_protocol info\<rparr> else m);
          m = set_nw_addresses w (ipv4_saddr info) (ipv4_daddr info) m
      in if nw_proto m = IPPROTO_ICMP then set_tp_ports w (ucast (icmpv4_type info)) (ucast (icmpv4_code info)) m
         else if nw_proto m = IPPROTO_TCP then set_tp_ports w (tcp_src_port info) (tcp_dst_port info) m
         else if nw_proto m = IPPROTO_UDP then set_tp_ports w (udp_src_port info) (udp_dst_port info) m
         else m)"

definition set_arp_match :: "32 word \<Rightarrow> packet_info \<Rightarrow> ofp_match \<Rightarrow> ofp_match" where
  "set_arp_match w info m =
     set_nw_addresses w (arp_spa info) (arp_tpa info)
       (if w AND OFPFW_NW_PROTO = 0 then m\<lparr>nw_proto := ucast (arp_ar_op info AND 0x00ff)\<rparr> else m)"

definition set_match_from_packet :: "16 word \<Rightarrow> 32 word \<Rightarrow> packet_info \<Rightarrow> ofp_match" where
  "set_match_from_packet port w info =
     (let m = set_l2_match port w info;
          m = (if dl_type m = ETH_ETHTYPE_IPV4 then set_ipv4_match w info m else m)
      in if dl_type m = ETH_ETHTYPE_ARP then set_arp_match w info m else m)"

section \<open>Normalization\<close>

text \<open>The statements of \<open>normalize_match\<close>, one group after the other.\<close>

definition wild_l3 :: "ofp_match \<Rightarrow> ofp_match" where
  "wild_l3 m = m\<lparr>wildcards := wildcards m OR OFPFW_NW_TOS OR OFPFW_NW_PROTO OR OFPFW_NW_SRC_MASK OR
        OFPFW_NW_DST_MASK OR OFPFW_TP_SRC OR OFPFW_TP_DST,
      nw_tos := 0, nw_proto := 0, nw_src := 0, nw_dst := 0, tp_src := 0, tp_dst := 0\<rparr>"

definition wild_tp :: "ofp_match \<Rightarrow> ofp_match" where
  "wild_tp m = m\<lparr>wildcards := wildcards m OR OFPFW_TP_SRC OR OFPFW_TP_DST, tp_src := 0, tp_dst := 0\<rparr>"

definition normalize_l2 :: "ofp_match \<Rightarrow> ofp_match" where
  "normalize_l2 m =
     (let m = m\<lparr>pad1 := 0, pad2 := 0, wildcards := wildcards m AND OFPFW_ALL\<rparr>;
          m = (if wildcards m AND OFPFW_IN_PORT \<noteq> 0 then m\<lparr>in_port := 0\<rparr> else m);
          m = (if wildcards m AND OFPFW_DL_VLAN \<noteq> 0 then m\<lparr>dl_vlan := 0\<rparr>
               else if dl_vlan m = UINT16_MAX
               then m\<lparr>wildcards := wildcards m OR OFPFW_DL_VLAN_PCP, dl_vlan_pcp := 0\<rparr>
               else m\<lparr>dl_vlan := dl_vlan m AND VLAN_VID_MASK\<rparr>);
          m = (if wildcards m AND OFPFW_DL_SRC \<noteq> 0 then m\<lparr>dl_src := 0\<rparr> else m)
      in if wildcards m AND OFPFW_DL_DST \<noteq> 0 then m\<lparr>dl_dst := 0\<rparr> else m)"

definition normalize_type :: "ofp_match \<Rightarrow> ofp_match" where
  "normalize_type m =
     (if wildcards m AND OFPFW_DL_TYPE \<noteq> 0 then wild_l3 (m\<lparr>dl_type := 0\<rparr>)
      else if dl_type m = ETH_ETHTYPE_ARP
      then wild_tp (m\<lparr>wildcards := wildcards m OR OFPFW_NW_TOS, nw_tos := 0\<rparr>)
      else if dl_type m \<noteq> ETH_ETHTYPE_IPV4 then wild_l3 m else m)"

definition normalize_proto :: "ofp_match \<Rightarrow> ofp_match" where
  "normalize_proto m =
     (if wildcards m AND OFPFW_NW_PROTO \<noteq> 0 then
        let m = m\<lparr>nw_proto := 0\<rparr> in if dl_type m \<noteq> ETH_ETHTYPE_IPV4 then wild_tp m else m
      else
        let m = (if dl_type m = ETH_ETHTYPE_ARP then m\<lparr>nw_proto := nw_proto m AND 0xff\<rparr> else m)
        in if dl_type m = ETH_ETHTYPE_IPV4 \<and> nw_proto m \<noteq> IPPROTO_TCP \<and> nw_proto m \<noteq> IPPROTO_UDP \<and>
              nw_proto m \<noteq> IPPROTO_ICMP then wild_tp m else m)"

definition normalize_src :: "ofp_match \<Rightarrow> ofp_match" where
  "normalize_src m =
     (let len = drop_bit OFPFW_NW_SRC_SHIFT (wildcards m AND OFPFW_NW_SRC_MASK)
      in if len \<ge> 32
         then m\<lparr>wildcards := (wildcards m AND NOT OFPFW_NW_SRC_MASK) OR OFPFW_NW_SRC_ALL, nw_src := 0\<rparr>
         else m\<lparr>nw_src := nw_src m AND push_bit (unat len) 0xffffffff\<rparr>)"

definition normalize_dst :: "ofp_match \<Rightarrow> ofp_match" where
  "normalize_dst m =
     (let len = drop_bit OFPFW_NW_DST_SHIFT (wildcards m AND OFPFW_NW_DST_MASK)
      in if len \<ge> 32
         then m\<lparr>wildcards := (wildcards m AND NOT OFPFW_NW_DST_MASK) OR OFPFW_NW_DST_ALL, nw_dst := 0\<rparr>
         else m\<lparr>nw_dst := nw_dst m AND push_bit (unat len) 0xffffffff\<rparr>)"

definition normalize_fields :: "ofp_match \<Rightarrow> ofp_match" where
  "normalize_fields m =
     (let m = (if wildcards m AND OFPFW_TP_SRC \<noteq> 0 then m\<lparr>tp_src := 0\<rparr>
               else if nw_proto m = IPPROTO_ICMP then m\<lparr>tp_src := tp_src m AND 0x00ff\<rparr> else m);
          m = (if wildcards m AND OFPFW_TP_DST \<noteq> 0 then m\<lparr>tp_dst := 0\<rparr>
               else if nw_proto m = IPPROTO_ICMP then m\<lparr>tp_dst := tp_dst m AND 0x00ff\<rparr> else m);
          m = (if wildcards m AND OFPFW_DL_VLAN_PCP \<noteq> 0 then m\<lparr>dl_vlan_pcp := 0\<rparr>
               else m\<lparr>dl_vlan_pcp := dl_vlan_pcp m AND VLAN_PCP_MASK\<rparr>)
      in if wildcards m AND OFPFW_NW_TOS \<noteq> 0 then m\<lparr>nw_tos := 0\<rparr>
         else m\<lparr>nw_tos := nw_tos m AND NW_TOS_MASK\<rparr>)"

definition normalize_match :: "ofp_match \<Rightarrow> ofp_match" where
  "normalize_match m =
     normalize_fields (normalize_dst (normalize_src (normalize_proto (normalize_type (normalize_l2 m)))))"

section \<open>What a match from a packet is\<close>

lemma mask_if: "(if v AND NOT c \<noteq> 0 then v AND c else v) = (v AND c :: 'a::len word)"
proof (cases "v AND NOT c = 0")
  case True
  have "v = (v AND c) OR (v AND NOT c)" by (metis bit.conj_disj_distrib bit.disj_cancel_right and.right_neutral)
  with True have "v AND c = v" by simp
  then show ?thesis using True by simp
qed simp

definition l3_type :: "32 word \<Rightarrow> packet_info \<Rightarrow> 16 word" where
  "l3_type w info = (if w AND OFPFW_DL_TYPE = 0 then eth_type info else 0)"

definition packet_proto :: "packet_info \<Rightarrow> 8 word" where
  "packet_proto info = (if eth_type info = ETH_ETHTYPE_IPV4 then ipv4_protocol info
     else if eth_type info = ETH_ETHTYPE_ARP then ucast (arp_ar_op info AND 0x00ff) else 0)"

lemma set_l2_match_fields:
  "wildcards (set_l2_match port w info) = w"
  "in_port (set_l2_match port w info) = (if w AND OFPFW_IN_PORT = 0 then port else 0)"
  "dl_src (set_l2_match port w info) = (if w AND OFPFW_DL_SRC = 0 then eth_macsa info else 0)"
  "dl_dst (set_l2_match port w info) = (if w AND OFPFW_DL_DST = 0 then eth_macda info else 0)"
  "dl_vlan (set_l2_match port w info) = (if w AND OFPFW_DL_VLAN = 0
     then (if packet_type_eth_vtag (Some info) then vlan_vid info AND VLAN_VID_MASK else UINT16_MAX) else 0)"
  "dl_vlan_pcp (set_l2_match port w info) = (if w AND OFPFW_DL_VLAN_PCP = 0 \<and> packet_type_eth_vtag (Some info)
     then vlan_prio info AND VLAN_PCP_MASK else 0)"
  "dl_type (set_l2_match port w info) = l3_type w info"
  "nw_tos (set_l2_match port w info) = 0" "nw_proto (set_l2_match port w info) = 0"
  "nw_src (set_l2_match port w info) = 0" "nw_dst (set_l2_match port w info) = 0"
  "tp_src (set_l2_match port w info) = 0" "tp_dst (set_l2_match port w info) = 0"
  unfolding set_l2_match_def Let_def mask_if l3_type_def by (simp_all add: zero_match_def)

lemma set_nw_addresses_fields [simp]:
  "wildcards (set_nw_addresses w s d m) = wildcards m" "in_port (set_nw_addresses w s d m) = in_port m"
  "dl_src (set_nw_addresses w s d m) = dl_src m" "dl_dst (set_nw_addresses w s d m) = dl_dst m"
  "dl_vlan (set_nw_addresses w s d m) = dl_vlan m" "dl_vlan_pcp (set_nw_addresses w s d m) = dl_vlan_pcp m"
  "dl_type (set_nw_addresses w s d m) = dl_type m" "nw_tos (set_nw_addresses w s d m) = nw_tos m"
  "nw_proto (set_nw_addresses w s d m) = nw_proto m" "tp_src (set_nw_addresses w s d m) = tp_src m"
  "tp_dst (set_nw_addresses w s d m) = tp_dst m"
  by (simp_all add: set_nw_addresses_def Let_def)

lemma set_nw_addresses_addr:
  "nw_src m = 0 \<Longrightarrow> nw_src (set_nw_addresses w s d m) = s AND create_nw_src_mask w"
  "nw_dst m = 0 \<Longrightarrow> nw_dst (set_nw_addresses w s d m) = d AND create_nw_dst_mask w"
  by (auto simp: set_nw_addresses_def create_nw_src_mask_def create_nw_dst_mask_def Let_def not_less)

lemma set_tp_ports_fields [simp]:
  "wildcards (set_tp_ports w s d m) = wildcards m" "in_port (set_tp_ports w s d m) = in_port m"
  "dl_src (set_tp_ports w s d m) = dl_src m" "dl_dst (set_tp_ports w s d m) = dl_dst m"
  "dl_vlan (set_tp_ports w s d m) = dl_vlan m" "dl_vlan_pcp (set_tp_ports w s d m) = dl_vlan_pcp m"
  "dl_type (set_tp_ports w s d m) = dl_type m" "nw_tos (set_tp_ports w s d m) = nw_tos m"
  "nw_proto (set_tp_ports w s d m) = nw_proto m" "nw_src (set_tp_ports w s d m) = nw_src m"
  "nw_dst (set_tp_ports w s d m) = nw_dst m"
  "tp_src (set_tp_ports w s d m) = (if w AND OFPFW_TP_SRC = 0 then s else tp_src m)"
  "tp_dst (set_tp_ports w s d m) = (if w AND OFPFW_TP_DST = 0 then d else tp_dst m)"
  by (simp_all add: set_tp_ports_def Let_def)

definition tp_src_of :: "packet_info \<Rightarrow> 8 word \<Rightarrow> 16 word" where
  "tp_src_of info proto = (if proto = IPPROTO_ICMP then ucast (icmpv4_type info)
     else if proto = IPPROTO_TCP then tcp_src_port info else if proto = IPPROTO_UDP then udp_src_port info else 0)"

definition tp_dst_of :: "packet_info \<Rightarrow> 8 word \<Rightarrow> 16 word" where
  "tp_dst_of info proto = (if proto = IPPROTO_ICMP then ucast (icmpv4_code info)
     else if proto = IPPROTO_TCP then tcp_dst_port info else if proto = IPPROTO_UDP then udp_dst_port info else 0)"

lemma set_ipv4_match_fields:
  assumes "nw_tos m = 0" "nw_proto m = 0" "nw_src m = 0" "nw_dst m = 0" "tp_src m = 0" "tp_dst m = 0"
  shows "nw_tos (set_ipv4_match w info m) = (if w AND OFPFW_NW_TOS = 0 then ipv4_tos info AND NW_TOS_MASK else 0)"
    and "nw_proto (set_ipv4_match w info m) = (if w AND OFPFW_NW_PROTO = 0 then ipv4_protocol info else 0)"
    and "nw_src (set_ipv4_match w info m) = ipv4_saddr info AND create_nw_src_mask w"
    and "nw_dst (set_ipv4_match w info m) = ipv4_daddr info AND create_nw_dst_mask w"
    and "tp_src (set_ipv4_match w info m) = (if w AND OFPFW_TP_SRC = 0
           then tp_src_of info (if w AND OFPFW_NW_PROTO = 0 then ipv4_protocol info else 0) else 0)"
    and "tp_dst (set_ipv4_match w info m) = (if w AND OFPFW_TP_DST = 0
           then tp_dst_of info (if w AND OFPFW_NW_PROTO = 0 then ipv4_protocol info else 0) else 0)"
  using assms unfolding set_ipv4_match_def Let_def mask_if tp_src_of_def tp_dst_of_def
  by (simp_all add: set_nw_addresses_addr)

lemma set_ipv4_match_l2 [simp]:
  "wildcards (set_ipv4_match w info m) = wildcards m" "in_port (set_ipv4_match w info m) = in_port m"
  "dl_src (set_ipv4_match w info m) = dl_src m" "dl_dst (set_ipv4_match w info m) = dl_dst m"
  "dl_vlan (set_ipv4_match w info m) = dl_vlan m" "dl_vlan_pcp (set_ipv4_match w info m) = dl_vlan_pcp m"
  "dl_type (set_ipv4_match w info m) = dl_type m"
  by (simp_all add: set_ipv4_match_def Let_def)

lemma set_arp_match_fields [simp]:
  "wildcards (set_arp_match w info m) = wildcards m" "in_port (set_arp_match w info m) = in_port m"
  "dl_src (set_arp_match w info m) = dl_src m" "dl_dst (set_arp_match w info m) = dl_dst m"
  "dl_vlan (set_arp_match w info m) = dl_vlan m" "dl_vlan_pcp (set_arp_match w info m) = dl_vlan_pcp m"
  "dl_type (set_arp_match w info m) = dl_type m" "nw_tos (set_arp_match w info m) = nw_tos m"
  "tp_src (set_arp_match w info m) = tp_src m" "tp_dst (set_arp_match w info m) = tp_dst m"
  "nw_proto (set_arp_match w info m) = (if w AND OFPFW_NW_PROTO = 0 then ucast (arp_ar_op info AND 0x00ff) else nw_proto m)"
  "nw_src m = 0 \<Longrightarrow> nw_src (set_arp_match w info m) = arp_spa info AND create_nw_src_mask w"
  "nw_dst m = 0 \<Longrightarrow> nw_dst (set_arp_match w info m) = arp_tpa info AND create_nw_dst_mask w"
  by (simp_all add: set_arp_match_def set_nw_addresses_addr)

text \<open>
  The fields of the match: those of the packet, cut to what the wildcards leave.  The addresses and
  ports are the packet's when its type is one the function knows.
\<close>

definition packet_src :: "16 word \<Rightarrow> packet_info \<Rightarrow> 32 word" where
  "packet_src t info = (if t = ETH_ETHTYPE_IPV4 then ipv4_saddr info else if t = ETH_ETHTYPE_ARP then arp_spa info else 0)"

definition packet_dst :: "16 word \<Rightarrow> packet_info \<Rightarrow> 32 word" where
  "packet_dst t info = (if t = ETH_ETHTYPE_IPV4 then ipv4_daddr info else if t = ETH_ETHTYPE_ARP then arp_tpa info else 0)"

lemma set_match_l2:
  "wildcards (set_match_from_packet port w info) = w"
  "in_port (set_match_from_packet port w info) = (if w AND OFPFW_IN_PORT = 0 then port else 0)"
  "dl_src (set_match_from_packet port w info) = (if w AND OFPFW_DL_SRC = 0 then eth_macsa info else 0)"
  "dl_dst (set_match_from_packet port w info) = (if w AND OFPFW_DL_DST = 0 then eth_macda info else 0)"
  "dl_vlan (set_match_from_packet port w info) = (if w AND OFPFW_DL_VLAN = 0
     then (if packet_type_eth_vtag (Some info) then vlan_vid info AND VLAN_VID_MASK else UINT16_MAX) else 0)"
  "dl_vlan_pcp (set_match_from_packet port w info) = (if w AND OFPFW_DL_VLAN_PCP = 0 \<and> packet_type_eth_vtag (Some info)
     then vlan_prio info AND VLAN_PCP_MASK else 0)"
  "dl_type (set_match_from_packet port w info) = l3_type w info"
  by (simp_all add: set_match_from_packet_def Let_def set_l2_match_fields)

lemma set_match_l3:
  "nw_tos (set_match_from_packet port w info) =
     (if l3_type w info = ETH_ETHTYPE_IPV4 \<and> w AND OFPFW_NW_TOS = 0 then ipv4_tos info AND NW_TOS_MASK else 0)"
  "nw_proto (set_match_from_packet port w info) =
     (if w AND OFPFW_NW_PROTO \<noteq> 0 then 0 else if l3_type w info = ETH_ETHTYPE_IPV4 then ipv4_protocol info
      else if l3_type w info = ETH_ETHTYPE_ARP then ucast (arp_ar_op info AND 0x00ff) else 0)"
  "nw_src (set_match_from_packet port w info) = packet_src (l3_type w info) info AND create_nw_src_mask w"
  "nw_dst (set_match_from_packet port w info) = packet_dst (l3_type w info) info AND create_nw_dst_mask w"
  "tp_src (set_match_from_packet port w info) =
     (if l3_type w info = ETH_ETHTYPE_IPV4 \<and> w AND OFPFW_TP_SRC = 0
      then tp_src_of info (if w AND OFPFW_NW_PROTO = 0 then ipv4_protocol info else 0) else 0)"
  "tp_dst (set_match_from_packet port w info) =
     (if l3_type w info = ETH_ETHTYPE_IPV4 \<and> w AND OFPFW_TP_DST = 0
      then tp_dst_of info (if w AND OFPFW_NW_PROTO = 0 then ipv4_protocol info else 0) else 0)"
  by (simp_all add: set_match_from_packet_def Let_def set_l2_match_fields set_ipv4_match_fields packet_src_def
      packet_dst_def)

text \<open>
  The header of a packet as OpenFlow 1.0 sees it.  An untagged frame has the VLAN id \<open>0xffff\<close>; the network
  fields are those of IPv4 or, with the operation as the protocol, of ARP; the transport fields are the
  ports of TCP and UDP or the type and the code of ICMP.
\<close>

definition packet_header :: "16 word \<Rightarrow> packet_info \<Rightarrow> ofp_match" where
  "packet_header port info =
     (let ipv4 = (eth_type info = ETH_ETHTYPE_IPV4); tagged = packet_type_eth_vtag (Some info)
      in \<lparr>wildcards = 0, in_port = port, dl_src = eth_macsa info, dl_dst = eth_macda info,
          dl_vlan = if tagged then vlan_vid info AND VLAN_VID_MASK else UINT16_MAX,
          dl_vlan_pcp = if tagged then vlan_prio info AND VLAN_PCP_MASK else 0, pad1 = 0,
          dl_type = eth_type info, nw_tos = if ipv4 then ipv4_tos info AND NW_TOS_MASK else 0,
          nw_proto = packet_proto info, pad2 = 0,
          nw_src = packet_src (eth_type info) info, nw_dst = packet_dst (eth_type info) info,
          tp_src = if ipv4 then tp_src_of info (ipv4_protocol info) else 0,
          tp_dst = if ipv4 then tp_dst_of info (ipv4_protocol info) else 0\<rparr>)"

text \<open>
  What of a header the function looks at: below a wildcarded Ethernet type no network field, below a
  wildcarded protocol no transport field.
\<close>

definition looked_at :: "32 word \<Rightarrow> ofp_match \<Rightarrow> ofp_match" where
  "looked_at w h =
     (if w AND OFPFW_DL_TYPE \<noteq> 0 then h\<lparr>nw_tos := 0, nw_proto := 0, nw_src := 0, nw_dst := 0, tp_src := 0, tp_dst := 0\<rparr>
      else if w AND OFPFW_NW_PROTO \<noteq> 0 then h\<lparr>tp_src := 0, tp_dst := 0\<rparr> else h)"

lemma masks_zero: "create_nw_src_mask 0 = - 1" "create_nw_dst_mask 0 = - 1"
  by (simp_all add: create_nw_src_mask_def create_nw_dst_mask_def)

lemma set_match_pads:
  "pad1 (set_match_from_packet port w info) = 0" "pad2 (set_match_from_packet port w info) = 0"
proof -
  have l2: "pad1 (set_l2_match port w info) = 0" "pad2 (set_l2_match port w info) = 0"
    unfolding set_l2_match_def Let_def mask_if by (simp_all add: zero_match_def)
  have nw: "pad1 (set_nw_addresses w s d m) = pad1 m" "pad2 (set_nw_addresses w s d m) = pad2 m" for s d m
    by (simp_all add: set_nw_addresses_def Let_def)
  have tp: "pad1 (set_tp_ports w s d m) = pad1 m" "pad2 (set_tp_ports w s d m) = pad2 m" for s d m
    by (simp_all add: set_tp_ports_def Let_def)
  have "pad1 (set_ipv4_match w info m) = pad1 m" "pad2 (set_ipv4_match w info m) = pad2 m" for m
    unfolding set_ipv4_match_def Let_def mask_if by (simp_all add: nw tp)
  moreover have "pad1 (set_arp_match w info m) = pad1 m" "pad2 (set_arp_match w info m) = pad2 m" for m
    by (simp_all add: set_arp_match_def nw)
  ultimately show "pad1 (set_match_from_packet port w info) = 0" "pad2 (set_match_from_packet port w info) = 0"
    by (simp_all add: set_match_from_packet_def Let_def l2)
qed

lemma exact_match_header: "set_match_from_packet port 0 info = packet_header port info"
  by (intro ofp_match.equality)
    (simp_all add: set_match_l2 set_match_l3 set_match_pads masks_zero packet_header_def l3_type_def packet_proto_def Let_def)

text \<open>The number of low bits of an address that the wildcards hide.\<close>

definition src_bits :: "32 word \<Rightarrow> nat" where
  "src_bits w = prefix_bits (drop_bit 8 (w AND OFPFW_NW_SRC_MASK))"

definition dst_bits :: "32 word \<Rightarrow> nat" where
  "dst_bits w = prefix_bits (drop_bit 14 (w AND OFPFW_NW_DST_MASK))"

lemma same_src: "a AND create_nw_src_mask w = b AND create_nw_src_mask w \<longleftrightarrow> drop_bit (src_bits w) a = drop_bit (src_bits w) b"
  unfolding create_nw_src_mask_def src_bits_def Let_def by (rule mask_prefix)

lemma same_dst: "a AND create_nw_dst_mask w = b AND create_nw_dst_mask w \<longleftrightarrow> drop_bit (dst_bits w) a = drop_bit (dst_bits w) b"
  unfolding create_nw_dst_mask_def dst_bits_def Let_def by (rule mask_prefix)

lemma and_mask_twice: "(a AND c) AND c = (a AND c :: 'a::len word)"
  by (simp add: and.assoc)

lemma prefix_masked:
  "drop_bit (src_bits w) (a AND create_nw_src_mask w) = drop_bit (src_bits w) a"
  "drop_bit (dst_bits w) (a AND create_nw_dst_mask w) = drop_bit (dst_bits w) a"
  by (simp_all only: same_src [symmetric] same_dst [symmetric] and_mask_twice)

lemma hidden_prefix:
  fixes a b :: "32 word"
  shows "create_nw_src_mask w = 0 \<Longrightarrow> drop_bit (src_bits w) a = drop_bit (src_bits w) b"
    and
  "create_nw_dst_mask w = 0 \<Longrightarrow> drop_bit (dst_bits w) a = drop_bit (dst_bits w) b"
  using same_src [of a w b] same_dst [of a w b] by simp_all

lemmas admits_fields = admits_def [unfolded Let_def, folded src_bits_def dst_bits_def]

lemma admits_looked_at:
  "admits (set_match_from_packet port w info) p \<longleftrightarrow> admits ((looked_at w (packet_header port info))\<lparr>wildcards := w\<rparr>) p"
proof -
  note l = looked_at_def packet_header_def l3_type_def packet_proto_def packet_src_def packet_dst_def tp_src_of_def tp_dst_of_def Let_def
  show ?thesis
  proof (cases "w AND OFPFW_DL_TYPE = 0")
    case True
    then show ?thesis
      unfolding admits_fields set_match_l2 set_match_l3 prefix_masked by (simp add: l)
  next
    case False
    then show ?thesis
      unfolding admits_fields set_match_l2 set_match_l3 prefix_masked by (simp add: l)
  qed
qed

text \<open>
  Wildcards that do not leave a field behind whose meaning depends on one they hide: the network
  fields need the Ethernet type, the transport ports also the protocol.
\<close>

definition consistent_wildcards :: "32 word \<Rightarrow> bool" where
  "consistent_wildcards w \<longleftrightarrow>
     (w AND OFPFW_DL_TYPE \<noteq> 0 \<longrightarrow> w AND OFPFW_NW_TOS \<noteq> 0 \<and> w AND OFPFW_NW_PROTO \<noteq> 0 \<and>
        create_nw_src_mask w = 0 \<and> create_nw_dst_mask w = 0) \<and>
     (w AND OFPFW_NW_PROTO \<noteq> 0 \<longrightarrow> w AND OFPFW_TP_SRC \<noteq> 0 \<and> w AND OFPFW_TP_DST \<noteq> 0)"

lemma consistent_looked_at:
  assumes "consistent_wildcards w"
  shows "admits ((looked_at w h)\<lparr>wildcards := w\<rparr>) p \<longleftrightarrow> admits (h\<lparr>wildcards := w\<rparr>) p"
proof (cases "w AND OFPFW_DL_TYPE = 0")
  case True
  then show ?thesis using assms unfolding admits_fields looked_at_def consistent_wildcards_def by simp
next
  case False
  then have "create_nw_src_mask w = 0" "create_nw_dst_mask w = 0" using assms by (simp_all add: consistent_wildcards_def)
  note hidden_prefix(1) [OF this(1), of 0 "nw_src h"] hidden_prefix(2) [OF this(2), of 0 "nw_dst h"]
  with False assms show ?thesis unfolding admits_fields looked_at_def consistent_wildcards_def by simp
qed

lemma admits_self: "admits (h\<lparr>wildcards := w\<rparr>) h"
  by (simp add: admits_def Let_def)

lemma match_from_packet_ok:
  assumes "w AND NOT OFPFW_ALL = 0"
  shows "match_ok (set_match_from_packet port w info)"
  using assms unfolding match_ok_def set_match_l2 set_match_l3 by (simp add: and.assoc)


section \<open>The canonical form\<close>

lemma or_and_zero: "(a OR b) AND c = 0 \<longleftrightarrow> a AND c = 0 \<and> b AND c = (0 :: 'a::len word)"
  by (simp add: bit.conj_disj_distrib2 or_eq_0_iff)

definition l2_same :: "ofp_match \<Rightarrow> ofp_match \<Rightarrow> bool" where
  "l2_same x y \<longleftrightarrow> pad1 x = pad1 y \<and> pad2 x = pad2 y \<and> in_port x = in_port y \<and> dl_vlan x = dl_vlan y \<and>
     dl_src x = dl_src y \<and> dl_dst x = dl_dst y"

definition rest_agree :: "ofp_match \<Rightarrow> ofp_match \<Rightarrow> bool" where
  "rest_agree x y \<longleftrightarrow> wildcards y = wildcards x \<and>
     (wildcards x AND OFPFW_DL_VLAN_PCP = 0 \<longrightarrow> dl_vlan_pcp x = dl_vlan_pcp y) \<and>
     (wildcards x AND OFPFW_NW_TOS = 0 \<longrightarrow> nw_tos x = nw_tos y) \<and>
     (wildcards x AND OFPFW_NW_PROTO = 0 \<longrightarrow> nw_proto x = nw_proto y) \<and>
     (wildcards x AND OFPFW_TP_SRC = 0 \<longrightarrow> tp_src x = tp_src y) \<and>
     (wildcards x AND OFPFW_TP_DST = 0 \<longrightarrow> tp_dst x = tp_dst y) \<and>
     nw_src x AND create_nw_src_mask (wildcards x) = nw_src y AND create_nw_src_mask (wildcards x) \<and>
     nw_dst x AND create_nw_dst_mask (wildcards x) = nw_dst y AND create_nw_dst_mask (wildcards x)"

lemma masks_or:
  "c AND OFPFW_NW_SRC_MASK = 0 \<Longrightarrow> create_nw_src_mask (w OR c) = create_nw_src_mask w"
  "c AND OFPFW_NW_DST_MASK = 0 \<Longrightarrow> create_nw_dst_mask (w OR c) = create_nw_dst_mask w"
  by (simp_all add: create_nw_src_mask_def create_nw_dst_mask_def bit.conj_disj_distrib2)

lemma all_mask_idem: "OFPFW_ALL AND c = c \<Longrightarrow> (w AND OFPFW_ALL) AND c = w AND c"
  by (simp add: and.assoc)

lemma create_masks_all:
  "create_nw_src_mask (w AND OFPFW_ALL) = create_nw_src_mask w"
  "create_nw_dst_mask (w AND OFPFW_ALL) = create_nw_dst_mask w"
  by (simp_all add: create_nw_src_mask_def create_nw_dst_mask_def and.assoc)

lemma field_keyD:
  "field_key w c a = field_key w' c b \<Longrightarrow> OFPFW_ALL AND c = c \<Longrightarrow> (w AND OFPFW_ALL) AND c = 0 \<Longrightarrow> a = b"
  by (simp add: field_key_def and.assoc split: if_splits)

lemma strict_keyD:
  assumes "strict_key x = strict_key y"
  defines "w \<equiv> wildcards x AND OFPFW_ALL"
  shows "wildcards y AND OFPFW_ALL = w"
    and "w AND OFPFW_IN_PORT = 0 \<Longrightarrow> in_port x = in_port y"
    and "w AND OFPFW_DL_VLAN = 0 \<Longrightarrow> dl_vlan x = dl_vlan y"
    and "w AND OFPFW_DL_VLAN_PCP = 0 \<Longrightarrow> dl_vlan_pcp x = dl_vlan_pcp y"
    and "w AND OFPFW_DL_SRC = 0 \<Longrightarrow> dl_src x = dl_src y"
    and "w AND OFPFW_DL_DST = 0 \<Longrightarrow> dl_dst x = dl_dst y"
    and "w AND OFPFW_DL_TYPE = 0 \<Longrightarrow> dl_type x = dl_type y"
    and "w AND OFPFW_NW_TOS = 0 \<Longrightarrow> nw_tos x = nw_tos y"
    and "w AND OFPFW_NW_PROTO = 0 \<Longrightarrow> nw_proto x = nw_proto y"
    and "w AND OFPFW_TP_SRC = 0 \<Longrightarrow> tp_src x = tp_src y"
    and "w AND OFPFW_TP_DST = 0 \<Longrightarrow> tp_dst x = tp_dst y"
    and "nw_src x AND create_nw_src_mask w = nw_src y AND create_nw_src_mask w"
    and "nw_dst x AND create_nw_dst_mask w = nw_dst y AND create_nw_dst_mask w"
proof -
  note k = assms(1) [unfolded strict_key_def prod.inject]
  show w: "wildcards y AND OFPFW_ALL = w" using k by (simp only: w_def)
  have "nw_src x AND create_nw_src_mask (wildcards x) = nw_src y AND create_nw_src_mask (wildcards y)"
    "nw_dst x AND create_nw_dst_mask (wildcards x) = nw_dst y AND create_nw_dst_mask (wildcards y)"
    using k by blast+
  then show "nw_src x AND create_nw_src_mask w = nw_src y AND create_nw_src_mask w"
    "nw_dst x AND create_nw_dst_mask w = nw_dst y AND create_nw_dst_mask w"
    using create_masks_all [of "wildcards y"] create_masks_all [of "wildcards x"] unfolding w w_def [symmetric] by metis+
  have "field_key (wildcards x) OFPFW_IN_PORT (in_port x) = field_key (wildcards y) OFPFW_IN_PORT (in_port y)" using k by blast
  then show "w AND OFPFW_IN_PORT = 0 \<Longrightarrow> in_port x = in_port y" unfolding w_def by (rule field_keyD) simp
  have "field_key (wildcards x) OFPFW_DL_VLAN (dl_vlan x) = field_key (wildcards y) OFPFW_DL_VLAN (dl_vlan y)" using k by blast
  then show "w AND OFPFW_DL_VLAN = 0 \<Longrightarrow> dl_vlan x = dl_vlan y" unfolding w_def by (rule field_keyD) simp
  have "field_key (wildcards x) OFPFW_DL_VLAN_PCP (dl_vlan_pcp x) = field_key (wildcards y) OFPFW_DL_VLAN_PCP (dl_vlan_pcp y)" using k by blast
  then show "w AND OFPFW_DL_VLAN_PCP = 0 \<Longrightarrow> dl_vlan_pcp x = dl_vlan_pcp y" unfolding w_def by (rule field_keyD) simp
  have "field_key (wildcards x) OFPFW_DL_SRC (dl_src x) = field_key (wildcards y) OFPFW_DL_SRC (dl_src y)" using k by blast
  then show "w AND OFPFW_DL_SRC = 0 \<Longrightarrow> dl_src x = dl_src y" unfolding w_def by (rule field_keyD) simp
  have "field_key (wildcards x) OFPFW_DL_DST (dl_dst x) = field_key (wildcards y) OFPFW_DL_DST (dl_dst y)" using k by blast
  then show "w AND OFPFW_DL_DST = 0 \<Longrightarrow> dl_dst x = dl_dst y" unfolding w_def by (rule field_keyD) simp
  have "field_key (wildcards x) OFPFW_DL_TYPE (dl_type x) = field_key (wildcards y) OFPFW_DL_TYPE (dl_type y)" using k by blast
  then show "w AND OFPFW_DL_TYPE = 0 \<Longrightarrow> dl_type x = dl_type y" unfolding w_def by (rule field_keyD) simp
  have "field_key (wildcards x) OFPFW_NW_TOS (nw_tos x) = field_key (wildcards y) OFPFW_NW_TOS (nw_tos y)" using k by blast
  then show "w AND OFPFW_NW_TOS = 0 \<Longrightarrow> nw_tos x = nw_tos y" unfolding w_def by (rule field_keyD) simp
  have "field_key (wildcards x) OFPFW_NW_PROTO (nw_proto x) = field_key (wildcards y) OFPFW_NW_PROTO (nw_proto y)" using k by blast
  then show "w AND OFPFW_NW_PROTO = 0 \<Longrightarrow> nw_proto x = nw_proto y" unfolding w_def by (rule field_keyD) simp
  have "field_key (wildcards x) OFPFW_TP_SRC (tp_src x) = field_key (wildcards y) OFPFW_TP_SRC (tp_src y)" using k by blast
  then show "w AND OFPFW_TP_SRC = 0 \<Longrightarrow> tp_src x = tp_src y" unfolding w_def by (rule field_keyD) simp
  have "field_key (wildcards x) OFPFW_TP_DST (tp_dst x) = field_key (wildcards y) OFPFW_TP_DST (tp_dst y)" using k by blast
  then show "w AND OFPFW_TP_DST = 0 \<Longrightarrow> tp_dst x = tp_dst y" unfolding w_def by (rule field_keyD) simp
qed

definition no_vlan :: "ofp_match \<Rightarrow> bool" where
  "no_vlan m \<longleftrightarrow> (wildcards m AND OFPFW_ALL) AND OFPFW_DL_VLAN = 0 \<and> dl_vlan m = UINT16_MAX"

lemma normalize_l2_fields:
  fixes m :: ofp_match
  defines "w \<equiv> wildcards m AND OFPFW_ALL"
  shows "wildcards (normalize_l2 m) = (if no_vlan m then w OR OFPFW_DL_VLAN_PCP else w)"
    and "in_port (normalize_l2 m) = (if w AND OFPFW_IN_PORT \<noteq> 0 then 0 else in_port m)"
    and "dl_vlan (normalize_l2 m) = (if w AND OFPFW_DL_VLAN \<noteq> 0 then 0 else if dl_vlan m = UINT16_MAX then UINT16_MAX
           else dl_vlan m AND VLAN_VID_MASK)"
    and "dl_vlan_pcp (normalize_l2 m) = (if no_vlan m then 0 else dl_vlan_pcp m)"
    and "dl_src (normalize_l2 m) = (if w AND OFPFW_DL_SRC \<noteq> 0 then 0 else dl_src m)"
    and "dl_dst (normalize_l2 m) = (if w AND OFPFW_DL_DST \<noteq> 0 then 0 else dl_dst m)"
    and "pad1 (normalize_l2 m) = 0" "pad2 (normalize_l2 m) = 0" "dl_type (normalize_l2 m) = dl_type m"
    and "nw_tos (normalize_l2 m) = nw_tos m" "nw_proto (normalize_l2 m) = nw_proto m"
    and "nw_src (normalize_l2 m) = nw_src m" "nw_dst (normalize_l2 m) = nw_dst m"
    and "tp_src (normalize_l2 m) = tp_src m" "tp_dst (normalize_l2 m) = tp_dst m"
  unfolding normalize_l2_def Let_def no_vlan_def w_def by (simp_all add: or_and_zero)

lemma normalize_l2_agree:
  assumes "strict_key x = strict_key y"
  shows "l2_same (normalize_l2 x) (normalize_l2 y)" and "rest_agree (normalize_l2 x) (normalize_l2 y)"
    and "wildcards (normalize_l2 x) AND OFPFW_DL_TYPE = 0 \<Longrightarrow> dl_type (normalize_l2 x) = dl_type (normalize_l2 y)"
proof -
  note k = strict_keyD [OF assms]
  have v: "no_vlan y = no_vlan x" using k(3) unfolding no_vlan_def k(1) by auto
  show "l2_same (normalize_l2 x) (normalize_l2 y)"
    using k(2,3,5,6) unfolding l2_same_def normalize_l2_fields k(1) by auto
  show "wildcards (normalize_l2 x) AND OFPFW_DL_TYPE = 0 \<Longrightarrow> dl_type (normalize_l2 x) = dl_type (normalize_l2 y)"
    using k(7) unfolding normalize_l2_fields by (auto simp: or_and_zero split: if_splits)
  show "rest_agree (normalize_l2 x) (normalize_l2 y)"
  proof (cases "no_vlan x")
    case True
    then show ?thesis using k v unfolding rest_agree_def normalize_l2_fields k(1)
      by (simp add: or_and_zero masks_or)
  next
    case False
    then show ?thesis using k v unfolding rest_agree_def normalize_l2_fields k(1) by simp
  qed
qed

lemma wild_l3_agree:
  assumes "l2_same x y" and "rest_agree x y" and "dl_type x = dl_type y"
  shows "l2_same (wild_l3 x) (wild_l3 y) \<and> rest_agree (wild_l3 x) (wild_l3 y) \<and> dl_type (wild_l3 x) = dl_type (wild_l3 y)"
  using assms by (simp add: l2_same_def rest_agree_def wild_l3_def or_and_zero)

lemma wild_tp_agree:
  assumes "l2_same x y" and "rest_agree x y" and "dl_type x = dl_type y"
  shows "l2_same (wild_tp x) (wild_tp y) \<and> rest_agree (wild_tp x) (wild_tp y) \<and> dl_type (wild_tp x) = dl_type (wild_tp y)"
  using assms by (simp add: l2_same_def rest_agree_def wild_tp_def or_and_zero masks_or)

lemma normalize_type_agree:
  assumes l2: "l2_same x y" and rest: "rest_agree x y"
    and type: "wildcards x AND OFPFW_DL_TYPE = 0 \<Longrightarrow> dl_type x = dl_type y"
  shows "l2_same (normalize_type x) (normalize_type y) \<and> rest_agree (normalize_type x) (normalize_type y) \<and>
     dl_type (normalize_type x) = dl_type (normalize_type y)"
proof -
  have w: "wildcards y = wildcards x" using rest by (simp add: rest_agree_def)
  show ?thesis
  proof (cases "wildcards x AND OFPFW_DL_TYPE = 0")
    case True
    have tos: "l2_same (x\<lparr>wildcards := wildcards x OR OFPFW_NW_TOS, nw_tos := 0\<rparr>) (y\<lparr>wildcards := wildcards y OR OFPFW_NW_TOS, nw_tos := 0\<rparr>)"
      "rest_agree (x\<lparr>wildcards := wildcards x OR OFPFW_NW_TOS, nw_tos := 0\<rparr>) (y\<lparr>wildcards := wildcards y OR OFPFW_NW_TOS, nw_tos := 0\<rparr>)"
      using l2 rest by (simp_all add: l2_same_def rest_agree_def or_and_zero masks_or)
    show ?thesis
      using True type [OF True] l2 rest wild_l3_agree [OF l2 rest] wild_tp_agree [OF tos]
      unfolding normalize_type_def w by simp
  next
    case False
    have z: "l2_same (x\<lparr>dl_type := 0\<rparr>) (y\<lparr>dl_type := 0\<rparr>)" "rest_agree (x\<lparr>dl_type := 0\<rparr>) (y\<lparr>dl_type := 0\<rparr>)"
      using l2 rest by (simp_all add: l2_same_def rest_agree_def)
    show ?thesis using False wild_l3_agree [OF z] unfolding normalize_type_def w by simp
  qed
qed

lemma normalize_proto_agree:
  assumes l2: "l2_same x y" and rest: "rest_agree x y" and type: "dl_type x = dl_type y"
  shows "l2_same (normalize_proto x) (normalize_proto y) \<and> rest_agree (normalize_proto x) (normalize_proto y) \<and>
     dl_type (normalize_proto x) = dl_type (normalize_proto y) \<and> nw_proto (normalize_proto x) = nw_proto (normalize_proto y)"
proof -
  have w: "wildcards y = wildcards x" using rest by (simp add: rest_agree_def)
  have p: "l2_same (x\<lparr>nw_proto := p\<rparr>) (y\<lparr>nw_proto := p\<rparr>)" "rest_agree (x\<lparr>nw_proto := p\<rparr>) (y\<lparr>nw_proto := p\<rparr>)" for p
    using l2 rest by (simp_all add: l2_same_def rest_agree_def)
  have tp: "l2_same (wild_tp (x\<lparr>nw_proto := p\<rparr>)) (wild_tp (y\<lparr>nw_proto := p\<rparr>))"
    "rest_agree (wild_tp (x\<lparr>nw_proto := p\<rparr>)) (wild_tp (y\<lparr>nw_proto := p\<rparr>))" for p
    using wild_tp_agree [OF p] type by simp_all
  have f: "nw_proto (wild_tp m) = nw_proto m" "dl_type (wild_tp m) = dl_type m" for m
    by (simp_all add: wild_tp_def)
  show ?thesis
  proof (cases "wildcards x AND OFPFW_NW_PROTO = 0")
    case True
    then have e: "nw_proto y = nw_proto x" using rest by (simp add: rest_agree_def)
    have self: "x = x\<lparr>nw_proto := nw_proto x\<rparr>" "y = y\<lparr>nw_proto := nw_proto x\<rparr>" using e by simp_all
    have tp': "l2_same (wild_tp x) (wild_tp y)" "rest_agree (wild_tp x) (wild_tp y)"
      using tp [of "nw_proto x"] self by metis+
    show ?thesis
      using True l2 rest type e p tp tp' unfolding normalize_proto_def w Let_def by (simp add: f)
  next
    case False
    then show ?thesis using p tp type unfolding normalize_proto_def w Let_def by (simp add: f)
  qed
qed

lemma push_bit_ones_nonzero: "k < 32 \<Longrightarrow> push_bit (unat k) (0xffffffff :: 32 word) \<noteq> 0"
  for k :: "32 word"
proof -
  assume "k < 32"
  then have "unat k < 32" by (simp add: word_less_nat_alt)
  then have "bit (push_bit (unat k) (- 1 :: 32 word)) (unat k)" by (simp add: bit_simps)
  then show ?thesis by (metis all_ones32 bit_0_eq bot_apply bot_bool_def)
qed

lemma src_reset:
  "create_nw_src_mask ((w AND NOT OFPFW_NW_SRC_MASK) OR OFPFW_NW_SRC_ALL) = 0"
  "create_nw_dst_mask ((w AND NOT OFPFW_NW_SRC_MASK) OR OFPFW_NW_SRC_ALL) = create_nw_dst_mask w"
  "create_nw_dst_mask ((w AND NOT OFPFW_NW_DST_MASK) OR OFPFW_NW_DST_ALL) = 0"
  "create_nw_src_mask ((w AND NOT OFPFW_NW_DST_MASK) OR OFPFW_NW_DST_ALL) = create_nw_src_mask w"
  by (simp_all add: create_nw_src_mask_def create_nw_dst_mask_def bit.conj_disj_distrib2 and.assoc)

lemma src_mask_cases:
  "create_nw_src_mask w = (if 32 \<le> drop_bit OFPFW_NW_SRC_SHIFT (w AND OFPFW_NW_SRC_MASK) then 0
     else push_bit (unat (drop_bit OFPFW_NW_SRC_SHIFT (w AND OFPFW_NW_SRC_MASK))) 0xffffffff)"
  "create_nw_dst_mask w = (if 32 \<le> drop_bit OFPFW_NW_DST_SHIFT (w AND OFPFW_NW_DST_MASK) then 0
     else push_bit (unat (drop_bit OFPFW_NW_DST_SHIFT (w AND OFPFW_NW_DST_MASK))) 0xffffffff)"
  by (simp_all add: create_nw_src_mask_def create_nw_dst_mask_def Let_def)

text \<open>The two address steps, in terms of the mask.\<close>

lemma normalize_src_eq:
  "normalize_src m = (if create_nw_src_mask (wildcards m) = 0
     then m\<lparr>wildcards := (wildcards m AND NOT OFPFW_NW_SRC_MASK) OR OFPFW_NW_SRC_ALL, nw_src := 0\<rparr>
     else m\<lparr>nw_src := nw_src m AND create_nw_src_mask (wildcards m)\<rparr>)"
proof -
  have "push_bit (unat (drop_bit OFPFW_NW_SRC_SHIFT (wildcards m AND OFPFW_NW_SRC_MASK))) (0xffffffff :: 32 word) \<noteq> 0"
    if "\<not> 32 \<le> drop_bit OFPFW_NW_SRC_SHIFT (wildcards m AND OFPFW_NW_SRC_MASK)"
    using that by (simp add: push_bit_ones_nonzero)
  then show ?thesis unfolding normalize_src_def src_mask_cases Let_def by simp
qed

lemma normalize_dst_eq:
  "normalize_dst m = (if create_nw_dst_mask (wildcards m) = 0
     then m\<lparr>wildcards := (wildcards m AND NOT OFPFW_NW_DST_MASK) OR OFPFW_NW_DST_ALL, nw_dst := 0\<rparr>
     else m\<lparr>nw_dst := nw_dst m AND create_nw_dst_mask (wildcards m)\<rparr>)"
proof -
  have "push_bit (unat (drop_bit OFPFW_NW_DST_SHIFT (wildcards m AND OFPFW_NW_DST_MASK))) (0xffffffff :: 32 word) \<noteq> 0"
    if "\<not> 32 \<le> drop_bit OFPFW_NW_DST_SHIFT (wildcards m AND OFPFW_NW_DST_MASK)"
    using that by (simp add: push_bit_ones_nonzero)
  then show ?thesis unfolding normalize_dst_def src_mask_cases Let_def by simp
qed

definition l3_same :: "ofp_match \<Rightarrow> ofp_match \<Rightarrow> bool" where
  "l3_same x y \<longleftrightarrow> l2_same x y \<and> dl_type x = dl_type y \<and> nw_proto x = nw_proto y"

lemma normalize_src_agree:
  assumes "l3_same x y" and "rest_agree x y"
  shows "l3_same (normalize_src x) (normalize_src y) \<and> rest_agree (normalize_src x) (normalize_src y) \<and>
     nw_src (normalize_src x) = nw_src (normalize_src y)"
proof -
  have w: "wildcards y = wildcards x" using assms by (simp add: rest_agree_def)
  show ?thesis
  proof (cases "create_nw_src_mask (wildcards x) = 0")
    case True
    then show ?thesis using assms unfolding normalize_src_eq w l3_same_def l2_same_def rest_agree_def
      by (simp add: src_reset [simplified] or_and_zero and.assoc)
  next
    case False
    then show ?thesis using assms unfolding normalize_src_eq w l3_same_def l2_same_def rest_agree_def
      by (simp add: w)
  qed
qed

lemma normalize_dst_agree:
  assumes "l3_same x y" and "rest_agree x y" and "nw_src x = nw_src y"
  shows "l3_same (normalize_dst x) (normalize_dst y) \<and> rest_agree (normalize_dst x) (normalize_dst y) \<and>
     nw_src (normalize_dst x) = nw_src (normalize_dst y) \<and> nw_dst (normalize_dst x) = nw_dst (normalize_dst y)"
proof -
  have w: "wildcards y = wildcards x" using assms by (simp add: rest_agree_def)
  show ?thesis
  proof (cases "create_nw_dst_mask (wildcards x) = 0")
    case True
    then show ?thesis using assms unfolding normalize_dst_eq w l3_same_def l2_same_def rest_agree_def
      by (simp add: src_reset [simplified] or_and_zero and.assoc)
  next
    case False
    then show ?thesis using assms unfolding normalize_dst_eq w l3_same_def l2_same_def rest_agree_def
      by (simp add: w)
  qed
qed

lemma normalize_fields_fields:
  "wildcards (normalize_fields m) = wildcards m" "in_port (normalize_fields m) = in_port m"
  "dl_src (normalize_fields m) = dl_src m" "dl_dst (normalize_fields m) = dl_dst m"
  "dl_vlan (normalize_fields m) = dl_vlan m" "pad1 (normalize_fields m) = pad1 m" "pad2 (normalize_fields m) = pad2 m"
  "dl_type (normalize_fields m) = dl_type m" "nw_proto (normalize_fields m) = nw_proto m"
  "nw_src (normalize_fields m) = nw_src m" "nw_dst (normalize_fields m) = nw_dst m"
  "tp_src (normalize_fields m) = (if wildcards m AND OFPFW_TP_SRC \<noteq> 0 then 0
     else if nw_proto m = IPPROTO_ICMP then tp_src m AND 0x00ff else tp_src m)"
  "tp_dst (normalize_fields m) = (if wildcards m AND OFPFW_TP_DST \<noteq> 0 then 0
     else if nw_proto m = IPPROTO_ICMP then tp_dst m AND 0x00ff else tp_dst m)"
  "dl_vlan_pcp (normalize_fields m) = (if wildcards m AND OFPFW_DL_VLAN_PCP \<noteq> 0 then 0 else dl_vlan_pcp m AND VLAN_PCP_MASK)"
  "nw_tos (normalize_fields m) = (if wildcards m AND OFPFW_NW_TOS \<noteq> 0 then 0 else nw_tos m AND NW_TOS_MASK)"
  unfolding normalize_fields_def Let_def by simp_all

lemma normalize_match_canonical:
  assumes "strict_key x = strict_key y"
  shows "normalize_match x = normalize_match y"
proof -
  note a1 = normalize_l2_agree [OF assms]
  note a2 = normalize_type_agree [OF a1]
  note a3 = normalize_proto_agree [OF a2 [THEN conjunct1] a2 [THEN conjunct2, THEN conjunct1] a2 [THEN conjunct2, THEN conjunct2]]
  define p where "p z = normalize_proto (normalize_type (normalize_l2 z))" for z
  have a4: "l3_same (p x) (p y)" "rest_agree (p x) (p y)" using a3 by (simp_all add: l3_same_def p_def)
  note a5 = normalize_src_agree [OF a4]
  note a6 = normalize_dst_agree [OF a5 [THEN conjunct1] a5 [THEN conjunct2, THEN conjunct1] a5 [THEN conjunct2, THEN conjunct2]]
  define d where "d z = normalize_dst (normalize_src (p z))" for z
  have a7: "l3_same (d x) (d y)" "rest_agree (d x) (d y)" "nw_src (d x) = nw_src (d y)" "nw_dst (d x) = nw_dst (d y)"
    using a6 by (simp_all add: d_def)
  have "normalize_fields (d x) = normalize_fields (d y)"
    using a7 by (intro ofp_match.equality)
      (simp_all add: normalize_fields_fields l3_same_def l2_same_def rest_agree_def)
  then show ?thesis by (simp add: normalize_match_def d_def p_def)
qed

section \<open>Normalized matches are valid\<close>

definition in_all :: "32 word \<Rightarrow> bool" where
  "in_all w \<longleftrightarrow> w AND NOT OFPFW_ALL = 0"

lemma in_all_or: "in_all (a OR b) \<longleftrightarrow> in_all a \<and> in_all b"
  by (simp only: in_all_def or_and_zero)

lemma in_all_and:
  assumes "in_all a" shows "in_all (a AND b)"
proof -
  have "(a AND b) AND NOT OFPFW_ALL = (a AND NOT OFPFW_ALL) AND b" by (simp only: ac_simps)
  with assms show ?thesis by (simp only: in_all_def and_zero_eq zero_and_eq)
qed

lemma in_all_flags:
  "in_all OFPFW_DL_VLAN_PCP" "in_all OFPFW_NW_TOS" "in_all OFPFW_NW_PROTO" "in_all OFPFW_NW_SRC_MASK"
  "in_all OFPFW_NW_DST_MASK" "in_all OFPFW_TP_SRC" "in_all OFPFW_TP_DST" "in_all OFPFW_NW_SRC_ALL"
  "in_all OFPFW_NW_DST_ALL" "in_all (w AND OFPFW_ALL)" "in_all 0xc0" "in_all 0x2fffe0"
  by (simp_all add: in_all_def and.assoc)

lemma normalize_steps_in_all:
  "in_all (wildcards (normalize_l2 m))"
  "in_all (wildcards m) \<Longrightarrow> in_all (wildcards (normalize_type m))"
  "in_all (wildcards m) \<Longrightarrow> in_all (wildcards (normalize_proto m))"
  "in_all (wildcards m) \<Longrightarrow> in_all (wildcards (normalize_src m))"
  "in_all (wildcards m) \<Longrightarrow> in_all (wildcards (normalize_dst m))"
proof -
  show "in_all (wildcards (normalize_l2 m))"
    unfolding normalize_l2_fields by (simp only: in_all_or in_all_flags split: if_split) simp
  assume m: "in_all (wildcards m)"
  show "in_all (wildcards (normalize_type m))" "in_all (wildcards (normalize_proto m))"
    "in_all (wildcards (normalize_src m))" "in_all (wildcards (normalize_dst m))"
    using m in_all_and [OF m] unfolding normalize_type_def normalize_proto_def normalize_src_def normalize_dst_def
      wild_l3_def wild_tp_def Let_def by (simp_all add: in_all_or in_all_flags)
qed

lemma normalize_vlan:
  "dl_vlan (normalize_type m) = dl_vlan m" "dl_vlan (normalize_proto m) = dl_vlan m"
  "dl_vlan (normalize_src m) = dl_vlan m" "dl_vlan (normalize_dst m) = dl_vlan m"
  by (simp_all add: normalize_type_def normalize_proto_def normalize_src_def normalize_dst_def wild_l3_def wild_tp_def Let_def)

lemma normalize_match_ok: "match_ok (normalize_match m)"
proof -
  have "in_all (wildcards (normalize_match m))"
    unfolding normalize_match_def normalize_fields_fields by (intro normalize_steps_in_all)
  then have "wildcards (normalize_match m) AND NOT OFPFW_ALL = 0" by (simp only: in_all_def)
  moreover have "dl_vlan (normalize_match m) = UINT16_MAX \<or> dl_vlan (normalize_match m) AND NOT VLAN_VID_MASK = 0"
    unfolding normalize_match_def normalize_fields_fields normalize_vlan normalize_l2_fields by (simp add: and.assoc)
  moreover have "dl_vlan_pcp (normalize_match m) AND NOT VLAN_PCP_MASK = 0" "nw_tos (normalize_match m) AND NOT NW_TOS_MASK = 0"
    unfolding normalize_match_def normalize_fields_fields by (simp_all add: and.assoc)
  ultimately show ?thesis unfolding match_ok_def by blast
qed

end
