(* ===== verification/Ofm_Normalize.thy ===== *)
theory Ofm_Normalize
  imports Ofm_Match
begin

text \<open>
  \<open>normalize_match\<close> keeps what a match says: the headers that the normalized match admits are those that
  the match admits when it is read as OpenFlow 1.0 defines it, whatever its fields and wildcards are.
\<close>

section \<open>What a match says\<close>

text \<open>
  What a match says of a header in the sense of OpenFlow 1.0: a field counts only when the fields its
  meaning depends on are given.  The priority of a VLAN tag counts unless the match asks for untagged frames,
  the network fields count for IPv4 and ARP (the type of service for IPv4 only), and the transport fields for
  IPv4 when the protocol is TCP, UDP, ICMP or not given.  Bits that a field does not have are left out.
\<close>

definition for_ipv4 :: "ofp_match \<Rightarrow> bool" where
  "for_ipv4 x \<longleftrightarrow> wildcards x AND OFPFW_DL_TYPE = 0 \<and> dl_type x = ETH_ETHTYPE_IPV4"

definition for_ip :: "ofp_match \<Rightarrow> bool" where
  "for_ip x \<longleftrightarrow> wildcards x AND OFPFW_DL_TYPE = 0 \<and> (dl_type x = ETH_ETHTYPE_IPV4 \<or> dl_type x = ETH_ETHTYPE_ARP)"

definition for_ports :: "ofp_match \<Rightarrow> bool" where
  "for_ports x \<longleftrightarrow> for_ipv4 x \<and>
     (wildcards x AND OFPFW_NW_PROTO \<noteq> 0 \<or> nw_proto x \<in> {IPPROTO_ICMP, IPPROTO_TCP, IPPROTO_UDP})"

definition port_mask :: "ofp_match \<Rightarrow> 16 word" where
  "port_mask x = (if wildcards x AND OFPFW_NW_PROTO = 0 \<and> nw_proto x = IPPROTO_ICMP then 0xff else 0xffff)"

definition flow_admits :: "ofp_match \<Rightarrow> ofp_match \<Rightarrow> bool" where
  "flow_admits x p \<longleftrightarrow>
     (let w = wildcards x; untagged = (w AND OFPFW_DL_VLAN = 0 \<and> dl_vlan x = UINT16_MAX) in
      (w AND OFPFW_IN_PORT = 0 \<longrightarrow> in_port x = in_port p) \<and>
      (w AND OFPFW_DL_VLAN = 0 \<longrightarrow> (if untagged then UINT16_MAX else dl_vlan x AND VLAN_VID_MASK) = dl_vlan p) \<and>
      (w AND OFPFW_DL_VLAN_PCP = 0 \<and> \<not> untagged \<longrightarrow> dl_vlan_pcp x AND VLAN_PCP_MASK = dl_vlan_pcp p) \<and>
      (w AND OFPFW_DL_SRC = 0 \<longrightarrow> dl_src x = dl_src p) \<and> (w AND OFPFW_DL_DST = 0 \<longrightarrow> dl_dst x = dl_dst p) \<and>
      (w AND OFPFW_DL_TYPE = 0 \<longrightarrow> dl_type x = dl_type p) \<and>
      (for_ip x \<longrightarrow> drop_bit (src_bits w) (nw_src x) = drop_bit (src_bits w) (nw_src p)) \<and>
      (for_ip x \<longrightarrow> drop_bit (dst_bits w) (nw_dst x) = drop_bit (dst_bits w) (nw_dst p)) \<and>
      (w AND OFPFW_NW_TOS = 0 \<and> for_ipv4 x \<longrightarrow> nw_tos x AND NW_TOS_MASK = nw_tos p) \<and>
      (w AND OFPFW_NW_PROTO = 0 \<and> for_ip x \<longrightarrow> nw_proto x = nw_proto p) \<and>
      (w AND OFPFW_TP_SRC = 0 \<and> for_ports x \<longrightarrow> tp_src x AND port_mask x = tp_src p) \<and>
      (w AND OFPFW_TP_DST = 0 \<and> for_ports x \<longrightarrow> tp_dst x AND port_mask x = tp_dst p))"

section \<open>The steps of the function\<close>

lemma or_absorb: "c AND m = m \<Longrightarrow> (w OR c) AND m = (m :: 'a::len word)"
  by (rule bit_word_eqI) (metis bit_and_iff bit_or_iff)

lemma wild_masks: "create_nw_src_mask (w OR 0x2fffe0) = 0" "create_nw_dst_mask (w OR 0x2fffe0) = 0"
  unfolding create_nw_src_mask_def create_nw_dst_mask_def by (simp_all add: or_absorb)

lemma and_byte: "x AND 0xff = (x :: 8 word)"
proof -
  have "(0xff :: 8 word) = - 1" by simp
  then show ?thesis by (simp only: and.right_neutral)
qed

lemma masked_flag:
  assumes "flag AND m = 0" and "v AND m = v"
  shows "((w AND NOT m) OR v) AND flag = 0 \<longleftrightarrow> w AND flag = (0 :: 'a::len word)"
proof -
  have "v AND flag = v AND (m AND flag)" using assms(2) by (metis and.assoc)
  also have "\<dots> = 0" using assms(1) by (simp add: and.commute)
  finally have v: "v AND flag = 0" .
  have "\<not> bit (flag AND m) n" for n using assms(1) by simp
  then have "(w AND NOT m) AND flag = w AND flag"
    by (intro bit_word_eqI) (auto simp: bit_and_iff bit_not_iff)
  then show ?thesis by (simp only: or_and_zero v simp_thms)
qed

definition given :: "ofp_match \<Rightarrow> 32 word \<Rightarrow> bool" where
  "given m flag \<longleftrightarrow> wildcards m AND flag = 0"

text \<open>The fields of the first layer, which the later steps leave alone.\<close>

definition l2_flags :: "32 word set" where
  "l2_flags = {OFPFW_IN_PORT, OFPFW_DL_VLAN, OFPFW_DL_VLAN_PCP, OFPFW_DL_SRC, OFPFW_DL_DST, OFPFW_DL_TYPE}"

lemma normalize_l2_given:
  "flag \<in> l2_flags - {OFPFW_DL_VLAN_PCP} \<union> {OFPFW_NW_TOS, OFPFW_NW_PROTO, OFPFW_TP_SRC, OFPFW_TP_DST} \<Longrightarrow>
     given (normalize_l2 m) flag \<longleftrightarrow> given m flag"
  "given (normalize_l2 m) OFPFW_DL_VLAN_PCP \<longleftrightarrow> given m OFPFW_DL_VLAN_PCP \<and> \<not> no_vlan m"
  "create_nw_src_mask (wildcards (normalize_l2 m)) = create_nw_src_mask (wildcards m)"
  "create_nw_dst_mask (wildcards (normalize_l2 m)) = create_nw_dst_mask (wildcards m)"
  unfolding given_def normalize_l2_fields l2_flags_def
  by (auto simp: or_and_zero masks_or create_masks_all and.assoc)

lemma normalize_type_given:
  "flag \<in> l2_flags \<Longrightarrow> given (normalize_type m) flag \<longleftrightarrow> given m flag"
  "given (normalize_type m) OFPFW_NW_TOS \<longleftrightarrow> given m OFPFW_NW_TOS \<and> for_ipv4 m"
  "given (normalize_type m) OFPFW_TP_SRC \<longleftrightarrow> given m OFPFW_TP_SRC \<and> for_ipv4 m"
  "given (normalize_type m) OFPFW_TP_DST \<longleftrightarrow> given m OFPFW_TP_DST \<and> for_ipv4 m"
  "given (normalize_type m) OFPFW_NW_PROTO \<longleftrightarrow> given m OFPFW_NW_PROTO \<and> for_ip m"
  "create_nw_src_mask (wildcards (normalize_type m)) = (if for_ip m then create_nw_src_mask (wildcards m) else 0)"
  "create_nw_dst_mask (wildcards (normalize_type m)) = (if for_ip m then create_nw_dst_mask (wildcards m) else 0)"
  unfolding given_def l2_flags_def normalize_type_def wild_l3_def wild_tp_def for_ipv4_def for_ip_def
  by (auto simp: or_and_zero masks_or wild_masks)

lemma normalize_type_fields:
  "in_port (normalize_type m) = in_port m" "dl_vlan (normalize_type m) = dl_vlan m"
  "dl_vlan_pcp (normalize_type m) = dl_vlan_pcp m" "dl_src (normalize_type m) = dl_src m" "dl_dst (normalize_type m) = dl_dst m"
  "dl_type (normalize_type m) = (if given m OFPFW_DL_TYPE then dl_type m else 0)"
  "for_ipv4 m \<Longrightarrow> nw_tos (normalize_type m) = nw_tos m \<and> tp_src (normalize_type m) = tp_src m \<and> tp_dst (normalize_type m) = tp_dst m"
  "for_ip m \<Longrightarrow> nw_proto (normalize_type m) = nw_proto m \<and> nw_src (normalize_type m) = nw_src m \<and> nw_dst (normalize_type m) = nw_dst m"
  unfolding given_def normalize_type_def wild_l3_def wild_tp_def for_ipv4_def for_ip_def by auto

lemma for_ip_type: "for_ipv4 (normalize_type m) \<longleftrightarrow> for_ipv4 m" "for_ip (normalize_type m) \<longleftrightarrow> for_ip m"
  using normalize_type_given(1) [of OFPFW_DL_TYPE m]
  by (auto simp: for_ipv4_def for_ip_def normalize_type_fields given_def l2_flags_def)

lemma normalize_proto_given:
  "flag \<in> l2_flags \<union> {OFPFW_NW_TOS, OFPFW_NW_PROTO} \<Longrightarrow> given (normalize_proto m) flag \<longleftrightarrow> given m flag"
  "for_ipv4 m \<Longrightarrow> given (normalize_proto m) OFPFW_TP_SRC \<longleftrightarrow> given m OFPFW_TP_SRC \<and> for_ports m"
  "for_ipv4 m \<Longrightarrow> given (normalize_proto m) OFPFW_TP_DST \<longleftrightarrow> given m OFPFW_TP_DST \<and> for_ports m"
  "\<not> given m OFPFW_TP_SRC \<Longrightarrow> \<not> given (normalize_proto m) OFPFW_TP_SRC"
  "\<not> given m OFPFW_TP_DST \<Longrightarrow> \<not> given (normalize_proto m) OFPFW_TP_DST"
  "create_nw_src_mask (wildcards (normalize_proto m)) = create_nw_src_mask (wildcards m)"
  "create_nw_dst_mask (wildcards (normalize_proto m)) = create_nw_dst_mask (wildcards m)"
  unfolding given_def l2_flags_def normalize_proto_def wild_tp_def for_ports_def for_ipv4_def
  by (auto simp: or_and_zero masks_or Let_def)

lemma normalize_proto_fields:
  "in_port (normalize_proto m) = in_port m" "dl_vlan (normalize_proto m) = dl_vlan m"
  "dl_vlan_pcp (normalize_proto m) = dl_vlan_pcp m" "dl_src (normalize_proto m) = dl_src m" "dl_dst (normalize_proto m) = dl_dst m"
  "dl_type (normalize_proto m) = dl_type m" "nw_tos (normalize_proto m) = nw_tos m"
  "nw_src (normalize_proto m) = nw_src m" "nw_dst (normalize_proto m) = nw_dst m"
  "for_ports m \<Longrightarrow> tp_src (normalize_proto m) = tp_src m \<and> tp_dst (normalize_proto m) = tp_dst m"
  "nw_proto (normalize_proto m) = (if given m OFPFW_NW_PROTO then nw_proto m else 0)"
  unfolding given_def normalize_proto_def wild_tp_def for_ports_def for_ipv4_def Let_def by (auto simp: and_byte)

text \<open>The two steps for the addresses, whose masks they keep.\<close>

lemma normalize_src_given:
  assumes "flag AND OFPFW_NW_SRC_MASK = 0"
  shows "given (normalize_src m) flag \<longleftrightarrow> given m flag"
proof -
  have "((wildcards m AND NOT OFPFW_NW_SRC_MASK) OR OFPFW_NW_SRC_ALL) AND flag = 0 \<longleftrightarrow> wildcards m AND flag = 0"
    by (rule masked_flag [OF assms]) simp
  then show ?thesis by (simp only: given_def normalize_src_eq if_distrib [of wildcards] ofp_match.simps split: if_split) simp
qed

lemma normalize_src_fields:
  "in_port (normalize_src m) = in_port m" "dl_vlan (normalize_src m) = dl_vlan m"
  "dl_vlan_pcp (normalize_src m) = dl_vlan_pcp m" "dl_src (normalize_src m) = dl_src m" "dl_dst (normalize_src m) = dl_dst m"
  "dl_type (normalize_src m) = dl_type m" "nw_tos (normalize_src m) = nw_tos m" "nw_proto (normalize_src m) = nw_proto m"
  "nw_dst (normalize_src m) = nw_dst m" "tp_src (normalize_src m) = tp_src m" "tp_dst (normalize_src m) = tp_dst m"
  "nw_src (normalize_src m) = nw_src m AND create_nw_src_mask (wildcards m)"
  "create_nw_src_mask (wildcards (normalize_src m)) = create_nw_src_mask (wildcards m)"
  "create_nw_dst_mask (wildcards (normalize_src m)) = create_nw_dst_mask (wildcards m)"
  using src_reset(1,2) [of "wildcards m"] unfolding normalize_src_eq by simp_all

lemma normalize_dst_given:
  assumes "flag AND OFPFW_NW_DST_MASK = 0"
  shows "given (normalize_dst m) flag \<longleftrightarrow> given m flag"
proof -
  have "((wildcards m AND NOT OFPFW_NW_DST_MASK) OR OFPFW_NW_DST_ALL) AND flag = 0 \<longleftrightarrow> wildcards m AND flag = 0"
    by (rule masked_flag [OF assms]) simp
  then show ?thesis by (simp only: given_def normalize_dst_eq if_distrib [of wildcards] ofp_match.simps split: if_split) simp
qed

lemma normalize_dst_fields:
  "in_port (normalize_dst m) = in_port m" "dl_vlan (normalize_dst m) = dl_vlan m"
  "dl_vlan_pcp (normalize_dst m) = dl_vlan_pcp m" "dl_src (normalize_dst m) = dl_src m" "dl_dst (normalize_dst m) = dl_dst m"
  "dl_type (normalize_dst m) = dl_type m" "nw_tos (normalize_dst m) = nw_tos m" "nw_proto (normalize_dst m) = nw_proto m"
  "nw_src (normalize_dst m) = nw_src m" "tp_src (normalize_dst m) = tp_src m" "tp_dst (normalize_dst m) = tp_dst m"
  "nw_dst (normalize_dst m) = nw_dst m AND create_nw_dst_mask (wildcards m)"
  "create_nw_dst_mask (wildcards (normalize_dst m)) = create_nw_dst_mask (wildcards m)"
  "create_nw_src_mask (wildcards (normalize_dst m)) = create_nw_src_mask (wildcards m)"
  using src_reset(3,4) [of "wildcards m"] unfolding normalize_dst_eq by simp_all

lemma for_l2:
  "for_ipv4 (normalize_l2 m) \<longleftrightarrow> for_ipv4 m" "for_ip (normalize_l2 m) \<longleftrightarrow> for_ip m" "for_ports (normalize_l2 m) \<longleftrightarrow> for_ports m"
  using normalize_l2_given(1) [of OFPFW_DL_TYPE m] normalize_l2_given(1) [of OFPFW_NW_PROTO m]
  by (auto simp: for_ipv4_def for_ip_def for_ports_def given_def l2_flags_def normalize_l2_fields)

lemma for_ipv4_ip: "for_ipv4 m \<Longrightarrow> for_ip m"
  by (simp add: for_ipv4_def for_ip_def)

lemma for_ports_type: "for_ports (normalize_type m) \<longleftrightarrow> for_ports m"
proof (cases "for_ipv4 m")
  case True
  then show ?thesis
    using normalize_type_given(5) [of m] normalize_type_fields(8) [OF for_ipv4_ip [OF True]] for_ip_type(1) [of m] for_ipv4_ip [OF True]
    by (simp add: for_ports_def given_def)
qed (simp add: for_ports_def for_ip_type)

text \<open>What the whole function leaves.\<close>

lemma given_fields: "given (normalize_fields m) flag \<longleftrightarrow> given m flag"
  by (simp add: given_def normalize_fields_fields)

lemma addresses_given:
  "flag AND OFPFW_NW_SRC_MASK = 0 \<Longrightarrow> flag AND OFPFW_NW_DST_MASK = 0 \<Longrightarrow>
     given (normalize_match m) flag \<longleftrightarrow> given (normalize_proto (normalize_type (normalize_l2 m))) flag"
  unfolding normalize_match_def given_fields by (simp only: normalize_src_given normalize_dst_given)

lemma ports_given:
  "flag \<in> {OFPFW_TP_SRC, OFPFW_TP_DST} \<Longrightarrow>
     given (normalize_proto (normalize_type (normalize_l2 m))) flag \<longleftrightarrow> given m flag \<and> for_ports m"
proof -
  assume f: "flag \<in> {OFPFW_TP_SRC, OFPFW_TP_DST}"
  let ?t = "normalize_type (normalize_l2 m)"
  have g: "given ?t flag \<longleftrightarrow> given m flag \<and> for_ipv4 m"
    using f normalize_type_given(3,4) [of "normalize_l2 m"] normalize_l2_given(1) [of flag m] for_l2 by auto
  show ?thesis
  proof (cases "for_ipv4 m")
    case True
    then have "for_ipv4 ?t" by (simp add: for_ip_type for_l2)
    with normalize_proto_given(2,3) [OF this] g f True show ?thesis by (auto simp: for_ports_type for_l2)
  next
    case False
    then have "\<not> given ?t flag" "\<not> for_ports m" using g by (simp_all add: for_ports_def)
    with normalize_proto_given(4,5) [of ?t] f show ?thesis by auto
  qed
qed

lemma normalize_match_given:
  "flag \<in> l2_flags - {OFPFW_DL_VLAN_PCP} \<Longrightarrow> given (normalize_match m) flag \<longleftrightarrow> given m flag"
  "given (normalize_match m) OFPFW_DL_VLAN_PCP \<longleftrightarrow> given m OFPFW_DL_VLAN_PCP \<and> \<not> no_vlan m"
  "given (normalize_match m) OFPFW_NW_TOS \<longleftrightarrow> given m OFPFW_NW_TOS \<and> for_ipv4 m"
  "given (normalize_match m) OFPFW_NW_PROTO \<longleftrightarrow> given m OFPFW_NW_PROTO \<and> for_ip m"
  "given (normalize_match m) OFPFW_TP_SRC \<longleftrightarrow> given m OFPFW_TP_SRC \<and> for_ports m"
  "given (normalize_match m) OFPFW_TP_DST \<longleftrightarrow> given m OFPFW_TP_DST \<and> for_ports m"
proof -
  have a: "flag AND OFPFW_NW_SRC_MASK = 0 \<and> flag AND OFPFW_NW_DST_MASK = 0" if "flag \<in> l2_flags" for flag
    using that by (auto simp: l2_flags_def)
  show "given (normalize_match m) flag \<longleftrightarrow> given m flag" if "flag \<in> l2_flags - {OFPFW_DL_VLAN_PCP}"
    using that a by (simp add: addresses_given normalize_proto_given(1) normalize_type_given(1) normalize_l2_given(1))
  have "OFPFW_DL_VLAN_PCP \<in> l2_flags" by (simp add: l2_flags_def)
  then show "given (normalize_match m) OFPFW_DL_VLAN_PCP \<longleftrightarrow> given m OFPFW_DL_VLAN_PCP \<and> \<not> no_vlan m"
    using a by (simp add: addresses_given normalize_proto_given(1) normalize_type_given(1) normalize_l2_given(2))
  show "given (normalize_match m) OFPFW_NW_TOS \<longleftrightarrow> given m OFPFW_NW_TOS \<and> for_ipv4 m"
    by (simp add: addresses_given normalize_proto_given(1) normalize_type_given(2) normalize_l2_given(1) for_l2)
  show "given (normalize_match m) OFPFW_NW_PROTO \<longleftrightarrow> given m OFPFW_NW_PROTO \<and> for_ip m"
    by (simp add: addresses_given normalize_proto_given(1) normalize_type_given(5) normalize_l2_given(1) for_l2)
  show "given (normalize_match m) OFPFW_TP_SRC \<longleftrightarrow> given m OFPFW_TP_SRC \<and> for_ports m"
    "given (normalize_match m) OFPFW_TP_DST \<longleftrightarrow> given m OFPFW_TP_DST \<and> for_ports m"
    by (simp_all add: addresses_given ports_given)
qed

lemmas step_fields = normalize_match_def normalize_fields_fields normalize_dst_fields normalize_src_fields normalize_proto_fields

lemma normalize_match_masks:
  "create_nw_src_mask (wildcards (normalize_match m)) = (if for_ip m then create_nw_src_mask (wildcards m) else 0)"
  "create_nw_dst_mask (wildcards (normalize_match m)) = (if for_ip m then create_nw_dst_mask (wildcards m) else 0)"
  by (simp_all only: step_fields normalize_proto_given(6,7) normalize_type_given(6,7) normalize_l2_given(3,4) for_l2)

lemma normalize_match_fields:
  "given m OFPFW_IN_PORT \<Longrightarrow> in_port (normalize_match m) = in_port m"
  "given m OFPFW_DL_SRC \<Longrightarrow> dl_src (normalize_match m) = dl_src m"
  "given m OFPFW_DL_DST \<Longrightarrow> dl_dst (normalize_match m) = dl_dst m"
  "given m OFPFW_DL_TYPE \<Longrightarrow> dl_type (normalize_match m) = dl_type m"
  "given m OFPFW_DL_VLAN \<Longrightarrow> dl_vlan (normalize_match m) = (if dl_vlan m = UINT16_MAX then UINT16_MAX else dl_vlan m AND VLAN_VID_MASK)"
  using normalize_l2_given(1) [of OFPFW_DL_TYPE m]
  unfolding step_fields normalize_type_fields normalize_l2_fields by (simp_all add: given_def and.assoc l2_flags_def)

lemma normalize_match_pcp:
  "given m OFPFW_DL_VLAN_PCP \<Longrightarrow> \<not> no_vlan m \<Longrightarrow> dl_vlan_pcp (normalize_match m) = dl_vlan_pcp m AND VLAN_PCP_MASK"
  using normalize_match_given(2) [of m] unfolding step_fields normalize_type_fields normalize_l2_fields
  by (simp add: given_def normalize_fields_fields(1))

lemma normalize_match_network:
  assumes "for_ip m"
  shows "given m OFPFW_NW_PROTO \<Longrightarrow> nw_proto (normalize_match m) = nw_proto m"
    and "nw_src (normalize_match m) = nw_src m AND create_nw_src_mask (wildcards m)"
    and "nw_dst (normalize_match m) = nw_dst m AND create_nw_dst_mask (wildcards m)"
    and "for_ipv4 m \<Longrightarrow> given m OFPFW_NW_TOS \<Longrightarrow> nw_tos (normalize_match m) = nw_tos m AND NW_TOS_MASK"
proof -
  have ip: "for_ip (normalize_l2 m)" using assms by (simp add: for_l2)
  note t = normalize_type_fields(8) [OF ip]
  have masks: "create_nw_src_mask (wildcards (normalize_proto (normalize_type (normalize_l2 m)))) = create_nw_src_mask (wildcards m)"
    "create_nw_dst_mask (wildcards (normalize_proto (normalize_type (normalize_l2 m)))) = create_nw_dst_mask (wildcards m)"
    using ip by (simp_all only: normalize_proto_given(6,7) normalize_type_given(6,7) normalize_l2_given(3,4) if_True)
  show "nw_src (normalize_match m) = nw_src m AND create_nw_src_mask (wildcards m)"
    "nw_dst (normalize_match m) = nw_dst m AND create_nw_dst_mask (wildcards m)"
    using t by (simp_all only: step_fields masks normalize_l2_fields)
  show "nw_proto (normalize_match m) = nw_proto m" if "given m OFPFW_NW_PROTO"
  proof -
    have "given (normalize_type (normalize_l2 m)) OFPFW_NW_PROTO"
      using that ip normalize_type_given(5) [of "normalize_l2 m"] normalize_l2_given(1) [of OFPFW_NW_PROTO m] by simp
    then show ?thesis using t by (simp only: step_fields normalize_l2_fields if_True)
  qed
  show "nw_tos (normalize_match m) = nw_tos m AND NW_TOS_MASK" if v4: "for_ipv4 m" and g: "given m OFPFW_NW_TOS"
  proof -
    have "for_ipv4 (normalize_l2 m)" using v4 by (simp add: for_l2)
    from normalize_type_fields(7) [OF this] normalize_match_given(3) [of m] v4 g show ?thesis
      unfolding given_def by (simp add: step_fields normalize_l2_fields)
  qed
qed

lemma icmp_normalized:
  assumes "for_ip m"
  shows "nw_proto (normalize_match m) = IPPROTO_ICMP \<longleftrightarrow> given m OFPFW_NW_PROTO \<and> nw_proto m = IPPROTO_ICMP"
proof (cases "given m OFPFW_NW_PROTO")
  case True
  then show ?thesis using normalize_match_network(1) [OF assms] by simp
next
  case False
  then have "\<not> given (normalize_type (normalize_l2 m)) OFPFW_NW_PROTO"
    using normalize_type_given(5) [of "normalize_l2 m"] normalize_l2_given(1) [of OFPFW_NW_PROTO m] by simp
  then show ?thesis using False by (simp add: step_fields)
qed

lemma normalize_match_ports:
  assumes "for_ports m"
  shows "given m OFPFW_TP_SRC \<Longrightarrow> tp_src (normalize_match m) = tp_src m AND port_mask m"
    and "given m OFPFW_TP_DST \<Longrightarrow> tp_dst (normalize_match m) = tp_dst m AND port_mask m"
proof -
  let ?t = "normalize_type (normalize_l2 m)" and ?q = "normalize_dst (normalize_src (normalize_proto (normalize_type (normalize_l2 m))))"
  have v4: "for_ipv4 m" "for_ip m" using assms for_ipv4_ip by (auto simp: for_ports_def)
  then have "for_ipv4 (normalize_l2 m)" by (simp add: for_l2)
  note t = normalize_type_fields(7) [OF this] normalize_proto_fields(10) [of ?t, unfolded for_ports_type for_l2, OF assms]
  have q: "tp_src ?q = tp_src m" "tp_dst ?q = tp_dst m"
    using t by (simp_all add: normalize_dst_fields normalize_src_fields normalize_l2_fields)
  have p: "nw_proto ?q = IPPROTO_ICMP \<longleftrightarrow> given m OFPFW_NW_PROTO \<and> nw_proto m = IPPROTO_ICMP"
    using icmp_normalized [OF v4(2)] by (simp only: normalize_match_def normalize_fields_fields)
  have w: "wildcards ?q = wildcards (normalize_match m)" by (simp only: normalize_match_def normalize_fields_fields)
  have ones: "x AND 0xffff = (x :: 16 word)" for x
  proof -
    have "(0xffff :: 16 word) = - 1" by simp
    then show ?thesis by (simp only: and.right_neutral)
  qed
  show "tp_src (normalize_match m) = tp_src m AND port_mask m" if "given m OFPFW_TP_SRC"
  proof -
    have "wildcards ?q AND OFPFW_TP_SRC = 0" using normalize_match_given(5) [of m] assms that unfolding w given_def by blast
    then show ?thesis
      by (simp add: normalize_match_def normalize_fields_fields q p port_mask_def given_def ones)
  qed
  show "tp_dst (normalize_match m) = tp_dst m AND port_mask m" if "given m OFPFW_TP_DST"
  proof -
    have "wildcards ?q AND OFPFW_TP_DST = 0" using normalize_match_given(6) [of m] assms that unfolding w given_def by blast
    then show ?thesis
      by (simp add: normalize_match_def normalize_fields_fields q p port_mask_def given_def ones)
  qed
qed

lemma no_vlan_iff: "no_vlan m \<longleftrightarrow> given m OFPFW_DL_VLAN \<and> dl_vlan m = UINT16_MAX"
  by (simp add: no_vlan_def given_def and.assoc)

lemma normalize_match_admits: "admits (normalize_match m) p \<longleftrightarrow> flow_admits m p"
proof -
  let ?n = "normalize_match m"
  have src: "drop_bit (src_bits (wildcards ?n)) (nw_src ?n) = drop_bit (src_bits (wildcards ?n)) (nw_src p) \<longleftrightarrow>
      (for_ip m \<longrightarrow> drop_bit (src_bits (wildcards m)) (nw_src m) = drop_bit (src_bits (wildcards m)) (nw_src p))"
    unfolding same_src [symmetric] normalize_match_masks
    by (cases "for_ip m") (simp_all add: normalize_match_network(2) and_mask_twice)
  have dst: "drop_bit (dst_bits (wildcards ?n)) (nw_dst ?n) = drop_bit (dst_bits (wildcards ?n)) (nw_dst p) \<longleftrightarrow>
      (for_ip m \<longrightarrow> drop_bit (dst_bits (wildcards m)) (nw_dst m) = drop_bit (dst_bits (wildcards m)) (nw_dst p))"
    unfolding same_dst [symmetric] normalize_match_masks
    by (cases "for_ip m") (simp_all add: normalize_match_network(3) and_mask_twice)
  have l2: "OFPFW_IN_PORT \<in> l2_flags - {OFPFW_DL_VLAN_PCP}" "OFPFW_DL_VLAN \<in> l2_flags - {OFPFW_DL_VLAN_PCP}"
    "OFPFW_DL_SRC \<in> l2_flags - {OFPFW_DL_VLAN_PCP}" "OFPFW_DL_DST \<in> l2_flags - {OFPFW_DL_VLAN_PCP}"
    "OFPFW_DL_TYPE \<in> l2_flags - {OFPFW_DL_VLAN_PCP}" by (simp_all add: l2_flags_def)
  note g = normalize_match_given(1) [OF l2(1)] normalize_match_given(1) [OF l2(2)] normalize_match_given(1) [OF l2(3)]
    normalize_match_given(1) [OF l2(4)] normalize_match_given(1) [OF l2(5)] normalize_match_given(2-6)
  show ?thesis
    unfolding admits_fields flow_admits_def Let_def src dst given_def [symmetric] g no_vlan_iff [symmetric]
    using normalize_match_fields [of m] normalize_match_pcp [of m] normalize_match_network [of m] normalize_match_ports [of m]
      for_ipv4_ip [of m] no_vlan_iff [of m] by auto
qed

end
