(* ===== verification/Utility.thy ===== *)
theory Utility
  imports Trema_Prelude
begin

text \<open>
  The comparison and hash functions of \<open>src/lib/utility.c\<close> that the tables of the program are built
  on, and the Internet checksum.  \<open>hash_core\<close> runs over the bytes of the object it is given: a MAC
  address is stored most significant byte first, an integer in the byte order of the host, which is
  little endian on the platforms the program supports (i386, amd64).
\<close>

definition hash_step :: "32 word \<Rightarrow> byte \<Rightarrow> 32 word" where
  "hash_step hash_value c = (hash_value XOR ucast c) * 0x01000193"

definition hash_core :: "bytes \<Rightarrow> 32 word" where
  "hash_core key = foldl hash_step 0x811c9dc5 key"

definition compare_string :: "bytes \<Rightarrow> bytes \<Rightarrow> bool" where
  "compare_string x y \<longleftrightarrow> x = y"

definition hash_string :: "bytes \<Rightarrow> 32 word" where
  "hash_string key = hash_core key"

definition compare_mac :: "48 word \<Rightarrow> 48 word \<Rightarrow> bool" where
  "compare_mac x y \<longleftrightarrow> x = y"

definition hash_mac :: "48 word \<Rightarrow> 32 word" where
  "hash_mac mac = hash_core (put48 mac)"

definition mac_to_uint64 :: "bytes \<Rightarrow> 64 word res" where
  "mac_to_uint64 mac =
     (if 6 \<le> length mac then
        Ok (push_bit 40 (ucast (mac ! 0)) + push_bit 32 (ucast (mac ! 1)) +
            push_bit 24 (ucast (mac ! 2)) + push_bit 16 (ucast (mac ! 3)) +
            push_bit 8 (ucast (mac ! 4)) + ucast (mac ! 5))
      else Fault Out_of_bounds)"

definition compare_uint32 :: "32 word \<Rightarrow> 32 word \<Rightarrow> bool" where
  "compare_uint32 x y \<longleftrightarrow> x = y"

definition hash_uint32 :: "32 word \<Rightarrow> 32 word" where
  "hash_uint32 key = key mod 0xffffffff"

definition compare_datapath_id :: "64 word \<Rightarrow> 64 word \<Rightarrow> bool" where
  "compare_datapath_id x y \<longleftrightarrow> x = y"

definition hash_datapath_id :: "64 word \<Rightarrow> 32 word" where
  "hash_datapath_id key = hash_core (rev (put64 key))"

subsection \<open>Checksum\<close>

fun checksum_sum :: "bytes \<Rightarrow> 32 word \<Rightarrow> 32 word" where
  "checksum_sum (lo # hi # bs) csum = checksum_sum bs (csum + (ucast lo + push_bit 8 (ucast hi)))"
| "checksum_sum [b] csum = csum + ucast b"
| "checksum_sum [] csum = csum"

function checksum_fold :: "32 word \<Rightarrow> 32 word" where
  "checksum_fold csum =
     (if csum AND 0xffff0000 \<noteq> 0 then checksum_fold ((csum AND 0x0000ffff) + drop_bit 16 csum) else csum)"
  by auto

definition get_checksum :: "bytes \<Rightarrow> 16 word" where
  "get_checksum bs = ucast (NOT (checksum_fold (checksum_sum bs 0)))"

lemma unat_low_half: "unat (w AND 0x0000ffff :: 32 word) = unat w mod 2 ^ 16"
proof -
  have "(0x0000ffff :: 32 word) = mask 16" by (simp add: mask_eq_exp_minus_1)
  then have "w AND 0x0000ffff = take_bit 16 w" by (simp add: take_bit_eq_mask)
  then have "unat (w AND 0x0000ffff) = take_bit 16 (unat w)" by (simp only: unsigned_take_bit_eq)
  then show ?thesis by (simp only: take_bit_eq_mod)
qed

lemma unat_high_half: "unat (drop_bit 16 (w :: 32 word)) = unat w div 2 ^ 16"
  unfolding unat_drop_bit_eq by (rule drop_bit_eq_div)

lemma high_half_zero: "(w AND 0xffff0000 :: 32 word) = 0 \<longleftrightarrow> unat w < 2 ^ 16"
proof -
  have m: "(0xffff0000 :: 32 word) = push_bit 16 (mask 16)"
    by (simp add: mask_eq_exp_minus_1 push_bit_eq_mult)
  have "(w AND 0xffff0000 :: 32 word) = push_bit 16 (drop_bit 16 w)"
    unfolding m by (rule bit_word_eqI) (auto simp: bit_simps)
  moreover have "drop_bit 16 (push_bit 16 (drop_bit 16 w)) = drop_bit 16 w"
    by (rule bit_word_eqI) (auto simp: bit_simps dest: bit_imp_le_length)
  ultimately have "(w AND 0xffff0000 :: 32 word) = 0 \<longleftrightarrow> drop_bit 16 w = 0"
    by (metis drop_bit_of_0 push_bit_of_0)
  also have "\<dots> \<longleftrightarrow> unat w div 2 ^ 16 = 0"
    by (metis unat_high_half unat_eq_zero)
  finally show ?thesis by (simp add: div_eq_0_iff)
qed

lemma checksum_step_unat:
  "unat ((w AND 0x0000ffff) + drop_bit 16 w :: 32 word) = unat w mod 2 ^ 16 + unat w div 2 ^ 16"
proof -
  have "unat w < 2 ^ 32" using unsigned_less [of w, where ?'a = nat] by simp
  then have "unat w div 2 ^ 16 < 2 ^ 16" by (simp add: less_mult_imp_div_less)
  moreover have "unat w mod 2 ^ 16 < 2 ^ 16" by simp
  ultimately have "unat w mod 2 ^ 16 + unat w div 2 ^ 16 < 2 ^ LENGTH(32)" by simp
  then show ?thesis
    unfolding unat_word_ariths(1) unat_low_half unat_high_half by (rule mod_less)
qed

lemma halves_sum_less: "2 ^ 16 \<le> n \<Longrightarrow> n mod 2 ^ 16 + n div 2 ^ 16 < (n :: nat)"
proof -
  assume "2 ^ 16 \<le> n"
  then have "0 < n div 65536" by (simp add: div_greater_zero_iff)
  moreover have "n div 65536 * 65536 + n mod 65536 = n" by (rule div_mult_mod_eq)
  ultimately have "n mod 65536 + n div 65536 < n" by linarith
  then show ?thesis by simp
qed

termination checksum_fold
proof (relation "measure unat")
  fix w :: "32 word" assume "w AND 0xffff0000 \<noteq> 0"
  then have "2 ^ 16 \<le> unat w" by (simp add: high_half_zero)
  then show "((w AND 0x0000ffff) + drop_bit 16 w, w) \<in> measure unat"
    unfolding in_measure checksum_step_unat by (rule halves_sum_less)
qed simp

declare checksum_fold.simps [simp del]

end
