(* ===== verification/Doubly_Linked_List.thy ===== *)
theory Doubly_Linked_List
  imports Trema_Prelude
begin

text \<open>
  The doubly linked list of \<open>src/lib/doubly_linked_list.c\<close>, at the level of the pointers the code
  changes.  The heap maps addresses to cells, \<open>0\<close> is \<open>NULL\<close>; an operation that allocates takes the
  address \<open>xmalloc\<close> returned as an argument.  The mutex that every operation takes and releases
  is not part of the state: one operation is one step.

  The theorems relate the heap to the list of addresses it stores: an insertion adds one address
  next to the given one, a deletion removes one, and the walks find the ends of the list.
\<close>

section \<open>Cells, heap and operations\<close>

record 'a dlist_cell =
  dl_data :: "'a option"
  dl_prev :: nat
  dl_next :: nat

type_synonym 'a dheap = "nat \<rightharpoonup> 'a dlist_cell"

definition create_dlist :: "'a dheap \<Rightarrow> nat \<Rightarrow> 'a dheap" where
  "create_dlist h new = h(new \<mapsto> \<lparr>dl_data = None, dl_prev = 0, dl_next = 0\<rparr>)"

definition upd_cell :: "nat \<Rightarrow> ('a dlist_cell \<Rightarrow> 'a dlist_cell) \<Rightarrow> 'a dheap \<Rightarrow> 'a dheap res" where
  "upd_cell p f h = (case h p of None \<Rightarrow> Fault Null_deref | Some c \<Rightarrow> Ok (h(p \<mapsto> f c)))"

definition insert_before_dlist :: "'a dheap \<Rightarrow> nat \<Rightarrow> 'a \<Rightarrow> nat \<Rightarrow> 'a dheap res" where
  "insert_before_dlist h element data new_prev =
     die_unless (element \<noteq> 0)
      (case (create_dlist h new_prev) element of None \<Rightarrow> Fault Null_deref | Some c \<Rightarrow>
        bnd (if dl_prev c \<noteq> 0
             then bnd (upd_cell new_prev (\<lambda>n. n\<lparr>dl_prev := dl_prev c\<rparr>) (create_dlist h new_prev))
                      (upd_cell (dl_prev c) (\<lambda>o1. o1\<lparr>dl_next := new_prev\<rparr>))
             else Ok (create_dlist h new_prev)) (\<lambda>h.
        bnd (upd_cell element (\<lambda>e. e\<lparr>dl_prev := new_prev\<rparr>) h)
            (upd_cell new_prev (\<lambda>n. n\<lparr>dl_next := element, dl_data := Some data\<rparr>))))"

definition insert_after_dlist :: "'a dheap \<Rightarrow> nat \<Rightarrow> 'a \<Rightarrow> nat \<Rightarrow> 'a dheap res" where
  "insert_after_dlist h element data new_next =
     die_unless (element \<noteq> 0)
      (case (create_dlist h new_next) element of None \<Rightarrow> Fault Null_deref | Some c \<Rightarrow>
        bnd (if dl_next c \<noteq> 0
             then bnd (upd_cell new_next (\<lambda>n. n\<lparr>dl_next := dl_next c\<rparr>) (create_dlist h new_next))
                      (upd_cell (dl_next c) (\<lambda>o1. o1\<lparr>dl_prev := new_next\<rparr>))
             else Ok (create_dlist h new_next)) (\<lambda>h.
        bnd (upd_cell element (\<lambda>e. e\<lparr>dl_next := new_next\<rparr>) h)
            (upd_cell new_next (\<lambda>n. n\<lparr>dl_prev := element, dl_data := Some data\<rparr>))))"

definition delete_dlist_element :: "'a dheap \<Rightarrow> nat \<Rightarrow> 'a dheap res" where
  "delete_dlist_element h element =
     die_unless (element \<noteq> 0)
      (case h element of None \<Rightarrow> Fault Null_deref | Some c \<Rightarrow>
        bnd (if dl_prev c \<noteq> 0 then upd_cell (dl_prev c) (\<lambda>p. p\<lparr>dl_next := dl_next c\<rparr>) h else Ok h) (\<lambda>h.
        bnd (if dl_next c \<noteq> 0 then upd_cell (dl_next c) (\<lambda>n. n\<lparr>dl_prev := dl_prev c\<rparr>) h else Ok h) (\<lambda>h.
        Ok (h(element := None)))))"

text \<open>The walks.  A cyclic chain would never end, so the loops carry fuel.\<close>

fun walk_prev :: "nat \<Rightarrow> 'a dheap \<Rightarrow> nat \<Rightarrow> nat res" where
  "walk_prev 0 h e = Fault No_return"
| "walk_prev (Suc fuel) h e =
     (case h e of None \<Rightarrow> Fault Null_deref
      | Some c \<Rightarrow> if dl_prev c \<noteq> 0 then walk_prev fuel h (dl_prev c) else Ok e)"

fun walk_next :: "nat \<Rightarrow> 'a dheap \<Rightarrow> nat \<Rightarrow> nat res" where
  "walk_next 0 h e = Fault No_return"
| "walk_next (Suc fuel) h e =
     (case h e of None \<Rightarrow> Fault Null_deref
      | Some c \<Rightarrow> if dl_next c \<noteq> 0 then walk_next fuel h (dl_next c) else Ok e)"

definition get_first_element :: "nat \<Rightarrow> 'a dheap \<Rightarrow> nat \<Rightarrow> nat res" where
  "get_first_element fuel h element = die_unless (element \<noteq> 0) (walk_prev fuel h element)"

definition get_last_element :: "nat \<Rightarrow> 'a dheap \<Rightarrow> nat \<Rightarrow> nat res" where
  "get_last_element fuel h element = die_unless (element \<noteq> 0) (walk_next fuel h element)"

fun find_next :: "nat \<Rightarrow> 'a dheap \<Rightarrow> nat \<Rightarrow> 'a option \<Rightarrow> nat res" where
  "find_next 0 h e d = Fault No_return"
| "find_next (Suc fuel) h e d =
     (if e = 0 then Ok 0 else
      case h e of None \<Rightarrow> Fault Null_deref
      | Some c \<Rightarrow> if dl_data c = d then Ok e else find_next fuel h (dl_next c) d)"

fun find_prev :: "nat \<Rightarrow> 'a dheap \<Rightarrow> nat \<Rightarrow> 'a option \<Rightarrow> nat res" where
  "find_prev 0 h e d = Fault No_return"
| "find_prev (Suc fuel) h e d =
     (if e = 0 then Ok 0 else
      case h e of None \<Rightarrow> Fault Null_deref
      | Some c \<Rightarrow> if dl_data c = d then Ok e else find_prev fuel h (dl_prev c) d)"

definition find_element :: "nat \<Rightarrow> 'a dheap \<Rightarrow> nat \<Rightarrow> 'a option \<Rightarrow> nat res" where
  "find_element fuel h element d =
     die_unless (element \<noteq> 0)
      (bnd (find_next fuel h element d) (\<lambda>r.
       if r \<noteq> 0 then Ok r
       else case h element of None \<Rightarrow> Fault Null_deref
            | Some c \<Rightarrow> find_prev fuel h (dl_prev c) d))"

fun free_all :: "nat \<Rightarrow> 'a dheap \<Rightarrow> nat \<Rightarrow> 'a dheap res" where
  "free_all 0 h e = Fault No_return"
| "free_all (Suc fuel) h e =
     (if e = 0 then Ok h else
      case h e of None \<Rightarrow> Fault Null_deref
      | Some c \<Rightarrow> free_all fuel (h(e := None)) (dl_next c))"

definition delete_dlist :: "nat \<Rightarrow> 'a dheap \<Rightarrow> nat \<Rightarrow> 'a dheap res" where
  "delete_dlist fuel h element =
     die_unless (element \<noteq> 0) (bnd (walk_prev fuel h element) (free_all fuel h))"

section \<open>The list a heap stores\<close>

text \<open>
  \<open>chain h p xs q\<close>: the cells at the addresses \<open>xs\<close> are linked in this order; the first has
  \<open>prev = p\<close> and the last has \<open>next = q\<close>.
\<close>

fun chain :: "'a dheap \<Rightarrow> nat \<Rightarrow> nat list \<Rightarrow> nat \<Rightarrow> bool" where
  "chain h p [] q \<longleftrightarrow> True"
| "chain h p [x] q \<longleftrightarrow> x \<noteq> 0 \<and> (\<exists>c. h x = Some c \<and> dl_prev c = p \<and> dl_next c = q)"
| "chain h p (x # y # xs) q \<longleftrightarrow>
     x \<noteq> 0 \<and> (\<exists>c. h x = Some c \<and> dl_prev c = p \<and> dl_next c = y) \<and> chain h x (y # xs) q"

definition dlist :: "'a dheap \<Rightarrow> nat list \<Rightarrow> bool" where
  "dlist h xs \<longleftrightarrow> distinct xs \<and> chain h 0 xs 0"

definition data_at :: "'a dheap \<Rightarrow> nat \<Rightarrow> 'a option" where
  "data_at h x = (case h x of None \<Rightarrow> None | Some c \<Rightarrow> dl_data c)"

abbreviation first_or :: "nat list \<Rightarrow> nat \<Rightarrow> nat" where
  "first_or xs q \<equiv> (case xs of [] \<Rightarrow> q | x # _ \<Rightarrow> x)"

abbreviation last_or :: "nat \<Rightarrow> nat list \<Rightarrow> nat" where
  "last_or p xs \<equiv> (if xs = [] then p else last xs)"

lemma chain_Cons:
  "chain h p (x # xs) q \<longleftrightarrow>
     x \<noteq> 0 \<and> (\<exists>c. h x = Some c \<and> dl_prev c = p \<and> dl_next c = first_or xs q) \<and> chain h x xs q"
  by (cases xs) auto

lemma chain_append:
  "chain h p (xs @ ys) q \<longleftrightarrow> chain h p xs (first_or ys q) \<and> chain h (last_or p xs) ys q"
proof (induction xs arbitrary: p)
  case (Cons x xs)
  then show ?case by (cases xs) (auto simp: chain_Cons)
qed (cases ys; simp)

lemma chain_frame: "\<forall>x \<in> set xs. h' x = h x \<Longrightarrow> chain h' p xs q = chain h p xs q"
  by (induction xs arbitrary: p) (auto simp: chain_Cons)

lemma chain_nonzero: "chain h p xs q \<Longrightarrow> x \<in> set xs \<Longrightarrow> x \<noteq> 0"
  by (induction xs arbitrary: p) (auto simp: chain_Cons)

lemma chain_dom: "chain h p xs q \<Longrightarrow> x \<in> set xs \<Longrightarrow> h x \<noteq> None"
  by (induction xs arbitrary: p) (auto simp: chain_Cons)

lemma chain_update_other:
  "a \<notin> set xs \<Longrightarrow> chain (h(a := v)) p xs q = chain h p xs q"
  by (rule chain_frame) auto

text \<open>The view of a list from one of its cells: what precedes it, the cell, what follows it.\<close>

lemma dlist_at:
  "dlist h (ys @ x # zs) \<longleftrightarrow>
     distinct (ys @ x # zs) \<and> chain h 0 ys x \<and> x \<noteq> 0 \<and>
     (\<exists>c. h x = Some c \<and> dl_prev c = last_or 0 ys \<and> dl_next c = first_or zs 0) \<and> chain h x zs 0"
  by (auto simp: dlist_def chain_append chain_Cons)

lemma chain_snoc:
  "chain h p (xs @ [x]) q \<longleftrightarrow>
     x \<noteq> 0 \<and> chain h p xs x \<and> (\<exists>c. h x = Some c \<and> dl_prev c = last_or p xs \<and> dl_next c = q)"
  by (auto simp: chain_append chain_Cons)

lemma upd_cell_Some [simp]: "h p = Some c \<Longrightarrow> upd_cell p f h = Ok (h(p \<mapsto> f c))"
  by (simp add: upd_cell_def)

lemma data_at_upd:
  "data_at (h(p \<mapsto> c)) x = (if x = p then dl_data c else data_at h x)"
  by (simp add: data_at_def)

section \<open>The operations on the stored list\<close>

lemma insert_after_dlist_refines:
  assumes dl: "dlist h (ys @ x # zs)" and new: "new \<noteq> 0" "h new = None"
  shows "\<exists>h'. insert_after_dlist h x d new = Ok h' \<and> dlist h' (ys @ x # new # zs) \<and>
              data_at h' new = Some d \<and> (\<forall>y. y \<noteq> new \<longrightarrow> data_at h' y = data_at h y)"
proof -
  from dl obtain c where c: "h x = Some c" "dl_prev c = last_or 0 ys" "dl_next c = first_or zs 0"
    and ys: "chain h 0 ys x" and zs: "chain h x zs 0" and x: "x \<noteq> 0"
    and dist: "distinct (ys @ x # zs)" by (auto simp: dlist_at)
  have fresh: "new \<notin> set (ys @ x # zs)"
    using chain_dom [OF ys, of new] chain_dom [OF zs, of new] c new by auto
  show ?thesis
  proof (cases zs)
    case Nil
    then show ?thesis
      using c ys x dist fresh new
      by (auto simp: insert_after_dlist_def create_dlist_def die_unless_def dlist_at [where x=x]
          chain_update_other chain_Cons data_at_upd data_at_def)
  next
    case (Cons z zs')
    with zs obtain e where "h z = Some e" "dl_prev e = x" "dl_next e = first_or zs' 0"
      "chain h z zs' 0" "z \<noteq> 0" by (auto simp: chain_Cons)
    with Cons show ?thesis
      using c ys x dist fresh new
      by (auto simp: insert_after_dlist_def create_dlist_def die_unless_def dlist_at [where x=x]
          chain_update_other chain_Cons data_at_upd data_at_def)
  qed
qed

lemma insert_before_dlist_refines:
  assumes dl: "dlist h (ys @ x # zs)" and new: "new \<noteq> 0" "h new = None"
  shows "\<exists>h'. insert_before_dlist h x d new = Ok h' \<and> dlist h' (ys @ new # x # zs) \<and>
              data_at h' new = Some d \<and> (\<forall>y. y \<noteq> new \<longrightarrow> data_at h' y = data_at h y)"
proof -
  from dl obtain c where c: "h x = Some c" "dl_prev c = last_or 0 ys" "dl_next c = first_or zs 0"
    and ys: "chain h 0 ys x" and zs: "chain h x zs 0" and x: "x \<noteq> 0"
    and dist: "distinct (ys @ x # zs)" by (auto simp: dlist_at)
  have fresh: "new \<notin> set (ys @ x # zs)"
    using chain_dom [OF ys, of new] chain_dom [OF zs, of new] c new by auto
  show ?thesis
  proof (cases ys rule: rev_cases)
    case Nil
    then show ?thesis
      using c zs x dist fresh new
      by (auto simp: insert_before_dlist_def create_dlist_def die_unless_def dlist_def
          chain_update_other chain_Cons data_at_upd data_at_def)
  next
    case (snoc ys' y)
    with ys obtain e where "h y = Some e" "dl_prev e = last_or 0 ys'" "dl_next e = x"
      "chain h 0 ys' y" "y \<noteq> 0" by (auto simp: chain_snoc)
    with snoc show ?thesis
      using c zs x dist fresh new
      by (auto simp: insert_before_dlist_def create_dlist_def die_unless_def dlist_def chain_append
          chain_update_other chain_Cons data_at_upd data_at_def)
  qed
qed

lemma delete_dlist_element_refines:
  assumes dl: "dlist h (ys @ x # zs)"
  shows "\<exists>h'. delete_dlist_element h x = Ok h' \<and> dlist h' (ys @ zs) \<and> h' x = None \<and>
              (\<forall>y. y \<noteq> x \<longrightarrow> data_at h' y = data_at h y)"
proof -
  from dl obtain c where c: "h x = Some c" "dl_prev c = last_or 0 ys" "dl_next c = first_or zs 0"
    and ys: "chain h 0 ys x" and zs: "chain h x zs 0" and x: "x \<noteq> 0"
    and dist: "distinct (ys @ x # zs)" by (auto simp: dlist_at)
  show ?thesis
  proof (cases ys rule: rev_cases)
    case Nil
    show ?thesis
    proof (cases zs)
      case Nil
      with \<open>ys = []\<close> show ?thesis using c x
        by (auto simp: delete_dlist_element_def die_unless_def dlist_def data_at_def)
    next
      case (Cons z zs')
      with zs obtain e where "h z = Some e" "dl_prev e = x" "dl_next e = first_or zs' 0"
        "chain h z zs' 0" "z \<noteq> 0" by (auto simp: chain_Cons)
      with Cons \<open>ys = []\<close> show ?thesis using c x dist
        by (auto simp: delete_dlist_element_def die_unless_def dlist_def chain_Cons
            chain_update_other data_at_def)
    qed
  next
    case (snoc ys' y)
    with ys obtain f where f: "h y = Some f" "dl_prev f = last_or 0 ys'" "dl_next f = x"
      "chain h 0 ys' y" "y \<noteq> 0" by (auto simp: chain_snoc)
    show ?thesis
    proof (cases zs)
      case Nil
      with snoc f show ?thesis using c x dist
        by (auto simp: delete_dlist_element_def die_unless_def dlist_def chain_snoc
            chain_update_other data_at_def)
    next
      case (Cons z zs')
      with zs obtain e where "h z = Some e" "dl_prev e = x" "dl_next e = first_or zs' 0"
        "chain h z zs' 0" "z \<noteq> 0" by (auto simp: chain_Cons)
      with Cons snoc f show ?thesis using c x dist
        by (auto simp: delete_dlist_element_def die_unless_def dlist_def chain_append chain_Cons
            chain_update_other data_at_def)
    qed
  qed
qed

lemma walk_next_last:
  "chain h p (x # xs) 0 \<Longrightarrow> length xs < fuel \<Longrightarrow> walk_next fuel h x = Ok (last (x # xs))"
proof (induction xs arbitrary: p x fuel)
  case Nil
  then show ?case by (cases fuel) auto
next
  case (Cons y xs)
  then obtain f where f: "fuel = Suc f" "length xs < f" by (cases fuel) auto
  from Cons.prems have "chain h x (y # xs) 0" "y \<noteq> 0" by (auto simp: chain_Cons)
  with Cons.IH [of x y f] f Cons.prems show ?case by (auto simp: chain_Cons)
qed

lemma walk_prev_first:
  "chain h 0 (xs @ [x]) q \<Longrightarrow> length xs < fuel \<Longrightarrow> walk_prev fuel h x = Ok (hd (xs @ [x]))"
proof (induction xs arbitrary: q x fuel rule: rev_induct)
  case Nil
  then show ?case by (cases fuel) auto
next
  case (snoc y xs)
  then obtain f where f: "fuel = Suc f" "length xs < f" by (cases fuel) auto
  from snoc.prems obtain c where c: "h x = Some c" "dl_prev c = y" and ch: "chain h 0 (xs @ [y]) x"
    unfolding chain_snoc [of h 0 "xs @ [y]"] by auto
  then have "y \<noteq> 0" by (simp add: chain_snoc)
  with snoc.IH [OF ch f(2)] f c show ?case by (simp add: hd_append)
qed

lemma get_last_element_eq:
  assumes "dlist h (ys @ x # zs)" "length zs < fuel"
  shows "get_last_element fuel h x = Ok (last (x # zs))"
  using assms walk_next_last [of h _ x zs fuel]
  by (auto simp: dlist_def chain_append get_last_element_def die_unless_def dest: chain_nonzero)

lemma get_first_element_eq:
  assumes "dlist h (ys @ x # zs)" "length ys < fuel"
  shows "get_first_element fuel h x = Ok (hd (ys @ [x]))"
proof -
  from assms have "chain h 0 (ys @ [x]) (first_or zs 0)" "x \<noteq> 0"
    by (auto simp: dlist_at chain_snoc)
  then show ?thesis using walk_prev_first assms(2)
    by (simp add: get_first_element_def die_unless_def)
qed

lemma find_next_eq:
  "chain h p xs 0 \<Longrightarrow> length xs < fuel \<Longrightarrow>
   find_next fuel h (first_or xs 0) d =
     Ok (case find (\<lambda>a. data_at h a = d) xs of None \<Rightarrow> 0 | Some a \<Rightarrow> a)"
proof (induction xs arbitrary: p fuel)
  case Nil
  then show ?case by (cases fuel) auto
next
  case (Cons x xs)
  then obtain f where f: "fuel = Suc f" "length xs < f" by (cases fuel) auto
  with Cons.prems obtain c where "h x = Some c" "dl_next c = first_or xs 0" "chain h x xs 0" "x \<noteq> 0"
    by (auto simp: chain_Cons)
  with Cons.IH [of x f] f show ?case by (simp add: data_at_def)
qed

lemma find_prev_eq:
  "chain h 0 xs q \<Longrightarrow> length xs < fuel \<Longrightarrow>
   find_prev fuel h (last_or 0 xs) d =
     Ok (case find (\<lambda>a. data_at h a = d) (rev xs) of None \<Rightarrow> 0 | Some a \<Rightarrow> a)"
proof (induction xs arbitrary: q fuel rule: rev_induct)
  case Nil
  then show ?case by (cases fuel) auto
next
  case (snoc x xs)
  then obtain f where f: "fuel = Suc f" "length xs < f" by (cases fuel) auto
  with snoc.prems obtain c where "h x = Some c" "dl_prev c = last_or 0 xs" "chain h 0 xs x" "x \<noteq> 0"
    by (auto simp: chain_snoc)
  with snoc.IH [of x f] f show ?case by (auto simp: data_at_def)
qed

lemma free_all_frees:
  "chain h p xs 0 \<Longrightarrow> distinct xs \<Longrightarrow> length xs < fuel \<Longrightarrow>
   free_all fuel h (first_or xs 0) = Ok (\<lambda>a. if a \<in> set xs then None else h a)"
proof (induction xs arbitrary: p h fuel)
  case Nil
  then show ?case by (cases fuel) auto
next
  case (Cons x xs)
  then obtain f where f: "fuel = Suc f" "length xs < f" by (cases fuel) auto
  with Cons.prems obtain c where c: "h x = Some c" "dl_next c = first_or xs 0"
    "chain h x xs 0" "x \<noteq> 0" "x \<notin> set xs"
    by (auto simp: chain_Cons)
  then have "chain (h(x := None)) x xs 0" by (simp add: chain_update_other)
  from Cons.IH [OF this _ f(2)] Cons.prems have
    "free_all f (h(x := None)) (first_or xs 0) = Ok (\<lambda>a. if a \<in> set xs then None else (h(x := None)) a)"
    by (simp only: distinct.simps)
  moreover have "(\<lambda>a. if a \<in> set xs then None else (h(x := None)) a)
      = (\<lambda>a. if a \<in> set (x # xs) then None else h a)" by auto
  ultimately show ?case using f c by simp
qed

text \<open>
  A search that starts anywhere in the list looks at the cell itself, then at the ones after it in
  order, then at the ones before it in reverse order, so it finds a cell exactly when one exists.
\<close>

lemma find_element_eq:
  assumes dl: "dlist h (ys @ x # zs)" and fuel: "length (ys @ x # zs) < fuel"
  shows "find_element fuel h x d =
     Ok (case find (\<lambda>a. data_at h a = d) (x # zs @ rev ys) of None \<Rightarrow> 0 | Some a \<Rightarrow> a)"
proof -
  from dl obtain c where c: "h x = Some c" "dl_prev c = last_or 0 ys"
    and ys: "chain h 0 ys x" and x: "x \<noteq> 0" and zs: "chain h (last_or 0 ys) (x # zs) 0"
    by (auto simp: dlist_at chain_Cons)
  have n: "find_next fuel h x d = Ok (case find (\<lambda>a. data_at h a = d) (x # zs) of None \<Rightarrow> 0 | Some a \<Rightarrow> a)"
    using find_next_eq [OF zs, of fuel d] fuel by simp
  have p: "find_prev fuel h (last_or 0 ys) d =
      Ok (case find (\<lambda>a. data_at h a = d) (rev ys) of None \<Rightarrow> 0 | Some a \<Rightarrow> a)"
    using find_prev_eq [OF ys, of fuel d] fuel by simp
  have app: "find P (as @ bs) = (case find P as of None \<Rightarrow> find P bs | Some a \<Rightarrow> Some a)"
    for P and as bs :: "nat list" by (induction as) auto
  have nz: "a \<noteq> 0" if "find (\<lambda>a. data_at h a = d) (x # zs) = Some a" for a
  proof -
    from that have "a \<in> set (x # zs)" unfolding find_Some_iff by (metis nth_mem)
    with zs show ?thesis by (rule chain_nonzero)
  qed
  show ?thesis
  proof (cases "find (\<lambda>a. data_at h a = d) (x # zs)")
    case None
    then have "find (\<lambda>a. data_at h a = d) (x # zs @ rev ys) = find (\<lambda>a. data_at h a = d) (rev ys)"
      using app [of "\<lambda>a. data_at h a = d" "x # zs" "rev ys"] by (simp split: if_splits)
    with None n p c x show ?thesis by (simp only: find_element_def die_unless_def) simp
  next
    case (Some a)
    then have "find (\<lambda>a. data_at h a = d) (x # zs @ rev ys) = Some a"
      using app [of "\<lambda>a. data_at h a = d" "x # zs" "rev ys"] by (simp split: if_splits)
    with Some n nz x show ?thesis by (simp only: find_element_def die_unless_def) simp
  qed
qed

lemma delete_dlist_frees:
  assumes dl: "dlist h (ys @ x # zs)" and fuel: "length (ys @ x # zs) < fuel"
  shows "delete_dlist fuel h x = Ok (\<lambda>a. if a \<in> set (ys @ x # zs) then None else h a)"
proof -
  from dl have ch: "chain h 0 (ys @ [x]) (first_or zs 0)" and "x \<noteq> 0"
    by (auto simp: dlist_at chain_snoc)
  from ch have "walk_prev fuel h x = Ok (hd (ys @ [x]))"
    by (rule walk_prev_first) (use fuel in simp)
  moreover have "hd (ys @ [x]) = first_or (ys @ x # zs) 0" by (cases ys) auto
  moreover have "free_all fuel h (first_or (ys @ x # zs) 0)
      = Ok (\<lambda>a. if a \<in> set (ys @ x # zs) then None else h a)"
    using dl fuel by (intro free_all_frees) (auto simp: dlist_def)
  ultimately show ?thesis using \<open>x \<noteq> 0\<close> by (simp add: delete_dlist_def die_unless_def)
qed

end
