(* ===== verification/Hash_Table.thy ===== *)
theory Hash_Table
  imports Utility Doubly_Linked_List
begin

text \<open>
  The chained hash table of \<open>src/lib/hash_table.c\<close>.  A bucket is a doubly linked list behind a
  sentinel, and a second such list holds the indices of the buckets that exist; both are modelled
  by the list of what is stored after the sentinel (\<open>Doubly_Linked_List\<close> shows that the pointer
  operations used here, insertion after a cell and deletion of a cell, are \<open>Cons\<close> at the sentinel
  and removal from that list).  A \<open>NULL\<close> result is \<open>None\<close>.

  The locale \<open>hash_keys\<close> is what the table expects of the two functions it is created with; inside
  it, the table is shown to implement a finite map.
\<close>

section \<open>The table\<close>

record ('k, 'v) hash_table =
  number_of_buckets :: "32 word"
  ht_compare :: "'k \<Rightarrow> 'k \<Rightarrow> bool"
  ht_hash :: "'k \<Rightarrow> 32 word"
  ht_length :: "32 word"
  buckets :: "32 word \<rightharpoonup> ('k \<times> 'v) list"
  nonempty_bucket_index :: "32 word list"

definition default_hash_size :: "32 word" where
  "default_hash_size = 65521"

definition create_hash_with_size ::
  "('k \<Rightarrow> 'k \<Rightarrow> bool) \<Rightarrow> ('k \<Rightarrow> 32 word) \<Rightarrow> 32 word \<Rightarrow> ('k, 'v) hash_table" where
  "create_hash_with_size compare hash n =
     \<lparr>number_of_buckets = n, ht_compare = compare, ht_hash = hash, ht_length = 0,
      buckets = (\<lambda>_. None), nonempty_bucket_index = []\<rparr>"

definition create_hash :: "('k \<Rightarrow> 'k \<Rightarrow> bool) \<Rightarrow> ('k \<Rightarrow> 32 word) \<Rightarrow> ('k, 'v) hash_table" where
  "create_hash compare hash = create_hash_with_size compare hash default_hash_size"

definition get_bucket_index :: "('k, 'v) hash_table \<Rightarrow> 'k \<Rightarrow> 32 word" where
  "get_bucket_index t key = ht_hash t key mod number_of_buckets t"

definition new_bucket :: "('k, 'v) hash_table \<Rightarrow> 32 word \<Rightarrow> ('k, 'v) hash_table" where
  "new_bucket t i =
     t\<lparr>buckets := (buckets t)(i \<mapsto> []), nonempty_bucket_index := i # nonempty_bucket_index t\<rparr>"

definition delete_bucket :: "('k, 'v) hash_table \<Rightarrow> 32 word \<Rightarrow> ('k, 'v) hash_table" where
  "delete_bucket t i =
     t\<lparr>nonempty_bucket_index := remove1 i (nonempty_bucket_index t), buckets := (buckets t)(i := None)\<rparr>"

fun find_entry :: "('k \<Rightarrow> 'k \<Rightarrow> bool) \<Rightarrow> 'k \<Rightarrow> ('k \<times> 'v) list \<Rightarrow> 'v option" where
  "find_entry compare key [] = None"
| "find_entry compare key ((k, v) # es) = (if compare key k then Some v else find_entry compare key es)"

fun unlink_entry :: "('k \<Rightarrow> 'k \<Rightarrow> bool) \<Rightarrow> 'k \<Rightarrow> ('k \<times> 'v) list \<Rightarrow> ('k \<times> 'v) list" where
  "unlink_entry compare key [] = []"
| "unlink_entry compare key ((k, v) # es) =
     (if compare key k then es else (k, v) # unlink_entry compare key es)"

definition lookup_hash_entry :: "('k, 'v) hash_table \<Rightarrow> 'k \<Rightarrow> 'v option" where
  "lookup_hash_entry t key =
     (case buckets t (get_bucket_index t key) of
        None \<Rightarrow> None
      | Some es \<Rightarrow> find_entry (ht_compare t) key es)"

definition delete_hash_entry :: "('k, 'v) hash_table \<Rightarrow> 'k \<Rightarrow> ('k, 'v) hash_table \<times> 'v option" where
  "delete_hash_entry t key =
     (let i = get_bucket_index t key in
      case buckets t i of
        None \<Rightarrow> (t, None)
      | Some es \<Rightarrow>
          let deleted = find_entry (ht_compare t) key es;
              es' = unlink_entry (ht_compare t) key es;
              t' = t\<lparr>buckets := (buckets t)(i \<mapsto> es'),
                     ht_length := (if deleted \<noteq> None then ht_length t - 1 else ht_length t)\<rparr>
          in (if es' = [] then delete_bucket t' i else t', deleted))"

definition insert_hash_entry ::
  "('k, 'v) hash_table \<Rightarrow> 'k \<Rightarrow> 'v \<Rightarrow> ('k, 'v) hash_table \<times> 'v option" where
  "insert_hash_entry t key value =
     (let i = get_bucket_index t key;
          old_value = (case buckets t i of None \<Rightarrow> None
                       | Some es \<Rightarrow> find_entry (ht_compare t) key es);
          t1 = (if old_value \<noteq> None then fst (delete_hash_entry t key) else t);
          t2 = (if buckets t1 i = None then new_bucket t1 i else t1)
      in (t2\<lparr>buckets := (buckets t2)(i \<mapsto> (key, value) # the (buckets t2 i)),
             ht_length := ht_length t2 + 1\<rparr>, old_value))"

definition foreach_hash :: "('k, 'v) hash_table \<Rightarrow> ('k \<Rightarrow> 'v \<Rightarrow> 's \<Rightarrow> 's) \<Rightarrow> 's \<Rightarrow> 's" where
  "foreach_hash t f user_data =
     foldl (\<lambda>s i. case buckets t i of
                    None \<Rightarrow> s
                  | Some es \<Rightarrow> foldl (\<lambda>s (k, v). f k v s) s es) user_data (nonempty_bucket_index t)"

text \<open>
  The iterator: the index it stands at, the rest of the index list, and the rest of the bucket.
\<close>

record ('k, 'v) hash_iterator =
  it_buckets :: "32 word \<rightharpoonup> ('k \<times> 'v) list"
  it_bucket_index :: "32 word option"
  it_next_bucket_index :: "32 word list"
  it_element :: "('k \<times> 'v) list"

definition init_hash_iterator ::
  "('k, 'v) hash_table \<Rightarrow> ('k, 'v) hash_iterator \<Rightarrow> ('k, 'v) hash_iterator res" where
  "init_hash_iterator t it =
     (case nonempty_bucket_index t of
        [] \<Rightarrow> Ok (it\<lparr>it_buckets := buckets t, it_bucket_index := None, it_element := []\<rparr>)
      | i # is \<Rightarrow>
          assert_then (buckets t i \<noteq> None)
            (Ok \<lparr>it_buckets = buckets t, it_bucket_index = Some i, it_next_bucket_index = is,
                 it_element = the (buckets t i)\<rparr>))"

function iterate_hash_next ::
  "('k, 'v) hash_iterator \<Rightarrow> (('k \<times> 'v) option \<times> ('k, 'v) hash_iterator) res" where
  "iterate_hash_next it =
     (if it_bucket_index it = None then Ok (None, it)
      else case it_element it of
        [] \<Rightarrow>
          (case it_next_bucket_index it of
             [] \<Rightarrow> Ok (None, it)
           | i # is \<Rightarrow>
               assert_then (it_buckets it i \<noteq> None)
                 (iterate_hash_next (it\<lparr>it_bucket_index := Some i, it_next_bucket_index := is,
                                       it_element := the (it_buckets it i)\<rparr>)))
      | e # es \<Rightarrow> Ok (Some e, it\<lparr>it_element := es\<rparr>))"
  by pat_completeness auto
termination by (relation "measure (\<lambda>it. length (it_next_bucket_index it))") auto

declare iterate_hash_next.simps [simp del]

text \<open>What \<open>delete_hash\<close> leaves of the table before its memory goes: every bucket is deleted.\<close>

definition delete_hash :: "('k, 'v) hash_table \<Rightarrow> ('k, 'v) hash_table" where
  "delete_hash t =
     foldl (\<lambda>t i. if buckets t i = None then t else delete_bucket t i) t (nonempty_bucket_index t)"

section \<open>What a bucket holds\<close>

definition bucket_of :: "('k, 'v) hash_table \<Rightarrow> 32 word \<Rightarrow> ('k \<times> 'v) list" where
  "bucket_of t i = (case buckets t i of None \<Rightarrow> [] | Some es \<Rightarrow> es)"

definition hash_entries :: "('k, 'v) hash_table \<Rightarrow> ('k \<times> 'v) list" where
  "hash_entries t = concat (map (bucket_of t) (nonempty_bucket_index t))"

fun keys_apart :: "('k \<Rightarrow> 'k \<Rightarrow> bool) \<Rightarrow> ('k \<times> 'v) list \<Rightarrow> bool" where
  "keys_apart compare [] \<longleftrightarrow> True"
| "keys_apart compare ((k, v) # es) \<longleftrightarrow> find_entry compare k es = None \<and> keys_apart compare es"

definition bucket_sum :: "(32 word \<rightharpoonup> ('k \<times> 'v) list) \<Rightarrow> nat" where
  "bucket_sum b = (\<Sum>i \<in> dom b. length (the (b i)))"

text \<open>
  The invariant: the index list names exactly the buckets that exist, no bucket is empty, every key
  is in the bucket its hash selects, no two keys of a bucket compare equal, and \<open>length\<close> counts the
  entries (modulo \<open>2 ^ 32\<close>, the width of the field).
\<close>

definition hash_inv ::
  "('k \<Rightarrow> 'k \<Rightarrow> bool) \<Rightarrow> ('k \<Rightarrow> 32 word) \<Rightarrow> ('k \<Rightarrow> bool) \<Rightarrow> ('k, 'v) hash_table \<Rightarrow> bool" where
  "hash_inv compare hash valid t \<longleftrightarrow>
     ht_compare t = compare \<and> ht_hash t = hash \<and> number_of_buckets t \<noteq> 0 \<and>
     distinct (nonempty_bucket_index t) \<and> set (nonempty_bucket_index t) = dom (buckets t) \<and>
     (\<forall>i es. buckets t i = Some es \<longrightarrow>
        es \<noteq> [] \<and> (\<forall>e \<in> set es. valid (fst e) \<and> get_bucket_index t (fst e) = i) \<and> keys_apart compare es) \<and>
     ht_length t = of_nat (bucket_sum (buckets t))"

lemma lookup_hash_entry_eq:
  "lookup_hash_entry t key = find_entry (ht_compare t) key (bucket_of t (get_bucket_index t key))"
  by (simp add: lookup_hash_entry_def bucket_of_def split: option.split)

lemma unlink_absent: "find_entry compare key es = None \<Longrightarrow> unlink_entry compare key es = es"
  by (induction es) (auto split: if_splits)

lemma set_unlink: "set (unlink_entry compare key es) \<subseteq> set es"
  by (induction es) (auto split: if_splits)

lemma unlink_all: "\<forall>e \<in> set es. P e \<Longrightarrow> \<forall>e \<in> set (unlink_entry compare key es). P e"
  using set_unlink by fast

lemma length_unlink:
  "length (unlink_entry compare key es) + (if find_entry compare key es = None then 0 else 1) = length es"
  by (induction es) auto

lemma find_entry_None: "find_entry compare key es = None \<longleftrightarrow> (\<forall>e \<in> set es. \<not> compare key (fst e))"
  by (induction es) (auto split: if_splits)

lemma find_entry_Some_in:
  "find_entry compare key es = Some v \<Longrightarrow> \<exists>k. (k, v) \<in> set es \<and> compare key k"
  by (induction es) (auto split: if_splits)

lemma keys_apart_unlink: "keys_apart compare es \<Longrightarrow> keys_apart compare (unlink_entry compare key es)"
proof (induction es)
  case (Cons e es)
  then show ?case using set_unlink [of compare key es]
    by (cases e) (auto simp: find_entry_None)
qed simp

lemma keys_apart_append:
  "keys_apart compare (xs @ ys) \<longleftrightarrow> keys_apart compare xs \<and> keys_apart compare ys \<and>
     (\<forall>x \<in> set xs. \<forall>y \<in> set ys. \<not> compare (fst x) (fst y))"
proof (induction xs)
  case (Cons x xs)
  then show ?case by (cases x) (simp add: find_entry_None ball_Un, blast)
qed simp

lemma keys_apart_distinct: "keys_apart compare es \<Longrightarrow> (\<And>k. compare k k) \<Longrightarrow> distinct (map fst es)"
  by (induction compare es rule: keys_apart.induct) (auto simp: find_entry_None)

lemma bucket_sum_update:
  assumes "finite (dom b)"
  shows "bucket_sum (b(i := x)) + (case b i of None \<Rightarrow> 0 | Some es \<Rightarrow> length es) =
         bucket_sum b + (case x of None \<Rightarrow> 0 | Some es \<Rightarrow> length es)"
proof -
  have rest: "(\<Sum>j \<in> dom b - {i}. length (the ((b(i := x)) j))) = (\<Sum>j \<in> dom b - {i}. length (the (b j)))"
    by (rule sum.cong) auto
  have old: "bucket_sum b = (case b i of None \<Rightarrow> 0 | Some es \<Rightarrow> length es)
      + (\<Sum>j \<in> dom b - {i}. length (the (b j)))"
  proof (cases "b i")
    case (Some es)
    then show ?thesis using sum.remove [OF assms, of i "\<lambda>j. length (the (b j))"]
      by (simp add: bucket_sum_def domIff)
  qed (simp add: bucket_sum_def domIff)
  have new: "bucket_sum (b(i := x)) = (case x of None \<Rightarrow> 0 | Some es \<Rightarrow> length es)
      + (\<Sum>j \<in> dom b - {i}. length (the ((b(i := x)) j)))"
    using assms by (cases x) (auto simp: bucket_sum_def sum.insert_remove)
  show ?thesis using old new rest by simp
qed

lemma insert_hash_entry_fields:
  fixes t :: "('k, 'v) hash_table" and key :: 'k
  defines "i \<equiv> get_bucket_index t key"
  defines "es \<equiv> unlink_entry (ht_compare t) key (bucket_of t i)"
  shows "buckets (fst (insert_hash_entry t key v)) = (buckets t)(i \<mapsto> (key, v) # es)"
    and "number_of_buckets (fst (insert_hash_entry t key v)) = number_of_buckets t"
    and "ht_compare (fst (insert_hash_entry t key v)) = ht_compare t"
    and "ht_hash (fst (insert_hash_entry t key v)) = ht_hash t"
    and "snd (insert_hash_entry t key v) = lookup_hash_entry t key"
  by (auto simp: insert_hash_entry_def delete_hash_entry_def delete_bucket_def new_bucket_def i_def
      es_def Let_def lookup_hash_entry_eq bucket_of_def get_bucket_index_def unlink_absent
      split: option.split)

lemma delete_hash_entry_fields:
  fixes t :: "('k, 'v) hash_table" and key :: 'k
  defines "i \<equiv> get_bucket_index t key"
  defines "es \<equiv> unlink_entry (ht_compare t) key (bucket_of t i)"
  shows "buckets (fst (delete_hash_entry t key)) =
           (buckets t)(i := if es = [] then None else Some es)"
    and "number_of_buckets (fst (delete_hash_entry t key)) = number_of_buckets t"
    and "ht_compare (fst (delete_hash_entry t key)) = ht_compare t"
    and "ht_hash (fst (delete_hash_entry t key)) = ht_hash t"
    and "snd (delete_hash_entry t key) = lookup_hash_entry t key"
  by (auto simp: delete_hash_entry_def delete_bucket_def i_def es_def Let_def lookup_hash_entry_eq
      bucket_of_def split: option.split)

section \<open>Walks over the table\<close>

lemma foreach_hash_eq:
  "foreach_hash t f s = foldl (\<lambda>s (k, v). f k v s) s (hash_entries t)"
proof -
  have "foldl (\<lambda>s i. case buckets t i of None \<Rightarrow> s | Some es \<Rightarrow> foldl (\<lambda>s (k, v). f k v s) s es) s is =
      foldl (\<lambda>s (k, v). f k v s) s (concat (map (bucket_of t) is))" for "is"
    by (induction "is" arbitrary: s) (auto simp: bucket_of_def split: option.split)
  then show ?thesis by (simp add: foreach_hash_def hash_entries_def)
qed

definition it_remaining :: "('k, 'v) hash_iterator \<Rightarrow> ('k \<times> 'v) list" where
  "it_remaining it = (if it_bucket_index it = None then []
     else it_element it @ concat (map (\<lambda>i. the (it_buckets it i)) (it_next_bucket_index it)))"

definition it_ok :: "('k, 'v) hash_iterator \<Rightarrow> bool" where
  "it_ok it \<longleftrightarrow> (it_bucket_index it \<noteq> None \<longrightarrow> set (it_next_bucket_index it) \<subseteq> dom (it_buckets it))"

lemma iterate_hash_next_eq:
  assumes "it_ok it"
  shows "\<exists>it'. it_ok it' \<and> it_remaining it' = tl (it_remaining it) \<and>
     iterate_hash_next it = Ok (case it_remaining it of [] \<Rightarrow> None | e # _ \<Rightarrow> Some e, it')"
  using assms
proof (induction it rule: iterate_hash_next.induct)
  case (1 it)
  show ?case
  proof (cases "it_bucket_index it = None")
    case True
    then show ?thesis using 1(2) by (auto simp: it_remaining_def iterate_hash_next.simps [of it])
  next
    case bi: False
    show ?thesis
    proof (cases "it_element it")
      case el: Nil
      show ?thesis
      proof (cases "it_next_bucket_index it")
        case Nil
        then show ?thesis using bi el 1(2)
          by (auto simp: it_remaining_def iterate_hash_next.simps [of it])
      next
        case (Cons i "is")
        let ?it = "it\<lparr>it_bucket_index := Some i, it_next_bucket_index := is,
                      it_element := the (it_buckets it i)\<rparr>"
        have i: "it_buckets it i \<noteq> None" and ok: "it_ok ?it"
          using 1(2) bi Cons by (auto simp: it_ok_def)
        have "it_remaining ?it = it_remaining it"
          using bi el Cons by (auto simp: it_remaining_def)
        moreover have "iterate_hash_next it = iterate_hash_next ?it"
          using bi el Cons i by (auto simp: iterate_hash_next.simps [of it] assert_then_def)
        ultimately show ?thesis using 1(1) [OF bi el Cons ok] by simp
      qed
    next
      case (Cons e es)
      then show ?thesis using bi 1(2)
        by (auto simp: it_remaining_def it_ok_def iterate_hash_next.simps [of it])
    qed
  qed
qed

text \<open>The loop every client writes: call \<open>iterate_hash_next\<close> until it returns \<open>NULL\<close>.\<close>

fun iterate_all :: "nat \<Rightarrow> ('k, 'v) hash_iterator \<Rightarrow> ('k \<times> 'v) list res" where
  "iterate_all 0 it = Fault No_return"
| "iterate_all (Suc fuel) it =
     bnd (iterate_hash_next it) (\<lambda>(e, it').
       case e of None \<Rightarrow> Ok [] | Some e \<Rightarrow> bnd (iterate_all fuel it') (\<lambda>es. Ok (e # es)))"

lemma iterate_all_remaining:
  "it_ok it \<Longrightarrow> length (it_remaining it) < fuel \<Longrightarrow> iterate_all fuel it = Ok (it_remaining it)"
proof (induction fuel arbitrary: it)
  case (Suc fuel)
  obtain it' where it': "it_ok it'" "it_remaining it' = tl (it_remaining it)"
    "iterate_hash_next it = Ok (case it_remaining it of [] \<Rightarrow> None | e # _ \<Rightarrow> Some e, it')"
    using iterate_hash_next_eq [OF Suc.prems(1)] by blast
  show ?case
  proof (cases "it_remaining it")
    case Nil
    with it' show ?thesis by simp
  next
    case (Cons e es)
    with it' Suc.IH [of it'] Suc.prems show ?thesis by simp
  qed
qed simp

lemma delete_hash_empties:
  assumes "set (nonempty_bucket_index t) = dom (buckets t)" and "distinct (nonempty_bucket_index t)"
  shows "buckets (delete_hash t) = (\<lambda>_. None)" and "nonempty_bucket_index (delete_hash t) = []"
proof -
  define f where "f = (\<lambda>(t :: ('a, 'b) hash_table) i. if buckets t i = None then t else delete_bucket t i)"
  have step: "buckets (foldl f t is) = (\<lambda>_. None) \<and> nonempty_bucket_index (foldl f t is) = []"
    if "set is = dom (buckets t)" "distinct is" "nonempty_bucket_index t = is" for t "is"
    using that
  proof (induction "is" arbitrary: t)
    case Nil
    then have "dom (buckets t) = {}" by simp
    with Nil show ?case by (simp add: dom_eq_empty_conv)
  next
    case (Cons i "is")
    from Cons.prems have i: "buckets t i \<noteq> None" by auto
    then have "f t i = delete_bucket t i" by (auto simp: f_def)
    moreover have "set is = dom (buckets (delete_bucket t i))"
      using Cons.prems by (auto simp: delete_bucket_def domIff)
    moreover have "nonempty_bucket_index (delete_bucket t i) = is"
      using Cons.prems by (simp add: delete_bucket_def)
    ultimately show ?case using Cons.IH [of "delete_bucket t i"] Cons.prems by simp
  qed
  show "buckets (delete_hash t) = (\<lambda>_. None)" "nonempty_bucket_index (delete_hash t) = []"
    using step [of "nonempty_bucket_index t" t] assms by (simp_all add: delete_hash_def f_def)
qed

section \<open>Sequences of operations and the map they denote\<close>

datatype ('k, 'v) hash_op = Insert_entry 'k 'v | Delete_entry 'k

fun op_key :: "('k, 'v) hash_op \<Rightarrow> 'k" where
  "op_key (Insert_entry k v) = k"
| "op_key (Delete_entry k) = k"

fun run_hash_op :: "('k, 'v) hash_table \<Rightarrow> ('k, 'v) hash_op \<Rightarrow> ('k, 'v) hash_table" where
  "run_hash_op t (Insert_entry k v) = fst (insert_hash_entry t k v)"
| "run_hash_op t (Delete_entry k) = fst (delete_hash_entry t k)"

fun map_hash_op :: "('k \<Rightarrow> 'k \<Rightarrow> bool) \<Rightarrow> ('k \<rightharpoonup> 'v) \<Rightarrow> ('k, 'v) hash_op \<Rightarrow> ('k \<rightharpoonup> 'v)" where
  "map_hash_op compare m (Insert_entry k v) = (\<lambda>k'. if compare k' k then Some v else m k')"
| "map_hash_op compare m (Delete_entry k) = (\<lambda>k'. if compare k' k then None else m k')"

section \<open>The table as a map\<close>

text \<open>
  What the table expects of \<open>compare\<close> and \<open>hash\<close>: on the keys that are ever stored, \<open>compare\<close> is an
  equivalence, a key equal to a stored one is itself admissible, and equal keys have equal hashes.
\<close>

locale hash_keys =
  fixes compare :: "'k \<Rightarrow> 'k \<Rightarrow> bool"
    and hash :: "'k \<Rightarrow> 32 word"
    and valid :: "'k \<Rightarrow> bool"
  assumes compare_refl: "valid k \<Longrightarrow> compare k k"
    and compare_sym: "valid k \<Longrightarrow> compare k' k \<Longrightarrow> compare k k'"
    and compare_trans: "valid b \<Longrightarrow> compare a b \<Longrightarrow> compare b c \<Longrightarrow> compare a c"
    and compare_valid: "valid k \<Longrightarrow> compare k' k \<Longrightarrow> valid k'"
    and compare_hash: "valid k \<Longrightarrow> compare k' k \<Longrightarrow> hash k' = hash k"
begin

lemma find_cong:
  assumes "valid a" and "compare b a" and "\<forall>e \<in> set es. valid (fst e)"
  shows "find_entry compare b es = find_entry compare a es"
  using assms(3)
proof (induction es)
  case (Cons e es)
  have "compare b (fst e) \<longleftrightarrow> compare a (fst e)"
    using assms(1,2) Cons.prems compare_sym compare_trans compare_valid
    by (metis list.set_intros(1))
  with Cons show ?case by (cases e) simp
qed simp

lemma find_unlink:
  assumes "keys_apart compare es" and "\<forall>e \<in> set es. valid (fst e)" and "valid k"
  shows "find_entry compare k' (unlink_entry compare k es) =
           (if compare k' k then None else find_entry compare k' es)"
  using assms(1,2)
proof (induction es)
  case (Cons e es)
  obtain a v where e: "e = (a, v)" by (cases e)
  have a: "valid a" using Cons.prems e by simp
  show ?case
  proof (cases "compare k a")
    case True
    have "compare k' a \<longleftrightarrow> compare k' k"
      using True a assms(3) compare_sym compare_trans by metis
    moreover have "find_entry compare k' es = None" if "compare k' a"
      using find_cong [OF a that, of es] Cons.prems e by simp
    ultimately show ?thesis using True e by simp
  next
    case False
    have "\<not> (compare k' a \<and> compare k' k)"
      using False a assms(3) compare_sym compare_trans compare_valid by metis
    with Cons e False show ?thesis by auto
  qed
qed simp

abbreviation tbl :: "('k, 'v) hash_table \<Rightarrow> bool" where
  "tbl \<equiv> hash_inv compare hash valid"

lemma tbl_bucket:
  assumes "tbl t"
  shows "keys_apart compare (bucket_of t i)"
    and "\<forall>e \<in> set (bucket_of t i). valid (fst e) \<and> get_bucket_index t (fst e) = i"
  using assms by (cases "buckets t i"; auto simp: hash_inv_def bucket_of_def)+

lemma tbl_finite: "tbl t \<Longrightarrow> finite (dom (buckets t))"
  unfolding hash_inv_def by (metis List.finite_set)

lemma compare_index: "tbl t \<Longrightarrow> valid k \<Longrightarrow> compare k' k \<Longrightarrow> get_bucket_index t k' = get_bucket_index t k"
  by (simp add: get_bucket_index_def hash_inv_def compare_hash)

lemma lookup_insert:
  assumes t: "tbl t" and k: "valid k"
  shows "lookup_hash_entry (fst (insert_hash_entry t k v)) k' =
           (if compare k' k then Some v else lookup_hash_entry t k')"
proof -
  let ?i = "get_bucket_index t k" and ?j = "get_bucket_index t k'"
  let ?es = "unlink_entry compare k (bucket_of t ?i)"
  have cmp: "ht_compare t = compare" using t by (simp add: hash_inv_def)
  have idx: "get_bucket_index (fst (insert_hash_entry t k v)) k' = ?j"
    by (simp add: get_bucket_index_def insert_hash_entry_fields)
  have "bucket_of (fst (insert_hash_entry t k v)) ?j = (if ?j = ?i then (k, v) # ?es else bucket_of t ?j)"
    by (simp add: bucket_of_def insert_hash_entry_fields cmp)
  moreover have "find_entry compare k' ?es =
      (if compare k' k then None else find_entry compare k' (bucket_of t ?i))"
    using tbl_bucket [OF t] k by (intro find_unlink) auto
  ultimately show ?thesis
    using compare_index [OF t k, of k']
    by (auto simp: lookup_hash_entry_eq idx insert_hash_entry_fields cmp)
qed

lemma lookup_delete:
  assumes t: "tbl t" and k: "valid k"
  shows "lookup_hash_entry (fst (delete_hash_entry t k)) k' =
           (if compare k' k then None else lookup_hash_entry t k')"
proof -
  let ?i = "get_bucket_index t k" and ?j = "get_bucket_index t k'"
  let ?es = "unlink_entry compare k (bucket_of t ?i)"
  have cmp: "ht_compare t = compare" using t by (simp add: hash_inv_def)
  have idx: "get_bucket_index (fst (delete_hash_entry t k)) k' = ?j"
    by (simp add: get_bucket_index_def delete_hash_entry_fields)
  have "bucket_of (fst (delete_hash_entry t k)) ?j = (if ?j = ?i then ?es else bucket_of t ?j)"
    by (simp add: bucket_of_def delete_hash_entry_fields cmp)
  moreover have "find_entry compare k' ?es =
      (if compare k' k then None else find_entry compare k' (bucket_of t ?i))"
    using tbl_bucket [OF t] k by (intro find_unlink) auto
  ultimately show ?thesis
    using compare_index [OF t k, of k']
    by (auto simp: lookup_hash_entry_eq idx delete_hash_entry_fields cmp)
qed

lemma tbl_update:
  assumes t: "tbl t" and b: "buckets t' = (buckets t)(i := x)"
    and same: "number_of_buckets t' = number_of_buckets t" "ht_compare t' = ht_compare t"
      "ht_hash t' = ht_hash t"
    and ne: "distinct (nonempty_bucket_index t')" "set (nonempty_bucket_index t') = dom (buckets t')"
    and x: "\<And>es. x = Some es \<Longrightarrow> es \<noteq> [] \<and> keys_apart compare es \<and>
              (\<forall>e \<in> set es. valid (fst e) \<and> get_bucket_index t (fst e) = i)"
    and len: "ht_length t' + of_nat (length (bucket_of t i)) =
              ht_length t + of_nat (length (bucket_of t' i))"
  shows "tbl t'"
proof -
  have idx: "get_bucket_index t' k = get_bucket_index t k" for k
    by (simp add: get_bucket_index_def same)
  have "bucket_sum (buckets t') + length (bucket_of t i) = bucket_sum (buckets t) + length (bucket_of t' i)"
    using bucket_sum_update [OF tbl_finite [OF t], of i x]
    by (auto simp: bucket_of_def b split: option.splits)
  then have "(of_nat (bucket_sum (buckets t')) :: 32 word) + of_nat (length (bucket_of t i)) =
      of_nat (bucket_sum (buckets t)) + of_nat (length (bucket_of t' i))"
    by (metis of_nat_add)
  with len t have "ht_length t' = of_nat (bucket_sum (buckets t'))"
    by (simp add: hash_inv_def) (metis add_right_cancel)
  moreover have "es \<noteq> [] \<and> (\<forall>e \<in> set es. valid (fst e) \<and> get_bucket_index t' (fst e) = j) \<and>
      keys_apart compare es" if "buckets t' j = Some es" for j es
    using that t x by (cases "j = i") (auto simp: b idx hash_inv_def)
  ultimately show ?thesis
    using t ne by (simp add: hash_inv_def same)
qed

lemma insert_tbl_index:
  fixes t :: "('k, 'v) hash_table" and k :: 'k and v :: 'v
  assumes t: "tbl t"
  defines "t' \<equiv> fst (insert_hash_entry t k v)"
  shows "distinct (nonempty_bucket_index t')" and "set (nonempty_bucket_index t') = dom (buckets t')"
    and "ht_length t' = ht_length t + (if lookup_hash_entry t k = None then 1 else 0)"
  using t
  by (auto simp: t'_def insert_hash_entry_def delete_hash_entry_def delete_bucket_def new_bucket_def
      Let_def hash_inv_def lookup_hash_entry_def get_bucket_index_def unlink_absent
      split: option.split)

lemma insert_tbl:
  assumes t: "tbl t" and k: "valid k"
  shows "tbl (fst (insert_hash_entry t k v))"
proof (rule tbl_update [OF t insert_hash_entry_fields(1-4)])
  let ?i = "get_bucket_index t k"
  have cmp: "ht_compare t = compare" using t by (simp add: hash_inv_def)
  have "find_entry compare k (unlink_entry compare k (bucket_of t ?i)) = None"
    using find_unlink [of "bucket_of t ?i" k k] tbl_bucket [OF t] k compare_refl by auto
  then show "es \<noteq> [] \<and> keys_apart compare es \<and>
      (\<forall>e \<in> set es. valid (fst e) \<and> get_bucket_index t (fst e) = ?i)"
    if "Some ((k, v) # unlink_entry (ht_compare t) k (bucket_of t ?i)) = Some es" for es
    using that tbl_bucket [OF t, of ?i] unlink_all [OF tbl_bucket(2) [OF t, of ?i], of compare k] k
    by (auto simp: cmp keys_apart_unlink)
  show "ht_length (fst (insert_hash_entry t k v)) + of_nat (length (bucket_of t ?i)) =
      ht_length t + of_nat (length (bucket_of (fst (insert_hash_entry t k v)) ?i))"
    using length_unlink [of "ht_compare t" k "bucket_of t ?i", symmetric]
    by (simp add: insert_tbl_index(3) [OF t] bucket_of_def [of "fst (insert_hash_entry t k v)"]
        insert_hash_entry_fields lookup_hash_entry_eq)
qed (use insert_tbl_index [OF t] in auto)

lemma delete_tbl_index:
  fixes t :: "('k, 'v) hash_table" and k :: 'k
  assumes t: "tbl t"
  defines "t' \<equiv> fst (delete_hash_entry t k)"
  shows "distinct (nonempty_bucket_index t')" and "set (nonempty_bucket_index t') = dom (buckets t')"
    and "ht_length t' = ht_length t - (if lookup_hash_entry t k = None then 0 else 1)"
  using t
  by (auto simp: t'_def delete_hash_entry_def delete_bucket_def
      Let_def hash_inv_def lookup_hash_entry_def get_bucket_index_def split: option.split)

lemma delete_tbl:
  assumes t: "tbl t"
  shows "tbl (fst (delete_hash_entry t k))"
proof (rule tbl_update [OF t delete_hash_entry_fields(1-4)])
  let ?i = "get_bucket_index t k"
  let ?es = "unlink_entry (ht_compare t) k (bucket_of t ?i)"
  have cmp: "ht_compare t = compare" using t by (simp add: hash_inv_def)
  show "es \<noteq> [] \<and> keys_apart compare es \<and>
      (\<forall>e \<in> set es. valid (fst e) \<and> get_bucket_index t (fst e) = ?i)"
    if "(if ?es = [] then None else Some ?es) = Some es" for es
    using that tbl_bucket [OF t, of ?i] unlink_all [OF tbl_bucket(2) [OF t, of ?i], of compare k]
    by (auto simp: cmp keys_apart_unlink split: if_splits)
  have "bucket_of (fst (delete_hash_entry t k)) ?i = ?es"
    by (simp add: bucket_of_def [of "fst (delete_hash_entry t k)"] delete_hash_entry_fields)
  then show "ht_length (fst (delete_hash_entry t k)) + of_nat (length (bucket_of t ?i)) =
      ht_length t + of_nat (length (bucket_of (fst (delete_hash_entry t k)) ?i))"
    using length_unlink [of "ht_compare t" k "bucket_of t ?i", symmetric]
    by (simp add: delete_tbl_index(3) [OF t] lookup_hash_entry_eq)
qed (use delete_tbl_index [OF t] in auto)

lemma create_tbl: "n \<noteq> 0 \<Longrightarrow> tbl (create_hash_with_size compare hash n)"
  by (simp add: hash_inv_def create_hash_with_size_def bucket_sum_def)

lemma lookup_create: "lookup_hash_entry (create_hash_with_size compare hash n) k = None"
  by (simp add: lookup_hash_entry_def create_hash_with_size_def)

lemma run_ops:
  assumes "tbl t" and "\<forall>oper \<in> set opers. valid (op_key oper)"
  shows "tbl (foldl run_hash_op t opers) \<and>
     lookup_hash_entry (foldl run_hash_op t opers) = foldl (map_hash_op compare) (lookup_hash_entry t) opers"
  using assms
proof (induction opers arbitrary: t)
  case (Cons oper opers)
  have "tbl (run_hash_op t oper)"
    using Cons.prems by (cases oper) (auto simp: insert_tbl delete_tbl)
  moreover have "lookup_hash_entry (run_hash_op t oper) = map_hash_op compare (lookup_hash_entry t) oper"
    using Cons.prems by (cases oper) (auto simp: fun_eq_iff lookup_insert lookup_delete)
  ultimately show ?case using Cons by simp
qed simp

lemma entries_lookup:
  assumes t: "tbl t"
  shows "lookup_hash_entry t k = Some v \<longleftrightarrow> (\<exists>k'. (k', v) \<in> set (hash_entries t) \<and> compare k k')"
proof
  have cmp: "ht_compare t = compare" using t by (simp add: hash_inv_def)
  have dom: "i \<in> set (nonempty_bucket_index t)" if "bucket_of t i \<noteq> []" for i
    using t that by (auto simp: hash_inv_def bucket_of_def split: option.splits)
  {
    assume "lookup_hash_entry t k = Some v"
    then have f: "find_entry compare k (bucket_of t (get_bucket_index t k)) = Some v"
      by (simp add: lookup_hash_entry_eq cmp)
    then obtain k' where k': "(k', v) \<in> set (bucket_of t (get_bucket_index t k))" "compare k k'"
      by (auto dest: find_entry_Some_in)
    then have "(k', v) \<in> set (hash_entries t)" using dom
      by (force simp: hash_entries_def)
    with k' show "\<exists>k'. (k', v) \<in> set (hash_entries t) \<and> compare k k'" by blast
  next
    assume "\<exists>k'. (k', v) \<in> set (hash_entries t) \<and> compare k k'"
    then obtain k' i where k': "(k', v) \<in> set (bucket_of t i)" "compare k k'"
      by (auto simp: hash_entries_def)
    with tbl_bucket [OF t, of i] have v: "valid k'" "get_bucket_index t k' = i" by auto
    then have i: "get_bucket_index t k = i" using compare_index [OF t _ k'(2)] by simp
    have "find_entry compare k es = Some v"
      if "(k', v) \<in> set es" "keys_apart compare es" "\<forall>e \<in> set es. valid (fst e)" for es
      using that
    proof (induction es)
      case (Cons e es)
      obtain a w where e: "e = (a, w)" by (cases e)
      show ?case
      proof (cases "(k', v) \<in> set es")
        case True
        have "valid a" using Cons.prems e by simp
        have "\<not> compare a k'" using True Cons.prems e by (auto simp: find_entry_None)
        then have "\<not> compare k a"
          using compare_sym [OF \<open>valid a\<close>] compare_trans [OF compare_valid [OF v(1) k'(2)]] k'(2) by blast
        with True Cons e show ?thesis by simp
      qed (use Cons.prems e k'(2) in auto)
    qed simp
    then show "lookup_hash_entry t k = Some v"
      using k'(1) tbl_bucket [OF t, of i] by (simp add: lookup_hash_entry_eq cmp i)
  }
qed

text \<open>No two entries of the table have keys that compare equal.\<close>

lemma entries_apart:
  assumes t: "tbl t"
  shows "keys_apart compare (hash_entries t)"
proof -
  have "keys_apart compare (concat (map (bucket_of t) is))" if "distinct is" for "is"
    using that
  proof (induction "is")
    case (Cons i "is")
    have "\<not> compare (fst x) (fst y)" if "x \<in> set (bucket_of t i)" "y \<in> set (bucket_of t j)" "j \<noteq> i" for x y j
      using tbl_bucket [OF t] compare_index [OF t, of "fst y" "fst x"] that by metis
    then have "\<forall>x \<in> set (bucket_of t i). \<forall>y \<in> set (concat (map (bucket_of t) is)). \<not> compare (fst x) (fst y)"
      using Cons.prems by fastforce
    with Cons tbl_bucket(1) [OF t] show ?case by (simp add: keys_apart_append)
  qed simp
  then show ?thesis using t by (simp add: hash_entries_def hash_inv_def)
qed

lemma iterator_start:
  assumes t: "tbl t"
  shows "\<exists>it'. init_hash_iterator t it = Ok it' \<and> it_ok it' \<and> it_remaining it' = hash_entries t"
proof (cases "nonempty_bucket_index t")
  case Nil
  let ?it = "it\<lparr>it_buckets := buckets t, it_bucket_index := None, it_element := []\<rparr>"
  have "it_ok ?it" "it_remaining ?it = hash_entries t" "init_hash_iterator t it = Ok ?it"
    using Nil by (auto simp: it_ok_def it_remaining_def hash_entries_def init_hash_iterator_def)
  then show ?thesis by blast
next
  case (Cons i "is")
  let ?it = "\<lparr>it_buckets = buckets t, it_bucket_index = Some i, it_next_bucket_index = is,
              it_element = the (buckets t i)\<rparr>"
  have dom: "buckets t j \<noteq> None" if "j \<in> set (i # is)" for j
    using t Cons that by (auto simp: hash_inv_def)
  have "the (buckets t j) = bucket_of t j" if "j \<in> set (i # is)" for j
    using dom [OF that] by (cases "buckets t j") (auto simp: bucket_of_def)
  then have "map (\<lambda>i. the (buckets t i)) (i # is) = map (bucket_of t) (i # is)"
    by (intro map_cong) auto
  then have "it_remaining ?it = hash_entries t"
    using Cons by (simp add: it_remaining_def hash_entries_def cong: map_cong)
  moreover have "it_ok ?it" using dom by (auto simp: it_ok_def)
  moreover have "init_hash_iterator t it = Ok ?it"
    using Cons dom by (simp add: init_hash_iterator_def assert_then_def)
  ultimately show ?thesis by blast
qed

lemma iterator_drains:
  assumes t: "tbl t" and fuel: "length (hash_entries t) < fuel"
  shows "\<exists>it'. init_hash_iterator t it = Ok it' \<and> iterate_all fuel it' = Ok (hash_entries t)"
  using iterator_start [OF t, of it] iterate_all_remaining fuel by metis

end

text \<open>The keys of the tables of the library.\<close>

interpretation uint32_keys: hash_keys compare_uint32 hash_uint32 "\<lambda>_. True"
  by unfold_locales (auto simp: compare_uint32_def)

interpretation datapath_id_keys: hash_keys compare_datapath_id hash_datapath_id "\<lambda>_. True"
  by unfold_locales (auto simp: compare_datapath_id_def)

interpretation mac_keys: hash_keys compare_mac hash_mac "\<lambda>_. True"
  by unfold_locales (auto simp: compare_mac_def)

interpretation string_keys: hash_keys compare_string hash_string "\<lambda>_. True"
  by unfold_locales (auto simp: compare_string_def)

end
