(* ===== verification/Match_Table.thy ===== *)
theory Match_Table
  imports Match Hash_Table Linked_List
begin

text \<open>
  The table of \<open>src/lib/match_table.c\<close> that maps matches to client data.  Matches without wildcards
  are in a hash table, the others in a list kept in descending order of priority.  The list stores
  entries by reference; here an entry carries the address \<open>me_id\<close> its \<open>xmalloc\<close> returned, so that
  \<open>delete_element\<close> and \<open>insert_before\<close>, which compare pointers, are exact.  The global
  \<open>_match_table_head\<close> is \<open>None\<close> before \<open>init_match_table\<close>; the mutex is not part of the state.
\<close>

section \<open>State\<close>

record 'd match_entry =
  me_id :: nat
  me_match :: ofp_match
  me_priority :: "16 word"
  me_data :: 'd

record 'd match_table =
  exact_table :: "(ofp_match, 'd match_entry) hash_table"
  wildcards_table :: "'d match_entry list"

definition exact_match :: "ofp_match \<Rightarrow> bool" where
  "exact_match m \<longleftrightarrow> wildcards m AND OFPFW_ALL = 0"

definition allocate_match_entry :: "nat \<Rightarrow> ofp_match \<Rightarrow> 16 word \<Rightarrow> 'd \<Rightarrow> 'd match_entry" where
  "allocate_match_entry new m priority d =
     \<lparr>me_id = new, me_match = m, me_priority = priority, me_data = d\<rparr>"

definition compare_filter_match :: "ofp_match \<Rightarrow> ofp_match \<Rightarrow> bool" where
  "compare_filter_match x y =
     (let w_x = wildcards x AND OFPFW_ALL; w_y = wildcards y AND OFPFW_ALL;
          sm_x = create_nw_src_mask w_x; dm_x = create_nw_dst_mask w_x;
          sm_y = create_nw_src_mask w_y; dm_y = create_nw_dst_mask w_y;
          w_x = w_x AND NOT (OFPFW_NW_SRC_MASK OR OFPFW_NW_DST_MASK);
          w_y = w_y AND NOT (OFPFW_NW_SRC_MASK OR OFPFW_NW_DST_MASK)
      in if (NOT w_x) AND w_y \<noteq> 0 then False
         else if sm_x > sm_y then False
         else if dm_x > dm_y then False
         else (w_x AND OFPFW_IN_PORT \<noteq> 0 \<or> in_port x = in_port y)
            \<and> (w_x AND OFPFW_DL_VLAN \<noteq> 0 \<or> dl_vlan x = dl_vlan y)
            \<and> (w_x AND OFPFW_DL_VLAN_PCP \<noteq> 0 \<or> dl_vlan_pcp x = dl_vlan_pcp y)
            \<and> (w_x AND OFPFW_DL_SRC \<noteq> 0 \<or> dl_src x = dl_src y)
            \<and> (w_x AND OFPFW_DL_DST \<noteq> 0 \<or> dl_dst x = dl_dst y)
            \<and> (w_x AND OFPFW_DL_TYPE \<noteq> 0 \<or> dl_type x = dl_type y)
            \<and> (nw_src x XOR nw_src y) AND sm_x = 0
            \<and> (nw_dst x XOR nw_dst y) AND dm_x = 0
            \<and> (w_x AND OFPFW_NW_TOS \<noteq> 0 \<or> nw_tos x = nw_tos y)
            \<and> (w_x AND OFPFW_NW_PROTO \<noteq> 0 \<or> nw_proto x = nw_proto y)
            \<and> (w_x AND OFPFW_TP_SRC \<noteq> 0 \<or> tp_src x = tp_src y)
            \<and> (w_x AND OFPFW_TP_DST \<noteq> 0 \<or> tp_dst x = tp_dst y))"

section \<open>The exact table\<close>

definition compare_exact_match_entry :: "ofp_match \<Rightarrow> ofp_match \<Rightarrow> bool" where
  "compare_exact_match_entry x y = compare_match_strict x y"

definition hash_exact_match_entry :: "ofp_match \<Rightarrow> 32 word" where
  "hash_exact_match_entry m =
     (let vlan = (if dl_vlan m \<noteq> UINT16_MAX then dl_vlan m AND 0x0fff else dl_vlan m);
          pcp = dl_vlan_pcp m AND 0x07;
          tos = nw_tos m AND 0x3f
      in push_bit 16 (ucast (in_port m)) XOR hash_mac (dl_src m) XOR hash_mac (dl_dst m) XOR
         ucast vlan XOR push_bit 24 (ucast pcp) XOR push_bit 8 (ucast (dl_type m)) XOR ucast tos XOR
         push_bit 24 (ucast (nw_proto m)) XOR nw_src m XOR nw_dst m XOR
         push_bit 16 (ucast (tp_src m)) XOR ucast (tp_dst m))"

definition init_exact_match_table :: "(ofp_match, 'd match_entry) hash_table" where
  "init_exact_match_table = create_hash compare_exact_match_entry hash_exact_match_entry"

definition insert_exact_match_entry ::
  "(ofp_match, 'd match_entry) hash_table \<Rightarrow> nat \<Rightarrow> ofp_match \<Rightarrow> 'd \<Rightarrow>
   ((ofp_match, 'd match_entry) hash_table \<times> bool) res" where
  "insert_exact_match_entry t new m d =
     (case lookup_hash_entry t m of
        Some entry \<Rightarrow> Ok (t, False)
      | None \<Rightarrow>
          let new_entry = allocate_match_entry new m 0 d;
              (t', conflict_entry) = insert_hash_entry t m new_entry
          in assert_then (conflict_entry = None) (Ok (t', True)))"

definition lookup_exact_match_strict_entry ::
  "(ofp_match, 'd match_entry) hash_table \<Rightarrow> ofp_match \<Rightarrow> 'd match_entry option" where
  "lookup_exact_match_strict_entry t m = lookup_hash_entry t m"

text \<open>The entry is shared with the table, so storing to \<open>entry->data\<close> updates the stored value.\<close>

fun store_entry :: "('k \<Rightarrow> 'k \<Rightarrow> bool) \<Rightarrow> 'k \<Rightarrow> ('v \<Rightarrow> 'v) \<Rightarrow> ('k \<times> 'v) list \<Rightarrow> ('k \<times> 'v) list" where
  "store_entry compare key f [] = []"
| "store_entry compare key f ((k, v) # es) =
     (if compare key k then (k, f v) # es else (k, v) # store_entry compare key f es)"

definition set_hash_value :: "('k, 'v) hash_table \<Rightarrow> 'k \<Rightarrow> ('v \<Rightarrow> 'v) \<Rightarrow> ('k, 'v) hash_table" where
  "set_hash_value t key f =
     (let i = get_bucket_index t key in
      t\<lparr>buckets := (buckets t)(i := map_option (store_entry (ht_compare t) key f) (buckets t i))\<rparr>)"

definition update_exact_match_entry ::
  "(ofp_match, 'd match_entry) hash_table \<Rightarrow> ofp_match \<Rightarrow> 'd \<Rightarrow>
   (ofp_match, 'd match_entry) hash_table \<times> bool" where
  "update_exact_match_entry t m d =
     (case lookup_exact_match_strict_entry t m of
        None \<Rightarrow> (t, False)
      | Some entry \<Rightarrow> (set_hash_value t m (\<lambda>e. e\<lparr>me_data := d\<rparr>), True))"

definition delete_exact_match_strict_entry ::
  "(ofp_match, 'd match_entry) hash_table \<Rightarrow> ofp_match \<Rightarrow>
   (ofp_match, 'd match_entry) hash_table \<times> 'd option" where
  "delete_exact_match_strict_entry t m =
     (case lookup_hash_entry t m of
        None \<Rightarrow> (t, None)
      | Some entry \<Rightarrow> (fst (delete_hash_entry t m), Some (me_data entry)))"

definition map_exact_match_table ::
  "(ofp_match, 'd match_entry) hash_table \<Rightarrow> ofp_match option \<Rightarrow>
   (ofp_match \<Rightarrow> 16 word \<Rightarrow> 'd \<Rightarrow> 's \<Rightarrow> 's) \<Rightarrow> 's \<Rightarrow> 's" where
  "map_exact_match_table t m f user_data =
     foreach_hash t (\<lambda>k entry s.
       if (case m of None \<Rightarrow> False | Some x \<Rightarrow> \<not> compare_filter_match x (me_match entry)) then s
       else f (me_match entry) (me_priority entry) (me_data entry) s) user_data"

section \<open>The wildcards table\<close>

text \<open>
  The scan of \<open>insert_wildcards_match_entry\<close>: \<open>None\<close> when the entry already exists, otherwise the
  element it stopped at (\<open>None\<close> at the end of the list).
\<close>

fun insert_scan :: "'d match_entry list \<Rightarrow> ofp_match \<Rightarrow> 16 word \<Rightarrow> 'd match_entry option option" where
  "insert_scan [] m priority = Some None"
| "insert_scan (e # es) m priority =
     (if me_priority e < priority then Some (Some e)
      else if me_priority e = priority \<and> compare_match_strict (me_match e) m then None
      else insert_scan es m priority)"

definition insert_wildcards_match_entry ::
  "'d match_entry list \<Rightarrow> nat \<Rightarrow> ofp_match \<Rightarrow> 16 word \<Rightarrow> 'd \<Rightarrow> ('d match_entry list \<times> bool) res" where
  "insert_wildcards_match_entry t new m priority d =
     (case insert_scan t m priority of
        None \<Rightarrow> Ok (t, False)
      | Some element \<Rightarrow>
          let new_entry = allocate_match_entry new m priority d in
          (case element of
             None \<Rightarrow> Ok (append_to_tail t new_entry, True)
           | Some e \<Rightarrow>
               if e = hd t then Ok (insert_in_front t new_entry, True)
               else bnd (insert_before t e new_entry) (\<lambda>(t', _). Ok (t', True))))"

fun lookup_wildcards_match_strict_entry ::
  "'d match_entry list \<Rightarrow> ofp_match \<Rightarrow> 16 word \<Rightarrow> 'd match_entry option" where
  "lookup_wildcards_match_strict_entry [] m priority = None"
| "lookup_wildcards_match_strict_entry (e # es) m priority =
     (if me_priority e < priority then None
      else if me_priority e = priority \<and> compare_match_strict (me_match e) m then Some e
      else lookup_wildcards_match_strict_entry es m priority)"

fun lookup_wildcards_match_entry :: "'d match_entry list \<Rightarrow> ofp_match \<Rightarrow> 'd match_entry option" where
  "lookup_wildcards_match_entry [] m = None"
| "lookup_wildcards_match_entry (e # es) m =
     (if compare_match (me_match e) m then Some e else lookup_wildcards_match_entry es m)"

definition update_wildcards_match_entry ::
  "'d match_entry list \<Rightarrow> ofp_match \<Rightarrow> 16 word \<Rightarrow> 'd \<Rightarrow> 'd match_entry list \<times> bool" where
  "update_wildcards_match_entry t m priority d =
     (case lookup_wildcards_match_strict_entry t m priority of
        None \<Rightarrow> (t, False)
      | Some entry \<Rightarrow> (map (\<lambda>e. if me_id e = me_id entry then e\<lparr>me_data := d\<rparr> else e) t, True))"

definition delete_wildcards_match_strict_entry ::
  "'d match_entry list \<Rightarrow> ofp_match \<Rightarrow> 16 word \<Rightarrow> ('d match_entry list \<times> 'd option) res" where
  "delete_wildcards_match_strict_entry t m priority =
     (case lookup_wildcards_match_strict_entry t m priority of
        None \<Rightarrow> Ok (t, None)
      | Some entry \<Rightarrow> bnd (delete_element t entry) (\<lambda>(t', _). Ok (t', Some (me_data entry))))"

fun map_wildcards_match_table ::
  "'d match_entry list \<Rightarrow> ofp_match option \<Rightarrow> (ofp_match \<Rightarrow> 16 word \<Rightarrow> 'd \<Rightarrow> 's \<Rightarrow> 's) \<Rightarrow> 's \<Rightarrow> 's" where
  "map_wildcards_match_table [] m f s = s"
| "map_wildcards_match_table (e # es) m f s =
     map_wildcards_match_table es m f
       (if (case m of None \<Rightarrow> False | Some x \<Rightarrow> \<not> compare_filter_match x (me_match e)) then s
        else f (me_match e) (me_priority e) (me_data e) s)"

section \<open>The table of the library\<close>

type_synonym 'd match_head = "'d match_table option"

definition init_match_table :: "'d match_head \<Rightarrow> 'd match_head res" where
  "init_match_table h =
     die_unless (h = None) (Ok (Some \<lparr>exact_table = init_exact_match_table, wildcards_table = create_list\<rparr>))"

definition finalize_match_table :: "'d match_head \<Rightarrow> 'd match_head res" where
  "finalize_match_table h = die_unless (h \<noteq> None) (Ok None)"

definition with_table :: "'d match_head \<Rightarrow> ('d match_table \<Rightarrow> 'r res) \<Rightarrow> 'r res" where
  "with_table h f = (case h of None \<Rightarrow> Fault Die | Some t \<Rightarrow> f t)"

definition insert_match_entry ::
  "'d match_head \<Rightarrow> nat \<Rightarrow> ofp_match \<Rightarrow> 16 word \<Rightarrow> 'd \<Rightarrow> ('d match_head \<times> bool) res" where
  "insert_match_entry h new m priority d = with_table h (\<lambda>t.
     if exact_match m then
       bnd (insert_exact_match_entry (exact_table t) new m d) (\<lambda>(e, r). Ok (Some (t\<lparr>exact_table := e\<rparr>), r))
     else
       bnd (insert_wildcards_match_entry (wildcards_table t) new m priority d) (\<lambda>(w, r).
       Ok (Some (t\<lparr>wildcards_table := w\<rparr>), r)))"

definition lookup_match_strict_entry :: "'d match_head \<Rightarrow> ofp_match \<Rightarrow> 16 word \<Rightarrow> 'd option res" where
  "lookup_match_strict_entry h m priority = with_table h (\<lambda>t.
     Ok (map_option me_data
       (if exact_match m then lookup_exact_match_strict_entry (exact_table t) m
        else lookup_wildcards_match_strict_entry (wildcards_table t) m priority)))"

definition lookup_match_entry :: "'d match_head \<Rightarrow> ofp_match \<Rightarrow> 'd option res" where
  "lookup_match_entry h m = with_table h (\<lambda>t.
     Ok (map_option me_data
       (case lookup_exact_match_strict_entry (exact_table t) m of
          Some e \<Rightarrow> Some e
        | None \<Rightarrow> lookup_wildcards_match_entry (wildcards_table t) m)))"

definition update_match_entry ::
  "'d match_head \<Rightarrow> ofp_match \<Rightarrow> 16 word \<Rightarrow> 'd \<Rightarrow> ('d match_head \<times> bool) res" where
  "update_match_entry h m priority d = with_table h (\<lambda>t.
     if exact_match m then
       (case update_exact_match_entry (exact_table t) m d of (e, r) \<Rightarrow> Ok (Some (t\<lparr>exact_table := e\<rparr>), r))
     else
       (case update_wildcards_match_entry (wildcards_table t) m priority d of
          (w, r) \<Rightarrow> Ok (Some (t\<lparr>wildcards_table := w\<rparr>), r)))"

definition delete_match_strict_entry ::
  "'d match_head \<Rightarrow> ofp_match \<Rightarrow> 16 word \<Rightarrow> ('d match_head \<times> 'd option) res" where
  "delete_match_strict_entry h m priority = with_table h (\<lambda>t.
     if exact_match m then
       (case delete_exact_match_strict_entry (exact_table t) m of
          (e, r) \<Rightarrow> Ok (Some (t\<lparr>exact_table := e\<rparr>), r))
     else
       bnd (delete_wildcards_match_strict_entry (wildcards_table t) m priority) (\<lambda>(w, r).
       Ok (Some (t\<lparr>wildcards_table := w\<rparr>), r)))"

definition do_map_match_table ::
  "'d match_head \<Rightarrow> ofp_match option \<Rightarrow> (ofp_match \<Rightarrow> 16 word \<Rightarrow> 'd \<Rightarrow> 's \<Rightarrow> 's) option \<Rightarrow> 's \<Rightarrow> 's res" where
  "do_map_match_table h m callback user_data = with_table h (\<lambda>t.
     case callback of
       None \<Rightarrow> Fault Die
     | Some f \<Rightarrow> Ok (map_wildcards_match_table (wildcards_table t) m f
                    (map_exact_match_table (exact_table t) m f user_data)))"

definition foreach_match_table ::
  "'d match_head \<Rightarrow> (ofp_match \<Rightarrow> 16 word \<Rightarrow> 'd \<Rightarrow> 's \<Rightarrow> 's) option \<Rightarrow> 's \<Rightarrow> 's res" where
  "foreach_match_table h callback user_data = do_map_match_table h None callback user_data"

definition map_match_table ::
  "'d match_head \<Rightarrow> ofp_match \<Rightarrow> (ofp_match \<Rightarrow> 16 word \<Rightarrow> 'd \<Rightarrow> 's \<Rightarrow> 's) option \<Rightarrow> 's \<Rightarrow> 's res" where
  "map_match_table h m callback user_data = do_map_match_table h (Some m) callback user_data"

section \<open>The wildcards table as a map ordered by priority\<close>

lemma me_data_allocate [simp]: "me_data (allocate_match_entry new m p d) = d"
  by (simp add: allocate_match_entry_def)

abbreviation wild_key :: "'d match_entry \<Rightarrow> 16 word \<times> _" where
  "wild_key e \<equiv> (me_priority e, strict_key (me_match e))"

definition wild_sorted :: "'d match_entry list \<Rightarrow> bool" where
  "wild_sorted t \<longleftrightarrow> sorted_wrt (\<lambda>a b. me_priority b \<le> me_priority a) t"

definition wild_inv :: "'d match_entry list \<Rightarrow> bool" where
  "wild_inv t \<longleftrightarrow> wild_sorted t \<and> distinct (map me_id t) \<and> distinct (map wild_key t)"

definition wild_find :: "'d match_entry list \<Rightarrow> ofp_match \<Rightarrow> 16 word \<Rightarrow> 'd match_entry option" where
  "wild_find t m p = List.find (\<lambda>e. wild_key e = (p, strict_key m)) t"

lemma find_none: "(\<And>e. e \<in> set t \<Longrightarrow> \<not> P e) \<Longrightarrow> List.find P t = None"
  by (simp add: find_None_iff)

lemma lookup_wildcards_strict_eq:
  "wild_sorted t \<Longrightarrow> lookup_wildcards_match_strict_entry t m p = wild_find t m p"
proof (induction t)
  case (Cons e t)
  show ?case
  proof (cases "me_priority e < p")
    case True
    then have "wild_find (e # t) m p = None" using Cons.prems
      unfolding wild_find_def by (intro find_none) (auto simp: wild_sorted_def)
    with True show ?thesis by simp
  next
    case False
    with Cons show ?thesis
      by (simp add: wild_sorted_def wild_find_def compare_match_strict_key)
  qed
qed (simp add: wild_find_def)

text \<open>Where the scan stops: at the first entry of lower priority, unless the key is present.\<close>

lemma insert_scan_eq:
  "wild_sorted t \<Longrightarrow> insert_scan t m p =
     (if wild_find t m p \<noteq> None then None
      else Some (case dropWhile (\<lambda>e. p \<le> me_priority e) t of [] \<Rightarrow> None | e # _ \<Rightarrow> Some e))"
proof (induction t)
  case (Cons e t)
  show ?case
  proof (cases "me_priority e < p")
    case True
    then have "wild_find (e # t) m p = None" using Cons.prems
      unfolding wild_find_def by (intro find_none) (auto simp: wild_sorted_def)
    with True show ?thesis by auto
  next
    case False
    with Cons show ?thesis
      by (auto simp: wild_sorted_def wild_find_def compare_match_strict_key)
  qed
qed (simp add: wild_find_def)

definition wild_insert :: "'d match_entry list \<Rightarrow> 'd match_entry \<Rightarrow> 'd match_entry list" where
  "wild_insert t e =
     takeWhile (\<lambda>x. me_priority e \<le> me_priority x) t @ e # dropWhile (\<lambda>x. me_priority e \<le> me_priority x) t"

lemma set_wild_insert [simp]: "set (wild_insert t e) = insert e (set t)"
proof -
  have "set t = set (takeWhile P t) \<union> set (dropWhile P t)" for P
    by (metis set_append takeWhile_dropWhile_id)
  then show ?thesis by (auto simp: wild_insert_def)
qed

lemma insert_wildcards_eq:
  assumes "wild_inv t"
  shows "insert_wildcards_match_entry t new m p d =
     Ok (if wild_find t m p = None then (wild_insert t (allocate_match_entry new m p d), True) else (t, False))"
proof (cases "wild_find t m p")
  case None
  define P :: "'a match_entry \<Rightarrow> bool" where "P = (\<lambda>e. p \<le> me_priority e)"
  define front where "front = takeWhile P t"
  define rear where "rear = dropWhile P t"
  have t: "t = front @ rear" by (simp add: front_def rear_def)
  have scan: "insert_scan t m p = Some (case rear of [] \<Rightarrow> None | e # _ \<Rightarrow> Some e)"
    using None assms by (simp add: insert_scan_eq wild_inv_def rear_def P_def)
  have goal: "wild_insert t (allocate_match_entry new m p d) = front @ allocate_match_entry new m p d # rear"
    by (simp add: wild_insert_def front_def rear_def P_def allocate_match_entry_def)
  show ?thesis
  proof (cases rear)
    case Nil
    with None scan goal t show ?thesis by (simp add: insert_wildcards_match_entry_def Let_def)
  next
    case rear: (Cons e es)
    then have "\<not> P e" unfolding rear_def by (metis dropWhile_eq_Cons_conv)
    then have e: "e \<notin> set front" unfolding front_def by (metis set_takeWhileD)
    show ?thesis
    proof (cases front)
      case Nil
      with None scan goal t rear show ?thesis
        by (simp add: insert_wildcards_match_entry_def insert_in_front_def)
    next
      case (Cons y ys)
      with e have "e \<noteq> hd t" "insert_before t e x = Ok (y # ys @ x # e # es, True)" for x
        unfolding t rear by (auto intro: insert_before_eq)
      with None scan goal rear Cons show ?thesis by (simp add: insert_wildcards_match_entry_def)
    qed
  qed
next
  case (Some e)
  with assms show ?thesis
    by (simp add: insert_wildcards_match_entry_def insert_scan_eq wild_inv_def)
qed

lemma wild_find_None: "wild_find t m p = None \<longleftrightarrow> (p, strict_key m) \<notin> wild_key ` set t"
  by (auto simp: wild_find_def find_None_iff)

lemma wild_find_Some:
  "distinct (map wild_key t) \<Longrightarrow> wild_find t m p = Some e \<longleftrightarrow> e \<in> set t \<and> wild_key e = (p, strict_key m)"
proof (induction t)
  case (Cons x t)
  then show ?case by (auto simp: wild_find_def)
qed (simp add: wild_find_def)

lemma wild_insert_simps [simp]:
  "wild_insert [] e = [e]"
  "wild_insert (x # t) e = (if me_priority e \<le> me_priority x then x # wild_insert t e else e # x # t)"
  by (simp_all add: wild_insert_def)

lemma wild_find_key: "wild_find t m p = Some e \<Longrightarrow> wild_key e = (p, strict_key m)"
  by (auto simp: wild_find_def find_Some_iff)

lemma wild_sorted_insert: "wild_sorted t \<Longrightarrow> wild_sorted (wild_insert t e)"
  by (induction t) (auto simp: wild_sorted_def)

lemma distinct_map_wild_insert:
  "distinct (map f (wild_insert t e)) \<longleftrightarrow> distinct (map f t) \<and> f e \<notin> f ` set t"
  by (induction t) auto

lemma wild_inv_insert:
  assumes "wild_inv t" and "new \<notin> me_id ` set t" and "wild_find t m p = None"
  shows "wild_inv (wild_insert t (allocate_match_entry new m p d))"
  using assms unfolding wild_inv_def distinct_map_wild_insert
  by (simp add: wild_sorted_insert wild_find_None allocate_match_entry_def)

lemma option_eqI: "(\<And>x. a = Some x \<longleftrightarrow> b = Some x) \<Longrightarrow> a = b"
  by (cases a; cases b) auto

lemma wild_find_insert:
  assumes "wild_inv t" and "wild_find t m p = None"
  shows "wild_find (wild_insert t (allocate_match_entry new m p d)) m' p' =
     (if (p', strict_key m') = (p, strict_key m) then Some (allocate_match_entry new m p d) else wild_find t m' p')"
proof -
  let ?e = "allocate_match_entry new m p d"
  have key: "wild_key ?e = (p, strict_key m)" by (simp add: allocate_match_entry_def)
  have d: "distinct (map wild_key (wild_insert t ?e))" "distinct (map wild_key t)"
    using assms unfolding distinct_map_wild_insert by (auto simp: key wild_find_None wild_inv_def)
  have "wild_find (wild_insert t ?e) m' p' = Some x \<longleftrightarrow>
      (if (p', strict_key m') = (p, strict_key m) then x = ?e else wild_find t m' p' = Some x)" for x
    using assms(2) unfolding wild_find_Some [OF d(1)] wild_find_Some [OF d(2)] set_wild_insert wild_find_None
    using key by auto
  then show ?thesis by (intro option_eqI) auto
qed

lemma delete_wildcards_eq:
  assumes "wild_inv t"
  shows "delete_wildcards_match_strict_entry t m p =
     Ok (filter (\<lambda>e. wild_key e \<noteq> (p, strict_key m)) t, map_option me_data (wild_find t m p))"
proof (cases "wild_find t m p")
  case None
  then have "filter (\<lambda>e. wild_key e \<noteq> (p, strict_key m)) t = t"
    by (intro filter_True) (auto simp: wild_find_None)
  with None assms show ?thesis
    by (simp add: delete_wildcards_match_strict_entry_def lookup_wildcards_strict_eq wild_inv_def)
next
  case (Some e)
  have d: "distinct (map wild_key t)" using assms by (simp add: wild_inv_def)
  have e: "e \<in> set t" "wild_key e = (p, strict_key m)"
    using Some unfolding wild_find_Some [OF d] by auto
  have "remove1 e t = filter (\<lambda>x. x \<noteq> e) t"
    using d by (simp add: distinct_remove1_removeAll distinct_map removeAll_filter_not_eq) metis
  also have "\<dots> = filter (\<lambda>x. wild_key x \<noteq> (p, strict_key m)) t"
    using d e by (intro filter_cong) (auto simp: distinct_map inj_on_def)
  finally have "remove1 e t = filter (\<lambda>x. wild_key x \<noteq> (p, strict_key m)) t" .
  moreover have "t \<noteq> []" using e(1) by auto
  ultimately show ?thesis using Some assms
    by (simp add: delete_wildcards_match_strict_entry_def lookup_wildcards_strict_eq wild_inv_def
        delete_element_eq)
qed

lemma wild_inv_filter: "wild_inv t \<Longrightarrow> wild_inv (filter P t)"
  by (auto simp: wild_inv_def wild_sorted_def sorted_wrt_filter distinct_map inj_on_def)

lemma wild_find_filter:
  "wild_find (filter (\<lambda>e. wild_key e \<noteq> (p, strict_key m)) t) m' p' =
     (if (p', strict_key m') = (p, strict_key m) then None else wild_find t m' p')"
  by (induction t) (auto simp: wild_find_def)

lemma update_wildcards_eq:
  assumes "wild_inv t"
  shows "update_wildcards_match_entry t m p d =
     (map (\<lambda>e. if wild_key e = (p, strict_key m) then e\<lparr>me_data := d\<rparr> else e) t, wild_find t m p \<noteq> None)"
proof (cases "wild_find t m p")
  case None
  then have "map (\<lambda>e. if wild_key e = (p, strict_key m) then e\<lparr>me_data := d\<rparr> else e) t = t"
    by (intro map_idI) (auto simp: wild_find_None)
  with None assms show ?thesis
    by (simp add: update_wildcards_match_entry_def lookup_wildcards_strict_eq wild_inv_def)
next
  case (Some e)
  have d: "distinct (map wild_key t)" "distinct (map me_id t)" using assms by (simp_all add: wild_inv_def)
  have e: "e \<in> set t" "wild_key e = (p, strict_key m)"
    using Some unfolding wild_find_Some [OF d(1)] by auto
  have "me_id x = me_id e \<longleftrightarrow> wild_key x = (p, strict_key m)" if "x \<in> set t" for x
    using that d e by (auto simp: distinct_map inj_on_def)
  then have "map (\<lambda>x. if me_id x = me_id e then x\<lparr>me_data := d\<rparr> else x) t =
      map (\<lambda>x. if wild_key x = (p, strict_key m) then x\<lparr>me_data := d\<rparr> else x) t"
    by (intro map_cong) auto
  with Some assms show ?thesis
    by (simp add: update_wildcards_match_entry_def lookup_wildcards_strict_eq wild_inv_def)
qed

lemma wild_inv_map:
  assumes "\<And>e. me_id (f e) = me_id e" "\<And>e. me_match (f e) = me_match e" "\<And>e. me_priority (f e) = me_priority e"
  shows "wild_inv (map f t) = wild_inv t"
  by (simp add: wild_inv_def wild_sorted_def sorted_wrt_map assms comp_def)

lemma wild_find_map:
  assumes "\<And>e. me_match (f e) = me_match e" "\<And>e. me_priority (f e) = me_priority e"
  shows "wild_find (map f t) m p = map_option f (wild_find t m p)"
  by (induction t) (auto simp: wild_find_def assms)

text \<open>The first entry that matches is one of the highest priority.\<close>

lemma lookup_wildcards_best:
  assumes "wild_sorted t"
  shows "lookup_wildcards_match_entry t m = None \<longleftrightarrow> (\<forall>e \<in> set t. \<not> compare_match (me_match e) m)"
    and "lookup_wildcards_match_entry t m = Some e \<Longrightarrow>
      e \<in> set t \<and> compare_match (me_match e) m \<and>
      (\<forall>x \<in> set t. compare_match (me_match x) m \<longrightarrow> me_priority x \<le> me_priority e)"
  using assms by (induction t) (auto simp: wild_sorted_def split: if_splits)

section \<open>The exact table as a map\<close>

lemma exact_field_key:
  assumes "exact_match m" and "OFPFW_ALL AND flag = flag"
  shows "field_key (wildcards m) flag v = Some v"
  using assms masked_subset [of "wildcards m" OFPFW_ALL 0 flag]
  by (simp add: exact_match_def field_key_def)

lemma exact_masks:
  assumes "exact_match m"
  shows "create_nw_src_mask (wildcards m) = - 1" and "create_nw_dst_mask (wildcards m) = - 1"
  using assms masked_subset [of "wildcards m" OFPFW_ALL 0 OFPFW_NW_SRC_MASK]
    masked_subset [of "wildcards m" OFPFW_ALL 0 OFPFW_NW_DST_MASK]
  by (simp_all add: exact_match_def create_nw_src_mask_def create_nw_dst_mask_def)

lemma strict_exact:
  assumes "exact_match k" and "compare_match_strict k' k"
  shows "exact_match k'"
  using assms by (simp add: compare_match_strict_key strict_key_def exact_match_def)

lemma strict_exact_hash:
  assumes k: "exact_match k" and c: "compare_match_strict k' k"
  shows "hash_exact_match_entry k' = hash_exact_match_entry k"
proof -
  have k': "exact_match k'" using strict_exact [OF k c] .
  have key: "strict_key k' = strict_key k" using c by (simp add: compare_match_strict_key)
  have flags: "OFPFW_ALL AND OFPFW_IN_PORT = OFPFW_IN_PORT" "OFPFW_ALL AND OFPFW_DL_VLAN = OFPFW_DL_VLAN"
    "OFPFW_ALL AND OFPFW_DL_VLAN_PCP = OFPFW_DL_VLAN_PCP" "OFPFW_ALL AND OFPFW_DL_SRC = OFPFW_DL_SRC"
    "OFPFW_ALL AND OFPFW_DL_DST = OFPFW_DL_DST" "OFPFW_ALL AND OFPFW_DL_TYPE = OFPFW_DL_TYPE"
    "OFPFW_ALL AND OFPFW_NW_TOS = OFPFW_NW_TOS" "OFPFW_ALL AND OFPFW_NW_PROTO = OFPFW_NW_PROTO"
    "OFPFW_ALL AND OFPFW_TP_SRC = OFPFW_TP_SRC" "OFPFW_ALL AND OFPFW_TP_DST = OFPFW_TP_DST"
    by simp_all
  note fk = flags [THEN exact_field_key [OF k]] flags [THEN exact_field_key [OF k']]
  show ?thesis
    using key unfolding strict_key_def fk exact_masks [OF k] exact_masks [OF k'] hash_exact_match_entry_def
    by simp
qed

interpretation exact_keys: hash_keys compare_exact_match_entry hash_exact_match_entry exact_match
proof unfold_locales
  show "compare_exact_match_entry k k" for k
    by (simp only: compare_exact_match_entry_def compare_match_strict_refl)
  show "compare_exact_match_entry k k'" if "compare_exact_match_entry k' k" for k k'
    using that by (simp only: compare_exact_match_entry_def compare_match_strict_sym [of k])
  show "compare_exact_match_entry a c" if "compare_exact_match_entry a b" "compare_exact_match_entry b c" for a b c
    using that by (simp only: compare_exact_match_entry_def compare_match_strict_key)
qed (simp_all only: compare_exact_match_entry_def strict_exact strict_exact_hash)

lemma find_store:
  "keys_apart compare es \<Longrightarrow> (\<And>k. k \<in> fst ` set es \<Longrightarrow> compare key k \<Longrightarrow> compare k' k = same) \<Longrightarrow>
   (\<And>k. k \<in> fst ` set es \<Longrightarrow> \<not> compare key k \<Longrightarrow> same \<Longrightarrow> \<not> compare k' k) \<Longrightarrow>
   find_entry compare k' (store_entry compare key f es) =
     (if same then map_option f (find_entry compare k' es) else find_entry compare k' es)"
  by (induction es) auto

lemma store_entry_keys: "map fst (store_entry compare key f es) = map fst es"
  by (induction es) auto

lemma find_entry_None_keys: "find_entry compare key es = None \<longleftrightarrow> (\<forall>k \<in> set (map fst es). \<not> compare key k)"
  by (simp add: find_entry_None)

lemma keys_apart_keys: "map fst es = map fst es' \<Longrightarrow> keys_apart compare es = keys_apart compare es'"
proof (induction es arbitrary: es')
  case (Cons e es)
  then obtain e' es'' where "es' = e' # es''" by (cases es') auto
  with Cons show ?case by (cases e; cases e') (simp add: find_entry_None_keys)
qed simp

abbreviation exact_tbl :: "(ofp_match, 'd match_entry) hash_table \<Rightarrow> bool" where
  "exact_tbl \<equiv> hash_inv compare_exact_match_entry hash_exact_match_entry exact_match"

lemma bucket_of_set_value:
  "bucket_of (set_hash_value t key f) i =
     (if i = get_bucket_index t key then store_entry (ht_compare t) key f (bucket_of t i) else bucket_of t i)"
  by (auto simp: bucket_of_def set_hash_value_def Let_def split: option.split)

lemma set_hash_value_fields [simp]:
  "number_of_buckets (set_hash_value t key f) = number_of_buckets t"
  "ht_compare (set_hash_value t key f) = ht_compare t" "ht_hash (set_hash_value t key f) = ht_hash t"
  "ht_length (set_hash_value t key f) = ht_length t"
  "nonempty_bucket_index (set_hash_value t key f) = nonempty_bucket_index t"
  "buckets (set_hash_value t key f) = (buckets t)(get_bucket_index t key :=
     map_option (store_entry (ht_compare t) key f) (buckets t (get_bucket_index t key)))"
  by (simp_all add: set_hash_value_def Let_def)

lemma store_tbl:
  assumes t: "exact_tbl t"
  shows "exact_tbl (set_hash_value t key f)"
proof (rule exact_keys.tbl_update [OF t set_hash_value_fields(6,1-3)])
  let ?i = "get_bucket_index t key"
  show "distinct (nonempty_bucket_index (set_hash_value t key f))"
    "set (nonempty_bucket_index (set_hash_value t key f)) = dom (buckets (set_hash_value t key f))"
    using t by (auto simp: hash_inv_def domIff)
  have len: "length (store_entry c key f es) = length es" for c es
    by (metis length_map store_entry_keys)
  show "ht_length (set_hash_value t key f) + of_nat (length (bucket_of t ?i)) =
      ht_length t + of_nat (length (bucket_of (set_hash_value t key f) ?i))"
    by (simp add: bucket_of_set_value len)
  fix es assume "map_option (store_entry (ht_compare t) key f) (buckets t ?i) = Some es"
  then obtain es' where es': "buckets t ?i = Some es'" "es = store_entry (ht_compare t) key f es'" by auto
  have keys: "map fst es = map fst es'" by (simp add: es' store_entry_keys)
  then have "fst ` set es = fst ` set es'" by (metis list.set_map)
  moreover have "\<forall>k \<in> fst ` set es'. exact_match k \<and> get_bucket_index t k = ?i" "es' \<noteq> []"
      "keys_apart compare_exact_match_entry es'"
    using t es'(1) by (auto simp: hash_inv_def)
  ultimately have "\<forall>k \<in> fst ` set es. exact_match k \<and> get_bucket_index t k = ?i" "es \<noteq> []"
      "keys_apart compare_exact_match_entry es"
    using keys keys_apart_keys [OF keys] by auto
  then show "es \<noteq> [] \<and> keys_apart compare_exact_match_entry es \<and>
      (\<forall>e \<in> set es. exact_match (fst e) \<and> get_bucket_index t (fst e) = ?i)"
    by blast
qed

lemma lookup_store:
  assumes t: "exact_tbl t" and m: "exact_match m"
  shows "lookup_hash_entry (set_hash_value t m f) m' =
     (if compare_match_strict m' m then map_option f (lookup_hash_entry t m') else lookup_hash_entry t m')"
proof -
  have cmp: "ht_compare t = compare_exact_match_entry" using t by (simp add: hash_inv_def)
  have idx: "get_bucket_index (set_hash_value t m f) k = get_bucket_index t k" for k
    by (simp add: get_bucket_index_def)
  have same: "get_bucket_index t m' = get_bucket_index t m" if "compare_match_strict m' m"
    using exact_keys.compare_index [OF t m, of m'] that by (simp only: compare_exact_match_entry_def)
  have "find_entry compare_exact_match_entry m' (store_entry compare_exact_match_entry m f (bucket_of t i)) =
      (if compare_match_strict m' m then map_option f (find_entry compare_exact_match_entry m' (bucket_of t i))
       else find_entry compare_exact_match_entry m' (bucket_of t i))" for i
    by (rule find_store [OF exact_keys.tbl_bucket(1) [OF t]])
      (auto simp: compare_exact_match_entry_def compare_match_strict_key)
  then show ?thesis using same
    unfolding lookup_hash_entry_eq idx bucket_of_set_value set_hash_value_fields cmp by simp
qed

section \<open>The whole table\<close>

definition table_inv :: "'d match_table \<Rightarrow> bool" where
  "table_inv t \<longleftrightarrow> exact_tbl (exact_table t) \<and> wild_inv (wildcards_table t)"

definition entry_ids :: "'d match_table \<Rightarrow> nat set" where
  "entry_ids t = me_id ` set (wildcards_table t)"

definition same_flow :: "ofp_match \<Rightarrow> 16 word \<Rightarrow> ofp_match \<Rightarrow> 16 word \<Rightarrow> bool" where
  "same_flow m p m' p' \<longleftrightarrow> compare_match_strict m m' \<and> (exact_match m \<or> p = p')"

definition strict_entry :: "'d match_table \<Rightarrow> ofp_match \<Rightarrow> 16 word \<Rightarrow> 'd option" where
  "strict_entry t m p = map_option me_data
     (if exact_match m then lookup_hash_entry (exact_table t) m else wild_find (wildcards_table t) m p)"

lemma lookup_match_strict_eq: "table_inv t \<Longrightarrow> lookup_match_strict_entry (Some t) m p = Ok (strict_entry t m p)"
  by (simp add: lookup_match_strict_entry_def with_table_def strict_entry_def table_inv_def
      lookup_wildcards_strict_eq wild_inv_def lookup_exact_match_strict_entry_def)

lemma init_table:
  assumes "init_match_table None = Ok (Some t)"
  shows "table_inv t" and "strict_entry t m p = None"
  using assms exact_keys.create_tbl [of default_hash_size] exact_keys.lookup_create [of default_hash_size]
  by (auto simp: init_match_table_def die_unless_def table_inv_def init_exact_match_table_def create_hash_def
      default_hash_size_def create_list_def wild_inv_def wild_sorted_def strict_entry_def wild_find_def)

lemma strict_exact_iff: "compare_match_strict m m' \<Longrightarrow> exact_match m = exact_match m'"
  by (simp add: compare_match_strict_key strict_key_def exact_match_def)

lemma strict_key_sym: "compare_match_strict m' m \<longleftrightarrow> compare_match_strict m m'"
  by (rule compare_match_strict_sym)

lemma insert_table:
  assumes inv: "table_inv t" and fresh: "new \<notin> entry_ids t"
  shows "\<exists>t'. insert_match_entry (Some t) new m p d = Ok (Some t', strict_entry t m p = None) \<and> table_inv t' \<and>
     entry_ids t' \<subseteq> insert new (entry_ids t) \<and>
     (\<forall>m' p'. strict_entry t' m' p' =
        (if strict_entry t m p = None \<and> same_flow m p m' p' then Some d else strict_entry t m' p'))"
proof (cases "exact_match m")
  case True
  have t: "exact_tbl (exact_table t)" using inv by (simp add: table_inv_def)
  let ?t' = "t\<lparr>exact_table := fst (insert_hash_entry (exact_table t) m (allocate_match_entry new m 0 d))\<rparr>"
  show ?thesis
  proof (cases "lookup_hash_entry (exact_table t) m")
    case None
    have ins: "insert_match_entry (Some t) new m p d = Ok (Some ?t', True)"
      using True None insert_hash_entry_fields(5) [of "exact_table t" m "allocate_match_entry new m 0 d"]
      by (simp add: insert_match_entry_def with_table_def insert_exact_match_entry_def assert_then_def
          case_prod_beta)
    moreover have "table_inv ?t'" using inv exact_keys.insert_tbl [OF t True] by (simp add: table_inv_def)
    moreover have "strict_entry ?t' m' p' =
        (if same_flow m p m' p' then Some d else strict_entry t m' p')" for m' p'
      using True strict_exact_iff [of m m']
      by (auto simp: strict_entry_def exact_keys.lookup_insert [OF t True] same_flow_def
          compare_exact_match_entry_def strict_key_sym [of m'] allocate_match_entry_def)
    ultimately show ?thesis using None True by (intro exI [of _ ?t']) (auto simp: strict_entry_def entry_ids_def allocate_match_entry_def)
  next
    case (Some e)
    with True inv show ?thesis
      by (intro exI [of _ t]) (auto simp: insert_match_entry_def with_table_def insert_exact_match_entry_def
          strict_entry_def)
  qed
next
  case False
  have w: "wild_inv (wildcards_table t)" using inv by (simp add: table_inv_def)
  let ?t' = "t\<lparr>wildcards_table := wild_insert (wildcards_table t) (allocate_match_entry new m p d)\<rparr>"
  show ?thesis
  proof (cases "wild_find (wildcards_table t) m p")
    case None
    have "insert_match_entry (Some t) new m p d = Ok (Some ?t', True)"
      using False None by (simp add: insert_match_entry_def with_table_def insert_wildcards_eq [OF w])
    moreover have "table_inv ?t'" using inv wild_inv_insert [OF w fresh [unfolded entry_ids_def] None] by (simp add: table_inv_def)
    moreover have "strict_entry ?t' m' p' =
        (if same_flow m p m' p' then Some d else strict_entry t m' p')" for m' p'
      using False strict_exact_iff [of m m']
      by (auto simp: strict_entry_def wild_find_insert [OF w None] same_flow_def
          compare_match_strict_key)
    ultimately show ?thesis using None False by (intro exI [of _ ?t']) (auto simp: strict_entry_def entry_ids_def allocate_match_entry_def)
  next
    case (Some e)
    with False inv show ?thesis
      by (intro exI [of _ t]) (auto simp: insert_match_entry_def with_table_def insert_wildcards_eq [OF w]
          strict_entry_def)
  qed
qed

lemma lookup_strict_cong:
  assumes t: "exact_tbl t" and "compare_match_strict m m'"
  shows "lookup_hash_entry t m' = lookup_hash_entry t m"
  using exact_keys.entries_lookup [OF t, of m] exact_keys.entries_lookup [OF t, of m'] assms(2)
  by (intro option_eqI) (simp only: compare_exact_match_entry_def compare_match_strict_key)

lemma delete_table:
  assumes inv: "table_inv t"
  shows "\<exists>t'. delete_match_strict_entry (Some t) m p = Ok (Some t', strict_entry t m p) \<and> table_inv t' \<and>
     entry_ids t' \<subseteq> entry_ids t \<and>
     (\<forall>m' p'. strict_entry t' m' p' = (if same_flow m p m' p' then None else strict_entry t m' p'))"
proof (cases "exact_match m")
  case True
  have t: "exact_tbl (exact_table t)" using inv by (simp add: table_inv_def)
  let ?t' = "t\<lparr>exact_table := fst (delete_hash_entry (exact_table t) m)\<rparr>"
  show ?thesis
  proof (cases "lookup_hash_entry (exact_table t) m")
    case None
    with True inv lookup_strict_cong [OF t] show ?thesis
      by (intro exI [of _ t]) (auto simp: delete_match_strict_entry_def with_table_def
          delete_exact_match_strict_entry_def strict_entry_def same_flow_def dest: strict_exact_iff)
  next
    case (Some e)
    have "strict_entry ?t' m' p' = (if same_flow m p m' p' then None else strict_entry t m' p')" for m' p'
      using True strict_exact_iff [of m m']
      by (auto simp: strict_entry_def exact_keys.lookup_delete [OF t True] same_flow_def
          compare_exact_match_entry_def strict_key_sym [of m'])
    moreover have "table_inv ?t'" using inv exact_keys.delete_tbl [OF t] by (simp add: table_inv_def)
    ultimately show ?thesis using True Some
      by (intro exI [of _ ?t']) (simp add: delete_match_strict_entry_def with_table_def
          delete_exact_match_strict_entry_def strict_entry_def entry_ids_def)
  qed
next
  case False
  have w: "wild_inv (wildcards_table t)" using inv by (simp add: table_inv_def)
  let ?t' = "t\<lparr>wildcards_table := filter (\<lambda>e. wild_key e \<noteq> (p, strict_key m)) (wildcards_table t)\<rparr>"
  have "delete_match_strict_entry (Some t) m p = Ok (Some ?t', strict_entry t m p)"
    using False by (simp add: delete_match_strict_entry_def with_table_def delete_wildcards_eq [OF w] strict_entry_def)
  moreover have "table_inv ?t'" using inv wild_inv_filter [OF w] by (simp add: table_inv_def)
  moreover have "strict_entry ?t' m' p' = (if same_flow m p m' p' then None else strict_entry t m' p')" for m' p'
    using False strict_exact_iff [of m m'] wild_find_filter [of p m "wildcards_table t" m' p']
    by (auto simp: strict_entry_def same_flow_def compare_match_strict_key)
  moreover have "entry_ids ?t' \<subseteq> entry_ids t" by (auto simp: entry_ids_def)
  ultimately show ?thesis by blast
qed

lemma update_table:
  assumes inv: "table_inv t"
  shows "\<exists>t'. update_match_entry (Some t) m p d = Ok (Some t', strict_entry t m p \<noteq> None) \<and> table_inv t' \<and>
     entry_ids t' \<subseteq> entry_ids t \<and>
     (\<forall>m' p'. strict_entry t' m' p' =
        (if same_flow m p m' p' then map_option (\<lambda>_. d) (strict_entry t m' p') else strict_entry t m' p'))"
proof (cases "exact_match m")
  case True
  have t: "exact_tbl (exact_table t)" using inv by (simp add: table_inv_def)
  show ?thesis
  proof (cases "lookup_hash_entry (exact_table t) m")
    case None
    with True inv lookup_strict_cong [OF t] show ?thesis
      by (intro exI [of _ t]) (auto simp: update_match_entry_def with_table_def update_exact_match_entry_def
          lookup_exact_match_strict_entry_def strict_entry_def same_flow_def dest: strict_exact_iff)
  next
    case (Some e)
    let ?t' = "t\<lparr>exact_table := set_hash_value (exact_table t) m (\<lambda>e. e\<lparr>me_data := d\<rparr>)\<rparr>"
    have "strict_entry ?t' m' p' =
        (if same_flow m p m' p' then map_option (\<lambda>_. d) (strict_entry t m' p') else strict_entry t m' p')" for m' p'
      using True strict_exact_iff [of m m']
      by (auto simp: strict_entry_def lookup_store [OF t True] same_flow_def strict_key_sym [of m']
          option.map_comp comp_def)
    moreover have "table_inv ?t'" using inv store_tbl [OF t] by (simp add: table_inv_def)
    ultimately show ?thesis using True Some
      by (intro exI [of _ ?t']) (simp add: update_match_entry_def with_table_def update_exact_match_entry_def
          lookup_exact_match_strict_entry_def strict_entry_def entry_ids_def)
  qed
next
  case False
  have w: "wild_inv (wildcards_table t)" using inv by (simp add: table_inv_def)
  let ?f = "\<lambda>e. if wild_key e = (p, strict_key m) then e\<lparr>me_data := d\<rparr> else e"
  let ?t' = "t\<lparr>wildcards_table := map ?f (wildcards_table t)\<rparr>"
  have "update_match_entry (Some t) m p d = Ok (Some ?t', strict_entry t m p \<noteq> None)"
    using False by (simp add: update_match_entry_def with_table_def update_wildcards_eq [OF w] strict_entry_def)
  moreover have "table_inv ?t'" using inv wild_inv_map [of ?f "wildcards_table t"] by (simp add: table_inv_def)
  moreover have "strict_entry ?t' m' p' =
      (if same_flow m p m' p' then map_option (\<lambda>_. d) (strict_entry t m' p') else strict_entry t m' p')" for m' p'
  proof -
    have "map_option me_data (wild_find (map ?f (wildcards_table t)) m' p') =
        (if (p', strict_key m') = (p, strict_key m) then map_option (\<lambda>_. d) (wild_find (wildcards_table t) m' p')
         else map_option me_data (wild_find (wildcards_table t) m' p'))"
      using wild_find_key [of "wildcards_table t" m' p']
      by (cases "wild_find (wildcards_table t) m' p'") (auto simp: wild_find_map)
    then show ?thesis using False strict_exact_iff [of m m']
      by (auto simp: strict_entry_def same_flow_def compare_match_strict_key option.map_comp comp_def)
  qed
  moreover have "entry_ids ?t' \<subseteq> entry_ids t" by (auto simp: entry_ids_def)
  ultimately show ?thesis by blast
qed

text \<open>Looking a packet up: the exact entry first, then a wildcard entry of the highest priority.\<close>

lemma lookup_match_eq:
  assumes "table_inv t"
  shows "\<exists>r. lookup_match_entry (Some t) m = Ok (map_option me_data r) \<and>
     (lookup_hash_entry (exact_table t) m \<noteq> None \<longrightarrow> r = lookup_hash_entry (exact_table t) m) \<and>
     (lookup_hash_entry (exact_table t) m = None \<longrightarrow>
       (case r of
          None \<Rightarrow> \<forall>e \<in> set (wildcards_table t). \<not> compare_match (me_match e) m
        | Some e \<Rightarrow> e \<in> set (wildcards_table t) \<and> compare_match (me_match e) m \<and>
            (\<forall>x \<in> set (wildcards_table t). compare_match (me_match x) m \<longrightarrow> me_priority x \<le> me_priority e)))"
proof -
  have w: "wild_sorted (wildcards_table t)" using assms by (simp add: table_inv_def wild_inv_def)
  show ?thesis
    using lookup_wildcards_best [OF w, of m]
    by (intro exI [of _ "case lookup_hash_entry (exact_table t) m of
          None \<Rightarrow> lookup_wildcards_match_entry (wildcards_table t) m | Some e \<Rightarrow> Some e"])
      (auto simp: lookup_match_entry_def with_table_def lookup_exact_match_strict_entry_def split: option.splits)
qed

section \<open>Sequences of operations\<close>

text \<open>A flow: its key, with the priority where the table keeps it.\<close>

definition flow_key :: "ofp_match \<Rightarrow> 16 word \<Rightarrow> 16 word option \<times> _" where
  "flow_key m p = (if exact_match m then None else Some p, strict_key m)"

datatype 'd match_op = Insert_match ofp_match "16 word" 'd | Update_match ofp_match "16 word" 'd
  | Delete_match ofp_match "16 word"

text \<open>The operations on the table, with the addresses the allocator hands out counted up.\<close>

fun run_match_ops :: "nat \<Rightarrow> 'd match_op list \<Rightarrow> 'd match_head \<Rightarrow> 'd match_head res" where
  "run_match_ops new [] h = Ok h"
| "run_match_ops new (Insert_match m p d # ops) h =
     bnd (insert_match_entry h new m p d) (\<lambda>(h', _). run_match_ops (Suc new) ops h')"
| "run_match_ops new (Update_match m p d # ops) h =
     bnd (update_match_entry h m p d) (\<lambda>(h', _). run_match_ops new ops h')"
| "run_match_ops new (Delete_match m p # ops) h =
     bnd (delete_match_strict_entry h m p) (\<lambda>(h', _). run_match_ops new ops h')"

fun flow_map_op where
  "flow_map_op f (Insert_match m p d) = (if f (flow_key m p) = None then f(flow_key m p \<mapsto> d) else f)"
| "flow_map_op f (Update_match m p d) = (if f (flow_key m p) = None then f else f(flow_key m p \<mapsto> d))"
| "flow_map_op f (Delete_match m p) = f(flow_key m p := None)"

definition table_is :: "'d match_table \<Rightarrow> _ \<Rightarrow> bool" where
  "table_is t f \<longleftrightarrow> table_inv t \<and> (\<forall>m p. strict_entry t m p = f (flow_key m p))"

lemma same_flow_key: "same_flow m p m' p' \<longleftrightarrow> flow_key m p = flow_key m' p'"
  using strict_exact_iff [of m m'] by (auto simp: same_flow_def flow_key_def compare_match_strict_key)

lemma match_op_step:
  assumes "table_is t f" and "\<forall>i \<in> entry_ids t. i < new"
  shows "\<exists>t' new'. run_match_ops new (oper # ops) (Some t) = run_match_ops new' ops (Some t') \<and>
     table_is t' (flow_map_op f oper) \<and> (\<forall>i \<in> entry_ids t'. i < new')"
proof (cases oper)
  case (Insert_match m p d)
  have "new \<notin> entry_ids t" using assms(2) by blast
  from insert_table [OF _ this, of m p d] assms obtain t' where
    "insert_match_entry (Some t) new m p d = Ok (Some t', strict_entry t m p = None)" "table_inv t'"
    "entry_ids t' \<subseteq> insert new (entry_ids t)"
    "\<forall>m' p'. strict_entry t' m' p' =
        (if strict_entry t m p = None \<and> same_flow m p m' p' then Some d else strict_entry t m' p')"
    unfolding table_is_def by blast
  with Insert_match assms show ?thesis
    by (intro exI [of _ t'] exI [of _ "Suc new"]) (auto simp: table_is_def same_flow_key less_Suc_eq)
next
  case (Update_match m p d)
  from update_table [of t m p d] assms obtain t' where
    "update_match_entry (Some t) m p d = Ok (Some t', strict_entry t m p \<noteq> None)" "table_inv t'"
    "entry_ids t' \<subseteq> entry_ids t"
    "\<forall>m' p'. strict_entry t' m' p' =
        (if same_flow m p m' p' then map_option (\<lambda>_. d) (strict_entry t m' p') else strict_entry t m' p')"
    unfolding table_is_def by blast
  with Update_match assms show ?thesis
    by (intro exI [of _ t'] exI [of _ new]) (auto simp: table_is_def same_flow_key)
next
  case (Delete_match m p)
  from delete_table [of t m p] assms obtain t' where
    "delete_match_strict_entry (Some t) m p = Ok (Some t', strict_entry t m p)" "table_inv t'"
    "entry_ids t' \<subseteq> entry_ids t"
    "\<forall>m' p'. strict_entry t' m' p' = (if same_flow m p m' p' then None else strict_entry t m' p')"
    unfolding table_is_def by blast
  with Delete_match assms show ?thesis
    by (intro exI [of _ t'] exI [of _ new]) (auto simp: table_is_def same_flow_key)
qed

lemma run_match_ops_refines:
  assumes "table_is t f" and "\<forall>i \<in> entry_ids t. i < new"
  shows "\<exists>t'. run_match_ops new ops (Some t) = Ok (Some t') \<and> table_is t' (foldl flow_map_op f ops)"
  using assms
proof (induction ops arbitrary: t f new)
  case (Cons oper ops)
  from match_op_step [OF Cons.prems, of oper ops] Cons.IH show ?case by fastforce
qed auto

lemma init_table_is:
  "\<exists>t :: 'd match_table. init_match_table None = Ok (Some t) \<and> table_is t (\<lambda>_. None) \<and> entry_ids t = {}"
proof -
  obtain t :: "'d match_table" where t: "init_match_table None = Ok (Some t)" "entry_ids t = {}"
    by (simp add: init_match_table_def die_unless_def entry_ids_def create_list_def)
  with init_table [OF t(1)] show ?thesis by (auto simp: table_is_def)
qed

end
