(* ===== verification/Xid_Table.thy ===== *)
theory Xid_Table
  imports Hash_Table
begin

text \<open>
  The table of pending transactions of a switch daemon, \<open>src/switch_manager/xid_table.c\<close>.  A request
  of an application gets a transaction id of its own; the table remembers whose it was.  It keeps each
  entry twice: in an array of \<open>XID_MAX_ENTRIES\<close> places that is filled round and round, and in a hash
  table keyed by the id.  An entry does not change once it is made, so the two pointers to it are two
  copies of its value; stores outside the array are faults.

  The invariant \<open>xid_inv\<close> says that the two indices agree; it is preserved by every operation, and
  the lemmas \<open>insert_xid_entry_ok\<close> and \<open>xid_survives\<close> say what a lookup returns after insertions.
\<close>

section \<open>The table\<close>

definition XID_MAX_ENTRIES :: nat where
  "XID_MAX_ENTRIES = 4096"

record xid_entry =
  xe_xid :: "32 word"
  xe_original_xid :: "32 word"
  xe_service_name :: bytes
  xe_index :: nat

record xid_table =
  xt_entries :: "nat \<Rightarrow> xid_entry option"
  xt_hash :: "(32 word, xid_entry) hash_table"
  xt_next_index :: nat
  xt_transaction_id :: "32 word"

definition lookup_xid_entry :: "xid_table \<Rightarrow> 32 word \<Rightarrow> xid_entry option" where
  "lookup_xid_entry t xid = lookup_hash_entry (xt_hash t) xid"

text \<open>
  The search for a free id.  It starts at \<open>transaction_id\<close> and stops at the first id that is not in
  the table, or with 0 when it is back at \<open>initial_value\<close>.
\<close>

function generate_xid_loop :: "xid_table \<Rightarrow> 32 word \<Rightarrow> 32 word \<Rightarrow> 32 word" where
  "generate_xid_loop t initial_value transaction_id =
     (if lookup_xid_entry t transaction_id = None then transaction_id
      else let transaction_id' = (if transaction_id \<noteq> 0xffffffff then transaction_id + 1 else 0)
           in if initial_value = transaction_id' then 0
              else generate_xid_loop t initial_value transaction_id')"
  by auto

lemma next_id_wraps: "(if x \<noteq> 0xffffffff then x + 1 else 0) = (x + 1 :: 32 word)"
  by simp

termination generate_xid_loop
proof (relation "measure (\<lambda>(t, i, x). unat (i - (x + 1)))", goal_cases)
  case (2 t i x x')
  have n: "i - (x + 1) \<noteq> 0" using 2 by (simp add: next_id_wraps)
  then have "i - (x + 1 + 1) = i - (x + 1) - 1" by simp
  then have "unat (i - (x + 1 + 1)) < unat (i - (x + 1))"
    using n by (metis measure_unat)
  then show ?case using 2 by (simp add: next_id_wraps)
qed simp

declare generate_xid_loop.simps [simp del]

definition generate_xid :: "xid_table \<Rightarrow> 32 word \<times> xid_table" where
  "generate_xid t =
     (let transaction_id = (if xt_transaction_id t \<noteq> 0xffffffff then xt_transaction_id t + 1
                            else xt_transaction_id t);
          initial_value = (if xt_transaction_id t \<noteq> 0xffffffff then transaction_id else 0);
          transaction_id = generate_xid_loop t initial_value transaction_id
      in (transaction_id, t\<lparr>xt_transaction_id := transaction_id\<rparr>))"

definition allocate_xid_entry :: "32 word \<Rightarrow> bytes \<Rightarrow> nat \<Rightarrow> xid_table \<Rightarrow> xid_entry \<times> xid_table" where
  "allocate_xid_entry original_xid name index t =
     (let (xid, t) = generate_xid t
      in (\<lparr>xe_xid = xid, xe_original_xid = original_xid, xe_service_name = name, xe_index = index\<rparr>, t))"

text \<open>A store to the array.\<close>

definition set_slot :: "nat \<Rightarrow> xid_entry option \<Rightarrow> xid_table \<Rightarrow> xid_table res" where
  "set_slot i e t =
     (if i < XID_MAX_ENTRIES then Ok (t\<lparr>xt_entries := (xt_entries t)(i := e)\<rparr>) else Fault Out_of_bounds)"

definition init_xid_table :: "32 word \<Rightarrow> xid_table" where
  "init_xid_table transaction_id =
     \<lparr>xt_entries = (\<lambda>_. None), xt_hash = create_hash compare_uint32 hash_uint32, xt_next_index = 0,
      xt_transaction_id = transaction_id\<rparr>"

definition delete_xid_entry :: "xid_entry \<Rightarrow> xid_table \<Rightarrow> xid_table res" where
  "delete_xid_entry e t =
     (case delete_hash_entry (xt_hash t) (xe_xid e) of
        (h, None) \<Rightarrow> Ok (t\<lparr>xt_hash := h\<rparr>)
      | (h, Some d) \<Rightarrow> set_slot (xe_index d) None (t\<lparr>xt_hash := h\<rparr>))"

definition insert_xid_entry :: "32 word \<Rightarrow> bytes \<Rightarrow> xid_table \<Rightarrow> (32 word \<times> xid_table) res" where
  "insert_xid_entry original_xid name t =
     (let t = (if xt_next_index t \<ge> XID_MAX_ENTRIES then t\<lparr>xt_next_index := 0\<rparr> else t)
      in bnd (case xt_entries t (xt_next_index t) of None \<Rightarrow> Ok t | Some e \<Rightarrow> delete_xid_entry e t) (\<lambda>t.
      let (new_entry, t) = allocate_xid_entry original_xid name (xt_next_index t) t;
          (h, old) = insert_hash_entry (xt_hash t) (xe_xid new_entry) new_entry;
          t = t\<lparr>xt_hash := h\<rparr>
      in bnd (case old of None \<Rightarrow> Ok t | Some e \<Rightarrow> set_slot (xe_index e) None t) (\<lambda>t.
         bnd (set_slot (xt_next_index t) (Some new_entry) t) (\<lambda>t.
         Ok (xe_xid new_entry, t\<lparr>xt_next_index := xt_next_index t + 1\<rparr>)))))"

text \<open>The entries that \<open>dump_xid_table\<close> logs, in the order of an iterator over the hash table.\<close>

definition dump_xid_table :: "nat \<Rightarrow> (32 word, xid_entry) hash_iterator \<Rightarrow> xid_table \<Rightarrow> xid_entry list res" where
  "dump_xid_table fuel iter t =
     bnd (init_hash_iterator (xt_hash t) iter) (\<lambda>iter.
     bnd (iterate_all fuel iter) (\<lambda>es. Ok (map snd es)))"

text \<open>What \<open>finalize_xid_table\<close> leaves: the array and the hash table are empty.\<close>

definition finalize_xid_table :: "xid_table \<Rightarrow> xid_table" where
  "finalize_xid_table t =
     t\<lparr>xt_entries := (\<lambda>i. if i < XID_MAX_ENTRIES then None else xt_entries t i),
       xt_hash := delete_hash (xt_hash t), xt_next_index := 0\<rparr>"

section \<open>The two indices agree\<close>

definition agree :: "(32 word \<Rightarrow> xid_entry option) \<Rightarrow> (nat \<Rightarrow> xid_entry option) \<Rightarrow> bool" where
  "agree look slots \<longleftrightarrow>
     (\<forall>x e. look x = Some e \<longrightarrow> xe_xid e = x \<and> xe_index e < XID_MAX_ENTRIES \<and> slots (xe_index e) = Some e) \<and>
     (\<forall>i e. slots i = Some e \<longrightarrow> xe_index e = i \<and> look (xe_xid e) = Some e)"

lemma agree_lookupD:
  "agree look slots \<Longrightarrow> look x = Some e \<Longrightarrow>
     xe_xid e = x \<and> xe_index e < XID_MAX_ENTRIES \<and> slots (xe_index e) = Some e"
  by (simp add: agree_def)

lemma agree_slotD:
  "agree look slots \<Longrightarrow> slots i = Some e \<Longrightarrow> xe_index e = i \<and> look (xe_xid e) = Some e \<and> i < XID_MAX_ENTRIES"
  unfolding agree_def by metis

lemma agree_delete:
  assumes a: "agree look slots" and e: "look x = Some e"
  shows "agree (look(x := None)) (slots(xe_index e := None))"
  unfolding agree_def
proof (intro conjI allI impI)
  fix y d assume d: "(look(x := None)) y = Some d"
  then have y: "look y = Some d" "y \<noteq> x" by (auto split: if_splits)
  note dd = agree_lookupD [OF a y(1)]
  show "xe_xid d = y" "xe_index d < XID_MAX_ENTRIES" using dd by auto
  have "xe_index d \<noteq> xe_index e"
    using dd agree_lookupD [OF a e] y(2) by (metis option.inject)
  then show "(slots(xe_index e := None)) (xe_index d) = Some d" using dd by simp
next
  fix i d assume "(slots(xe_index e := None)) i = Some d"
  then have i: "slots i = Some d" "i \<noteq> xe_index e" by (auto split: if_splits)
  note dd = agree_slotD [OF a i(1)]
  show "xe_index d = i" using dd by simp
  have "xe_xid d \<noteq> x" using dd e i(2) by (metis option.inject)
  then show "(look(x := None)) (xe_xid d) = Some d" using dd by simp
qed

lemma agree_insert:
  assumes a: "agree look slots" and e: "slots (xe_index e) = None" "xe_index e < XID_MAX_ENTRIES" "look (xe_xid e) = None"
  shows "agree (look(xe_xid e \<mapsto> e)) (slots(xe_index e \<mapsto> e))"
  unfolding agree_def
proof (intro conjI allI impI)
  fix y d assume "(look(xe_xid e \<mapsto> e)) y = Some d"
  then have "d = e \<and> y = xe_xid e \<or> look y = Some d" by (auto split: if_splits)
  then show "xe_xid d = y" "xe_index d < XID_MAX_ENTRIES" "(slots(xe_index e \<mapsto> e)) (xe_index d) = Some d"
    using agree_lookupD [OF a, of y d] e(1,2) by auto
next
  fix i d assume "(slots(xe_index e \<mapsto> e)) i = Some d"
  then have "d = e \<and> i = xe_index e \<or> slots i = Some d" by (auto split: if_splits)
  then show "xe_index d = i" "(look(xe_xid e \<mapsto> e)) (xe_xid d) = Some d"
    using agree_slotD [OF a, of i d] e(3) by auto
qed

definition xid_inv :: "xid_table \<Rightarrow> bool" where
  "xid_inv t \<longleftrightarrow>
     hash_inv compare_uint32 hash_uint32 (\<lambda>_. True) (xt_hash t) \<and> xt_next_index t \<le> XID_MAX_ENTRIES \<and>
     agree (lookup_xid_entry t) (xt_entries t)"

lemma xid_inv_hash: "xid_inv t \<Longrightarrow> hash_inv compare_uint32 hash_uint32 (\<lambda>_. True) (xt_hash t)"
  and xid_inv_agree: "xid_inv t \<Longrightarrow> agree (lookup_xid_entry t) (xt_entries t)"
  by (simp_all add: xid_inv_def)

lemma lookup_xid_simps [simp]:
  "lookup_xid_entry (t\<lparr>xt_transaction_id := x\<rparr>) = lookup_xid_entry t"
  "lookup_xid_entry (t\<lparr>xt_entries := es\<rparr>) = lookup_xid_entry t"
  "lookup_xid_entry (t\<lparr>xt_next_index := i\<rparr>) = lookup_xid_entry t"
  by (simp_all add: lookup_xid_entry_def fun_eq_iff)

lemma lookup_xid_delete:
  "xid_inv t \<Longrightarrow>
   lookup_xid_entry (t\<lparr>xt_hash := fst (delete_hash_entry (xt_hash t) x)\<rparr>) = (lookup_xid_entry t)(x := None)"
  by (rule ext) (simp add: lookup_xid_entry_def uint32_keys.lookup_delete xid_inv_hash compare_uint32_def)

lemma lookup_xid_insert:
  "xid_inv t \<Longrightarrow>
   lookup_xid_entry (t\<lparr>xt_hash := fst (insert_hash_entry (xt_hash t) x e)\<rparr>) = (lookup_xid_entry t)(x \<mapsto> e)"
  by (rule ext) (simp add: lookup_xid_entry_def uint32_keys.lookup_insert xid_inv_hash compare_uint32_def)

lemma init_xid_table_inv: "xid_inv (init_xid_table x)" and lookup_init_xid: "lookup_xid_entry (init_xid_table x) y = None"
  by (simp_all add: xid_inv_def agree_def init_xid_table_def lookup_xid_entry_def create_hash_def
      uint32_keys.create_tbl uint32_keys.lookup_create default_hash_size_def)

lemma xid_inv_id [simp]: "xid_inv (t\<lparr>xt_transaction_id := x\<rparr>) = xid_inv t"
  by (simp add: xid_inv_def)

text \<open>The search ends with an id that is not in use, or with 0.\<close>

lemma generate_xid_loop_free:
  "generate_xid_loop t i x = 0 \<or> lookup_xid_entry t (generate_xid_loop t i x) = None"
proof (induction t i x rule: generate_xid_loop.induct)
  case (1 t i x)
  then show ?case by (subst (1 2) generate_xid_loop.simps) (auto simp: Let_def)
qed

lemma generate_xid_free:
  "generate_xid t = (x, t') \<Longrightarrow> t' = t\<lparr>xt_transaction_id := x\<rparr> \<and> (x = 0 \<or> lookup_xid_entry t x = None)"
  unfolding generate_xid_def Let_def prod.inject using generate_xid_loop_free by metis

lemma delete_xid_entry_ok:
  assumes inv: "xid_inv t" and e: "lookup_xid_entry t (xe_xid e) = Some e"
  shows "\<exists>t'. delete_xid_entry e t = Ok t' \<and> xid_inv t' \<and>
     xt_next_index t' = xt_next_index t \<and> xt_transaction_id t' = xt_transaction_id t \<and>
     xt_entries t' = (xt_entries t)(xe_index e := None) \<and>
     lookup_xid_entry t' = (lookup_xid_entry t)(xe_xid e := None)"
proof -
  let ?t = "t\<lparr>xt_hash := fst (delete_hash_entry (xt_hash t) (xe_xid e))\<rparr>"
  let ?t' = "?t\<lparr>xt_entries := (xt_entries t)(xe_index e := None)\<rparr>"
  have i: "xe_index e < XID_MAX_ENTRIES" using agree_lookupD [OF xid_inv_agree [OF inv] e] by simp
  have "delete_xid_entry e t = Ok ?t'"
    using e i by (simp add: delete_xid_entry_def set_slot_def lookup_xid_entry_def case_prod_beta delete_hash_entry_fields(5))
  moreover have "xid_inv ?t'"
    using agree_delete [OF xid_inv_agree [OF inv] e] uint32_keys.delete_tbl [OF xid_inv_hash [OF inv]] inv
    by (simp add: xid_inv_def lookup_xid_delete)
  ultimately show ?thesis using lookup_xid_delete [OF inv] by simp
qed

text \<open>
  An insertion: the entry that was in the next place goes, and the id that is returned is that of an
  entry with the caller's id and name.
\<close>

definition next_slot :: "xid_table \<Rightarrow> nat" where
  "next_slot t = (if xt_next_index t \<ge> XID_MAX_ENTRIES then 0 else xt_next_index t)"

definition evicted :: "xid_table \<Rightarrow> 32 word \<Rightarrow> bool" where
  "evicted t y \<longleftrightarrow> (\<exists>e. xt_entries t (next_slot t) = Some e \<and> xe_xid e = y)"

lemma next_slot_less: "next_slot t < XID_MAX_ENTRIES"
  by (simp add: next_slot_def XID_MAX_ENTRIES_def)

definition reset_index :: "xid_table \<Rightarrow> xid_table" where
  "reset_index t = (if xt_next_index t \<ge> XID_MAX_ENTRIES then t\<lparr>xt_next_index := 0\<rparr> else t)"

lemma reset_index_simps [simp]:
  "xid_inv t \<Longrightarrow> xid_inv (reset_index t)" "xt_next_index (reset_index t) = next_slot t"
  "xt_entries (reset_index t) = xt_entries t" "lookup_xid_entry (reset_index t) = lookup_xid_entry t"
  by (simp_all add: reset_index_def xid_inv_def next_slot_def)

definition evict :: "xid_table \<Rightarrow> xid_table res" where
  "evict t = (case xt_entries t (xt_next_index t) of None \<Rightarrow> Ok t | Some e \<Rightarrow> delete_xid_entry e t)"

lemma evict_ok:
  assumes inv: "xid_inv t"
  shows "\<exists>t1. evict (reset_index t) = Ok t1 \<and>
     xid_inv t1 \<and> xt_next_index t1 = next_slot t \<and> xt_entries t1 = (xt_entries t)(next_slot t := None) \<and>
     lookup_xid_entry t1 = (\<lambda>y. if evicted t y then None else lookup_xid_entry t y)"
proof (cases "xt_entries t (next_slot t)")
  case None
  then show ?thesis using inv by (auto simp: evict_def evicted_def fun_upd_idem)
next
  case (Some e)
  have e: "xe_index e = next_slot t" "lookup_xid_entry (reset_index t) (xe_xid e) = Some e"
    using agree_slotD [OF xid_inv_agree [OF inv] Some] by auto
  have "(\<lambda>y. if evicted t y then None else lookup_xid_entry t y) = (lookup_xid_entry t)(xe_xid e := None)"
    using Some by (auto simp: evicted_def fun_eq_iff)
  then show ?thesis
    using delete_xid_entry_ok [OF reset_index_simps(1) [OF inv] e(2)] Some e(1) by (auto simp: evict_def)
qed

definition clear_old :: "xid_entry option \<Rightarrow> xid_table \<Rightarrow> xid_table res" where
  "clear_old old t = (case old of None \<Rightarrow> Ok t | Some e \<Rightarrow> set_slot (xe_index e) None t)"

lemma insert_new_entry:
  assumes inv: "xid_inv t" and i: "xt_next_index t < XID_MAX_ENTRIES" "xt_entries t (xt_next_index t) = None"
    and e: "xe_index e = xt_next_index t"
  shows "\<exists>t'. bnd (clear_old (lookup_xid_entry t (xe_xid e)) (t\<lparr>xt_hash := fst (insert_hash_entry (xt_hash t) (xe_xid e) e)\<rparr>))
       (\<lambda>t. bnd (set_slot (xt_next_index t) (Some e) t) (\<lambda>t. Ok (xe_xid e, t\<lparr>xt_next_index := xt_next_index t + 1\<rparr>))) =
         Ok (xe_xid e, t') \<and>
     xid_inv t' \<and> lookup_xid_entry t' = (lookup_xid_entry t)(xe_xid e \<mapsto> e) \<and> xt_next_index t' = Suc (xt_next_index t)"
proof -
  let ?h = "fst (insert_hash_entry (xt_hash t) (xe_xid e) e)"
  note a = xid_inv_agree [OF inv]
  have h: "hash_inv compare_uint32 hash_uint32 (\<lambda>_. True) ?h"
    using uint32_keys.insert_tbl [OF xid_inv_hash [OF inv]] by simp
  show ?thesis
  proof (cases "lookup_xid_entry t (xe_xid e)")
    case None
    have "agree ((lookup_xid_entry t)(xe_xid e \<mapsto> e)) ((xt_entries t)(xt_next_index t \<mapsto> e))"
      using agree_insert [OF a, of e] i e None by simp
    with None i h show ?thesis by (simp add: clear_old_def set_slot_def xid_inv_def lookup_xid_insert [OF inv])
  next
    case (Some d)
    let ?s = "(xt_entries t)(xe_index d := None)"
    have "agree ((lookup_xid_entry t)(xe_xid e := None)) ?s" using agree_delete [OF a Some] .
    then have "agree ((lookup_xid_entry t)(xe_xid e \<mapsto> e)) (?s(xt_next_index t \<mapsto> e))"
      using agree_insert [of "(lookup_xid_entry t)(xe_xid e := None)" ?s e] i e by simp
    with Some i h agree_lookupD [OF a Some] show ?thesis
      by (simp add: clear_old_def set_slot_def xid_inv_def lookup_xid_insert [OF inv])
  qed
qed

lemma insert_xid_entry_ok:
  assumes inv: "xid_inv t"
  shows "\<exists>x t'. insert_xid_entry original_xid name t = Ok (x, t') \<and> xid_inv t' \<and>
     (x = 0 \<or> lookup_xid_entry t x = None \<or> evicted t x) \<and> xt_next_index t' = Suc (next_slot t) \<and>
     lookup_xid_entry t' = (\<lambda>y. if evicted t y then None else lookup_xid_entry t y)
        (x \<mapsto> \<lparr>xe_xid = x, xe_original_xid = original_xid, xe_service_name = name, xe_index = next_slot t\<rparr>)"
proof -
  obtain t1 where t1: "evict (reset_index t) = Ok t1" "xid_inv t1" "xt_next_index t1 = next_slot t"
    "xt_entries t1 = (xt_entries t)(next_slot t := None)"
    "lookup_xid_entry t1 = (\<lambda>y. if evicted t y then None else lookup_xid_entry t y)"
    using evict_ok [OF inv] by blast
  obtain x t2 where x: "generate_xid t1 = (x, t2)" by (cases "generate_xid t1")
  have t2: "t2 = t1\<lparr>xt_transaction_id := x\<rparr>" "x = 0 \<or> lookup_xid_entry t1 x = None"
    using generate_xid_free [OF x] by auto
  define e where "e = \<lparr>xe_xid = x, xe_original_xid = original_xid, xe_service_name = name, xe_index = next_slot t\<rparr>"
  have "insert_xid_entry original_xid name t =
      bnd (clear_old (lookup_xid_entry t2 x) (t2\<lparr>xt_hash := fst (insert_hash_entry (xt_hash t2) x e)\<rparr>))
       (\<lambda>t. bnd (set_slot (xt_next_index t) (Some e) t) (\<lambda>t. Ok (x, t\<lparr>xt_next_index := xt_next_index t + 1\<rparr>)))"
    using t1(1,3) x t2(1)
    by (simp add: insert_xid_entry_def reset_index_def [symmetric] evict_def [symmetric] clear_old_def [symmetric]
        allocate_xid_entry_def case_prod_beta insert_hash_entry_fields(5) e_def lookup_xid_entry_def)
  moreover have "xe_xid e = x" by (simp add: e_def)
  moreover note insert_new_entry [of t2 e]
  ultimately show ?thesis using t1 t2 next_slot_less by (simp add: e_def) (auto simp: e_def split: if_splits)
qed

section \<open>Sequences of requests and answers\<close>

datatype xid_op = Request "32 word" bytes | Answer "32 word" | Generate

fun run_xid_op :: "xid_op \<Rightarrow> xid_table \<Rightarrow> xid_table res" where
  "run_xid_op (Request original_xid name) t = bnd (insert_xid_entry original_xid name t) (\<lambda>(x, t). Ok t)"
| "run_xid_op (Answer x) t = (case lookup_xid_entry t x of None \<Rightarrow> Ok t | Some e \<Rightarrow> delete_xid_entry e t)"
| "run_xid_op Generate t = Ok (snd (generate_xid t))"

fun run_xid_ops :: "xid_op list \<Rightarrow> xid_table \<Rightarrow> xid_table res" where
  "run_xid_ops [] t = Ok t"
| "run_xid_ops (oper # opers) t = bnd (run_xid_op oper t) (run_xid_ops opers)"

fun requests :: "xid_op list \<Rightarrow> nat" where
  "requests [] = 0"
| "requests (Request x name # opers) = Suc (requests opers)"
| "requests (Answer x # opers) = requests opers"
| "requests (Generate # opers) = requests opers"

lemma lookup_self: "xid_inv t \<Longrightarrow> lookup_xid_entry t x = Some e \<Longrightarrow> lookup_xid_entry t (xe_xid e) = Some e"
  using agree_lookupD [OF xid_inv_agree] by metis

lemma run_xid_op_inv:
  assumes "xid_inv t"
  shows "\<exists>t'. run_xid_op oper t = Ok t' \<and> xid_inv t'"
proof (cases oper)
  case (Request original_xid name)
  then show ?thesis using insert_xid_entry_ok [OF assms, of original_xid name] by auto
next
  case (Answer x)
  show ?thesis
  proof (cases "lookup_xid_entry t x")
    case (Some e)
    with Answer show ?thesis using delete_xid_entry_ok [OF assms lookup_self [OF assms Some]] by auto
  qed (use Answer assms in simp)
next
  case Generate
  then show ?thesis using assms by (simp add: generate_xid_def Let_def)
qed

lemma run_xid_ops_inv: "xid_inv t \<Longrightarrow> \<exists>t'. run_xid_ops opers t = Ok t' \<and> xid_inv t'"
proof (induction opers arbitrary: t)
  case (Cons oper opers)
  then show ?case using run_xid_op_inv [of t oper] by auto
qed simp

text \<open>How many insertions the place \<open>i\<close> of the array is safe from being filled again.\<close>

definition distance :: "xid_table \<Rightarrow> nat \<Rightarrow> nat" where
  "distance t i = (if next_slot t \<le> i then i - next_slot t else i + XID_MAX_ENTRIES - next_slot t)"

lemma not_evicted:
  assumes "xid_inv t" and "lookup_xid_entry t x = Some e" and "0 < distance t (xe_index e)"
  shows "\<not> evicted t x"
proof
  assume "evicted t x"
  then obtain d where "xt_entries t (next_slot t) = Some d" "xe_xid d = x" by (auto simp: evicted_def)
  then have "d = e" "xe_index d = next_slot t"
    using agree_slotD [OF xid_inv_agree [OF assms(1)]] assms(2) by auto
  then show False using assms(3) by (simp add: distance_def)
qed

lemma distance_step:
  "xt_next_index t' = Suc (next_slot t) \<Longrightarrow> i < XID_MAX_ENTRIES \<Longrightarrow> 0 < distance t i \<Longrightarrow>
   distance t' i = distance t i - 1"
  using next_slot_less [of t] by (auto simp: distance_def next_slot_def [of t'] XID_MAX_ENTRIES_def)

lemma run_xid_op_keeps:
  assumes inv: "xid_inv t" and e: "lookup_xid_entry t x = Some e" and "x \<noteq> 0" "oper \<noteq> Answer x"
    and "requests [oper] \<le> distance t (xe_index e)"
  shows "\<exists>t'. run_xid_op oper t = Ok t' \<and> xid_inv t' \<and> lookup_xid_entry t' x = Some e \<and>
     distance t (xe_index e) = requests [oper] + distance t' (xe_index e)"
proof (cases oper)
  case (Request original_xid name)
  have i: "xe_index e < XID_MAX_ENTRIES" using agree_lookupD [OF xid_inv_agree [OF inv] e] by simp
  have d: "0 < distance t (xe_index e)" using assms(5) Request by simp
  obtain y t' where t': "insert_xid_entry original_xid name t = Ok (y, t')" "xid_inv t'"
    "y = 0 \<or> lookup_xid_entry t y = None \<or> evicted t y" "xt_next_index t' = Suc (next_slot t)"
    "lookup_xid_entry t' = (\<lambda>y. if evicted t y then None else lookup_xid_entry t y)
        (y \<mapsto> \<lparr>xe_xid = y, xe_original_xid = original_xid, xe_service_name = name, xe_index = next_slot t\<rparr>)"
    using insert_xid_entry_ok [OF inv, of original_xid name] by blast
  have ev: "\<not> evicted t x" by (rule not_evicted [OF inv e d])
  then have "y \<noteq> x" using t'(3) e \<open>x \<noteq> 0\<close> by auto
  then have "lookup_xid_entry t' x = Some e" using t'(5) ev e by simp
  moreover have "distance t' (xe_index e) = distance t (xe_index e) - 1" by (rule distance_step [OF t'(4) i d])
  ultimately show ?thesis using Request t'(1,2) d by auto
next
  case (Answer y)
  then have y: "y \<noteq> x" using assms(4) by simp
  show ?thesis
  proof (cases "lookup_xid_entry t y")
    case (Some d)
    have "xe_xid d = y" using agree_lookupD [OF xid_inv_agree [OF inv] Some] by simp
    then obtain t' where "delete_xid_entry d t = Ok t'" "xid_inv t'" "xt_next_index t' = xt_next_index t"
      "lookup_xid_entry t' = (lookup_xid_entry t)(y := None)"
      using delete_xid_entry_ok [OF inv lookup_self [OF inv Some]] by auto
    with Answer Some y e show ?thesis by (simp add: distance_def next_slot_def)
  qed (use Answer inv e in simp)
next
  case Generate
  obtain y t' where y: "generate_xid t = (y, t')" by (cases "generate_xid t")
  have "t' = t\<lparr>xt_transaction_id := y\<rparr>" using generate_xid_free [OF y] by simp
  then show ?thesis using Generate y inv e by (simp add: distance_def next_slot_def)
qed

lemma xid_survives:
  assumes "xid_inv t" and "lookup_xid_entry t x = Some e" and "x \<noteq> 0" and "Answer x \<notin> set opers"
    and "requests opers \<le> distance t (xe_index e)"
  shows "\<exists>t'. run_xid_ops opers t = Ok t' \<and> xid_inv t' \<and> lookup_xid_entry t' x = Some e"
  using assms
proof (induction opers arbitrary: t)
  case (Cons oper opers)
  have r: "requests (oper # opers) = requests [oper] + requests opers" by (cases oper) simp_all
  obtain t' where t': "run_xid_op oper t = Ok t'" "xid_inv t'" "lookup_xid_entry t' x = Some e"
    "distance t (xe_index e) = requests [oper] + distance t' (xe_index e)"
    using run_xid_op_keeps [OF Cons.prems(1-3), of oper] Cons.prems(4,5) r by auto
  then show ?case using Cons.IH [of t'] Cons.prems r by simp
qed simp

lemma distance_new: "xt_next_index t' = Suc (next_slot t) \<Longrightarrow> distance t' (next_slot t) = XID_MAX_ENTRIES - 1"
  using next_slot_less [of t] by (auto simp: distance_def next_slot_def [of t'] XID_MAX_ENTRIES_def)

lemma request_pending:
  assumes inv: "xid_inv t"
  shows "\<exists>x t'. insert_xid_entry original_xid name t = Ok (x, t') \<and>
     (x = 0 \<or> lookup_xid_entry t x = None \<or> evicted t x) \<and>
     (x \<noteq> 0 \<longrightarrow> (\<forall>opers. Answer x \<notin> set opers \<longrightarrow> requests opers < XID_MAX_ENTRIES \<longrightarrow>
        (\<exists>t'' e. run_xid_ops opers t' = Ok t'' \<and> lookup_xid_entry t'' x = Some e \<and>
           xe_original_xid e = original_xid \<and> xe_service_name e = name)))"
proof -
  obtain x t' where t': "insert_xid_entry original_xid name t = Ok (x, t')" "xid_inv t'"
    "x = 0 \<or> lookup_xid_entry t x = None \<or> evicted t x" "xt_next_index t' = Suc (next_slot t)"
    "lookup_xid_entry t' x =
       Some \<lparr>xe_xid = x, xe_original_xid = original_xid, xe_service_name = name, xe_index = next_slot t\<rparr>"
    using insert_xid_entry_ok [OF inv, of original_xid name] by (auto simp del: fun_upd_apply) (auto)
  have "\<exists>t'' e. run_xid_ops opers t' = Ok t'' \<and> lookup_xid_entry t'' x = Some e \<and>
      xe_original_xid e = original_xid \<and> xe_service_name e = name"
    if "x \<noteq> 0" "Answer x \<notin> set opers" "requests opers < XID_MAX_ENTRIES" for opers
    using xid_survives [OF t'(2,5) that(1,2)] distance_new [OF t'(4)] that(3) by fastforce
  then show ?thesis using t'(1,3) by blast
qed

text \<open>The counter does not leave its last value unless that value is in the table.\<close>

lemma generate_xid_sticks:
  assumes "xt_transaction_id t = 0xffffffff"
  shows "lookup_xid_entry t 0xffffffff = None \<Longrightarrow> generate_xid t = (0xffffffff, t)"
    and "lookup_xid_entry t 0xffffffff \<noteq> None \<Longrightarrow> fst (generate_xid t) = 0"
  using assms by (simp_all add: generate_xid_def generate_xid_loop.simps [of _ _ "0xffffffff"])

end
