(* ===== verification/Cookie_Table.thy ===== *)
theory Cookie_Table
  imports Hash_Table "HOL-Library.While_Combinator"
begin

text \<open>
  The cookie table of a switch daemon, \<open>src/switch_manager/cookie_table.c\<close>.  Applications choose the
  cookies of their flows freely; the daemon replaces the pair of an application's cookie and the name
  of its service by a cookie of its own, counts the flows that use it, and finds the owner again when
  the switch reports that a flow is gone.

  An entry is reached from two hash tables and its reference count, expiry time and flags change, so
  entries live in a store \<open>ct_heap\<close> and the tables hold their addresses; an access to an address that
  has been freed is a fault.  \<open>time( NULL )\<close> is the argument \<open>now\<close>, and the reference count, a C
  \<open>int\<close>, is an unbounded integer.  A service name is its bytes without the terminating null
  character; \<open>strncpy\<close> into an array of \<open>MESSENGER_SERVICE_NAME_LENGTH\<close> bytes keeps the first 31.

  \<open>cookie_inv\<close> says that the two tables and the store agree.  The search for a free cookie is a
  \<open>while_option\<close> loop, shown to end.
\<close>

section \<open>Entries and tables\<close>

abbreviation "RESERVED_COOKIE \<equiv> (0 :: 64 word)"
abbreviation "INVALID_COOKIE \<equiv> (0xffffffffffffffff :: 64 word)"

definition MESSENGER_SERVICE_NAME_LENGTH :: nat where
  "MESSENGER_SERVICE_NAME_LENGTH = 32"

definition COOKIE_ENTRY_LIFETIME :: int where
  "COOKIE_ENTRY_LIFETIME = 86400 * 30"

definition BUCKETS_SIZE :: "32 word" where
  "BUCKETS_SIZE = 131063"

record application_entry =
  ae_cookie :: "64 word"
  ae_service_name :: bytes
  ae_flags :: "16 word"

record cookie_entry =
  ce_cookie :: "64 word"
  ce_application :: application_entry
  ce_reference_count :: int
  ce_expire_at :: int

record cookie_table =
  ct_heap :: "nat \<Rightarrow> cookie_entry option"
  ct_next_address :: nat
  ct_global :: "(64 word, nat) hash_table"
  ct_application :: "(application_entry, nat) hash_table"
  ct_cookie_dough :: "64 word"

definition compare_cookie :: "64 word \<Rightarrow> 64 word \<Rightarrow> bool" where
  "compare_cookie x y \<longleftrightarrow> x = y"

definition hash_cookie_entry :: "64 word \<Rightarrow> 32 word" where
  "hash_cookie_entry key = hash_core (rev (put64 key))"

definition compare_application :: "application_entry \<Rightarrow> application_entry \<Rightarrow> bool" where
  "compare_application x y \<longleftrightarrow> ae_cookie x = ae_cookie y \<and> ae_service_name x = ae_service_name y"

definition hash_application :: "application_entry \<Rightarrow> 32 word" where
  "hash_application key = hash_core (rev (put64 (ae_cookie key)))"

interpretation cookie_keys: hash_keys compare_cookie hash_cookie_entry "\<lambda>_. True"
  by unfold_locales (auto simp: compare_cookie_def)

interpretation application_keys: hash_keys compare_application hash_application "\<lambda>_. True"
  by unfold_locales (auto simp: compare_application_def hash_application_def)

definition deref_entry :: "cookie_table \<Rightarrow> nat \<Rightarrow> cookie_entry res" where
  "deref_entry t a = (case ct_heap t a of None \<Rightarrow> Fault Null_deref | Some e \<Rightarrow> Ok e)"

definition set_entry :: "nat \<Rightarrow> cookie_entry \<Rightarrow> cookie_table \<Rightarrow> cookie_table" where
  "set_entry a e t = t\<lparr>ct_heap := (ct_heap t)(a \<mapsto> e)\<rparr>"

definition free_cookie_entry :: "nat \<Rightarrow> cookie_table \<Rightarrow> cookie_table" where
  "free_cookie_entry a t = t\<lparr>ct_heap := (ct_heap t)(a := None)\<rparr>"

section \<open>Operations\<close>

definition lookup_cookie_entry_by_cookie :: "cookie_table \<Rightarrow> 64 word \<Rightarrow> nat option" where
  "lookup_cookie_entry_by_cookie t cookie = lookup_hash_entry (ct_global t) cookie"

definition truncated :: "bytes \<Rightarrow> bytes" where
  "truncated name = take (MESSENGER_SERVICE_NAME_LENGTH - 1) name"

definition lookup_cookie_entry_by_application :: "cookie_table \<Rightarrow> 64 word \<Rightarrow> bytes \<Rightarrow> nat option" where
  "lookup_cookie_entry_by_application t cookie name =
     lookup_hash_entry (ct_application t) \<lparr>ae_cookie = cookie, ae_service_name = truncated name, ae_flags = 0\<rparr>"

definition next_cookie :: "64 word \<Rightarrow> 64 word" where
  "next_cookie c = (if c \<noteq> INVALID_COOKIE - 1 then c + 1 else 1)"

definition generate_cookie_step :: "64 word \<Rightarrow> 64 word \<times> bool \<Rightarrow> 64 word \<times> bool" where
  "generate_cookie_step initial_value s =
     (let c = next_cookie (fst s) in if initial_value = c then (RESERVED_COOKIE, True) else (c, False))"

definition generate_cookie :: "cookie_table \<Rightarrow> (64 word \<times> cookie_table) res" where
  "generate_cookie t =
     (let initial_value = next_cookie (ct_cookie_dough t)
      in case while_option (\<lambda>(c, stop). \<not> stop \<and> lookup_cookie_entry_by_cookie t c \<noteq> None)
           (generate_cookie_step initial_value) (initial_value, False) of
           None \<Rightarrow> Fault No_return
         | Some (c, _) \<Rightarrow> Ok (c, t\<lparr>ct_cookie_dough := c\<rparr>))"

definition allocate_cookie_entry ::
  "64 word \<Rightarrow> bytes \<Rightarrow> 16 word \<Rightarrow> int \<Rightarrow> cookie_table \<Rightarrow> (nat \<times> cookie_table) res" where
  "allocate_cookie_entry original_cookie name flags now t =
     bnd (generate_cookie t) (\<lambda>(cookie, t).
       let a = ct_next_address t;
           e = \<lparr>ce_cookie = cookie,
                ce_application = \<lparr>ae_cookie = original_cookie, ae_service_name = truncated name, ae_flags = flags\<rparr>,
                ce_reference_count = 1, ce_expire_at = now + COOKIE_ENTRY_LIFETIME\<rparr>
       in Ok (a, set_entry a e (t\<lparr>ct_next_address := a + 1\<rparr>)))"

definition init_cookie_table :: "64 word \<Rightarrow> cookie_table" where
  "init_cookie_table cookie_dough =
     \<lparr>ct_heap = (\<lambda>_. None), ct_next_address = 0,
      ct_global = create_hash_with_size compare_cookie hash_cookie_entry BUCKETS_SIZE,
      ct_application = create_hash_with_size compare_application hash_application BUCKETS_SIZE,
      ct_cookie_dough = cookie_dough\<rparr>"

definition unlink_cookie_entry :: "cookie_entry \<Rightarrow> cookie_table \<Rightarrow> cookie_table" where
  "unlink_cookie_entry e t =
     t\<lparr>ct_global := fst (delete_hash_entry (ct_global t) (ce_cookie e)),
       ct_application := fst (delete_hash_entry (ct_application t) (ce_application e))\<rparr>"

definition delete_cookie_entry :: "nat \<Rightarrow> cookie_table \<Rightarrow> cookie_table res" where
  "delete_cookie_entry a t =
     bnd (deref_entry t a) (\<lambda>e.
       if ce_reference_count e > 1
       then Ok (set_entry a (e\<lparr>ce_reference_count := ce_reference_count e - 1\<rparr>) t)
       else Ok (free_cookie_entry a (unlink_cookie_entry e t)))"

definition insert_cookie_entry ::
  "64 word \<Rightarrow> bytes \<Rightarrow> 16 word \<Rightarrow> int \<Rightarrow> cookie_table \<Rightarrow> (64 word \<times> cookie_table) res" where
  "insert_cookie_entry original_cookie name flags now t =
     (case lookup_cookie_entry_by_application t original_cookie name of
        Some a \<Rightarrow>
          bnd (deref_entry t a) (\<lambda>e.
            Ok (ce_cookie e,
                set_entry a (e\<lparr>ce_reference_count := ce_reference_count e + 1,
                              ce_expire_at := now + COOKIE_ENTRY_LIFETIME,
                              ce_application := (ce_application e)\<lparr>ae_flags := ae_flags (ce_application e) OR flags\<rparr>\<rparr>) t))
      | None \<Rightarrow>
          bnd (allocate_cookie_entry original_cookie name flags now t) (\<lambda>(a, t).
          bnd (deref_entry t a) (\<lambda>e.
          bnd (case lookup_cookie_entry_by_cookie t (ce_cookie e) of
                 None \<Rightarrow> Ok t | Some conflict \<Rightarrow> delete_cookie_entry conflict t) (\<lambda>t.
          Ok (ce_cookie e,
              t\<lparr>ct_global := fst (insert_hash_entry (ct_global t) (ce_cookie e) a),
                ct_application := fst (insert_hash_entry (ct_application t) (ce_application e) a)\<rparr>)))))"

definition age_cookie_entry :: "int \<Rightarrow> nat \<Rightarrow> cookie_table \<Rightarrow> cookie_table res" where
  "age_cookie_entry now a t =
     bnd (deref_entry t a) (\<lambda>e.
       if ce_expire_at e < now then Ok (free_cookie_entry a (unlink_cookie_entry e t)) else Ok t)"

text \<open>
  \<open>age_cookie_table\<close> deletes entries while it iterates.  The iterator has moved to the cell behind an
  entry before it hands the entry out, and it remembers the next index, so a deletion of that entry
  does not change what it visits: it walks over the entries the table had at the start.
\<close>

fun age_cookie_loop :: "nat \<Rightarrow> int \<Rightarrow> (64 word, nat) hash_iterator \<Rightarrow> cookie_table \<Rightarrow> cookie_table res" where
  "age_cookie_loop 0 now iter t = Fault No_return"
| "age_cookie_loop (Suc fuel) now iter t =
     bnd (iterate_hash_next iter) (\<lambda>(e, iter).
       case e of None \<Rightarrow> Ok t
       | Some (key, a) \<Rightarrow> bnd (age_cookie_entry now a t) (age_cookie_loop fuel now iter))"

definition age_cookie_table ::
  "nat \<Rightarrow> int \<Rightarrow> (64 word, nat) hash_iterator \<Rightarrow> cookie_table \<Rightarrow> cookie_table res" where
  "age_cookie_table fuel now iter t =
     bnd (init_hash_iterator (ct_global t) iter) (\<lambda>iter. age_cookie_loop fuel now iter t)"

text \<open>\<open>finalize_cookie_table\<close> frees every entry of the first table and deletes both.\<close>

definition finalize_cookie_table :: "cookie_table \<Rightarrow> cookie_table" where
  "finalize_cookie_table t =
     (let t = foreach_hash (ct_global t) (\<lambda>_ a t. free_cookie_entry a t) t
      in t\<lparr>ct_global := delete_hash (ct_global t), ct_application := delete_hash (ct_application t)\<rparr>)"

section \<open>The search for a free cookie\<close>

definition legal_cookie :: "64 word \<Rightarrow> bool" where
  "legal_cookie c \<longleftrightarrow> c \<noteq> RESERVED_COOKIE \<and> c \<noteq> INVALID_COOKIE"

lemma unat_next_cookie:
  assumes "c \<noteq> INVALID_COOKIE"
  shows "unat (next_cookie c) = (if unat c = 2 ^ 64 - 2 then 1 else unat c + 1)"
proof -
  have m: "unat (INVALID_COOKIE - 1) = 2 ^ 64 - 2" "unat INVALID_COOKIE = 2 ^ 64 - 1" by simp_all
  have "c = INVALID_COOKIE - 1 \<longleftrightarrow> unat c = 2 ^ 64 - 2" by (metis m(1) word_unat_eq_iff)
  moreover have "unat (c + 1) = unat c + 1"
  proof -
    have "unat c \<noteq> 2 ^ 64 - 1" using assms m(2) by (metis word_unat_eq_iff)
    moreover have "unat c < 2 ^ 64" using unsigned_less [of c] by simp
    ultimately show ?thesis by (simp add: unat_word_ariths)
  qed
  ultimately show ?thesis by (simp add: next_cookie_def)
qed

lemma legal_unat: "legal_cookie c \<longleftrightarrow> 0 < unat c \<and> unat c < 2 ^ 64 - 1"
proof -
  have "unat c < 2 ^ 64" using unsigned_less [of c] by simp
  moreover have "c = INVALID_COOKIE \<longleftrightarrow> unat c = 2 ^ 64 - 1"
    using arg_cong [of c INVALID_COOKIE unat] by (auto simp: word_unat_eq_iff)
  moreover have "c = 0 \<longleftrightarrow> unat c = 0" by (simp add: unat_eq_zero)
  ultimately show ?thesis unfolding legal_cookie_def by arith
qed

lemma legal_next_cookie: "c \<noteq> INVALID_COOKIE \<Longrightarrow> legal_cookie (next_cookie c)"
  using unat_next_cookie [of c] legal_unat [of c] legal_unat [of "next_cookie c"] unsigned_less [of c]
  by (auto simp: legal_cookie_def split: if_splits)


definition visited :: "nat \<Rightarrow> nat \<Rightarrow> nat \<Rightarrow> bool" where
  "visited i d n \<longleftrightarrow> (if i \<le> d then i \<le> n \<and> n < d else i \<le> n \<or> n < d)"

definition search_inv :: "(64 word \<Rightarrow> bool) \<Rightarrow> 64 word \<Rightarrow> 64 word \<times> bool \<Rightarrow> bool" where
  "search_inv used i s \<longleftrightarrow>
     (if snd s then fst s = 0 \<and> (\<forall>x. legal_cookie x \<longrightarrow> used x)
      else legal_cookie (fst s) \<and> (\<forall>x. legal_cookie x \<and> visited (unat i) (unat (fst s)) (unat x) \<longrightarrow> used x))"

definition search_left :: "64 word \<Rightarrow> 64 word \<times> bool \<Rightarrow> nat" where
  "search_left i s =
     (if snd s then 0 else if unat i \<le> unat (fst s) then 2 ^ 65 - unat (fst s) else unat i - unat (fst s))"

lemma visited_next:
  assumes "0 < i" "i < 2 ^ 64 - 1" "0 < d" "d < 2 ^ 64 - 1" "0 < n" "n < 2 ^ 64 - (1 :: nat)"
    and "d' = (if d = 2 ^ 64 - 2 then 1 else d + 1)"
  shows "if i = d' then visited i d n \<or> n = d else visited i d' n \<longrightarrow> visited i d n \<or> n = d"
  using assms by (auto simp: visited_def split: if_splits)

lemma generate_cookie_step_inv:
  assumes i: "legal_cookie i" and s: "search_inv used i s" and go: "\<not> snd s" "used (fst s)"
  shows "search_inv used i (generate_cookie_step i s) \<and> search_left i (generate_cookie_step i s) < search_left i s"
proof -
  define c where "c = fst s"
  have c: "legal_cookie c" "used c" "\<And>x. legal_cookie x \<Longrightarrow> visited (unat i) (unat c) (unat x) \<Longrightarrow> used x"
    using s go by (auto simp: search_inv_def c_def)
  have n: "unat (next_cookie c) = (if unat c = 2 ^ 64 - 2 then 1 else unat c + 1)" "legal_cookie (next_cookie c)"
    using unat_next_cookie [of c] legal_next_cookie [of c] c(1) by (auto simp: legal_cookie_def)
  have ieq: "i = next_cookie c \<longleftrightarrow> unat i = unat (next_cookie c)" by (simp add: word_unat_eq_iff)
  have v: "if i = next_cookie c then visited (unat i) (unat c) (unat x) \<or> x = c
      else visited (unat i) (unat (next_cookie c)) (unat x) \<longrightarrow> visited (unat i) (unat c) (unat x) \<or> x = c"
    if "legal_cookie x" for x
    using visited_next [OF _ _ _ _ _ _ n(1), of "unat i" "unat x"] i c(1) that
    by (auto simp: legal_unat ieq word_unat_eq_iff split: if_splits)
  have "search_inv used i (generate_cookie_step i s)"
    using v c n(2)
    by (cases "i = next_cookie c") (auto simp: search_inv_def generate_cookie_step_def c_def [symmetric])
  moreover have "search_left i (generate_cookie_step i s) < search_left i s"
    using i c(1) n(1) go(1)
    by (cases "i = next_cookie c")
      (auto simp: search_left_def generate_cookie_step_def c_def [symmetric] legal_unat ieq split: if_splits)
  ultimately show ?thesis ..
qed

lemma generate_cookie_ok:
  assumes "ct_cookie_dough t \<noteq> INVALID_COOKIE"
  shows "\<exists>c. generate_cookie t = Ok (c, t\<lparr>ct_cookie_dough := c\<rparr>) \<and>
     (legal_cookie c \<and> lookup_cookie_entry_by_cookie t c = None \<or>
      c = RESERVED_COOKIE \<and> (\<forall>x. legal_cookie x \<longrightarrow> lookup_cookie_entry_by_cookie t x \<noteq> None))"
proof -
  define i where "i = next_cookie (ct_cookie_dough t)"
  define used where "used = (\<lambda>c. lookup_cookie_entry_by_cookie t c \<noteq> None)"
  let ?b = "\<lambda>(c, stop). \<not> stop \<and> used c"
  have i: "legal_cookie i" using legal_next_cookie [OF assms] by (simp add: i_def)
  have init: "search_inv used i (i, False)" using i by (auto simp: search_inv_def visited_def)
  have step: "search_inv used i s \<Longrightarrow> ?b s \<Longrightarrow>
      search_inv used i (generate_cookie_step i s) \<and> search_left i (generate_cookie_step i s) < search_left i s" for s
    using generate_cookie_step_inv [OF i, of used s] by (simp add: case_prod_beta)
  obtain c stop where w: "while_option ?b (generate_cookie_step i) (i, False) = Some (c, stop)"
    using measure_while_option_Some [of "search_inv used i" ?b "generate_cookie_step i" "search_left i", OF step init]
    by (metis surj_pair)
  have "search_inv used i (c, stop)"
    using while_option_rule [OF _ w, of "search_inv used i"] step init by blast
  moreover have "\<not> ?b (c, stop)" by (rule while_option_stop [OF w])
  ultimately have "legal_cookie c \<and> \<not> used c \<or> c = 0 \<and> (\<forall>x. legal_cookie x \<longrightarrow> used x)"
    by (auto simp: search_inv_def split: if_splits)
  then show ?thesis using w by (simp add: generate_cookie_def i_def [symmetric] used_def)
qed


section \<open>The two tables and the store agree\<close>

definition app_key :: "cookie_entry \<Rightarrow> 64 word \<times> bytes" where
  "app_key e = (ae_cookie (ce_application e), ae_service_name (ce_application e))"

definition linked ::
  "(64 word \<Rightarrow> nat option) \<Rightarrow> (64 word \<times> bytes \<Rightarrow> nat option) \<Rightarrow> (nat \<Rightarrow> cookie_entry option) \<Rightarrow> bool" where
  "linked global app heap \<longleftrightarrow>
     (\<forall>c a. global c = Some a \<longrightarrow> (\<exists>e. heap a = Some e \<and> ce_cookie e = c)) \<and>
     (\<forall>k a. app k = Some a \<longrightarrow> (\<exists>e. heap a = Some e \<and> app_key e = k)) \<and>
     (\<forall>a e. heap a = Some e \<longrightarrow> global (ce_cookie e) = Some a \<and> app (app_key e) = Some a)"

lemma linked_globalD: "linked global app heap \<Longrightarrow> global c = Some a \<Longrightarrow> \<exists>e. heap a = Some e \<and> ce_cookie e = c"
  and linked_appD: "linked global app heap \<Longrightarrow> app k = Some a \<Longrightarrow> \<exists>e. heap a = Some e \<and> app_key e = k"
  and linked_heapD:
    "linked global app heap \<Longrightarrow> heap a = Some e \<Longrightarrow> global (ce_cookie e) = Some a \<and> app (app_key e) = Some a"
  unfolding linked_def by blast+

lemma linkedI:
  assumes "\<And>c a. global c = Some a \<Longrightarrow> \<exists>e. heap a = Some e \<and> ce_cookie e = c"
    and "\<And>k a. app k = Some a \<Longrightarrow> \<exists>e. heap a = Some e \<and> app_key e = k"
    and "\<And>a e. heap a = Some e \<Longrightarrow> global (ce_cookie e) = Some a"
    and "\<And>a e. heap a = Some e \<Longrightarrow> app (app_key e) = Some a"
  shows "linked global app heap"
  unfolding linked_def using assms by blast

lemma linked_set:
  assumes l: "linked global app heap" and e: "heap a = Some e" and e': "ce_cookie e' = ce_cookie e" "app_key e' = app_key e"
  shows "linked global app (heap(a \<mapsto> e'))"
proof (rule linkedI)
  fix c b assume "global c = Some b"
  from linked_globalD [OF l this] show "\<exists>d. (heap(a \<mapsto> e')) b = Some d \<and> ce_cookie d = c" using e e' by auto
next
  fix k b assume "app k = Some b"
  from linked_appD [OF l this] show "\<exists>d. (heap(a \<mapsto> e')) b = Some d \<and> app_key d = k" using e e' by auto
next
  fix b d assume "(heap(a \<mapsto> e')) b = Some d"
  then have "b = a \<and> d = e' \<or> heap b = Some d" by (auto split: if_splits)
  then show "global (ce_cookie d) = Some b" "app (app_key d) = Some b"
    using linked_heapD [OF l e] linked_heapD [OF l, of b d] e' by auto
qed

lemma linked_delete:
  assumes l: "linked global app heap" and e: "heap a = Some e"
  shows "linked (global(ce_cookie e := None)) (app(app_key e := None)) (heap(a := None))"
  unfolding linked_def
proof (intro conjI allI impI)
  fix c b assume "(global(ce_cookie e := None)) c = Some b"
  then have c: "global c = Some b" "c \<noteq> ce_cookie e" by (auto split: if_splits)
  obtain d where "heap b = Some d" "ce_cookie d = c" using linked_globalD [OF l c(1)] by blast
  moreover from this have "b \<noteq> a" using e c(2) by auto
  ultimately show "\<exists>d. (heap(a := None)) b = Some d \<and> ce_cookie d = c" by auto
next
  fix k b assume "(app(app_key e := None)) k = Some b"
  then have c: "app k = Some b" "k \<noteq> app_key e" by (auto split: if_splits)
  obtain d where "heap b = Some d" "app_key d = k" using linked_appD [OF l c(1)] by blast
  moreover from this have "b \<noteq> a" using e c(2) by auto
  ultimately show "\<exists>d. (heap(a := None)) b = Some d \<and> app_key d = k" by auto
next
  fix b d assume "(heap(a := None)) b = Some d"
  then have d: "heap b = Some d" "b \<noteq> a" by (auto split: if_splits)
  note ld = linked_heapD [OF l d(1)] linked_heapD [OF l e]
  have "ce_cookie d \<noteq> ce_cookie e" "app_key d \<noteq> app_key e" using ld d(2) by auto
  then show "(global(ce_cookie e := None)) (ce_cookie d) = Some b" "(app(app_key e := None)) (app_key d) = Some b"
    using ld by auto
qed

lemma linked_insert:
  assumes l: "linked global app heap" and e: "heap a = None" "global (ce_cookie e) = None" "app (app_key e) = None"
  shows "linked (global(ce_cookie e \<mapsto> a)) (app(app_key e \<mapsto> a)) (heap(a \<mapsto> e))"
proof (rule linkedI)
  fix c b assume "(global(ce_cookie e \<mapsto> a)) c = Some b"
  then have "c = ce_cookie e \<and> b = a \<or> global c = Some b" by (auto split: if_splits)
  then show "\<exists>d. (heap(a \<mapsto> e)) b = Some d \<and> ce_cookie d = c"
    using linked_globalD [OF l, of c b] e(1) by auto
next
  fix k b assume "(app(app_key e \<mapsto> a)) k = Some b"
  then have "k = app_key e \<and> b = a \<or> app k = Some b" by (auto split: if_splits)
  then show "\<exists>d. (heap(a \<mapsto> e)) b = Some d \<and> app_key d = k"
    using linked_appD [OF l, of k b] e(1) by auto
next
  fix b d assume "(heap(a \<mapsto> e)) b = Some d"
  then have "b = a \<and> d = e \<or> heap b = Some d" by (auto split: if_splits)
  then show "(global(ce_cookie e \<mapsto> a)) (ce_cookie d) = Some b" "(app(app_key e \<mapsto> a)) (app_key d) = Some b"
    using linked_heapD [OF l, of b d] e(2,3) by auto
qed

definition app_lookup :: "cookie_table \<Rightarrow> 64 word \<times> bytes \<Rightarrow> nat option" where
  "app_lookup t k = lookup_hash_entry (ct_application t) \<lparr>ae_cookie = fst k, ae_service_name = snd k, ae_flags = 0\<rparr>"

definition cookie_inv :: "cookie_table \<Rightarrow> bool" where
  "cookie_inv t \<longleftrightarrow>
     hash_inv compare_cookie hash_cookie_entry (\<lambda>_. True) (ct_global t) \<and>
     hash_inv compare_application hash_application (\<lambda>_. True) (ct_application t) \<and>
     linked (lookup_cookie_entry_by_cookie t) (app_lookup t) (ct_heap t) \<and>
     (\<forall>a e. ct_heap t a = Some e \<longrightarrow> a < ct_next_address t \<and> 1 \<le> ce_reference_count e \<and> legal_cookie (ce_cookie e)) \<and>
     ct_cookie_dough t \<noteq> INVALID_COOKIE"

lemma cookie_inv_hash:
  "cookie_inv t \<Longrightarrow> hash_inv compare_cookie hash_cookie_entry (\<lambda>_. True) (ct_global t)"
  "cookie_inv t \<Longrightarrow> hash_inv compare_application hash_application (\<lambda>_. True) (ct_application t)"
  by (simp_all add: cookie_inv_def)

lemma cookie_inv_linked: "cookie_inv t \<Longrightarrow> linked (lookup_cookie_entry_by_cookie t) (app_lookup t) (ct_heap t)"
  by (simp add: cookie_inv_def)

lemma cookie_inv_entryD:
  "cookie_inv t \<Longrightarrow> ct_heap t a = Some e \<Longrightarrow>
     a < ct_next_address t \<and> 1 \<le> ce_reference_count e \<and> legal_cookie (ce_cookie e)"
  by (simp add: cookie_inv_def)

lemma init_cookie_inv: "c \<noteq> INVALID_COOKIE \<Longrightarrow> cookie_inv (init_cookie_table c)"
  by (simp add: cookie_inv_def init_cookie_table_def linked_def lookup_cookie_entry_by_cookie_def app_lookup_def
      cookie_keys.create_tbl application_keys.create_tbl cookie_keys.lookup_create application_keys.lookup_create
      BUCKETS_SIZE_def)

lemma lookup_by_application_eq: "lookup_cookie_entry_by_application t c name = app_lookup t (c, truncated name)"
  by (simp add: lookup_cookie_entry_by_application_def app_lookup_def)

lemma lookup_by_cookie_delete:
  assumes "hash_inv compare_cookie hash_cookie_entry (\<lambda>_. True) (ct_global t)"
  shows "lookup_cookie_entry_by_cookie (unlink_cookie_entry e t) = (lookup_cookie_entry_by_cookie t)(ce_cookie e := None)"
  using cookie_keys.lookup_delete [OF assms]
  by (auto simp: lookup_cookie_entry_by_cookie_def unlink_cookie_entry_def fun_eq_iff compare_cookie_def)

lemma app_lookup_delete:
  assumes "hash_inv compare_application hash_application (\<lambda>_. True) (ct_application t)"
  shows "app_lookup (unlink_cookie_entry e t) = (app_lookup t)(app_key e := None)"
  using application_keys.lookup_delete [OF assms]
  by (auto simp: app_lookup_def unlink_cookie_entry_def fun_eq_iff compare_application_def app_key_def)

lemma lookup_upd [simp]:
  "lookup_cookie_entry_by_cookie (t\<lparr>ct_heap := h\<rparr>) = lookup_cookie_entry_by_cookie t"
  "lookup_cookie_entry_by_cookie (t\<lparr>ct_cookie_dough := c\<rparr>) = lookup_cookie_entry_by_cookie t"
  "lookup_cookie_entry_by_cookie (t\<lparr>ct_next_address := n\<rparr>) = lookup_cookie_entry_by_cookie t"
  "lookup_cookie_entry_by_cookie (t\<lparr>ct_application := ha\<rparr>) = lookup_cookie_entry_by_cookie t"
  "app_lookup (t\<lparr>ct_heap := h\<rparr>) = app_lookup t"
  "app_lookup (t\<lparr>ct_cookie_dough := c\<rparr>) = app_lookup t"
  "app_lookup (t\<lparr>ct_next_address := n\<rparr>) = app_lookup t"
  "app_lookup (t\<lparr>ct_global := hg\<rparr>) = app_lookup t"
  by (simp_all add: lookup_cookie_entry_by_cookie_def app_lookup_def fun_eq_iff)

text \<open>Each operation preserves the invariant; the changes are those of the three maps.\<close>

lemma set_entry_inv:
  assumes "cookie_inv t" "ct_heap t a = Some e" "ce_cookie e' = ce_cookie e" "app_key e' = app_key e"
    "1 \<le> ce_reference_count e'"
  shows "cookie_inv (set_entry a e' t)"
  using assms linked_set [OF cookie_inv_linked [OF assms(1)] assms(2-4)]
  by (auto simp: cookie_inv_def set_entry_def)

lemma remove_entry_inv:
  assumes inv: "cookie_inv t" and e: "ct_heap t a = Some e"
  shows "cookie_inv (free_cookie_entry a (unlink_cookie_entry e t))"
  using linked_delete [OF cookie_inv_linked [OF inv] e] cookie_keys.delete_tbl [OF cookie_inv_hash(1) [OF inv]]
    application_keys.delete_tbl [OF cookie_inv_hash(2) [OF inv]] inv
  by (simp add: cookie_inv_def free_cookie_entry_def lookup_by_cookie_delete app_lookup_delete)
    (simp add: unlink_cookie_entry_def)

lemma delete_cookie_entry_inv:
  assumes inv: "cookie_inv t" and e: "ct_heap t a = Some e"
  shows "\<exists>t'. delete_cookie_entry a t = Ok t' \<and> cookie_inv t' \<and>
     ct_heap t' = (if ce_reference_count e > 1
       then (ct_heap t)(a \<mapsto> e\<lparr>ce_reference_count := ce_reference_count e - 1\<rparr>) else (ct_heap t)(a := None))"
  using set_entry_inv [OF inv e, of "e\<lparr>ce_reference_count := ce_reference_count e - 1\<rparr>"] remove_entry_inv [OF inv e] e
  by (auto simp: delete_cookie_entry_def deref_entry_def set_entry_def free_cookie_entry_def unlink_cookie_entry_def
      app_key_def)

section \<open>The table as a map from cookies to their owners\<close>

definition owner :: "cookie_table \<Rightarrow> 64 word \<Rightarrow> cookie_entry option" where
  "owner t c = (case lookup_cookie_entry_by_cookie t c of None \<Rightarrow> None | Some a \<Rightarrow> ct_heap t a)"

lemma owner_entryD:
  assumes inv: "cookie_inv t" and c: "owner t c = Some e"
  shows "\<exists>a. lookup_cookie_entry_by_cookie t c = Some a \<and> ct_heap t a = Some e \<and> ce_cookie e = c"
  using c linked_globalD [OF cookie_inv_linked [OF inv]] unfolding owner_def by (fastforce split: option.splits)

lemma owner_heap: "cookie_inv t \<Longrightarrow> ct_heap t a = Some e \<Longrightarrow> owner t (ce_cookie e) = Some e"
  using linked_heapD [OF cookie_inv_linked] by (fastforce simp: owner_def)

lemma owner_lookup: "cookie_inv t \<Longrightarrow> owner t c = None \<longleftrightarrow> lookup_cookie_entry_by_cookie t c = None"
  using linked_globalD [OF cookie_inv_linked] by (fastforce simp: owner_def split: option.splits)

lemma owner_keys_differ:
  assumes inv: "cookie_inv t" and "owner t c = Some e" "owner t d = Some f" "app_key e = app_key f"
  shows "c = d"
proof -
  obtain a b where a: "ct_heap t a = Some e" "ce_cookie e = c" and b: "ct_heap t b = Some f" "ce_cookie f = d"
    using owner_entryD [OF inv assms(2)] owner_entryD [OF inv assms(3)] by blast
  have "a = b"
    using linked_heapD [OF cookie_inv_linked [OF inv] a(1)] linked_heapD [OF cookie_inv_linked [OF inv] b(1)] assms(4)
    by simp
  then show ?thesis using a b by simp
qed

lemma owner_other:
  assumes inv: "cookie_inv t" and e: "ct_heap t a = Some e" and c: "c \<noteq> ce_cookie e"
  shows "lookup_cookie_entry_by_cookie t c \<noteq> Some a"
  using linked_globalD [OF cookie_inv_linked [OF inv], of c a] e c by auto

lemma owner_set:
  assumes inv: "cookie_inv t" and e: "ct_heap t a = Some e"
  shows "owner (set_entry a e' t) = (owner t)(ce_cookie e \<mapsto> e')"
  using owner_other [OF inv e] linked_heapD [OF cookie_inv_linked [OF inv] e]
  by (auto simp: owner_def set_entry_def fun_eq_iff split: option.split)

lemma heap_unlink [simp]: "ct_heap (unlink_cookie_entry e t) = ct_heap t"
  by (simp add: unlink_cookie_entry_def)

lemma owner_remove:
  assumes inv: "cookie_inv t" and e: "ct_heap t a = Some e"
  shows "owner (free_cookie_entry a (unlink_cookie_entry e t)) = (owner t)(ce_cookie e := None)"
  using owner_other [OF inv e]
  by (auto simp: owner_def free_cookie_entry_def fun_eq_iff lookup_by_cookie_delete [OF cookie_inv_hash(1) [OF inv]]
      split: option.split)

lemma delete_cookie_entry_ok:
  assumes inv: "cookie_inv t" and a: "lookup_cookie_entry_by_cookie t c = Some a"
  shows "\<exists>t' e. delete_cookie_entry a t = Ok t' \<and> cookie_inv t' \<and> owner t c = Some e \<and>
     owner t' = (owner t)(c := if ce_reference_count e > 1
       then Some (e\<lparr>ce_reference_count := ce_reference_count e - 1\<rparr>) else None)"
proof -
  obtain e where e: "ct_heap t a = Some e" "ce_cookie e = c" using linked_globalD [OF cookie_inv_linked [OF inv] a] by blast
  obtain t' where t': "delete_cookie_entry a t = Ok t'" "cookie_inv t'" using delete_cookie_entry_inv [OF inv e(1)] by blast
  have "owner t' = (owner t)(c := if ce_reference_count e > 1
       then Some (e\<lparr>ce_reference_count := ce_reference_count e - 1\<rparr>) else None)"
    using t'(1) e owner_set [OF inv e(1)] owner_remove [OF inv e(1)]
    by (auto simp: delete_cookie_entry_def deref_entry_def split: if_splits)
  then show ?thesis using t' owner_heap [OF inv e(1)] e(2) by blast
qed

definition new_cookie_entry :: "64 word \<Rightarrow> 64 word \<Rightarrow> bytes \<Rightarrow> 16 word \<Rightarrow> int \<Rightarrow> cookie_entry" where
  "new_cookie_entry c original_cookie name flags now =
     \<lparr>ce_cookie = c, ce_application = \<lparr>ae_cookie = original_cookie, ae_service_name = truncated name, ae_flags = flags\<rparr>,
      ce_reference_count = 1, ce_expire_at = now + COOKIE_ENTRY_LIFETIME\<rparr>"

definition shared_cookie_entry :: "cookie_entry \<Rightarrow> 16 word \<Rightarrow> int \<Rightarrow> cookie_entry" where
  "shared_cookie_entry e flags now =
     e\<lparr>ce_reference_count := ce_reference_count e + 1, ce_expire_at := now + COOKIE_ENTRY_LIFETIME,
       ce_application := (ce_application e)\<lparr>ae_flags := ae_flags (ce_application e) OR flags\<rparr>\<rparr>"

definition owner_by_application :: "cookie_table \<Rightarrow> 64 word \<Rightarrow> bytes \<Rightarrow> cookie_entry option" where
  "owner_by_application t original_cookie name =
     (case lookup_cookie_entry_by_application t original_cookie name of None \<Rightarrow> None | Some a \<Rightarrow> ct_heap t a)"

lemma insert_shared:
  assumes inv: "cookie_inv t" and a: "lookup_cookie_entry_by_application t original_cookie name = Some a"
  shows "\<exists>e t'. insert_cookie_entry original_cookie name flags now t = Ok (ce_cookie e, t') \<and>
     owner_by_application t original_cookie name = Some e \<and>
     app_key e = (original_cookie, truncated name) \<and> owner t (ce_cookie e) = Some e \<and> cookie_inv t' \<and>
     owner t' = (owner t)(ce_cookie e \<mapsto> shared_cookie_entry e flags now)"
proof -
  obtain e where e: "ct_heap t a = Some e" "app_key e = (original_cookie, truncated name)"
    using linked_appD [OF cookie_inv_linked [OF inv]] a unfolding lookup_by_application_eq by blast
  have r: "1 \<le> ce_reference_count e" using cookie_inv_entryD [OF inv e(1)] by simp
  have "insert_cookie_entry original_cookie name flags now t =
      Ok (ce_cookie e, set_entry a (shared_cookie_entry e flags now) t)"
    using a e(1) by (simp add: insert_cookie_entry_def deref_entry_def shared_cookie_entry_def)
  moreover have "cookie_inv (set_entry a (shared_cookie_entry e flags now) t)"
    using set_entry_inv [OF inv e(1), of "shared_cookie_entry e flags now"] r
    by (simp add: shared_cookie_entry_def app_key_def)
  ultimately show ?thesis using owner_set [OF inv e(1)] owner_heap [OF inv e(1)] a e by (auto simp: owner_by_application_def)
qed

lemma insert_new:
  assumes inv: "cookie_inv t" and a: "lookup_cookie_entry_by_application t original_cookie name = None"
    and free: "legal_cookie x" "owner t x = None"
  shows "\<exists>c t'. insert_cookie_entry original_cookie name flags now t = Ok (c, t') \<and>
     legal_cookie c \<and> owner t c = None \<and> cookie_inv t' \<and>
     owner t' = (owner t)(c \<mapsto> new_cookie_entry c original_cookie name flags now)"
proof -
  obtain c where c: "generate_cookie t = Ok (c, t\<lparr>ct_cookie_dough := c\<rparr>)" "legal_cookie c"
    "lookup_cookie_entry_by_cookie t c = None"
    using generate_cookie_ok [of t] free inv owner_lookup [OF inv] by (auto simp: cookie_inv_def)
  define b where "b = ct_next_address t"
  define e where "e = new_cookie_entry c original_cookie name flags now"
  have b: "ct_heap t b = None" using cookie_inv_entryD [OF inv, of b] by (cases "ct_heap t b") (auto simp: b_def)
  have k: "app_key e = (original_cookie, truncated name)" "ce_cookie e = c" by (simp_all add: e_def app_key_def new_cookie_entry_def)
  define t' where "t' = t\<lparr>ct_cookie_dough := c, ct_next_address := b + 1, ct_heap := (ct_heap t)(b \<mapsto> e),
      ct_global := fst (insert_hash_entry (ct_global t) c b),
      ct_application := fst (insert_hash_entry (ct_application t) (ce_application e) b)\<rparr>"
  have "insert_cookie_entry original_cookie name flags now t = Ok (c, t')"
    using a c k by (simp add: insert_cookie_entry_def allocate_cookie_entry_def deref_entry_def set_entry_def
        new_cookie_entry_def [symmetric] b_def [symmetric] e_def [symmetric] t'_def)
  moreover have g: "lookup_cookie_entry_by_cookie t' = (lookup_cookie_entry_by_cookie t)(c \<mapsto> b)"
    using cookie_keys.lookup_insert [OF cookie_inv_hash(1) [OF inv]]
    by (auto simp: t'_def lookup_cookie_entry_by_cookie_def fun_eq_iff compare_cookie_def)
  moreover have h: "app_lookup t' = (app_lookup t)(app_key e \<mapsto> b)"
    using application_keys.lookup_insert [OF cookie_inv_hash(2) [OF inv]]
    by (auto simp: t'_def app_lookup_def fun_eq_iff compare_application_def app_key_def)
  moreover have "linked (lookup_cookie_entry_by_cookie t') (app_lookup t') (ct_heap t')"
    using linked_insert [OF cookie_inv_linked [OF inv] b, of e] c(3) a k g h
    by (simp add: lookup_by_application_eq t'_def)
  moreover have "cookie_inv t'"
  proof -
    have "hash_inv compare_cookie hash_cookie_entry (\<lambda>_. True) (ct_global t')"
      "hash_inv compare_application hash_application (\<lambda>_. True) (ct_application t')"
      using cookie_keys.insert_tbl [OF cookie_inv_hash(1) [OF inv]]
        application_keys.insert_tbl [OF cookie_inv_hash(2) [OF inv]] by (simp_all add: t'_def)
    moreover have "a < ct_next_address t' \<and> 1 \<le> ce_reference_count d \<and> legal_cookie (ce_cookie d)"
      if "ct_heap t' a = Some d" for a d
      using that cookie_inv_entryD [OF inv, of a d] k c(2)
      by (auto simp: t'_def b_def e_def new_cookie_entry_def split: if_splits)
    moreover have "ct_cookie_dough t' \<noteq> INVALID_COOKIE" using c(2) by (simp add: t'_def legal_cookie_def)
    ultimately show ?thesis
      using \<open>linked (lookup_cookie_entry_by_cookie t') (app_lookup t') (ct_heap t')\<close> by (simp add: cookie_inv_def)
  qed
  moreover have "owner t' = (owner t)(c \<mapsto> e)"
    using g b linked_globalD [OF cookie_inv_linked [OF inv]]
    by (auto simp: owner_def fun_eq_iff t'_def split: option.split) (metis option.distinct(1))
  ultimately show ?thesis using c owner_lookup [OF inv] by (auto simp: e_def)
qed

section \<open>Aging\<close>

definition expired :: "int \<Rightarrow> cookie_entry option \<Rightarrow> cookie_entry option" where
  "expired now oe = (case oe of None \<Rightarrow> None | Some e \<Rightarrow> if ce_expire_at e < now then None else Some e)"

lemma age_cookie_entry_ok:
  assumes inv: "cookie_inv t" and a: "lookup_cookie_entry_by_cookie t c = Some a"
  shows "\<exists>t'. age_cookie_entry now a t = Ok t' \<and> cookie_inv t' \<and> owner t' = (owner t)(c := expired now (owner t c)) \<and>
     (\<forall>d. d \<noteq> c \<longrightarrow> lookup_cookie_entry_by_cookie t' d = lookup_cookie_entry_by_cookie t d)"
proof -
  obtain e where e: "ct_heap t a = Some e" "ce_cookie e = c" using linked_globalD [OF cookie_inv_linked [OF inv] a] by blast
  have o: "owner t c = Some e" using owner_heap [OF inv e(1)] e(2) by simp
  show ?thesis
  proof (cases "ce_expire_at e < now")
    case True
    have "lookup_cookie_entry_by_cookie (free_cookie_entry a (unlink_cookie_entry e t)) =
        (lookup_cookie_entry_by_cookie t)(c := None)"
      using lookup_by_cookie_delete [OF cookie_inv_hash(1) [OF inv], of e] e(2) by (simp add: free_cookie_entry_def)
    with True e o owner_remove [OF inv e(1)] remove_entry_inv [OF inv e(1)] show ?thesis
      by (simp add: age_cookie_entry_def deref_entry_def expired_def)
  next
    case False
    with e o inv show ?thesis by (simp add: age_cookie_entry_def deref_entry_def expired_def fun_upd_idem)
  qed
qed

lemma age_cookie_loop_ok:
  assumes "it_ok iter" and "length (it_remaining iter) < fuel" and "cookie_inv t"
    and "keys_apart compare_cookie (it_remaining iter)"
    and "\<forall>(c, a) \<in> set (it_remaining iter). lookup_cookie_entry_by_cookie t c = Some a"
  shows "\<exists>t'. age_cookie_loop fuel now iter t = Ok t' \<and> cookie_inv t' \<and>
     owner t' = (\<lambda>c. if c \<in> fst ` set (it_remaining iter) then expired now (owner t c) else owner t c)"
  using assms
proof (induction fuel arbitrary: iter t)
  case (Suc fuel)
  obtain iter' where iter': "it_ok iter'" "it_remaining iter' = tl (it_remaining iter)"
    "iterate_hash_next iter = Ok (case it_remaining iter of [] \<Rightarrow> None | e # _ \<Rightarrow> Some e, iter')"
    using iterate_hash_next_eq [OF Suc.prems(1)] by blast
  show ?case
  proof (cases "it_remaining iter")
    case Nil
    with iter' Suc.prems show ?thesis by simp
  next
    case (Cons e es)
    obtain c a where e: "e = (c, a)" by (cases e)
    have "find_entry compare_cookie c es = None" and apart: "keys_apart compare_cookie es"
      using Suc.prems(4) Cons e by simp_all
    then have c: "c \<notin> fst ` set es" by (auto simp: find_entry_None compare_cookie_def)
    obtain t' where t': "age_cookie_entry now a t = Ok t'" "cookie_inv t'"
      "owner t' = (owner t)(c := expired now (owner t c))"
      "\<And>d. d \<noteq> c \<Longrightarrow> lookup_cookie_entry_by_cookie t' d = lookup_cookie_entry_by_cookie t d"
      using age_cookie_entry_ok [OF Suc.prems(3), of c a now] Suc.prems(5) Cons e by auto
    have "\<forall>(d, b) \<in> set es. lookup_cookie_entry_by_cookie t' d = Some b"
      using Suc.prems(5) Cons c t'(4) by (fastforce simp: image_iff)
    then obtain t'' where t'': "age_cookie_loop fuel now iter' t' = Ok t''" "cookie_inv t''"
      "owner t'' = (\<lambda>d. if d \<in> fst ` set es then expired now (owner t' d) else owner t' d)"
      using Suc.IH [of iter' t'] iter'(1,2) Cons Suc.prems(2) t'(2) apart by auto
    have "owner t'' = (\<lambda>d. if d \<in> fst ` set (e # es) then expired now (owner t d) else owner t d)"
      using t''(3) t'(3) c e by (auto simp: fun_eq_iff)
    then show ?thesis using iter' Cons e t'(1) t'' by simp
  qed
qed simp

lemma age_cookie_table_ok:
  assumes inv: "cookie_inv t" and fuel: "length (hash_entries (ct_global t)) < fuel"
  shows "\<exists>t'. age_cookie_table fuel now iter t = Ok t' \<and> cookie_inv t' \<and> owner t' = (\<lambda>c. expired now (owner t c))"
proof -
  note h = cookie_inv_hash(1) [OF inv]
  obtain iter' where i: "init_hash_iterator (ct_global t) iter = Ok iter'" "it_ok iter'"
    "it_remaining iter' = hash_entries (ct_global t)"
    using cookie_keys.iterator_start [OF h] by blast
  have look: "lookup_cookie_entry_by_cookie t c = Some a \<longleftrightarrow> (c, a) \<in> set (hash_entries (ct_global t))" for c a
    using cookie_keys.entries_lookup [OF h] by (auto simp: lookup_cookie_entry_by_cookie_def compare_cookie_def)
  have "owner t c = None" if "c \<notin> fst ` set (hash_entries (ct_global t))" for c
    using that look [of c] owner_lookup [OF inv] by (force simp: image_iff)
  then have "(\<lambda>c. if c \<in> fst ` set (hash_entries (ct_global t)) then expired now (owner t c) else owner t c) =
      (\<lambda>c. expired now (owner t c))" by (auto simp: expired_def fun_eq_iff)
  then show ?thesis
    using age_cookie_loop_ok [OF i(2), of fuel t now] i fuel inv cookie_keys.entries_apart [OF h] look
    by (auto simp: age_cookie_table_def)
qed


section \<open>There is a free cookie\<close>

lemma card_legal_cookies: "card {c. legal_cookie c} = 2 ^ 64 - 2"
proof -
  have "unat ` {c. legal_cookie c} = {0 <..< 2 ^ 64 - 1}"
  proof
    show "{0 <..< 2 ^ 64 - 1} \<subseteq> unat ` {c. legal_cookie c}"
    proof
      fix n :: nat assume n: "n \<in> {0 <..< 2 ^ 64 - 1}"
      then have "unat (of_nat n :: 64 word) = n" by (simp add: unat_of_nat take_bit_eq_mod)
      then show "n \<in> unat ` {c. legal_cookie c}" using n by (intro image_eqI [of _ _ "of_nat n"]) (auto simp: legal_unat)
    qed
  qed (auto simp: legal_unat)
  moreover have "inj_on unat {c :: 64 word. legal_cookie c}" by (rule inj_onI) (simp add: word_unat_eq_iff)
  ultimately have "card {c. legal_cookie c} = card {0 :: nat <..< 2 ^ 64 - 1}" by (metis card_image)
  then show ?thesis by simp
qed

lemma free_cookie_exists:
  assumes inv: "cookie_inv t" and few: "ct_next_address t < 2 ^ 64 - 2"
  shows "\<exists>c. legal_cookie c \<and> owner t c = None"
proof (rule ccontr)
  assume "\<not> ?thesis"
  then have all: "\<exists>a. lookup_cookie_entry_by_cookie t c = Some a" if "legal_cookie c" for c
    using that owner_lookup [OF inv] by auto
  let ?f = "\<lambda>c. the (lookup_cookie_entry_by_cookie t c)"
  have "?f ` {c. legal_cookie c} \<subseteq> {..< ct_next_address t}"
    using all linked_globalD [OF cookie_inv_linked [OF inv]] cookie_inv_entryD [OF inv] by fastforce
  moreover have "inj_on ?f {c. legal_cookie c}"
  proof (rule inj_onI)
    fix c d assume "c \<in> {c. legal_cookie c}" "d \<in> {c. legal_cookie c}" "?f c = ?f d"
    then show "c = d" using all [of c] all [of d] linked_globalD [OF cookie_inv_linked [OF inv]]
      by (metis mem_Collect_eq option.inject option.sel)
  qed
  ultimately have "card {c. legal_cookie c} \<le> card {..< ct_next_address t}"
    by (metis card_inj_on_le finite_lessThan)
  then show False using few by (simp add: card_legal_cookies)
qed

end
