(* ===== verification/Message_Queue.thy ===== *)
theory Message_Queue
  imports Trema_Prelude
begin

text \<open>
  The message queue of \<open>src/lib/message_queue.c\<close>.  The singly linked list from \<open>head\<close> to \<open>tail\<close> is
  \<open>mq_elements\<close> (each element's \<open>data\<close>, \<open>None\<close> for \<open>NULL\<close>) and \<open>divider\<close> is the position of the element
  the pointer of that name refers to: what precedes it, and the divider itself, has been consumed
  and is reclaimed by \<open>collect_garbage\<close> in the next \<open>enqueue_message\<close>.

  The locale \<open>message_fifo\<close> is the contract the two secure channel ends rely on.
\<close>

section \<open>Representation and operations\<close>

record 'm message_queue =
  mq_elements :: "'m option list"
  mq_divider :: nat
  mq_length :: "32 word"

definition create_message_queue :: "'m message_queue" where
  "create_message_queue = \<lparr>mq_elements = [None], mq_divider = 0, mq_length = 0\<rparr>"

fun collect_garbage_loop :: "'m option list \<Rightarrow> nat \<Rightarrow> 'm option list \<times> nat" where
  "collect_garbage_loop (e # es) (Suc d) = collect_garbage_loop es d"
| "collect_garbage_loop es d = (es, d)"

definition collect_garbage :: "'m message_queue \<Rightarrow> 'm message_queue" where
  "collect_garbage q =
     (let (es, d) = collect_garbage_loop (mq_elements q) (mq_divider q)
      in q\<lparr>mq_elements := es, mq_divider := d\<rparr>)"

definition enqueue_message :: "'m message_queue \<Rightarrow> 'm \<Rightarrow> 'm message_queue" where
  "enqueue_message q message =
     collect_garbage (q\<lparr>mq_elements := mq_elements q @ [Some message], mq_length := mq_length q + 1\<rparr>)"

definition at_tail :: "'m message_queue \<Rightarrow> bool" where
  "at_tail q \<longleftrightarrow> mq_divider q + 1 = length (mq_elements q)"

definition dequeue_message :: "'m message_queue \<Rightarrow> 'm option \<times> 'm message_queue" where
  "dequeue_message q =
     (if at_tail q then (None, q)
      else let d = mq_divider q + 1
           in (mq_elements q ! d,
               q\<lparr>mq_elements := (mq_elements q)[d := None], mq_divider := d, mq_length := mq_length q - 1\<rparr>))"

definition peek_message :: "'m message_queue \<Rightarrow> 'm option" where
  "peek_message q = (if at_tail q then None else mq_elements q ! (mq_divider q + 1))"

fun foreach_elements :: "'m option list \<Rightarrow> ('m \<Rightarrow> 's \<Rightarrow> bool \<times> 's) \<Rightarrow> 's \<Rightarrow> 's res" where
  "foreach_elements [] f s = Ok s"
| "foreach_elements (None # es) f s = Fault Assertion"
| "foreach_elements (Some m # es) f s =
     (let (go, s') = f m s in if go then foreach_elements es f s' else Ok s')"

definition foreach_message_queue :: "'m message_queue \<Rightarrow> ('m \<Rightarrow> 's \<Rightarrow> bool \<times> 's) \<Rightarrow> 's \<Rightarrow> 's res" where
  "foreach_message_queue q f s =
     (if at_tail q then Ok s else foreach_elements (drop (mq_divider q + 1) (mq_elements q)) f s)"

text \<open>The messages \<open>delete_message_queue\<close> hands to \<open>free_buffer\<close>.\<close>

definition delete_message_queue :: "'m message_queue \<Rightarrow> 'm list" where
  "delete_message_queue q = map the (filter (\<lambda>e. e \<noteq> None) (mq_elements q))"

section \<open>The queue it represents\<close>

definition mq_inv :: "'m message_queue \<Rightarrow> bool" where
  "mq_inv q \<longleftrightarrow>
     mq_divider q < length (mq_elements q) \<and>
     (\<forall>e \<in> set (take (mq_divider q + 1) (mq_elements q)). e = None) \<and>
     (\<forall>e \<in> set (drop (mq_divider q + 1) (mq_elements q)). e \<noteq> None) \<and>
     mq_length q = of_nat (length (drop (mq_divider q + 1) (mq_elements q)))"

definition mq_list :: "'m message_queue \<Rightarrow> 'm list" where
  "mq_list q = map the (drop (mq_divider q + 1) (mq_elements q))"

lemma collect_garbage_loop_eq:
  "d < length es \<Longrightarrow> collect_garbage_loop es d = (drop d es, 0)"
  by (induction es d rule: collect_garbage_loop.induct) auto

lemma collect_garbage_eq:
  "mq_divider q < length (mq_elements q) \<Longrightarrow>
   collect_garbage q = q\<lparr>mq_elements := drop (mq_divider q) (mq_elements q), mq_divider := 0\<rparr>"
  by (simp add: collect_garbage_def collect_garbage_loop_eq)

lemma mq_inv_split:
  "mq_inv q \<longleftrightarrow> (\<exists>ms. mq_elements q = replicate (mq_divider q + 1) None @ map Some ms \<and>
                       mq_length q = of_nat (length ms))"
proof
  assume inv: "mq_inv q"
  let ?d = "mq_divider q + 1"
  have "take ?d (mq_elements q) = replicate ?d None"
    using inv by (intro replicate_eqI) (auto simp: mq_inv_def)
  moreover have "drop ?d (mq_elements q) = map Some (mq_list q)"
    using inv unfolding mq_inv_def mq_list_def by (simp add: map_idI)
  ultimately show "\<exists>ms. mq_elements q = replicate ?d None @ map Some ms \<and> mq_length q = of_nat (length ms)"
    using inv by (metis append_take_drop_id length_map mq_inv_def mq_list_def)
qed (auto simp: mq_inv_def)

lemma mq_create: "mq_inv create_message_queue \<and> mq_list create_message_queue = []"
  by (simp add: create_message_queue_def mq_inv_def mq_list_def)

lemma mq_enqueue:
  assumes "mq_inv q"
  shows "mq_inv (enqueue_message q m) \<and> mq_list (enqueue_message q m) = mq_list q @ [m]"
proof -
  obtain ms where "mq_elements q = replicate (mq_divider q + 1) None @ map Some ms"
    "mq_length q = of_nat (length ms)" using assms unfolding mq_inv_split by blast
  then show ?thesis
    by (auto simp: enqueue_message_def collect_garbage_eq mq_inv_def mq_list_def simp flip: replicate_Suc)
qed

lemma mq_dequeue:
  assumes "mq_inv q"
  shows "fst (dequeue_message q) = (case mq_list q of [] \<Rightarrow> None | m # _ \<Rightarrow> Some m)"
    and "mq_inv (snd (dequeue_message q))"
    and "mq_list (snd (dequeue_message q)) = tl (mq_list q)"
proof -
  obtain ms where e: "mq_elements q = replicate (mq_divider q + 1) None @ map Some ms"
    "mq_length q = of_nat (length ms)" using assms unfolding mq_inv_split by blast
  have "fst (dequeue_message q) = (case mq_list q of [] \<Rightarrow> None | m # _ \<Rightarrow> Some m) \<and>
    mq_inv (snd (dequeue_message q)) \<and> mq_list (snd (dequeue_message q)) = tl (mq_list q)"
  proof (cases ms)
    case Nil
    then show ?thesis using e
      by (simp add: dequeue_message_def at_tail_def mq_list_def mq_inv_def)
  next
    case (Cons m ms')
    then have "(mq_elements q)[mq_divider q + 1 := None] =
        replicate (mq_divider q + 2) None @ map Some ms'"
      using e by (simp add: list_update_append replicate_append_same [symmetric])
    then show ?thesis using e Cons
      by (simp add: dequeue_message_def at_tail_def mq_list_def mq_inv_def nth_append Let_def)
  qed
  then show "fst (dequeue_message q) = (case mq_list q of [] \<Rightarrow> None | m # _ \<Rightarrow> Some m)"
    "mq_inv (snd (dequeue_message q))" "mq_list (snd (dequeue_message q)) = tl (mq_list q)" by auto
qed

lemma mq_peek:
  assumes "mq_inv q"
  shows "peek_message q = (case mq_list q of [] \<Rightarrow> None | m # _ \<Rightarrow> Some m)"
proof -
  obtain ms where e: "mq_elements q = replicate (mq_divider q + 1) None @ map Some ms"
    using assms unfolding mq_inv_split by blast
  then show ?thesis
    by (cases ms) (auto simp: peek_message_def at_tail_def mq_list_def nth_append)
qed

section \<open>The contract of a first-in first-out queue\<close>

datatype 'm queue_op = Enqueue 'm | Dequeue | Peek

text \<open>The answers a queue gives to a sequence of operations.\<close>

fun run_queue ::
  "('q \<Rightarrow> 'm \<Rightarrow> 'q) \<Rightarrow> ('q \<Rightarrow> 'm option \<times> 'q) \<Rightarrow> ('q \<Rightarrow> 'm option) \<Rightarrow> 'm queue_op list \<Rightarrow> 'q \<Rightarrow> 'm option list" where
  "run_queue enq deq peek [] q = []"
| "run_queue enq deq peek (Enqueue m # ops) q = run_queue enq deq peek ops (enq q m)"
| "run_queue enq deq peek (Dequeue # ops) q = fst (deq q) # run_queue enq deq peek ops (snd (deq q))"
| "run_queue enq deq peek (Peek # ops) q = peek q # run_queue enq deq peek ops q"

definition first_of :: "'m list \<Rightarrow> 'm option" where
  "first_of ms = (case ms of [] \<Rightarrow> None | m # _ \<Rightarrow> Some m)"

abbreviation run_list_queue :: "'m queue_op list \<Rightarrow> 'm list \<Rightarrow> 'm option list" where
  "run_list_queue \<equiv> run_queue (\<lambda>ms m. ms @ [m]) (\<lambda>ms. (first_of ms, tl ms)) first_of"

lemma first_of_simps [simp]: "first_of [] = None" "first_of (m # ms) = Some m"
  by (simp_all add: first_of_def)

locale message_fifo =
  fixes inv :: "'q \<Rightarrow> bool"
    and contents :: "'q \<Rightarrow> 'm list"
    and enq :: "'q \<Rightarrow> 'm \<Rightarrow> 'q"
    and deq :: "'q \<Rightarrow> 'm option \<times> 'q"
    and peek :: "'q \<Rightarrow> 'm option"
  assumes inv_enq: "inv q \<Longrightarrow> inv (enq q m)"
    and contents_enq: "inv q \<Longrightarrow> contents (enq q m) = contents q @ [m]"
    and inv_deq: "inv q \<Longrightarrow> inv (snd (deq q))"
    and contents_deq: "inv q \<Longrightarrow> contents (snd (deq q)) = tl (contents q)"
    and result_deq: "inv q \<Longrightarrow> fst (deq q) = first_of (contents q)"
    and result_peek: "inv q \<Longrightarrow> peek q = first_of (contents q)"
begin

lemma run_refines: "inv q \<Longrightarrow> run_queue enq deq peek ops q = run_list_queue ops (contents q)"
proof (induction ops arbitrary: q)
  case (Cons oper ops)
  then show ?case
    by (cases oper) (auto simp: inv_enq contents_enq inv_deq contents_deq result_deq result_peek)
qed simp

lemma enq_all: "inv q \<Longrightarrow> inv (foldl enq q ms) \<and> contents (foldl enq q ms) = contents q @ ms"
  by (induction ms arbitrary: q) (auto simp: inv_enq contents_enq)

end

interpretation mq: message_fifo mq_inv mq_list enqueue_message dequeue_message peek_message
  by unfold_locales (auto simp: mq_enqueue mq_dequeue mq_peek first_of_def)

end
