(* ===== verification/Secure_Channel.thy ===== *)
theory Secure_Channel
  imports Message_Queue Ofm_Validate
begin

text \<open>
  The two ends of a secure channel in a switch daemon: \<open>src/switch_manager/secure_channel_receiver.c\<close>
  cuts the byte stream of the connection into OpenFlow messages, and
  \<open>src/switch_manager/secure_channel_sender.c\<close> writes the queued messages to it.

  A message is the list of its bytes, and so is the fragment buffer, of which the code uses the first
  \<open>length\<close> bytes only (\<open>Buffer\<close> relates such lists to the allocated memory); the \<open>memmove\<close> at the end
  of \<open>recv_from_secure_channel\<close> moves the bytes that are left to the start of the allocation and does
  not change them.  What the kernel delivers or takes is an argument: the outcome of \<open>read\<close> and of
  \<open>writev\<close>.
\<close>

section \<open>Receiving\<close>

text \<open>\<open>UINT16_MAX + sizeof( struct ofp_packet_in ) - 2\<close>\<close>

definition RECEIVE_BUFFFER_SIZE :: nat where
  "RECEIVE_BUFFFER_SIZE = 65535 + 20 - 2"

datatype read_result = Read_data bytes | Read_again | Read_error

datatype frame_result = Frames_done | Bad_version

lemma assert_then_cong [fundef_cong]: "b = b' \<Longrightarrow> (b' \<Longrightarrow> k = k') \<Longrightarrow> assert_then b k = assert_then b' k'"
  by (simp add: assert_then_def)

lemma diff_unat_less: "(x :: 'a::len word) \<noteq> 0 \<Longrightarrow> 0 < n \<Longrightarrow> n - unat x < n"
  by (metis diff_less gr0I unat_eq_zero)

text \<open>
  The loop that takes messages from the front of the fragment buffer.
  \<open>alloc_buffer_with_length\<close> and \<open>append_back_buffer\<close> assert that the length is not 0.
\<close>

function frame_loop :: "bytes \<Rightarrow> bytes message_queue \<Rightarrow> (bytes \<times> bytes message_queue \<times> frame_result) res" where
  "frame_loop frag q =
     (if length frag \<ge> 8 then
        bnd (rd8 frag 1) (\<lambda>type.
        bnd (rd8 frag 0) (\<lambda>version.
        if \<not> valid_message_version type version then Ok (frag, q, Bad_version) else
        bnd (rd16 frag 2) (\<lambda>message_length.
        if unat message_length > length frag then Ok (frag, q, Frames_done) else
        assert_then (message_length \<noteq> 0)
          (frame_loop (drop (unat message_length) frag) (enqueue_message q (take (unat message_length) frag))))))
      else Ok (frag, q, Frames_done))"
  by auto
termination
proof (relation "measure (\<lambda>(frag, q). length frag)", goal_cases)
  case (2 frag q type version message_length)
  then have "0 < length frag" by linarith
  then show ?case using 2 diff_unat_less [of message_length "length frag"] by simp
qed simp

declare frame_loop.simps [simp del]

definition remaining_length :: "bytes option \<Rightarrow> nat" where
  "remaining_length frag = RECEIVE_BUFFFER_SIZE - length (case frag of None \<Rightarrow> [] | Some f \<Rightarrow> f)"

text \<open>
  The parts of \<open>switch_info\<close> the receiver works on: the fragment buffer and the receive queue.  The
  result is 0, or -1 on an error; in the case of a bad version the caller's error message is sent by
  \<open>ofpmsg_send_error_msg\<close>, which needs the rest of the daemon, so it is left to the third component.
\<close>

definition recv_from_secure_channel ::
  "read_result \<Rightarrow> bytes option \<Rightarrow> bytes message_queue option \<Rightarrow>
   (int \<times> bytes option \<times> bytes message_queue option \<times> frame_result) res" where
  "recv_from_secure_channel r frag recv_queue =
     assert_then (recv_queue \<noteq> None)
      (let q = the recv_queue in
       if mq_length q > 0 then Ok (0, frag, Some q, Frames_done)
       else let f = (case frag of None \<Rightarrow> [] | Some f \<Rightarrow> f) in
       case r of
         Read_again \<Rightarrow> Ok (0, Some f, Some q, Frames_done)
       | Read_error \<Rightarrow> Ok (-1, Some f, Some q, Frames_done)
       | Read_data bs \<Rightarrow>
           let received = take (remaining_length frag) bs in
           if received = [] then Ok (-1, Some f, Some q, Frames_done)
           else bnd (frame_loop (f @ received) q) (\<lambda>(f, q, e).
                  Ok (if e = Bad_version then -1 else 0, Some f, Some q, e)))"

section \<open>Sending\<close>

definition send_to_secure_channel ::
  "bytes \<Rightarrow> bytes message_queue option \<Rightarrow> bool \<Rightarrow> (int \<times> bytes message_queue option \<times> bool) res" where
  "send_to_secure_channel buf send_queue writable =
     assert_then (length buf > 0)
      (case send_queue of
         None \<Rightarrow> Ok (-1, None, writable)
       | Some q \<Rightarrow> Ok (0, Some (enqueue_message q buf), True))"

definition IOV_MAX :: nat where
  "IOV_MAX = 1024"

text \<open>The vector of buffers for \<open>writev\<close>: its length is the count \<open>iovcnt\<close>.\<close>

definition append_to_writev_args :: "bytes \<Rightarrow> bytes list \<Rightarrow> bool \<times> bytes list" where
  "append_to_writev_args message args = (length (args @ [message]) < IOV_MAX, args @ [message])"

datatype writev_result = Wrote nat | Write_again | Write_error

text \<open>Replacement of the first message by what \<open>remove_front_buffer\<close> leaves of it.\<close>

definition shorten_first :: "nat \<Rightarrow> bytes message_queue \<Rightarrow> bytes message_queue" where
  "shorten_first n q =
     (let d = mq_divider q + 1
      in q\<lparr>mq_elements := (mq_elements q)[d := map_option (drop n) (mq_elements q ! d)]\<rparr>)"

text \<open>
  The loop over the messages that are written; the flag is what \<open>set_writable\<close> was told last.  Every
  turn removes one cell of the queue, so one more turn than there are cells is enough.
\<close>

fun drain_loop :: "nat \<Rightarrow> nat \<Rightarrow> bytes message_queue \<Rightarrow> bool \<Rightarrow> (bytes message_queue \<times> bool) res" where
  "drain_loop 0 write_length q writable = Fault No_return"
| "drain_loop (Suc fuel) write_length q writable =
     (case peek_message q of
        None \<Rightarrow> Ok (q, writable)
      | Some buf \<Rightarrow>
          if write_length = 0 then Ok (q, True)
          else if write_length < length buf then Ok (shorten_first write_length q, True)
          else drain_loop fuel (write_length - length buf) (snd (dequeue_message q)) writable)"

text \<open>
  The last component of the result is what \<open>writev\<close> took: the first bytes of the buffers in the vector
  it was given, one buffer after the other.
\<close>

definition flush_secure_channel ::
  "writev_result \<Rightarrow> int \<Rightarrow> bytes message_queue option \<Rightarrow> bool \<Rightarrow>
   (int \<times> bytes message_queue option \<times> bool \<times> bytes) res" where
  "flush_secure_channel r fd send_queue writable =
     assert_then (send_queue \<noteq> None)
      (assert_then (fd \<ge> 0)
       (let q = the send_queue in
        if mq_length q = 0 then Ok (0, Some q, writable, [])
        else bnd (foreach_message_queue q append_to_writev_args []) (\<lambda>iov.
          if iov = [] then Ok (0, Some q, False, [])
          else case r of
            Write_again \<Rightarrow> Ok (0, Some q, True, [])
          | Write_error \<Rightarrow> Ok (-1, Some q, False, [])
          | Wrote n \<Rightarrow>
              let written = take n (concat iov) in
              if n = 0 then Ok (0, Some q, False, written)
              else bnd (drain_loop (Suc (length (mq_elements q))) (length written) q False)
                     (\<lambda>(q, w). Ok (0, Some q, w, written)))))"

section \<open>Framing does not depend on fragmentation\<close>

text \<open>
  A message as a switch sends it: a header of an accepted version whose length field is the number of
  bytes of the message.
\<close>

definition framed :: "bytes \<Rightarrow> bool" where
  "framed m \<longleftrightarrow> 8 \<le> length m \<and> rd16 m 2 = Ok (of_nat (length m)) \<and> length m < 65536 \<and>
     (\<exists>type version. rd8 m 1 = Ok type \<and> rd8 m 0 = Ok version \<and> valid_message_version type version)"

text \<open>What is left in the fragment buffer: a proper prefix of a message.\<close>

definition partial_frame :: "bytes \<Rightarrow> bool" where
  "partial_frame f \<longleftrightarrow> (\<exists>m rest. framed m \<and> f @ rest = m \<and> rest \<noteq> [])"

lemma rd_append: "i + n \<le> length m \<Longrightarrow> rd n (m @ m') i = rd n m i"
  by (simp add: rd_def)

lemma framed_length16: "framed m \<Longrightarrow> unat (of_nat (length m) :: 16 word) = length m"
  by (simp add: framed_def unat_of_nat take_bit_eq_mod)

lemma frame_loop_message:
  assumes "framed m"
  shows "frame_loop (m @ rest) q = frame_loop rest (enqueue_message q m)"
proof -
  have "(of_nat (length m) :: 16 word) \<noteq> 0"
    using framed_length16 [OF assms] assms by (metis framed_def le_zero_eq unat_0 zero_neq_numeral)
  then show ?thesis
    using assms framed_length16 [OF assms]
    by (subst frame_loop.simps) (auto simp: framed_def rd_append assert_then_def)
qed

lemma frame_loop_partial:
  assumes "partial_frame f"
  shows "frame_loop f q = Ok (f, q, Frames_done)"
proof (cases "8 \<le> length f")
  case True
  obtain m rest where m: "framed m" "m = f @ rest" "rest \<noteq> []" using assms by (auto simp: partial_frame_def)
  have r: "rd8 f 1 = rd8 m 1" "rd8 f 0 = rd8 m 0" "rd16 f 2 = rd16 m 2" using True m(2) by (simp_all add: rd_append)
  obtain type version where h: "rd8 m 1 = Ok type" "rd8 m 0 = Ok version" "valid_message_version type version"
    "rd16 m 2 = Ok (of_nat (length m))" using m(1) by (auto simp: framed_def)
  have "length f < length m" using m by simp
  then show ?thesis
    using True h framed_length16 [OF m(1)] unfolding frame_loop.simps [of f q] r by simp
qed (simp add: frame_loop.simps [of f])

lemma frame_loop_messages:
  assumes "\<forall>m \<in> set ms. framed m" and "partial_frame f"
  shows "frame_loop (concat ms @ f) q = Ok (f, foldl enqueue_message q ms, Frames_done)"
  using assms(1) by (induction ms arbitrary: q) (auto simp: frame_loop_message frame_loop_partial [OF assms(2)])

text \<open>Every prefix of a stream of messages is some whole messages and the beginning of the next.\<close>

lemma partial_frame_Nil: "framed m \<Longrightarrow> partial_frame []"
  by (force simp: partial_frame_def framed_def)

lemma split_stream:
  assumes "\<forall>m \<in> set ms. framed m" and "s @ rest = concat ms" and "rest \<noteq> []"
  shows "\<exists>ms1 ms2 f. ms = ms1 @ ms2 \<and> s = concat ms1 @ f \<and> partial_frame f \<and> f @ rest = concat ms2 \<and> ms2 \<noteq> []"
  using assms
proof (induction ms arbitrary: s)
  case (Cons m ms)
  show ?case
  proof (cases "length m \<le> length s")
    case True
    then obtain s' where s: "s = m @ s'"
      using Cons.prems(2) by (metis append_eq_append_conv_if append_take_drop_id concat.simps(2))
    then have "s' @ rest = concat ms" using Cons.prems(2) by simp
    then obtain ms1 ms2 f where "ms = ms1 @ ms2" "s' = concat ms1 @ f" "partial_frame f" "f @ rest = concat ms2" "ms2 \<noteq> []"
      using Cons.IH [of s'] Cons.prems by auto
    then show ?thesis using s by (intro exI [of _ "m # ms1"] exI [of _ ms2]) auto
  next
    case False
    have "s = take (length s) m" using False Cons.prems(2) by (simp add: append_eq_append_conv_if)
    then have "m = s @ drop (length s) m" by (metis append_take_drop_id)
    moreover have "drop (length s) m \<noteq> []" using False by simp
    ultimately have "partial_frame s" using Cons.prems(1) unfolding partial_frame_def by (metis list.set_intros(1))
    then have "m # ms = [] @ (m # ms) \<and> s = concat [] @ s \<and> partial_frame s \<and> s @ rest = concat (m # ms) \<and> m # ms \<noteq> []"
      using Cons.prems(2) by simp
    then show ?thesis by blast
  qed
qed simp

text \<open>
  The daemon reads when the socket is readable and then takes all messages from the queue.  The list of
  numbers says how many bytes the kernel hands over each time.
\<close>

fun dequeue_all :: "nat \<Rightarrow> 'm message_queue \<Rightarrow> ('m list \<times> 'm message_queue) res" where
  "dequeue_all 0 q = Fault No_return"
| "dequeue_all (Suc fuel) q =
     (case dequeue_message q of
        (None, q) \<Rightarrow> Ok ([], q)
      | (Some m, q) \<Rightarrow> bnd (dequeue_all fuel q) (\<lambda>(ms, q). Ok (m # ms, q)))"

fun receive_stream ::
  "nat list \<Rightarrow> bytes \<Rightarrow> bytes option \<Rightarrow> bytes message_queue \<Rightarrow> (bytes list \<times> bytes) res" where
  "receive_stream [] stream frag q = Ok ([], stream)"
| "receive_stream (k # ks) stream frag q =
     (if stream = [] then Ok ([], [])
      else let n = min k (remaining_length frag) in
        bnd (recv_from_secure_channel (Read_data (take n stream)) frag (Some q)) (\<lambda>(ret, frag, q, e).
        bnd (dequeue_all (Suc (length (mq_elements (the q)))) (the q)) (\<lambda>(ms, q).
        if ret < 0 then Ok (ms, drop n stream)
        else bnd (receive_stream ks (drop n stream) frag q) (\<lambda>(ms', stream). Ok (ms @ ms', stream)))))"

lemma dequeue_all_ok:
  "mq_inv q \<Longrightarrow> length (mq_list q) < fuel \<Longrightarrow>
   \<exists>q'. dequeue_all fuel q = Ok (mq_list q, q') \<and> mq_inv q' \<and> mq_list q' = []"
proof (induction fuel arbitrary: q)
  case (Suc fuel)
  obtain m q1 where d: "dequeue_message q = (m, q1)" by (cases "dequeue_message q")
  have q1: "m = first_of (mq_list q)" "mq_inv q1" "mq_list q1 = tl (mq_list q)"
    using mq.result_deq [OF Suc.prems(1)] mq.inv_deq [OF Suc.prems(1)] mq.contents_deq [OF Suc.prems(1)] d by auto
  show ?case
  proof (cases "mq_list q")
    case Nil
    with d q1 show ?thesis by simp
  next
    case (Cons a ms)
    with Suc.IH [OF q1(2)] Suc.prems(2) d q1 show ?thesis by auto
  qed
qed simp

lemma length_mq_list: "length (mq_list q) < Suc (length (mq_elements q))"
  by (simp add: mq_list_def)

lemma partial_frame_room:
  assumes "partial_frame f"
  shows "length f < 65535"
proof -
  obtain m rest where m: "framed m" "f @ rest = m" "rest \<noteq> []" using assms by (auto simp: partial_frame_def)
  then have "length f < length m" by auto
  then show ?thesis using m(1) by (simp add: framed_def)
qed

lemma mq_empty_length: "mq_inv q \<Longrightarrow> mq_list q = [] \<Longrightarrow> mq_length q = 0"
  by (simp add: mq_inv_def mq_list_def)

lemma recv_chunk:
  assumes q: "mq_inv q" "mq_list q = []" and f: "f = (case frag of None \<Rightarrow> [] | Some f \<Rightarrow> f)"
    and bs: "bs \<noteq> []" "length bs \<le> remaining_length frag" "f @ bs = concat ms @ f'"
    and ms: "\<forall>m \<in> set ms. framed m" "partial_frame f'"
  shows "\<exists>q'. recv_from_secure_channel (Read_data bs) frag (Some q) = Ok (0, Some f', Some q', Frames_done) \<and>
     mq_inv q' \<and> mq_list q' = ms"
  using frame_loop_messages [OF ms, of q] mq.enq_all [OF q(1), of ms] q(2) bs mq_empty_length [OF q]
  by (simp add: recv_from_secure_channel_def assert_then_def f [symmetric])

lemma receive_stream_frames:
  assumes "\<forall>m \<in> set ms. framed m" and "f @ stream = concat ms" and "stream \<noteq> []" and "partial_frame f"
    and "f = (case frag of None \<Rightarrow> [] | Some f \<Rightarrow> f)" and "mq_inv q" "mq_list q = []"
    and "\<forall>k \<in> set ks. 0 < k" and "length stream \<le> length ks"
  shows "receive_stream ks stream frag q = Ok (ms, [])"
  using assms
proof (induction ks arbitrary: ms f stream frag q)
  case (Cons k ks)
  define n where "n = min k (remaining_length frag)"
  have "0 < remaining_length frag"
    using partial_frame_room [OF Cons.prems(4)] Cons.prems(5) by (simp add: remaining_length_def RECEIVE_BUFFFER_SIZE_def)
  then have n: "0 < n" "length (take n stream) \<le> remaining_length frag" "take n stream \<noteq> []"
    using Cons.prems(3,8) by (auto simp: n_def)
  show ?case
  proof (cases "drop n stream = []")
    case True
    have "ms \<noteq> []" using Cons.prems(2,3) by auto
    then have p: "partial_frame []" using Cons.prems(1) partial_frame_Nil by (cases ms) auto
    have s: "f @ take n stream = concat ms @ []" using Cons.prems(2) True append_take_drop_id [of n stream] by simp
    obtain q' where q': "recv_from_secure_channel (Read_data (take n stream)) frag (Some q) = Ok (0, Some [], Some q', Frames_done)"
      "mq_inv q'" "mq_list q' = ms"
      using recv_chunk [OF Cons.prems(6,7,5) n(3,2) s Cons.prems(1) p] by blast
    have "receive_stream ks [] (Some []) q'' = Ok ([], [])" for q'' by (cases ks) simp_all
    moreover obtain q'' where "dequeue_all (Suc (length (mq_elements q'))) q' = Ok (ms, q'')"
      using dequeue_all_ok [OF q'(2) length_mq_list] q'(3) by auto
    ultimately show ?thesis
      using q' Cons.prems(3) True by (simp add: n_def [symmetric] del: dequeue_all.simps)
  next
    case False
    have "(f @ take n stream) @ drop n stream = concat ms" using Cons.prems(2) by simp
    then obtain ms1 ms2 f' where sp: "ms = ms1 @ ms2" "f @ take n stream = concat ms1 @ f'" "partial_frame f'"
      "f' @ drop n stream = concat ms2"
      using split_stream [OF Cons.prems(1) _ False] by blast
    obtain q' where q': "recv_from_secure_channel (Read_data (take n stream)) frag (Some q) = Ok (0, Some f', Some q', Frames_done)"
      "mq_inv q'" "mq_list q' = ms1"
      using recv_chunk [OF Cons.prems(6,7,5) n(3,2) sp(2) _ sp(3)] Cons.prems(1) sp(1) by auto
    obtain q'' where q'': "dequeue_all (Suc (length (mq_elements q'))) q' = Ok (ms1, q'')" "mq_inv q''" "mq_list q'' = []"
      using dequeue_all_ok [OF q'(2) length_mq_list] q'(3) by auto
    have "receive_stream ks (drop n stream) (Some f') q'' = Ok (ms2, [])"
      using Cons.IH [OF _ sp(4) False sp(3), of "Some f'" q''] q''(2,3) Cons.prems(1,8,9) sp(1) n(1) by auto
    then show ?thesis using q' q'' sp(1) Cons.prems(3) by (simp add: n_def [symmetric] del: dequeue_all.simps)
  qed
qed simp

text \<open>A header that announces a length of 0 ends the daemon.\<close>

lemma frame_loop_zero_length:
  assumes "8 \<le> length frag" and "rd8 frag 1 = Ok type" "rd8 frag 0 = Ok version" "valid_message_version type version"
    and "rd16 frag 2 = Ok 0"
  shows "frame_loop frag q = Fault Assertion"
  using assms by (subst frame_loop.simps) (auto simp: assert_then_def)

section \<open>What is queued is sent\<close>

lemma foreach_writev_args:
  "length args < IOV_MAX \<Longrightarrow>
   foreach_elements (map Some ms) append_to_writev_args args = Ok (args @ take (IOV_MAX - length args) ms)"
proof (induction ms arbitrary: args)
  case (Cons m ms)
  show ?case
  proof (cases "Suc (length args) < IOV_MAX")
    case True
    then have "IOV_MAX - length args = Suc (IOV_MAX - Suc (length args))" by simp
    then show ?thesis using True Cons.IH [of "args @ [m]"] by (simp add: append_to_writev_args_def)
  next
    case False
    then have "IOV_MAX - length args = Suc 0" using Cons.prems by simp
    then show ?thesis using False by (simp add: append_to_writev_args_def)
  qed
qed simp

lemma mq_elements_list: "mq_inv q \<Longrightarrow> mq_elements q = replicate (mq_divider q + 1) None @ map Some (mq_list q)"
  unfolding mq_inv_split by (auto simp: mq_list_def comp_def)

lemma flush_iov:
  assumes "mq_inv q"
  shows "foreach_message_queue q append_to_writev_args [] = Ok (take IOV_MAX (mq_list q))"
proof (cases "at_tail q")
  case True
  then show ?thesis by (simp add: foreach_message_queue_def mq_list_def at_tail_def)
next
  case False
  have "drop (mq_divider q + 1) (mq_elements q) = map Some (mq_list q)"
    using mq_elements_list [OF assms] by (metis append_eq_conv_conj length_replicate)
  then show ?thesis using False foreach_writev_args [of "[]" "mq_list q"]
    by (simp add: foreach_message_queue_def IOV_MAX_def)
qed

lemma mq_length_list: "mq_inv q \<Longrightarrow> mq_length q = of_nat (length (mq_list q))"
  by (simp add: mq_inv_def mq_list_def)

lemma shorten_first_ok:
  assumes inv: "mq_inv q" and l: "mq_list q = m # ms"
  shows "mq_inv (shorten_first n q) \<and> mq_list (shorten_first n q) = drop n m # ms"
proof -
  have e: "mq_elements q = replicate (mq_divider q + 1) None @ Some m # map Some ms"
    using mq_elements_list [OF inv] l by simp
  have "(mq_elements q)[mq_divider q + 1 := map_option (drop n) (mq_elements q ! (mq_divider q + 1))] =
      replicate (mq_divider q + 1) None @ Some (drop n m) # map Some ms"
    unfolding e by (simp add: list_update_append nth_append del: replicate_Suc)
  moreover have "mq_length q = of_nat (length (m # ms))" unfolding l [symmetric] by (rule mq_length_list [OF inv])
  ultimately show ?thesis
    by (simp add: shorten_first_def mq_inv_def mq_list_def comp_def del: replicate_Suc)
qed

lemma drain_loop_ok:
  assumes "mq_inv q" and "n \<le> length (concat (mq_list q))" and "length (mq_list q) < fuel"
  shows "\<exists>q' w'. drain_loop fuel n q w = Ok (q', w') \<and> mq_inv q' \<and>
     concat (mq_list q') = drop n (concat (mq_list q)) \<and> length (mq_list q') \<le> length (mq_list q) \<and>
     w' = (w \<or> mq_list q' \<noteq> []) \<and> ([] \<notin> set (mq_list q) \<longrightarrow> [] \<notin> set (mq_list q'))"
  using assms
proof (induction fuel arbitrary: n q)
  case (Suc fuel)
  show ?case
  proof (cases "mq_list q")
    case Nil
    then show ?thesis using Suc.prems mq.result_peek [OF Suc.prems(1)] by simp
  next
    case (Cons m ms)
    have p: "peek_message q = Some m" using mq.result_peek [OF Suc.prems(1)] Cons by simp
    have d: "mq_inv (snd (dequeue_message q))" "mq_list (snd (dequeue_message q)) = ms"
      using mq.inv_deq [OF Suc.prems(1)] mq.contents_deq [OF Suc.prems(1)] Cons by auto
    consider "n = 0" | "0 < n" "n < length m" | "length m \<le> n" "0 < n" by linarith
    then show ?thesis
    proof cases
      case 1
      then show ?thesis using p Cons Suc.prems(1) by simp
    next
      case 2
      then show ?thesis using p Cons shorten_first_ok [OF Suc.prems(1) Cons, of n] by simp
    next
      case 3
      have "\<exists>q' w'. drain_loop fuel (n - length m) (snd (dequeue_message q)) w = Ok (q', w') \<and> mq_inv q' \<and>
          concat (mq_list q') = drop (n - length m) (concat ms) \<and> length (mq_list q') \<le> length ms \<and> w' = (w \<or> mq_list q' \<noteq> []) \<and>
          ([] \<notin> set ms \<longrightarrow> [] \<notin> set (mq_list q'))"
        using Suc.IH [OF d(1), of "n - length m"] Suc.prems(2,3) Cons d(2) by simp
      then show ?thesis using p 3 Cons by auto
    qed
  qed
qed simp

text \<open>The bytes \<open>writev\<close> takes are the first of the queue, in order, and exactly these leave the queue.\<close>

lemma flush_ok:
  assumes inv: "mq_inv q" and ne: "mq_list q \<noteq> []" "length (mq_list q) < 2 ^ 32" and "0 < n" "0 \<le> fd"
  shows "\<exists>q' w' bs. flush_secure_channel (Wrote n) fd (Some q) w = Ok (0, Some q', w', bs) \<and> mq_inv q' \<and>
     concat (mq_list q) = bs @ concat (mq_list q') \<and> length (mq_list q') \<le> length (mq_list q) \<and>
     w' = (mq_list q' \<noteq> []) \<and> ([] \<notin> set (mq_list q) \<longrightarrow> bs \<noteq> [] \<and> [] \<notin> set (mq_list q'))"
proof -
  let ?iov = "take IOV_MAX (mq_list q)"
  let ?bs = "take n (concat ?iov)"
  have len: "mq_length q \<noteq> 0"
  proof -
    have "unat (of_nat (length (mq_list q)) :: 32 word) = length (mq_list q)"
      using ne(2) by (simp add: unat_of_nat take_bit_eq_mod)
    then show ?thesis using ne(1) mq_length_list [OF inv] by (metis length_0_conv unat_0)
  qed
  have split: "concat (mq_list q) = concat ?iov @ concat (drop IOV_MAX (mq_list q))"
    by (metis append_take_drop_id concat_append)
  have pre: "take (length ?bs) (concat (mq_list q)) = ?bs" "length ?bs \<le> length (concat (mq_list q))"
    unfolding split by (simp_all add: min_def)
  obtain q' w' where q': "drain_loop (Suc (length (mq_elements q))) (length ?bs) q False = Ok (q', w')" "mq_inv q'"
    "concat (mq_list q') = drop (length ?bs) (concat (mq_list q))" "length (mq_list q') \<le> length (mq_list q)" "w' = (mq_list q' \<noteq> [])"
    "[] \<notin> set (mq_list q) \<longrightarrow> [] \<notin> set (mq_list q')"
    using drain_loop_ok [OF inv pre(2) length_mq_list, of False] by auto
  have iov: "?iov \<noteq> []" using ne(1) by (simp add: IOV_MAX_def)
  have "?bs \<noteq> []" if "[] \<notin> set (mq_list q)" using ne(1) that assms(4) by (cases "mq_list q") (auto simp: IOV_MAX_def)
  moreover have "concat (mq_list q) = ?bs @ concat (mq_list q')"
    using append_take_drop_id [of "length ?bs" "concat (mq_list q)"] unfolding pre(1) q'(3) by simp
  moreover have "flush_secure_channel (Wrote n) fd (Some q) w = Ok (0, Some q', w', ?bs)"
    using q'(1) len flush_iov [OF inv] iov assms(4,5)
    by (simp add: flush_secure_channel_def assert_then_def Let_def del: drain_loop.simps)
  ultimately show ?thesis using q' by blast
qed

text \<open>
  The write handler is called while the descriptor is marked writable; each call sends some bytes.
\<close>

fun send_stream :: "nat list \<Rightarrow> int \<Rightarrow> bytes message_queue \<Rightarrow> bool \<Rightarrow> (bytes \<times> bytes message_queue \<times> bool) res" where
  "send_stream [] fd q w = Ok ([], q, w)"
| "send_stream (n # ns) fd q w =
     (if \<not> w then Ok ([], q, w)
      else bnd (flush_secure_channel (Wrote n) fd (Some q) w) (\<lambda>(ret, q', w', written).
           bnd (send_stream ns fd (the q') w') (\<lambda>(bs, q'', w''). Ok (written @ bs, q'', w''))))"

lemma send_stream_ok:
  assumes "mq_inv q" and "mq_list q \<noteq> []" and "length (mq_list q) < 2 ^ 32" and "[] \<notin> set (mq_list q)"
    and "\<forall>n \<in> set ns. 0 < n" and "length (concat (mq_list q)) \<le> length ns" and "0 \<le> fd"
  shows "\<exists>q'. send_stream ns fd q True = Ok (concat (mq_list q), q', False) \<and> mq_inv q' \<and> mq_list q' = []"
  using assms
proof (induction ns arbitrary: q)
  case Nil
  then show ?case by (cases "mq_list q") auto
next
  case (Cons n ns)
  obtain q' w' bs where q': "flush_secure_channel (Wrote n) fd (Some q) True = Ok (0, Some q', w', bs)" "mq_inv q'"
    "concat (mq_list q) = bs @ concat (mq_list q')" "length (mq_list q') \<le> length (mq_list q)"
    "w' = (mq_list q' \<noteq> [])" "[] \<notin> set (mq_list q')" "bs \<noteq> []"
    using flush_ok [OF Cons.prems(1-3) _ Cons.prems(7), of n True] Cons.prems(4,5) by auto
  show ?case
  proof (cases "mq_list q' = []")
    case True
    then have "send_stream ns fd q' w' = Ok ([], q', False)" using q'(5) by (cases ns) simp_all
    then show ?thesis using q' True by simp
  next
    case False
    have "length (concat (mq_list q')) \<le> length ns" using q'(3,7) Cons.prems(6) by (cases bs) auto
    then obtain q'' where "send_stream ns fd q' True = Ok (concat (mq_list q'), q'', False)" "mq_inv q''" "mq_list q'' = []"
      using Cons.IH [OF q'(2) False] q'(4,6) Cons.prems by auto
    then show ?thesis using q' False by simp
  qed
qed

end
