(* ===== verification/Event_Forward.thy ===== *)
theory Event_Forward
  imports Linked_List Trema_Prelude
begin

text \<open>
  Requests that edit the lists of services to which a switch daemon forwards events: their encoding in
  \<open>src/lib/event_forward_interface.c\<close> and their effect in
  \<open>src/switch_manager/event_forward_entry_manipulation.c\<close>.

  A request is its bytes: the type, three bytes of padding, the number of services in network byte
  order, and the names, each with a terminating null character.  A service name is the list of its
  bytes without that character.
\<close>

section \<open>Encoding\<close>

abbreviation "EVENT_FORWARD_TYPE_VENDOR \<equiv> (0 :: 8 word)"
abbreviation "EVENT_FORWARD_TYPE_PACKET_IN \<equiv> (1 :: 8 word)"
abbreviation "EVENT_FORWARD_TYPE_PORT_STATUS \<equiv> (2 :: 8 word)"
abbreviation "EVENT_FORWARD_TYPE_STATE_NOTIFY \<equiv> (3 :: 8 word)"

abbreviation "EFI_OPERATION_SUCCEEDED \<equiv> (0 :: 8 word)"
abbreviation "EFI_OPERATION_FAILED \<equiv> (1 :: 8 word)"

text \<open>The bytes of the names and the counter \<open>n_services\<close>.\<close>

fun append_names :: "bytes list \<Rightarrow> 32 word \<Rightarrow> bytes \<times> 32 word" where
  "append_names [] n = ([], n)"
| "append_names (name # names) n = (let (bs, k) = append_names names (n + 1) in (name @ [0] @ bs, k))"

definition create_event_forward_operation_request :: "bytes \<Rightarrow> 8 word \<Rightarrow> bytes list \<Rightarrow> bytes" where
  "create_event_forward_operation_request buf type services =
     (let (names, n) = append_names services 0 in buf @ [type, 0, 0, 0] @ put32 n @ names)"

definition create_event_forward_operation_reply :: "8 word \<Rightarrow> 8 word \<Rightarrow> bytes list \<Rightarrow> bytes" where
  "create_event_forward_operation_reply type result services =
     (let (names, n) = append_names services 0 in [type, result, 0, 0] @ put32 n @ names)"

section \<open>Effect\<close>

text \<open>The bytes of a C string: those before the first null character.\<close>

definition cstring :: "bytes \<Rightarrow> bytes" where
  "cstring bs = takeWhile (\<lambda>b. b \<noteq> 0) bs"

definition string_equal :: "bytes \<Rightarrow> bytes \<Rightarrow> bool" where
  "string_equal x y \<longleftrightarrow> x = y"

text \<open>
  The arguments of the next three functions are the list, \<open>request->n_services\<close> in host byte order
  and the bytes from \<open>request->service_list\<close> to the end of the request.
\<close>

definition management_event_forward_entry_add :: "bytes list \<Rightarrow> 32 word \<Rightarrow> bytes \<Rightarrow> bytes list res" where
  "management_event_forward_entry_add services n_services names =
     (if n_services = 0 \<or> names = [] then Ok services
      else let name = cstring names in
        bnd (find_list_custom services (Some (string_equal name))) (\<lambda>found.
        Ok (if found = None then append_to_tail services name else services)))"

definition management_event_forward_entry_delete :: "bytes list \<Rightarrow> 32 word \<Rightarrow> bytes \<Rightarrow> bytes list res" where
  "management_event_forward_entry_delete services n_services names =
     (if n_services = 0 \<or> names = [] then Ok services
      else let name = cstring names in
        bnd (find_list_custom services (Some (string_equal name))) (\<lambda>found.
        case found of None \<Rightarrow> Ok services
        | Some match \<Rightarrow>
            bnd (delete_element services match) (\<lambda>(services, success). assert_then success (Ok services))))"

text \<open>
  The loop that splits the names.  The array of pointers has \<open>request->n_services\<close> places; a store
  behind it is a fault.  The arguments are the places left in the array, the name being read, and the
  bytes to come.
\<close>

fun split_names :: "nat \<Rightarrow> bytes \<Rightarrow> bytes \<Rightarrow> bytes list res" where
  "split_names places name [] = Ok []"
| "split_names places name (b # bs) =
     (if b = 0 then
        case places of
          0 \<Rightarrow> Fault Out_of_bounds
        | Suc left \<Rightarrow> if left = 0 then Ok [name] else bnd (split_names left [] bs) (\<lambda>names. Ok (name # names))
      else split_names places (name @ [b]) bs)"

definition management_event_forward_entries_set :: "bytes list \<Rightarrow> 32 word \<Rightarrow> bytes \<Rightarrow> bytes list res" where
  "management_event_forward_entries_set services n_services names =
     bnd (split_names (unat n_services) [] names) (\<lambda>found.
     Ok (foldl (\<lambda>services name. if length name = 0 then services else append_to_tail services name)
          create_list found))"

section \<open>A request does what its sender meant\<close>

definition c_name :: "bytes \<Rightarrow> bool" where
  "c_name name \<longleftrightarrow> 0 \<notin> set name \<and> name \<noteq> []"

lemma append_names_eq: "append_names names n = (concat (map (\<lambda>name. name @ [0]) names), n + of_nat (length names))"
  by (induction names arbitrary: n) (auto simp: add.commute)

lemma request_fields:
  "create_event_forward_operation_request buf type services =
     buf @ [type, 0, 0, 0] @ put32 (of_nat (length services)) @ concat (map (\<lambda>name. name @ [0]) services)"
  by (simp add: create_event_forward_operation_request_def append_names_eq)

lemma split_names_skip: "0 \<notin> set bs \<Longrightarrow> split_names places name (bs @ rest) = split_names places (name @ bs) rest"
  by (induction bs arbitrary: name) auto

lemma split_names_ok:
  "\<forall>name \<in> set names. 0 \<notin> set name \<Longrightarrow>
   split_names (length names) [] (concat (map (\<lambda>name. name @ [0]) names)) = Ok names"
  by (induction names) (auto simp: split_names_skip)

lemma filter_fold:
  "foldl (\<lambda>services name. if length name = 0 then services else append_to_tail services name) acc names =
   acc @ filter (\<lambda>name. name \<noteq> []) names"
  by (induction names arbitrary: acc) auto

lemma entries_set_ok:
  assumes "\<forall>name \<in> set names. c_name name" and "length names < 2 ^ 32"
  shows "management_event_forward_entries_set services (of_nat (length names)) (concat (map (\<lambda>name. name @ [0]) names)) =
     Ok names"
proof -
  have "unat (of_nat (length names) :: 32 word) = length names"
    using assms(2) by (simp add: unat_of_nat take_bit_eq_mod)
  moreover have "filter (\<lambda>name. name \<noteq> []) names = names"
    using assms(1) by (auto simp: c_name_def filter_id_conv)
  ultimately show ?thesis
    using split_names_ok [of names] assms(1) filter_fold [of "[]" names]
    by (simp add: management_event_forward_entries_set_def create_list_def c_name_def)
qed

lemma cstring_name: "c_name name \<Longrightarrow> cstring (name @ [0]) = name"
  by (auto simp: cstring_def c_name_def takeWhile_append)

lemma find_string_equal: "List.find (string_equal name) services = (if name \<in> set services then Some name else None)"
  by (induction services) (auto simp: string_equal_def)

text \<open>\<open>find_list_custom\<close> refuses an empty list, so both functions end the daemon on one.\<close>

lemma entry_add_ok:
  "c_name name \<Longrightarrow> services \<noteq> [] \<Longrightarrow> management_event_forward_entry_add services 1 (name @ [0]) =
     Ok (if name \<in> set services then services else services @ [name])"
  by (simp add: management_event_forward_entry_add_def cstring_name find_list_custom_def find_list_loop_eq
      find_string_equal die_unless_def)

lemma entry_delete_ok:
  "c_name name \<Longrightarrow> services \<noteq> [] \<Longrightarrow>
     management_event_forward_entry_delete services 1 (name @ [0]) = Ok (remove1 name services)"
  by (simp add: management_event_forward_entry_delete_def cstring_name find_list_custom_def find_list_loop_eq
      find_string_equal assert_then_def die_unless_def delete_element_eq remove1_idem)

lemma entry_empty_dies:
  assumes "n_services \<noteq> 0" and "names \<noteq> []"
  shows "management_event_forward_entry_add [] n_services names = Fault Die"
    and "management_event_forward_entry_delete [] n_services names = Fault Die"
  using assms by (simp_all add: management_event_forward_entry_add_def management_event_forward_entry_delete_def
      find_list_custom_def die_unless_def)

lemma entries_set_overflow:
  assumes "0 \<in> set names"
  shows "management_event_forward_entries_set services 0 names = Fault Out_of_bounds"
proof -
  have "split_names 0 name names = Fault Out_of_bounds" for name
    using assms by (induction names arbitrary: name) auto
  then show ?thesis by (simp add: management_event_forward_entries_set_def)
qed

lemma entry_add_distinct:
  "distinct services \<Longrightarrow> management_event_forward_entry_add services n names = Ok services' \<Longrightarrow> distinct services'"
  by (auto simp: management_event_forward_entry_add_def Let_def find_list_custom_def find_list_loop_eq
      find_string_equal die_unless_def split: if_splits)

end
