(* ===== verification/Ofm_Errors.thy ===== *)
theory Ofm_Errors
  imports Ofm_Validate
begin

text \<open>
  The table \<open>error_maps\<close> of \<open>src/lib/openflow_message.c\<close>, which translates the error numbers of the
  validators into the type and code of an OpenFlow error message, and its lookup.  The table is
  indexed by the message type; each row is searched up to the entry whose error number is 0.
\<close>

type_synonym error_row = "8 word \<times> (int \<times> 16 word \<times> 16 word) list"

definition error_maps_session :: "error_row list" where
  "error_maps_session = [
    (OFPT_HELLO,
      [(ERROR_UNSUPPORTED_VERSION, OFPET_HELLO_FAILED, OFPHFC_INCOMPATIBLE),
       (ERROR_TOO_SHORT_MESSAGE, OFPET_BAD_REQUEST, OFPBRC_BAD_LEN),
       (ERROR_TOO_LONG_MESSAGE, OFPET_BAD_REQUEST, OFPBRC_BAD_LEN),
       (ERROR_UNDEFINED_TYPE, OFPET_BAD_REQUEST, OFPBRC_BAD_TYPE),
       (ERROR_INVALID_TYPE, OFPET_BAD_REQUEST, OFPBRC_BAD_TYPE),
       (0, 0, 0)]),
    (OFPT_ERROR,
      [(ERROR_UNSUPPORTED_VERSION, OFPET_BAD_REQUEST, OFPBRC_BAD_VERSION),
       (ERROR_TOO_SHORT_MESSAGE, OFPET_BAD_REQUEST, OFPBRC_BAD_LEN),
       (ERROR_TOO_LONG_MESSAGE, OFPET_BAD_REQUEST, OFPBRC_BAD_LEN),
       (ERROR_UNDEFINED_TYPE, OFPET_BAD_REQUEST, OFPBRC_BAD_TYPE),
       (ERROR_INVALID_TYPE, OFPET_BAD_REQUEST, OFPBRC_BAD_TYPE),
       (0, 0, 0)]),
    (OFPT_ECHO_REQUEST,
      [(ERROR_UNSUPPORTED_VERSION, OFPET_BAD_REQUEST, OFPBRC_BAD_VERSION),
       (ERROR_TOO_SHORT_MESSAGE, OFPET_BAD_REQUEST, OFPBRC_BAD_LEN),
       (ERROR_TOO_LONG_MESSAGE, OFPET_BAD_REQUEST, OFPBRC_BAD_LEN),
       (ERROR_UNDEFINED_TYPE, OFPET_BAD_REQUEST, OFPBRC_BAD_TYPE),
       (ERROR_INVALID_TYPE, OFPET_BAD_REQUEST, OFPBRC_BAD_TYPE),
       (0, 0, 0)]),
    (OFPT_ECHO_REPLY,
      [(ERROR_UNSUPPORTED_VERSION, OFPET_BAD_REQUEST, OFPBRC_BAD_VERSION),
       (ERROR_TOO_SHORT_MESSAGE, OFPET_BAD_REQUEST, OFPBRC_BAD_LEN),
       (ERROR_TOO_LONG_MESSAGE, OFPET_BAD_REQUEST, OFPBRC_BAD_LEN),
       (ERROR_UNDEFINED_TYPE, OFPET_BAD_REQUEST, OFPBRC_BAD_TYPE),
       (ERROR_INVALID_TYPE, OFPET_BAD_REQUEST, OFPBRC_BAD_TYPE),
       (0, 0, 0)]),
    (OFPT_VENDOR,
      [(ERROR_UNSUPPORTED_VERSION, OFPET_BAD_REQUEST, OFPBRC_BAD_VERSION),
       (ERROR_TOO_SHORT_MESSAGE, OFPET_BAD_REQUEST, OFPBRC_BAD_LEN),
       (ERROR_TOO_LONG_MESSAGE, OFPET_BAD_REQUEST, OFPBRC_BAD_LEN),
       (ERROR_UNDEFINED_TYPE, OFPET_BAD_REQUEST, OFPBRC_BAD_TYPE),
       (ERROR_INVALID_TYPE, OFPET_BAD_REQUEST, OFPBRC_BAD_TYPE),
       (0, 0, 0)]),
    (OFPT_FEATURES_REQUEST,
      [(ERROR_UNSUPPORTED_VERSION, OFPET_BAD_REQUEST, OFPBRC_BAD_VERSION),
       (ERROR_TOO_SHORT_MESSAGE, OFPET_BAD_REQUEST, OFPBRC_BAD_LEN),
       (ERROR_TOO_LONG_MESSAGE, OFPET_BAD_REQUEST, OFPBRC_BAD_LEN),
       (ERROR_UNDEFINED_TYPE, OFPET_BAD_REQUEST, OFPBRC_BAD_TYPE),
       (ERROR_INVALID_TYPE, OFPET_BAD_REQUEST, OFPBRC_BAD_TYPE),
       (0, 0, 0)]),
    (OFPT_FEATURES_REPLY,
      [(ERROR_UNSUPPORTED_VERSION, OFPET_BAD_REQUEST, OFPBRC_BAD_VERSION),
       (ERROR_TOO_SHORT_MESSAGE, OFPET_BAD_REQUEST, OFPBRC_BAD_LEN),
       (ERROR_TOO_LONG_MESSAGE, OFPET_BAD_REQUEST, OFPBRC_BAD_LEN),
       (ERROR_UNDEFINED_TYPE, OFPET_BAD_REQUEST, OFPBRC_BAD_TYPE),
       (ERROR_INVALID_TYPE, OFPET_BAD_REQUEST, OFPBRC_BAD_TYPE),
       (0, 0, 0)]),
    (OFPT_GET_CONFIG_REQUEST,
      [(ERROR_UNSUPPORTED_VERSION, OFPET_BAD_REQUEST, OFPBRC_BAD_VERSION),
       (ERROR_TOO_SHORT_MESSAGE, OFPET_BAD_REQUEST, OFPBRC_BAD_LEN),
       (ERROR_TOO_LONG_MESSAGE, OFPET_BAD_REQUEST, OFPBRC_BAD_LEN),
       (ERROR_UNDEFINED_TYPE, OFPET_BAD_REQUEST, OFPBRC_BAD_TYPE),
       (ERROR_INVALID_TYPE, OFPET_BAD_REQUEST, OFPBRC_BAD_TYPE),
       (0, 0, 0)]),
    (OFPT_GET_CONFIG_REPLY,
      [(ERROR_UNSUPPORTED_VERSION, OFPET_BAD_REQUEST, OFPBRC_BAD_VERSION),
       (ERROR_TOO_SHORT_MESSAGE, OFPET_BAD_REQUEST, OFPBRC_BAD_LEN),
       (ERROR_TOO_LONG_MESSAGE, OFPET_BAD_REQUEST, OFPBRC_BAD_LEN),
       (ERROR_UNDEFINED_TYPE, OFPET_BAD_REQUEST, OFPBRC_BAD_TYPE),
       (ERROR_INVALID_TYPE, OFPET_BAD_REQUEST, OFPBRC_BAD_TYPE),
       (0, 0, 0)]),
    (OFPT_SET_CONFIG,
      [(ERROR_UNSUPPORTED_VERSION, OFPET_BAD_REQUEST, OFPBRC_BAD_VERSION),
       (ERROR_TOO_SHORT_MESSAGE, OFPET_BAD_REQUEST, OFPBRC_BAD_LEN),
       (ERROR_TOO_LONG_MESSAGE, OFPET_BAD_REQUEST, OFPBRC_BAD_LEN),
       (ERROR_UNDEFINED_TYPE, OFPET_BAD_REQUEST, OFPBRC_BAD_TYPE),
       (ERROR_INVALID_TYPE, OFPET_BAD_REQUEST, OFPBRC_BAD_TYPE),
       (ERROR_INVALID_SWITCH_CONFIG, OFPET_BAD_REQUEST, OFPBRC_EPERM),
       (0, 0, 0)])
  ]"

definition error_maps_events :: "error_row list" where
  "error_maps_events = [
    (OFPT_PACKET_IN,
      [(ERROR_UNSUPPORTED_VERSION, OFPET_BAD_REQUEST, OFPBRC_BAD_VERSION),
       (ERROR_TOO_SHORT_MESSAGE, OFPET_BAD_REQUEST, OFPBRC_BAD_LEN),
       (ERROR_TOO_LONG_MESSAGE, OFPET_BAD_REQUEST, OFPBRC_BAD_LEN),
       (ERROR_UNDEFINED_TYPE, OFPET_BAD_REQUEST, OFPBRC_BAD_TYPE),
       (ERROR_INVALID_TYPE, OFPET_BAD_REQUEST, OFPBRC_BAD_TYPE),
       (ERROR_INVALID_PACKET_IN_REASON, OFPET_BAD_REQUEST, OFPBRC_EPERM),
       (0, 0, 0)]),
    (OFPT_FLOW_REMOVED,
      [(ERROR_UNSUPPORTED_VERSION, OFPET_BAD_REQUEST, OFPBRC_BAD_VERSION),
       (ERROR_TOO_SHORT_MESSAGE, OFPET_BAD_REQUEST, OFPBRC_BAD_LEN),
       (ERROR_TOO_LONG_MESSAGE, OFPET_BAD_REQUEST, OFPBRC_BAD_LEN),
       (ERROR_UNDEFINED_TYPE, OFPET_BAD_REQUEST, OFPBRC_BAD_TYPE),
       (ERROR_INVALID_TYPE, OFPET_BAD_REQUEST, OFPBRC_BAD_TYPE),
       (ERROR_INVALID_FLOW_PRIORITY, OFPET_BAD_REQUEST, OFPBRC_EPERM),
       (ERROR_INVALID_FLOW_REMOVED_REASON, OFPET_BAD_REQUEST, OFPBRC_EPERM),
       (0, 0, 0)]),
    (OFPT_PORT_STATUS,
      [(ERROR_UNSUPPORTED_VERSION, OFPET_BAD_REQUEST, OFPBRC_BAD_VERSION),
       (ERROR_TOO_SHORT_MESSAGE, OFPET_BAD_REQUEST, OFPBRC_BAD_LEN),
       (ERROR_TOO_LONG_MESSAGE, OFPET_BAD_REQUEST, OFPBRC_BAD_LEN),
       (ERROR_UNDEFINED_TYPE, OFPET_BAD_REQUEST, OFPBRC_BAD_TYPE),
       (ERROR_INVALID_TYPE, OFPET_BAD_REQUEST, OFPBRC_BAD_TYPE),
       (ERROR_INVALID_PORT_STATUS_REASON, OFPET_BAD_REQUEST, OFPBRC_EPERM),
       (0, 0, 0)])
  ]"

definition error_maps_packet_out :: "error_row list" where
  "error_maps_packet_out = [
    (OFPT_PACKET_OUT,
      [(ERROR_UNSUPPORTED_VERSION, OFPET_BAD_REQUEST, OFPBRC_BAD_VERSION),
       (ERROR_TOO_SHORT_MESSAGE, OFPET_BAD_REQUEST, OFPBRC_BAD_LEN),
       (ERROR_TOO_LONG_MESSAGE, OFPET_BAD_REQUEST, OFPBRC_BAD_LEN),
       (ERROR_UNDEFINED_TYPE, OFPET_BAD_REQUEST, OFPBRC_BAD_TYPE),
       (ERROR_INVALID_TYPE, OFPET_BAD_REQUEST, OFPBRC_BAD_TYPE),
       (ERROR_INVALID_ACTION_TYPE, OFPET_BAD_ACTION, OFPBAC_BAD_TYPE),
       (ERROR_TOO_SHORT_ACTION_OUTPUT, OFPET_BAD_ACTION, OFPBAC_BAD_LEN),
       (ERROR_TOO_LONG_ACTION_OUTPUT, OFPET_BAD_ACTION, OFPBAC_BAD_LEN),
       (ERROR_INVALID_PORT_NO, OFPET_BAD_ACTION, OFPBAC_BAD_OUT_PORT),
       (ERROR_TOO_SHORT_ACTION_VLAN_VID, OFPET_BAD_ACTION, OFPBAC_BAD_LEN),
       (ERROR_TOO_LONG_ACTION_VLAN_VID, OFPET_BAD_ACTION, OFPBAC_BAD_LEN),
       (ERROR_INVALID_VLAN_VID, OFPET_BAD_ACTION, OFPBAC_BAD_ARGUMENT),
       (ERROR_TOO_SHORT_ACTION_VLAN_PCP, OFPET_BAD_ACTION, OFPBAC_BAD_LEN),
       (ERROR_TOO_LONG_ACTION_VLAN_PCP, OFPET_BAD_ACTION, OFPBAC_BAD_LEN),
       (ERROR_INVALID_VLAN_PCP, OFPET_BAD_ACTION, OFPBAC_BAD_ARGUMENT),
       (ERROR_TOO_SHORT_ACTION_STRIP_VLAN, OFPET_BAD_ACTION, OFPBAC_BAD_LEN),
       (ERROR_TOO_LONG_ACTION_STRIP_VLAN, OFPET_BAD_ACTION, OFPBAC_BAD_LEN),
       (ERROR_TOO_SHORT_ACTION_DL_SRC, OFPET_BAD_ACTION, OFPBAC_BAD_LEN),
       (ERROR_TOO_LONG_ACTION_DL_SRC, OFPET_BAD_ACTION, OFPBAC_BAD_LEN),
       (ERROR_TOO_SHORT_ACTION_DL_DST, OFPET_BAD_ACTION, OFPBAC_BAD_LEN),
       (ERROR_TOO_LONG_ACTION_DL_DST, OFPET_BAD_ACTION, OFPBAC_BAD_LEN),
       (ERROR_TOO_SHORT_ACTION_NW_SRC, OFPET_BAD_ACTION, OFPBAC_BAD_LEN),
       (ERROR_TOO_LONG_ACTION_NW_SRC, OFPET_BAD_ACTION, OFPBAC_BAD_LEN),
       (ERROR_TOO_SHORT_ACTION_NW_DST, OFPET_BAD_ACTION, OFPBAC_BAD_LEN),
       (ERROR_TOO_LONG_ACTION_NW_DST, OFPET_BAD_ACTION, OFPBAC_BAD_LEN),
       (ERROR_TOO_SHORT_ACTION_NW_TOS, OFPET_BAD_ACTION, OFPBAC_BAD_LEN),
       (ERROR_TOO_LONG_ACTION_NW_TOS, OFPET_BAD_ACTION, OFPBAC_BAD_LEN),
       (ERROR_TOO_SHORT_ACTION_TP_SRC, OFPET_BAD_ACTION, OFPBAC_BAD_LEN),
       (ERROR_TOO_LONG_ACTION_TP_SRC, OFPET_BAD_ACTION, OFPBAC_BAD_LEN),
       (ERROR_TOO_SHORT_ACTION_TP_DST, OFPET_BAD_ACTION, OFPBAC_BAD_LEN),
       (ERROR_TOO_LONG_ACTION_TP_DST, OFPET_BAD_ACTION, OFPBAC_BAD_LEN),
       (ERROR_TOO_SHORT_ACTION_ENQUEUE, OFPET_BAD_ACTION, OFPBAC_BAD_LEN),
       (ERROR_TOO_LONG_ACTION_ENQUEUE, OFPET_BAD_ACTION, OFPBAC_BAD_LEN),
       (ERROR_INVALID_PORT_NO, OFPET_BAD_ACTION, OFPBAC_BAD_OUT_PORT),
       (ERROR_TOO_SHORT_ACTION_VENDOR, OFPET_BAD_ACTION, OFPBAC_BAD_LEN),
       (ERROR_INVALID_LENGTH_ACTION_VENDOR, OFPET_BAD_ACTION, OFPBAC_BAD_LEN),
       (ERROR_UNDEFINED_ACTION_TYPE, OFPET_BAD_ACTION, OFPBAC_BAD_TYPE),
       (0, 0, 0)])
  ]"

definition error_maps_flow_mod :: "error_row list" where
  "error_maps_flow_mod = [
    (OFPT_FLOW_MOD,
      [(ERROR_UNSUPPORTED_VERSION, OFPET_BAD_REQUEST, OFPBRC_BAD_VERSION),
       (ERROR_TOO_SHORT_MESSAGE, OFPET_BAD_REQUEST, OFPBRC_BAD_LEN),
       (ERROR_TOO_LONG_MESSAGE, OFPET_BAD_REQUEST, OFPBRC_BAD_LEN),
       (ERROR_UNDEFINED_TYPE, OFPET_BAD_REQUEST, OFPBRC_BAD_TYPE),
       (ERROR_INVALID_TYPE, OFPET_BAD_REQUEST, OFPBRC_BAD_TYPE),
       (ERROR_INVALID_ACTION_TYPE, OFPET_BAD_ACTION, OFPBAC_BAD_TYPE),
       (ERROR_TOO_SHORT_ACTION_OUTPUT, OFPET_BAD_ACTION, OFPBAC_BAD_LEN),
       (ERROR_TOO_LONG_ACTION_OUTPUT, OFPET_BAD_ACTION, OFPBAC_BAD_LEN),
       (ERROR_INVALID_PORT_NO, OFPET_BAD_ACTION, OFPBAC_BAD_OUT_PORT),
       (ERROR_TOO_SHORT_ACTION_VLAN_VID, OFPET_BAD_ACTION, OFPBAC_BAD_LEN),
       (ERROR_TOO_LONG_ACTION_VLAN_VID, OFPET_BAD_ACTION, OFPBAC_BAD_LEN),
       (ERROR_INVALID_VLAN_VID, OFPET_BAD_ACTION, OFPBAC_BAD_ARGUMENT),
       (ERROR_TOO_SHORT_ACTION_VLAN_PCP, OFPET_BAD_ACTION, OFPBAC_BAD_LEN),
       (ERROR_TOO_LONG_ACTION_VLAN_PCP, OFPET_BAD_ACTION, OFPBAC_BAD_LEN),
       (ERROR_INVALID_VLAN_PCP, OFPET_BAD_ACTION, OFPBAC_BAD_ARGUMENT),
       (ERROR_TOO_SHORT_ACTION_STRIP_VLAN, OFPET_BAD_ACTION, OFPBAC_BAD_LEN),
       (ERROR_TOO_LONG_ACTION_STRIP_VLAN, OFPET_BAD_ACTION, OFPBAC_BAD_LEN),
       (ERROR_TOO_SHORT_ACTION_DL_SRC, OFPET_BAD_ACTION, OFPBAC_BAD_LEN),
       (ERROR_TOO_LONG_ACTION_DL_SRC, OFPET_BAD_ACTION, OFPBAC_BAD_LEN),
       (ERROR_TOO_SHORT_ACTION_DL_DST, OFPET_BAD_ACTION, OFPBAC_BAD_LEN),
       (ERROR_TOO_LONG_ACTION_DL_DST, OFPET_BAD_ACTION, OFPBAC_BAD_LEN),
       (ERROR_TOO_SHORT_ACTION_NW_SRC, OFPET_BAD_ACTION, OFPBAC_BAD_LEN),
       (ERROR_TOO_LONG_ACTION_NW_SRC, OFPET_BAD_ACTION, OFPBAC_BAD_LEN),
       (ERROR_TOO_SHORT_ACTION_NW_DST, OFPET_BAD_ACTION, OFPBAC_BAD_LEN),
       (ERROR_TOO_LONG_ACTION_NW_DST, OFPET_BAD_ACTION, OFPBAC_BAD_LEN),
       (ERROR_TOO_SHORT_ACTION_NW_TOS, OFPET_BAD_ACTION, OFPBAC_BAD_LEN),
       (ERROR_TOO_LONG_ACTION_NW_TOS, OFPET_BAD_ACTION, OFPBAC_BAD_LEN),
       (ERROR_TOO_SHORT_ACTION_TP_SRC, OFPET_BAD_ACTION, OFPBAC_BAD_LEN),
       (ERROR_TOO_LONG_ACTION_TP_SRC, OFPET_BAD_ACTION, OFPBAC_BAD_LEN),
       (ERROR_TOO_SHORT_ACTION_TP_DST, OFPET_BAD_ACTION, OFPBAC_BAD_LEN),
       (ERROR_TOO_LONG_ACTION_TP_DST, OFPET_BAD_ACTION, OFPBAC_BAD_LEN),
       (ERROR_TOO_SHORT_ACTION_ENQUEUE, OFPET_BAD_ACTION, OFPBAC_BAD_LEN),
       (ERROR_TOO_LONG_ACTION_ENQUEUE, OFPET_BAD_ACTION, OFPBAC_BAD_LEN),
       (ERROR_INVALID_PORT_NO, OFPET_BAD_ACTION, OFPBAC_BAD_OUT_PORT),
       (ERROR_TOO_SHORT_ACTION_VENDOR, OFPET_BAD_ACTION, OFPBAC_BAD_LEN),
       (ERROR_INVALID_LENGTH_ACTION_VENDOR, OFPET_BAD_ACTION, OFPBAC_BAD_LEN),
       (ERROR_UNDEFINED_ACTION_TYPE, OFPET_BAD_ACTION, OFPBAC_BAD_TYPE),
       (ERROR_INVALID_WILDCARDS, OFPET_FLOW_MOD_FAILED, OFPFMFC_EPERM),
       (ERROR_UNDEFINED_FLOW_MOD_COMMAND, OFPET_FLOW_MOD_FAILED, OFPFMFC_BAD_COMMAND),
       (ERROR_INVALID_FLOW_PRIORITY, OFPET_FLOW_MOD_FAILED, OFPFMFC_EPERM),
       (ERROR_INVALID_FLOW_MOD_FLAGS, OFPET_FLOW_MOD_FAILED, OFPFMFC_EPERM),
       (0, 0, 0)])
  ]"

definition error_maps_others :: "error_row list" where
  "error_maps_others = [
    (OFPT_PORT_MOD,
      [(ERROR_UNSUPPORTED_VERSION, OFPET_BAD_REQUEST, OFPBRC_BAD_VERSION),
       (ERROR_TOO_SHORT_MESSAGE, OFPET_BAD_REQUEST, OFPBRC_BAD_LEN),
       (ERROR_TOO_LONG_MESSAGE, OFPET_BAD_REQUEST, OFPBRC_BAD_LEN),
       (ERROR_UNDEFINED_TYPE, OFPET_BAD_REQUEST, OFPBRC_BAD_TYPE),
       (ERROR_INVALID_TYPE, OFPET_BAD_REQUEST, OFPBRC_BAD_TYPE),
       (ERROR_INVALID_PORT_NO, OFPET_PORT_MOD_FAILED, OFPPMFC_BAD_PORT),
       (ERROR_INVALID_PORT_CONFIG, OFPET_BAD_REQUEST, OFPBRC_EPERM),
       (ERROR_INVALID_PORT_MASK, OFPET_BAD_REQUEST, OFPBRC_EPERM),
       (ERROR_INVALID_PORT_FEATURES, OFPET_BAD_REQUEST, OFPBRC_EPERM),
       (0, 0, 0)]),
    (OFPT_STATS_REQUEST,
      [(ERROR_UNSUPPORTED_VERSION, OFPET_BAD_REQUEST, OFPBRC_BAD_VERSION),
       (ERROR_TOO_SHORT_MESSAGE, OFPET_BAD_REQUEST, OFPBRC_BAD_LEN),
       (ERROR_TOO_LONG_MESSAGE, OFPET_BAD_REQUEST, OFPBRC_BAD_LEN),
       (ERROR_UNDEFINED_TYPE, OFPET_BAD_REQUEST, OFPBRC_BAD_TYPE),
       (ERROR_INVALID_TYPE, OFPET_BAD_REQUEST, OFPBRC_BAD_TYPE),
       (ERROR_UNSUPPORTED_STATS_TYPE, OFPET_BAD_REQUEST, OFPBRC_BAD_STAT),
       (ERROR_INVALID_STATS_TYPE, OFPET_BAD_REQUEST, OFPBRC_BAD_STAT),
       (ERROR_INVALID_STATS_REQUEST_FLAGS, OFPET_BAD_REQUEST, OFPBRC_EPERM),
       (ERROR_INVALID_PORT_NO, OFPET_BAD_REQUEST, OFPBRC_EPERM),
       (ERROR_INVALID_WILDCARDS, OFPET_BAD_REQUEST, OFPBRC_EPERM),
       (ERROR_INVALID_VLAN_VID, OFPET_BAD_REQUEST, OFPBRC_EPERM),
       (ERROR_INVALID_VLAN_PCP, OFPET_BAD_REQUEST, OFPBRC_EPERM),
       (ERROR_INVALID_NW_TOS, OFPET_BAD_REQUEST, OFPBRC_EPERM),
       (0, 0, 0)]),
    (OFPT_STATS_REPLY,
      [(ERROR_UNSUPPORTED_VERSION, OFPET_BAD_REQUEST, OFPBRC_BAD_VERSION),
       (ERROR_TOO_SHORT_MESSAGE, OFPET_BAD_REQUEST, OFPBRC_BAD_LEN),
       (ERROR_TOO_LONG_MESSAGE, OFPET_BAD_REQUEST, OFPBRC_BAD_LEN),
       (ERROR_UNDEFINED_TYPE, OFPET_BAD_REQUEST, OFPBRC_BAD_TYPE),
       (ERROR_INVALID_TYPE, OFPET_BAD_REQUEST, OFPBRC_BAD_TYPE),
       (0, 0, 0)]),
    (OFPT_BARRIER_REQUEST,
      [(ERROR_UNSUPPORTED_VERSION, OFPET_BAD_REQUEST, OFPBRC_BAD_VERSION),
       (ERROR_TOO_SHORT_MESSAGE, OFPET_BAD_REQUEST, OFPBRC_BAD_LEN),
       (ERROR_TOO_LONG_MESSAGE, OFPET_BAD_REQUEST, OFPBRC_BAD_LEN),
       (ERROR_UNDEFINED_TYPE, OFPET_BAD_REQUEST, OFPBRC_BAD_TYPE),
       (ERROR_INVALID_TYPE, OFPET_BAD_REQUEST, OFPBRC_BAD_TYPE),
       (0, 0, 0)]),
    (OFPT_BARRIER_REPLY,
      [(ERROR_UNSUPPORTED_VERSION, OFPET_BAD_REQUEST, OFPBRC_BAD_VERSION),
       (ERROR_TOO_SHORT_MESSAGE, OFPET_BAD_REQUEST, OFPBRC_BAD_LEN),
       (ERROR_TOO_LONG_MESSAGE, OFPET_BAD_REQUEST, OFPBRC_BAD_LEN),
       (ERROR_UNDEFINED_TYPE, OFPET_BAD_REQUEST, OFPBRC_BAD_TYPE),
       (ERROR_INVALID_TYPE, OFPET_BAD_REQUEST, OFPBRC_BAD_TYPE),
       (0, 0, 0)]),
    (OFPT_QUEUE_GET_CONFIG_REQUEST,
      [(ERROR_UNSUPPORTED_VERSION, OFPET_BAD_REQUEST, OFPBRC_BAD_VERSION),
       (ERROR_TOO_SHORT_MESSAGE, OFPET_BAD_REQUEST, OFPBRC_BAD_LEN),
       (ERROR_TOO_LONG_MESSAGE, OFPET_BAD_REQUEST, OFPBRC_BAD_LEN),
       (ERROR_UNDEFINED_TYPE, OFPET_BAD_REQUEST, OFPBRC_BAD_TYPE),
       (ERROR_INVALID_TYPE, OFPET_BAD_REQUEST, OFPBRC_BAD_TYPE),
       (ERROR_INVALID_PORT_NO, OFPET_QUEUE_OP_FAILED, OFPQOFC_BAD_PORT),
       (0, 0, 0)]),
    (OFPT_QUEUE_GET_CONFIG_REPLY,
      [(ERROR_UNSUPPORTED_VERSION, OFPET_BAD_REQUEST, OFPBRC_BAD_VERSION),
       (ERROR_TOO_SHORT_MESSAGE, OFPET_BAD_REQUEST, OFPBRC_BAD_LEN),
       (ERROR_TOO_LONG_MESSAGE, OFPET_BAD_REQUEST, OFPBRC_BAD_LEN),
       (ERROR_UNDEFINED_TYPE, OFPET_BAD_REQUEST, OFPBRC_BAD_TYPE),
       (ERROR_INVALID_TYPE, OFPET_BAD_REQUEST, OFPBRC_BAD_TYPE),
       (0, 0, 0)])
  ]"

definition error_maps :: "error_row list" where
  "error_maps = error_maps_session @ error_maps_events @ error_maps_packet_out @ error_maps_flow_mod @
     error_maps_others"

fun search_error_map :: "(int \<times> 16 word \<times> 16 word) list \<Rightarrow> int \<Rightarrow> (16 word \<times> 16 word) option res" where
  "search_error_map [] error_no = Fault Out_of_bounds"
| "search_error_map ((no, type, code) # maps) error_no =
     (if no = 0 then Ok None
      else if error_no = no then Ok (Some (type, code))
      else search_error_map maps error_no)"

text \<open>\<open>None\<close> is the result \<open>false\<close>; \<open>Some (type, code)\<close> is \<open>true\<close> with the two output parameters set.\<close>

definition get_error_type_and_code :: "8 word \<Rightarrow> int \<Rightarrow> (16 word \<times> 16 word) option res" where
  "get_error_type_and_code type error_no =
     (if type > OFPT_QUEUE_GET_CONFIG_REPLY then Ok (Some (OFPET_BAD_REQUEST, OFPBRC_BAD_TYPE))
      else if unat type < length error_maps then search_error_map (snd (error_maps ! unat type)) error_no
      else Fault Out_of_bounds)"

section \<open>What the table says\<close>

lemmas error_maps_defs = error_maps_def error_maps_session_def error_maps_events_def
  error_maps_packet_out_def error_maps_flow_mod_def error_maps_others_def

lemma error_row_types: "map fst error_maps = map of_nat [0..<22]"
  by (simp add: error_maps_defs upt_rec)

lemma length_error_maps: "length error_maps = 22"
  using arg_cong [OF error_row_types, of length] by simp

text \<open>Every row ends in an entry with error number 0, so a search stays inside the row.\<close>

lemma search_terminated: "(0, t, c) \<in> set maps \<Longrightarrow> returns (search_error_map maps error_no)"
  by (induction maps error_no rule: search_error_map.induct) auto

lemma error_rows_terminated: "row \<in> set error_maps \<Longrightarrow> (0, 0, 0) \<in> set (snd row)"
  by (auto simp: error_maps_defs)

lemma get_error_type_and_code_returns: "returns (get_error_type_and_code type error_no)"
proof (cases "type > OFPT_QUEUE_GET_CONFIG_REPLY")
  case False
  then have "unat type < length error_maps"
    by (simp add: length_error_maps word_less_nat_alt)
  then show ?thesis
    using False search_terminated [OF error_rows_terminated [OF nth_mem]]
    by (simp add: get_error_type_and_code_def)
qed (simp add: get_error_type_and_code_def)

text \<open>The errors of the header check head every row.\<close>

fun header_error_code :: "8 word \<Rightarrow> int \<Rightarrow> (16 word \<times> 16 word) option" where
  "header_error_code type e =
     (if e = ERROR_UNSUPPORTED_VERSION then
        (if type = OFPT_HELLO then Some (OFPET_HELLO_FAILED, OFPHFC_INCOMPATIBLE)
         else Some (OFPET_BAD_REQUEST, OFPBRC_BAD_VERSION))
      else if e = ERROR_TOO_SHORT_MESSAGE \<or> e = ERROR_TOO_LONG_MESSAGE then Some (OFPET_BAD_REQUEST, OFPBRC_BAD_LEN)
      else if e = ERROR_UNDEFINED_TYPE \<or> e = ERROR_INVALID_TYPE then Some (OFPET_BAD_REQUEST, OFPBRC_BAD_TYPE)
      else None)"

definition header_errors :: "int list" where
  "header_errors = [ERROR_UNSUPPORTED_VERSION, ERROR_TOO_SHORT_MESSAGE, ERROR_TOO_LONG_MESSAGE,
     ERROR_UNDEFINED_TYPE, ERROR_INVALID_TYPE]"

definition header_prefix :: "8 word \<Rightarrow> (int \<times> 16 word \<times> 16 word) list" where
  "header_prefix type =
     [if type = OFPT_HELLO then (ERROR_UNSUPPORTED_VERSION, OFPET_HELLO_FAILED, OFPHFC_INCOMPATIBLE)
      else (ERROR_UNSUPPORTED_VERSION, OFPET_BAD_REQUEST, OFPBRC_BAD_VERSION),
      (ERROR_TOO_SHORT_MESSAGE, OFPET_BAD_REQUEST, OFPBRC_BAD_LEN),
      (ERROR_TOO_LONG_MESSAGE, OFPET_BAD_REQUEST, OFPBRC_BAD_LEN),
      (ERROR_UNDEFINED_TYPE, OFPET_BAD_REQUEST, OFPBRC_BAD_TYPE),
      (ERROR_INVALID_TYPE, OFPET_BAD_REQUEST, OFPBRC_BAD_TYPE)]"

lemma rows_start: "\<forall>row \<in> set error_maps. take 5 (snd row) = header_prefix (fst row)"
  by (simp add: error_maps_defs header_prefix_def)

lemma header_rows:
  assumes "row \<in> set error_maps" and "e \<in> set header_errors"
  shows "search_error_map (snd row) e = Ok (header_error_code (fst row) e)"
proof -
  have "snd row = header_prefix (fst row) @ drop 5 (snd row)"
    using rows_start assms(1) by (metis append_take_drop_id)
  moreover have "search_error_map (header_prefix t @ rest) e = Ok (header_error_code t e)" for t rest
    using assms(2) by (auto simp: header_prefix_def header_errors_def)
  ultimately show ?thesis by metis
qed

lemma error_row_nth:
  assumes "type \<le> OFPT_QUEUE_GET_CONFIG_REPLY"
  shows "error_maps ! unat type \<in> set error_maps" and "fst (error_maps ! unat type) = type"
proof -
  have "unat type < 22" using assms by (simp add: word_le_nat_alt)
  then show "error_maps ! unat type \<in> set error_maps" by (simp add: length_error_maps)
  have "fst (error_maps ! unat type) = map fst error_maps ! unat type"
    using \<open>unat type < 22\<close> by (simp add: length_error_maps)
  then show "fst (error_maps ! unat type) = type"
    using \<open>unat type < 22\<close> by (simp add: error_row_types nth_map)
qed

lemma header_error_mapped:
  assumes "type \<le> OFPT_QUEUE_GET_CONFIG_REPLY" and "e \<in> set header_errors"
  shows "get_error_type_and_code type e = Ok (header_error_code type e)"
proof -
  have "unat type < 22" using assms(1) by (simp add: word_le_nat_alt)
  moreover have "\<not> type > OFPT_QUEUE_GET_CONFIG_REPLY" using assms(1) by simp
  ultimately show ?thesis
    using error_row_nth [OF assms(1)] header_rows [OF error_row_nth(1) [OF assms(1)] assms(2)]
    by (simp add: get_error_type_and_code_def length_error_maps del: header_error_code.simps not_less
        split: if_split)
qed

end
