(* ===== verification/Switch_Session.thy ===== *)
theory Switch_Session
  imports Xid_Table Cookie_Table Secure_Channel Event_Forward Ofm_Create Ofm_Errors
begin

text \<open>
  The switch daemon: the process that holds the connection to one switch
  (\<open>src/switch_manager/switch.c\<close>), the messages it sends and handles itself
  (\<open>ofpmsg_send.c\<close>, \<open>ofpmsg_recv.c\<close>) and its exchange with applications
  (\<open>service_interface.c\<close>).

  The state is the record \<open>daemon\<close>: \<open>struct switch_info\<close>, then the globals of the process (the
  transaction and cookie tables, the flag for aging), what the process has asked of the event handler
  and the timers (\<open>readable\<close>, \<open>writable\<close>, \<open>timers\<close>), what it has handed to the messenger
  (\<open>outbox\<close>: service, tag and data, and \<open>replies\<close> to management requests), its name, whether the event
  loop goes on, and the requests for the list of switches that are not answered yet.  A \<open>NULL\<close> list of
  services is the empty list.

  What comes from outside is the record \<open>env\<close>: the time, whether a process with the name of the
  switch exists and could be terminated, and whether the request for the list of switches could be
  sent.  A handler returns its C result and the new state.
\<close>

section \<open>State\<close>

datatype switch_state = SWITCH_STATE_CONNECTED | SWITCH_STATE_WAIT_HELLO | SWITCH_STATE_WAIT_FEATURES_REPLY
  | SWITCH_STATE_COMPLETED | SWITCH_STATE_DISCONNECTED

datatype timer = Timeout_hello | Timeout_features_reply | Echo_reply_timeout | Echo_request_interval | Age_cookie_table

record switch_info =
  vendor_service_name_list :: "bytes list"
  packetin_service_name_list :: "bytes list"
  portstatus_service_name_list :: "bytes list"
  state_service_name_list :: "bytes list"
  secure_channel_fd :: int
  flow_cleanup :: bool
  cookie_translation :: bool
  deny_packet_in_on_startup :: bool
  sw_state :: switch_state
  sw_datapath_id :: "64 word"
  config_flags :: "16 word"
  miss_send_len :: "16 word"
  fragment_buf :: "bytes option"
  send_queue :: "bytes message_queue option"
  recv_queue :: "bytes message_queue option"
  running_timer :: bool
  echo_request_xid :: "32 word"

record daemon = switch_info +
  xids :: xid_table
  cookies :: cookie_table
  age_cookie_table_enabled :: bool
  readable :: bool
  writable :: bool
  timers :: "timer list"
  outbox :: "(bytes \<times> 16 word \<times> bytes) list"
  replies :: "bytes list"
  trema_name :: bytes
  running :: bool
  efi_requests :: nat

record env =
  env_now :: int
  env_sec :: "32 word"
  env_nsec :: "32 word"
  env_duplicate :: bool
  env_terminated :: bool
  env_efi_sent :: bool

abbreviation "MESSENGER_OPENFLOW_MESSAGE \<equiv> (1 :: 16 word)"
abbreviation "MESSENGER_OPENFLOW_CONNECTED \<equiv> (2 :: 16 word)"
abbreviation "MESSENGER_OPENFLOW_READY \<equiv> (3 :: 16 word)"
abbreviation "MESSENGER_OPENFLOW_DISCONNECTED \<equiv> (4 :: 16 word)"
abbreviation "MESSENGER_OPENFLOW_DISCONNECT_REQUEST \<equiv> (5 :: 16 word)"
abbreviation "MESSENGER_OPENFLOW_FAILD_TO_CONNECT \<equiv> (6 :: 16 word)"

section \<open>Messages to applications\<close>

definition create_openflow_application_message :: "64 word option \<Rightarrow> bytes option \<Rightarrow> bytes" where
  "create_openflow_application_message datapath_id data =
     (case datapath_id of None \<Rightarrow> rev (put64 0xffffffff) | Some dpid \<Rightarrow> put64 dpid) @ put16 0 @
     (case data of None \<Rightarrow> [] | Some bs \<Rightarrow> bs)"

definition service_send_to_reply ::
  "bytes option \<Rightarrow> 16 word \<Rightarrow> 64 word option \<Rightarrow> bytes option \<Rightarrow> daemon \<Rightarrow> daemon" where
  "service_send_to_reply name message_type datapath_id data d =
     (case name of None \<Rightarrow> d
      | Some n \<Rightarrow> d\<lparr>outbox := outbox d @ [(n, message_type, create_openflow_application_message datapath_id data)]\<rparr>)"

definition service_send_to_application ::
  "bytes list \<Rightarrow> 16 word \<Rightarrow> 64 word option \<Rightarrow> bytes option \<Rightarrow> daemon \<Rightarrow> daemon" where
  "service_send_to_application names message_type datapath_id data d =
     (if names = [] then d
      else let buf = create_openflow_application_message datapath_id data
           in d\<lparr>outbox := outbox d @ map (\<lambda>n. (n, message_type, buf)) names\<rparr>)"

definition service_send_state :: "16 word \<Rightarrow> daemon \<Rightarrow> daemon" where
  "service_send_state tag d =
     service_send_to_application (state_service_name_list d) tag (Some (sw_datapath_id d)) None d"

section \<open>Messages to the switch\<close>

definition send_message_to_switch :: "bytes \<Rightarrow> daemon \<Rightarrow> (int \<times> daemon) res" where
  "send_message_to_switch buf d =
     bnd (send_to_secure_channel buf (send_queue d) (writable d)) (\<lambda>(ret, q, w).
     Ok (ret, d\<lparr>send_queue := q, writable := w\<rparr>))"

definition with_xid :: "(32 word \<Rightarrow> bytes res) \<Rightarrow> daemon \<Rightarrow> (int \<times> daemon) res" where
  "with_xid create d =
     (let (xid, t) = generate_xid (xids d); d = d\<lparr>xids := t\<rparr>
      in bnd (create xid) (\<lambda>buf. send_message_to_switch buf d))"

definition ofpmsg_send_hello :: "daemon \<Rightarrow> (int \<times> daemon) res" where
  "ofpmsg_send_hello d = with_xid create_hello d"

definition ofpmsg_send_echorequest :: "32 word \<Rightarrow> bytes \<Rightarrow> daemon \<Rightarrow> (int \<times> daemon) res" where
  "ofpmsg_send_echorequest xid body d =
     bnd (create_echo_request xid (Some body)) (\<lambda>buf. send_message_to_switch buf d)"

definition ofpmsg_send_echoreply :: "32 word \<Rightarrow> bytes \<Rightarrow> daemon \<Rightarrow> (int \<times> daemon) res" where
  "ofpmsg_send_echoreply xid body d =
     bnd (create_echo_reply xid (Some body)) (\<lambda>buf. send_message_to_switch buf d)"

definition ofpmsg_send_featuresrequest :: "daemon \<Rightarrow> (int \<times> daemon) res" where
  "ofpmsg_send_featuresrequest d = with_xid create_features_request d"

definition ofpmsg_send_setconfig :: "daemon \<Rightarrow> (int \<times> daemon) res" where
  "ofpmsg_send_setconfig d = with_xid (\<lambda>xid. create_set_config xid (config_flags d) (miss_send_len d)) d"

definition OFP_ERROR_MSG_MAX_DATA :: nat where
  "OFP_ERROR_MSG_MAX_DATA = 64"

definition ofpmsg_send_error_msg :: "16 word \<Rightarrow> 16 word \<Rightarrow> bytes \<Rightarrow> daemon \<Rightarrow> (int \<times> daemon) res" where
  "ofpmsg_send_error_msg type code data d =
     (let data = (if length data > OFP_ERROR_MSG_MAX_DATA then take OFP_ERROR_MSG_MAX_DATA data else data)
      in with_xid (\<lambda>xid. create_error xid type code (Some data)) d)"

definition all_match :: ofp_match where
  "all_match =
     \<lparr>wildcards = OFPFW_ALL, in_port = 0, dl_src = 0, dl_dst = 0, dl_vlan = 0, dl_vlan_pcp = 0, pad1 = 0,
      dl_type = 0, nw_tos = 0, nw_proto = 0, pad2 = 0, nw_src = 0, nw_dst = 0, tp_src = 0, tp_dst = 0\<rparr>"

definition ofpmsg_send_delete_all_flows :: "daemon \<Rightarrow> (int \<times> daemon) res" where
  "ofpmsg_send_delete_all_flows d =
     with_xid (\<lambda>xid. create_flow_mod xid all_match RESERVED_COOKIE OFPFC_DELETE 0 0 0 UINT32_MAX OFPP_NONE 0 None) d"

definition ofpmsg_send_deny_all :: "daemon \<Rightarrow> (int \<times> daemon) res" where
  "ofpmsg_send_deny_all d =
     with_xid (\<lambda>xid. create_flow_mod xid all_match RESERVED_COOKIE OFPFC_ADD 0 10 UINT16_MAX UINT32_MAX OFPP_NONE 0 None) d"

text \<open>The fields \<open>cookie\<close>, \<open>command\<close> and \<open>flags\<close> of a flow modification are at 48, 56 and 70.\<close>

definition update_flowmod_cookie :: "int \<Rightarrow> bytes \<Rightarrow> bytes \<Rightarrow> cookie_table \<Rightarrow> (int \<times> bytes \<times> cookie_table) res" where
  "update_flowmod_cookie now buf name t =
     bnd (rd16 buf 56) (\<lambda>command.
     bnd (rd16 buf 70) (\<lambda>flags.
     bnd (rd64 buf 48) (\<lambda>cookie.
     if command = OFPFC_ADD then
       bnd (insert_cookie_entry cookie name flags now t) (\<lambda>(new_cookie, t).
       bnd (wrs [(48, put64 new_cookie), (70, put16 (flags OR OFPFF_SEND_FLOW_REM))] buf) (\<lambda>buf. Ok (0, buf, t)))
     else if command = OFPFC_MODIFY \<or> command = OFPFC_MODIFY_STRICT then
       case lookup_cookie_entry_by_application t cookie name of
         Some a \<Rightarrow>
           bnd (deref_entry t a) (\<lambda>e.
           bnd (wrs [(48, put64 (ce_cookie e)), (70, put16 (flags OR OFPFF_SEND_FLOW_REM))] buf) (\<lambda>buf. Ok (0, buf, t)))
       | None \<Rightarrow>
           bnd (insert_cookie_entry cookie name flags now t) (\<lambda>(new_cookie, t).
           bnd (wrs [(48, put64 new_cookie), (70, put16 (flags OR OFPFF_SEND_FLOW_REM))] buf) (\<lambda>buf. Ok (0, buf, t)))
     else if command = OFPFC_DELETE \<or> command = OFPFC_DELETE_STRICT then
       case lookup_cookie_entry_by_application t cookie name of
         Some a \<Rightarrow>
           bnd (deref_entry t a) (\<lambda>e.
           bnd (wrs [(48, put64 (ce_cookie e)), (70, put16 (flags OR OFPFF_SEND_FLOW_REM))] buf) (\<lambda>buf. Ok (0, buf, t)))
       | None \<Rightarrow>
           bnd (wrs [(48, put64 RESERVED_COOKIE), (70, put16 (flags OR OFPFF_SEND_FLOW_REM))] buf) (\<lambda>buf. Ok (0, buf, t))
     else Ok (-1, buf, t))))"

definition ofpmsg_send :: "env \<Rightarrow> bytes \<Rightarrow> bytes \<Rightarrow> daemon \<Rightarrow> (int \<times> daemon) res" where
  "ofpmsg_send ev buf name d =
     bnd (rd32 buf 4) (\<lambda>xid.
     bnd (insert_xid_entry xid name (xids d)) (\<lambda>(new_xid, t).
     bnd (wr 4 (put32 new_xid) buf) (\<lambda>buf.
     bnd (rd8 buf 1) (\<lambda>type.
     let d = d\<lparr>xids := t\<rparr> in
     if type = OFPT_FLOW_MOD \<and> cookie_translation d then
       bnd (update_flowmod_cookie (env_now ev) buf name (cookies d)) (\<lambda>(ret, buf, t).
       let d = d\<lparr>cookies := t\<rparr> in
       if ret < 0 then Ok (ret, d) else send_message_to_switch buf d)
     else send_message_to_switch buf d))))"

section \<open>Events of the session\<close>

definition switch_set_timeout :: "timer \<Rightarrow> daemon \<Rightarrow> daemon" where
  "switch_set_timeout callback d = d\<lparr>timers := timers d @ [callback], running_timer := True\<rparr>"

definition switch_unset_timeout :: "timer \<Rightarrow> daemon \<Rightarrow> daemon" where
  "switch_unset_timeout callback d =
     (if running_timer d then d\<lparr>running_timer := False, timers := remove1 callback (timers d)\<rparr> else d)"

definition switch_event_disconnected :: "daemon \<Rightarrow> daemon" where
  "switch_event_disconnected d =
     (let old_state = sw_state d;
          d = d\<lparr>sw_state := SWITCH_STATE_DISCONNECTED\<rparr>;
          d = (if old_state = SWITCH_STATE_COMPLETED then d\<lparr>timers := remove1 Echo_request_interval (timers d)\<rparr> else d);
          d = d\<lparr>fragment_buf := None, send_queue := None, recv_queue := None\<rparr>;
          d = (if secure_channel_fd d \<ge> 0 then d\<lparr>readable := False, writable := False, secure_channel_fd := -1\<rparr> else d);
          d = service_send_state (if old_state \<noteq> SWITCH_STATE_COMPLETED then MESSENGER_OPENFLOW_FAILD_TO_CONNECT
                                  else MESSENGER_OPENFLOW_DISCONNECTED) d
      in d\<lparr>vendor_service_name_list := [], packetin_service_name_list := [], portstatus_service_name_list := [],
           state_service_name_list := [], running := False\<rparr>)"

definition switch_event_timeout_hello :: "daemon \<Rightarrow> daemon" where
  "switch_event_timeout_hello d =
     (if sw_state d \<noteq> SWITCH_STATE_WAIT_HELLO then d
      else switch_event_disconnected (d\<lparr>running_timer := False\<rparr>))"

definition switch_event_timeout_features_reply :: "daemon \<Rightarrow> daemon" where
  "switch_event_timeout_features_reply d =
     (if sw_state d \<noteq> SWITCH_STATE_WAIT_FEATURES_REPLY then d
      else switch_event_disconnected (d\<lparr>running_timer := False\<rparr>))"

definition echo_reply_timeout :: "daemon \<Rightarrow> daemon" where
  "echo_reply_timeout d = switch_event_disconnected d"

definition switch_event_connected :: "daemon \<Rightarrow> (int \<times> daemon) res" where
  "switch_event_connected d =
     bnd (ofpmsg_send_hello (service_send_state MESSENGER_OPENFLOW_CONNECTED d)) (\<lambda>(ret, d).
     if ret < 0 then Ok (ret, d)
     else Ok (0, switch_set_timeout Timeout_hello (d\<lparr>sw_state := SWITCH_STATE_WAIT_HELLO\<rparr>)))"

definition switch_event_recv_hello :: "daemon \<Rightarrow> (int \<times> daemon) res" where
  "switch_event_recv_hello d =
     (if sw_state d = SWITCH_STATE_WAIT_HELLO then
        let d = switch_unset_timeout Timeout_hello d in
        bnd (if deny_packet_in_on_startup d then ofpmsg_send_deny_all d else Ok (0, d)) (\<lambda>(ret, d).
        if ret < 0 then Ok (ret, d)
        else bnd (ofpmsg_send_featuresrequest d) (\<lambda>(ret, d).
             if ret < 0 then Ok (ret, d)
             else Ok (0, switch_set_timeout Timeout_features_reply (d\<lparr>sw_state := SWITCH_STATE_WAIT_FEATURES_REPLY\<rparr>))))
      else Ok (0, d))"

text \<open>\<open>echo_body\<close>: the datapath id, seconds and nanoseconds, after the header.\<close>

definition switch_event_recv_echoreply :: "bytes \<Rightarrow> daemon \<Rightarrow> (int \<times> daemon) res" where
  "switch_event_recv_echoreply buf d =
     (if length buf \<noteq> 8 + 16 then Ok (0, d)
      else bnd (rd32 buf 4) (\<lambda>xid.
           if xid \<noteq> echo_request_xid d then Ok (0, d)
           else bnd (rd64 buf 8) (\<lambda>datapath_id.
                if datapath_id \<noteq> sw_datapath_id d then Ok (0, d)
                else Ok (0, switch_unset_timeout Echo_reply_timeout d))))"

definition echo_request_interval :: "env \<Rightarrow> daemon \<Rightarrow> daemon res" where
  "echo_request_interval ev d =
     (let body = put64 (sw_datapath_id d) @ put32 (env_sec ev) @ put32 (env_nsec ev);
          (xid, t) = generate_xid (xids d);
          d = d\<lparr>xids := t, echo_request_xid := xid\<rparr>
      in bnd (ofpmsg_send_echorequest xid body d) (\<lambda>(err, d).
         if err < 0 then Ok (switch_event_disconnected d) else Ok (switch_set_timeout Echo_reply_timeout d)))"

text \<open>The text \<open>switch.%#x\<close> of a datapath id.\<close>

fun print_hex :: "nat \<Rightarrow> nat \<Rightarrow> bytes" where
  "print_hex 0 n = []"
| "print_hex (Suc digits) n =
     (if n = 0 then []
      else print_hex digits (n div 16) @ [of_nat (if n mod 16 < 10 then 48 + n mod 16 else 87 + n mod 16)])"

definition switch_name :: "64 word \<Rightarrow> bytes" where
  "switch_name dpid =
     [115, 119, 105, 116, 99, 104, 46] @ (if dpid = 0 then [48] else [48, 120] @ print_hex 16 (unat dpid))"

definition SWITCH_MANAGER :: bytes where
  "SWITCH_MANAGER = [115, 119, 105, 116, 99, 104, 95, 109, 97, 110, 97, 103, 101, 114]"

definition send_efi_switch_list_request :: "env \<Rightarrow> daemon \<Rightarrow> bool \<times> daemon" where
  "send_efi_switch_list_request ev d =
     (if env_efi_sent ev then (True, d\<lparr>efi_requests := efi_requests d + 1\<rparr>) else (False, d))"

definition switch_event_recv_featuresreply :: "env \<Rightarrow> 64 word \<Rightarrow> daemon \<Rightarrow> (int \<times> daemon) res" where
  "switch_event_recv_featuresreply ev dpid d =
     (case sw_state d of
        SWITCH_STATE_WAIT_FEATURES_REPLY \<Rightarrow>
          let d = switch_unset_timeout Timeout_features_reply
                    (d\<lparr>sw_datapath_id := dpid, sw_state := SWITCH_STATE_COMPLETED\<rparr>) in
          if env_duplicate ev \<and> \<not> env_terminated ev then Ok (-1, d)
          else
            bnd (ofpmsg_send_setconfig (d\<lparr>trema_name := switch_name dpid\<rparr>)) (\<lambda>(ret, d).
            if ret < 0 then Ok (ret, d)
            else bnd (if flow_cleanup d then ofpmsg_send_delete_all_flows d else Ok (0, d)) (\<lambda>(ret, d).
            if ret < 0 then Ok (ret, d)
            else
              let d = service_send_to_application [SWITCH_MANAGER] MESSENGER_OPENFLOW_READY (Some (sw_datapath_id d)) None d;
                  (sent, d) = send_efi_switch_list_request ev d
              in Ok (if sent then 0 else -1, d)))
      | SWITCH_STATE_COMPLETED \<Rightarrow> Ok (0, d)
      | _ \<Rightarrow> Ok (-1, d))"

definition notify_state_to_controllers :: "daemon \<Rightarrow> daemon" where
  "notify_state_to_controllers d =
     (let d = service_send_state MESSENGER_OPENFLOW_READY d in d\<lparr>timers := timers d @ [Echo_request_interval]\<rparr>)"

definition confirm_self_dpid_is_registerd :: "env \<Rightarrow> 64 word list \<Rightarrow> daemon \<Rightarrow> daemon" where
  "confirm_self_dpid_is_registerd ev dpids d =
     (if sw_datapath_id d \<in> set dpids then notify_state_to_controllers d
      else snd (send_efi_switch_list_request ev d))"

definition switch_event_recv_from_application :: "env \<Rightarrow> 64 word \<Rightarrow> bytes \<Rightarrow> bytes \<Rightarrow> daemon \<Rightarrow> (int \<times> daemon) res" where
  "switch_event_recv_from_application ev datapath_id name buf d =
     (if datapath_id \<noteq> sw_datapath_id d then Ok (-1, d) else ofpmsg_send ev buf name d)"

definition switch_event_disconnect_request :: "64 word \<Rightarrow> daemon \<Rightarrow> int \<times> daemon" where
  "switch_event_disconnect_request datapath_id d =
     (if datapath_id \<noteq> sw_datapath_id d then (-1, d) else (0, switch_event_disconnected d))"

definition switch_event_recv_error :: "daemon \<Rightarrow> int" where
  "switch_event_recv_error d = (if sw_state d = SWITCH_STATE_COMPLETED then 0 else -1)"

end
