(* ===== verification/Switch_Recv.thy ===== *)
theory Switch_Recv
  imports Switch_Session
begin

text \<open>
  What the switch daemon does with a message from the switch (\<open>src/switch_manager/ofpmsg_recv.c\<close>), with
  a message from an application (\<open>service_interface.c\<close>), with a management request, and when its
  socket is readable or writable (\<open>switch.c\<close>).  \<open>fuel\<close> bounds the loops of the validation and of the
  translation of flow statistics, which follow lengths in the message.
\<close>

section \<open>Messages from the switch\<close>

definition send_transaction_reply :: "bytes \<Rightarrow> daemon \<Rightarrow> (int \<times> daemon) res" where
  "send_transaction_reply buf d =
     bnd (rd32 buf 4) (\<lambda>xid.
     case lookup_xid_entry (xids d) xid of
       None \<Rightarrow> Ok (-1, d)
     | Some e \<Rightarrow>
         bnd (wr 4 (put32 (xe_original_xid e)) buf) (\<lambda>buf.
         let d = service_send_to_reply (Some (xe_service_name e)) MESSENGER_OPENFLOW_MESSAGE (Some (sw_datapath_id d)) (Some buf) d
         in bnd (delete_xid_entry e (xids d)) (\<lambda>t. Ok (0, d\<lparr>xids := t\<rparr>))))"

text \<open>The result of \<open>send_transaction_reply\<close> is not looked at by most of its callers.\<close>

definition reply_and_return :: "bytes \<Rightarrow> daemon \<Rightarrow> (int \<times> daemon) res" where
  "reply_and_return buf d = bnd (send_transaction_reply buf d) (\<lambda>(_, d). Ok (0, d))"

definition ofpmsg_recv_hello :: "bytes \<Rightarrow> daemon \<Rightarrow> (int \<times> daemon) res" where
  "ofpmsg_recv_hello buf d = switch_event_recv_hello d"

text \<open>
  An error message carries the message that failed at 12.  For a flow modification the fields of
  \<open>struct ofp_flow_mod\<close> (xid at 4, cookie at 48, command at 56, flags at 70) are translated back, as
  far as they are there.
\<close>

definition translate_flow_mod_error :: "bytes \<Rightarrow> nat \<Rightarrow> daemon \<Rightarrow> (bytes \<times> daemon) option res" where
  "translate_flow_mod_error buf len d =
     bnd (rd32 buf (12 + 4)) (\<lambda>xid.
     bnd (case lookup_xid_entry (xids d) xid of None \<Rightarrow> Ok buf
          | Some e \<Rightarrow> wr (12 + 4) (put32 (xe_original_xid e)) buf) (\<lambda>buf.
     bnd (rd64 buf (12 + 48)) (\<lambda>cookie.
     if cookie = RESERVED_COOKIE then Ok None
     else if \<not> cookie_translation d then Ok (Some (buf, d))
     else
       let entry = lookup_cookie_entry_by_cookie (cookies d) cookie in
       bnd (case entry of None \<Rightarrow> Ok buf
            | Some a \<Rightarrow>
                bnd (deref_entry (cookies d) a) (\<lambda>e.
                bnd (wr (12 + 48) (put64 (ae_cookie (ce_application e))) buf) (\<lambda>buf.
                if len \<ge> 72 then wr (12 + 70) (put16 (ae_flags (ce_application e))) buf else Ok buf))) (\<lambda>buf.
       if len \<ge> 58 then
         bnd (rd16 buf (12 + 56)) (\<lambda>command.
         case entry of
           Some a \<Rightarrow> if command = OFPFC_ADD
                      then bnd (delete_cookie_entry a (cookies d)) (\<lambda>t. Ok (Some (buf, d\<lparr>cookies := t\<rparr>)))
                      else Ok (Some (buf, d))
         | None \<Rightarrow> Ok (Some (buf, d)))
       else Ok (Some (buf, d))))))"

definition ofpmsg_recv_error :: "bytes \<Rightarrow> daemon \<Rightarrow> (int \<times> daemon) res" where
  "ofpmsg_recv_error buf d =
     bnd (rd16 buf 8) (\<lambda>type.
     bnd (rd16 buf 10) (\<lambda>code.
     if switch_event_recv_error d < 0 then Ok (switch_event_recv_error d, d)
     else if type = OFPET_FLOW_MOD_FAILED then
       bnd (rd16 buf 2) (\<lambda>header_length.
       let len = (if unat header_length < 12 then 2 ^ 64 + unat header_length - 12 else unat header_length - 12) in
       if len \<ge> 56 then
         bnd (translate_flow_mod_error buf len d) (\<lambda>r.
         case r of None \<Rightarrow> Ok (0, d) | Some (buf, d) \<Rightarrow> reply_and_return buf d)
       else reply_and_return buf d)
     else reply_and_return buf d))"

definition ofpmsg_recv_echorequest :: "bytes \<Rightarrow> daemon \<Rightarrow> (int \<times> daemon) res" where
  "ofpmsg_recv_echorequest buf d =
     assert_then (8 \<le> length buf) (bnd (rd32 buf 4) (\<lambda>xid. ofpmsg_send_echoreply xid (drop 8 buf) d))"

definition ofpmsg_recv_echoreply :: "bytes \<Rightarrow> daemon \<Rightarrow> (int \<times> daemon) res" where
  "ofpmsg_recv_echoreply buf d =
     bnd (switch_event_recv_echoreply buf d) (\<lambda>(ret, d). if ret < 0 then Ok (ret, d) else reply_and_return buf d)"

definition ofpmsg_recv_vendor :: "bytes \<Rightarrow> daemon \<Rightarrow> (int \<times> daemon) res" where
  "ofpmsg_recv_vendor buf d =
     Ok (0, service_send_to_application (vendor_service_name_list d) MESSENGER_OPENFLOW_MESSAGE
              (Some (sw_datapath_id d)) (Some buf) d)"

definition ofpmsg_recv_featuresreply :: "env \<Rightarrow> bytes \<Rightarrow> daemon \<Rightarrow> (int \<times> daemon) res" where
  "ofpmsg_recv_featuresreply ev buf d =
     bnd (rd64 buf 8) (\<lambda>datapath_id.
     bnd (switch_event_recv_featuresreply ev datapath_id d) (\<lambda>(ret, d).
     if ret < 0 then Ok (ret, d) else reply_and_return buf d))"

definition ofpmsg_recv_getconfigreply :: "bytes \<Rightarrow> daemon \<Rightarrow> (int \<times> daemon) res" where
  "ofpmsg_recv_getconfigreply buf d = reply_and_return buf d"

definition ofpmsg_recv_packetin :: "bytes \<Rightarrow> daemon \<Rightarrow> (int \<times> daemon) res" where
  "ofpmsg_recv_packetin buf d =
     Ok (0, service_send_to_application (packetin_service_name_list d) MESSENGER_OPENFLOW_MESSAGE
              (Some (sw_datapath_id d)) (Some buf) d)"

definition ofpmsg_recv_flowremoved :: "bytes \<Rightarrow> daemon \<Rightarrow> (int \<times> daemon) res" where
  "ofpmsg_recv_flowremoved buf d =
     bnd (rd64 buf 48) (\<lambda>cookie.
     if cookie = RESERVED_COOKIE then Ok (0, d)
     else if \<not> cookie_translation d then
       Ok (0, service_send_to_application (state_service_name_list d) MESSENGER_OPENFLOW_MESSAGE
                (Some (sw_datapath_id d)) (Some buf) d)
     else case lookup_cookie_entry_by_cookie (cookies d) cookie of
       None \<Rightarrow> Ok (0, d)
     | Some a \<Rightarrow>
         bnd (deref_entry (cookies d) a) (\<lambda>e.
         bnd (if ae_flags (ce_application e) AND OFPFF_SEND_FLOW_REM \<noteq> 0
              then bnd (wr 48 (put64 (ae_cookie (ce_application e))) buf) (\<lambda>buf.
                   Ok (service_send_to_reply (Some (ae_service_name (ce_application e))) MESSENGER_OPENFLOW_MESSAGE
                         (Some (sw_datapath_id d)) (Some buf) d))
              else Ok d) (\<lambda>d.
         bnd (delete_cookie_entry a (cookies d)) (\<lambda>t. Ok (0, d\<lparr>cookies := t\<rparr>)))))"

definition ofpmsg_recv_portstatus :: "bytes \<Rightarrow> daemon \<Rightarrow> (int \<times> daemon) res" where
  "ofpmsg_recv_portstatus buf d =
     Ok (0, service_send_to_application (portstatus_service_name_list d) MESSENGER_OPENFLOW_MESSAGE
              (Some (sw_datapath_id d)) (Some buf) d)"

text \<open>The loop over flow statistics: \<open>length\<close> at 0 and \<open>cookie\<close> at 64 of each entry.\<close>

fun translate_flow_stats :: "nat \<Rightarrow> cookie_table \<Rightarrow> bytes \<Rightarrow> nat \<Rightarrow> int \<Rightarrow> bytes res" where
  "translate_flow_stats 0 t buf i body_length = Fault No_return"
| "translate_flow_stats (Suc fuel) t buf i body_length =
     (if body_length \<le> 0 then Ok buf
      else bnd (rd64 buf (i + 64)) (\<lambda>cookie.
           bnd (case lookup_cookie_entry_by_cookie t cookie of
                  None \<Rightarrow> Ok buf
                | Some a \<Rightarrow> bnd (deref_entry t a) (\<lambda>e. wr (i + 64) (put64 (ae_cookie (ce_application e))) buf)) (\<lambda>buf.
           bnd (rd16 buf i) (\<lambda>len.
           translate_flow_stats fuel t buf (i + unat len) (body_length - int (unat len))))))"

definition ofpmsg_recv_statsreply :: "nat \<Rightarrow> bytes \<Rightarrow> daemon \<Rightarrow> (int \<times> daemon) res" where
  "ofpmsg_recv_statsreply fuel buf d =
     bnd (rd16 buf 8) (\<lambda>type.
     bnd (if type = OFPST_FLOW \<and> cookie_translation d
          then bnd (rd16 buf 2) (\<lambda>len. translate_flow_stats fuel (cookies d) buf 12 (int (unat len) - 12))
          else Ok buf) (\<lambda>buf.
     bnd (rd32 buf 4) (\<lambda>xid.
     case lookup_xid_entry (xids d) xid of
       None \<Rightarrow> Ok (-1, d)
     | Some e \<Rightarrow>
         bnd (wr 4 (put32 (xe_original_xid e)) buf) (\<lambda>buf.
         let d = service_send_to_reply (Some (xe_service_name e)) MESSENGER_OPENFLOW_MESSAGE (Some (sw_datapath_id d)) (Some buf) d
         in bnd (rd16 buf 10) (\<lambda>flags.
            if flags AND OFPSF_REPLY_MORE = 0
            then bnd (delete_xid_entry e (xids d)) (\<lambda>t. Ok (0, d\<lparr>xids := t\<rparr>))
            else Ok (0, d))))))"

definition ofpmsg_recv_barrierreply :: "bytes \<Rightarrow> daemon \<Rightarrow> (int \<times> daemon) res" where
  "ofpmsg_recv_barrierreply buf d = reply_and_return buf d"

definition ofpmsg_recv_queue_getconfigreply :: "bytes \<Rightarrow> daemon \<Rightarrow> (int \<times> daemon) res" where
  "ofpmsg_recv_queue_getconfigreply buf d = reply_and_return buf d"

definition ofpmsg_recv :: "nat \<Rightarrow> env \<Rightarrow> bytes \<Rightarrow> daemon \<Rightarrow> (int \<times> daemon) res" where
  "ofpmsg_recv fuel ev buf d =
     bnd (validate_openflow_message fuel buf) (\<lambda>ret.
     bnd (rd8 buf 1) (\<lambda>type.
     if ret \<noteq> 0 then
       bnd (get_error_type_and_code type ret) (\<lambda>found.
       let (error_type, error_code) = (case found of None \<Rightarrow> (OFPET_BAD_REQUEST, OFPBRC_BAD_TYPE) | Some tc \<Rightarrow> tc)
       in bnd (ofpmsg_send_error_msg error_type error_code buf d) (\<lambda>(_, d). Ok (-1, d)))
     else if type = OFPT_HELLO then ofpmsg_recv_hello buf d
     else if type = OFPT_ERROR then ofpmsg_recv_error buf d
     else if type = OFPT_ECHO_REQUEST then ofpmsg_recv_echorequest buf d
     else if type = OFPT_ECHO_REPLY then ofpmsg_recv_echoreply buf d
     else if type = OFPT_VENDOR then ofpmsg_recv_vendor buf d
     else if type = OFPT_FEATURES_REPLY then ofpmsg_recv_featuresreply ev buf d
     else if type = OFPT_GET_CONFIG_REPLY then ofpmsg_recv_getconfigreply buf d
     else if type = OFPT_PACKET_IN then ofpmsg_recv_packetin buf d
     else if type = OFPT_FLOW_REMOVED then ofpmsg_recv_flowremoved buf d
     else if type = OFPT_PORT_STATUS then ofpmsg_recv_portstatus buf d
     else if type = OFPT_STATS_REPLY then ofpmsg_recv_statsreply fuel buf d
     else if type = OFPT_BARRIER_REPLY then ofpmsg_recv_barrierreply buf d
     else if type = OFPT_QUEUE_GET_CONFIG_REPLY then ofpmsg_recv_queue_getconfigreply buf d
     else Fault Assertion))"

section \<open>The socket\<close>

text \<open>The loop over the received messages, with the count of errors.\<close>

fun handle_messages_loop :: "nat \<Rightarrow> nat \<Rightarrow> env \<Rightarrow> daemon \<Rightarrow> nat \<Rightarrow> (nat \<times> daemon) res" where
  "handle_messages_loop 0 fuel ev d errors = Fault No_return"
| "handle_messages_loop (Suc n) fuel ev d errors =
     (case recv_queue d of
        None \<Rightarrow> Fault Null_deref
      | Some q \<Rightarrow>
          (case dequeue_message q of
             (None, q) \<Rightarrow> Ok (errors, d\<lparr>recv_queue := Some q\<rparr>)
           | (Some message, q) \<Rightarrow>
               bnd (ofpmsg_recv fuel ev message (d\<lparr>recv_queue := Some q\<rparr>)) (\<lambda>(ret, d).
               handle_messages_loop n fuel ev d (if ret < 0 then errors + 1 else errors))))"

definition handle_messages_from_secure_channel :: "nat \<Rightarrow> env \<Rightarrow> daemon \<Rightarrow> (int \<times> daemon) res" where
  "handle_messages_from_secure_channel fuel ev d =
     assert_then (recv_queue d \<noteq> None)
      (bnd (handle_messages_loop (Suc (length (mq_elements (the (recv_queue d))))) fuel ev d 0) (\<lambda>(errors, d).
       Ok (if errors = 0 then 0 else -1, d)))"

definition secure_channel_read :: "nat \<Rightarrow> env \<Rightarrow> read_result \<Rightarrow> daemon \<Rightarrow> daemon res" where
  "secure_channel_read fuel ev r d =
     bnd (recv_from_secure_channel r (fragment_buf d) (recv_queue d)) (\<lambda>(ret, frag, q, e).
     let d = d\<lparr>fragment_buf := frag, recv_queue := q\<rparr> in
     bnd (if e = Bad_version
          then bnd (ofpmsg_send_error_msg OFPET_BAD_REQUEST OFPBRC_BAD_VERSION (the frag) d) (\<lambda>(_, d). Ok d)
          else Ok d) (\<lambda>d.
     if ret < 0 then Ok (switch_event_disconnected d)
     else if mq_length (the q) > 0 then
       bnd (handle_messages_from_secure_channel fuel ev d) (\<lambda>(ret, d).
       Ok (if ret < 0 then d\<lparr>running := False\<rparr> else d))
     else Ok d))"

definition secure_channel_write :: "writev_result \<Rightarrow> daemon \<Rightarrow> daemon res" where
  "secure_channel_write r d =
     bnd (flush_secure_channel r (secure_channel_fd d) (send_queue d) (writable d)) (\<lambda>(ret, q, w, _).
     let d = d\<lparr>send_queue := q, writable := w\<rparr> in
     Ok (if ret < 0 then switch_event_disconnected d else d))"

section \<open>Messages from applications\<close>

definition handle_openflow_message :: "nat \<Rightarrow> env \<Rightarrow> 64 word \<Rightarrow> bytes \<Rightarrow> bytes \<Rightarrow> daemon \<Rightarrow> daemon res" where
  "handle_openflow_message fuel ev datapath_id name buf d =
     bnd (validate_openflow_message fuel buf) (\<lambda>ret.
     if ret \<noteq> 0 then Ok d
     else bnd (switch_event_recv_from_application ev datapath_id name buf d) (\<lambda>(_, d). Ok d))"

definition handle_openflow_disconnect_request :: "64 word \<Rightarrow> daemon \<Rightarrow> daemon" where
  "handle_openflow_disconnect_request datapath_id d = snd (switch_event_disconnect_request datapath_id d)"

text \<open>\<open>openflow_service_header_t\<close>: the datapath id at 0 and the length of the service name at 8.\<close>

definition service_recv_from_application :: "nat \<Rightarrow> env \<Rightarrow> 16 word \<Rightarrow> bytes \<Rightarrow> daemon \<Rightarrow> daemon res" where
  "service_recv_from_application fuel ev message_type buf d =
     (if length buf < 10 then Ok d
      else
        bnd (rd64 buf 0) (\<lambda>datapath_id.
        bnd (rd16 buf 8) (\<lambda>service_name_length.
        if service_name_length < 1 then Ok d
        else
          bnd (rd8 buf (10 + unat service_name_length - 1)) (\<lambda>c.
          if c \<noteq> 0 then Ok d
          else
            let name = cstring (drop 10 buf); buf = drop (10 + unat service_name_length) buf in
            if message_type = MESSENGER_OPENFLOW_MESSAGE then handle_openflow_message fuel ev datapath_id name buf d
            else if message_type = MESSENGER_OPENFLOW_DISCONNECT_REQUEST
            then Ok (handle_openflow_disconnect_request datapath_id d)
            else Ok d))))"

definition service_recv :: "nat \<Rightarrow> env \<Rightarrow> 16 word \<Rightarrow> bytes \<Rightarrow> daemon \<Rightarrow> daemon res" where
  "service_recv fuel ev message_type data d =
     assert_then (data \<noteq> []) (service_recv_from_application fuel ev message_type data d)"

section \<open>Management requests\<close>

abbreviation "DUMP_XID_TABLE \<equiv> (0 :: 32 word)"
abbreviation "DUMP_COOKIE_TABLE \<equiv> (1 :: 32 word)"
abbreviation "TOGGLE_COOKIE_AGING \<equiv> (2 :: 32 word)"
abbreviation "EVENT_FORWARD_ENTRY_ADD \<equiv> (3 :: 32 word)"
abbreviation "EVENT_FORWARD_ENTRY_DELETE \<equiv> (4 :: 32 word)"
abbreviation "EVENT_FORWARD_ENTRY_DUMP \<equiv> (5 :: 32 word)"
abbreviation "EVENT_FORWARD_ENTRY_SET \<equiv> (6 :: 32 word)"
abbreviation "MANAGEMENT_APPLICATION_REPLY \<equiv> (7 :: 16 word)"
abbreviation "MANAGEMENT_REQUEST_SUCCEEDED \<equiv> (0 :: 8 word)"
abbreviation "MANAGEMENT_REQUEST_FAILED \<equiv> (1 :: 8 word)"

definition create_management_application_reply :: "8 word \<Rightarrow> 32 word \<Rightarrow> bytes \<Rightarrow> bytes" where
  "create_management_application_reply status application_id data =
     put16 MANAGEMENT_APPLICATION_REPLY @ [status, 0] @ put32 (of_nat (12 + length data)) @ put32 application_id @ data"

definition send_management_reply :: "8 word \<Rightarrow> 32 word \<Rightarrow> bytes \<Rightarrow> daemon \<Rightarrow> daemon" where
  "send_management_reply status command data d =
     d\<lparr>replies := replies d @ [create_management_application_reply status command data]\<rparr>"

definition forward_entry_command :: "32 word \<Rightarrow> bytes list \<Rightarrow> 32 word \<Rightarrow> bytes \<Rightarrow> bytes list res" where
  "forward_entry_command command subject n_services names =
     (if command = EVENT_FORWARD_ENTRY_ADD then management_event_forward_entry_add subject n_services names
      else if command = EVENT_FORWARD_ENTRY_DELETE then management_event_forward_entry_delete subject n_services names
      else if command = EVENT_FORWARD_ENTRY_SET then management_event_forward_entries_set subject n_services names
      else Ok subject)"

definition management_event_forward_entry_operation :: "32 word \<Rightarrow> bytes \<Rightarrow> daemon \<Rightarrow> daemon res" where
  "management_event_forward_entry_operation command data d =
     bnd (rd8 data 0) (\<lambda>type.
     bnd (rd32 data 4) (\<lambda>n_services.
     let names = drop 8 data;
         run = (\<lambda>subject store.
           bnd (forward_entry_command command subject n_services names) (\<lambda>services.
           Ok (send_management_reply MANAGEMENT_REQUEST_SUCCEEDED command
                 (create_event_forward_operation_reply type EFI_OPERATION_SUCCEEDED services) (store services))))
     in if type = EVENT_FORWARD_TYPE_VENDOR
        then run (vendor_service_name_list d) (\<lambda>l. d\<lparr>vendor_service_name_list := l\<rparr>)
        else if type = EVENT_FORWARD_TYPE_PACKET_IN
        then run (packetin_service_name_list d) (\<lambda>l. d\<lparr>packetin_service_name_list := l\<rparr>)
        else if type = EVENT_FORWARD_TYPE_PORT_STATUS
        then run (portstatus_service_name_list d) (\<lambda>l. d\<lparr>portstatus_service_name_list := l\<rparr>)
        else if type = EVENT_FORWARD_TYPE_STATE_NOTIFY
        then run (state_service_name_list d) (\<lambda>l. d\<lparr>state_service_name_list := l\<rparr>)
        else Ok (send_management_reply MANAGEMENT_REQUEST_FAILED command
               [type, EFI_OPERATION_FAILED, 0, 0, 0, 0, 0, 0] d)))"

definition management_recv :: "32 word \<Rightarrow> bytes \<Rightarrow> daemon \<Rightarrow> daemon res" where
  "management_recv command data d =
     (if command = DUMP_XID_TABLE \<or> command = DUMP_COOKIE_TABLE
      then Ok (send_management_reply MANAGEMENT_REQUEST_SUCCEEDED command [] d)
      else if command = TOGGLE_COOKIE_AGING then
        Ok (send_management_reply MANAGEMENT_REQUEST_SUCCEEDED command []
             (if \<not> cookie_translation d then d
              else if age_cookie_table_enabled d
              then d\<lparr>timers := remove1 Age_cookie_table (timers d), age_cookie_table_enabled := False\<rparr>
              else d\<lparr>timers := timers d @ [Age_cookie_table], age_cookie_table_enabled := True\<rparr>))
      else if command = EVENT_FORWARD_ENTRY_ADD \<or> command = EVENT_FORWARD_ENTRY_DELETE \<or>
              command = EVENT_FORWARD_ENTRY_DUMP \<or> command = EVENT_FORWARD_ENTRY_SET
      then management_event_forward_entry_operation command data d
      else Ok (send_management_reply MANAGEMENT_REQUEST_FAILED command [] d))"

section \<open>Start\<close>

text \<open>The state when \<open>main\<close> calls \<open>switch_event_connected\<close>: options and destination rules are read.\<close>

definition start_switch_daemon ::
  "int \<Rightarrow> bool \<Rightarrow> bool \<Rightarrow> bool \<Rightarrow> bytes list \<Rightarrow> bytes list \<Rightarrow> bytes list \<Rightarrow> bytes list \<Rightarrow> bytes \<Rightarrow> daemon" where
  "start_switch_daemon fd cleanup translation deny vendor packet_in port_status state name =
     \<lparr>vendor_service_name_list = vendor, packetin_service_name_list = packet_in,
      portstatus_service_name_list = port_status, state_service_name_list = state, secure_channel_fd = fd,
      flow_cleanup = cleanup, cookie_translation = translation, deny_packet_in_on_startup = deny,
      sw_state = SWITCH_STATE_CONNECTED, sw_datapath_id = 0, config_flags = 0, miss_send_len = UINT16_MAX,
      fragment_buf = None, send_queue = Some create_message_queue, recv_queue = Some create_message_queue,
      running_timer = False, echo_request_xid = 0,
      xids = init_xid_table 0, cookies = init_cookie_table 0, age_cookie_table_enabled = False,
      readable = True, writable = False, timers = [], outbox = [], replies = [], trema_name = name, running = True,
      efi_requests = 0\<rparr>"

end
