(* ===== verification/Switch_Invariant.thy ===== *)
theory Switch_Invariant
  imports Switch_Recv
begin

text \<open>
  The switch daemon as a transition system: the events its event loop, its timers and its messenger
  deliver, the states that can be reached from the start, and the invariant of these states.
\<close>

section \<open>Steps\<close>

definition fire_timer :: "env \<Rightarrow> (64 word, nat) hash_iterator \<Rightarrow> timer \<Rightarrow> daemon \<Rightarrow> daemon res" where
  "fire_timer ev iter k d =
     (case k of
        Timeout_hello \<Rightarrow> Ok (switch_event_timeout_hello (d\<lparr>timers := remove1 k (timers d)\<rparr>))
      | Timeout_features_reply \<Rightarrow> Ok (switch_event_timeout_features_reply (d\<lparr>timers := remove1 k (timers d)\<rparr>))
      | Echo_reply_timeout \<Rightarrow> Ok (echo_reply_timeout (d\<lparr>timers := remove1 k (timers d)\<rparr>))
      | Echo_request_interval \<Rightarrow> echo_request_interval ev d
      | Age_cookie_table \<Rightarrow>
          bnd (age_cookie_table (Suc (length (hash_entries (ct_global (cookies d))))) (env_now ev) iter (cookies d)) (\<lambda>t. Ok (d\<lparr>cookies := t\<rparr>)))"

text \<open>
  Two guards say what the environment does: \<open>writev\<close> of at least one byte does not return 0, and
  fewer than \<open>2 ^ 64 - 2\<close> cookie entries have been allocated.
\<close>

definition few_allocations :: "daemon \<Rightarrow> bool" where
  "few_allocations d \<longleftrightarrow> ct_next_address (cookies d) < 2 ^ 64 - 2"

inductive daemon_step :: "daemon \<Rightarrow> daemon \<Rightarrow> bool" where
  Readable: "running d \<Longrightarrow> readable d \<Longrightarrow> secure_channel_read fuel ev r d = Ok d' \<Longrightarrow> daemon_step d d'"
| Writable: "running d \<Longrightarrow> writable d \<Longrightarrow> w \<noteq> Wrote 0 \<Longrightarrow> secure_channel_write w d = Ok d' \<Longrightarrow> daemon_step d d'"
| Application: "running d \<Longrightarrow> few_allocations d \<Longrightarrow> service_recv fuel ev tag data d = Ok d' \<Longrightarrow> daemon_step d d'"
| Management: "running d \<Longrightarrow> management_recv command data d = Ok d' \<Longrightarrow> daemon_step d d'"
| Timer: "running d \<Longrightarrow> k \<in> set (timers d) \<Longrightarrow> fire_timer ev iter k d = Ok d' \<Longrightarrow> daemon_step d d'"
| Switch_list: "running d \<Longrightarrow> efi_requests d = Suc n \<Longrightarrow>
    daemon_step d (confirm_self_dpid_is_registerd ev ds (d\<lparr>efi_requests := n\<rparr>))"
| Terminate: "running d \<Longrightarrow> daemon_step d (switch_event_disconnected d)"

inductive daemon_reachable :: "daemon \<Rightarrow> bool" where
  Start: "0 \<le> fd \<Longrightarrow>
    switch_event_connected (start_switch_daemon fd cleanup translation deny vendor packet_in port_status state name) = Ok (0, d) \<Longrightarrow>
    daemon_reachable d"
| Step: "daemon_reachable d \<Longrightarrow> daemon_step d d' \<Longrightarrow> daemon_reachable d'"

section \<open>The invariant\<close>

definition send_ok :: "bytes message_queue option \<Rightarrow> bool \<Rightarrow> bool" where
  "send_ok oq w \<longleftrightarrow> (\<exists>q. oq = Some q \<and> mq_inv q \<and> [] \<notin> set (mq_list q) \<and> (mq_list q \<noteq> [] \<longrightarrow> w))"

definition recv_ok :: "bytes message_queue option \<Rightarrow> bool" where
  "recv_ok oq \<longleftrightarrow> (\<exists>q. oq = Some q \<and> mq_inv q)"

definition closed :: "daemon \<Rightarrow> bool" where
  "closed d \<longleftrightarrow> send_queue d = None \<and> recv_queue d = None \<and> fragment_buf d = None \<and> secure_channel_fd d < 0 \<and>
     \<not> readable d \<and> \<not> writable d \<and> \<not> running d \<and> vendor_service_name_list d = [] \<and>
     packetin_service_name_list d = [] \<and> portstatus_service_name_list d = [] \<and> state_service_name_list d = []"

definition opened :: "daemon \<Rightarrow> bool" where
  "opened d \<longleftrightarrow> send_ok (send_queue d) (writable d) \<and> recv_ok (recv_queue d) \<and> 0 \<le> secure_channel_fd d \<and> readable d"

definition tables_ok :: "daemon \<Rightarrow> bool" where
  "tables_ok d \<longleftrightarrow> xid_inv (xids d) \<and> cookie_inv (cookies d)"

definition timeout_pending :: "daemon \<Rightarrow> bool" where
  "timeout_pending d \<longleftrightarrow>
     (sw_state d = SWITCH_STATE_WAIT_HELLO \<longrightarrow> Timeout_hello \<in> set (timers d)) \<and>
     (sw_state d = SWITCH_STATE_WAIT_FEATURES_REPLY \<longrightarrow> Timeout_features_reply \<in> set (timers d))"

definition session_inv :: "daemon \<Rightarrow> bool" where
  "session_inv d \<longleftrightarrow> tables_ok d \<and> timeout_pending d \<and>
     (if sw_state d = SWITCH_STATE_DISCONNECTED then closed d else opened d)"

text \<open>
  The states in the order in which a session goes through them, and what the handlers of ordinary
  messages leave alone.
\<close>

fun rank :: "switch_state \<Rightarrow> nat" where
  "rank SWITCH_STATE_CONNECTED = 0"
| "rank SWITCH_STATE_WAIT_HELLO = 1"
| "rank SWITCH_STATE_WAIT_FEATURES_REPLY = 2"
| "rank SWITCH_STATE_COMPLETED = 3"
| "rank SWITCH_STATE_DISCONNECTED = 4"

definition active :: "daemon \<Rightarrow> bool" where
  "active d \<longleftrightarrow> tables_ok d \<and> opened d \<and> timeout_pending d \<and> sw_state d \<noteq> SWITCH_STATE_DISCONNECTED"

definition advances :: "daemon \<Rightarrow> daemon \<Rightarrow> bool" where
  "advances d d' \<longleftrightarrow> rank (sw_state d) \<le> rank (sw_state d') \<and> (\<exists>out. outbox d' = outbox d @ out)"

lemma advances_refl [simp]: "advances d d"
  by (simp add: advances_def)

lemma advances_trans: "advances d d' \<Longrightarrow> advances d' d'' \<Longrightarrow> advances d d''"
  by (auto simp: advances_def)

text \<open>
  \<open>good d r\<close>: if the handler returns, the daemon is active again and the session has not gone back.
\<close>

definition good :: "daemon \<Rightarrow> ('a \<times> daemon) res \<Rightarrow> bool" where
  "good d r \<longleftrightarrow> (\<forall>v d'. r = Ok (v, d') \<longrightarrow> active d' \<and> advances d d')"

lemma good_Ok [simp]: "good d (Ok (v, d')) \<longleftrightarrow> active d' \<and> advances d d'"
  by (simp add: good_def)

lemma good_Fault [simp]: "good d (Fault f)"
  by (simp add: good_def)

lemma good_bnd:
  "good d r \<Longrightarrow> (\<And>v d'. active d' \<Longrightarrow> good d' (f (v, d'))) \<Longrightarrow> good d (bnd r f)"
  unfolding good_def by (cases r) (auto, (metis advances_trans)+)

lemma good_bnd_value: "(\<And>x. r = Ok x \<Longrightarrow> good d (f x)) \<Longrightarrow> good d (bnd r f)"
  by (cases r) auto

lemma good_assert: "(b \<Longrightarrow> good d r) \<Longrightarrow> good d (assert_then b r)"
  by (simp add: assert_then_def)

lemma good_if: "(b \<Longrightarrow> good d x) \<Longrightarrow> (\<not> b \<Longrightarrow> good d y) \<Longrightarrow> good d (if b then x else y)"
  by simp

section \<open>Handlers of ordinary messages\<close>

lemma active_simps [simp]:
  "active (d\<lparr>outbox := x\<rparr>) = active d" "active (d\<lparr>replies := y\<rparr>) = active d"
  "active (d\<lparr>trema_name := n\<rparr>) = active d" "active (d\<lparr>efi_requests := k\<rparr>) = active d"
  "active (d\<lparr>running_timer := b\<rparr>) = active d" "active (d\<lparr>echo_request_xid := i\<rparr>) = active d"
  "active (d\<lparr>fragment_buf := f\<rparr>) = active d" "active (d\<lparr>sw_datapath_id := dp\<rparr>) = active d"
  "active (d\<lparr>vendor_service_name_list := l\<rparr>) = active d" "active (d\<lparr>packetin_service_name_list := l\<rparr>) = active d"
  "active (d\<lparr>portstatus_service_name_list := l\<rparr>) = active d" "active (d\<lparr>state_service_name_list := l\<rparr>) = active d"
  "active (d\<lparr>age_cookie_table_enabled := b\<rparr>) = active d" "active (d\<lparr>running := b\<rparr>) = active d"
  by (simp_all add: active_def tables_ok_def opened_def timeout_pending_def)

lemma service_send_good [simp]:
  "active (service_send_to_application l tag dp data d) = active d"
  "advances d (service_send_to_application l tag dp data d)"
  "active (service_send_to_reply n tag dp data d) = active d"
  "advances d (service_send_to_reply n tag dp data d)"
  "active (service_send_state tag d) = active d"
  "advances d (service_send_state tag d)"
  by (auto simp: service_send_to_application_def service_send_to_reply_def service_send_state_def advances_def Let_def
      split: option.split)

lemma active_xids: "active d \<Longrightarrow> xid_inv t \<Longrightarrow> active (d\<lparr>xids := t\<rparr>)"
  and active_cookies: "active d \<Longrightarrow> cookie_inv t' \<Longrightarrow> active (d\<lparr>cookies := t'\<rparr>)"
  and active_xid_inv: "active d \<Longrightarrow> xid_inv (xids d)"
  and active_cookie_inv: "active d \<Longrightarrow> cookie_inv (cookies d)"
  by (simp_all add: active_def tables_ok_def opened_def timeout_pending_def)

lemma advances_simps [simp]:
  "advances d (d\<lparr>xids := t\<rparr>)" "advances d (d\<lparr>cookies := t'\<rparr>)" "advances d (d\<lparr>replies := y\<rparr>)"
  "advances d (d\<lparr>send_queue := q, writable := w\<rparr>)" "advances d (d\<lparr>running_timer := b\<rparr>)"
  by (simp_all add: advances_def)

lemma send_message_good:
  assumes "active d"
  shows "good d (send_message_to_switch buf d)"
    and "send_message_to_switch buf d = Ok (ret, d') \<Longrightarrow> ret = 0"
proof -
  obtain q where q: "send_queue d = Some q" "mq_inv q" "[] \<notin> set (mq_list q)"
    using assms by (auto simp: active_def opened_def send_ok_def)
  show "send_message_to_switch buf d = Ok (ret, d') \<Longrightarrow> ret = 0"
    by (auto simp: send_message_to_switch_def send_to_secure_channel_def q assert_then_def split: if_splits)
  have "active (d\<lparr>send_queue := Some (enqueue_message q buf), writable := True\<rparr>)" if "buf \<noteq> []"
    using assms q that mq_enqueue [OF q(2), of buf]
    by (simp add: active_def tables_ok_def opened_def timeout_pending_def send_ok_def)
  then show "good d (send_message_to_switch buf d)"
    by (auto simp: send_message_to_switch_def send_to_secure_channel_def q assert_then_def split: if_splits)
qed

lemma with_xid_good:
  assumes "active d"
  shows "good d (with_xid create d)" and "with_xid create d = Ok (ret, d') \<Longrightarrow> ret = 0"
proof -
  obtain x t where x: "generate_xid (xids d) = (x, t)" by (cases "generate_xid (xids d)")
  have "xid_inv t" using generate_xid_free [OF x] active_xid_inv [OF assms] by simp
  then have a: "active (d\<lparr>xids := t\<rparr>)" by (rule active_xids [OF assms])
  have "good (d\<lparr>xids := t\<rparr>) (bnd (create x) (\<lambda>buf. send_message_to_switch buf (d\<lparr>xids := t\<rparr>)))"
    by (rule good_bnd_value) (rule send_message_good(1) [OF a])
  then show "good d (with_xid create d)"
    unfolding good_def with_xid_def x Let_def prod.case using advances_trans [OF advances_simps(1)] by metis
  show "with_xid create d = Ok (ret, d') \<Longrightarrow> ret = 0"
    unfolding with_xid_def x Let_def prod.case using send_message_good(2) [OF a] by (auto simp: bnd_eq_Ok)
qed

lemmas ofpmsg_send_defs = ofpmsg_send_hello_def ofpmsg_send_featuresrequest_def ofpmsg_send_setconfig_def
  ofpmsg_send_error_msg_def ofpmsg_send_delete_all_flows_def ofpmsg_send_deny_all_def

lemma service_send_tables [simp]:
  "xids (service_send_to_reply n tag dp data d) = xids d" "cookies (service_send_to_reply n tag dp data d) = cookies d"
  by (simp_all add: service_send_to_reply_def split: option.split)

lemma good_step: "active d' \<Longrightarrow> advances d d' \<Longrightarrow> good d' r \<Longrightarrow> good d r"
  unfolding good_def using advances_trans by metis

lemma delete_pending_good:
  assumes "active d" and "lookup_xid_entry (xids d) x = Some e"
  shows "good d (bnd (delete_xid_entry e (xids d)) (\<lambda>t. Ok (v, d\<lparr>xids := t\<rparr>)))"
  using delete_xid_entry_ok [OF _ lookup_self [OF _ assms(2)]] active_xid_inv [OF assms(1)] assms(1)
  by (auto intro: active_xids)

lemma delete_owned_good:
  assumes "active d" and "lookup_cookie_entry_by_cookie (cookies d) c = Some a"
  shows "good d (bnd (delete_cookie_entry a (cookies d)) (\<lambda>t. Ok (v, d\<lparr>cookies := t\<rparr>)))"
  using delete_cookie_entry_ok [OF _ assms(2)] active_cookie_inv [OF assms(1)] assms(1)
  by (auto intro: active_cookies)

lemma send_transaction_reply_good:
  assumes a: "active d"
  shows "good d (send_transaction_reply buf d)"
  unfolding send_transaction_reply_def Let_def
proof (rule good_bnd_value)
  fix x
  show "good d (case lookup_xid_entry (xids d) x of None \<Rightarrow> Ok (-1, d)
     | Some e \<Rightarrow> bnd (wr 4 (put32 (xe_original_xid e)) buf) (\<lambda>buf.
         bnd (delete_xid_entry e (xids (service_send_to_reply (Some (xe_service_name e)) MESSENGER_OPENFLOW_MESSAGE
               (Some (sw_datapath_id d)) (Some buf) d)))
           (\<lambda>t. Ok (0, service_send_to_reply (Some (xe_service_name e)) MESSENGER_OPENFLOW_MESSAGE
               (Some (sw_datapath_id d)) (Some buf) d\<lparr>xids := t\<rparr>))))"
  proof (cases "lookup_xid_entry (xids d) x")
    case (Some e)
    show ?thesis unfolding Some option.case
      by (rule good_bnd_value, rule good_step [OF _ service_send_good(4)], simp add: a,
          rule delete_pending_good [of _ x]) (use a Some in simp_all)
  qed (simp add: a)
qed

lemma reply_and_return_good: "active d \<Longrightarrow> good d (reply_and_return buf d)"
  unfolding reply_and_return_def by (rule good_bnd [OF send_transaction_reply_good]) auto


text \<open>Each message from the switch.\<close>

lemma active_timeout:
  "active d \<Longrightarrow> active (switch_unset_timeout Echo_reply_timeout d)"
  by (auto simp: active_def tables_ok_def opened_def timeout_pending_def switch_unset_timeout_def in_set_remove1)

lemma advances_timeout [simp]:
  "advances d (switch_unset_timeout k d)" "advances d (switch_set_timeout k d)"
  by (auto simp: advances_def switch_unset_timeout_def switch_set_timeout_def)

lemma recv_echoreply_good: "active d \<Longrightarrow> good d (ofpmsg_recv_echoreply buf d)"
  unfolding ofpmsg_recv_echoreply_def switch_event_recv_echoreply_def
  by (rule good_bnd) (auto intro!: good_bnd_value reply_and_return_good active_timeout)

lemma translate_flow_mod_error_good:
  assumes a: "active d" and r: "translate_flow_mod_error buf len d = Ok (Some (buf', d'))"
  shows "active d' \<and> advances d d'"
proof -
  have "active (d\<lparr>cookies := t\<rparr>)" if "lookup_cookie_entry_by_cookie (cookies d) c = Some a" "delete_cookie_entry a (cookies d) = Ok t" for c a t
    using delete_owned_good [OF a that(1)] that(2) by simp
  then show ?thesis
    using r a unfolding translate_flow_mod_error_def Let_def
    by (auto simp: bnd_eq_Ok split: if_splits option.splits)
qed

lemma recv_error_good:
  assumes a: "active d"
  shows "good d (ofpmsg_recv_error buf d)"
proof -
  have "good d (case r of None \<Rightarrow> Ok (0, d) | Some (buf, d) \<Rightarrow> reply_and_return buf d)"
    if "translate_flow_mod_error buf len d = Ok r" for len r
  proof (cases r)
    case (Some p)
    obtain buf' d' where p: "p = (buf', d')" by (cases p)
    then have "active d'" "advances d d'" using translate_flow_mod_error_good [OF a] that Some by auto
    then show ?thesis using Some p by (auto intro: good_step [OF _ _ reply_and_return_good])
  qed (simp add: a)
  then show ?thesis
    unfolding ofpmsg_recv_error_def Let_def
    by (auto intro!: good_bnd_value reply_and_return_good simp: a)
qed

lemma recv_flowremoved_good:
  assumes a: "active d"
  shows "good d (ofpmsg_recv_flowremoved buf d)"
proof -
  have removed: "good d (bnd (if b then bnd (wr 48 bs buf) (\<lambda>buf. Ok (service_send_to_reply n tag dp (Some buf) d)) else Ok d) (\<lambda>d.
      bnd (delete_cookie_entry p (cookies d)) (\<lambda>t. Ok (0 :: int, d\<lparr>cookies := t\<rparr>))))"
    if "lookup_cookie_entry_by_cookie (cookies d) c = Some p" for b bs n tag dp p c
  proof (rule good_bnd_value)
    fix d' assume "(if b then bnd (wr 48 bs buf) (\<lambda>buf. Ok (service_send_to_reply n tag dp (Some buf) d)) else Ok d) = Ok d'"
    then have "active d' \<and> advances d d' \<and> cookies d' = cookies d" using a by (auto simp: bnd_eq_Ok split: if_splits)
    then show "good d (bnd (delete_cookie_entry p (cookies d')) (\<lambda>t. Ok (0 :: int, d'\<lparr>cookies := t\<rparr>)))"
      using good_step [OF _ _ delete_owned_good [of d' c p "0 :: int"]] that by simp
  qed
  show ?thesis
    unfolding ofpmsg_recv_flowremoved_def
    by (rule good_bnd_value)
      (auto intro!: good_bnd_value [where r = "deref_entry t p" for t p] removed split: option.split simp: a)
qed

lemma recv_statsreply_good:
  assumes a: "active d"
  shows "good d (ofpmsg_recv_statsreply fuel buf d)"
proof -
  have stat: "good d (bnd (rd16 buf 10) (\<lambda>flags.
      if flags AND OFPSF_REPLY_MORE = 0
      then bnd (delete_xid_entry e (xids (service_send_to_reply n tag dp data d)))
             (\<lambda>t. Ok (0 :: int, service_send_to_reply n tag dp data d\<lparr>xids := t\<rparr>))
      else Ok (0 :: int, service_send_to_reply n tag dp data d)))"
    if "lookup_xid_entry (xids d) x = Some e" for e x n tag dp data buf
  proof (rule good_bnd_value)
    fix flags
    have "good (service_send_to_reply n tag dp data d) (bnd (delete_xid_entry e (xids (service_send_to_reply n tag dp data d)))
             (\<lambda>t. Ok (0 :: int, service_send_to_reply n tag dp data d\<lparr>xids := t\<rparr>)))"
      by (rule delete_pending_good [of _ x]) (use a that in simp_all)
    then have "good d (bnd (delete_xid_entry e (xids (service_send_to_reply n tag dp data d)))
             (\<lambda>t. Ok (0 :: int, service_send_to_reply n tag dp data d\<lparr>xids := t\<rparr>)))"
      using good_step [OF _ service_send_good(4)] a by (metis service_send_good(3))
    then show "good d (if flags AND OFPSF_REPLY_MORE = 0
      then bnd (delete_xid_entry e (xids (service_send_to_reply n tag dp data d)))
             (\<lambda>t. Ok (0 :: int, service_send_to_reply n tag dp data d\<lparr>xids := t\<rparr>))
      else Ok (0 :: int, service_send_to_reply n tag dp data d))"
      using a by simp
  qed
  show ?thesis
    unfolding ofpmsg_recv_statsreply_def Let_def
    by (rule good_bnd_value, rule good_bnd_value, rule good_bnd_value)
      (auto intro!: good_bnd_value [where r = "wr i bs m" for i bs m] stat split: option.split simp: a)
qed

text \<open>The hello and the features reply move the session on.\<close>

lemma next_state_good:
  assumes "active d" and "rank (sw_state d) \<le> rank st" "st \<noteq> SWITCH_STATE_DISCONNECTED"
    and "st = SWITCH_STATE_WAIT_HELLO \<longrightarrow> k = Timeout_hello"
    and "st = SWITCH_STATE_WAIT_FEATURES_REPLY \<longrightarrow> k = Timeout_features_reply"
  shows "active (switch_set_timeout k (d\<lparr>sw_state := st\<rparr>))" "advances d (switch_set_timeout k (d\<lparr>sw_state := st\<rparr>))"
  using assms by (auto simp: active_def tables_ok_def opened_def timeout_pending_def switch_set_timeout_def advances_def)

text \<open>While a handler is between two states, only the timeout may be missing.\<close>

definition between :: "daemon \<Rightarrow> bool" where
  "between d \<longleftrightarrow> tables_ok d \<and> opened d"

lemma active_between: "active d \<longleftrightarrow> between d \<and> timeout_pending d \<and> sw_state d \<noteq> SWITCH_STATE_DISCONNECTED"
  by (auto simp: active_def between_def)

text \<open>A message the daemon sends by itself: it is queued, and nothing else of the session changes.\<close>

lemma with_xid_between:
  assumes "between d" and "with_xid create d = Ok (ret, d')"
  shows "ret = 0" and "between d'" and "sw_state d' = sw_state d" and "outbox d' = outbox d"
proof -
  let ?d = "d\<lparr>sw_state := SWITCH_STATE_COMPLETED\<rparr>"
  have a: "active ?d" using assms(1)
    by (simp add: active_def between_def tables_ok_def opened_def timeout_pending_def)
  obtain x t where x: "generate_xid (xids d) = (x, t)" by (cases "generate_xid (xids d)")
  obtain buf q w where b: "create x = Ok buf" "send_to_secure_channel buf (send_queue d) (writable d) = Ok (ret, q, w)"
    "d' = d\<lparr>xids := t, send_queue := q, writable := w\<rparr>"
    using assms(2) by (auto simp: with_xid_def x bnd_eq_Ok send_message_to_switch_def)
  have "with_xid create ?d = Ok (ret, ?d\<lparr>xids := t, send_queue := q, writable := w\<rparr>)"
    using b by (simp add: with_xid_def x send_message_to_switch_def)
  then have r: "ret = 0" "active (?d\<lparr>xids := t, send_queue := q, writable := w\<rparr>)"
    using with_xid_good [OF a, of create] by (auto simp: good_def)
  then show "ret = 0" "between d'" "sw_state d' = sw_state d" "outbox d' = outbox d"
    using b(3) by (simp_all add: active_def between_def tables_ok_def opened_def)
qed

lemma recv_hello_good:
  assumes a: "active d"
  shows "good d (switch_event_recv_hello d)"
proof (cases "sw_state d = SWITCH_STATE_WAIT_HELLO")
  case True
  let ?u = "switch_unset_timeout Timeout_hello d"
  have u: "between ?u" "sw_state ?u = SWITCH_STATE_WAIT_HELLO" "outbox ?u = outbox d"
    using a True by (auto simp: active_between between_def tables_ok_def opened_def switch_unset_timeout_def)
  have "active v' \<and> advances d v'"
    if run: "switch_event_recv_hello d = Ok (v, v')" for v v'
  proof -
    let ?deny = "if deny_packet_in_on_startup ?u then ofpmsg_send_deny_all ?u else Ok (0, ?u)"
    let ?request = "\<lambda>(ret, d). if ret < 0 then Ok (ret, d) else bnd (ofpmsg_send_featuresrequest d) (\<lambda>(ret, d).
             if ret < 0 then Ok (ret, d)
             else Ok (0, switch_set_timeout Timeout_features_reply (d\<lparr>sw_state := SWITCH_STATE_WAIT_FEATURES_REPLY\<rparr>)))"
    have "bnd ?deny ?request = Ok (v, v')"
      using run unfolding switch_event_recv_hello_def if_P [OF True] Let_def .
    then obtain p where p: "?deny = Ok p" "?request p = Ok (v, v')"
      unfolding bnd_eq_Ok by (elim exE conjE)
    obtain r1 d1 where "p = (r1, d1)" by (cases p)
    then have d1: "?deny = Ok (r1, d1)" and rest: "?request (r1, d1) = Ok (v, v')" using p by (simp_all only:)
    have b1: "r1 = 0" "between d1" "sw_state d1 = SWITCH_STATE_WAIT_HELLO" "outbox d1 = outbox d"
    proof -
      have "(r1 = 0 \<and> d1 = ?u) \<or> (\<exists>create. with_xid create ?u = Ok (r1, d1))"
        using d1 by (auto simp: ofpmsg_send_deny_all_def split: if_splits)
      then show "r1 = 0" "between d1" "sw_state d1 = SWITCH_STATE_WAIT_HELLO" "outbox d1 = outbox d"
        using u with_xid_between [OF u(1)] by auto
    qed
    then obtain r2 d2 where d2: "ofpmsg_send_featuresrequest d1 = Ok (r2, d2)"
      using rest by (auto simp: bnd_eq_Ok)
    have b2: "r2 = 0" "between d2" "outbox d2 = outbox d"
      using with_xid_between [OF b1(2) d2 [unfolded ofpmsg_send_featuresrequest_def]] b1(4) by auto
    then have "v' = switch_set_timeout Timeout_features_reply (d2\<lparr>sw_state := SWITCH_STATE_WAIT_FEATURES_REPLY\<rparr>)"
      using rest d2 b1(1) by simp
    then show ?thesis using b2 True
      by (simp add: active_between between_def tables_ok_def opened_def timeout_pending_def switch_set_timeout_def advances_def)
  qed
  then show ?thesis by (simp add: good_def)
next
  case False
  then show ?thesis using a by (simp add: switch_event_recv_hello_def)
qed

lemma recv_featuresreply_event_good:
  assumes a: "active d"
  shows "good d (switch_event_recv_featuresreply ev dpid d)"
proof (cases "sw_state d = SWITCH_STATE_WAIT_FEATURES_REPLY")
  case True
  let ?u = "switch_unset_timeout Timeout_features_reply (d\<lparr>sw_datapath_id := dpid, sw_state := SWITCH_STATE_COMPLETED\<rparr>)"
  have u: "active ?u" "advances d ?u"
    using a True by (auto simp: active_def tables_ok_def opened_def timeout_pending_def advances_def switch_unset_timeout_def)
  have "good ?u (bnd (ofpmsg_send_setconfig (?u\<lparr>trema_name := n\<rparr>)) (\<lambda>(ret, d).
      if ret < 0 then Ok (ret, d)
      else bnd (if flow_cleanup d then ofpmsg_send_delete_all_flows d else Ok (0, d)) (\<lambda>(ret, d).
      if ret < 0 then Ok (ret, d)
      else let d = service_send_to_application [SWITCH_MANAGER] MESSENGER_OPENFLOW_READY (Some (sw_datapath_id d)) None d;
               (sent, d) = send_efi_switch_list_request ev d
           in Ok (if sent then 0 else -1, d))))" for n
  proof (rule good_step [of "?u\<lparr>trema_name := n\<rparr>"])
    have finish: "good e (case send_efi_switch_list_request ev
          (service_send_to_application l tag dp data e) of (sent, d) \<Rightarrow> Ok (if sent then 0 else -1 :: int, d))"
      if "active e" for e l tag dp data
      using that service_send_good(2) [of e l tag dp data]
      by (auto simp: send_efi_switch_list_request_def advances_def)
    show "good (?u\<lparr>trema_name := n\<rparr>) (bnd (ofpmsg_send_setconfig (?u\<lparr>trema_name := n\<rparr>)) (\<lambda>(ret, d).
      if ret < 0 then Ok (ret, d)
      else bnd (if flow_cleanup d then ofpmsg_send_delete_all_flows d else Ok (0, d)) (\<lambda>(ret, d).
      if ret < 0 then Ok (ret, d)
      else let d = service_send_to_application [SWITCH_MANAGER] MESSENGER_OPENFLOW_READY (Some (sw_datapath_id d)) None d;
               (sent, d) = send_efi_switch_list_request ev d
           in Ok (if sent then 0 else -1, d))))"
      by (rule good_bnd, use u(1) in \<open>simp add: ofpmsg_send_defs with_xid_good(1)\<close>)
        (auto intro!: good_bnd finish simp: ofpmsg_send_defs with_xid_good(1))
  qed (use u(1) in \<open>simp_all add: advances_def\<close>)
  then show ?thesis
    using True u good_step [OF u] by (auto simp: switch_event_recv_featuresreply_def Let_def)
next
  case False
  then show ?thesis using a by (auto simp: switch_event_recv_featuresreply_def split: switch_state.split)
qed

lemma ofpmsg_recv_good:
  assumes a: "active d"
  shows "good d (ofpmsg_recv fuel ev buf d)"
proof -
  have feat: "good d (ofpmsg_recv_featuresreply ev buf d)"
    unfolding ofpmsg_recv_featuresreply_def
    by (rule good_bnd_value, rule good_bnd [OF recv_featuresreply_event_good [OF a]]) (auto intro: reply_and_return_good)
  have echo: "good d (ofpmsg_recv_echorequest buf d)"
    unfolding ofpmsg_recv_echorequest_def ofpmsg_send_echoreply_def
    by (intro good_assert good_bnd_value send_message_good(1) a)
  have err: "good d (bnd (get_error_type_and_code type ret) (\<lambda>found.
      let (error_type, error_code) = (case found of None \<Rightarrow> (OFPET_BAD_REQUEST, OFPBRC_BAD_TYPE) | Some tc \<Rightarrow> tc)
      in bnd (ofpmsg_send_error_msg error_type error_code buf d) (\<lambda>(_, d). Ok (-1 :: int, d))))" for type ret
    unfolding Let_def case_prod_beta ofpmsg_send_error_msg_def
    by (rule good_bnd_value, rule good_bnd [OF with_xid_good(1) [OF a]]) simp
  show ?thesis
    unfolding ofpmsg_recv_def
    by (rule good_bnd_value, rule good_bnd_value, intro good_if err)
      (simp_all add: a feat echo recv_hello_good ofpmsg_recv_hello_def recv_error_good recv_echoreply_good
        ofpmsg_recv_vendor_def ofpmsg_recv_getconfigreply_def reply_and_return_good ofpmsg_recv_packetin_def
        recv_flowremoved_good ofpmsg_recv_portstatus_def recv_statsreply_good ofpmsg_recv_barrierreply_def
        ofpmsg_recv_queue_getconfigreply_def)
qed

section \<open>Every step preserves the invariant\<close>

text \<open>
  \<open>kept d r\<close>: if the step returns, the invariant holds and the session has not gone back.
\<close>

definition kept :: "daemon \<Rightarrow> daemon res \<Rightarrow> bool" where
  "kept d r \<longleftrightarrow> (\<forall>d'. r = Ok d' \<longrightarrow> session_inv d' \<and> advances d d')"

lemma active_session: "active d \<Longrightarrow> session_inv d"
  by (simp add: active_def session_inv_def)

lemma running_active: "session_inv d \<Longrightarrow> running d \<Longrightarrow> active d"
  by (auto simp: active_def session_inv_def closed_def split: if_splits)

lemma kept_Ok [simp]: "kept d (Ok d') \<longleftrightarrow> session_inv d' \<and> advances d d'"
  by (simp add: kept_def)

lemma kept_bnd:
  "good d r \<Longrightarrow> (\<And>v d'. active d' \<Longrightarrow> kept d' (f (v, d'))) \<Longrightarrow> kept d (bnd r f)"
  unfolding good_def kept_def by (cases r) (auto, (metis advances_trans)+)

lemma kept_bnd_value: "(\<And>x. r = Ok x \<Longrightarrow> kept d (f x)) \<Longrightarrow> kept d (bnd r f)"
  by (cases r) (auto simp: kept_def)

lemma kept_assert: "(b \<Longrightarrow> kept d r) \<Longrightarrow> kept d (assert_then b r)"
  by (simp add: assert_then_def kept_def)

lemma kept_if: "(b \<Longrightarrow> kept d x) \<Longrightarrow> (\<not> b \<Longrightarrow> kept d y) \<Longrightarrow> kept d (if b then x else y)"
  by simp

lemma kept_step: "advances d d' \<Longrightarrow> kept d' r \<Longrightarrow> kept d r"
  unfolding kept_def using advances_trans by metis

lemma disconnected_inv:
  assumes "tables_ok d" and "0 \<le> secure_channel_fd d"
  shows "session_inv (switch_event_disconnected d)"
  using assms
  by (auto simp: switch_event_disconnected_def Let_def session_inv_def tables_ok_def timeout_pending_def
      closed_def service_send_state_def service_send_to_application_def)

lemma disconnected_advances: "advances d (switch_event_disconnected d)"
proof -
  have r: "rank x \<le> 4" for x by (cases x) auto
  show ?thesis
    by (auto simp: switch_event_disconnected_def Let_def advances_def service_send_state_def r
        service_send_to_application_def)
qed

lemma active_disconnect:
  "active d \<Longrightarrow> session_inv (switch_event_disconnected d) \<and> advances d (switch_event_disconnected d)"
  using disconnected_inv disconnected_advances by (simp add: active_def opened_def)

lemma handle_messages_loop_good:
  assumes "active d"
  shows "good d (handle_messages_loop n fuel ev d errors)"
  using assms
proof (induction n arbitrary: d errors)
  case (Suc n)
  obtain q where q: "recv_queue d = Some q" "mq_inv q" using Suc.prems by (auto simp: active_def opened_def recv_ok_def)
  obtain m q' where m: "dequeue_message q = (m, q')" by (cases "dequeue_message q")
  have "mq_inv q'" using mq.inv_deq [OF q(2)] m by simp
  then have a: "active (d\<lparr>recv_queue := Some q'\<rparr>)" "advances d (d\<lparr>recv_queue := Some q'\<rparr>)"
    using Suc.prems by (auto simp: active_def opened_def recv_ok_def tables_ok_def timeout_pending_def advances_def)
  show ?case
  proof (cases m)
    case None
    then show ?thesis using q m a by simp
  next
    case (Some message)
    have "good (d\<lparr>recv_queue := Some q'\<rparr>) (bnd (ofpmsg_recv fuel ev message (d\<lparr>recv_queue := Some q'\<rparr>)) (\<lambda>(ret, d).
               handle_messages_loop n fuel ev d (if ret < 0 then errors + 1 else errors)))"
      by (rule good_bnd [OF ofpmsg_recv_good [OF a(1)]]) (simp add: Suc.IH)
    then show ?thesis using q m Some good_step [OF a] by simp
  qed
qed simp

lemma handle_messages_good: "active d \<Longrightarrow> good d (handle_messages_from_secure_channel fuel ev d)"
  unfolding handle_messages_from_secure_channel_def
  by (rule good_assert, rule good_bnd [OF handle_messages_loop_good]) auto

lemma frame_loop_inv:
  assumes "frame_loop frag q = Ok (frag', q', e)" and "mq_inv q"
  shows "mq_inv q'"
  using assms
proof (induction frag q rule: frame_loop.induct)
  case (1 frag q)
  note IH = 1(1) and run = 1(2) and inv = 1(3)
  show ?case
    using run inv mq.inv_enq [OF inv]
    unfolding frame_loop.simps [of frag q]
    by (auto simp: bnd_eq_Ok assert_then_def simp del: rd_in split: if_splits intro: IH)
qed

lemma recv_queue_inv:
  assumes "recv_from_secure_channel r frag (Some q) = Ok (ret, frag', oq, e)" and "mq_inv q"
  shows "\<exists>q'. oq = Some q' \<and> mq_inv q'"
  using assms frame_loop_inv
  by (auto simp: recv_from_secure_channel_def assert_then_def Let_def bnd_eq_Ok split: if_splits read_result.splits)

lemma after_read_kept:
  assumes a: "active d"
  shows "kept d (if ret < 0 then Ok (switch_event_disconnected d)
     else if mq_length q > 0 then
       bnd (handle_messages_from_secure_channel fuel ev d) (\<lambda>(ret, d). Ok (if ret < 0 then d\<lparr>running := False\<rparr> else d))
     else Ok d)"
proof (intro kept_if)
  show "kept d (bnd (handle_messages_from_secure_channel fuel ev d)
      (\<lambda>(ret, d). Ok (if ret < 0 then d\<lparr>running := False\<rparr> else d)))"
    by (rule kept_bnd [OF handle_messages_good [OF a]]) (auto simp: active_session advances_def)
qed (use active_disconnect [OF a] active_session [OF a] in simp_all)

lemma secure_channel_read_kept:
  assumes a: "active d"
  shows "kept d (secure_channel_read fuel ev r d)"
proof -
  obtain q where q: "recv_queue d = Some q" "mq_inv q" using a by (auto simp: active_def opened_def recv_ok_def)
  show ?thesis
    unfolding secure_channel_read_def q(1)
  proof (rule kept_bnd_value, unfold split_paired_all prod.case Let_def)
    fix ret frag oq e assume rc: "recv_from_secure_channel r (fragment_buf d) (Some q) = Ok (ret, frag, oq, e)"
    let ?d = "d\<lparr>fragment_buf := frag, recv_queue := oq\<rparr>"
    obtain q' where "oq = Some q'" "mq_inv q'" using recv_queue_inv [OF rc q(2)] by blast
    then have a1: "active ?d" and adv: "advances d ?d"
      using a by (auto simp: active_def opened_def recv_ok_def tables_ok_def timeout_pending_def advances_def)
    have err: "kept ?d (bnd (bnd (ofpmsg_send_error_msg type code data ?d) (\<lambda>(_, d). Ok d)) f)"
      if "\<And>d. active d \<Longrightarrow> kept d (f d)" for type code data f
      unfolding bnd_assoc ofpmsg_send_error_msg_def Let_def
      by (rule kept_bnd [OF with_xid_good(1) [OF a1]]) (simp add: that)
    show "kept d (bnd (if e = Bad_version
          then bnd (ofpmsg_send_error_msg OFPET_BAD_REQUEST OFPBRC_BAD_VERSION (the frag) ?d) (\<lambda>(_, d). Ok d)
          else Ok ?d) (\<lambda>d.
     if ret < 0 then Ok (switch_event_disconnected d)
     else if mq_length (the oq) > 0 then
       bnd (handle_messages_from_secure_channel fuel ev d) (\<lambda>(ret, d). Ok (if ret < 0 then d\<lparr>running := False\<rparr> else d))
     else Ok d))"
      by (rule kept_step [OF adv]) (simp only: if_distrib [of "\<lambda>r. bnd r f" for f] bnd.simps,
          intro kept_if err after_read_kept a1)
  qed
qed

lemma flush_send_ok:
  assumes "send_ok oq w" and "r \<noteq> Wrote 0" and "flush_secure_channel r fd oq w = Ok (ret, oq', w', bs)" and "\<not> ret < 0"
  shows "send_ok oq' w'"
proof -
  obtain q where q: "oq = Some q" "mq_inv q" "[] \<notin> set (mq_list q)" "mq_list q \<noteq> [] \<longrightarrow> w"
    using assms(1) by (auto simp: send_ok_def)
  let ?iov = "take IOV_MAX (mq_list q)"
  have "concat (mq_list q) = concat ?iov @ concat (drop IOV_MAX (mq_list q))"
    by (metis append_take_drop_id concat_append)
  then have "length (take n (concat ?iov)) \<le> length (concat (mq_list q))" for n
    by (metis length_append length_take min.cobounded1 le_add1 order_trans)
  then have drain: "\<exists>q' w'. drain_loop (Suc (length (mq_elements q))) (length (take n (concat ?iov))) q False = Ok (q', w') \<and>
      mq_inv q' \<and> w' = (mq_list q' \<noteq> []) \<and> [] \<notin> set (mq_list q')" for n
    using drain_loop_ok [OF q(2) _ length_mq_list, of "length (take n (concat ?iov))" False] q(3) by auto
  show ?thesis
  proof (cases r)
    case (Wrote n)
    obtain q' w1 where d: "drain_loop (Suc (length (mq_elements q))) (length (take n (concat ?iov))) q False = Ok (q', w1)"
      "mq_inv q'" "w1 = (mq_list q' \<noteq> [])" "[] \<notin> set (mq_list q')"
      using drain [of n] by (elim exE conjE)
    then show ?thesis using assms(2,3) q Wrote
      by (auto simp: flush_secure_channel_def assert_then_def flush_iov [OF q(2)] send_ok_def IOV_MAX_def Let_def
          simp del: drain_loop.simps split: if_splits)
  qed (use assms(3,4) q in \<open>auto simp: flush_secure_channel_def assert_then_def flush_iov [OF q(2)] send_ok_def
        IOV_MAX_def simp del: drain_loop.simps split: if_splits\<close>)
qed

lemma secure_channel_write_kept:
  assumes a: "active d" and "r \<noteq> Wrote 0"
  shows "kept d (secure_channel_write r d)"
  unfolding kept_def
proof (intro allI impI)
  fix d' assume run: "secure_channel_write r d = Ok d'"
  then obtain ret q w bs where f: "flush_secure_channel r (secure_channel_fd d) (send_queue d) (writable d) = Ok (ret, q, w, bs)"
    and d': "d' = (if ret < 0 then switch_event_disconnected (d\<lparr>send_queue := q, writable := w\<rparr>)
      else d\<lparr>send_queue := q, writable := w\<rparr>)"
    by (auto simp: secure_channel_write_def bnd_eq_Ok Let_def)
  have adv: "advances d (switch_event_disconnected (d\<lparr>send_queue := q, writable := w\<rparr>))"
    using advances_trans [OF advances_simps(4) disconnected_advances] .
  show "session_inv d' \<and> advances d d'"
  proof (cases "ret < 0")
    case True
    then show ?thesis using d' a adv by (auto intro!: disconnected_inv simp: active_def opened_def tables_ok_def)
  next
    case False
    have "send_ok q w" using flush_send_ok [OF _ assms(2) f False] a by (simp add: active_def opened_def)
    then have "active (d\<lparr>send_queue := q, writable := w\<rparr>)"
      using a by (simp add: active_def opened_def tables_ok_def timeout_pending_def)
    then show ?thesis using d' False by (simp add: active_session)
  qed
qed

section \<open>Messages from applications\<close>

lemma insert_cookie_inv:
  assumes inv: "cookie_inv t" and few: "ct_next_address t < 2 ^ 64 - 2"
  shows "\<exists>c t'. insert_cookie_entry original_cookie name flags now t = Ok (c, t') \<and> cookie_inv t'"
proof (cases "lookup_cookie_entry_by_application t original_cookie name")
  case None
  then show ?thesis using free_cookie_exists [OF inv few] insert_new [OF inv None] by blast
next
  case (Some a)
  then show ?thesis using insert_shared [OF inv Some] by blast
qed

lemma update_flowmod_cookie_inv:
  assumes inv: "cookie_inv t" and few: "ct_next_address t < 2 ^ 64 - 2"
    and run: "update_flowmod_cookie now buf name t = Ok (ret, buf', t')"
  shows "cookie_inv t'"
proof -
  have ins: "cookie_inv t'" if "insert_cookie_entry c name flags now t = Ok (x, t')" for c flags x
    using insert_cookie_inv [OF inv few, of c name flags now] that by auto
  show ?thesis
    using run inv
    by (auto simp: update_flowmod_cookie_def bnd_eq_Ok simp del: rd_in wrs.simps
        split: if_splits option.splits dest: ins)
qed

lemma ofpmsg_send_good:
  assumes a: "active d" and few: "few_allocations d"
  shows "good d (ofpmsg_send ev buf name d)"
proof -
  have translate: "good d (bnd (update_flowmod_cookie now m name (cookies d)) (\<lambda>(ret, m', t).
      if ret < 0 then Ok (ret, d\<lparr>cookies := t\<rparr>) else send_message_to_switch m' (d\<lparr>cookies := t\<rparr>)))"
    if a: "active d" "few_allocations d" for d m now
  proof (rule good_bnd_value, unfold split_paired_all prod.case)
    fix ret m' t assume "update_flowmod_cookie now m name (cookies d) = Ok (ret, m', t)"
    then have "cookie_inv t"
      using update_flowmod_cookie_inv [OF active_cookie_inv [OF a(1)]] a(2) unfolding few_allocations_def by blast
    then have "active (d\<lparr>cookies := t\<rparr>)" by (rule active_cookies [OF a(1)])
    then show "good d (if ret < 0 then Ok (ret, d\<lparr>cookies := t\<rparr>) else send_message_to_switch m' (d\<lparr>cookies := t\<rparr>))"
      by (auto intro: good_step [OF _ advances_simps(2)] send_message_good(1))
  qed
  show ?thesis
    unfolding ofpmsg_send_def
  proof (rule good_bnd_value, rule good_bnd_value, unfold split_paired_all prod.case Let_def)
    fix xid x t assume "insert_xid_entry xid name (xids d) = Ok (x, t)"
    then have "xid_inv t" using insert_xid_entry_ok [OF active_xid_inv [OF a], of xid name] by auto
    then have a1: "active (d\<lparr>xids := t\<rparr>)" by (rule active_xids [OF a])
    have f1: "few_allocations (d\<lparr>xids := t\<rparr>)" using few by (simp add: few_allocations_def)
    show "good d (bnd (wr 4 (put32 x) buf) (\<lambda>buf. bnd (rd8 buf 1) (\<lambda>type.
        if type = OFPT_FLOW_MOD \<and> cookie_translation (d\<lparr>xids := t\<rparr>) then
          bnd (update_flowmod_cookie (env_now ev) buf name (cookies (d\<lparr>xids := t\<rparr>))) (\<lambda>(ret, buf, s).
          if ret < 0 then Ok (ret, d\<lparr>xids := t\<rparr>\<lparr>cookies := s\<rparr>)
          else send_message_to_switch buf (d\<lparr>xids := t\<rparr>\<lparr>cookies := s\<rparr>))
        else send_message_to_switch buf (d\<lparr>xids := t\<rparr>))))"
      by (rule good_step [OF a1 advances_simps(1)], intro good_bnd_value good_if translate send_message_good(1) a1 f1)
  qed
qed

lemma service_recv_kept:
  assumes a: "active d" and few: "few_allocations d"
  shows "kept d (service_recv fuel ev tag data d)"
proof -
  have [simp]: "session_inv d" by (rule active_session [OF a])
  have msg: "kept d (handle_openflow_message fuel ev dpid name buf d)" for dpid name buf
    unfolding handle_openflow_message_def switch_event_recv_from_application_def
    by (intro kept_bnd_value kept_if kept_bnd [where d = d] good_if ofpmsg_send_good a few)
      (auto simp: active_session a)
  have disc: "kept d (Ok (handle_openflow_disconnect_request dpid d))" for dpid
    using active_disconnect [OF a]
    by (auto simp: handle_openflow_disconnect_request_def switch_event_disconnect_request_def)
  show ?thesis
    unfolding service_recv_def service_recv_from_application_def Let_def
    by (intro kept_assert kept_if kept_bnd_value msg disc) simp_all
qed

section \<open>Management requests, timers and the start\<close>

lemma forward_operation_kept:
  assumes a: "active d"
  shows "kept d (management_event_forward_entry_operation command data d)"
  unfolding management_event_forward_entry_operation_def Let_def send_management_reply_def
  by (intro kept_bnd_value kept_if) (simp_all add: active_session a advances_def)

lemma active_timers:
  assumes "active d" and "timeout_pending (d\<lparr>timers := ts\<rparr>)"
  shows "active (d\<lparr>timers := ts\<rparr>)" "advances d (d\<lparr>timers := ts\<rparr>)"
  using assms by (simp_all add: active_def opened_def tables_ok_def advances_def)

lemma management_recv_kept:
  assumes a: "active d"
  shows "kept d (management_recv command data d)"
proof -
  have "timeout_pending d" using a by (simp add: active_def)
  then have "active (d\<lparr>timers := remove1 Age_cookie_table (timers d)\<rparr>)"
    "active (d\<lparr>timers := timers d @ [Age_cookie_table]\<rparr>)"
    by (intro active_timers [OF a], auto simp: timeout_pending_def)+
  then show ?thesis
    unfolding management_recv_def send_management_reply_def
    by (intro kept_if forward_operation_kept a) (auto simp: active_session a advances_def)
qed

lemma removed_timer:
  assumes a: "active d"
    and "sw_state d = SWITCH_STATE_WAIT_HELLO \<Longrightarrow> k \<noteq> Timeout_hello"
    and "sw_state d = SWITCH_STATE_WAIT_FEATURES_REPLY \<Longrightarrow> k \<noteq> Timeout_features_reply"
  shows "active (d\<lparr>timers := remove1 k (timers d)\<rparr>)"
  using assms(1) by (intro active_timers) (use assms in \<open>auto simp: active_def timeout_pending_def\<close>)

lemma timer_disconnects:
  assumes "active d"
  shows "session_inv (switch_event_disconnected (d\<lparr>timers := ts, running_timer := b\<rparr>))"
    "advances d (switch_event_disconnected (d\<lparr>timers := ts, running_timer := b\<rparr>))"
    "session_inv (switch_event_disconnected (d\<lparr>timers := ts\<rparr>))"
    "advances d (switch_event_disconnected (d\<lparr>timers := ts\<rparr>))"
proof -
  have "advances d (d\<lparr>timers := ts, running_timer := b\<rparr>)" "advances d (d\<lparr>timers := ts\<rparr>)"
    by (simp_all add: advances_def)
  then show "advances d (switch_event_disconnected (d\<lparr>timers := ts, running_timer := b\<rparr>))"
    "advances d (switch_event_disconnected (d\<lparr>timers := ts\<rparr>))"
    using advances_trans [OF _ disconnected_advances] by blast+
qed (use assms in \<open>auto intro!: disconnected_inv simp: active_def opened_def tables_ok_def\<close>)

lemma echo_request_kept:
  assumes a: "active d"
  shows "kept d (echo_request_interval ev d)"
proof -
  obtain x t where x: "generate_xid (xids d) = (x, t)" by (cases "generate_xid (xids d)")
  have "xid_inv t" using generate_xid_free [OF x] active_xid_inv [OF a] by simp
  then have a1: "active (d\<lparr>xids := t, echo_request_xid := x\<rparr>)"
    "advances d (d\<lparr>xids := t, echo_request_xid := x\<rparr>)"
    using active_xids [OF a] by (simp_all add: advances_def)
  have sent: "kept e (if err < 0 then Ok (switch_event_disconnected e) else Ok (switch_set_timeout Echo_reply_timeout e))"
    if "active e" for e and err :: int
    using active_disconnect [OF that] that
    by (auto simp: switch_set_timeout_def advances_def active_def timeout_pending_def opened_def tables_ok_def
        intro!: active_session)
  show ?thesis
    unfolding echo_request_interval_def x Let_def prod.case ofpmsg_send_echorequest_def
    by (rule kept_step [OF a1(2)], rule kept_bnd, intro good_bnd_value send_message_good(1) a1(1))
      (simp only: prod.case sent)
qed

lemma fire_timer_kept:
  assumes a: "active d"
  shows "kept d (fire_timer ev iter k d)"
proof (cases k)
  case Timeout_hello
  have "active (d\<lparr>timers := remove1 Timeout_hello (timers d)\<rparr>)" if "sw_state d \<noteq> SWITCH_STATE_WAIT_HELLO"
    using removed_timer [OF a, of Timeout_hello] that by simp
  then show ?thesis
    using Timeout_hello timer_disconnects [OF a]
    by (auto simp: fire_timer_def switch_event_timeout_hello_def active_session advances_def)
next
  case Timeout_features_reply
  have "active (d\<lparr>timers := remove1 Timeout_features_reply (timers d)\<rparr>)"
    if "sw_state d \<noteq> SWITCH_STATE_WAIT_FEATURES_REPLY"
    using removed_timer [OF a, of Timeout_features_reply] that by simp
  then show ?thesis
    using Timeout_features_reply timer_disconnects [OF a]
    by (auto simp: fire_timer_def switch_event_timeout_features_reply_def active_session advances_def)
next
  case Age_cookie_table
  obtain t' where "age_cookie_table (Suc (length (hash_entries (ct_global (cookies d))))) (env_now ev) iter (cookies d) = Ok t'"
    "cookie_inv t'"
    using age_cookie_table_ok [OF active_cookie_inv [OF a] lessI] by blast
  then show ?thesis using Age_cookie_table a by (simp add: fire_timer_def active_session active_cookies)
qed (use timer_disconnects [OF a] echo_request_kept [OF a] in \<open>simp_all add: fire_timer_def echo_reply_timeout_def\<close>)

lemma confirm_kept:
  assumes a: "active d"
  shows "kept d (Ok (confirm_self_dpid_is_registerd ev ds (d\<lparr>efi_requests := n\<rparr>)))"
  using a
  by (auto simp: confirm_self_dpid_is_registerd_def notify_state_to_controllers_def send_efi_switch_list_request_def
      service_send_state_def service_send_to_application_def Let_def advances_def active_def opened_def tables_ok_def
      timeout_pending_def intro!: active_session)

lemma daemon_step_kept:
  assumes "daemon_step d d'" and "session_inv d"
  shows "session_inv d' \<and> advances d d'"
  using assms
proof cases
  case Readable
  then show ?thesis using secure_channel_read_kept running_active [OF assms(2)] unfolding kept_def by blast
next
  case Writable
  then show ?thesis using secure_channel_write_kept running_active [OF assms(2)] unfolding kept_def by blast
next
  case Application
  then show ?thesis using service_recv_kept running_active [OF assms(2)] unfolding kept_def by blast
next
  case Management
  then show ?thesis using management_recv_kept running_active [OF assms(2)] unfolding kept_def by blast
next
  case Timer
  then show ?thesis using fire_timer_kept running_active [OF assms(2)] unfolding kept_def by blast
next
  case Switch_list
  then show ?thesis using confirm_kept running_active [OF assms(2)] unfolding kept_def by blast
next
  case Terminate
  then show ?thesis using active_disconnect running_active [OF assms(2)] by blast
qed

lemma start_inv:
  assumes "0 \<le> fd"
    and "switch_event_connected (start_switch_daemon fd cleanup translation deny vendor packet_in port_status state name) = Ok (r, d)"
  shows "session_inv d" "r = 0" "sw_state d = SWITCH_STATE_WAIT_HELLO" "running d"
proof -
  let ?s = "start_switch_daemon fd cleanup translation deny vendor packet_in port_status state name"
  let ?n = "service_send_state MESSENGER_OPENFLOW_CONNECTED ?s"
  have n: "between ?n"
    using assms(1) init_xid_table_inv init_cookie_inv [of 0]
    by (simp add: between_def tables_ok_def opened_def service_send_state_def service_send_to_application_def Let_def
        start_switch_daemon_def send_ok_def recv_ok_def mq_create)
  from assms(2) obtain r1 d1 where d1: "with_xid create_hello ?n = Ok (r1, d1)"
    and d: "(r, d) = (if r1 < 0 then (r1, d1) else (0, switch_set_timeout Timeout_hello (d1\<lparr>sw_state := SWITCH_STATE_WAIT_HELLO\<rparr>)))"
    by (auto simp: switch_event_connected_def ofpmsg_send_hello_def bnd_eq_Ok split: if_splits)
  note b = with_xid_between [OF n d1]
  have "running d1" using d1
    by (auto simp: with_xid_def bnd_eq_Ok send_message_to_switch_def service_send_state_def start_switch_daemon_def
        service_send_to_application_def split: prod.splits)
  then show "r = 0" "sw_state d = SWITCH_STATE_WAIT_HELLO" "running d" "session_inv d"
    using d b
    by (auto simp: switch_set_timeout_def session_inv_def between_def tables_ok_def opened_def timeout_pending_def)
qed

lemma daemon_reachable_inv: "daemon_reachable d \<Longrightarrow> session_inv d"
  by (induction rule: daemon_reachable.induct) (use start_inv(1) daemon_step_kept in blast)+

end
