(* ===== verification/Switch_Roundtrip.thy ===== *)
theory Switch_Roundtrip
  imports Switch_Invariant Ofm_Valid_Create
begin

text \<open>
  What the switch daemon does end to end: a request of an application goes to the switch under an id
  of the daemon and the reply comes back under the id of the application; a flow goes to the switch
  with a cookie of the daemon and its removal is reported with the cookie of the application; and the
  messages that end the daemon.
\<close>

section \<open>A request and its reply\<close>

lemma send_message_queued:
  assumes "active d" and "buf \<noteq> []"
  obtains q q' where "send_queue d = Some q" "mq_inv q" "mq_inv q'" "mq_list q' = mq_list q @ [buf]"
    "send_message_to_switch buf d = Ok (0, d\<lparr>send_queue := Some q', writable := True\<rparr>)"
proof -
  obtain q where q: "send_queue d = Some q" "mq_inv q"
    using assms(1) by (auto simp: active_def opened_def send_ok_def)
  show thesis
    by (rule that [of q "enqueue_message q buf"])
      (use q assms(2) mq_enqueue [OF q(2)] in \<open>simp_all add: send_message_to_switch_def send_to_secure_channel_def assert_then_def\<close>)
qed

definition queued :: "daemon \<Rightarrow> bytes list" where
  "queued d = (case send_queue d of None \<Rightarrow> [] | Some q \<Rightarrow> mq_list q)"

lemma ofpmsg_send_plain:
  assumes a: "active d" and len: "8 \<le> length buf" and type: "rd8 buf 1 = Ok type"
    and plain: "type \<noteq> OFPT_FLOW_MOD \<or> \<not> cookie_translation d" and xid: "rd32 buf 4 = Ok xid"
  shows "\<exists>x t d'. insert_xid_entry xid name (xids d) = Ok (x, t) \<and> ofpmsg_send ev buf name d = Ok (0, d') \<and>
     queued d' = queued d @ [patch 4 (put32 x) buf] \<and> xids d' = t"
proof -
  obtain x t where x: "insert_xid_entry xid name (xids d) = Ok (x, t)" "xid_inv t"
    using insert_xid_entry_ok [OF active_xid_inv [OF a], of xid name] by auto
  let ?buf = "patch 4 (put32 x) buf"
  have ty: "rd8 ?buf 1 = Ok type" using len type by (simp add: take_drop_patch_before)
  have a1: "active (d\<lparr>xids := t\<rparr>)" by (rule active_xids [OF a x(2)])
  have ne: "?buf \<noteq> []" using len by (auto simp: patch_def)
  obtain q q' where q: "send_queue (d\<lparr>xids := t\<rparr>) = Some q" "mq_list q' = mq_list q @ [?buf]"
    "send_message_to_switch ?buf (d\<lparr>xids := t\<rparr>) = Ok (0, d\<lparr>xids := t\<rparr>\<lparr>send_queue := Some q', writable := True\<rparr>)"
    using send_message_queued [OF a1 ne] by blast
  have wr4: "wr 4 (put32 x) buf = Ok ?buf" using len by simp
  have "ofpmsg_send ev buf name d = send_message_to_switch ?buf (d\<lparr>xids := t\<rparr>)"
    unfolding ofpmsg_send_def xid bnd.simps x(1) prod.case wr4 ty Let_def
    using plain by auto
  then show ?thesis using x(1) q by (simp add: queued_def)
qed

lemma reply_and_return_delivers:
  assumes inv: "xid_inv (xids d)" and e: "lookup_xid_entry (xids d) x = Some e"
    and len: "8 \<le> length reply" and x: "rd32 reply 4 = Ok x"
  shows "\<exists>d'. reply_and_return reply d = Ok (0, d') \<and> lookup_xid_entry (xids d') x = None \<and>
     outbox d' = outbox d @ [(xe_service_name e, MESSENGER_OPENFLOW_MESSAGE,
       create_openflow_application_message (Some (sw_datapath_id d)) (Some (patch 4 (put32 (xe_original_xid e)) reply)))]"
proof -
  have "xe_xid e = x" using agree_lookupD [OF xid_inv_agree [OF inv] e] by simp
  then obtain t where t: "delete_xid_entry e (xids d) = Ok t" "lookup_xid_entry t = (lookup_xid_entry (xids d))(x := None)"
    using delete_xid_entry_ok [OF inv lookup_self [OF inv e]] by auto
  have w: "wr 4 (put32 (xe_original_xid e)) reply = Ok (patch 4 (put32 (xe_original_xid e)) reply)" using len by simp
  show ?thesis
    unfolding reply_and_return_def send_transaction_reply_def x bnd.simps e option.case w Let_def
    by (simp add: service_send_to_reply_def t)
qed

text \<open>The types of reply that are passed on with no other effect.\<close>

definition plain_reply :: "8 word \<Rightarrow> bool" where
  "plain_reply type \<longleftrightarrow> type = OFPT_GET_CONFIG_REPLY \<or> type = OFPT_BARRIER_REPLY \<or> type = OFPT_QUEUE_GET_CONFIG_REPLY"

lemma ofpmsg_recv_plain_reply:
  assumes "validate_openflow_message fuel reply = Ok 0" and "rd8 reply 1 = Ok type" and "plain_reply type"
  shows "ofpmsg_recv fuel ev reply d = reply_and_return reply d"
  using assms(3) unfolding ofpmsg_recv_def assms(1,2) bnd.simps plain_reply_def
  by (auto simp: ofpmsg_recv_getconfigreply_def ofpmsg_recv_barrierreply_def ofpmsg_recv_queue_getconfigreply_def)

lemma pending_reply_delivered:
  assumes inv: "xid_inv t0" and x: "insert_xid_entry xid name t0 = Ok (x, t)" "x \<noteq> 0"
    and opers: "run_xid_ops opers t = Ok (xids d)" "Answer x \<notin> set opers" "requests opers < XID_MAX_ENTRIES"
    and reply: "validate_openflow_message fuel reply = Ok 0" "rd8 reply 1 = Ok type" "plain_reply type" "rd32 reply 4 = Ok x"
  shows "\<exists>d'. ofpmsg_recv fuel ev reply d = Ok (0, d') \<and> outbox d' = outbox d @ [(name, MESSENGER_OPENFLOW_MESSAGE,
     create_openflow_application_message (Some (sw_datapath_id d)) (Some (patch 4 (put32 xid) reply)))]"
proof -
  have "xid_inv t" using insert_xid_entry_ok [OF inv, of xid name] x(1) by auto
  then have inv': "xid_inv (xids d)" using run_xid_ops_inv [of t opers] opers(1) by auto
  obtain e where e: "lookup_xid_entry (xids d) x = Some e" "xe_original_xid e = xid" "xe_service_name e = name"
    using request_pending [OF inv, of xid name] x opers by fastforce
  have "8 \<le> length reply" using reply(4) by (auto simp: rd_def split: if_splits)
  from reply_and_return_delivers [OF inv' e(1) this reply(4)] e(2,3)
  show ?thesis unfolding ofpmsg_recv_plain_reply [OF reply(1-3)] by blast
qed

section \<open>A flow and its removal\<close>

lemma send_flow_rem_or: "flags AND OFPFF_SEND_FLOW_REM \<noteq> 0 \<Longrightarrow> (f OR flags) AND OFPFF_SEND_FLOW_REM \<noteq> (0 :: 16 word)"
  by (simp add: and_one_eq even_or_iff flip: odd_iff_mod_2_eq_one)

lemma insert_cookie_owned:
  assumes inv: "cookie_inv t" and few: "ct_next_address t < 2 ^ 64 - 2"
    and rem: "flags AND OFPFF_SEND_FLOW_REM \<noteq> 0"
  shows "\<exists>k t' e. insert_cookie_entry c name flags now t = Ok (k, t') \<and> cookie_inv t' \<and> legal_cookie k \<and>
     owner t' k = Some e \<and> app_key e = (c, truncated name) \<and> ae_flags (ce_application e) AND OFPFF_SEND_FLOW_REM \<noteq> 0"
proof (cases "lookup_cookie_entry_by_application t c name")
  case None
  then obtain k t' where "insert_cookie_entry c name flags now t = Ok (k, t')" "legal_cookie k" "cookie_inv t'"
    "owner t' = (owner t)(k \<mapsto> new_cookie_entry k c name flags now)"
    using free_cookie_exists [OF inv few] insert_new [OF inv None] by blast
  then show ?thesis using rem by (simp add: new_cookie_entry_def app_key_def)
next
  case (Some a)
  then obtain e t' where e: "insert_cookie_entry c name flags now t = Ok (ce_cookie e, t')"
    "app_key e = (c, truncated name)" "owner t (ce_cookie e) = Some e" "cookie_inv t'"
    "owner t' = (owner t)(ce_cookie e \<mapsto> shared_cookie_entry e flags now)"
    using insert_shared [OF inv Some] by blast
  have "legal_cookie (ce_cookie e)" using owner_entryD [OF inv e(3)] cookie_inv_entryD [OF inv] by blast
  then show ?thesis using e send_flow_rem_or [OF rem] by (simp add: shared_cookie_entry_def app_key_def)
qed

text \<open>What the daemon sends for an added flow.\<close>

definition translated_flow_mod :: "32 word \<Rightarrow> 64 word \<Rightarrow> 16 word \<Rightarrow> bytes \<Rightarrow> bytes" where
  "translated_flow_mod x k flags buf =
     patch 70 (put16 (flags OR OFPFF_SEND_FLOW_REM)) (patch 48 (put64 k) (patch 4 (put32 x) buf))"

lemma ofpmsg_send_flow_add:
  assumes a: "active d" and few: "few_allocations d" and tr: "cookie_translation d" and len: "72 \<le> length buf"
    and f: "rd8 buf 1 = Ok OFPT_FLOW_MOD" "rd32 buf 4 = Ok xid" "rd64 buf 48 = Ok c" "rd16 buf 56 = Ok OFPFC_ADD"
      "rd16 buf 70 = Ok flags"
    and rem: "flags AND OFPFF_SEND_FLOW_REM \<noteq> 0"
  shows "\<exists>x k s d' e. insert_cookie_entry c name flags (env_now ev) (cookies d) = Ok (k, s) \<and>
     ofpmsg_send ev buf name d = Ok (0, d') \<and> queued d' = queued d @ [translated_flow_mod x k flags buf] \<and>
     cookies d' = s \<and> legal_cookie k \<and> owner s k = Some e \<and> app_key e = (c, truncated name) \<and>
     ae_flags (ce_application e) AND OFPFF_SEND_FLOW_REM \<noteq> 0"
proof -
  obtain x t where x: "insert_xid_entry xid name (xids d) = Ok (x, t)" "xid_inv t"
    using insert_xid_entry_ok [OF active_xid_inv [OF a], of xid name] by auto
  obtain k s e where k: "insert_cookie_entry c name flags (env_now ev) (cookies d) = Ok (k, s)" "cookie_inv s"
    "legal_cookie k" "owner s k = Some e" "app_key e = (c, truncated name)"
    "ae_flags (ce_application e) AND OFPFF_SEND_FLOW_REM \<noteq> 0"
    using insert_cookie_owned [OF active_cookie_inv [OF a] _ rem] few unfolding few_allocations_def by blast
  let ?b = "patch 4 (put32 x) buf" and ?m = "translated_flow_mod x k flags buf"
  let ?d = "d\<lparr>xids := t\<rparr>\<lparr>cookies := s\<rparr>"
  have g: "wr 4 (put32 x) buf = Ok ?b" "rd8 ?b 1 = Ok OFPT_FLOW_MOD" "rd16 ?b 56 = Ok OFPFC_ADD"
    "rd16 ?b 70 = Ok flags" "rd64 ?b 48 = Ok c"
    using len f by (simp_all add: take_drop_patch_before take_drop_patch_after)
  have w: "wrs [(48, put64 k), (70, put16 (flags OR OFPFF_SEND_FLOW_REM))] ?b = Ok ?m"
    using len by (simp add: translated_flow_mod_def)
  have u: "update_flowmod_cookie (env_now ev) ?b name (cookies d) = Ok (0, ?m, s)"
    unfolding update_flowmod_cookie_def g bnd.simps k(1) prod.case w by simp
  have "active ?d" using active_cookies [OF active_xids [OF a x(2)] k(2)] .
  moreover have "?m \<noteq> []" by (simp add: translated_flow_mod_def patch_def)
  ultimately obtain q q' where q: "send_queue ?d = Some q" "mq_list q' = mq_list q @ [?m]"
    "send_message_to_switch ?m ?d = Ok (0, ?d\<lparr>send_queue := Some q', writable := True\<rparr>)"
    using send_message_queued by blast
  have "ofpmsg_send ev buf name d = send_message_to_switch ?m ?d"
    unfolding ofpmsg_send_def f(2) bnd.simps x(1) prod.case g Let_def using tr u by simp
  then show ?thesis using k q by (auto simp: queued_def)
qed

lemma flow_removed_delivered:
  assumes inv: "cookie_inv (cookies d)" and tr: "cookie_translation d" and o: "owner (cookies d) k = Some e"
    and legal: "legal_cookie k" and rem: "ae_flags (ce_application e) AND OFPFF_SEND_FLOW_REM \<noteq> 0"
    and k: "rd64 removed 48 = Ok k"
  shows "\<exists>d'. ofpmsg_recv_flowremoved removed d = Ok (0, d') \<and>
     outbox d' = outbox d @ [(ae_service_name (ce_application e), MESSENGER_OPENFLOW_MESSAGE,
       create_openflow_application_message (Some (sw_datapath_id d))
         (Some (patch 48 (put64 (ae_cookie (ce_application e))) removed)))]"
proof -
  obtain a where a: "lookup_cookie_entry_by_cookie (cookies d) k = Some a" "ct_heap (cookies d) a = Some e"
    using owner_entryD [OF inv o] by blast
  obtain t where t: "delete_cookie_entry a (cookies d) = Ok t" using delete_cookie_entry_ok [OF inv a(1)] by blast
  have "56 \<le> length removed" using k by (auto simp: rd_def split: if_splits)
  then have w: "wr 48 (put64 c) removed = Ok (patch 48 (put64 c) removed)" for c by simp
  have e: "deref_entry (cookies d) a = Ok e" using a(2) by (simp add: deref_entry_def)
  have "k \<noteq> RESERVED_COOKIE" using legal by (auto simp: legal_cookie_def)
  then show ?thesis
    unfolding ofpmsg_recv_flowremoved_def k bnd.simps a(1) option.case e w
    using tr rem t by (simp add: service_send_to_reply_def)
qed

lemma ofpmsg_recv_flow_removed:
  assumes "validate_openflow_message fuel m = Ok 0" and "rd8 m 1 = Ok OFPT_FLOW_REMOVED"
  shows "ofpmsg_recv fuel ev m d = ofpmsg_recv_flowremoved m d"
  unfolding ofpmsg_recv_def assms bnd.simps by simp

section \<open>Messages that end the daemon\<close>

lemma features_request_asserts:
  "ofpmsg_recv fuel ev (header_bytes OFPT_FEATURES_REQUEST 8 xid) d = Fault Assertion"
proof -
  let ?m = "header_bytes OFPT_FEATURES_REQUEST 8 xid"
  have h: "validate_header ?m OFPT_FEATURES_REQUEST 8 8 = Ok 0"
    using validate_header_created [of OFPT_FEATURES_REQUEST 8 "[]" 8 8 xid] by simp
  note f = rd_header_fields [of OFPT_FEATURES_REQUEST 8 xid "[]", unfolded append_Nil2]
  have "validate_openflow_message fuel ?m = Ok 0"
    unfolding validate_openflow_message_def f bnd.simps by (simp add: validate_features_request_def h)
  then show ?thesis unfolding ofpmsg_recv_def f bnd.simps by simp
qed

end
