(* ===== verification/Dpid_Table.thy ===== *)
theory Dpid_Table
  imports Hash_Table Buffer
begin

text \<open>
  The switch manager's set of connected datapaths, \<open>src/switch_manager/dpid_table.c\<close>.  The global
  pointer \<open>dpid_table\<close> is an optional hash table that maps each id to a copy of itself.  The operations
  are shown to keep a set of ids, and \<open>get_switches\<close> to serialize it without repetition.
\<close>

type_synonym dpid_table = "(64 word, 64 word) hash_table"

definition init_dpid_table :: "dpid_table option \<Rightarrow> dpid_table option res" where
  "init_dpid_table t =
     assert_then (t = None) (Ok (Some (create_hash compare_datapath_id hash_datapath_id)))"

definition finalize_dpid_table :: "dpid_table option \<Rightarrow> dpid_table option res" where
  "finalize_dpid_table t = assert_then (t \<noteq> None) (Ok None)"

definition insert_dpid_entry :: "64 word option \<Rightarrow> dpid_table option \<Rightarrow> dpid_table option res" where
  "insert_dpid_entry dpid t =
     assert_then (t \<noteq> None)
      (assert_then (dpid \<noteq> None)
       (if lookup_hash_entry (the t) (the dpid) \<noteq> None then Ok t
        else Ok (Some (fst (insert_hash_entry (the t) (the dpid) (the dpid))))))"

definition delete_dpid_entry :: "64 word option \<Rightarrow> dpid_table option \<Rightarrow> dpid_table option res" where
  "delete_dpid_entry dpid t =
     assert_then (t \<noteq> None)
      (assert_then (dpid \<noteq> None) (Ok (Some (fst (delete_hash_entry (the t) (the dpid))))))"

text \<open>The loop of \<open>get_switches\<close>: one more id, in network byte order, at the back of the buffer.\<close>

fun append_switches :: "nat \<Rightarrow> (64 word, 64 word) hash_iterator \<Rightarrow> buffer \<Rightarrow> buffer res" where
  "append_switches 0 iter buf = Fault No_return"
| "append_switches (Suc fuel) iter buf =
     bnd (iterate_hash_next iter) (\<lambda>(e, iter).
       case e of None \<Rightarrow> Ok buf
       | Some (key, dpid) \<Rightarrow> bnd (push_back buf (put64 dpid)) (append_switches fuel iter))"

definition get_switches ::
  "nat \<Rightarrow> (64 word, 64 word) hash_iterator \<Rightarrow> dpid_table option \<Rightarrow> buffer res" where
  "get_switches fuel iter t =
     assert_then (t \<noteq> None)
      (bnd (alloc_buffer_with_length 8) (\<lambda>buf.
       bnd (init_hash_iterator (the t) iter) (\<lambda>iter. append_switches fuel iter buf)))"

section \<open>A set of datapath ids\<close>

definition dpid_inv :: "dpid_table \<Rightarrow> bool" where
  "dpid_inv t \<longleftrightarrow> hash_inv compare_datapath_id hash_datapath_id (\<lambda>_. True) t \<and>
     (\<forall>d v. lookup_hash_entry t d = Some v \<longrightarrow> v = d)"

definition dpids :: "dpid_table \<Rightarrow> 64 word set" where
  "dpids t = {d. lookup_hash_entry t d \<noteq> None}"

lemma init_dpid_ok: "\<exists>t. init_dpid_table None = Ok (Some t) \<and> dpid_inv t \<and> dpids t = {}"
  by (simp add: init_dpid_table_def assert_then_def dpid_inv_def dpids_def create_hash_def default_hash_size_def
      datapath_id_keys.create_tbl datapath_id_keys.lookup_create)

lemma insert_dpid_ok:
  assumes "dpid_inv t"
  shows "\<exists>t'. insert_dpid_entry (Some d) (Some t) = Ok (Some t') \<and> dpid_inv t' \<and> dpids t' = insert d (dpids t)"
proof -
  have h: "hash_inv compare_datapath_id hash_datapath_id (\<lambda>_. True) t" using assms by (simp add: dpid_inv_def)
  show ?thesis
    using assms datapath_id_keys.lookup_insert [OF h] datapath_id_keys.insert_tbl [OF h]
    by (auto simp: insert_dpid_entry_def assert_then_def dpid_inv_def dpids_def compare_datapath_id_def)
qed

lemma delete_dpid_ok:
  assumes "dpid_inv t"
  shows "\<exists>t'. delete_dpid_entry (Some d) (Some t) = Ok (Some t') \<and> dpid_inv t' \<and> dpids t' = dpids t - {d}"
proof -
  have h: "hash_inv compare_datapath_id hash_datapath_id (\<lambda>_. True) t" using assms by (simp add: dpid_inv_def)
  show ?thesis
    using assms datapath_id_keys.lookup_delete [OF h] datapath_id_keys.delete_tbl [OF h]
    by (auto simp: delete_dpid_entry_def assert_then_def dpid_inv_def dpids_def compare_datapath_id_def split: if_splits)
qed

lemma append_switches_ok:
  assumes "it_ok iter" and "length (it_remaining iter) < fuel" and "buf_inv buf"
  shows "\<exists>buf'. append_switches fuel iter buf = Ok buf' \<and> buf_inv buf' \<and>
     buf_contents buf' = buf_contents buf @ concat (map (put64 \<circ> snd) (it_remaining iter))"
  using assms
proof (induction fuel arbitrary: iter buf)
  case (Suc fuel)
  obtain iter' where iter': "it_ok iter'" "it_remaining iter' = tl (it_remaining iter)"
    "iterate_hash_next iter = Ok (case it_remaining iter of [] \<Rightarrow> None | e # _ \<Rightarrow> Some e, iter')"
    using iterate_hash_next_eq [OF Suc.prems(1)] by blast
  show ?case
  proof (cases "it_remaining iter")
    case Nil
    with iter' Suc.prems show ?thesis by simp
  next
    case (Cons e es)
    obtain k d where e: "e = (k, d)" by (cases e)
    obtain buf' where b: "push_back buf (put64 d) = Ok buf'" "buf_inv buf'" "buf_contents buf' = buf_contents buf @ put64 d"
      using push_back_contents [OF Suc.prems(3), of "put64 d"] by auto
    then show ?thesis using Suc.IH [of iter' buf'] iter' Suc.prems Cons e by auto
  qed
qed simp

lemma get_switches_ok:
  assumes "dpid_inv t" and "length (hash_entries t) < fuel"
  shows "\<exists>buf ds. get_switches fuel iter (Some t) = Ok buf \<and> buf_contents buf = concat (map put64 ds) \<and>
     distinct ds \<and> set ds = dpids t"
proof -
  have h: "hash_inv compare_datapath_id hash_datapath_id (\<lambda>_. True) t" using assms by (simp add: dpid_inv_def)
  obtain iter' where i: "init_hash_iterator t iter = Ok iter'" "it_ok iter'" "it_remaining iter' = hash_entries t"
    using datapath_id_keys.iterator_start [OF h] by blast
  have look: "lookup_hash_entry t d = Some v \<longleftrightarrow> (d, v) \<in> set (hash_entries t)" for d v
    using datapath_id_keys.entries_lookup [OF h] by (auto simp: compare_datapath_id_def)
  have same: "fst e = snd e" if "e \<in> set (hash_entries t)" for e
    using look [of "fst e" "snd e"] that assms(1) unfolding dpid_inv_def by (metis prod.collapse)
  have "distinct (map fst (hash_entries t))"
    using keys_apart_distinct [OF datapath_id_keys.entries_apart [OF h]] by (simp add: compare_datapath_id_def)
  moreover have "set (map fst (hash_entries t)) = dpids t"
    using look by (force simp: dpids_def image_iff)
  moreover have "concat (map (put64 \<circ> snd) (hash_entries t)) = concat (map put64 (map fst (hash_entries t)))"
    using same by (simp add: comp_def cong: map_cong)
  moreover obtain b where b: "alloc_buffer_with_length 8 = Ok b" "buf_inv b" "buf_contents b = []"
    using buf_alloc_with_length [of 8] by auto
  moreover obtain buf where "append_switches fuel iter' b = Ok buf"
    "buf_contents buf = concat (map (put64 \<circ> snd) (hash_entries t))"
    using append_switches_ok [OF i(2) _ b(2), of fuel] i(3) b(3) assms(2) by auto
  ultimately have "get_switches fuel iter (Some t) = Ok buf \<and>
      buf_contents buf = concat (map put64 (map fst (hash_entries t))) \<and>
      distinct (map fst (hash_entries t)) \<and> set (map fst (hash_entries t)) = dpids t"
    using i(1) by (simp add: get_switches_def assert_then_def)
  then show ?thesis by blast
qed

end
