(* ===== verification/Switch_Properties.thy ===== *)
theory Switch_Properties
  imports Switch_Roundtrip Dpid_Table
begin

text \<open>
  The properties of the switch daemon: the invariant of its sessions, requests and replies, flows and
  their removal, framing and sending, the forwarding of events, and what ends the process.  The
  examples start from a daemon that has just connected.
\<close>

section \<open>A daemon that has connected\<close>

definition sample_start :: daemon where
  "sample_start = start_switch_daemon 3 True True False [] [[97]] [] [[98]] [115]"

definition sample_daemon :: daemon where
  "sample_daemon =
     (let d = service_send_state MESSENGER_OPENFLOW_CONNECTED sample_start
      in switch_set_timeout Timeout_hello (d\<lparr>xids := (xids d)\<lparr>xt_transaction_id := 1\<rparr>,
           send_queue := Some (enqueue_message create_message_queue (header_bytes OFPT_HELLO 8 1)), writable := True,
           sw_state := SWITCH_STATE_WAIT_HELLO\<rparr>))"

lemma sample_connected: "switch_event_connected sample_start = Ok (0, sample_daemon)"
proof -
  have [simp]: "xt_transaction_id (init_xid_table 0) = 0" by (simp add: init_xid_table_def)
  have g: "generate_xid (init_xid_table 0) = (1, (init_xid_table 0)\<lparr>xt_transaction_id := 1\<rparr>)"
    by (simp add: generate_xid_def generate_xid_loop.simps [of _ _ 1] lookup_init_xid)
  have h: "create_hello 1 = Ok (header_bytes OFPT_HELLO 8 1)"
    using create_header_eq [of 8 1 OFPT_HELLO] by (simp add: create_hello_def)
  show ?thesis
    by (simp add: switch_event_connected_def ofpmsg_send_hello_def with_xid_def sample_start_def start_switch_daemon_def
        service_send_state_def service_send_to_application_def Let_def g h send_message_to_switch_def
        send_to_secure_channel_def assert_then_def sample_daemon_def header_bytes_def)
qed

lemma sample_reachable: "daemon_reachable sample_daemon"
  using daemon_reachable.Start [of 3] sample_connected unfolding sample_start_def by simp

lemma sample_fields:
  "running sample_daemon" "cookie_translation sample_daemon" "few_allocations sample_daemon"
  "sw_state sample_daemon = SWITCH_STATE_WAIT_HELLO" "fragment_buf sample_daemon = None"
  "recv_queue sample_daemon = Some create_message_queue" "sw_datapath_id sample_daemon = 0"
  "queued sample_daemon = [header_bytes OFPT_HELLO 8 1]"
  by (simp_all add: sample_daemon_def sample_start_def start_switch_daemon_def switch_set_timeout_def Let_def
      service_send_state_def service_send_to_application_def few_allocations_def init_cookie_table_def queued_def
      mq_enqueue mq_create)

section \<open>The session\<close>

text \<open>
  C4.  The session of a switch.  In every state the daemon can reach, the queues and the descriptor are
  there exactly until the session is disconnected, everything queued for the switch is waiting for a
  writable socket, the transaction table and the cookie table are consistent, and a state that waits
  for the switch has its timeout pending.  No step leads back to an earlier state, and what was sent to
  applications stays sent.
\<close>

theorem session_invariant:
  assumes "daemon_reachable d"
  shows "session_inv d \<and> (\<forall>d'. daemon_step d d' \<longrightarrow> advances d d')"
  using daemon_reachable_inv [OF assms] daemon_step_kept by blast

theorem session_invariant_witness:
  "session_inv sample_daemon \<and> advances sample_daemon (switch_event_disconnected sample_daemon)"
  using session_invariant [OF sample_reachable] daemon_step.Terminate [OF sample_fields(1)] by blast

section \<open>Requests and replies\<close>

text \<open>
  C5.  A reply reaches the application that asked.  A request of an application is sent to the switch
  under a new transaction id \<open>x\<close>.  After any sequence of other answers, ids drawn by the daemon, and
  fewer than 4096 other requests, a valid reply with the id \<open>x\<close> goes to the service that asked, with
  the id the application had chosen.
\<close>

theorem reply_reaches_requester:
  assumes "daemon_reachable d" "running d"
    and "rd8 buf 1 = Ok type" "rd32 buf 4 = Ok xid" "type \<noteq> OFPT_FLOW_MOD \<or> \<not> cookie_translation d"
    and "insert_xid_entry xid name (xids d) = Ok (x, t)" "x \<noteq> 0"
    and "run_xid_ops opers t = Ok (xids d2)" "Answer x \<notin> set opers" "requests opers < XID_MAX_ENTRIES"
    and "validate_openflow_message fuel reply = Ok 0" "rd8 reply 1 = Ok rtype" "plain_reply rtype" "rd32 reply 4 = Ok x"
  shows "(\<exists>d1. ofpmsg_send ev buf name d = Ok (0, d1) \<and> xids d1 = t \<and> queued d1 = queued d @ [patch 4 (put32 x) buf]) \<and>
    (\<exists>d3. ofpmsg_recv fuel ev' reply d2 = Ok (0, d3) \<and> outbox d3 = outbox d2 @ [(name, MESSENGER_OPENFLOW_MESSAGE,
       create_openflow_application_message (Some (sw_datapath_id d2)) (Some (patch 4 (put32 xid) reply)))])"
proof -
  have a: "active d" by (rule running_active [OF daemon_reachable_inv [OF assms(1)] assms(2)])
  have len: "8 \<le> length buf" using assms(4) by (auto simp: rd_def split: if_splits)
  show ?thesis
    using ofpmsg_send_plain [OF a len assms(3,5,4), of name ev] assms(6)
      pending_reply_delivered [OF active_xid_inv [OF a] assms(6-14), of ev'] by auto
qed

definition sample_env :: env where
  "sample_env = \<lparr>env_now = 0, env_sec = 0, env_nsec = 0, env_duplicate = False, env_terminated = False, env_efi_sent = True\<rparr>"

lemma sample_insert_xid: "\<exists>t. insert_xid_entry 7 [97] (xids sample_daemon) = Ok (2, t)"
proof -
  let ?t = "(init_xid_table 0)\<lparr>xt_transaction_id := 1\<rparr>"
  have g: "generate_xid ?t = (2, ?t\<lparr>xt_transaction_id := 2\<rparr>)"
    by (simp add: generate_xid_def generate_xid_loop.simps [of _ _ 2] lookup_init_xid)
  have "xids sample_daemon = ?t"
    by (simp add: sample_daemon_def sample_start_def start_switch_daemon_def switch_set_timeout_def Let_def
        service_send_state_def service_send_to_application_def)
  moreover have "xt_next_index ?t = 0" "xt_entries ?t = (\<lambda>_. None)" by (simp_all add: init_xid_table_def)
  moreover have "lookup_hash_entry (xt_hash (init_xid_table 0)) 2 = None"
    using lookup_init_xid [of 0 2] by (simp add: lookup_xid_entry_def)
  ultimately show ?thesis
    by (simp add: insert_xid_entry_def allocate_xid_entry_def g XID_MAX_ENTRIES_def set_slot_def case_prod_beta
        insert_hash_entry_fields(5))
qed

lemma barrier_reply_valid:
  "validate_openflow_message fuel (header_bytes OFPT_BARRIER_REPLY 8 x) = Ok 0"
  "rd8 (header_bytes OFPT_BARRIER_REPLY 8 x) 1 = Ok OFPT_BARRIER_REPLY"
  "rd32 (header_bytes type 8 x) 4 = Ok x" "patch 4 (put32 y) (header_bytes type 8 x) = header_bytes type 8 y"
proof -
  note f = rd_header_fields [of OFPT_BARRIER_REPLY 8 x "[]", unfolded append_Nil2]
  have "validate_header (header_bytes OFPT_BARRIER_REPLY 8 x) OFPT_BARRIER_REPLY 8 8 = Ok 0"
    using validate_header_created [of OFPT_BARRIER_REPLY 8 "[]" 8 8 x] by simp
  then show "validate_openflow_message fuel (header_bytes OFPT_BARRIER_REPLY 8 x) = Ok 0"
    unfolding validate_openflow_message_def f bnd.simps by (simp add: validate_barrier_reply_def)
  show "rd8 (header_bytes OFPT_BARRIER_REPLY 8 x) 1 = Ok OFPT_BARRIER_REPLY" by (rule f(2))
qed (simp_all add: header_bytes_def be_get_put patch_def)

theorem reply_reaches_requester_witness:
  "\<exists>t. insert_xid_entry 7 [97] (xids sample_daemon) = Ok (2, t) \<and>
     (\<exists>d3. ofpmsg_recv 0 sample_env (header_bytes OFPT_BARRIER_REPLY 8 2) (sample_daemon\<lparr>xids := t\<rparr>) = Ok (0, d3) \<and>
        outbox d3 = outbox sample_daemon @ [([97], MESSENGER_OPENFLOW_MESSAGE,
          create_openflow_application_message (Some 0) (Some (header_bytes OFPT_BARRIER_REPLY 8 7)))])"
proof -
  obtain t where t: "insert_xid_entry 7 [97] (xids sample_daemon) = Ok (2, t)" using sample_insert_xid by blast
  have "rd8 (header_bytes OFPT_BARRIER_REQUEST 8 7) 1 = Ok OFPT_BARRIER_REQUEST"
    using rd_header_fields(2) [of OFPT_BARRIER_REQUEST 8 7 "[]"] by simp
  from reply_reaches_requester [OF sample_reachable sample_fields(1) this barrier_reply_valid(3) _ t,
      of "[]" "sample_daemon\<lparr>xids := t\<rparr>" 0 "header_bytes OFPT_BARRIER_REPLY 8 2" OFPT_BARRIER_REPLY sample_env sample_env]
  show ?thesis using t
    by (simp add: barrier_reply_valid plain_reply_def XID_MAX_ENTRIES_def sample_fields del: rd_in One_nat_def)
qed

text \<open>
  C21.  The removal of a flow is reported to its owner.  A flow added by an application goes to the
  switch with a cookie \<open>k\<close> of the daemon, with the flag that asks for a report.  As long as the entry
  of \<open>k\<close> is the same, a valid flow removed message with the cookie \<open>k\<close> goes to the application, with the
  cookie it had chosen, when the application asked for reports and its name fits in the table.
\<close>

theorem flow_removal_reported:
  assumes "daemon_reachable d" "running d" "few_allocations d" "cookie_translation d" "72 \<le> length buf"
    and "rd8 buf 1 = Ok OFPT_FLOW_MOD" "rd32 buf 4 = Ok xid" "rd64 buf 48 = Ok c" "rd16 buf 56 = Ok OFPFC_ADD"
      "rd16 buf 70 = Ok flags"
    and "flags AND OFPFF_SEND_FLOW_REM \<noteq> 0" "length name < MESSENGER_SERVICE_NAME_LENGTH"
    and "insert_cookie_entry c name flags (env_now ev) (cookies d) = Ok (k, t)"
    and "cookie_inv (cookies d2)" "cookie_translation d2" "owner (cookies d2) k = owner t k"
    and "validate_openflow_message fuel removed = Ok 0" "rd8 removed 1 = Ok OFPT_FLOW_REMOVED" "rd64 removed 48 = Ok k"
  shows "(\<exists>x d1. ofpmsg_send ev buf name d = Ok (0, d1) \<and> cookies d1 = t \<and>
       queued d1 = queued d @ [translated_flow_mod x k flags buf]) \<and>
    (\<exists>d3. ofpmsg_recv fuel ev' removed d2 = Ok (0, d3) \<and> outbox d3 = outbox d2 @ [(name, MESSENGER_OPENFLOW_MESSAGE,
       create_openflow_application_message (Some (sw_datapath_id d2)) (Some (patch 48 (put64 c) removed)))])"
proof -
  have a: "active d" by (rule running_active [OF daemon_reachable_inv [OF assms(1)] assms(2)])
  obtain x d1 e where s: "ofpmsg_send ev buf name d = Ok (0, d1)" "cookies d1 = t"
    "queued d1 = queued d @ [translated_flow_mod x k flags buf]" and k: "legal_cookie k" "owner t k = Some e"
    "app_key e = (c, truncated name)" "ae_flags (ce_application e) AND OFPFF_SEND_FLOW_REM \<noteq> 0"
    using ofpmsg_send_flow_add [OF a assms(3-11), of name ev] assms(13) by auto
  have n: "ae_cookie (ce_application e) = c" "ae_service_name (ce_application e) = name"
    using k(3) assms(12) by (simp_all add: app_key_def truncated_def)
  show ?thesis
    using s flow_removed_delivered [OF assms(14,15) _ k(1,4) assms(19)] assms(16) k(2) n
    unfolding ofpmsg_recv_flow_removed [OF assms(17,18)] by auto
qed

definition sample_flow_mod :: bytes where
  "sample_flow_mod = header_bytes OFPT_FLOW_MOD 72 5 @ replicate 40 0 @ put64 9 @ put16 OFPFC_ADD @ replicate 12 0 @ put16 1"

definition sample_removed :: "64 word \<Rightarrow> bytes" where
  "sample_removed k = header_bytes OFPT_FLOW_REMOVED 88 0 @ hton_match all_match @ put64 k @
     put16 0 @ put8 0 @ [0] @ put32 1 @ put32 0 @ put16 0 @ [0, 0] @ put64 2 @ put64 100"

lemma sample_flow_mod_fields:
  "length sample_flow_mod = 72" "rd8 sample_flow_mod 1 = Ok OFPT_FLOW_MOD" "rd32 sample_flow_mod 4 = Ok 5"
  "rd64 sample_flow_mod 48 = Ok 9" "rd16 sample_flow_mod 56 = Ok OFPFC_ADD" "rd16 sample_flow_mod 70 = Ok 1"
  by (simp_all add: sample_flow_mod_def header_bytes_def be_get_put)

lemma sample_removed_valid:
  "validate_openflow_message fuel (sample_removed k) = Ok 0" "rd8 (sample_removed k) 1 = Ok OFPT_FLOW_REMOVED"
  "rd64 (sample_removed k) 48 = Ok k" "patch 48 (put64 c) (sample_removed k) = sample_removed c"
proof -
  show "validate_openflow_message fuel (sample_removed k) = Ok 0"
    unfolding sample_removed_def validate_openflow_message_created
    by (rule validate_created_flow_removed) (simp_all add: match_ok_def all_match_def)
  show "rd8 (sample_removed k) 1 = Ok OFPT_FLOW_REMOVED" unfolding sample_removed_def by (rule rd_header_fields)
qed (simp_all add: sample_removed_def rd_after_header be_get_put patch_def)

theorem flow_removal_reported_witness:
  "\<exists>k t. insert_cookie_entry 9 [97] 1 0 (cookies sample_daemon) = Ok (k, t) \<and>
     (\<exists>d3. ofpmsg_recv 0 sample_env (sample_removed k) (sample_daemon\<lparr>cookies := t\<rparr>) = Ok (0, d3) \<and>
        outbox d3 = outbox sample_daemon @ [([97], MESSENGER_OPENFLOW_MESSAGE,
          create_openflow_application_message (Some 0) (Some (sample_removed 9)))])"
proof -
  have inv: "cookie_inv (cookies sample_daemon)"
    by (rule active_cookie_inv [OF running_active [OF daemon_reachable_inv [OF sample_reachable] sample_fields(1)]])
  have "(1 :: 16 word) AND OFPFF_SEND_FLOW_REM \<noteq> 0" by simp
  then obtain k t where t: "insert_cookie_entry 9 [97] 1 0 (cookies sample_daemon) = Ok (k, t)" "cookie_inv t"
    using insert_cookie_owned [OF inv, of 1 9 "[97]" 0] sample_fields(3) unfolding few_allocations_def by blast
  from flow_removal_reported [OF sample_reachable sample_fields(1,3,2) _ sample_flow_mod_fields(2-6),
      of "[97]" sample_env k t "sample_daemon\<lparr>cookies := t\<rparr>" 0 "sample_removed k" sample_env]
  show ?thesis using t
    by (simp add: sample_flow_mod_fields sample_removed_valid sample_fields sample_env_def MESSENGER_SERVICE_NAME_LENGTH_def
        del: rd_in One_nat_def)
qed

section \<open>The connection\<close>

text \<open>
  C22.  Framing does not depend on fragmentation: whatever the number of bytes each read delivers, the
  daemon takes exactly the messages from the stream that the switch wrote, in order, and nothing is
  left over.
\<close>

theorem framing_ignores_fragmentation:
  assumes "\<forall>m \<in> set ms. framed m" and "\<forall>k \<in> set ks. 0 < k" and "length (concat ms) \<le> length ks"
  shows "receive_stream ks (concat ms) None create_message_queue = Ok (ms, [])"
proof (cases ms)
  case Nil
  then show ?thesis by (cases ks) simp_all
next
  case (Cons m ms')
  then have m: "framed m" using assms(1) by simp
  have "concat ms \<noteq> []" using m Cons by (auto simp: framed_def)
  moreover note partial_frame_Nil [OF m]
  ultimately show ?thesis
    using receive_stream_frames [OF assms(1), of "[]" "concat ms" None] assms(2,3) by (simp add: mq_create)
qed

theorem framing_ignores_fragmentation_witness:
  "receive_stream (replicate 16 1) (header_bytes OFPT_HELLO 8 1 @ header_bytes OFPT_BARRIER_REPLY 8 2) None create_message_queue =
     Ok ([header_bytes OFPT_HELLO 8 1, header_bytes OFPT_BARRIER_REPLY 8 2], [])"
proof -
  have "framed (header_bytes type 8 x)" for type x
    using rd_header_fields [of type 8 x "[]"] by (auto simp: framed_def valid_message_version_def)
  then show ?thesis
    using framing_ignores_fragmentation [of "[header_bytes OFPT_HELLO 8 1, header_bytes OFPT_BARRIER_REPLY 8 2]" "replicate 16 1"]
    by simp
qed

text \<open>
  C25.  What is queued is sent: as long as every \<open>writev\<close> takes at least one byte, the write handler
  sends all bytes of the queue in order, also when messages are cut in the middle and when there are
  more than \<open>IOV_MAX\<close> of them; then the queue is empty and the descriptor is not marked writable.
\<close>

theorem queue_is_sent:
  assumes "length ms < 2 ^ 32" and "[] \<notin> set ms" and "ms \<noteq> []"
    and "\<forall>n \<in> set ns. 0 < n" and "length (concat ms) \<le> length ns" and "0 \<le> fd"
  shows "\<exists>q. send_stream ns fd (foldl enqueue_message create_message_queue ms) True = Ok (concat ms, q, False) \<and> mq_list q = []"
  using send_stream_ok [of "foldl enqueue_message create_message_queue ms" ns fd]
    mq.enq_all [of create_message_queue ms] assms by (auto simp: mq_create)

theorem queue_is_sent_witness:
  "\<exists>q. send_stream [3, 1, 9, 5] 4 (foldl enqueue_message create_message_queue [[1, 2], [3, 4]]) True =
     Ok ([1, 2, 3, 4], q, False) \<and> mq_list q = []"
  using queue_is_sent [of "[[1, 2], [3, 4]]" "[3, 1, 9, 5]" 4] by simp

section \<open>Tables\<close>

text \<open>
  C26.  The cookie table of a daemon that can be reached is a map from cookies to their owners.  A flow
  of an application that is known under its cookie and name shares the cookie; otherwise it gets a new
  one that nobody has.  The end of a flow takes one reference away and the last one removes the cookie.
  Aging removes exactly the cookies whose time is over.  Different cookies have different owners.
\<close>

theorem cookie_table_is_owner_map:
  assumes "daemon_reachable d" and "few_allocations d" and "t = cookies d"
  shows "(\<exists>k t'. insert_cookie_entry c name flags now t = Ok (k, t') \<and> legal_cookie k \<and>
            (case owner_by_application t c name of
               Some e \<Rightarrow> k = ce_cookie e \<and> owner t k = Some e \<and> owner t' = (owner t)(k \<mapsto> shared_cookie_entry e flags now)
             | None \<Rightarrow> owner t k = None \<and> owner t' = (owner t)(k \<mapsto> new_cookie_entry k c name flags now))) \<and>
         (\<forall>k a. lookup_cookie_entry_by_cookie t k = Some a \<longrightarrow> (\<exists>e t'. delete_cookie_entry a t = Ok t' \<and> owner t k = Some e \<and>
            owner t' = (owner t)(k := if ce_reference_count e > 1
              then Some (e\<lparr>ce_reference_count := ce_reference_count e - 1\<rparr>) else None))) \<and>
         (\<exists>t'. age_cookie_table (Suc (length (hash_entries (ct_global t)))) now iter t = Ok t' \<and>
            owner t' = (\<lambda>k. expired now (owner t k))) \<and>
         (\<forall>k k' e e'. owner t k = Some e \<and> owner t k' = Some e' \<and> k \<noteq> k' \<longrightarrow> app_key e \<noteq> app_key e')"
proof -
  have inv: "cookie_inv t" using daemon_reachable_inv [OF assms(1)] assms(3) by (simp add: session_inv_def tables_ok_def)
  obtain x where x: "legal_cookie x" "owner t x = None"
    using free_cookie_exists [OF inv] assms(2,3) by (auto simp: few_allocations_def)
  have "\<exists>k t'. insert_cookie_entry c name flags now t = Ok (k, t') \<and> legal_cookie k \<and>
            (case owner_by_application t c name of
               Some e \<Rightarrow> k = ce_cookie e \<and> owner t k = Some e \<and> owner t' = (owner t)(k \<mapsto> shared_cookie_entry e flags now)
             | None \<Rightarrow> owner t k = None \<and> owner t' = (owner t)(k \<mapsto> new_cookie_entry k c name flags now))"
  proof (cases "lookup_cookie_entry_by_application t c name")
    case None
    then show ?thesis using insert_new [OF inv None x, of flags now] by (auto simp: owner_by_application_def)
  next
    case (Some a)
    obtain e t' where e: "insert_cookie_entry c name flags now t = Ok (ce_cookie e, t')"
      "owner_by_application t c name = Some e" "owner t (ce_cookie e) = Some e"
      "owner t' = (owner t)(ce_cookie e \<mapsto> shared_cookie_entry e flags now)"
      using insert_shared [OF inv Some, of flags now] by blast
    moreover have "legal_cookie (ce_cookie e)" using owner_entryD [OF inv e(3)] cookie_inv_entryD [OF inv] by blast
    ultimately show ?thesis by simp
  qed
  moreover have "\<exists>e t'. delete_cookie_entry a t = Ok t' \<and> owner t k = Some e \<and>
            owner t' = (owner t)(k := if ce_reference_count e > 1
              then Some (e\<lparr>ce_reference_count := ce_reference_count e - 1\<rparr>) else None)"
    if "lookup_cookie_entry_by_cookie t k = Some a" for k a
    using delete_cookie_entry_ok [OF inv that] by blast
  moreover have "\<exists>t'. age_cookie_table (Suc (length (hash_entries (ct_global t)))) now iter t = Ok t' \<and>
            owner t' = (\<lambda>k. expired now (owner t k))"
    using age_cookie_table_ok [OF inv lessI] by blast
  moreover have "app_key e \<noteq> app_key e'" if "owner t k = Some e \<and> owner t k' = Some e' \<and> k \<noteq> k'" for k k' e e'
    using owner_keys_differ [OF inv] that by blast
  ultimately show ?thesis by blast
qed

theorem cookie_table_is_owner_map_witness:
  "\<exists>k t'. insert_cookie_entry 9 [97] 1 0 (cookies sample_daemon) = Ok (k, t') \<and> legal_cookie k"
  using cookie_table_is_owner_map [OF sample_reachable sample_fields(3) refl, of 9 "[97]" 1 0] by blast

text \<open>
  The counter of transaction ids does not pass its last value.  At 0xffffffff, \<open>generate_xid\<close>
  returns that id again as long as no request has it; when one has, it reports a failure and returns
  0, whatever other ids are free.
\<close>

lemma xid_counter_ends:
  assumes "xt_transaction_id t = 0xffffffff"
  shows "(lookup_xid_entry t 0xffffffff = None \<longrightarrow> generate_xid t = (0xffffffff, t)) \<and>
         (lookup_xid_entry t 0xffffffff \<noteq> None \<longrightarrow> fst (generate_xid t) = 0)"
  using generate_xid_sticks [OF assms] by blast

lemma xid_counter_ends_witness: "generate_xid (init_xid_table 0xffffffff) = (0xffffffff, init_xid_table 0xffffffff)"
  using xid_counter_ends [of "init_xid_table 0xffffffff"] lookup_init_xid by (simp add: init_xid_table_def)

section \<open>The handshake\<close>

lemma with_xid_sends:
  assumes "between d" and "\<And>x. create x = Ok (f x)" "\<And>x. f x \<noteq> []"
  shows "\<exists>x t q. with_xid create d = Ok (0, d\<lparr>xids := t, send_queue := Some q, writable := True\<rparr>) \<and>
     between (d\<lparr>xids := t, send_queue := Some q, writable := True\<rparr>) \<and> mq_list q = queued d @ [f x]"
proof -
  obtain x t where x: "generate_xid (xids d) = (x, t)" by (cases "generate_xid (xids d)")
  obtain q where q: "send_queue d = Some q" "mq_inv q" using assms(1) by (auto simp: between_def opened_def send_ok_def)
  have w: "with_xid create d = Ok (0, d\<lparr>xids := t, send_queue := Some (enqueue_message q (f x)), writable := True\<rparr>)"
    by (simp add: with_xid_def x assms send_message_to_switch_def send_to_secure_channel_def assert_then_def q(1))
  then show ?thesis using with_xid_between(2) [OF assms(1) w] mq_enqueue [OF q(2), of "f x"] q(1) by (auto simp: queued_def)
qed

text \<open>
  A flow modification that concerns every flow, byte by byte: a match with all wildcards and zeros
  otherwise, the reserved cookie, no idle timeout, no buffer, no port, no flags and no actions.
\<close>

definition flow_mod_for_all :: "32 word \<Rightarrow> 16 word \<Rightarrow> 16 word \<Rightarrow> 16 word \<Rightarrow> bytes" where
  "flow_mod_for_all xid command hard_timeout priority =
     header_bytes OFPT_FLOW_MOD 72 xid @ put32 OFPFW_ALL @ replicate 36 0 @ put64 RESERVED_COOKIE @ put16 command @
     put16 0 @ put16 hard_timeout @ put16 priority @ put32 0xffffffff @ put16 OFPP_NONE @ put16 0"

definition set_config_bytes :: "32 word \<Rightarrow> 16 word \<Rightarrow> 16 word \<Rightarrow> bytes" where
  "set_config_bytes xid flags len = header_bytes OFPT_SET_CONFIG 12 xid @ put16 flags @ put16 len"

lemma put_zero: "be_put n (0 :: 'a::len word) = replicate n 0"
  by (rule nth_equalityI) (simp_all add: be_put_def)

lemma all_match_bytes: "hton_match all_match = put32 OFPFW_ALL @ replicate 36 0"
  by (simp add: hton_match_def all_match_def put_zero) (simp add: numeral_eq_Suc)

lemma own_flow_mod_created:
  "create_flow_mod x all_match RESERVED_COOKIE command 0 hard priority UINT32_MAX OFPP_NONE 0 None =
     Ok (flow_mod_for_all x command hard priority)"
  using create_flow_mod_eq [of None x all_match RESERVED_COOKIE command 0 hard priority UINT32_MAX OFPP_NONE 0]
  by (simp add: flow_mod_for_all_def opt_actions_def all_match_bytes)

lemma header_only_created:
  "create_features_request x = Ok (header_bytes OFPT_FEATURES_REQUEST 8 x)"
  using create_header_eq [of 8 x OFPT_FEATURES_REQUEST] by (simp add: create_features_request_def)

lemma set_config_created: "create_set_config x flags len = Ok (set_config_bytes x flags len)"
  using create_fixed_eq [of 12 "[(8, put16 flags), (10, put16 len)]" 0 x OFPT_SET_CONFIG]
  by (auto simp: create_set_config_def set_config_bytes_def)

text \<open>A message the daemon sends by itself is sent, whatever its id.\<close>

lemma own_messages_sent:
  assumes "between d"
  shows "\<exists>x t q. ofpmsg_send_deny_all d = Ok (0, d\<lparr>xids := t, send_queue := Some q, writable := True\<rparr>) \<and>
     between (d\<lparr>xids := t, send_queue := Some q, writable := True\<rparr>) \<and> mq_list q = queued d @ [flow_mod_for_all x OFPFC_ADD 10 UINT16_MAX]"
    and "\<exists>x t q. ofpmsg_send_delete_all_flows d = Ok (0, d\<lparr>xids := t, send_queue := Some q, writable := True\<rparr>) \<and>
     between (d\<lparr>xids := t, send_queue := Some q, writable := True\<rparr>) \<and> mq_list q = queued d @ [flow_mod_for_all x OFPFC_DELETE 0 0]"
    and "\<exists>x t q. ofpmsg_send_setconfig d = Ok (0, d\<lparr>xids := t, send_queue := Some q, writable := True\<rparr>) \<and>
     between (d\<lparr>xids := t, send_queue := Some q, writable := True\<rparr>) \<and>
     mq_list q = queued d @ [set_config_bytes x (config_flags d) (miss_send_len d)]"
  unfolding ofpmsg_send_defs
  using with_xid_sends [OF assms own_flow_mod_created] with_xid_sends [OF assms set_config_created]
  by (simp_all add: flow_mod_for_all_def set_config_bytes_def header_bytes_def)

lemma features_request_sent:
  assumes "between d"
  shows "\<exists>x t q. ofpmsg_send_featuresrequest d = Ok (0, d\<lparr>xids := t, send_queue := Some q, writable := True\<rparr>) \<and>
     between (d\<lparr>xids := t, send_queue := Some q, writable := True\<rparr>) \<and>
     mq_list q = queued d @ [header_bytes OFPT_FEATURES_REQUEST 8 x]"
  unfolding ofpmsg_send_featuresrequest_def
  using with_xid_sends [of d create_features_request "header_bytes OFPT_FEATURES_REQUEST 8", OF assms header_only_created]
  by (simp add: header_bytes_def)

lemma same_send_queue: "send_queue d = Some q \<Longrightarrow> d\<lparr>send_queue := Some q\<rparr> = (d :: daemon)"
  by (cases d) simp

lemma hello_moves_on:
  assumes a: "active d" and st: "sw_state d = SWITCH_STATE_WAIT_HELLO"
  shows "\<exists>d1 x y. switch_event_recv_hello d = Ok (0, d1) \<and> active d1 \<and> sw_state d1 = SWITCH_STATE_WAIT_FEATURES_REPLY \<and>
     Timeout_features_reply \<in> set (timers d1) \<and> outbox d1 = outbox d \<and>
     queued d1 = queued d @ (if deny_packet_in_on_startup d then [flow_mod_for_all y OFPFC_ADD 10 UINT16_MAX] else []) @
       [header_bytes OFPT_FEATURES_REQUEST 8 x] \<and>
     config_flags d1 = config_flags d \<and> miss_send_len d1 = miss_send_len d \<and> flow_cleanup d1 = flow_cleanup d"
proof -
  let ?u = "switch_unset_timeout Timeout_hello d"
  have u: "between ?u" "deny_packet_in_on_startup ?u = deny_packet_in_on_startup d" "queued ?u = queued d" "outbox ?u = outbox d"
    using a by (simp_all add: active_between between_def tables_ok_def opened_def switch_unset_timeout_def queued_def)
  obtain t q y where d1: "(if deny_packet_in_on_startup ?u then ofpmsg_send_deny_all ?u else Ok (0, ?u)) =
      Ok (0 :: int, ?u\<lparr>xids := t, send_queue := Some q, writable := deny_packet_in_on_startup d \<or> writable ?u\<rparr>)"
    and b1: "between (?u\<lparr>xids := t, send_queue := Some q, writable := deny_packet_in_on_startup d \<or> writable ?u\<rparr>)"
      "mq_list q = queued d @ (if deny_packet_in_on_startup d then [flow_mod_for_all y OFPFC_ADD 10 UINT16_MAX] else [])"
  proof (cases "deny_packet_in_on_startup d")
    case True
    from own_messages_sent(1) [OF u(1)] obtain y t q
      where "ofpmsg_send_deny_all ?u = Ok (0, ?u\<lparr>xids := t, send_queue := Some q, writable := True\<rparr>)"
        "between (?u\<lparr>xids := t, send_queue := Some q, writable := True\<rparr>)" "mq_list q = queued ?u @ [flow_mod_for_all y OFPFC_ADD 10 UINT16_MAX]"
      by blast
    then show thesis using that [where t = t and q = q and y = y] True u(2,3) by simp
  next
    case False
    obtain q where q: "send_queue ?u = Some q" using u(1) by (auto simp: between_def opened_def send_ok_def)
    show thesis
      using that [where t = "xids ?u" and q = q] False u q same_send_queue [OF q] by (simp add: queued_def)
  qed
  let ?d1 = "?u\<lparr>xids := t, send_queue := Some q, writable := deny_packet_in_on_startup d \<or> writable ?u\<rparr>"
  obtain x t' q' where f: "ofpmsg_send_featuresrequest ?d1 = Ok (0, ?d1\<lparr>xids := t', send_queue := Some q', writable := True\<rparr>)"
    "between (?d1\<lparr>xids := t', send_queue := Some q', writable := True\<rparr>)"
    "mq_list q' = queued ?d1 @ [header_bytes OFPT_FEATURES_REQUEST 8 x]"
    using features_request_sent [OF b1(1)] by blast
  let ?d2 = "?d1\<lparr>xids := t', send_queue := Some q', writable := True\<rparr>"
  let ?d3 = "switch_set_timeout Timeout_features_reply (?d2\<lparr>sw_state := SWITCH_STATE_WAIT_FEATURES_REPLY\<rparr>)"
  have "switch_event_recv_hello d = Ok (0, ?d3)"
    unfolding switch_event_recv_hello_def if_P [OF st] Let_def d1 bnd.simps prod.case using f(1) by simp
  moreover have "active ?d3"
    using f(2) by (simp add: active_between between_def tables_ok_def opened_def timeout_pending_def switch_set_timeout_def)
  moreover have "queued ?d3 = queued d @ (if deny_packet_in_on_startup d then [flow_mod_for_all y OFPFC_ADD 10 UINT16_MAX] else []) @
      [header_bytes OFPT_FEATURES_REQUEST 8 x]"
    using f(3) b1(2) by (simp add: queued_def switch_set_timeout_def)
  ultimately show ?thesis using u(4)
    by (intro exI [of _ ?d3] exI [of _ x] exI [of _ y]) (simp add: switch_set_timeout_def switch_unset_timeout_def)
qed

lemma features_reply_completes:
  assumes a: "active d" and st: "sw_state d = SWITCH_STATE_WAIT_FEATURES_REPLY"
    and ev: "\<not> (env_duplicate ev \<and> \<not> env_terminated ev)" "env_efi_sent ev"
  shows "\<exists>d1 x y. switch_event_recv_featuresreply ev dpid d = Ok (0, d1) \<and> sw_state d1 = SWITCH_STATE_COMPLETED \<and>
     sw_datapath_id d1 = dpid \<and> trema_name d1 = switch_name dpid \<and>
     queued d1 = queued d @ [set_config_bytes x (config_flags d) (miss_send_len d)] @
       (if flow_cleanup d then [flow_mod_for_all y OFPFC_DELETE 0 0] else []) \<and>
     outbox d1 = outbox d @ [(SWITCH_MANAGER, MESSENGER_OPENFLOW_READY, create_openflow_application_message (Some dpid) None)] \<and>
     state_service_name_list d1 = state_service_name_list d"
proof -
  let ?u = "switch_unset_timeout Timeout_features_reply (d\<lparr>sw_datapath_id := dpid, sw_state := SWITCH_STATE_COMPLETED\<rparr>)
    \<lparr>trema_name := switch_name dpid\<rparr>"
  have u: "between ?u" "queued ?u = queued d"
    using a by (simp_all add: active_between between_def tables_ok_def opened_def switch_unset_timeout_def queued_def)
  have cfg: "config_flags ?u = config_flags d" "miss_send_len ?u = miss_send_len d" by (simp_all add: switch_unset_timeout_def)
  obtain x t q where s: "ofpmsg_send_setconfig ?u = Ok (0, ?u\<lparr>xids := t, send_queue := Some q, writable := True\<rparr>)"
    "between (?u\<lparr>xids := t, send_queue := Some q, writable := True\<rparr>)"
    "mq_list q = queued ?u @ [set_config_bytes x (config_flags d) (miss_send_len d)]"
    using own_messages_sent(3) [OF u(1)] unfolding cfg by blast
  let ?d1 = "?u\<lparr>xids := t, send_queue := Some q, writable := True\<rparr>"
  have fc: "flow_cleanup ?d1 = flow_cleanup d" by (simp add: switch_unset_timeout_def)
  obtain t' q' y where c: "(if flow_cleanup ?d1 then ofpmsg_send_delete_all_flows ?d1 else Ok (0, ?d1)) =
      Ok (0 :: int, ?d1\<lparr>xids := t', send_queue := Some q'\<rparr>)"
    "mq_list q' = mq_list q @ (if flow_cleanup d then [flow_mod_for_all y OFPFC_DELETE 0 0] else [])"
  proof (cases "flow_cleanup d")
    case True
    from own_messages_sent(2) [OF s(2)] obtain y t' q'
      where "ofpmsg_send_delete_all_flows ?d1 = Ok (0, ?d1\<lparr>xids := t', send_queue := Some q', writable := True\<rparr>)"
        "mq_list q' = queued ?d1 @ [flow_mod_for_all y OFPFC_DELETE 0 0]"
      by blast
    then show thesis using that [where t' = t' and q' = q' and y = y] True fc by (simp add: queued_def)
  next
    case False
    then show thesis using that [where t' = t and q' = q] fc by simp
  qed
  let ?d2 = "?d1\<lparr>xids := t', send_queue := Some q'\<rparr>"
  have "switch_event_recv_featuresreply ev dpid d =
      Ok (0, (service_send_to_application [SWITCH_MANAGER] MESSENGER_OPENFLOW_READY (Some (sw_datapath_id ?d2)) None ?d2)
        \<lparr>efi_requests := efi_requests ?d2 + 1\<rparr>)"
    unfolding switch_event_recv_featuresreply_def st switch_state.case Let_def if_not_P [OF ev(1)] s(1) bnd.simps prod.case
    using c(1) ev(2) by (simp add: send_efi_switch_list_request_def service_send_to_application_def)
  then show ?thesis using c(2) s(3) u(2)
    by (intro exI [of _ "(service_send_to_application [SWITCH_MANAGER] MESSENGER_OPENFLOW_READY (Some (sw_datapath_id ?d2)) None ?d2)
        \<lparr>efi_requests := efi_requests ?d2 + 1\<rparr>"] exI [of _ x] exI [of _ y])
      (simp add: service_send_to_application_def switch_unset_timeout_def queued_def)
qed

text \<open>
  C27.  The handshake.  A daemon that waits for the hello answers it with a request for the features
  and waits for the reply with a timeout; before the request it sends, when it is configured so, a flow
  entry of the highest priority that drops all packets for ten seconds.  The features reply completes the
  session: the daemon takes the datapath id and its name, sends its configuration and then, when it is
  configured so, the message that deletes all flows, and reports to the switch manager.  When the switch
  manager knows the id, the applications are told that the switch is ready, each once and in order, and the
  echo requests start.
\<close>

theorem handshake_completes:
  assumes "daemon_reachable d" "running d" "sw_state d = SWITCH_STATE_WAIT_HELLO"
    and "\<not> (env_duplicate ev \<and> \<not> env_terminated ev)" "env_efi_sent ev" "dpid \<in> set ds"
  shows "\<exists>d1 d2 x0 x1 x2 x3. switch_event_recv_hello d = Ok (0, d1) \<and> sw_state d1 = SWITCH_STATE_WAIT_FEATURES_REPLY \<and>
     Timeout_features_reply \<in> set (timers d1) \<and>
     queued d1 = queued d @ (if deny_packet_in_on_startup d then [flow_mod_for_all x0 OFPFC_ADD 10 UINT16_MAX] else []) @
       [header_bytes OFPT_FEATURES_REQUEST 8 x1] \<and>
     switch_event_recv_featuresreply ev dpid d1 = Ok (0, d2) \<and> sw_state d2 = SWITCH_STATE_COMPLETED \<and>
     sw_datapath_id d2 = dpid \<and> trema_name d2 = switch_name dpid \<and>
     queued d2 = queued d1 @ [set_config_bytes x2 (config_flags d) (miss_send_len d)] @
       (if flow_cleanup d then [flow_mod_for_all x3 OFPFC_DELETE 0 0] else []) \<and>
     outbox d2 = outbox d @ [(SWITCH_MANAGER, MESSENGER_OPENFLOW_READY, create_openflow_application_message (Some dpid) None)] \<and>
     outbox (confirm_self_dpid_is_registerd ev ds d2) = outbox d2 @
       map (\<lambda>name. (name, MESSENGER_OPENFLOW_READY, create_openflow_application_message (Some dpid) None))
         (state_service_name_list d2) \<and>
     Echo_request_interval \<in> set (timers (confirm_self_dpid_is_registerd ev ds d2))"
proof -
  have a: "active d" by (rule running_active [OF daemon_reachable_inv [OF assms(1)] assms(2)])
  obtain d1 x1 x0 where d1: "switch_event_recv_hello d = Ok (0, d1)" "active d1"
    "sw_state d1 = SWITCH_STATE_WAIT_FEATURES_REPLY" "Timeout_features_reply \<in> set (timers d1)" "outbox d1 = outbox d"
    "queued d1 = queued d @ (if deny_packet_in_on_startup d then [flow_mod_for_all x0 OFPFC_ADD 10 UINT16_MAX] else []) @
       [header_bytes OFPT_FEATURES_REQUEST 8 x1]"
    "config_flags d1 = config_flags d" "miss_send_len d1 = miss_send_len d" "flow_cleanup d1 = flow_cleanup d"
    using hello_moves_on [OF a assms(3)] by blast
  obtain d2 x2 x3 where d2: "switch_event_recv_featuresreply ev dpid d1 = Ok (0, d2)" "sw_state d2 = SWITCH_STATE_COMPLETED"
    "sw_datapath_id d2 = dpid" "trema_name d2 = switch_name dpid"
    "queued d2 = queued d1 @ [set_config_bytes x2 (config_flags d) (miss_send_len d)] @
       (if flow_cleanup d then [flow_mod_for_all x3 OFPFC_DELETE 0 0] else [])"
    "outbox d2 = outbox d1 @ [(SWITCH_MANAGER, MESSENGER_OPENFLOW_READY, create_openflow_application_message (Some dpid) None)]"
    using features_reply_completes [OF d1(2,3) assms(4,5), of dpid] unfolding d1(7-9) by blast
  have "confirm_self_dpid_is_registerd ev ds d2 = notify_state_to_controllers d2"
    using assms(6) d2(3) by (simp add: confirm_self_dpid_is_registerd_def)
  then have c: "outbox (confirm_self_dpid_is_registerd ev ds d2) = outbox d2 @
       map (\<lambda>name. (name, MESSENGER_OPENFLOW_READY, create_openflow_application_message (Some dpid) None))
         (state_service_name_list d2)"
    "Echo_request_interval \<in> set (timers (confirm_self_dpid_is_registerd ev ds d2))"
    using d2(3)
    by (simp_all add: notify_state_to_controllers_def service_send_state_def service_send_to_application_def Let_def)
  show ?thesis
    by (intro exI [of _ d1] exI [of _ d2] exI [of _ x0] exI [of _ x1] exI [of _ x2] exI [of _ x3] conjI)
      (use d1 d2 c in \<open>simp_all only:\<close>)
qed

theorem handshake_completes_witness:
  "\<exists>d1 d2 x. switch_event_recv_hello sample_daemon = Ok (0, d1) \<and>
     switch_event_recv_featuresreply sample_env 0xabc d1 = Ok (0, d2) \<and> sw_state d2 = SWITCH_STATE_COMPLETED \<and>
     set_config_bytes x (config_flags sample_daemon) (miss_send_len sample_daemon) \<in> set (queued d2)"
proof -
  have e: "\<not> (env_duplicate sample_env \<and> \<not> env_terminated sample_env)" "env_efi_sent sample_env"
    by (simp_all add: sample_env_def)
  have "(0xabc :: 64 word) \<in> set [0xabc]" by simp
  from handshake_completes [OF sample_reachable sample_fields(1,4) e this] show ?thesis by fastforce
qed

section \<open>Forwarding of events\<close>

text \<open>
  A request that sets the services for packets in takes effect: the request an application builds
  with a list of names is answered with success, and from then on a packet in message goes to exactly
  these services, once each and in their order.
\<close>

lemma packet_in_forwarding_set:
  assumes "\<forall>name \<in> set names. c_name name" and "length names < 2 ^ 32"
  shows "\<exists>d'. management_recv EVENT_FORWARD_ENTRY_SET
       (create_event_forward_operation_request [] EVENT_FORWARD_TYPE_PACKET_IN names) d = Ok d' \<and>
     packetin_service_name_list d' = names \<and>
     replies d' = replies d @ [create_management_application_reply MANAGEMENT_REQUEST_SUCCEEDED EVENT_FORWARD_ENTRY_SET
       (create_event_forward_operation_reply EVENT_FORWARD_TYPE_PACKET_IN EFI_OPERATION_SUCCEEDED names)] \<and>
     (\<exists>d''. ofpmsg_recv_packetin buf d' = Ok (0, d'') \<and> outbox d'' = outbox d @
       map (\<lambda>name. (name, MESSENGER_OPENFLOW_MESSAGE,
         create_openflow_application_message (Some (sw_datapath_id d)) (Some buf))) names)"
proof -
  let ?m = "create_event_forward_operation_request [] EVENT_FORWARD_TYPE_PACKET_IN names"
  have m: "?m = [EVENT_FORWARD_TYPE_PACKET_IN, 0, 0, 0] @ put32 (of_nat (length names)) @ concat (map (\<lambda>name. name @ [0]) names)"
    by (simp add: request_fields)
  have r: "rd8 ?m 0 = Ok EVENT_FORWARD_TYPE_PACKET_IN" "rd32 ?m 4 = Ok (of_nat (length names))"
    "drop 8 ?m = concat (map (\<lambda>name. name @ [0]) names)"
    unfolding m by (simp_all add: be_get_put, simp add: be_get_def)
  have f: "forward_entry_command EVENT_FORWARD_ENTRY_SET subject (of_nat (length names)) (concat (map (\<lambda>name. name @ [0]) names)) =
      Ok names" for subject
    by (simp add: forward_entry_command_def entries_set_ok [OF assms])
  have "management_recv EVENT_FORWARD_ENTRY_SET ?m d = Ok (send_management_reply MANAGEMENT_REQUEST_SUCCEEDED EVENT_FORWARD_ENTRY_SET
      (create_event_forward_operation_reply EVENT_FORWARD_TYPE_PACKET_IN EFI_OPERATION_SUCCEEDED names)
      (d\<lparr>packetin_service_name_list := names\<rparr>))"
    unfolding management_recv_def management_event_forward_entry_operation_def r bnd.simps Let_def f by simp
  then show ?thesis
    by (simp add: send_management_reply_def ofpmsg_recv_packetin_def service_send_to_application_def)
qed

lemma packet_in_forwarding_set_witness:
  "\<exists>d'. management_recv EVENT_FORWARD_ENTRY_SET
       (create_event_forward_operation_request [] EVENT_FORWARD_TYPE_PACKET_IN [[97], [98, 99]]) sample_daemon = Ok d' \<and>
     packetin_service_name_list d' = [[97], [98, 99]]"
  using packet_in_forwarding_set [of "[[97], [98, 99]]" sample_daemon] by (auto simp: c_name_def)

section \<open>Input that ends the process\<close>

text \<open>
  C32.  Eight bytes from the switch end the daemon.  A well-formed message of a type that only a
  controller sends, such as a features request, passes the validation and runs into the assertion of
  the dispatch; a header with a length of 0 runs into an assertion of the buffer.
\<close>

theorem switch_message_ends_daemon:
  assumes "daemon_reachable d" "running d" "fragment_buf d = None" "recv_queue d = Some q" "mq_list q = []"
  shows "secure_channel_read fuel ev (Read_data (header_bytes OFPT_FEATURES_REQUEST 8 xid)) d = Fault Assertion \<and>
    secure_channel_read fuel ev (Read_data (header_bytes type 0 xid)) d = Fault Assertion"
proof -
  have "active d" by (rule running_active [OF daemon_reachable_inv [OF assms(1)] assms(2)])
  then have q: "mq_inv q" using assms(4) by (auto simp: active_def opened_def recv_ok_def)
  let ?m = "header_bytes OFPT_FEATURES_REQUEST 8 xid"
  note h = rd_header_fields [of _ _ xid "[]", unfolded append_Nil2]
  have fr: "framed ?m" using h by (auto simp: framed_def valid_message_version_def)
  obtain q' where r: "recv_from_secure_channel (Read_data ?m) None (Some q) = Ok (0, Some [], Some q', Frames_done)"
    "mq_inv q'" "mq_list q' = [?m]"
    using recv_chunk [OF q assms(5), of "[]" None ?m "[?m]" "[]"] fr partial_frame_Nil [OF fr]
    by (auto simp: header_bytes_def remaining_length_def RECEIVE_BUFFFER_SIZE_def)
  have len: "mq_length q' > 0" using mq_length_list [OF r(2)] r(3) by simp
  obtain q1 where d1: "dequeue_message q' = (Some ?m, q1)"
    using mq.result_deq [OF r(2)] r(3) by (cases "dequeue_message q'") auto
  have "secure_channel_read fuel ev (Read_data ?m) d = Fault Assertion"
    using r(1) len d1 assms(3,4)
    by (simp add: secure_channel_read_def handle_messages_from_secure_channel_def assert_then_def
        features_request_asserts)
  moreover have "frame_loop (header_bytes type 0 xid) q = Fault Assertion"
    by (rule frame_loop_zero_length [OF _ h(2) h(1) _ h(3)]) (simp_all add: valid_message_version_def)
  then have "secure_channel_read fuel ev (Read_data (header_bytes type 0 xid)) d = Fault Assertion"
    using assms(3,4) mq_empty_length [OF q assms(5)]
    by (simp add: secure_channel_read_def recv_from_secure_channel_def assert_then_def remaining_length_def
        RECEIVE_BUFFFER_SIZE_def header_bytes_def)
  ultimately show ?thesis ..
qed

theorem switch_message_ends_daemon_witness:
  "secure_channel_read 0 sample_env (Read_data (header_bytes OFPT_FEATURES_REQUEST 8 1)) sample_daemon = Fault Assertion"
  using switch_message_ends_daemon [OF sample_reachable sample_fields(1,5,6), of 0 sample_env 1 0] by (simp add: mq_create)

text \<open>
  C36.  Two management requests end the daemon as well.  To add a service to a list with no services,
  or to delete one from it, dies in \<open>find_list_custom\<close>; a request to set the services that announces
  none but carries a name writes behind its array.
\<close>

theorem management_request_ends_daemon:
  assumes "vendor_service_name_list d = []" and "c_name name"
  shows "management_recv EVENT_FORWARD_ENTRY_ADD
      (create_event_forward_operation_request [] EVENT_FORWARD_TYPE_VENDOR [name]) d = Fault Die \<and>
    management_recv EVENT_FORWARD_ENTRY_DELETE
      (create_event_forward_operation_request [] EVENT_FORWARD_TYPE_VENDOR [name]) d = Fault Die \<and>
    management_recv EVENT_FORWARD_ENTRY_SET
      ([EVENT_FORWARD_TYPE_VENDOR, 0, 0, 0] @ put32 0 @ name @ [0]) d = Fault Out_of_bounds"
proof -
  let ?m = "\<lambda>n. [EVENT_FORWARD_TYPE_VENDOR, 0, 0, 0] @ put32 n @ name @ [0]"
  have m: "create_event_forward_operation_request [] EVENT_FORWARD_TYPE_VENDOR [name] = ?m 1"
    by (simp add: request_fields)
  have r: "rd8 (?m n) 0 = Ok EVENT_FORWARD_TYPE_VENDOR" "rd32 (?m n) 4 = Ok n" "drop 8 (?m n) = name @ [0]" for n
    by (simp_all add: be_get_put, simp add: be_get_def)
  note run = management_recv_def management_event_forward_entry_operation_def r bnd.simps Let_def
    forward_entry_command_def assms(1)
  have add: "management_recv EVENT_FORWARD_ENTRY_ADD (?m 1) d = Fault Die"
    unfolding run by (simp add: entry_empty_dies)
  have delete: "management_recv EVENT_FORWARD_ENTRY_DELETE (?m 1) d = Fault Die"
    unfolding run by (simp add: entry_empty_dies)
  have "management_recv EVENT_FORWARD_ENTRY_SET (?m 0) d = Fault Out_of_bounds"
    unfolding run by (simp add: entries_set_overflow)
  with add delete show ?thesis unfolding m by blast
qed

theorem management_request_ends_daemon_witness:
  "management_recv EVENT_FORWARD_ENTRY_ADD
     (create_event_forward_operation_request [] EVENT_FORWARD_TYPE_VENDOR [[97]]) sample_daemon = Fault Die"
proof -
  have "vendor_service_name_list sample_daemon = []"
    by (simp add: sample_daemon_def sample_start_def start_switch_daemon_def switch_set_timeout_def Let_def
        service_send_state_def service_send_to_application_def)
  from management_request_ends_daemon [OF this, of "[97]"] show ?thesis by (simp add: c_name_def)
qed

end
