(* ===== verification/Application_Interface.thy ===== *)
theory Application_Interface
  imports Switch_Session Packet_Parser Ofm_Validate
begin

text \<open>
  The interface of a controller application (\<open>src/lib/openflow_application_interface.c\<close>): the
  registration of handlers, the dispatch of messages from the switch daemons to them, and the
  functions that send messages.

  The state is the record \<open>application\<close>: the static variables of the file, what is registered with
  the messenger, and what the process did: the calls of handlers in order, the messages handed to the
  messenger, the requests to the switch manager, the send queues that were cleared, and the
  statistics counters that were incremented.  A handler is a function pointer, a number here; a call
  of it is recorded with its arguments.  The record \<open>app_env\<close> is what comes from outside: the name of
  the process, its id, and whether the messenger accepts a message.
\<close>

section \<open>State\<close>

record event_handlers =
  simple_switch_ready_callback :: bool
  switch_ready_callback :: "nat option"
  switch_ready_user_data :: nat
  switch_disconnected_callback :: "nat option"
  switch_disconnected_user_data :: nat
  error_callback :: "nat option"
  error_user_data :: nat
  echo_reply_callback :: "nat option"
  echo_reply_user_data :: nat
  vendor_callback :: "nat option"
  vendor_user_data :: nat
  features_reply_callback :: "nat option"
  features_reply_user_data :: nat
  get_config_reply_callback :: "nat option"
  get_config_reply_user_data :: nat
  simple_packet_in_callback :: bool
  packet_in_callback :: "nat option"
  packet_in_user_data :: nat
  simple_flow_removed_callback :: bool
  flow_removed_callback :: "nat option"
  flow_removed_user_data :: nat
  port_status_callback :: "nat option"
  port_status_user_data :: nat
  stats_reply_callback :: "nat option"
  stats_reply_user_data :: nat
  barrier_reply_callback :: "nat option"
  barrier_reply_user_data :: nat
  queue_get_config_reply_callback :: "nat option"
  queue_get_config_reply_user_data :: nat
  list_switches_reply_callback :: "nat option"

definition no_handlers :: event_handlers where
  "no_handlers =
     \<lparr>simple_switch_ready_callback = False, switch_ready_callback = None, switch_ready_user_data = 0,
      switch_disconnected_callback = None, switch_disconnected_user_data = 0,
      error_callback = None, error_user_data = 0, echo_reply_callback = None, echo_reply_user_data = 0,
      vendor_callback = None, vendor_user_data = 0, features_reply_callback = None, features_reply_user_data = 0,
      get_config_reply_callback = None, get_config_reply_user_data = 0,
      simple_packet_in_callback = False, packet_in_callback = None, packet_in_user_data = 0,
      simple_flow_removed_callback = False, flow_removed_callback = None, flow_removed_user_data = 0,
      port_status_callback = None, port_status_user_data = 0, stats_reply_callback = None, stats_reply_user_data = 0,
      barrier_reply_callback = None, barrier_reply_user_data = 0,
      queue_get_config_reply_callback = None, queue_get_config_reply_user_data = 0,
      list_switches_reply_callback = None\<rparr>"

text \<open>The body of a statistics reply in host byte order.\<close>

datatype stats_body = Desc_body bytes | Flow_body "ofp_flow_stats list" | Aggregate_body ofp_aggregate_stats
  | Table_body "ofp_table_stats list" | Port_body "ofp_port_stats list" | Queue_body "ofp_queue_stats list"
  | Vendor_body "32 word" bytes

text \<open>
  The calls of handlers: the kind of the call where there are two, the handler, the arguments in the
  order of the source, and the user data.
\<close>

datatype upcall =
    Call_switch_ready bool nat "64 word" nat
  | Call_switch_disconnected nat "64 word" nat
  | Call_error nat "64 word" "32 word" "16 word" "16 word" bytes nat
  | Call_echo_reply nat "64 word" "32 word" "bytes option" nat
  | Call_vendor nat "64 word" "32 word" "32 word" "bytes option" nat
  | Call_features_reply nat "64 word" "32 word" "32 word" "8 word" "32 word" "32 word" "ofp_phy_port list" nat
  | Call_get_config_reply nat "64 word" "32 word" "16 word" "16 word" nat
  | Call_packet_in bool nat "64 word" "32 word" "32 word" "16 word" "16 word" "8 word" "(bytes \<times> packet_info) option" nat
  | Call_flow_removed bool nat "64 word" "32 word" ofp_match "64 word" "16 word" "8 word" "32 word" "32 word" "16 word"
      "64 word" "64 word" nat
  | Call_port_status nat "64 word" "32 word" "8 word" ofp_phy_port nat
  | Call_stats_reply nat "64 word" "32 word" "16 word" "16 word" "stats_body option" nat
  | Call_barrier_reply nat "64 word" "32 word" nat
  | Call_queue_get_config_reply nat "64 word" "32 word" "16 word" "ofp_packet_queue list" nat
  | Call_list_switches_reply nat "64 word list" nat

record application =
  openflow_application_interface_initialized :: bool
  app_handlers :: event_handlers
  app_service_name :: bytes
  app_transaction_id :: "32 word"
  app_cookie :: "64 word"
  received_callbacks :: "bytes list"
  replied_callbacks :: "bytes list"
  upcalls :: "upcall list"
  app_sent :: "(bytes \<times> 16 word \<times> bytes) list"
  app_requests :: "nat list"
  app_cleared :: "bytes list"
  app_stats :: "string list"

record app_env =
  app_trema_name :: bytes
  app_pid :: "32 word"
  app_send_ok :: bool

definition upcall :: "upcall \<Rightarrow> application \<Rightarrow> application" where
  "upcall c a = a\<lparr>upcalls := upcalls a @ [c]\<rparr>"

section \<open>Initialization and handlers\<close>

definition init_openflow_application_interface :: "app_env \<Rightarrow> bytes \<Rightarrow> application \<Rightarrow> bool \<times> application" where
  "init_openflow_application_interface ev custom_service_name a =
     (if openflow_application_interface_initialized a then (False, a)
      else
        let a = a\<lparr>app_handlers := no_handlers, app_service_name := []\<rparr> in
        if length custom_service_name + 1 > MESSENGER_SERVICE_NAME_LENGTH then (False, a)
        else (True, a\<lparr>app_service_name := custom_service_name,
               app_transaction_id := init_transaction_id (app_pid ev), app_cookie := init_cookie (app_pid ev),
               received_callbacks := received_callbacks a @ [custom_service_name],
               replied_callbacks := replied_callbacks a @ [custom_service_name],
               openflow_application_interface_initialized := True\<rparr>))"

definition maybe_init_openflow_application_interface :: "app_env \<Rightarrow> application \<Rightarrow> bool \<times> application" where
  "maybe_init_openflow_application_interface ev a =
     (if \<not> openflow_application_interface_initialized a
      then init_openflow_application_interface ev (app_trema_name ev) a else (True, a))"

definition finalize_openflow_application_interface :: "application \<Rightarrow> (bool \<times> application) res" where
  "finalize_openflow_application_interface a =
     assert_then (openflow_application_interface_initialized a)
      (Ok (True, a\<lparr>received_callbacks := remove1 (app_service_name a) (received_callbacks a),
             replied_callbacks := remove1 (app_service_name a) (replied_callbacks a),
             app_handlers := no_handlers, app_service_name := [],
             openflow_application_interface_initialized := False\<rparr>))"

text \<open>What most functions of the interface start with.\<close>

definition with_interface :: "app_env \<Rightarrow> (application \<Rightarrow> 'a res) \<Rightarrow> application \<Rightarrow> 'a res" where
  "with_interface ev f a =
     (let a = snd (maybe_init_openflow_application_interface ev a)
      in assert_then (openflow_application_interface_initialized a) (f a))"

definition set_openflow_event_handlers :: "app_env \<Rightarrow> event_handlers \<Rightarrow> application \<Rightarrow> (bool \<times> application) res" where
  "set_openflow_event_handlers ev handlers a = with_interface ev (\<lambda>a. Ok (True, a\<lparr>app_handlers := handlers\<rparr>)) a"

definition set_handler ::
  "app_env \<Rightarrow> nat option \<Rightarrow> (event_handlers \<Rightarrow> event_handlers) \<Rightarrow> application \<Rightarrow> (bool \<times> application) res" where
  "set_handler ev callback store a =
     die_unless (callback \<noteq> None)
      (with_interface ev (\<lambda>a. Ok (True, a\<lparr>app_handlers := store (app_handlers a)\<rparr>)) a)"

definition set_switch_ready_handler :: "app_env \<Rightarrow> bool \<Rightarrow> nat option \<Rightarrow> nat \<Rightarrow> application \<Rightarrow> (bool \<times> application) res" where
  "set_switch_ready_handler ev simple_callback callback user_data =
     set_handler ev callback (\<lambda>h. h\<lparr>simple_switch_ready_callback := simple_callback, switch_ready_callback := callback,
       switch_ready_user_data := user_data\<rparr>)"

definition set_switch_disconnected_handler :: "app_env \<Rightarrow> nat option \<Rightarrow> nat \<Rightarrow> application \<Rightarrow> (bool \<times> application) res" where
  "set_switch_disconnected_handler ev callback user_data =
     set_handler ev callback (\<lambda>h. h\<lparr>switch_disconnected_callback := callback, switch_disconnected_user_data := user_data\<rparr>)"

definition set_error_handler :: "app_env \<Rightarrow> nat option \<Rightarrow> nat \<Rightarrow> application \<Rightarrow> (bool \<times> application) res" where
  "set_error_handler ev callback user_data =
     set_handler ev callback (\<lambda>h. h\<lparr>error_callback := callback, error_user_data := user_data\<rparr>)"

definition set_echo_reply_handler :: "app_env \<Rightarrow> nat option \<Rightarrow> nat \<Rightarrow> application \<Rightarrow> (bool \<times> application) res" where
  "set_echo_reply_handler ev callback user_data =
     set_handler ev callback (\<lambda>h. h\<lparr>echo_reply_callback := callback, echo_reply_user_data := user_data\<rparr>)"

definition set_vendor_handler :: "app_env \<Rightarrow> nat option \<Rightarrow> nat \<Rightarrow> application \<Rightarrow> (bool \<times> application) res" where
  "set_vendor_handler ev callback user_data =
     set_handler ev callback (\<lambda>h. h\<lparr>vendor_callback := callback, vendor_user_data := user_data\<rparr>)"

definition set_features_reply_handler :: "app_env \<Rightarrow> nat option \<Rightarrow> nat \<Rightarrow> application \<Rightarrow> (bool \<times> application) res" where
  "set_features_reply_handler ev callback user_data =
     set_handler ev callback (\<lambda>h. h\<lparr>features_reply_callback := callback, features_reply_user_data := user_data\<rparr>)"

definition set_get_config_reply_handler :: "app_env \<Rightarrow> nat option \<Rightarrow> nat \<Rightarrow> application \<Rightarrow> (bool \<times> application) res" where
  "set_get_config_reply_handler ev callback user_data =
     set_handler ev callback (\<lambda>h. h\<lparr>get_config_reply_callback := callback, get_config_reply_user_data := user_data\<rparr>)"

definition set_packet_in_handler :: "app_env \<Rightarrow> bool \<Rightarrow> nat option \<Rightarrow> nat \<Rightarrow> application \<Rightarrow> (bool \<times> application) res" where
  "set_packet_in_handler ev simple_callback callback user_data =
     set_handler ev callback (\<lambda>h. h\<lparr>simple_packet_in_callback := simple_callback, packet_in_callback := callback,
       packet_in_user_data := user_data\<rparr>)"

definition set_flow_removed_handler :: "app_env \<Rightarrow> bool \<Rightarrow> nat option \<Rightarrow> nat \<Rightarrow> application \<Rightarrow> (bool \<times> application) res" where
  "set_flow_removed_handler ev simple_callback callback user_data =
     set_handler ev callback (\<lambda>h. h\<lparr>simple_flow_removed_callback := simple_callback, flow_removed_callback := callback,
       flow_removed_user_data := user_data\<rparr>)"

definition set_port_status_handler :: "app_env \<Rightarrow> nat option \<Rightarrow> nat \<Rightarrow> application \<Rightarrow> (bool \<times> application) res" where
  "set_port_status_handler ev callback user_data =
     set_handler ev callback (\<lambda>h. h\<lparr>port_status_callback := callback, port_status_user_data := user_data\<rparr>)"

definition set_stats_reply_handler :: "app_env \<Rightarrow> nat option \<Rightarrow> nat \<Rightarrow> application \<Rightarrow> (bool \<times> application) res" where
  "set_stats_reply_handler ev callback user_data =
     set_handler ev callback (\<lambda>h. h\<lparr>stats_reply_callback := callback, stats_reply_user_data := user_data\<rparr>)"

definition set_barrier_reply_handler :: "app_env \<Rightarrow> nat option \<Rightarrow> nat \<Rightarrow> application \<Rightarrow> (bool \<times> application) res" where
  "set_barrier_reply_handler ev callback user_data =
     set_handler ev callback (\<lambda>h. h\<lparr>barrier_reply_callback := callback, barrier_reply_user_data := user_data\<rparr>)"

definition set_queue_get_config_reply_handler :: "app_env \<Rightarrow> nat option \<Rightarrow> nat \<Rightarrow> application \<Rightarrow> (bool \<times> application) res" where
  "set_queue_get_config_reply_handler ev callback user_data =
     set_handler ev callback (\<lambda>h. h\<lparr>queue_get_config_reply_callback := callback,
       queue_get_config_reply_user_data := user_data\<rparr>)"

definition set_list_switches_reply_handler :: "app_env \<Rightarrow> nat option \<Rightarrow> application \<Rightarrow> (bool \<times> application) res" where
  "set_list_switches_reply_handler ev callback =
     set_handler ev callback (\<lambda>h. h\<lparr>list_switches_reply_callback := callback\<rparr>)"

section \<open>OpenFlow messages\<close>

text \<open>\<open>duplicate_buffer\<close> and \<open>remove_front_buffer\<close>, on the bytes of the message.\<close>

definition body_of :: "nat \<Rightarrow> bytes \<Rightarrow> bytes res" where
  "body_of n data = assert_then (n \<le> length data) (Ok (drop n data))"

definition handle_error :: "64 word \<Rightarrow> bytes \<Rightarrow> application \<Rightarrow> application res" where
  "handle_error datapath_id data a =
     assert_then (data \<noteq> [])
      (bnd (rd32 data 4) (\<lambda>transaction_id.
       bnd (rd16 data 8) (\<lambda>type.
       bnd (rd16 data 10) (\<lambda>code.
       bnd (body_of 12 data) (\<lambda>body.
       case error_callback (app_handlers a) of
         None \<Rightarrow> Ok a
       | Some f \<Rightarrow> Ok (upcall (Call_error f datapath_id transaction_id type code body (error_user_data (app_handlers a))) a))))))"

definition optional_body :: "nat \<Rightarrow> bytes \<Rightarrow> 16 word \<Rightarrow> bytes option res" where
  "optional_body n data body_length =
     (if body_length > 0 then bnd (body_of n data) (\<lambda>body. Ok (Some body)) else Ok None)"

definition handle_echo_reply :: "64 word \<Rightarrow> bytes \<Rightarrow> application \<Rightarrow> application res" where
  "handle_echo_reply datapath_id data a =
     assert_then (data \<noteq> [])
      (bnd (rd32 data 4) (\<lambda>transaction_id.
       bnd (rd16 data 2) (\<lambda>len.
       case echo_reply_callback (app_handlers a) of
         None \<Rightarrow> Ok a
       | Some f \<Rightarrow>
           bnd (optional_body 8 data (len - 8)) (\<lambda>body.
           Ok (upcall (Call_echo_reply f datapath_id transaction_id body (echo_reply_user_data (app_handlers a))) a)))))"

definition handle_vendor :: "64 word \<Rightarrow> bytes \<Rightarrow> application \<Rightarrow> application res" where
  "handle_vendor datapath_id data a =
     assert_then (data \<noteq> [])
      (bnd (rd32 data 4) (\<lambda>transaction_id.
       bnd (rd32 data 8) (\<lambda>vendor.
       bnd (rd16 data 2) (\<lambda>len.
       case vendor_callback (app_handlers a) of
         None \<Rightarrow> Ok a
       | Some f \<Rightarrow>
           bnd (optional_body 12 data (len - 12)) (\<lambda>body.
           Ok (upcall (Call_vendor f datapath_id transaction_id vendor body (vendor_user_data (app_handlers a))) a))))))"

fun read_phy_ports :: "nat \<Rightarrow> bytes \<Rightarrow> nat \<Rightarrow> ofp_phy_port list res" where
  "read_phy_ports 0 m i = Ok []"
| "read_phy_ports (Suc n) m i = bnd (ntoh_phy_port m i) (\<lambda>p. bnd (read_phy_ports n m (i + 48)) (\<lambda>ps. Ok (p # ps)))"

definition handle_features_reply :: "64 word \<Rightarrow> bytes \<Rightarrow> application \<Rightarrow> application res" where
  "handle_features_reply datapath_id data a =
     assert_then (data \<noteq> [])
      (bnd (rd32 data 4) (\<lambda>transaction_id.
       bnd (rd32 data 16) (\<lambda>n_buffers.
       bnd (rd8 data 20) (\<lambda>n_tables.
       bnd (rd32 data 24) (\<lambda>capabilities.
       bnd (rd32 data 28) (\<lambda>actions.
       bnd (rd16 data 2) (\<lambda>len.
       bnd (read_phy_ports (unat (len - 32) div 48) data 32) (\<lambda>phy_ports.
       case features_reply_callback (app_handlers a) of
         None \<Rightarrow> Ok a
       | Some f \<Rightarrow> Ok (upcall (Call_features_reply f datapath_id transaction_id n_buffers n_tables capabilities actions phy_ports
             (features_reply_user_data (app_handlers a))) a)))))))))"

definition handle_get_config_reply :: "64 word \<Rightarrow> bytes \<Rightarrow> application \<Rightarrow> application res" where
  "handle_get_config_reply datapath_id data a =
     assert_then (data \<noteq> [])
      (bnd (rd32 data 4) (\<lambda>transaction_id.
       bnd (rd16 data 8) (\<lambda>flags.
       bnd (rd16 data 10) (\<lambda>miss_send_len.
       case get_config_reply_callback (app_handlers a) of
         None \<Rightarrow> Ok a
       | Some f \<Rightarrow> Ok (upcall (Call_get_config_reply f datapath_id transaction_id flags miss_send_len
             (get_config_reply_user_data (app_handlers a))) a)))))"

text \<open>\<open>parse_packet\<close> returns true for every frame it returns for.\<close>

definition handle_packet_in :: "64 word \<Rightarrow> bytes \<Rightarrow> application \<Rightarrow> application res" where
  "handle_packet_in datapath_id data a =
     die_unless (data \<noteq> [])
      (bnd (rd32 data 4) (\<lambda>transaction_id.
       bnd (rd32 data 8) (\<lambda>buffer_id.
       bnd (rd16 data 12) (\<lambda>total_len.
       bnd (rd16 data 14) (\<lambda>in_port.
       bnd (rd8 data 16) (\<lambda>reason.
       bnd (rd16 data 2) (\<lambda>len.
       case packet_in_callback (app_handlers a) of
         None \<Rightarrow> Ok a
       | Some f \<Rightarrow>
           bnd (optional_body 18 data (len - 18)) (\<lambda>body.
           bnd (case body of None \<Rightarrow> Ok None | Some m \<Rightarrow> bnd (parse_packet m) (\<lambda>info. Ok (Some (m, info)))) (\<lambda>packet.
           Ok (upcall (Call_packet_in (simple_packet_in_callback (app_handlers a)) f datapath_id transaction_id buffer_id
                 total_len in_port reason packet (packet_in_user_data (app_handlers a))) a))))))))))"

definition handle_flow_removed :: "64 word \<Rightarrow> bytes \<Rightarrow> application \<Rightarrow> application res" where
  "handle_flow_removed datapath_id data a =
     assert_then (data \<noteq> [])
      (bnd (rd32 data 4) (\<lambda>transaction_id.
       bnd (ntoh_match data 8) (\<lambda>match.
       bnd (rd64 data 48) (\<lambda>cookie.
       bnd (rd16 data 56) (\<lambda>priority.
       bnd (rd8 data 58) (\<lambda>reason.
       bnd (rd32 data 60) (\<lambda>duration_sec.
       bnd (rd32 data 64) (\<lambda>duration_nsec.
       bnd (rd16 data 68) (\<lambda>idle_timeout.
       bnd (rd64 data 72) (\<lambda>packet_count.
       bnd (rd64 data 80) (\<lambda>byte_count.
       case flow_removed_callback (app_handlers a) of
         None \<Rightarrow> Ok a
       | Some f \<Rightarrow>
           Ok (upcall (Call_flow_removed (simple_flow_removed_callback (app_handlers a)) f datapath_id transaction_id match cookie
                 priority reason duration_sec duration_nsec idle_timeout packet_count byte_count
                 (flow_removed_user_data (app_handlers a))) a))))))))))))"

definition handle_port_status :: "64 word \<Rightarrow> bytes \<Rightarrow> application \<Rightarrow> application res" where
  "handle_port_status datapath_id data a =
     assert_then (data \<noteq> [])
      (bnd (rd32 data 4) (\<lambda>transaction_id.
       bnd (rd8 data 8) (\<lambda>reason.
       bnd (ntoh_phy_port data 16) (\<lambda>phy_port.
       case port_status_callback (app_handlers a) of
         None \<Rightarrow> Ok a
       | Some f \<Rightarrow> Ok (upcall (Call_port_status f datapath_id transaction_id reason phy_port
             (port_status_user_data (app_handlers a))) a)))))"

text \<open>
  The loops over the entries of a statistics body, with the length that is left in 16 bits.  Entries
  of a fixed size: every turn reads behind the ones before, so as much fuel as there are bytes is
  enough.
\<close>

fun read_stats :: "nat \<Rightarrow> (bytes \<Rightarrow> nat \<Rightarrow> 'a res) \<Rightarrow> nat \<Rightarrow> bytes \<Rightarrow> nat \<Rightarrow> 16 word \<Rightarrow> 'a list res" where
  "read_stats 0 ntoh sz m i body_length = Fault No_return"
| "read_stats (Suc fuel) ntoh sz m i body_length =
     (if body_length > 0
      then bnd (ntoh m i) (\<lambda>s. bnd (read_stats fuel ntoh sz m (i + sz) (body_length - of_nat sz)) (\<lambda>ss. Ok (s # ss)))
      else Ok [])"

fun read_flow_stats :: "nat \<Rightarrow> bytes \<Rightarrow> nat \<Rightarrow> 16 word \<Rightarrow> ofp_flow_stats list res" where
  "read_flow_stats 0 m i body_length = Fault No_return"
| "read_flow_stats (Suc fuel) m i body_length =
     (if body_length > 0
      then bnd (ntoh_flow_stats fuel m i) (\<lambda>s.
           bnd (read_flow_stats fuel m (i + unat (fs_length s)) (body_length - fs_length s)) (\<lambda>ss. Ok (s # ss)))
      else Ok [])"

definition stats_body_of :: "nat \<Rightarrow> 16 word \<Rightarrow> bytes \<Rightarrow> 16 word \<Rightarrow> stats_body res" where
  "stats_body_of fuel type body body_length =
     (let n = Suc (length body) in
      if type = OFPST_DESC then Ok (Desc_body body)
      else if type = OFPST_FLOW then bnd (read_flow_stats fuel body 0 body_length) (\<lambda>ss. Ok (Flow_body ss))
      else if type = OFPST_AGGREGATE then bnd (ntoh_aggregate_stats body 0) (\<lambda>s. Ok (Aggregate_body s))
      else if type = OFPST_TABLE then bnd (read_stats n ntoh_table_stats 64 body 0 body_length) (\<lambda>ss. Ok (Table_body ss))
      else if type = OFPST_PORT then bnd (read_stats n ntoh_port_stats 104 body 0 body_length) (\<lambda>ss. Ok (Port_body ss))
      else if type = OFPST_QUEUE then bnd (read_stats n ntoh_queue_stats 32 body 0 body_length) (\<lambda>ss. Ok (Queue_body ss))
      else if type = OFPST_VENDOR then bnd (rd32 body 0) (\<lambda>vendor. Ok (Vendor_body vendor (drop 4 body)))
      else Fault Assertion)"

definition handle_stats_reply :: "nat \<Rightarrow> 64 word \<Rightarrow> bytes \<Rightarrow> application \<Rightarrow> application res" where
  "handle_stats_reply fuel datapath_id data a =
     assert_then (data \<noteq> [])
      (bnd (rd32 data 4) (\<lambda>transaction_id.
       bnd (rd16 data 8) (\<lambda>type.
       bnd (rd16 data 10) (\<lambda>flags.
       bnd (rd16 data 2) (\<lambda>len.
       case stats_reply_callback (app_handlers a) of
         None \<Rightarrow> Ok a
       | Some f \<Rightarrow>
           bnd (optional_body 12 data (len - 12)) (\<lambda>body.
           bnd (case body of None \<Rightarrow> Ok None
                | Some b \<Rightarrow> bnd (stats_body_of fuel type b (len - 12)) (\<lambda>h. Ok (Some h))) (\<lambda>body_h.
           Ok (upcall (Call_stats_reply f datapath_id transaction_id type flags body_h
                 (stats_reply_user_data (app_handlers a))) a))))))))"

definition handle_barrier_reply :: "64 word \<Rightarrow> bytes \<Rightarrow> application \<Rightarrow> application res" where
  "handle_barrier_reply datapath_id data a =
     assert_then (data \<noteq> [])
      (bnd (rd32 data 4) (\<lambda>transaction_id.
       case barrier_reply_callback (app_handlers a) of
         None \<Rightarrow> Ok a
       | Some f \<Rightarrow> Ok (upcall (Call_barrier_reply f datapath_id transaction_id (barrier_reply_user_data (app_handlers a))) a)))"

fun read_packet_queues :: "nat \<Rightarrow> bytes \<Rightarrow> nat \<Rightarrow> 16 word \<Rightarrow> ofp_packet_queue list res" where
  "read_packet_queues 0 m i queues_length = Fault No_return"
| "read_packet_queues (Suc fuel) m i queues_length =
     (if queues_length > 0
      then bnd (ntoh_packet_queue fuel m i) (\<lambda>pq.
           bnd (read_packet_queues fuel m (i + unat (pq_len pq)) (queues_length - pq_len pq)) (\<lambda>pqs. Ok (pq # pqs)))
      else Ok [])"

definition handle_queue_get_config_reply :: "nat \<Rightarrow> 64 word \<Rightarrow> bytes \<Rightarrow> application \<Rightarrow> application res" where
  "handle_queue_get_config_reply fuel datapath_id data a =
     assert_then (data \<noteq> [])
      (bnd (rd32 data 4) (\<lambda>transaction_id.
       bnd (rd16 data 8) (\<lambda>port.
       bnd (rd16 data 2) (\<lambda>len.
       case queue_get_config_reply_callback (app_handlers a) of
         None \<Rightarrow> Ok a
       | Some f \<Rightarrow>
           assert_then (len - 16 > 0)
            (bnd (read_packet_queues fuel data 16 (len - 16)) (\<lambda>queues.
             Ok (upcall (Call_queue_get_config_reply f datapath_id transaction_id port queues
                   (queue_get_config_reply_user_data (app_handlers a))) a)))))))"

section \<open>Statistics counters\<close>

datatype direction = OPENFLOW_MESSAGE_SEND | OPENFLOW_MESSAGE_RECEIVE

definition STAT_KEY_LENGTH :: nat where
  "STAT_KEY_LENGTH = 256"

definition stat_key :: "string \<Rightarrow> direction \<Rightarrow> bool \<Rightarrow> string" where
  "stat_key name send_receive result =
     take (STAT_KEY_LENGTH - 1)
      (''openflow_application_interface.'' @ name @
       (case send_receive of OPENFLOW_MESSAGE_SEND \<Rightarrow> ''_send'' | OPENFLOW_MESSAGE_RECEIVE \<Rightarrow> ''_receive'') @
       (if result then ''_succeeded'' else ''_failed''))"

definition switch_event_name :: "16 word \<Rightarrow> string" where
  "switch_event_name type =
     (if type = MESSENGER_OPENFLOW_CONNECTED then ''switch_connected''
      else if type = MESSENGER_OPENFLOW_READY then ''switch_ready''
      else if type = MESSENGER_OPENFLOW_DISCONNECTED then ''switch_disconnected''
      else if type = MESSENGER_OPENFLOW_FAILD_TO_CONNECT then ''switch_failed_to_connect''
      else ''undefined_switch_event'')"

definition update_switch_event_stats :: "16 word \<Rightarrow> direction \<Rightarrow> bool \<Rightarrow> application \<Rightarrow> application" where
  "update_switch_event_stats type send_receive result a =
     a\<lparr>app_stats := app_stats a @ [stat_key (switch_event_name type) send_receive result]\<rparr>"

definition openflow_message_name :: "8 word \<Rightarrow> string" where
  "openflow_message_name type =
     (if type = OFPT_HELLO then ''hello''
      else if type = OFPT_ERROR then ''error''
      else if type = OFPT_ECHO_REQUEST then ''echo_request''
      else if type = OFPT_ECHO_REPLY then ''echo_reply''
      else if type = OFPT_VENDOR then ''vendor''
      else if type = OFPT_FEATURES_REQUEST then ''features_request''
      else if type = OFPT_FEATURES_REPLY then ''features_reply''
      else if type = OFPT_GET_CONFIG_REQUEST then ''get_config_request''
      else if type = OFPT_GET_CONFIG_REPLY then ''get_config_reply''
      else if type = OFPT_SET_CONFIG then ''set_config''
      else if type = OFPT_PACKET_IN then ''packet_in''
      else if type = OFPT_FLOW_REMOVED then ''flow_removed''
      else if type = OFPT_PORT_STATUS then ''port_status''
      else if type = OFPT_PACKET_OUT then ''packet_out''
      else if type = OFPT_FLOW_MOD then ''flow_mod''
      else if type = OFPT_PORT_MOD then ''port_mod''
      else if type = OFPT_STATS_REQUEST then ''stats_request''
      else if type = OFPT_STATS_REPLY then ''stats_reply''
      else if type = OFPT_BARRIER_REQUEST then ''barrier_request''
      else if type = OFPT_BARRIER_REPLY then ''barrier_reply''
      else if type = OFPT_QUEUE_GET_CONFIG_REQUEST then ''queue_get_config_request''
      else if type = OFPT_QUEUE_GET_CONFIG_REPLY then ''queue_get_config_reply''
      else ''undefined_message_type'')"

definition update_openflow_stats :: "8 word \<Rightarrow> direction \<Rightarrow> bool \<Rightarrow> application \<Rightarrow> application" where
  "update_openflow_stats type send_receive result a =
     a\<lparr>app_stats := app_stats a @ [stat_key (openflow_message_name type) send_receive result]\<rparr>"

section \<open>Switch events and dispatch\<close>

definition remote_service_name :: "64 word \<Rightarrow> bytes" where
  "remote_service_name datapath_id = truncated (switch_name datapath_id)"

definition delete_openflow_messages :: "64 word \<Rightarrow> application \<Rightarrow> application" where
  "delete_openflow_messages datapath_id a = a\<lparr>app_cleared := app_cleared a @ [remote_service_name datapath_id]\<rparr>"

definition handle_switch_ready :: "64 word \<Rightarrow> application \<Rightarrow> application" where
  "handle_switch_ready datapath_id a =
     (case switch_ready_callback (app_handlers a) of
        None \<Rightarrow> a
      | Some f \<Rightarrow> upcall (Call_switch_ready (simple_switch_ready_callback (app_handlers a)) f datapath_id
          (switch_ready_user_data (app_handlers a))) a)"

definition handle_messenger_openflow_disconnected :: "64 word \<Rightarrow> application \<Rightarrow> application" where
  "handle_messenger_openflow_disconnected datapath_id a =
     delete_openflow_messages datapath_id
      (case switch_disconnected_callback (app_handlers a) of
         None \<Rightarrow> a
       | Some f \<Rightarrow> upcall (Call_switch_disconnected f datapath_id (switch_disconnected_user_data (app_handlers a))) a)"

definition handle_switch_events :: "16 word \<Rightarrow> bytes \<Rightarrow> application \<Rightarrow> application res" where
  "handle_switch_events type data a =
     assert_then (length data = 10)
      (bnd (rd64 data 0) (\<lambda>datapath_id.
       let a = (if type = MESSENGER_OPENFLOW_CONNECTED \<or> type = MESSENGER_OPENFLOW_FAILD_TO_CONNECT then a
                else if type = MESSENGER_OPENFLOW_READY then handle_switch_ready datapath_id a
                else if type = MESSENGER_OPENFLOW_DISCONNECTED then handle_messenger_openflow_disconnected datapath_id a
                else a)
       in Ok (update_switch_event_stats type OPENFLOW_MESSAGE_RECEIVE True a)))"

definition dispatch_openflow_message :: "nat \<Rightarrow> 8 word \<Rightarrow> 64 word \<Rightarrow> bytes \<Rightarrow> application \<Rightarrow> application res" where
  "dispatch_openflow_message fuel type datapath_id buffer a =
     (if type = OFPT_ERROR then handle_error datapath_id buffer a
      else if type = OFPT_ECHO_REPLY then handle_echo_reply datapath_id buffer a
      else if type = OFPT_VENDOR then handle_vendor datapath_id buffer a
      else if type = OFPT_FEATURES_REPLY then handle_features_reply datapath_id buffer a
      else if type = OFPT_GET_CONFIG_REPLY then handle_get_config_reply datapath_id buffer a
      else if type = OFPT_PACKET_IN then handle_packet_in datapath_id buffer a
      else if type = OFPT_FLOW_REMOVED then handle_flow_removed datapath_id buffer a
      else if type = OFPT_PORT_STATUS then handle_port_status datapath_id buffer a
      else if type = OFPT_STATS_REPLY then handle_stats_reply fuel datapath_id buffer a
      else if type = OFPT_BARRIER_REPLY then handle_barrier_reply datapath_id buffer a
      else if type = OFPT_QUEUE_GET_CONFIG_REPLY then handle_queue_get_config_reply fuel datapath_id buffer a
      else Ok a)"

definition handle_openflow_message_app :: "nat \<Rightarrow> bytes \<Rightarrow> application \<Rightarrow> application res" where
  "handle_openflow_message_app fuel data a =
     assert_then (length data \<ge> 10 + 8)
      (bnd (rd64 data 0) (\<lambda>datapath_id.
       bnd (body_of 10 data) (\<lambda>buffer.
       bnd (validate_openflow_message fuel buffer) (\<lambda>ret.
       if ret < 0 then Ok a
       else bnd (rd8 buffer 1) (\<lambda>type.
            bnd (dispatch_openflow_message fuel type datapath_id buffer a) (\<lambda>a.
            Ok (update_openflow_stats type OPENFLOW_MESSAGE_RECEIVE True a)))))))"

definition handle_message :: "nat \<Rightarrow> 16 word \<Rightarrow> bytes \<Rightarrow> application \<Rightarrow> application res" where
  "handle_message fuel type data a =
     assert_then (length data \<ge> 10)
      (if type = MESSENGER_OPENFLOW_MESSAGE then handle_openflow_message_app fuel data a
       else if type = MESSENGER_OPENFLOW_CONNECTED \<or> type = MESSENGER_OPENFLOW_FAILD_TO_CONNECT \<or>
               type = MESSENGER_OPENFLOW_READY \<or> type = MESSENGER_OPENFLOW_DISCONNECTED
       then handle_switch_events type data a
       else Ok (update_switch_event_stats type OPENFLOW_MESSAGE_RECEIVE True a))"

section \<open>The list of switches\<close>

text \<open>
  \<open>insert_dpid\<close> looks for the first element that is not less.  The elements before that one are less,
  so the search of \<open>insert_before\<close> for its address is the search for its value.
\<close>

fun first_not_less :: "64 word \<Rightarrow> 64 word list \<Rightarrow> nat \<Rightarrow> nat option" where
  "first_not_less dpid [] i = None"
| "first_not_less dpid (e # es) i = (if dpid \<le> e then Some i else first_not_less dpid es (Suc i))"

definition insert_dpid :: "64 word list \<Rightarrow> 64 word \<Rightarrow> 64 word list res" where
  "insert_dpid head dpid =
     (case first_not_less dpid head 0 of
        None \<Rightarrow> Ok (append_to_tail head dpid)
      | Some i \<Rightarrow> if i = 0 then Ok (insert_in_front head dpid)
                  else bnd (insert_before head (head ! i) dpid) (\<lambda>(head, _). Ok head))"

fun insert_dpids :: "nat \<Rightarrow> bytes \<Rightarrow> nat \<Rightarrow> 64 word list \<Rightarrow> 64 word list res" where
  "insert_dpids 0 data i switches = Ok switches"
| "insert_dpids (Suc n) data i switches =
     bnd (rd64 data i) (\<lambda>dpid. bnd (insert_dpid switches dpid) (insert_dpids n data (i + 8)))"

definition handle_list_switches_reply :: "bytes \<Rightarrow> nat \<Rightarrow> application \<Rightarrow> application res" where
  "handle_list_switches_reply data user_data a =
     (case list_switches_reply_callback (app_handlers a) of
        None \<Rightarrow> Ok a
      | Some f \<Rightarrow> bnd (insert_dpids (length data div 8) data 0 create_list) (\<lambda>switches.
                   Ok (upcall (Call_list_switches_reply f switches user_data) a)))"

section \<open>Sending\<close>

definition send_openflow_message :: "app_env \<Rightarrow> 64 word \<Rightarrow> bytes \<Rightarrow> application \<Rightarrow> (bool \<times> application) res" where
  "send_openflow_message ev datapath_id message =
     with_interface ev (\<lambda>a.
       assert_then (message \<noteq> [])
        (bnd (rd_struct 8 message 0) (\<lambda>ofp.
         let data = put64 datapath_id @ put16 (of_nat (length (app_service_name a) + 1)) @ app_service_name a @ [0] @ message;
             a = (if app_send_ok ev
                  then a\<lparr>app_sent := app_sent a @ [(remote_service_name datapath_id, MESSENGER_OPENFLOW_MESSAGE, data)]\<rparr> else a)
         in Ok (app_send_ok ev, update_openflow_stats (fld 1 ofp 1) OPENFLOW_MESSAGE_SEND (app_send_ok ev) a))))"

definition send_list_switches_request :: "app_env \<Rightarrow> nat \<Rightarrow> application \<Rightarrow> (bool \<times> application) res" where
  "send_list_switches_request ev user_data =
     with_interface ev (\<lambda>a.
       Ok (app_send_ok ev, if app_send_ok ev then a\<lparr>app_requests := app_requests a @ [user_data]\<rparr> else a))"

definition disconnect_switch :: "app_env \<Rightarrow> 64 word \<Rightarrow> application \<Rightarrow> (bool \<times> application) res" where
  "disconnect_switch ev datapath_id =
     with_interface ev (\<lambda>a.
       let data = put64 datapath_id @ put16 (of_nat (length (app_service_name a) + 1)) @ app_service_name a @ [0]
       in Ok (app_send_ok ev, if app_send_ok ev
            then a\<lparr>app_sent := app_sent a @ [(remote_service_name datapath_id, MESSENGER_OPENFLOW_DISCONNECT_REQUEST, data)]\<rparr>
            else a))"

end
