(* ===== verification/Application_Delivery.thy ===== *)
theory Application_Delivery
  imports Application_Interface Ofm_Valid_Create
begin

text \<open>
  What the dispatch of the application interface does with a message: the contract of the message
  handlers as a locale, interpreted on the eleven handlers of the source, and what a handler is
  called with when the message was built by a constructor.
\<close>

section \<open>The contract of the message handlers\<close>

primrec callee :: "upcall \<Rightarrow> nat" where
  "callee (Call_switch_ready simple f dpid user_data) = f"
| "callee (Call_switch_disconnected f dpid user_data) = f"
| "callee (Call_error f dpid xid type code body user_data) = f"
| "callee (Call_echo_reply f dpid xid body user_data) = f"
| "callee (Call_vendor f dpid xid vendor body user_data) = f"
| "callee (Call_features_reply f dpid xid n_buffers n_tables capabilities actions ports user_data) = f"
| "callee (Call_get_config_reply f dpid xid flags send_len user_data) = f"
| "callee (Call_packet_in simple f dpid xid buffer_id total_len port reason body user_data) = f"
| "callee (Call_flow_removed simple f dpid xid match cookie priority reason dsec dnsec idle packets bytes user_data) = f"
| "callee (Call_port_status f dpid xid reason port user_data) = f"
| "callee (Call_stats_reply f dpid xid type flags body user_data) = f"
| "callee (Call_barrier_reply f dpid xid user_data) = f"
| "callee (Call_queue_get_config_reply f dpid xid port queues user_data) = f"
| "callee (Call_list_switches_reply f switches user_data) = f"

lemma upcall_fields [simp]:
  "upcalls (upcall c a) = upcalls a @ [c]" "app_handlers (upcall c a) = app_handlers a"
  by (simp_all add: upcall_def)

text \<open>A handler returns with the state as it was, or with one call of the registered function.\<close>

definition calls_at_most :: "nat option \<Rightarrow> application \<Rightarrow> application res \<Rightarrow> bool" where
  "calls_at_most callback a r \<longleftrightarrow>
     (\<forall>a'. r = Ok a' \<longrightarrow>
       (case callback of None \<Rightarrow> a' = a | Some f \<Rightarrow> \<exists>c. callee c = f \<and> a' = upcall c a))"

lemma calls_at_most_Ok: "calls_at_most cb a (Ok a') \<longleftrightarrow> (case cb of None \<Rightarrow> a' = a | Some f \<Rightarrow> \<exists>c. callee c = f \<and> a' = upcall c a)"
  by (simp add: calls_at_most_def)

lemma calls_at_most_Fault [simp]: "calls_at_most cb a (Fault e)"
  by (simp add: calls_at_most_def)

lemma calls_at_most_bnd [intro!]: "(\<And>x. calls_at_most cb a (f x)) \<Longrightarrow> calls_at_most cb a (bnd r f)"
  by (cases r) auto

lemma calls_at_most_assert [intro!]:
  "calls_at_most cb a r \<Longrightarrow> calls_at_most cb a (assert_then P r)"
  "calls_at_most cb a r \<Longrightarrow> calls_at_most cb a (die_unless P r)"
  by (simp_all add: assert_then_def die_unless_def)

lemma calls_at_most_call [intro!]: "callee c = f \<Longrightarrow> calls_at_most (Some f) a (Ok (upcall c a))"
  by (auto simp: calls_at_most_Ok)

lemma calls_at_most_none [intro!]: "calls_at_most None a (Ok a)"
  by (simp add: calls_at_most_Ok)

locale message_handler =
  fixes handle :: "64 word \<Rightarrow> bytes \<Rightarrow> application \<Rightarrow> application res"
    and callback :: "event_handlers \<Rightarrow> nat option"
  assumes calls: "calls_at_most (callback (app_handlers a)) a (handle datapath_id data a)"
begin

lemma unhandled: "handle datapath_id data a = Ok a' \<Longrightarrow> callback (app_handlers a) = None \<Longrightarrow> a' = a"
  using calls [of a datapath_id data] by (simp add: calls_at_most_def)

lemma one_call:
  assumes "handle datapath_id data a = Ok a'" and "callback (app_handlers a) = Some f"
  obtains c where "callee c = f" and "a' = upcall c a"
  using calls [of a datapath_id data] assms by (auto simp: calls_at_most_def)

lemma new_calls:
  assumes "handle datapath_id data a = Ok a'"
  shows "app_handlers a' = app_handlers a \<and> app_sent a' = app_sent a \<and> app_stats a' = app_stats a \<and>
    (\<exists>cs. upcalls a' = upcalls a @ cs \<and> map (\<lambda>c. Some (callee c)) cs = (if callback (app_handlers a) = None then []
       else [callback (app_handlers a)]))"
proof (cases "callback (app_handlers a)")
  case None
  then show ?thesis using unhandled [OF assms] by simp
next
  case (Some f)
  then obtain c where "callee c = f" "a' = upcall c a" using one_call [OF assms] by blast
  then show ?thesis using Some by (auto simp: upcall_def)
qed

end

interpretation h_error: message_handler handle_error error_callback
  by unfold_locales (auto simp: handle_error_def split: option.split)

interpretation h_echo_reply: message_handler handle_echo_reply echo_reply_callback
  by unfold_locales (auto simp: handle_echo_reply_def split: option.split)

interpretation h_vendor: message_handler handle_vendor vendor_callback
  by unfold_locales (auto simp: handle_vendor_def split: option.split)

interpretation h_features_reply: message_handler handle_features_reply features_reply_callback
  by unfold_locales (auto simp: handle_features_reply_def split: option.split)

interpretation h_get_config_reply: message_handler handle_get_config_reply get_config_reply_callback
  by unfold_locales (auto simp: handle_get_config_reply_def split: option.split)

interpretation h_packet_in: message_handler handle_packet_in packet_in_callback
  by unfold_locales (auto simp: handle_packet_in_def split: option.split)

interpretation h_flow_removed: message_handler handle_flow_removed flow_removed_callback
  by unfold_locales (auto simp: handle_flow_removed_def split: option.split)

interpretation h_port_status: message_handler handle_port_status port_status_callback
  by unfold_locales (auto simp: handle_port_status_def split: option.split)

interpretation h_stats_reply: message_handler "handle_stats_reply fuel" stats_reply_callback for fuel
  by unfold_locales (auto simp: handle_stats_reply_def split: option.split)

interpretation h_barrier_reply: message_handler handle_barrier_reply barrier_reply_callback
  by unfold_locales (auto simp: handle_barrier_reply_def split: option.split)

interpretation h_queue_get_config_reply:
  message_handler "handle_queue_get_config_reply fuel" queue_get_config_reply_callback for fuel
  by unfold_locales (auto simp: handle_queue_get_config_reply_def split: option.split)

text \<open>The handler a message type is for; a type no handler is for has none.\<close>

definition callback_for :: "8 word \<Rightarrow> event_handlers \<Rightarrow> nat option" where
  "callback_for type h =
     (if type = OFPT_ERROR then error_callback h
      else if type = OFPT_ECHO_REPLY then echo_reply_callback h
      else if type = OFPT_VENDOR then vendor_callback h
      else if type = OFPT_FEATURES_REPLY then features_reply_callback h
      else if type = OFPT_GET_CONFIG_REPLY then get_config_reply_callback h
      else if type = OFPT_PACKET_IN then packet_in_callback h
      else if type = OFPT_FLOW_REMOVED then flow_removed_callback h
      else if type = OFPT_PORT_STATUS then port_status_callback h
      else if type = OFPT_STATS_REPLY then stats_reply_callback h
      else if type = OFPT_BARRIER_REPLY then barrier_reply_callback h
      else if type = OFPT_QUEUE_GET_CONFIG_REPLY then queue_get_config_reply_callback h
      else None)"

interpretation h_message: message_handler "dispatch_openflow_message fuel type" "callback_for type" for fuel type
  by unfold_locales
    (simp add: dispatch_openflow_message_def callback_for_def h_error.calls h_echo_reply.calls h_vendor.calls
      h_features_reply.calls h_get_config_reply.calls h_packet_in.calls h_flow_removed.calls h_port_status.calls
      h_stats_reply.calls h_barrier_reply.calls h_queue_get_config_reply.calls calls_at_most_none)

section \<open>What a handler is called with\<close>

text \<open>A message as the switch daemon hands it to the messenger.\<close>

abbreviation "from_switch \<equiv> \<lambda>datapath_id m. create_openflow_application_message (Some datapath_id) (Some m)"

lemma handle_message_valid:
  assumes "validate_openflow_message fuel m = Ok 0" and "rd8 m 1 = Ok type" and "8 \<le> length m"
  shows "handle_message fuel MESSENGER_OPENFLOW_MESSAGE (from_switch datapath_id m) a =
     bnd (dispatch_openflow_message fuel type datapath_id m a)
       (\<lambda>a. Ok (update_openflow_stats type OPENFLOW_MESSAGE_RECEIVE True a))"
proof -
  let ?d = "put64 datapath_id @ put16 0 @ m"
  have d: "from_switch datapath_id m = ?d" by (simp add: create_openflow_application_message_def)
  have "rd64 ?d 0 = Ok datapath_id" "body_of 10 ?d = Ok m"
    by (simp_all add: be_get_put body_of_def assert_then_def)
  then show ?thesis using assms unfolding d handle_message_def handle_openflow_message_app_def
    by (simp add: assert_then_def del: rd_in)
qed

definition received :: "8 word \<Rightarrow> upcall \<Rightarrow> application \<Rightarrow> application" where
  "received type c a = update_openflow_stats type OPENFLOW_MESSAGE_RECEIVE True (upcall c a)"

lemma received_fields:
  "upcalls (received type c a) = upcalls a @ [c]" "app_handlers (received type c a) = app_handlers a"
  "app_stats (received type c a) = app_stats a @ [stat_key (openflow_message_name type) OPENFLOW_MESSAGE_RECEIVE True]"
  "app_sent (received type c a) = app_sent a"
  by (simp_all add: received_def update_openflow_stats_def upcall_def)

lemma rd_header_xid: "rd32 (header_bytes type len xid @ rest) 4 = Ok xid"
  by (simp add: header_bytes_def be_get_put)

lemmas header_fields = rd_header_fields rd_header_xid

lemma handle_message_created:
  assumes "validate_openflow_message fuel (header_bytes type len xid @ rest) = Ok 0"
    and "dispatch_openflow_message fuel type datapath_id (header_bytes type len xid @ rest) a = Ok (upcall c a)"
  shows "handle_message fuel MESSENGER_OPENFLOW_MESSAGE (from_switch datapath_id (header_bytes type len xid @ rest)) a =
     Ok (received type c a)"
  unfolding handle_message_valid [OF assms(1) rd_header_fields(2), simplified] assms(2) received_def by simp

lemma optional_body_created:
  assumes "unat body_length = length body" and "length pre = n"
  shows "optional_body n (pre @ body) body_length = Ok (if body = [] then None else Some body)"
proof -
  have "body_length > 0 \<longleftrightarrow> body \<noteq> []" using assms(1) by (auto simp: word_less_nat_alt)
  then show ?thesis using assms(2) by (auto simp: optional_body_def body_of_def assert_then_def)
qed

lemma read_phy_ports_created:
  assumes "length pre = i"
  shows "read_phy_ports (length ports) (pre @ concat (map hton_phy_port ports)) i = Ok ports"
  using assms
proof (induction ports arbitrary: pre i)
  case (Cons p ports)
  have "read_phy_ports (length ports) ((pre @ hton_phy_port p) @ concat (map hton_phy_port ports)) (i + 48) = Ok ports"
    using Cons.prems by (intro Cons.IH) simp
  then show ?case using Cons.prems ntoh_hton_phy_port [of pre i p] by simp
qed simp

lemma dispatch_features_reply:
  assumes sz: "32 + 48 * length ports < 65536" and cb: "features_reply_callback (app_handlers a) = Some f"
  shows "dispatch_openflow_message fuel OFPT_FEATURES_REPLY datapath_id
       (header_bytes OFPT_FEATURES_REPLY (32 + 48 * of_nat (length ports)) xid @ put64 dpid @
         put32 n_buffers @ put8 n_tables @ replicate 3 0 @ put32 capabilities @ put32 actions @
         concat (map hton_phy_port ports)) a =
     Ok (upcall (Call_features_reply f datapath_id xid n_buffers n_tables capabilities actions ports
       (features_reply_user_data (app_handlers a))) a)"
    (is "dispatch_openflow_message fuel _ datapath_id ?m a = _")
proof -
  let ?len = "32 + 48 * of_nat (length ports) :: 16 word"
  let ?pre = "header_bytes OFPT_FEATURES_REPLY ?len xid @ put64 dpid @ put32 n_buffers @ put8 n_tables @ replicate 3 0 @
    put32 capabilities @ put32 actions"
  have n: "unat (?len - 32) div 48 = length ports" using unat_list_len [of 0 48 "length ports"] sz by simp
  have ne: "?m \<noteq> []" by (simp add: header_bytes_def)
  have f: "rd32 ?m 16 = Ok n_buffers" "rd8 ?m 20 = Ok n_tables" "rd32 ?m 24 = Ok capabilities" "rd32 ?m 28 = Ok actions"
    by (simp_all add: rd_after_header be_get_put)
  have p: "read_phy_ports (length ports) ?m 32 = Ok ports" using read_phy_ports_created [of ?pre 32 ports] by simp
  have "handle_features_reply datapath_id ?m a =
     Ok (upcall (Call_features_reply f datapath_id xid n_buffers n_tables capabilities actions ports
       (features_reply_user_data (app_handlers a))) a)"
    unfolding handle_features_reply_def header_fields f bnd.simps n p cb using ne by (simp add: assert_then_def)
  then show ?thesis by (simp add: dispatch_openflow_message_def)
qed

lemma dispatch_packet_in:
  assumes sz: "18 + length d < 65536" and cb: "packet_in_callback (app_handlers a) = Some f"
  shows "dispatch_openflow_message fuel OFPT_PACKET_IN datapath_id
       (header_bytes OFPT_PACKET_IN (18 + of_nat (length d)) xid @ put32 buffer_id @ put16 total_len @ put16 port @
         put8 reason @ [0] @ d) a =
     bnd (if d = [] then Ok None else bnd (parse_packet d) (\<lambda>info. Ok (Some (d, info)))) (\<lambda>packet.
     Ok (upcall (Call_packet_in (simple_packet_in_callback (app_handlers a)) f datapath_id xid buffer_id total_len port
       reason packet (packet_in_user_data (app_handlers a))) a))"
    (is "dispatch_openflow_message fuel _ datapath_id ?m a = ?r")
proof -
  let ?len = "18 + of_nat (length d) :: 16 word"
  let ?pre = "header_bytes OFPT_PACKET_IN ?len xid @ put32 buffer_id @ put16 total_len @ put16 port @ put8 reason @ [0]"
  have ne: "?m \<noteq> []" by (simp add: header_bytes_def)
  have f: "rd32 ?m 8 = Ok buffer_id" "rd16 ?m 12 = Ok total_len" "rd16 ?m 14 = Ok port" "rd8 ?m 16 = Ok reason"
    by (simp_all add: rd_after_header be_get_put)
  have "unat (?len - 18) = length d" using sz by (simp add: unat_of_nat16)
  then have b: "optional_body 18 ?m (?len - 18) = Ok (if d = [] then None else Some d)"
    using optional_body_created [of "?len - 18" d ?pre 18] by simp
  have "handle_packet_in datapath_id ?m a = ?r"
    unfolding handle_packet_in_def header_fields f bnd.simps cb option.case b using ne by (simp add: die_unless_def)
  then show ?thesis by (simp add: dispatch_openflow_message_def)
qed

lemma dispatch_port_status:
  assumes cb: "port_status_callback (app_handlers a) = Some f"
  shows "dispatch_openflow_message fuel OFPT_PORT_STATUS datapath_id
       (header_bytes OFPT_PORT_STATUS 64 xid @ put8 reason @ replicate 7 0 @ hton_phy_port desc) a =
     Ok (upcall (Call_port_status f datapath_id xid reason desc (port_status_user_data (app_handlers a))) a)"
    (is "dispatch_openflow_message fuel _ datapath_id ?m a = ?r")
proof -
  have ne: "?m \<noteq> []" by (simp add: header_bytes_def)
  have f: "rd8 ?m 8 = Ok reason" by (simp add: rd_after_header be_get_put)
  have p: "ntoh_phy_port ?m 16 = Ok desc"
    using ntoh_hton_phy_port [of "header_bytes OFPT_PORT_STATUS 64 xid @ put8 reason @ replicate 7 0" 16 desc "[]"] by simp
  have "handle_port_status datapath_id ?m a = ?r"
    unfolding handle_port_status_def header_fields f p bnd.simps cb using ne by (simp add: assert_then_def)
  then show ?thesis by (simp add: dispatch_openflow_message_def)
qed

lemma dispatch_flow_removed:
  assumes cb: "flow_removed_callback (app_handlers a) = Some f"
  shows "dispatch_openflow_message fuel OFPT_FLOW_REMOVED datapath_id
       (header_bytes OFPT_FLOW_REMOVED 88 xid @ hton_match match @ put64 cookie @ put16 priority @
         put8 reason @ [0] @ put32 dsec @ put32 dnsec @ put16 idle @ [0, 0] @ put64 packets @ put64 bytes) a =
     Ok (upcall (Call_flow_removed (simple_flow_removed_callback (app_handlers a)) f datapath_id xid
       (match\<lparr>pad1 := 0, pad2 := 0\<rparr>) cookie priority reason dsec dnsec idle packets bytes
       (flow_removed_user_data (app_handlers a))) a)"
    (is "dispatch_openflow_message fuel _ datapath_id ?m a = ?r")
proof -
  have ne: "?m \<noteq> []" by (simp add: header_bytes_def)
  have m: "ntoh_match ?m 8 = Ok (match\<lparr>pad1 := 0, pad2 := 0\<rparr>)" by (intro ntoh_hton_match) simp
  have f: "rd64 ?m 48 = Ok cookie" "rd16 ?m 56 = Ok priority" "rd8 ?m 58 = Ok reason" "rd32 ?m 60 = Ok dsec"
    "rd32 ?m 64 = Ok dnsec" "rd16 ?m 68 = Ok idle" "rd64 ?m 72 = Ok packets" "rd64 ?m 80 = Ok bytes"
    by (simp_all add: rd_after_header be_get_put)
  have "handle_flow_removed datapath_id ?m a = ?r"
    unfolding handle_flow_removed_def header_fields f m bnd.simps cb using ne by (simp add: assert_then_def)
  then show ?thesis by (simp add: dispatch_openflow_message_def)
qed

lemma dispatch_barrier_reply:
  assumes "barrier_reply_callback (app_handlers a) = Some f"
  shows "dispatch_openflow_message fuel OFPT_BARRIER_REPLY datapath_id (header_bytes OFPT_BARRIER_REPLY 8 xid) a =
     Ok (upcall (Call_barrier_reply f datapath_id xid (barrier_reply_user_data (app_handlers a))) a)"
  using rd_header_xid [of OFPT_BARRIER_REPLY 8 xid "[]"] assms
  by (auto simp: dispatch_openflow_message_def handle_barrier_reply_def assert_then_def header_bytes_def)

subsection \<open>Statistics\<close>

lemma read_flow_stats_created:
  assumes "\<forall>s \<in> set flows. flow_stats_wf s \<and> length (fs_actions s) + length flows < fuel" and "length flows < fuel"
    and "flows_size flows < 65536" and "length pre = i"
  shows "read_flow_stats fuel (pre @ concat (map enc_flow_stats flows)) i (of_nat (flows_size flows)) = Ok flows"
  using assms
proof (induction flows arbitrary: pre i fuel)
  case Nil
  then show ?case by (cases fuel) auto
next
  case (Cons s flows)
  then obtain f where f: "fuel = Suc f" "length flows < f" by (cases fuel) auto
  let ?post = "concat (map enc_flow_stats flows)"
  have s: "flow_stats_wf s" using Cons.prems(1) by simp
  have r: "ntoh_flow_stats f (pre @ enc_flow_stats s @ ?post) i = Ok s"
    using ntoh_hton_flow_stats [OF s, of f pre i ?post] Cons.prems f by (auto simp: enc_flow_stats_def)
  have pos: "0 < (of_nat (flows_size (s # flows)) :: 16 word)"
    using s Cons.prems(3) by (intro word16_pos) (auto simp: flow_stats_wf_def)
  have "read_flow_stats f ((pre @ enc_flow_stats s) @ ?post) (i + unat (fs_length s)) (of_nat (flows_size flows)) = Ok flows"
    using Cons.prems f length_enc_flow_stats [OF s] by (intro Cons.IH) auto
  then show ?case using f r pos by simp
qed

lemma dispatch_flow_stats_reply:
  assumes "\<forall>s \<in> set flows. flow_stats_wf s \<and> length (fs_actions s) + length flows < fuel" and "length flows < fuel"
    and sz: "12 + flows_size flows < 65536" and ne: "flows \<noteq> []"
    and cb: "stats_reply_callback (app_handlers a) = Some f"
  shows "dispatch_openflow_message fuel OFPT_STATS_REPLY datapath_id
       (header_bytes OFPT_STATS_REPLY (12 + of_nat (flows_size flows)) xid @ put16 OFPST_FLOW @ put16 flags @
         concat (map enc_flow_stats flows)) a =
     Ok (upcall (Call_stats_reply f datapath_id xid OFPST_FLOW flags (Some (Flow_body flows))
       (stats_reply_user_data (app_handlers a))) a)"
    (is "dispatch_openflow_message fuel _ datapath_id ?m a = ?r")
proof -
  let ?n = "of_nat (flows_size flows) :: 16 word" and ?body = "concat (map enc_flow_stats flows)"
  have l: "length ?body = flows_size flows" using assms(1) by (intro length_enc_flows) simp
  have "0 < flows_size flows" using ne assms(1) by (cases flows) (auto simp: flow_stats_wf_def)
  then have b: "?body \<noteq> []" using l by fastforce
  have f: "rd16 ?m 8 = Ok OFPST_FLOW" "rd16 ?m 10 = Ok flags" by (simp_all add: rd_after_header be_get_put)
  have "optional_body 12 ((header_bytes OFPT_STATS_REPLY (12 + ?n) xid @ put16 OFPST_FLOW @ put16 flags) @ ?body) ?n =
      Ok (if ?body = [] then None else Some ?body)"
    by (intro optional_body_created) (use l sz in \<open>simp_all add: unat_of_nat16\<close>)
  then have ob: "optional_body 12 ?m (12 + ?n - 12) = Ok (Some ?body)" using b by simp
  have st: "stats_body_of fuel OFPST_FLOW ?body (12 + ?n - 12) = Ok (Flow_body flows)"
    using read_flow_stats_created [OF assms(1,2), of "[]" 0] sz by (simp add: stats_body_of_def)
  have "handle_stats_reply fuel datapath_id ?m a = ?r"
    unfolding handle_stats_reply_def header_fields f bnd.simps cb option.case ob st by (simp add: assert_then_def)
  then show ?thesis by (simp add: dispatch_openflow_message_def)
qed

section \<open>The list of switches\<close>

lemma first_not_less_split:
  "first_not_less dpid es i = Some j \<Longrightarrow>
     \<exists>pre e post. es = pre @ e # post \<and> j = i + length pre \<and> (\<forall>x \<in> set pre. x < dpid) \<and> dpid \<le> e"
  "first_not_less dpid es i = None \<Longrightarrow> \<forall>x \<in> set es. x < dpid"
proof (induction es arbitrary: i)
  case (Cons e es)
  {
    case 1
    show ?case
    proof (cases "dpid \<le> e")
      case True
      then show ?thesis using 1 by (intro exI [of _ "[]"]) auto
    next
      case False
      then obtain pre x post where "es = pre @ x # post" "j = Suc i + length pre" "\<forall>y \<in> set pre. y < dpid" "dpid \<le> x"
        using 1 Cons.IH(1) [of "Suc i"] by auto
      then show ?thesis using False by (intro exI [of _ "e # pre"]) auto
    qed
  next
    case 2
    then show ?case using Cons.IH(2) [of "Suc i"] by (auto split: if_splits)
  }
qed auto

lemma insort_split: "\<forall>x \<in> set pre. x < d \<Longrightarrow> insort d (pre @ es) = pre @ insort d es" for d :: "'a::linorder"
  by (induction pre) auto

lemma insert_dpid_is_insort: "insert_dpid head dpid = Ok (insort dpid head)"
proof (cases "first_not_less dpid head 0")
  case None
  then show ?thesis using first_not_less_split(2) [OF None] insort_split [of head dpid "[]"] by (simp add: insert_dpid_def)
next
  case (Some j)
  then obtain pre e post where h: "head = pre @ e # post" "j = length pre" "\<forall>x \<in> set pre. x < dpid" "dpid \<le> e"
    using first_not_less_split(1) by fastforce
  then have i: "insort dpid head = pre @ dpid # e # post" using insort_split [of pre dpid "e # post"] by simp
  show ?thesis
  proof (cases pre)
    case Nil
    then show ?thesis using Some h i by (simp add: insert_dpid_def insert_in_front_def)
  next
    case (Cons p ps)
    then have "insert_before head e dpid = Ok (p # ps @ dpid # e # post, True)"
      using insert_before_eq [of e ps p post dpid] h by fastforce
    then show ?thesis using Some h i Cons by (simp add: insert_dpid_def nth_append)
  qed
qed

lemma insert_dpids_is_sort:
  assumes "length pre = i"
  shows "insert_dpids (length dpids) (pre @ concat (map put64 dpids) @ post) i ss = Ok (fold insort dpids ss)"
  using assms
proof (induction dpids arbitrary: pre i ss)
  case (Cons d dpids)
  have "insert_dpids (length dpids) ((pre @ put64 d) @ concat (map put64 dpids) @ post) (i + 8) (insort d ss) =
      Ok (fold insort dpids (insort d ss))"
    using Cons.prems by (intro Cons.IH) simp
  moreover have "rd64 (pre @ put64 d @ concat (map put64 dpids) @ post) i = Ok d" using Cons.prems by (simp add: be_get_put)
  ultimately show ?case by (simp add: insert_dpid_is_insort del: rd_in)
qed simp

section \<open>Sending\<close>

definition service_frame :: "bytes \<Rightarrow> 64 word \<Rightarrow> bytes \<Rightarrow> bytes" where
  "service_frame name datapath_id m = put64 datapath_id @ put16 (of_nat (length name + 1)) @ name @ [0] @ m"

text \<open>A string as C has it: no terminator inside, and short enough for a service name.\<close>

definition service_name_ok :: "bytes \<Rightarrow> bool" where
  "service_name_ok name \<longleftrightarrow> 0 \<notin> set name \<and> length name < MESSENGER_SERVICE_NAME_LENGTH"

lemma cstring_terminated: "0 \<notin> set name \<Longrightarrow> cstring (name @ 0 # rest) = name"
  by (induction name) (auto simp: cstring_def)

end
