(* ===== verification/Example_Inputs.thy ===== *)
theory Example_Inputs
  imports Ofm_Valid_Create
begin

text \<open>
  Inputs the examples of the development share: matches, a port, a list of actions built by the
  functions that append actions, and a flow statistics entry.
\<close>

definition any_match :: ofp_match where
  "any_match = \<lparr>wildcards = OFPFW_ALL, in_port = 0, dl_src = 0, dl_dst = 0, dl_vlan = 0, dl_vlan_pcp = 0,
     pad1 = 0, dl_type = 0, nw_tos = 0, nw_proto = 0, pad2 = 0, nw_src = 0, nw_dst = 0, tp_src = 0, tp_dst = 0\<rparr>"

definition exact_flow :: ofp_match where
  "exact_flow = any_match\<lparr>wildcards := 0, in_port := 1, dl_src := 0x0a, dl_dst := 0x0b, dl_type := 0x0800,
     nw_proto := 6, nw_src := 0x0a000001, nw_dst := 0x0a000002, tp_src := 80, tp_dst := 1024\<rparr>"

definition sample_port :: ofp_phy_port where
  "sample_port = \<lparr>pp_port_no = 1, pp_hw_addr = 0x0a, pp_name = 0, pp_config = 0, pp_state = 0, pp_curr = 0,
     pp_advertised = 0, pp_supported = 0, pp_peer = 0\<rparr>"

definition sample_actions :: openflow_actions where
  "sample_actions = \<lparr>n_actions = 2, act_list = [Action_nw_tos 8 4, Action_output 8 1 0xffff]\<rparr>"

lemma sample_append:
  "append_requests create_actions [Req_nw_tos 4, Req_output 1 0xffff] = Ok sample_actions"
  by (simp add: create_actions_def append_action_set_nw_tos_def append_action_output_def assert_then_def
      append_action_def create_list_def sample_actions_def)

lemmas sample_defs = any_match_def exact_flow_def sample_port_def sample_actions_def

definition sample_flow_stats :: ofp_flow_stats where
  "sample_flow_stats = \<lparr>fs_length = 104, fs_table_id = 0, fs_match = any_match, fs_duration_sec = 1,
     fs_duration_nsec = 0, fs_priority = 5, fs_idle_timeout = 0, fs_hard_timeout = 0, fs_cookie = 9,
     fs_packet_count = 3, fs_byte_count = 200, fs_actions = act_list sample_actions\<rparr>"

end
