(* ===== verification/Application_Properties.thy ===== *)
theory Application_Properties
  imports Switch_Properties Application_Delivery Example_Inputs "HOL-Library.Multiset"
begin

text \<open>
  The properties of the application interface, and of applications and switch daemons together.
\<close>

section \<open>From the application to the daemon\<close>

lemma with_interface_initialized:
  "openflow_application_interface_initialized a \<Longrightarrow> with_interface ev f a = f a"
  by (simp add: with_interface_def maybe_init_openflow_application_interface_def assert_then_def)

lemma send_openflow_message_frame:
  assumes "openflow_application_interface_initialized a" and "app_send_ok ev" and "8 \<le> length m"
  shows "\<exists>a'. send_openflow_message ev datapath_id m a = Ok (True, a') \<and>
     app_sent a' = app_sent a @ [(remote_service_name datapath_id, MESSENGER_OPENFLOW_MESSAGE,
       service_frame (app_service_name a) datapath_id m)] \<and>
     app_handlers a' = app_handlers a \<and> upcalls a' = upcalls a"
  using assms
  by (auto simp: send_openflow_message_def with_interface_initialized assert_then_def service_frame_def
      update_openflow_stats_def Let_def)

lemma disconnect_switch_frame:
  assumes "openflow_application_interface_initialized a" and "app_send_ok ev"
  shows "disconnect_switch ev datapath_id a =
     Ok (True, a\<lparr>app_sent := app_sent a @ [(remote_service_name datapath_id, MESSENGER_OPENFLOW_DISCONNECT_REQUEST,
       service_frame (app_service_name a) datapath_id [])]\<rparr>)"
  using assms by (simp add: disconnect_switch_def with_interface_initialized service_frame_def)

lemma service_recv_frame:
  assumes "service_name_ok name"
  shows "service_recv fuel ev type (service_frame name datapath_id m) d =
     (if type = MESSENGER_OPENFLOW_MESSAGE then handle_openflow_message fuel ev datapath_id name m d
      else if type = MESSENGER_OPENFLOW_DISCONNECT_REQUEST then Ok (handle_openflow_disconnect_request datapath_id d)
      else Ok d)"
proof -
  let ?n = "of_nat (length name + 1) :: 16 word" and ?b = "service_frame name datapath_id m"
  have n: "unat ?n = length name + 1"
    using assms unat_of_nat16 [of "length name + 1"] by (simp add: service_name_ok_def MESSENGER_SERVICE_NAME_LENGTH_def)
  have "\<not> ?n < 1" using n by (simp add: word_less_nat_alt)
  moreover have "rd64 ?b 0 = Ok datapath_id" "rd16 ?b 8 = Ok ?n" by (simp_all add: service_frame_def be_get_put)
  moreover have "rd8 ?b (10 + unat ?n - 1) = Ok 0"
    unfolding n by (simp add: service_frame_def) (simp add: be_get_def)
  moreover have "cstring (drop 10 ?b) = name"
    using assms cstring_terminated [of name m] by (simp add: service_frame_def service_name_ok_def)
  moreover have "drop (10 + unat ?n) ?b = m" unfolding n by (simp add: service_frame_def)
  moreover have "10 \<le> length ?b" "?b \<noteq> []" by (simp_all add: service_frame_def)
  ultimately show ?thesis
    by (simp add: service_recv_def service_recv_from_application_def assert_then_def Let_def not_less del: rd_in)
qed

section \<open>A controller and its switch\<close>

lemma create_barrier_eq:
  "create_barrier_request xid = Ok (header_bytes OFPT_BARRIER_REQUEST 8 xid)"
  "create_barrier_reply xid = Ok (header_bytes OFPT_BARRIER_REPLY 8 xid)"
  using create_header_eq [of 8] by (simp_all add: create_barrier_request_def create_barrier_reply_def)

lemma barrier_request_valid:
  "validate_openflow_message fuel (header_bytes OFPT_BARRIER_REQUEST 8 xid) = Ok 0"
  "rd8 (header_bytes OFPT_BARRIER_REQUEST 8 xid) 1 = Ok OFPT_BARRIER_REQUEST"
proof -
  note f = rd_header_fields [of OFPT_BARRIER_REQUEST 8 xid "[]", unfolded append_Nil2]
  have "validate_header (header_bytes OFPT_BARRIER_REQUEST 8 xid) OFPT_BARRIER_REQUEST 8 8 = Ok 0"
    using validate_header_created [of OFPT_BARRIER_REQUEST 8 "[]" 8 8 xid] by simp
  then show "validate_openflow_message fuel (header_bytes OFPT_BARRIER_REQUEST 8 xid) = Ok 0"
    unfolding validate_openflow_message_def f bnd.simps by (simp add: validate_barrier_request_def)
  show "rd8 (header_bytes OFPT_BARRIER_REQUEST 8 xid) 1 = Ok OFPT_BARRIER_REQUEST" by (rule f(2))
qed

text \<open>
  C1.  A barrier from the application to the switch and back.  The request an application sends reaches
  the daemon of the switch, which queues it for the switch under a transaction id \<open>x\<close> of its own.
  After any sequence of other answers and fewer than 4096 other requests, the reply of the switch to
  \<open>x\<close> goes back to the application, and there to the registered handler: it is called once, with the
  datapath id and the transaction id the application had chosen.
\<close>

theorem barrier_round_trip:
  assumes app: "openflow_application_interface_initialized a" "service_name_ok (app_service_name a)" "app_send_ok aev"
      "barrier_reply_callback (app_handlers a) = Some f"
    and daemon: "daemon_reachable d" "running d" "insert_xid_entry xid (app_service_name a) (xids d) = Ok (x, t)" "x \<noteq> 0"
    and later: "run_xid_ops opers t = Ok (xids d2)" "Answer x \<notin> set opers" "requests opers < XID_MAX_ENTRIES"
      "sw_datapath_id d2 = sw_datapath_id d"
  shows "\<exists>request a1 data d1 reply d3 answer.
     create_barrier_request xid = Ok request \<and>
     send_openflow_message aev (sw_datapath_id d) request a = Ok (True, a1) \<and>
     app_sent a1 = app_sent a @ [(remote_service_name (sw_datapath_id d), MESSENGER_OPENFLOW_MESSAGE, data)] \<and>
     service_recv fuel ev MESSENGER_OPENFLOW_MESSAGE data d = Ok d1 \<and> xids d1 = t \<and>
     queued d1 = queued d @ [header_bytes OFPT_BARRIER_REQUEST 8 x] \<and>
     create_barrier_reply x = Ok reply \<and> ofpmsg_recv fuel ev' reply d2 = Ok (0, d3) \<and>
     outbox d3 = outbox d2 @ [(app_service_name a, MESSENGER_OPENFLOW_MESSAGE, answer)] \<and>
     handle_message fuel MESSENGER_OPENFLOW_MESSAGE answer a1 =
       Ok (received OFPT_BARRIER_REPLY (Call_barrier_reply f (sw_datapath_id d) xid (barrier_reply_user_data (app_handlers a))) a1)"
proof -
  let ?q = "header_bytes OFPT_BARRIER_REQUEST 8 xid" and ?p = "header_bytes OFPT_BARRIER_REPLY 8" and ?dpid = "sw_datapath_id d"
  have act: "active d" by (rule running_active [OF daemon_reachable_inv [OF daemon(1)] daemon(2)])
  obtain a1 where a1: "send_openflow_message aev ?dpid ?q a = Ok (True, a1)" "app_handlers a1 = app_handlers a"
    "app_sent a1 = app_sent a @ [(remote_service_name ?dpid, MESSENGER_OPENFLOW_MESSAGE, service_frame (app_service_name a) ?dpid ?q)]"
    using send_openflow_message_frame [OF app(1,3), of ?q ?dpid] by auto
  obtain d1 where d1: "ofpmsg_send ev ?q (app_service_name a) d = Ok (0, d1)" "xids d1 = t"
    "queued d1 = queued d @ [header_bytes OFPT_BARRIER_REQUEST 8 x]"
    using ofpmsg_send_plain [OF act _ barrier_request_valid(2) _ barrier_reply_valid(3) [where x = xid], where name = "app_service_name a" and ev = ev]
      daemon(3) by (auto simp: barrier_reply_valid(4))
  have s: "service_recv fuel ev MESSENGER_OPENFLOW_MESSAGE (service_frame (app_service_name a) ?dpid ?q) d = Ok d1"
    using d1(1) by (simp add: service_recv_frame [OF app(2)] handle_openflow_message_def barrier_request_valid(1)
        switch_event_recv_from_application_def)
  obtain d3 where d3: "ofpmsg_recv fuel ev' (?p x) d2 = Ok (0, d3)"
    "outbox d3 = outbox d2 @ [(app_service_name a, MESSENGER_OPENFLOW_MESSAGE, from_switch ?dpid (?p xid))]"
    using pending_reply_delivered [OF active_xid_inv [OF act] daemon(3,4) later(1-3) barrier_reply_valid(1,2) _ barrier_reply_valid(3)]
      later(4) by (auto simp: plain_reply_def barrier_reply_valid(4))
  have "handle_message fuel MESSENGER_OPENFLOW_MESSAGE (from_switch ?dpid (?p xid)) a1 =
      Ok (received OFPT_BARRIER_REPLY (Call_barrier_reply f ?dpid xid (barrier_reply_user_data (app_handlers a))) a1)"
    using handle_message_created [of fuel OFPT_BARRIER_REPLY 8 xid "[]"] dispatch_barrier_reply [of a1 f] app(4) a1(2)
    by (simp add: barrier_reply_valid)
  then show ?thesis using a1 d1 s d3 unfolding create_barrier_eq by auto
qed

definition sample_application :: application where
  "sample_application =
     \<lparr>openflow_application_interface_initialized = True,
      app_handlers = no_handlers\<lparr>barrier_reply_callback := Some 1, features_reply_callback := Some 2, packet_in_callback := Some 3,
        flow_removed_callback := Some 4, port_status_callback := Some 5, stats_reply_callback := Some 6,
        list_switches_reply_callback := Some 7\<rparr>,
      app_service_name = [97], app_transaction_id = 0, app_cookie = 0, received_callbacks = [[97]], replied_callbacks = [[97]],
      upcalls = [], app_sent = [], app_requests = [], app_cleared = [], app_stats = []\<rparr>"

definition sample_app_env :: app_env where
  "sample_app_env = \<lparr>app_trema_name = [97], app_pid = 3, app_send_ok = True\<rparr>"

lemma sample_application_fields:
  "openflow_application_interface_initialized sample_application" "service_name_ok (app_service_name sample_application)"
  "app_send_ok sample_app_env" "app_service_name sample_application = [97]"
  "barrier_reply_callback (app_handlers sample_application) = Some 1"
  "features_reply_callback (app_handlers sample_application) = Some 2"
  "packet_in_callback (app_handlers sample_application) = Some 3"
  "flow_removed_callback (app_handlers sample_application) = Some 4"
  "port_status_callback (app_handlers sample_application) = Some 5"
  "stats_reply_callback (app_handlers sample_application) = Some 6"
  "list_switches_reply_callback (app_handlers sample_application) = Some 7"
  "simple_packet_in_callback (app_handlers sample_application) = False"
  "simple_flow_removed_callback (app_handlers sample_application) = False"
  by (simp_all add: sample_application_def sample_app_env_def no_handlers_def service_name_ok_def MESSENGER_SERVICE_NAME_LENGTH_def)

theorem barrier_round_trip_witness:
  "\<exists>request a1 answer. create_barrier_request 7 = Ok request \<and>
     send_openflow_message sample_app_env 0 request sample_application = Ok (True, a1) \<and>
     handle_message 0 MESSENGER_OPENFLOW_MESSAGE answer a1 =
       Ok (received OFPT_BARRIER_REPLY (Call_barrier_reply 1 0 7 (barrier_reply_user_data (app_handlers sample_application))) a1)"
proof -
  obtain t where t: "insert_xid_entry 7 (app_service_name sample_application) (xids sample_daemon) = Ok (2, t)"
    using sample_insert_xid by (auto simp: sample_application_fields)
  from barrier_round_trip [OF sample_application_fields(1,2,3,5) sample_reachable sample_fields(1) t,
      of "[]" "sample_daemon\<lparr>xids := t\<rparr>" 0 sample_env sample_env]
  show ?thesis by (fastforce simp: XID_MAX_ENTRIES_def sample_fields)
qed

text \<open>
  Commands of an application reach the daemon of the switch.  What \<open>send_openflow_message\<close> hands to
  the messenger makes the daemon do with the message what it does with a valid message of that
  service, and what \<open>disconnect_switch\<close> sends ends the session; a daemon of another switch does nothing.
\<close>

lemma commands_reach_daemon:
  assumes "openflow_application_interface_initialized a" "service_name_ok (app_service_name a)" "app_send_ok aev"
    and "validate_openflow_message fuel m = Ok 0" "8 \<le> length m"
  shows "\<exists>a1 a2 data request. send_openflow_message aev dpid m a = Ok (True, a1) \<and>
     app_sent a1 = app_sent a @ [(remote_service_name dpid, MESSENGER_OPENFLOW_MESSAGE, data)] \<and>
     disconnect_switch aev dpid a = Ok (True, a2) \<and>
     app_sent a2 = app_sent a @ [(remote_service_name dpid, MESSENGER_OPENFLOW_DISCONNECT_REQUEST, request)] \<and>
     (\<forall>d. service_recv fuel ev MESSENGER_OPENFLOW_MESSAGE data d =
        (if sw_datapath_id d = dpid then bnd (ofpmsg_send ev m (app_service_name a) d) (\<lambda>(_, d). Ok d) else Ok d) \<and>
       service_recv fuel ev MESSENGER_OPENFLOW_DISCONNECT_REQUEST request d =
        Ok (if sw_datapath_id d = dpid then switch_event_disconnected d else d))"
proof -
  obtain a1 where "send_openflow_message aev dpid m a = Ok (True, a1)"
    "app_sent a1 = app_sent a @ [(remote_service_name dpid, MESSENGER_OPENFLOW_MESSAGE, service_frame (app_service_name a) dpid m)]"
    using send_openflow_message_frame [OF assms(1,3,5)] by blast
  then show ?thesis
    using disconnect_switch_frame [OF assms(1,3), of dpid] assms(4)
    by (intro exI conjI)
      (auto simp: service_recv_frame [OF assms(2)] handle_openflow_message_def handle_openflow_disconnect_request_def
        switch_event_recv_from_application_def switch_event_disconnect_request_def)
qed

lemma commands_reach_daemon_witness:
  "\<exists>a2 request. disconnect_switch sample_app_env 0 sample_application = Ok (True, a2) \<and>
     app_sent a2 = app_sent sample_application @ [(remote_service_name 0, MESSENGER_OPENFLOW_DISCONNECT_REQUEST, request)] \<and>
     service_recv 0 sample_env MESSENGER_OPENFLOW_DISCONNECT_REQUEST request sample_daemon =
       Ok (switch_event_disconnected sample_daemon)"
proof -
  have "8 \<le> length (header_bytes OFPT_BARRIER_REQUEST 8 7)" by simp
  from commands_reach_daemon [OF sample_application_fields(1-3) barrier_request_valid(1) this, of 0 0 sample_env]
  show ?thesis using sample_fields(7) by (elim exE conjE, intro exI conjI) (assumption, assumption, simp)
qed

section \<open>From the daemon to the handlers\<close>

lemma packet_in_delivered:
  assumes "18 + length frame < 65536" "port_ok port" "reason \<le> OFPR_ACTION" "frame \<noteq> []" "parse_packet frame = Ok info"
    and "packet_in_callback (app_handlers a) = Some f"
  shows "handle_message fuel MESSENGER_OPENFLOW_MESSAGE (from_switch dpid (header_bytes OFPT_PACKET_IN (18 + of_nat (length frame)) xid @
       put32 buffer_id @ put16 total_len @ put16 port @ put8 reason @ [0] @ frame)) a = Ok (received OFPT_PACKET_IN
     (Call_packet_in (simple_packet_in_callback (app_handlers a)) f dpid xid buffer_id total_len port reason
       (Some (frame, info)) (packet_in_user_data (app_handlers a))) a)"
proof (rule handle_message_created)
  show "validate_openflow_message fuel (header_bytes OFPT_PACKET_IN (18 + of_nat (length frame)) xid @
       put32 buffer_id @ put16 total_len @ put16 port @ put8 reason @ [0] @ frame) = Ok 0"
    unfolding validate_openflow_message_created by (rule validate_created_packet_in [OF assms(1-3)])
qed (unfold dispatch_packet_in [OF assms(1,6)], simp add: assms(4,5))

text \<open>
  C16.  The handlers for switch events are called with what the switch sent.  A packet in, port status or
  flow removed message built with arguments in range is accepted, and the registered handler is called
  exactly once, with the arguments of the constructor, the datapath id and the user data; the frame of a
  packet in is passed on with what the parser found in it.
\<close>

theorem switch_events_delivered:
  assumes "18 + length frame < 65536" "port_ok port" "reason \<le> OFPR_ACTION" "frame \<noteq> []" "parse_packet frame = Ok info"
    and "phy_port_ok desc" "why \<le> OFPPR_MODIFY"
    and "match_ok match" "wildcards match AND OFPFW_ALL = 0 \<Longrightarrow> priority = UINT16_MAX" "cause \<le> OFPRR_DELETE"
      "pad1 match = 0" "pad2 match = 0"
    and "packet_in_callback (app_handlers a) = Some f" "port_status_callback (app_handlers a) = Some g"
      "flow_removed_callback (app_handlers a) = Some h"
  shows "(\<exists>m. create_packet_in xid buffer_id total_len port reason (Some frame) = Ok m \<and>
       handle_message fuel MESSENGER_OPENFLOW_MESSAGE (from_switch dpid m) a = Ok (received OFPT_PACKET_IN
         (Call_packet_in (simple_packet_in_callback (app_handlers a)) f dpid xid buffer_id total_len port reason
           (Some (frame, info)) (packet_in_user_data (app_handlers a))) a)) \<and>
    (\<exists>m. create_port_status xid why desc = Ok m \<and>
       handle_message fuel MESSENGER_OPENFLOW_MESSAGE (from_switch dpid m) a = Ok (received OFPT_PORT_STATUS
         (Call_port_status g dpid xid why desc (port_status_user_data (app_handlers a))) a)) \<and>
    (\<exists>m. create_flow_removed xid match cookie priority cause dsec dnsec idle packets bytes = Ok m \<and>
       handle_message fuel MESSENGER_OPENFLOW_MESSAGE (from_switch dpid m) a = Ok (received OFPT_FLOW_REMOVED
         (Call_flow_removed (simple_flow_removed_callback (app_handlers a)) h dpid xid match cookie priority cause
           dsec dnsec idle packets bytes (flow_removed_user_data (app_handlers a))) a))"
proof (intro conjI)
  show "\<exists>m. create_packet_in xid buffer_id total_len port reason (Some frame) = Ok m \<and>
       handle_message fuel MESSENGER_OPENFLOW_MESSAGE (from_switch dpid m) a = Ok (received OFPT_PACKET_IN
         (Call_packet_in (simple_packet_in_callback (app_handlers a)) f dpid xid buffer_id total_len port reason
           (Some (frame, info)) (packet_in_user_data (app_handlers a))) a)"
    using create_packet_in_eq [of "Some frame" xid buffer_id total_len port reason]
      packet_in_delivered [OF assms(1-5,13), where xid = xid and buffer_id = buffer_id and total_len = total_len] assms(1)
    unfolding opt_bytes_def option.case by blast
  show "\<exists>m. create_port_status xid why desc = Ok m \<and>
       handle_message fuel MESSENGER_OPENFLOW_MESSAGE (from_switch dpid m) a = Ok (received OFPT_PORT_STATUS
         (Call_port_status g dpid xid why desc (port_status_user_data (app_handlers a))) a)"
    unfolding create_port_status_eq
    using handle_message_created [OF validate_created_port_status [OF assms(6,7), folded validate_openflow_message_created [where fuel = fuel]]
        dispatch_port_status [OF assms(14)]] by blast
  have "match\<lparr>pad1 := 0, pad2 := 0\<rparr> = match" using assms(11,12) by simp
  then show "\<exists>m. create_flow_removed xid match cookie priority cause dsec dnsec idle packets bytes = Ok m \<and>
       handle_message fuel MESSENGER_OPENFLOW_MESSAGE (from_switch dpid m) a = Ok (received OFPT_FLOW_REMOVED
         (Call_flow_removed (simple_flow_removed_callback (app_handlers a)) h dpid xid match cookie priority cause
           dsec dnsec idle packets bytes (flow_removed_user_data (app_handlers a))) a)"
    unfolding create_flow_removed_eq
    using handle_message_created [OF validate_created_flow_removed [OF assms(8-10), folded validate_openflow_message_created [where fuel = fuel]]
        dispatch_flow_removed [OF assms(15)]] by (metis (no_types))
qed

text \<open>An ARP frame.\<close>

definition arp_frame :: bytes where
  "arp_frame = eth_hdr 0x0b 0x0a ETH_ETHTYPE_ARP @ arp_pkt 1 0x800 6 4 1 0x0a 1 0 2 @ []"

theorem switch_events_delivered_witness:
  "\<exists>m info. create_packet_in 7 0xffffffff 64 1 0 (Some arp_frame) = Ok m \<and> arp_ar_op info = 1 \<and>
     handle_message 0 MESSENGER_OPENFLOW_MESSAGE (from_switch 5 m) sample_application = Ok (received OFPT_PACKET_IN
       (Call_packet_in False 3 5 7 0xffffffff 64 1 0 (Some (arp_frame, info))
         (packet_in_user_data (app_handlers sample_application))) sample_application)"
proof -
  obtain info where i: "parse_packet arp_frame = Ok info" "arp_ar_op info = 1"
    using parse_arp_frame [of "0x0b" "0x0a" 1 "0x800" 6 4 1 "0x0a" 1 0 2 "[]"] unfolding arp_frame_def by auto
  have l: "18 + length arp_frame < 65536" "arp_frame \<noteq> []" by (simp_all add: arp_frame_def eth_hdr_def arp_pkt_def)
  have p: "port_ok 1" "(0 :: 8 word) \<le> OFPR_ACTION" "phy_port_ok sample_port" "(0 :: 8 word) \<le> OFPPR_MODIFY" "match_ok any_match"
    "pad1 any_match = 0" "pad2 any_match = 0" "(0 :: 8 word) \<le> OFPRR_DELETE"
    "wildcards any_match AND OFPFW_ALL = 0 \<Longrightarrow> 0 = UINT16_MAX"
    by (simp_all add: sample_defs port_ok_def phy_port_ok_def match_ok_def)
  show ?thesis
    using switch_events_delivered [OF l(1) p(1,2) l(2) i(1) p(3,4,5) p(9) p(8,6,7) sample_application_fields(7,9,8),
        of 7 "0xffffffff" 64 0 5 0 0 0 0 0 0] i(2) by (auto simp: sample_application_fields)
qed

text \<open>
  C17.  The replies that carry lists arrive complete.  A features reply with any well-formed ports and a
  flow statistics reply with any well-formed entries, as long as they fit a message, are accepted, and
  the registered handler is called exactly once with the values and the list the constructor was given.
\<close>

theorem list_replies_delivered:
  assumes "32 + 48 * length ports < 65536" "\<forall>p \<in> set ports. phy_port_ok p" "n_tables \<noteq> 0"
    and flows: "\<forall>s \<in> set flows. flow_stats_ok s \<and> length (fs_actions s) + length flows < fuel" "length flows < fuel"
      "12 + flows_size flows < 65536" "flags AND NOT OFPSF_REPLY_MORE = 0" "flows \<noteq> []"
    and "features_reply_callback (app_handlers a) = Some f" "stats_reply_callback (app_handlers a) = Some g"
  shows "(\<exists>m. create_features_reply xid dpid n_buffers n_tables capabilities actions ports = Ok m \<and>
       handle_message fuel MESSENGER_OPENFLOW_MESSAGE (from_switch dpid m) a = Ok (received OFPT_FEATURES_REPLY
         (Call_features_reply f dpid xid n_buffers n_tables capabilities actions ports
           (features_reply_user_data (app_handlers a))) a)) \<and>
    (\<exists>m. create_flow_stats_reply xid flags flows = Ok m \<and>
       handle_message fuel MESSENGER_OPENFLOW_MESSAGE (from_switch dpid m) a = Ok (received OFPT_STATS_REPLY
         (Call_stats_reply g dpid xid OFPST_FLOW flags (Some (Flow_body flows)) (stats_reply_user_data (app_handlers a))) a))"
proof -
  have wf: "\<forall>s \<in> set flows. flow_stats_wf s" "\<forall>s \<in> set flows. flow_stats_wf s \<and> length (fs_actions s) + length flows < fuel"
    using flows(1) by (simp_all add: flow_stats_ok_def)
  note v = validate_created_features_reply [OF assms(1-3), folded validate_openflow_message_created [where fuel = fuel]]
    validate_created_flow_stats_reply [OF flows(1-4), folded validate_openflow_message_created]
  show ?thesis
    unfolding create_features_reply_eq [OF assms(1)] create_flow_stats_reply_eq [OF wf(1) flows(3)]
    using handle_message_created [OF v(1) dispatch_features_reply [OF assms(1,9)]]
      handle_message_created [OF v(2) dispatch_flow_stats_reply [OF wf(2) flows(2,3,5) assms(10)]] by blast
qed

theorem list_replies_delivered_witness:
  "\<exists>m. create_flow_stats_reply 7 OFPSF_REPLY_MORE [sample_flow_stats, sample_flow_stats] = Ok m \<and>
     handle_message 9 MESSENGER_OPENFLOW_MESSAGE (from_switch 5 m) sample_application = Ok (received OFPT_STATS_REPLY
       (Call_stats_reply 6 5 7 OFPST_FLOW OFPSF_REPLY_MORE (Some (Flow_body [sample_flow_stats, sample_flow_stats]))
         (stats_reply_user_data (app_handlers sample_application))) sample_application)"
proof -
  have p: "32 + 48 * length [sample_port] < 65536" "\<forall>p \<in> set [sample_port]. phy_port_ok p" "(1 :: 8 word) \<noteq> 0"
    by (simp_all add: sample_defs port_ok_def phy_port_ok_def)
  have s: "flow_stats_ok sample_flow_stats"
    by (simp add: flow_stats_ok_def flow_stats_wf_def actions_ok_def action_wf_def match_ok_def port_ok_def
        sample_flow_stats_def sample_defs)
  show ?thesis
    using conjunct2 [OF list_replies_delivered [OF p, of "[sample_flow_stats, sample_flow_stats]" 9 OFPSF_REPLY_MORE
        sample_application 2 6 7 5 0 0 0]] s
    by (simp add: sample_application_fields flows_size_def sample_flow_stats_def sample_defs)
qed

text \<open>
  The list of switches is handed over sorted.  From the reply of the switch manager, datapath ids
  in any order, the registered handler is called once with the sorted list of the same ids.
\<close>

lemma switch_list_sorted:
  assumes "list_switches_reply_callback (app_handlers a) = Some f"
  shows "\<exists>switches. handle_list_switches_reply (concat (map put64 ids)) user_data a =
       Ok (upcall (Call_list_switches_reply f switches user_data) a) \<and>
     sorted switches \<and> mset switches = mset ids"
proof -
  have "length (concat (map put64 ids)) div 8 = length ids"
    using length_concat_const [of put64 8 ids] by simp
  then show ?thesis
    using insert_dpids_is_sort [of "[]" 0 ids "[]" "[]"] assms
    by (intro exI [of _ "sort ids"]) (simp add: handle_list_switches_reply_def create_list_def flip: sort_conv_fold)
qed

lemma switch_list_sorted_witness:
  "\<exists>switches. handle_list_switches_reply (concat (map put64 [3, 1, 2])) 0 sample_application =
       Ok (upcall (Call_list_switches_reply 7 switches 0) sample_application) \<and>
     sorted switches \<and> mset switches = mset [3, 1, 2]"
  by (rule switch_list_sorted) (rule sample_application_fields)

text \<open>
  A message calls at most one handler.  Whatever arrives, a call of the message dispatch that
  returns leaves the registered handlers and what was sent alone, counts at most one message, and has
  called exactly the handler registered for the type of the message, or none when the message is
  invalid, has a type no handler is for, or no handler is registered.
\<close>

lemma one_upcall_per_message:
  assumes "handle_message fuel MESSENGER_OPENFLOW_MESSAGE data a = Ok a'"
  shows "app_handlers a' = app_handlers a \<and> app_sent a' = app_sent a \<and>
     (a' = a \<or> (\<exists>type cs. rd8 data 11 = Ok type \<and> upcalls a' = upcalls a @ cs \<and>
        app_stats a' = app_stats a @ [stat_key (openflow_message_name type) OPENFLOW_MESSAGE_RECEIVE True] \<and>
        map (\<lambda>c. Some (callee c)) cs =
          (if callback_for type (app_handlers a) = None then [] else [callback_for type (app_handlers a)])))"
proof (cases "a' = a")
  case False
  then obtain dpid m type a1 where d: "10 + 8 \<le> length data" "body_of 10 data = Ok m" "rd8 m 1 = Ok type"
    "dispatch_openflow_message fuel type dpid m a = Ok a1" "a' = update_openflow_stats type OPENFLOW_MESSAGE_RECEIVE True a1"
    using assms unfolding handle_message_def handle_openflow_message_app_def assert_then_def
    by (auto simp: bnd_eq_Ok simp del: rd_in One_nat_def split: if_splits)
  have m: "m = drop 10 data" using d(1,2) by (simp add: body_of_def assert_then_def)
  have "rd8 data 11 = Ok type" using d(1,3) unfolding m by simp
  then show ?thesis using h_message.new_calls [OF d(4)] d(5) by (auto simp: update_openflow_stats_def)
qed simp

lemma one_upcall_per_message_witness:
  "\<exists>a'. handle_message 0 MESSENGER_OPENFLOW_MESSAGE (from_switch 5 (header_bytes OFPT_BARRIER_REPLY 8 7)) sample_application = Ok a' \<and>
     app_handlers a' = app_handlers sample_application"
proof -
  have "handle_message 0 MESSENGER_OPENFLOW_MESSAGE (from_switch 5 (header_bytes OFPT_BARRIER_REPLY 8 7)) sample_application =
      Ok (received OFPT_BARRIER_REPLY (Call_barrier_reply 1 5 7 (barrier_reply_user_data (app_handlers sample_application)))
        sample_application)"
    using handle_message_created [of 0 OFPT_BARRIER_REPLY 8 7 "[]"] dispatch_barrier_reply [of sample_application 1]
    by (simp add: barrier_reply_valid sample_application_fields)
  from this one_upcall_per_message [OF this] show ?thesis by blast
qed

text \<open>
  C37.  A short frame ends the application.  A packet in that is valid OpenFlow, with a frame that ends
  right after an Ethernet header announcing ARP, RARP, IPv4, IPv6 or LLDP, or right after an IPv4 header
  announcing a known protocol, runs into an assertion of the parser in every application that handles
  packets in.
\<close>

theorem short_frame_ends_application:
  assumes "known_l3 type" and "known_l4 protocol" and "frag_off AND IP_OFFMASK = 0"
    and "frame = eth_hdr da sa type \<or>
      frame = eth_hdr da sa ETH_ETHTYPE_IPV4 @ ipv4_hdr tos tot_len ident frag_off ttl protocol csum saddr daddr"
    and "port_ok port" "reason \<le> OFPR_ACTION" "packet_in_callback (app_handlers a) = Some f"
  shows "\<exists>m. create_packet_in xid buffer_id total_len port reason (Some frame) = Ok m \<and>
     validate_openflow_message fuel m = Ok 0 \<and>
     handle_message fuel MESSENGER_OPENFLOW_MESSAGE (from_switch dpid m) a = Fault Assertion"
proof -
  have p: "parse_packet frame = Fault Assertion"
    using assms(4) parse_empty_payload [OF assms(1)] parse_ipv4_empty [OF assms(3,2)] by auto
  have sz: "18 + length frame < 65536" "frame \<noteq> []" using assms(4) by (auto simp: eth_hdr_def ipv4_hdr_def)
  let ?m = "header_bytes OFPT_PACKET_IN (18 + of_nat (length frame)) xid @ put32 buffer_id @ put16 total_len @ put16 port @
    put8 reason @ [0] @ frame"
  have v: "validate_openflow_message fuel ?m = Ok 0"
    unfolding validate_openflow_message_created by (rule validate_created_packet_in [OF sz(1) assms(5,6)])
  have "handle_message fuel MESSENGER_OPENFLOW_MESSAGE (from_switch dpid ?m) a = Fault Assertion"
    using handle_message_valid [OF v rd_header_fields(2)] dispatch_packet_in [OF sz(1) assms(7)] p sz(2)
    by (simp del: One_nat_def)
  then show ?thesis
    using create_packet_in_eq [of "Some frame" xid buffer_id total_len port reason] sz(1) v
    unfolding opt_bytes_def option.case by blast
qed

theorem short_frame_ends_application_witness:
  "\<exists>m. create_packet_in 7 0xffffffff 14 1 0 (Some (eth_hdr 0x0b 0x0a ETH_ETHTYPE_ARP)) = Ok m \<and>
     validate_openflow_message 0 m = Ok 0 \<and>
     handle_message 0 MESSENGER_OPENFLOW_MESSAGE (from_switch 5 m) sample_application = Fault Assertion"
proof (rule short_frame_ends_application [of ETH_ETHTYPE_ARP IPPROTO_TCP 0 _ "0x0b" "0x0a" 0 0 0 0 0 0 0])
  show "packet_in_callback (app_handlers sample_application) = Some 3" by (rule sample_application_fields)
qed (simp_all add: known_l3_def known_l4_def port_ok_def)

end
