(* ===== verification/Event_Handler.thy ===== *)
theory Event_Handler
  imports Trema_Prelude
begin

text \<open>
  The event handler (\<open>src/lib/event_handler.c\<close>): the table of file descriptors with their handlers, the
  sets that are watched, and one round of the main loop.

  The array \<open>event_list\<close> up to \<open>event_last\<close> is a list; \<open>event_fd_set\<close> maps a descriptor to the index of
  its entry.  A handler with its data is a value of the type \<open>'c\<close>; what a call of it does is an
  argument of the main loop.  What \<open>select\<close> returns is an argument too.  The field \<open>eh_calls\<close> records the
  calls in order.
\<close>

section \<open>State\<close>

definition FD_SETSIZE :: int where
  "FD_SETSIZE = 1024"

abbreviation "EVENT_HANDLER_INITIALIZED \<equiv> (0x1 :: 32 word)"
abbreviation "EVENT_HANDLER_RUNNING \<equiv> (0x2 :: 32 word)"
abbreviation "EVENT_HANDLER_STOP \<equiv> (0x4 :: 32 word)"
abbreviation "EVENT_HANDLER_FINALIZED \<equiv> (0x8 :: 32 word)"

record 'c event_fd =
  ev_fd :: int
  read_callback :: "'c option"
  write_callback :: "'c option"

record 'c event_handler =
  event_handler_state :: "32 word"
  event_list :: "'c event_fd list"
  event_fd_set :: "int \<rightharpoonup> nat"
  event_read_set :: "int set"
  event_write_set :: "int set"
  current_read_set :: "int set"
  current_write_set :: "int set"
  fd_set_size :: int
  external_callback :: "'c option"
  eh_calls :: "('c \<times> int) list"

definition valid_fd :: "int \<Rightarrow> bool" where
  "valid_fd fd \<longleftrightarrow> 0 \<le> fd \<and> fd < FD_SETSIZE"

section \<open>Operations\<close>

definition init_event_handler :: "'c event_handler \<Rightarrow> 'c event_handler" where
  "init_event_handler h = h\<lparr>event_handler_state := EVENT_HANDLER_INITIALIZED, event_list := [], event_fd_set := Map.empty,
     event_read_set := {}, event_write_set := {}\<rparr>"

definition finalize_event_handler :: "'c event_handler \<Rightarrow> 'c event_handler" where
  "finalize_event_handler h =
     (if event_list h \<noteq> [] then h else h\<lparr>event_handler_state := EVENT_HANDLER_FINALIZED\<rparr>)"

definition stop_event_handler :: "'c event_handler \<Rightarrow> 'c event_handler" where
  "stop_event_handler h = h\<lparr>event_handler_state := event_handler_state h OR EVENT_HANDLER_STOP\<rparr>"

text \<open>The entry of \<open>event_fd_set\<close> is read before the descriptor is compared with its bounds.\<close>

definition set_fd_handler :: "int \<Rightarrow> 'c option \<Rightarrow> 'c option \<Rightarrow> 'c event_handler \<Rightarrow> 'c event_handler res" where
  "set_fd_handler fd read_cb write_cb h =
     (if \<not> valid_fd fd then Fault Out_of_bounds
      else if event_fd_set h fd \<noteq> None then Ok h
      else if int (length (event_list h)) \<ge> FD_SETSIZE then Ok h
      else Ok (h\<lparr>event_list := event_list h @ [\<lparr>ev_fd = fd, read_callback = read_cb, write_callback = write_cb\<rparr>],
              event_fd_set := (event_fd_set h)(fd \<mapsto> length (event_list h)),
              fd_set_size := (if fd \<ge> fd_set_size h then fd + 1 else fd_set_size h)\<rparr>))"

fun find_event :: "int \<Rightarrow> 'c event_fd list \<Rightarrow> nat \<Rightarrow> nat option" where
  "find_event fd [] i = None"
| "find_event fd (e # es) i = (if ev_fd e = fd then Some i else find_event fd es (Suc i))"

text \<open>The last entry takes the place of the one that is deleted.\<close>

definition unlink_event :: "nat \<Rightarrow> 'c event_handler \<Rightarrow> 'c event_handler" where
  "unlink_event i h =
     (let l = length (event_list h) - 1 in
      if i \<noteq> l
      then h\<lparr>event_list := take l ((event_list h)[i := event_list h ! l]),
             event_fd_set := (event_fd_set h)(ev_fd (event_list h ! l) \<mapsto> i)\<rparr>
      else h\<lparr>event_list := take l (event_list h)\<rparr>)"

fun shrink_fd_set_size :: "(int \<rightharpoonup> nat) \<Rightarrow> nat \<Rightarrow> int" where
  "shrink_fd_set_size s 0 = 0"
| "shrink_fd_set_size s (Suc i) = (if s (int i) \<noteq> None then int i + 1 else shrink_fd_set_size s i)"

definition delete_fd_handler :: "int \<Rightarrow> 'c event_handler \<Rightarrow> 'c event_handler" where
  "delete_fd_handler fd h =
     (case find_event fd (event_list h) 0 of
        None \<Rightarrow> h
      | Some i \<Rightarrow>
          if event_fd_set h fd = None then h
          else
            let h = h\<lparr>event_read_set := event_read_set h - {fd}, event_write_set := event_write_set h - {fd},
                      current_read_set := current_read_set h - {fd}, current_write_set := current_write_set h - {fd},
                      event_fd_set := (event_fd_set h)(fd := None)\<rparr>;
                h = unlink_event i h
            in if fd = fd_set_size h - 1
               then h\<lparr>fd_set_size := shrink_fd_set_size (event_fd_set h) (nat (fd_set_size h - 1))\<rparr> else h)"

definition handler_at :: "'c event_handler \<Rightarrow> int \<Rightarrow> 'c event_fd option" where
  "handler_at h fd = map_option ((!) (event_list h)) (event_fd_set h fd)"

definition set_readable :: "int \<Rightarrow> bool \<Rightarrow> 'c event_handler \<Rightarrow> 'c event_handler" where
  "set_readable fd state h =
     (if \<not> valid_fd fd then h
      else case handler_at h fd of
        None \<Rightarrow> h
      | Some e \<Rightarrow>
          if read_callback e = None then h
          else if state then h\<lparr>event_read_set := insert fd (event_read_set h)\<rparr>
          else h\<lparr>event_read_set := event_read_set h - {fd}, current_read_set := current_read_set h - {fd}\<rparr>)"

definition set_writable :: "int \<Rightarrow> bool \<Rightarrow> 'c event_handler \<Rightarrow> 'c event_handler" where
  "set_writable fd state h =
     (if \<not> valid_fd fd then h
      else case handler_at h fd of
        None \<Rightarrow> h
      | Some e \<Rightarrow>
          if write_callback e = None then h
          else if state then h\<lparr>event_write_set := insert fd (event_write_set h)\<rparr>
          else h\<lparr>event_write_set := event_write_set h - {fd}, current_write_set := current_write_set h - {fd}\<rparr>)"

definition is_readable :: "int \<Rightarrow> 'c event_handler \<Rightarrow> bool res" where
  "is_readable fd h = (if valid_fd fd then Ok (fd \<in> event_read_set h) else Fault Out_of_bounds)"

definition is_writable :: "int \<Rightarrow> 'c event_handler \<Rightarrow> bool res" where
  "is_writable fd h = (if valid_fd fd then Ok (fd \<in> event_write_set h) else Fault Out_of_bounds)"

definition set_external_callback :: "'c \<Rightarrow> 'c event_handler \<Rightarrow> bool \<times> 'c event_handler" where
  "set_external_callback callback h =
     (if external_callback h \<noteq> None then (False, h) else (True, h\<lparr>external_callback := Some callback\<rparr>))"

section \<open>The main loop\<close>

datatype select_result = Select_interrupted | Select_failed | Select_timed_out | Select_ready "int set" "int set"

definition call_handler ::
  "('c \<Rightarrow> int \<Rightarrow> 'c event_handler \<Rightarrow> 'c event_handler res) \<Rightarrow> 'c option \<Rightarrow> int \<Rightarrow> 'c event_handler \<Rightarrow> 'c event_handler res" where
  "call_handler call cb fd h =
     (case cb of None \<Rightarrow> Fault Null_deref | Some c \<Rightarrow> call c fd (h\<lparr>eh_calls := eh_calls h @ [(c, fd)]\<rparr>))"

text \<open>The descriptor at a place of the array; a place that was given up has \<open>-1\<close>.\<close>

definition fd_at :: "'c event_handler \<Rightarrow> nat \<Rightarrow> int" where
  "fd_at h i = (if i < length (event_list h) then ev_fd (event_list h ! i) else -1)"

fun dispatch_events ::
  "('c \<Rightarrow> int \<Rightarrow> 'c event_handler \<Rightarrow> 'c event_handler res) \<Rightarrow> nat \<Rightarrow> nat \<Rightarrow> 'c event_handler \<Rightarrow> 'c event_handler res" where
  "dispatch_events call 0 i h = Fault No_return"
| "dispatch_events call (Suc fuel) i h =
     (if i < length (event_list h) then
        let e = event_list h ! i; fd = ev_fd e in
        bnd (if fd \<in> current_write_set h then call_handler call (write_callback e) fd h else Ok h) (\<lambda>h.
        bnd (if fd \<in> current_read_set h then call_handler call (read_callback e) fd h else Ok h) (\<lambda>h.
        dispatch_events call fuel (if fd = fd_at h i then Suc i else i) h))
      else Ok h)"

definition run_event_handler_once ::
  "('c \<Rightarrow> int \<Rightarrow> 'c event_handler \<Rightarrow> 'c event_handler res) \<Rightarrow> nat \<Rightarrow> select_result \<Rightarrow> 'c event_handler \<Rightarrow>
   (bool \<times> 'c event_handler) res" where
  "run_event_handler_once call fuel r h =
     bnd (case external_callback h of
            None \<Rightarrow> Ok h
          | Some c \<Rightarrow> call_handler call (Some c) (-1) (h\<lparr>external_callback := None\<rparr>)) (\<lambda>h.
     let h = h\<lparr>current_read_set := event_read_set h, current_write_set := event_write_set h\<rparr> in
     case r of
       Select_interrupted \<Rightarrow> Ok (True, h)
     | Select_failed \<Rightarrow> Ok (False, h)
     | Select_timed_out \<Rightarrow> Ok (True, h\<lparr>current_read_set := {}, current_write_set := {}\<rparr>)
     | Select_ready rs ws \<Rightarrow>
         bnd (dispatch_events call fuel 0 (h\<lparr>current_read_set := current_read_set h \<inter> rs,
                 current_write_set := current_write_set h \<inter> ws\<rparr>)) (\<lambda>h. Ok (True, h)))"

text \<open>\<open>start_event_handler\<close> until the handler is stopped or a round fails, over the results of \<open>select\<close>.\<close>

fun start_event_handler_loop ::
  "('c \<Rightarrow> int \<Rightarrow> 'c event_handler \<Rightarrow> 'c event_handler res) \<Rightarrow> nat \<Rightarrow> ('c event_handler \<Rightarrow> 'c event_handler res) \<Rightarrow>
   select_result list \<Rightarrow> 'c event_handler \<Rightarrow> (bool \<times> 'c event_handler) option res" where
  "start_event_handler_loop call fuel timers rs h =
     (if event_handler_state h AND EVENT_HANDLER_STOP \<noteq> 0
      then Ok (Some (True, h\<lparr>event_handler_state := event_handler_state h AND NOT EVENT_HANDLER_RUNNING\<rparr>))
      else case rs of
        [] \<Rightarrow> Ok None
      | r # rs \<Rightarrow>
          bnd (timers h) (\<lambda>h.
          bnd (run_event_handler_once call fuel r h) (\<lambda>(ok, h).
          if ok then start_event_handler_loop call fuel timers rs h else Ok (Some (False, h)))))"

definition start_event_handler ::
  "('c \<Rightarrow> int \<Rightarrow> 'c event_handler \<Rightarrow> 'c event_handler res) \<Rightarrow> nat \<Rightarrow> ('c event_handler \<Rightarrow> 'c event_handler res) \<Rightarrow>
   select_result list \<Rightarrow> 'c event_handler \<Rightarrow> (bool \<times> 'c event_handler) option res" where
  "start_event_handler call fuel timers rs h =
     start_event_handler_loop call fuel timers rs (h\<lparr>event_handler_state := event_handler_state h OR EVENT_HANDLER_RUNNING\<rparr>)"

section \<open>The invariant\<close>

text \<open>
  The index is exact, descriptors are registered once and in range, and only descriptors with the
  handler that would be called are watched.
\<close>

definition readers :: "'c event_handler \<Rightarrow> int set" where
  "readers h = {fd. \<exists>e. handler_at h fd = Some e \<and> read_callback e \<noteq> None}"

definition writers :: "'c event_handler \<Rightarrow> int set" where
  "writers h = {fd. \<exists>e. handler_at h fd = Some e \<and> write_callback e \<noteq> None}"

definition index_ok :: "'c event_fd list \<Rightarrow> (int \<rightharpoonup> nat) \<Rightarrow> bool" where
  "index_ok es s \<longleftrightarrow> (\<forall>fd i. s fd = Some i \<longleftrightarrow> i < length es \<and> ev_fd (es ! i) = fd)"

definition eh_inv :: "'c event_handler \<Rightarrow> bool" where
  "eh_inv h \<longleftrightarrow> index_ok (event_list h) (event_fd_set h) \<and>
     (\<forall>fd i. event_fd_set h fd = Some i \<longrightarrow> valid_fd fd \<and> fd < fd_set_size h) \<and>
     int (length (event_list h)) \<le> FD_SETSIZE \<and> event_read_set h \<subseteq> readers h \<and> event_write_set h \<subseteq> writers h"

definition round_inv :: "'c event_handler \<Rightarrow> bool" where
  "round_inv h \<longleftrightarrow> eh_inv h \<and> current_read_set h \<subseteq> readers h \<and> current_write_set h \<subseteq> writers h"

definition watched :: "'c event_handler \<Rightarrow> int set" where
  "watched h = current_read_set h \<union> current_write_set h"

lemma index_okD:
  "index_ok es s \<Longrightarrow> s fd = Some i \<Longrightarrow> i < length es \<and> ev_fd (es ! i) = fd"
  "index_ok es s \<Longrightarrow> i < length es \<Longrightarrow> s (ev_fd (es ! i)) = Some i"
  by (auto simp: index_ok_def)

lemma find_event_first:
  "i < length es \<Longrightarrow> ev_fd (es ! i) = fd \<Longrightarrow> \<forall>k < i. ev_fd (es ! k) \<noteq> fd \<Longrightarrow> find_event fd es j = Some (j + i)"
proof (induction es arbitrary: i j)
  case (Cons e es)
  show ?case
  proof (cases i)
    case (Suc k)
    then have "ev_fd e \<noteq> fd" using Cons.prems(3) by auto
    moreover have "find_event fd es (Suc j) = Some (Suc j + k)"
      using Cons.prems Suc by (intro Cons.IH) auto
    ultimately show ?thesis using Suc by simp
  qed (use Cons.prems in simp)
qed simp

lemma find_event_none: "find_event fd es j = None \<longleftrightarrow> fd \<notin> ev_fd ` set es"
  by (induction es arbitrary: j) auto

lemma index_unique:
  assumes "index_ok es s" and "a < length es" and "b < length es" and "ev_fd (es ! a) = ev_fd (es ! b)"
  shows "a = b"
proof -
  have "Some a = Some b"
    unfolding index_okD(2) [OF assms(1,2), symmetric] index_okD(2) [OF assms(1,3), symmetric] assms(4) ..
  then show ?thesis by simp
qed

lemma find_event_index:
  assumes "index_ok es s"
  shows "find_event fd es 0 = s fd"
proof (cases "s fd")
  case None
  have "fd \<notin> ev_fd ` set es"
    using None index_okD(2) [OF assms] by (auto simp: in_set_conv_nth)
  then show ?thesis using None by (simp add: find_event_none)
next
  case (Some i)
  then have i: "i < length es" "ev_fd (es ! i) = fd" using index_okD(1) [OF assms] by auto
  have "\<forall>k < i. ev_fd (es ! k) \<noteq> fd"
  proof (intro allI impI notI)
    fix k assume "k < i" "ev_fd (es ! k) = fd"
    then show False using index_unique [OF assms, of k i] i by simp
  qed
  then show ?thesis using find_event_first [of i es fd 0] i Some by simp
qed

lemma handler_at_mono:
  "handler_at (h\<lparr>eh_calls := x\<rparr>) fd = handler_at h fd"
  by (simp add: handler_at_def)

subsection \<open>Registration\<close>

lemma index_ok_append:
  assumes "index_ok es s" and "s (ev_fd e) = None"
  shows "index_ok (es @ [e]) (s(ev_fd e \<mapsto> length es))"
  unfolding index_ok_def
proof (intro allI)
  fix fd i
  show "(s(ev_fd e \<mapsto> length es)) fd = Some i \<longleftrightarrow> i < length (es @ [e]) \<and> ev_fd ((es @ [e]) ! i) = fd"
  proof (cases "fd = ev_fd e")
    case True
    have "ev_fd (es ! i) \<noteq> fd" if "i < length es" using index_okD(2) [OF assms(1) that] assms(2) True by auto
    then show ?thesis using True by (auto simp: nth_append less_Suc_eq)
  next
    case False
    then show ?thesis using assms by (auto simp: index_ok_def nth_append less_Suc_eq)
  qed
qed

definition registered :: "'c event_handler \<Rightarrow> int \<Rightarrow> 'c option \<Rightarrow> 'c option \<Rightarrow> 'c event_handler" where
  "registered h fd r w = h\<lparr>event_list := event_list h @ [\<lparr>ev_fd = fd, read_callback = r, write_callback = w\<rparr>],
     event_fd_set := (event_fd_set h)(fd \<mapsto> length (event_list h)),
     fd_set_size := (if fd \<ge> fd_set_size h then fd + 1 else fd_set_size h)\<rparr>"

lemma handler_at_registered:
  assumes "eh_inv h" and "event_fd_set h fd = None"
  shows "handler_at (registered h fd r w) = (handler_at h)(fd \<mapsto> \<lparr>ev_fd = fd, read_callback = r, write_callback = w\<rparr>)"
proof
  fix x
  show "handler_at (registered h fd r w) x = ((handler_at h)(fd \<mapsto> \<lparr>ev_fd = fd, read_callback = r, write_callback = w\<rparr>)) x"
    using assms index_okD(1) [of "event_list h" "event_fd_set h" x]
    by (cases "event_fd_set h x") (auto simp: handler_at_def registered_def eh_inv_def nth_append)
qed

lemma registered_inv:
  assumes "eh_inv h" and "event_fd_set h fd = None" and "valid_fd fd" and "int (length (event_list h)) < FD_SETSIZE"
  shows "eh_inv (registered h fd r w)"
proof -
  note H = handler_at_registered [OF assms(1,2), of r w]
  have n: "handler_at h fd = None" using assms(2) by (simp add: handler_at_def)
  have "readers h \<subseteq> readers (registered h fd r w)" "writers h \<subseteq> writers (registered h fd r w)"
    using n by (auto simp: readers_def writers_def H)
  moreover have "index_ok (event_list (registered h fd r w)) (event_fd_set (registered h fd r w))"
    using index_ok_append [of "event_list h" "event_fd_set h" "\<lparr>ev_fd = fd, read_callback = r, write_callback = w\<rparr>"] assms
    by (simp add: registered_def eh_inv_def)
  ultimately show ?thesis using assms by (auto simp: eh_inv_def registered_def split: if_splits)
qed

lemma set_fd_handler_cases:
  assumes "eh_inv h" and "valid_fd fd"
  shows "set_fd_handler fd r w h = Ok h \<or>
    (event_fd_set h fd = None \<and> int (length (event_list h)) < FD_SETSIZE \<and> set_fd_handler fd r w h = Ok (registered h fd r w))"
  using assms by (auto simp: set_fd_handler_def registered_def)

subsection \<open>Deletion\<close>

lemma index_ok_unlink:
  assumes ok: "index_ok es s" and i: "s fd = Some i" and l: "l = length es - 1"
  shows "index_ok (take l (es[i := es ! l])) (if i \<noteq> l then (s(fd := None))(ev_fd (es ! l) \<mapsto> i) else s(fd := None))"
  unfolding index_ok_def
proof (intro allI)
  fix x j
  have il: "i < length es" "ev_fd (es ! i) = fd" using index_okD(1) [OF ok i] by auto
  have uniq: "ev_fd (es ! a) = ev_fd (es ! b) \<Longrightarrow> a < length es \<Longrightarrow> b < length es \<Longrightarrow> a = b" for a b
    using index_unique [OF ok] by blast
  have jl: "j < l \<longleftrightarrow> j < length es \<and> j \<noteq> l" using il l by auto
  have dom: "s x = Some j \<longleftrightarrow> j < length es \<and> ev_fd (es ! j) = x" using ok by (simp add: index_ok_def)
  show "(if i \<noteq> l then (s(fd := None))(ev_fd (es ! l) \<mapsto> i) else s(fd := None)) x = Some j \<longleftrightarrow>
      j < length (take l (es[i := es ! l])) \<and> ev_fd (take l (es[i := es ! l]) ! j) = x"
  proof (cases "i = l")
    case True
    then show ?thesis using jl dom il l uniq [of j i] by auto
  next
    case False
    then have "i < l" "l < length es" using il l by auto
    then show ?thesis using False jl dom il uniq [of j i] uniq [of j l] uniq [of i l]
      by (cases "j = i"; cases "j = l") (auto simp: nth_list_update)
  qed
qed

definition unregistered :: "'c event_handler \<Rightarrow> int \<Rightarrow> nat \<Rightarrow> 'c event_handler" where
  "unregistered h fd i = unlink_event i (h\<lparr>event_read_set := event_read_set h - {fd}, event_write_set := event_write_set h - {fd},
     current_read_set := current_read_set h - {fd}, current_write_set := current_write_set h - {fd},
     event_fd_set := (event_fd_set h)(fd := None)\<rparr>)"

lemma unregistered_fields:
  "event_read_set (unregistered h fd i) = event_read_set h - {fd}" "event_write_set (unregistered h fd i) = event_write_set h - {fd}"
  "current_read_set (unregistered h fd i) = current_read_set h - {fd}"
  "current_write_set (unregistered h fd i) = current_write_set h - {fd}"
  "fd_set_size (unregistered h fd i) = fd_set_size h" "eh_calls (unregistered h fd i) = eh_calls h"
  "event_list (unregistered h fd i) = take (length (event_list h) - 1) ((event_list h)[i := event_list h ! (length (event_list h) - 1)])"
  "event_fd_set (unregistered h fd i) = (if i \<noteq> length (event_list h) - 1
     then ((event_fd_set h)(fd := None))(ev_fd (event_list h ! (length (event_list h) - 1)) \<mapsto> i) else (event_fd_set h)(fd := None))"
  by (auto simp: unregistered_def unlink_event_def Let_def)

lemma handler_at_unregistered:
  assumes "eh_inv h" and i: "event_fd_set h fd = Some i"
  shows "handler_at (unregistered h fd i) = (handler_at h)(fd := None)"
proof
  fix x
  have ok: "index_ok (event_list h) (event_fd_set h)" using assms(1) by (simp add: eh_inv_def)
  have il: "i < length (event_list h)" "ev_fd (event_list h ! i) = fd" using index_okD(1) [OF ok i] by auto
  show "handler_at (unregistered h fd i) x = ((handler_at h)(fd := None)) x"
  proof (cases "event_fd_set h x")
    case None
    have "ev_fd (event_list h ! (length (event_list h) - 1)) \<noteq> x"
      using index_okD(2) [OF ok, of "length (event_list h) - 1"] None il by fastforce
    then show ?thesis using None by (auto simp: handler_at_def unregistered_fields)
  next
    case (Some j)
    have j: "j < length (event_list h)" "ev_fd (event_list h ! j) = x" using index_okD(1) [OF ok Some] by auto
    have l: "event_fd_set h (ev_fd (event_list h ! (length (event_list h) - 1))) = Some (length (event_list h) - 1)"
      using index_okD(2) [OF ok, of "length (event_list h) - 1"] il by auto
    show ?thesis
    proof (cases "j = length (event_list h) - 1")
      case True
      show ?thesis
      proof (cases "x = fd")
        case xfd: True
        then have "i = length (event_list h) - 1" using Some i True by simp
        then show ?thesis using xfd by (simp add: handler_at_def unregistered_fields)
      next
        case xfd: False
        then have "i \<noteq> length (event_list h) - 1" using j(2) il(2) True by auto
        moreover from this have "i < length (event_list h) - 1" using il(1) by simp
        moreover have "ev_fd (event_list h ! (length (event_list h) - 1)) = x" using j(2) True by simp
        ultimately show ?thesis using xfd Some True by (simp add: handler_at_def unregistered_fields)
      qed
    next
      case False
      then have "x \<noteq> ev_fd (event_list h ! (length (event_list h) - 1))" using Some l by auto
      moreover have "j < length (event_list h) - 1" using False j(1) by simp
      moreover have "j \<noteq> i" if "x \<noteq> fd" using that j(2) il(2) by auto
      ultimately show ?thesis using Some by (cases "x = fd") (auto simp: handler_at_def unregistered_fields)
    qed
  qed
qed

lemma shrink_fd_set_size_bound: "s (int k) \<noteq> None \<Longrightarrow> k < n \<Longrightarrow> int k < shrink_fd_set_size s n"
  by (induction n) (auto simp: less_Suc_eq)

definition set_size_shrunk :: "int \<Rightarrow> 'c event_handler \<Rightarrow> 'c event_handler" where
  "set_size_shrunk fd h =
     (if fd = fd_set_size h - 1
      then h\<lparr>fd_set_size := shrink_fd_set_size (event_fd_set h) (nat (fd_set_size h - 1))\<rparr> else h)"

lemma set_size_shrunk_fields [simp]:
  "event_list (set_size_shrunk fd h) = event_list h" "event_fd_set (set_size_shrunk fd h) = event_fd_set h"
  "event_read_set (set_size_shrunk fd h) = event_read_set h" "event_write_set (set_size_shrunk fd h) = event_write_set h"
  "current_read_set (set_size_shrunk fd h) = current_read_set h" "current_write_set (set_size_shrunk fd h) = current_write_set h"
  "eh_calls (set_size_shrunk fd h) = eh_calls h" "handler_at (set_size_shrunk fd h) = handler_at h"
  by (auto simp: set_size_shrunk_def handler_at_def)

lemma delete_fd_handler_eq:
  assumes "eh_inv h"
  shows "delete_fd_handler fd h =
    (case event_fd_set h fd of None \<Rightarrow> h | Some i \<Rightarrow> set_size_shrunk fd (unregistered h fd i))"
  using find_event_index [of "event_list h" "event_fd_set h" fd] assms
  by (auto simp: delete_fd_handler_def eh_inv_def unregistered_def set_size_shrunk_def Let_def split: option.split)

lemma unregistered_inv:
  assumes inv: "eh_inv h" and i: "event_fd_set h fd = Some i"
  shows "eh_inv (set_size_shrunk fd (unregistered h fd i))"
proof -
  let ?h = "unregistered h fd i"
  have ok: "index_ok (event_list ?h) (event_fd_set ?h)"
    using index_ok_unlink [of "event_list h" "event_fd_set h" fd i "length (event_list h) - 1"] inv i
    unfolding unregistered_fields eh_inv_def by blast
  have dom: "x \<noteq> fd \<and> event_fd_set h x \<noteq> None" if "event_fd_set ?h x = Some j" for x j
  proof -
    have "handler_at ?h x \<noteq> None" using that by (simp add: handler_at_def)
    then have "x \<noteq> fd" "handler_at h x \<noteq> None" unfolding handler_at_unregistered [OF inv i] by (auto split: if_splits)
    then show ?thesis by (auto simp: handler_at_def)
  qed
  have valid: "valid_fd x \<and> x < fd_set_size (set_size_shrunk fd ?h)" if "event_fd_set ?h x = Some j" for x j
  proof -
    have x: "x \<noteq> fd" "valid_fd x" "x < fd_set_size h" using dom [OF that] inv by (auto simp: eh_inv_def)
    then have "fd = fd_set_size h - 1 \<Longrightarrow> x < shrink_fd_set_size (event_fd_set ?h) (nat (fd_set_size h - 1))"
      using shrink_fd_set_size_bound [of "event_fd_set ?h" "nat x" "nat (fd_set_size h - 1)"] that by (auto simp: valid_fd_def)
    then show ?thesis using x by (auto simp: set_size_shrunk_def unregistered_fields)
  qed
  have "readers (set_size_shrunk fd ?h) = readers h - {fd}" "writers (set_size_shrunk fd ?h) = writers h - {fd}"
    by (auto simp: readers_def writers_def handler_at_unregistered [OF inv i] split: if_splits)
  moreover have "int (length (event_list ?h)) \<le> FD_SETSIZE" using inv by (auto simp: unregistered_fields eh_inv_def)
  ultimately show ?thesis
    using inv ok valid unfolding eh_inv_def by (auto simp: unregistered_fields)
qed

section \<open>Sequences of operations\<close>

text \<open>What handlers do to the table: calls of the four operations.\<close>

datatype 'c eh_op = Set_fd_handler int "'c option" "'c option" | Delete_fd_handler int | Set_readable int bool | Set_writable int bool

fun run_eh_op :: "'c eh_op \<Rightarrow> 'c event_handler \<Rightarrow> 'c event_handler res" where
  "run_eh_op (Set_fd_handler fd r w) h = set_fd_handler fd r w h"
| "run_eh_op (Delete_fd_handler fd) h = Ok (delete_fd_handler fd h)"
| "run_eh_op (Set_readable fd b) h = Ok (set_readable fd b h)"
| "run_eh_op (Set_writable fd b) h = Ok (set_writable fd b h)"

fun run_eh_ops :: "'c eh_op list \<Rightarrow> 'c event_handler \<Rightarrow> 'c event_handler res" where
  "run_eh_ops [] h = Ok h"
| "run_eh_ops (x # xs) h = bnd (run_eh_op x h) (run_eh_ops xs)"

fun op_fd_ok :: "'c eh_op \<Rightarrow> bool" where
  "op_fd_ok (Set_fd_handler fd r w) = valid_fd fd"
| "op_fd_ok _ = True"

text \<open>
  Nothing is added to the sets of the running round, and a descriptor that is still in them has not
  moved towards the end of the array.
\<close>

definition settles :: "'c event_handler \<Rightarrow> 'c event_handler \<Rightarrow> bool" where
  "settles h h' \<longleftrightarrow> current_read_set h' \<subseteq> current_read_set h \<and> current_write_set h' \<subseteq> current_write_set h \<and>
     eh_calls h' = eh_calls h \<and>
     (\<forall>fd \<in> watched h'. \<forall>i'. event_fd_set h' fd = Some i' \<longrightarrow> (\<exists>i. event_fd_set h fd = Some i \<and> i' \<le> i))"

lemma settles_refl [simp]: "settles h h"
  by (simp add: settles_def)

lemma settles_trans:
  assumes "settles h h'" and "settles h' h''"
  shows "settles h h''"
proof -
  have w: "watched h'' \<subseteq> watched h'" using assms(2) by (auto simp: settles_def watched_def)
  have "\<exists>i. event_fd_set h fd = Some i \<and> i'' \<le> i" if "fd \<in> watched h''" "event_fd_set h'' fd = Some i''" for fd i''
  proof -
    note f = that
    obtain i' where i': "event_fd_set h' fd = Some i'" "i'' \<le> i'" using assms(2) f unfolding settles_def by blast
    moreover have "fd \<in> watched h'" using f(1) w by blast
    ultimately obtain i where "event_fd_set h fd = Some i" "i' \<le> i" using assms(1) unfolding settles_def by blast
    then show ?thesis using i'(2) by auto
  qed
  then show ?thesis using assms unfolding settles_def by auto
qed

lemma watched_handlers: "round_inv h \<Longrightarrow> fd \<in> watched h \<Longrightarrow> event_fd_set h fd \<noteq> None"
  by (auto simp: round_inv_def watched_def readers_def writers_def handler_at_def)

lemma set_fd_handler_ok:
  assumes "round_inv h" and "valid_fd fd"
  shows "\<exists>h'. set_fd_handler fd r w h = Ok h' \<and> round_inv h' \<and> settles h h'"
proof -
  have inv: "eh_inv h" using assms(1) by (simp add: round_inv_def)
  from set_fd_handler_cases [OF this assms(2), of r w]
  show ?thesis
  proof (elim disjE conjE)
    assume n: "event_fd_set h fd = None" "int (length (event_list h)) < FD_SETSIZE"
      and s: "set_fd_handler fd r w h = Ok (registered h fd r w)"
    let ?h = "registered h fd r w"
    have "readers h \<subseteq> readers ?h" "writers h \<subseteq> writers ?h"
      using n(1) by (auto simp: readers_def writers_def handler_at_registered [OF inv n(1)], simp_all add: handler_at_def)
    then have "round_inv ?h"
      using registered_inv [OF inv n(1) assms(2) n(2), of r w] assms(1) by (auto simp: round_inv_def registered_def)
    moreover have "settles h ?h"
      using watched_handlers [OF assms(1), of fd] n(1) by (auto simp: settles_def registered_def watched_def)
    ultimately show ?thesis using s by blast
  qed (use assms in auto)
qed

lemma delete_fd_handler_ok:
  assumes "round_inv h"
  shows "round_inv (delete_fd_handler fd h) \<and> settles h (delete_fd_handler fd h)"
proof -
  have inv: "eh_inv h" using assms by (simp add: round_inv_def)
  then have ok: "index_ok (event_list h) (event_fd_set h)" by (simp add: eh_inv_def)
  show ?thesis
  proof (cases "event_fd_set h fd")
    case (Some i)
    let ?h = "set_size_shrunk fd (unregistered h fd i)"
    have d: "delete_fd_handler fd h = ?h" using Some by (simp add: delete_fd_handler_eq [OF inv])
    have "readers ?h = readers h - {fd}" "writers ?h = writers h - {fd}"
      by (auto simp: readers_def writers_def handler_at_unregistered [OF inv Some] split: if_splits)
    then have "round_inv ?h"
      using unregistered_inv [OF inv Some] assms by (auto simp: round_inv_def unregistered_fields)
    moreover have "\<exists>i0. event_fd_set h x = Some i0 \<and> i' \<le> i0" if "event_fd_set ?h x = Some i'" for x i'
    proof -
      have l: "event_fd_set h (ev_fd (event_list h ! (length (event_list h) - 1))) = Some (length (event_list h) - 1)"
        using index_okD(2) [OF ok, of "length (event_list h) - 1"] index_okD(1) [OF ok Some] by auto
      show ?thesis using that l index_okD(1) [OF ok Some] by (auto simp: unregistered_fields split: if_splits)
    qed
    then have "settles h ?h" by (auto simp: settles_def unregistered_fields)
    ultimately show ?thesis unfolding d by blast
  qed (use assms in \<open>simp add: delete_fd_handler_eq [OF inv]\<close>)
qed

lemma set_readable_ok:
  assumes "round_inv h"
  shows "round_inv (set_readable fd b h) \<and> settles h (set_readable fd b h)"
  using assms
  by (auto simp: set_readable_def round_inv_def eh_inv_def readers_def writers_def handler_at_def settles_def watched_def
      split: option.splits)

lemma set_writable_ok:
  assumes "round_inv h"
  shows "round_inv (set_writable fd b h) \<and> settles h (set_writable fd b h)"
  using assms
  by (auto simp: set_writable_def round_inv_def eh_inv_def readers_def writers_def handler_at_def settles_def watched_def
      split: option.splits)

lemma run_eh_op_ok:
  assumes "round_inv h" and "op_fd_ok x"
  shows "\<exists>h'. run_eh_op x h = Ok h' \<and> round_inv h' \<and> settles h h'"
proof (cases x)
  case (Set_fd_handler fd r w)
  then show ?thesis using set_fd_handler_ok [OF assms(1), of fd r w] assms(2) by simp
qed (use delete_fd_handler_ok [OF assms(1)] set_readable_ok [OF assms(1)] set_writable_ok [OF assms(1)] in auto)

lemma run_eh_ops_ok:
  assumes "round_inv h" and "\<forall>x \<in> set xs. op_fd_ok x"
  shows "\<exists>h'. run_eh_ops xs h = Ok h' \<and> round_inv h' \<and> settles h h'"
  using assms
proof (induction xs arbitrary: h)
  case (Cons x xs)
  obtain h1 where h1: "run_eh_op x h = Ok h1" "round_inv h1" "settles h h1"
    using run_eh_op_ok [OF Cons.prems(1)] Cons.prems(2) by auto
  obtain h2 where "run_eh_ops xs h1 = Ok h2" "round_inv h2" "settles h1 h2" using Cons.IH [OF h1(2)] Cons.prems(2) by auto
  then show ?case using h1 settles_trans by auto
qed simp

section \<open>One round of the main loop\<close>

definition within :: "'c event_handler \<Rightarrow> 'c event_handler \<Rightarrow> bool" where
  "within h h' \<longleftrightarrow> settles (h\<lparr>eh_calls := []\<rparr>) (h'\<lparr>eh_calls := []\<rparr>)"

lemma within_refl [simp]: "within h h"
  by (simp add: within_def)

lemma within_trans: "within h h' \<Longrightarrow> within h' h'' \<Longrightarrow> within h h''"
  unfolding within_def by (rule settles_trans)

lemma settles_within: "settles (h\<lparr>eh_calls := cs\<rparr>) h' \<Longrightarrow> within h h' \<and> eh_calls h' = cs"
  by (auto simp: within_def settles_def watched_def)

lemma within_watched: "within h h' \<Longrightarrow> watched h' \<subseteq> watched h"
  by (auto simp: within_def settles_def watched_def)

lemma within_pos:
  assumes "within h h'" and "fd \<in> watched h'" and "event_fd_set h' fd = Some j"
  shows "\<exists>k. event_fd_set h fd = Some k \<and> j \<le> k"
proof -
  have "fd \<in> watched (h'\<lparr>eh_calls := []\<rparr>)" using assms(2) by (simp add: watched_def)
  then show ?thesis using assms(1,3) by (simp add: within_def settles_def)
qed

lemma round_inv_calls [simp]: "round_inv (h\<lparr>eh_calls := cs\<rparr>) = round_inv h"
  by (simp add: round_inv_def eh_inv_def readers_def writers_def handler_at_def)

definition pending :: "'c event_handler \<Rightarrow> nat \<Rightarrow> int set" where
  "pending h i = {fd \<in> watched h. \<exists>j. event_fd_set h fd = Some j \<and> i \<le> j}"

lemma pending_within:
  assumes "within h h'"
  shows "pending h' i \<subseteq> pending h i"
proof
  fix fd assume "fd \<in> pending h' i"
  then obtain j where j: "fd \<in> watched h'" "event_fd_set h' fd = Some j" "i \<le> j" by (auto simp: pending_def)
  then obtain k where "event_fd_set h fd = Some k" "j \<le> k" using within_pos [OF assms] by blast
  then show "fd \<in> pending h i" using j within_watched [OF assms] by (auto simp: pending_def)
qed

lemma finite_pending: assumes "round_inv h" shows "finite (pending h i)" and "card (pending h i) \<le> 1024"
proof -
  have "pending h i \<subseteq> {0..<1024}"
    using assms by (auto simp: pending_def round_inv_def eh_inv_def valid_fd_def FD_SETSIZE_def)
  then show "finite (pending h i)" "card (pending h i) \<le> 1024"
    using finite_subset card_mono [of "{0..<1024 :: int}" "pending h i"] by auto
qed

lemma handler_at_slot:
  assumes "eh_inv h" and "i < length (event_list h)"
  shows "handler_at h (ev_fd (event_list h ! i)) = Some (event_list h ! i)"
  using assms index_okD(2) [of "event_list h" "event_fd_set h" i] by (simp add: handler_at_def eh_inv_def)

text \<open>
  Handlers that only use the operations of the table, with descriptors in range, keep the invariant of a
  round; this is all the main loop relies on.
\<close>

locale event_callbacks =
  fixes call :: "'c \<Rightarrow> int \<Rightarrow> 'c event_handler \<Rightarrow> 'c event_handler res"
  assumes call_ok: "round_inv h \<Longrightarrow> \<exists>h'. call c fd h = Ok h' \<and> round_inv h' \<and> settles h h'"
begin

lemma call_handler_ok:
  assumes "round_inv h" and "cb \<noteq> None"
  obtains h' where "call_handler call cb fd h = Ok h'" "round_inv h'" "within h h'" "eh_calls h' = eh_calls h @ [(the cb, fd)]"
proof -
  obtain c where c: "cb = Some c" using assms(2) by auto
  obtain h' where h': "call c fd (h\<lparr>eh_calls := eh_calls h @ [(c, fd)]\<rparr>) = Ok h'" "round_inv h'"
    "settles (h\<lparr>eh_calls := eh_calls h @ [(c, fd)]\<rparr>) h'"
    using call_ok [of "h\<lparr>eh_calls := eh_calls h @ [(c, fd)]\<rparr>" c fd] assms(1) by auto
  then show ?thesis using that [of h'] c settles_within [OF h'(3)] by (simp add: call_handler_def)
qed

lemma maybe_call:
  assumes "round_inv h" and "P \<Longrightarrow> cb \<noteq> None" and "P \<Longrightarrow> fd \<in> ws"
  obtains h' cs where "(if P then call_handler call cb fd h else Ok h) = Ok h'" "round_inv h'" "within h h'"
    "eh_calls h' = eh_calls h @ cs" "\<forall>(c, x) \<in> set cs. x = fd \<and> x \<in> ws" "\<not> P \<Longrightarrow> h' = h"
proof (cases P)
  case True
  obtain h' where "call_handler call cb fd h = Ok h'" "round_inv h'" "within h h'" "eh_calls h' = eh_calls h @ [(the cb, fd)]"
    using call_handler_ok [OF assms(1) assms(2) [OF True]] by blast
  then show ?thesis using that [of h' "[(the cb, fd)]"] True assms(3) by simp
next
  case False
  then show ?thesis using that [of h "[]"] assms(1) by simp
qed

lemma dispatch_step:
  assumes inv: "round_inv h" and i: "i < length (event_list h)"
  obtains h1 cs i' where "dispatch_events call (Suc fuel) i h = dispatch_events call fuel i' h1" "round_inv h1" "within h h1"
    "eh_calls h1 = eh_calls h @ cs" "\<forall>(c, x) \<in> set cs. x \<in> watched h"
    "card (pending h1 i') + (1024 - i') < card (pending h i) + (1024 - i)"
proof -
  define e where "e = event_list h ! i"
  define fd where "fd = ev_fd e"
  have eh: "eh_inv h" using inv by (simp add: round_inv_def)
  have e: "handler_at h fd = Some e" "event_fd_set h fd = Some i" "i < 1024"
    using handler_at_slot [OF eh i] index_okD(2) [of "event_list h" "event_fd_set h" i] eh i
    by (auto simp: fd_def e_def eh_inv_def FD_SETSIZE_def)
  have w: "fd \<in> current_write_set h \<Longrightarrow> write_callback e \<noteq> None" "fd \<in> current_read_set h \<Longrightarrow> read_callback e \<noteq> None"
    using inv e(1) by (auto simp: round_inv_def writers_def readers_def)
  obtain ha as where a: "(if fd \<in> current_write_set h then call_handler call (write_callback e) fd h else Ok h) = Ok ha"
    "round_inv ha" "within h ha" "eh_calls ha = eh_calls h @ as" "\<forall>(c, x) \<in> set as. x = fd \<and> x \<in> watched h"
    "fd \<notin> current_write_set h \<Longrightarrow> ha = h"
    by (rule maybe_call [OF inv, of "fd \<in> current_write_set h" "write_callback e" fd "watched h"]) (auto simp: w watched_def)
  have ra: "fd \<in> current_read_set ha \<Longrightarrow> fd \<in> current_read_set h" using a(3) by (auto simp: within_def settles_def)
  obtain hb bs where b: "(if fd \<in> current_read_set ha then call_handler call (read_callback e) fd ha else Ok ha) = Ok hb"
    "round_inv hb" "within ha hb" "eh_calls hb = eh_calls ha @ bs" "\<forall>(c, x) \<in> set bs. x = fd \<and> x \<in> watched h"
    "fd \<notin> current_read_set ha \<Longrightarrow> hb = ha"
    by (rule maybe_call [OF a(2), of "fd \<in> current_read_set ha" "read_callback e" fd "watched h"]) (auto simp: w watched_def ra)
  have wi: "within h hb" using within_trans [OF a(3) b(3)] .
  let ?i = "if fd = fd_at hb i then Suc i else i"
  have "card (pending hb ?i) + (1024 - ?i) < card (pending h i) + (1024 - i)"
  proof (cases "fd = fd_at hb i")
    case True
    have "pending hb (Suc i) \<subseteq> pending h i" using pending_within [OF wi, of i] by (auto simp: pending_def)
    then have "card (pending hb (Suc i)) \<le> card (pending h i)" by (intro card_mono finite_pending [OF inv])
    then show ?thesis using True e(3) by simp
  next
    case False
    have "fd_at h i = fd" using i by (simp add: fd_at_def fd_def e_def)
    then have "hb \<noteq> h" using False by auto
    then have "fd \<in> watched h" using a(6) b(6) ra by (auto simp: watched_def)
    then have "fd \<in> pending h i" using e(2) by (simp add: pending_def)
    moreover have "fd \<notin> pending hb i"
    proof
      assume "fd \<in> pending hb i"
      then obtain j where j: "fd \<in> watched hb" "event_fd_set hb fd = Some j" "i \<le> j" by (auto simp: pending_def)
      then have "j \<le> i" using within_pos [OF wi] e(2) by fastforce
      then have "event_fd_set hb fd = Some i" using j by simp
      then have "fd_at hb i = fd"
        using index_okD(1) [of "event_list hb" "event_fd_set hb" fd i] b(2) by (auto simp: fd_at_def round_inv_def eh_inv_def)
      then show False using False by simp
    qed
    ultimately have "pending hb i \<subset> pending h i" using pending_within [OF wi] by blast
    then show ?thesis using False psubset_card_mono [OF finite_pending(1) [OF inv]] by simp
  qed
  moreover have "dispatch_events call (Suc fuel) i h = dispatch_events call fuel ?i hb"
    unfolding dispatch_events.simps Let_def e_def [symmetric] fd_def [symmetric] a(1) bnd.simps b(1) using i by simp
  moreover have "eh_calls hb = eh_calls h @ as @ bs" "\<forall>(c, x) \<in> set (as @ bs). x \<in> watched h"
    using b(4,5) a(4,5) by fastforce+
  ultimately show ?thesis using that b(2) wi by blast
qed

theorem dispatch_returns:
  assumes "round_inv h" and "card (pending h i) + (1024 - i) < fuel"
  shows "\<exists>h' cs. dispatch_events call fuel i h = Ok h' \<and> round_inv h' \<and> eh_calls h' = eh_calls h @ cs \<and>
    (\<forall>(c, x) \<in> set cs. x \<in> watched h)"
  using assms
proof (induction fuel arbitrary: i h)
  case (Suc fuel)
  show ?case
  proof (cases "i < length (event_list h)")
    case True
    obtain h1 cs i' where s: "dispatch_events call (Suc fuel) i h = dispatch_events call fuel i' h1" "round_inv h1" "within h h1"
      "eh_calls h1 = eh_calls h @ cs" "\<forall>(c, x) \<in> set cs. x \<in> watched h"
      "card (pending h1 i') + (1024 - i') < card (pending h i) + (1024 - i)"
      using dispatch_step [OF Suc.prems(1) True] by metis
    obtain h' ds where "dispatch_events call fuel i' h1 = Ok h'" "round_inv h'" "eh_calls h' = eh_calls h1 @ ds"
      "\<forall>(c, x) \<in> set ds. x \<in> watched h1"
      using Suc.IH [OF s(2), of i'] s(6) Suc.prems(2) by auto
    then show ?thesis using s within_watched [OF s(3)] by fastforce
  qed (use Suc.prems in auto)
qed simp

end

interpretation table_callbacks: event_callbacks "\<lambda>c fd. run_eh_ops (if \<forall>x \<in> set (act c fd). op_fd_ok x then act c fd else [])"
  for act :: "'c \<Rightarrow> int \<Rightarrow> 'c eh_op list"
  by unfold_locales (auto intro: run_eh_ops_ok)

text \<open>Handlers that leave the table alone.\<close>

definition calls_at :: "int set \<Rightarrow> int set \<Rightarrow> 'c event_fd \<Rightarrow> ('c \<times> int) list" where
  "calls_at rs ws e =
     (if ev_fd e \<in> ws then [(the (write_callback e), ev_fd e)] else []) @
     (if ev_fd e \<in> rs then [(the (read_callback e), ev_fd e)] else [])"

lemma dispatch_quiet:
  assumes "round_inv h" and "length (event_list h) - i < fuel"
  shows "dispatch_events (\<lambda>c fd. Ok) fuel i h =
    Ok (h\<lparr>eh_calls := eh_calls h @ concat (map (calls_at (current_read_set h) (current_write_set h)) (drop i (event_list h)))\<rparr>)"
  using assms
proof (induction fuel arbitrary: i h)
  case (Suc fuel)
  show ?case
  proof (cases "i < length (event_list h)")
    case True
    let ?e = "event_list h ! i"
    let ?c = "calls_at (current_read_set h) (current_write_set h) ?e"
    have "handler_at h (ev_fd ?e) = Some ?e" using handler_at_slot [OF _ True] Suc.prems(1) by (simp add: round_inv_def)
    then have cb: "ev_fd ?e \<in> current_write_set h \<Longrightarrow> write_callback ?e \<noteq> None" "ev_fd ?e \<in> current_read_set h \<Longrightarrow> read_callback ?e \<noteq> None"
      using Suc.prems(1) by (auto simp: round_inv_def readers_def writers_def)
    have "dispatch_events (\<lambda>c fd. Ok) (Suc fuel) i h = dispatch_events (\<lambda>c fd. Ok) fuel (Suc i) (h\<lparr>eh_calls := eh_calls h @ ?c\<rparr>)"
      using True cb by (auto simp: Let_def calls_at_def call_handler_def fd_at_def)
    moreover have "dispatch_events (\<lambda>c fd. Ok) fuel (Suc i) (h\<lparr>eh_calls := eh_calls h @ ?c\<rparr>) =
        Ok (h\<lparr>eh_calls := eh_calls h @ ?c @ concat (map (calls_at (current_read_set h) (current_write_set h)) (drop (Suc i) (event_list h)))\<rparr>)"
      using Suc.prems True Suc.IH [of "h\<lparr>eh_calls := eh_calls h @ ?c\<rparr>" "Suc i"] by simp
    ultimately show ?thesis using True by (simp add: Cons_nth_drop_Suc [symmetric])
  qed simp
qed simp

section \<open>The table as a map\<close>

text \<open>
  The specification: a map from descriptors to their handlers, and the sets of descriptors that are
  watched for reading and for writing.
\<close>

type_synonym 'c event_table = "(int \<rightharpoonup> 'c option \<times> 'c option) \<times> int set \<times> int set"

definition table_of :: "'c event_handler \<Rightarrow> 'c event_table" where
  "table_of h = ((\<lambda>fd. map_option (\<lambda>e. (read_callback e, write_callback e)) (handler_at h fd)), event_read_set h, event_write_set h)"

fun map_eh_op :: "'c eh_op \<Rightarrow> 'c event_table \<Rightarrow> 'c event_table" where
  "map_eh_op (Set_fd_handler fd r w) (m, rs, ws) = (if m fd = None then m(fd \<mapsto> (r, w)) else m, rs, ws)"
| "map_eh_op (Delete_fd_handler fd) (m, rs, ws) = (m(fd := None), rs - {fd}, ws - {fd})"
| "map_eh_op (Set_readable fd b) (m, rs, ws) =
     (m, case m fd of Some (Some _, _) \<Rightarrow> if b then insert fd rs else rs - {fd} | _ \<Rightarrow> rs, ws)"
| "map_eh_op (Set_writable fd b) (m, rs, ws) =
     (m, rs, case m fd of Some (_, Some _) \<Rightarrow> if b then insert fd ws else ws - {fd} | _ \<Rightarrow> ws)"

lemma free_place:
  assumes "eh_inv h" and "valid_fd fd" and "event_fd_set h fd = None"
  shows "int (length (event_list h)) < FD_SETSIZE"
proof -
  have ok: "index_ok (event_list h) (event_fd_set h)" using assms(1) by (simp add: eh_inv_def)
  then have "distinct (map ev_fd (event_list h))" using index_unique by (fastforce simp: distinct_conv_nth)
  then have "length (event_list h) = card (ev_fd ` set (event_list h))"
    using distinct_card [of "map ev_fd (event_list h)"] by simp
  moreover have "ev_fd ` set (event_list h) \<subseteq> {0..<1024} - {fd}"
  proof
    fix x assume "x \<in> ev_fd ` set (event_list h)"
    then obtain i where "i < length (event_list h)" "ev_fd (event_list h ! i) = x" by (auto simp: in_set_conv_nth)
    then have "event_fd_set h x = Some i" using index_okD(2) [OF ok] by auto
    then show "x \<in> {0..<1024} - {fd}" using assms by (auto simp: eh_inv_def valid_fd_def FD_SETSIZE_def)
  qed
  ultimately have "length (event_list h) \<le> card ({0..<1024} - {fd})" by (simp add: card_mono)
  also have "\<dots> < 1024" using assms(2) by (simp add: card_Diff_singleton_if valid_fd_def FD_SETSIZE_def)
  finally show ?thesis by (simp add: FD_SETSIZE_def)
qed

lemma handler_valid: "eh_inv h \<Longrightarrow> handler_at h fd \<noteq> None \<Longrightarrow> valid_fd fd"
  by (auto simp: handler_at_def eh_inv_def)

lemma run_eh_op_refines:
  assumes inv: "eh_inv h" and ok: "op_fd_ok x" and run: "run_eh_op x h = Ok h'"
  shows "table_of h' = map_eh_op x (table_of h)"
proof (cases x)
  case (Set_fd_handler fd r w)
  have v: "valid_fd fd" using ok Set_fd_handler by simp
  show ?thesis
  proof (cases "event_fd_set h fd")
    case None
    then have "h' = registered h fd r w"
      using run Set_fd_handler v free_place [OF inv v] by (simp add: set_fd_handler_def registered_def)
    moreover have "handler_at h fd = None" using None by (simp add: handler_at_def)
    ultimately show ?thesis
      using Set_fd_handler handler_at_registered [OF inv None, of r w] by (auto simp: table_of_def registered_def)
  next
    case (Some i)
    then show ?thesis using run Set_fd_handler v by (simp add: set_fd_handler_def table_of_def handler_at_def)
  qed
next
  case (Delete_fd_handler fd)
  show ?thesis
  proof (cases "event_fd_set h fd")
    case None
    then have "fd \<notin> event_read_set h" "fd \<notin> event_write_set h"
      using inv by (auto simp: eh_inv_def readers_def writers_def handler_at_def)
    then show ?thesis using None run Delete_fd_handler
      by (auto simp: delete_fd_handler_eq [OF inv] table_of_def handler_at_def fun_eq_iff)
  next
    case (Some i)
    then show ?thesis using run Delete_fd_handler
      by (auto simp: delete_fd_handler_eq [OF inv] table_of_def handler_at_unregistered [OF inv Some] unregistered_fields fun_eq_iff)
  qed
next
  case (Set_readable fd b)
  then show ?thesis using run handler_valid [OF inv, of fd]
    by (auto simp: set_readable_def table_of_def handler_at_def split: option.splits)
next
  case (Set_writable fd b)
  then show ?thesis using run handler_valid [OF inv, of fd]
    by (auto simp: set_writable_def table_of_def handler_at_def split: option.splits)
qed

lemma run_eh_ops_refines:
  assumes "round_inv h" and "\<forall>x \<in> set xs. op_fd_ok x"
  shows "\<exists>h'. run_eh_ops xs h = Ok h' \<and> eh_inv h' \<and> table_of h' = fold map_eh_op xs (table_of h)"
  using assms
proof (induction xs arbitrary: h)
  case (Cons x xs)
  obtain h1 where h1: "run_eh_op x h = Ok h1" "round_inv h1" using run_eh_op_ok [OF Cons.prems(1), of x] Cons.prems(2) by auto
  have "table_of h1 = map_eh_op x (table_of h)"
    using run_eh_op_refines [OF _ _ h1(1)] Cons.prems by (simp add: round_inv_def)
  then show ?case using Cons.IH [OF h1(2)] Cons.prems(2) h1(1) by auto
qed (simp add: round_inv_def)

end
