(* ===== verification/Timer.thy ===== *)
theory Timer
  imports Trema_Prelude
begin

text \<open>
  The timers (\<open>src/lib/timer.c\<close>): a list of timers in the order of their expiry, and its execution.

  The list \<open>timer_callbacks\<close> (behind its head element) is a list, \<open>None\<close> when it was not created.  A
  deleted timer stays in the list without a function until the execution passes it.  A function is a
  value of the type \<open>'f\<close>, its data one of the type \<open>'u\<close> (\<open>None\<close> for \<open>NULL\<close>); what a call of it does to the timers is an argument of the execution, a sequence of additions
  and deletions.  The calls are recorded with the time at which they were due.  The time that
  \<open>clock_gettime\<close> reports is an argument.
\<close>

section \<open>Times\<close>

record timespec =
  tv_sec :: int
  tv_nsec :: int

abbreviation "zero_time \<equiv> \<lparr>tv_sec = 0, tv_nsec = 0\<rparr>"

definition VALID_TIMESPEC :: "timespec \<Rightarrow> bool" where
  "VALID_TIMESPEC a \<longleftrightarrow> tv_sec a > 0 \<or> tv_nsec a > 0"

definition ADD_TIMESPEC :: "timespec \<Rightarrow> timespec \<Rightarrow> timespec" where
  "ADD_TIMESPEC a b =
     (let sec = tv_sec a + tv_sec b; nsec = tv_nsec a + tv_nsec b
      in if nsec \<ge> 1000000000 then \<lparr>tv_sec = sec + 1, tv_nsec = nsec - 1000000000\<rparr> else \<lparr>tv_sec = sec, tv_nsec = nsec\<rparr>)"

definition SUB_TIMESPEC :: "timespec \<Rightarrow> timespec \<Rightarrow> timespec" where
  "SUB_TIMESPEC a b =
     (let sec = tv_sec a - tv_sec b; nsec = tv_nsec a - tv_nsec b
      in if nsec < 0 then \<lparr>tv_sec = sec - 1, tv_nsec = nsec + 1000000000\<rparr> else \<lparr>tv_sec = sec, tv_nsec = nsec\<rparr>)"

definition TIMESPEC_LESS_THEN :: "timespec \<Rightarrow> timespec \<Rightarrow> bool" where
  "TIMESPEC_LESS_THEN a b \<longleftrightarrow> (if tv_sec a = tv_sec b then tv_nsec a < tv_nsec b else tv_sec a < tv_sec b)"

text \<open>The result is converted to a signed integer of 32 bits.\<close>

definition TIMESPEC_TO_MICROSECONDS :: "timespec \<Rightarrow> int" where
  "TIMESPEC_TO_MICROSECONDS a =
     (let round = ADD_TIMESPEC a \<lparr>tv_sec = 0, tv_nsec = 999\<rparr>
      in sint (word_of_int (tv_sec round * 1000000 + tv_nsec round div 1000) :: 32 word))"

section \<open>Timers\<close>

record ('f, 'u) timer_callback_info =
  tm_function :: "'f option"
  expires_at :: timespec
  tm_interval :: timespec
  tm_user_data :: "'u option"

record ('f, 'u) timer_state =
  timer_callbacks :: "('f, 'u) timer_callback_info list option"
  timer_calls :: "('f \<times> 'u option \<times> timespec) list"

definition init_timer :: "('f, 'u) timer_state \<Rightarrow> bool \<times> ('f, 'u) timer_state" where
  "init_timer s = (if timer_callbacks s \<noteq> None then (False, s) else (True, s\<lparr>timer_callbacks := Some []\<rparr>))"

definition finalize_timer :: "('f, 'u) timer_state \<Rightarrow> bool \<times> ('f, 'u) timer_state" where
  "finalize_timer s = (True, s\<lparr>timer_callbacks := None\<rparr>)"

fun insert_timer_callback :: "('f, 'u) timer_callback_info \<Rightarrow> ('f, 'u) timer_callback_info list \<Rightarrow> ('f, 'u) timer_callback_info list" where
  "insert_timer_callback new_cb [] = [new_cb]"
| "insert_timer_callback new_cb (cb # cbs) =
     (if TIMESPEC_LESS_THEN (expires_at new_cb) (expires_at cb) then new_cb # cb # cbs
      else cb # insert_timer_callback new_cb cbs)"

definition new_timer :: "timespec \<Rightarrow> timespec \<Rightarrow> timespec \<Rightarrow> 'f \<Rightarrow> 'u option \<Rightarrow> ('f, 'u) timer_callback_info option" where
  "new_timer now it_interval it_value callback user_data =
     (let cb = \<lparr>tm_function = Some callback, expires_at = zero_time, tm_interval = it_interval, tm_user_data = user_data\<rparr>
      in if VALID_TIMESPEC it_value then Some (cb\<lparr>expires_at := ADD_TIMESPEC now it_value\<rparr>)
         else if VALID_TIMESPEC it_interval then Some (cb\<lparr>expires_at := ADD_TIMESPEC now it_interval\<rparr>)
         else None)"

definition add_timer_event_callback ::
  "timespec option \<Rightarrow> timespec \<Rightarrow> timespec \<Rightarrow> 'f \<Rightarrow> 'u option \<Rightarrow> ('f, 'u) timer_state \<Rightarrow> (bool \<times> ('f, 'u) timer_state) res" where
  "add_timer_event_callback clock it_interval it_value callback user_data s =
     (case clock of
        None \<Rightarrow> Ok (False, s)
      | Some now \<Rightarrow>
          (case new_timer now it_interval it_value callback user_data of
             None \<Rightarrow> Ok (False, s)
           | Some cb \<Rightarrow>
               (case timer_callbacks s of
                  None \<Rightarrow> Fault Assertion
                | Some cbs \<Rightarrow> Ok (True, s\<lparr>timer_callbacks := Some (insert_timer_callback cb cbs)\<rparr>))))"

definition add_periodic_event_callback :: "timespec option \<Rightarrow> int \<Rightarrow> 'f \<Rightarrow> 'u option \<Rightarrow> ('f, 'u) timer_state \<Rightarrow> (bool \<times> ('f, 'u) timer_state) res" where
  "add_periodic_event_callback clock seconds callback user_data =
     add_timer_event_callback clock \<lparr>tv_sec = seconds, tv_nsec = 0\<rparr> zero_time callback user_data"

definition cleared :: "('f, 'u) timer_callback_info \<Rightarrow> ('f, 'u) timer_callback_info" where
  "cleared cb = \<lparr>tm_function = None, expires_at = zero_time, tm_interval = zero_time, tm_user_data = None\<rparr>"

definition is_timer :: "'f \<Rightarrow> 'u option \<Rightarrow> ('f, 'u) timer_callback_info \<Rightarrow> bool" where
  "is_timer callback user_data cb \<longleftrightarrow> tm_function cb = Some callback \<and> tm_user_data cb = user_data"

fun clear_timer :: "'f \<Rightarrow> 'u option \<Rightarrow> ('f, 'u) timer_callback_info list \<Rightarrow> ('f, 'u) timer_callback_info list" where
  "clear_timer callback user_data [] = []"
| "clear_timer callback user_data (cb # cbs) =
     (if is_timer callback user_data cb then cleared cb # cbs else cb # clear_timer callback user_data cbs)"

definition delete_timer_event :: "'f \<Rightarrow> 'u option \<Rightarrow> ('f, 'u) timer_state \<Rightarrow> bool \<times> ('f, 'u) timer_state" where
  "delete_timer_event callback user_data s =
     (case timer_callbacks s of
        None \<Rightarrow> (False, s)
      | Some cbs \<Rightarrow> (\<exists>cb \<in> set cbs. is_timer callback user_data cb, s\<lparr>timer_callbacks := Some (clear_timer callback user_data cbs)\<rparr>))"

section \<open>Execution\<close>

text \<open>
  During a call the list consists of the elements before the one that is executed, that element, what
  was inserted right behind it, and the elements from \<open>element_next\<close> on.
\<close>

datatype ('f, 'u) timer_op = Add_timer timespec timespec timespec 'f "'u option" | Delete_timer 'f "'u option"

type_synonym ('f, 'u) timer_cursor = "('f, 'u) timer_callback_info list \<times> ('f, 'u) timer_callback_info \<times> ('f, 'u) timer_callback_info list \<times> ('f, 'u) timer_callback_info list"

definition earlier_than_some :: "('f, 'u) timer_callback_info \<Rightarrow> ('f, 'u) timer_callback_info list \<Rightarrow> bool" where
  "earlier_than_some cb cbs \<longleftrightarrow> (\<exists>x \<in> set cbs. TIMESPEC_LESS_THEN (expires_at cb) (expires_at x))"

definition insert_before_next ::
  "('f, 'u) timer_callback_info \<Rightarrow> ('f, 'u) timer_callback_info list \<Rightarrow> ('f, 'u) timer_callback_info list \<Rightarrow> ('f, 'u) timer_callback_info list \<times> ('f, 'u) timer_callback_info list" where
  "insert_before_next cb m r =
     (if earlier_than_some cb m then (insert_timer_callback cb m, r)
      else case r of
        [] \<Rightarrow> (m @ [cb], [])
      | x # xs \<Rightarrow> if TIMESPEC_LESS_THEN (expires_at cb) (expires_at x) then (m @ [cb], x # xs)
                  else (m, x # insert_timer_callback cb xs))"

definition insert_at_cursor :: "('f, 'u) timer_callback_info \<Rightarrow> ('f, 'u) timer_cursor \<Rightarrow> ('f, 'u) timer_cursor" where
  "insert_at_cursor cb z =
     (case z of (p, e, m, r) \<Rightarrow>
        if earlier_than_some cb p then (insert_timer_callback cb p, e, m, r)
        else if TIMESPEC_LESS_THEN (expires_at cb) (expires_at e) then (p @ [cb], e, m, r)
        else case insert_before_next cb m r of (m, r) \<Rightarrow> (p, e, m, r))"

definition clear_at_cursor :: "'f \<Rightarrow> 'u option \<Rightarrow> ('f, 'u) timer_cursor \<Rightarrow> ('f, 'u) timer_cursor" where
  "clear_at_cursor callback user_data z =
     (case z of (p, e, m, r) \<Rightarrow>
        if \<exists>cb \<in> set p. is_timer callback user_data cb then (clear_timer callback user_data p, e, m, r)
        else if is_timer callback user_data e then (p, cleared e, m, r)
        else if \<exists>cb \<in> set m. is_timer callback user_data cb then (p, e, clear_timer callback user_data m, r)
        else (p, e, m, clear_timer callback user_data r))"

fun run_timer_op :: "('f, 'u) timer_op \<Rightarrow> ('f, 'u) timer_cursor \<Rightarrow> ('f, 'u) timer_cursor" where
  "run_timer_op (Add_timer now it_interval it_value callback user_data) z =
     (case new_timer now it_interval it_value callback user_data of None \<Rightarrow> z | Some cb \<Rightarrow> insert_at_cursor cb z)"
| "run_timer_op (Delete_timer callback user_data) z = clear_at_cursor callback user_data z"

text \<open>\<open>on_timer\<close> behind the call of the function.\<close>

definition next_expiry :: "timespec \<Rightarrow> ('f, 'u) timer_callback_info \<Rightarrow> ('f, 'u) timer_callback_info" where
  "next_expiry now cb =
     (if VALID_TIMESPEC (tm_interval cb)
      then let t = ADD_TIMESPEC (expires_at cb) (tm_interval cb)
           in cb\<lparr>expires_at := (if TIMESPEC_LESS_THEN t now then now else t)\<rparr>
      else cb\<lparr>expires_at := zero_time, tm_function := None\<rparr>)"

definition on_timer ::
  "('f \<Rightarrow> 'u option \<Rightarrow> ('f, 'u) timer_op list) \<Rightarrow> timespec \<Rightarrow> ('f, 'u) timer_cursor \<Rightarrow> (('f, 'u) timer_cursor \<times> ('f \<times> 'u option \<times> timespec) list) res" where
  "on_timer act now z =
     (case z of (p, cb, m, r) \<Rightarrow>
        case tm_function cb of
          None \<Rightarrow> Fault Assertion
        | Some f \<Rightarrow>
            if VALID_TIMESPEC (expires_at cb)
            then case fold run_timer_op (act f (tm_user_data cb)) z of
                   (p, cb', m, r) \<Rightarrow> Ok ((p, next_expiry now cb', m, r), [(f, tm_user_data cb, expires_at cb)])
            else Ok (z, []))"

fun execute_timers ::
  "nat \<Rightarrow> ('f \<Rightarrow> 'u option \<Rightarrow> ('f, 'u) timer_op list) \<Rightarrow> timespec \<Rightarrow> ('f, 'u) timer_callback_info list \<Rightarrow> ('f, 'u) timer_callback_info list \<Rightarrow>
   ('f \<times> 'u option \<times> timespec) list \<Rightarrow> (('f, 'u) timer_callback_info list \<times> ('f \<times> 'u option \<times> timespec) list) res" where
  "execute_timers 0 act now p r calls = Fault No_return"
| "execute_timers (Suc fuel) act now p [] calls = Ok (p, calls)"
| "execute_timers (Suc fuel) act now p (cb # r) calls =
     (if tm_function cb \<noteq> None \<and> TIMESPEC_LESS_THEN now (expires_at cb) then Ok (p @ cb # r, calls)
      else
        bnd (if tm_function cb \<noteq> None then on_timer act now (p, cb, [], r) else Ok ((p, cb, [], r), [])) (\<lambda>((p, cb, m, r), cs).
        if tm_function cb = None then execute_timers fuel act now (p @ m) r (calls @ cs)
        else case insert_before_next cb (p @ m) r of (p, r) \<Rightarrow> execute_timers fuel act now p r (calls @ cs)))"

abbreviation "max_timeout \<equiv> \<lparr>tv_sec = 2147, tv_nsec = 0\<rparr>"
abbreviation "min_timeout \<equiv> zero_time"

definition next_timeout :: "timespec \<Rightarrow> ('f, 'u) timer_callback_info list \<Rightarrow> int" where
  "next_timeout now cbs =
     (case cbs of
        [] \<Rightarrow> TIMESPEC_TO_MICROSECONDS max_timeout
      | cb # _ \<Rightarrow>
          if TIMESPEC_LESS_THEN (expires_at cb) now then TIMESPEC_TO_MICROSECONDS min_timeout
          else let timeout = SUB_TIMESPEC (expires_at cb) now
               in TIMESPEC_TO_MICROSECONDS (if TIMESPEC_LESS_THEN timeout max_timeout then timeout else max_timeout))"

definition execute_timer_events ::
  "nat \<Rightarrow> ('f \<Rightarrow> 'u option \<Rightarrow> ('f, 'u) timer_op list) \<Rightarrow> timespec option \<Rightarrow> ('f, 'u) timer_state \<Rightarrow> (int \<times> ('f, 'u) timer_state) res" where
  "execute_timer_events fuel act clock s =
     (case clock of
        None \<Rightarrow> Fault Assertion
      | Some now \<Rightarrow>
          (case timer_callbacks s of
             None \<Rightarrow> Fault Assertion
           | Some cbs \<Rightarrow>
               bnd (execute_timers fuel act now [] cbs (timer_calls s)) (\<lambda>(cbs, calls).
               Ok (next_timeout now cbs, s\<lparr>timer_callbacks := Some cbs, timer_calls := calls\<rparr>))))"


section \<open>Times as nanoseconds\<close>

definition ns :: "timespec \<Rightarrow> int" where
  "ns t = tv_sec t * 1000000000 + tv_nsec t"

definition time_ok :: "timespec \<Rightarrow> bool" where
  "time_ok t \<longleftrightarrow> 0 \<le> tv_sec t \<and> 0 \<le> tv_nsec t \<and> tv_nsec t < 1000000000"

lemma less_ns: "time_ok a \<Longrightarrow> time_ok b \<Longrightarrow> TIMESPEC_LESS_THEN a b \<longleftrightarrow> ns a < ns b"
  by (auto simp: TIMESPEC_LESS_THEN_def ns_def time_ok_def)

lemma add_ns: "time_ok a \<Longrightarrow> time_ok b \<Longrightarrow> time_ok (ADD_TIMESPEC a b) \<and> ns (ADD_TIMESPEC a b) = ns a + ns b"
  by (auto simp: ADD_TIMESPEC_def ns_def time_ok_def Let_def)

lemma sub_ns: "time_ok a \<Longrightarrow> time_ok b \<Longrightarrow> ns b \<le> ns a \<Longrightarrow> time_ok (SUB_TIMESPEC a b) \<and> ns (SUB_TIMESPEC a b) = ns a - ns b"
  by (auto simp: SUB_TIMESPEC_def ns_def time_ok_def Let_def)

lemma valid_ns: "time_ok a \<Longrightarrow> VALID_TIMESPEC a \<longleftrightarrow> 0 < ns a"
  by (auto simp: VALID_TIMESPEC_def ns_def time_ok_def)

lemma zero_time_ok [simp]: "time_ok zero_time" "ns zero_time = 0"
  by (simp_all add: time_ok_def ns_def)

lemma ns_nonneg: "time_ok t \<Longrightarrow> 0 \<le> ns t"
  by (simp add: time_ok_def ns_def)

text \<open>Up to the longest timeout the conversion rounds up and does not overflow.\<close>

lemma microseconds_ns:
  assumes "time_ok t" and "ns t \<le> 2147000000000"
  shows "TIMESPEC_TO_MICROSECONDS t = (ns t + 999) div 1000"
proof -
  define r where "r = ADD_TIMESPEC t \<lparr>tv_sec = 0, tv_nsec = 999\<rparr>"
  have r: "time_ok r" "ns r = ns t + 999"
    using add_ns [OF assms(1), of "\<lparr>tv_sec = 0, tv_nsec = 999\<rparr>"] by (auto simp: r_def time_ok_def ns_def)
  then have "tv_sec r * 1000000 + tv_nsec r div 1000 = (ns t + 999) div 1000"
    by (simp add: ns_def flip: r(2))
  moreover have "0 \<le> (ns t + 999) div 1000" "(ns t + 999) div 1000 < 2 ^ 31"
    using assms ns_nonneg [OF assms(1)] by auto
  ultimately show ?thesis
    unfolding TIMESPEC_TO_MICROSECONDS_def Let_def r_def [symmetric]
    by (simp add: sint_sbintrunc' signed_take_bit_int_eq_self)
qed

section \<open>The invariant\<close>

text \<open>
  The timers that have a function are in the order of their expiry; a timer without one has no expiry.
\<close>

definition is_live :: "('f, 'u) timer_callback_info \<Rightarrow> bool" where
  "is_live cb \<longleftrightarrow> tm_function cb \<noteq> None"

abbreviation due_at :: "('f, 'u) timer_callback_info \<Rightarrow> int" where
  "due_at cb \<equiv> ns (expires_at cb)"

definition timer_ok :: "('f, 'u) timer_callback_info \<Rightarrow> bool" where
  "timer_ok cb \<longleftrightarrow> time_ok (expires_at cb) \<and> time_ok (tm_interval cb) \<and> (is_live cb \<longleftrightarrow> 0 < due_at cb)"

definition timers_ok :: "('f, 'u) timer_callback_info list \<Rightarrow> bool" where
  "timers_ok cbs \<longleftrightarrow> (\<forall>cb \<in> set cbs. timer_ok cb) \<and> sorted (map due_at (filter is_live cbs))"

lemma timer_less:
  "timer_ok a \<Longrightarrow> timer_ok b \<Longrightarrow> TIMESPEC_LESS_THEN (expires_at a) (expires_at b) \<longleftrightarrow> due_at a < due_at b"
  by (simp add: timer_ok_def less_ns)

lemma set_insert_timer [simp]: "set (insert_timer_callback cb cbs) = insert cb (set cbs)"
  by (induction cbs) auto

lemma insert_timer_sorted:
  assumes "timers_ok cbs" and "timer_ok cb" and "is_live cb"
  shows "timers_ok (insert_timer_callback cb cbs)"
  using assms(1)
proof (induction cbs)
  case Nil
  then show ?case using assms by (simp add: timers_ok_def)
next
  case (Cons x xs)
  have x: "timer_ok x" "timers_ok xs" using Cons.prems by (auto simp: timers_ok_def split: if_splits)
  show ?case
  proof (cases "due_at cb < due_at x")
    case True
    then have "is_live x" using x(1) assms(2,3) by (auto simp: timer_ok_def)
    then show ?thesis using True Cons.prems assms x by (auto simp: timers_ok_def timer_less)
  next
    case False
    then show ?thesis using Cons.IH [OF x(2)] Cons.prems assms x by (auto simp: timers_ok_def timer_less)
  qed
qed

lemma timers_ok_drop: "timers_ok (xs @ y # ys) \<Longrightarrow> timers_ok (xs @ ys)"
  by (auto simp: timers_ok_def sorted_append split: if_splits)

lemma timer_ok_cleared: "timer_ok (cleared cb)" "\<not> is_live (cleared cb)"
  by (auto simp: timer_ok_def cleared_def is_live_def)

lemma clear_timer_live: "set (filter is_live (clear_timer f u cbs)) \<subseteq> set (filter is_live cbs)"
  by (induction cbs) (auto simp: timer_ok_cleared)

lemma clear_timer_ok:
  assumes "timers_ok cbs"
  shows "timers_ok (clear_timer f u cbs)"
  using assms
proof (induction cbs)
  case (Cons x xs)
  have "timers_ok xs" using Cons.prems by (auto simp: timers_ok_def split: if_splits)
  then show ?case
    using Cons clear_timer_live [of f u xs] by (auto simp: timers_ok_def timer_ok_cleared)
qed simp


section \<open>The place of the execution\<close>

definition at_cursor :: "('f, 'u) timer_cursor \<Rightarrow> ('f, 'u) timer_callback_info list" where
  "at_cursor z = (case z of (p, e, m, r) \<Rightarrow> p @ e # m @ r)"

lemma insert_timer_append:
  "insert_timer_callback cb (xs @ ys) =
     (if earlier_than_some cb xs then insert_timer_callback cb xs @ ys else xs @ insert_timer_callback cb ys)"
  by (induction xs) (auto simp: earlier_than_some_def)

lemma insert_before_next_list:
  "insert_before_next cb m r = (m', r') \<Longrightarrow> m' @ r' = insert_timer_callback cb (m @ r)"
  by (auto simp: insert_before_next_def insert_timer_append split: if_splits list.splits)

lemma insert_at_cursor_list: "at_cursor (insert_at_cursor cb z) = insert_timer_callback cb (at_cursor z)"
  by (cases z) (auto simp: at_cursor_def insert_at_cursor_def insert_timer_append insert_before_next_list split: prod.split)

lemma clear_timer_append:
  "clear_timer f u (xs @ ys) =
     (if \<exists>cb \<in> set xs. is_timer f u cb then clear_timer f u xs @ ys else xs @ clear_timer f u ys)"
  by (induction xs) auto

lemma clear_at_cursor_list: "at_cursor (clear_at_cursor f u z) = clear_timer f u (at_cursor z)"
  by (cases z) (auto simp: at_cursor_def clear_at_cursor_def clear_timer_append)

text \<open>Functions read the time after the execution did, and give times that are in range.\<close>

fun timer_op_ok :: "timespec \<Rightarrow> ('f, 'u) timer_op \<Rightarrow> bool" where
  "timer_op_ok now (Add_timer clock it_interval it_value f u) \<longleftrightarrow>
     time_ok clock \<and> time_ok it_interval \<and> time_ok it_value \<and> ns now \<le> ns clock"
| "timer_op_ok now (Delete_timer f u) \<longleftrightarrow> True"

lemma new_timer_ok:
  assumes "new_timer clock it_interval it_value f u = Some cb" and "time_ok clock" and "time_ok it_interval" and "time_ok it_value"
  shows "timer_ok cb \<and> is_live cb \<and> ns clock < due_at cb"
proof -
  have *: "VALID_TIMESPEC t \<Longrightarrow> time_ok t \<Longrightarrow>
      time_ok (ADD_TIMESPEC clock t) \<and> 0 < ns (ADD_TIMESPEC clock t) \<and> ns clock < ns (ADD_TIMESPEC clock t)" for t
    using add_ns [OF assms(2), of t] valid_ns [of t] ns_nonneg [OF assms(2)] by auto
  show ?thesis
    using assms * [of it_interval] * [of it_value]
    by (auto simp: new_timer_def timer_ok_def is_live_def Let_def split: if_splits)
qed

text \<open>How often a timer can still be executed in a pass at the time \<open>t\<close>.\<close>

definition turns :: "int \<Rightarrow> ('f, 'u) timer_callback_info \<Rightarrow> nat" where
  "turns t cb = (if \<not> is_live cb \<or> t < due_at cb then 0 else if due_at cb = t then 1 else 2)"

abbreviation turns_left :: "int \<Rightarrow> ('f, 'u) timer_callback_info list \<Rightarrow> nat" where
  "turns_left t cbs \<equiv> sum_list (map (turns t) cbs)"

lemma turns_insert: "turns_left t (insert_timer_callback cb cbs) = turns t cb + turns_left t cbs"
  by (induction cbs) auto

lemma turns_clear: "turns_left t (clear_timer f u cbs) \<le> turns_left t cbs"
  by (induction cbs) (auto simp: turns_def timer_ok_cleared)

lemma turns_before_next:
  assumes "insert_before_next cb m r = (m', r')"
  shows "turns_left t r' \<le> turns t cb + turns_left t r"
  using assms by (auto simp: insert_before_next_def turns_insert split: if_splits list.splits)

text \<open>
  The elements in front of the place of the execution are not overdue, the element that is executed is
  only ever cleared, and nothing that is due is put behind it.
\<close>

definition passed :: "int \<Rightarrow> ('f, 'u) timer_callback_info list \<Rightarrow> bool" where
  "passed t cbs \<longleftrightarrow> (\<forall>cb \<in> set cbs. is_live cb \<longrightarrow> t \<le> due_at cb)"

lemma passed_simps [simp]:
  "passed t []" "passed t (xs @ ys) \<longleftrightarrow> passed t xs \<and> passed t ys"
  "passed t (insert_timer_callback cb xs) \<longleftrightarrow> (is_live cb \<longrightarrow> t \<le> due_at cb) \<and> passed t xs"
  "passed t (x # xs) \<longleftrightarrow> (is_live x \<longrightarrow> t \<le> due_at x) \<and> passed t xs"
  by (auto simp: passed_def)

lemma passed_clear: "passed t xs \<Longrightarrow> passed t (clear_timer f u xs)"
  using clear_timer_live [of f u xs] by (auto simp: passed_def)

lemma passed_before_next:
  "insert_before_next cb m r = (m', r') \<Longrightarrow> passed t m \<Longrightarrow> (is_live cb \<Longrightarrow> t \<le> due_at cb) \<Longrightarrow> passed t m'"
  by (auto simp: insert_before_next_def split: if_splits list.splits)

definition cursor_ok :: "int \<Rightarrow> ('f, 'u) timer_callback_info \<Rightarrow> nat \<Rightarrow> ('f, 'u) timer_cursor \<Rightarrow> bool" where
  "cursor_ok t e n z \<longleftrightarrow> timers_ok (at_cursor z) \<and>
     (case z of (p, e', m, r) \<Rightarrow> passed t p \<and> passed t m \<and> turns_left t r \<le> n \<and> (e' = e \<or> \<not> is_live e' \<and> e' = cleared e))"

lemma run_timer_op_ok:
  assumes z: "cursor_ok (ns now) e n z" and x: "timer_op_ok now x"
  shows "cursor_ok (ns now) e n (run_timer_op x z)"
proof (cases x)
  case (Add_timer clock it_interval it_value f u)
  show ?thesis
  proof (cases "new_timer clock it_interval it_value f u")
    case None
    then show ?thesis using z Add_timer by simp
  next
    case (Some cb)
    have cb: "timer_ok cb" "is_live cb" "ns now < due_at cb"
      using new_timer_ok [OF Some] x Add_timer by auto
    then have t0: "turns (ns now) cb = 0" by (simp add: turns_def)
    obtain p e' m r where ze: "z = (p, e', m, r)" by (cases z)
    obtain m' r' where mr: "insert_before_next cb m r = (m', r')" by fastforce
    have "timers_ok (at_cursor (insert_at_cursor cb z))"
      using z cb by (simp add: insert_at_cursor_list insert_timer_sorted cursor_ok_def)
    then show ?thesis
      using z cb t0 ze Some Add_timer mr passed_before_next [OF mr, of "ns now"] turns_before_next [OF mr, of "ns now"]
      by (auto simp: cursor_ok_def insert_at_cursor_def)
  qed
next
  case (Delete_timer f u)
  have "timers_ok (at_cursor (clear_at_cursor f u z))"
    using z by (simp add: clear_at_cursor_list clear_timer_ok cursor_ok_def)
  then show ?thesis
    using z Delete_timer turns_clear [of "ns now" f u] order_trans
    by (cases z) (fastforce simp: cursor_ok_def clear_at_cursor_def passed_clear timer_ok_cleared cleared_def is_timer_def is_live_def)
qed

lemma run_timer_ops_ok:
  "cursor_ok (ns now) e n z \<Longrightarrow> \<forall>x \<in> set xs. timer_op_ok now x \<Longrightarrow> cursor_ok (ns now) e n (fold run_timer_op xs z)"
  by (induction xs arbitrary: z) (auto simp: run_timer_op_ok)


section \<open>A pass over the timers\<close>

lemma next_expiry_ok:
  assumes "timer_ok e" and "is_live e" and "due_at e \<le> ns now" and "time_ok now" and "is_live (next_expiry now e)"
  shows "timer_ok (next_expiry now e)" and "ns now \<le> due_at (next_expiry now e)"
    and "turns (ns now) (next_expiry now e) < turns (ns now) e"
proof -
  have i: "VALID_TIMESPEC (tm_interval e)" using assms(5) by (auto simp: next_expiry_def is_live_def split: if_splits)
  let ?t = "ADD_TIMESPEC (expires_at e) (tm_interval e)"
  have t: "time_ok ?t" "due_at e < ns ?t" "0 < due_at e" "time_ok (tm_interval e)"
    using add_ns [of "expires_at e" "tm_interval e"] i assms(1,2) by (auto simp: timer_ok_def valid_ns)
  then show "timer_ok (next_expiry now e)" "ns now \<le> due_at (next_expiry now e)"
      "turns (ns now) (next_expiry now e) < turns (ns now) e"
    using i assms by (auto simp: next_expiry_def timer_ok_def is_live_def turns_def Let_def less_ns)
qed

lemma next_expiry_cleared: "\<not> is_live (next_expiry now (cleared e))"
  by (simp add: next_expiry_def cleared_def is_live_def VALID_TIMESPEC_def)

lemma execute_step:
  assumes ok: "timers_ok (p @ e # r)" and p: "passed (ns now) p" and now: "time_ok now"
    and act: "\<And>f u. \<forall>x \<in> set (act f u). timer_op_ok now x" and e: "is_live e" "due_at e \<le> ns now"
  obtains p' r' where "\<And>fuel calls. execute_timers (Suc fuel) act now p (e # r) calls =
      execute_timers fuel act now p' r' (calls @ [(the (tm_function e), tm_user_data e, expires_at e)])"
    "timers_ok (p' @ r')" "passed (ns now) p'" "turns_left (ns now) r' < turns_left (ns now) (e # r)"
proof -
  obtain f where f: "tm_function e = Some f" using e by (auto simp: is_live_def)
  have te: "timer_ok e" using ok by (simp add: timers_ok_def)
  have ne: "\<not> TIMESPEC_LESS_THEN now (expires_at e)" using te e now by (simp add: timer_ok_def less_ns)
  have v: "VALID_TIMESPEC (expires_at e)" using te e by (auto simp: timer_ok_def valid_ns)
  obtain p1 e1 m1 r1 where z: "fold run_timer_op (act f (tm_user_data e)) (p, e, [], r) = (p1, e1, m1, r1)"
    by (metis prod_cases4)
  have "cursor_ok (ns now) e (turns_left (ns now) r) (p, e, [], r)"
    using ok p by (simp add: cursor_ok_def at_cursor_def)
  then have c: "cursor_ok (ns now) e (turns_left (ns now) r) (p1, e1, m1, r1)"
    using run_timer_ops_ok act by (metis z)
  have ot: "on_timer act now (p, e, [], r) = Ok ((p1, next_expiry now e1, m1, r1), [(f, tm_user_data e, expires_at e)])"
    using f v z by (simp add: on_timer_def)
  have te0: "0 < turns (ns now) e" using e by (auto simp: turns_def)
  have drop: "timers_ok ((p1 @ m1) @ r1)"
    using c timers_ok_drop [of p1 e1 "m1 @ r1"] by (simp add: cursor_ok_def at_cursor_def)
  show ?thesis
  proof (cases "is_live (next_expiry now e1)")
    case False
    then have s: "execute_timers (Suc fuel) act now p (e # r) calls =
        execute_timers fuel act now (p1 @ m1) r1 (calls @ [(the (tm_function e), tm_user_data e, expires_at e)])" for fuel calls
      using f ne ot by (simp add: is_live_def)
    show ?thesis by (rule that [OF s]) (use drop c te0 in \<open>auto simp: cursor_ok_def\<close>)
  next
    case True
    then have e1: "e1 = e" using c next_expiry_cleared [of now e] by (auto simp: cursor_ok_def)
    note nx = next_expiry_ok [OF te e now True [unfolded e1]]
    obtain p2 r2 where b: "insert_before_next (next_expiry now e) (p1 @ m1) r1 = (p2, r2)" by fastforce
    have s: "execute_timers (Suc fuel) act now p (e # r) calls =
        execute_timers fuel act now p2 r2 (calls @ [(the (tm_function e), tm_user_data e, expires_at e)])" for fuel calls
      using f ne ot b True e1 by (auto simp: is_live_def)
    have "timers_ok (p2 @ r2)"
      using insert_timer_sorted [OF drop nx(1)] True e1 insert_before_next_list [OF b] by simp
    moreover have "passed (ns now) p2" using passed_before_next [OF b, of "ns now"] nx(2) c by (auto simp: cursor_ok_def)
    moreover have "turns_left (ns now) r2 < turns_left (ns now) (e # r)"
      using turns_before_next [OF b, of "ns now"] nx(3) c by (auto simp: cursor_ok_def)
    ultimately show ?thesis by (rule that [OF s])
  qed
qed

lemma timers_behind:
  assumes "timers_ok (p @ e # r)" and "is_live e" and "t \<le> due_at e"
  shows "passed t (e # r)"
  using assms by (force simp: timers_ok_def sorted_append passed_def)

lemma fuel_step:
  assumes "\<forall>fuel \<ge> n. g fuel = y" and "\<And>fuel. f (Suc fuel) = g fuel"
  shows "\<forall>fuel \<ge> Suc n. f fuel = y"
proof (intro allI impI)
  fix fuel assume "Suc n \<le> fuel"
  then obtain k where "fuel = Suc k" "n \<le> k" by (cases fuel) auto
  then show "f fuel = y" using assms by simp
qed

text \<open>The pass comes to an end, calls only what is due, and leaves nothing behind that is overdue.\<close>

lemma execute_timers_returns:
  assumes "timers_ok (p @ r)" and "passed (ns now) p" and now: "time_ok now"
    and act: "\<And>f u. \<forall>x \<in> set (act f u). timer_op_ok now x"
  shows "\<exists>n cbs cs. (\<forall>fuel \<ge> n. execute_timers fuel act now p r calls = Ok (cbs, calls @ cs)) \<and>
    timers_ok cbs \<and> passed (ns now) cbs \<and> (\<forall>(f, u, t) \<in> set cs. ns t \<le> ns now)"
  using assms(1,2)
proof (induction r arbitrary: p calls rule: wf_induct_rule [OF wf_measures [of "[turns_left (ns now), length]"]])
  case (1 r)
  show ?case
  proof (cases r)
    case Nil
    then have "\<forall>fuel \<ge> 1. execute_timers fuel act now p r calls = Ok (p, calls @ [])"
      by (auto simp: Suc_le_eq gr0_conv_Suc)
    moreover have "timers_ok p" "passed (ns now) p" using 1(2,3) Nil by auto
    ultimately show ?thesis by (intro exI [of _ 1] exI [of _ p] exI [of _ "[]"]) simp
  next
    case (Cons e r')
    have te: "timer_ok e" using 1 Cons by (simp add: timers_ok_def)
    consider "is_live e" "ns now < due_at e" | "is_live e" "due_at e \<le> ns now" | "\<not> is_live e" by linarith
    then show ?thesis
    proof cases
      case a: 1
      then have "\<forall>fuel \<ge> 1. execute_timers fuel act now p r calls = Ok (p @ r, calls @ [])"
        using Cons te now by (auto simp: Suc_le_eq gr0_conv_Suc is_live_def timer_ok_def less_ns)
      moreover have "timers_ok (p @ r)" "passed (ns now) (p @ r)"
        using 1(2,3) Cons timers_behind [of p e r' "ns now"] a by auto
      ultimately show ?thesis by (intro exI [of _ 1] exI [of _ "p @ r"] exI [of _ "[]"]) simp
    next
      case b: 2
      obtain p1 r1 where s: "\<And>fuel calls. execute_timers (Suc fuel) act now p (e # r') calls =
          execute_timers fuel act now p1 r1 (calls @ [(the (tm_function e), tm_user_data e, expires_at e)])"
        "timers_ok (p1 @ r1)" "passed (ns now) p1" "turns_left (ns now) r1 < turns_left (ns now) (e # r')"
        by (rule execute_step [of p e r' now act]) (use 1(2,3) Cons now act b in auto)
      obtain n cbs cs where I: "\<forall>fuel \<ge> n. execute_timers fuel act now p1 r1
            (calls @ [(the (tm_function e), tm_user_data e, expires_at e)]) =
            Ok (cbs, (calls @ [(the (tm_function e), tm_user_data e, expires_at e)]) @ cs)"
          "timers_ok cbs" "passed (ns now) cbs" "\<forall>(f, u, t) \<in> set cs. ns t \<le> ns now"
        using 1(1) [of r1 p1 "calls @ [(the (tm_function e), tm_user_data e, expires_at e)]"] s(2-) Cons by auto
      have "\<forall>fuel \<ge> Suc n. execute_timers fuel act now p r calls =
          Ok (cbs, calls @ (the (tm_function e), tm_user_data e, expires_at e) # cs)"
        unfolding Cons by (rule fuel_step [OF I(1) [unfolded append_assoc append_Cons append_Nil] s(1)])
      then show ?thesis
        using I(2-) b(2) by (intro exI [of _ "Suc n"] exI [of _ cbs] exI [of _ "(the (tm_function e), tm_user_data e, expires_at e) # cs"]) auto
    next
      case c: 3
      have "(r', r) \<in> measures [turns_left (ns now), length]" using Cons c by (simp add: turns_def)
      then obtain n cbs cs where I: "\<forall>fuel \<ge> n. execute_timers fuel act now p r' calls = Ok (cbs, calls @ cs)"
          "timers_ok cbs" "passed (ns now) cbs" "\<forall>(f, u, t) \<in> set cs. ns t \<le> ns now"
        using 1(1) [of r' p calls] 1(2,3) timers_ok_drop [of p e r'] Cons by auto
      have "\<forall>fuel \<ge> Suc n. execute_timers fuel act now p r calls = Ok (cbs, calls @ cs)"
        unfolding Cons by (rule fuel_step [OF I(1)]) (use c in \<open>simp add: is_live_def\<close>)
      then show ?thesis using I by blast
    qed
  qed
qed

lemma next_timeout_bounds:
  assumes "timers_ok cbs" and "time_ok now" and "passed (ns now) cbs"
  shows "0 \<le> next_timeout now cbs \<and> next_timeout now cbs \<le> 2147000000"
    and "cb \<in> set cbs \<Longrightarrow> is_live cb \<Longrightarrow> next_timeout now cbs * 1000 < due_at cb - ns now + 1000"
proof -
  have mx: "TIMESPEC_TO_MICROSECONDS max_timeout = 2147000000" "TIMESPEC_TO_MICROSECONDS zero_time = 0"
    by (simp_all add: microseconds_ns time_ok_def ns_def)
  have main: "0 \<le> next_timeout now cbs \<and> next_timeout now cbs \<le> 2147000000 \<and>
    (cb \<in> set cbs \<longrightarrow> is_live cb \<longrightarrow> next_timeout now cbs * 1000 < due_at cb - ns now + 1000)"
  proof (cases cbs)
    case Nil
    then show ?thesis by (simp add: next_timeout_def mx)
  next
    case (Cons x xs)
    have x: "time_ok (expires_at x)" using assms(1) Cons by (simp add: timers_ok_def timer_ok_def)
    show ?thesis
    proof (cases "due_at x < ns now")
      case True
      then have "next_timeout now cbs = 0" using Cons x assms by (simp add: next_timeout_def less_ns mx)
      then show ?thesis using assms(3) by (auto simp: passed_def)
    next
      case False
      have s: "time_ok (SUB_TIMESPEC (expires_at x) now)" "ns (SUB_TIMESPEC (expires_at x) now) = due_at x - ns now"
        using sub_ns [OF x assms(2)] False by auto
      have m: "time_ok max_timeout" "ns max_timeout = 2147000000000" by (simp_all add: time_ok_def ns_def)
      have n: "next_timeout now cbs = (if due_at x - ns now < 2147000000000 then (due_at x - ns now + 999) div 1000 else 2147000000)"
        using Cons False x s m assms(2) by (auto simp: next_timeout_def less_ns Let_def mx microseconds_ns)
      have "due_at x \<le> due_at cb" if "cb \<in> set cbs" "is_live cb"
        using assms(1) that Cons ns_nonneg x by (cases "is_live x") (force simp: timers_ok_def timer_ok_def)+
      then show ?thesis using n False by auto
    qed
  qed
  then show "0 \<le> next_timeout now cbs \<and> next_timeout now cbs \<le> 2147000000"
    "cb \<in> set cbs \<Longrightarrow> is_live cb \<Longrightarrow> next_timeout now cbs * 1000 < due_at cb - ns now + 1000" by auto
qed

section \<open>Functions that leave the timers alone\<close>

definition is_due :: "timespec \<Rightarrow> ('f, 'u) timer_callback_info \<Rightarrow> bool" where
  "is_due now cb \<longleftrightarrow> is_live cb \<and> due_at cb \<le> ns now"

definition timer_call :: "('f, 'u) timer_callback_info \<Rightarrow> 'f \<times> 'u option \<times> timespec" where
  "timer_call cb = (the (tm_function cb), tm_user_data cb, expires_at cb)"

lemma insert_due:
  assumes "timers_ok r" and "timer_ok e" and "is_live e" and "ns now \<le> due_at e"
  shows "filter (is_due now) (insert_timer_callback e r) = filter (is_due now) r @ (if due_at e = ns now then [e] else [])"
  using assms(1)
proof (induction r)
  case (Cons x xs)
  have x: "timer_ok x" "timers_ok xs" using Cons.prems by (auto simp: timers_ok_def split: if_splits)
  show ?case
  proof (cases "due_at e < due_at x")
    case True
    then have "is_live x" using x(1) assms(2,3) by (auto simp: timer_ok_def)
    then have "\<forall>y \<in> set (x # xs). \<not> is_due now y"
      using Cons.prems True assms(4) by (fastforce simp: timers_ok_def is_due_def)
    then have "filter (is_due now) (x # xs) = []" by (simp add: filter_empty_conv del: filter.simps)
    moreover have "insert_timer_callback e (x # xs) = e # x # xs" using True x assms by (simp add: timer_less)
    moreover have "is_due now e \<longleftrightarrow> due_at e = ns now" using assms by (auto simp: is_due_def)
    ultimately show ?thesis by simp
  next
    case False
    then show ?thesis using Cons.IH [OF x(2)] x assms by (simp add: timer_less)
  qed
qed (use assms in \<open>auto simp: is_due_def\<close>)

lemma insert_before_next_due:
  assumes "insert_before_next e p r = (p', r')" and "timers_ok r" and "timer_ok e" and "is_live e" and "ns now \<le> due_at e"
  shows "\<exists>xs. filter (is_due now) r' = filter (is_due now) r @ xs \<and> (\<forall>x \<in> set xs. due_at x = ns now)"
proof -
  have "r' = r \<or> r' = insert_timer_callback e r"
    using assms(1) by (auto simp: insert_before_next_def split: if_splits list.splits)
  then show ?thesis using insert_due [OF assms(2-5)] by (auto intro: exI [of _ "[]"] exI [of _ "[e]"])
qed

abbreviation no_ops :: "'f \<Rightarrow> 'u option \<Rightarrow> ('f, 'u) timer_op list" where
  "no_ops \<equiv> \<lambda>f u. []"

lemma quiet_step:
  assumes ok: "timers_ok (p @ e # r)" and now: "time_ok now" and e: "is_live e" "due_at e \<le> ns now"
  obtains p' r' xs where "\<And>fuel calls. execute_timers (Suc fuel) no_ops now p (e # r) calls =
      execute_timers fuel no_ops now p' r' (calls @ [timer_call e])"
    "timers_ok (p' @ r')" "filter (is_due now) r' = filter (is_due now) r @ xs" "\<forall>x \<in> set xs. due_at x = ns now"
    "turns_left (ns now) r' < turns_left (ns now) (e # r)"
proof -
  obtain f where f: "tm_function e = Some f" using e by (auto simp: is_live_def)
  have te: "timer_ok e" "timers_ok r" using ok by (auto simp: timers_ok_def sorted_append split: if_splits)
  have ne: "\<not> TIMESPEC_LESS_THEN now (expires_at e)" using te e now by (simp add: timer_ok_def less_ns)
  have v: "VALID_TIMESPEC (expires_at e)" using te e by (auto simp: timer_ok_def valid_ns)
  have ot: "on_timer no_ops now (p, e, [], r) = Ok ((p, next_expiry now e, [], r), [timer_call e])"
    using f v by (simp add: on_timer_def timer_call_def)
  show ?thesis
  proof (cases "is_live (next_expiry now e)")
    case False
    then have s: "execute_timers (Suc fuel) no_ops now p (e # r) calls = execute_timers fuel no_ops now p r (calls @ [timer_call e])"
      for fuel calls using f ne ot by (simp add: is_live_def)
    have "0 < turns (ns now) e" using e by (auto simp: turns_def)
    then show ?thesis using timers_ok_drop [OF ok] by (intro that [OF s, of "[]"]) auto
  next
    case True
    note nx = next_expiry_ok [OF te(1) e now True]
    obtain p2 r2 where b: "insert_before_next (next_expiry now e) p r = (p2, r2)" by fastforce
    have s: "execute_timers (Suc fuel) no_ops now p (e # r) calls = execute_timers fuel no_ops now p2 r2 (calls @ [timer_call e])"
      for fuel calls using f ne ot b True by (auto simp: is_live_def)
    obtain xs where xs: "filter (is_due now) r2 = filter (is_due now) r @ xs" "\<forall>x \<in> set xs. due_at x = ns now"
      using insert_before_next_due [OF b te(2) nx(1) True nx(2)] by blast
    have "timers_ok (p2 @ r2)"
      using insert_timer_sorted [OF timers_ok_drop [OF ok] nx(1) True] insert_before_next_list [OF b] by simp
    moreover have "turns_left (ns now) r2 < turns_left (ns now) (e # r)"
      using turns_before_next [OF b, of "ns now"] nx(3) by auto
    ultimately show ?thesis using that [OF s _ xs] by blast
  qed
qed

text \<open>Every timer that is due is executed, in the order of expiry; one that fell behind can have a second turn at once.\<close>

lemma execute_quiet:
  assumes "timers_ok (p @ r)" and now: "time_ok now"
    and "execute_timers fuel no_ops now p r calls = Ok (cbs, calls')"
  shows "\<exists>extra. calls' = calls @ map timer_call (filter (is_due now) r) @ extra \<and> (\<forall>(f, u, t) \<in> set extra. ns t = ns now)"
  using assms(1,3)
proof (induction fuel arbitrary: p r calls)
  case (Suc fuel)
  show ?case
  proof (cases r)
    case (Cons e r')
    have te: "timer_ok e" using Suc.prems(1) Cons by (simp add: timers_ok_def)
    consider "is_live e" "ns now < due_at e" | "is_live e" "due_at e \<le> ns now" | "\<not> is_live e" by linarith
    then show ?thesis
    proof cases
      case 1
      then have "\<forall>y \<in> set r. \<not> is_due now y"
        using Suc.prems(1) Cons by (fastforce simp: timers_ok_def is_due_def sorted_append)
      then have n: "filter (is_due now) r = []" by (simp add: filter_empty_conv)
      have "calls' = calls" using 1 Suc.prems(2) Cons te now by (auto simp: is_live_def timer_ok_def less_ns)
      then show ?thesis unfolding n by simp
    next
      case 2
      obtain p1 r1 xs where s: "\<And>fuel calls. execute_timers (Suc fuel) no_ops now p (e # r') calls =
          execute_timers fuel no_ops now p1 r1 (calls @ [timer_call e])"
        "timers_ok (p1 @ r1)" "filter (is_due now) r1 = filter (is_due now) r' @ xs" "\<forall>x \<in> set xs. due_at x = ns now"
        using quiet_step [OF Suc.prems(1) [unfolded Cons] now 2] by metis
      obtain extra where x: "calls' = (calls @ [timer_call e]) @ map timer_call (filter (is_due now) r1) @ extra"
        "\<forall>(f, u, t) \<in> set extra. ns t = ns now"
        using Suc.IH [OF s(2)] Suc.prems(2) unfolding Cons s(1) by blast
      have "filter (is_due now) r = e # filter (is_due now) r'" using 2 Cons by (simp add: is_due_def)
      then have "calls' = calls @ map timer_call (filter (is_due now) r) @ (map timer_call xs @ extra)"
        using x(1) s(3) by simp
      then show ?thesis using x(2) s(4) by (intro exI [of _ "map timer_call xs @ extra"]) (auto simp: timer_call_def)
    next
      case 3
      then show ?thesis
        using Suc.IH [OF timers_ok_drop [OF Suc.prems(1) [unfolded Cons]], of calls] Suc.prems(2) Cons
        by (simp add: is_live_def is_due_def)
    qed
  qed (use Suc.prems in auto)
qed simp

end
