(* ===== verification/Event_Properties.thy ===== *)
theory Event_Properties
  imports Event_Handler Timer
begin

text \<open>
  Properties of the event handler and of the timers.
\<close>

section \<open>The event handler\<close>

lemma init_round_inv:
  assumes "current_read_set h = {}" and "current_write_set h = {}"
  shows "round_inv (init_event_handler h)" and "table_of (init_event_handler h) = (Map.empty, {}, {})"
  using assms
  by (auto simp: init_event_handler_def round_inv_def eh_inv_def index_ok_def readers_def writers_def handler_at_def table_of_def FD_SETSIZE_def)

text \<open>
  C18.  The table of descriptors is a map.  After the initialization, any sequence of registrations, deletions
  and changes of what is watched, with descriptors in range, returns; the array with its index, in which
  the last entry takes the place of a deleted one, then holds exactly the map and the two sets that the
  same sequence makes of a map from descriptors to handlers.
\<close>

theorem event_table_is_map:
  assumes "current_read_set h = {}" and "current_write_set h = {}" and "\<forall>x \<in> set xs. op_fd_ok x"
  shows "\<exists>h'. run_eh_ops xs (init_event_handler h) = Ok h' \<and> eh_inv h' \<and> table_of h' = fold map_eh_op xs (Map.empty, {}, {})"
  using run_eh_ops_refines [OF init_round_inv(1) [OF assms(1,2)] assms(3)] init_round_inv(2) [OF assms(1,2)] by simp

definition unused_event_handler :: "nat event_handler" where
  "unused_event_handler = \<lparr>event_handler_state = 0, event_list = [], event_fd_set = Map.empty, event_read_set = {},
     event_write_set = {}, current_read_set = {}, current_write_set = {}, fd_set_size = 0, external_callback = None, eh_calls = []\<rparr>"

definition sample_ops :: "nat eh_op list" where
  "sample_ops = [Set_fd_handler 3 (Some 1) None, Set_fd_handler 4 (Some 2) (Some 3), Set_readable 3 True, Set_writable 4 True, Delete_fd_handler 3]"

lemma sample_ops_ok: "\<forall>x \<in> set sample_ops. op_fd_ok x"
  by (simp add: sample_ops_def valid_fd_def FD_SETSIZE_def)

theorem event_table_is_map_witness:
  "\<exists>h'. run_eh_ops sample_ops (init_event_handler unused_event_handler) = Ok h' \<and> eh_inv h' \<and> table_of h' = ([4 \<mapsto> (Some 2, Some 3)], {}, {4})"
  using event_table_is_map [OF _ _ sample_ops_ok, of unused_event_handler]
  by (simp add: unused_event_handler_def) (simp add: sample_ops_def fun_upd_twist)

text \<open>
  C19.  A round of the main loop returns and calls what is ready.  Let the functions that are called do whatever
  they like to the table, with descriptors in range: register, delete, their own descriptor and others, start
  and stop watching.  Then the pass over the array, which goes on at the same place when the entry there has
  changed, ends after at most 2048 steps; it never calls a function that is not there, keeps the invariant
  of the table, and calls functions only for descriptors that were watched and ready.  Functions that leave the
  table alone are called exactly once each, in the order of the array and for writing first.
\<close>

theorem event_round_calls_what_is_ready:
  assumes "round_inv h" and "external_callback h = None" and "\<forall>c fd. \<forall>x \<in> set (act c fd). op_fd_ok x"
  shows "\<exists>h' cs. run_event_handler_once (\<lambda>c fd. run_eh_ops (act c fd)) 2049 (Select_ready rs ws) h = Ok (True, h') \<and>
    round_inv h' \<and> eh_calls h' = eh_calls h @ cs \<and>
    (\<forall>(c, fd) \<in> set cs. fd \<in> event_read_set h \<inter> rs \<union> event_write_set h \<inter> ws) \<and>
    ((\<forall>c fd. act c fd = []) \<longrightarrow> cs = concat (map (calls_at (event_read_set h \<inter> rs) (event_write_set h \<inter> ws)) (event_list h)))"
proof -
  let ?h = "h\<lparr>current_read_set := event_read_set h \<inter> rs, current_write_set := event_write_set h \<inter> ws\<rparr>"
  let ?call = "\<lambda>c fd. run_eh_ops (act c fd)"
  have inv: "round_inv ?h"
    using assms(1) by (auto simp: round_inv_def eh_inv_def readers_def writers_def handler_at_def)
  have "card (pending ?h 0) + (1024 - 0) < 2049" using finite_pending(2) [OF inv, of 0] by simp
  from table_callbacks.dispatch_returns [OF inv this, of act]
  obtain h' cs where d: "dispatch_events ?call 2049 0 ?h = Ok h'" "round_inv h'" "eh_calls h' = eh_calls h @ cs"
    "\<forall>(c, fd) \<in> set cs. fd \<in> watched ?h" using assms(3) by auto
  have r: "run_event_handler_once ?call 2049 (Select_ready rs ws) h = Ok (True, h')"
    using d(1) assms(2) by (simp add: run_event_handler_once_def Let_def)
  have "cs = concat (map (calls_at (event_read_set h \<inter> rs) (event_write_set h \<inter> ws)) (event_list h))" if quiet: "\<forall>c fd. act c fd = []"
  proof -
    have "?call = (\<lambda>c fd. Ok)" using quiet by (auto simp: fun_eq_iff)
    moreover have "length (event_list ?h) - 0 < 2049" using inv by (simp add: round_inv_def eh_inv_def FD_SETSIZE_def)
    ultimately show ?thesis using dispatch_quiet [OF inv, of 0 2049] d(1,3) by auto
  qed
  then show ?thesis using r d(2-4) by (intro exI [of _ h'] exI [of _ cs]) (auto simp: watched_def)
qed

text \<open>Two descriptors; the function of the first one deletes the second.\<close>

definition two_descriptors :: "nat event_handler" where
  "two_descriptors = unused_event_handler\<lparr>event_list := [\<lparr>ev_fd = 3, read_callback = Some 1, write_callback = None\<rparr>,
       \<lparr>ev_fd = 4, read_callback = Some 2, write_callback = None\<rparr>],
     event_fd_set := [3 \<mapsto> 0, 4 \<mapsto> 1], event_read_set := {3, 4}, fd_set_size := 5\<rparr>"

lemma two_descriptors_inv: "round_inv two_descriptors"
  by (auto simp: round_inv_def eh_inv_def index_ok_def two_descriptors_def unused_event_handler_def valid_fd_def FD_SETSIZE_def readers_def
      writers_def handler_at_def nth_Cons' split: if_splits)

theorem event_round_calls_what_is_ready_witness:
  "\<exists>h' cs. run_event_handler_once (\<lambda>c fd. run_eh_ops (if c = 1 then [Delete_fd_handler 4] else [])) 2049 (Select_ready {3, 4} {}) two_descriptors = Ok (True, h') \<and>
    round_inv h' \<and> eh_calls h' = cs \<and> (\<forall>(c, fd) \<in> set cs. fd = 3 \<or> fd = 4)"
proof -
  have "external_callback two_descriptors = None" "event_read_set two_descriptors = {3, 4}" "event_write_set two_descriptors = {}"
    "eh_calls two_descriptors = []" by (simp_all add: two_descriptors_def unused_event_handler_def)
  then show ?thesis
    using event_round_calls_what_is_ready [OF two_descriptors_inv, of "\<lambda>c fd. if c = 1 then [Delete_fd_handler 4] else []" "{3, 4}" "{}"]
    by (auto simp: Int_def)
qed

section \<open>The timers\<close>

text \<open>Additions and deletions keep the list in order, so that what follows holds of every list of timers.\<close>

fun timer_list_op :: "('f, 'u) timer_op \<Rightarrow> ('f, 'u) timer_callback_info list \<Rightarrow> ('f, 'u) timer_callback_info list" where
  "timer_list_op (Add_timer now i v f u) cbs = (case new_timer now i v f u of None \<Rightarrow> cbs | Some cb \<Rightarrow> insert_timer_callback cb cbs)"
| "timer_list_op (Delete_timer f u) cbs = clear_timer f u cbs"

lemma timer_list_ops_ok: "timers_ok cbs \<Longrightarrow> \<forall>x \<in> set xs. timer_op_ok zero_time x \<Longrightarrow> timers_ok (fold timer_list_op xs cbs)"
proof (induction xs arbitrary: cbs)
  case (Cons x xs)
  have "timers_ok (timer_list_op x cbs)"
  proof (cases x)
    case (Add_timer now i v f u)
    then show ?thesis using Cons.prems new_timer_ok [of now i v f u] insert_timer_sorted by (auto split: option.splits)
  qed (use Cons.prems clear_timer_ok in auto)
  then show ?case using Cons by simp
qed simp

text \<open>
  C20.  Timers are executed when they are due.  Let the timers be what any sequence of additions and deletions has
  made of the empty list, and let the functions that are executed add and delete timers themselves.  The execution
  at the time \<open>now\<close> returns; every timer that it executes was due; afterwards the list is in order and no timer
  in it is overdue; the timeout that it returns is between 0 and 2147 seconds and is at most a microsecond longer
  than the time to any timer.  When the functions leave the timers alone, the ones that were due are executed in
  the order of their expiry, and what is executed a second time was due at \<open>now\<close>.
\<close>

theorem timers_executed_when_due:
  assumes "timer_callbacks s = Some (fold timer_list_op xs [])" and "\<forall>x \<in> set xs. timer_op_ok zero_time x" and "time_ok now"
    and "\<forall>f u. \<forall>x \<in> set (act f u). timer_op_ok now x"
  shows "\<exists>n timeout s' cs cbs'. (\<forall>fuel \<ge> n. execute_timer_events fuel act (Some now) s = Ok (timeout, s')) \<and>
    timer_calls s' = timer_calls s @ cs \<and> (\<forall>(f, u, t) \<in> set cs. ns t \<le> ns now) \<and>
    timer_callbacks s' = Some cbs' \<and> timers_ok cbs' \<and> (\<forall>cb \<in> set cbs'. is_live cb \<longrightarrow> ns now \<le> due_at cb) \<and>
    0 \<le> timeout \<and> timeout \<le> 2147000000 \<and> (\<forall>cb \<in> set cbs'. is_live cb \<longrightarrow> timeout * 1000 < due_at cb - ns now + 1000) \<and>
    ((\<forall>f u. act f u = []) \<longrightarrow> (\<exists>extra. cs = map timer_call (filter (is_due now) (fold timer_list_op xs [])) @ extra \<and>
      (\<forall>(f, u, t) \<in> set extra. ns t = ns now)))"
proof -
  let ?cbs = "fold timer_list_op xs []"
  have ok: "timers_ok ([] @ ?cbs)" using timer_list_ops_ok [of "[]" xs] assms(2) by (simp add: timers_ok_def)
  obtain n cbs' cs where e: "\<forall>fuel \<ge> n. execute_timers fuel act now [] ?cbs (timer_calls s) = Ok (cbs', timer_calls s @ cs)"
    "timers_ok cbs'" "passed (ns now) cbs'" "\<forall>(f, u, t) \<in> set cs. ns t \<le> ns now"
    using execute_timers_returns [OF ok _ assms(3), of act "timer_calls s"] assms(4) by auto
  let ?s = "s\<lparr>timer_callbacks := Some cbs', timer_calls := timer_calls s @ cs\<rparr>"
  have r: "\<forall>fuel \<ge> n. execute_timer_events fuel act (Some now) s = Ok (next_timeout now cbs', ?s)"
    using e(1) assms(1) by (simp add: execute_timer_events_def)
  have "\<exists>extra. cs = map timer_call (filter (is_due now) ?cbs) @ extra \<and> (\<forall>(f, u, t) \<in> set extra. ns t = ns now)" if "\<forall>f u. act f u = []"
  proof -
    have "act = no_ops" using that by (auto simp: fun_eq_iff)
    then show ?thesis using execute_quiet [OF ok assms(3), of n "timer_calls s" cbs' "timer_calls s @ cs"] e(1) by auto
  qed
  then show ?thesis
    using r e(2-4) next_timeout_bounds [OF e(2) assms(3) e(3)] by (intro exI [of _ n] exI [of _ "next_timeout now cbs'"] exI [of _ ?s]) (auto simp: passed_def)
qed

theorem timers_executed_when_due_witness:
  "\<exists>n timeout s' cs cbs'. (\<forall>fuel \<ge> n. execute_timer_events fuel (\<lambda>f u. [Delete_timer (2 :: nat) (Some (0 :: nat))]) (Some \<lparr>tv_sec = 5, tv_nsec = 0\<rparr>)
      \<lparr>timer_callbacks = Some (fold timer_list_op [Add_timer zero_time zero_time \<lparr>tv_sec = 3, tv_nsec = 0\<rparr> 1 (Some 0),
         Add_timer zero_time \<lparr>tv_sec = 4, tv_nsec = 0\<rparr> zero_time 2 (Some 0)] []), timer_calls = []\<rparr> = Ok (timeout, s')) \<and>
    timer_calls s' = cs \<and> (\<forall>(f, u, t) \<in> set cs. ns t \<le> 5000000000) \<and>
    timer_callbacks s' = Some cbs' \<and> timers_ok cbs' \<and> (\<forall>cb \<in> set cbs'. is_live cb \<longrightarrow> 5000000000 \<le> due_at cb) \<and> 0 \<le> timeout \<and> timeout \<le> 2147000000"
proof -
  have t: "time_ok \<lparr>tv_sec = 5, tv_nsec = 0\<rparr>" "ns \<lparr>tv_sec = 5, tv_nsec = 0\<rparr> = 5000000000" by (simp_all add: time_ok_def ns_def)
  let ?xs = "[Add_timer zero_time zero_time \<lparr>tv_sec = 3, tv_nsec = 0\<rparr> 1 (Some 0), Add_timer zero_time \<lparr>tv_sec = 4, tv_nsec = 0\<rparr> zero_time 2 (Some 0)]
    :: (nat, nat) timer_op list"
  have ops: "\<forall>x \<in> set ?xs. timer_op_ok zero_time x" by (simp add: time_ok_def ns_def)
  show ?thesis
    using timers_executed_when_due [of "\<lparr>timer_callbacks = Some (fold timer_list_op ?xs []), timer_calls = []\<rparr>" ?xs "\<lparr>tv_sec = 5, tv_nsec = 0\<rparr>"
        "\<lambda>f u. [Delete_timer 2 (Some 0)]", OF _ ops t(1)] t(2)
    by (simp del: fold.simps) blast
qed

end
