(* ===== verification/Switch_Channel.thy ===== *)
theory Switch_Channel
  imports Secure_Channel Event_Handler Timer
begin

text \<open>
  The secure channel of a switch (\<open>src/lib/secure_channel.c\<close>): the connection to the controller, its
  two queues, and the attempts to connect.

  The record \<open>secure_channel\<close> is the static state of the file with the event handler and the timers of
  the process; the process that uses the channel extends the record by its own state.  What the system
  calls return is an argument, and so is what the callbacks of the user of the channel do.  The field
  \<open>chn_written\<close> has the bytes that \<open>write\<close> took, with the descriptor.
\<close>

section \<open>State\<close>

datatype connection_state = INIT | CONNECTING | CONNECTED | DISCONNECTED

datatype channel_handler = Recv_from_secure_channel | Flush_send_queue | Check_connected

datatype channel_timer = Reconnect | Age_contexts

datatype controller_callback = Handle_controller_connected | Handle_controller_disconnected

record secure_channel =
  chn_ip :: "32 word"
  chn_port :: "16 word"
  chn_fd :: int
  chn_state :: connection_state
  connected_callback :: "controller_callback option"
  disconnected_callback :: "controller_callback option"
  secure_channel_initialized :: bool
  chn_send_queue :: "bytes message_queue option"
  chn_recv_queue :: "bytes message_queue option"
  chn_fragment_buf :: "bytes option"
  chn_events :: "channel_handler event_handler"
  chn_timers :: "(channel_timer, unit) timer_state"
  chn_written :: "(int \<times> bytes) list"

text \<open>
  \<open>socket\<close> with the two calls that prepare it, and the values of \<open>errno\<close> as far as the code tells them
  apart: \<open>Retry\<close> stands for \<open>EINTR\<close>, \<open>EAGAIN\<close>, \<open>ECONNREFUSED\<close>, \<open>ENETUNREACH\<close> and \<open>ETIMEDOUT\<close>.
\<close>

datatype socket_result = Socket_failed | Socket int

datatype connect_errno = Connect_done | In_progress | Retry | Fatal

record channel_os =
  cos_socket :: socket_result
  cos_connect :: connect_errno
  cos_sockopt :: "connect_errno option"
  cos_clock :: "timespec option"

definition transit_state :: "connection_state \<Rightarrow> 'a secure_channel_scheme \<Rightarrow> 'a secure_channel_scheme" where
  "transit_state state c =
     (if (case chn_state c of
            INIT \<Rightarrow> state = CONNECTING
          | CONNECTING \<Rightarrow> state = CONNECTED \<or> state = CONNECTING
          | CONNECTED \<Rightarrow> state = DISCONNECTED \<or> state = INIT
          | DISCONNECTED \<Rightarrow> state = CONNECTED)
      then c\<lparr>chn_state := state\<rparr> else c)"

definition clear_connection :: "'a secure_channel_scheme \<Rightarrow> 'a secure_channel_scheme" where
  "clear_connection c =
     (let fd = chn_fd c;
          c = (if fd \<ge> 0
               then c\<lparr>chn_events := delete_fd_handler fd (set_writable fd False (set_readable fd False (chn_events c)))\<rparr>
               else c)
      in c\<lparr>chn_fd := -1, chn_state := INIT\<rparr>)"

section \<open>Connecting\<close>

definition backoff :: "channel_os \<Rightarrow> 'a secure_channel_scheme \<Rightarrow> 'a secure_channel_scheme res" where
  "backoff os c =
     bnd (add_timer_event_callback (cos_clock os) zero_time \<lparr>tv_sec = 5, tv_nsec = 0\<rparr> Reconnect None (chn_timers c))
       (\<lambda>(_, t). Ok (c\<lparr>chn_timers := t\<rparr>))"

definition watch_connecting :: "'a secure_channel_scheme \<Rightarrow> 'a secure_channel_scheme res" where
  "watch_connecting c =
     bnd (set_fd_handler (chn_fd c) None (Some Check_connected) (chn_events c)) (\<lambda>h.
     Ok (c\<lparr>chn_events := set_writable (chn_fd c) True h\<rparr>))"

definition try_connect :: "channel_os \<Rightarrow> 'a secure_channel_scheme \<Rightarrow> (bool \<times> 'a secure_channel_scheme) res" where
  "try_connect os c =
     assert_then (chn_state c \<noteq> CONNECTED)
      (case cos_socket os of
         Socket_failed \<Rightarrow> Ok (False, c)
       | Socket fd \<Rightarrow>
           let c = transit_state CONNECTING (c\<lparr>chn_fd := fd\<rparr>) in
           if cos_connect os = Retry then bnd (backoff os c) (\<lambda>c. Ok (True, c))
           else if cos_connect os = Fatal then Ok (False, clear_connection c)
           else bnd (watch_connecting c) (\<lambda>c. Ok (True, c)))"

definition reconnect :: "channel_os \<Rightarrow> 'a secure_channel_scheme \<Rightarrow> 'a secure_channel_scheme res" where
  "reconnect os c = bnd (try_connect os c) (\<lambda>(ret, c). Ok (if ret then c else clear_connection c))"

definition channel_connected ::
  "(controller_callback \<Rightarrow> 'a secure_channel_scheme \<Rightarrow> 'a secure_channel_scheme) \<Rightarrow>
   'a secure_channel_scheme \<Rightarrow> 'a secure_channel_scheme res" where
  "channel_connected call c =
     (let c = transit_state CONNECTED c; fd = chn_fd c in
      bnd (set_fd_handler fd (Some Recv_from_secure_channel) (Some Flush_send_queue) (chn_events c)) (\<lambda>h.
      let c = c\<lparr>chn_events := set_writable fd False (set_readable fd True h)\<rparr>
      in Ok (case connected_callback c of None \<Rightarrow> c | Some f \<Rightarrow> call f c)))"

definition channel_disconnected ::
  "(controller_callback \<Rightarrow> 'a secure_channel_scheme \<Rightarrow> 'a secure_channel_scheme) \<Rightarrow>
   'a secure_channel_scheme \<Rightarrow> 'a secure_channel_scheme" where
  "channel_disconnected call c =
     (let c = transit_state DISCONNECTED c
      in clear_connection (case disconnected_callback c of None \<Rightarrow> c | Some f \<Rightarrow> call f c))"

definition check_connected ::
  "channel_os \<Rightarrow> (controller_callback \<Rightarrow> 'a secure_channel_scheme \<Rightarrow> 'a secure_channel_scheme) \<Rightarrow>
   'a secure_channel_scheme \<Rightarrow> 'a secure_channel_scheme res" where
  "check_connected os call c =
     assert_then (secure_channel_initialized c)
      (assert_then (chn_fd c \<ge> 0)
        (let c = c\<lparr>chn_events := delete_fd_handler (chn_fd c) (set_writable (chn_fd c) False (chn_events c))\<rparr> in
         case cos_sockopt os of
           None \<Rightarrow> Ok c
         | Some err \<Rightarrow>
             (case err of
                Connect_done \<Rightarrow> channel_connected call c
              | Retry \<Rightarrow> backoff os c
              | In_progress \<Rightarrow> watch_connecting c
              | Fatal \<Rightarrow> Ok (clear_connection c))))"

section \<open>Receiving\<close>

function split_messages :: "bytes \<Rightarrow> bytes message_queue \<Rightarrow> (bytes \<times> bytes message_queue) res" where
  "split_messages frag q =
     (if length frag \<ge> 8 then
        bnd (rd16 frag 2) (\<lambda>message_length.
        if unat message_length > length frag then Ok (frag, q) else
        assert_then (message_length \<noteq> 0)
          (split_messages (drop (unat message_length) frag) (enqueue_message q (take (unat message_length) frag))))
      else Ok (frag, q))"
  by auto
termination
proof (relation "measure (\<lambda>(frag, q). length frag)", goal_cases)
  case (2 frag q message_length)
  then have "0 < length frag" by linarith
  then show ?case using 2 diff_unat_less [of message_length "length frag"] by simp
qed simp

declare split_messages.simps [simp del]

definition recv_message_from_secure_channel ::
  "(bytes \<Rightarrow> 'a secure_channel_scheme \<Rightarrow> 'a secure_channel_scheme res) \<Rightarrow> 'a secure_channel_scheme \<Rightarrow>
   (bool \<times> 'a secure_channel_scheme) res" where
  "recv_message_from_secure_channel handle c =
     (case chn_recv_queue c of
        None \<Rightarrow> Fault Assertion
      | Some q \<Rightarrow>
          if mq_length q = 0 then Ok (False, c)
          else case dequeue_message q of
            (None, q) \<Rightarrow> Fault Assertion
          | (Some message, q) \<Rightarrow> bnd (handle message (c\<lparr>chn_recv_queue := Some q\<rparr>)) (\<lambda>c. Ok (True, c)))"

fun recv_messages_loop ::
  "nat \<Rightarrow> (bytes \<Rightarrow> 'a secure_channel_scheme \<Rightarrow> 'a secure_channel_scheme res) \<Rightarrow> 'a secure_channel_scheme \<Rightarrow>
   'a secure_channel_scheme res" where
  "recv_messages_loop 0 handle c = Fault No_return"
| "recv_messages_loop (Suc fuel) handle c =
     bnd (recv_message_from_secure_channel handle c) (\<lambda>(go, c). if go then recv_messages_loop fuel handle c else Ok c)"

definition recv_from_controller ::
  "channel_os \<Rightarrow> (controller_callback \<Rightarrow> 'a secure_channel_scheme \<Rightarrow> 'a secure_channel_scheme) \<Rightarrow>
   (bytes \<Rightarrow> 'a secure_channel_scheme \<Rightarrow> 'a secure_channel_scheme res) \<Rightarrow> read_result \<Rightarrow>
   'a secure_channel_scheme \<Rightarrow> 'a secure_channel_scheme res" where
  "recv_from_controller os call handle r c =
     (case chn_recv_queue c of
        None \<Rightarrow> Fault Null_deref
      | Some q \<Rightarrow>
          if mq_length q > 0 then Ok c
          else
            let f = (case chn_fragment_buf c of None \<Rightarrow> [] | Some f \<Rightarrow> f); c = c\<lparr>chn_fragment_buf := Some f\<rparr> in
            (case r of
               Read_again \<Rightarrow> Ok c
             | Read_error \<Rightarrow> Ok c
             | Read_data bs \<Rightarrow>
                 let received = take (RECEIVE_BUFFFER_SIZE - length f) bs in
                 if received = [] then reconnect os (channel_disconnected call c)
                 else bnd (split_messages (f @ received) q) (\<lambda>(f, q).
                        recv_messages_loop (Suc (length (mq_elements q))) handle
                          (c\<lparr>chn_fragment_buf := Some f, chn_recv_queue := Some q\<rparr>))))"

section \<open>Sending\<close>

definition send_message_to_secure_channel :: "bytes \<Rightarrow> 'a secure_channel_scheme \<Rightarrow> (bool \<times> 'a secure_channel_scheme) res" where
  "send_message_to_secure_channel message c =
     (case chn_send_queue c of
        None \<Rightarrow> Fault Assertion
      | Some q \<Rightarrow>
          assert_then (length message > 0 \<and> chn_state c = CONNECTED \<and> chn_fd c \<ge> 0)
           (let c = (if mq_length q = 0 then c\<lparr>chn_events := set_writable (chn_fd c) True (chn_events c)\<rparr> else c)
            in Ok (True, c\<lparr>chn_send_queue := Some (enqueue_message q message)\<rparr>)))"

text \<open>
  The loop over the queue, with the results of the calls of \<open>write\<close>; when no result is given the socket
  would block.  \<open>remove_front_buffer\<close> asserts that the length is not 0.
\<close>

fun flush_loop :: "writev_result list \<Rightarrow> bytes message_queue \<Rightarrow> 'a secure_channel_scheme \<Rightarrow> 'a secure_channel_scheme res" where
  "flush_loop ws q c =
     (case peek_message q of
        None \<Rightarrow> Ok (c\<lparr>chn_send_queue := Some q\<rparr>)
      | Some buf \<Rightarrow>
          (case ws of
             [] \<Rightarrow> Ok (c\<lparr>chn_send_queue := Some q, chn_events := set_writable (chn_fd c) True (chn_events c)\<rparr>)
           | w # ws \<Rightarrow>
               (case w of
                  Write_again \<Rightarrow> Ok (c\<lparr>chn_send_queue := Some q, chn_events := set_writable (chn_fd c) True (chn_events c)\<rparr>)
                | Write_error \<Rightarrow> Ok (c\<lparr>chn_send_queue := Some q\<rparr>)
                | Wrote n \<Rightarrow>
                    let c = c\<lparr>chn_written := chn_written c @ [(chn_fd c, take n buf)]\<rparr> in
                    if n < length buf
                    then assert_then (n \<noteq> 0)
                      (Ok (c\<lparr>chn_send_queue := Some (shorten_first n q), chn_events := set_writable (chn_fd c) True (chn_events c)\<rparr>))
                    else flush_loop ws (snd (dequeue_message q)) c)))"

declare flush_loop.simps [simp del]

definition flush_send_queue :: "writev_result list \<Rightarrow> 'a secure_channel_scheme \<Rightarrow> 'a secure_channel_scheme res" where
  "flush_send_queue ws c =
     (case chn_send_queue c of
        None \<Rightarrow> Fault Assertion
      | Some q \<Rightarrow>
          assert_then (chn_fd c \<ge> 0)
           (flush_loop ws q (c\<lparr>chn_events := set_writable (chn_fd c) False (chn_events c)\<rparr>)))"

section \<open>Life cycle\<close>

definition init_secure_channel ::
  "channel_os \<Rightarrow> 32 word \<Rightarrow> 16 word \<Rightarrow> controller_callback option \<Rightarrow> controller_callback option \<Rightarrow>
   'a secure_channel_scheme \<Rightarrow> (bool \<times> 'a secure_channel_scheme) res" where
  "init_secure_channel os ip port connected_cb disconnected_cb c =
     assert_then (\<not> secure_channel_initialized c)
      (let c = c\<lparr>chn_ip := ip, chn_port := port, chn_fd := -1, connected_callback := connected_cb,
                 disconnected_callback := disconnected_cb\<rparr> in
       bnd (try_connect os c) (\<lambda>(ret, c).
       if \<not> ret then Ok (False, clear_connection c)
       else Ok (True, c\<lparr>chn_send_queue := Some create_message_queue, chn_recv_queue := Some create_message_queue,
                       secure_channel_initialized := True\<rparr>)))"

definition finalize_secure_channel :: "'a secure_channel_scheme \<Rightarrow> (bool \<times> 'a secure_channel_scheme) res" where
  "finalize_secure_channel c =
     assert_then (secure_channel_initialized c)
      (Ok (True, (clear_connection c)\<lparr>chn_send_queue := None, chn_recv_queue := None, secure_channel_initialized := False\<rparr>))"

end
