(* ===== verification/Switch_Interface.thy ===== *)
theory Switch_Interface
  imports Switch_Channel Application_Interface
begin

text \<open>
  The interface of a switch implementation (\<open>src/lib/openflow_switch_interface.c\<close>): the registration of
  handlers, the dispatch of messages from the controller and from local services to them, and the way
  back of the answers.

  The state \<open>switch_interface\<close> extends the secure channel by the static variables of the file and by what
  the process did: the calls of handlers, and the messages handed to the messenger.  A handler and its
  user data are numbers; a call is recorded with its arguments.  \<open>time( NULL )\<close>, and whether the messenger
  takes a message, are arguments.
\<close>

section \<open>State\<close>

record switch_event_handlers =
  swh_controller_connected :: "nat option"
  swh_controller_connected_user_data :: nat
  swh_controller_disconnected :: "nat option"
  swh_controller_disconnected_user_data :: nat
  swh_hello :: "nat option"
  swh_hello_user_data :: nat
  swh_error :: "nat option"
  swh_error_user_data :: nat
  swh_echo_request :: "nat option"
  swh_echo_request_user_data :: nat
  swh_echo_reply :: "nat option"
  swh_echo_reply_user_data :: nat
  swh_vendor :: "nat option"
  swh_vendor_user_data :: nat
  swh_features_request :: "nat option"
  swh_features_request_user_data :: nat
  swh_get_config_request :: "nat option"
  swh_get_config_request_user_data :: nat
  swh_set_config :: "nat option"
  swh_set_config_user_data :: nat
  swh_packet_out :: "nat option"
  swh_packet_out_user_data :: nat
  swh_flow_mod :: "nat option"
  swh_flow_mod_user_data :: nat
  swh_port_mod :: "nat option"
  swh_port_mod_user_data :: nat
  swh_stats_request :: "nat option"
  swh_stats_request_user_data :: nat
  swh_barrier_request :: "nat option"
  swh_barrier_request_user_data :: nat
  swh_queue_get_config_request :: "nat option"
  swh_queue_get_config_request_user_data :: nat

definition no_switch_handlers :: switch_event_handlers where
  "no_switch_handlers =
     \<lparr>swh_controller_connected = None, swh_controller_connected_user_data = 0,
      swh_controller_disconnected = None, swh_controller_disconnected_user_data = 0,
      swh_hello = None, swh_hello_user_data = 0, swh_error = None, swh_error_user_data = 0,
      swh_echo_request = None, swh_echo_request_user_data = 0, swh_echo_reply = None, swh_echo_reply_user_data = 0,
      swh_vendor = None, swh_vendor_user_data = 0, swh_features_request = None, swh_features_request_user_data = 0,
      swh_get_config_request = None, swh_get_config_request_user_data = 0,
      swh_set_config = None, swh_set_config_user_data = 0, swh_packet_out = None, swh_packet_out_user_data = 0,
      swh_flow_mod = None, swh_flow_mod_user_data = 0, swh_port_mod = None, swh_port_mod_user_data = 0,
      swh_stats_request = None, swh_stats_request_user_data = 0,
      swh_barrier_request = None, swh_barrier_request_user_data = 0,
      swh_queue_get_config_request = None, swh_queue_get_config_request_user_data = 0\<rparr>"

text \<open>The body of a statistics request in host byte order; a body that is not converted is its bytes.\<close>

datatype stats_request_body =
    Flow_request ofp_match "8 word" "16 word"
  | Aggregate_request ofp_match "8 word" "16 word"
  | Port_request "16 word" bytes
  | Vendor_request "32 word" bytes
  | Unconverted_request bytes

datatype switch_call =
    Sw_controller_connected nat nat
  | Sw_controller_disconnected nat nat
  | Sw_hello nat "32 word" "8 word" nat
  | Sw_error nat "32 word" "16 word" "16 word" bytes nat
  | Sw_echo_request nat "32 word" "bytes option" nat
  | Sw_echo_reply nat "32 word" "bytes option" nat
  | Sw_vendor nat "32 word" "32 word" "bytes option" nat
  | Sw_features_request nat "32 word" nat
  | Sw_get_config_request nat "32 word" nat
  | Sw_set_config nat "32 word" "16 word" "16 word" nat
  | Sw_packet_out nat "32 word" "32 word" "16 word" "ofp_action list option" "bytes option" nat
  | Sw_flow_mod nat "32 word" ofp_match "64 word" "16 word" "16 word" "16 word" "16 word" "32 word" "16 word" "16 word"
      "ofp_action list option" nat
  | Sw_port_mod nat "32 word" "16 word" mac "32 word" "32 word" "32 word" nat
  | Sw_stats_request nat "32 word" "16 word" "16 word" "stats_request_body option" nat
  | Sw_barrier_request nat "32 word" nat
  | Sw_queue_get_config_request nat "32 word" "16 word" nat

record openflow_switch_config =
  cfg_datapath_id :: "64 word"
  cfg_controller_ip :: "32 word"
  cfg_controller_port :: "16 word"

datatype message_send_handler = Send_openflow_message_to_secure_channel | Send_openflow_message_to_local

record openflow_context =
  octx_transaction_id :: "32 word"
  octx_message :: bytes
  octx_send_callback :: message_send_handler
  octx_user_data :: "bytes option"
  octx_created_at :: int

record switch_interface = secure_channel +
  openflow_switch_interface_initialized :: bool
  swi_handlers :: switch_event_handlers
  swi_config :: openflow_switch_config
  swi_contexts :: "(32 word, openflow_context) hash_table option"
  swi_calls :: "switch_call list"
  swi_sent :: "(bytes \<times> 16 word \<times> bytes) list"
  swi_received_callbacks :: "bytes list"

definition switch_upcall :: "switch_call \<Rightarrow> switch_interface \<Rightarrow> switch_interface" where
  "switch_upcall c s = s\<lparr>swi_calls := swi_calls s @ [c]\<rparr>"

section \<open>Contexts\<close>

definition CONTEXT_LIFETIME :: int where
  "CONTEXT_LIFETIME = 5"

text \<open>The key of a context is a pointer to its transaction id, its first field.\<close>

definition compare_context :: "32 word \<Rightarrow> 32 word \<Rightarrow> bool" where
  "compare_context x y \<longleftrightarrow> x = y"

definition hash_context :: "32 word \<Rightarrow> 32 word" where
  "hash_context key = key"

definition lookup_context :: "32 word \<Rightarrow> switch_interface \<Rightarrow> openflow_context option res" where
  "lookup_context transaction_id s =
     (case swi_contexts s of None \<Rightarrow> Fault Assertion | Some t \<Rightarrow> Ok (lookup_hash_entry t transaction_id))"

definition save_context ::
  "int \<Rightarrow> 32 word \<Rightarrow> bytes \<Rightarrow> message_send_handler \<Rightarrow> bytes option \<Rightarrow> switch_interface \<Rightarrow> (bool \<times> switch_interface) res" where
  "save_context now transaction_id message callback user_data s =
     (case swi_contexts s of
        None \<Rightarrow> Fault Assertion
      | Some t \<Rightarrow>
          if lookup_hash_entry t transaction_id \<noteq> None then Ok (False, s)
          else Ok (True, s\<lparr>swi_contexts := Some (fst (insert_hash_entry t transaction_id
                 \<lparr>octx_transaction_id = transaction_id, octx_message = message, octx_send_callback = callback,
                  octx_user_data = user_data, octx_created_at = now\<rparr>))\<rparr>))"

definition delete_switch_context ::
  "32 word \<Rightarrow> (32 word, openflow_context) hash_table \<Rightarrow> (32 word, openflow_context) hash_table" where
  "delete_switch_context transaction_id t = fst (delete_hash_entry t transaction_id)"

text \<open>
  The iterator has moved on before it hands out an entry, so that the deletion of that entry does not
  change what it visits.
\<close>

fun age_contexts_loop ::
  "nat \<Rightarrow> int \<Rightarrow> (32 word, openflow_context) hash_iterator \<Rightarrow> (32 word, openflow_context) hash_table \<Rightarrow>
   (32 word, openflow_context) hash_table res" where
  "age_contexts_loop 0 now iter t = Fault No_return"
| "age_contexts_loop (Suc fuel) now iter t =
     bnd (iterate_hash_next iter) (\<lambda>(e, iter).
       case e of
         None \<Rightarrow> Ok t
       | Some (key, context) \<Rightarrow>
           age_contexts_loop fuel now iter
             (if octx_created_at context + CONTEXT_LIFETIME \<le> now
              then delete_switch_context (octx_transaction_id context) t else t))"

definition age_contexts ::
  "nat \<Rightarrow> int \<Rightarrow> (32 word, openflow_context) hash_iterator \<Rightarrow> switch_interface \<Rightarrow> switch_interface res" where
  "age_contexts fuel now iter s =
     (case swi_contexts s of
        None \<Rightarrow> Fault Assertion
      | Some t \<Rightarrow>
          bnd (init_hash_iterator t iter) (\<lambda>iter.
          bnd (age_contexts_loop fuel now iter t) (\<lambda>t. Ok (s\<lparr>swi_contexts := Some t\<rparr>))))"

definition init_context :: "switch_interface \<Rightarrow> switch_interface res" where
  "init_context s =
     assert_then (swi_contexts s = None)
      (Ok (s\<lparr>swi_contexts := Some (create_hash_with_size compare_context hash_context 128)\<rparr>))"

definition finalize_context :: "switch_interface \<Rightarrow> switch_interface res" where
  "finalize_context s = assert_then (swi_contexts s \<noteq> None) (Ok (s\<lparr>swi_contexts := None\<rparr>))"

section \<open>Registration of handlers\<close>

definition switch_set_openflow_event_handlers ::
  "switch_event_handlers \<Rightarrow> switch_interface \<Rightarrow> (bool \<times> switch_interface) res" where
  "switch_set_openflow_event_handlers handlers s =
     assert_then (openflow_switch_interface_initialized s) (Ok (True, s\<lparr>swi_handlers := handlers\<rparr>))"

definition store_handler ::
  "nat option \<Rightarrow> (switch_event_handlers \<Rightarrow> switch_event_handlers) \<Rightarrow> switch_interface \<Rightarrow> (bool \<times> switch_interface) res" where
  "store_handler callback store s =
     assert_then (callback \<noteq> None)
      (assert_then (openflow_switch_interface_initialized s) (Ok (True, s\<lparr>swi_handlers := store (swi_handlers s)\<rparr>)))"

definition set_controller_connected_handler :: "nat option \<Rightarrow> nat \<Rightarrow> switch_interface \<Rightarrow> (bool \<times> switch_interface) res" where
  "set_controller_connected_handler callback user_data =
     store_handler callback (\<lambda>h. h\<lparr>swh_controller_connected := callback, swh_controller_connected_user_data := user_data\<rparr>)"

definition set_controller_disconnected_handler :: "nat option \<Rightarrow> nat \<Rightarrow> switch_interface \<Rightarrow> (bool \<times> switch_interface) res" where
  "set_controller_disconnected_handler callback user_data =
     store_handler callback (\<lambda>h. h\<lparr>swh_controller_disconnected := callback, swh_controller_disconnected_user_data := user_data\<rparr>)"

definition set_hello_handler :: "nat option \<Rightarrow> nat \<Rightarrow> switch_interface \<Rightarrow> (bool \<times> switch_interface) res" where
  "set_hello_handler callback user_data =
     store_handler callback (\<lambda>h. h\<lparr>swh_hello := callback, swh_hello_user_data := user_data\<rparr>)"

definition switch_set_error_handler :: "nat option \<Rightarrow> nat \<Rightarrow> switch_interface \<Rightarrow> (bool \<times> switch_interface) res" where
  "switch_set_error_handler callback user_data =
     store_handler callback (\<lambda>h. h\<lparr>swh_error := callback, swh_error_user_data := user_data\<rparr>)"

definition set_echo_request_handler :: "nat option \<Rightarrow> nat \<Rightarrow> switch_interface \<Rightarrow> (bool \<times> switch_interface) res" where
  "set_echo_request_handler callback user_data =
     store_handler callback (\<lambda>h. h\<lparr>swh_echo_request := callback, swh_echo_request_user_data := user_data\<rparr>)"

definition switch_set_echo_reply_handler :: "nat option \<Rightarrow> nat \<Rightarrow> switch_interface \<Rightarrow> (bool \<times> switch_interface) res" where
  "switch_set_echo_reply_handler callback user_data =
     store_handler callback (\<lambda>h. h\<lparr>swh_echo_reply := callback, swh_echo_reply_user_data := user_data\<rparr>)"

definition switch_set_vendor_handler :: "nat option \<Rightarrow> nat \<Rightarrow> switch_interface \<Rightarrow> (bool \<times> switch_interface) res" where
  "switch_set_vendor_handler callback user_data =
     store_handler callback (\<lambda>h. h\<lparr>swh_vendor := callback, swh_vendor_user_data := user_data\<rparr>)"

definition set_features_request_handler :: "nat option \<Rightarrow> nat \<Rightarrow> switch_interface \<Rightarrow> (bool \<times> switch_interface) res" where
  "set_features_request_handler callback user_data =
     store_handler callback (\<lambda>h. h\<lparr>swh_features_request := callback, swh_features_request_user_data := user_data\<rparr>)"

definition set_get_config_request_handler :: "nat option \<Rightarrow> nat \<Rightarrow> switch_interface \<Rightarrow> (bool \<times> switch_interface) res" where
  "set_get_config_request_handler callback user_data =
     store_handler callback (\<lambda>h. h\<lparr>swh_get_config_request := callback, swh_get_config_request_user_data := user_data\<rparr>)"

definition set_set_config_handler :: "nat option \<Rightarrow> nat \<Rightarrow> switch_interface \<Rightarrow> (bool \<times> switch_interface) res" where
  "set_set_config_handler callback user_data =
     store_handler callback (\<lambda>h. h\<lparr>swh_set_config := callback, swh_set_config_user_data := user_data\<rparr>)"

definition set_packet_out_handler :: "nat option \<Rightarrow> nat \<Rightarrow> switch_interface \<Rightarrow> (bool \<times> switch_interface) res" where
  "set_packet_out_handler callback user_data =
     store_handler callback (\<lambda>h. h\<lparr>swh_packet_out := callback, swh_packet_out_user_data := user_data\<rparr>)"

definition set_flow_mod_handler :: "nat option \<Rightarrow> nat \<Rightarrow> switch_interface \<Rightarrow> (bool \<times> switch_interface) res" where
  "set_flow_mod_handler callback user_data =
     store_handler callback (\<lambda>h. h\<lparr>swh_flow_mod := callback, swh_flow_mod_user_data := user_data\<rparr>)"

definition set_port_mod_handler :: "nat option \<Rightarrow> nat \<Rightarrow> switch_interface \<Rightarrow> (bool \<times> switch_interface) res" where
  "set_port_mod_handler callback user_data =
     store_handler callback (\<lambda>h. h\<lparr>swh_port_mod := callback, swh_port_mod_user_data := user_data\<rparr>)"

definition set_stats_request_handler :: "nat option \<Rightarrow> nat \<Rightarrow> switch_interface \<Rightarrow> (bool \<times> switch_interface) res" where
  "set_stats_request_handler callback user_data =
     store_handler callback (\<lambda>h. h\<lparr>swh_stats_request := callback, swh_stats_request_user_data := user_data\<rparr>)"

definition set_barrier_request_handler :: "nat option \<Rightarrow> nat \<Rightarrow> switch_interface \<Rightarrow> (bool \<times> switch_interface) res" where
  "set_barrier_request_handler callback user_data =
     store_handler callback (\<lambda>h. h\<lparr>swh_barrier_request := callback, swh_barrier_request_user_data := user_data\<rparr>)"

definition set_queue_get_config_request_handler :: "nat option \<Rightarrow> nat \<Rightarrow> switch_interface \<Rightarrow> (bool \<times> switch_interface) res" where
  "set_queue_get_config_request_handler callback user_data =
     store_handler callback (\<lambda>h. h\<lparr>swh_queue_get_config_request := callback, swh_queue_get_config_request_user_data := user_data\<rparr>)"

section \<open>Handling of messages\<close>

definition switch_handle_hello :: "bytes \<Rightarrow> switch_interface \<Rightarrow> switch_interface res" where
  "switch_handle_hello data s =
     assert_then (data \<noteq> [])
      (bnd (rd32 data 4) (\<lambda>transaction_id.
       bnd (rd8 data 0) (\<lambda>version.
       case swh_hello (swi_handlers s) of
         None \<Rightarrow> Ok s
       | Some f \<Rightarrow> Ok (switch_upcall (Sw_hello f transaction_id version (swh_hello_user_data (swi_handlers s))) s))))"

definition switch_handle_error :: "bytes \<Rightarrow> switch_interface \<Rightarrow> switch_interface res" where
  "switch_handle_error data s =
     assert_then (data \<noteq> [])
      (bnd (rd32 data 4) (\<lambda>transaction_id.
       bnd (rd16 data 8) (\<lambda>type.
       bnd (rd16 data 10) (\<lambda>code.
       bnd (body_of 12 data) (\<lambda>body.
       case swh_error (swi_handlers s) of
         None \<Rightarrow> Ok s
       | Some f \<Rightarrow> Ok (switch_upcall (Sw_error f transaction_id type code body (swh_error_user_data (swi_handlers s))) s))))))"

text \<open>The body of an echo message: \<open>length - sizeof( struct ofp_header ) > 0\<close> is compared without sign.\<close>

definition echo_body :: "bytes \<Rightarrow> 16 word \<Rightarrow> bytes option res" where
  "echo_body data len =
     (if (ucast len - 8 :: 64 word) > 0 then bnd (body_of 8 data) (\<lambda>body. Ok (Some body)) else Ok None)"

definition switch_handle_echo_request :: "bytes \<Rightarrow> switch_interface \<Rightarrow> switch_interface res" where
  "switch_handle_echo_request data s =
     assert_then (data \<noteq> [])
      (bnd (rd32 data 4) (\<lambda>transaction_id.
       bnd (rd16 data 2) (\<lambda>len.
       case swh_echo_request (swi_handlers s) of
         None \<Rightarrow> Ok s
       | Some f \<Rightarrow>
           bnd (echo_body data len) (\<lambda>body.
           Ok (switch_upcall (Sw_echo_request f transaction_id body (swh_echo_request_user_data (swi_handlers s))) s)))))"

definition switch_handle_echo_reply :: "bytes \<Rightarrow> switch_interface \<Rightarrow> switch_interface res" where
  "switch_handle_echo_reply data s =
     assert_then (data \<noteq> [])
      (bnd (rd32 data 4) (\<lambda>transaction_id.
       bnd (rd16 data 2) (\<lambda>len.
       case swh_echo_reply (swi_handlers s) of
         None \<Rightarrow> Ok s
       | Some f \<Rightarrow>
           bnd (echo_body data len) (\<lambda>body.
           Ok (switch_upcall (Sw_echo_reply f transaction_id body (swh_echo_reply_user_data (swi_handlers s))) s)))))"

definition switch_handle_vendor :: "bytes \<Rightarrow> switch_interface \<Rightarrow> switch_interface res" where
  "switch_handle_vendor data s =
     assert_then (data \<noteq> [])
      (bnd (rd32 data 4) (\<lambda>transaction_id.
       bnd (rd32 data 8) (\<lambda>vendor.
       bnd (rd16 data 2) (\<lambda>len.
       case swh_vendor (swi_handlers s) of
         None \<Rightarrow> Ok s
       | Some f \<Rightarrow>
           bnd (optional_body 12 data (len - 12)) (\<lambda>body.
           Ok (switch_upcall (Sw_vendor f transaction_id vendor body (swh_vendor_user_data (swi_handlers s))) s))))))"

definition switch_handle_features_request :: "bytes \<Rightarrow> switch_interface \<Rightarrow> switch_interface res" where
  "switch_handle_features_request data s =
     assert_then (data \<noteq> [])
      (bnd (rd32 data 4) (\<lambda>transaction_id.
       case swh_features_request (swi_handlers s) of
         None \<Rightarrow> Ok s
       | Some f \<Rightarrow> Ok (switch_upcall (Sw_features_request f transaction_id (swh_features_request_user_data (swi_handlers s))) s)))"

definition switch_handle_get_config_request :: "bytes \<Rightarrow> switch_interface \<Rightarrow> switch_interface res" where
  "switch_handle_get_config_request data s =
     assert_then (data \<noteq> [])
      (bnd (rd32 data 4) (\<lambda>transaction_id.
       case swh_get_config_request (swi_handlers s) of
         None \<Rightarrow> Ok s
       | Some f \<Rightarrow> Ok (switch_upcall (Sw_get_config_request f transaction_id (swh_get_config_request_user_data (swi_handlers s))) s)))"

definition switch_handle_set_config :: "bytes \<Rightarrow> switch_interface \<Rightarrow> switch_interface res" where
  "switch_handle_set_config data s =
     assert_then (data \<noteq> [])
      (bnd (rd32 data 4) (\<lambda>transaction_id.
       bnd (rd16 data 8) (\<lambda>flags.
       bnd (rd16 data 10) (\<lambda>miss_send_len.
       case swh_set_config (swi_handlers s) of
         None \<Rightarrow> Ok s
       | Some f \<Rightarrow> Ok (switch_upcall (Sw_set_config f transaction_id flags miss_send_len (swh_set_config_user_data (swi_handlers s))) s)))))"

text \<open>
  The loop over a list of actions, with the length that is left in a \<open>size_t\<close>.  The conversion in place
  does not reach the next action: the validation, which comes before, accepts an action only with the
  length of its structure.
\<close>

fun read_actions :: "nat \<Rightarrow> bytes \<Rightarrow> nat \<Rightarrow> 64 word \<Rightarrow> ofp_action list res" where
  "read_actions 0 m i actions_len = Fault No_return"
| "read_actions (Suc fuel) m i actions_len =
     (if actions_len > 0
      then bnd (ntoh_action m i) (\<lambda>a.
           let len = action_len a in
           if i + unat len > length m then Fault Out_of_bounds
           else bnd (read_actions fuel m (i + unat len) (actions_len - ucast len)) (\<lambda>as. Ok (a # as)))
      else Ok [])"

definition read_optional_actions :: "nat \<Rightarrow> bytes \<Rightarrow> nat \<Rightarrow> 64 word \<Rightarrow> ofp_action list option res" where
  "read_optional_actions fuel m i actions_len =
     (if actions_len > 0 then bnd (read_actions fuel m i actions_len) (\<lambda>as. Ok (Some as)) else Ok None)"

text \<open>The frame of a packet out; a length that has wrapped around is more than can be allocated.\<close>

definition packet_out_frame :: "bytes \<Rightarrow> 16 word \<Rightarrow> 16 word \<Rightarrow> bytes option res" where
  "packet_out_frame m len actions_len =
     (let frame_length = ucast len - 16 - ucast actions_len :: 64 word in
      if frame_length > 0
      then if frame_length > 0xffff then Fault Die
           else bnd (rd_struct (unat frame_length) m (16 + unat actions_len)) (\<lambda>frame. Ok (Some frame))
      else Ok None)"

definition switch_handle_packet_out :: "nat \<Rightarrow> bytes \<Rightarrow> switch_interface \<Rightarrow> switch_interface res" where
  "switch_handle_packet_out fuel data s =
     assert_then (data \<noteq> [])
      (bnd (rd32 data 4) (\<lambda>transaction_id.
       bnd (rd32 data 8) (\<lambda>buffer_id.
       bnd (rd16 data 12) (\<lambda>in_port.
       bnd (rd16 data 14) (\<lambda>actions_len.
       bnd (read_optional_actions fuel data 16 (ucast actions_len)) (\<lambda>actions.
       bnd (rd16 data 2) (\<lambda>len.
       bnd (packet_out_frame data len actions_len) (\<lambda>frame.
       case swh_packet_out (swi_handlers s) of
         None \<Rightarrow> Ok s
       | Some f \<Rightarrow> Ok (switch_upcall (Sw_packet_out f transaction_id buffer_id in_port actions frame
           (swh_packet_out_user_data (swi_handlers s))) s)))))))))"

definition switch_handle_flow_mod :: "nat \<Rightarrow> bytes \<Rightarrow> switch_interface \<Rightarrow> switch_interface res" where
  "switch_handle_flow_mod fuel data s =
     assert_then (data \<noteq> [])
      (bnd (rd32 data 4) (\<lambda>transaction_id.
       bnd (ntoh_match data 8) (\<lambda>match.
       bnd (rd64 data 48) (\<lambda>cookie.
       bnd (rd16 data 56) (\<lambda>command.
       bnd (rd16 data 58) (\<lambda>idle_timeout.
       bnd (rd16 data 60) (\<lambda>hard_timeout.
       bnd (rd16 data 62) (\<lambda>priority.
       bnd (rd32 data 64) (\<lambda>buffer_id.
       bnd (rd16 data 68) (\<lambda>out_port.
       bnd (rd16 data 70) (\<lambda>flags.
       bnd (rd16 data 2) (\<lambda>len.
       bnd (read_optional_actions fuel data 72 (ucast len - 72)) (\<lambda>actions.
       case swh_flow_mod (swi_handlers s) of
         None \<Rightarrow> Ok s
       | Some f \<Rightarrow> Ok (switch_upcall (Sw_flow_mod f transaction_id match cookie command idle_timeout hard_timeout priority
           buffer_id out_port flags actions (swh_flow_mod_user_data (swi_handlers s))) s))))))))))))))"

definition switch_handle_port_mod :: "bytes \<Rightarrow> switch_interface \<Rightarrow> switch_interface res" where
  "switch_handle_port_mod data s =
     assert_then (data \<noteq> [])
      (bnd (rd32 data 4) (\<lambda>transaction_id.
       bnd (rd16 data 8) (\<lambda>port_no.
       bnd (rd48 data 10) (\<lambda>hw_addr.
       bnd (rd32 data 16) (\<lambda>config.
       bnd (rd32 data 20) (\<lambda>mask.
       bnd (rd32 data 24) (\<lambda>advertise.
       case swh_port_mod (swi_handlers s) of
         None \<Rightarrow> Ok s
       | Some f \<Rightarrow> Ok (switch_upcall (Sw_port_mod f transaction_id port_no hw_addr config mask advertise
           (swh_port_mod_user_data (swi_handlers s))) s))))))))"

definition stats_request_body_of :: "16 word \<Rightarrow> bytes \<Rightarrow> stats_request_body res" where
  "stats_request_body_of type body =
     (if type = OFPST_FLOW then
        bnd (ntoh_match body 0) (\<lambda>match. bnd (rd8 body 40) (\<lambda>table_id. bnd (rd16 body 42) (\<lambda>out_port.
        Ok (Flow_request match table_id out_port))))
      else if type = OFPST_AGGREGATE then
        bnd (ntoh_match body 0) (\<lambda>match. bnd (rd8 body 40) (\<lambda>table_id. bnd (rd16 body 42) (\<lambda>out_port.
        Ok (Aggregate_request match table_id out_port))))
      else if type = OFPST_PORT then bnd (rd16 body 0) (\<lambda>port_no. Ok (Port_request port_no (drop 2 body)))
      else if type = OFPST_VENDOR then bnd (rd32 body 0) (\<lambda>vendor_id. Ok (Vendor_request vendor_id (drop 4 body)))
      else Ok (Unconverted_request body))"

definition switch_handle_stats_request :: "bytes \<Rightarrow> switch_interface \<Rightarrow> switch_interface res" where
  "switch_handle_stats_request data s =
     assert_then (data \<noteq> [])
      (bnd (rd32 data 4) (\<lambda>transaction_id.
       bnd (rd16 data 8) (\<lambda>type.
       bnd (rd16 data 10) (\<lambda>flags.
       bnd (rd16 data 2) (\<lambda>len.
       let body_length = ucast len - 12 :: 64 word in
       bnd (if body_length > 0
            then if body_length > 0xffff then Fault Die
                 else bnd (rd_struct (unat body_length) data 12) (\<lambda>body.
                      bnd (stats_request_body_of type body) (\<lambda>b. Ok (Some b)))
            else Ok None) (\<lambda>body.
       case swh_stats_request (swi_handlers s) of
         None \<Rightarrow> Ok s
       | Some f \<Rightarrow> Ok (switch_upcall (Sw_stats_request f transaction_id type flags body
           (swh_stats_request_user_data (swi_handlers s))) s)))))))"

definition switch_handle_barrier_request :: "bytes \<Rightarrow> switch_interface \<Rightarrow> switch_interface res" where
  "switch_handle_barrier_request data s =
     assert_then (data \<noteq> [])
      (bnd (rd32 data 4) (\<lambda>transaction_id.
       case swh_barrier_request (swi_handlers s) of
         None \<Rightarrow> Ok s
       | Some f \<Rightarrow> Ok (switch_upcall (Sw_barrier_request f transaction_id (swh_barrier_request_user_data (swi_handlers s))) s)))"

definition switch_handle_queue_get_config_request :: "bytes \<Rightarrow> switch_interface \<Rightarrow> switch_interface res" where
  "switch_handle_queue_get_config_request data s =
     assert_then (data \<noteq> [])
      (bnd (rd32 data 4) (\<lambda>transaction_id.
       bnd (rd16 data 8) (\<lambda>port.
       case swh_queue_get_config_request (swi_handlers s) of
         None \<Rightarrow> Ok s
       | Some f \<Rightarrow> Ok (switch_upcall (Sw_queue_get_config_request f transaction_id port
           (swh_queue_get_config_request_user_data (swi_handlers s))) s))))"

definition handle_controller_connected :: "switch_interface \<Rightarrow> switch_interface" where
  "handle_controller_connected s =
     (case swh_controller_connected (swi_handlers s) of
        None \<Rightarrow> s
      | Some f \<Rightarrow> switch_upcall (Sw_controller_connected f (swh_controller_connected_user_data (swi_handlers s))) s)"

definition handle_controller_disconnected :: "switch_interface \<Rightarrow> switch_interface" where
  "handle_controller_disconnected s =
     (case swh_controller_disconnected (swi_handlers s) of
        None \<Rightarrow> s
      | Some f \<Rightarrow> switch_upcall (Sw_controller_disconnected f (swh_controller_disconnected_user_data (swi_handlers s))) s)"

definition call_controller_callback :: "controller_callback \<Rightarrow> switch_interface \<Rightarrow> switch_interface" where
  "call_controller_callback f =
     (case f of
        Handle_controller_connected \<Rightarrow> handle_controller_connected
      | Handle_controller_disconnected \<Rightarrow> handle_controller_disconnected)"

definition switch_dispatch :: "nat \<Rightarrow> 8 word \<Rightarrow> bytes \<Rightarrow> switch_interface \<Rightarrow> (bool \<times> switch_interface) res" where
  "switch_dispatch fuel type m s =
     (if type = OFPT_HELLO then bnd (switch_handle_hello m s) (\<lambda>s. Ok (True, s))
      else if type = OFPT_ERROR then bnd (switch_handle_error m s) (\<lambda>s. Ok (True, s))
      else if type = OFPT_ECHO_REQUEST then bnd (switch_handle_echo_request m s) (\<lambda>s. Ok (True, s))
      else if type = OFPT_ECHO_REPLY then bnd (switch_handle_echo_reply m s) (\<lambda>s. Ok (True, s))
      else if type = OFPT_VENDOR then bnd (switch_handle_vendor m s) (\<lambda>s. Ok (True, s))
      else if type = OFPT_FEATURES_REQUEST then bnd (switch_handle_features_request m s) (\<lambda>s. Ok (True, s))
      else if type = OFPT_GET_CONFIG_REQUEST then bnd (switch_handle_get_config_request m s) (\<lambda>s. Ok (True, s))
      else if type = OFPT_SET_CONFIG then bnd (switch_handle_set_config m s) (\<lambda>s. Ok (True, s))
      else if type = OFPT_PACKET_OUT then bnd (switch_handle_packet_out fuel m s) (\<lambda>s. Ok (True, s))
      else if type = OFPT_FLOW_MOD then bnd (switch_handle_flow_mod fuel m s) (\<lambda>s. Ok (True, s))
      else if type = OFPT_PORT_MOD then bnd (switch_handle_port_mod m s) (\<lambda>s. Ok (True, s))
      else if type = OFPT_STATS_REQUEST then bnd (switch_handle_stats_request m s) (\<lambda>s. Ok (True, s))
      else if type = OFPT_BARRIER_REQUEST then bnd (switch_handle_barrier_request m s) (\<lambda>s. Ok (True, s))
      else if type = OFPT_QUEUE_GET_CONFIG_REQUEST then bnd (switch_handle_queue_get_config_request m s) (\<lambda>s. Ok (True, s))
      else Ok (False, s))"

definition switch_handle_openflow_message :: "nat \<Rightarrow> bytes \<Rightarrow> switch_interface \<Rightarrow> (bool \<times> switch_interface) res" where
  "switch_handle_openflow_message fuel m s =
     assert_then (length m \<ge> 8)
      (bnd (validate_openflow_message fuel m) (\<lambda>ret.
       if ret < 0 then Ok (False, s)
       else bnd (rd8 m 1) (\<lambda>type. switch_dispatch fuel type m s)))"

section \<open>Answers\<close>

definition send_openflow_message_to_secure_channel ::
  "buffer \<Rightarrow> bytes option \<Rightarrow> switch_interface \<Rightarrow> (bool \<times> switch_interface) res" where
  "send_openflow_message_to_secure_channel message user_data s =
     assert_then (user_data = None) (send_message_to_secure_channel (buf_contents message) s)"

text \<open>\<open>datapath_id\<close>, the first field of the header, is not set.\<close>

definition send_openflow_message_to_local ::
  "bool \<Rightarrow> buffer \<Rightarrow> bytes option \<Rightarrow> switch_interface \<Rightarrow> (bool \<times> switch_interface) res" where
  "send_openflow_message_to_local accepts message user_data s =
     (case user_data of
        None \<Rightarrow> Fault Null_deref
      | Some service_name \<Rightarrow>
          let service_name_length = length service_name + 1 in
          bnd (append_front_buffer message (10 + service_name_length)) (\<lambda>b.
          bnd (store_buffer b (data_offset b + 8) (put16 (of_nat service_name_length) @ service_name @ [0])) (\<lambda>b.
          Ok (accepts, if accepts
                then s\<lparr>swi_sent := swi_sent s @ [(service_name, MESSENGER_OPENFLOW_MESSAGE, buf_contents b)]\<rparr> else s))))"

definition send_by_context ::
  "bool \<Rightarrow> buffer \<Rightarrow> openflow_context option \<Rightarrow> switch_interface \<Rightarrow> (bool \<times> switch_interface) res" where
  "send_by_context accepts message context s =
     (case context of
        Some c \<Rightarrow>
          (case octx_send_callback c of
             Send_openflow_message_to_secure_channel \<Rightarrow> send_openflow_message_to_secure_channel message (octx_user_data c) s
           | Send_openflow_message_to_local \<Rightarrow> send_openflow_message_to_local accepts message (octx_user_data c) s)
      | None \<Rightarrow> send_openflow_message_to_secure_channel message None s)"

definition switch_send_openflow_message :: "bool \<Rightarrow> buffer \<Rightarrow> switch_interface \<Rightarrow> (bool \<times> switch_interface) res" where
  "switch_send_openflow_message accepts message s =
     assert_then (length (buf_contents message) \<ge> 8)
      (bnd (rd32 (buf_contents message) 4) (\<lambda>transaction_id.
       bnd (lookup_context transaction_id s) (\<lambda>context. send_by_context accepts message context s)))"

definition handle_secure_channel_message :: "nat \<Rightarrow> int \<Rightarrow> bytes \<Rightarrow> switch_interface \<Rightarrow> (bool \<times> switch_interface) res" where
  "handle_secure_channel_message fuel now m s =
     assert_then (length m \<ge> 8)
      (bnd (rd32 m 4) (\<lambda>xid.
       bnd (save_context now xid m Send_openflow_message_to_secure_channel None s) (\<lambda>(_, s).
       switch_handle_openflow_message fuel m s)))"

definition handle_local_openflow_message ::
  "nat \<Rightarrow> int \<Rightarrow> bytes \<Rightarrow> bytes \<Rightarrow> switch_interface \<Rightarrow> switch_interface res" where
  "handle_local_openflow_message fuel now service_name m s =
     bnd (rd32 m 4) (\<lambda>xid.
     bnd (save_context now xid m Send_openflow_message_to_local (Some service_name) s) (\<lambda>(_, s).
     bnd (switch_handle_openflow_message fuel m s) (\<lambda>(_, s). Ok s)))"

text \<open>\<open>strndup\<close> ends at a null character.  A length that has wrapped around is more than can be allocated.\<close>

definition handle_local_message :: "nat \<Rightarrow> int \<Rightarrow> 16 word \<Rightarrow> bytes \<Rightarrow> switch_interface \<Rightarrow> switch_interface res" where
  "handle_local_message fuel now tag data s =
     assert_then (length data \<ge> 10)
      (if tag = MESSENGER_OPENFLOW_MESSAGE then
         bnd (rd16 data 8) (\<lambda>service_name_length.
         let ofp_offset = 10 + unat service_name_length in
         if length data < ofp_offset then Fault Die
         else if length data = ofp_offset then Fault Assertion
         else handle_local_openflow_message fuel now (cstring (take (unat service_name_length) (drop 10 data)))
                (drop ofp_offset data) s)
       else Ok s)"

text \<open>The buffer in which a constructor returns a message: all of its allocation is used.\<close>

definition exact_buffer :: "bytes \<Rightarrow> buffer" where
  "exact_buffer m = \<lparr>buf_top = Some m, data_offset = 0, buf_length = length m\<rparr>"

definition get_openflow_message :: "32 word \<Rightarrow> switch_interface \<Rightarrow> bytes option res" where
  "get_openflow_message transaction_id s =
     bnd (lookup_context transaction_id s) (\<lambda>context. Ok (map_option octx_message context))"

definition hello_failed_description :: "16 word \<Rightarrow> bytes option" where
  "hello_failed_description code =
     (if code = 0 then Some (map of_char ''Incompatible OpenFlow version.'' @ [0])
      else if code = 1 then Some (map of_char ''Permissions error.'' @ [0]) else None)"

text \<open>The codes that the source names for a type of error: 2, 9, 9, 6, 2 and 3 of them.\<close>

definition defined_error_code :: "16 word \<Rightarrow> 16 word \<Rightarrow> bool" where
  "defined_error_code type code \<longleftrightarrow>
     (if type = OFPET_HELLO_FAILED then code < 2
      else if type = OFPET_BAD_REQUEST then code < 9
      else if type = OFPET_BAD_ACTION then code < 9
      else if type = OFPET_FLOW_MOD_FAILED then code < 6
      else if type = OFPET_PORT_MOD_FAILED then code < 2
      else if type = OFPET_QUEUE_OP_FAILED then code < 3 else False)"

definition send_error_message ::
  "bool \<Rightarrow> 32 word \<Rightarrow> 16 word \<Rightarrow> 16 word \<Rightarrow> switch_interface \<Rightarrow> (bool \<times> switch_interface) res" where
  "send_error_message accepts transaction_id type code s =
     (let send = (\<lambda>data. bnd (create_error transaction_id type code data) (\<lambda>err.
                    switch_send_openflow_message accepts (exact_buffer err) s))
      in if type = OFPET_HELLO_FAILED then
           (case hello_failed_description code of None \<Rightarrow> Ok (False, s) | Some description \<Rightarrow> send (Some description))
         else if defined_error_code type code then
           bnd (get_openflow_message transaction_id s) (\<lambda>original_message. send (map_option (take 64) original_message))
         else Ok (False, s))"

section \<open>Life cycle\<close>

definition init_openflow_switch_interface ::
  "channel_os \<Rightarrow> bytes \<Rightarrow> 64 word \<Rightarrow> 32 word \<Rightarrow> 16 word \<Rightarrow> switch_interface \<Rightarrow> (bool \<times> switch_interface) res" where
  "init_openflow_switch_interface os chibach_name datapath_id controller_ip controller_port s =
     (if openflow_switch_interface_initialized s then Ok (False, s)
      else
        bnd (init_secure_channel os controller_ip controller_port (Some Handle_controller_connected)
               (Some Handle_controller_disconnected) s) (\<lambda>(ret, s).
        if \<not> ret then Ok (False, s)
        else
          bnd (init_context (s\<lparr>swi_handlers := no_switch_handlers,
                 swi_config := \<lparr>cfg_datapath_id = datapath_id, cfg_controller_ip = controller_ip,
                   cfg_controller_port = controller_port\<rparr>\<rparr>)) (\<lambda>s.
          bnd (add_periodic_event_callback (cos_clock os) 5 Age_contexts None (chn_timers s)) (\<lambda>(_, t).
          Ok (True, s\<lparr>chn_timers := t, swi_received_callbacks := swi_received_callbacks s @ [chibach_name],
                openflow_switch_interface_initialized := True\<rparr>)))))"

definition finalize_openflow_switch_interface :: "switch_interface \<Rightarrow> (bool \<times> switch_interface) res" where
  "finalize_openflow_switch_interface s =
     (if \<not> openflow_switch_interface_initialized s then Ok (False, s)
      else
        bnd (finalize_secure_channel s) (\<lambda>(_, s).
        bnd (finalize_context (s\<lparr>chn_timers := snd (delete_timer_event Age_contexts None (chn_timers s))\<rparr>)) (\<lambda>s.
        Ok (True, s\<lparr>openflow_switch_interface_initialized := False\<rparr>))))"

end
