(* ===== verification/Switch_Delivery.thy ===== *)
theory Switch_Delivery
  imports Switch_Interface Application_Delivery
begin

text \<open>
  What the interface of a switch does with a message: the contract of the message handlers as a locale,
  interpreted on the fourteen handlers of the source; the table of contexts as a map; and the events
  of the interface as a step relation, with what they keep of a context.
\<close>

section \<open>The contract of the message handlers\<close>

primrec switch_callee :: "switch_call \<Rightarrow> nat" where
  "switch_callee (Sw_controller_connected f user_data) = f"
| "switch_callee (Sw_controller_disconnected f user_data) = f"
| "switch_callee (Sw_hello f xid version user_data) = f"
| "switch_callee (Sw_error f xid type code body user_data) = f"
| "switch_callee (Sw_echo_request f xid body user_data) = f"
| "switch_callee (Sw_echo_reply f xid body user_data) = f"
| "switch_callee (Sw_vendor f xid vendor body user_data) = f"
| "switch_callee (Sw_features_request f xid user_data) = f"
| "switch_callee (Sw_get_config_request f xid user_data) = f"
| "switch_callee (Sw_set_config f xid flags len user_data) = f"
| "switch_callee (Sw_packet_out f xid buffer_id port actions frame user_data) = f"
| "switch_callee (Sw_flow_mod f xid match cookie command idle hard priority buffer_id port flags actions user_data) = f"
| "switch_callee (Sw_port_mod f xid port addr config msk advertise user_data) = f"
| "switch_callee (Sw_stats_request f xid type flags body user_data) = f"
| "switch_callee (Sw_barrier_request f xid user_data) = f"
| "switch_callee (Sw_queue_get_config_request f xid port user_data) = f"

definition switch_calls_at_most :: "nat option \<Rightarrow> switch_interface \<Rightarrow> switch_interface res \<Rightarrow> bool" where
  "switch_calls_at_most callback s r \<longleftrightarrow>
     (\<forall>s'. r = Ok s' \<longrightarrow>
       (case callback of None \<Rightarrow> s' = s | Some f \<Rightarrow> \<exists>c. switch_callee c = f \<and> s' = switch_upcall c s))"

lemma switch_calls_Fault [simp]: "switch_calls_at_most cb s (Fault e)"
  by (simp add: switch_calls_at_most_def)

lemma switch_calls_bnd [intro!]: "(\<And>x. switch_calls_at_most cb s (f x)) \<Longrightarrow> switch_calls_at_most cb s (bnd r f)"
  by (cases r) auto

lemma switch_calls_assert [intro!]: "switch_calls_at_most cb s r \<Longrightarrow> switch_calls_at_most cb s (assert_then P r)"
  by (simp add: assert_then_def)

lemma switch_calls_call [intro!]: "switch_callee c = f \<Longrightarrow> switch_calls_at_most (Some f) s (Ok (switch_upcall c s))"
  by (auto simp: switch_calls_at_most_def)

lemma switch_calls_none [intro!]: "switch_calls_at_most None s (Ok s)"
  by (simp add: switch_calls_at_most_def)

locale switch_handler =
  fixes handle :: "bytes \<Rightarrow> switch_interface \<Rightarrow> switch_interface res"
    and callback :: "switch_event_handlers \<Rightarrow> nat option"
  assumes calls: "switch_calls_at_most (callback (swi_handlers s)) s (handle data s)"
begin

lemma only_calls:
  assumes "bnd (handle data s) (\<lambda>s. Ok (True, s)) = Ok (r, s')"
  shows "r \<and> (s' = s \<or> (\<exists>c. s' = switch_upcall c s \<and> Some (switch_callee c) = callback (swi_handlers s)))"
  using assms calls [of s data] by (auto simp: bnd_eq_Ok switch_calls_at_most_def split: option.splits)

end

interpretation sh_hello: switch_handler switch_handle_hello swh_hello
  by unfold_locales (auto simp: switch_handle_hello_def split: option.split)

interpretation sh_error: switch_handler switch_handle_error swh_error
  by unfold_locales (auto simp: switch_handle_error_def split: option.split)

interpretation sh_echo_request: switch_handler switch_handle_echo_request swh_echo_request
  by unfold_locales (auto simp: switch_handle_echo_request_def split: option.split)

interpretation sh_echo_reply: switch_handler switch_handle_echo_reply swh_echo_reply
  by unfold_locales (auto simp: switch_handle_echo_reply_def split: option.split)

interpretation sh_vendor: switch_handler switch_handle_vendor swh_vendor
  by unfold_locales (auto simp: switch_handle_vendor_def split: option.split)

interpretation sh_features_request: switch_handler switch_handle_features_request swh_features_request
  by unfold_locales (auto simp: switch_handle_features_request_def split: option.split)

interpretation sh_get_config_request: switch_handler switch_handle_get_config_request swh_get_config_request
  by unfold_locales (auto simp: switch_handle_get_config_request_def split: option.split)

interpretation sh_set_config: switch_handler switch_handle_set_config swh_set_config
  by unfold_locales (auto simp: switch_handle_set_config_def split: option.split)

interpretation sh_packet_out: switch_handler "switch_handle_packet_out fuel" swh_packet_out for fuel
  by unfold_locales (auto simp: switch_handle_packet_out_def split: option.split)

interpretation sh_flow_mod: switch_handler "switch_handle_flow_mod fuel" swh_flow_mod for fuel
  by unfold_locales (auto simp: switch_handle_flow_mod_def split: option.split)

interpretation sh_port_mod: switch_handler switch_handle_port_mod swh_port_mod
  by unfold_locales (auto simp: switch_handle_port_mod_def split: option.split)

interpretation sh_stats_request: switch_handler switch_handle_stats_request swh_stats_request
  by unfold_locales (auto simp: switch_handle_stats_request_def Let_def split: option.split)

interpretation sh_barrier_request: switch_handler switch_handle_barrier_request swh_barrier_request
  by unfold_locales (auto simp: switch_handle_barrier_request_def split: option.split)

interpretation sh_queue_get_config_request: switch_handler switch_handle_queue_get_config_request swh_queue_get_config_request
  by unfold_locales (auto simp: switch_handle_queue_get_config_request_def split: option.split)

text \<open>Whatever a message is, its handling is at most one call of a handler.\<close>

lemma switch_dispatch_calls:
  assumes "switch_dispatch fuel type m s = Ok (r, s')"
  shows "s' = s \<or> (\<exists>c. s' = switch_upcall c s)"
  using assms unfolding switch_dispatch_def
  by (auto split: if_splits dest!: sh_hello.only_calls sh_error.only_calls sh_echo_request.only_calls sh_echo_reply.only_calls
      sh_vendor.only_calls sh_features_request.only_calls sh_get_config_request.only_calls sh_set_config.only_calls
      sh_packet_out.only_calls sh_flow_mod.only_calls sh_port_mod.only_calls sh_stats_request.only_calls
      sh_barrier_request.only_calls sh_queue_get_config_request.only_calls)

lemma switch_handle_openflow_message_calls:
  assumes "switch_handle_openflow_message fuel m s = Ok (r, s')"
  shows "s' = s \<or> (\<exists>c. s' = switch_upcall c s)"
  using assms unfolding switch_handle_openflow_message_def assert_then_def
  by (auto simp: bnd_eq_Ok dest: switch_dispatch_calls split: if_splits)

section \<open>The table of contexts\<close>

interpretation context_keys: hash_keys compare_context hash_context "\<lambda>_. True"
  by unfold_locales (auto simp: compare_context_def)

definition context_of :: "switch_interface \<Rightarrow> 32 word \<Rightarrow> openflow_context option" where
  "context_of s xid = (case swi_contexts s of None \<Rightarrow> None | Some t \<Rightarrow> lookup_hash_entry t xid)"

definition contexts_inv :: "switch_interface \<Rightarrow> bool" where
  "contexts_inv s \<longleftrightarrow> (\<exists>t. swi_contexts s = Some t \<and> hash_inv compare_context hash_context (\<lambda>_. True) t \<and>
     (\<forall>x c. lookup_hash_entry t x = Some c \<longrightarrow> octx_transaction_id c = x))"

lemma contexts_cong: "swi_contexts s' = swi_contexts s \<Longrightarrow> contexts_inv s' = contexts_inv s \<and> context_of s' = context_of s"
  by (simp add: contexts_inv_def context_of_def fun_eq_iff)

lemma lookup_context_ok: "contexts_inv s \<Longrightarrow> lookup_context xid s = Ok (context_of s xid)"
  by (auto simp: contexts_inv_def lookup_context_def context_of_def)

lemma save_context_ok:
  assumes "contexts_inv s"
  obtains s' where "save_context now xid m cb ud s = Ok (context_of s xid = None, s')" "contexts_inv s'"
    "context_of s' = (if context_of s xid = None then (context_of s)(xid \<mapsto>
       \<lparr>octx_transaction_id = xid, octx_message = m, octx_send_callback = cb, octx_user_data = ud, octx_created_at = now\<rparr>)
     else context_of s)" "s' = s\<lparr>swi_contexts := swi_contexts s'\<rparr>"
proof -
  obtain t where t: "swi_contexts s = Some t" "hash_inv compare_context hash_context (\<lambda>_. True) t"
    "\<forall>x c. lookup_hash_entry t x = Some c \<longrightarrow> octx_transaction_id c = x" using assms by (auto simp: contexts_inv_def)
  show thesis
  proof (cases "lookup_hash_entry t xid")
    case None
    let ?c = "\<lparr>octx_transaction_id = xid, octx_message = m, octx_send_callback = cb, octx_user_data = ud, octx_created_at = now\<rparr>"
    let ?t = "fst (insert_hash_entry t xid ?c)"
    have l: "lookup_hash_entry ?t = (lookup_hash_entry t)(xid \<mapsto> ?c)"
      using context_keys.lookup_insert [OF t(2), of xid ?c] by (auto simp: fun_eq_iff compare_context_def)
    show thesis
      using that [of "s\<lparr>swi_contexts := Some ?t\<rparr>"] None t context_keys.insert_tbl [OF t(2), of xid ?c] l
      by (auto simp: save_context_def contexts_inv_def context_of_def fun_eq_iff)
  next
    case (Some c)
    then show thesis using that [of s] t assms by (auto simp: save_context_def context_of_def)
  qed
qed

definition context_alive :: "int \<Rightarrow> openflow_context option \<Rightarrow> openflow_context option" where
  "context_alive now c = (case c of None \<Rightarrow> None | Some c \<Rightarrow> if octx_created_at c + CONTEXT_LIFETIME \<le> now then None else Some c)"

lemma age_contexts_loop_ok:
  assumes "it_ok it" and "length (it_remaining it) < fuel" and "hash_inv compare_context hash_context (\<lambda>_. True) t"
    and "keys_apart compare_context (it_remaining it)"
    and "\<forall>(k, c) \<in> set (it_remaining it). lookup_hash_entry t k = Some c \<and> octx_transaction_id c = k"
  shows "\<exists>t'. age_contexts_loop fuel now it t = Ok t' \<and> hash_inv compare_context hash_context (\<lambda>_. True) t' \<and>
    lookup_hash_entry t' = (\<lambda>x. if x \<in> fst ` set (it_remaining it) then context_alive now (lookup_hash_entry t x) else lookup_hash_entry t x)"
  using assms
proof (induction fuel arbitrary: it t)
  case (Suc fuel)
  obtain it' where it': "it_ok it'" "it_remaining it' = tl (it_remaining it)"
    "iterate_hash_next it = Ok (case it_remaining it of [] \<Rightarrow> None | e # _ \<Rightarrow> Some e, it')"
    using iterate_hash_next_eq [OF Suc.prems(1)] by blast
  show ?case
  proof (cases "it_remaining it")
    case Nil
    then show ?thesis using it' Suc.prems by auto
  next
    case (Cons e es)
    obtain k c where e: "e = (k, c)" by (cases e)
    define t1 where "t1 = (if octx_created_at c + CONTEXT_LIFETIME \<le> now then delete_switch_context k t else t)"
    have kc: "lookup_hash_entry t k = Some c" "octx_transaction_id c = k" using Suc.prems(5) Cons e by auto
    have t1: "hash_inv compare_context hash_context (\<lambda>_. True) t1"
      using Suc.prems(3) context_keys.delete_tbl [OF Suc.prems(3), of k] by (simp add: t1_def delete_switch_context_def)
    have l1: "lookup_hash_entry t1 = (\<lambda>x. if x = k then context_alive now (lookup_hash_entry t x) else lookup_hash_entry t x)"
      using context_keys.lookup_delete [OF Suc.prems(3), of k] kc
      by (auto simp: fun_eq_iff t1_def delete_switch_context_def compare_context_def context_alive_def)
    have apart: "keys_apart compare_context es" "k \<notin> fst ` set es"
      using Suc.prems(4) Cons e by (simp, force simp: find_entry_None compare_context_def)
    have "lookup_hash_entry t1 a = Some b \<and> octx_transaction_id b = a" if "(a, b) \<in> set es" for a b
    proof -
      have "a \<noteq> k" using that apart(2) by force
      then show ?thesis using that Suc.prems(5) Cons unfolding l1 by auto
    qed
    then have "\<forall>(k, c) \<in> set es. lookup_hash_entry t1 k = Some c \<and> octx_transaction_id c = k" by blast
    then obtain t' where t': "age_contexts_loop fuel now it' t1 = Ok t'" "hash_inv compare_context hash_context (\<lambda>_. True) t'"
      "lookup_hash_entry t' = (\<lambda>x. if x \<in> fst ` set es then context_alive now (lookup_hash_entry t1 x) else lookup_hash_entry t1 x)"
      using Suc.IH [OF it'(1) _ t1] Suc.prems(2) it'(2) Cons apart(1) by auto
    have "age_contexts_loop (Suc fuel) now it t = age_contexts_loop fuel now it' t1"
      using it'(3) Cons e kc(2) by (simp add: t1_def)
    moreover have "lookup_hash_entry t' =
        (\<lambda>x. if x \<in> fst ` set (it_remaining it) then context_alive now (lookup_hash_entry t x) else lookup_hash_entry t x)"
      unfolding t'(3) l1 using Cons e apart(2) by (auto simp: fun_eq_iff)
    ultimately show ?thesis using t'(1,2) by auto
  qed
qed simp

definition context_count :: "switch_interface \<Rightarrow> nat" where
  "context_count s = (case swi_contexts s of None \<Rightarrow> 0 | Some t \<Rightarrow> length (hash_entries t))"

lemma age_contexts_ok:
  assumes "contexts_inv s" and "context_count s < fuel"
  obtains s' where "age_contexts fuel now it s = Ok s'" "contexts_inv s'" "context_of s' = (\<lambda>x. context_alive now (context_of s x))"
    "s' = s\<lparr>swi_contexts := swi_contexts s'\<rparr>"
proof -
  obtain t where t: "swi_contexts s = Some t" "hash_inv compare_context hash_context (\<lambda>_. True) t"
    "\<forall>x c. lookup_hash_entry t x = Some c \<longrightarrow> octx_transaction_id c = x" using assms(1) by (auto simp: contexts_inv_def)
  obtain it' where it': "init_hash_iterator t it = Ok it'" "it_ok it'" "it_remaining it' = hash_entries t"
    using context_keys.iterator_start [OF t(2)] by blast
  have e: "lookup_hash_entry t x = Some c \<longleftrightarrow> (x, c) \<in> set (hash_entries t)" for x c
    using context_keys.entries_lookup [OF t(2)] by (auto simp: compare_context_def)
  have "\<forall>(k, c) \<in> set (it_remaining it'). lookup_hash_entry t k = Some c \<and> octx_transaction_id c = k"
    using e t(3) it'(3) by fastforce
  then obtain t' where t': "age_contexts_loop fuel now it' t = Ok t'" "hash_inv compare_context hash_context (\<lambda>_. True) t'"
    "lookup_hash_entry t' = (\<lambda>x. if x \<in> fst ` set (hash_entries t) then context_alive now (lookup_hash_entry t x) else lookup_hash_entry t x)"
    using age_contexts_loop_ok [OF it'(2) _ t(2), of fuel now] context_keys.entries_apart [OF t(2)] assms(2) t(1) it'(3)
    by (auto simp: context_count_def)
  have l: "lookup_hash_entry t' = (\<lambda>x. context_alive now (lookup_hash_entry t x))"
  proof
    fix x
    show "lookup_hash_entry t' x = context_alive now (lookup_hash_entry t x)"
      using e t'(3) by (cases "lookup_hash_entry t x") (force simp: context_alive_def)+
  qed
  have k: "\<forall>x c. lookup_hash_entry t' x = Some c \<longrightarrow> octx_transaction_id c = x"
    using t(3) l by (auto simp: context_alive_def split: option.splits if_splits)
  have o: "context_of s = lookup_hash_entry t" "context_of (s\<lparr>swi_contexts := Some t'\<rparr>) = lookup_hash_entry t'"
    using t(1) by (simp_all add: context_of_def fun_eq_iff)
  show thesis using that [of "s\<lparr>swi_contexts := Some t'\<rparr>"] t(1) t'(1,2) it'(1) k unfolding o l
    by (auto simp: age_contexts_def contexts_inv_def l)
qed

section \<open>Events\<close>

text \<open>
  What can happen to the interface, with contexts aged at times before the limit: a message from the
  controller or from a local service, an answer of the switch, and bytes that go to the controller.
\<close>

inductive switch_step :: "int \<Rightarrow> switch_interface \<Rightarrow> switch_interface \<Rightarrow> bool" for limit :: int where
  from_controller: "handle_secure_channel_message fuel now m s = Ok (r, s') \<Longrightarrow> switch_step limit s s'"
| from_local: "handle_local_message fuel now tag data s = Ok s' \<Longrightarrow> switch_step limit s s'"
| answer: "switch_send_openflow_message accepts b s = Ok (r, s') \<Longrightarrow> switch_step limit s s'"
| to_controller: "flush_send_queue ws s = Ok s' \<Longrightarrow> switch_step limit s s'"
| aging: "age_contexts fuel now it s = Ok s' \<Longrightarrow> context_count s < fuel \<Longrightarrow> now < limit \<Longrightarrow> switch_step limit s s'"

lemma switch_upcall_contexts [simp]: "swi_contexts (switch_upcall c s) = swi_contexts s"
  by (simp add: switch_upcall_def)

lemma handle_message_contexts:
  "switch_handle_openflow_message fuel m s = Ok (r, s') \<Longrightarrow> swi_contexts s' = swi_contexts s"
  by (auto dest: switch_handle_openflow_message_calls)

lemma send_message_to_secure_channel_contexts:
  "send_message_to_secure_channel m s = Ok (r, s') \<Longrightarrow> swi_contexts s' = swi_contexts s"
  for s :: switch_interface
  by (auto simp: send_message_to_secure_channel_def assert_then_def Let_def split: option.splits if_splits)

lemma send_to_local_contexts:
  "send_openflow_message_to_local accepts b ud s = Ok (r, s') \<Longrightarrow> swi_contexts s' = swi_contexts s"
  by (auto simp: send_openflow_message_to_local_def Let_def bnd_eq_Ok split: option.splits if_splits)

lemma switch_send_contexts:
  assumes "switch_send_openflow_message accepts b s = Ok (r, s')"
  shows "swi_contexts s' = swi_contexts s"
proof -
  have c: "send_openflow_message_to_secure_channel b ud s = Ok (r, s') \<Longrightarrow> swi_contexts s' = swi_contexts s" for ud
    by (auto simp: send_openflow_message_to_secure_channel_def assert_then_def dest: send_message_to_secure_channel_contexts
        split: if_splits)
  obtain ctx where "send_by_context accepts b ctx s = Ok (r, s')"
    using assms by (auto simp: switch_send_openflow_message_def assert_then_def bnd_eq_Ok split: if_splits)
  then show ?thesis using c send_to_local_contexts
    by (auto simp: send_by_context_def split: option.splits message_send_handler.splits)
qed

lemma flush_loop_contexts: "flush_loop ws q s = Ok s' \<Longrightarrow> swi_contexts s' = swi_contexts s" for s :: switch_interface
proof (induction ws arbitrary: q s)
  case Nil
  then show ?case by (subst (asm) flush_loop.simps) (auto split: option.splits)
next
  case (Cons w ws)
  show ?case using Cons.prems
    by (subst (asm) flush_loop.simps)
      (auto simp: assert_then_def Let_def split: option.splits if_splits writev_result.splits dest: Cons.IH)
qed

lemma flush_contexts: "flush_send_queue ws s = Ok s' \<Longrightarrow> swi_contexts s' = swi_contexts s" for s :: switch_interface
  by (auto simp: flush_send_queue_def assert_then_def split: option.splits if_splits dest: flush_loop_contexts)

lemma save_keeps_context:
  assumes "save_context now x m cb ud s = Ok (r, s1)" and "contexts_inv s" and "context_of s xid = Some c"
  shows "contexts_inv s1 \<and> context_of s1 xid = Some c"
proof (rule save_context_ok [OF assms(2), of now x m cb ud])
  fix s' assume s': "save_context now x m cb ud s = Ok (context_of s x = None, s')" "contexts_inv s'"
    "context_of s' = (if context_of s x = None then (context_of s)(x \<mapsto>
       \<lparr>octx_transaction_id = x, octx_message = m, octx_send_callback = cb, octx_user_data = ud, octx_created_at = now\<rparr>)
     else context_of s)"
  then have "s1 = s'" using assms(1) by simp
  then show ?thesis using s'(2,3) assms(3) by (auto split: if_splits)
qed

lemma handle_local_message_cases:
  assumes "handle_local_message fuel now MESSENGER_OPENFLOW_MESSAGE data s = Ok s'"
  shows "\<exists>name m. handle_local_openflow_message fuel now name m s = Ok s'"
proof -
  have l: "10 \<le> length data" using assms by (cases "10 \<le> length data") (simp_all add: handle_local_message_def assert_then_def)
  obtain w where w: "rd16 data 8 = Ok w" using l by simp
  let ?r = "handle_local_openflow_message fuel now (cstring (take (unat w) (drop 10 data))) (drop (10 + unat w) data) s"
  have "(if length data < 10 + unat w then Fault Die else if length data = 10 + unat w then Fault Assertion else ?r) = Ok s'"
    using assms l w unfolding handle_local_message_def assert_then_def Let_def by (simp only: if_True bnd.simps simp_thms)
  then have "?r = Ok s'" by (cases "length data < 10 + unat w"; cases "length data = 10 + unat w") simp_all
  then show ?thesis by blast
qed

lemma switch_step_context:
  assumes "switch_step limit s s'" and "contexts_inv s" and "context_of s xid = Some c" and "limit \<le> octx_created_at c + 5"
  shows "contexts_inv s' \<and> context_of s' xid = Some c"
  using assms(1)
proof cases
  case (from_controller fuel now m r)
  then obtain x s1 r1 where s1: "save_context now x m Send_openflow_message_to_secure_channel None s = Ok (r1, s1)"
    "switch_handle_openflow_message fuel m s1 = Ok (r, s')"
    by (auto simp: handle_secure_channel_message_def assert_then_def bnd_eq_Ok split: if_splits)
  show ?thesis using save_keeps_context [OF s1(1) assms(2,3)] contexts_cong [OF handle_message_contexts [OF s1(2)]] by simp
next
  case (from_local fuel now tag data)
  show ?thesis
  proof (cases "tag = MESSENGER_OPENFLOW_MESSAGE")
    case True
    obtain name m where "handle_local_openflow_message fuel now name m s = Ok s'"
      using handle_local_message_cases from_local True by blast
    then obtain x s1 r1 r where s1: "save_context now x m Send_openflow_message_to_local (Some name) s = Ok (r1, s1)"
      "switch_handle_openflow_message fuel m s1 = Ok (r, s')"
      by (auto simp: handle_local_openflow_message_def bnd_eq_Ok)
    show ?thesis using save_keeps_context [OF s1(1) assms(2,3)] contexts_cong [OF handle_message_contexts [OF s1(2)]] by simp
  qed (use from_local assms(2,3) in \<open>auto simp: handle_local_message_def assert_then_def split: if_splits\<close>)
next
  case (answer accepts b r)
  then show ?thesis using contexts_cong [OF switch_send_contexts] assms(2,3) by metis
next
  case (to_controller ws)
  then show ?thesis using contexts_cong [OF flush_contexts] assms(2,3) by metis
next
  case (aging fuel now it)
  obtain s1 where "age_contexts fuel now it s = Ok s1" "contexts_inv s1" "context_of s1 = (\<lambda>x. context_alive now (context_of s x))"
    by (rule age_contexts_ok [OF assms(2) aging(2)]) auto
  then show ?thesis using aging assms(3,4) by (auto simp: context_alive_def CONTEXT_LIFETIME_def)
qed

lemma switch_steps_context:
  assumes "(switch_step limit)\<^sup>*\<^sup>* s s'" and "contexts_inv s" and "context_of s xid = Some c" and "limit \<le> octx_created_at c + 5"
  shows "contexts_inv s' \<and> context_of s' xid = Some c"
  using assms(1) by (induction rule: rtranclp_induct) (use assms(2-4) switch_step_context in blast)+

section \<open>Where an answer goes\<close>

lemma buf_contents_patch:
  assumes "buf_inv b" and "i + length bs \<le> buf_length b"
  shows "buf_contents (b\<lparr>buf_top := Some (patch (data_offset b + i) bs (mem b))\<rparr>) = patch i bs (buf_contents b)"
proof -
  define pre x post where "pre = take (data_offset b) (mem b)" and "x = buf_contents b"
    and "post = drop (data_offset b + buf_length b) (mem b)"
  have l: "data_offset b + buf_length b \<le> length (mem b)" using assms(1) by (simp add: buf_inv_def real_length_def)
  have m: "mem b = pre @ x @ post"
    unfolding pre_def x_def post_def buf_contents_def by (metis add.commute append_assoc append_take_drop_id take_add)
  have n: "length pre = data_offset b" "length x = buf_length b"
    using l by (simp_all add: pre_def x_def length_buf_contents [OF assms(1)])
  show ?thesis using assms(2) n unfolding x_def [symmetric]
    by (simp add: buf_contents_def m patch_def)
qed

lemma send_to_local_ok:
  assumes "buf_inv b" and "length name < 65535"
  shows "\<exists>c. send_openflow_message_to_local True b (Some name) s =
    Ok (True, s\<lparr>swi_sent := swi_sent s @ [(name, MESSENGER_OPENFLOW_MESSAGE,
      replicate 8 c @ put16 (of_nat (length name + 1)) @ name @ [0] @ buf_contents b)]\<rparr>)"
proof -
  let ?n = "10 + (length name + 1)" and ?h = "put16 (of_nat (length name + 1)) @ name @ [0]"
  obtain b1 c where b1: "append_front_buffer b ?n = Ok b1" "buf_inv b1" "buf_contents b1 = replicate ?n c @ buf_contents b"
    using append_front_contents [OF assms(1), of ?n] by auto
  have len: "buf_length b1 = ?n + length (buf_contents b)" using length_buf_contents [OF b1(2)] b1(3) by simp
  then have fits: "data_offset b1 + 8 + length ?h \<le> length (mem b1)" using b1(2) by (simp add: buf_inv_def real_length_def)
  let ?b = "b1\<lparr>buf_top := Some (patch (data_offset b1 + 8) ?h (mem b1))\<rparr>"
  have "buf_contents ?b = patch 8 ?h (buf_contents b1)" using len by (intro buf_contents_patch [OF b1(2)]) simp
  also have "\<dots> = replicate 8 c @ ?h @ buf_contents b"
    unfolding b1(3) by (simp add: patch_def numeral_eq_Suc)
  finally show ?thesis using b1(1) fits
    by (intro exI [of _ c]) (simp add: send_openflow_message_to_local_def Let_def store_buffer_def wr_def)
qed

lemma send_to_channel_ok:
  fixes s :: switch_interface
  assumes "chn_send_queue s = Some q" and "chn_state s = CONNECTED" and "chn_fd s \<ge> 0" and "m \<noteq> []" and "mq_inv q"
  shows "\<exists>s' q'. send_message_to_secure_channel m s = Ok (True, s') \<and> chn_send_queue s' = Some q' \<and> mq_list q' = mq_list q @ [m] \<and>
    swi_sent s' = swi_sent s \<and> swi_calls s' = swi_calls s"
  using assms mq_enqueue [OF assms(5), of m]
  by (auto simp: send_message_to_secure_channel_def assert_then_def Let_def)

section \<open>What a handler is called with\<close>

lemma unat_ucast_16_64: "unat (ucast (w :: 16 word) :: 64 word) = unat w"
proof -
  have "unat w < 2 ^ 64" using unsigned_less [of w, where ?'a = nat] by simp
  then show ?thesis by (simp add: unsigned_ucast_eq take_bit_eq_mod)
qed

lemma read_actions_created:
  assumes "\<forall>a \<in> set as. action_wf a" and "unat n = actions_size as" and "length as < fuel" and "length pre = off"
  shows "read_actions fuel (pre @ enc_actions as @ post) off n = Ok as"
  using assms
proof (induction as arbitrary: n off fuel pre)
  case Nil
  then have "n = 0" by (simp add: unat_eq_zero)
  then show ?case using Nil by (cases fuel) auto
next
  case (Cons a as)
  then obtain f where f: "fuel = Suc f" "length as < f" by (cases fuel) auto
  from Cons.prems have a: "action_wf a" by simp
  then have len: "unat (action_len a) = action_size a" by (simp add: action_wf_def)
  have u: "unat (ucast (action_len a) :: 64 word) = action_size a"
    using len by (simp add: unat_ucast_16_64)
  then have n: "unat (n - ucast (action_len a)) = actions_size as" using Cons.prems(2) by (simp add: unat_minus_word)
  have "n \<noteq> 0" using Cons.prems(2) action_size_ge [of a] by auto
  have "read_actions f ((pre @ enc_action a) @ enc_actions as @ post) (off + action_size a) (n - ucast (action_len a)) = Ok as"
    using Cons.prems n f a len by (intro Cons.IH) (auto simp: hton_action_wf)
  moreover have "ntoh_action (pre @ enc_action a @ enc_actions as @ post) off = Ok a"
    using a Cons.prems by (intro ntoh_hton_action) auto
  ultimately show ?case using f len a \<open>n \<noteq> 0\<close> Cons.prems(4)
    by (simp add: Let_def hton_action_wf word_gt_0)
qed

definition actions_argument :: "ofp_action list \<Rightarrow> ofp_action list option" where
  "actions_argument as = (if as = [] then None else Some as)"

lemma actions_size_zero: "actions_size as = 0 \<longleftrightarrow> as = []"
  using action_size_ge [of "hd as"] by (cases as) auto

lemma read_optional_actions_created:
  assumes "\<forall>a \<in> set as. action_wf a" and "unat n = actions_size as" and "length as < fuel" and "length pre = off"
  shows "read_optional_actions fuel (pre @ enc_actions as @ post) off n = Ok (actions_argument as)"
proof -
  have "n > 0 \<longleftrightarrow> as \<noteq> []" using assms(2) actions_size_zero [of as] by (auto simp: word_gt_0 unat_eq_zero)
  then show ?thesis using read_actions_created [OF assms, of post] by (simp add: read_optional_actions_def actions_argument_def)
qed

lemma unat_ucast_minus:
  assumes "unat (len :: 16 word) = k + n" and "k < 65536"
  shows "unat (ucast len - of_nat k :: 64 word) = n"
proof -
  have "unat (ucast len :: 64 word) = k + n" using assms(1) by (simp add: unat_ucast_16_64)
  moreover have "unat (of_nat k :: 64 word) = k" using assms(2) by (simp add: unat_of_nat take_bit_eq_mod)
  ultimately show ?thesis by (simp add: unat_minus_word)
qed

lemma handle_created_flow_mod:
  assumes "\<forall>a \<in> set as. action_wf a" and "72 + actions_size as < 65536" and "length as < fuel"
    and "swh_flow_mod (swi_handlers s) = Some f"
  shows "switch_handle_flow_mod fuel (header_bytes OFPT_FLOW_MOD (72 + of_nat (actions_size as)) xid @
         hton_match match @ put64 cookie @ put16 command @ put16 idle @ put16 hard @ put16 priority @
         put32 buffer_id @ put16 out_port @ put16 flags @ enc_actions as) s =
     Ok (switch_upcall (Sw_flow_mod f xid (match\<lparr>pad1 := 0, pad2 := 0\<rparr>) cookie command idle hard priority buffer_id out_port flags
       (actions_argument as) (swh_flow_mod_user_data (swi_handlers s))) s)"
    (is "switch_handle_flow_mod fuel ?m s = _")
proof -
  let ?len = "72 + of_nat (actions_size as) :: 16 word"
  let ?pre = "header_bytes OFPT_FLOW_MOD ?len xid @ hton_match match @ put64 cookie @ put16 command @ put16 idle @ put16 hard @
    put16 priority @ put32 buffer_id @ put16 out_port @ put16 flags"
  have len: "unat ?len = 72 + actions_size as" using assms(2) by (simp add: unat_plus16 unat_of_nat16)
  have ne: "?m \<noteq> []" by (simp add: header_bytes_def)
  have match: "ntoh_match ?m 8 = Ok (match\<lparr>pad1 := 0, pad2 := 0\<rparr>)" by (intro ntoh_hton_match) simp
  have f: "rd64 ?m 48 = Ok cookie" "rd16 ?m 56 = Ok command" "rd16 ?m 58 = Ok idle" "rd16 ?m 60 = Ok hard" "rd16 ?m 62 = Ok priority"
    "rd32 ?m 64 = Ok buffer_id" "rd16 ?m 68 = Ok out_port" "rd16 ?m 70 = Ok flags"
    by (simp_all add: rd_after_header be_get_put)
  have "read_optional_actions fuel (?pre @ enc_actions as @ []) 72 (ucast ?len - of_nat 72) = Ok (actions_argument as)"
    using assms unat_ucast_minus [OF len] by (intro read_optional_actions_created) auto
  then have a: "read_optional_actions fuel ?m 72 (ucast ?len - 72) = Ok (actions_argument as)" by simp
  show ?thesis unfolding switch_handle_flow_mod_def header_fields match f bnd.simps a assms(4) option.case
    using ne by (simp add: assert_then_def)
qed

lemma handle_created_packet_out:
  assumes "\<forall>a \<in> set as. action_wf a" and "16 + actions_size as + length d < 65536" and "length as < fuel"
    and "swh_packet_out (swi_handlers s) = Some f"
  shows "switch_handle_packet_out fuel (header_bytes OFPT_PACKET_OUT
           (16 + of_nat (actions_size as) + of_nat (length d)) xid @ put32 buffer_id @ put16 port @
           put16 (of_nat (actions_size as)) @ enc_actions as @ d) s =
     Ok (switch_upcall (Sw_packet_out f xid buffer_id port (actions_argument as) (if d = [] then None else Some d)
       (swh_packet_out_user_data (swi_handlers s))) s)"
    (is "switch_handle_packet_out fuel ?m s = _")
proof -
  let ?n = "of_nat (actions_size as) :: 16 word"
  let ?len = "16 + ?n + of_nat (length d) :: 16 word"
  let ?pre = "header_bytes OFPT_PACKET_OUT ?len xid @ put32 buffer_id @ put16 port @ put16 ?n"
  have len: "unat ?len = 16 + actions_size as + length d" using assms(2) by (simp add: unat_plus16 unat_of_nat16)
  have n: "unat ?n = actions_size as" using assms(2) by (simp add: unat_of_nat16)
  have ne: "?m \<noteq> []" by (simp add: header_bytes_def)
  have f: "rd32 ?m 8 = Ok buffer_id" "rd16 ?m 12 = Ok port" "rd16 ?m 14 = Ok ?n"
    by (simp_all add: rd_after_header be_get_put)
  have "read_optional_actions fuel (?pre @ enc_actions as @ d) 16 (ucast ?n) = Ok (actions_argument as)"
    using assms n by (intro read_optional_actions_created) (auto simp: unat_ucast_16_64)
  then have a: "read_optional_actions fuel ?m 16 (ucast ?n) = Ok (actions_argument as)" by simp
  have "unat (ucast ?len - of_nat 16 :: 64 word) = actions_size as + length d"
    using unat_ucast_minus [of ?len 16] len by simp
  then have fl: "unat (ucast ?len - 16 - ucast ?n :: 64 word) = length d"
    using n by (simp add: unat_minus_word unat_ucast_16_64)
  have "(ucast ?len - 16 - ucast ?n :: 64 word) > 0 \<longleftrightarrow> d \<noteq> []" "\<not> (ucast ?len - 16 - ucast ?n :: 64 word) > 0xffff"
    using fl assms(2) by (auto simp: word_less_nat_alt)
  then have p: "packet_out_frame ?m ?len ?n = Ok (if d = [] then None else Some d)"
    using fl n assms(1) by (simp add: packet_out_frame_def length_enc_actions Let_def)
  show ?thesis unfolding switch_handle_packet_out_def header_fields f bnd.simps a p assms(4) option.case
    using ne by (simp add: assert_then_def)
qed

lemma save_context_fields:
  assumes "contexts_inv s"
  obtains r s' where "save_context now xid m cb ud s = Ok (r, s')" "contexts_inv s'" "swi_calls s' = swi_calls s"
    "swi_handlers s' = swi_handlers s"
  by (rule save_context_ok [OF assms, of now xid m cb ud]) (metis (no_types, lifting) switch_interface.surjective switch_interface.update_convs(4) switch_interface.select_convs(2,5))

lemma handle_created:
  assumes inv: "contexts_inv s" and valid: "validate_openflow_message fuel (header_bytes type len xid @ rest) = Ok 0"
    and handled: "\<And>s'. swi_handlers s' = swi_handlers s \<Longrightarrow>
      switch_dispatch fuel type (header_bytes type len xid @ rest) s' = Ok (True, switch_upcall c s')"
  shows "\<exists>s'. handle_secure_channel_message fuel now (header_bytes type len xid @ rest) s = Ok (True, s') \<and>
    swi_calls s' = swi_calls s @ [c] \<and> contexts_inv s'"
proof (rule save_context_fields [OF inv, of now xid "header_bytes type len xid @ rest" Send_openflow_message_to_secure_channel None])
  fix r s'
  let ?m = "header_bytes type len xid @ rest"
  assume s': "save_context now xid ?m Send_openflow_message_to_secure_channel None s = Ok (r, s')" "contexts_inv s'"
    "swi_calls s' = swi_calls s" "swi_handlers s' = swi_handlers s"
  have "handle_secure_channel_message fuel now ?m s = Ok (True, switch_upcall c s')"
    using s'(1) valid handled [OF s'(4)] unfolding handle_secure_channel_message_def switch_handle_openflow_message_def header_fields
    by (simp add: assert_then_def)
  then show ?thesis using s'(2,3) contexts_cong [of "switch_upcall c s'" s'] by (auto simp: switch_upcall_def)
qed

end
