(* ===== verification/Message_Buffer.thy ===== *)
theory Message_Buffer
  imports Trema_Prelude
begin

text \<open>
  The buffers of the messenger (\<open>src/lib/messenger.c\<close>): the bytes that wait in a queue, the frames they
  are made of, and how frames are taken out of a buffer on the two sides of a connection.

  The memory of a buffer is a function from positions to bytes; an access at or beyond \<open>mb_size\<close> is
  \<open>Fault Out_of_bounds\<close>.
\<close>

section \<open>Memory\<close>

definition mem_write :: "nat \<Rightarrow> bytes \<Rightarrow> (nat \<Rightarrow> byte) \<Rightarrow> nat \<Rightarrow> byte" where
  "mem_write i bs m k = (if i \<le> k \<and> k < i + length bs then bs ! (k - i) else m k)"

definition mem_read :: "(nat \<Rightarrow> byte) \<Rightarrow> nat \<Rightarrow> nat \<Rightarrow> bytes" where
  "mem_read m i n = map m [i..<i + n]"

lemma length_mem_read [simp]: "length (mem_read m i n) = n"
  by (simp add: mem_read_def)

lemma nth_mem_read [simp]: "k < n \<Longrightarrow> mem_read m i n ! k = m (i + k)"
  by (simp add: mem_read_def)

lemma mem_read_take: "n \<le> k \<Longrightarrow> mem_read m i n = take n (mem_read m i k)"
  by (rule nth_equalityI) auto

lemma mem_read_drop: "mem_read m (i + j) n = drop j (mem_read m i (j + n))"
  by (rule nth_equalityI) (auto simp: add.assoc)

lemma mem_read_write_same [simp]: "mem_read (mem_write i bs m) i (length bs) = bs"
  by (rule nth_equalityI) (auto simp: mem_write_def)

lemma mem_read_write_append:
  "mem_read (mem_write (i + n) bs m) i (n + length bs) = mem_read m i n @ bs"
  by (rule nth_equalityI) (auto simp: mem_write_def nth_append)

section \<open>The buffer\<close>

record message_buffer =
  mb_buffer :: "nat \<Rightarrow> byte"
  mb_data_length :: nat
  mb_size :: nat
  mb_head_offset :: nat

definition create_message_buffer :: "nat \<Rightarrow> message_buffer" where
  "create_message_buffer n = \<lparr>mb_buffer = (\<lambda>_. 0), mb_data_length = 0, mb_size = n, mb_head_offset = 0\<rparr>"

definition message_buffer_remain_bytes :: "message_buffer \<Rightarrow> nat" where
  "message_buffer_remain_bytes buf = mb_size buf - mb_data_length buf"

definition write_message_buffer :: "message_buffer \<Rightarrow> bytes \<Rightarrow> (bool \<times> message_buffer) res" where
  "write_message_buffer buf data =
     (let len = length data; h = mb_head_offset buf; n = mb_data_length buf in
      if message_buffer_remain_bytes buf < len then Ok (False, buf)
      else if h + n + len \<le> mb_size buf
      then Ok (True, buf\<lparr>mb_buffer := mem_write (h + n) data (mb_buffer buf), mb_data_length := n + len\<rparr>)
      else if h + n > mb_size buf then Fault Out_of_bounds
      else Ok (True, buf\<lparr>mb_buffer := mem_write n data (mem_write 0 (mem_read (mb_buffer buf) h n) (mb_buffer buf)),
                        mb_head_offset := 0, mb_data_length := n + len\<rparr>))"

definition truncate_message_buffer :: "message_buffer \<Rightarrow> nat \<Rightarrow> message_buffer res" where
  "truncate_message_buffer buf len =
     (if len = 0 \<or> mb_data_length buf = 0 then Ok buf
      else
        let len = min len (mb_data_length buf); h = mb_head_offset buf; n = mb_data_length buf - len in
        if h + len \<le> mb_size buf then Ok (buf\<lparr>mb_head_offset := h + len, mb_data_length := n\<rparr>)
        else if n > 0 then Fault Out_of_bounds
        else Ok (buf\<lparr>mb_head_offset := 0, mb_data_length := n\<rparr>))"

section \<open>Frames\<close>

text \<open>\<open>message_header\<close> in front of its value, as it stands in a buffer.\<close>

definition frame :: "byte \<Rightarrow> 16 word \<Rightarrow> bytes \<Rightarrow> bytes" where
  "frame message_type tag data = [0, message_type] @ put16 tag @ put32 (of_nat (8 + length data)) @ data"

abbreviation "MESSENGER_RECV_BUFFER \<equiv> (100000 :: nat)"
abbreviation "messenger_send_queue_length \<equiv> (400000 :: nat)"
abbreviation "messenger_send_length_for_flush \<equiv> (100000 :: nat)"
abbreviation "messenger_bucket_size \<equiv> (100000 :: nat)"
abbreviation "messenger_recv_queue_length \<equiv> (200000 :: nat)"
abbreviation "messenger_recv_queue_reserved \<equiv> (100000 :: nat)"

text \<open>The header at an offset of the data, wherever in the memory that is.\<close>

definition buffer_header :: "message_buffer \<Rightarrow> nat \<Rightarrow> bytes res" where
  "buffer_header buf offset =
     (if mb_head_offset buf + offset + 8 \<le> mb_size buf then Ok (mem_read (mb_buffer buf) (mb_head_offset buf + offset) 8)
      else Fault Out_of_bounds)"

definition header_length :: "bytes \<Rightarrow> 32 word" where
  "header_length h = be_get (drop 4 h)"

text \<open>
  The loop of \<open>get_send_data\<close>: \<open>data_length - offset\<close> is unsigned, so an offset behind the end of the
  data does not stop it.
\<close>

function get_send_data_loop :: "message_buffer \<Rightarrow> nat \<Rightarrow> nat \<Rightarrow> nat \<Rightarrow> nat res" where
  "get_send_data_loop buf bucket offset len =
     (if offset \<le> mb_data_length buf \<and> mb_data_length buf - offset < 8 then Ok len
      else case buffer_header buf offset of
        Fault e \<Rightarrow> Fault e
      | Ok h \<Rightarrow>
          let message_length = unat (header_length h) in
          if message_length = 0 \<or> message_length \<ge> messenger_recv_queue_length then Fault Assertion
          else if len + message_length > bucket then Ok (if len = 0 then message_length else len)
          else get_send_data_loop buf bucket (offset + message_length) (len + message_length))"
  by pat_completeness auto
termination
  by (relation "measure (\<lambda>(buf, bucket, offset, len). mb_size buf - (mb_head_offset buf + offset))")
    (auto simp: buffer_header_def split: if_splits)

declare get_send_data_loop.simps [simp del]

text \<open>The room that the socket has left, from its buffer size and what \<open>SIOCOUTQ\<close> reports.\<close>

definition send_bucket :: "int \<Rightarrow> int option \<Rightarrow> nat" where
  "send_bucket socket_buffer_size used =
     (if socket_buffer_size = 0 then messenger_bucket_size
      else case used of
        None \<Rightarrow> messenger_bucket_size
      | Some used \<Rightarrow>
          if used < socket_buffer_size
          then min (unat (push_bit 1 (word_of_int (socket_buffer_size - used) :: 32 word))) messenger_bucket_size
          else 1)"

text \<open>
  \<open>pull_from_recv_queue\<close>: the type, the tag, the length of the value and its bytes, of which at most as
  many as the local buffer holds are copied.  The length of the value is unsigned with 64 bits.
\<close>

definition pull_from_recv_queue :: "message_buffer \<Rightarrow> ((byte \<times> 16 word \<times> nat \<times> bytes) option \<times> message_buffer) res" where
  "pull_from_recv_queue buf =
     (if mb_data_length buf < 8 then Ok (None, buf)
      else
        bnd (buffer_header buf 0) (\<lambda>h.
        let len = unat (header_length h) in
        if len = 0 \<or> len \<ge> messenger_recv_queue_length then Fault Assertion
        else if mb_data_length buf < len then Ok (None, buf)
        else
          let value_len = (if 8 \<le> len then len - 8 else 2 ^ 64 + len - 8);
              n = min value_len MESSENGER_RECV_BUFFER
          in if mb_head_offset buf + 8 + n > mb_size buf then Fault Out_of_bounds
             else bnd (truncate_message_buffer buf len) (\<lambda>buf'.
                  Ok (Some (h ! 1, be_get (take 2 (drop 2 h)), value_len, mem_read (mb_buffer buf) (mb_head_offset buf + 8) n), buf'))))"

section \<open>The buffer as a queue of bytes\<close>

definition buffer_ok :: "message_buffer \<Rightarrow> bool" where
  "buffer_ok buf \<longleftrightarrow> mb_head_offset buf + mb_data_length buf \<le> mb_size buf"

definition buffered :: "message_buffer \<Rightarrow> bytes" where
  "buffered buf = mem_read (mb_buffer buf) (mb_head_offset buf) (mb_data_length buf)"

lemma length_buffered [simp]: "length (buffered buf) = mb_data_length buf"
  by (simp add: buffered_def)

lemma create_buffer [simp]:
  "buffer_ok (create_message_buffer n)" "buffered (create_message_buffer n) = []" "mb_size (create_message_buffer n) = n"
  "mb_data_length (create_message_buffer n) = 0"
  by (auto simp: buffer_ok_def buffered_def create_message_buffer_def mem_read_def)

lemma write_refused: "message_buffer_remain_bytes buf < length data \<Longrightarrow> write_message_buffer buf data = Ok (False, buf)"
  by (simp add: write_message_buffer_def Let_def)

lemma write_accepted:
  assumes "buffer_ok buf" and "length data \<le> message_buffer_remain_bytes buf"
  obtains buf' where "write_message_buffer buf data = Ok (True, buf')" "buffer_ok buf'" "mb_size buf' = mb_size buf"
    "buffered buf' = buffered buf @ data"
proof (cases "mb_head_offset buf + mb_data_length buf + length data \<le> mb_size buf")
  case True
  then show ?thesis
    using that [of "buf\<lparr>mb_buffer := mem_write (mb_head_offset buf + mb_data_length buf) data (mb_buffer buf),
        mb_data_length := mb_data_length buf + length data\<rparr>"] assms
    by (simp add: write_message_buffer_def buffer_ok_def buffered_def mem_read_write_append Let_def)
next
  case False
  let ?m = "mem_write 0 (buffered buf) (mb_buffer buf)"
  have "mem_read ?m 0 (mb_data_length buf) = buffered buf"
    using mem_read_write_same [of 0 "buffered buf" "mb_buffer buf"] by simp
  then have "mem_read (mem_write (mb_data_length buf) data ?m) 0 (mb_data_length buf + length data) = buffered buf @ data"
    using mem_read_write_append [of 0 "mb_data_length buf" data ?m] by simp
  then show ?thesis
    using that [of "buf\<lparr>mb_buffer := mem_write (mb_data_length buf) data ?m, mb_head_offset := 0,
        mb_data_length := mb_data_length buf + length data\<rparr>"] assms False
    by (auto simp: write_message_buffer_def buffer_ok_def buffered_def message_buffer_remain_bytes_def Let_def)
qed

lemma truncated:
  assumes "buffer_ok buf"
  obtains buf' where "truncate_message_buffer buf n = Ok buf'" "buffer_ok buf'" "mb_size buf' = mb_size buf"
    "buffered buf' = drop n (buffered buf)"
proof -
  define k where "k = min n (mb_data_length buf)"
  have k: "k \<le> mb_data_length buf" by (simp add: k_def)
  let ?b = "buf\<lparr>mb_head_offset := mb_head_offset buf + k, mb_data_length := mb_data_length buf - k\<rparr>"
  have "buffered ?b = drop k (buffered buf)"
    using mem_read_drop [of "mb_buffer buf" "mb_head_offset buf" k "mb_data_length buf - k"] k by (simp add: buffered_def)
  also have "\<dots> = drop n (buffered buf)" by (auto simp: k_def min_def)
  finally have b: "buffered ?b = drop n (buffered buf)" .
  show ?thesis
  proof (cases "n = 0 \<or> mb_data_length buf = 0")
    case True
    then show ?thesis using that [of buf] assms by (auto simp: truncate_message_buffer_def buffered_def mem_read_def)
  next
    case False
    then have "truncate_message_buffer buf n = Ok ?b"
      using assms by (auto simp: truncate_message_buffer_def buffer_ok_def k_def Let_def)
    then show ?thesis using that [of ?b] b assms k by (auto simp: buffer_ok_def)
  qed
qed

section \<open>Frames in a buffer\<close>

type_synonym message = "byte \<times> 16 word \<times> bytes"

definition message_frame :: "message \<Rightarrow> bytes" where
  "message_frame m = (case m of (t, g, d) \<Rightarrow> frame t g d)"

abbreviation frames :: "message list \<Rightarrow> bytes" where
  "frames ms \<equiv> concat (map message_frame ms)"

definition message_size :: "message \<Rightarrow> nat" where
  "message_size m = 8 + length (snd (snd m))"

text \<open>The messages both sides can handle: the assertions on their length hold.\<close>

abbreviation sendable :: "message \<Rightarrow> bool" where
  "sendable m \<equiv> message_size m < messenger_recv_queue_length"

lemma length_message_frame [simp]: "length (message_frame m) = message_size m"
  by (cases m) (simp add: message_frame_def frame_def message_size_def)

lemma length_frames: "length (frames ms) = sum_list (map message_size ms)"
  by (induction ms) auto

lemma frame_header: "take 8 (frame t g d) = [0, t] @ put16 g @ put32 (of_nat (8 + length d))"
  by (simp add: frame_def)

lemma header_fields:
  assumes "message_size m < 2 ^ 32"
  shows "unat (header_length (take 8 (message_frame m))) = message_size m"
    and "take 8 (message_frame m) ! 1 = fst m" and "be_get (take 2 (drop 2 (take 8 (message_frame m)))) = fst (snd m)"
proof -
  obtain t g d where m: "m = (t, g, d)" by (cases m)
  have "8 + length d < 2 ^ 32" using assms m by (simp add: message_size_def)
  then have "unat (of_nat (8 + length d) :: 32 word) = 8 + length d"
    by (simp only: unat_of_nat) (simp add: take_bit_nat_eq_self)
  then show "unat (header_length (take 8 (message_frame m))) = message_size m"
    by (simp only: m message_frame_def frame_header header_length_def message_size_def prod.case) (simp add: be_get_put)
  show "take 8 (message_frame m) ! 1 = fst m" "be_get (take 2 (drop 2 (take 8 (message_frame m)))) = fst (snd m)"
    by (simp_all only: m message_frame_def frame_header prod.case) (simp_all add: be_get_put)
qed

lemma buffered_part:
  "i + n \<le> mb_data_length buf \<Longrightarrow> mem_read (mb_buffer buf) (mb_head_offset buf + i) n = take n (drop i (buffered buf))"
  by (rule nth_equalityI) (auto simp: buffered_def add.assoc)

lemma buffer_header_frame:
  assumes "buffer_ok buf" and "buffered buf = xs @ message_frame m @ ys"
  shows "buffer_header buf (length xs) = Ok (take 8 (message_frame m))"
proof -
  have n: "mb_data_length buf = length xs + message_size m + length ys"
    using arg_cong [OF assms(2), of length] by simp
  have "mem_read (mb_buffer buf) (mb_head_offset buf + length xs) 8 = take 8 (message_frame m)"
    using buffered_part [of "length xs" 8 buf] n by (simp add: assms(2) message_size_def)
  then show ?thesis using assms(1) n by (simp add: buffer_header_def buffer_ok_def message_size_def)
qed

text \<open>What one call of \<open>send\<close> takes: as many whole messages as fit, and at least one.\<close>

fun batch :: "nat \<Rightarrow> nat \<Rightarrow> message list \<Rightarrow> message list" where
  "batch bucket len [] = []"
| "batch bucket len (m # ms) =
     (if len + message_size m > bucket then (if len = 0 then [m] else [])
      else m # batch bucket (len + message_size m) ms)"

lemma batch_prefix: "\<exists>rest. ms = batch bucket len ms @ rest"
  by (induction bucket len ms rule: batch.induct) auto

lemma batch_nonempty: "ms \<noteq> [] \<Longrightarrow> batch bucket 0 ms \<noteq> []"
  by (cases ms) auto

lemma batch_fits:
  "\<forall>m \<in> set ms. message_size m \<le> n \<Longrightarrow> bucket \<le> n \<Longrightarrow> len \<le> n \<Longrightarrow> len + length (frames (batch bucket len ms)) \<le> n"
  by (induction bucket len ms rule: batch.induct) (auto simp: add.assoc)

lemma get_send_data_frames:
  assumes "buffer_ok buf" and "buffered buf = xs @ frames ms" and "\<forall>m \<in> set ms. sendable m"
  shows "get_send_data_loop buf bucket (length xs) len = Ok (len + length (frames (batch bucket len ms)))"
  using assms
proof (induction bucket len ms arbitrary: xs rule: batch.induct)
  case (1 bucket len)
  have "mb_data_length buf = length xs" using arg_cong [OF 1(2), of length] by simp
  then show ?case by (simp add: get_send_data_loop.simps)
next
  case (2 bucket len m ms)
  have n: "mb_data_length buf = length xs + message_size m + length (frames ms)"
    using arg_cong [OF 2(3), of length] by simp
  have h: "buffer_header buf (length xs) = Ok (take 8 (message_frame m))" using buffer_header_frame [of buf xs m "frames ms"] 2 by simp
  have s: "sendable m" "message_size m > 0" using 2(4) by (auto simp: message_size_def)
  have more: "\<not> mb_data_length buf - length xs < 8" using n by (simp add: message_size_def)
  show ?case
  proof (cases "len + message_size m > bucket")
    case True
    then show ?thesis using h s more by (simp add: get_send_data_loop.simps [of buf bucket "length xs"] header_fields(1))
  next
    case False
    then have "get_send_data_loop buf bucket (length (xs @ message_frame m)) (len + message_size m) =
        Ok (len + message_size m + length (frames (batch bucket (len + message_size m) ms)))"
      using 2 by (intro 2(1)) auto
    then show ?thesis
      using False h s more by (simp add: get_send_data_loop.simps [of buf bucket "length xs"] header_fields(1) Let_def add.assoc)
  qed
qed

lemma pull_frame:
  assumes "buffer_ok buf" and "buffered buf = message_frame m @ rest" and "sendable m"
  obtains buf' where "pull_from_recv_queue buf =
      Ok (Some (fst m, fst (snd m), length (snd (snd m)), take MESSENGER_RECV_BUFFER (snd (snd m))), buf')"
    "buffer_ok buf'" "mb_size buf' = mb_size buf" "buffered buf' = rest"
proof -
  obtain t g d where m: "m = (t, g, d)" by (cases m)
  have n: "mb_data_length buf = message_size m + length rest" using arg_cong [OF assms(2), of length] by simp
  have h: "buffer_header buf 0 = Ok (take 8 (message_frame m))" using buffer_header_frame [of buf "[]" m rest] assms by simp
  obtain buf' where b: "truncate_message_buffer buf (message_size m) = Ok buf'" "buffer_ok buf'" "mb_size buf' = mb_size buf"
    "buffered buf' = drop (message_size m) (buffered buf)" by (rule truncated [OF assms(1)])
  let ?k = "min (length d) MESSENGER_RECV_BUFFER"
  have "mem_read (mb_buffer buf) (mb_head_offset buf + 8) ?k = take ?k (drop 8 (buffered buf))"
    using n m by (intro buffered_part) (simp add: message_size_def)
  also have "drop 8 (buffered buf) = d @ rest" using assms(2) m by (simp add: message_frame_def frame_def)
  finally have v: "mem_read (mb_buffer buf) (mb_head_offset buf + 8) ?k = take MESSENGER_RECV_BUFFER d"
    by (auto simp: min_def)
  have f: "unat (header_length (take 8 (message_frame m))) = 8 + length d" "take 8 (message_frame m) ! 1 = t"
      "be_get (take 2 (drop 2 (take 8 (message_frame m)))) = g"
    using header_fields [of m] assms(3) m by (auto simp: message_size_def)
  have "pull_from_recv_queue buf = Ok (Some (t, g, length d, take MESSENGER_RECV_BUFFER d), buf')"
    using n m h b(1) v assms(1,3) f
    by (simp add: pull_from_recv_queue_def message_size_def buffer_ok_def Let_def)
  then show ?thesis using that [of buf'] b m assms(2) by simp
qed

lemma pull_empty: "buffered buf = [] \<Longrightarrow> pull_from_recv_queue buf = Ok (None, buf)"
  using length_buffered [of buf] by (simp add: pull_from_recv_queue_def del: length_buffered)

end
