(* ===== verification/Messenger.thy ===== *)
theory Messenger
  imports Message_Buffer Event_Handler Timer
begin

text \<open>
  The messenger (\<open>src/lib/messenger.c\<close>): messages between services over sockets that keep packets apart.

  A queue is known by its service name, which also stands for the pointer to it that the event handler
  and the timers are given.  A hash table is the list of its entries, \<open>None\<close> when it does not exist
  (\<open>Hash_Table\<close> shows that the table is a map).  The system calls are arguments: a value of type \<open>os\<close>
  says how the calls that an operation makes turn out, and a list of results what \<open>recv\<close> returns.  The
  packets that were sent, the descriptors that were closed and the calls of the application's functions
  are recorded in order; what these functions do themselves comes after.
\<close>

section \<open>State\<close>

abbreviation "MESSAGE_TYPE_NOTIFY \<equiv> (0 :: byte)"
abbreviation "MESSAGE_TYPE_REQUEST \<equiv> (1 :: byte)"
abbreviation "MESSAGE_TYPE_REPLY \<equiv> (2 :: byte)"

abbreviation "MESSENGER_DUMP_SENT \<equiv> (0 :: 16 word)"
abbreviation "MESSENGER_DUMP_RECEIVED \<equiv> (1 :: 16 word)"
abbreviation "MESSENGER_DUMP_RECV_CONNECTED \<equiv> (2 :: 16 word)"
abbreviation "MESSENGER_DUMP_RECV_OVERFLOW \<equiv> (3 :: 16 word)"
abbreviation "MESSENGER_DUMP_RECV_CLOSED \<equiv> (4 :: 16 word)"
abbreviation "MESSENGER_DUMP_SEND_CONNECTED \<equiv> (5 :: 16 word)"
abbreviation "MESSENGER_DUMP_SEND_REFUSED \<equiv> (6 :: 16 word)"
abbreviation "MESSENGER_DUMP_SEND_OVERFLOW \<equiv> (7 :: 16 word)"
abbreviation "MESSENGER_DUMP_SEND_CLOSED \<equiv> (8 :: 16 word)"

datatype messenger_handler = On_accept bytes | On_recv bytes | On_send_read bytes | On_send_write bytes

datatype messenger_timer = Send_queue_connect_timeout | Age_context_db

record messenger_context =
  ctx_transaction_id :: "32 word"
  ctx_life_count :: int
  ctx_user_data :: nat

record messenger_context_handle =
  hdl_transaction_id :: "32 word"
  hdl_service_name_len :: "16 word"
  hdl_service_name :: bytes

record receive_queue =
  rq_callbacks :: "(nat \<times> byte) list"
  rq_listen_socket :: int
  rq_client_sockets :: "int list"
  rq_buffer :: message_buffer

record send_queue =
  sq_server_socket :: int
  sq_refused_count :: int
  sq_reconnect_interval :: timespec
  sq_buffer :: "message_buffer option"
  sq_running_timer :: bool
  sq_overflow :: "32 word"
  sq_overflow_total_length :: "64 word"
  sq_socket_buffer_size :: int

datatype messenger_upcall =
    Received nat "16 word" bytes
  | Requested nat messenger_context_handle "16 word" bytes
  | Replied nat "16 word" bytes nat

record messenger =
  socket_directory :: bytes
  ms_initialized :: bool
  ms_finalized :: bool
  receive_queues :: "(bytes \<times> receive_queue) list option"
  send_queues :: "(bytes \<times> send_queue) list option"
  context_db :: "(32 word \<times> messenger_context) list option"
  dump_service_name :: "bytes option"
  dump_app_name :: "bytes option"
  last_transaction_id :: "32 word"
  ms_events :: "messenger_handler event_handler"
  ms_timers :: "(messenger_timer, bytes) timer_state"
  ms_sent :: "(int \<times> bytes) list"
  ms_closed :: "int list"
  ms_upcalls :: "messenger_upcall list"

text \<open>The table operations.\<close>

definition tbl_insert :: "'k \<Rightarrow> 'v \<Rightarrow> ('k \<times> 'v) list \<Rightarrow> ('k \<times> 'v) list" where
  "tbl_insert k v t = (k, v) # filter (\<lambda>e. fst e \<noteq> k) t"

definition tbl_delete :: "'k \<Rightarrow> ('k \<times> 'v) list \<Rightarrow> ('k \<times> 'v) list" where
  "tbl_delete k t = filter (\<lambda>e. fst e \<noteq> k) t"

definition tbl_update :: "'k \<Rightarrow> 'v \<Rightarrow> ('k \<times> 'v) list \<Rightarrow> ('k \<times> 'v) list" where
  "tbl_update k v t = map (\<lambda>e. if fst e = k then (k, v) else e) t"

text \<open>The results of system calls.\<close>

datatype connect_result = Socket_error | Setup_error int | Refused int | Connected int int

datatype send_error = Send_again | Send_too_big | Send_broken

datatype send_result = Sent nat | Send_error send_error

datatype recv_result = Recv_failed | Recv_closed | Recv_packet bytes

datatype listen_result = Listen_failed "int option" | Listening int

datatype accept_result = Accept_failed | Accept_setup_failed int | Accepted int

record os =
  os_connect :: "bytes \<Rightarrow> connect_result"
  os_outq :: "int \<Rightarrow> nat \<Rightarrow> int option"
  os_send :: "int \<Rightarrow> nat \<Rightarrow> nat \<Rightarrow> send_result"
  os_server_closed :: bool
  os_listen :: "bytes \<Rightarrow> listen_result"
  os_accept :: accept_result
  os_monotonic :: "timespec option"
  os_realtime :: "timespec option"

type_synonym dumper = "16 word \<Rightarrow> bytes \<Rightarrow> bytes \<Rightarrow> messenger \<Rightarrow> messenger res"

definition on_events :: "(messenger_handler event_handler \<Rightarrow> messenger_handler event_handler) \<Rightarrow> messenger \<Rightarrow> messenger" where
  "on_events f m = m\<lparr>ms_events := f (ms_events m)\<rparr>"

definition watch_fd :: "int \<Rightarrow> messenger_handler option \<Rightarrow> messenger_handler option \<Rightarrow> messenger \<Rightarrow> messenger res" where
  "watch_fd fd r w m = bnd (set_fd_handler fd r w (ms_events m)) (\<lambda>e. Ok (m\<lparr>ms_events := set_readable fd True e\<rparr>))"

definition close_fd :: "int \<Rightarrow> messenger \<Rightarrow> messenger" where
  "close_fd fd m = m\<lparr>ms_closed := ms_closed m @ [fd]\<rparr>"

definition unwatch_sender :: "int \<Rightarrow> messenger \<Rightarrow> messenger" where
  "unwatch_sender fd m =
     close_fd fd (on_events (\<lambda>e. delete_fd_handler fd (set_writable fd False (set_readable fd False e))) m)"

definition unwatch_receiver :: "int \<Rightarrow> messenger \<Rightarrow> messenger" where
  "unwatch_receiver fd m = on_events (\<lambda>e. delete_fd_handler fd (set_readable fd False e)) m"

text \<open>The path of a socket has to fit into \<open>sun_path\<close>.\<close>

definition path_fits :: "messenger \<Rightarrow> bytes \<Rightarrow> bool" where
  "path_fits m service_name \<longleftrightarrow> length (socket_directory m) + length service_name + 12 < 108"

abbreviation "MESSENGER_SERVICE_NAME_SIZE \<equiv> (32 :: nat)"

section \<open>Contexts\<close>

definition delete_context :: "messenger_context \<Rightarrow> messenger \<Rightarrow> messenger" where
  "delete_context context m = m\<lparr>context_db := map_option (tbl_delete (ctx_transaction_id context)) (context_db m)\<rparr>"

definition age_context :: "messenger_context \<Rightarrow> messenger \<Rightarrow> messenger" where
  "age_context context m =
     (let aged = context\<lparr>ctx_life_count := ctx_life_count context - 1\<rparr>;
          m = m\<lparr>context_db := map_option (tbl_update (ctx_transaction_id context) aged) (context_db m)\<rparr>
      in if ctx_life_count aged \<le> 0 then delete_context aged m else m)"

definition age_context_db :: "messenger \<Rightarrow> messenger res" where
  "age_context_db m =
     (case context_db m of
        None \<Rightarrow> Fault Assertion
      | Some t \<Rightarrow> Ok (fold (\<lambda>(k, c). age_context c) t m))"

definition delete_context_db :: "messenger \<Rightarrow> messenger" where
  "delete_context_db m = m\<lparr>context_db := None\<rparr>"

text \<open>
  An entry that was in the table under the same number is deleted by its number, behind the insertion of
  the new one.
\<close>

definition insert_context :: "nat \<Rightarrow> messenger \<Rightarrow> (messenger_context \<times> messenger) res" where
  "insert_context user_data m =
     (case context_db m of
        None \<Rightarrow> Fault Assertion
      | Some t \<Rightarrow>
          let i = last_transaction_id m + 1;
              context = \<lparr>ctx_transaction_id = i, ctx_life_count = 10, ctx_user_data = user_data\<rparr>;
              old = map_of t i;
              m = m\<lparr>last_transaction_id := i, context_db := Some (tbl_insert i context t)\<rparr>
          in Ok (context, case old of None \<Rightarrow> m | Some c \<Rightarrow> delete_context c m))"

definition get_context :: "32 word \<Rightarrow> messenger \<Rightarrow> messenger_context option res" where
  "get_context i m = (case context_db m of None \<Rightarrow> Fault Assertion | Some t \<Rightarrow> Ok (map_of t i))"

section \<open>Send queues\<close>

definition delete_send_queue :: "bytes \<Rightarrow> send_queue \<Rightarrow> messenger \<Rightarrow> messenger res" where
  "delete_send_queue name sq m =
     (if sq_buffer sq = None then Fault Assertion
      else
        let m = (if sq_server_socket sq \<noteq> -1 then unwatch_sender (sq_server_socket sq) m else m)
        in Ok (m\<lparr>send_queues := map_option (tbl_delete name) (send_queues m)\<rparr>))"

fun delete_send_queue_entries :: "(bytes \<times> send_queue) list \<Rightarrow> messenger \<Rightarrow> messenger res" where
  "delete_send_queue_entries [] m = Ok m"
| "delete_send_queue_entries ((name, sq) # es) m = bnd (delete_send_queue name sq m) (delete_send_queue_entries es)"

definition delete_all_send_queues :: "messenger \<Rightarrow> messenger res" where
  "delete_all_send_queues m =
     (case send_queues m of
        None \<Rightarrow> Ok m
      | Some es \<Rightarrow> bnd (delete_send_queue_entries es m) (\<lambda>m. Ok (m\<lparr>send_queues := None\<rparr>)))"

definition send_queue_connect :: "os \<Rightarrow> dumper \<Rightarrow> bytes \<Rightarrow> send_queue \<Rightarrow> messenger \<Rightarrow> (int \<times> send_queue \<times> messenger) res" where
  "send_queue_connect os dump name sq m =
     (let sq = sq\<lparr>sq_running_timer := False\<rparr> in
      case os_connect os name of
        Socket_error \<Rightarrow> Ok (-1, sq\<lparr>sq_server_socket := -1\<rparr>, m)
      | Setup_error fd \<Rightarrow> Ok (-1, sq\<lparr>sq_server_socket := -1\<rparr>, close_fd fd m)
      | Refused fd \<Rightarrow>
          bnd (dump MESSENGER_DUMP_SEND_REFUSED name [] m) (\<lambda>m. Ok (0, sq\<lparr>sq_server_socket := -1\<rparr>, close_fd fd m))
      | Connected fd n \<Rightarrow>
          bnd (watch_fd fd (Some (On_send_read name)) (Some (On_send_write name)) m) (\<lambda>m.
          let m = (case sq_buffer sq of
                     Some buf \<Rightarrow> if mb_data_length buf \<ge> 8 then on_events (set_writable fd True) m else m
                   | None \<Rightarrow> m)
          in bnd (dump MESSENGER_DUMP_SEND_CONNECTED name [] m) (\<lambda>m.
             Ok (1, sq\<lparr>sq_server_socket := fd, sq_socket_buffer_size := n\<rparr>, m))))"

text \<open>The time to the next attempt, after so many refusals.\<close>

definition reconnect_seconds :: "int \<Rightarrow> int" where
  "reconnect_seconds refused_count = 2 ^ nat (if refused_count > 4 then 4 else refused_count - 1)"

definition send_queue_connect_timer :: "os \<Rightarrow> dumper \<Rightarrow> bytes \<Rightarrow> send_queue \<Rightarrow> messenger \<Rightarrow> (int \<times> send_queue \<times> messenger) res" where
  "send_queue_connect_timer os dump name sq m =
     (if sq_server_socket sq \<noteq> -1 then Ok (1, sq, m)
      else
        let m = (if sq_running_timer sq
                 then m\<lparr>ms_timers := snd (delete_timer_event Send_queue_connect_timeout (Some name) (ms_timers m))\<rparr> else m)
        in bnd (send_queue_connect os dump name (sq\<lparr>sq_running_timer := False\<rparr>) m) (\<lambda>(ret, sq, m).
           if ret = -1 then Ok (-1, sq\<lparr>sq_reconnect_interval := \<lparr>tv_sec = -1, tv_nsec = 0\<rparr>\<rparr>, m)
           else if ret = 0 then
             let n = sq_refused_count sq + 1;
                 interval = (sq_reconnect_interval sq)\<lparr>tv_sec := reconnect_seconds n\<rparr>
             in bnd (add_timer_event_callback (os_monotonic os) zero_time interval Send_queue_connect_timeout (Some name) (ms_timers m)) (\<lambda>(_, t).
                Ok (0, sq\<lparr>sq_refused_count := n, sq_reconnect_interval := interval, sq_running_timer := True\<rparr>, m\<lparr>ms_timers := t\<rparr>))
           else Ok (1, sq\<lparr>sq_refused_count := 0, sq_reconnect_interval := zero_time\<rparr>, m)))"

definition send_queue_try_connect :: "os \<Rightarrow> dumper \<Rightarrow> bytes \<Rightarrow> send_queue \<Rightarrow> messenger \<Rightarrow> (int \<times> send_queue \<times> messenger) res" where
  "send_queue_try_connect os dump name sq m =
     (if tv_sec (sq_reconnect_interval sq) \<noteq> 0 then Ok (0, sq, m) else send_queue_connect_timer os dump name sq m)"

definition new_send_queue :: send_queue where
  "new_send_queue = \<lparr>sq_server_socket = -1, sq_refused_count = 0, sq_reconnect_interval = zero_time, sq_buffer = None,
     sq_running_timer = False, sq_overflow = 0, sq_overflow_total_length = 0, sq_socket_buffer_size = 0\<rparr>"

text \<open>A name of 32 bytes or more leaves \<open>service_name\<close> of the queue without its terminator.\<close>

definition create_send_queue :: "os \<Rightarrow> dumper \<Rightarrow> bytes \<Rightarrow> messenger \<Rightarrow> (send_queue option \<times> messenger) res" where
  "create_send_queue os dump name m =
     (case send_queues m of
        None \<Rightarrow> Fault Assertion
      | Some t \<Rightarrow>
          (case map_of t name of
             Some sq \<Rightarrow> Ok (Some sq, m)
           | None \<Rightarrow>
               if \<not> path_fits m name \<or> length name \<ge> MESSENGER_SERVICE_NAME_SIZE then Fault Out_of_bounds
               else
                 bnd (send_queue_try_connect os dump name new_send_queue m) (\<lambda>(ret, sq, m).
                 if ret = -1 then Ok (None, m)
                 else
                   let sq = sq\<lparr>sq_buffer := Some (create_message_buffer messenger_send_queue_length)\<rparr>
                   in Ok (Some sq, m\<lparr>send_queues := map_option (tbl_insert name sq) (send_queues m)\<rparr>))))"

definition get_send_data :: "os \<Rightarrow> send_queue \<Rightarrow> message_buffer \<Rightarrow> nat \<Rightarrow> nat res" where
  "get_send_data os sq buf offset =
     get_send_data_loop buf (send_bucket (sq_socket_buffer_size sq) (os_outq os (sq_server_socket sq) offset)) offset 0"

definition store_send_queue :: "bytes \<Rightarrow> send_queue \<Rightarrow> messenger \<Rightarrow> messenger" where
  "store_send_queue name sq m = m\<lparr>send_queues := map_option (tbl_update name sq) (send_queues m)\<rparr>"

text \<open>The end of \<open>on_send_write\<close> when \<open>send\<close> failed.\<close>

definition on_send_error ::
  "os \<Rightarrow> dumper \<Rightarrow> bytes \<Rightarrow> send_error \<Rightarrow> send_queue \<Rightarrow> message_buffer \<Rightarrow> nat \<Rightarrow> messenger \<Rightarrow> (send_queue \<times> messenger) res" where
  "on_send_error os dump name err sq buf sent_total m =
     bnd (if err = Send_again then Ok (sq, m)
          else
            bnd (dump MESSENGER_DUMP_SEND_CLOSED name [] m) (\<lambda>m.
            bnd (send_queue_try_connect os dump name (sq\<lparr>sq_server_socket := -1, sq_refused_count := 0\<rparr>)
                  (unwatch_sender (sq_server_socket sq) m)) (\<lambda>(_, sq, m). Ok (sq, m)))) (\<lambda>(sq, m).
     bnd (truncate_message_buffer buf sent_total) (\<lambda>buf.
     bnd (if err = Send_too_big then truncate_message_buffer buf (mb_data_length buf) else Ok buf) (\<lambda>buf.
     Ok (sq\<lparr>sq_buffer := Some buf\<rparr>, m))))"

function on_send_write_loop ::
  "os \<Rightarrow> dumper \<Rightarrow> bytes \<Rightarrow> int \<Rightarrow> send_queue \<Rightarrow> message_buffer \<Rightarrow> nat \<Rightarrow> messenger \<Rightarrow> (send_queue \<times> messenger) res" where
  "on_send_write_loop os dump name fd sq buf sent_total m =
     (case get_send_data os sq buf sent_total of
        Fault e \<Rightarrow> Fault e
      | Ok send_len \<Rightarrow>
          if send_len = 0 then
            bnd (truncate_message_buffer buf sent_total) (\<lambda>buf.
            Ok (sq\<lparr>sq_buffer := Some buf\<rparr>,
                if mb_data_length buf = 0 then on_events (set_writable (sq_server_socket sq) False) m else m))
          else if mb_head_offset buf + sent_total + send_len > mb_size buf then Fault Out_of_bounds
          else
            let send_data = mem_read (mb_buffer buf) (mb_head_offset buf + sent_total) send_len in
            (case os_send os fd sent_total send_len of
               Send_error err \<Rightarrow> on_send_error os dump name err sq buf sent_total m
             | Sent sent_len \<Rightarrow>
                 if sent_len = 0 \<or> send_len \<noteq> sent_len then Fault Assertion
                 else
                   (case dump MESSENGER_DUMP_SENT name send_data (m\<lparr>ms_sent := ms_sent m @ [(fd, send_data)]\<rparr>) of
                      Fault e \<Rightarrow> Fault e
                    | Ok m \<Rightarrow> on_send_write_loop os dump name fd sq buf (sent_total + sent_len) m)))"
  by pat_completeness auto
termination
  by (relation "measure (\<lambda>(os, dump, name, fd, sq, buf, sent_total, m). mb_size buf - (mb_head_offset buf + sent_total))") auto

declare on_send_write_loop.simps [simp del]

definition on_send_write :: "os \<Rightarrow> dumper \<Rightarrow> bytes \<Rightarrow> int \<Rightarrow> send_queue \<Rightarrow> messenger \<Rightarrow> (send_queue \<times> messenger) res" where
  "on_send_write os dump name fd sq m =
     (case sq_buffer sq of
        None \<Rightarrow> Fault Null_deref
      | Some buf \<Rightarrow>
          if mb_data_length buf < 8 then Ok (sq, on_events (set_writable (sq_server_socket sq) False) m)
          else on_send_write_loop os dump name fd sq buf 0 m)"

definition push_to_queue ::
  "os \<Rightarrow> dumper \<Rightarrow> bytes \<Rightarrow> byte \<Rightarrow> 16 word \<Rightarrow> bytes \<Rightarrow> send_queue \<Rightarrow> messenger \<Rightarrow> (bool \<times> send_queue \<times> messenger) res" where
  "push_to_queue os dump name message_type tag data sq m =
     (case sq_buffer sq of
        None \<Rightarrow> Fault Null_deref
      | Some buf \<Rightarrow>
          let len = (of_nat (8 + length data) :: 32 word) in
          if message_buffer_remain_bytes buf < unat len then
            bnd (dump MESSENGER_DUMP_SEND_OVERFLOW name [] m) (\<lambda>m.
            Ok (False, sq\<lparr>sq_overflow := sq_overflow sq + 1,
                         sq_overflow_total_length := sq_overflow_total_length sq + ucast len\<rparr>, m))
          else
            let sq = sq\<lparr>sq_overflow := 0, sq_overflow_total_length := 0\<rparr> in
            bnd (write_message_buffer buf ([0, message_type] @ put16 tag @ put32 len)) (\<lambda>(_, buf).
            bnd (write_message_buffer buf data) (\<lambda>(_, buf).
            let sq = sq\<lparr>sq_buffer := Some buf\<rparr> in
            if sq_server_socket sq = -1 then
              bnd (send_queue_try_connect os dump name sq m) (\<lambda>(_, sq, m). Ok (True, sq, m))
            else
              let m = on_events (set_writable (sq_server_socket sq) True) m in
              if mb_data_length buf > messenger_send_length_for_flush
              then bnd (on_send_write os dump name (sq_server_socket sq) sq m) (\<lambda>(sq, m). Ok (True, sq, m))
              else Ok (True, sq, m))))"

definition push_message_to_send_queue ::
  "os \<Rightarrow> dumper \<Rightarrow> bytes \<Rightarrow> byte \<Rightarrow> 16 word \<Rightarrow> bytes \<Rightarrow> messenger \<Rightarrow> (bool \<times> messenger) res" where
  "push_message_to_send_queue os dump name message_type tag data m =
     (case send_queues m of
        None \<Rightarrow> Ok (False, m)
      | Some t \<Rightarrow>
          bnd (case map_of t name of Some sq \<Rightarrow> Ok (Some sq, m) | None \<Rightarrow> create_send_queue os dump name m) (\<lambda>(sq, m).
          case sq of
            None \<Rightarrow> Fault Assertion
          | Some sq \<Rightarrow>
              bnd (push_to_queue os dump name message_type tag data sq m) (\<lambda>(ok, sq, m). Ok (ok, store_send_queue name sq m))))"

text \<open>
  A dump message reports about a service to the dump service.  While it is pushed, every report is about
  the dump service itself and returns at once.
\<close>

definition no_dump :: dumper where
  "no_dump dump_type name data m = Ok m"

definition dump_message :: "timespec \<Rightarrow> bytes \<Rightarrow> bytes \<Rightarrow> bytes \<Rightarrow> bytes" where
  "dump_message now app name data =
     put32 (word_of_int (tv_sec now)) @ put32 (word_of_int (tv_nsec now)) @ put16 (of_nat (length app + 1)) @
     put16 (of_nat (length name + 1)) @ put32 (of_nat (length data)) @ app @ [0] @ name @ [0] @ data"

definition send_dump_message :: "os \<Rightarrow> dumper" where
  "send_dump_message os dump_type name data m =
     (case dump_service_name m of
        None \<Rightarrow> Ok m
      | Some dump_service \<Rightarrow>
          if name = dump_service then Ok m
          else case os_realtime os of
            None \<Rightarrow> Ok m
          | Some now \<Rightarrow>
              (case dump_app_name m of
                 None \<Rightarrow> Fault Null_deref
               | Some app \<Rightarrow>
                   bnd (push_message_to_send_queue os no_dump dump_service MESSAGE_TYPE_NOTIFY dump_type (dump_message now app name data) m)
                     (\<lambda>(_, m). Ok m)))"

section \<open>Sending\<close>

definition send_message :: "os \<Rightarrow> bytes \<Rightarrow> 16 word \<Rightarrow> bytes \<Rightarrow> messenger \<Rightarrow> (bool \<times> messenger) res" where
  "send_message os name tag data = push_message_to_send_queue os (send_dump_message os) name MESSAGE_TYPE_NOTIFY tag data"

text \<open>The two bytes of padding of \<open>messenger_context_handle\<close>, which are not written, are zero.\<close>

definition handle_bytes :: "32 word \<Rightarrow> 16 word \<Rightarrow> bytes" where
  "handle_bytes i n = put32 i @ put16 n @ [0, 0]"

definition send_request_message ::
  "os \<Rightarrow> bytes \<Rightarrow> bytes \<Rightarrow> 16 word \<Rightarrow> bytes \<Rightarrow> nat \<Rightarrow> messenger \<Rightarrow> (bool \<times> messenger) res" where
  "send_request_message os to_service_name from_service_name tag data user_data m =
     bnd (insert_context user_data m) (\<lambda>(context, m).
     push_message_to_send_queue os (send_dump_message os) to_service_name MESSAGE_TYPE_REQUEST tag
       (handle_bytes (ctx_transaction_id context) (of_nat (length from_service_name + 1)) @ from_service_name @ [0] @ data) m)"

definition c_string :: "bytes \<Rightarrow> bytes res" where
  "c_string bs = (if 0 \<in> set bs then Ok (takeWhile (\<lambda>b. b \<noteq> 0) bs) else Fault Out_of_bounds)"

definition send_reply_message :: "os \<Rightarrow> messenger_context_handle \<Rightarrow> 16 word \<Rightarrow> bytes \<Rightarrow> messenger \<Rightarrow> (bool \<times> messenger) res" where
  "send_reply_message os handle tag data m =
     bnd (c_string (hdl_service_name handle)) (\<lambda>name.
     push_message_to_send_queue os (send_dump_message os) name MESSAGE_TYPE_REPLY tag
       (handle_bytes (hdl_transaction_id handle) 0 @ data) m)"

definition clear_send_queue :: "bytes \<Rightarrow> messenger \<Rightarrow> bool \<times> messenger" where
  "clear_send_queue name m =
     (case send_queues m of
        None \<Rightarrow> (False, m)
      | Some t \<Rightarrow>
          (case map_of t name of
             None \<Rightarrow> (False, m)
           | Some sq \<Rightarrow>
               (case sq_buffer sq of
                  None \<Rightarrow> (False, m)
                | Some buf \<Rightarrow>
                    (True, store_send_queue name (sq\<lparr>sq_buffer := Some (buf\<lparr>mb_head_offset := 0, mb_data_length := 0\<rparr>)\<rparr>)
                       (if mb_data_length buf > 0 then on_events (set_writable (sq_server_socket sq) False) m else m)))))"

text \<open>The connected, sending, reconnecting and closed queues.\<close>

definition count_send_queue :: "send_queue \<Rightarrow> nat \<times> nat \<times> nat \<times> nat \<Rightarrow> (nat \<times> nat \<times> nat \<times> nat) res" where
  "count_send_queue sq n =
     (case n of (connected, sending, reconnecting, closed) \<Rightarrow>
        if sq_server_socket sq = -1 then Ok (connected, sending, reconnecting, closed + 1)
        else case sq_buffer sq of
          None \<Rightarrow> Fault Null_deref
        | Some buf \<Rightarrow>
            if mb_data_length buf = 0 then Ok (connected + 1, sending, reconnecting, closed)
            else if sq_refused_count sq > 0 then Ok (connected, sending, reconnecting + 1, closed)
            else Ok (connected, sending + 1, reconnecting, closed))"

fun count_send_queues :: "(bytes \<times> send_queue) list \<Rightarrow> nat \<times> nat \<times> nat \<times> nat \<Rightarrow> (nat \<times> nat \<times> nat \<times> nat) res" where
  "count_send_queues [] n = Ok n"
| "count_send_queues ((name, sq) # es) n = bnd (count_send_queue sq n) (count_send_queues es)"

definition number_of_send_queue :: "messenger \<Rightarrow> (nat \<times> nat \<times> nat \<times> nat) res" where
  "number_of_send_queue m = (case send_queues m of None \<Rightarrow> Ok (0, 0, 0, 0) | Some t \<Rightarrow> count_send_queues t (0, 0, 0, 0))"

text \<open>One turn of the event handler is an argument.\<close>

fun flush_messenger :: "(messenger \<Rightarrow> messenger res) \<Rightarrow> nat \<Rightarrow> messenger \<Rightarrow> (nat \<times> messenger) res" where
  "flush_messenger run_once 0 m = Fault No_return"
| "flush_messenger run_once (Suc fuel) m =
     bnd (number_of_send_queue m) (\<lambda>(connected, sending, reconnecting, closed).
     if sending = 0 then Ok (reconnecting, m) else bnd (run_once m) (flush_messenger run_once fuel))"

section \<open>Receiving\<close>

definition del_recv_queue_client_fd :: "receive_queue \<Rightarrow> int \<Rightarrow> messenger \<Rightarrow> receive_queue \<times> messenger" where
  "del_recv_queue_client_fd rq fd m =
     (if fd \<in> set (rq_client_sockets rq)
      then (rq\<lparr>rq_client_sockets := remove1 fd (rq_client_sockets rq)\<rparr>, unwatch_receiver fd m) else (rq, m))"

fun delete_clients :: "os \<Rightarrow> bytes \<Rightarrow> int list \<Rightarrow> messenger \<Rightarrow> messenger res" where
  "delete_clients os name [] m = Ok m"
| "delete_clients os name (fd # fds) m =
     bnd (send_dump_message os MESSENGER_DUMP_RECV_CLOSED name [] (close_fd fd (unwatch_receiver fd m))) (delete_clients os name fds)"

definition delete_receive_queue :: "os \<Rightarrow> bytes \<Rightarrow> receive_queue \<Rightarrow> messenger \<Rightarrow> messenger res" where
  "delete_receive_queue os name rq m =
     bnd (delete_clients os name (rq_client_sockets rq) m) (\<lambda>m.
     let m = close_fd (rq_listen_socket rq) (unwatch_receiver (rq_listen_socket rq) m)
     in Ok (m\<lparr>receive_queues := map_option (tbl_delete name) (receive_queues m)\<rparr>))"

fun delete_receive_queue_entries :: "os \<Rightarrow> (bytes \<times> receive_queue) list \<Rightarrow> messenger \<Rightarrow> messenger res" where
  "delete_receive_queue_entries os [] m = Ok m"
| "delete_receive_queue_entries os ((name, rq) # es) m =
     bnd (delete_receive_queue os name rq m) (delete_receive_queue_entries os es)"

definition delete_all_receive_queues :: "os \<Rightarrow> messenger \<Rightarrow> messenger res" where
  "delete_all_receive_queues os m =
     (case receive_queues m of
        None \<Rightarrow> Ok m
      | Some es \<Rightarrow> bnd (delete_receive_queue_entries os es m) (\<lambda>m. Ok (m\<lparr>receive_queues := None\<rparr>)))"

definition create_receive_queue :: "os \<Rightarrow> bytes \<Rightarrow> messenger \<Rightarrow> (receive_queue option \<times> messenger) res" where
  "create_receive_queue os name m =
     (if length name \<ge> MESSENGER_SERVICE_NAME_SIZE then Fault Assertion
      else case receive_queues m of
        None \<Rightarrow> Fault Assertion
      | Some t \<Rightarrow>
          (case map_of t name of
             Some rq \<Rightarrow> Ok (Some rq, m)
           | None \<Rightarrow>
               if \<not> path_fits m name then Fault Out_of_bounds
               else case os_listen os name of
                 Listen_failed None \<Rightarrow> Ok (None, m)
               | Listen_failed (Some fd) \<Rightarrow> Ok (None, close_fd fd m)
               | Listening fd \<Rightarrow>
                   bnd (watch_fd fd (Some (On_accept name)) None m) (\<lambda>m.
                   let rq = \<lparr>rq_callbacks = [], rq_listen_socket = fd, rq_client_sockets = [],
                             rq_buffer = create_message_buffer messenger_recv_queue_length\<rparr>
                   in Ok (Some rq, m\<lparr>receive_queues := map_option (tbl_insert name rq) (receive_queues m)\<rparr>))))"

definition store_receive_queue :: "bytes \<Rightarrow> receive_queue \<Rightarrow> messenger \<Rightarrow> messenger" where
  "store_receive_queue name rq m = m\<lparr>receive_queues := map_option (tbl_update name rq) (receive_queues m)\<rparr>"

text \<open>A callback is put in front of those that are there.\<close>

definition add_message_callback :: "os \<Rightarrow> bytes \<Rightarrow> byte \<Rightarrow> nat \<Rightarrow> messenger \<Rightarrow> (bool \<times> messenger) res" where
  "add_message_callback os name message_type callback m =
     (case receive_queues m of
        None \<Rightarrow> Fault Assertion
      | Some t \<Rightarrow>
          bnd (case map_of t name of Some rq \<Rightarrow> Ok (Some rq, m) | None \<Rightarrow> create_receive_queue os name m) (\<lambda>(rq, m).
          case rq of
            None \<Rightarrow> Ok (False, m)
          | Some rq \<Rightarrow> Ok (True, store_receive_queue name (rq\<lparr>rq_callbacks := (callback, message_type) # rq_callbacks rq\<rparr>) m)))"

definition add_message_received_callback :: "os \<Rightarrow> bytes \<Rightarrow> nat \<Rightarrow> messenger \<Rightarrow> (bool \<times> messenger) res" where
  "add_message_received_callback os name = add_message_callback os name MESSAGE_TYPE_NOTIFY"

definition add_message_requested_callback :: "os \<Rightarrow> bytes \<Rightarrow> nat \<Rightarrow> messenger \<Rightarrow> (bool \<times> messenger) res" where
  "add_message_requested_callback os name = add_message_callback os name MESSAGE_TYPE_REQUEST"

definition add_message_replied_callback :: "os \<Rightarrow> bytes \<Rightarrow> nat \<Rightarrow> messenger \<Rightarrow> (bool \<times> messenger) res" where
  "add_message_replied_callback os name = add_message_callback os name MESSAGE_TYPE_REPLY"

definition delete_message_callback :: "os \<Rightarrow> bytes \<Rightarrow> byte \<Rightarrow> nat \<Rightarrow> messenger \<Rightarrow> (bool \<times> messenger) res" where
  "delete_message_callback os name message_type callback m =
     (case receive_queues m of
        None \<Rightarrow> Ok (False, m)
      | Some t \<Rightarrow>
          (case map_of t name of
             None \<Rightarrow> Ok (False, m)
           | Some rq \<Rightarrow>
               if (callback, message_type) \<in> set (rq_callbacks rq) then
                 let rq = rq\<lparr>rq_callbacks := remove1 (callback, message_type) (rq_callbacks rq)\<rparr>
                 in if rq_callbacks rq = []
                    then bnd (delete_receive_queue os name rq (store_receive_queue name rq m)) (\<lambda>m. Ok (True, m))
                    else Ok (True, store_receive_queue name rq m)
               else Ok (False, m)))"

definition delete_message_received_callback :: "os \<Rightarrow> bytes \<Rightarrow> nat \<Rightarrow> messenger \<Rightarrow> (bool \<times> messenger) res" where
  "delete_message_received_callback os name = delete_message_callback os name MESSAGE_TYPE_NOTIFY"

definition delete_message_requested_callback :: "os \<Rightarrow> bytes \<Rightarrow> nat \<Rightarrow> messenger \<Rightarrow> (bool \<times> messenger) res" where
  "delete_message_requested_callback os name = delete_message_callback os name MESSAGE_TYPE_REQUEST"

definition delete_message_replied_callback :: "os \<Rightarrow> bytes \<Rightarrow> nat \<Rightarrow> messenger \<Rightarrow> (bool \<times> messenger) res" where
  "delete_message_replied_callback os name = delete_message_callback os name MESSAGE_TYPE_REPLY"

fun copy_callbacks :: "os \<Rightarrow> bytes \<Rightarrow> (nat \<times> byte) list \<Rightarrow> messenger \<Rightarrow> messenger res" where
  "copy_callbacks os name [] m = Ok m"
| "copy_callbacks os name ((callback, message_type) # cbs) m =
     bnd (add_message_callback os name message_type callback m) (\<lambda>(_, m). copy_callbacks os name cbs m)"

definition rename_message_callback :: "os \<Rightarrow> bytes \<Rightarrow> bytes \<Rightarrow> messenger \<Rightarrow> (bool \<times> messenger) res" where
  "rename_message_callback os old_service_name new_service_name m =
     (case receive_queues m of
        None \<Rightarrow> Fault Assertion
      | Some t \<Rightarrow>
          (case map_of t old_service_name of
             None \<Rightarrow> Ok (False, m)
           | Some old_rq \<Rightarrow>
               if map_of t new_service_name \<noteq> None then Ok (False, m)
               else
                 bnd (copy_callbacks os new_service_name (rq_callbacks old_rq) m) (\<lambda>m.
                 bnd (delete_receive_queue os old_service_name old_rq m) (\<lambda>m. Ok (True, m)))))"

definition rename_message_received_callback :: "os \<Rightarrow> bytes \<Rightarrow> bytes \<Rightarrow> messenger \<Rightarrow> (bool \<times> messenger) res" where
  "rename_message_received_callback = rename_message_callback"

definition rename_message_requested_callback :: "os \<Rightarrow> bytes \<Rightarrow> bytes \<Rightarrow> messenger \<Rightarrow> (bool \<times> messenger) res" where
  "rename_message_requested_callback = rename_message_callback"

definition add_recv_queue_client_fd :: "bytes \<Rightarrow> receive_queue \<Rightarrow> int \<Rightarrow> messenger \<Rightarrow> (receive_queue \<times> messenger) res" where
  "add_recv_queue_client_fd name rq fd m =
     bnd (watch_fd fd (Some (On_recv name)) None m) (\<lambda>m. Ok (rq\<lparr>rq_client_sockets := fd # rq_client_sockets rq\<rparr>, m))"

definition on_accept :: "os \<Rightarrow> bytes \<Rightarrow> receive_queue \<Rightarrow> messenger \<Rightarrow> (receive_queue \<times> messenger) res" where
  "on_accept os name rq m =
     (case os_accept os of
        Accept_failed \<Rightarrow> Ok (rq, m)
      | Accept_setup_failed fd \<Rightarrow> Ok (rq, close_fd fd m)
      | Accepted fd \<Rightarrow>
          bnd (add_recv_queue_client_fd name rq fd m) (\<lambda>(rq, m).
          bnd (send_dump_message os MESSENGER_DUMP_RECV_CONNECTED name [] m) (\<lambda>m. Ok (rq, m))))"

text \<open>
  \<open>ntohl\<close> and \<open>ntohs\<close> on the two fields of the handle, in place, on a little-endian host.  A message that
  is shorter than what is read of it is a fault.
\<close>

definition ntoh_handle :: "bytes \<Rightarrow> bytes res" where
  "ntoh_handle data =
     (if length data < 8 then Fault Out_of_bounds
      else Ok (rev (take 4 data) @ rev (take 2 (drop 4 data)) @ drop 6 data))"

text \<open>The handle as the host reads it, after the conversion.\<close>

definition host_handle :: "bytes \<Rightarrow> messenger_context_handle" where
  "host_handle data = \<lparr>hdl_transaction_id = be_get (rev (take 4 data)), hdl_service_name_len = be_get (rev (take 2 (drop 4 data))),
     hdl_service_name = drop 8 data\<rparr>"

definition record_upcall :: "messenger_upcall \<Rightarrow> messenger \<Rightarrow> messenger" where
  "record_upcall u m = m\<lparr>ms_upcalls := ms_upcalls m @ [u]\<rparr>"

definition call_received :: "nat \<Rightarrow> 16 word \<Rightarrow> bytes \<Rightarrow> nat \<Rightarrow> messenger \<Rightarrow> messenger res" where
  "call_received function tag data len m =
     (if len > length data then Fault Out_of_bounds else Ok (record_upcall (Received function tag (take len data)) m))"

definition call_requested :: "nat \<Rightarrow> 16 word \<Rightarrow> bytes \<Rightarrow> nat \<Rightarrow> messenger \<Rightarrow> (bytes \<times> messenger) res" where
  "call_requested function tag data len m =
     bnd (ntoh_handle data) (\<lambda>data.
     let handle = host_handle data; header_len = 8 + unat (hdl_service_name_len handle)
     in if len < header_len \<or> len > length data then Fault Out_of_bounds
        else Ok (data, record_upcall (Requested function handle tag (drop header_len (take len data))) m))"

definition call_replied :: "nat \<Rightarrow> 16 word \<Rightarrow> bytes \<Rightarrow> nat \<Rightarrow> messenger \<Rightarrow> (bytes \<times> messenger) res" where
  "call_replied function tag data len m =
     bnd (ntoh_handle data) (\<lambda>data.
     bnd (get_context (hdl_transaction_id (host_handle data)) m) (\<lambda>context.
     case context of
       None \<Rightarrow> Ok (data, m)
     | Some context \<Rightarrow>
         if len < 8 \<or> len > length data then Fault Out_of_bounds
         else Ok (data, delete_context context (record_upcall (Replied function tag (drop 8 (take len data)) (ctx_user_data context)) m))))"

fun call_message_callbacks :: "(nat \<times> byte) list \<Rightarrow> byte \<Rightarrow> 16 word \<Rightarrow> bytes \<Rightarrow> nat \<Rightarrow> messenger \<Rightarrow> messenger res" where
  "call_message_callbacks [] message_type tag data len m = Ok m"
| "call_message_callbacks ((function, ty) # cbs) message_type tag data len m =
     (if ty \<noteq> message_type then call_message_callbacks cbs message_type tag data len m
      else if message_type = MESSAGE_TYPE_NOTIFY then
        bnd (call_received function tag data len m) (call_message_callbacks cbs message_type tag data len)
      else if message_type = MESSAGE_TYPE_REQUEST then
        bnd (call_requested function tag data len m) (\<lambda>(data, m). call_message_callbacks cbs message_type tag data len m)
      else if message_type = MESSAGE_TYPE_REPLY then
        bnd (call_replied function tag data len m) (\<lambda>(data, m). call_message_callbacks cbs message_type tag data len m)
      else Fault Assertion)"

text \<open>
  The first loop of \<open>on_recv\<close>: packets are read as long as there is room for one.  When the list of
  results is at its end, \<open>recv\<close> would block; what was not read is returned.
\<close>

fun recv_loop ::
  "os \<Rightarrow> bytes \<Rightarrow> int \<Rightarrow> recv_result list \<Rightarrow> receive_queue \<Rightarrow> messenger \<Rightarrow> (recv_result list \<times> receive_queue \<times> messenger) res" where
  "recv_loop os name fd rs rq m =
     (let buf_len = message_buffer_remain_bytes (rq_buffer rq) in
      if buf_len \<le> messenger_recv_queue_reserved then Ok (rs, rq, m)
      else case rs of
        [] \<Rightarrow> Ok ([], rq, m)
      | r # rs \<Rightarrow>
          let buf = (case r of Recv_packet p \<Rightarrow> take (min buf_len MESSENGER_RECV_BUFFER) p | _ \<Rightarrow> []) in
          if buf = [] then
            bnd (send_dump_message os MESSENGER_DUMP_RECV_CLOSED name [] m) (\<lambda>m.
            case del_recv_queue_client_fd rq fd m of (rq, m) \<Rightarrow> Ok (rs, rq, close_fd fd m))
          else
            bnd (write_message_buffer (rq_buffer rq) buf) (\<lambda>(ok, b).
            bnd (send_dump_message os (if ok then MESSENGER_DUMP_RECEIVED else MESSENGER_DUMP_RECV_OVERFLOW) name buf m) (\<lambda>m.
            recv_loop os name fd rs (rq\<lparr>rq_buffer := b\<rparr>) m)))"

declare recv_loop.simps [simp del]

lemma truncate_shorter:
  "truncate_message_buffer buf n = Ok buf' \<Longrightarrow> 0 < n \<Longrightarrow> n \<le> mb_data_length buf \<Longrightarrow> mb_data_length buf' < mb_data_length buf"
  by (auto simp: truncate_message_buffer_def Let_def split: if_splits)

lemma pull_shorter:
  "pull_from_recv_queue buf = Ok (Some x, buf') \<Longrightarrow> mb_data_length buf' < mb_data_length buf"
  by (auto simp: pull_from_recv_queue_def Let_def bnd_eq_Ok split: if_splits dest: truncate_shorter)

function pull_loop :: "receive_queue \<Rightarrow> messenger \<Rightarrow> (receive_queue \<times> messenger) res" where
  "pull_loop rq m =
     (case pull_from_recv_queue (rq_buffer rq) of
        Fault e \<Rightarrow> Fault e
      | Ok (None, buf) \<Rightarrow> Ok (rq\<lparr>rq_buffer := buf\<rparr>, m)
      | Ok (Some (message_type, tag, len, data), buf) \<Rightarrow>
          bnd (call_message_callbacks (rq_callbacks rq) message_type tag data len m) (\<lambda>m. pull_loop (rq\<lparr>rq_buffer := buf\<rparr>) m))"
  by pat_completeness auto
termination by (relation "measure (\<lambda>(rq, m). mb_data_length (rq_buffer rq))") (auto dest: pull_shorter)

declare pull_loop.simps [simp del]

definition on_recv ::
  "os \<Rightarrow> bytes \<Rightarrow> int \<Rightarrow> recv_result list \<Rightarrow> receive_queue \<Rightarrow> messenger \<Rightarrow> (recv_result list \<times> receive_queue \<times> messenger) res" where
  "on_recv os name fd rs rq m =
     bnd (recv_loop os name fd rs rq m) (\<lambda>(rs, rq, m).
     bnd (pull_loop rq m) (\<lambda>(rq, m). Ok (rs, rq, m)))"

text \<open>The connection to a service was closed by the service, or sent something, which is ignored.\<close>

definition on_send_read :: "os \<Rightarrow> bytes \<Rightarrow> send_queue \<Rightarrow> messenger \<Rightarrow> messenger res" where
  "on_send_read os name sq m =
     (if \<not> os_server_closed os then Ok m
      else
        bnd (send_dump_message os MESSENGER_DUMP_SEND_CLOSED name [] m) (\<lambda>m.
        let m = unwatch_sender (sq_server_socket sq) m; sq = sq\<lparr>sq_server_socket := -1\<rparr> in
        case sq_buffer sq of
          None \<Rightarrow> Fault Null_deref
        | Some buf \<Rightarrow>
            if mb_data_length buf > 0
            then bnd (send_queue_try_connect os (send_dump_message os) name sq m) (\<lambda>(_, sq, m). Ok (store_send_queue name sq m))
            else delete_send_queue name sq m))"

section \<open>Events\<close>

text \<open>A queue that does not exist any more was freed; a handler that still has it uses freed memory.\<close>

definition with_send_queue :: "bytes \<Rightarrow> messenger \<Rightarrow> (send_queue \<Rightarrow> 'a res) \<Rightarrow> 'a res" where
  "with_send_queue name m k =
     (case Option.bind (send_queues m) (\<lambda>t. map_of t name) of None \<Rightarrow> Fault Use_after_free | Some sq \<Rightarrow> k sq)"

definition with_receive_queue :: "bytes \<Rightarrow> messenger \<Rightarrow> (receive_queue \<Rightarrow> 'a res) \<Rightarrow> 'a res" where
  "with_receive_queue name m k =
     (case Option.bind (receive_queues m) (\<lambda>t. map_of t name) of None \<Rightarrow> Fault Use_after_free | Some rq \<Rightarrow> k rq)"

fun run_messenger_handler ::
  "os \<Rightarrow> messenger_handler \<Rightarrow> int \<Rightarrow> recv_result list \<Rightarrow> messenger \<Rightarrow> (recv_result list \<times> messenger) res" where
  "run_messenger_handler os (On_accept name) fd rs m =
     with_receive_queue name m (\<lambda>rq. bnd (on_accept os name rq m) (\<lambda>(rq, m). Ok (rs, store_receive_queue name rq m)))"
| "run_messenger_handler os (On_recv name) fd rs m =
     with_receive_queue name m (\<lambda>rq. bnd (on_recv os name fd rs rq m) (\<lambda>(rs, rq, m). Ok (rs, store_receive_queue name rq m)))"
| "run_messenger_handler os (On_send_read name) fd rs m =
     with_send_queue name m (\<lambda>sq. bnd (on_send_read os name sq m) (\<lambda>m. Ok (rs, m)))"
| "run_messenger_handler os (On_send_write name) fd rs m =
     with_send_queue name m (\<lambda>sq. bnd (on_send_write os (send_dump_message os) name fd sq m) (\<lambda>(sq, m). Ok (rs, store_send_queue name sq m)))"

definition send_queue_connect_timeout :: "os \<Rightarrow> bytes \<Rightarrow> messenger \<Rightarrow> messenger res" where
  "send_queue_connect_timeout os name m =
     with_send_queue name m (\<lambda>sq.
       bnd (send_queue_connect_timer os (send_dump_message os) name (sq\<lparr>sq_running_timer := False\<rparr>) m) (\<lambda>(_, sq, m).
       Ok (store_send_queue name sq m)))"

section \<open>Life cycle\<close>

definition messenger_dump_enabled :: "messenger \<Rightarrow> bool" where
  "messenger_dump_enabled m \<longleftrightarrow> dump_service_name m \<noteq> None \<and> dump_app_name m \<noteq> None"

definition stop_messenger_dump :: "messenger \<Rightarrow> messenger res" where
  "stop_messenger_dump m =
     (case dump_service_name m of
        None \<Rightarrow> Fault Assertion
      | Some name \<Rightarrow>
          if dump_app_name m = None then Fault Assertion
          else case send_queues m of
            None \<Rightarrow> Fault Assertion
          | Some t \<Rightarrow>
              bnd (case map_of t name of None \<Rightarrow> Ok m | Some sq \<Rightarrow> delete_send_queue name sq m) (\<lambda>m.
              Ok (m\<lparr>dump_service_name := None, dump_app_name := None\<rparr>)))"

definition start_messenger_dump :: "bytes \<Rightarrow> bytes \<Rightarrow> messenger \<Rightarrow> messenger res" where
  "start_messenger_dump app service m =
     bnd (if messenger_dump_enabled m then stop_messenger_dump m else Ok m) (\<lambda>m.
     Ok (m\<lparr>dump_service_name := Some service, dump_app_name := Some app\<rparr>))"

text \<open>The event handler is initialized before the test whether the messenger already is.\<close>

definition init_messenger :: "bytes \<Rightarrow> messenger \<Rightarrow> (bool \<times> messenger) res" where
  "init_messenger working_directory m =
     (let m = on_events init_event_handler m in
      if ms_initialized m then Ok (True, m)
      else if length working_directory \<ge> 4096 then Fault Out_of_bounds
      else Ok (True, m\<lparr>socket_directory := working_directory, receive_queues := Some [], send_queues := Some [], context_db := Some [],
                      ms_initialized := True, ms_finalized := False\<rparr>))"

definition finalize_messenger :: "os \<Rightarrow> messenger \<Rightarrow> (bool \<times> messenger) res" where
  "finalize_messenger os m =
     (if \<not> ms_initialized m then Ok (False, m)
      else if ms_finalized m then Ok (True, m)
      else
        bnd (if messenger_dump_enabled m then stop_messenger_dump m else Ok m) (\<lambda>m.
        bnd (delete_all_receive_queues os m) (\<lambda>m.
        bnd (delete_all_send_queues m) (\<lambda>m.
        let m = delete_context_db m
        in Ok (True, on_events finalize_event_handler (m\<lparr>ms_initialized := False, ms_finalized := True\<rparr>))))))"

definition start_messenger :: "os \<Rightarrow> messenger \<Rightarrow> (bool \<times> messenger) res" where
  "start_messenger os m =
     bnd (add_periodic_event_callback (os_monotonic os) 10 Age_context_db None (ms_timers m)) (\<lambda>(_, t). Ok (True, m\<lparr>ms_timers := t\<rparr>))"

definition stop_messenger :: "messenger \<Rightarrow> bool \<times> messenger" where
  "stop_messenger m = (True, m)"

end
