(* ===== verification/Packetin_Filter.thy ===== *)
theory Packetin_Filter
  imports Match_Table Ofm_Match Switch_Delivery Messenger
begin

text \<open>
  The packet-in filter (\<open>src/packetin_filter/packetin_filter.c\<close>): a process that hands packets in to the
  services whose filter matches, and the requests that add, delete and list filters.

  The record \<open>packetin_filter\<close> is the state of the process: the match table, whose data are lists of
  service names, the next address that the allocator returns, and what was sent.  A list that is
  empty is the null pointer.  A packet comes with what the parser found in it, as the application
  interface passes it on.
\<close>

section \<open>State\<close>

record packetin_filter =
  pf_table :: "bytes list match_head"
  pf_new :: nat
  pf_sent :: "(bytes \<times> 16 word \<times> bytes) list"
  pf_replies :: "(messenger_context_handle \<times> 16 word \<times> bytes) list"

abbreviation MESSENGER_ADD_PACKETIN_FILTER_REQUEST :: "16 word" where "MESSENGER_ADD_PACKETIN_FILTER_REQUEST \<equiv> 0x0010"
abbreviation MESSENGER_ADD_PACKETIN_FILTER_REPLY :: "16 word" where "MESSENGER_ADD_PACKETIN_FILTER_REPLY \<equiv> 0x0011"
abbreviation MESSENGER_DELETE_PACKETIN_FILTER_REQUEST :: "16 word" where "MESSENGER_DELETE_PACKETIN_FILTER_REQUEST \<equiv> 0x0012"
abbreviation MESSENGER_DELETE_PACKETIN_FILTER_REPLY :: "16 word" where "MESSENGER_DELETE_PACKETIN_FILTER_REPLY \<equiv> 0x0013"
abbreviation MESSENGER_DUMP_PACKETIN_FILTER_REQUEST :: "16 word" where "MESSENGER_DUMP_PACKETIN_FILTER_REQUEST \<equiv> 0x0014"
abbreviation MESSENGER_DUMP_PACKETIN_FILTER_REPLY :: "16 word" where "MESSENGER_DUMP_PACKETIN_FILTER_REPLY \<equiv> 0x0015"
abbreviation PACKETIN_FILTER_OPERATION_SUCCEEDED :: byte where "PACKETIN_FILTER_OPERATION_SUCCEEDED \<equiv> 0"
abbreviation PACKETIN_FILTER_OPERATION_FAILED :: byte where "PACKETIN_FILTER_OPERATION_FAILED \<equiv> 1"
abbreviation PACKETIN_FILTER_FLAG_MATCH_STRICT :: byte where "PACKETIN_FILTER_FLAG_MATCH_STRICT \<equiv> 1"
abbreviation ETHERIP_VERSION :: "16 word" where "ETHERIP_VERSION \<equiv> 0x3000"
abbreviation OFP_DEFAULT_PRIORITY :: "16 word" where "OFP_DEFAULT_PRIORITY \<equiv> 0x8000"

text \<open>
  The size of a \<open>packetin_filter_entry\<close>: a match, a priority and a name of 32 bytes, packed.
  \<open>name_field\<close> is what \<open>strncpy\<close> and the null character stored at the end leave in the last field.
\<close>

definition filter_entry_size :: nat where
  "filter_entry_size = 74"

definition name_field :: "bytes \<Rightarrow> bytes" where
  "name_field name = take 31 (name @ replicate 31 0) @ [0]"

definition hton_filter_entry :: "ofp_match \<Rightarrow> 16 word \<Rightarrow> bytes \<Rightarrow> bytes" where
  "hton_filter_entry match priority name = hton_match match @ put16 priority @ name_field name"

text \<open>\<open>strcmp\<close> of a string with memory that may have no null character.\<close>

fun strcmp_equal :: "bytes \<Rightarrow> bytes \<Rightarrow> bool res" where
  "strcmp_equal s [] = Fault Out_of_bounds"
| "strcmp_equal [] (b # bs) = Ok (b = 0)"
| "strcmp_equal (c # cs) (b # bs) = (if c = b then strcmp_equal cs bs else Ok False)"

definition services_of :: "bytes list option \<Rightarrow> bytes list" where
  "services_of r = (case r of None \<Rightarrow> [] | Some services \<Rightarrow> services)"

section \<open>Packets in\<close>

definition filter_parse_etherip :: "bytes \<Rightarrow> packet_info \<Rightarrow> packet_info option res" where
  "filter_parse_etherip data info =
     (if etherip_version info \<noteq> ETHERIP_VERSION then Ok None
      else if etherip_offset info = 0 then Ok None
      else assert_then (length data \<ge> unat (etherip_offset info))
        (bnd (parse_packet (drop (unat (etherip_offset info)) data)) (\<lambda>copy. Ok (Some copy))))"

text \<open>The loop ends at the first service for which the messenger does not accept the message.\<close>

fun send_to_services ::
  "(bytes \<Rightarrow> bool) \<Rightarrow> bytes list \<Rightarrow> bytes \<Rightarrow> packetin_filter \<Rightarrow> packetin_filter" where
  "send_to_services accepts [] message s = s"
| "send_to_services accepts (service # services) message s =
     (if accepts service
      then send_to_services accepts services message
             (s\<lparr>pf_sent := pf_sent s @ [(service, MESSENGER_OPENFLOW_MESSAGE, message)]\<rparr>)
      else s)"

definition filter_handle_packet_in ::
  "(bytes \<Rightarrow> bool) \<Rightarrow> 64 word \<Rightarrow> 32 word \<Rightarrow> 32 word \<Rightarrow> 16 word \<Rightarrow> 16 word \<Rightarrow> byte \<Rightarrow> (bytes \<times> packet_info) option \<Rightarrow>
   packetin_filter \<Rightarrow> packetin_filter res" where
  "filter_handle_packet_in accepts datapath_id transaction_id buffer_id total_len port reason data s =
     (case data of
        None \<Rightarrow> Fault Null_deref
      | Some (packet, info) \<Rightarrow>
          bnd (if packet_type_ipv4_etherip (Some info) then filter_parse_etherip packet info else Ok None) (\<lambda>copy.
          let match = set_match_from_packet port 0 (case copy of Some i \<Rightarrow> i | None \<Rightarrow> info) in
          bnd (lookup_match_entry (pf_table s) match) (\<lambda>r.
          let services = services_of r in
          if services = [] then Ok s
          else
            bnd (create_packet_in transaction_id buffer_id total_len port reason (Some packet)) (\<lambda>m.
            bnd (append_front_buffer (exact_buffer m) 10) (\<lambda>b.
            bnd (store_buffer b (data_offset b) (put64 datapath_id @ put16 0)) (\<lambda>b.
            Ok (send_to_services accepts services (buf_contents b) s)))))))"

section \<open>The table of filters\<close>

definition init_packetin_match_table :: "packetin_filter \<Rightarrow> packetin_filter res" where
  "init_packetin_match_table s = bnd (init_match_table (pf_table s)) (\<lambda>h. Ok (s\<lparr>pf_table := h\<rparr>))"

definition finalize_packetin_match_table :: "packetin_filter \<Rightarrow> packetin_filter res" where
  "finalize_packetin_match_table s =
     bnd (foreach_match_table (pf_table s) (Some (\<lambda>match priority services user_data. user_data)) ()) (\<lambda>_.
     bnd (finalize_match_table (pf_table s)) (\<lambda>h. Ok (s\<lparr>pf_table := h\<rparr>)))"

definition add_packetin_match_entry ::
  "ofp_match \<Rightarrow> 16 word \<Rightarrow> bytes \<Rightarrow> packetin_filter \<Rightarrow> (bool \<times> packetin_filter) res" where
  "add_packetin_match_entry match priority service_name s =
     bnd (lookup_match_strict_entry (pf_table s) match priority) (\<lambda>r.
     let services = services_of r in
     if services = []
     then bnd (insert_match_entry (pf_table s) (pf_new s) match priority (append_to_tail create_list service_name)) (\<lambda>(h, _).
          Ok (True, s\<lparr>pf_table := h, pf_new := Suc (pf_new s)\<rparr>))
     else if list_ex (\<lambda>x. x = service_name) services then Ok (False, s)
     else bnd (update_match_entry (pf_table s) match priority (append_to_tail services service_name)) (\<lambda>(h, _).
          Ok (True, s\<lparr>pf_table := h\<rparr>)))"

text \<open>
  The loop goes over the list as it was and deletes from \<open>head\<close>.  The source deletes by address; the first
  string that is equal stands for it, which leaves the same strings.
\<close>

fun delete_services_loop ::
  "bytes list \<Rightarrow> bytes \<Rightarrow> bytes list \<Rightarrow> int \<Rightarrow> int \<Rightarrow> (bytes list \<times> int \<times> int) res" where
  "delete_services_loop [] service_name head n_deleted n_remaining = Ok (head, n_deleted, n_remaining)"
| "delete_services_loop (service # services) service_name head n_deleted n_remaining =
     bnd (strcmp_equal service service_name) (\<lambda>equal.
     if equal
     then bnd (delete_element head service) (\<lambda>(head, _).
          delete_services_loop services service_name head (n_deleted + 1) n_remaining)
     else delete_services_loop services service_name head n_deleted (n_remaining + 1))"

definition delete_packetin_match_entry ::
  "ofp_match \<Rightarrow> 16 word \<Rightarrow> bytes \<Rightarrow> packetin_filter \<Rightarrow> (int \<times> packetin_filter) res" where
  "delete_packetin_match_entry match priority service_name s =
     bnd (delete_match_strict_entry (pf_table s) match priority) (\<lambda>(h, r).
     let head = services_of r in
     if head = [] then Ok (0, s\<lparr>pf_table := h\<rparr>)
     else
       bnd (delete_services_loop head service_name head 0 0) (\<lambda>(head, n_deleted, n_remaining).
       if n_remaining = 0 then Ok (n_deleted, s\<lparr>pf_table := h\<rparr>)
       else bnd (insert_match_entry h (pf_new s) match priority head) (\<lambda>(h, _).
            Ok (n_deleted, s\<lparr>pf_table := h, pf_new := Suc (pf_new s)\<rparr>))))"

section \<open>Rules on the command line\<close>

definition register_dl_type_filter :: "16 word \<Rightarrow> 16 word \<Rightarrow> bytes \<Rightarrow> packetin_filter \<Rightarrow> packetin_filter res" where
  "register_dl_type_filter type priority service_name s =
     bnd (add_packetin_match_entry (all_match\<lparr>wildcards := OFPFW_ALL AND NOT OFPFW_DL_TYPE, dl_type := type\<rparr>)
            priority service_name s) (\<lambda>(_, s). Ok s)"

definition register_any_filter :: "16 word \<Rightarrow> bytes \<Rightarrow> packetin_filter \<Rightarrow> packetin_filter res" where
  "register_any_filter priority service_name s =
     bnd (add_packetin_match_entry all_match priority service_name s) (\<lambda>(_, s). Ok s)"

definition match_type :: "bytes \<Rightarrow> bytes \<Rightarrow> bytes option" where
  "match_type type name = (if take (length type) name = type then Some (drop (length type) name) else None)"

definition LLDP_PACKET_IN :: bytes where
  "LLDP_PACKET_IN = map of_char ''lldp::''"

definition ANY_PACKET_IN :: bytes where
  "ANY_PACKET_IN = map of_char ''packet_in::''"

fun set_match_type :: "bytes list \<Rightarrow> packetin_filter \<Rightarrow> (bool \<times> packetin_filter) res" where
  "set_match_type [] s = Ok (True, s)"
| "set_match_type (arg # args) s =
     (case match_type LLDP_PACKET_IN arg of
        Some service_name \<Rightarrow>
          bnd (register_dl_type_filter ETH_ETHTYPE_LLDP OFP_DEFAULT_PRIORITY service_name s) (set_match_type args)
      | None \<Rightarrow>
          (case match_type ANY_PACKET_IN arg of
             Some service_name \<Rightarrow> bnd (register_any_filter 0 service_name s) (set_match_type args)
           | None \<Rightarrow> Ok (False, s)))"

section \<open>Requests\<close>

definition send_filter_reply ::
  "bool \<Rightarrow> messenger_context_handle \<Rightarrow> 16 word \<Rightarrow> bytes \<Rightarrow> packetin_filter \<Rightarrow> packetin_filter" where
  "send_filter_reply accepts handle tag data s =
     (if accepts then s\<lparr>pf_replies := pf_replies s @ [(handle, tag, data)]\<rparr> else s)"

definition handle_add_filter_request ::
  "bool \<Rightarrow> messenger_context_handle \<Rightarrow> bytes \<Rightarrow> packetin_filter \<Rightarrow> packetin_filter res" where
  "handle_add_filter_request accepts handle request s =
     bnd (wr 73 [0] request) (\<lambda>request.
     let service_name = cstring (drop 42 request) in
     if service_name = [] then Ok s
     else
       bnd (ntoh_match request 0) (\<lambda>match.
       bnd (rd16 request 40) (\<lambda>priority.
       bnd (add_packetin_match_entry match priority service_name s) (\<lambda>(ret, s).
       Ok (send_filter_reply accepts handle MESSENGER_ADD_PACKETIN_FILTER_REPLY
             [if ret then PACKETIN_FILTER_OPERATION_SUCCEEDED else PACKETIN_FILTER_OPERATION_FAILED] s)))))"

text \<open>
  The walkers change what \<open>map_match_table\<close> walks over: it has the next element before it calls, and a
  walker deletes nothing but the entry it is called with, so the walk is one over the table as it was.
\<close>

definition delete_filter_walker ::
  "ofp_match \<Rightarrow> 16 word \<Rightarrow> bytes list \<Rightarrow> (32 word \<times> packetin_filter) res \<Rightarrow> (32 word \<times> packetin_filter) res" where
  "delete_filter_walker match priority data r =
     bnd r (\<lambda>(n_deleted, s).
     bnd (delete_match_strict_entry (pf_table s) match priority) (\<lambda>(h, r).
     Ok (n_deleted + of_nat (length (services_of r)), s\<lparr>pf_table := h\<rparr>)))"

definition handle_delete_filter_request ::
  "bool \<Rightarrow> messenger_context_handle \<Rightarrow> bytes \<Rightarrow> packetin_filter \<Rightarrow> packetin_filter res" where
  "handle_delete_filter_request accepts handle request s =
     bnd (ntoh_match request 0) (\<lambda>match.
     bnd (rd16 request 40) (\<lambda>priority.
     bnd (rd8 request 74) (\<lambda>flags.
     bnd (if flags AND PACKETIN_FILTER_FLAG_MATCH_STRICT \<noteq> 0
          then bnd (delete_packetin_match_entry match priority (drop 42 request) s) (\<lambda>(n, s). Ok (of_int n, s))
          else bnd (map_match_table (pf_table s) match (Some delete_filter_walker) (Ok (0, s))) (\<lambda>r. r)) (\<lambda>(n_deleted, s).
     Ok (send_filter_reply accepts handle MESSENGER_DELETE_PACKETIN_FILTER_REPLY
           (PACKETIN_FILTER_OPERATION_SUCCEEDED # put32 n_deleted) s)))))"

text \<open>
  The buffer of a dump reply, with the number of the block it is in: \<open>append_back_buffer\<close> frees the block when
  it does not suffice, and a pointer to the reply is good only for its own block.  The count is kept
  apart until it is converted to network byte order.
\<close>

record dump_reply =
  dmp_buffer :: buffer
  dmp_block :: nat
  dmp_n_entries :: "32 word"

definition append_filter_entry :: "bytes \<Rightarrow> dump_reply \<Rightarrow> dump_reply res" where
  "append_filter_entry entry d =
     bnd (append_back_buffer (dmp_buffer d) filter_entry_size) (\<lambda>(b, offset).
     bnd (store_buffer b offset entry) (\<lambda>b.
     Ok (d\<lparr>dmp_buffer := b,
           dmp_block := (if already_allocated (dmp_buffer d) filter_entry_size then dmp_block d else dmp_block d + 1)\<rparr>)))"

definition count_filter_entry :: "nat \<Rightarrow> dump_reply \<Rightarrow> dump_reply res" where
  "count_filter_entry reply d =
     (if reply \<noteq> dmp_block d then Fault Use_after_free else Ok (d\<lparr>dmp_n_entries := dmp_n_entries d + 1\<rparr>))"

fun dump_services :: "nat \<Rightarrow> ofp_match \<Rightarrow> 16 word \<Rightarrow> bytes list \<Rightarrow> dump_reply \<Rightarrow> dump_reply res" where
  "dump_services reply match priority [] d = Ok d"
| "dump_services reply match priority (service # services) d =
     bnd (count_filter_entry reply d) (\<lambda>d.
     bnd (append_filter_entry (hton_filter_entry match priority service) d)
       (dump_services reply match priority services))"

definition dump_filter_walker ::
  "ofp_match \<Rightarrow> 16 word \<Rightarrow> bytes list \<Rightarrow> dump_reply res \<Rightarrow> dump_reply res" where
  "dump_filter_walker match priority data r = bnd r (\<lambda>d. dump_services (dmp_block d) match priority data d)"

text \<open>The match and the priority are copied from the request as they are.\<close>

fun dump_strict :: "nat \<Rightarrow> bytes \<Rightarrow> bytes list \<Rightarrow> dump_reply \<Rightarrow> dump_reply res" where
  "dump_strict reply request [] d = Ok d"
| "dump_strict reply request (service # services) d =
     bnd (strcmp_equal service (drop 42 request)) (\<lambda>equal.
     bnd (if equal
          then bnd (append_filter_entry (take 42 request @ name_field service) d) (count_filter_entry reply)
          else Ok d)
       (dump_strict reply request services))"

definition handle_dump_filter_request ::
  "bool \<Rightarrow> messenger_context_handle \<Rightarrow> bytes \<Rightarrow> packetin_filter \<Rightarrow> packetin_filter res" where
  "handle_dump_filter_request accepts handle request s =
     bnd (alloc_buffer_with_length 2048) (\<lambda>buf.
     bnd (append_back_buffer buf 5) (\<lambda>(buf, offset).
     bnd (store_buffer buf offset (PACKETIN_FILTER_OPERATION_SUCCEEDED # put32 0)) (\<lambda>buf.
     let d = \<lparr>dmp_buffer = buf, dmp_block = 0, dmp_n_entries = 0\<rparr> in
     bnd (ntoh_match request 0) (\<lambda>match.
     bnd (rd16 request 40) (\<lambda>priority.
     bnd (rd8 request 74) (\<lambda>flags.
     bnd (if flags AND PACKETIN_FILTER_FLAG_MATCH_STRICT \<noteq> 0
          then bnd (lookup_match_strict_entry (pf_table s) match priority) (\<lambda>r. dump_strict 0 request (services_of r) d)
          else bnd (map_match_table (pf_table s) match (Some dump_filter_walker) (Ok d)) (\<lambda>r. r)) (\<lambda>d.
     if dmp_block d \<noteq> 0 then Fault Use_after_free
     else
       bnd (store_buffer (dmp_buffer d) (offset + 1) (put32 (dmp_n_entries d))) (\<lambda>buf.
       Ok (send_filter_reply accepts handle MESSENGER_DUMP_PACKETIN_FILTER_REPLY (buf_contents buf) s)))))))))"

definition filter_handle_request ::
  "bool \<Rightarrow> messenger_context_handle \<Rightarrow> 16 word \<Rightarrow> bytes \<Rightarrow> packetin_filter \<Rightarrow> packetin_filter res" where
  "filter_handle_request accepts handle tag data s =
     (if tag = MESSENGER_ADD_PACKETIN_FILTER_REQUEST
      then if length data \<noteq> filter_entry_size then Ok s else handle_add_filter_request accepts handle data s
      else if tag = MESSENGER_DELETE_PACKETIN_FILTER_REQUEST
      then if length data \<noteq> filter_entry_size + 1 then Ok s else handle_delete_filter_request accepts handle data s
      else if tag = MESSENGER_DUMP_PACKETIN_FILTER_REQUEST
      then if length data \<noteq> filter_entry_size + 1 then Ok s else handle_dump_filter_request accepts handle data s
      else Ok s)"

text \<open>The state in which \<open>main\<close> calls \<open>start_trema\<close>; \<open>False\<close> when it exits because of a wrong rule.\<close>

definition start_packetin_filter :: "bytes list \<Rightarrow> (bool \<times> packetin_filter) res" where
  "start_packetin_filter args =
     bnd (init_packetin_match_table \<lparr>pf_table = None, pf_new = 1, pf_sent = [], pf_replies = []\<rparr>) (\<lambda>s.
     bnd (set_match_type args s) (\<lambda>(ret, s).
     if ret then Ok (True, s) else bnd (finalize_packetin_match_table s) (\<lambda>s. Ok (False, s))))"

end
