(* ===== verification/Packetin_Filter_Interface.thy ===== *)
theory Packetin_Filter_Interface
  imports Packetin_Filter
begin

text \<open>
  The client of the packet-in filter (\<open>src/lib/packetin_filter_interface.c\<close>).  A name that is passed in is
  the memory from the pointer on, since the functions copy from it without regard to its length.  The requests
  are recorded with the data that the messenger keeps for the reply, and so are the calls of callbacks.
\<close>

record handler_data =
  hd_callback :: "nat option"
  hd_user_data :: nat

record packetin_filter_entry =
  pfe_match :: ofp_match
  pfe_priority :: "16 word"
  pfe_service_name :: bytes

datatype filter_call =
  Filter_added nat int nat
| Filter_deleted nat int int nat
| Filter_dumped nat int int "packetin_filter_entry list option" nat

record filter_client =
  fcl_initialized :: bool
  client_service_name :: bytes
  fcl_replied_callbacks :: "bytes list"
  fcl_requests :: "(bytes \<times> bytes \<times> 16 word \<times> bytes \<times> handler_data) list"
  fcl_calls :: "filter_call list"

definition PACKETIN_FILTER_MANAGEMENT_SERVICE :: bytes where
  "PACKETIN_FILTER_MANAGEMENT_SERVICE = map of_char ''packetin_filter_management''"

definition set_client_service_name :: "32 word \<Rightarrow> filter_client \<Rightarrow> filter_client" where
  "set_client_service_name pid c =
     c\<lparr>client_service_name := take 31 (map of_char ''packetin_filter.'' @ decimal (unat pid))\<rparr>"

definition init_packetin_filter_interface :: "32 word \<Rightarrow> filter_client \<Rightarrow> bool \<times> filter_client" where
  "init_packetin_filter_interface pid c =
     (if fcl_initialized c then (False, c)
      else
        let c = set_client_service_name pid c
        in (True, c\<lparr>fcl_replied_callbacks := fcl_replied_callbacks c @ [client_service_name c], fcl_initialized := True\<rparr>))"

definition finalize_packetin_filter_interface :: "filter_client \<Rightarrow> bool \<times> filter_client" where
  "finalize_packetin_filter_interface c =
     (if \<not> fcl_initialized c then (False, c)
      else (True, c\<lparr>fcl_replied_callbacks := remove1 (client_service_name c) (fcl_replied_callbacks c), fcl_initialized := False\<rparr>))"

definition maybe_init_packetin_filter_interface :: "32 word \<Rightarrow> filter_client \<Rightarrow> filter_client" where
  "maybe_init_packetin_filter_interface pid c =
     (if fcl_initialized c then c else snd (init_packetin_filter_interface pid c))"

section \<open>Requests\<close>

definition send_filter_request ::
  "bool \<Rightarrow> 16 word \<Rightarrow> bytes \<Rightarrow> handler_data \<Rightarrow> filter_client \<Rightarrow> bool \<times> filter_client" where
  "send_filter_request accepts tag request data c =
     (accepts, if accepts
        then c\<lparr>fcl_requests := fcl_requests c @ [(PACKETIN_FILTER_MANAGEMENT_SERVICE, client_service_name c, tag, request, data)]\<rparr>
        else c)"

definition add_packetin_filter ::
  "bool \<Rightarrow> 32 word \<Rightarrow> ofp_match \<Rightarrow> 16 word \<Rightarrow> bytes option \<Rightarrow> nat option \<Rightarrow> nat \<Rightarrow> filter_client \<Rightarrow> (bool \<times> filter_client) res" where
  "add_packetin_filter accepts pid match priority service_name callback user_data c =
     (case service_name of
        None \<Rightarrow> Ok (False, c)
      | Some name \<Rightarrow>
          bnd (c_string name) (\<lambda>string.
          if string = [] then Ok (False, c)
          else
            let c = maybe_init_packetin_filter_interface pid c;
                data = \<lparr>hd_callback = callback, hd_user_data = user_data\<rparr> in
            bnd (rd_struct 32 name 0) (\<lambda>field.
            Ok (send_filter_request accepts MESSENGER_ADD_PACKETIN_FILTER_REQUEST
                  (hton_match match @ put16 priority @ field) data c))))"

text \<open>\<open>strncpy\<close> reads up to the null character, or 32 bytes.\<close>

definition string_field :: "bytes option \<Rightarrow> bytes res" where
  "string_field service_name =
     (case service_name of
        None \<Rightarrow> Ok (replicate 32 0)
      | Some name \<Rightarrow> if 0 \<in> set name \<or> 32 \<le> length name then Ok (name_field (cstring name)) else Fault Out_of_bounds)"

definition criteria_request :: "ofp_match \<Rightarrow> 16 word \<Rightarrow> bytes \<Rightarrow> bool \<Rightarrow> bytes" where
  "criteria_request match priority field strict =
     hton_match match @ put16 priority @ field @ [if strict then PACKETIN_FILTER_FLAG_MATCH_STRICT else 0]"

definition delete_packetin_filter ::
  "bool \<Rightarrow> 32 word \<Rightarrow> ofp_match \<Rightarrow> 16 word \<Rightarrow> bytes option \<Rightarrow> bool \<Rightarrow> nat option \<Rightarrow> nat \<Rightarrow> filter_client \<Rightarrow>
   (bool \<times> filter_client) res" where
  "delete_packetin_filter accepts pid match priority service_name strict callback user_data c =
     (let c = maybe_init_packetin_filter_interface pid c;
          data = \<lparr>hd_callback = callback, hd_user_data = user_data\<rparr> in
      bnd (string_field service_name) (\<lambda>field.
      Ok (send_filter_request accepts MESSENGER_DELETE_PACKETIN_FILTER_REQUEST (criteria_request match priority field strict) data c)))"

definition dump_packetin_filter ::
  "bool \<Rightarrow> 32 word \<Rightarrow> ofp_match \<Rightarrow> 16 word \<Rightarrow> bytes option \<Rightarrow> bool \<Rightarrow> nat option \<Rightarrow> nat \<Rightarrow> filter_client \<Rightarrow>
   (bool \<times> filter_client) res" where
  "dump_packetin_filter accepts pid match priority service_name strict callback user_data c =
     (let c = maybe_init_packetin_filter_interface pid c;
          data = \<lparr>hd_callback = callback, hd_user_data = user_data\<rparr> in
      bnd (string_field service_name) (\<lambda>field.
      Ok (send_filter_request accepts MESSENGER_DUMP_PACKETIN_FILTER_REQUEST (criteria_request match priority field strict) data c)))"

section \<open>Replies\<close>

definition addition_completed :: "int \<Rightarrow> handler_data \<Rightarrow> filter_client \<Rightarrow> filter_client" where
  "addition_completed status data c =
     (case hd_callback data of
        None \<Rightarrow> c
      | Some f \<Rightarrow> c\<lparr>fcl_calls := fcl_calls c @ [Filter_added f status (hd_user_data data)]\<rparr>)"

definition deletion_completed :: "int \<Rightarrow> int \<Rightarrow> handler_data \<Rightarrow> filter_client \<Rightarrow> filter_client" where
  "deletion_completed status n_deleted data c =
     (case hd_callback data of
        None \<Rightarrow> c
      | Some f \<Rightarrow> c\<lparr>fcl_calls := fcl_calls c @ [Filter_deleted f status n_deleted (hd_user_data data)]\<rparr>)"

definition dump_completed ::
  "int \<Rightarrow> int \<Rightarrow> packetin_filter_entry list option \<Rightarrow> handler_data \<Rightarrow> filter_client \<Rightarrow> filter_client" where
  "dump_completed status n_entries entries data c =
     (case hd_callback data of
        None \<Rightarrow> c
      | Some f \<Rightarrow> c\<lparr>fcl_calls := fcl_calls c @ [Filter_dumped f status n_entries entries (hd_user_data data)]\<rparr>)"

definition ntoh_packetin_filter_entry :: "bytes \<Rightarrow> nat \<Rightarrow> packetin_filter_entry res" where
  "ntoh_packetin_filter_entry m i =
     bnd (ntoh_match m i) (\<lambda>match.
     bnd (rd16 m (i + 40)) (\<lambda>priority.
     bnd (rd_struct 32 m (i + 42)) (\<lambda>service_name.
     Ok \<lparr>pfe_match = match, pfe_priority = priority, pfe_service_name = service_name\<rparr>)))"

fun ntoh_filter_entries :: "bytes \<Rightarrow> nat \<Rightarrow> nat \<Rightarrow> packetin_filter_entry list res" where
  "ntoh_filter_entries m i 0 = Ok []"
| "ntoh_filter_entries m i (Suc n) =
     bnd (ntoh_packetin_filter_entry m i) (\<lambda>e.
     bnd (ntoh_filter_entries m (i + filter_entry_size) n) (\<lambda>es. Ok (e # es)))"

definition filter_handle_reply :: "16 word \<Rightarrow> bytes \<Rightarrow> handler_data \<Rightarrow> filter_client \<Rightarrow> filter_client res" where
  "filter_handle_reply tag data user_data c =
     (if tag = MESSENGER_ADD_PACKETIN_FILTER_REPLY then
        if length data \<noteq> 1 then Ok c
        else bnd (rd8 data 0) (\<lambda>status. Ok (addition_completed (uint status) user_data c))
      else if tag = MESSENGER_DELETE_PACKETIN_FILTER_REPLY then
        if length data \<noteq> 5 then Ok c
        else bnd (rd8 data 0) (\<lambda>status. bnd (rd32 data 1) (\<lambda>n_deleted.
             Ok (deletion_completed (uint status) (sint n_deleted) user_data c)))
      else if tag = MESSENGER_DUMP_PACKETIN_FILTER_REPLY then
        if length data < 5 then Ok c
        else bnd (rd8 data 0) (\<lambda>status. bnd (rd32 data 1) (\<lambda>n.
             if length data \<noteq> 5 + filter_entry_size * unat n then Ok c
             else
               let n_entries = sint n in
               bnd (if n_entries > 0 then bnd (ntoh_filter_entries data 5 (nat n_entries)) (\<lambda>es. Ok (Some es)) else Ok None) (\<lambda>entries.
               Ok (dump_completed (uint status) n_entries entries user_data c))))
      else Ok c)"

end
