(* ===== verification/Packetin_Filter_Table.thy ===== *)
theory Packetin_Filter_Table
  imports Packetin_Filter_Interface
begin

text \<open>
  The table of the packet-in filter as a map from flows to lists of services, and what the operations of the
  filter do to that map.
\<close>

section \<open>The entries of a match table\<close>

text \<open>An entry of the exact table is found under its own match, and the other table has no exact match.\<close>

definition own_matches :: "'d match_table \<Rightarrow> bool" where
  "own_matches t \<longleftrightarrow> (\<forall>m e. lookup_hash_entry (exact_table t) m = Some e \<longrightarrow> compare_match_strict (me_match e) m) \<and>
     (\<forall>e \<in> set (wildcards_table t). \<not> exact_match (me_match e))"

lemma compare_strict_refl [simp]: "compare_match_strict m m"
  by (simp add: compare_match_strict_key)

lemma own_matches_init: "init_match_table None = Ok (Some t) \<Longrightarrow> own_matches t"
  by (auto simp: own_matches_def init_match_table_def die_unless_def init_exact_match_table_def create_hash_def default_hash_size_def
      exact_keys.lookup_create create_list_def)

lemma own_matches_insert:
  assumes "table_inv t" and "own_matches t" and "insert_match_entry (Some t) new m p d = Ok (Some t', r)"
  shows "own_matches t'"
proof (cases "exact_match m")
  case True
  let ?e = "allocate_match_entry new m 0 d"
  have x: "exact_tbl (exact_table t)" using assms(1) by (simp add: table_inv_def)
  have "t' = (if lookup_hash_entry (exact_table t) m = None then t\<lparr>exact_table := fst (insert_hash_entry (exact_table t) m ?e)\<rparr> else t)"
    using assms(3) True by (auto simp: insert_match_entry_def with_table_def insert_exact_match_entry_def assert_then_def case_prod_beta Let_def
        bnd_eq_Ok split: if_splits option.splits)
  then show ?thesis using assms(2) True exact_keys.lookup_insert [OF x True, of ?e]
    by (auto simp: own_matches_def compare_exact_match_entry_def strict_key_sym allocate_match_entry_def split: if_splits)
next
  case False
  have w: "wild_inv (wildcards_table t)" using assms(1) by (simp add: table_inv_def)
  have "t' = t\<lparr>wildcards_table := (if wild_find (wildcards_table t) m p = None
      then wild_insert (wildcards_table t) (allocate_match_entry new m p d) else wildcards_table t)\<rparr>"
    using assms(3) False by (auto simp: insert_match_entry_def with_table_def insert_wildcards_eq [OF w])
  then show ?thesis using assms(2) False by (auto simp: own_matches_def allocate_match_entry_def)
qed

lemma own_matches_update:
  assumes "table_inv t" and "own_matches t" and "update_match_entry (Some t) m p d = Ok (Some t', r)"
  shows "own_matches t'"
proof (cases "exact_match m")
  case True
  have x: "exact_tbl (exact_table t)" using assms(1) by (simp add: table_inv_def)
  show ?thesis using assms(2,3) True lookup_store [OF x True]
    by (auto simp: own_matches_def update_match_entry_def with_table_def update_exact_match_entry_def split: option.splits if_splits)
next
  case False
  have w: "wild_inv (wildcards_table t)" using assms(1) by (simp add: table_inv_def)
  show ?thesis using assms(2,3) False by (auto simp: own_matches_def update_match_entry_def with_table_def update_wildcards_eq [OF w])
qed

lemma own_matches_delete:
  assumes "table_inv t" and "own_matches t" and "delete_match_strict_entry (Some t) m p = Ok (Some t', r)"
  shows "own_matches t'"
proof (cases "exact_match m")
  case True
  have x: "exact_tbl (exact_table t)" using assms(1) by (simp add: table_inv_def)
  show ?thesis using assms(2,3) True exact_keys.lookup_delete [OF x True]
    by (auto simp: own_matches_def delete_match_strict_entry_def with_table_def delete_exact_match_strict_entry_def
        split: option.splits if_splits)
next
  case False
  have w: "wild_inv (wildcards_table t)" using assms(1) by (simp add: table_inv_def)
  show ?thesis using assms(2,3) False
    by (auto simp: own_matches_def delete_match_strict_entry_def with_table_def delete_wildcards_eq [OF w])
qed

text \<open>The entries in the order in which the table is walked; each is the one that its flow leads to.\<close>

definition flow_entries :: "'d match_table \<Rightarrow> 'd match_entry list" where
  "flow_entries t = map snd (hash_entries (exact_table t)) @ wildcards_table t"

abbreviation entry_flow :: "'d match_entry \<Rightarrow> 16 word option \<times> _" where
  "entry_flow e \<equiv> flow_key (me_match e) (me_priority e)"

lemma exact_entry:
  assumes "table_inv t" and "own_matches t" and "(k, e) \<in> set (hash_entries (exact_table t))"
  shows "exact_match k" and "strict_key (me_match e) = strict_key k" and "exact_match (me_match e)"
    and "lookup_hash_entry (exact_table t) (me_match e) = Some e"
proof -
  have x: "exact_tbl (exact_table t)" using assms(1) by (simp add: table_inv_def)
  obtain i where "(k, e) \<in> set (bucket_of (exact_table t) i)" using assms(3) by (auto simp: hash_entries_def)
  then show k: "exact_match k" using exact_keys.tbl_bucket(2) [OF x, of i] by auto
  have l: "lookup_hash_entry (exact_table t) k = Some e"
    using exact_keys.entries_lookup [OF x, of k e] assms(3) by (auto simp: compare_exact_match_entry_def)
  have o: "compare_match_strict (me_match e) k" using assms(2) l by (simp add: own_matches_def)
  then show "strict_key (me_match e) = strict_key k" by (simp add: compare_match_strict_key)
  show "exact_match (me_match e)" using strict_exact_iff [OF o] k by simp
  show "lookup_hash_entry (exact_table t) (me_match e) = Some e"
    using lookup_strict_cong [OF x, of k "me_match e"] o l by (simp add: strict_key_sym)
qed

lemma entry_of_flow:
  assumes "table_inv t" and "own_matches t" and "e \<in> set (flow_entries t)"
  shows "strict_entry t (me_match e) (me_priority e) = Some (me_data e)"
proof (cases "e \<in> set (wildcards_table t)")
  case True
  have "distinct (map wild_key (wildcards_table t))" using assms(1) by (simp add: table_inv_def wild_inv_def)
  then have "wild_find (wildcards_table t) (me_match e) (me_priority e) = Some e" using wild_find_Some [of "wildcards_table t"] True by simp
  then show ?thesis using assms(2) True by (simp add: strict_entry_def own_matches_def)
next
  case False
  then obtain k where "(k, e) \<in> set (hash_entries (exact_table t))" using assms(3) by (auto simp: flow_entries_def)
  from exact_entry [OF assms(1,2) this] show ?thesis by (simp add: strict_entry_def)
qed

lemma flow_has_entry:
  assumes "table_inv t" and "own_matches t" and "strict_entry t m p = Some d"
  shows "\<exists>e \<in> set (flow_entries t). same_flow (me_match e) (me_priority e) m p \<and> me_data e = d"
proof (cases "exact_match m")
  case True
  have x: "exact_tbl (exact_table t)" using assms(1) by (simp add: table_inv_def)
  obtain e where e: "lookup_hash_entry (exact_table t) m = Some e" "me_data e = d" using assms(3) True by (auto simp: strict_entry_def)
  then obtain k where "(k, e) \<in> set (hash_entries (exact_table t))" using exact_keys.entries_lookup [OF x] by blast
  moreover have "compare_match_strict (me_match e) m" using assms(2) e(1) by (simp add: own_matches_def)
  ultimately show ?thesis using True strict_exact_iff [of "me_match e" m] e(2) by (force simp: flow_entries_def same_flow_def)
next
  case False
  then obtain e where e: "wild_find (wildcards_table t) m p = Some e" "me_data e = d" using assms(3) by (auto simp: strict_entry_def)
  moreover have "distinct (map wild_key (wildcards_table t))" using assms(1) by (simp add: table_inv_def wild_inv_def)
  ultimately have "e \<in> set (wildcards_table t)" "wild_key e = (p, strict_key m)" using wild_find_Some by blast+
  then show ?thesis using e(2) by (force simp: flow_entries_def same_flow_def compare_match_strict_key)
qed

lemma exact_flows_distinct:
  assumes "keys_apart compare_exact_match_entry es" and "\<forall>(k, e) \<in> set es. strict_key (me_match e) = strict_key k"
  shows "distinct (map (\<lambda>x. strict_key (me_match (snd x))) es)"
  using assms
proof (induction es)
  case (Cons x es)
  obtain k e where x: "x = (k, e)" by (cases x)
  have "strict_key (me_match e) \<noteq> strict_key (me_match (snd y))" if "y \<in> set es" for y
  proof -
    have "\<not> compare_match_strict k (fst y)" using Cons.prems(1) x that by (auto simp: find_entry_None compare_exact_match_entry_def)
    then show ?thesis using Cons.prems(2) x that by (cases y) (auto simp: compare_match_strict_key)
  qed
  then show ?case using Cons x by fastforce
qed simp

lemma flows_distinct:
  assumes "table_inv t" and "own_matches t"
  shows "distinct (map entry_flow (flow_entries t))"
proof -
  let ?x = "hash_entries (exact_table t)"
  have x: "exact_tbl (exact_table t)" using assms(1) by (simp add: table_inv_def)
  have f: "entry_flow (snd y) = (None, strict_key (me_match (snd y)))" if "y \<in> set ?x" for y
    using exact_entry(3) [OF assms, of "fst y" "snd y"] that by (simp add: flow_key_def)
  have "distinct (map (\<lambda>y. strict_key (me_match (snd y))) ?x)"
    using exact_flows_distinct [OF exact_keys.entries_apart [OF x]] exact_entry(2) [OF assms] by blast
  then have "distinct (map (\<lambda>y. entry_flow (snd y)) ?x)"
    using f by (auto simp: distinct_map inj_on_def)
  moreover have w: "entry_flow e = (Some (me_priority e), strict_key (me_match e))" if "e \<in> set (wildcards_table t)" for e
    using assms(2) that by (simp add: flow_key_def own_matches_def)
  moreover have "distinct (map wild_key (wildcards_table t))" using assms(1) by (simp add: table_inv_def wild_inv_def)
  then have "distinct (map entry_flow (wildcards_table t))" using w by (auto simp: distinct_map inj_on_def)
  ultimately show ?thesis using f w by (auto simp: flow_entries_def comp_def)
qed

text \<open>A walk over the table calls the function on the entries that the match covers.\<close>

definition covered :: "ofp_match \<Rightarrow> 'd match_table \<Rightarrow> 'd match_entry list" where
  "covered m t = filter (\<lambda>e. compare_filter_match m (me_match e)) (flow_entries t)"

lemma map_wildcards_eq:
  "map_wildcards_match_table es (Some m) f s =
     foldl (\<lambda>s e. f (me_match e) (me_priority e) (me_data e) s) s (filter (\<lambda>e. compare_filter_match m (me_match e)) es)"
  by (induction es arbitrary: s) auto

lemma foldl_filter_snd: "foldl (\<lambda>s (k, e). if \<not> P e then s else g e s) s es = foldl (\<lambda>s e. g e s) s (filter P (map snd es))"
  by (induction es arbitrary: s) auto

lemma map_match_table_eq:
  "map_match_table (Some t) m (Some f) s = Ok (foldl (\<lambda>s e. f (me_match e) (me_priority e) (me_data e) s) s (covered m t))"
  by (simp add: map_match_table_def do_map_match_table_def with_table_def map_exact_match_table_def foreach_hash_eq map_wildcards_eq
      covered_def flow_entries_def foldl_filter_snd [where g = "\<lambda>e. f (me_match e) (me_priority e) (me_data e)"])

lemma strict_entry_cong:
  assumes "table_inv t" and "same_flow m p m' p'"
  shows "strict_entry t m' p' = strict_entry t m p"
  using assms lookup_strict_cong [of "exact_table t" m m'] strict_exact_iff [of m m']
  by (auto simp: strict_entry_def same_flow_def table_inv_def wild_find_def compare_match_strict_key)

section \<open>The filters\<close>

definition names_ok :: "bytes list \<Rightarrow> bool" where
  "names_ok services \<longleftrightarrow> distinct services \<and> (\<forall>x \<in> set services. 0 \<notin> set x)"

definition filter_table :: "packetin_filter \<Rightarrow> bytes list match_table \<Rightarrow> bool" where
  "filter_table s t \<longleftrightarrow> pf_table s = Some t \<and> table_inv t \<and> own_matches t \<and> (\<forall>i \<in> entry_ids t. i < pf_new s) \<and>
     (\<forall>m p services. strict_entry t m p = Some services \<longrightarrow> services \<noteq> [] \<and> names_ok services)"

definition filter_inv :: "packetin_filter \<Rightarrow> bool" where
  "filter_inv s \<longleftrightarrow> (\<exists>t. filter_table s t)"

definition filters :: "packetin_filter \<Rightarrow> ofp_match \<Rightarrow> 16 word \<Rightarrow> bytes list" where
  "filters s m p = (case pf_table s of None \<Rightarrow> [] | Some t \<Rightarrow> services_of (strict_entry t m p))"

lemma filters_eq: "filter_table s t \<Longrightarrow> filters s m p = services_of (strict_entry t m p)"
  by (simp add: filters_def filter_table_def)

lemma services_of_simps [simp]: "services_of None = []" "services_of (Some l) = l"
  by (simp_all add: services_of_def)

lemma services_of_nil: "filter_table s t \<Longrightarrow> services_of (strict_entry t m p) = [] \<longleftrightarrow> strict_entry t m p = None"
  by (cases "strict_entry t m p") (auto simp: filter_table_def)

lemma names_ok_filters: "filter_inv s \<Longrightarrow> names_ok (filters s m p)"
  by (cases "pf_table s"; cases "strict_entry (the (pf_table s)) m p") (auto simp: filter_inv_def filter_table_def filters_def names_ok_def)

text \<open>What an operation leaves of the state: nothing is sent, and the invariant holds.\<close>

definition only_table :: "packetin_filter \<Rightarrow> packetin_filter \<Rightarrow> bool" where
  "only_table s s' \<longleftrightarrow> filter_inv s' \<and> pf_sent s' = pf_sent s \<and> pf_replies s' = pf_replies s"

lemma add_entry_ok:
  assumes "filter_inv s" and "0 \<notin> set name"
  shows "\<exists>s'. add_packetin_match_entry m p name s = Ok (name \<notin> set (filters s m p), s') \<and> only_table s s' \<and>
    (\<forall>m' p'. filters s' m' p' =
      (if same_flow m p m' p' \<and> name \<notin> set (filters s m p) then filters s m p @ [name] else filters s m' p'))"
proof -
  obtain t where t: "filter_table s t" using assms(1) by (auto simp: filter_inv_def)
  have inv: "table_inv t" "own_matches t" "pf_table s = Some t" "\<forall>i \<in> entry_ids t. i < pf_new s" using t by (auto simp: filter_table_def)
  note f = filters_eq [OF t] and l = lookup_match_strict_eq [OF inv(1), of m p]
  show ?thesis
  proof (cases "strict_entry t m p")
    case None
    have "pf_new s \<notin> entry_ids t" using inv(4) by auto
    then obtain t' where t': "insert_match_entry (Some t) (pf_new s) m p [name] = Ok (Some t', True)" "table_inv t'"
      "entry_ids t' \<subseteq> insert (pf_new s) (entry_ids t)"
      "\<forall>m' p'. strict_entry t' m' p' = (if same_flow m p m' p' then Some [name] else strict_entry t m' p')"
      using insert_table [OF inv(1), of "pf_new s" m p "[name]"] None by auto
    let ?s = "s\<lparr>pf_table := Some t', pf_new := Suc (pf_new s)\<rparr>"
    have "\<forall>m p l. strict_entry t' m p = Some l \<longrightarrow> l \<noteq> [] \<and> names_ok l" using t'(4) t assms(2) by (auto simp: filter_table_def names_ok_def)
    then have ft: "filter_table ?s t'"
      using t' own_matches_insert [OF inv(1,2) t'(1)] inv(4) by (auto simp: filter_table_def less_Suc_eq)
    have "add_packetin_match_entry m p name s = Ok (True, ?s)"
      using None l inv(3) t'(1) by (simp add: add_packetin_match_entry_def create_list_def)
    then show ?thesis using None ft t'(4) unfolding f by (auto simp: only_table_def filter_inv_def filters_eq [OF ft])
  next
    case (Some services)
    have ok: "services \<noteq> []" "names_ok services" using t Some by (auto simp: filter_table_def)
    show ?thesis
    proof (cases "name \<in> set services")
      case True
      then have "add_packetin_match_entry m p name s = Ok (False, s)"
        using Some l inv(3) ok(1) by (auto simp: add_packetin_match_entry_def list_ex_iff)
      then show ?thesis using True Some assms(1) by (auto simp: only_table_def f)
    next
      case False
      obtain t' where t': "update_match_entry (Some t) m p (services @ [name]) = Ok (Some t', True)" "table_inv t'" "entry_ids t' \<subseteq> entry_ids t"
        "\<forall>m' p'. strict_entry t' m' p' = (if same_flow m p m' p' then map_option (\<lambda>_. services @ [name]) (strict_entry t m' p') else strict_entry t m' p')"
        using update_table [OF inv(1), of m p "services @ [name]"] Some by auto
      let ?s = "s\<lparr>pf_table := Some t'\<rparr>"
      have "names_ok (services @ [name])" using ok(2) assms(2) False by (auto simp: names_ok_def)
      then have "\<forall>m p l. strict_entry t' m p = Some l \<longrightarrow> l \<noteq> [] \<and> names_ok l" using t'(4) t by (auto simp: filter_table_def)
      then have ft: "filter_table ?s t'" using t' own_matches_update [OF inv(1,2) t'(1)] inv(4) by (auto simp: filter_table_def)
      have "add_packetin_match_entry m p name s = Ok (True, ?s)"
        using Some l inv(3) t'(1) ok(1) False by (auto simp: add_packetin_match_entry_def list_ex_iff)
      moreover have "strict_entry t m' p' = Some services" if "same_flow m p m' p'" for m' p'
        using strict_entry_cong [OF inv(1) that] Some by simp
      ultimately show ?thesis using False Some ft t'(4) unfolding f by (auto simp: only_table_def filter_inv_def filters_eq [OF ft])
    qed
  qed
qed

text \<open>Deleting one service of a filter.\<close>

lemma strcmp_equal_string: "0 \<notin> set x \<Longrightarrow> 0 \<in> set name \<Longrightarrow> strcmp_equal x name = Ok (x = cstring name)"
  by (induction x name rule: strcmp_equal.induct) (auto simp: cstring_def)

lemma delete_services_loop_eq:
  assumes "names_ok (kept @ services)" and "0 \<in> set name" and "cstring name \<notin> set kept"
  shows "delete_services_loop services name (kept @ services) n k =
    Ok (kept @ filter (\<lambda>x. x \<noteq> cstring name) services, n + int (count_list services (cstring name)),
      k + int (length (filter (\<lambda>x. x \<noteq> cstring name) services)))"
  using assms
proof (induction services arbitrary: kept n k)
  case (Cons x services)
  have e: "strcmp_equal x name = Ok (x = cstring name)" using Cons.prems(1,2) by (intro strcmp_equal_string) (auto simp: names_ok_def)
  show ?case
  proof (cases "x = cstring name")
    case True
    have "delete_element (kept @ x # services) x = Ok (kept @ services, True)"
      using Cons.prems(3) True delete_element_eq [of "kept @ x # services" x] by (simp add: remove1_append)
    then show ?thesis using e True Cons.IH [of kept "n + 1" k] Cons.prems by (simp add: names_ok_def)
  next
    case False
    then show ?thesis using e Cons.IH [of "kept @ [x]" n "k + 1"] Cons.prems by (simp add: names_ok_def)
  qed
qed simp

lemma count_distinct: "distinct xs \<Longrightarrow> count_list xs x = (if x \<in> set xs then 1 else 0)"
  by (induction xs) (auto simp: count_list_0_iff)

lemma delete_entry_rest:
  assumes "filter_inv s" and "names_ok rest" and "filters s m p = [] \<Longrightarrow> rest = [] \<and> n = 0"
    and "filters s m p \<noteq> [] \<Longrightarrow> delete_services_loop (filters s m p) name (filters s m p) 0 0 = Ok (rest, n, int (length rest))"
  shows "\<exists>s'. delete_packetin_match_entry m p name s = Ok (n, s') \<and> only_table s s' \<and>
    (\<forall>m' p'. filters s' m' p' = (if same_flow m p m' p' then rest else filters s m' p'))"
proof -
  obtain t where t: "filter_table s t" using assms(1) by (auto simp: filter_inv_def)
  have inv: "table_inv t" "own_matches t" "pf_table s = Some t" "\<forall>i \<in> entry_ids t. i < pf_new s" using t by (auto simp: filter_table_def)
  note f = filters_eq [OF t]
  obtain t1 where t1: "delete_match_strict_entry (Some t) m p = Ok (Some t1, strict_entry t m p)" "table_inv t1" "entry_ids t1 \<subseteq> entry_ids t"
    "\<forall>m' p'. strict_entry t1 m' p' = (if same_flow m p m' p' then None else strict_entry t m' p')"
    using delete_table [OF inv(1), of m p] by auto
  note o1 = own_matches_delete [OF inv(1,2) t1(1)]
  have ft1: "filter_table (s\<lparr>pf_table := Some t1\<rparr>) t1" using t1 o1 t by (auto simp: filter_table_def)
  show ?thesis
  proof (cases "rest = []")
    case True
    have "delete_packetin_match_entry m p name s = Ok (n, s\<lparr>pf_table := Some t1\<rparr>)"
      using t1(1) inv(3) True assms(3,4) by (cases "filters s m p = []") (simp_all add: delete_packetin_match_entry_def f)
    then show ?thesis using True ft1 t1(4) by (auto simp: f only_table_def filter_inv_def filters_eq [OF ft1])
  next
    case False
    then have ne: "filters s m p \<noteq> []" using assms(3) by blast
    have new: "pf_new s \<notin> entry_ids t1" using inv(4) t1(3) by auto
    have "same_flow m p m p" by (simp add: same_flow_def)
    then have "strict_entry t1 m p = None" using t1(4) by simp
    then obtain t2 where t2: "insert_match_entry (Some t1) (pf_new s) m p rest = Ok (Some t2, True)" "table_inv t2"
      "entry_ids t2 \<subseteq> insert (pf_new s) (entry_ids t1)"
      "\<forall>m' p'. strict_entry t2 m' p' = (if same_flow m p m' p' then Some rest else strict_entry t1 m' p')"
      using insert_table [OF t1(2) new, of m p rest] by auto
    let ?s = "s\<lparr>pf_table := Some t2, pf_new := Suc (pf_new s)\<rparr>"
    have "\<forall>m p l. strict_entry t2 m p = Some l \<longrightarrow> l \<noteq> [] \<and> names_ok l" using t2(4) t1(4) t False assms(2) by (auto simp: filter_table_def)
    then have ft2: "filter_table ?s t2"
      using t2 own_matches_insert [OF t1(2) o1 t2(1)] inv(4) t1(3) by (auto simp: filter_table_def less_Suc_eq)
    have "delete_packetin_match_entry m p name s = Ok (n, ?s)"
      using t1(1) inv(3) ne assms(4) False t2(1) by (simp add: delete_packetin_match_entry_def f)
    then show ?thesis using ft2 t2(4) t1(4) by (auto simp: f only_table_def filter_inv_def filters_eq [OF ft2])
  qed
qed

lemma delete_entry_ok:
  assumes "filter_inv s" and "0 \<in> set name"
  shows "\<exists>s'. delete_packetin_match_entry m p name s = Ok (if cstring name \<in> set (filters s m p) then 1 else 0, s') \<and> only_table s s' \<and>
    (\<forall>m' p'. filters s' m' p' = (if same_flow m p m' p' then removeAll (cstring name) (filters s m p) else filters s m' p'))"
proof (rule delete_entry_rest [OF assms(1)])
  have ok: "names_ok (filters s m p)" by (rule names_ok_filters [OF assms(1)])
  then show "names_ok (removeAll (cstring name) (filters s m p))" by (simp add: names_ok_def distinct_removeAll)
  have "filter (\<lambda>x. x \<noteq> cstring name) (filters s m p) = removeAll (cstring name) (filters s m p)"
    by (simp add: removeAll_filter_not_eq neq_commute)
  then show "delete_services_loop (filters s m p) name (filters s m p) 0 0 =
      Ok (removeAll (cstring name) (filters s m p), if cstring name \<in> set (filters s m p) then 1 else 0,
        int (length (removeAll (cstring name) (filters s m p))))"
    using delete_services_loop_eq [of "[]" "filters s m p" name 0 0] ok assms(2) count_distinct [of "filters s m p"] by (simp add: names_ok_def)
qed simp

text \<open>Without a null character in the request no name is equal.\<close>

lemma strcmp_unterminated: "0 \<notin> set name \<Longrightarrow> strcmp_equal x name = Ok b \<Longrightarrow> \<not> b"
  by (induction x name rule: strcmp_equal.induct) (auto split: if_splits)

lemma delete_loop_unterminated:
  "0 \<notin> set name \<Longrightarrow> delete_services_loop services name head n k = Ok r \<Longrightarrow> r = (head, n, k + int (length services))"
proof (induction services arbitrary: n k)
  case (Cons x services)
  then obtain b where b: "strcmp_equal x name = Ok b" by (auto simp: bnd_eq_Ok)
  then have "delete_services_loop services name head n (k + 1) = Ok r" using Cons.prems strcmp_unterminated [OF Cons.prems(1) b] by simp
  then show ?case using Cons.IH [of n "k + 1"] Cons.prems(1) by simp
qed simp

lemma delete_entry_any:
  assumes "filter_inv s" and "delete_packetin_match_entry m p name s = Ok (n, s')"
  shows "only_table s s'"
proof (cases "0 \<in> set name")
  case True
  then show ?thesis using delete_entry_ok [OF assms(1), of name m p] assms(2) by auto
next
  case False
  have "filters s m p \<noteq> [] \<Longrightarrow> delete_services_loop (filters s m p) name (filters s m p) 0 0 = Ok (filters s m p, 0, int (length (filters s m p)))"
  proof -
    assume ne: "filters s m p \<noteq> []"
    obtain t where t: "filter_table s t" using assms(1) by (auto simp: filter_inv_def)
    obtain t1 where "delete_match_strict_entry (Some t) m p = Ok (Some t1, strict_entry t m p)"
      using delete_table [of t m p] t by (auto simp: filter_table_def)
    then obtain r where "delete_services_loop (filters s m p) name (filters s m p) 0 0 = Ok r"
      using assms(2) ne t by (auto simp: delete_packetin_match_entry_def filter_table_def filters_eq [OF t] bnd_eq_Ok Let_def)
    with delete_loop_unterminated [OF False this] show ?thesis by simp
  qed
  then show ?thesis using delete_entry_rest [OF assms(1) names_ok_filters [OF assms(1), of m p], of m p 0 name] assms(2) by auto
qed

text \<open>Deleting the filters that a match covers.\<close>

lemma same_flow_trans: "same_flow m p m' p' \<Longrightarrow> same_flow m p m'' p'' \<Longrightarrow> same_flow m' p' m'' p''"
  by (simp add: same_flow_key)

lemma delete_walk_ok:
  assumes "filter_inv s" and "distinct (map entry_flow es)" and "\<forall>e \<in> set es. filters s (me_match e) (me_priority e) = me_data e"
  shows "\<exists>s'. foldl (\<lambda>r e. delete_filter_walker (me_match e) (me_priority e) (me_data e) r) (Ok (n, s)) es =
      Ok (n + of_nat (sum_list (map (\<lambda>e. length (me_data e)) es)), s') \<and> only_table s s' \<and>
    (\<forall>m' p'. filters s' m' p' = (if \<exists>e \<in> set es. same_flow (me_match e) (me_priority e) m' p' then [] else filters s m' p'))"
  using assms
proof (induction es arbitrary: s n)
  case (Cons e es)
  let ?m = "me_match e" and ?p = "me_priority e"
  obtain t where t: "filter_table s t" using Cons.prems(1) by (auto simp: filter_inv_def)
  have inv: "table_inv t" "own_matches t" "pf_table s = Some t" using t by (auto simp: filter_table_def)
  obtain t1 where t1: "delete_match_strict_entry (Some t) ?m ?p = Ok (Some t1, strict_entry t ?m ?p)" "table_inv t1" "entry_ids t1 \<subseteq> entry_ids t"
    "\<forall>m' p'. strict_entry t1 m' p' = (if same_flow ?m ?p m' p' then None else strict_entry t m' p')"
    using delete_table [OF inv(1), of ?m ?p] by auto
  let ?s = "s\<lparr>pf_table := Some t1\<rparr>" and ?n = "n + of_nat (length (me_data e))"
  have ft: "filter_table ?s t1" using t1 own_matches_delete [OF inv(1,2) t1(1)] t by (auto simp: filter_table_def)
  have step: "delete_filter_walker ?m ?p (me_data e) (Ok (n, s)) = Ok (?n, ?s)"
    using t1(1) inv(3) Cons.prems(3) filters_eq [OF t] by (simp add: delete_filter_walker_def)
  have f: "filters ?s m' p' = (if same_flow ?m ?p m' p' then [] else filters s m' p')" for m' p'
    using t1(4) by (simp add: filters_eq [OF t] filters_eq [OF ft])
  have d: "\<forall>x \<in> set es. filters ?s (me_match x) (me_priority x) = me_data x"
  proof
    fix x assume "x \<in> set es"
    moreover from this have "\<not> same_flow ?m ?p (me_match x) (me_priority x)" using Cons.prems(2) by (force simp: same_flow_key)
    ultimately show "filters ?s (me_match x) (me_priority x) = me_data x" using Cons.prems(3) unfolding f by simp
  qed
  have i: "filter_inv ?s" "distinct (map entry_flow es)" using ft Cons.prems(2) by (auto simp: filter_inv_def)
  from Cons.IH [OF i d, of ?n] obtain s' where s': "foldl (\<lambda>r e. delete_filter_walker (me_match e) (me_priority e) (me_data e) r) (Ok (?n, ?s)) es =
      Ok (?n + of_nat (sum_list (map (\<lambda>e. length (me_data e)) es)), s')" "only_table ?s s'"
    "\<forall>m' p'. filters s' m' p' = (if \<exists>e \<in> set es. same_flow (me_match e) (me_priority e) m' p' then [] else filters ?s m' p')" by auto
  then show ?case using step f by (intro exI [of _ s']) (auto simp: only_table_def add.assoc)
qed (auto simp: only_table_def)

text \<open>The filters as the table is walked: match, priority and services.\<close>

definition filter_list :: "packetin_filter \<Rightarrow> (ofp_match \<times> 16 word \<times> bytes list) list" where
  "filter_list s = (case pf_table s of None \<Rightarrow> []
     | Some t \<Rightarrow> map (\<lambda>e. (me_match e, me_priority e, me_data e)) (flow_entries t))"

definition covered_filters :: "ofp_match \<Rightarrow> packetin_filter \<Rightarrow> (ofp_match \<times> 16 word \<times> bytes list) list" where
  "covered_filters m s = filter (\<lambda>(m', _, _). compare_filter_match m m') (filter_list s)"

lemma covered_filters_eq:
  "pf_table s = Some t \<Longrightarrow> covered_filters m s = map (\<lambda>e. (me_match e, me_priority e, me_data e)) (covered m t)"
  by (simp add: covered_filters_def filter_list_def covered_def filter_map comp_def)

lemma filter_list_complete:
  assumes "filter_inv s"
  shows "(\<exists>(m', p', l) \<in> set (filter_list s). same_flow m' p' m p \<and> l = services) \<longleftrightarrow> filters s m p = services \<and> services \<noteq> []"
proof -
  obtain t where t: "filter_table s t" using assms by (auto simp: filter_inv_def)
  have inv: "table_inv t" "own_matches t" "pf_table s = Some t" using t by (auto simp: filter_table_def)
  show ?thesis
  proof
    assume "\<exists>(m', p', l) \<in> set (filter_list s). same_flow m' p' m p \<and> l = services"
    then obtain e where e: "e \<in> set (flow_entries t)" "same_flow (me_match e) (me_priority e) m p" "me_data e = services"
      using inv(3) by (auto simp: filter_list_def)
    have "strict_entry t m p = Some services" using strict_entry_cong [OF inv(1) e(2)] entry_of_flow [OF inv(1,2) e(1)] e(3) by simp
    then show "filters s m p = services \<and> services \<noteq> []" using t by (auto simp: filters_eq [OF t] filter_table_def)
  next
    assume a: "filters s m p = services \<and> services \<noteq> []"
    then have "strict_entry t m p = Some services" by (cases "strict_entry t m p") (auto simp: filters_eq [OF t])
    from flow_has_entry [OF inv(1,2) this] show "\<exists>(m', p', l) \<in> set (filter_list s). same_flow m' p' m p \<and> l = services"
      using inv(3) by (auto simp: filter_list_def)
  qed
qed

lemma delete_covered_ok:
  assumes "filter_inv s"
  shows "\<exists>s'. map_match_table (pf_table s) m (Some delete_filter_walker) (Ok (0, s)) =
      Ok (Ok (of_nat (sum_list (map (\<lambda>(_, _, l). length l) (covered_filters m s))), s')) \<and> only_table s s' \<and>
    (\<forall>m' p'. filters s' m' p' = (if \<exists>(k, q, _) \<in> set (covered_filters m s). same_flow k q m' p' then [] else filters s m' p'))"
proof -
  obtain t where t: "filter_table s t" using assms by (auto simp: filter_inv_def)
  have inv: "table_inv t" "own_matches t" "pf_table s = Some t" using t by (auto simp: filter_table_def)
  have "distinct (map entry_flow (covered m t))" using flows_distinct [OF inv(1,2)] by (simp add: covered_def distinct_map_filter)
  moreover have "\<forall>e \<in> set (covered m t). filters s (me_match e) (me_priority e) = me_data e"
    using entry_of_flow [OF inv(1,2)] by (auto simp: covered_def filters_eq [OF t])
  ultimately show ?thesis using delete_walk_ok [OF assms, of "covered m t" 0] covered_filters_eq [OF inv(3), of m] inv(3)
    by (simp add: map_match_table_eq comp_def)
qed

end
