(* ===== verification/Switch_Interface_Properties.thy ===== *)
theory Switch_Interface_Properties
  imports Switch_Delivery Example_Inputs
begin

text \<open>
  The properties of the switch side: commands of the controller reach the handlers of the switch, answers
  go back to whoever asked, and what the secure channel does with messages that are queued.
\<close>

section \<open>Commands of the controller\<close>

text \<open>The bytes of one message, read in one piece by an idle channel.\<close>

definition idle_channel :: "switch_interface \<Rightarrow> bool" where
  "idle_channel s \<longleftrightarrow> (\<exists>q. chn_recv_queue s = Some q \<and> mq_inv q \<and> mq_list q = []) \<and> (chn_fragment_buf s = None \<or> chn_fragment_buf s = Some [])"

definition handle_ignoring_result :: "nat \<Rightarrow> int \<Rightarrow> bytes \<Rightarrow> switch_interface \<Rightarrow> switch_interface res" where
  "handle_ignoring_result fuel now m s = bnd (handle_secure_channel_message fuel now m s) (\<lambda>(_, s). Ok s)"

lemma split_one_message:
  assumes "rd16 m 2 = Ok (of_nat (length m))" and "8 \<le> length m" and "length m < 65536"
  shows "split_messages m q = Ok ([], enqueue_message q m)"
proof -
  have u: "unat (of_nat (length m) :: 16 word) = length m" using assms(3) by (simp add: unat_of_nat16)
  moreover have "(of_nat (length m) :: 16 word) \<noteq> 0" using u assms(2) by auto
  moreover have "split_messages [] q' = Ok ([], q')" for q' by (subst split_messages.simps) simp
  ultimately show ?thesis using assms by (subst split_messages.simps) (simp add: assert_then_def del: rd_in)
qed

lemma save_context_channel:
  "save_context now xid m cb ud s = Ok (r, s') \<Longrightarrow> chn_recv_queue s' = chn_recv_queue s \<and> chn_fragment_buf s' = chn_fragment_buf s"
  by (auto simp: save_context_def split: option.splits if_splits)

lemma handle_message_channel:
  assumes "handle_secure_channel_message fuel now m s = Ok (r, s')"
  shows "chn_recv_queue s' = chn_recv_queue s"
proof -
  obtain xid r1 s1 where s1: "save_context now xid m Send_openflow_message_to_secure_channel None s = Ok (r1, s1)"
    "switch_handle_openflow_message fuel m s1 = Ok (r, s')"
    using assms by (auto simp: handle_secure_channel_message_def assert_then_def bnd_eq_Ok split: if_splits)
  show ?thesis using save_context_channel [OF s1(1)] switch_handle_openflow_message_calls [OF s1(2)]
    by (auto simp: switch_upcall_def)
qed

lemma read_one_message:
  assumes idle: "idle_channel s" and m: "rd16 m 2 = Ok (of_nat (length m))" "8 \<le> length m" "length m < 65536"
    and handled: "\<And>s'. swi_contexts s' = swi_contexts s \<Longrightarrow> swi_handlers s' = swi_handlers s \<Longrightarrow> swi_calls s' = swi_calls s \<Longrightarrow>
      \<exists>s''. handle_secure_channel_message fuel now m s' = Ok (True, s'') \<and> swi_calls s'' = swi_calls s @ [c] \<and> contexts_inv s''"
  shows "\<exists>s'. recv_from_controller os call (handle_ignoring_result fuel now) (Read_data m) s = Ok s' \<and> swi_calls s' = swi_calls s @ [c]"
proof -
  obtain q where q: "chn_recv_queue s = Some q" "mq_inv q" "mq_list q = []" using idle by (auto simp: idle_channel_def)
  have l0: "mq_length q = 0" using mq_empty_length [OF q(2,3)] .
  let ?q = "enqueue_message q m"
  have e: "mq_inv ?q" "mq_list ?q = [m]" using mq_enqueue [OF q(2), of m] q(3) by auto
  obtain q1 where d: "dequeue_message ?q = (Some m, q1)" "mq_inv q1" "mq_list q1 = []"
    using mq_dequeue [OF e(1)] e(2) by (cases "dequeue_message ?q") auto
  have l1: "mq_length ?q \<noteq> 0" using l0 by (simp add: enqueue_message_def collect_garbage_def Let_def split: prod.split)
  have l2: "mq_length q1 = 0" using mq_empty_length [OF d(2,3)] .
  let ?s1 = "s\<lparr>chn_fragment_buf := Some [], chn_recv_queue := Some q1\<rparr>"
  obtain s2 where s2: "handle_secure_channel_message fuel now m ?s1 = Ok (True, s2)" "swi_calls s2 = swi_calls s @ [c]"
    using handled [of ?s1] by auto
  have "chn_recv_queue s2 = Some q1" using handle_message_channel [OF s2(1)] by simp
  then have "recv_message_from_secure_channel h s2 = Ok (False, s2)" for h
    using l2 by (simp add: recv_message_from_secure_channel_def)
  moreover have "length (mq_elements ?q) > 0" using e(1) by (auto simp: mq_inv_def)
  ultimately have loop: "recv_messages_loop (Suc (length (mq_elements ?q))) (handle_ignoring_result fuel now)
      (s\<lparr>chn_fragment_buf := Some [], chn_recv_queue := Some ?q\<rparr>) = Ok s2"
    using d l1 s2(1) by (cases "length (mq_elements ?q)") (simp_all add: recv_message_from_secure_channel_def handle_ignoring_result_def)
  have f: "(case chn_fragment_buf s of None \<Rightarrow> [] | Some f \<Rightarrow> f) = []" using idle by (auto simp: idle_channel_def)
  have "take (RECEIVE_BUFFFER_SIZE - 0) m = m" "m \<noteq> []" "RECEIVE_BUFFFER_SIZE \<noteq> 0" using m(2,3) by (auto simp: RECEIVE_BUFFFER_SIZE_def)
  then have "recv_from_controller os call (handle_ignoring_result fuel now) (Read_data m) s = Ok s2"
    using q(1) l0 split_one_message [OF m] loop
    by (simp add: recv_from_controller_def f Let_def del: recv_messages_loop.simps)
  then show ?thesis using s2(2) by blast
qed

lemma created_is_framed:
  assumes "unat len = 8 + length rest"
  shows "rd16 (header_bytes type len xid @ rest) 2 = Ok (of_nat (length (header_bytes type len xid @ rest)))"
    and "length (header_bytes type len xid @ rest) < 65536" and "8 \<le> length (header_bytes type len xid @ rest)"
proof -
  have "of_nat (8 + length rest) = len" unfolding assms [symmetric] by simp
  then show "rd16 (header_bytes type len xid @ rest) 2 = Ok (of_nat (length (header_bytes type len xid @ rest)))"
    unfolding rd_header_fields by simp
  show "length (header_bytes type len xid @ rest) < 65536"
    using unsigned_less [of len, where ?'a = nat] assms by simp
qed simp

lemma read_created:
  assumes "idle_channel s" and "contexts_inv s" and "unat len = 8 + length rest"
    and "validate_openflow_message fuel (header_bytes type len xid @ rest) = Ok 0"
    and "\<And>s'. swi_handlers s' = swi_handlers s \<Longrightarrow>
      switch_dispatch fuel type (header_bytes type len xid @ rest) s' = Ok (True, switch_upcall c s')"
  shows "\<exists>s'. recv_from_controller os call (handle_ignoring_result fuel now) (Read_data (header_bytes type len xid @ rest)) s = Ok s' \<and>
    swi_calls s' = swi_calls s @ [c]"
proof (rule read_one_message [OF assms(1) created_is_framed(1,3,2) [OF assms(3)]])
  fix s' :: switch_interface
  assume s': "swi_contexts s' = swi_contexts s" "swi_handlers s' = swi_handlers s" "swi_calls s' = swi_calls s"
  have "contexts_inv s'" using contexts_cong [OF s'(1)] assms(2) by simp
  then show "\<exists>s''. handle_secure_channel_message fuel now (header_bytes type len xid @ rest) s' = Ok (True, s'') \<and>
      swi_calls s'' = swi_calls s @ [c] \<and> contexts_inv s''"
    using handle_created [OF _ assms(4), of s' c now] assms(5) s'(2,3) by auto
qed

lemma flow_mod_delivered:
  assumes "idle_channel s" and "contexts_inv s" and "actions_ok (opt_actions acts)" and "length (opt_actions acts) < fuel"
    and "swh_flow_mod (swi_handlers s) = Some f"
    and "flow_mod_args_ok match command priority out_port flags" and "72 + actions_size (opt_actions acts) < 65536"
  shows "\<exists>m s'. create_flow_mod xid match cookie command idle hard priority buffer_id out_port flags acts = Ok m \<and>
      recv_from_controller os call (handle_ignoring_result fuel now) (Read_data m) s = Ok s' \<and>
      swi_calls s' = swi_calls s @ [Sw_flow_mod f xid (match\<lparr>pad1 := 0, pad2 := 0\<rparr>) cookie command idle hard priority buffer_id out_port
        flags (actions_argument (opt_actions acts)) (swh_flow_mod_user_data (swi_handlers s))]"
proof -
  let ?as = "opt_actions acts"
  let ?fm = "hton_match match @ put64 cookie @ put16 command @ put16 idle @ put16 hard @ put16 priority @
         put32 buffer_id @ put16 out_port @ put16 flags @ enc_actions ?as"
  have wf: "\<forall>a \<in> set ?as. action_wf a" using assms(3) by (simp add: actions_ok_def)
  have "switch_dispatch fuel OFPT_FLOW_MOD (header_bytes OFPT_FLOW_MOD (72 + of_nat (actions_size ?as)) xid @ ?fm) s' =
      Ok (True, switch_upcall (Sw_flow_mod f xid (match\<lparr>pad1 := 0, pad2 := 0\<rparr>) cookie command idle hard priority buffer_id out_port
        flags (actions_argument ?as) (swh_flow_mod_user_data (swi_handlers s))) s')" if "swi_handlers s' = swi_handlers s" for s'
    using handle_created_flow_mod [OF wf assms(7,4), of s' f] assms(5) that by (simp add: switch_dispatch_def)
  note fm = read_created [OF assms(1,2) _ _ this, of os call now]
  have v: "validate_openflow_message fuel (header_bytes OFPT_FLOW_MOD (72 + of_nat (actions_size ?as)) xid @ ?fm) = Ok 0"
    using validate_created_flow_mod [OF assms(6,3,7,4)] by (simp add: validate_openflow_message_created)
  have "unat (72 + of_nat (actions_size ?as) :: 16 word) = 8 + length ?fm"
    using assms(7) wf by (simp add: unat_plus16 unat_of_nat16 length_enc_actions)
  from fm [OF this v] create_flow_mod_eq [OF wf assms(7), of xid match cookie command idle hard priority buffer_id out_port flags]
  show ?thesis by blast
qed

lemma packet_out_delivered:
  assumes "idle_channel s" and "contexts_inv s" and "actions_ok (opt_actions acts)" and "length (opt_actions acts) < fuel"
    and "swh_packet_out (swi_handlers s) = Some g"
    and "port_ok port" and "16 + actions_size (opt_actions acts) + length (opt_bytes data) < 65536"
    and "buffer_id = UINT32_MAX \<Longrightarrow> 60 \<le> length (opt_bytes data)"
  shows "\<exists>m s'. create_packet_out xid buffer_id port acts data = Ok m \<and>
      recv_from_controller os call (handle_ignoring_result fuel now) (Read_data m) s = Ok s' \<and>
      swi_calls s' = swi_calls s @ [Sw_packet_out g xid buffer_id port (actions_argument (opt_actions acts))
        (if opt_bytes data = [] then None else Some (opt_bytes data)) (swh_packet_out_user_data (swi_handlers s))]"
proof -
  let ?as = "opt_actions acts" and ?d = "opt_bytes data"
  let ?len = "16 + of_nat (actions_size ?as) + of_nat (length ?d) :: 16 word"
  let ?po = "put32 buffer_id @ put16 port @ put16 (of_nat (actions_size ?as)) @ enc_actions ?as @ ?d"
  have wf: "\<forall>a \<in> set ?as. action_wf a" using assms(3) by (simp add: actions_ok_def)
  have "switch_dispatch fuel OFPT_PACKET_OUT (header_bytes OFPT_PACKET_OUT ?len xid @ ?po) s' =
      Ok (True, switch_upcall (Sw_packet_out g xid buffer_id port (actions_argument ?as) (if ?d = [] then None else Some ?d)
        (swh_packet_out_user_data (swi_handlers s))) s')" if "swi_handlers s' = swi_handlers s" for s'
    using handle_created_packet_out [OF wf assms(7,4), of s' g] assms(5) that by (simp add: switch_dispatch_def)
  note po = read_created [OF assms(1,2) _ _ this, of os call now]
  have w: "validate_openflow_message fuel (header_bytes OFPT_PACKET_OUT ?len xid @ ?po) = Ok 0"
    using validate_created_packet_out [OF assms(3,7,6,4)] by (simp add: validate_openflow_message_created)
  have "unat ?len = 8 + length ?po"
    using assms(7) wf by (simp add: unat_plus16 unat_of_nat16 length_enc_actions)
  from po [OF this w] create_packet_out_eq [OF wf assms(7), of buffer_id xid port] assms(8) show ?thesis by blast
qed

text \<open>
  C7.  Commands of a controller reach the switch.  A flow modification and a packet out that the
  controller builds from an action list in their ranges, read from the socket by an idle channel of a
  switch that has handlers for them, are accepted; the handler is called exactly once, with the
  arguments that the constructor was given: the match without its padding, the actions, the frame.
\<close>

theorem controller_commands_delivered:
  assumes "idle_channel s" and "contexts_inv s" and "actions_ok (opt_actions acts)" and "length (opt_actions acts) < fuel"
    and "swh_flow_mod (swi_handlers s) = Some f" and "swh_packet_out (swi_handlers s) = Some g"
    and "flow_mod_args_ok match command priority out_port flags" and "72 + actions_size (opt_actions acts) < 65536"
    and "port_ok port" and "16 + actions_size (opt_actions acts) + length (opt_bytes data) < 65536"
    and "buffer_id = UINT32_MAX \<Longrightarrow> 60 \<le> length (opt_bytes data)"
  shows "(\<exists>m s'. create_flow_mod xid match cookie command idle hard priority buffer_id out_port flags acts = Ok m \<and>
      recv_from_controller os call (handle_ignoring_result fuel now) (Read_data m) s = Ok s' \<and>
      swi_calls s' = swi_calls s @ [Sw_flow_mod f xid (match\<lparr>pad1 := 0, pad2 := 0\<rparr>) cookie command idle hard priority buffer_id out_port
        flags (actions_argument (opt_actions acts)) (swh_flow_mod_user_data (swi_handlers s))]) \<and>
    (\<exists>m s'. create_packet_out xid buffer_id port acts data = Ok m \<and>
      recv_from_controller os call (handle_ignoring_result fuel now) (Read_data m) s = Ok s' \<and>
      swi_calls s' = swi_calls s @ [Sw_packet_out g xid buffer_id port (actions_argument (opt_actions acts))
        (if opt_bytes data = [] then None else Some (opt_bytes data)) (swh_packet_out_user_data (swi_handlers s))])"
  using flow_mod_delivered [OF assms(1-5,7,8)] packet_out_delivered [OF assms(1-4,6,9-11)] by blast

section \<open>A switch with a connection\<close>

definition sample_channel_events :: "channel_handler event_handler" where
  "sample_channel_events = \<lparr>event_handler_state = EVENT_HANDLER_INITIALIZED,
     event_list = [\<lparr>ev_fd = 3, read_callback = Some Recv_from_secure_channel, write_callback = Some Flush_send_queue\<rparr>],
     event_fd_set = [3 \<mapsto> 0], event_read_set = {3}, event_write_set = {}, current_read_set = {}, current_write_set = {},
     fd_set_size = 4, external_callback = None, eh_calls = []\<rparr>"

definition sample_channel_os :: channel_os where
  "sample_channel_os = \<lparr>cos_socket = Socket 3, cos_connect = In_progress, cos_sockopt = Some Connect_done,
     cos_clock = Some \<lparr>tv_sec = 100, tv_nsec = 0\<rparr>\<rparr>"

definition connected_switch :: switch_interface where
  "connected_switch = \<lparr>chn_ip = 0x7f000001, chn_port = 6633, chn_fd = 3, chn_state = CONNECTED,
     connected_callback = Some Handle_controller_connected, disconnected_callback = Some Handle_controller_disconnected,
     secure_channel_initialized = True, chn_send_queue = Some create_message_queue, chn_recv_queue = Some create_message_queue,
     chn_fragment_buf = None, chn_events = sample_channel_events,
     chn_timers = \<lparr>timer_callbacks = Some [], timer_calls = []\<rparr>, chn_written = [],
     openflow_switch_interface_initialized = True,
     swi_handlers = no_switch_handlers\<lparr>swh_flow_mod := Some 1, swh_flow_mod_user_data := 5, swh_packet_out := Some 2,
       swh_barrier_request := Some 3\<rparr>,
     swi_config = \<lparr>cfg_datapath_id = 1, cfg_controller_ip = 0x7f000001, cfg_controller_port = 6633\<rparr>,
     swi_contexts = Some (create_hash_with_size compare_context hash_context 128), swi_calls = [], swi_sent = [],
     swi_received_callbacks = []\<rparr>"

lemma connected_switch_ok: "idle_channel connected_switch" "contexts_inv connected_switch" "context_of connected_switch xid = None"
  using mq_create context_keys.create_tbl [of 128]
  by (auto simp: connected_switch_def idle_channel_def contexts_inv_def context_of_def context_keys.lookup_create)

lemma sample_actions_ok: "actions_ok (opt_actions (Some sample_actions))"
  by (simp add: opt_actions_def sample_actions_def actions_ok_def action_wf_def port_ok_def)

theorem controller_commands_delivered_witness:
  "(\<exists>m s'. create_flow_mod 7 exact_flow 9 OFPFC_ADD 60 0 0xffff 4 OFPP_NONE 0 (Some sample_actions) = Ok m \<and>
      recv_from_controller sample_channel_os call_controller_callback (handle_ignoring_result 3 100) (Read_data m) connected_switch = Ok s' \<and>
      swi_calls s' = [Sw_flow_mod 1 7 exact_flow 9 OFPFC_ADD 60 0 0xffff 4 OFPP_NONE 0 (Some (act_list sample_actions)) 5]) \<and>
   (\<exists>m s'. create_packet_out 7 4 1 (Some sample_actions) None = Ok m \<and>
      recv_from_controller sample_channel_os call_controller_callback (handle_ignoring_result 3 100) (Read_data m) connected_switch = Ok s' \<and>
      swi_calls s' = [Sw_packet_out 2 7 4 1 (Some (act_list sample_actions)) None 0])"
proof -
  have "swh_flow_mod (swi_handlers connected_switch) = Some 1" "swh_packet_out (swi_handlers connected_switch) = Some 2"
    "length (opt_actions (Some sample_actions)) < 3" "actions_size (opt_actions (Some sample_actions)) = 16"
    by (simp_all add: connected_switch_def opt_actions_def sample_actions_def)
  moreover have "flow_mod_args_ok exact_flow OFPFC_ADD 0xffff OFPP_NONE 0"
    by (simp add: flow_mod_args_ok_def match_ok_def sample_defs)
  moreover have "port_ok 1" by (simp add: port_ok_def)
  moreover have "exact_flow\<lparr>pad1 := 0, pad2 := 0\<rparr> = exact_flow" by (simp add: exact_flow_def any_match_def)
  moreover have "actions_argument (opt_actions (Some sample_actions)) = Some (act_list sample_actions)"
    by (simp add: actions_argument_def opt_actions_def sample_actions_def)
  moreover have "swi_calls connected_switch = []" "swh_flow_mod_user_data (swi_handlers connected_switch) = 5"
    "swh_packet_out_user_data (swi_handlers connected_switch) = 0"
    by (simp_all add: connected_switch_def no_switch_handlers_def)
  ultimately show ?thesis
    using controller_commands_delivered [OF connected_switch_ok(1,2) sample_actions_ok, where fuel = 3 and f = 1 and g = 2
        and match = exact_flow and command = OFPFC_ADD and priority = "0xffff" and out_port = OFPP_NONE and flags = 0 and port = 1
        and data = None and buffer_id = 4 and xid = 7 and cookie = 9 and idle = 60 and hard = 0 and os = sample_channel_os and call = call_controller_callback and now = 100]
    by (simp add: opt_bytes_def)
qed

section \<open>The way back\<close>

text \<open>A request of a local service, with its name in front, leaves a context that leads back to it.\<close>

lemma handle_local_service_frame:
  assumes "service_name_ok name" and "m \<noteq> []"
  shows "handle_local_message fuel now MESSENGER_OPENFLOW_MESSAGE (service_frame name datapath_id m) s =
    handle_local_openflow_message fuel now name m s"
proof -
  let ?d = "service_frame name datapath_id m"
  have n: "unat (of_nat (length name + 1) :: 16 word) = length name + 1"
    using assms(1) by (simp add: service_name_ok_def MESSENGER_SERVICE_NAME_LENGTH_def unat_of_nat16 del: of_nat_add of_nat_Suc)
  have r: "rd16 ?d 8 = Ok (of_nat (length name + 1))" by (simp add: service_frame_def be_get_put)
  have t: "take (length name + 1) (drop 10 ?d) = name @ [0]" "drop (10 + (length name + 1)) ?d = m"
    by (simp_all add: service_frame_def)
  have l: "length ?d = 10 + (length name + 1) + length m" by (simp add: service_frame_def)
  have "cstring (name @ [0]) = name" using cstring_terminated [of name "[]"] assms(1) by (simp add: service_name_ok_def)
  then show ?thesis using assms(2) l unfolding handle_local_message_def r bnd.simps n Let_def t by (simp add: assert_then_def)
qed

lemma local_request_context:
  assumes "handle_local_openflow_message fuel now name (header_bytes type len xid @ rest) s = Ok s1" and "contexts_inv s"
  shows "contexts_inv s1" and "context_of s xid = None \<Longrightarrow> context_of s1 xid = Some \<lparr>octx_transaction_id = xid,
      octx_message = header_bytes type len xid @ rest, octx_send_callback = Send_openflow_message_to_local,
      octx_user_data = Some name, octx_created_at = now\<rparr>"
proof -
  let ?m = "header_bytes type len xid @ rest"
  obtain s0 where s0: "save_context now xid ?m Send_openflow_message_to_local (Some name) s = Ok (context_of s xid = None, s0)" "contexts_inv s0"
    "context_of s0 = (if context_of s xid = None then (context_of s)(xid \<mapsto> \<lparr>octx_transaction_id = xid, octx_message = ?m,
       octx_send_callback = Send_openflow_message_to_local, octx_user_data = Some name, octx_created_at = now\<rparr>) else context_of s)"
    by (rule save_context_ok [OF assms(2), of now xid ?m Send_openflow_message_to_local "Some name"])
  obtain r where r: "switch_handle_openflow_message fuel ?m s0 = Ok (r, s1)"
    using assms(1) s0(1) unfolding handle_local_openflow_message_def header_fields by (auto simp: bnd_eq_Ok)
  note c = contexts_cong [OF handle_message_contexts [OF r]]
  show "contexts_inv s1" using c s0(2) by simp
  show "context_of s1 xid = Some \<lparr>octx_transaction_id = xid, octx_message = ?m, octx_send_callback = Send_openflow_message_to_local,
      octx_user_data = Some name, octx_created_at = now\<rparr>" if "context_of s xid = None" using that c s0(3) by simp
qed

lemma send_answer:
  assumes "contexts_inv s" and "buf_contents b = header_bytes type len xid @ rest"
  shows "switch_send_openflow_message accepts b s = send_by_context accepts b (context_of s xid) s"
  unfolding switch_send_openflow_message_def assms(2) header_fields bnd.simps lookup_context_ok [OF assms(1)]
  by (simp add: assert_then_def)

definition channel_ready :: "switch_interface \<Rightarrow> bytes list \<Rightarrow> bool" where
  "channel_ready s ms \<longleftrightarrow> chn_state s = CONNECTED \<and> chn_fd s \<ge> 0 \<and> (\<exists>q. chn_send_queue s = Some q \<and> mq_inv q \<and> mq_list q = ms)"

lemma answer_to_channel:
  assumes "channel_ready s ms" and "buf_contents b \<noteq> []"
  shows "\<exists>s' q. send_openflow_message_to_secure_channel b None s = Ok (True, s') \<and> chn_send_queue s' = Some q \<and>
    mq_list q = ms @ [buf_contents b] \<and> swi_sent s' = swi_sent s"
  using assms send_to_channel_ok [of s _ "buf_contents b"]
  by (fastforce simp: channel_ready_def send_openflow_message_to_secure_channel_def assert_then_def)

text \<open>
  C8.  Answers go back to whoever asked.  A local service sends a request under an id that is not in use.
  Whatever happens then, messages from the controller and from other services also under the same id,
  answers, aging, an answer of the switch with that id goes to this service and not to the
  controller, until the contexts are aged five seconds or more after the request.  After that, as for a
  request that nobody remembers, the answer goes to the controller.
\<close>

theorem answers_return_to_requester:
  assumes "contexts_inv s" and "context_of s xid = None" and "service_name_ok name"
    and "handle_local_message fuel now MESSENGER_OPENFLOW_MESSAGE (service_frame name datapath_id (header_bytes type len xid @ rest)) s = Ok s1"
    and "(switch_step (now + 5))\<^sup>*\<^sup>* s1 s2"
    and "buf_inv b" and "buf_contents b = header_bytes type' len' xid @ rest'"
  shows "(\<exists>s3 c. switch_send_openflow_message True b s2 = Ok (True, s3) \<and> chn_send_queue s3 = chn_send_queue s2 \<and>
      swi_sent s3 = swi_sent s2 @ [(name, MESSENGER_OPENFLOW_MESSAGE,
        replicate 8 c @ put16 (of_nat (length name + 1)) @ name @ [0] @ buf_contents b)]) \<and>
    (\<forall>later it n ms. now + 5 \<le> later \<longrightarrow> context_count s2 < n \<longrightarrow> channel_ready s2 ms \<longrightarrow>
      (\<exists>s3 s4 q. age_contexts n later it s2 = Ok s3 \<and> switch_send_openflow_message True b s3 = Ok (True, s4) \<and>
        chn_send_queue s4 = Some q \<and> mq_list q = ms @ [buf_contents b] \<and> swi_sent s4 = swi_sent s2))"
proof (intro conjI allI impI)
  let ?m = "header_bytes type len xid @ rest"
  let ?c = "\<lparr>octx_transaction_id = xid, octx_message = ?m, octx_send_callback = Send_openflow_message_to_local,
    octx_user_data = Some name, octx_created_at = now\<rparr>"
  have "?m \<noteq> []" by (simp add: header_bytes_def)
  then have h: "handle_local_openflow_message fuel now name ?m s = Ok s1"
    using assms(4) handle_local_service_frame [OF assms(3)] by simp
  have s2: "contexts_inv s2" "context_of s2 xid = Some ?c"
    using switch_steps_context [OF assms(5) local_request_context(1) [OF h assms(1)] local_request_context(2) [OF h assms(1,2)]] by auto
  have n: "length name < 65535" using assms(3) by (simp add: service_name_ok_def MESSENGER_SERVICE_NAME_LENGTH_def)
  show "\<exists>s3 c. switch_send_openflow_message True b s2 = Ok (True, s3) \<and> chn_send_queue s3 = chn_send_queue s2 \<and>
      swi_sent s3 = swi_sent s2 @ [(name, MESSENGER_OPENFLOW_MESSAGE,
        replicate 8 c @ put16 (of_nat (length name + 1)) @ name @ [0] @ buf_contents b)]"
    using send_to_local_ok [OF assms(6) n, of s2] unfolding send_answer [OF s2(1) assms(7)] s2(2) send_by_context_def by fastforce
  fix later it n ms
  assume a: "now + 5 \<le> later" "context_count s2 < n" "channel_ready s2 ms"
  obtain s3 where s3: "age_contexts n later it s2 = Ok s3" "contexts_inv s3" "context_of s3 = (\<lambda>x. context_alive later (context_of s2 x))"
    "s3 = s2\<lparr>swi_contexts := swi_contexts s3\<rparr>" by (rule age_contexts_ok [OF s2(1) a(2), of later it])
  have e: "context_of s3 xid = None" using s3(3) s2(2) a(1) by (simp add: context_alive_def CONTEXT_LIFETIME_def)
  have f: "channel_ready s3 ms" "swi_sent s3 = swi_sent s2" using a(3) by (subst s3(4), simp add: channel_ready_def)+
  have ne: "buf_contents b \<noteq> []" using assms(7) by (simp add: header_bytes_def)
  show "\<exists>s3 s4 q. age_contexts n later it s2 = Ok s3 \<and> switch_send_openflow_message True b s3 = Ok (True, s4) \<and>
        chn_send_queue s4 = Some q \<and> mq_list q = ms @ [buf_contents b] \<and> swi_sent s4 = swi_sent s2"
    using s3(1) answer_to_channel [OF f(1) ne] f(2) send_answer [OF s3(2) assms(7), of True] e by (auto simp: send_by_context_def)
qed

lemma local_barrier_request:
  assumes "contexts_inv s"
  shows "\<exists>s1. handle_local_openflow_message fuel now name (header_bytes OFPT_BARRIER_REQUEST 8 xid @ []) s = Ok s1"
proof (rule save_context_fields [OF assms, of now xid "header_bytes OFPT_BARRIER_REQUEST 8 xid @ []" Send_openflow_message_to_local "Some name"])
  let ?m = "header_bytes OFPT_BARRIER_REQUEST 8 xid @ []"
  fix r s' assume s': "save_context now xid ?m Send_openflow_message_to_local (Some name) s = Ok (r, s')"
  have "validate_header ?m OFPT_BARRIER_REQUEST 8 8 = Ok 0" by (intro validate_header_created) simp_all
  then have v: "validate_openflow_message fuel ?m = Ok 0"
    unfolding validate_openflow_message_def header_fields bnd.simps by (simp add: validate_barrier_request_def)
  have ne: "?m \<noteq> []" by (simp add: header_bytes_def)
  have "\<exists>s1. switch_dispatch fuel OFPT_BARRIER_REQUEST ?m s' = Ok (True, s1)"
    using ne unfolding switch_dispatch_def switch_handle_barrier_request_def header_fields bnd.simps
    by (cases "swh_barrier_request (swi_handlers s')") (simp_all add: assert_then_def)
  then show ?thesis
    using s' v unfolding handle_local_openflow_message_def switch_handle_openflow_message_def header_fields bnd.simps
    by (auto simp: assert_then_def)
qed

theorem answers_return_to_requester_witness:
  "\<exists>s1. handle_local_message 1 100 MESSENGER_OPENFLOW_MESSAGE (service_frame [97] 1 (header_bytes OFPT_BARRIER_REQUEST 8 7 @ [])) connected_switch = Ok s1 \<and>
    (\<exists>s3 c. switch_send_openflow_message True (exact_buffer (header_bytes OFPT_BARRIER_REPLY 8 7)) s1 = Ok (True, s3) \<and>
      chn_send_queue s3 = chn_send_queue s1 \<and>
      swi_sent s3 = swi_sent s1 @ [([97], MESSENGER_OPENFLOW_MESSAGE,
        replicate 8 c @ put16 2 @ [97] @ [0] @ header_bytes OFPT_BARRIER_REPLY 8 7)])"
proof -
  let ?m = "header_bytes OFPT_BARRIER_REQUEST 8 7 @ []" and ?b = "exact_buffer (header_bytes OFPT_BARRIER_REPLY 8 7)"
  have name: "service_name_ok [97]" by (simp add: service_name_ok_def MESSENGER_SERVICE_NAME_LENGTH_def)
  have "?m \<noteq> []" by (simp add: header_bytes_def)
  then obtain s1 where s1: "handle_local_message 1 100 MESSENGER_OPENFLOW_MESSAGE (service_frame [97] 1 ?m) connected_switch = Ok s1"
    using local_barrier_request [OF connected_switch_ok(2), of 1 100 "[97]" 7] handle_local_service_frame [OF name] by metis
  have b: "buf_contents ?b = header_bytes OFPT_BARRIER_REPLY 8 7 @ []" "buf_inv ?b"
    by (simp_all add: exact_buffer_def buf_contents_def buf_inv_def mem_def real_length_def header_bytes_def)
  show ?thesis
    using s1 answers_return_to_requester [OF connected_switch_ok(2,3) name s1 rtranclp.rtrancl_refl b(2,1)] b(1) by fastforce
qed

section \<open>Errors\<close>

lemma validate_created_error:
  assumes "length d \<le> 64"
  shows "validate_openflow_message fuel (header_bytes OFPT_ERROR (12 + of_nat (length d)) xid @ put16 type @ put16 code @ d) = Ok 0"
proof -
  have "unat (12 + of_nat (length d) :: 16 word) = 12 + length d" using assms by (simp add: unat_plus16 unat_of_nat16)
  then have "validate_header (header_bytes OFPT_ERROR (12 + of_nat (length d)) xid @ put16 type @ put16 code @ d) OFPT_ERROR 12 65535 = Ok 0"
    using assms by (intro validate_header_created) auto
  then show ?thesis by (simp add: validate_openflow_message_created validate_error_def)
qed

lemma application_gets_error:
  assumes "length d \<le> 64" and "error_callback (app_handlers a) = Some f"
  shows "\<exists>a'. handle_message fuel MESSENGER_OPENFLOW_MESSAGE
      (from_switch datapath_id (header_bytes OFPT_ERROR (12 + of_nat (length d)) xid @ put16 type @ put16 code @ d)) a = Ok a' \<and>
    upcalls a' = upcalls a @ [Call_error f datapath_id xid type code d (error_user_data (app_handlers a))]"
proof -
  let ?m = "header_bytes OFPT_ERROR (12 + of_nat (length d)) xid @ put16 type @ put16 code @ d"
  have f: "rd16 ?m 8 = Ok type" "rd16 ?m 10 = Ok code" by (simp_all add: rd_after_header be_get_put)
  have b: "body_of 12 ?m = Ok d" by (simp add: body_of_def assert_then_def)
  have ne: "?m \<noteq> []" by (simp add: header_bytes_def)
  have "dispatch_openflow_message fuel OFPT_ERROR datapath_id ?m a =
      Ok (upcall (Call_error f datapath_id xid type code d (error_user_data (app_handlers a))) a)"
    unfolding dispatch_openflow_message_def handle_error_def header_fields f b bnd.simps assms(2) using ne by (simp add: assert_then_def)
  from handle_message_created [OF validate_created_error [OF assms(1)] this] show ?thesis by (auto simp: received_fields)
qed

lemma exact_buffer_contents [simp]: "buf_contents (exact_buffer m) = m"
  by (simp add: exact_buffer_def buf_contents_def mem_def)

lemma create_short_error:
  "length d \<le> 64 \<Longrightarrow> create_error xid type code (Some d) =
    Ok (header_bytes OFPT_ERROR (12 + of_nat (length d)) xid @ put16 type @ put16 code @ d)"
  using create_error_eq [of "Some d" xid type code] by (simp add: opt_bytes_def)

text \<open>What an error has to carry: a description when the hello failed, the beginning of the request otherwise.\<close>

definition error_content :: "16 word \<Rightarrow> 16 word \<Rightarrow> bytes \<Rightarrow> bytes" where
  "error_content type code request =
     (if type = OFPET_HELLO_FAILED
      then map of_char (if code = 0 then ''Incompatible OpenFlow version.'' else ''Permissions error.'') @ [0]
      else take 64 request)"

lemma error_content_short: "length (error_content type code request) \<le> 64"
  by (simp add: error_content_def)

lemma hello_code: "code < 2 \<Longrightarrow> code = 0 \<or> code = (1 :: 16 word)"
proof -
  assume "code < 2"
  then have "unat code = 0 \<or> unat code = 1" by (simp add: word_less_nat_alt) linarith
  then show ?thesis by (auto dest: arg_cong [of _ _ "of_nat :: nat \<Rightarrow> 16 word"])
qed

lemma error_created:
  assumes "contexts_inv s" and "context_of s xid = Some c" and d: "defined_error_code type code"
  shows "send_error_message accepts xid type code s =
     bnd (create_error xid type code (Some (error_content type code (octx_message c)))) (\<lambda>err.
       switch_send_openflow_message accepts (exact_buffer err) s)"
proof (cases "type = OFPET_HELLO_FAILED")
  case True
  then have "code = 0 \<or> code = 1" using d by (intro hello_code) (simp add: defined_error_code_def)
  then show ?thesis using True
    by (auto simp: send_error_message_def hello_failed_description_def error_content_def Let_def)
next
  case False
  then show ?thesis
    using d assms(2) unfolding send_error_message_def get_openflow_message_def lookup_context_ok [OF assms(1)]
    by (simp add: error_content_def Let_def)
qed

text \<open>
  C24.  For every type and code that OpenFlow defines, an error about a request of the controller goes to the
  controller.  It has the first 64 bytes of the request, or, when the hello failed, the description of
  the failure as a string; the validation accepts it, and an application with a handler for errors is called
  once with its type, code and these bytes.  Nothing is sent for any other type or code.
\<close>

theorem errors_reach_application:
  assumes "contexts_inv s" and "context_of s xid = Some c" and "octx_send_callback c = Send_openflow_message_to_secure_channel"
    and "octx_user_data c = None" and "channel_ready s ms"
  shows "(defined_error_code type code \<longrightarrow> (\<exists>err s' q. send_error_message accepts xid type code s = Ok (True, s') \<and>
      chn_send_queue s' = Some q \<and> mq_list q = ms @ [err] \<and> validate_openflow_message fuel err = Ok 0 \<and>
      (\<forall>a f datapath_id. error_callback (app_handlers a) = Some f \<longrightarrow>
        (\<exists>a'. handle_message fuel MESSENGER_OPENFLOW_MESSAGE (from_switch datapath_id err) a = Ok a' \<and>
          upcalls a' = upcalls a @
            [Call_error f datapath_id xid type code (error_content type code (octx_message c)) (error_user_data (app_handlers a))])))) \<and>
    (\<not> defined_error_code type code \<longrightarrow> send_error_message accepts xid type code s = Ok (False, s))"
proof (intro conjI impI)
  assume d: "defined_error_code type code"
  let ?d = "error_content type code (octx_message c)"
  let ?err = "header_bytes OFPT_ERROR (12 + of_nat (length ?d)) xid @ put16 type @ put16 code @ ?d"
  have l: "length ?d \<le> 64" by (rule error_content_short)
  have "send_error_message accepts xid type code s = switch_send_openflow_message accepts (exact_buffer ?err) s"
    unfolding error_created [OF assms(1,2) d] create_short_error [OF error_content_short] by simp
  moreover have b: "buf_contents (exact_buffer ?err) = ?err" by simp
  moreover have "?err \<noteq> []" by (simp add: header_bytes_def)
  ultimately obtain s' q where s': "send_error_message accepts xid type code s = Ok (True, s')" "chn_send_queue s' = Some q"
    "mq_list q = ms @ [?err]"
    using answer_to_channel [OF assms(5), of "exact_buffer ?err"] send_answer [OF assms(1) b, of accepts] assms(2-4)
    by (auto simp: send_by_context_def)
  show "\<exists>err s' q. send_error_message accepts xid type code s = Ok (True, s') \<and>
      chn_send_queue s' = Some q \<and> mq_list q = ms @ [err] \<and> validate_openflow_message fuel err = Ok 0 \<and>
      (\<forall>a f datapath_id. error_callback (app_handlers a) = Some f \<longrightarrow>
        (\<exists>a'. handle_message fuel MESSENGER_OPENFLOW_MESSAGE (from_switch datapath_id err) a = Ok a' \<and>
          upcalls a' = upcalls a @ [Call_error f datapath_id xid type code ?d (error_user_data (app_handlers a))]))"
    using s' validate_created_error [OF l] application_gets_error [OF l] by blast
next
  assume "\<not> defined_error_code type code"
  moreover have "code = 0 \<or> code = 1 \<Longrightarrow> code < 2" by auto
  ultimately show "send_error_message accepts xid type code s = Ok (False, s)"
    by (auto simp: send_error_message_def hello_failed_description_def defined_error_code_def Let_def)
qed

theorem errors_reach_application_witness:
  "\<exists>s1. save_context 100 7 (header_bytes OFPT_BARRIER_REQUEST 8 7) Send_openflow_message_to_secure_channel None connected_switch = Ok (True, s1) \<and>
    (\<exists>err s' q. send_error_message True 7 OFPET_BAD_REQUEST OFPBRC_BAD_TYPE s1 = Ok (True, s') \<and>
      chn_send_queue s' = Some q \<and> mq_list q = [err] \<and> validate_openflow_message 1 err = Ok 0)"
proof (rule save_context_ok [OF connected_switch_ok(2), of 100 7 "header_bytes OFPT_BARRIER_REQUEST 8 7" Send_openflow_message_to_secure_channel None])
  let ?m = "header_bytes OFPT_BARRIER_REQUEST 8 7"
  let ?c = "\<lparr>octx_transaction_id = 7, octx_message = ?m, octx_send_callback = Send_openflow_message_to_secure_channel,
    octx_user_data = None, octx_created_at = 100\<rparr>"
  fix s1
  assume s1: "save_context 100 7 ?m Send_openflow_message_to_secure_channel None connected_switch = Ok (context_of connected_switch 7 = None, s1)"
    "contexts_inv s1"
    "context_of s1 = (if context_of connected_switch 7 = None then (context_of connected_switch)(7 \<mapsto> ?c) else context_of connected_switch)"
    "s1 = connected_switch\<lparr>swi_contexts := swi_contexts s1\<rparr>"
  have c: "context_of s1 7 = Some ?c" using s1(3) connected_switch_ok(3) by simp
  have "channel_ready s1 []" using connected_switch_ok(1) by (subst s1(4)) (auto simp: channel_ready_def connected_switch_def idle_channel_def)
  from errors_reach_application [OF s1(2) c _ _ this, of OFPET_BAD_REQUEST OFPBRC_BAD_TYPE True 1] s1(1) connected_switch_ok(3)
  show ?thesis by (auto simp: defined_error_code_def)
qed

end
