(* ===== verification/Messenger_Delivery.thy ===== *)
theory Messenger_Delivery
  imports Messenger
begin

text \<open>
  What the queues of the messenger do with messages: a send queue holds frames and sends them in packets
  of whole frames, a receive queue takes the frames out of packets and calls the application.
\<close>

section \<open>Reports\<close>

text \<open>Reporting has no effect while it is off, and while it is about the dump service itself.\<close>

locale silent_reports =
  fixes dump :: dumper and silent :: "messenger \<Rightarrow> bool"
  assumes silent_dump: "silent m \<Longrightarrow> dump dump_type name data m = Ok m"
    and silent_names: "dump_service_name m' = dump_service_name m \<Longrightarrow> silent m' = silent m"
begin

lemma silent_updates:
  "silent (m\<lparr>ms_sent := a\<rparr>) = silent m" "silent (m\<lparr>ms_events := b\<rparr>) = silent m" "silent (m\<lparr>send_queues := c\<rparr>) = silent m"
  "silent (m\<lparr>ms_timers := d\<rparr>) = silent m" "silent (m\<lparr>ms_closed := e\<rparr>) = silent m" "silent (on_events f m) = silent m"
  by (rule silent_names; simp add: on_events_def)+

end

abbreviation reports_off :: "messenger \<Rightarrow> bool" where
  "reports_off m \<equiv> dump_service_name m = None"

interpretation no_reports: silent_reports no_dump "\<lambda>_. True"
  by unfold_locales (simp_all add: no_dump_def)

interpretation dump_reports: silent_reports "send_dump_message os" reports_off for os
  by unfold_locales (simp_all add: send_dump_message_def)

section \<open>Send queues\<close>

definition holds :: "send_queue \<Rightarrow> message list \<Rightarrow> bool" where
  "holds sq ms \<longleftrightarrow> (\<exists>buf. sq_buffer sq = Some buf \<and> buffer_ok buf \<and> mb_size buf = messenger_send_queue_length \<and>
     buffered buf = frames ms) \<and> (\<forall>m \<in> set ms. sendable m)"

lemma holdsE:
  assumes "holds sq ms"
  obtains buf where "sq_buffer sq = Some buf" "buffer_ok buf" "mb_size buf = messenger_send_queue_length" "buffered buf = frames ms"
    "mb_data_length buf = length (frames ms)" "\<forall>m \<in> set ms. sendable m"
  using assms length_buffered unfolding holds_def by metis

lemma holds_update [simp]:
  "holds (sq\<lparr>sq_overflow := a, sq_overflow_total_length := b\<rparr>) ms = holds sq ms"
  by (simp add: holds_def)

lemma send_bucket_bound: "send_bucket n used \<le> messenger_bucket_size"
  by (simp add: send_bucket_def split: option.split)

text \<open>The packets of a flush are batches of whole messages.\<close>

definition in_packets :: "int \<Rightarrow> message list list \<Rightarrow> (int \<times> bytes) list" where
  "in_packets fd bs = map (\<lambda>b. (fd, frames b)) bs"

text \<open>A socket that keeps packets apart sends one as a whole or not at all; nothing else goes wrong.\<close>

definition sends_whole :: "os \<Rightarrow> int \<Rightarrow> bool" where
  "sends_whole os fd \<longleftrightarrow> (\<forall>t n. os_send os fd t n = Sent n \<or> os_send os fd t n = Send_error Send_again)"

abbreviation small :: "message \<Rightarrow> bool" where
  "small m \<equiv> message_size m \<le> MESSENGER_RECV_BUFFER"

definition sent_batches :: "message list list \<Rightarrow> bool" where
  "sent_batches bs \<longleftrightarrow> (\<forall>b \<in> set bs. b \<noteq> [] \<and> ((\<forall>m \<in> set b. small m) \<longrightarrow> length (frames b) \<le> MESSENGER_RECV_BUFFER))"

lemma sent_batches_simps [simp]:
  "sent_batches []"
  "sent_batches (b # bs) \<longleftrightarrow> b \<noteq> [] \<and> ((\<forall>m \<in> set b. small m) \<longrightarrow> length (frames b) \<le> MESSENGER_RECV_BUFFER) \<and> sent_batches bs"
  "sent_batches (bs @ cs) \<longleftrightarrow> sent_batches bs \<and> sent_batches cs"
  by (auto simp: sent_batches_def)

lemma batch_small:
  assumes "bucket \<le> messenger_bucket_size" and "\<forall>m \<in> set (batch bucket 0 ms). small m"
  shows "length (frames (batch bucket 0 ms)) \<le> MESSENGER_RECV_BUFFER"
proof -
  have "batch bucket 0 (batch bucket 0 ms) = batch bucket 0 ms"
  proof -
    have "batch bucket len (batch bucket len ms) = batch bucket len ms" for len
      by (induction bucket len ms rule: batch.induct) auto
    then show ?thesis .
  qed
  then show ?thesis using batch_fits [of "batch bucket 0 ms" MESSENGER_RECV_BUFFER bucket 0] assms by simp
qed

lemma get_send_data_batch:
  assumes "buffer_ok buf" and "buffered buf = frames (xs @ ms)" and "\<forall>m \<in> set ms. sendable m"
  obtains b rest where "ms = b @ rest" "get_send_data os sq buf (length (frames xs)) = Ok (length (frames b))"
    "b = [] \<longleftrightarrow> ms = []" "sent_batches (if b = [] then [] else [b])"
proof -
  define bucket where "bucket = send_bucket (sq_socket_buffer_size sq) (os_outq os (sq_server_socket sq) (length (frames xs)))"
  obtain rest where r: "ms = batch bucket 0 ms @ rest" using batch_prefix by blast
  have "get_send_data os sq buf (length (frames xs)) = Ok (length (frames (batch bucket 0 ms)))"
    using get_send_data_frames [of buf "frames xs" ms bucket 0] assms unfolding get_send_data_def bucket_def by simp
  moreover have "batch bucket 0 ms = [] \<longleftrightarrow> ms = []" using batch_nonempty by (cases ms) auto
  moreover have "sent_batches [batch bucket 0 ms]" if "batch bucket 0 ms \<noteq> []"
    using that batch_small [of bucket ms] send_bucket_bound by (simp add: bucket_def)
  ultimately show ?thesis using r by (intro that [of "batch bucket 0 ms" rest]) auto
qed

text \<open>What a flush leaves: the packets are sent, the rest stays, and an empty queue is not watched any more.\<close>

definition flushed :: "int \<Rightarrow> message list list \<Rightarrow> message list \<Rightarrow> send_queue \<Rightarrow> messenger \<Rightarrow> send_queue \<Rightarrow> messenger \<Rightarrow> bool" where
  "flushed fd bs rest sq m sq' m' \<longleftrightarrow> sent_batches bs \<and> holds sq' rest \<and> sq' = sq\<lparr>sq_buffer := sq_buffer sq'\<rparr> \<and>
     m' = m\<lparr>ms_sent := ms_sent m @ in_packets fd bs,
            ms_events := (if rest = [] then set_writable (sq_server_socket sq) False (ms_events m) else ms_events m)\<rparr>"

lemma flushed_Cons:
  assumes "flushed fd bs rest sq (m\<lparr>ms_sent := ms_sent m @ [(fd, frames b)]\<rparr>) sq' m'" and "sent_batches [b]"
  shows "flushed fd (b # bs) rest sq m sq' m'"
  using assms by (auto simp: flushed_def in_packets_def)

lemma loop_sends:
  assumes "get_send_data os sq buf at = Ok n" and "0 < n" and "mb_head_offset buf + at + n \<le> mb_size buf"
    and "os_send os fd at n = Sent n" and "mem_read (mb_buffer buf) (mb_head_offset buf + at) n = d"
    and "dump MESSENGER_DUMP_SENT name d (m\<lparr>ms_sent := ms_sent m @ [(fd, d)]\<rparr>) = Ok m'"
  shows "on_send_write_loop os dump name fd sq buf at m = on_send_write_loop os dump name fd sq buf (at + n) m'"
  using assms by (subst on_send_write_loop.simps) (simp add: Let_def)

lemma loop_blocks:
  assumes "get_send_data os sq buf at = Ok n" and "0 < n" and "mb_head_offset buf + at + n \<le> mb_size buf"
    and "os_send os fd at n = Send_error Send_again"
  shows "on_send_write_loop os dump name fd sq buf at m =
    bnd (truncate_message_buffer buf at) (\<lambda>buf. Ok (sq\<lparr>sq_buffer := Some buf\<rparr>, m))"
  using assms by (subst on_send_write_loop.simps) (simp add: Let_def on_send_error_def)

context silent_reports
begin

lemma on_send_write_loop_flushes:
  assumes "buffer_ok buf" and "mb_size buf = messenger_send_queue_length" and "buffered buf = frames (xs @ ms)"
    and "\<forall>m \<in> set ms. sendable m" and sq: "sq_buffer sq = Some buf" and os: "sends_whole os fd" and "silent m"
  shows "\<exists>bs rest sq' m'. on_send_write_loop os dump name fd sq buf (length (frames xs)) m = Ok (sq', m') \<and>
    ms = concat bs @ rest \<and> flushed fd bs rest sq m sq' m' \<and> ((\<forall>t n. os_send os fd t n = Sent n) \<longrightarrow> rest = [])"
  using assms(3,4,7)
proof (induction ms arbitrary: xs m rule: length_induct)
  case (1 ms)
  note ok = assms(1,2)
  obtain b rest where b: "ms = b @ rest" "get_send_data os sq buf (length (frames xs)) = Ok (length (frames b))"
    "b = [] \<longleftrightarrow> ms = []" "sent_batches (if b = [] then [] else [b])"
    by (rule get_send_data_batch [OF ok(1) 1(2,3)])
  have n: "mb_data_length buf = length (frames xs) + length (frames b) + length (frames rest)"
    using arg_cong [OF 1(2), of length] b(1) by simp
  obtain buf1 where t: "truncate_message_buffer buf (length (frames xs)) = Ok buf1" "buffer_ok buf1" "mb_size buf1 = mb_size buf"
    "buffered buf1 = drop (length (frames xs)) (buffered buf)" by (rule truncated [OF ok(1)])
  then have t4: "buffered buf1 = frames ms" using 1(2) by simp
  have h: "holds (sq\<lparr>sq_buffer := Some buf1\<rparr>) ms" using t ok 1(3) t4 by (simp add: holds_def)
  note step = on_send_write_loop.simps [of os dump name fd sq buf "length (frames xs)" m]
  show ?case
  proof (cases "ms = []")
    case True
    then have "mb_data_length buf1 = 0" using t4 length_buffered [of buf1] by (simp del: length_buffered)
    moreover have "get_send_data os sq buf (length (frames xs)) = Ok 0" using True b(2,3) by simp
    ultimately have "on_send_write_loop os dump name fd sq buf (length (frames xs)) m =
        Ok (sq\<lparr>sq_buffer := Some buf1\<rparr>, on_events (set_writable (sq_server_socket sq) False) m)"
      using t(1) by (subst step) simp
    moreover have "flushed fd [] [] sq m (sq\<lparr>sq_buffer := Some buf1\<rparr>) (on_events (set_writable (sq_server_socket sq) False) m)"
      using h True by (simp add: flushed_def in_packets_def on_events_def)
    ultimately show ?thesis
      using True by (intro exI [of _ "[]"] exI [of _ "sq\<lparr>sq_buffer := Some buf1\<rparr>"]
          exI [of _ "on_events (set_writable (sq_server_socket sq) False) m"]) simp
  next
    case False
    then have bn: "b \<noteq> []" "0 < length (frames b)" using b(3) by (auto simp: length_frames message_size_def neq_Nil_conv)
    have inb: "mb_head_offset buf + length (frames xs) + length (frames b) \<le> mb_size buf"
      using ok(1) n by (simp add: buffer_ok_def)
    show ?thesis
    proof (cases "os_send os fd (length (frames xs)) (length (frames b))")
      case (Sent k)
      then have k: "k = length (frames b)" using os by (metis sends_whole_def send_result.distinct(1) send_result.inject(1))
      have d: "mem_read (mb_buffer buf) (mb_head_offset buf + length (frames xs)) (length (frames b)) = frames b"
        using buffered_part [of "length (frames xs)" "length (frames b)" buf] n 1(2) b(1) by simp
      let ?m = "m\<lparr>ms_sent := ms_sent m @ [(fd, frames b)]\<rparr>"
      have s: "on_send_write_loop os dump name fd sq buf (length (frames xs)) m =
          on_send_write_loop os dump name fd sq buf (length (frames (xs @ b))) ?m"
        using loop_sends [OF b(2) bn(2) inb Sent [unfolded k] d, of dump name m ?m] silent_dump [of ?m] 1(4)
        by (simp add: silent_updates)
      have "length rest < length ms" "buffered buf = frames ((xs @ b) @ rest)" "\<forall>m \<in> set rest. sendable m" "silent ?m"
        using b(1) bn 1 by (auto simp: silent_updates)
      then obtain bs r sq' m' where I: "on_send_write_loop os dump name fd sq buf (length (frames (xs @ b))) ?m = Ok (sq', m')"
          "rest = concat bs @ r" "flushed fd bs r sq ?m sq' m'" "(\<forall>t n. os_send os fd t n = Sent n) \<longrightarrow> r = []"
        using 1(1) by blast
      have "flushed fd (b # bs) r sq m sq' m'" using flushed_Cons [OF I(3)] b(4) bn by simp
      then show ?thesis
        using s I(1,2,4) b(1) by (intro exI [of _ "b # bs"] exI [of _ r] exI [of _ sq'] exI [of _ m']) simp
    next
      case (Send_error err)
      then have e: "err = Send_again" using os by (metis sends_whole_def send_result.distinct(1) send_result.inject(2))
      have "on_send_write_loop os dump name fd sq buf (length (frames xs)) m = Ok (sq\<lparr>sq_buffer := Some buf1\<rparr>, m)"
        using loop_blocks [OF b(2) bn(2) inb Send_error [unfolded e]] t(1) by simp
      moreover have "flushed fd [] ms sq m (sq\<lparr>sq_buffer := Some buf1\<rparr>) m"
        using h False by (simp add: flushed_def in_packets_def)
      moreover have "\<not> (\<forall>t n. os_send os fd t n = Sent n)" using Send_error by (metis send_result.distinct(1))
      ultimately show ?thesis
        by (intro exI [of _ "[] :: message list list"] exI [of _ ms] exI [of _ "sq\<lparr>sq_buffer := Some buf1\<rparr>"] exI [of _ m]) auto
    qed
  qed
qed

lemma on_send_write_flushes:
  assumes "holds sq ms" and "sends_whole os fd" and "silent m"
  shows "\<exists>bs rest sq' m'. on_send_write os dump name fd sq m = Ok (sq', m') \<and> ms = concat bs @ rest \<and>
    flushed fd bs rest sq m sq' m' \<and> ((\<forall>t n. os_send os fd t n = Sent n) \<longrightarrow> rest = [])"
proof -
  obtain buf where buf: "sq_buffer sq = Some buf" "buffer_ok buf" "mb_size buf = messenger_send_queue_length"
    "buffered buf = frames ms" "mb_data_length buf = length (frames ms)" "\<forall>m \<in> set ms. sendable m"
    by (rule holdsE [OF assms(1)])
  show ?thesis
  proof (cases "ms = []")
    case True
    then have "on_send_write os dump name fd sq m = Ok (sq, on_events (set_writable (sq_server_socket sq) False) m)"
      using buf by (simp add: on_send_write_def)
    moreover have "flushed fd [] [] sq m sq (on_events (set_writable (sq_server_socket sq) False) m)"
      using assms(1) True by (simp add: flushed_def in_packets_def on_events_def)
    ultimately show ?thesis
      using True by (intro exI [of _ "[]"] exI [of _ sq] exI [of _ "on_events (set_writable (sq_server_socket sq) False) m"]) simp
  next
    case False
    then have "8 \<le> mb_data_length buf" using buf(5) by (auto simp: neq_Nil_conv message_size_def)
    then have "on_send_write os dump name fd sq m = on_send_write_loop os dump name fd sq buf (length (frames [])) m"
      using buf by (simp add: on_send_write_def)
    then show ?thesis using on_send_write_loop_flushes [of buf "[]" ms sq os fd m name] buf assms by simp
  qed
qed

end


text \<open>The two writes of a message put its frame behind what the queue holds.\<close>

lemma write_frame:
  assumes "buffer_ok buf" and "message_size (t, g, d) \<le> message_buffer_remain_bytes buf"
  obtains b1 b2 where "write_message_buffer buf ([0, t] @ put16 g @ put32 (of_nat (8 + length d))) = Ok (True, b1)"
    "write_message_buffer b1 d = Ok (True, b2)" "buffer_ok b2" "mb_size b2 = mb_size buf" "buffered b2 = buffered buf @ message_frame (t, g, d)"
proof -
  let ?h = "[0, t] @ put16 g @ put32 (of_nat (8 + length d))"
  obtain b1 where b1: "write_message_buffer buf ?h = Ok (True, b1)" "buffer_ok b1" "mb_size b1 = mb_size buf" "buffered b1 = buffered buf @ ?h"
    by (rule write_accepted [OF assms(1), of ?h]) (use assms(2) in \<open>simp add: message_size_def\<close>)
  have n: "mb_data_length b1 = mb_data_length buf + 8" using arg_cong [OF b1(4), of length] by simp
  obtain b2 where b2: "write_message_buffer b1 d = Ok (True, b2)" "buffer_ok b2" "mb_size b2 = mb_size b1" "buffered b2 = buffered b1 @ d"
    by (rule write_accepted [OF b1(2), of d]) (use assms(2) n b1(3) in \<open>simp add: message_size_def message_buffer_remain_bytes_def\<close>)
  show ?thesis by (rule that [OF b1(1) b2(1,2)]) (use b1 b2 in \<open>simp_all add: message_frame_def frame_def\<close>)
qed

lemma unat_message_size: "message_size (t, g, d) < 2 ^ 32 \<Longrightarrow> unat (of_nat (8 + length d) :: 32 word) = message_size (t, g, d)"
  by (simp only: unat_of_nat) (simp add: take_bit_nat_eq_self message_size_def)

definition room_for :: "message list \<Rightarrow> message \<Rightarrow> bool" where
  "room_for ms x \<longleftrightarrow> length (frames ms) + message_size x \<le> messenger_send_queue_length"

lemma overflow_case:
  assumes "holds sq ms" and "sendable (t, g, d)" and "\<not> room_for ms (t, g, d)" and "dump MESSENGER_DUMP_SEND_OVERFLOW name [] m = Ok m"
  shows "push_to_queue os dump name t g d sq m =
    Ok (False, sq\<lparr>sq_overflow := sq_overflow sq + 1,
      sq_overflow_total_length := sq_overflow_total_length sq + ucast (of_nat (8 + length d) :: 32 word)\<rparr>, m)"
proof -
  obtain buf where buf: "sq_buffer sq = Some buf" "mb_size buf = messenger_send_queue_length" "mb_data_length buf = length (frames ms)"
    by (rule holdsE [OF assms(1)]) blast
  moreover have "message_size (t, g, d) < 2 ^ 32" using assms(2) by simp
  ultimately have "message_buffer_remain_bytes buf < unat (of_nat (8 + length d) :: 32 word)"
    using unat_message_size assms(3) by (auto simp: message_buffer_remain_bytes_def room_for_def message_size_def)
  then show ?thesis using buf(1) assms(4) by (simp only: push_to_queue_def option.case Let_def if_True bnd.simps)
qed

text \<open>What a push that is accepted comes to.\<close>

lemma accepted_case:
  assumes "holds sq ms" and "sendable (t, g, d)" and "room_for ms (t, g, d)"
  obtains sq1 where "holds sq1 (ms @ [(t, g, d)])" "sq1 = sq\<lparr>sq_overflow := 0, sq_overflow_total_length := 0, sq_buffer := sq_buffer sq1\<rparr>"
    "push_to_queue os dump name t g d sq m =
      (if sq_server_socket sq = -1 then bnd (send_queue_try_connect os dump name sq1 m) (\<lambda>(_, sq, m). Ok (True, sq, m))
       else
         let m = on_events (set_writable (sq_server_socket sq) True) m in
         if length (frames (ms @ [(t, g, d)])) > messenger_send_length_for_flush
         then bnd (on_send_write os dump name (sq_server_socket sq) sq1 m) (\<lambda>(sq, m). Ok (True, sq, m))
         else Ok (True, sq1, m))"
proof -
  obtain buf where buf: "sq_buffer sq = Some buf" "buffer_ok buf" "mb_size buf = messenger_send_queue_length"
    "buffered buf = frames ms" "mb_data_length buf = length (frames ms)" "\<forall>m \<in> set ms. sendable m"
    by (rule holdsE [OF assms(1)])
  have r: "message_size (t, g, d) \<le> message_buffer_remain_bytes buf"
    using assms(3) buf by (simp add: room_for_def message_buffer_remain_bytes_def)
  obtain b1 b2 where b: "write_message_buffer buf ([0, t] @ put16 g @ put32 (of_nat (8 + length d))) = Ok (True, b1)"
    "write_message_buffer b1 d = Ok (True, b2)" "buffer_ok b2" "mb_size b2 = mb_size buf" "buffered b2 = buffered buf @ message_frame (t, g, d)"
    by (rule write_frame [OF buf(2) r])
  have c: "buffered b2 = frames (ms @ [(t, g, d)])" using b(5) buf(4) by simp
  have l: "mb_data_length b2 = length (frames (ms @ [(t, g, d)]))" using arg_cong [OF c, of length] by simp
  let ?sq = "sq\<lparr>sq_overflow := 0, sq_overflow_total_length := 0, sq_buffer := Some b2\<rparr>"
  have h: "holds ?sq (ms @ [(t, g, d)])" using b c buf assms(2) by (simp add: holds_def)
  have "message_size (t, g, d) < 2 ^ 32" using assms(2) by simp
  then have nb: "\<not> message_buffer_remain_bytes buf < unat (of_nat (8 + length d) :: 32 word)"
    using r unat_message_size by simp
  show ?thesis
    by (rule that [OF h]) (use nb buf(1) b(1,2) in \<open>simp_all add: push_to_queue_def Let_def l del: of_nat_add map_append concat_append\<close>)
qed

definition pushed :: "bool \<Rightarrow> int \<Rightarrow> message \<Rightarrow> message list \<Rightarrow> message list list \<Rightarrow> message list \<Rightarrow> messenger \<Rightarrow> send_queue \<Rightarrow> messenger \<Rightarrow> bool" where
  "pushed ok fd x ms bs rest m sq' m' \<longleftrightarrow> (ok \<longleftrightarrow> room_for ms x) \<and> ms @ (if ok then [x] else []) = concat bs @ rest \<and> sent_batches bs \<and>
     holds sq' rest \<and> sq_server_socket sq' = fd \<and> m' = m\<lparr>ms_sent := ms_sent m @ in_packets fd bs, ms_events := ms_events m'\<rparr> \<and>
     (ok \<and> rest \<noteq> [] \<longrightarrow> ms_events m' = set_writable fd True (ms_events m)) \<and> (\<not> ok \<longrightarrow> bs = [] \<and> ms_events m' = ms_events m)"

text \<open>Sending does not change what the messenger keeps for receiving.\<close>

definition receives_as :: "messenger \<Rightarrow> messenger \<Rightarrow> bool" where
  "receives_as m m' \<longleftrightarrow> receive_queues m' = receive_queues m \<and> ms_upcalls m' = ms_upcalls m \<and> context_db m' = context_db m \<and>
     dump_service_name m' = dump_service_name m"

lemma pushed_fields:
  assumes "pushed ok fd x ms bs rest m sq' m'"
  shows "send_queues m' = send_queues m" and "dump_service_name m' = dump_service_name m" and "receives_as m m'"
    and "ms_sent m' = ms_sent m @ in_packets fd bs"
proof -
  have e: "m' = m\<lparr>ms_sent := ms_sent m @ in_packets fd bs, ms_events := ms_events m'\<rparr>" using assms by (simp only: pushed_def)
  show "send_queues m' = send_queues m" using arg_cong [OF e, of send_queues] by simp
  show "dump_service_name m' = dump_service_name m" using arg_cong [OF e, of dump_service_name] by simp
  show "receives_as m m'"
    using arg_cong [OF e, of context_db] arg_cong [OF e, of ms_upcalls] arg_cong [OF e, of receive_queues] arg_cong [OF e, of dump_service_name]
    by (simp add: receives_as_def)
  show "ms_sent m' = ms_sent m @ in_packets fd bs" using arg_cong [OF e, of ms_sent] by simp
qed

context silent_reports
begin

lemma push_connected:
  assumes "holds sq ms" and "sendable x" and x: "x = (t, g, d)" and fd: "sq_server_socket sq = fd" "fd \<noteq> -1"
    and os: "sends_whole os fd" and "silent m"
  shows "\<exists>ok bs rest sq' m'. push_to_queue os dump name t g d sq m = Ok (ok, sq', m') \<and> pushed ok fd x ms bs rest m sq' m'"
proof (cases "room_for ms x")
  case False
  then show ?thesis
    using overflow_case [of sq ms t g d dump name m os] assms silent_dump
    by (intro exI [of _ False] exI [of _ "[] :: message list list"] exI [of _ ms] exI conjI, simp) (simp add: pushed_def in_packets_def)
next
  case True
  obtain sq1 where p: "holds sq1 (ms @ [x])" "sq1 = sq\<lparr>sq_overflow := 0, sq_overflow_total_length := 0, sq_buffer := sq_buffer sq1\<rparr>"
    "push_to_queue os dump name t g d sq m =
      (let m = on_events (set_writable fd True) m in
       if length (frames (ms @ [x])) > messenger_send_length_for_flush
       then bnd (on_send_write os dump name fd sq1 m) (\<lambda>(sq, m). Ok (True, sq, m)) else Ok (True, sq1, m))"
    by (rule accepted_case [of sq ms t g d os dump name m]) (use assms True in auto)
  have f1: "sq_server_socket sq1 = fd" using arg_cong [OF p(2), of sq_server_socket] fd by simp
  let ?m = "on_events (set_writable fd True) m"
  show ?thesis
  proof (cases "length (frames (ms @ [x])) > messenger_send_length_for_flush")
    case big: True
    obtain bs rest sq' m' where w: "on_send_write os dump name fd sq1 ?m = Ok (sq', m')" "ms @ [x] = concat bs @ rest"
      "flushed fd bs rest sq1 ?m sq' m'"
      using on_send_write_flushes [OF p(1) os, of ?m name] assms(7) by (auto simp: silent_updates)
    have "sq_server_socket sq' = fd" using w(3) f1 unfolding flushed_def by (metis send_queue.select_convs(1) send_queue.surjective send_queue.update_convs(4))
    then have "pushed True fd x ms bs rest m sq' m'"
      using w(2,3) True by (auto simp: pushed_def flushed_def on_events_def)
    then show ?thesis using p(3) w(1) big by (simp only: Let_def if_True bnd.simps prod.case) blast
  next
    case small: False
    have "pushed True fd x ms [] (ms @ [x]) m sq1 ?m"
      using p(1) f1 True by (simp add: pushed_def in_packets_def on_events_def)
    then show ?thesis using p(3) small by (simp only: Let_def if_False) blast
  qed
qed

end


section \<open>Receive queues\<close>

definition deliver :: "(nat \<times> byte) list \<Rightarrow> message \<Rightarrow> messenger \<Rightarrow> messenger res" where
  "deliver cbs x m = (case x of (t, g, d) \<Rightarrow> call_message_callbacks cbs t g d (length d) m)"

fun deliver_all :: "(nat \<times> byte) list \<Rightarrow> message list \<Rightarrow> messenger \<Rightarrow> messenger res" where
  "deliver_all cbs [] m = Ok m"
| "deliver_all cbs (x # xs) m = bnd (deliver cbs x m) (deliver_all cbs xs)"

lemma deliver_all_append: "deliver_all cbs (xs @ ys) m = bnd (deliver_all cbs xs m) (deliver_all cbs ys)"
  by (induction xs arbitrary: m) (simp_all add: bnd_assoc cong: bnd_cong)

text \<open>Calls of the application change nothing but the record of them and the contexts.\<close>

lemma call_fields:
  "call_received f g d n m = Ok m' \<Longrightarrow> dump_service_name m' = dump_service_name m \<and> receive_queues m' = receive_queues m \<and> context_db m' = context_db m"
  "call_requested f g d n m = Ok (d', m') \<Longrightarrow> dump_service_name m' = dump_service_name m \<and> receive_queues m' = receive_queues m \<and> context_db m' = context_db m"
  "call_replied f g d n m = Ok (d', m') \<Longrightarrow> dump_service_name m' = dump_service_name m \<and> receive_queues m' = receive_queues m"
  by (auto simp: call_received_def call_requested_def call_replied_def record_upcall_def delete_context_def bnd_eq_Ok Let_def
      split: if_splits option.splits)

lemma call_message_callbacks_fields:
  "call_message_callbacks cbs t g d n m = Ok m' \<Longrightarrow> dump_service_name m' = dump_service_name m \<and> receive_queues m' = receive_queues m"
proof (induction cbs t g d n m rule: call_message_callbacks.induct)
  case (2 f ty cbs t g d n m)
  then show ?case by (fastforce simp: bnd_eq_Ok split: if_splits dest: call_fields)
qed simp

lemma deliver_all_fields:
  "deliver_all cbs xs m = Ok m' \<Longrightarrow> dump_service_name m' = dump_service_name m \<and> receive_queues m' = receive_queues m"
  by (induction xs arbitrary: m) (fastforce simp: deliver_def bnd_eq_Ok dest: call_message_callbacks_fields)+

definition rq_holds :: "receive_queue \<Rightarrow> message list \<Rightarrow> bool" where
  "rq_holds rq ms \<longleftrightarrow> buffer_ok (rq_buffer rq) \<and> mb_size (rq_buffer rq) = messenger_recv_queue_length \<and> buffered (rq_buffer rq) = frames ms"

lemma rq_holds_length: "rq_holds rq ms \<Longrightarrow> mb_data_length (rq_buffer rq) = length (frames ms)"
  using length_buffered unfolding rq_holds_def by metis

lemma pull_loop_delivers:
  assumes "rq_holds rq ms" and "\<forall>x \<in> set ms. small x" and "deliver_all (rq_callbacks rq) ms m = Ok m'"
  shows "\<exists>rq'. pull_loop rq m = Ok (rq', m') \<and> rq_holds rq' [] \<and> rq' = rq\<lparr>rq_buffer := rq_buffer rq'\<rparr>"
  using assms
proof (induction ms arbitrary: rq m)
  case Nil
  then have "pull_loop rq m = Ok (rq\<lparr>rq_buffer := rq_buffer rq\<rparr>, m')"
    by (subst pull_loop.simps) (simp add: rq_holds_def pull_empty)
  then show ?case using Nil(1) by simp
next
  case (Cons x ms)
  have s: "sendable x" using Cons(3) by auto
  obtain b where b: "pull_from_recv_queue (rq_buffer rq) =
      Ok (Some (fst x, fst (snd x), length (snd (snd x)), take MESSENGER_RECV_BUFFER (snd (snd x))), b)"
    "buffer_ok b" "mb_size b = mb_size (rq_buffer rq)" "buffered b = frames ms"
    by (rule pull_frame [of "rq_buffer rq" x "frames ms"]) (use Cons(2) s in \<open>auto simp: rq_holds_def\<close>)
  have d: "take MESSENGER_RECV_BUFFER (snd (snd x)) = snd (snd x)" using Cons(3) by (simp add: message_size_def)
  obtain m1 where m1: "deliver (rq_callbacks rq) x m = Ok m1" "deliver_all (rq_callbacks rq) ms m1 = Ok m'"
    using Cons(4) by (auto simp: bnd_eq_Ok)
  have "pull_loop rq m = pull_loop (rq\<lparr>rq_buffer := b\<rparr>) m1"
    using b(1) d m1(1) by (subst pull_loop.simps) (simp add: deliver_def split_beta)
  moreover have "rq_holds (rq\<lparr>rq_buffer := b\<rparr>) ms" using b Cons(2) by (simp add: rq_holds_def)
  ultimately show ?case using Cons.IH [of "rq\<lparr>rq_buffer := b\<rparr>" m1] Cons(3) m1(2) by force
qed

definition packets :: "message list list \<Rightarrow> recv_result list" where
  "packets bs = map (\<lambda>b. Recv_packet (frames b)) bs"

lemma recv_loop_reads:
  assumes "rq_holds rq ms" and "\<forall>b \<in> set bs. b \<noteq> [] \<and> length (frames b) \<le> MESSENGER_RECV_BUFFER" and "reports_off m"
  shows "\<exists>ps qs rq'. bs = ps @ qs \<and> recv_loop os name fd (packets bs) rq m = Ok (packets qs, rq', m) \<and>
    rq_holds rq' (ms @ concat ps) \<and> rq' = rq\<lparr>rq_buffer := rq_buffer rq'\<rparr> \<and>
    (length (frames ms) < MESSENGER_RECV_BUFFER \<and> bs \<noteq> [] \<longrightarrow> ps \<noteq> [])"
  using assms
proof (induction bs arbitrary: rq ms)
  case Nil
  have "recv_loop os name fd (packets []) rq m = Ok (packets [], rq, m)"
    by (simp add: recv_loop.simps packets_def Let_def)
  then show ?case using Nil(1) by auto
next
  case (Cons b bs)
  show ?case
  proof (cases "length (frames ms) < MESSENGER_RECV_BUFFER")
    case True
    have "0 < length (frames b)" using Cons(3) by (auto simp: length_frames message_size_def neq_Nil_conv)
    then have bl: "frames b \<noteq> []" "length (frames b) \<le> MESSENGER_RECV_BUFFER" using Cons(3) by (metis less_irrefl list.size(3)) (use Cons(3) in simp)
    have r: "message_buffer_remain_bytes (rq_buffer rq) > messenger_recv_queue_reserved"
      using True Cons(2) rq_holds_length [OF Cons(2)] by (simp add: message_buffer_remain_bytes_def rq_holds_def)
    obtain b1 where b1: "write_message_buffer (rq_buffer rq) (frames b) = Ok (True, b1)" "buffer_ok b1"
      "mb_size b1 = mb_size (rq_buffer rq)" "buffered b1 = buffered (rq_buffer rq) @ frames b"
      by (rule write_accepted [of "rq_buffer rq" "frames b"]) (use Cons(2) bl r in \<open>auto simp: rq_holds_def\<close>)
    have t: "take (min (message_buffer_remain_bytes (rq_buffer rq)) MESSENGER_RECV_BUFFER) (frames b) = frames b"
      using bl r by simp
    have s: "recv_loop os name fd (packets (b # bs)) rq m = recv_loop os name fd (packets bs) (rq\<lparr>rq_buffer := b1\<rparr>) m"
      using r t bl(1) b1(1) Cons(4)
      by (subst recv_loop.simps) (simp add: packets_def Let_def send_dump_message_def del: concat.simps concat_eq_Nil_conv Nil_eq_concat_conv)
    have "rq_holds (rq\<lparr>rq_buffer := b1\<rparr>) (ms @ b)" using b1 Cons(2) by (simp add: rq_holds_def)
    from Cons.IH [OF this _ Cons(4)] Cons(3) obtain ps qs rq' where I: "bs = ps @ qs"
      "recv_loop os name fd (packets bs) (rq\<lparr>rq_buffer := b1\<rparr>) m = Ok (packets qs, rq', m)"
      "rq_holds rq' ((ms @ b) @ concat ps)" "rq' = rq\<lparr>rq_buffer := b1\<rparr>\<lparr>rq_buffer := rq_buffer rq'\<rparr>" by auto
    have "rq' = rq\<lparr>rq_buffer := rq_buffer rq'\<rparr>" using I(4) by simp
    then show ?thesis using s I(1-3) by (intro exI [of _ "b # ps"] exI [of _ qs] exI [of _ rq']) simp
  next
    case False
    have "message_buffer_remain_bytes (rq_buffer rq) \<le> messenger_recv_queue_reserved"
      using False Cons(2) rq_holds_length [OF Cons(2)] by (simp add: message_buffer_remain_bytes_def rq_holds_def)
    then have "recv_loop os name fd (packets (b # bs)) rq m = Ok (packets (b # bs), rq, m)"
      by (simp add: recv_loop.simps Let_def)
    then show ?thesis using False Cons(2) by (intro exI [of _ "[]"] exI [of _ "b # bs"] exI [of _ rq]) simp
  qed
qed

text \<open>One call of \<open>on_recv\<close> delivers the messages of the packets that it reads, and keeps nothing back.\<close>

lemma on_recv_delivers:
  assumes "rq_holds rq []" and "sent_batches bs" and "\<forall>x \<in> set (concat bs). small x" and "reports_off m"
    and "deliver_all (rq_callbacks rq) (concat bs) m = Ok m'"
  shows "\<exists>ps qs rq' m1. bs = ps @ qs \<and> (bs \<noteq> [] \<longrightarrow> ps \<noteq> []) \<and> on_recv os name fd (packets bs) rq m = Ok (packets qs, rq', m1) \<and>
    deliver_all (rq_callbacks rq) (concat ps) m = Ok m1 \<and> rq_holds rq' [] \<and> rq' = rq\<lparr>rq_buffer := rq_buffer rq'\<rparr>"
proof -
  have bs: "\<forall>b \<in> set bs. b \<noteq> [] \<and> length (frames b) \<le> MESSENGER_RECV_BUFFER"
    using assms(2,3) by (auto simp: sent_batches_def)
  obtain ps qs r1 where r: "bs = ps @ qs" "recv_loop os name fd (packets bs) rq m = Ok (packets qs, r1, m)"
    "rq_holds r1 (concat ps)" "r1 = rq\<lparr>rq_buffer := rq_buffer r1\<rparr>" "bs \<noteq> [] \<longrightarrow> ps \<noteq> []"
    using recv_loop_reads [OF assms(1) bs assms(4), of os name fd] by auto
  have cb: "rq_callbacks r1 = rq_callbacks rq" using arg_cong [OF r(4), of rq_callbacks] by simp
  obtain m1 where m1: "deliver_all (rq_callbacks rq) (concat ps) m = Ok m1"
    using assms(5) r(1) by (auto simp: deliver_all_append bnd_eq_Ok)
  obtain r2 where p: "pull_loop r1 m = Ok (r2, m1)" "rq_holds r2 []" "r2 = r1\<lparr>rq_buffer := rq_buffer r2\<rparr>"
    using pull_loop_delivers [OF r(3), of m m1] m1 cb assms(3) r(1) by auto
  have "r2 = rq\<lparr>rq_buffer := rq_buffer r2\<rparr>" using p(3) r(4) by (metis receive_queue.unfold_congs(4) receive_queue.surjective receive_queue.update_convs(4))
  then show ?thesis using r m1 p by (auto simp: on_recv_def)
qed

end
