(* ===== verification/Messenger_Properties.thy ===== *)
theory Messenger_Properties
  imports Messenger_Delivery
begin

text \<open>
  Properties of the event handler, the timers and the messenger.
\<close>

section \<open>Sequences of messages\<close>

lemma map_of_tbl [simp]:
  "map_of (tbl_update k v t) k' = (if k' = k \<and> map_of t k \<noteq> None then Some v else map_of t k')"
  "map_of (tbl_delete k t) k' = (if k' = k then None else map_of t k')"
  "map_of (tbl_insert k v t) k' = (if k' = k then Some v else map_of t k')"
  by (induction t) (auto simp: tbl_update_def tbl_delete_def tbl_insert_def)

definition send_queue_of :: "bytes \<Rightarrow> messenger \<Rightarrow> send_queue option" where
  "send_queue_of name m = Option.bind (send_queues m) (\<lambda>t. map_of t name)"

definition receive_queue_of :: "bytes \<Rightarrow> messenger \<Rightarrow> receive_queue option" where
  "receive_queue_of name m = Option.bind (receive_queues m) (\<lambda>t. map_of t name)"

lemma send_queue_of_store [simp]:
  "send_queue_of name m \<noteq> None \<Longrightarrow> send_queue_of name (store_send_queue name sq m) = Some sq"
  by (cases "send_queues m") (auto simp: send_queue_of_def store_send_queue_def)

lemma receive_queue_of_store [simp]:
  "receive_queue_of name m \<noteq> None \<Longrightarrow> receive_queue_of name (store_receive_queue name rq m) = Some rq"
  by (cases "receive_queues m") (auto simp: receive_queue_of_def store_receive_queue_def)

lemma store_fields [simp]:
  "ms_sent (store_send_queue name sq m) = ms_sent m" "dump_service_name (store_send_queue name sq m) = dump_service_name m"
  "ms_events (store_send_queue name sq m) = ms_events m" "ms_timers (store_send_queue name sq m) = ms_timers m"
  "context_db (store_send_queue name sq m) = context_db m"
  "ms_upcalls (store_receive_queue name rq m) = ms_upcalls m" "dump_service_name (store_receive_queue name rq m) = dump_service_name m"
  "context_db (store_receive_queue name rq m) = context_db m" "send_queues (store_receive_queue name rq m) = send_queues m"
  by (simp_all add: store_send_queue_def store_receive_queue_def)

text \<open>A queue that is connected and holds the messages \<open>ms\<close>, in a messenger that does not report.\<close>

definition connected :: "bytes \<Rightarrow> int \<Rightarrow> message list \<Rightarrow> messenger \<Rightarrow> bool" where
  "connected name fd ms m \<longleftrightarrow> reports_off m \<and> fd \<noteq> -1 \<and>
     (\<exists>sq. send_queue_of name m = Some sq \<and> holds sq ms \<and> sq_server_socket sq = fd)"

lemma push_message_connected:
  assumes "connected name fd ms m" and "sendable (t, g, d)" and "sends_whole os fd"
  shows "\<exists>ok bs rest m'. push_message_to_send_queue os (send_dump_message os) name t g d m = Ok (ok, m') \<and> connected name fd rest m' \<and>
    (ok \<longleftrightarrow> room_for ms (t, g, d)) \<and> ms @ (if ok then [(t, g, d)] else []) = concat bs @ rest \<and> sent_batches bs \<and>
    ms_sent m' = ms_sent m @ in_packets fd bs \<and> receives_as m m'"
proof -
  obtain sq tb where sq: "send_queues m = Some tb" "map_of tb name = Some sq" "holds sq ms" "sq_server_socket sq = fd" "fd \<noteq> -1" "reports_off m"
    using assms(1) by (auto simp: connected_def send_queue_of_def bind_eq_Some_conv)
  obtain ok bs rest sq' m' where p: "push_to_queue os (send_dump_message os) name t g d sq m = Ok (ok, sq', m')"
    "pushed ok fd (t, g, d) ms bs rest m sq' m'"
    using dump_reports.push_connected [OF sq(3) assms(2) refl sq(4,5) assms(3) sq(6)] by blast
  note f = pushed_fields [OF p(2)]
  have "send_queue_of name m' \<noteq> None" using f(1) sq by (simp add: send_queue_of_def)
  then have "connected name fd rest (store_send_queue name sq' m')"
    using p(2) sq f(2) by (simp add: connected_def pushed_def)
  moreover have "push_message_to_send_queue os (send_dump_message os) name t g d m = Ok (ok, store_send_queue name sq' m')"
    using sq(1,2) p(1) by (simp add: push_message_to_send_queue_def)
  ultimately show ?thesis
    using p(2) f(3,4) by (intro exI [of _ ok] exI [of _ bs] exI [of _ rest] exI [of _ "store_send_queue name sq' m'"])
      (auto simp: pushed_def receives_as_def store_send_queue_def)
qed


text \<open>Two services, \<open>a\<close> and \<open>b\<close>, that are connected with each other, for the examples below.\<close>

definition sample_os :: os where
  "sample_os = \<lparr>os_connect = (\<lambda>_. Refused 7), os_outq = (\<lambda>_ _. None), os_send = (\<lambda>_ _ n. Sent n), os_server_closed = False,
     os_listen = (\<lambda>_. Listening 8), os_accept = Accept_failed, os_monotonic = Some zero_time, os_realtime = Some zero_time\<rparr>"

definition sample_send_queue :: send_queue where
  "sample_send_queue = new_send_queue\<lparr>sq_server_socket := 5, sq_buffer := Some (create_message_buffer messenger_send_queue_length)\<rparr>"

definition sample_receive_queue :: "(nat \<times> byte) list \<Rightarrow> receive_queue" where
  "sample_receive_queue cbs = \<lparr>rq_callbacks = cbs, rq_listen_socket = 3, rq_client_sockets = [4],
     rq_buffer = create_message_buffer messenger_recv_queue_length\<rparr>"

definition empty_event_handler :: "'c event_handler" where
  "empty_event_handler = \<lparr>event_handler_state = EVENT_HANDLER_INITIALIZED, event_list = [], event_fd_set = Map.empty, event_read_set = {},
     event_write_set = {}, current_read_set = {}, current_write_set = {}, fd_set_size = 0, external_callback = None, eh_calls = []\<rparr>"

definition sample_messenger :: "bytes \<Rightarrow> bytes \<Rightarrow> (nat \<times> byte) list \<Rightarrow> messenger" where
  "sample_messenger own peer cbs = \<lparr>socket_directory = [116], ms_initialized = True, ms_finalized = False,
     receive_queues = Some [(own, sample_receive_queue cbs)], send_queues = Some [(peer, sample_send_queue)], context_db = Some [],
     dump_service_name = None, dump_app_name = None, last_transaction_id = 0, ms_events = empty_event_handler,
     ms_timers = \<lparr>timer_callbacks = Some [], timer_calls = []\<rparr>, ms_sent = [], ms_closed = [], ms_upcalls = []\<rparr>"

lemma sample_messenger_fields [simp]:
  "ms_sent (sample_messenger own peer cbs) = []" "ms_upcalls (sample_messenger own peer cbs) = []"
  "context_db (sample_messenger own peer cbs) = Some []" "last_transaction_id (sample_messenger own peer cbs) = 0"
  "rq_callbacks (sample_receive_queue cbs) = cbs"
  by (simp_all add: sample_messenger_def sample_receive_queue_def)

lemma sample_holds: "holds sample_send_queue []"
  by (simp add: holds_def sample_send_queue_def)

lemma sample_queue_connected: "connected peer 5 [] (sample_messenger own peer cbs)"
  using sample_holds by (simp add: connected_def send_queue_of_def sample_messenger_def) (simp add: sample_send_queue_def)

lemma sample_sends: "os_send sample_os fd t n = Sent n"
  by (simp add: sample_os_def)

text \<open>One call of \<open>send_message\<close> after the other; the results say which messages were accepted.\<close>

fun send_all :: "bytes \<Rightarrow> (os \<times> 16 word \<times> bytes) list \<Rightarrow> messenger \<Rightarrow> (bool list \<times> messenger) res" where
  "send_all name [] m = Ok ([], m)"
| "send_all name ((os, tag, data) # xs) m =
     bnd (send_message os name tag data m) (\<lambda>(ok, m).
     bnd (send_all name xs m) (\<lambda>(oks, m). Ok (ok # oks, m)))"

fun accepted :: "bool list \<Rightarrow> (os \<times> 16 word \<times> bytes) list \<Rightarrow> message list" where
  "accepted (ok # oks) ((os, tag, data) # xs) = (if ok then [(MESSAGE_TYPE_NOTIFY, tag, data)] else []) @ accepted oks xs"
| "accepted _ _ = []"

definition sendable_messages :: "int \<Rightarrow> (os \<times> 16 word \<times> bytes) list \<Rightarrow> bool" where
  "sendable_messages fd xs \<longleftrightarrow> (\<forall>(os, tag, data) \<in> set xs. sends_whole os fd \<and> 8 + length data \<le> MESSENGER_RECV_BUFFER)"

lemma set_accepted: "x \<in> set (accepted oks xs) \<Longrightarrow> \<exists>os tag data. (os, tag, data) \<in> set xs \<and> x = (MESSAGE_TYPE_NOTIFY, tag, data)"
  by (induction oks xs rule: accepted.induct) (auto split: if_splits)

lemma accepted_small: "sendable_messages fd xs \<Longrightarrow> \<forall>x \<in> set (accepted oks xs). small x"
  by (auto simp: sendable_messages_def message_size_def dest!: set_accepted)

lemma send_all_connected:
  assumes "connected name fd ms m" and "sendable_messages fd xs"
  shows "\<exists>oks bs rest m'. send_all name xs m = Ok (oks, m') \<and> length oks = length xs \<and> connected name fd rest m' \<and>
    ms @ accepted oks xs = concat bs @ rest \<and> sent_batches bs \<and> ms_sent m' = ms_sent m @ in_packets fd bs"
  using assms
proof (induction xs arbitrary: ms m)
  case Nil
  then show ?case by (intro exI [of _ "[] :: bool list"] exI [of _ "[] :: message list list"] exI [of _ ms] exI [of _ m]) (simp add: in_packets_def)
next
  case (Cons x xs)
  obtain os tag data where x: "x = (os, tag, data)" by (cases x)
  have ok: "sends_whole os fd" "sendable (MESSAGE_TYPE_NOTIFY, tag, data)" "sendable_messages fd xs"
    using Cons(3) x by (auto simp: sendable_messages_def message_size_def)
  obtain ok bs rest m1 where s: "send_message os name tag data m = Ok (ok, m1)" "connected name fd rest m1"
    "ms @ (if ok then [(MESSAGE_TYPE_NOTIFY, tag, data)] else []) = concat bs @ rest" "sent_batches bs"
    "ms_sent m1 = ms_sent m @ in_packets fd bs"
    using push_message_connected [OF Cons(2) ok(2,1)] unfolding send_message_def by blast
  obtain oks bs' rest' m' where I: "send_all name xs m1 = Ok (oks, m')" "length oks = length xs" "connected name fd rest' m'"
    "rest @ accepted oks xs = concat bs' @ rest'" "sent_batches bs'" "ms_sent m' = ms_sent m1 @ in_packets fd bs'"
    using Cons.IH [OF s(2) ok(3)] by blast
  have "ms @ accepted (ok # oks) (x # xs) = (ms @ (if ok then [(MESSAGE_TYPE_NOTIFY, tag, data)] else [])) @ accepted oks xs"
    by (simp add: x)
  also have "\<dots> = concat (bs @ bs') @ rest'" by (simp only: s(3) append_assoc I(4) concat_append)
  finally show ?case
    using s I x by (intro exI [of _ "ok # oks"] exI [of _ "bs @ bs'"] exI [of _ rest'] exI [of _ m']) (simp add: in_packets_def)
qed

text \<open>The queue is written until it is empty when the socket takes everything.\<close>

lemma flush_connected:
  assumes "connected name fd ms m" and "\<forall>t n. os_send os fd t n = Sent n"
  shows "\<exists>bs m'. run_messenger_handler os (On_send_write name) fd rs m = Ok (rs, m') \<and> connected name fd [] m' \<and>
    ms = concat bs \<and> sent_batches bs \<and> ms_sent m' = ms_sent m @ in_packets fd bs \<and> receives_as m m'"
proof -
  obtain sq where sq: "send_queue_of name m = Some sq" "holds sq ms" "sq_server_socket sq = fd" "fd \<noteq> -1" "reports_off m"
    using assms(1) by (auto simp: connected_def)
  have w: "sends_whole os fd" using assms(2) by (simp add: sends_whole_def)
  obtain bs sq' m' where f: "on_send_write os (send_dump_message os) name fd sq m = Ok (sq', m')" "ms = concat bs @ []"
    "flushed fd bs [] sq m sq' m'"
    using dump_reports.on_send_write_flushes [OF sq(2) w sq(5)] assms(2) by blast
  have e: "m' = m\<lparr>ms_sent := ms_sent m @ in_packets fd bs, ms_events := set_writable (sq_server_socket sq) False (ms_events m)\<rparr>"
    and q: "sq' = sq\<lparr>sq_buffer := sq_buffer sq'\<rparr>" "holds sq' []" "sent_batches bs" using f(3) by (simp_all only: flushed_def simp_thms if_True)
  have fd': "sq_server_socket sq' = fd" using arg_cong [OF q(1), of sq_server_socket] sq(3) by simp
  have "send_queue_of name m' \<noteq> None" "reports_off m'" using sq by (simp_all add: e send_queue_of_def)
  then have "connected name fd [] (store_send_queue name sq' m')" using q fd' sq(4) by (simp add: connected_def)
  moreover have "run_messenger_handler os (On_send_write name) fd rs m = Ok (rs, store_send_queue name sq' m')"
    using sq(1) f(1) by (simp add: with_send_queue_def send_queue_of_def)
  ultimately show ?thesis using f(2) q(3) by (auto simp: e receives_as_def store_send_queue_def)
qed

text \<open>The event handler calls \<open>on_recv\<close> as long as there is something to read.\<close>

fun serve :: "os \<Rightarrow> bytes \<Rightarrow> int \<Rightarrow> nat \<Rightarrow> recv_result list \<Rightarrow> messenger \<Rightarrow> (recv_result list \<times> messenger) res" where
  "serve os name fd 0 rs m = Ok (rs, m)"
| "serve os name fd (Suc n) rs m = bnd (run_messenger_handler os (On_recv name) fd rs m) (\<lambda>(rs, m). serve os name fd n rs m)"

definition waiting :: "bytes \<Rightarrow> receive_queue \<Rightarrow> messenger \<Rightarrow> bool" where
  "waiting name rq m \<longleftrightarrow> reports_off m \<and> receive_queue_of name m = Some rq \<and> rq_holds rq []"

lemma sample_waiting: "waiting own (sample_receive_queue cbs) (sample_messenger own peer cbs)"
  by (simp add: waiting_def receive_queue_of_def sample_messenger_def rq_holds_def) (simp add: sample_receive_queue_def)

lemma call_store:
  "call_received f g d n (store_receive_queue name rq m) = bnd (call_received f g d n m) (\<lambda>m. Ok (store_receive_queue name rq m))"
  "call_requested f g d n (store_receive_queue name rq m) =
     bnd (call_requested f g d n m) (\<lambda>(d, m). Ok (d, store_receive_queue name rq m))"
  "call_replied f g d n (store_receive_queue name rq m) =
     bnd (call_replied f g d n m) (\<lambda>(d, m). Ok (d, store_receive_queue name rq m))"
  by (simp_all add: call_received_def call_requested_def call_replied_def store_receive_queue_def record_upcall_def delete_context_def
      get_context_def Let_def bnd_assoc ntoh_handle_def split: option.split)

lemma call_message_callbacks_store:
  "call_message_callbacks cbs t g d n (store_receive_queue name rq m) =
     bnd (call_message_callbacks cbs t g d n m) (\<lambda>m. Ok (store_receive_queue name rq m))"
  by (induction cbs t g d n m rule: call_message_callbacks.induct) (simp_all add: call_store bnd_assoc split_beta cong: bnd_cong)

lemma deliver_all_store:
  "deliver_all cbs xs m = Ok m' \<Longrightarrow> deliver_all cbs xs (store_receive_queue name rq m) = Ok (store_receive_queue name rq m')"
  by (induction xs arbitrary: m) (auto simp: bnd_eq_Ok deliver_def call_message_callbacks_store)


lemma serve_delivers:
  assumes "waiting name rq m" and "sent_batches bs" and "\<forall>x \<in> set (concat bs). small x"
    and "deliver_all (rq_callbacks rq) (concat bs) m = Ok m'" and "length bs \<le> n"
  shows "\<exists>rq' m''. serve os name fd n (packets bs) m = Ok ([], m'') \<and> waiting name rq' m'' \<and> rq_callbacks rq' = rq_callbacks rq \<and>
    ms_upcalls m'' = ms_upcalls m' \<and> context_db m'' = context_db m' \<and> send_queues m'' = send_queues m'"
  using assms
proof (induction n arbitrary: bs rq m m')
  case 0
  then show ?case by (auto simp: packets_def)
next
  case (Suc n)
  have w: "reports_off m" "receive_queue_of name m = Some rq" "rq_holds rq []" using Suc(2) by (auto simp: waiting_def)
  obtain ps qs rq1 m1 where r: "bs = ps @ qs" "bs \<noteq> [] \<longrightarrow> ps \<noteq> []" "on_recv os name fd (packets bs) rq m = Ok (packets qs, rq1, m1)"
    "deliver_all (rq_callbacks rq) (concat ps) m = Ok m1" "rq_holds rq1 []" "rq1 = rq\<lparr>rq_buffer := rq_buffer rq1\<rparr>"
    using on_recv_delivers [OF w(3) Suc(3,4) w(1) Suc(5), of os name fd] by blast
  let ?m = "store_receive_queue name rq1 m1"
  have cb: "rq_callbacks rq1 = rq_callbacks rq" using arg_cong [OF r(6), of rq_callbacks] by simp
  note f1 = deliver_all_fields [OF r(4)]
  have s: "serve os name fd (Suc n) (packets bs) m = serve os name fd n (packets qs) ?m"
    using w(2) r(3) by (simp add: with_receive_queue_def receive_queue_of_def)
  have "receive_queue_of name m1 \<noteq> None" using w(2) f1 by (simp add: receive_queue_of_def)
  then have w1: "waiting name rq1 ?m" using w(1) f1 r(5) by (simp add: waiting_def)
  have "deliver_all (rq_callbacks rq) (concat qs) m1 = Ok m'" using Suc(5) r(1,4) by (simp add: deliver_all_append)
  then have d: "deliver_all (rq_callbacks rq1) (concat qs) ?m = Ok (store_receive_queue name rq1 m')" unfolding cb by (rule deliver_all_store)
  have "length qs \<le> n" using Suc(6) r(1,2) by (cases ps) auto
  then obtain rq' m'' where I: "serve os name fd n (packets qs) ?m = Ok ([], m'')" "waiting name rq' m''" "rq_callbacks rq' = rq_callbacks rq1"
    "ms_upcalls m'' = ms_upcalls m'" "context_db m'' = context_db m'" "send_queues m'' = send_queues m'"
    using Suc.IH [OF w1 _ _ d] Suc(3,4) r(1) by auto
  then show ?case using s cb by auto
qed

definition notified :: "(nat \<times> byte) list \<Rightarrow> message \<Rightarrow> messenger_upcall list" where
  "notified cbs x = map (\<lambda>cb. Received (fst cb) (fst (snd x)) (snd (snd x))) (filter (\<lambda>cb. snd cb = MESSAGE_TYPE_NOTIFY) cbs)"

lemma deliver_notify:
  "deliver_all cbs xs m = Ok (m\<lparr>ms_upcalls := ms_upcalls m @ concat (map (notified cbs) xs)\<rparr>)" if "\<forall>x \<in> set xs. fst x = MESSAGE_TYPE_NOTIFY"
proof -
  have "call_message_callbacks cbs MESSAGE_TYPE_NOTIFY g d (length d) m =
      Ok (m\<lparr>ms_upcalls := ms_upcalls m @ notified cbs (MESSAGE_TYPE_NOTIFY, g, d)\<rparr>)" for g d m
    by (induction cbs arbitrary: m) (auto simp: call_received_def record_upcall_def notified_def)
  then have "deliver cbs x m = Ok (m\<lparr>ms_upcalls := ms_upcalls m @ notified cbs x\<rparr>)" if "fst x = MESSAGE_TYPE_NOTIFY" for x m
    using that by (cases x) (simp add: deliver_def)
  then show ?thesis using that by (induction xs arbitrary: m) auto
qed

text \<open>
  C2.  Messages arrive exactly once and in order.  A service sends any number of messages to another one over
  a connected queue, each of at most 100000 bytes with its header; whenever the socket is full the rest
  waits.  The calls of \<open>send_message\<close> say which messages were accepted.  When the socket has room again the
  queue is written until it is empty.  Whatever packets this makes, the receiver reads them with at most
  as many calls of \<open>on_recv\<close> as there are packets, and calls the callbacks for exactly the accepted
  messages, in the order in which they were sent.
\<close>

theorem messages_delivered_in_order:
  assumes "connected name fd [] s" and "sendable_messages fd xs" and "\<forall>t n. os_send os fd t n = Sent n" and "waiting name rq r"
  shows "\<exists>oks s1 s2 ps r'. send_all name xs s = Ok (oks, s1) \<and> length oks = length xs \<and>
    run_messenger_handler os (On_send_write name) fd [] s1 = Ok ([], s2) \<and> connected name fd [] s2 \<and>
    ms_sent s2 = ms_sent s @ map (Pair fd) ps \<and>
    serve os' name fd' (length ps) (map Recv_packet ps) r = Ok ([], r') \<and>
    ms_upcalls r' = ms_upcalls r @ concat (map (notified (rq_callbacks rq)) (accepted oks xs))"
proof -
  obtain oks bs rest s1 where a: "send_all name xs s = Ok (oks, s1)" "length oks = length xs" "connected name fd rest s1"
    "accepted oks xs = concat bs @ rest" "sent_batches bs" "ms_sent s1 = ms_sent s @ in_packets fd bs"
    using send_all_connected [OF assms(1,2)] by auto
  obtain bs' s2 where b: "run_messenger_handler os (On_send_write name) fd [] s1 = Ok ([], s2)" "connected name fd [] s2"
    "rest = concat bs'" "sent_batches bs'" "ms_sent s2 = ms_sent s1 @ in_packets fd bs'"
    using flush_connected [OF a(3) assms(3)] by blast
  let ?bs = "bs @ bs'"
  have c: "concat ?bs = accepted oks xs" using a(4) b(3) by simp
  have n: "\<forall>x \<in> set (concat ?bs). fst x = MESSAGE_TYPE_NOTIFY" unfolding c by (auto dest: set_accepted)
  have sm: "\<forall>x \<in> set (concat ?bs). small x" unfolding c by (rule accepted_small [OF assms(2)])
  obtain rq' r' where d: "serve os' name fd' (length ?bs) (packets ?bs) r = Ok ([], r')"
    "ms_upcalls r' = ms_upcalls r @ concat (map (notified (rq_callbacks rq)) (accepted oks xs))"
    using serve_delivers [OF assms(4) _ sm deliver_notify [OF n], of "length ?bs" os' fd'] a(5) b(4) unfolding c by auto
  have "ms_sent s2 = ms_sent s @ map (Pair fd) (map frames ?bs)" using a(6) b(5) by (simp add: in_packets_def)
  moreover have "packets ?bs = map Recv_packet (map frames ?bs)" by (simp add: packets_def)
  ultimately show ?thesis using a(1,2) b(1,2) d by (metis length_map)
qed

theorem messages_delivered_in_order_witness:
  "\<exists>oks s1 s2 ps r'. send_all [98] [(sample_os, 1, [10]), (sample_os, 2, [20, 21])] (sample_messenger [97] [98] []) = Ok (oks, s1) \<and> length oks = 2 \<and>
    run_messenger_handler sample_os (On_send_write [98]) 5 [] s1 = Ok ([], s2) \<and> connected [98] 5 [] s2 \<and> ms_sent s2 = map (Pair 5) ps \<and>
    serve sample_os [98] 4 (length ps) (map Recv_packet ps) (sample_messenger [98] [97] [(1, MESSAGE_TYPE_NOTIFY)]) = Ok ([], r') \<and>
    ms_upcalls r' = concat (map (notified [(1, MESSAGE_TYPE_NOTIFY)]) (accepted oks [(sample_os, 1, [10]), (sample_os, 2, [20, 21])]))"
  using messages_delivered_in_order [where name = "[98]" and fd = 5 and s = "sample_messenger [97] [98] []"
      and xs = "[(sample_os, 1, [10]), (sample_os, 2, [20, 21])]" and os = sample_os and rq = "sample_receive_queue [(1, MESSAGE_TYPE_NOTIFY)]"
      and r = "sample_messenger [98] [97] [(1, MESSAGE_TYPE_NOTIFY)]" and os' = sample_os and fd' = 4]
    sample_queue_connected sample_waiting
  by (simp add: sendable_messages_def sends_whole_def sample_sends numeral_2_eq_2 del: send_all.simps run_messenger_handler.simps)


section \<open>Requests and replies\<close>

lemma call_matching:
  "call_message_callbacks cbs t g d n m = call_message_callbacks (filter (\<lambda>cb. snd cb = t) cbs) t g d n m"
  by (induction cbs t g d n m rule: call_message_callbacks.induct) (simp_all add: split_beta cong: bnd_cong)

lemma length_handle_bytes [simp]: "length (handle_bytes i n) = 8"
  by (simp add: handle_bytes_def)

lemma ntoh_handle_bytes: "ntoh_handle (handle_bytes i n @ d) = Ok (rev (put32 i) @ rev (put16 n) @ 0 # 0 # d)"
  by (simp add: ntoh_handle_def handle_bytes_def)

lemma host_handle_bytes: "host_handle (rev (put32 i) @ rev (put16 n) @ 0 # 0 # d) =
    \<lparr>hdl_transaction_id = i, hdl_service_name_len = n, hdl_service_name = d\<rparr>"
  by (simp add: host_handle_def be_get_put)

lemma deliver_request:
  assumes "filter (\<lambda>cb. snd cb = MESSAGE_TYPE_REQUEST) cbs = [(f, MESSAGE_TYPE_REQUEST)]" and "length name < 32"
  shows "deliver_all cbs [(MESSAGE_TYPE_REQUEST, g, handle_bytes i (of_nat (length name + 1)) @ name @ [0] @ d)] m =
    Ok (record_upcall (Requested f \<lparr>hdl_transaction_id = i, hdl_service_name_len = of_nat (length name + 1),
      hdl_service_name = name @ [0] @ d\<rparr> g d) m)"
proof -
  have n: "unat (of_nat (Suc (length name)) :: 16 word) = Suc (length name)"
    using assms(2) by (simp only: unat_of_nat) (simp add: take_bit_nat_eq_self)
  have e: "drop (3 + length name) (0 # 0 # name @ 0 # d) = d" by (simp add: numeral_3_eq_3)
  show ?thesis
    unfolding deliver_all.simps deliver_def prod.case call_matching [of cbs] assms(1)
    by (simp add: e call_requested_def ntoh_handle_bytes host_handle_bytes n Let_def del: of_nat_Suc of_nat_add)
qed

lemma deliver_reply:
  assumes "filter (\<lambda>cb. snd cb = MESSAGE_TYPE_REPLY) cbs = [(f, MESSAGE_TYPE_REPLY)]" and "context_db m = Some db" and "map_of db i = Some c"
  shows "deliver_all cbs [(MESSAGE_TYPE_REPLY, g, handle_bytes i 0 @ d)] m =
    Ok (delete_context c (record_upcall (Replied f g d (ctx_user_data c)) m))"
  unfolding deliver_all.simps deliver_def prod.case call_matching [of cbs] assms(1)
  using assms(2,3) by (simp add: call_replied_def ntoh_handle_bytes host_handle_bytes get_context_def)

lemma single_batch: "concat bs = [x] \<Longrightarrow> sent_batches bs \<Longrightarrow> bs = [[x]]"
  by (cases bs; cases "tl bs") (auto simp: Cons_eq_append_conv append_eq_Cons_conv)

text \<open>A message that is sent over an empty queue is one packet.\<close>

lemma send_one:
  assumes "connected name fd [] m" and "sendable (t, g, d)" and "\<forall>fd t n. os_send os fd t n = Sent n"
  shows "\<exists>m1 m2. push_message_to_send_queue os (send_dump_message os) name t g d m = Ok (True, m1) \<and>
    run_messenger_handler os (On_send_write name) fd [] m1 = Ok ([], m2) \<and> connected name fd [] m2 \<and>
    ms_sent m2 = ms_sent m @ [(fd, message_frame (t, g, d))] \<and> receives_as m m2"
proof -
  have w: "sends_whole os fd" "\<forall>t n. os_send os fd t n = Sent n" using assms(3) by (auto simp: sends_whole_def)
  have "sendable (t, g, d)" "room_for [] (t, g, d)" using assms(2) by (simp_all add: room_for_def)
  then obtain bs rest m1 where a: "push_message_to_send_queue os (send_dump_message os) name t g d m = Ok (True, m1)"
    "connected name fd rest m1" "[(t, g, d)] = concat bs @ rest" "sent_batches bs" "ms_sent m1 = ms_sent m @ in_packets fd bs" "receives_as m m1"
    using push_message_connected [OF assms(1) _ w(1)] by fastforce
  obtain bs' m2 where b: "run_messenger_handler os (On_send_write name) fd [] m1 = Ok ([], m2)" "connected name fd [] m2"
    "rest = concat bs'" "sent_batches bs'" "ms_sent m2 = ms_sent m1 @ in_packets fd bs'" "receives_as m1 m2"
    using flush_connected [OF a(2) w(2)] by blast
  have "bs @ bs' = [[(t, g, d)]]" using a(3,4) b(3,4) by (intro single_batch) auto
  then have "in_packets fd bs @ in_packets fd bs' = [(fd, message_frame (t, g, d))]"
    by (simp add: in_packets_def flip: map_append)
  then show ?thesis using a b by (auto simp: receives_as_def)
qed

lemma serve_one:
  assumes "waiting name rq m" and "small x" and "deliver_all (rq_callbacks rq) [x] m = Ok m'"
  shows "\<exists>m''. serve os name fd 1 [Recv_packet (message_frame x)] m = Ok ([], m'') \<and> ms_upcalls m'' = ms_upcalls m' \<and>
    context_db m'' = context_db m' \<and> send_queues m'' = send_queues m' \<and> reports_off m''"
  using serve_delivers [OF assms(1), of "[[x]]" m' 1 os fd] assms(2,3) by (auto simp: packets_def waiting_def)

lemma insert_context_fresh:
  assumes "context_db m = Some db" and "map_of db (last_transaction_id m + 1) = None"
  shows "insert_context user_data m =
    Ok (\<lparr>ctx_transaction_id = last_transaction_id m + 1, ctx_life_count = 10, ctx_user_data = user_data\<rparr>,
        m\<lparr>last_transaction_id := last_transaction_id m + 1,
          context_db := Some (tbl_insert (last_transaction_id m + 1)
            \<lparr>ctx_transaction_id = last_transaction_id m + 1, ctx_life_count = 10, ctx_user_data = user_data\<rparr> db)\<rparr>)"
  using assms by (simp add: insert_context_def Let_def)

lemma connected_context:
  "connected name fd ms (m\<lparr>last_transaction_id := i, context_db := db\<rparr>) = connected name fd ms m"
  "waiting name rq (m\<lparr>last_transaction_id := i, context_db := db\<rparr>) = waiting name rq m"
  by (simp_all add: connected_def waiting_def send_queue_of_def receive_queue_of_def)

lemma waiting_as: "waiting name rq m \<Longrightarrow> receives_as m m' \<Longrightarrow> waiting name rq m'"
  by (simp add: waiting_def receives_as_def receive_queue_of_def)

lemma c_string_name: "0 \<notin> set name \<Longrightarrow> c_string (name @ [0] @ d) = Ok name"
  by (simp add: c_string_def) (subst takeWhile_append2; auto)

text \<open>The request on its way to the service.\<close>

lemma request_arrives:
  assumes "connected to fd [] c" and "context_db c = Some db" and "map_of db (last_transaction_id c + 1) = None"
    and "waiting to rq s" and "filter (\<lambda>cb. snd cb = MESSAGE_TYPE_REQUEST) (rq_callbacks rq) = [(f, MESSAGE_TYPE_REQUEST)]"
    and "length from < 32" and "17 + length from + length data \<le> MESSENGER_RECV_BUFFER" and os: "\<forall>fd t n. os_send os fd t n = Sent n"
  defines "h \<equiv> \<lparr>hdl_transaction_id = last_transaction_id c + 1, hdl_service_name_len = of_nat (length from + 1),
     hdl_service_name = from @ [0] @ data\<rparr>"
  shows "\<exists>c1 c2 p s1. send_request_message os to from tag data user_data c = Ok (True, c1) \<and>
    run_messenger_handler os (On_send_write to) fd [] c1 = Ok ([], c2) \<and> ms_sent c2 = ms_sent c @ [(fd, p)] \<and>
    serve os to fd' 1 [Recv_packet p] s = Ok ([], s1) \<and> ms_upcalls s1 = ms_upcalls s @ [Requested f h tag data] \<and>
    send_queues s1 = send_queues s \<and> reports_off s1 \<and> ms_upcalls c2 = ms_upcalls c \<and>
    (\<forall>name rq. waiting name rq c \<longrightarrow> waiting name rq c2) \<and>
    context_db c2 = Some (tbl_insert (last_transaction_id c + 1)
      \<lparr>ctx_transaction_id = last_transaction_id c + 1, ctx_life_count = 10, ctx_user_data = user_data\<rparr> db)"
proof -
  let ?i = "last_transaction_id c + 1"
  let ?c = "c\<lparr>last_transaction_id := ?i, context_db := Some (tbl_insert ?i
      \<lparr>ctx_transaction_id = ?i, ctx_life_count = 10, ctx_user_data = user_data\<rparr> db)\<rparr>"
  let ?d = "handle_bytes ?i (of_nat (length from + 1)) @ from @ [0] @ data"
  let ?x = "(MESSAGE_TYPE_REQUEST, tag, ?d)"
  have sm: "small ?x" "sendable ?x" using assms(7) by (simp_all add: message_size_def)
  obtain c1 c2 where a: "push_message_to_send_queue os (send_dump_message os) to MESSAGE_TYPE_REQUEST tag ?d ?c = Ok (True, c1)"
    "run_messenger_handler os (On_send_write to) fd [] c1 = Ok ([], c2)"
    "ms_sent c2 = ms_sent ?c @ [(fd, message_frame ?x)]" "receives_as ?c c2"
    using send_one [OF _ sm(2) os, of to fd ?c] assms(1) by (auto simp: connected_context)
  have "send_request_message os to from tag data user_data c = Ok (True, c1)"
    using a(1) by (simp add: send_request_message_def insert_context_fresh [OF assms(2,3)])
  moreover obtain s1 where "serve os to fd' 1 [Recv_packet (message_frame ?x)] s = Ok ([], s1)"
    "ms_upcalls s1 = ms_upcalls s @ [Requested f h tag data]" "send_queues s1 = send_queues s" "reports_off s1"
    using serve_one [OF assms(4) sm(1) deliver_request [OF assms(5,6)], of os fd'] by (auto simp: record_upcall_def h_def)
  moreover have "waiting name rq c2" if "waiting name rq c" for name rq
    using that waiting_as [OF _ a(4)] by (simp add: connected_context)
  moreover have "context_db c2 = context_db ?c" "ms_upcalls c2 = ms_upcalls c" using a(4) by (simp_all add: receives_as_def)
  ultimately show ?thesis
    using a(2,3) by (intro exI [of _ c1] exI [of _ c2] exI [of _ "message_frame ?x"] exI [of _ s1]) (simp add: h_def)
qed

text \<open>The reply on its way back.\<close>

lemma reply_arrives:
  assumes "connected from fd [] s" and "hdl_service_name h = from @ [0] @ data" and "0 \<notin> set from"
    and "waiting from rq c" and "filter (\<lambda>cb. snd cb = MESSAGE_TYPE_REPLY) (rq_callbacks rq) = [(f, MESSAGE_TYPE_REPLY)]"
    and "context_db c = Some db" and "map_of db (hdl_transaction_id h) = Some x" and "ctx_transaction_id x = hdl_transaction_id h"
    and "16 + length reply \<le> MESSENGER_RECV_BUFFER" and os: "\<forall>fd t n. os_send os fd t n = Sent n"
  shows "\<exists>s1 s2 p c1. send_reply_message os h tag reply s = Ok (True, s1) \<and>
    run_messenger_handler os (On_send_write from) fd [] s1 = Ok ([], s2) \<and> ms_sent s2 = ms_sent s @ [(fd, p)] \<and>
    serve os from fd' 1 [Recv_packet p] c = Ok ([], c1) \<and> ms_upcalls c1 = ms_upcalls c @ [Replied f tag reply (ctx_user_data x)] \<and>
    context_db c1 = Some (tbl_delete (hdl_transaction_id h) db)"
proof -
  let ?d = "handle_bytes (hdl_transaction_id h) 0 @ reply"
  let ?x = "(MESSAGE_TYPE_REPLY, tag, ?d)"
  have sm: "small ?x" "sendable ?x" using assms(9) by (simp_all add: message_size_def)
  obtain s1 s2 where "push_message_to_send_queue os (send_dump_message os) from MESSAGE_TYPE_REPLY tag ?d s = Ok (True, s1)"
    "run_messenger_handler os (On_send_write from) fd [] s1 = Ok ([], s2)" "ms_sent s2 = ms_sent s @ [(fd, message_frame ?x)]"
    using send_one [OF assms(1) sm(2) os] by blast
  moreover obtain c1 where "serve os from fd' 1 [Recv_packet (message_frame ?x)] c = Ok ([], c1)"
    "ms_upcalls c1 = ms_upcalls c @ [Replied f tag reply (ctx_user_data x)]" "context_db c1 = Some (tbl_delete (hdl_transaction_id h) db)"
    using serve_one [OF assms(4) sm(1) deliver_reply [OF assms(5,6,7)], of os fd'] assms(6,8)
    by (auto simp: record_upcall_def delete_context_def)
  ultimately show ?thesis
    using c_string_name [OF assms(3), of data] assms(2)
    by (intro exI [of _ s1] exI [of _ s2] exI [of _ "message_frame ?x"] exI [of _ c1]) (simp add: send_reply_message_def)
qed


lemma connected_send_queues:
  "connected name fd ms m \<Longrightarrow> send_queues m' = send_queues m \<Longrightarrow> reports_off m' \<Longrightarrow> connected name fd ms m'"
  by (simp add: connected_def send_queue_of_def)

text \<open>
  C6.  A request comes back as its reply.  A client sends a request to a service and the service answers it
  with the handle that its callback was given; every packet that the one writes is read by the other.
  Then the callback of the service is called once, with the number of the transaction, the name of the
  client and the data of the request; the callback of the client is called once, with the data of the
  reply and with the user data that it gave with the request; and the client keeps exactly the contexts
  that it had before.
\<close>

theorem request_reply_round_trip:
  assumes client: "connected service fd [] c" "waiting client crq c" "context_db c = Some db"
      "map_of db (last_transaction_id c + 1) = None"
      "filter (\<lambda>cb. snd cb = MESSAGE_TYPE_REPLY) (rq_callbacks crq) = [(replied, MESSAGE_TYPE_REPLY)]"
    and server: "connected client fd2 [] s" "waiting service srq s"
      "filter (\<lambda>cb. snd cb = MESSAGE_TYPE_REQUEST) (rq_callbacks srq) = [(requested, MESSAGE_TYPE_REQUEST)]"
    and "0 \<notin> set client" and "length client < 32" and "17 + length client + length data \<le> MESSENGER_RECV_BUFFER"
    and "16 + length reply \<le> MESSENGER_RECV_BUFFER" and "\<forall>fd t n. os_send os fd t n = Sent n"
  shows "\<exists>c1 c2 p s1 h s2 s3 q c3 db'. send_request_message os service client tag data user_data c = Ok (True, c1) \<and>
    run_messenger_handler os (On_send_write service) fd [] c1 = Ok ([], c2) \<and> ms_sent c2 = ms_sent c @ [(fd, p)] \<and>
    serve os service sfd 1 [Recv_packet p] s = Ok ([], s1) \<and> ms_upcalls s1 = ms_upcalls s @ [Requested requested h tag data] \<and>
    hdl_transaction_id h = last_transaction_id c + 1 \<and> c_string (hdl_service_name h) = Ok client \<and>
    send_reply_message os h tag' reply s1 = Ok (True, s2) \<and>
    run_messenger_handler os (On_send_write client) fd2 [] s2 = Ok ([], s3) \<and> ms_sent s3 = ms_sent s1 @ [(fd2, q)] \<and>
    serve os client cfd 1 [Recv_packet q] c2 = Ok ([], c3) \<and>
    ms_upcalls c3 = ms_upcalls c @ [Replied replied tag' reply user_data] \<and> context_db c3 = Some db' \<and> map_of db' = map_of db"
proof -
  let ?i = "last_transaction_id c + 1"
  let ?x = "\<lparr>ctx_transaction_id = ?i, ctx_life_count = 10, ctx_user_data = user_data\<rparr>"
  let ?h = "\<lparr>hdl_transaction_id = ?i, hdl_service_name_len = of_nat (length client + 1), hdl_service_name = client @ [0] @ data\<rparr>"
  obtain c1 c2 p s1 where a: "send_request_message os service client tag data user_data c = Ok (True, c1)"
    "run_messenger_handler os (On_send_write service) fd [] c1 = Ok ([], c2)" "ms_sent c2 = ms_sent c @ [(fd, p)]"
    "serve os service sfd 1 [Recv_packet p] s = Ok ([], s1)" "ms_upcalls s1 = ms_upcalls s @ [Requested requested ?h tag data]"
    "send_queues s1 = send_queues s" "reports_off s1" "ms_upcalls c2 = ms_upcalls c" "waiting client crq c2"
    "context_db c2 = Some (tbl_insert ?i ?x db)"
    using request_arrives [OF client(1,3,4) server(2,3) assms(10,11,13), of tag user_data sfd] client(2) by blast
  have s1: "connected client fd2 [] s1" by (rule connected_send_queues [OF server(1) a(6,7)])
  obtain s2 s3 q c3 where b: "send_reply_message os ?h tag' reply s1 = Ok (True, s2)"
    "run_messenger_handler os (On_send_write client) fd2 [] s2 = Ok ([], s3)" "ms_sent s3 = ms_sent s1 @ [(fd2, q)]"
    "serve os client cfd 1 [Recv_packet q] c2 = Ok ([], c3)" "ms_upcalls c3 = ms_upcalls c2 @ [Replied replied tag' reply user_data]"
    "context_db c3 = Some (tbl_delete ?i (tbl_insert ?i ?x db))"
    using reply_arrives [OF s1 _ assms(9) a(9) client(5) a(10) _ _ assms(12,13), of ?h data ?x tag' cfd] by auto
  have "map_of (tbl_delete ?i (tbl_insert ?i ?x db)) = map_of db" using client(4) by auto
  moreover have "c_string (hdl_service_name ?h) = Ok client" using c_string_name [OF assms(9)] by simp
  ultimately show ?thesis
    using a(1-5) b a(8)
    by - (rule exI [of _ c1], rule exI [of _ c2], rule exI [of _ p], rule exI [of _ s1], rule exI [of _ ?h],
        rule exI [of _ s2], rule exI [of _ s3], rule exI [of _ q], rule exI [of _ c3], auto)
qed

theorem request_reply_round_trip_witness:
  "\<exists>c1 c2 p s1 h s2 s3 q c3 db'.
    send_request_message sample_os [98] [97] 1 [10] 77 (sample_messenger [97] [98] [(2, MESSAGE_TYPE_REPLY)]) = Ok (True, c1) \<and>
    run_messenger_handler sample_os (On_send_write [98]) 5 [] c1 = Ok ([], c2) \<and> ms_sent c2 = [(5, p)] \<and>
    serve sample_os [98] 4 1 [Recv_packet p] (sample_messenger [98] [97] [(1, MESSAGE_TYPE_REQUEST)]) = Ok ([], s1) \<and>
    ms_upcalls s1 = [Requested 1 h 1 [10]] \<and> hdl_transaction_id h = 1 \<and> c_string (hdl_service_name h) = Ok [97] \<and>
    send_reply_message sample_os h 2 [20] s1 = Ok (True, s2) \<and>
    run_messenger_handler sample_os (On_send_write [97]) 5 [] s2 = Ok ([], s3) \<and> ms_sent s3 = ms_sent s1 @ [(5, q)] \<and>
    serve sample_os [97] 4 1 [Recv_packet q] c2 = Ok ([], c3) \<and> ms_upcalls c3 = [Replied 2 2 [20] 77] \<and>
    context_db c3 = Some db' \<and> map_of db' = Map.empty"
  using request_reply_round_trip [where service = "[98]" and fd = 5 and c = "sample_messenger [97] [98] [(2, MESSAGE_TYPE_REPLY)]"
      and client = "[97]" and crq = "sample_receive_queue [(2, MESSAGE_TYPE_REPLY)]" and db = "[]" and replied = 2 and ?fd2.0 = 5
      and s = "sample_messenger [98] [97] [(1, MESSAGE_TYPE_REQUEST)]" and srq = "sample_receive_queue [(1, MESSAGE_TYPE_REQUEST)]"
      and requested = 1 and data = "[10]" and reply = "[20]" and os = sample_os and tag = 1 and user_data = 77 and sfd = 4 and tag' = 2 and cfd = 4]
    sample_queue_connected sample_waiting sample_sends
  by (simp del: serve.simps run_messenger_handler.simps One_nat_def)

section \<open>Contexts\<close>

definition contexts_ok :: "(32 word \<times> messenger_context) list \<Rightarrow> bool" where
  "contexts_ok db \<longleftrightarrow> distinct (map fst db) \<and> (\<forall>(i, c) \<in> set db. ctx_transaction_id c = i)"

definition aged :: "messenger_context \<Rightarrow> messenger_context option" where
  "aged c = (if ctx_life_count c \<le> 1 then None else Some (c\<lparr>ctx_life_count := ctx_life_count c - 1\<rparr>))"

lemma tbl_keys:
  "map fst (tbl_update k v t) = map fst t" "distinct (map fst t) \<Longrightarrow> distinct (map fst (tbl_delete k t))"
  "distinct (map fst t) \<Longrightarrow> distinct (map fst (tbl_insert k v t))"
  by (induction t) (auto simp: tbl_update_def tbl_delete_def tbl_insert_def)

lemma contexts_ok_ops:
  "contexts_ok db \<Longrightarrow> ctx_transaction_id c = i \<Longrightarrow> contexts_ok (tbl_update i c db)"
  "contexts_ok db \<Longrightarrow> contexts_ok (tbl_delete i db)"
  "contexts_ok db \<Longrightarrow> ctx_transaction_id c = i \<Longrightarrow> contexts_ok (tbl_insert i c db)"
  by (auto simp: contexts_ok_def tbl_keys) (auto simp: tbl_update_def tbl_delete_def tbl_insert_def)

lemma age_context_lookup:
  assumes "context_db m = Some db" and "contexts_ok db" and "map_of db (ctx_transaction_id c) \<noteq> None"
  shows "\<exists>db'. context_db (age_context c m) = Some db' \<and> contexts_ok db' \<and> map_of db' = (map_of db)(ctx_transaction_id c := aged c)"
  using assms by (auto simp: age_context_def delete_context_def Let_def contexts_ok_ops aged_def fun_eq_iff)

lemma age_contexts_lookup:
  assumes "context_db m = Some db" and "contexts_ok db" and "contexts_ok es" and "\<forall>(i, c) \<in> set es. map_of db i \<noteq> None"
  shows "\<exists>db'. context_db (fold (\<lambda>(k, c). age_context c) es m) = Some db' \<and> contexts_ok db' \<and>
    (\<forall>i. map_of db' i = (case map_of es i of None \<Rightarrow> map_of db i | Some c \<Rightarrow> aged c))"
  using assms
proof (induction es arbitrary: m db)
  case (Cons e es)
  obtain i c where e: "e = (i, c)" by (cases e)
  have i: "ctx_transaction_id c = i" "i \<notin> set (map fst es)" "contexts_ok es" using Cons(4) e by (auto simp: contexts_ok_def)
  have n: "map_of db (ctx_transaction_id c) \<noteq> None" using Cons(5) e i(1) by simp
  obtain db1 where d: "context_db (age_context c m) = Some db1" "contexts_ok db1" "map_of db1 = (map_of db)(i := aged c)"
    using age_context_lookup [OF Cons(2,3) n] i(1) by auto
  have "\<forall>(j, x) \<in> set es. map_of db1 j \<noteq> None" using Cons(5) e d(3) i(2) by (force simp: image_iff)
  from Cons.IH [OF d(1,2) i(3) this] show ?case
    using e d(3) i(2) by (auto simp: map_of_eq_None_iff split: option.splits)
qed auto

lemma age_context_db_ages:
  assumes "context_db m = Some db" and "contexts_ok db"
  shows "\<exists>m' db'. age_context_db m = Ok m' \<and> context_db m' = Some db' \<and> contexts_ok db' \<and> map_of db' i = Option.bind (map_of db i) aged"
proof -
  have "\<forall>(j, c) \<in> set db. map_of db j \<noteq> None" by (auto simp: map_of_eq_None_iff image_iff) (metis fst_conv)
  from age_contexts_lookup [OF assms assms(2) this] show ?thesis
    using assms(1) by (auto simp: age_context_db_def split: option.splits) (metis bind.bind_lunit bind.bind_lzero option.exhaust)
qed

fun age_repeatedly :: "nat \<Rightarrow> messenger \<Rightarrow> messenger res" where
  "age_repeatedly 0 m = Ok m"
| "age_repeatedly (Suc n) m = bnd (age_context_db m) (age_repeatedly n)"

lemma age_repeatedly_lookup:
  assumes "context_db m = Some db" and "contexts_ok db" and "map_of db i = Some c"
  shows "\<exists>m'. age_repeatedly n m = Ok m' \<and>
    get_context i m' = Ok (if int n < ctx_life_count c \<or> n = 0 then Some (c\<lparr>ctx_life_count := ctx_life_count c - int n\<rparr>) else None)"
  using assms
proof (induction n arbitrary: m db c)
  case 0
  then show ?case by (simp add: get_context_def)
next
  case (Suc n)
  obtain m1 db1 where a: "age_context_db m = Ok m1" "context_db m1 = Some db1" "contexts_ok db1" "map_of db1 i = aged c"
    using age_context_db_ages [OF Suc(2,3), of i] Suc(4) by auto
  show ?case
  proof (cases "ctx_life_count c \<le> 1")
    case True
    have gone: "context_db m = Some db \<Longrightarrow> contexts_ok db \<Longrightarrow> map_of db i = None \<Longrightarrow>
        \<exists>m'. age_repeatedly n m = Ok m' \<and> get_context i m' = Ok None" for n m db
    proof (induction n arbitrary: m db)
      case (Suc n)
      then show ?case using age_context_db_ages [OF Suc(2,3), of i] by fastforce
    qed (simp add: get_context_def)
    show ?thesis using gone [OF a(2,3)] a(1,4) True by (simp add: aged_def)
  next
    case False
    then have "map_of db1 i = Some (c\<lparr>ctx_life_count := ctx_life_count c - 1\<rparr>)" using a(4) by (simp add: aged_def)
    from Suc.IH [OF a(2,3) this] show ?thesis using a(1) False by (auto simp: algebra_simps)
  qed
qed

text \<open>
  How long a request waits.  The context of a request is found under its number until its tenth aging,
  which deletes it.  When the counter has come round to a number that is still waiting, the new
  context is deleted together with the old one before the request is even sent.
\<close>

lemma request_contexts_expire:
  assumes "context_db m = Some db" and "contexts_ok db"
  shows "\<exists>c m'. insert_context user_data m = Ok (c, m') \<and> ctx_transaction_id c = last_transaction_id m + 1 \<and> ctx_user_data c = user_data \<and>
    (if map_of db (last_transaction_id m + 1) = None
     then \<forall>n. \<exists>m''. age_repeatedly n m' = Ok m'' \<and>
       get_context (ctx_transaction_id c) m'' = Ok (if n < 10 then Some (c\<lparr>ctx_life_count := 10 - int n\<rparr>) else None)
     else get_context (ctx_transaction_id c) m' = Ok None)"
proof -
  let ?i = "last_transaction_id m + 1"
  let ?c = "\<lparr>ctx_transaction_id = ?i, ctx_life_count = 10, ctx_user_data = user_data\<rparr>"
  show ?thesis
  proof (cases "map_of db ?i")
    case None
    have ok: "contexts_ok (tbl_insert ?i ?c db)" using assms(2) by (intro contexts_ok_ops) simp_all
    have "\<exists>m''. age_repeatedly n (m\<lparr>last_transaction_id := ?i, context_db := Some (tbl_insert ?i ?c db)\<rparr>) = Ok m'' \<and>
        get_context ?i m'' = Ok (if n < 10 then Some (?c\<lparr>ctx_life_count := 10 - int n\<rparr>) else None)" for n
      using age_repeatedly_lookup [of "m\<lparr>last_transaction_id := ?i, context_db := Some (tbl_insert ?i ?c db)\<rparr>" "tbl_insert ?i ?c db" ?i ?c n] ok
      by auto
    then show ?thesis using None by (simp add: insert_context_fresh [OF assms(1) None])
  next
    case (Some old)
    then have "ctx_transaction_id old = ?i" using assms(2) by (auto simp: contexts_ok_def dest!: map_of_SomeD)
    then show ?thesis using Some assms(1) by (auto simp: insert_context_def delete_context_def get_context_def Let_def)
  qed
qed

lemma request_contexts_expire_witness:
  "\<exists>c m'. insert_context 77 (sample_messenger [97] [98] []) = Ok (c, m') \<and> ctx_transaction_id c = 1 \<and> ctx_user_data c = 77 \<and>
    (\<forall>n. \<exists>m''. age_repeatedly n m' = Ok m'' \<and>
      get_context (ctx_transaction_id c) m'' = Ok (if n < 10 then Some (c\<lparr>ctx_life_count := 10 - int n\<rparr>) else None))"
  using request_contexts_expire [of "sample_messenger [97] [98] []" "[]" 77] by (simp add: contexts_ok_def)


section \<open>Messages that are too long\<close>

lemma blocked_queue:
  assumes "receive_queue_of name m = Some rq" and "mb_data_length (rq_buffer rq) = MESSENGER_RECV_BUFFER"
    and "mb_size (rq_buffer rq) = messenger_recv_queue_length" and "buffer_header (rq_buffer rq) 0 = Ok h"
    and "MESSENGER_RECV_BUFFER < unat (header_length h)" and "unat (header_length h) < messenger_recv_queue_length"
  shows "\<exists>m'. serve os name fd n rs m = Ok (rs, m') \<and> ms_upcalls m' = ms_upcalls m"
  using assms(1)
proof (induction n arbitrary: m)
  case (Suc n)
  have "recv_loop os name fd rs rq m = Ok (rs, rq, m)"
    using assms(2,3) by (simp add: recv_loop.simps message_buffer_remain_bytes_def)
  moreover have "pull_loop rq m = Ok (rq\<lparr>rq_buffer := rq_buffer rq\<rparr>, m)"
    using assms(2-6) by (subst pull_loop.simps) (simp add: pull_from_recv_queue_def Let_def)
  ultimately have "run_messenger_handler os (On_recv name) fd rs m = Ok (rs, store_receive_queue name rq m)"
    using Suc(2) by (simp add: with_receive_queue_def receive_queue_of_def on_recv_def)
  moreover have "receive_queue_of name (store_receive_queue name rq m) = Some rq" using Suc(2) by simp
  ultimately show ?case using Suc.IH [of "store_receive_queue name rq m"] by simp
qed simp

lemma long_packet_blocks:
  assumes "waiting name rq r" and "MESSENGER_RECV_BUFFER < message_size x" and "sendable x"
  shows "\<exists>r1. serve os name fd 1 [Recv_packet (message_frame x)] r = Ok ([], r1) \<and> ms_upcalls r1 = ms_upcalls r \<and>
    (\<forall>os fd n rs. \<exists>r'. serve os name fd n rs r1 = Ok (rs, r') \<and> ms_upcalls r' = ms_upcalls r)"
proof -
  have w: "receive_queue_of name r = Some rq" "rq_holds rq []" "reports_off r" using assms(1) by (auto simp: waiting_def)
  have e: "mb_data_length (rq_buffer rq) = 0" using rq_holds_length [OF w(2)] by simp
  have sz: "mb_size (rq_buffer rq) = messenger_recv_queue_length" "buffer_ok (rq_buffer rq)" "buffered (rq_buffer rq) = []"
    using w(2) by (auto simp: rq_holds_def)
  let ?p = "take MESSENGER_RECV_BUFFER (message_frame x)"
  have p: "length ?p = MESSENGER_RECV_BUFFER" using assms(2) by simp
  moreover have "?p \<noteq> []"
  proof
    assume "?p = []"
    then show False using p by (metis list.size(3) zero_neq_numeral)
  qed
  ultimately have p: "length ?p = MESSENGER_RECV_BUFFER" "?p \<noteq> []" by blast+
  obtain b where b: "write_message_buffer (rq_buffer rq) ?p = Ok (True, b)" "buffer_ok b" "mb_size b = mb_size (rq_buffer rq)"
    "buffered b = buffered (rq_buffer rq) @ ?p"
    by (rule write_accepted [OF sz(2), of ?p]) (use e sz(1) p(1) in \<open>simp add: message_buffer_remain_bytes_def\<close>)
  have bl: "mb_data_length b = MESSENGER_RECV_BUFFER" using arg_cong [OF b(4), of length] p(1) sz(3) by simp
  have h: "buffer_header b 0 = Ok (take 8 (message_frame x))"
    using buffered_part [of 0 8 b] bl b(2,4) sz(3) by (simp add: buffer_header_def buffer_ok_def)
  have hl: "unat (header_length (take 8 (message_frame x))) = message_size x" using assms(3) by (intro header_fields) simp
  let ?rq = "rq\<lparr>rq_buffer := b\<rparr>"
  have l1: "recv_loop os name fd [Recv_packet (message_frame x)] rq r = Ok ([], ?rq, r)"
  proof -
    have "recv_loop os name fd [Recv_packet (message_frame x)] rq r = recv_loop os name fd [] ?rq r"
      using e sz(1) p(2) b(1) w(3)
      by (subst recv_loop.simps) (simp add: message_buffer_remain_bytes_def send_dump_message_def Let_def)
    also have "\<dots> = Ok ([], ?rq, r)" by (simp add: recv_loop.simps Let_def)
    finally show ?thesis .
  qed
  have "pull_loop ?rq r = Ok (?rq, r)"
    using bl h hl assms(2,3) by (subst pull_loop.simps) (simp add: pull_from_recv_queue_def Let_def)
  then have s: "serve os name fd 1 [Recv_packet (message_frame x)] r = Ok ([], store_receive_queue name ?rq r)"
    using w(1) l1 by (simp add: with_receive_queue_def receive_queue_of_def on_recv_def)
  have q: "receive_queue_of name (store_receive_queue name ?rq r) = Some ?rq" using w(1) by simp
  have "\<exists>r'. serve os name fd n rs (store_receive_queue name ?rq r) = Ok (rs, r') \<and> ms_upcalls r' = ms_upcalls r" for os fd n rs
    using blocked_queue [OF q, of "take 8 (message_frame x)" os fd n rs] bl b(3) sz(1) h hl assms(2,3) by simp
  then show ?thesis using s by auto
qed

text \<open>
  C38.  A message of 100001 to 199999 bytes is accepted and sent, and blocks its receiver for good.  The receiver
  reads the first 100000 bytes of its packet.  What it then holds is not a message yet and leaves too little
  room for another packet: from then on \<open>on_recv\<close> reads nothing, whatever arrives from whomever, and
  no callback of the service is called again.
\<close>

theorem long_message_blocks_receiver:
  assumes "connected name fd [] s" and "waiting name rq r" and "\<forall>fd t n. os_send os fd t n = Sent n"
    and "MESSENGER_RECV_BUFFER < 8 + length data" and "8 + length data < messenger_recv_queue_length"
  shows "\<exists>s1 s2 p r1. send_message os name tag data s = Ok (True, s1) \<and>
    run_messenger_handler os (On_send_write name) fd [] s1 = Ok ([], s2) \<and> ms_sent s2 = ms_sent s @ [(fd, p)] \<and>
    serve os' name fd' 1 [Recv_packet p] r = Ok ([], r1) \<and> ms_upcalls r1 = ms_upcalls r \<and>
    (\<forall>os fd n rs. \<exists>r'. serve os name fd n rs r1 = Ok (rs, r') \<and> ms_upcalls r' = ms_upcalls r)"
proof -
  let ?x = "(MESSAGE_TYPE_NOTIFY, tag, data)"
  have x: "sendable ?x" "MESSENGER_RECV_BUFFER < message_size ?x" using assms(4,5) by (simp_all add: message_size_def)
  show ?thesis
    using send_one [OF assms(1) x(1) assms(3)] long_packet_blocks [OF assms(2) x(2,1), of os' fd'] unfolding send_message_def by blast
qed

theorem long_message_blocks_receiver_witness:
  "\<exists>s1 s2 p r1. send_message sample_os [98] 1 (replicate 100000 0) (sample_messenger [97] [98] []) = Ok (True, s1) \<and>
    run_messenger_handler sample_os (On_send_write [98]) 5 [] s1 = Ok ([], s2) \<and> ms_sent s2 = [(5, p)] \<and>
    serve sample_os [98] 4 1 [Recv_packet p] (sample_messenger [98] [97] [(1, MESSAGE_TYPE_NOTIFY)]) = Ok ([], r1) \<and> ms_upcalls r1 = [] \<and>
    (\<forall>os fd n rs. \<exists>r'. serve os [98] fd n rs r1 = Ok (rs, r') \<and> ms_upcalls r' = [])"
  using long_message_blocks_receiver [where name = "[98]" and fd = 5 and s = "sample_messenger [97] [98] []"
      and rq = "sample_receive_queue [(1, MESSAGE_TYPE_NOTIFY)]" and r = "sample_messenger [98] [97] [(1, MESSAGE_TYPE_NOTIFY)]"
      and os = sample_os and data = "replicate 100000 0" and tag = 1 and os' = sample_os and fd' = 4]
    sample_queue_connected sample_waiting sample_sends
  by (simp del: serve.simps run_messenger_handler.simps One_nat_def)

text \<open>
  A message of 200000 bytes or more that fits into the queue ends the sender: the call that would send
  it fails an assertion instead of returning.
\<close>

lemma oversized_message_ends_sender:
  assumes "connected name fd [] m" and "messenger_recv_queue_length \<le> 8 + length data" and "8 + length data \<le> messenger_send_queue_length"
  shows "send_message os name tag data m = Fault Assertion"
proof -
  let ?x = "(MESSAGE_TYPE_NOTIFY, tag, data)"
  obtain t sq where q: "send_queues m = Some t" "map_of t name = Some sq" "holds sq []" "sq_server_socket sq = fd" "fd \<noteq> -1"
    using assms(1) by (auto simp: connected_def send_queue_of_def bind_eq_Some_conv)
  obtain buf where "sq_buffer sq = Some buf" "buffer_ok buf" "mb_size buf = messenger_send_queue_length" "buffered buf = frames []"
      "mb_data_length buf = length (frames [])" by (rule holdsE [OF q(3)])
  note sq = q this(1-3) this(5,4) [unfolded list.map concat.simps list.size]
  have r: "message_size ?x \<le> message_buffer_remain_bytes buf" using assms(3) sq by (simp add: message_size_def message_buffer_remain_bytes_def)
  obtain b1 b2 where b: "write_message_buffer buf ([0, 0] @ put16 tag @ put32 (of_nat (8 + length data))) = Ok (True, b1)"
    "write_message_buffer b1 data = Ok (True, b2)" "buffer_ok b2" "mb_size b2 = mb_size buf" "buffered b2 = buffered buf @ message_frame ?x"
    by (rule write_frame [OF sq(7) r])
  have l: "mb_data_length b2 = message_size ?x" using arg_cong [OF b(5), of length] sq(10) by simp
  have u: "message_size ?x < 2 ^ 32" using assms(3) by (simp add: message_size_def)
  have hd: "buffer_header b2 0 = Ok (take 8 (message_frame ?x))" using buffer_header_frame [of b2 "[]" ?x "[]"] b(3,5) sq(10) by simp
  have g: "get_send_data os sq' b2 0 = Fault Assertion" for sq'
    using l hd header_fields(1) [OF u] assms(2) unfolding get_send_data_def
    by (subst get_send_data_loop.simps) (simp add: message_size_def Let_def)
  have nb: "\<not> message_buffer_remain_bytes buf < unat (of_nat (8 + length data) :: 32 word)" using r unat_message_size [OF u] by simp
  have "on_send_write os dump name fd (sq\<lparr>sq_overflow := 0, sq_overflow_total_length := 0, sq_buffer := Some b2\<rparr>) m' = Fault Assertion" for dump m'
    using l assms(2) g by (simp add: on_send_write_def message_size_def on_send_write_loop.simps)
  then have "push_to_queue os dump name MESSAGE_TYPE_NOTIFY tag data sq m = Fault Assertion" for dump
    using nb b(1,2) sq(4-6) l assms(2) by (simp add: push_to_queue_def Let_def message_size_def del: of_nat_add)
  then show ?thesis using sq(1,2) by (simp add: send_message_def push_message_to_send_queue_def)
qed

lemma oversized_message_ends_sender_witness:
  "send_message sample_os [98] 1 (replicate 200000 0) (sample_messenger [97] [98] []) = Fault Assertion"
  by (rule oversized_message_ends_sender [OF sample_queue_connected [of "[98]" "[97]" "[]"]]) simp_all

end
