(* ===== verification/Messenger_Watch.thy ===== *)
theory Messenger_Watch
  imports Messenger_Properties "HOL-Library.Multiset"
begin

text \<open>
  Send queues are attended to: a queue with something to send is watched for writing when it is connected,
  and has exactly one timer for the next attempt when it is not, as long as the system gives it sockets.
\<close>

section \<open>The handlers of a connection\<close>

definition registered_at :: "messenger_handler event_handler \<Rightarrow> int \<Rightarrow> bytes \<Rightarrow> bool" where
  "registered_at ev fd name \<longleftrightarrow> (\<exists>e. handler_at ev fd = Some e \<and> read_callback e = Some (On_send_read name) \<and> write_callback e = Some (On_send_write name))"

lemma registered_set_writable [simp]:
  "handler_at (set_writable fd b ev) x = handler_at ev x" "handler_at (set_readable fd b ev) x = handler_at ev x"
  by (auto simp: set_writable_def set_readable_def handler_at_def split: option.splits)

lemma registered_at_set [simp]:
  "registered_at (set_writable fd b ev) x name = registered_at ev x name" "registered_at (set_readable fd b ev) x name = registered_at ev x name"
  by (simp_all add: registered_at_def)

lemma registered_valid: "round_inv ev \<Longrightarrow> registered_at ev fd name \<Longrightarrow> valid_fd fd"
  using handler_valid by (fastforce simp: registered_at_def round_inv_def)

lemma set_writable_watches: "round_inv ev \<Longrightarrow> registered_at ev fd name \<Longrightarrow> fd \<in> event_write_set (set_writable fd True ev)"
  using registered_valid by (fastforce simp: registered_at_def set_writable_def)

lemma watch_fd_registers:
  assumes "round_inv (ms_events m)" and "valid_fd fd" and "handler_at (ms_events m) fd = None"
  shows "\<exists>ev. watch_fd fd (Some (On_send_read name)) (Some (On_send_write name)) m = Ok (m\<lparr>ms_events := ev\<rparr>) \<and>
    round_inv ev \<and> registered_at ev fd name"
proof -
  have inv: "eh_inv (ms_events m)" using assms(1) by (simp add: round_inv_def)
  have n: "event_fd_set (ms_events m) fd = None" using assms(3) by (simp add: handler_at_def)
  let ?e = "registered (ms_events m) fd (Some (On_send_read name)) (Some (On_send_write name))"
  have s: "set_fd_handler fd (Some (On_send_read name)) (Some (On_send_write name)) (ms_events m) = Ok ?e"
    using assms(2) n free_place [OF inv assms(2) n] by (simp add: set_fd_handler_def registered_def)
  then have "round_inv ?e" using set_fd_handler_ok [OF assms(1,2), of "Some (On_send_read name)" "Some (On_send_write name)"] by auto
  then have "round_inv (set_readable fd True ?e)" using set_readable_ok by blast
  moreover have "registered_at ?e fd name" by (simp add: registered_at_def handler_at_registered [OF inv n])
  ultimately show ?thesis using s by (intro exI [of _ "set_readable fd True ?e"]) (simp add: watch_fd_def)
qed

lemma unwatch_sender_frees:
  assumes "round_inv (ms_events m)"
  shows "round_inv (ms_events (unwatch_sender fd m))" and "handler_at (ms_events (unwatch_sender fd m)) fd = None"
    and "handler_at (ms_events m) x = None \<Longrightarrow> handler_at (ms_events (unwatch_sender fd m)) x = None"
proof -
  let ?ev = "set_writable fd False (set_readable fd False (ms_events m))"
  have r: "round_inv ?ev" using set_readable_ok [OF assms] set_writable_ok by blast
  then have inv: "eh_inv ?ev" by (simp add: round_inv_def)
  have u: "ms_events (unwatch_sender fd m) = delete_fd_handler fd ?ev" by (simp add: unwatch_sender_def close_fd_def on_events_def)
  show "round_inv (ms_events (unwatch_sender fd m))" unfolding u using delete_fd_handler_ok [OF r] by blast
  have "handler_at (delete_fd_handler fd ?ev) = (handler_at ?ev)(fd := None)"
  proof (cases "event_fd_set ?ev fd")
    case None
    then show ?thesis by (auto simp: delete_fd_handler_eq [OF inv] handler_at_def fun_eq_iff)
  next
    case (Some i)
    then show ?thesis by (simp add: delete_fd_handler_eq [OF inv] handler_at_unregistered [OF inv Some])
  qed
  then show "handler_at (ms_events (unwatch_sender fd m)) fd = None"
    "handler_at (ms_events m) x = None \<Longrightarrow> handler_at (ms_events (unwatch_sender fd m)) x = None" unfolding u by simp_all
qed

lemma unwatch_sender_fields [simp]:
  "ms_timers (unwatch_sender fd m) = ms_timers m" "send_queues (unwatch_sender fd m) = send_queues m"
  "dump_service_name (unwatch_sender fd m) = dump_service_name m"
  by (simp_all add: unwatch_sender_def close_fd_def on_events_def)

section \<open>Queues that are attended to\<close>

definition timer_pending :: "bytes \<Rightarrow> messenger \<Rightarrow> bool" where
  "timer_pending name m \<longleftrightarrow> (\<exists>cbs. timer_callbacks (ms_timers m) = Some cbs \<and> (\<exists>cb \<in> set cbs. is_timer Send_queue_connect_timeout (Some name) cb))"

definition queue_length :: "send_queue \<Rightarrow> nat" where
  "queue_length sq = (case sq_buffer sq of None \<Rightarrow> 0 | Some buf \<Rightarrow> mb_data_length buf)"

text \<open>
  The timers for the next attempt of a queue.  The timer that is fired is still in the list while its
  function runs; the execution of the timers takes it out afterwards, because it has no interval.
\<close>

definition connect_timers :: "bytes \<Rightarrow> messenger \<Rightarrow> (messenger_timer, bytes) timer_callback_info multiset" where
  "connect_timers name m =
     filter_mset (is_timer Send_queue_connect_timeout (Some name)) (mset (case timer_callbacks (ms_timers m) of None \<Rightarrow> [] | Some cbs \<Rightarrow> cbs))"

definition one_shot :: "('f, 'u) timer_callback_info \<Rightarrow> bool" where
  "one_shot cb \<longleftrightarrow> \<not> VALID_TIMESPEC (tm_interval cb)"

definition attended_besides :: "(messenger_timer, bytes) timer_callback_info multiset \<Rightarrow> bytes \<Rightarrow> send_queue \<Rightarrow> messenger \<Rightarrow> bool" where
  "attended_besides T name sq m \<longleftrightarrow>
     (if sq_server_socket sq = -1
      then 0 < tv_sec (sq_reconnect_interval sq) \<and> sq_running_timer sq \<and> (\<exists>cb. connect_timers name m = add_mset cb T \<and> one_shot cb)
      else tv_sec (sq_reconnect_interval sq) = 0 \<and> \<not> sq_running_timer sq \<and> connect_timers name m = T \<and>
        registered_at (ms_events m) (sq_server_socket sq) name \<and>
        (8 \<le> queue_length sq \<longrightarrow> sq_server_socket sq \<in> event_write_set (ms_events m)))"

abbreviation attended :: "bytes \<Rightarrow> send_queue \<Rightarrow> messenger \<Rightarrow> bool" where
  "attended \<equiv> attended_besides {#}"

lemmas attended_def = attended_besides_def

lemma connect_timers_same: "ms_timers m' = ms_timers m \<Longrightarrow> connect_timers name m' = connect_timers name m"
  by (simp add: connect_timers_def)

lemma connect_timers_simps [simp]:
  "connect_timers name (on_events f m) = connect_timers name m" "connect_timers name (unwatch_sender fd m) = connect_timers name m"
  "connect_timers name (store_send_queue n sq m) = connect_timers name m" "connect_timers name (close_fd fd m) = connect_timers name m"
  "connect_timers name (m\<lparr>ms_events := ev\<rparr>) = connect_timers name m" "connect_timers name (m\<lparr>ms_sent := x\<rparr>) = connect_timers name m"
  "connect_timers name (m\<lparr>send_queues := q\<rparr>) = connect_timers name m"
  by (simp_all add: connect_timers_def on_events_def unwatch_sender_def close_fd_def store_send_queue_def)

definition handlers_ok :: "messenger \<Rightarrow> bool" where
  "handlers_ok m \<longleftrightarrow> round_inv (ms_events m) \<and> timer_callbacks (ms_timers m) \<noteq> None \<and> reports_off m"

text \<open>
  The system gives a socket when it is asked for one (the attempt to connect it may be refused), with a
  descriptor that is in range and not in use (the one that was just closed may be used again), and it can tell
  the time.
\<close>

definition socket_given :: "os \<Rightarrow> bytes \<Rightarrow> bool" where
  "socket_given os name \<longleftrightarrow> os_connect os name \<noteq> Socket_error \<and> (\<forall>fd. os_connect os name \<noteq> Setup_error fd)"

definition os_ok :: "os \<Rightarrow> bytes \<Rightarrow> int \<Rightarrow> messenger \<Rightarrow> bool" where
  "os_ok os name old m \<longleftrightarrow> os_monotonic os \<noteq> None \<and> socket_given os name \<and>
     (\<forall>fd n. os_connect os name = Connected fd n \<longrightarrow> valid_fd fd \<and> (handler_at (ms_events m) fd = None \<or> fd = old)) \<and>
     (\<forall>fd t n k. os_send os fd t n = Sent k \<longrightarrow> k = n)"

lemma valid_fd_socket: "valid_fd fd \<Longrightarrow> fd \<noteq> -1"
  by (auto simp: valid_fd_def)

lemma mset_insert_timer: "mset (insert_timer_callback cb cbs) = add_mset cb (mset cbs)"
  by (induction cbs) auto

lemma add_connect_timer:
  assumes "timer_callbacks (ms_timers m) = Some cbs" and "0 < tv_sec v"
  shows "\<exists>t cb. add_timer_event_callback (Some now) zero_time v Send_queue_connect_timeout (Some name) (ms_timers m) = Ok (True, t) \<and>
    one_shot cb \<and> timer_callbacks t \<noteq> None \<and> connect_timers name (m\<lparr>ms_timers := t\<rparr>) = add_mset cb (connect_timers name m)"
  using assms
  by (auto simp: add_timer_event_callback_def new_timer_def VALID_TIMESPEC_def is_timer_def one_shot_def connect_timers_def mset_insert_timer Let_def)

lemma add_timer_pending:
  assumes "timer_callbacks t = Some cbs" and "0 < tv_sec v"
  shows "\<exists>t' cbs'. add_timer_event_callback (Some now) zero_time v f u t = Ok (True, t') \<and> timer_callbacks t' = Some cbs' \<and>
    (\<exists>cb \<in> set cbs'. is_timer f u cb)"
  using assms by (auto simp: add_timer_event_callback_def new_timer_def VALID_TIMESPEC_def is_timer_def Let_def)


text \<open>An attempt to connect leaves the queue attended to, whether it succeeds or is refused.\<close>

definition reconnected ::
  "(messenger_timer, bytes) timer_callback_info multiset \<Rightarrow> bytes \<Rightarrow> send_queue \<Rightarrow> messenger \<Rightarrow> send_queue \<Rightarrow> messenger \<Rightarrow> bool" where
  "reconnected T name sq m sq' m' \<longleftrightarrow> attended_besides T name sq' m' \<and> handlers_ok m' \<and> sq_buffer sq' = sq_buffer sq \<and> send_queues m' = send_queues m"

lemma connect_attends:
  assumes "handlers_ok m" and "sq_server_socket sq = -1" and "os_ok os name old m" and "handler_at (ms_events m) old = None"
    and "\<not> sq_running_timer sq" and "connect_timers name m = T"
  shows "\<exists>r sq' m'. send_queue_connect_timer os (send_dump_message os) name sq m = Ok (r, sq', m') \<and> r \<noteq> -1 \<and> reconnected T name sq m sq' m'"
proof -
  have off: "reports_off m" using assms(1) by (simp add: handlers_ok_def)
  then have d: "send_dump_message os a b c m = Ok m" for a b c by (simp add: send_dump_message_def)
  obtain now where now: "os_monotonic os = Some now" using assms(3) by (auto simp: os_ok_def)
  note def = send_queue_connect_timer_def send_queue_connect_def Let_def
  show ?thesis
  proof (cases "os_connect os name")
    case (Refused fd)
    define n where "n = sq_refused_count sq + 1"
    define v where "v = (sq_reconnect_interval sq)\<lparr>tv_sec := reconnect_seconds n\<rparr>"
    have v: "0 < tv_sec v" by (simp add: v_def reconnect_seconds_def)
    obtain cbs where "timer_callbacks (ms_timers (close_fd fd m)) = Some cbs" using assms(1) by (auto simp: handlers_ok_def close_fd_def)
    from add_connect_timer [OF this v, of now name] obtain t cb
      where t: "add_timer_event_callback (Some now) zero_time v Send_queue_connect_timeout (Some name) (ms_timers m) = Ok (True, t)"
      "one_shot cb" "timer_callbacks t \<noteq> None" "connect_timers name ((close_fd fd m)\<lparr>ms_timers := t\<rparr>) = add_mset cb T"
      using assms(6) unfolding connect_timers_simps by (auto simp: close_fd_def)
    let ?sq = "sq\<lparr>sq_running_timer := True, sq_server_socket := -1, sq_refused_count := n, sq_reconnect_interval := v\<rparr>"
    let ?m = "(close_fd fd m)\<lparr>ms_timers := t\<rparr>"
    have "send_queue_connect_timer os (send_dump_message os) name sq m = Ok (0, ?sq, ?m)"
      using assms(2,5) Refused d t(1) now by (simp add: def n_def [symmetric] v_def [symmetric] close_fd_def)
    moreover have "reconnected T name sq m ?sq ?m"
      using assms(1) t v by (auto simp: reconnected_def attended_def handlers_ok_def) (simp_all add: close_fd_def)
    ultimately show ?thesis by (metis zero_neq_neg_one)
  next
    case (Connected fd n)
    have fd: "valid_fd fd" "handler_at (ms_events m) fd = None" using assms(3,4) Connected by (auto simp: os_ok_def)
    obtain ev where ev: "watch_fd fd (Some (On_send_read name)) (Some (On_send_write name)) m = Ok (m\<lparr>ms_events := ev\<rparr>)"
      "round_inv ev" "registered_at ev fd name"
      using watch_fd_registers [OF _ fd] assms(1) by (auto simp: handlers_ok_def)
    let ?ev = "if 8 \<le> queue_length sq then set_writable fd True ev else ev"
    let ?sq = "sq\<lparr>sq_running_timer := False, sq_server_socket := fd, sq_socket_buffer_size := n, sq_refused_count := 0, sq_reconnect_interval := zero_time\<rparr>"
    have "send_dump_message os a b c (m\<lparr>ms_events := ev\<rparr>) = Ok (m\<lparr>ms_events := ev\<rparr>)" for a b c ev
      using off by (simp add: send_dump_message_def)
    then have "send_queue_connect_timer os (send_dump_message os) name sq m = Ok (1, ?sq, m\<lparr>ms_events := ?ev\<rparr>)"
      using assms(2,5) Connected ev(1) by (auto simp: def queue_length_def on_events_def split: option.splits)
    moreover have "round_inv ?ev" using ev(2) set_writable_ok [OF ev(2), of fd True] by simp
    then have "reconnected T name sq m ?sq (m\<lparr>ms_events := ?ev\<rparr>)"
      using assms(1,6) ev valid_fd_socket [OF fd(1)] set_writable_watches [OF ev(2,3)]
      by (simp add: reconnected_def attended_def handlers_ok_def queue_length_def)
    ultimately show ?thesis by (metis one_neq_neg_one)
  qed (use assms(3) in \<open>simp_all add: os_ok_def socket_given_def\<close>)
qed

lemma try_connect_attends:
  assumes "handlers_ok m" and "sq_server_socket sq = -1" and "os_ok os name old m" and "handler_at (ms_events m) old = None"
    and "\<not> sq_running_timer sq" and "connect_timers name m = {#}" and "tv_sec (sq_reconnect_interval sq) = 0"
  shows "\<exists>r sq' m'. send_queue_try_connect os (send_dump_message os) name sq m = Ok (r, sq', m') \<and> r \<noteq> -1 \<and> reconnected {#} name sq m sq' m'"
  using connect_attends [OF assms(1-6)] assms(7) by (simp add: send_queue_try_connect_def)


section \<open>Writing\<close>

text \<open>The state of a messenger in the middle of an operation on a queue that is connected.\<close>

definition writing :: "os \<Rightarrow> bytes \<Rightarrow> send_queue \<Rightarrow> messenger \<Rightarrow> bool" where
  "writing os name sq m \<longleftrightarrow> handlers_ok m \<and> os_ok os name (sq_server_socket sq) m \<and> sq_server_socket sq \<noteq> -1 \<and>
     tv_sec (sq_reconnect_interval sq) = 0 \<and> \<not> sq_running_timer sq \<and> connect_timers name m = {#} \<and>
     registered_at (ms_events m) (sq_server_socket sq) name \<and> sq_server_socket sq \<in> event_write_set (ms_events m)"

definition left_attended :: "bytes \<Rightarrow> messenger \<Rightarrow> (send_queue \<times> messenger) res \<Rightarrow> bool" where
  "left_attended name m r \<longleftrightarrow> (\<exists>sq' m' ms'. r = Ok (sq', m') \<and> holds sq' ms' \<and> attended name sq' m' \<and> handlers_ok m' \<and> send_queues m' = send_queues m)"

lemma attended_shorter:
  assumes "attended name sq m" and "sq_buffer sq = Some b" and "mb_data_length b' \<le> mb_data_length b"
  shows "attended name (sq\<lparr>sq_buffer := Some b'\<rparr>) m"
  using assms by (auto simp: attended_def queue_length_def split: if_splits)

lemma attended_unwatched:
  assumes "registered_at (ms_events m) (sq_server_socket sq) name" and "tv_sec (sq_reconnect_interval sq) = 0" and "sq_server_socket sq \<noteq> -1"
    and "sq_buffer sq = Some b" and "mb_data_length b < 8" and "\<not> sq_running_timer sq" and "connect_timers name m = {#}"
  shows "attended name sq (on_events (set_writable (sq_server_socket sq) False) m)"
  using assms by (simp add: attended_def queue_length_def on_events_def)

lemma handlers_ok_set_writable: "handlers_ok m \<Longrightarrow> handlers_ok (on_events (set_writable fd b) m)"
  using set_writable_ok by (auto simp: handlers_ok_def on_events_def)

lemma send_error_attended:
  assumes w: "writing os name sq m" and buf: "sq_buffer sq = Some buf" "buffer_ok buf" "mb_size buf = messenger_send_queue_length"
    "buffered buf = frames (xs @ ms)" and ms: "\<forall>m \<in> set ms. sendable m"
  shows "left_attended name m (on_send_error os (send_dump_message os) name err sq buf (length (frames xs)) m)"
proof -
  obtain b1 where t: "truncate_message_buffer buf (length (frames xs)) = Ok b1" "buffer_ok b1" "mb_size b1 = mb_size buf"
    "buffered b1 = drop (length (frames xs)) (buffered buf)" by (rule truncated [OF buf(2)])
  then have t4: "buffered b1 = frames ms" using buf(4) by simp
  have tl: "mb_data_length b1 \<le> mb_data_length buf" using arg_cong [OF t(4), of length] by simp
  obtain b2 where u: "(if err = Send_too_big then truncate_message_buffer b1 (mb_data_length b1) else Ok b1) = Ok b2" "buffer_ok b2"
    "mb_size b2 = mb_size b1" "buffered b2 = (if err = Send_too_big then [] else frames ms)"
  proof (cases "err = Send_too_big")
    case True
    obtain b2 where "truncate_message_buffer b1 (mb_data_length b1) = Ok b2" "buffer_ok b2" "mb_size b2 = mb_size b1"
      "buffered b2 = drop (mb_data_length b1) (buffered b1)" by (rule truncated [OF t(2)])
    then show ?thesis using that [of b2] True by simp
  qed (use that [of b1] t t4 in simp)
  have ul: "mb_data_length b2 \<le> mb_data_length b1" using arg_cong [OF u(4), of length] arg_cong [OF t4, of length] by (simp split: if_splits)
  have h: "holds (sq'\<lparr>sq_buffer := Some b2\<rparr>) (if err = Send_too_big then [] else ms)" for sq'
    using u t buf ms by (simp add: holds_def)
  obtain sq1 m1 where r: "(if err = Send_again then Ok (sq, m)
      else bnd (send_dump_message os MESSENGER_DUMP_SEND_CLOSED name [] m) (\<lambda>m.
        bnd (send_queue_try_connect os (send_dump_message os) name (sq\<lparr>sq_server_socket := -1, sq_refused_count := 0\<rparr>)
              (unwatch_sender (sq_server_socket sq) m)) (\<lambda>(_, sq, m). Ok (sq, m)))) = Ok (sq1, m1)"
    "attended name sq1 m1" "handlers_ok m1" "sq_buffer sq1 = Some buf" "send_queues m1 = send_queues m"
  proof (cases "err = Send_again")
    case True
    then show ?thesis using that [of sq m] w buf(1) by (simp add: writing_def attended_def)
  next
    case False
    let ?m = "unwatch_sender (sq_server_socket sq) m"
    have ri: "round_inv (ms_events m)" "reports_off m" using w by (simp_all add: writing_def handlers_ok_def)
    note f = unwatch_sender_frees [OF ri(1)]
    have ho: "handlers_ok ?m" "os_ok os name (sq_server_socket sq) ?m"
      using w f by (auto simp: writing_def handlers_ok_def os_ok_def)
    have z: "tv_sec (sq_reconnect_interval sq) = 0" "\<not> sq_running_timer sq" "connect_timers name ?m = {#}"
      using w by (simp_all add: writing_def)
    obtain k sq1 m1 where "send_queue_try_connect os (send_dump_message os) name (sq\<lparr>sq_server_socket := -1, sq_refused_count := 0\<rparr>) ?m = Ok (k, sq1, m1)"
      "reconnected {#} name (sq\<lparr>sq_server_socket := -1, sq_refused_count := 0\<rparr>) ?m sq1 m1"
      using try_connect_attends [OF ho(1) _ ho(2) f(2) _ z(3), of "sq\<lparr>sq_server_socket := -1, sq_refused_count := 0\<rparr>"] z by auto
    then show ?thesis using that [of sq1 m1] False ri(2) buf(1) by (simp add: send_dump_message_def reconnected_def)
  qed
  have "on_send_error os (send_dump_message os) name err sq buf (length (frames xs)) m = Ok (sq1\<lparr>sq_buffer := Some b2\<rparr>, m1)"
    unfolding on_send_error_def r(1) by (simp add: t(1) u(1))
  moreover have "attended name (sq1\<lparr>sq_buffer := Some b2\<rparr>) m1" by (rule attended_shorter [OF r(2,4)]) (use tl ul in simp)
  ultimately show ?thesis using h r(3,5) unfolding left_attended_def by blast
qed

lemma loop_fails:
  assumes "get_send_data os sq buf at = Ok n" and "0 < n" and "mb_head_offset buf + at + n \<le> mb_size buf" and "os_send os fd at n = Send_error err"
  shows "on_send_write_loop os dump name fd sq buf at m = on_send_error os dump name err sq buf at m"
  using assms by (subst on_send_write_loop.simps) (simp add: Let_def)

lemma loop_ends:
  assumes "get_send_data os sq buf at = Ok 0"
  shows "on_send_write_loop os dump name fd sq buf at m = bnd (truncate_message_buffer buf at) (\<lambda>buf.
    Ok (sq\<lparr>sq_buffer := Some buf\<rparr>, if mb_data_length buf = 0 then on_events (set_writable (sq_server_socket sq) False) m else m))"
  using assms by (subst on_send_write_loop.simps) simp

lemma loop_attended:
  assumes buf: "sq_buffer sq = Some buf" "buffer_ok buf" "mb_size buf = messenger_send_queue_length" and "buffered buf = frames (xs @ ms)"
    and "\<forall>m \<in> set ms. sendable m" and "writing os name sq m" and fd: "fd = sq_server_socket sq"
  shows "left_attended name m (on_send_write_loop os (send_dump_message os) name fd sq buf (length (frames xs)) m)"
  using assms(4-6)
proof (induction ms arbitrary: xs m rule: length_induct)
  case (1 ms)
  obtain b rest where b: "ms = b @ rest" "get_send_data os sq buf (length (frames xs)) = Ok (length (frames b))" "b = [] \<longleftrightarrow> ms = []"
    by (rule get_send_data_batch [OF buf(2) 1(2,3)]) blast
  have n: "mb_data_length buf = length (frames xs) + length (frames b) + length (frames rest)"
    using arg_cong [OF 1(2), of length] b(1) by simp
  show ?case
  proof (cases "ms = []")
    case True
    then have g: "get_send_data os sq buf (length (frames xs)) = Ok 0" using b(2,3) by simp
    obtain b1 where t: "truncate_message_buffer buf (length (frames xs)) = Ok b1" "buffer_ok b1" "mb_size b1 = mb_size buf"
      "buffered b1 = drop (length (frames xs)) (buffered buf)" by (rule truncated [OF buf(2)])
    have e: "buffered b1 = []" using t(4) 1(2) True by simp
    then have l: "mb_data_length b1 = 0" using length_buffered [of b1] by (simp del: length_buffered)
    let ?m = "on_events (set_writable (sq_server_socket sq) False) m" and ?sq = "sq\<lparr>sq_buffer := Some b1\<rparr>"
    have "attended name ?sq ?m" using attended_unwatched [of m ?sq name b1] 1(4) l by (simp add: writing_def)
    moreover have "holds ?sq []" using t e buf by (simp add: holds_def)
    moreover have "handlers_ok ?m" using 1(4) by (intro handlers_ok_set_writable) (simp add: writing_def)
    ultimately show ?thesis using loop_ends [OF g] t(1) l by (auto simp: left_attended_def on_events_def)
  next
    case False
    then have bn: "b \<noteq> []" "0 < length (frames b)" using b(3) by (auto simp: length_frames message_size_def neq_Nil_conv)
    have inb: "mb_head_offset buf + length (frames xs) + length (frames b) \<le> mb_size buf" using buf(2) n by (simp add: buffer_ok_def)
    show ?thesis
    proof (cases "os_send os fd (length (frames xs)) (length (frames b))")
      case (Sent k)
      then have k: "k = length (frames b)" using 1(4) by (simp add: writing_def os_ok_def)
      let ?m = "m\<lparr>ms_sent := ms_sent m @ [(fd, frames b)]\<rparr>"
      have d: "mem_read (mb_buffer buf) (mb_head_offset buf + length (frames xs)) (length (frames b)) = frames b"
        using buffered_part [of "length (frames xs)" "length (frames b)" buf] n 1(2) b(1) by simp
      have "send_dump_message os MESSENGER_DUMP_SENT name (frames b) ?m = Ok ?m"
        using 1(4) by (simp add: writing_def handlers_ok_def send_dump_message_def)
      then have s: "on_send_write_loop os (send_dump_message os) name fd sq buf (length (frames xs)) m =
          on_send_write_loop os (send_dump_message os) name fd sq buf (length (frames xs) + length (frames b)) ?m"
        using loop_sends [OF b(2) bn(2) inb Sent [unfolded k] d, of "send_dump_message os" name m ?m] by simp
      have "length rest < length ms" "buffered buf = frames ((xs @ b) @ rest)" "\<forall>m \<in> set rest. sendable m" "writing os name sq ?m"
        using b(1) bn 1 by (auto simp: writing_def handlers_ok_def os_ok_def)
      then have "left_attended name ?m (on_send_write_loop os (send_dump_message os) name fd sq buf (length (frames (xs @ b))) ?m)"
        using 1(1) by blast
      then show ?thesis using s by (simp add: left_attended_def)
    next
      case (Send_error err)
      show ?thesis
        unfolding loop_fails [OF b(2) bn(2) inb Send_error] by (rule send_error_attended [OF 1(4) buf 1(2,3)])
    qed
  qed
qed

lemma on_send_write_attended:
  assumes "holds sq ms" and "attended name sq m" and "handlers_ok m" and "os_ok os name (sq_server_socket sq) m" and "sq_server_socket sq \<noteq> -1"
  shows "left_attended name m (on_send_write os (send_dump_message os) name (sq_server_socket sq) sq m)"
proof -
  obtain buf where buf: "sq_buffer sq = Some buf" "buffer_ok buf" "mb_size buf = messenger_send_queue_length"
    "buffered buf = frames ms" "mb_data_length buf = length (frames ms)" "\<forall>m \<in> set ms. sendable m"
    by (rule holdsE [OF assms(1)])
  show ?thesis
  proof (cases "mb_data_length buf < 8")
    case True
    have "attended name sq (on_events (set_writable (sq_server_socket sq) False) m)"
      by (rule attended_unwatched [OF _ _ _ buf(1) True]) (use assms(2,5) in \<open>auto simp: attended_def\<close>)
    then show ?thesis using True buf(1) assms(1,3) handlers_ok_set_writable
      by (auto simp: on_send_write_def left_attended_def on_events_def)
  next
    case False
    then have w: "writing os name sq m" using assms buf(1) by (simp add: writing_def attended_def queue_length_def)
    show ?thesis
      using loop_attended [OF buf(1-3) _ buf(6) w refl, of "[]"] buf(1,4) False by (simp add: on_send_write_def)
  qed
qed


section \<open>The operations on a queue\<close>

lemma push_attended:
  assumes "holds sq ms" and "sendable (t, g, d)" and "attended name sq m" and "handlers_ok m" and "os_ok os name (sq_server_socket sq) m"
  shows "\<exists>ok sq' m' ms'. push_to_queue os (send_dump_message os) name t g d sq m = Ok (ok, sq', m') \<and> holds sq' ms' \<and>
    attended name sq' m' \<and> handlers_ok m' \<and> send_queues m' = send_queues m"
proof (cases "room_for ms (t, g, d)")
  case False
  have "send_dump_message os MESSENGER_DUMP_SEND_OVERFLOW name [] m = Ok m" using assms(4) by (simp add: handlers_ok_def send_dump_message_def)
  then show ?thesis
    using overflow_case [of sq ms t g d "send_dump_message os" name m os] False assms(1-4) by (auto simp: attended_def queue_length_def intro!: exI [of _ ms])
next
  case True
  obtain sq1 where p: "holds sq1 (ms @ [(t, g, d)])" "sq1 = sq\<lparr>sq_overflow := 0, sq_overflow_total_length := 0, sq_buffer := sq_buffer sq1\<rparr>"
    "push_to_queue os (send_dump_message os) name t g d sq m =
      (if sq_server_socket sq = -1 then bnd (send_queue_try_connect os (send_dump_message os) name sq1 m) (\<lambda>(_, sq, m). Ok (True, sq, m))
       else
         let m = on_events (set_writable (sq_server_socket sq) True) m in
         if length (frames (ms @ [(t, g, d)])) > messenger_send_length_for_flush
         then bnd (on_send_write os (send_dump_message os) name (sq_server_socket sq) sq1 m) (\<lambda>(sq, m). Ok (True, sq, m))
         else Ok (True, sq1, m))"
    by (rule accepted_case [OF assms(1,2) True])
  have f: "sq_server_socket sq1 = sq_server_socket sq" "sq_reconnect_interval sq1 = sq_reconnect_interval sq" "sq_running_timer sq1 = sq_running_timer sq"
    using arg_cong [OF p(2), of sq_server_socket] arg_cong [OF p(2), of sq_reconnect_interval] arg_cong [OF p(2), of sq_running_timer] by simp_all
  show ?thesis
  proof (cases "sq_server_socket sq = -1")
    case off: True
    then have a: "attended name sq1 m" "tv_sec (sq_reconnect_interval sq1) \<noteq> 0" using assms(3) f by (auto simp: attended_def)
    then have "send_queue_try_connect os (send_dump_message os) name sq1 m = Ok (0, sq1, m)" by (simp add: send_queue_try_connect_def)
    then show ?thesis using p(1,3) off a(1) assms(4) by auto
  next
    case on: False
    let ?m = "on_events (set_writable (sq_server_socket sq) True) m"
    have r: "round_inv (ms_events m)" "registered_at (ms_events m) (sq_server_socket sq) name" "tv_sec (sq_reconnect_interval sq) = 0"
      using assms(3,4) on by (auto simp: attended_def handlers_ok_def)
    have "\<not> sq_running_timer sq" "connect_timers name ?m = {#}" using assms(3) on by (simp_all add: attended_def)
    then have a: "attended name sq1 ?m" using set_writable_watches [OF r(1,2)] on f r by (simp add: attended_def) (simp add: on_events_def)
    have h: "handlers_ok ?m" by (rule handlers_ok_set_writable [OF assms(4)])
    have o: "os_ok os name (sq_server_socket sq1) ?m" using assms(5) f by (simp add: os_ok_def on_events_def)
    have "left_attended name ?m (on_send_write os (send_dump_message os) name (sq_server_socket sq) sq1 ?m)"
      using on_send_write_attended [OF p(1) a h o] on f by simp
    then obtain sq' m' ms' where w: "on_send_write os (send_dump_message os) name (sq_server_socket sq) sq1 ?m = Ok (sq', m')" "holds sq' ms'"
      "attended name sq' m'" "handlers_ok m'" "send_queues m' = send_queues m" unfolding left_attended_def by (auto simp: on_events_def)
    show ?thesis
    proof (cases "length (frames (ms @ [(t, g, d)])) > messenger_send_length_for_flush")
      case True
      then show ?thesis using p(3) on w by (simp only: Let_def if_False if_True bnd.simps prod.case) blast
    next
      case False
      have "send_queues ?m = send_queues m" by (simp add: on_events_def)
      then show ?thesis using p(1,3) on False a h by (simp only: Let_def if_False) blast
    qed
  qed
qed

lemma attended_store [simp]:
  "attended_besides T name sq (store_send_queue name' sq' m) = attended_besides T name sq m" "handlers_ok (store_send_queue name' sq' m) = handlers_ok m"
  by (simp_all add: attended_def handlers_ok_def)

lemma on_send_read_attended:
  assumes "send_queue_of name m = Some sq" and "holds sq ms" and "attended name sq m" and "handlers_ok m"
    and "os_ok os name (sq_server_socket sq) m" and "sq_server_socket sq \<noteq> -1"
  shows "\<exists>m'. on_send_read os name sq m = Ok m' \<and> handlers_ok m' \<and>
    (case send_queue_of name m' of None \<Rightarrow> ms = [] \<and> os_server_closed os | Some sq' \<Rightarrow> holds sq' ms \<and> attended name sq' m')"
proof (cases "os_server_closed os")
  case False
  then show ?thesis using assms by (simp add: on_send_read_def)
next
  case True
  obtain buf where buf: "sq_buffer sq = Some buf" "mb_data_length buf = length (frames ms)" by (rule holdsE [OF assms(2)]) blast
  let ?m = "unwatch_sender (sq_server_socket sq) m" and ?sq = "sq\<lparr>sq_server_socket := -1\<rparr>"
  have ri: "round_inv (ms_events m)" "reports_off m" using assms(4) by (simp_all add: handlers_ok_def)
  note f = unwatch_sender_frees [OF ri(1)]
  have ho: "handlers_ok ?m" "os_ok os name (sq_server_socket sq) ?m" using assms(4,5) f by (auto simp: handlers_ok_def os_ok_def)
  have z: "tv_sec (sq_reconnect_interval sq) = 0" "\<not> sq_running_timer sq" "connect_timers name ?m = {#}"
    using assms(3,6) by (simp_all add: attended_def)
  have d: "send_dump_message os MESSENGER_DUMP_SEND_CLOSED name [] m = Ok m" using ri(2) by (simp add: send_dump_message_def)
  show ?thesis
  proof (cases "mb_data_length buf > 0")
    case data: True
    obtain k sq1 m1 where c: "send_queue_try_connect os (send_dump_message os) name ?sq ?m = Ok (k, sq1, m1)" "reconnected {#} name ?sq ?m sq1 m1"
      using try_connect_attends [OF ho(1) _ ho(2) f(2) _ z(3), of ?sq] z by auto
    have n: "send_queue_of name m1 \<noteq> None" using c(2) assms(1) by (simp add: reconnected_def send_queue_of_def)
    have "holds sq1 ms" using c(2) assms(2) by (simp add: reconnected_def holds_def)
    moreover have "attended name sq1 (store_send_queue name sq1 m1)" "handlers_ok (store_send_queue name sq1 m1)"
      using c(2) by (simp_all add: reconnected_def)
    moreover have "on_send_read os name sq m = Ok (store_send_queue name sq1 m1)"
      using True data d buf(1) c(1) by (simp add: on_send_read_def Let_def)
    ultimately show ?thesis using n by simp
  next
    case False
    then have e: "ms = []" using buf(2) by (cases ms) (auto simp: message_size_def)
    have "on_send_read os name sq m = Ok (?m\<lparr>send_queues := map_option (tbl_delete name) (send_queues ?m)\<rparr>)"
      using True False d buf(1) by (simp add: on_send_read_def delete_send_queue_def Let_def)
    then show ?thesis using e True ho(1) assms(1) by (auto simp: handlers_ok_def send_queue_of_def bind_eq_Some_conv split: option.splits)
  qed
qed


text \<open>
  A timer of the queue is executed: its function is called, and then the timer is taken out of the list,
  as \<open>execute_timers\<close> does with one that has no interval.
\<close>

definition take_timer :: "(messenger_timer, bytes) timer_callback_info \<Rightarrow> messenger \<Rightarrow> messenger" where
  "take_timer cb m = m\<lparr>ms_timers := (ms_timers m)\<lparr>timer_callbacks := map_option (remove1 cb) (timer_callbacks (ms_timers m))\<rparr>\<rparr>"

definition fire_connect_timer :: "os \<Rightarrow> bytes \<Rightarrow> messenger \<Rightarrow> messenger res" where
  "fire_connect_timer os name m =
     (case List.find (is_timer Send_queue_connect_timeout (Some name)) (case timer_callbacks (ms_timers m) of None \<Rightarrow> [] | Some cbs \<Rightarrow> cbs) of
        None \<Rightarrow> Ok m
      | Some cb \<Rightarrow> bnd (send_queue_connect_timeout os name m) (\<lambda>m. Ok (if VALID_TIMESPEC (tm_interval cb) then m else take_timer cb m)))"

lemma find_filter: "List.find P xs = (case filter P xs of [] \<Rightarrow> None | x # _ \<Rightarrow> Some x)"
  by (induction xs) auto

lemma find_connect_timer:
  assumes "connect_timers name m = {#cb#}"
  shows "List.find (is_timer Send_queue_connect_timeout (Some name)) (case timer_callbacks (ms_timers m) of None \<Rightarrow> [] | Some cbs \<Rightarrow> cbs) = Some cb"
    and "is_timer Send_queue_connect_timeout (Some name) cb"
proof -
  let ?cbs = "case timer_callbacks (ms_timers m) of None \<Rightarrow> [] | Some cbs \<Rightarrow> cbs" and ?P = "is_timer Send_queue_connect_timeout (Some name)"
  have f: "filter ?P ?cbs = [cb]" using assms unfolding connect_timers_def by (metis mset_filter mset_single_iff)
  then have "cb \<in> set (filter ?P ?cbs)" by simp
  then show "?P cb" by simp
  show "List.find ?P ?cbs = Some cb" using find_filter [of ?P ?cbs] f by simp
qed

lemma take_timer_simps [simp]:
  "send_queues (take_timer cb m) = send_queues m" "ms_events (take_timer cb m) = ms_events m"
  "handlers_ok (take_timer cb m) = handlers_ok m" "send_queue_of name (take_timer cb m) = send_queue_of name m"
  by (simp_all add: take_timer_def handlers_ok_def send_queue_of_def)

lemma connect_timers_take: "is_timer Send_queue_connect_timeout (Some name) cb \<Longrightarrow> connect_timers name (take_timer cb m) = connect_timers name m - {#cb#}"
  by (cases "timer_callbacks (ms_timers m)") (simp_all add: connect_timers_def take_timer_def filter_diff_mset)

lemma attended_take:
  assumes "attended_besides {#cb#} name sq m" and "is_timer Send_queue_connect_timeout (Some name) cb"
  shows "attended name sq (take_timer cb m)"
  using assms by (auto simp: attended_def connect_timers_take)

lemma timeout_attended:
  assumes "send_queue_of name m = Some sq" and "holds sq ms" and "handlers_ok m" and "os_ok os name (sq_server_socket sq) m"
    and "attended name sq m" and "connect_timers name m \<noteq> {#}"
  shows "\<exists>sq' m'. fire_connect_timer os name m = Ok m' \<and> send_queue_of name m' = Some sq' \<and> holds sq' ms \<and> attended name sq' m' \<and> handlers_ok m'"
proof -
  obtain cb where off: "sq_server_socket sq = -1" and cb: "connect_timers name m = {#cb#}" "one_shot cb"
    using assms(5,6) by (auto simp: attended_def split: if_splits)
  note find = find_connect_timer [OF cb(1)]
  have "\<not> valid_fd (-1)" by (simp add: valid_fd_def)
  moreover have "eh_inv (ms_events m)" using assms(3) by (simp add: handlers_ok_def round_inv_def)
  ultimately have "handler_at (ms_events m) (-1) = None" using handler_valid by blast
  then obtain r sq1 m1 where c: "send_queue_connect_timer os (send_dump_message os) name (sq\<lparr>sq_running_timer := False\<rparr>) m = Ok (r, sq1, m1)"
    "reconnected {#cb#} name (sq\<lparr>sq_running_timer := False\<rparr>) m sq1 m1"
    using connect_attends [OF assms(3), of "sq\<lparr>sq_running_timer := False\<rparr>" os name "-1" "{#cb#}"] assms(4) off cb(1) by auto
  have n: "send_queue_of name m1 \<noteq> None" using c(2) assms(1) by (simp add: reconnected_def send_queue_of_def)
  have "attended name sq1 (take_timer cb (store_send_queue name sq1 m1))"
    by (rule attended_take [OF _ find(2)]) (use c(2) in \<open>simp add: reconnected_def\<close>)
  moreover have "fire_connect_timer os name m = Ok (take_timer cb (store_send_queue name sq1 m1))"
    using c(1) assms(1) find(1) cb(2)
    by (simp add: fire_connect_timer_def send_queue_connect_timeout_def with_send_queue_def send_queue_of_def [symmetric] one_shot_def)
  ultimately show ?thesis using c(2) n assms(2) by (auto simp: reconnected_def holds_def)
qed

text \<open>What can happen to a queue: a message is put into it, its socket can be written or read, its timer expires.\<close>

datatype queue_event = Push byte "16 word" bytes | Writable | Readable | Timeout

definition queue_step :: "os \<Rightarrow> bytes \<Rightarrow> queue_event \<Rightarrow> messenger \<Rightarrow> messenger res" where
  "queue_step os name ev m =
     (case ev of
        Push t g d \<Rightarrow> bnd (push_message_to_send_queue os (send_dump_message os) name t g d m) (\<lambda>(_, m). Ok m)
      | Writable \<Rightarrow> with_send_queue name m (\<lambda>sq. bnd (run_messenger_handler os (On_send_write name) (sq_server_socket sq) [] m) (\<lambda>(_, m). Ok m))
      | Readable \<Rightarrow> with_send_queue name m (\<lambda>sq. bnd (run_messenger_handler os (On_send_read name) (sq_server_socket sq) [] m) (\<lambda>(_, m). Ok m))
      | Timeout \<Rightarrow> fire_connect_timer os name m)"

definition queue_event_ok :: "os \<Rightarrow> bytes \<Rightarrow> queue_event \<Rightarrow> messenger \<Rightarrow> bool" where
  "queue_event_ok os name ev m \<longleftrightarrow>
     (case send_queue_of name m of
        None \<Rightarrow> False
      | Some sq \<Rightarrow> os_ok os name (sq_server_socket sq) m \<and>
          (case ev of
             Push t g d \<Rightarrow> sendable (t, g, d)
           | Timeout \<Rightarrow> connect_timers name m \<noteq> {#}
           | _ \<Rightarrow> sq_server_socket sq \<noteq> -1))"

inductive queue_reaches :: "bytes \<Rightarrow> messenger \<Rightarrow> messenger \<Rightarrow> bool" for name m where
  start: "queue_reaches name m m"
| event: "queue_reaches name m m1 \<Longrightarrow> queue_event_ok os name ev m1 \<Longrightarrow> queue_step os name ev m1 = Ok m2 \<Longrightarrow> queue_reaches name m m2"

definition queue_inv :: "bytes \<Rightarrow> messenger \<Rightarrow> bool" where
  "queue_inv name m \<longleftrightarrow> handlers_ok m \<and>
     (case send_queue_of name m of None \<Rightarrow> True | Some sq \<Rightarrow> (\<exists>ms. holds sq ms) \<and> attended name sq m)"

lemma with_send_queue_eq: "with_send_queue name m k = (case send_queue_of name m of None \<Rightarrow> Fault Use_after_free | Some sq \<Rightarrow> k sq)"
  by (simp add: with_send_queue_def send_queue_of_def)

lemma queue_inv_store:
  assumes "holds sq ms" and "attended name sq m" and "handlers_ok m" and "send_queue_of name m \<noteq> None"
  shows "queue_inv name (store_send_queue name sq m)"
  using assms by (auto simp: queue_inv_def)

lemma queue_step_ok:
  assumes "queue_inv name m" and "queue_event_ok os name ev m"
  shows "\<exists>m'. queue_step os name ev m = Ok m' \<and> queue_inv name m'"
proof -
  obtain sq ms where sq: "send_queue_of name m = Some sq" "holds sq ms" "attended name sq m" "handlers_ok m" "os_ok os name (sq_server_socket sq) m"
    using assms by (auto simp: queue_inv_def queue_event_ok_def split: option.splits)
  have kept: "send_queues m' = send_queues m \<Longrightarrow> send_queue_of name m' \<noteq> None" for m' using sq(1) by (simp add: send_queue_of_def)
  show ?thesis
  proof (cases ev)
    case (Push t g d)
    have "sendable (t, g, d)" using assms(2) sq(1) Push by (simp add: queue_event_ok_def)
    then obtain ok sq' m' ms' where p: "push_to_queue os (send_dump_message os) name t g d sq m = Ok (ok, sq', m')" "holds sq' ms'"
      "attended name sq' m'" "handlers_ok m'" "send_queues m' = send_queues m"
      using push_attended [OF sq(2) _ sq(3-5)] by blast
    obtain tb where "send_queues m = Some tb" "map_of tb name = Some sq" using sq(1) by (auto simp: send_queue_of_def bind_eq_Some_conv)
    then show ?thesis
      using p queue_inv_store [OF p(2-4) kept [OF p(5)]] Push by (simp add: queue_step_def push_message_to_send_queue_def)
  next
    case Writable
    have "left_attended name m (on_send_write os (send_dump_message os) name (sq_server_socket sq) sq m)"
      using on_send_write_attended [OF sq(2-5)] assms(2) sq(1) Writable by (simp add: queue_event_ok_def)
    then obtain sq' m' ms' where w: "on_send_write os (send_dump_message os) name (sq_server_socket sq) sq m = Ok (sq', m')" "holds sq' ms'"
      "attended name sq' m'" "handlers_ok m'" "send_queues m' = send_queues m" unfolding left_attended_def by blast
    then show ?thesis
      using queue_inv_store [OF w(2-4) kept [OF w(5)]] sq(1) Writable by (simp add: queue_step_def with_send_queue_eq)
  next
    case Readable
    obtain m' where r: "on_send_read os name sq m = Ok m'" "handlers_ok m'"
      "case send_queue_of name m' of None \<Rightarrow> ms = [] \<and> os_server_closed os | Some sq' \<Rightarrow> holds sq' ms \<and> attended name sq' m'"
      using on_send_read_attended [OF sq] assms(2) sq(1) Readable by (auto simp: queue_event_ok_def)
    then show ?thesis using sq(1) Readable by (auto simp: queue_step_def with_send_queue_eq queue_inv_def split: option.splits)
  next
    case Timeout
    then show ?thesis
      using timeout_attended [OF sq(1,2,4,5,3)] assms(2) sq(1) by (auto simp: queue_step_def queue_event_ok_def queue_inv_def)
  qed
qed

text \<open>A queue is attended to when it is created.\<close>

lemma created_queue_inv:
  assumes "handlers_ok m" and "send_queues m = Some t" and "map_of t name = None" and "path_fits m name" and "length name < 32"
    and "os_ok os name (-1) m" and "connect_timers name m = {#}"
  shows "\<exists>sq m1. create_send_queue os (send_dump_message os) name m = Ok (Some sq, m1) \<and> queue_inv name m1 \<and>
    send_queue_of name m1 = Some sq \<and> holds sq []"
proof -
  have "\<not> valid_fd (-1)" by (simp add: valid_fd_def)
  moreover have "eh_inv (ms_events m)" using assms(1) by (simp add: handlers_ok_def round_inv_def)
  ultimately have "handler_at (ms_events m) (-1) = None" using handler_valid by blast
  from try_connect_attends [OF assms(1) _ assms(6) this _ assms(7), of new_send_queue]
  obtain r sq m1 where c: "send_queue_try_connect os (send_dump_message os) name new_send_queue m = Ok (r, sq, m1)" "r \<noteq> -1"
    "reconnected {#} name new_send_queue m sq m1"
    by (auto simp: new_send_queue_def)
  let ?sq = "sq\<lparr>sq_buffer := Some (create_message_buffer messenger_send_queue_length)\<rparr>"
  let ?m = "m1\<lparr>send_queues := map_option (tbl_insert name ?sq) (send_queues m1)\<rparr>"
  have "create_send_queue os (send_dump_message os) name m = Ok (Some ?sq, ?m)"
    using assms(2-5) c(1,2) by (simp add: create_send_queue_def Let_def)
  moreover have "attended name ?sq ?m" "handlers_ok ?m" "send_queue_of name ?m = Some ?sq"
    using c(3) assms(2) by (auto simp: reconnected_def attended_def queue_length_def handlers_ok_def send_queue_of_def create_message_buffer_def)
  moreover have "holds ?sq []" by (simp add: holds_def)
  ultimately show ?thesis by (auto simp: queue_inv_def)
qed

text \<open>
  When the system does not give a socket, the queue is given up: it has neither a socket nor a timer, and
  the messages that are put into it afterwards do not change that.
\<close>

definition abandoned :: "bytes \<Rightarrow> messenger \<Rightarrow> bool" where
  "abandoned name m \<longleftrightarrow> handlers_ok m \<and> connect_timers name m = {#} \<and>
     (\<exists>sq. send_queue_of name m = Some sq \<and> sq_server_socket sq = -1 \<and> tv_sec (sq_reconnect_interval sq) = -1 \<and> (\<exists>ms. holds sq ms))"

lemma socket_failure_abandons:
  assumes "queue_inv name m" and "send_queue_of name m = Some sq" and "connect_timers name m \<noteq> {#}" and "os_connect os name = Socket_error"
  shows "\<exists>m'. queue_step os name Timeout m = Ok m' \<and> abandoned name m'"
proof -
  obtain ms where q: "holds sq ms" "attended name sq m" "handlers_ok m" using assms(1,2) by (auto simp: queue_inv_def)
  then obtain cb where off: "sq_server_socket sq = -1" and cb: "connect_timers name m = {#cb#}" "one_shot cb"
    using assms(3) by (auto simp: attended_def split: if_splits)
  note find = find_connect_timer [OF cb(1)]
  let ?sq = "sq\<lparr>sq_running_timer := False, sq_server_socket := -1, sq_reconnect_interval := \<lparr>tv_sec = -1, tv_nsec = 0\<rparr>\<rparr>"
  let ?m = "take_timer cb (store_send_queue name ?sq m)"
  have "queue_step os name Timeout m = Ok ?m"
    using assms(2,4) off find(1) cb(2)
    by (simp add: queue_step_def fire_connect_timer_def send_queue_connect_timeout_def with_send_queue_eq send_queue_connect_timer_def
        send_queue_connect_def one_shot_def Let_def)
  moreover have "abandoned name ?m"
    using q assms(2) cb(1) find(2) by (auto simp: abandoned_def connect_timers_take holds_def)
  ultimately show ?thesis by blast
qed

lemma abandoned_for_good:
  assumes "abandoned name m" and "sendable (t, g, d)"
  shows "\<exists>m'. queue_step os name (Push t g d) m = Ok m' \<and> abandoned name m'"
proof -
  obtain sq ms where sq: "send_queue_of name m = Some sq" "sq_server_socket sq = -1" "tv_sec (sq_reconnect_interval sq) = -1" "holds sq ms"
    and m: "handlers_ok m" "connect_timers name m = {#}"
    using assms(1) by (auto simp: abandoned_def)
  obtain tb where tb: "send_queues m = Some tb" "map_of tb name = Some sq" using sq(1) by (auto simp: send_queue_of_def bind_eq_Some_conv)
  have d: "send_dump_message os MESSENGER_DUMP_SEND_OVERFLOW name [] m = Ok m" using m(1) by (simp add: handlers_ok_def send_dump_message_def)
  have "\<exists>ok sq' ms'. push_to_queue os (send_dump_message os) name t g d sq m = Ok (ok, sq', m) \<and> holds sq' ms' \<and>
      sq_server_socket sq' = -1 \<and> tv_sec (sq_reconnect_interval sq') = -1"
  proof (cases "room_for ms (t, g, d)")
    case False
    then show ?thesis using overflow_case [of sq ms t g d "send_dump_message os" name m os] sq d assms(2) by auto
  next
    case True
    obtain sq1 where p: "holds sq1 (ms @ [(t, g, d)])" "sq1 = sq\<lparr>sq_overflow := 0, sq_overflow_total_length := 0, sq_buffer := sq_buffer sq1\<rparr>"
      "push_to_queue os (send_dump_message os) name t g d sq m =
        bnd (send_queue_try_connect os (send_dump_message os) name sq1 m) (\<lambda>(_, sq, m). Ok (True, sq, m))"
      by (rule accepted_case [OF sq(4) assms(2) True, of os "send_dump_message os" name m]) (use sq(2) in simp)
    have f: "sq_server_socket sq1 = -1" "tv_sec (sq_reconnect_interval sq1) = -1"
      using arg_cong [OF p(2), of sq_server_socket] arg_cong [OF p(2), of sq_reconnect_interval] sq by simp_all
    then show ?thesis using p by (auto simp: send_queue_try_connect_def)
  qed
  then obtain ok sq' ms' where p: "push_to_queue os (send_dump_message os) name t g d sq m = Ok (ok, sq', m)" "holds sq' ms'"
    "sq_server_socket sq' = -1" "tv_sec (sq_reconnect_interval sq') = -1" by blast
  then have "queue_step os name (Push t g d) m = Ok (store_send_queue name sq' m)"
    using tb by (simp add: queue_step_def push_message_to_send_queue_def)
  then show ?thesis using p m sq(1) by (auto simp: abandoned_def)
qed



lemma reconnect_seconds_min: "reconnect_seconds (int k + 1) = 2 ^ min k 4"
  by (simp add: reconnect_seconds_def min_def)

lemma insert_timer_member: "cb \<in> set (insert_timer_callback cb cbs)"
  by simp

text \<open>
  The time between attempts doubles.  When the connection of a queue is refused for the k-th time in a
  row, the next attempt is made after 1, 2, 4, 8 and from then on 16 seconds: a timer that expires then is
  added.  An attempt that succeeds starts the count again.
\<close>

lemma reconnection_backs_off:
  assumes "sq_server_socket sq = -1" and "sq_refused_count sq = int k" and "tv_nsec (sq_reconnect_interval sq) = 0"
    and "handlers_ok m" and "os_ok os name (-1) m" and "os_monotonic os = Some now"
  shows "(\<forall>fd. os_connect os name = Refused fd \<longrightarrow>
      (\<exists>sq' m' cbs cb. send_queue_connect_timer os (send_dump_message os) name sq m = Ok (0, sq', m') \<and>
        sq_refused_count sq' = int k + 1 \<and> timer_callbacks (ms_timers m') = Some cbs \<and> cb \<in> set cbs \<and>
        is_timer Send_queue_connect_timeout (Some name) cb \<and> expires_at cb = ADD_TIMESPEC now \<lparr>tv_sec = 2 ^ min k 4, tv_nsec = 0\<rparr>)) \<and>
    (\<forall>fd n. os_connect os name = Connected fd n \<longrightarrow>
      (\<exists>sq' m'. send_queue_connect_timer os (send_dump_message os) name sq m = Ok (1, sq', m') \<and>
        sq_server_socket sq' = fd \<and> sq_refused_count sq' = 0 \<and> sq_reconnect_interval sq' = zero_time))"
proof -
  define m1 where "m1 = (if sq_running_timer sq
      then m\<lparr>ms_timers := snd (delete_timer_event Send_queue_connect_timeout (Some name) (ms_timers m))\<rparr> else m)"
  have m1: "handlers_ok m1" "ms_events m1 = ms_events m"
    using assms(4) by (auto simp: m1_def handlers_ok_def delete_timer_event_def split: option.splits)
  have d: "send_dump_message os a b c m' = Ok m'" if "reports_off m'" for a b c m' using that by (simp add: send_dump_message_def)
  have off: "reports_off m1" using m1(1) by (simp add: handlers_ok_def)
  obtain cbs where cbs: "timer_callbacks (ms_timers m1) = Some cbs" using m1(1) by (auto simp: handlers_ok_def)
  note def = send_queue_connect_timer_def send_queue_connect_def m1_def [symmetric] Let_def
  let ?v = "\<lparr>tv_sec = 2 ^ min k 4, tv_nsec = 0\<rparr>"
  let ?cb = "\<lparr>tm_function = Some Send_queue_connect_timeout, expires_at = ADD_TIMESPEC now ?v, tm_interval = zero_time, tm_user_data = Some name\<rparr>"
  have v: "(sq_reconnect_interval sq)\<lparr>tv_sec := reconnect_seconds (int k + 1)\<rparr> = ?v"
    using assms(3) by (cases "sq_reconnect_interval sq") (simp add: reconnect_seconds_min)
  have a: "add_timer_event_callback (Some now) zero_time ?v Send_queue_connect_timeout (Some name) (ms_timers m1) =
      Ok (True, (ms_timers m1)\<lparr>timer_callbacks := Some (insert_timer_callback ?cb cbs)\<rparr>)"
    using cbs by (simp add: add_timer_event_callback_def new_timer_def VALID_TIMESPEC_def)
  have "\<exists>sq' m' cbs cb. send_queue_connect_timer os (send_dump_message os) name sq m = Ok (0, sq', m') \<and>
        sq_refused_count sq' = int k + 1 \<and> timer_callbacks (ms_timers m') = Some cbs \<and> cb \<in> set cbs \<and>
        is_timer Send_queue_connect_timeout (Some name) cb \<and> expires_at cb = ADD_TIMESPEC now ?v"
    if "os_connect os name = Refused fd" for fd
    using that assms(1,2,6) d [OF off] a v insert_timer_member [of ?cb cbs]
    by (simp add: def is_timer_def close_fd_def) (metis timer_callback_info.select_convs)
  moreover have "\<exists>sq' m'. send_queue_connect_timer os (send_dump_message os) name sq m = Ok (1, sq', m') \<and>
        sq_server_socket sq' = fd \<and> sq_refused_count sq' = 0 \<and> sq_reconnect_interval sq' = zero_time"
    if c: "os_connect os name = Connected fd n" for fd n
  proof -
    have fd: "valid_fd fd" "handler_at (ms_events m1) fd = None"
      using assms(5) c m1(2) valid_fd_socket [of fd] by (auto simp: os_ok_def)
    obtain ev where "watch_fd fd (Some (On_send_read name)) (Some (On_send_write name)) m1 = Ok (m1\<lparr>ms_events := ev\<rparr>)"
      using watch_fd_registers [OF _ fd] m1(1) by (auto simp: handlers_ok_def)
    then show ?thesis using assms(1) c d off by (auto simp: def on_events_def split: option.splits)
  qed
  ultimately show ?thesis by blast
qed

lemma reconnection_backs_off_witness:
  "\<exists>sq' m' cbs cb. send_queue_connect_timer sample_os (send_dump_message sample_os) [98] new_send_queue (sample_messenger [97] [98] []) = Ok (0, sq', m') \<and>
    sq_refused_count sq' = 1 \<and> timer_callbacks (ms_timers m') = Some cbs \<and> cb \<in> set cbs \<and>
    is_timer Send_queue_connect_timeout (Some [98]) cb \<and> expires_at cb = \<lparr>tv_sec = 1, tv_nsec = 0\<rparr>"
proof -
  have "handlers_ok (sample_messenger [97] [98] [])"
    by (simp add: handlers_ok_def sample_messenger_def round_inv_def eh_inv_def index_ok_def readers_def writers_def handler_at_def empty_event_handler_def FD_SETSIZE_def)
  moreover have "os_ok sample_os [98] (-1) m" for m by (simp add: os_ok_def socket_given_def sample_os_def)
  ultimately show ?thesis
    using reconnection_backs_off [of new_send_queue 0 "sample_messenger [97] [98] []" sample_os "[98]" zero_time]
    by (simp add: new_send_queue_def sample_os_def ADD_TIMESPEC_def)
qed

section \<open>Timers of queues that are gone\<close>

lemma refused_queue:
  assumes "send_queues m = Some t" and "map_of t name = None" and "timer_callbacks (ms_timers m) = Some cbs" and "path_fits m name"
    and "length name < 32" and "os_connect os name = Refused fd" and "os_monotonic os = Some now"
  shows "\<exists>sq m1. create_send_queue os no_dump name m = Ok (Some sq, m1) \<and> holds sq [] \<and> sq_server_socket sq = -1 \<and>
    tv_sec (sq_reconnect_interval sq) \<noteq> 0 \<and> send_queue_of name m1 = Some sq \<and> timer_pending name m1 \<and>
    dump_service_name m1 = dump_service_name m \<and> dump_app_name m1 = dump_app_name m"
proof -
  let ?v = "\<lparr>tv_sec = 1, tv_nsec = 0\<rparr>"
  obtain t' cbs' where a: "add_timer_event_callback (Some now) zero_time ?v Send_queue_connect_timeout (Some name) (ms_timers m) = Ok (True, t')"
    "timer_callbacks t' = Some cbs'" "\<exists>cb \<in> set cbs'. is_timer Send_queue_connect_timeout (Some name) cb"
    using add_timer_pending [OF assms(3), of ?v now Send_queue_connect_timeout "Some name"] by auto
  let ?sq = "new_send_queue\<lparr>sq_refused_count := 1, sq_reconnect_interval := ?v, sq_running_timer := True,
      sq_buffer := Some (create_message_buffer messenger_send_queue_length)\<rparr>"
  let ?m = "(close_fd fd m)\<lparr>ms_timers := t', send_queues := Some (tbl_insert name ?sq t)\<rparr>"
  have "create_send_queue os no_dump name m = Ok (Some ?sq, ?m)"
    using assms a(1)
    by (simp add: create_send_queue_def send_queue_try_connect_def send_queue_connect_timer_def send_queue_connect_def no_dump_def
        reconnect_seconds_def new_send_queue_def close_fd_def Let_def)
  then show ?thesis
    using a(2,3) by (intro exI [of _ ?sq] exI [of _ ?m]) (auto simp: holds_def send_queue_of_def timer_pending_def new_send_queue_def close_fd_def)
qed

text \<open>
  C39.  A deleted queue leaves its timer behind.  The dump service is not there when the messenger reports to it
  for the first time, so that its queue waits for the next attempt to connect; then reporting is switched off,
  which deletes the queue.  The timer is still pending, and when it expires the deleted queue is used.
\<close>

theorem stopped_dump_timer_uses_freed_queue:
  assumes "reports_off m" and "send_queues m = Some t" and "map_of t name = None" and "timer_callbacks (ms_timers m) = Some cbs"
    and "path_fits m name" and "length name < 32" and "os_connect os name = Refused fd" and "os_monotonic os = Some now"
    and "os_realtime os = Some real" and "other \<noteq> name" and "length app + length other + length data < 199974"
  shows "\<exists>m1 m2 m3. start_messenger_dump app name m = Ok m1 \<and> send_dump_message os dump_type other data m1 = Ok m2 \<and>
    stop_messenger_dump m2 = Ok m3 \<and> timer_pending name m3 \<and> (\<forall>os'. send_queue_connect_timeout os' name m3 = Fault Use_after_free)"
proof -
  let ?m1 = "m\<lparr>dump_service_name := Some name, dump_app_name := Some app\<rparr>"
  let ?d = "dump_message real app other data"
  have start: "start_messenger_dump app name m = Ok ?m1" using assms(1) by (simp add: start_messenger_dump_def messenger_dump_enabled_def)
  have pf: "path_fits ?m1 name" using assms(5) by (simp add: path_fits_def)
  obtain sq m2 where c: "create_send_queue os no_dump name ?m1 = Ok (Some sq, m2)" "holds sq []" "sq_server_socket sq = -1"
    "tv_sec (sq_reconnect_interval sq) \<noteq> 0" "send_queue_of name m2 = Some sq" "timer_pending name m2"
    "dump_service_name m2 = Some name" "dump_app_name m2 = Some app"
    using refused_queue [OF _ assms(3) _ pf assms(6-8)] assms(2,4) by auto
  have x: "sendable (MESSAGE_TYPE_NOTIFY, dump_type, ?d)" "room_for [] (MESSAGE_TYPE_NOTIFY, dump_type, ?d)"
    using assms(11) by (simp_all add: message_size_def dump_message_def room_for_def)
  obtain sq1 where p: "holds sq1 ([] @ [(MESSAGE_TYPE_NOTIFY, dump_type, ?d)])"
    "sq1 = sq\<lparr>sq_overflow := 0, sq_overflow_total_length := 0, sq_buffer := sq_buffer sq1\<rparr>"
    "push_to_queue os no_dump name MESSAGE_TYPE_NOTIFY dump_type ?d sq m2 =
      bnd (send_queue_try_connect os no_dump name sq1 m2) (\<lambda>(_, sq, m). Ok (True, sq, m))"
    by (rule accepted_case [OF c(2) x, of os no_dump name m2]) (use c(3) in simp)
  have f: "sq_server_socket sq1 = -1" "sq_reconnect_interval sq1 = sq_reconnect_interval sq"
    using arg_cong [OF p(2), of sq_server_socket] arg_cong [OF p(2), of sq_reconnect_interval] c(3) by simp_all
  let ?m2 = "store_send_queue name sq1 m2"
  have "push_to_queue os no_dump name MESSAGE_TYPE_NOTIFY dump_type ?d sq m2 = Ok (True, sq1, m2)"
    using p(3) f c(4) by (simp add: send_queue_try_connect_def)
  then have "push_message_to_send_queue os no_dump name MESSAGE_TYPE_NOTIFY dump_type ?d ?m1 = Ok (True, ?m2)"
    using assms(2,3) c(1) by (simp add: push_message_to_send_queue_def)
  then have send: "send_dump_message os dump_type other data ?m1 = Ok ?m2" using assms(9,10) by (simp add: send_dump_message_def)
  have q: "send_queue_of name ?m2 = Some sq1" using c(5) by simp
  obtain t2 where t2: "send_queues ?m2 = Some t2" "map_of t2 name = Some sq1" using q by (auto simp: send_queue_of_def bind_eq_Some_conv)
  let ?m3 = "?m2\<lparr>send_queues := Some (tbl_delete name t2), dump_service_name := None, dump_app_name := None\<rparr>"
  have "sq_buffer sq1 \<noteq> None" using p(1) by (auto simp: holds_def)
  then have stop: "stop_messenger_dump ?m2 = Ok ?m3"
    using c(7,8) t2 f(1) by (simp add: stop_messenger_dump_def delete_send_queue_def) (simp add: store_send_queue_def)
  have "timer_pending name ?m3" using c(6) by (simp add: timer_pending_def)
  moreover have "send_queue_connect_timeout os' name ?m3 = Fault Use_after_free" for os'
    by (simp add: send_queue_connect_timeout_def with_send_queue_eq send_queue_of_def)
  ultimately show ?thesis using start send stop by blast
qed

theorem stopped_dump_timer_uses_freed_queue_witness:
  "\<exists>m1 m2 m3. start_messenger_dump [99] [100] (sample_messenger [97] [98] []) = Ok m1 \<and>
    send_dump_message sample_os MESSENGER_DUMP_SENT [98] [10] m1 = Ok m2 \<and> stop_messenger_dump m2 = Ok m3 \<and> timer_pending [100] m3 \<and>
    (\<forall>os'. send_queue_connect_timeout os' [100] m3 = Fault Use_after_free)"
  using stopped_dump_timer_uses_freed_queue [of "sample_messenger [97] [98] []" "[([98], sample_send_queue)]" "[100]" "[]" sample_os 7 zero_time
      zero_time "[98]" "[99]" "[10]" MESSENGER_DUMP_SENT]
  by (simp add: path_fits_def sample_messenger_def) (simp add: sample_os_def)

end
