(* ===== verification/Switch_Channel_Properties.thy ===== *)
theory Switch_Channel_Properties
  imports Switch_Interface_Properties Messenger_Watch
begin

text \<open>
  What the secure channel of a switch does with the messages that it is given: they are written in the
  order in which they were sent, and the socket is watched as long as one of them waits.  After a
  connection that ended with messages in the queue this is not so.
\<close>

section \<open>Messages wait only while the socket is watched\<close>

definition flush_handler_at :: "'a secure_channel_scheme \<Rightarrow> bool" where
  "flush_handler_at c \<longleftrightarrow> valid_fd (chn_fd c) \<and>
     (\<exists>e. handler_at (chn_events c) (chn_fd c) = Some e \<and> write_callback e = Some Flush_send_queue)"

definition channel_watched :: "'a secure_channel_scheme \<Rightarrow> bytes list \<Rightarrow> bool" where
  "channel_watched c ms \<longleftrightarrow> chn_state c = CONNECTED \<and> flush_handler_at c \<and>
     (\<exists>q. chn_send_queue c = Some q \<and> mq_inv q \<and> mq_list q = ms) \<and> (\<forall>m \<in> set ms. m \<noteq> []) \<and>
     (chn_fd c \<in> event_write_set (chn_events c) \<longleftrightarrow> ms \<noteq> [])"

definition written_bytes :: "'a secure_channel_scheme \<Rightarrow> bytes" where
  "written_bytes c = concat (map snd (chn_written c))"

lemma flush_handler_at_set_writable [simp]:
  "flush_handler_at (c\<lparr>chn_events := set_writable fd b (chn_events c)\<rparr>) = flush_handler_at c"
  "flush_handler_at (c\<lparr>chn_send_queue := q\<rparr>) = flush_handler_at c"
  "flush_handler_at (c\<lparr>chn_written := w\<rparr>) = flush_handler_at c"
  by (simp_all add: flush_handler_at_def)

lemma set_writable_channel:
  assumes "flush_handler_at c"
  shows "chn_fd c \<in> event_write_set (set_writable (chn_fd c) b (chn_events c)) \<longleftrightarrow> b"
  using assms by (auto simp: flush_handler_at_def set_writable_def)

lemma flush_handler_fd: "flush_handler_at c \<Longrightarrow> chn_fd c \<ge> 0"
  by (auto simp: flush_handler_at_def valid_fd_def)

datatype channel_op = Send_message bytes | Socket_writable "writev_result list"

fun run_channel :: "channel_op list \<Rightarrow> 'a secure_channel_scheme \<Rightarrow> 'a secure_channel_scheme res" where
  "run_channel [] c = Ok c"
| "run_channel (Send_message m # ops) c = bnd (send_message_to_secure_channel m c) (\<lambda>(_, c). run_channel ops c)"
| "run_channel (Socket_writable ws # ops) c = bnd (flush_send_queue ws c) (run_channel ops)"

definition writes_ok :: "writev_result list \<Rightarrow> bool" where
  "writes_ok ws \<longleftrightarrow> (\<forall>w \<in> set ws. w \<noteq> Write_error \<and> w \<noteq> Wrote 0)"

fun channel_op_ok :: "channel_op \<Rightarrow> bool" where
  "channel_op_ok (Send_message m) \<longleftrightarrow> m \<noteq> []"
| "channel_op_ok (Socket_writable ws) \<longleftrightarrow> writes_ok ws"

fun sent_bytes :: "channel_op \<Rightarrow> bytes" where
  "sent_bytes (Send_message m) = m"
| "sent_bytes (Socket_writable ws) = []"

definition accepts_all :: "writev_result list \<Rightarrow> bytes list \<Rightarrow> bool" where
  "accepts_all ws ms \<longleftrightarrow> list_all2 (\<lambda>w m. \<exists>n. w = Wrote n \<and> length m \<le> n) ws ms"

lemma watched_waiting:
  assumes "mq_inv q" and "mq_list q = ms" and "ms \<noteq> []" and "\<forall>m \<in> set ms. m \<noteq> []" and "chn_state c = CONNECTED" and "flush_handler_at c"
  shows "channel_watched (c\<lparr>chn_send_queue := Some q, chn_events := set_writable (chn_fd c) True (chn_events c)\<rparr>) ms"
  using assms set_writable_channel [OF assms(6), of True] by (simp add: channel_watched_def flush_handler_at_def)

lemma watched_empty:
  assumes "mq_inv q" and "mq_list q = []" and "chn_state c = CONNECTED" and "flush_handler_at c" and "chn_fd c \<notin> event_write_set (chn_events c)"
  shows "channel_watched (c\<lparr>chn_send_queue := Some q\<rparr>) []"
  using assms by (simp add: channel_watched_def)

definition flushed :: "writev_result list \<Rightarrow> bytes list \<Rightarrow> 'a secure_channel_scheme \<Rightarrow> 'a secure_channel_scheme res \<Rightarrow> bool" where
  "flushed ws ms c r \<longleftrightarrow> (\<exists>c' ms'. r = Ok c' \<and> channel_watched c' ms' \<and> written_bytes c' @ concat ms' = written_bytes c @ concat ms \<and>
    length ms' \<le> length ms \<and> (accepts_all ws ms \<longrightarrow> ms' = []))"

lemma flushed_waiting:
  assumes "mq_inv q" and "mq_list q = ms'" and "ms' \<noteq> []" and "\<forall>m \<in> set ms'. m \<noteq> []" and "chn_state c' = CONNECTED" and "flush_handler_at c'"
    and "written_bytes c' @ concat ms' = written_bytes c @ concat ms" and "length ms' \<le> length ms" and "\<not> accepts_all ws ms"
  shows "flushed ws ms c (Ok (c'\<lparr>chn_send_queue := Some q, chn_events := set_writable (chn_fd c') True (chn_events c')\<rparr>))"
  unfolding flushed_def using watched_waiting [OF assms(1-6)] assms(7-9) by (auto simp: written_bytes_def)

lemma flushed_step:
  assumes "flushed ws ms (c\<lparr>chn_written := chn_written c @ [(fd, m)]\<rparr>) r"
  shows "flushed (w # ws) (m # ms) c r"
proof -
  obtain c' ms' where "r = Ok c'" "channel_watched c' ms'" "written_bytes c' @ concat ms' = written_bytes c @ concat (m # ms)"
    "length ms' \<le> length (m # ms)" "accepts_all ws ms \<longrightarrow> ms' = []"
    using assms by (auto simp: flushed_def written_bytes_def intro: le_SucI)
  then show ?thesis unfolding flushed_def by (intro exI [of _ c'] exI [of _ ms']) (auto simp: accepts_all_def)
qed

lemma flush_loop_in_order:
  assumes "mq_inv q" and "\<forall>m \<in> set (mq_list q). m \<noteq> []" and "writes_ok ws"
    and "chn_state c = CONNECTED" and "flush_handler_at c" and "chn_fd c \<notin> event_write_set (chn_events c)"
  shows "flushed ws (mq_list q) c (flush_loop ws q c)"
  using assms
proof (induction ws q c rule: flush_loop.induct)
  case (1 ws q c)
  note p = mq_peek [OF "1.prems"(1)]
  show ?case
  proof (cases "mq_list q")
    case Nil
    then show ?thesis
      using p watched_empty [OF "1.prems"(1) Nil "1.prems"(4-6)] by (auto simp: flush_loop.simps flushed_def written_bytes_def)
  next
    case (Cons m ms)
    note wait = flushed_waiting [OF "1.prems"(1) Cons _ _ "1.prems"(4,5) refl order_refl]
    show ?thesis
    proof (cases ws)
      case Nil
      then show ?thesis using p Cons wait "1.prems"(2) by (simp add: flush_loop.simps accepts_all_def)
    next
      case (Cons w ws')
      show ?thesis
      proof (cases w)
        case Write_again
        then show ?thesis using p \<open>ws = w # ws'\<close> \<open>mq_list q = m # ms\<close> wait "1.prems"(2) by (simp add: flush_loop.simps accepts_all_def)
      next
        case Write_error
        then show ?thesis using "1.prems"(3) \<open>ws = w # ws'\<close> by (simp add: writes_ok_def)
      next
        case (Wrote n)
        let ?c = "c\<lparr>chn_written := chn_written c @ [(chn_fd c, take n m)]\<rparr>"
        have n: "n \<noteq> 0" using "1.prems"(3) \<open>ws = w # ws'\<close> Wrote by (auto simp: writes_ok_def)
        show ?thesis
        proof (cases "n < length m")
          case True
          have e: "flush_loop ws q c = Ok (?c\<lparr>chn_send_queue := Some (shorten_first n q), chn_events := set_writable (chn_fd ?c) True (chn_events ?c)\<rparr>)"
            using p \<open>ws = w # ws'\<close> \<open>mq_list q = m # ms\<close> Wrote True n by (simp add: flush_loop.simps assert_then_def)
          show ?thesis unfolding e
          proof (rule flushed_waiting)
            show "mq_inv (shorten_first n q)" "mq_list (shorten_first n q) = drop n m # ms"
              using shorten_first_ok [OF "1.prems"(1) \<open>mq_list q = m # ms\<close>] by auto
            show "\<not> accepts_all ws (mq_list q)" using \<open>ws = w # ws'\<close> \<open>mq_list q = m # ms\<close> Wrote True by (simp add: accepts_all_def)
          qed (use "1.prems"(2,4,5) \<open>mq_list q = m # ms\<close> True in \<open>simp_all add: written_bytes_def\<close>)
        next
          case False
          note d = mq_dequeue(2,3) [OF "1.prems"(1)]
          have "flushed ws' (mq_list (snd (dequeue_message q))) ?c (flush_loop ws' (snd (dequeue_message q)) ?c)"
            using p \<open>ws = w # ws'\<close> \<open>mq_list q = m # ms\<close> Wrote False d "1.prems"(2-6)
            by (intro "1.IH" [OF _ \<open>ws = w # ws'\<close> Wrote refl]) (simp_all add: writes_ok_def)
          moreover have "flush_loop ws q c = flush_loop ws' (snd (dequeue_message q)) ?c"
            using p \<open>ws = w # ws'\<close> \<open>mq_list q = m # ms\<close> Wrote False by (subst flush_loop.simps) simp
          ultimately show ?thesis using d \<open>ws = w # ws'\<close> \<open>mq_list q = m # ms\<close> Wrote False flushed_step by simp
        qed
      qed
    qed
  qed
qed

lemma flush_send_queue_in_order:
  assumes "channel_watched c ms" and "writes_ok ws"
  shows "flushed ws ms c (flush_send_queue ws c)"
proof -
  obtain q where q: "chn_send_queue c = Some q" "mq_inv q" "mq_list q = ms" using assms(1) by (auto simp: channel_watched_def)
  let ?c = "c\<lparr>chn_events := set_writable (chn_fd c) False (chn_events c)\<rparr>"
  have c: "\<forall>m \<in> set (mq_list q). m \<noteq> []" "chn_state ?c = CONNECTED" "flush_handler_at ?c" "chn_fd ?c \<notin> event_write_set (chn_events ?c)"
    "chn_fd c \<ge> 0" using assms(1) set_writable_channel [of c False] flush_handler_fd [of c] q(3) by (simp_all add: channel_watched_def)
  have "flushed ws ms ?c (flush_loop ws q ?c)" using flush_loop_in_order [OF q(2) c(1) assms(2) c(2-4)] q(3) by simp
  then show ?thesis using q(1) c(5) by (simp add: flush_send_queue_def assert_then_def flushed_def written_bytes_def)
qed

lemma mq_length_zero:
  assumes "mq_inv q" and "length (mq_list q) < 2 ^ 32"
  shows "mq_length q = 0 \<longleftrightarrow> mq_list q = []"
proof -
  have "mq_length q = of_nat (length (mq_list q))" using assms(1) by (simp add: mq_inv_def mq_list_def)
  then show ?thesis using assms(2) by (auto simp: word_of_nat_eq_0_iff dest: nat_dvd_not_less)
qed

lemma send_message_in_order:
  assumes "channel_watched c ms" and "m \<noteq> []" and "length ms < 2 ^ 32"
  shows "\<exists>c'. send_message_to_secure_channel m c = Ok (True, c') \<and> channel_watched c' (ms @ [m]) \<and> written_bytes c' = written_bytes c"
proof -
  obtain q where q: "chn_send_queue c = Some q" "mq_inv q" "mq_list q = ms" using assms(1) by (auto simp: channel_watched_def)
  have l: "mq_length q = 0 \<longleftrightarrow> ms = []" using mq_length_zero [OF q(2)] q(3) assms(3) by simp
  have w: "chn_state c = CONNECTED" "flush_handler_at c" "\<forall>m \<in> set (ms @ [m]). m \<noteq> []" "chn_fd c \<in> event_write_set (chn_events c) \<longleftrightarrow> ms \<noteq> []"
    using assms(1,2) by (auto simp: channel_watched_def)
  have e: "mq_inv (enqueue_message q m)" "mq_list (enqueue_message q m) = ms @ [m]" using mq_enqueue [OF q(2)] q(3) by auto
  show ?thesis
  proof (cases "ms = []")
    case True
    let ?c = "c\<lparr>chn_events := set_writable (chn_fd c) True (chn_events c), chn_send_queue := Some (enqueue_message q m)\<rparr>"
    have "channel_watched ?c (ms @ [m])"
      using e w set_writable_channel [OF w(2), of True] by (simp add: channel_watched_def flush_handler_at_def)
    then show ?thesis using True l q(1) assms(2) w(1) flush_handler_fd [OF w(2)]
      by (simp add: send_message_to_secure_channel_def assert_then_def written_bytes_def)
  next
    case False
    then have "channel_watched (c\<lparr>chn_send_queue := Some (enqueue_message q m)\<rparr>) (ms @ [m])" using w e by (simp add: channel_watched_def)
    then show ?thesis using False l q(1) assms(2) w(1) flush_handler_fd [OF w(2)]
      by (simp add: send_message_to_secure_channel_def assert_then_def written_bytes_def)
  qed
qed

lemma run_channel_in_order:
  assumes "channel_watched c ms" and "\<forall>x \<in> set ops. channel_op_ok x" and "length ms + length ops < 2 ^ 32"
  shows "\<exists>c' ms'. run_channel ops c = Ok c' \<and> channel_watched c' ms' \<and>
    written_bytes c' @ concat ms' = written_bytes c @ concat ms @ concat (map sent_bytes ops)"
  using assms
proof (induction ops arbitrary: c ms)
  case (Cons x ops)
  obtain c1 ms1 where c1: "run_channel (x # ops) c = run_channel ops c1" "channel_watched c1 ms1" "length ms1 \<le> Suc (length ms)"
    "written_bytes c1 @ concat ms1 = written_bytes c @ concat ms @ sent_bytes x"
  proof (cases x)
    case (Send_message m)
    then show ?thesis using send_message_in_order [OF Cons.prems(1), of m] Cons.prems(2,3) that by fastforce
  next
    case (Socket_writable ws)
    then show ?thesis using flush_send_queue_in_order [OF Cons.prems(1), of ws] Cons.prems(2) that
      by (fastforce simp: flushed_def intro: le_SucI)
  qed
  obtain c' ms' where "run_channel ops c1 = Ok c'" "channel_watched c' ms'"
    "written_bytes c' @ concat ms' = written_bytes c1 @ concat ms1 @ concat (map sent_bytes ops)"
    using Cons.IH [OF c1(2)] Cons.prems(2,3) c1(3) by auto
  then show ?case using c1(1,4) by auto
qed auto

text \<open>
  C23.  The channel writes in order.  On a connected channel whose socket is watched for writing exactly while a
  message waits, any messages are sent and any number of times the socket takes some bytes.  Then every
  byte of every message has been written once and in order or is still in the queue, and the socket is
  watched exactly when something waits; once the socket takes the messages that wait, all is written.
\<close>

theorem channel_sends_in_order:
  assumes "channel_watched c ms" and "\<forall>x \<in> set ops. channel_op_ok x" and "length ms + length ops < 2 ^ 32"
  shows "\<exists>c' ms'. run_channel ops c = Ok c' \<and> channel_watched c' ms' \<and>
    written_bytes c' @ concat ms' = written_bytes c @ concat ms @ concat (map sent_bytes ops) \<and>
    (\<exists>c''. flush_send_queue (map (\<lambda>m. Wrote (length m)) ms') c' = Ok c'' \<and> channel_watched c'' [] \<and>
      written_bytes c'' = written_bytes c @ concat ms @ concat (map sent_bytes ops))"
proof -
  obtain c' ms' where c': "run_channel ops c = Ok c'" "channel_watched c' ms'"
    "written_bytes c' @ concat ms' = written_bytes c @ concat ms @ concat (map sent_bytes ops)"
    using run_channel_in_order [OF assms] by auto
  let ?ws = "map (\<lambda>m. Wrote (length m)) ms'"
  have "writes_ok ?ws" using c'(2) by (auto simp: writes_ok_def channel_watched_def)
  moreover have "accepts_all ?ws ms'" by (simp add: accepts_all_def list_all2_conv_all_nth)
  ultimately obtain c'' where "flush_send_queue ?ws c' = Ok c''" "channel_watched c'' []" "written_bytes c'' = written_bytes c' @ concat ms'"
    using flush_send_queue_in_order [OF c'(2), of ?ws] by (auto simp: flushed_def)
  then show ?thesis using c' by (intro exI [of _ c'] exI [of _ ms']) auto
qed

lemma connected_switch_watched: "channel_watched connected_switch []"
  by (simp add: mq_create channel_watched_def flush_handler_at_def connected_switch_def sample_channel_events_def handler_at_def valid_fd_def FD_SETSIZE_def)

theorem channel_sends_in_order_witness:
  "\<exists>c' ms'. run_channel [Send_message [1, 2, 3], Send_message [4], Socket_writable [Wrote 2]] connected_switch = Ok c' \<and>
    channel_watched c' ms' \<and> written_bytes c' @ concat ms' = [1, 2, 3, 4]"
proof -
  have "written_bytes connected_switch = []" by (simp add: connected_switch_def written_bytes_def)
  then show ?thesis
    using channel_sends_in_order [OF connected_switch_watched, of "[Send_message [1, 2, 3], Send_message [4], Socket_writable [Wrote 2]]"]
    by (simp add: writes_ok_def) blast
qed

section \<open>A connection that ends with messages in the queue\<close>

lemma delete_frees:
  assumes "round_inv h"
  shows "round_inv (delete_fd_handler fd h)" and "handler_at (delete_fd_handler fd h) = (handler_at h)(fd := None)"
proof -
  have inv: "eh_inv h" using assms by (simp add: round_inv_def)
  show "round_inv (delete_fd_handler fd h)" using delete_fd_handler_ok [OF assms] by blast
  show "handler_at (delete_fd_handler fd h) = (handler_at h)(fd := None)"
  proof (cases "event_fd_set h fd")
    case None
    then show ?thesis by (auto simp: delete_fd_handler_eq [OF inv] handler_at_def fun_eq_iff)
  next
    case (Some i)
    then show ?thesis by (simp add: delete_fd_handler_eq [OF inv] handler_at_unregistered [OF inv Some])
  qed
qed

lemma register_free:
  assumes "round_inv h" and "valid_fd fd" and "handler_at h fd = None"
  obtains h' where "set_fd_handler fd r w h = Ok h'" "round_inv h'"
    "handler_at h' fd = Some \<lparr>ev_fd = fd, read_callback = r, write_callback = w\<rparr>"
proof -
  have inv: "eh_inv h" using assms(1) by (simp add: round_inv_def)
  have n: "event_fd_set h fd = None" using assms(3) by (simp add: handler_at_def)
  have s: "set_fd_handler fd r w h = Ok (registered h fd r w)"
    using assms(2) n free_place [OF inv assms(2) n] by (simp add: set_fd_handler_def registered_def)
  moreover have "round_inv (registered h fd r w)" using set_fd_handler_ok [OF assms(1,2), of r w] s by auto
  ultimately show thesis using that handler_at_registered [OF inv n] by simp
qed

lemma callback_keeps_channel:
  "chn_state (call_controller_callback f s) = chn_state s" "chn_fd (call_controller_callback f s) = chn_fd s"
  "chn_events (call_controller_callback f s) = chn_events s" "chn_send_queue (call_controller_callback f s) = chn_send_queue s"
  "chn_written (call_controller_callback f s) = chn_written s" "chn_fragment_buf (call_controller_callback f s) = chn_fragment_buf s"
  "secure_channel_initialized (call_controller_callback f s) = secure_channel_initialized s"
  by (auto simp: call_controller_callback_def handle_controller_connected_def handle_controller_disconnected_def switch_upcall_def
      split: controller_callback.splits option.splits)

definition unwatched :: "int \<Rightarrow> channel_handler event_handler \<Rightarrow> bool" where
  "unwatched fd h \<longleftrightarrow> fd \<notin> event_write_set h"

lemma disconnected_channel:
  fixes s :: switch_interface
  assumes "round_inv (chn_events s)" and "chn_state s = CONNECTED"
  defines "s1 \<equiv> channel_disconnected call_controller_callback s"
  shows "round_inv (chn_events s1)" and "handler_at (chn_events s1) x = (if x = chn_fd s \<and> chn_fd s \<ge> 0 then None else handler_at (chn_events s) x)"
    and "chn_state s1 = INIT" and "chn_send_queue s1 = chn_send_queue s" and "chn_written s1 = chn_written s"
    and "chn_fragment_buf s1 = chn_fragment_buf s" and "secure_channel_initialized s1 = secure_channel_initialized s"
proof -
  have r: "round_inv (set_writable fd False (set_readable fd False (chn_events s)))" for fd
    using set_readable_ok [OF assms(1)] set_writable_ok by blast
  note simps = s1_def channel_disconnected_def transit_state_def assms(2) clear_connection_def Let_def callback_keeps_channel delete_frees [OF r]
  show "round_inv (chn_events s1)" using assms(1) delete_frees(1) [OF r] by (simp add: simps split: option.split)
  show "handler_at (chn_events s1) x = (if x = chn_fd s \<and> chn_fd s \<ge> 0 then None else handler_at (chn_events s) x)"
    by (simp add: simps split: option.split)
  show "chn_state s1 = INIT" "chn_send_queue s1 = chn_send_queue s" "chn_written s1 = chn_written s"
    "chn_fragment_buf s1 = chn_fragment_buf s" "secure_channel_initialized s1 = secure_channel_initialized s"
    by (simp_all add: simps split: option.split)
qed

lemma reconnected_channel:
  fixes s :: switch_interface
  assumes "round_inv (chn_events s)" and "chn_state s = INIT" and "handler_at (chn_events s) fd = None" and "valid_fd fd"
    and "secure_channel_initialized s" and "cos_socket os = Socket fd" and "cos_connect os = In_progress" and "cos_sockopt os = Some Connect_done"
  shows "\<exists>s1 s2. reconnect os s = Ok s1 \<and> check_connected os call_controller_callback s1 = Ok s2 \<and>
    chn_state s2 = CONNECTED \<and> chn_fd s2 = fd \<and> flush_handler_at s2 \<and> unwatched fd (chn_events s2) \<and>
    chn_send_queue s2 = chn_send_queue s \<and> chn_written s2 = chn_written s \<and> chn_fragment_buf s2 = chn_fragment_buf s"
proof -
  obtain h1 where h1: "set_fd_handler fd None (Some Check_connected) (chn_events s) = Ok h1" "round_inv h1"
    by (rule register_free [OF assms(1,4,3), of None "Some Check_connected"])
  let ?s1 = "s\<lparr>chn_fd := fd, chn_state := CONNECTING, chn_events := set_writable fd True h1\<rparr>"
  have s1: "reconnect os s = Ok ?s1"
    using h1(1) assms(2,6,7) by (simp add: reconnect_def try_connect_def assert_then_def transit_state_def watch_connecting_def Let_def)
  let ?h = "delete_fd_handler fd (set_writable fd False (set_writable fd True h1))"
  have "round_inv (set_writable fd False (set_writable fd True h1))" using set_writable_ok [OF h1(2)] set_writable_ok by blast
  note d = delete_frees [OF this, of fd]
  obtain h2 where h2: "set_fd_handler fd (Some Recv_from_secure_channel) (Some Flush_send_queue) ?h = Ok h2" "round_inv h2"
    "handler_at h2 fd = Some \<lparr>ev_fd = fd, read_callback = Some Recv_from_secure_channel, write_callback = Some Flush_send_queue\<rparr>"
    by (rule register_free [OF d(1) assms(4), of "Some Recv_from_secure_channel" "Some Flush_send_queue"]) (simp add: d(2))
  let ?s2 = "?s1\<lparr>chn_state := CONNECTED, chn_events := set_writable fd False (set_readable fd True h2)\<rparr>"
  let ?s3 = "case connected_callback s of None \<Rightarrow> ?s2 | Some f \<Rightarrow> call_controller_callback f ?s2"
  have "check_connected os call_controller_callback ?s1 = Ok ?s3"
    using assms(4,5,8) h2(1)
    by (simp add: check_connected_def channel_connected_def transit_state_def assert_then_def valid_fd_def Let_def split: option.split)
  moreover have "fd \<notin> event_write_set (set_writable fd False (set_readable fd True h2))"
    using assms(4) h2(3) by (simp add: set_writable_def)
  ultimately show ?thesis
    using s1 assms(4) h2(3) by (auto simp: unwatched_def flush_handler_at_def callback_keeps_channel split: option.split)
qed

lemma sends_leave_unwatched:
  assumes "chn_state c = CONNECTED" and "chn_fd c \<ge> 0" and "chn_send_queue c = Some q" and "mq_inv q" and "mq_list q \<noteq> []"
    and "\<forall>m \<in> set ms. m \<noteq> []" and "length (mq_list q) + length ms < 2 ^ 32"
  shows "\<exists>c' q'. run_channel (map Send_message ms) c = Ok c' \<and> chn_events c' = chn_events c \<and> chn_written c' = chn_written c \<and>
    chn_send_queue c' = Some q' \<and> mq_list q' = mq_list q @ ms"
  using assms
proof (induction ms arbitrary: c q)
  case (Cons m ms)
  let ?c = "c\<lparr>chn_send_queue := Some (enqueue_message q m)\<rparr>"
  note e = mq_enqueue [OF Cons.prems(4), of m]
  have "mq_length q \<noteq> 0" using mq_length_zero [OF Cons.prems(4)] Cons.prems(5,7) by simp
  then have s: "send_message_to_secure_channel m c = Ok (True, ?c)"
    using Cons.prems(1-3,6) by (simp add: send_message_to_secure_channel_def assert_then_def)
  obtain c' q' where "run_channel (map Send_message ms) ?c = Ok c'" "chn_events c' = chn_events c" "chn_written c' = chn_written c"
    "chn_send_queue c' = Some q'" "mq_list q' = mq_list q @ m # ms"
    using Cons.IH [of ?c "enqueue_message q m"] Cons.prems e by auto
  then show ?case using s by auto
qed simp

text \<open>
  C40.  Messages that wait when a connection ends block the next one.  The controller closes the connection
  while messages are queued, and the switch connects again.  The new connection is established with
  the old messages and the old partial message kept, and its socket is not watched for writing;
  every message that is sent after that joins the queue and leaves it so: nothing is written any more.
\<close>

theorem reconnection_leaves_queue_unsent:
  assumes "channel_watched s ms" and "ms \<noteq> []" and "secure_channel_initialized s" and "round_inv (chn_events s)"
    and "chn_recv_queue s = Some rq" and "mq_length rq = 0" and "chn_fragment_buf s = Some f"
    and "cos_socket os = Socket fd" and "valid_fd fd" and "fd = chn_fd s \<or> handler_at (chn_events s) fd = None"
    and "cos_connect os = In_progress" and "cos_sockopt os = Some Connect_done"
  shows "\<exists>s1 s2. recv_from_controller os call_controller_callback handle (Read_data []) s = Ok s1 \<and>
    check_connected os call_controller_callback s1 = Ok s2 \<and> chn_state s2 = CONNECTED \<and> chn_fd s2 = fd \<and>
    chn_fragment_buf s2 = Some f \<and>
    (\<forall>msgs. (\<forall>m \<in> set msgs. m \<noteq> []) \<longrightarrow> length ms + length msgs < 2 ^ 32 \<longrightarrow>
      (\<exists>s3 q. run_channel (map Send_message msgs) s2 = Ok s3 \<and> fd \<notin> event_write_set (chn_events s3) \<and>
        chn_send_queue s3 = Some q \<and> mq_list q = ms @ msgs \<and> chn_written s3 = chn_written s))"
proof -
  obtain q where q: "chn_send_queue s = Some q" "mq_inv q" "mq_list q = ms" using assms(1) by (auto simp: channel_watched_def)
  have "chn_state s = CONNECTED" "chn_fd s \<ge> 0" using assms(1) flush_handler_fd by (auto simp: channel_watched_def)
  note d = disconnected_channel [OF assms(4) this(1)] and fd = this(2)
  have "handler_at (chn_events (channel_disconnected call_controller_callback s)) fd = None" using d(2) [of fd] fd assms(10) by auto
  then obtain s1 s2 where s: "reconnect os (channel_disconnected call_controller_callback s) = Ok s1"
    "check_connected os call_controller_callback s1 = Ok s2" "chn_state s2 = CONNECTED" "chn_fd s2 = fd" "flush_handler_at s2"
    "unwatched fd (chn_events s2)" "chn_send_queue s2 = Some q" "chn_written s2 = chn_written s" "chn_fragment_buf s2 = Some f"
    using reconnected_channel [OF d(1,3) _ assms(9) _ assms(8,11,12)] d(4-7) assms(3,7) q(1) by auto
  have e: "s\<lparr>chn_fragment_buf := Some f\<rparr> = s" using assms(7) by simp
  have "recv_from_controller os call_controller_callback handle (Read_data []) s = Ok s1"
    using s(1) assms(5-7) by (simp add: recv_from_controller_def e)
  then show ?thesis
    using s(2-9) sends_leave_unwatched [OF s(3) _ s(7) q(2)] q(3) assms(2) flush_handler_fd [OF s(5)]
    by (intro exI [of _ s1] exI [of _ s2]) (fastforce simp: unwatched_def)
qed

definition waiting_switch :: switch_interface where
  "waiting_switch = connected_switch\<lparr>chn_send_queue := Some (enqueue_message create_message_queue [1, 2]), chn_fragment_buf := Some [4],
     chn_events := sample_channel_events\<lparr>event_write_set := {3}\<rparr>\<rparr>"

lemma waiting_switch_ok: "channel_watched waiting_switch [[1, 2]]" "round_inv (chn_events waiting_switch)"
proof -
  show "channel_watched waiting_switch [[1, 2]]"
    using mq_enqueue [OF mq_create [THEN conjunct1], of "[1, 2]"]
    by (simp add: mq_create channel_watched_def flush_handler_at_def waiting_switch_def connected_switch_def sample_channel_events_def
        handler_at_def valid_fd_def FD_SETSIZE_def)
  show "round_inv (chn_events waiting_switch)"
    by (auto simp: waiting_switch_def connected_switch_def sample_channel_events_def round_inv_def eh_inv_def index_ok_def readers_def
        writers_def handler_at_def valid_fd_def FD_SETSIZE_def)
qed

theorem reconnection_leaves_queue_unsent_witness:
  "\<exists>s1 s2. recv_from_controller sample_channel_os call_controller_callback (handle_ignoring_result 1 100) (Read_data []) waiting_switch = Ok s1 \<and>
    check_connected sample_channel_os call_controller_callback s1 = Ok s2 \<and> chn_state s2 = CONNECTED \<and>
    (\<exists>s3 q. run_channel (map Send_message [[3]]) s2 = Ok s3 \<and> 3 \<notin> event_write_set (chn_events s3) \<and>
        chn_send_queue s3 = Some q \<and> mq_list q = [[1, 2], [3]] \<and> chn_written s3 = [])"
proof -
  have w: "secure_channel_initialized waiting_switch" "chn_recv_queue waiting_switch = Some create_message_queue"
    "chn_fragment_buf waiting_switch = Some [4]" "chn_written waiting_switch = []" "chn_fd waiting_switch = 3"
    by (simp_all add: waiting_switch_def connected_switch_def)
  have o: "cos_socket sample_channel_os = Socket 3" "cos_connect sample_channel_os = In_progress" "cos_sockopt sample_channel_os = Some Connect_done"
    "valid_fd 3" "mq_length create_message_queue = 0"
    by (simp_all add: sample_channel_os_def valid_fd_def FD_SETSIZE_def create_message_queue_def)
  have f: "3 = chn_fd waiting_switch \<or> handler_at (chn_events waiting_switch) 3 = None" using w(5) by simp
  obtain s1 s2 where s: "recv_from_controller sample_channel_os call_controller_callback (handle_ignoring_result 1 100) (Read_data []) waiting_switch = Ok s1"
    "check_connected sample_channel_os call_controller_callback s1 = Ok s2" "chn_state s2 = CONNECTED"
    "\<forall>msgs. (\<forall>m \<in> set msgs. m \<noteq> []) \<longrightarrow> length [[1, 2] :: bytes] + length msgs < 2 ^ 32 \<longrightarrow>
      (\<exists>s3 q. run_channel (map Send_message msgs) s2 = Ok s3 \<and> 3 \<notin> event_write_set (chn_events s3) \<and>
        chn_send_queue s3 = Some q \<and> mq_list q = [[1, 2]] @ msgs \<and> chn_written s3 = chn_written waiting_switch)"
    using reconnection_leaves_queue_unsent [OF waiting_switch_ok(1) _ w(1) waiting_switch_ok(2) w(2) o(5) w(3) o(1,4) f o(2,3)]
    by (metis list.distinct(1))
  show ?thesis using s(1-3) spec [OF s(4), of "[[3]]"] w(4) by (intro exI [of _ s1] exI [of _ s2]) simp
qed

end
