(* ===== verification/Packetin_Filter_Properties.thy ===== *)
theory Packetin_Filter_Properties
  imports Packetin_Filter_Table Switch_Channel_Properties Application_Properties
begin

text \<open>
  The properties of the packet-in filter and of its client: requests change the filters as they say and are
  answered, lists of filters come back complete, and packets go to the services of the best filter.
\<close>

section \<open>Requests on the wire\<close>

lemma criteria_fields:
  assumes "length field = 32"
  shows "ntoh_match (hton_match m @ put16 p @ field @ rest) 0 = Ok (m\<lparr>pad1 := 0, pad2 := 0\<rparr>)"
    and "rd16 (hton_match m @ put16 p @ field @ rest) 40 = Ok p"
    and "drop 42 (hton_match m @ put16 p @ field @ rest) = field @ rest"
    and "length (hton_match m @ put16 p @ field @ rest) = filter_entry_size + length rest"
proof -
  show "ntoh_match (hton_match m @ put16 p @ field @ rest) 0 = Ok (m\<lparr>pad1 := 0, pad2 := 0\<rparr>)"
    using ntoh_hton_match [of "[]" 0 m "put16 p @ field @ rest"] by simp
qed (use assms in \<open>simp_all add: be_get_put filter_entry_size_def\<close>)

lemma length_name_field [simp]: "length (name_field name) = 32"
  by (simp add: name_field_def)

lemma cstring_name_field:
  assumes "service_name_ok name"
  shows "cstring (name_field name @ rest) = name" and "0 \<in> set (name_field name)"
proof -
  have n: "length name \<le> 31" "0 \<notin> set name" using assms by (auto simp: service_name_ok_def MESSENGER_SERVICE_NAME_LENGTH_def)
  then have "name_field name @ rest = name @ [0] @ replicate (31 - length name) 0 @ rest"
    by (simp add: name_field_def replicate_append_same)
  then show "cstring (name_field name @ rest) = name" using cstring_terminated [of name] n(2) by simp
  show "0 \<in> set (name_field name)" by (simp add: name_field_def)
qed

lemma add_request_name:
  assumes "service_name_ok name" and "32 \<le> length (name @ 0 # junk)"
  shows "wr 73 [0] (hton_match m @ put16 p @ take 32 (name @ 0 # junk)) =
      Ok (hton_match m @ put16 p @ (take 31 (name @ 0 # junk) @ [0]) @ [])"
    and "cstring (take 31 (name @ 0 # junk) @ [0]) = name"
proof -
  have n: "length name \<le> 31" "0 \<notin> set name" using assms(1) by (auto simp: service_name_ok_def MESSENGER_SERVICE_NAME_LENGTH_def)
  let ?f = "name @ 0 # junk"
  have "wr 73 [0] (hton_match m @ put16 p @ take 32 ?f) = Ok (patch 73 [0] (hton_match m @ put16 p @ take 32 ?f))"
    using assms(2) by (intro wr_in) simp
  then show "wr 73 [0] (hton_match m @ put16 p @ take 32 ?f) = Ok (hton_match m @ put16 p @ (take 31 ?f @ [0]) @ [])"
    using assms(2) by (simp add: patch_def min_def)
  have "take 31 ?f @ [0] = name @ 0 # (if length name = 31 then [] else take (30 - length name) junk @ [0])"
  proof (cases "31 - length name")
    case (Suc k)
    then have "30 - length name = k" "length name \<noteq> 31" by arith+
    then show ?thesis using n(1) Suc by simp
  qed (use n(1) in simp)
  then show "cstring (take 31 ?f @ [0]) = name" using cstring_terminated [OF n(2)] by simp
qed

text \<open>What the last request of a client makes of the filters, and what the client makes of the reply.\<close>

definition filter_exchange ::
  "messenger_context_handle \<Rightarrow> filter_client \<Rightarrow> packetin_filter \<Rightarrow> (filter_client \<times> packetin_filter) res" where
  "filter_exchange handle c s =
     (case last (fcl_requests c) of (service, name, tag, request, data) \<Rightarrow>
        bnd (filter_handle_request True handle tag request s) (\<lambda>s'.
        case drop (length (pf_replies s)) (pf_replies s') of
          [(_, tag', reply)] \<Rightarrow> bnd (filter_handle_reply tag' reply data c) (\<lambda>c'. Ok (c', s'))
        | _ \<Rightarrow> Fault No_return))"

lemma maybe_init_keeps [simp]:
  "fcl_calls (maybe_init_packetin_filter_interface pid c) = fcl_calls c"
  by (simp add: maybe_init_packetin_filter_interface_def init_packetin_filter_interface_def set_client_service_name_def Let_def)

lemma exchange_add:
  assumes "filter_inv s" and "pad1 m = 0" "pad2 m = 0" and "service_name_ok name" and "name \<noteq> []" and "32 \<le> length (name @ 0 # junk)"
  shows "\<exists>c1 c2 s'. add_packetin_filter True pid m p (Some (name @ 0 # junk)) (Some f) user_data c = Ok (True, c1) \<and>
    filter_exchange handle c1 s = Ok (c2, s') \<and> filter_inv s' \<and>
    fcl_calls c2 = fcl_calls c @ [Filter_added f (if name \<in> set (filters s m p) then 1 else 0) user_data] \<and>
    (\<forall>m' p'. filters s' m' p' =
      (if same_flow m p m' p' \<and> name \<notin> set (filters s m p) then filters s m p @ [name] else filters s m' p'))"
proof -
  have z: "0 \<notin> set name" using assms(4) by (simp add: service_name_ok_def)
  let ?f = "name @ 0 # junk"
  let ?r = "hton_match m @ put16 p @ take 32 ?f"
  let ?g = "take 31 ?f @ [0]"
  have "c_string ?f = Ok name" using cstring_terminated [OF z, of junk] by (simp add: c_string_def cstring_def)
  then obtain c1 where c1: "add_packetin_filter True pid m p (Some ?f) (Some f) user_data c = Ok (True, c1)"
    "last (fcl_requests c1) = (PACKETIN_FILTER_MANAGEMENT_SERVICE, client_service_name (maybe_init_packetin_filter_interface pid c),
      MESSENGER_ADD_PACKETIN_FILTER_REQUEST, ?r, \<lparr>hd_callback = Some f, hd_user_data = user_data\<rparr>)" "fcl_calls c1 = fcl_calls c"
    using assms(5,6) by (simp add: add_packetin_filter_def send_filter_request_def Let_def)
  have g: "length ?g = 32" "length ?r = filter_entry_size" using assms(6) by (simp_all add: filter_entry_size_def)
  have pads: "m\<lparr>pad1 := 0, pad2 := 0\<rparr> = m" using assms(2,3) by simp
  obtain s' where s': "add_packetin_match_entry m p name s = Ok (name \<notin> set (filters s m p), s')" "only_table s s'"
    "\<forall>m' p'. filters s' m' p' = (if same_flow m p m' p' \<and> name \<notin> set (filters s m p) then filters s m p @ [name] else filters s m' p')"
    using add_entry_ok [OF assms(1) z, of m p] by auto
  let ?s = "s'\<lparr>pf_replies := pf_replies s' @ [(handle, MESSENGER_ADD_PACKETIN_FILTER_REPLY, [if name \<in> set (filters s m p) then 1 else 0])]\<rparr>"
  have "filter_handle_request True handle MESSENGER_ADD_PACKETIN_FILTER_REQUEST ?r s = Ok ?s"
    using g(2) assms(5) s'(1) add_request_name [OF assms(4,6)] criteria_fields [OF g(1), of m p "[]"]
    unfolding filter_handle_request_def handle_add_filter_request_def by (simp add: pads send_filter_reply_def)
  moreover have "filter_handle_reply MESSENGER_ADD_PACKETIN_FILTER_REPLY [if name \<in> set (filters s m p) then 1 else 0]
      \<lparr>hd_callback = Some f, hd_user_data = user_data\<rparr> c1 =
      Ok (c1\<lparr>fcl_calls := fcl_calls c1 @ [Filter_added f (if name \<in> set (filters s m p) then 1 else 0) user_data]\<rparr>)"
    by (simp add: filter_handle_reply_def addition_completed_def rd_def be_get_def)
  moreover have "filters ?s = filters s'" "filter_inv ?s = filter_inv s'"
    by (simp_all add: filters_def filter_inv_def filter_table_def fun_eq_iff)
  ultimately show ?thesis using c1 s'(2,3) by (auto simp: filter_exchange_def only_table_def)
qed

text \<open>A request with criteria: what the server reads from it.\<close>

lemma criteria_request_fields:
  assumes "length field = 32" and "pad1 m = 0" "pad2 m = 0"
  shows "ntoh_match (criteria_request m p field strict) 0 = Ok m" and "rd16 (criteria_request m p field strict) 40 = Ok p"
    and "drop 42 (criteria_request m p field strict) = field @ [if strict then 1 else 0]"
    and "take 42 (criteria_request m p field strict) = hton_match m @ put16 p"
    and "length (criteria_request m p field strict) = filter_entry_size + 1"
    and "rd8 (criteria_request m p field strict) 74 = Ok (if strict then 1 else 0)"
proof -
  have "m\<lparr>pad1 := 0, pad2 := 0\<rparr> = m" using assms(2,3) by simp
  then show "ntoh_match (criteria_request m p field strict) 0 = Ok m" using criteria_fields(1) [OF assms(1)] by (simp add: criteria_request_def)
  show "rd16 (criteria_request m p field strict) 40 = Ok p" using criteria_fields(2) [OF assms(1)] by (simp add: criteria_request_def)
  show "drop 42 (criteria_request m p field strict) = field @ [if strict then 1 else 0]"
    using criteria_fields(3) [OF assms(1)] by (simp add: criteria_request_def)
qed (use assms(1) in \<open>simp_all add: criteria_request_def filter_entry_size_def be_get_def rd_def\<close>)

lemma delete_reply_read:
  "filter_handle_reply MESSENGER_DELETE_PACKETIN_FILTER_REPLY (0 # put32 n) \<lparr>hd_callback = Some f, hd_user_data = user_data\<rparr> c =
     Ok (c\<lparr>fcl_calls := fcl_calls c @ [Filter_deleted f 0 (sint n) user_data]\<rparr>)"
proof -
  have "rd8 (0 # put32 n) 0 = Ok 0" by (simp add: rd_def be_get_def)
  moreover have "rd32 (0 # put32 n) 1 = Ok n" using be_get_put [of 4 n] by (simp add: rd_def)
  ultimately show ?thesis by (simp add: filter_handle_reply_def deletion_completed_def)
qed

lemma filters_replies [simp]: "filters (s\<lparr>pf_replies := r\<rparr>) = filters s" "filter_inv (s\<lparr>pf_replies := r\<rparr>) = filter_inv s"
  by (simp_all add: filters_def filter_inv_def filter_table_def fun_eq_iff)

lemma string_field_ok: "service_name_ok name \<Longrightarrow> string_field (Some (name @ 0 # junk)) = Ok (name_field name)"
  using cstring_terminated [of name junk] by (simp add: string_field_def service_name_ok_def)

lemma exchange_delete:
  assumes "filter_inv s" and "pad1 m = 0" "pad2 m = 0" and "string_field service_name = Ok field" and "length field = 32"
    and "bnd (if strict then bnd (delete_packetin_match_entry m p (field @ [1]) s) (\<lambda>(n, s). Ok (of_int n, s))
          else bnd (map_match_table (pf_table s) m (Some delete_filter_walker) (Ok (0, s))) (\<lambda>r. r)) Ok = Ok (n, s1)"
    and "only_table s s1"
  shows "\<exists>c1 c2 s'. delete_packetin_filter True pid m p service_name strict (Some f) user_data c = Ok (True, c1) \<and>
    filter_exchange handle c1 s = Ok (c2, s') \<and> filter_inv s' \<and> fcl_calls c2 = fcl_calls c @ [Filter_deleted f 0 (sint n) user_data] \<and>
    filters s' = filters s1"
proof -
  let ?r = "criteria_request m p field strict"
  note r = criteria_request_fields [OF assms(5,2,3), of p strict]
  obtain c1 where c1: "delete_packetin_filter True pid m p service_name strict (Some f) user_data c = Ok (True, c1)"
    "last (fcl_requests c1) = (PACKETIN_FILTER_MANAGEMENT_SERVICE, client_service_name (maybe_init_packetin_filter_interface pid c),
      MESSENGER_DELETE_PACKETIN_FILTER_REQUEST, ?r, \<lparr>hd_callback = Some f, hd_user_data = user_data\<rparr>)" "fcl_calls c1 = fcl_calls c"
    using assms(4) by (simp add: delete_packetin_filter_def send_filter_request_def Let_def)
  let ?s = "s1\<lparr>pf_replies := pf_replies s1 @ [(handle, MESSENGER_DELETE_PACKETIN_FILTER_REPLY, 0 # put32 n)]\<rparr>"
  have "filter_handle_request True handle MESSENGER_DELETE_PACKETIN_FILTER_REQUEST ?r s = Ok ?s"
    using assms(6) r by (cases strict) (auto simp: filter_handle_request_def handle_delete_filter_request_def send_filter_reply_def bnd_eq_Ok)
  then show ?thesis using c1 assms(7) delete_reply_read [of n f user_data c1] by (auto simp: filter_exchange_def only_table_def)
qed

section \<open>The states of the process\<close>

inductive filter_run :: "packetin_filter \<Rightarrow> bool" where
  start: "start_packetin_filter args = Ok (True, s) \<Longrightarrow> \<forall>a \<in> set args. 0 \<notin> set a \<Longrightarrow> filter_run s"
| request: "filter_run s \<Longrightarrow> filter_handle_request accepts handle tag data s = Ok s' \<Longrightarrow> filter_run s'"
| packet: "filter_run s \<Longrightarrow> filter_handle_packet_in accepts_service datapath_id xid buffer_id total_len port reason packet s = Ok s' \<Longrightarrow>
    filter_run s'"

lemma add_entry_any:
  "filter_inv s \<Longrightarrow> 0 \<notin> set name \<Longrightarrow> add_packetin_match_entry m p name s = Ok (r, s') \<Longrightarrow> filter_inv s'"
  using add_entry_ok [of s name m p] by (auto simp: only_table_def)

lemma set_match_type_inv:
  "\<forall>a \<in> set args. 0 \<notin> set a \<Longrightarrow> filter_inv s \<Longrightarrow> set_match_type args s = Ok (r, s') \<Longrightarrow> filter_inv s'"
proof (induction args arbitrary: s)
  case (Cons a args)
  have d: "0 \<notin> set (drop n a)" for n using Cons.prems(1) by (auto dest: in_set_dropD)
  have i: "filter_inv s1" if "register_dl_type_filter type p (drop n a) s = Ok s1 \<or> register_any_filter p (drop n a) s = Ok s1" for s1 type p n
    using that add_entry_any [OF Cons.prems(2) d] by (auto simp: register_dl_type_filter_def register_any_filter_def bnd_eq_Ok)
  consider (rule) n type p s1 where "register_dl_type_filter type p (drop n a) s = Ok s1 \<or> register_any_filter p (drop n a) s = Ok s1"
      "set_match_type args s1 = Ok (r, s')" | (none) "s' = s"
    using Cons.prems(3)
    by (cases "match_type LLDP_PACKET_IN a"; cases "match_type ANY_PACKET_IN a") (auto simp: match_type_def bnd_eq_Ok split: if_splits)
  then show ?case
  proof cases
    case rule
    then show ?thesis using Cons.IH [of s1] Cons.prems(1) i [OF rule(1)] by simp
  qed (use Cons.prems(2) in simp)
qed simp

lemma init_filter_inv: "init_packetin_match_table \<lparr>pf_table = None, pf_new = 1, pf_sent = [], pf_replies = []\<rparr> = Ok s \<Longrightarrow>
  filter_inv s \<and> filters s m p = []"
proof -
  assume "init_packetin_match_table \<lparr>pf_table = None, pf_new = 1, pf_sent = [], pf_replies = []\<rparr> = Ok s"
  then obtain t :: "bytes list match_table" where t: "init_match_table None = Ok (Some t)" "pf_table s = Some t" "pf_new s = 1"
    by (auto simp: init_packetin_match_table_def init_match_table_def die_unless_def)
  then show ?thesis using init_table [OF t(1)] own_matches_init [OF t(1)]
    by (auto simp: filter_inv_def filter_table_def filters_def entry_ids_def init_match_table_def die_unless_def create_list_def)
qed

lemma cstring_no_null: "0 \<notin> set (cstring bs)"
  by (auto simp: cstring_def dest: set_takeWhileD)

lemma request_inv:
  assumes "filter_inv s" and "filter_handle_request accepts handle tag data s = Ok s'"
  shows "filter_inv s'"
proof -
  have a: "filter_inv s1" if "add_packetin_match_entry m p (cstring bs) s = Ok (r, s1)" for m p bs r s1
    using add_entry_any [OF assms(1) cstring_no_null that] .
  have d: "filter_inv s1" if "delete_packetin_match_entry m p name s = Ok (n, s1)" for m p name n s1
    using delete_entry_any [OF assms(1) that] by (simp add: only_table_def)
  have w: "filter_inv s1" if "map_match_table (pf_table s) m (Some delete_filter_walker) (Ok (0, s)) = Ok (Ok (n, s1))" for m n s1
    using delete_covered_ok [OF assms(1), of m] that by (auto simp: only_table_def)
  have r: "filter_inv (send_filter_reply acc h t b s1) = filter_inv s1" for acc h t b s1 by (simp add: send_filter_reply_def)
  have "handle_add_filter_request accepts handle data s = Ok s' \<or> handle_delete_filter_request accepts handle data s = Ok s' \<or>
      handle_dump_filter_request accepts handle data s = Ok s' \<or> s' = s"
    using assms(2) unfolding filter_handle_request_def by (metis res.inject(1))
  then consider "handle_add_filter_request accepts handle data s = Ok s'" | "handle_delete_filter_request accepts handle data s = Ok s'"
    | "handle_dump_filter_request accepts handle data s = Ok s'" | "s' = s" by blast
  then show ?thesis
  proof cases
    case 1
    then obtain b where b: "(if cstring (drop 42 b) = [] then Ok s
        else bnd (ntoh_match b 0) (\<lambda>match. bnd (rd16 b 40) (\<lambda>priority.
          bnd (add_packetin_match_entry match priority (cstring (drop 42 b)) s) (\<lambda>(ret, s).
          Ok (send_filter_reply accepts handle MESSENGER_ADD_PACKETIN_FILTER_REPLY [if ret then 0 else 1] s))))) = Ok s'"
      unfolding handle_add_filter_request_def Let_def bnd_eq_Ok [of "wr 73 [0] data"] by blast
    show ?thesis
    proof (cases "cstring (drop 42 b) = []")
      case False
      then obtain m p ret s1 where "add_packetin_match_entry m p (cstring (drop 42 b)) s = Ok (ret, s1)"
        "s' = send_filter_reply accepts handle MESSENGER_ADD_PACKETIN_FILTER_REPLY [if ret then 0 else 1] s1"
        using b by (auto simp: bnd_eq_Ok)
      then show ?thesis using a r by simp
    qed (use b assms(1) in simp)
  next
    case 2
    then show ?thesis using d w by (auto simp: handle_delete_filter_request_def bnd_eq_Ok r split: if_splits)
  next
    case 3
    then show ?thesis using assms(1) by (auto simp: handle_dump_filter_request_def Let_def bnd_eq_Ok r split: if_splits)
  qed (use assms(1) in simp)
qed

lemma send_to_services_fields [simp]:
  "pf_table (send_to_services acc l m s) = pf_table s" "pf_new (send_to_services acc l m s) = pf_new s"
  "pf_replies (send_to_services acc l m s) = pf_replies s"
  by (induction l arbitrary: s) auto

lemma filter_run_inv: "filter_run s \<Longrightarrow> filter_inv s"
proof (induction rule: filter_run.induct)
  case (start args s)
  then obtain s0 where "init_packetin_match_table \<lparr>pf_table = None, pf_new = 1, pf_sent = [], pf_replies = []\<rparr> = Ok s0" "set_match_type args s0 = Ok (True, s)"
    by (auto simp: start_packetin_filter_def bnd_eq_Ok split: if_splits)
  then show ?case using set_match_type_inv [OF start(2)] init_filter_inv by blast
next
  case (request s accepts handle tag data s')
  then show ?case using request_inv by blast
next
  case (packet s accepts_service datapath_id xid buffer_id total_len port reason packet s')
  then have "pf_table s' = pf_table s \<and> pf_new s' = pf_new s"
    by (auto simp: filter_handle_packet_in_def Let_def bnd_eq_Ok split: option.splits if_splits)
  then show ?case using packet.IH by (simp add: filter_inv_def filter_table_def)
qed

text \<open>
  C10.  Requests for filters take effect.  In every state that the packet-in filter can reach, a client that
  adds a service to a filter, deletes it, or deletes all filters that a match covers is called back
  exactly once with the outcome: whether the service was new, or how many services were deleted.  The
  filters change as the request says and no others do; services keep the order in which they came.
\<close>

theorem filter_requests_take_effect:
  assumes "filter_run s" and "pad1 m = 0" "pad2 m = 0" and "service_name_ok name" and "name \<noteq> []" and "32 \<le> length (name @ 0 # junk)"
  shows "(\<exists>c1 c2 s'. add_packetin_filter True pid m p (Some (name @ 0 # junk)) (Some f) user_data c = Ok (True, c1) \<and>
      filter_exchange handle c1 s = Ok (c2, s') \<and>
      fcl_calls c2 = fcl_calls c @ [Filter_added f (if name \<in> set (filters s m p) then 1 else 0) user_data] \<and>
      (\<forall>m' p'. filters s' m' p' =
        (if same_flow m p m' p' \<and> name \<notin> set (filters s m p) then filters s m p @ [name] else filters s m' p'))) \<and>
    (\<exists>c1 c2 s'. delete_packetin_filter True pid m p (Some (name @ 0 # junk)) True (Some f) user_data c = Ok (True, c1) \<and>
      filter_exchange handle c1 s = Ok (c2, s') \<and>
      fcl_calls c2 = fcl_calls c @ [Filter_deleted f 0 (if name \<in> set (filters s m p) then 1 else 0) user_data] \<and>
      (\<forall>m' p'. filters s' m' p' = (if same_flow m p m' p' then removeAll name (filters s m p) else filters s m' p'))) \<and>
    (\<exists>c1 c2 s'. delete_packetin_filter True pid m p None False (Some f) user_data c = Ok (True, c1) \<and>
      filter_exchange handle c1 s = Ok (c2, s') \<and>
      fcl_calls c2 = fcl_calls c @ [Filter_deleted f 0
        (sint (of_nat (sum_list (map (\<lambda>(_, _, services). length services) (covered_filters m s))) :: 32 word)) user_data] \<and>
      (\<forall>m' p'. filters s' m' p' = (if \<exists>(k, q, _) \<in> set (covered_filters m s). same_flow k q m' p' then [] else filters s m' p')))"
proof (intro conjI)
  note inv = filter_run_inv [OF assms(1)]
  show "\<exists>c1 c2 s'. add_packetin_filter True pid m p (Some (name @ 0 # junk)) (Some f) user_data c = Ok (True, c1) \<and>
      filter_exchange handle c1 s = Ok (c2, s') \<and>
      fcl_calls c2 = fcl_calls c @ [Filter_added f (if name \<in> set (filters s m p) then 1 else 0) user_data] \<and>
      (\<forall>m' p'. filters s' m' p' =
        (if same_flow m p m' p' \<and> name \<notin> set (filters s m p) then filters s m p @ [name] else filters s m' p'))"
    using exchange_add [OF inv assms(2-6)] by blast
  let ?k = "if name \<in> set (filters s m p) then 1 else 0 :: int"
  have n: "cstring (name_field name @ [1]) = name" "0 \<in> set (name_field name @ [1])" using cstring_name_field [OF assms(4)] by auto
  obtain s1 where s1: "delete_packetin_match_entry m p (name_field name @ [1]) s = Ok (?k, s1)" "only_table s s1"
    "\<forall>m' p'. filters s1 m' p' = (if same_flow m p m' p' then removeAll name (filters s m p) else filters s m' p')"
    using delete_entry_ok [OF inv n(2), of m p] n(1) by auto
  have "sint (of_int ?k :: 32 word) = ?k" by simp
  then show "\<exists>c1 c2 s'. delete_packetin_filter True pid m p (Some (name @ 0 # junk)) True (Some f) user_data c = Ok (True, c1) \<and>
      filter_exchange handle c1 s = Ok (c2, s') \<and>
      fcl_calls c2 = fcl_calls c @ [Filter_deleted f 0 ?k user_data] \<and>
      (\<forall>m' p'. filters s' m' p' = (if same_flow m p m' p' then removeAll name (filters s m p) else filters s m' p'))"
    using exchange_delete [OF inv assms(2,3) string_field_ok [OF assms(4), of junk] length_name_field, of True p "of_int ?k" s1] s1 by fastforce
  obtain s2 where s2: "map_match_table (pf_table s) m (Some delete_filter_walker) (Ok (0, s)) =
      Ok (Ok (of_nat (sum_list (map (\<lambda>(_, _, l). length l) (covered_filters m s))), s2))" "only_table s s2"
    "\<forall>m' p'. filters s2 m' p' = (if \<exists>(k, q, _) \<in> set (covered_filters m s). same_flow k q m' p' then [] else filters s m' p')"
    using delete_covered_ok [OF inv, of m] by auto
  have "string_field None = Ok (replicate 32 0)" by (simp add: string_field_def)
  then show "\<exists>c1 c2 s'. delete_packetin_filter True pid m p None False (Some f) user_data c = Ok (True, c1) \<and>
      filter_exchange handle c1 s = Ok (c2, s') \<and>
      fcl_calls c2 = fcl_calls c @ [Filter_deleted f 0
        (sint (of_nat (sum_list (map (\<lambda>(_, _, services). length services) (covered_filters m s))) :: 32 word)) user_data] \<and>
      (\<forall>m' p'. filters s' m' p' = (if \<exists>(k, q, _) \<in> set (covered_filters m s). same_flow k q m' p' then [] else filters s m' p'))"
    using exchange_delete [OF inv assms(2,3) _ _ _ s2(2), of None "replicate 32 0" False p] s2 by fastforce
qed

definition idle_client :: filter_client where
  "idle_client = \<lparr>fcl_initialized = False, client_service_name = [], fcl_replied_callbacks = [], fcl_requests = [], fcl_calls = []\<rparr>"

definition sample_handle :: messenger_context_handle where
  "sample_handle = \<lparr>hdl_transaction_id = 1, hdl_service_name_len = 2, hdl_service_name = [97, 0]\<rparr>"

lemma start_without_rules: "\<exists>s. start_packetin_filter [] = Ok (True, s) \<and> filter_run s \<and> (\<forall>m p. filters s m p = []) \<and> pf_sent s = []"
proof -
  obtain s where s: "init_packetin_match_table \<lparr>pf_table = None, pf_new = 1, pf_sent = [], pf_replies = []\<rparr> = Ok s" "pf_sent s = []"
    by (auto simp: init_packetin_match_table_def init_match_table_def die_unless_def)
  then have "start_packetin_filter [] = Ok (True, s)" by (simp add: start_packetin_filter_def)
  then show ?thesis using filter_run.start [of "[]" s] init_filter_inv [OF s(1)] s(2) by auto
qed

theorem filter_requests_take_effect_witness:
  "\<exists>s c1 c2 s'. start_packetin_filter [] = Ok (True, s) \<and>
    add_packetin_filter True 7 any_match 5 (Some ([97] @ 0 # replicate 30 1)) (Some 3) 9 idle_client = Ok (True, c1) \<and>
    filter_exchange sample_handle c1 s = Ok (c2, s') \<and> fcl_calls c2 = [Filter_added 3 0 9] \<and> filters s' any_match 5 = [[97]]"
proof -
  obtain s where s: "start_packetin_filter [] = Ok (True, s)" "filter_run s" "filters s any_match 5 = []" using start_without_rules by blast
  have "pad1 any_match = 0" "pad2 any_match = 0" "service_name_ok [97]" "32 \<le> length ([97] @ 0 # replicate 30 (1 :: byte))"
    by (simp_all add: any_match_def service_name_ok_def MESSENGER_SERVICE_NAME_LENGTH_def)
  from filter_requests_take_effect [OF s(2) this(1-3) _ this(4), of 7 5 3 9 idle_client sample_handle] s(1,3)
  show ?thesis by (auto simp: idle_client_def same_flow_def)
qed

section \<open>Lists of filters\<close>

lemma append_entry_ok:
  assumes "buf_inv (dmp_buffer d)" and "length entry = 74"
  obtains d' where "append_filter_entry entry d = Ok d'" "buf_inv (dmp_buffer d')" "buf_contents (dmp_buffer d') = buf_contents (dmp_buffer d) @ entry"
    "dmp_n_entries d' = dmp_n_entries d"
    "dmp_block d' = (if already_allocated (dmp_buffer d) 74 then dmp_block d else dmp_block d + 1)"
    "already_allocated (dmp_buffer d) 74 \<Longrightarrow> real_length (dmp_buffer d') = real_length (dmp_buffer d) \<and> data_offset (dmp_buffer d') = data_offset (dmp_buffer d)"
proof -
  let ?b = "dmp_buffer d"
  obtain b' off b'' where b: "append_back_buffer ?b 74 = Ok (b', off)" "store_buffer b' off entry = Ok b''" "buf_inv b''"
    "buf_contents b'' = buf_contents ?b @ entry"
    using append_back_contents [OF assms(1), of 74 entry] assms(2) by auto
  have "real_length b'' = real_length ?b \<and> data_offset b'' = data_offset ?b" if "already_allocated ?b 74"
  proof -
    have "real_length ?b \<noteq> 0" using that by (auto simp: already_allocated_def)
    then have "b' = ?b\<lparr>buf_length := buf_length ?b + 74\<rparr>" using b(1) that by (auto simp: append_back_buffer_def assert_then_def Let_def)
    then show ?thesis using b(2) by (auto simp: store_buffer_def wr_def real_length_def split: if_splits)
  qed
  then show thesis using that [of "d\<lparr>dmp_buffer := b'', dmp_block := (if already_allocated ?b 74 then dmp_block d else dmp_block d + 1)\<rparr>"] b
    by (simp add: append_filter_entry_def filter_entry_size_def)
qed

text \<open>The reply while it is in its first block, and after it has left it.\<close>

definition dump_holds :: "bytes list \<Rightarrow> dump_reply \<Rightarrow> bool" where
  "dump_holds es d \<longleftrightarrow> buf_inv (dmp_buffer d) \<and> data_offset (dmp_buffer d) = 0 \<and> real_length (dmp_buffer d) = 2048 \<and>
     buf_contents (dmp_buffer d) = (0 # put32 0) @ concat es \<and> dmp_n_entries d = of_nat (length es) \<and> dmp_block d = 0 \<and>
     (\<forall>e \<in> set es. length e = 74)"

definition dump_moved :: "dump_reply res \<Rightarrow> bool" where
  "dump_moved r \<longleftrightarrow> r = Fault Use_after_free \<or> (\<exists>d. r = Ok d \<and> buf_inv (dmp_buffer d) \<and> dmp_block d \<noteq> 0)"

lemma concat_length: "\<forall>e \<in> set es. length e = k \<Longrightarrow> length (concat es) = k * length es"
  by (induction es) auto

lemma dump_room:
  assumes "dump_holds es d"
  shows "already_allocated (dmp_buffer d) 74 \<longleftrightarrow> length es < 27"
proof -
  have "buf_length (dmp_buffer d) = 5 + 74 * length es"
    using length_buf_contents [of "dmp_buffer d"] concat_length [of es 74] assms by (simp add: dump_holds_def)
  then show ?thesis using assms by (auto simp: already_allocated_def front_length_of_def dump_holds_def)
qed

lemma dump_moved_services: "buf_inv (dmp_buffer d) \<Longrightarrow> dmp_block d \<noteq> 0 \<Longrightarrow> dump_moved (dump_services reply m p l d)"
proof (induction l arbitrary: d)
  case (Cons x l)
  show ?case
  proof (cases "reply = dmp_block d")
    case True
    let ?d = "d\<lparr>dmp_n_entries := dmp_n_entries d + 1\<rparr>"
    have c: "count_filter_entry reply d = Ok ?d" using True by (simp add: count_filter_entry_def)
    have e: "length (hton_filter_entry m p x) = 74" by (simp add: hton_filter_entry_def)
    show ?thesis
    proof (rule append_entry_ok [of ?d "hton_filter_entry m p x"])
      fix d' assume "append_filter_entry (hton_filter_entry m p x) ?d = Ok d'" "buf_inv (dmp_buffer d')"
        "dmp_block d' = (if already_allocated (dmp_buffer ?d) 74 then dmp_block ?d else dmp_block ?d + 1)"
      then show ?thesis using Cons.IH [of d'] Cons.prems c by (simp split: if_splits)
    qed (use Cons.prems e in simp_all)
  qed (simp add: count_filter_entry_def dump_moved_def)
qed (simp add: dump_moved_def)

lemma dump_services_ok:
  assumes "dump_holds es d" and "length es \<le> 27"
  shows "if length es + length l \<le> 27 then \<exists>d'. dump_services 0 m p l d = Ok d' \<and> dump_holds (es @ map (hton_filter_entry m p) l) d'
    else dump_moved (dump_services 0 m p l d)"
  using assms
proof (induction l arbitrary: d es)
  case (Cons x l)
  let ?d = "d\<lparr>dmp_n_entries := dmp_n_entries d + 1\<rparr>" and ?e = "hton_filter_entry m p x"
  have c: "count_filter_entry 0 d = Ok ?d" using Cons.prems by (simp add: count_filter_entry_def dump_holds_def)
  have e: "length ?e = 74" by (simp add: hton_filter_entry_def)
  have i: "buf_inv (dmp_buffer ?d)" using Cons.prems by (simp add: dump_holds_def)
  show ?case
  proof (rule append_entry_ok [OF i e])
    fix d' assume d': "append_filter_entry ?e ?d = Ok d'" "buf_inv (dmp_buffer d')" "buf_contents (dmp_buffer d') = buf_contents (dmp_buffer ?d) @ ?e"
      "dmp_n_entries d' = dmp_n_entries ?d" "dmp_block d' = (if already_allocated (dmp_buffer ?d) 74 then dmp_block ?d else dmp_block ?d + 1)"
      "already_allocated (dmp_buffer ?d) 74 \<Longrightarrow> real_length (dmp_buffer d') = real_length (dmp_buffer ?d) \<and> data_offset (dmp_buffer d') = data_offset (dmp_buffer ?d)"
    have s: "dump_services 0 m p (x # l) d = dump_services 0 m p l d'" using c d'(1) by simp
    show ?thesis
    proof (cases "length es < 27")
      case True
      then have "dump_holds (es @ [?e]) d'" using d' e Cons.prems dump_room [OF Cons.prems(1)] by (auto simp: dump_holds_def)
      from Cons.IH [OF this] True show ?thesis unfolding s by (simp split: if_splits)
    next
      case False
      then have "dmp_block d' \<noteq> 0" using d'(5) dump_room [OF Cons.prems(1)] by simp
      then show ?thesis using False dump_moved_services [OF d'(2)] unfolding s by simp
    qed
  qed
qed auto

lemma walker_moved: "dump_moved r \<Longrightarrow> dump_moved (dump_filter_walker m p l r)"
  using dump_moved_services by (auto simp: dump_moved_def [of r] dump_filter_walker_def) (simp add: dump_moved_def)

lemma walk_moved: "dump_moved r \<Longrightarrow> dump_moved (foldl (\<lambda>r e. dump_filter_walker (me_match e) (me_priority e) (me_data e) r) r es)"
  by (induction es arbitrary: r) (simp_all add: walker_moved)

definition listed :: "(ofp_match \<times> 16 word \<times> bytes list) list \<Rightarrow> (ofp_match \<times> 16 word \<times> bytes) list" where
  "listed rows = concat (map (\<lambda>(m, p, l). map (\<lambda>x. (m, p, x)) l) rows)"

lemma dump_walk_ok:
  assumes "dump_holds es d" and "length es \<le> 27"
  defines "rows \<equiv> \<lambda>xs. listed (map (\<lambda>e. (me_match e, me_priority e, me_data e)) xs)"
  shows "if length es + length (rows xs) \<le> 27
    then \<exists>d'. foldl (\<lambda>r e. dump_filter_walker (me_match e) (me_priority e) (me_data e) r) (Ok d) xs = Ok d' \<and>
      dump_holds (es @ map (\<lambda>(m, p, x). hton_filter_entry m p x) (rows xs)) d'
    else dump_moved (foldl (\<lambda>r e. dump_filter_walker (me_match e) (me_priority e) (me_data e) r) (Ok d) xs)"
  using assms(1,2)
proof (induction xs arbitrary: d es)
  case (Cons e xs)
  have r: "rows (e # xs) = map (\<lambda>x. (me_match e, me_priority e, x)) (me_data e) @ rows xs" by (simp add: rows_def listed_def)
  have w: "dump_filter_walker (me_match e) (me_priority e) (me_data e) (Ok d) = dump_services 0 (me_match e) (me_priority e) (me_data e) d"
    using Cons.prems(1) by (simp add: dump_filter_walker_def dump_holds_def)
  note s = dump_services_ok [OF Cons.prems, of "me_data e" "me_match e" "me_priority e"]
  show ?case
  proof (cases "length es + length (me_data e) \<le> 27")
    case True
    then obtain d1 where d1: "dump_services 0 (me_match e) (me_priority e) (me_data e) d = Ok d1"
      "dump_holds (es @ map (hton_filter_entry (me_match e) (me_priority e)) (me_data e)) d1" using s by auto
    from Cons.IH [OF d1(2)] True show ?thesis using w d1(1) unfolding r by (simp add: comp_def split: if_splits)
  next
    case False
    then show ?thesis using s walk_moved w unfolding r by simp
  qed
qed (simp add: rows_def listed_def)

lemma new_dump_reply:
  obtains b0 b1 b2 where "alloc_buffer_with_length 2048 = Ok b0" "append_back_buffer b0 5 = Ok (b1, 0)"
    "store_buffer b1 0 (0 # put32 0) = Ok b2" "dump_holds [] \<lparr>dmp_buffer = b2, dmp_block = 0, dmp_n_entries = 0\<rparr>"
proof -
  obtain b0 where b0: "alloc_buffer_with_length 2048 = Ok b0" "buf_inv b0" "buf_contents b0 = []" "real_length b0 = 2048" "data_offset b0 = 0"
    using buf_alloc_with_length [of 2048] by auto
  have l: "buf_length b0 = 0" using length_buf_contents [OF b0(2)] b0(3) by simp
  obtain b1 off b2 where b: "append_back_buffer b0 5 = Ok (b1, off)" "store_buffer b1 off (0 # put32 0) = Ok b2" "buf_inv b2"
    "buf_contents b2 = 0 # put32 0" using append_back_contents [OF b0(2), of 5 "0 # put32 0"] b0(3) by auto
  have b1: "b1 = b0\<lparr>buf_length := 5\<rparr>" "off = 0"
    using b(1) b0(4,5) l by (auto simp: append_back_buffer_def assert_then_def already_allocated_def front_length_of_def)
  have "real_length b2 = 2048 \<and> data_offset b2 = 0" using b(2) b0(4,5) by (auto simp: b1 store_buffer_def wr_def real_length_def split: if_splits)
  then show thesis using that [of b0 b1 b2] b0(1) b b1(2) by (simp add: dump_holds_def)
qed

lemma finish_dump:
  assumes "dump_holds es d"
  obtains b where "store_buffer (dmp_buffer d) 1 (put32 (dmp_n_entries d)) = Ok b"
    "buf_contents b = 0 # put32 (of_nat (length es)) @ concat es"
proof -
  let ?b = "dmp_buffer d" and ?n = "put32 (dmp_n_entries d)"
  have d: "buf_inv ?b" "data_offset ?b = 0" "buf_contents ?b = (0 # put32 0) @ concat es" "dmp_n_entries d = of_nat (length es)"
    using assms by (auto simp: dump_holds_def)
  have l: "1 + length ?n \<le> buf_length ?b" using length_buf_contents [OF d(1)] d(3) by simp
  have "1 + length ?n \<le> length (mem ?b)" using l d(1,2) by (simp add: buf_inv_def real_length_def)
  then have s: "store_buffer ?b 1 ?n = Ok (?b\<lparr>buf_top := Some (patch (data_offset ?b + 1) ?n (mem ?b))\<rparr>)" using d(2) by (simp add: store_buffer_def)
  have "patch 1 ?n ((0 # put32 0) @ concat es) = 0 # ?n @ concat es" by (simp add: patch_def)
  then show thesis using that [OF s] buf_contents_patch [OF d(1) l] d(3,4) by simp
qed

lemma dump_covered:
  assumes "pf_table s = Some t" and "pad1 m = 0" "pad2 m = 0" and "length field = 32"
  defines "rows \<equiv> listed (covered_filters m s)"
  shows "filter_handle_request True handle MESSENGER_DUMP_PACKETIN_FILTER_REQUEST (criteria_request m p field False) s =
    (if length rows \<le> 27
     then Ok (s\<lparr>pf_replies := pf_replies s @ [(handle, MESSENGER_DUMP_PACKETIN_FILTER_REPLY,
            0 # put32 (of_nat (length rows)) @ concat (map (\<lambda>(m, p, x). hton_filter_entry m p x) rows))]\<rparr>)
     else Fault Use_after_free)"
proof (rule new_dump_reply)
  fix b0 b1 b2
  let ?d = "\<lparr>dmp_buffer = b2, dmp_block = 0, dmp_n_entries = 0\<rparr>"
  let ?f = "foldl (\<lambda>r e. dump_filter_walker (me_match e) (me_priority e) (me_data e) r) (Ok ?d) (covered m t)"
  assume b: "alloc_buffer_with_length 2048 = Ok b0" "append_back_buffer b0 5 = Ok (b1, 0)" "store_buffer b1 0 (0 # put32 0) = Ok b2" "dump_holds [] ?d"
  note r = criteria_request_fields [OF assms(4,2,3), of p False]
  have h: "filter_handle_request True handle MESSENGER_DUMP_PACKETIN_FILTER_REQUEST (criteria_request m p field False) s =
      bnd ?f (\<lambda>d. if dmp_block d \<noteq> 0 then Fault Use_after_free
        else bnd (store_buffer (dmp_buffer d) 1 (put32 (dmp_n_entries d))) (\<lambda>buf.
          Ok (send_filter_reply True handle MESSENGER_DUMP_PACKETIN_FILTER_REPLY (buf_contents buf) s)))"
    unfolding filter_handle_request_def handle_dump_filter_request_def Let_def r b bnd.simps prod.case assms(1) map_match_table_eq if_False add_0 by simp
  have w: "if length rows \<le> 27 then \<exists>d'. ?f = Ok d' \<and> dump_holds (map (\<lambda>(m, p, x). hton_filter_entry m p x) rows) d' else dump_moved ?f"
    using dump_walk_ok [OF b(4), of "covered m t"] covered_filters_eq [OF assms(1), of m] by (simp add: rows_def split: if_splits)
  show ?thesis
  proof (cases "length rows \<le> 27")
    case True
    then obtain d' where d': "?f = Ok d'" "dump_holds (map (\<lambda>(m, p, x). hton_filter_entry m p x) rows) d'" using w by auto
    have "dmp_block d' = 0" using d'(2) by (simp add: dump_holds_def)
    then show ?thesis using True d'(1) unfolding h by (auto intro: finish_dump [OF d'(2)] simp: send_filter_reply_def)
  next
    case False
    then have "dump_moved ?f" using w by simp
    then show ?thesis using False unfolding h by (auto simp: dump_moved_def)
  qed
qed

definition read_row :: "ofp_match \<times> 16 word \<times> bytes \<Rightarrow> packetin_filter_entry" where
  "read_row = (\<lambda>(m, p, x). \<lparr>pfe_match = m\<lparr>pad1 := 0, pad2 := 0\<rparr>, pfe_priority = p, pfe_service_name = name_field x\<rparr>)"

lemma read_rows:
  "length pre = i \<Longrightarrow> ntoh_filter_entries (pre @ concat (map (\<lambda>(m, p, x). hton_filter_entry m p x) rows) @ post) i (length rows) = Ok (map read_row rows)"
proof (induction rows arbitrary: pre i)
  case (Cons row rows)
  obtain m p x where row: "row = (m, p, x)" by (cases row)
  let ?rest = "concat (map (\<lambda>(m, p, x). hton_filter_entry m p x) rows) @ post"
  have e: "ntoh_packetin_filter_entry (pre @ hton_match m @ put16 p @ name_field x @ ?rest) i = Ok (read_row row)"
    using Cons.prems ntoh_hton_match [OF Cons.prems, of m "put16 p @ name_field x @ ?rest"] rd_struct_at [of "name_field x" 32 "pre @ hton_match m @ put16 p" "i + 42" ?rest]
    by (simp add: ntoh_packetin_filter_entry_def read_row_def row be_get_put)
  have "length (pre @ hton_filter_entry m p x) = i + filter_entry_size" using Cons.prems by (simp add: hton_filter_entry_def filter_entry_size_def)
  from Cons.IH [OF this] e show ?case by (simp add: row hton_filter_entry_def)
qed simp

lemma dump_reply_read:
  assumes "length rows \<le> 27"
  shows "filter_handle_reply MESSENGER_DUMP_PACKETIN_FILTER_REPLY
      (0 # put32 (of_nat (length rows)) @ concat (map (\<lambda>(m, p, x). hton_filter_entry m p x) rows)) \<lparr>hd_callback = Some f, hd_user_data = user_data\<rparr> c =
    Ok (c\<lparr>fcl_calls := fcl_calls c @ [Filter_dumped f 0 (int (length rows)) (if rows = [] then None else Some (map read_row rows)) user_data]\<rparr>)"
proof -
  let ?n = "of_nat (length rows) :: 32 word" and ?es = "map (\<lambda>(m, p, x). hton_filter_entry m p x) rows"
  let ?m = "(0 # put32 ?n) @ concat ?es @ []"
  have n: "unat ?n = length rows" "sint ?n = int (length rows)" using assms by (simp_all add: unsigned_of_nat take_bit_nat_eq_self signed_of_nat signed_take_bit_int_eq_self)
  have "\<forall>e \<in> set ?es. length e = 74" by (auto simp: hton_filter_entry_def)
  then have l: "length ?m = 5 + filter_entry_size * unat ?n" using concat_length [of ?es 74] by (simp add: n filter_entry_size_def)
  have "rd8 ?m 0 = Ok 0" by (simp add: rd_def be_get_def)
  moreover have "rd32 ?m 1 = Ok ?n" using be_get_put [of 4 ?n] by (simp add: rd_def)
  moreover have "ntoh_filter_entries ?m 5 (length rows) = Ok (map read_row rows)" by (rule read_rows) simp
  ultimately have "filter_handle_reply MESSENGER_DUMP_PACKETIN_FILTER_REPLY ?m \<lparr>hd_callback = Some f, hd_user_data = user_data\<rparr> c =
    Ok (c\<lparr>fcl_calls := fcl_calls c @ [Filter_dumped f 0 (int (length rows)) (if rows = [] then None else Some (map read_row rows)) user_data]\<rparr>)"
    using l n(2) unfolding filter_handle_reply_def by (simp add: dump_completed_def Let_def)
  then show ?thesis by simp
qed

text \<open>
  C35.  Lists of filters come back complete, up to 27 of them.  A client that asks for the filters that a match
  covers is called back once with all of them, one row for every filter and service, in the order of
  the table, and the filters stay as they are.  With 28 rows or more the buffer of the reply has moved
  and the filter process writes to memory it has freed.
\<close>

theorem filters_listed_completely:
  assumes "filter_run s" and "pad1 m = 0" "pad2 m = 0"
  shows "\<exists>c1. dump_packetin_filter True pid m p None False (Some f) user_data c = Ok (True, c1) \<and>
    (length (listed (covered_filters m s)) \<le> 27 \<longrightarrow>
      (\<exists>c2 s'. filter_exchange handle c1 s = Ok (c2, s') \<and> filters s' = filters s \<and>
        fcl_calls c2 = fcl_calls c @ [Filter_dumped f 0 (int (length (listed (covered_filters m s))))
          (if listed (covered_filters m s) = [] then None else Some (map read_row (listed (covered_filters m s)))) user_data])) \<and>
    (27 < length (listed (covered_filters m s)) \<longrightarrow> filter_exchange handle c1 s = Fault Use_after_free)"
proof -
  obtain t where t: "pf_table s = Some t" using filter_run_inv [OF assms(1)] by (auto simp: filter_inv_def filter_table_def)
  let ?r = "criteria_request m p (replicate 32 0) False" and ?rows = "listed (covered_filters m s)"
  obtain c1 where c1: "dump_packetin_filter True pid m p None False (Some f) user_data c = Ok (True, c1)"
    "last (fcl_requests c1) = (PACKETIN_FILTER_MANAGEMENT_SERVICE, client_service_name (maybe_init_packetin_filter_interface pid c),
      MESSENGER_DUMP_PACKETIN_FILTER_REQUEST, ?r, \<lparr>hd_callback = Some f, hd_user_data = user_data\<rparr>)" "fcl_calls c1 = fcl_calls c"
    by (simp add: dump_packetin_filter_def string_field_def send_filter_request_def Let_def)
  note d = dump_covered [OF t assms(2,3), of "replicate 32 0" handle p]
  show ?thesis
  proof (cases "length ?rows \<le> 27")
    case True
    then show ?thesis using c1 d dump_reply_read [OF True, of f user_data c1] by (auto simp: filter_exchange_def)
  next
    case False
    then show ?thesis using c1 d by (auto simp: filter_exchange_def)
  qed
qed

theorem filters_listed_completely_witness:
  "\<exists>s c1 c2 s'. start_packetin_filter [] = Ok (True, s) \<and>
    dump_packetin_filter True 7 any_match 5 None False (Some 3) 9 idle_client = Ok (True, c1) \<and>
    filter_exchange sample_handle c1 s = Ok (c2, s') \<and> filters s' = filters s \<and> fcl_calls c2 = [Filter_dumped 3 0 0 None 9]"
proof -
  obtain s where s: "start_packetin_filter [] = Ok (True, s)" "filter_run s" "\<forall>m p. filters s m p = []" using start_without_rules by blast
  have "filter_list s = []"
  proof (rule ccontr)
    assume "filter_list s \<noteq> []"
    then obtain k q l where r: "(k, q, l) \<in> set (filter_list s)" by (cases "filter_list s") auto
    then have "\<exists>(m', p', l') \<in> set (filter_list s). same_flow m' p' k q \<and> l' = l"
      by (intro bexI [of _ "(k, q, l)"]) (auto simp: same_flow_def)
    then show False using filter_list_complete [OF filter_run_inv [OF s(2)], of k q l] s(3) by auto
  qed
  then have "listed (covered_filters any_match s) = []" by (simp add: covered_filters_def listed_def)
  moreover have "pad1 any_match = 0" "pad2 any_match = 0" by (simp_all add: any_match_def)
  ultimately show ?thesis using filters_listed_completely [OF s(2), of any_match 7 5 3 9 idle_client sample_handle] s(1) by (auto simp: idle_client_def)
qed

section \<open>Packets\<close>

text \<open>
  The services for a packet with the given match: those of a filter without wildcards for it, otherwise those of
  a filter that admits it and has the highest priority among those that do.
\<close>

definition goes_to :: "packetin_filter \<Rightarrow> ofp_match \<Rightarrow> bytes list \<Rightarrow> bool" where
  "goes_to s m services \<longleftrightarrow>
     (if filters s m 0 \<noteq> [] then services = filters s m 0
      else if \<exists>(k, q, l) \<in> set (filter_list s). \<not> exact_match k \<and> compare_match k m
      then \<exists>k q. (k, q, services) \<in> set (filter_list s) \<and> \<not> exact_match k \<and> compare_match k m \<and>
        (\<forall>(k', q', l) \<in> set (filter_list s). \<not> exact_match k' \<and> compare_match k' m \<longrightarrow> q' \<le> q)
      else services = [])"

lemma lookup_goes_to:
  assumes "filter_inv s" and "exact_match m"
  shows "\<exists>r. lookup_match_entry (pf_table s) m = Ok r \<and> goes_to s m (services_of r)"
proof -
  obtain t where t: "filter_table s t" using assms(1) by (auto simp: filter_inv_def)
  have inv: "table_inv t" "own_matches t" "pf_table s = Some t" using t by (auto simp: filter_table_def)
  obtain r where r: "lookup_match_entry (Some t) m = Ok (map_option me_data r)"
    "lookup_hash_entry (exact_table t) m \<noteq> None \<longrightarrow> r = lookup_hash_entry (exact_table t) m"
    "lookup_hash_entry (exact_table t) m = None \<longrightarrow>
       (case r of None \<Rightarrow> \<forall>e \<in> set (wildcards_table t). \<not> compare_match (me_match e) m
        | Some e \<Rightarrow> e \<in> set (wildcards_table t) \<and> compare_match (me_match e) m \<and>
            (\<forall>x \<in> set (wildcards_table t). compare_match (me_match x) m \<longrightarrow> me_priority x \<le> me_priority e))"
    by (rule exE [OF lookup_match_eq [OF inv(1), of m]]) (elim conjE, rule that)
  have f: "filters s m 0 = services_of (map_option me_data (lookup_hash_entry (exact_table t) m))"
    using filters_eq [OF t] assms(2) by (simp add: strict_entry_def)
  have w: "e \<in> set (wildcards_table t)" if "e \<in> set (flow_entries t)" "\<not> exact_match (me_match e)" for e
    using that exact_entry(3) [OF inv(1,2)] by (auto simp: flow_entries_def)
  have n: "e \<in> set (flow_entries t) \<and> \<not> exact_match (me_match e)" if "e \<in> set (wildcards_table t)" for e
    using that inv(2) by (simp add: flow_entries_def own_matches_def)
  have l: "filter_list s = map (\<lambda>e. (me_match e, me_priority e, me_data e)) (flow_entries t)" using inv(3) by (simp add: filter_list_def)
  show ?thesis
  proof (cases "lookup_hash_entry (exact_table t) m")
    case None
    then have e: "filters s m 0 = []" using f by simp
    show ?thesis
    proof (cases r)
      case None
      then have "\<not> compare_match (me_match x) m" if "x \<in> set (flow_entries t)" "\<not> exact_match (me_match x)" for x
        using r(3) \<open>lookup_hash_entry (exact_table t) m = None\<close> w [OF that] by simp
      then have "\<not> (\<exists>(k, q, l) \<in> set (filter_list s). \<not> exact_match k \<and> compare_match k m)" unfolding l by auto
      then show ?thesis using None r(1) inv(3) e by (intro exI [of _ None]) (simp add: goes_to_def)
    next
      case (Some x)
      then have x: "x \<in> set (wildcards_table t)" "compare_match (me_match x) m"
        "\<forall>y \<in> set (wildcards_table t). compare_match (me_match y) m \<longrightarrow> me_priority y \<le> me_priority x"
        using r(3) \<open>lookup_hash_entry (exact_table t) m = None\<close> by auto
      have row: "(me_match x, me_priority x, me_data x) \<in> set (filter_list s)" "\<not> exact_match (me_match x)" unfolding l using n [OF x(1)] by auto
      have best: "\<forall>(k', q', l) \<in> set (filter_list s). \<not> exact_match k' \<and> compare_match k' m \<longrightarrow> q' \<le> me_priority x"
        unfolding l using w x(3) by auto
      have "goes_to s m (me_data x)" unfolding goes_to_def using e row x(2) best
        by (auto intro!: exI [of _ "me_match x"] exI [of _ "me_priority x"] bexI [of _ "(me_match x, me_priority x, me_data x)"])
      then show ?thesis using Some r(1) inv(3) by (intro exI [of _ "Some (me_data x)"]) simp
    qed
  next
    case (Some e)
    have "services_of (strict_entry t m 0) \<noteq> []" using services_of_nil [OF t, of m 0] Some assms(2) by (simp add: strict_entry_def)
    then have "filters s m 0 \<noteq> []" using filters_eq [OF t] by simp
    then show ?thesis using r(1,2) inv(3) f Some by (auto simp: goes_to_def)
  qed
qed

lemma send_to_all: "pf_sent (send_to_services (\<lambda>_. True) services message s) = pf_sent s @ map (\<lambda>x. (x, MESSENGER_OPENFLOW_MESSAGE, message)) services"
  by (induction services arbitrary: s) auto

lemma service_header:
  assumes "m \<noteq> []"
  obtains b b' where "append_front_buffer (exact_buffer m) 10 = Ok b" "store_buffer b (data_offset b) (put64 datapath_id @ put16 0) = Ok b'"
    "buf_contents b' = from_switch datapath_id m"
proof -
  let ?h = "put64 datapath_id @ put16 0"
  have "buf_inv (exact_buffer m)" using assms by (simp add: exact_buffer_def buf_inv_def real_length_def mem_def)
  then obtain b c where b: "append_front_buffer (exact_buffer m) 10 = Ok b" "buf_inv b" "buf_contents b = replicate 10 c @ m"
    using append_front_contents [of "exact_buffer m" 10] by auto
  have len: "buf_length b = 10 + length m" using length_buf_contents [OF b(2)] b(3) by simp
  then have "data_offset b + length ?h \<le> length (mem b)" using b(2) by (simp add: buf_inv_def real_length_def)
  then have s: "store_buffer b (data_offset b) ?h = Ok (b\<lparr>buf_top := Some (patch (data_offset b + 0) ?h (mem b))\<rparr>)"
    by (simp add: store_buffer_def wr_def)
  have "buf_contents (b\<lparr>buf_top := Some (patch (data_offset b + 0) ?h (mem b))\<rparr>) = patch 0 ?h (buf_contents b)"
    using len by (intro buf_contents_patch [OF b(2)]) simp
  also have "\<dots> = from_switch datapath_id m" unfolding b(3) by (simp add: patch_def create_openflow_application_message_def numeral_eq_Suc)
  finally show thesis by (rule that [OF b(1) s])
qed

text \<open>
  C9.  Packets go to the services of the best filter.  In every state that the packet-in filter can reach, a
  packet in with a frame that parses, or with the frame inside its EtherIP header where there is one, is sent
  once to every service of the filter for its match, in order, and to no other; the filters stay as
  they are.  Each of these services is handed the packet as if it came from the switch: an
  application with a handler for packets in is called once with the arguments that the filter got.
\<close>

theorem packets_reach_filter_services:
  assumes "filter_run s" and "18 + length packet < 65536" and "port_ok port" and "reason \<le> OFPR_ACTION" and "packet \<noteq> []"
    and "parse_packet packet = Ok info"
    and "(if packet_type_ipv4_etherip (Some info) then filter_parse_etherip packet info else Ok None) = Ok inner"
  defines "m \<equiv> set_match_from_packet port 0 (case inner of Some i \<Rightarrow> i | None \<Rightarrow> info)"
  shows "\<exists>s' message services. filter_handle_packet_in (\<lambda>_. True) datapath_id xid buffer_id total_len port reason (Some (packet, info)) s = Ok s' \<and>
    filters s' = filters s \<and> goes_to s m services \<and> pf_sent s' = pf_sent s @ map (\<lambda>x. (x, MESSENGER_OPENFLOW_MESSAGE, message)) services \<and>
    (\<forall>a f. packet_in_callback (app_handlers a) = Some f \<longrightarrow>
      (\<exists>a'. handle_message fuel MESSENGER_OPENFLOW_MESSAGE message a = Ok a' \<and>
        upcalls a' = upcalls a @ [Call_packet_in (simple_packet_in_callback (app_handlers a)) f datapath_id xid buffer_id total_len port reason
          (Some (packet, info)) (packet_in_user_data (app_handlers a))]))"
proof -
  have "exact_match m" by (simp add: exact_match_def m_def set_match_l2)
  then obtain r where r: "lookup_match_entry (pf_table s) m = Ok r" "goes_to s m (services_of r)"
    using lookup_goes_to [OF filter_run_inv [OF assms(1)]] by blast
  let ?m = "header_bytes OFPT_PACKET_IN (18 + of_nat (length packet)) xid @ put32 buffer_id @ put16 total_len @ put16 port @ put8 reason @ [0] @ packet"
  have p: "create_packet_in xid buffer_id total_len port reason (Some packet) = Ok ?m"
    using create_packet_in_eq [of "Some packet" xid buffer_id total_len port reason] assms(2) by (simp add: opt_bytes_def)
  have a: "\<exists>a'. handle_message fuel MESSENGER_OPENFLOW_MESSAGE (from_switch datapath_id ?m) a = Ok a' \<and>
        upcalls a' = upcalls a @ [Call_packet_in (simple_packet_in_callback (app_handlers a)) f datapath_id xid buffer_id total_len port reason
          (Some (packet, info)) (packet_in_user_data (app_handlers a))]" if "packet_in_callback (app_handlers a) = Some f" for a f
    using packet_in_delivered [OF assms(2-6) that, of fuel datapath_id xid buffer_id total_len] by (auto simp: received_fields)
  have "?m \<noteq> []" by (simp add: header_bytes_def)
  then obtain b b' where b: "append_front_buffer (exact_buffer ?m) 10 = Ok b" "store_buffer b (data_offset b) (put64 datapath_id @ put16 0) = Ok b'"
    "buf_contents b' = from_switch datapath_id ?m" by (rule service_header)
  have h: "filter_handle_packet_in (\<lambda>_. True) datapath_id xid buffer_id total_len port reason (Some (packet, info)) s =
      Ok (if services_of r = [] then s else send_to_services (\<lambda>_. True) (services_of r) (from_switch datapath_id ?m) s)"
    unfolding filter_handle_packet_in_def option.case prod.case assms(7) bnd.simps Let_def m_def [symmetric] r(1) p b by simp
  have "filters (send_to_services acc l x s) = filters s" for acc l x by (simp add: filters_def fun_eq_iff)
  then show ?thesis using r(2) a send_to_all [of "services_of r" "from_switch datapath_id ?m" s] unfolding h
    by (intro exI [of _ "if services_of r = [] then s else send_to_services (\<lambda>_. True) (services_of r) (from_switch datapath_id ?m) s"]
        exI [of _ "from_switch datapath_id ?m"] exI [of _ "services_of r"]) auto
qed

lemma start_with_rule:
  assumes "0 \<notin> set name"
  shows "\<exists>s. start_packetin_filter [ANY_PACKET_IN @ name] = Ok (True, s) \<and> filter_run s \<and> filters s all_match 0 = [name]"
proof -
  obtain s0 where s0: "init_packetin_match_table \<lparr>pf_table = None, pf_new = 1, pf_sent = [], pf_replies = []\<rparr> = Ok s0"
    by (auto simp: init_packetin_match_table_def init_match_table_def die_unless_def)
  note i = init_filter_inv [OF s0]
  obtain s where s: "add_packetin_match_entry all_match 0 name s0 = Ok (True, s)" "filters s all_match 0 = [name]"
    using add_entry_ok [OF conjunct1 [OF i] assms, of all_match 0] i by (auto simp: same_flow_def)
  have "match_type LLDP_PACKET_IN (ANY_PACKET_IN @ name) = None" "match_type ANY_PACKET_IN (ANY_PACKET_IN @ name) = Some name"
    by (simp_all add: match_type_def LLDP_PACKET_IN_def ANY_PACKET_IN_def)
  then have r: "start_packetin_filter [ANY_PACKET_IN @ name] = Ok (True, s)"
    using s0 s(1) by (simp add: start_packetin_filter_def register_any_filter_def)
  have "0 \<notin> set (ANY_PACKET_IN @ name)" using assms by (simp add: ANY_PACKET_IN_def)
  then show ?thesis using r s(2) filter_run.start [OF r] by simp
qed

theorem packets_reach_filter_services_witness:
  "\<exists>s info s' message services. start_packetin_filter [ANY_PACKET_IN @ [97]] = Ok (True, s) \<and> parse_packet arp_frame = Ok info \<and>
    filter_handle_packet_in (\<lambda>_. True) 5 7 0xffffffff 64 1 0 (Some (arp_frame, info)) s = Ok s' \<and>
    goes_to s (set_match_from_packet 1 0 info) services \<and>
    pf_sent s' = pf_sent s @ map (\<lambda>x. (x, MESSENGER_OPENFLOW_MESSAGE, message)) services"
proof -
  obtain s where s: "start_packetin_filter [ANY_PACKET_IN @ [97]] = Ok (True, s)" "filter_run s" using start_with_rule [of "[97]"] by auto
  obtain info where i: "parse_packet arp_frame = Ok info" "format info = ETH_DIX OR NW_ARP"
    using parse_arp_frame [of "0x0b" "0x0a" 1 "0x800" 6 4 1 "0x0a" 1 0 2 "[]"] unfolding arp_frame_def by auto
  have l: "18 + length arp_frame < 65536" "arp_frame \<noteq> []" by (simp_all add: arp_frame_def eth_hdr_def arp_pkt_def)
  have p: "port_ok 1" "(0 :: 8 word) \<le> OFPR_ACTION" by (simp_all add: port_ok_def)
  have e: "(if packet_type_ipv4_etherip (Some info) then filter_parse_etherip arp_frame info else Ok None) = Ok None"
    using i(2) by (simp add: packet_type_ipv4_etherip_def if_packet_type_def get_packet_info_def)
  from packets_reach_filter_services [OF s(2) l(1) p l(2) i(1) e, of 5 7 "0xffffffff" 64 0] s(1) i(1)
  show ?thesis by auto
qed

end
