(* ===== verification/Event_Forward_Interface.thy ===== *)
theory Event_Forward_Interface
  imports Switch_Recv Timer
begin

text \<open>
  The client of the event forward entries (\<open>src/lib/event_forward_interface.c\<close>): requests to the switch
  manager and to switch daemons, and the transactions that edit the entries of all of them.

  The record \<open>efi\<close> is the static state of the file.  Objects that the code passes by pointer have
  addresses: the transactions, the parameters of a request to all switches, and the structures
  \<open>txinfo\<close> that a timer and a reply share.  A read of one that was freed is a fault.  The data of a reply are
  the memory from the pointer on, which is longer than the message, because the messenger delivers messages
  in a buffer that is larger; the length is the other argument.  The requests are recorded with the data that
  the messenger keeps for the reply, and so are the calls of callbacks of the user.  Whether the
  messenger accepts a request and what the clock reports are arguments.
\<close>

section \<open>State\<close>

datatype efi_operation_callback = Operation_callback nat | Get_switch_list_after_swm_succ | Switch_response_handler

datatype efi_list_callback = List_callback nat | Dispatch_to_all_switch

datatype efi_timer = Switch_response_timeout

text \<open>
  What the messenger keeps for a reply: a \<open>struct event_forward_operation_request_param\<close> or a
  \<open>struct sw_list_request_param\<close>.  The user data of callbacks of this file are addresses.
\<close>

datatype efi_request_param =
  Operation_param "efi_operation_callback option" nat
| List_param "efi_list_callback option" nat

record to_all_request_param =
  to_all_add :: bool
  to_all_type :: "8 word"
  to_all_service_name :: bytes
  to_all_callback :: "nat option"
  to_all_user_data :: nat

record all_sw_tx =
  tx_txid :: "32 word"
  waiting_dpid :: "(64 word, 64 word) hash_table"
  tx_result :: "8 word"
  tx_request_param :: nat

record txinfo =
  ti_dpid :: "64 word"
  ti_txid :: "32 word"

text \<open>The array of services is \<open>None\<close> for \<open>NULL\<close>; \<open>n_services\<close> is its length.\<close>

record event_forward_operation_result =
  efr_result :: "8 word"
  efr_services :: "bytes list option"

datatype efi_call =
  Operation_done nat event_forward_operation_result nat
| List_done nat "64 word list option" nat
| To_all_done nat "8 word" nat

record efi =
  efi_trema_name :: bytes
  efi_pid :: nat
  efi_queue_name :: "bytes option"
  efi_tx_table :: "(32 word, nat) hash_table option"
  efi_txid :: "32 word"
  efi_txs :: "nat \<rightharpoonup> all_sw_tx"
  efi_params :: "nat \<rightharpoonup> to_all_request_param"
  efi_infos :: "nat \<rightharpoonup> txinfo"
  efi_new :: nat
  efi_timers :: "(efi_timer, nat) timer_state"
  efi_replied_callbacks :: "bytes list"
  efi_requests_sent :: "(bytes \<times> bytes \<times> 16 word \<times> bytes \<times> efi_request_param) list"
  efi_calls :: "efi_call list"

text \<open>What the messenger and the clock answer in the passes of the loop over the switches.\<close>

record efi_env =
  env_accepts :: "nat \<Rightarrow> bool"
  env_clock :: "nat \<Rightarrow> timespec option"

definition deref :: "(nat \<rightharpoonup> 'a) \<Rightarrow> nat \<Rightarrow> 'a res" where
  "deref store p = (case store p of None \<Rightarrow> Fault Use_after_free | Some x \<Rightarrow> Ok x)"

definition with_tx_table :: "efi \<Rightarrow> ((32 word, nat) hash_table \<Rightarrow> 'a res) \<Rightarrow> 'a res" where
  "with_tx_table s k = (case efi_tx_table s of None \<Rightarrow> Fault Assertion | Some t \<Rightarrow> k t)"

definition xfree_event_forward_operation_to_all_request_param :: "nat \<Rightarrow> efi \<Rightarrow> efi res" where
  "xfree_event_forward_operation_to_all_request_param p s =
     bnd (deref (efi_params s) p) (\<lambda>_. Ok (s\<lparr>efi_params := (efi_params s)(p := None)\<rparr>))"

definition xfree_all_sw_tx :: "nat \<Rightarrow> efi \<Rightarrow> efi res" where
  "xfree_all_sw_tx a s =
     bnd (deref (efi_txs s) a) (\<lambda>tx.
     bnd (xfree_event_forward_operation_to_all_request_param (tx_request_param tx) s) (\<lambda>s.
     Ok (s\<lparr>efi_txs := (efi_txs s)(a := None)\<rparr>)))"

section \<open>Start and end\<close>

abbreviation MESSENGER_MANAGEMENT_REQUEST :: "16 word" where "MESSENGER_MANAGEMENT_REQUEST \<equiv> 0x0020"
abbreviation MESSENGER_MANAGEMENT_REPLY :: "16 word" where "MESSENGER_MANAGEMENT_REPLY \<equiv> 0x0021"
abbreviation MANAGEMENT_APPLICATION_REQUEST :: "16 word" where "MANAGEMENT_APPLICATION_REQUEST \<equiv> 6"
abbreviation EFI_GET_SWLIST :: "32 word" where "EFI_GET_SWLIST \<equiv> 7"

definition efi_name :: "bytes \<Rightarrow> nat \<Rightarrow> bytes" where
  "efi_name own_name pid =
     (let name = own_name @ map of_char ''-efic-'' @ decimal pid
      in if length name \<ge> 32 then take 31 (map of_char ''efic-'' @ decimal pid) else name)"

definition init_event_forward_interface :: "efi \<Rightarrow> bool \<times> efi" where
  "init_event_forward_interface s =
     (if efi_queue_name s \<noteq> None then (False, s)
      else
        let name = efi_name (efi_trema_name s) (efi_pid s)
        in (True, s\<lparr>efi_queue_name := Some name, efi_replied_callbacks := efi_replied_callbacks s @ [name],
                    efi_tx_table := Some (create_hash compare_uint32 hash_uint32)\<rparr>))"

definition maybe_init_event_forward_interface :: "efi \<Rightarrow> efi" where
  "maybe_init_event_forward_interface s =
     (if efi_queue_name s = None then snd (init_event_forward_interface s) else s)"

fun cleanup_loop :: "nat \<Rightarrow> (32 word, nat) hash_iterator \<Rightarrow> efi \<Rightarrow> efi res" where
  "cleanup_loop 0 it s = Fault No_return"
| "cleanup_loop (Suc fuel) it s =
     bnd (iterate_hash_next it) (\<lambda>(e, it).
       case e of None \<Rightarrow> Ok s
       | Some (txid, a) \<Rightarrow>
           bnd (deref (efi_txs s) a) (\<lambda>tx.
           with_tx_table s (\<lambda>t.
           bnd (xfree_all_sw_tx a (s\<lparr>efi_tx_table := Some (fst (delete_hash_entry t (tx_txid tx)))\<rparr>))
             (cleanup_loop fuel it))))"

definition cleanup_tx_table :: "nat \<Rightarrow> (32 word, nat) hash_iterator \<Rightarrow> efi \<Rightarrow> efi res" where
  "cleanup_tx_table fuel it s =
     with_tx_table s (\<lambda>t. bnd (init_hash_iterator t it) (\<lambda>it. cleanup_loop fuel it s))"

definition finalize_event_forward_interface :: "nat \<Rightarrow> (32 word, nat) hash_iterator \<Rightarrow> efi \<Rightarrow> (bool \<times> efi) res" where
  "finalize_event_forward_interface fuel it s =
     (case efi_queue_name s of
        None \<Rightarrow> Ok (False, s)
      | Some name \<Rightarrow>
          bnd (cleanup_tx_table fuel it
                (s\<lparr>efi_replied_callbacks := remove1 name (efi_replied_callbacks s), efi_queue_name := None\<rparr>)) (\<lambda>s.
          Ok (True, s\<lparr>efi_tx_table := None\<rparr>)))"

section \<open>Requests\<close>

definition send_efi_request ::
  "bool \<Rightarrow> bytes \<Rightarrow> bytes \<Rightarrow> efi_request_param \<Rightarrow> efi \<Rightarrow> bool \<times> efi" where
  "send_efi_request accepts service request param s =
     (accepts, if accepts
        then s\<lparr>efi_requests_sent := efi_requests_sent s @
               [(service, the (efi_queue_name s), MESSENGER_MANAGEMENT_REQUEST, request, param)]\<rparr>
        else s)"

definition management_application_request :: "32 word \<Rightarrow> bytes \<Rightarrow> bytes" where
  "management_application_request command data =
     put16 MANAGEMENT_APPLICATION_REQUEST @ put32 (of_nat (10 + length data)) @ put32 command @ data"

definition send_efi_event_config_request ::
  "bool \<Rightarrow> bytes option \<Rightarrow> 32 word \<Rightarrow> 8 word \<Rightarrow> bytes list \<Rightarrow> efi_operation_callback option \<Rightarrow> nat \<Rightarrow> efi \<Rightarrow> bool \<times> efi" where
  "send_efi_event_config_request accepts service_name command type services callback user_data s =
     (let s = maybe_init_event_forward_interface s in
      case service_name of
        None \<Rightarrow> (False, s)
      | Some service \<Rightarrow>
          if command \<notin> {EVENT_FORWARD_ENTRY_ADD, EVENT_FORWARD_ENTRY_DELETE, EVENT_FORWARD_ENTRY_DUMP, EVENT_FORWARD_ENTRY_SET}
          then (False, s)
          else send_efi_request accepts service
                 (management_application_request command (create_event_forward_operation_request [] type services))
                 (Operation_param callback user_data) s)"

definition manager_service :: bytes where
  "manager_service = SWITCH_MANAGER @ map of_char ''.m''"

definition switch_service :: "64 word \<Rightarrow> bytes" where
  "switch_service dpid = take 31 (switch_name dpid @ map of_char ''.m'')"

definition set_switch_manager_event_forward_entries ::
  "bool \<Rightarrow> 8 word \<Rightarrow> bytes list \<Rightarrow> efi_operation_callback option \<Rightarrow> nat \<Rightarrow> efi \<Rightarrow> bool \<times> efi" where
  "set_switch_manager_event_forward_entries accepts type services callback user_data =
     send_efi_event_config_request accepts (Some manager_service) EVENT_FORWARD_ENTRY_SET type services callback user_data"

definition add_switch_manager_event_forward_entry ::
  "bool \<Rightarrow> 8 word \<Rightarrow> bytes \<Rightarrow> efi_operation_callback option \<Rightarrow> nat \<Rightarrow> efi \<Rightarrow> bool \<times> efi" where
  "add_switch_manager_event_forward_entry accepts type service_name callback user_data =
     send_efi_event_config_request accepts (Some manager_service) EVENT_FORWARD_ENTRY_ADD type [service_name] callback user_data"

definition delete_switch_manager_event_forward_entry ::
  "bool \<Rightarrow> 8 word \<Rightarrow> bytes \<Rightarrow> efi_operation_callback option \<Rightarrow> nat \<Rightarrow> efi \<Rightarrow> bool \<times> efi" where
  "delete_switch_manager_event_forward_entry accepts type service_name callback user_data =
     send_efi_event_config_request accepts (Some manager_service) EVENT_FORWARD_ENTRY_DELETE type [service_name] callback user_data"

definition dump_switch_manager_event_forward_entries ::
  "bool \<Rightarrow> 8 word \<Rightarrow> efi_operation_callback option \<Rightarrow> nat \<Rightarrow> efi \<Rightarrow> bool \<times> efi" where
  "dump_switch_manager_event_forward_entries accepts type callback user_data =
     send_efi_event_config_request accepts (Some manager_service) EVENT_FORWARD_ENTRY_DUMP type [] callback user_data"

definition set_switch_event_forward_entries ::
  "bool \<Rightarrow> 64 word \<Rightarrow> 8 word \<Rightarrow> bytes list \<Rightarrow> efi_operation_callback option \<Rightarrow> nat \<Rightarrow> efi \<Rightarrow> bool \<times> efi" where
  "set_switch_event_forward_entries accepts dpid type services callback user_data =
     send_efi_event_config_request accepts (Some (switch_service dpid)) EVENT_FORWARD_ENTRY_SET type services callback user_data"

definition add_switch_event_forward_entry ::
  "bool \<Rightarrow> 64 word \<Rightarrow> 8 word \<Rightarrow> bytes \<Rightarrow> efi_operation_callback option \<Rightarrow> nat \<Rightarrow> efi \<Rightarrow> bool \<times> efi" where
  "add_switch_event_forward_entry accepts dpid type service_name callback user_data =
     send_efi_event_config_request accepts (Some (switch_service dpid)) EVENT_FORWARD_ENTRY_ADD type [service_name] callback user_data"

definition delete_switch_event_forward_entry ::
  "bool \<Rightarrow> 64 word \<Rightarrow> 8 word \<Rightarrow> bytes \<Rightarrow> efi_operation_callback option \<Rightarrow> nat \<Rightarrow> efi \<Rightarrow> bool \<times> efi" where
  "delete_switch_event_forward_entry accepts dpid type service_name callback user_data =
     send_efi_event_config_request accepts (Some (switch_service dpid)) EVENT_FORWARD_ENTRY_DELETE type [service_name] callback user_data"

definition dump_switch_event_forward_entries ::
  "bool \<Rightarrow> 64 word \<Rightarrow> 8 word \<Rightarrow> efi_operation_callback option \<Rightarrow> nat \<Rightarrow> efi \<Rightarrow> bool \<times> efi" where
  "dump_switch_event_forward_entries accepts dpid type callback user_data =
     send_efi_event_config_request accepts (Some (switch_service dpid)) EVENT_FORWARD_ENTRY_DUMP type [] callback user_data"

definition efi_switch_list_request :: "bool \<Rightarrow> efi_list_callback option \<Rightarrow> nat \<Rightarrow> efi \<Rightarrow> bool \<times> efi" where
  "efi_switch_list_request accepts callback user_data s =
     (let s = maybe_init_event_forward_interface s in
      if callback = None then (False, s)
      else send_efi_request accepts manager_service (management_application_request EFI_GET_SWLIST [])
             (List_param callback user_data) s)"

section \<open>Transactions\<close>

definition get_txid :: "efi \<Rightarrow> 32 word \<times> efi" where
  "get_txid s = (let txid = efi_txid s + 1 in (txid, s\<lparr>efi_txid := txid\<rparr>))"

definition hash_table_is_empty :: "('k, 'v) hash_iterator \<Rightarrow> ('k, 'v) hash_table \<Rightarrow> bool res" where
  "hash_table_is_empty it t =
     bnd (init_hash_iterator t it) (\<lambda>it. bnd (iterate_hash_next it) (\<lambda>(e, it). Ok (e = None)))"

definition to_all_completed :: "to_all_request_param \<Rightarrow> 8 word \<Rightarrow> efi \<Rightarrow> efi" where
  "to_all_completed param result s =
     (case to_all_callback param of
        None \<Rightarrow> s
      | Some f \<Rightarrow> s\<lparr>efi_calls := efi_calls s @ [To_all_done f result (to_all_user_data param)]\<rparr>)"

text \<open>The lines with which a transaction ends in three places: the callback, the table, the memory.\<close>

definition end_tx :: "nat \<Rightarrow> efi \<Rightarrow> efi res" where
  "end_tx a s =
     bnd (deref (efi_txs s) a) (\<lambda>tx.
     bnd (deref (efi_params s) (tx_request_param tx)) (\<lambda>param.
     let s = to_all_completed param (tx_result tx) s in
     with_tx_table s (\<lambda>t.
     xfree_all_sw_tx a (s\<lparr>efi_tx_table := Some (fst (delete_hash_entry t (tx_txid tx)))\<rparr>))))"

definition check_tx_result_and_respond :: "nat \<Rightarrow> efi \<Rightarrow> (bool \<times> efi) res" where
  "check_tx_result_and_respond a s =
     bnd (deref (efi_txs s) a) (\<lambda>tx.
     if tx_result tx = EFI_OPERATION_FAILED then bnd (end_tx a s) (\<lambda>s. Ok (True, s)) else Ok (False, s))"

definition unwait :: "nat \<Rightarrow> 64 word \<Rightarrow> bool \<Rightarrow> efi \<Rightarrow> efi res" where
  "unwait a dpid failed s =
     bnd (deref (efi_txs s) a) (\<lambda>tx.
     let tx = tx\<lparr>waiting_dpid := fst (delete_hash_entry (waiting_dpid tx) dpid),
                 tx_result := (if failed then EFI_OPERATION_FAILED else tx_result tx)\<rparr>
     in Ok (s\<lparr>efi_txs := (efi_txs s)(a \<mapsto> tx)\<rparr>))"

definition switch_response_timeout :: "nat \<Rightarrow> efi \<Rightarrow> efi res" where
  "switch_response_timeout i s =
     bnd (deref (efi_infos s) i) (\<lambda>info.
     with_tx_table s (\<lambda>t.
     case lookup_hash_entry t (ti_txid info) of
       None \<Rightarrow> Ok s
     | Some a \<Rightarrow>
         bnd (deref (efi_txs s) a) (\<lambda>tx.
         bnd (if lookup_hash_entry (waiting_dpid tx) (ti_dpid info) \<noteq> None then unwait a (ti_dpid info) True s else Ok s) (\<lambda>s.
         bnd (check_tx_result_and_respond a s) (\<lambda>(_, s). Ok s)))))"

definition switch_response_handler ::
  "(64 word, 64 word) hash_iterator \<Rightarrow> event_forward_operation_result \<Rightarrow> nat \<Rightarrow> efi \<Rightarrow> efi res" where
  "switch_response_handler it result i s =
     bnd (deref (efi_infos s) i) (\<lambda>info.
     let s = s\<lparr>efi_timers := snd (delete_timer_event Switch_response_timeout (Some i) (efi_timers s)),
               efi_infos := (efi_infos s)(i := None)\<rparr> in
     with_tx_table s (\<lambda>t.
     case lookup_hash_entry t (ti_txid info) of
       None \<Rightarrow> Ok s
     | Some a \<Rightarrow>
         bnd (deref (efi_txs s) a) (\<lambda>tx.
         if lookup_hash_entry (waiting_dpid tx) (ti_dpid info) = None then Ok s
         else
           bnd (unwait a (ti_dpid info) (efr_result result = EFI_OPERATION_FAILED) s) (\<lambda>s.
           bnd (check_tx_result_and_respond a s) (\<lambda>(tx_ended, s).
           if tx_ended then Ok s
           else
             bnd (deref (efi_txs s) a) (\<lambda>tx.
             bnd (hash_table_is_empty it (waiting_dpid tx)) (\<lambda>empty.
             if empty then end_tx a s else Ok s)))))))"

definition insert_tx :: "nat \<Rightarrow> nat \<Rightarrow> efi \<Rightarrow> (nat \<times> efi) res" where
  "insert_tx n_dpids p s =
     (let (txid, s) = get_txid s;
          a = efi_new s;
          tx = \<lparr>tx_txid = txid, waiting_dpid = create_hash_with_size compare_datapath_id hash_datapath_id (of_nat n_dpids),
                tx_result = EFI_OPERATION_SUCCEEDED, tx_request_param = p\<rparr>
      in with_tx_table s (\<lambda>t.
         case insert_hash_entry t txid a of (t, dupe_tx) \<Rightarrow>
         assert_then (dupe_tx = None)
           (Ok (a, s\<lparr>efi_new := a + 1, efi_txs := (efi_txs s)(a \<mapsto> tx), efi_tx_table := Some t\<rparr>))))"

definition dispatch_switch :: "bool \<Rightarrow> timespec option \<Rightarrow> nat \<Rightarrow> nat \<Rightarrow> 64 word \<Rightarrow> efi \<Rightarrow> efi res" where
  "dispatch_switch accepts clock a p dpid s =
     bnd (deref (efi_txs s) a) (\<lambda>tx.
     case insert_hash_entry (waiting_dpid tx) dpid dpid of (waiting, dupe_dpid) \<Rightarrow>
     let s = s\<lparr>efi_txs := (efi_txs s)(a \<mapsto> tx\<lparr>waiting_dpid := waiting\<rparr>)\<rparr> in
     if dupe_dpid \<noteq> None then Ok s
     else
       bnd (deref (efi_params s) p) (\<lambda>param.
       let i = efi_new s;
           s = s\<lparr>efi_new := i + 1, efi_infos := (efi_infos s)(i \<mapsto> \<lparr>ti_dpid = dpid, ti_txid = tx_txid tx\<rparr>)\<rparr>;
           (send_ok, s) =
             (if to_all_add param
              then add_switch_event_forward_entry accepts dpid (to_all_type param) (to_all_service_name param) (Some Switch_response_handler) i s
              else delete_switch_event_forward_entry accepts dpid (to_all_type param) (to_all_service_name param) (Some Switch_response_handler) i s)
       in if \<not> send_ok then unwait a dpid True (s\<lparr>efi_infos := (efi_infos s)(i := None)\<rparr>)
          else
            bnd (add_timer_event_callback clock zero_time \<lparr>tv_sec = 5, tv_nsec = 0\<rparr> Switch_response_timeout (Some i) (efi_timers s)) (\<lambda>(set_ok, timers).
            let s = s\<lparr>efi_timers := timers\<rparr> in
            if \<not> set_ok then unwait a dpid True s else Ok s)))"

fun dispatch_switches :: "efi_env \<Rightarrow> nat \<Rightarrow> nat \<Rightarrow> nat \<Rightarrow> 64 word list \<Rightarrow> efi \<Rightarrow> efi res" where
  "dispatch_switches ev n a p [] s = Ok s"
| "dispatch_switches ev n a p (dpid # dpids) s =
     bnd (dispatch_switch (env_accepts ev n) (env_clock ev n) a p dpid s) (dispatch_switches ev (Suc n) a p dpids)"

definition dispatch_to_all_switch :: "efi_env \<Rightarrow> 64 word list option \<Rightarrow> nat \<Rightarrow> efi \<Rightarrow> efi res" where
  "dispatch_to_all_switch ev dpids p s =
     (let dpids = (case dpids of None \<Rightarrow> [] | Some ds \<Rightarrow> ds) in
      bnd (insert_tx (length dpids) p s) (\<lambda>(a, s).
      bnd (dispatch_switches ev 0 a p dpids s) (\<lambda>s.
      bnd (deref (efi_txs s) a) (\<lambda>tx.
      if dpids = [] \<or> tx_result tx = EFI_OPERATION_FAILED then end_tx a s else Ok s))))"

definition get_switch_list_after_swm_succ :: "bool \<Rightarrow> event_forward_operation_result \<Rightarrow> nat \<Rightarrow> efi \<Rightarrow> efi res" where
  "get_switch_list_after_swm_succ accepts result p s =
     (let (success, s) =
            (if efr_result result = EFI_OPERATION_SUCCEEDED
             then efi_switch_list_request accepts (Some Dispatch_to_all_switch) p s else (False, s))
      in if \<not> success
         then bnd (deref (efi_params s) p) (\<lambda>param.
              xfree_event_forward_operation_to_all_request_param p (to_all_completed param EFI_OPERATION_FAILED s))
         else Ok s)"

definition new_to_all_param :: "to_all_request_param \<Rightarrow> efi \<Rightarrow> nat \<times> efi" where
  "new_to_all_param param s =
     (efi_new s, s\<lparr>efi_new := efi_new s + 1, efi_params := (efi_params s)(efi_new s \<mapsto> param)\<rparr>)"

definition add_event_forward_entry_to_all_switches ::
  "bool \<Rightarrow> 8 word \<Rightarrow> bytes \<Rightarrow> nat option \<Rightarrow> nat \<Rightarrow> efi \<Rightarrow> (bool \<times> efi) res" where
  "add_event_forward_entry_to_all_switches accepts type service_name callback user_data s =
     (let (p, s) = new_to_all_param \<lparr>to_all_add = True, to_all_type = type, to_all_service_name = service_name,
                     to_all_callback = callback, to_all_user_data = user_data\<rparr> s;
          (sent_ok, s) = add_switch_manager_event_forward_entry accepts type service_name (Some Get_switch_list_after_swm_succ) p s
      in bnd (if \<not> sent_ok then xfree_event_forward_operation_to_all_request_param p s else Ok s) (\<lambda>s. Ok (sent_ok, s)))"

definition delete_event_forward_entry_to_all_switches ::
  "bool \<Rightarrow> 8 word \<Rightarrow> bytes \<Rightarrow> nat option \<Rightarrow> nat \<Rightarrow> efi \<Rightarrow> (bool \<times> efi) res" where
  "delete_event_forward_entry_to_all_switches accepts type service_name callback user_data s =
     (let (p, s) = new_to_all_param \<lparr>to_all_add = False, to_all_type = type, to_all_service_name = service_name,
                     to_all_callback = callback, to_all_user_data = user_data\<rparr> s;
          (sent_ok, s) = delete_switch_manager_event_forward_entry accepts type service_name (Some Get_switch_list_after_swm_succ) p s
      in bnd (if \<not> sent_ok then xfree_event_forward_operation_to_all_request_param p s else Ok s) (\<lambda>s. Ok (sent_ok, s)))"

section \<open>Replies\<close>

text \<open>
  The names from \<open>service_list\<close> on, of which at most the expected number is kept; empty names are
  skipped.  The byte behind the last one is overwritten with a null character.
\<close>

function read_names :: "nat \<Rightarrow> bytes \<Rightarrow> bytes list" where
  "read_names expected rest =
     (if rest = [] then []
      else let name = cstring rest; next = drop (length name + 1) rest
           in if length name > 0 \<and> expected > 0 then name # read_names (expected - 1) next
              else read_names expected next)"
  by pat_completeness auto
termination by (relation "measure (\<lambda>(_, rest). length rest)") auto

declare read_names.simps [simp del]

abbreviation operation_failed :: event_forward_operation_result where
  "operation_failed \<equiv> \<lparr>efr_result = EFI_OPERATION_FAILED, efr_services = None\<rparr>"

definition operation_result :: "bytes \<Rightarrow> nat \<Rightarrow> event_forward_operation_result res" where
  "operation_result bs n =
     bnd (rd32 bs 16) (\<lambda>n_services.
     bnd (rd8 bs 2) (\<lambda>status.
     if status = MANAGEMENT_REQUEST_FAILED then Ok operation_failed
     else
       bnd (rd8 bs 13) (\<lambda>result.
       if result \<noteq> EFI_OPERATION_SUCCEEDED then Ok operation_failed
       else if n < 20 \<or> length bs \<le> n then Fault Out_of_bounds
       else Ok \<lparr>efr_result = EFI_OPERATION_SUCCEEDED,
                efr_services = Some (read_names (unat n_services) (take (n - 20) (drop 20 bs)))\<rparr>)))"

definition operation_completed ::
  "(64 word, 64 word) hash_iterator \<Rightarrow> bool \<Rightarrow> event_forward_operation_result \<Rightarrow> efi_operation_callback option \<Rightarrow> nat \<Rightarrow> efi \<Rightarrow> efi res" where
  "operation_completed it accepts result callback user_data s =
     (case callback of
        None \<Rightarrow> Ok s
      | Some (Operation_callback f) \<Rightarrow> Ok (s\<lparr>efi_calls := efi_calls s @ [Operation_done f result user_data]\<rparr>)
      | Some Get_switch_list_after_swm_succ \<Rightarrow> get_switch_list_after_swm_succ accepts result user_data s
      | Some Switch_response_handler \<Rightarrow> switch_response_handler it result user_data s)"

definition handle_event_forward_operation_reply ::
  "(64 word, 64 word) hash_iterator \<Rightarrow> bool \<Rightarrow> bytes \<Rightarrow> nat \<Rightarrow> efi_operation_callback option \<Rightarrow> nat \<Rightarrow> efi \<Rightarrow> efi res" where
  "handle_event_forward_operation_reply it accepts bs n callback user_data s =
     bnd (operation_result bs n) (\<lambda>result. operation_completed it accepts result callback user_data s)"

fun read_dpids :: "bytes \<Rightarrow> nat \<Rightarrow> nat \<Rightarrow> 64 word list res" where
  "read_dpids bs i 0 = Ok []"
| "read_dpids bs i (Suc n) = bnd (rd64 bs i) (\<lambda>dpid. bnd (read_dpids bs (i + 8) n) (\<lambda>dpids. Ok (dpid # dpids)))"

definition switch_list :: "bytes \<Rightarrow> nat \<Rightarrow> 64 word list option res" where
  "switch_list bs n =
     bnd (rd8 bs 2) (\<lambda>status.
     if status = MANAGEMENT_REQUEST_FAILED then Ok None
     else bnd (read_dpids bs 12 ((n - 12) div 8)) (\<lambda>dpids. Ok (Some dpids)))"

definition list_completed :: "efi_env \<Rightarrow> 64 word list option \<Rightarrow> efi_list_callback option \<Rightarrow> nat \<Rightarrow> efi \<Rightarrow> efi res" where
  "list_completed ev dpids callback user_data s =
     (case callback of
        None \<Rightarrow> Ok s
      | Some (List_callback f) \<Rightarrow> Ok (s\<lparr>efi_calls := efi_calls s @ [List_done f dpids user_data]\<rparr>)
      | Some Dispatch_to_all_switch \<Rightarrow> dispatch_to_all_switch ev dpids user_data s)"

definition handle_get_switch_list_reply :: "efi_env \<Rightarrow> bytes \<Rightarrow> nat \<Rightarrow> efi_list_callback option \<Rightarrow> nat \<Rightarrow> efi \<Rightarrow> efi res" where
  "handle_get_switch_list_reply ev bs n callback user_data s =
     bnd (switch_list bs n) (\<lambda>dpids. list_completed ev dpids callback user_data s)"

text \<open>The command of a reply is the one of the request in all replies of trema; another would be a call through
  a pointer to a function of another type.\<close>

definition handle_efi_reply ::
  "(64 word, 64 word) hash_iterator \<Rightarrow> efi_env \<Rightarrow> 16 word \<Rightarrow> bytes option \<Rightarrow> nat \<Rightarrow> efi_request_param \<Rightarrow> efi \<Rightarrow> efi res" where
  "handle_efi_reply it ev tag data n param s =
     (if tag \<noteq> MESSENGER_MANAGEMENT_REPLY then Ok s
      else case data of
        None \<Rightarrow> Ok s
      | Some bs \<Rightarrow>
          if n < 12 then Ok s
          else
            bnd (rd16 bs 0) (\<lambda>type.
            if type \<noteq> MANAGEMENT_APPLICATION_REPLY then Ok s
            else
              bnd (rd32 bs 8) (\<lambda>command.
              if command \<in> {EVENT_FORWARD_ENTRY_ADD, EVENT_FORWARD_ENTRY_DELETE, EVENT_FORWARD_ENTRY_DUMP, EVENT_FORWARD_ENTRY_SET}
              then case param of
                     Operation_param callback user_data \<Rightarrow>
                       handle_event_forward_operation_reply it (env_accepts ev 0) bs n callback user_data s
                   | List_param _ _ \<Rightarrow> Fault Bad_call
              else if command = EFI_GET_SWLIST
              then case param of
                     List_param callback user_data \<Rightarrow> handle_get_switch_list_reply ev bs n callback user_data s
                   | Operation_param _ _ \<Rightarrow> Fault Bad_call
              else Ok s)))"

end
