(* ===== verification/Event_Forward_Transactions.thy ===== *)
theory Event_Forward_Transactions
  imports Event_Forward_Interface
begin

text \<open>
  The transactions of \<open>src/lib/event_forward_interface.c\<close> that edit the entries of all switches: what
  can happen to a process that uses the interface, with a history, and the invariant that connects the
  state with the history.  Every request to all switches that has not been answered belongs to a request to
  the switch manager or to a transaction, and every switch a transaction waits for has a timer.
\<close>

section \<open>History\<close>

datatype efi_event =
  Requested nat nat nat
| Dispatched "32 word" nat "64 word list option"
| Answered "32 word" "64 word"
| Lost nat

fun to_all_address :: "efi_request_param \<Rightarrow> nat list" where
  "to_all_address (Operation_param (Some Get_switch_list_after_swm_succ) p) = [p]"
| "to_all_address (List_param (Some Dispatch_to_all_switch) p) = [p]"
| "to_all_address _ = []"

fun info_address :: "efi_request_param \<Rightarrow> nat list" where
  "info_address (Operation_param (Some Switch_response_handler) i) = [i]"
| "info_address _ = []"

definition sent_params :: "efi \<Rightarrow> efi_request_param list" where
  "sent_params s = map (\<lambda>(_, _, _, _, param). param) (efi_requests_sent s)"

definition pending_params :: "efi \<Rightarrow> nat list" where
  "pending_params s = concat (map to_all_address (sent_params s))"

definition pending_infos :: "efi \<Rightarrow> nat list" where
  "pending_infos s = concat (map info_address (sent_params s))"

text \<open>The data of the timers that have a function.\<close>

definition timer_info :: "(efi_timer, nat) timer_callback_info \<Rightarrow> nat list" where
  "timer_info cb = (if tm_function cb = None then [] else case tm_user_data cb of None \<Rightarrow> [] | Some i \<Rightarrow> [i])"

definition timed_infos :: "efi \<Rightarrow> nat list" where
  "timed_infos s = (case timer_callbacks (efi_timers s) of None \<Rightarrow> [] | Some cbs \<Rightarrow> concat (map timer_info cbs))"

definition is_requested :: "nat \<Rightarrow> nat \<Rightarrow> efi_event \<Rightarrow> bool" where
  "is_requested f u e \<longleftrightarrow> (\<exists>p. e = Requested p f u)"

definition is_answer :: "nat \<Rightarrow> nat \<Rightarrow> efi_call \<Rightarrow> bool" where
  "is_answer f u c \<longleftrightarrow> (\<exists>r. c = To_all_done f r u)"

definition outstanding :: "nat \<Rightarrow> nat \<Rightarrow> efi \<Rightarrow> nat set" where
  "outstanding f u s = {p. \<exists>param. efi_params s p = Some param \<and> to_all_callback param = Some f \<and> to_all_user_data param = u}"

section \<open>The invariant\<close>

definition table_ok :: "efi \<Rightarrow> bool" where
  "table_ok s \<longleftrightarrow> (\<exists>t. efi_tx_table s = Some t \<and> hash_inv compare_uint32 hash_uint32 (\<lambda>_. True) t \<and>
     (\<forall>x a. lookup_hash_entry t x = Some a \<longleftrightarrow> (\<exists>tx. efi_txs s a = Some tx \<and> tx_txid tx = x)))"

definition params_ok :: "efi \<Rightarrow> bool" where
  "params_ok s \<longleftrightarrow> distinct (pending_params s) \<and> set (pending_params s) \<subseteq> dom (efi_params s) \<and>
     (\<forall>a tx. efi_txs s a = Some tx \<longrightarrow> tx_request_param tx \<in> dom (efi_params s) - set (pending_params s)) \<and>
     (\<forall>a b tx tx'. efi_txs s a = Some tx \<longrightarrow> efi_txs s b = Some tx' \<longrightarrow> tx_request_param tx = tx_request_param tx' \<longrightarrow> a = b)"

definition infos_ok :: "efi \<Rightarrow> bool" where
  "infos_ok s \<longleftrightarrow> distinct (pending_infos s) \<and> set (pending_infos s) \<subseteq> dom (efi_infos s) \<and>
     timer_callbacks (efi_timers s) \<noteq> None \<and> distinct (timed_infos s) \<and> set (timed_infos s) \<subseteq> dom (efi_infos s)"

definition fresh_ok :: "efi \<Rightarrow> bool" where
  "fresh_ok s \<longleftrightarrow> dom (efi_txs s) \<union> dom (efi_params s) \<union> dom (efi_infos s) \<subseteq> {..<efi_new s} \<and>
     (\<forall>a tx. efi_txs s a = Some tx \<longrightarrow> tx_txid tx \<le> efi_txid s) \<and> efi_queue_name s \<noteq> None"

definition timed_ok :: "efi \<Rightarrow> bool" where
  "timed_ok s \<longleftrightarrow> (\<forall>a tx d. efi_txs s a = Some tx \<longrightarrow> lookup_hash_entry (waiting_dpid tx) d \<noteq> None \<longrightarrow>
     (\<exists>i \<in> set (timed_infos s). efi_infos s i = Some \<lparr>ti_dpid = d, ti_txid = tx_txid tx\<rparr>))"

definition listed :: "efi_event list \<Rightarrow> 32 word \<Rightarrow> nat \<Rightarrow> (64 word \<Rightarrow> bool) \<Rightarrow> bool" where
  "listed h x p waits \<longleftrightarrow> (\<exists>dpids. Dispatched x p dpids \<in> set h \<and>
     (\<forall>ds. dpids = Some ds \<longrightarrow> (\<forall>d \<in> set ds. waits d \<or> Answered x d \<in> set h)))"

abbreviation waits :: "all_sw_tx \<Rightarrow> 64 word \<Rightarrow> bool" where
  "waits tx d \<equiv> lookup_hash_entry (waiting_dpid tx) d \<noteq> None"

definition tx_ok :: "efi_event list \<Rightarrow> all_sw_tx \<Rightarrow> bool" where
  "tx_ok h tx \<longleftrightarrow> hash_inv compare_datapath_id hash_datapath_id (\<lambda>_. True) (waiting_dpid tx) \<and>
     tx_result tx = EFI_OPERATION_SUCCEEDED \<and> (\<exists>d. waits tx d) \<and> listed h (tx_txid tx) (tx_request_param tx) (waits tx)"

definition txs_ok :: "nat set \<Rightarrow> efi \<Rightarrow> efi_event list \<Rightarrow> bool" where
  "txs_ok open s h \<longleftrightarrow> (\<forall>a tx. efi_txs s a = Some tx \<longrightarrow> a \<notin> open \<longrightarrow> tx_ok h tx)"

definition answers_ok :: "efi \<Rightarrow> efi_event list \<Rightarrow> bool" where
  "answers_ok s h \<longleftrightarrow>
     (\<forall>p param f. efi_params s p = Some param \<longrightarrow> to_all_callback param = Some f \<longrightarrow> Requested p f (to_all_user_data param) \<in> set h) \<and>
     (\<forall>f u. To_all_done f EFI_OPERATION_SUCCEEDED u \<in> set (efi_calls s) \<longrightarrow>
        (\<exists>p x. Requested p f u \<in> set h \<and> listed h x p (\<lambda>_. False)))"

definition counts_ok :: "efi \<Rightarrow> efi_event list \<Rightarrow> bool" where
  "counts_ok s h \<longleftrightarrow> (\<forall>f u. length (filter (is_requested f u) h) =
     length (filter (is_answer f u) (efi_calls s)) + card (outstanding f u s))"

definition owners_ok :: "nat set \<Rightarrow> efi \<Rightarrow> efi_event list \<Rightarrow> bool" where
  "owners_ok held s h \<longleftrightarrow> (\<forall>p \<in> dom (efi_params s) - held. p \<in> set (pending_params s) \<or> Lost p \<in> set h \<or>
     (\<exists>a tx. efi_txs s a = Some tx \<and> tx_request_param tx = p))"

text \<open>The transactions in \<open>open\<close> and the parameters in \<open>held\<close> are the ones a function is working on.\<close>

definition efi_inv :: "nat set \<Rightarrow> nat set \<Rightarrow> efi \<Rightarrow> efi_event list \<Rightarrow> bool" where
  "efi_inv open held s h \<longleftrightarrow> table_ok s \<and> params_ok s \<and> infos_ok s \<and> fresh_ok s \<and> timed_ok s \<and> txs_ok open s h \<and>
     answers_ok s h \<and> counts_ok s h \<and> owners_ok held s h"

lemma listed_mono: "listed h x p w \<Longrightarrow> set h \<subseteq> set h' \<Longrightarrow> (\<And>d. w d \<Longrightarrow> w' d \<or> Answered x d \<in> set h') \<Longrightarrow> listed h' x p w'"
  unfolding listed_def by blast

lemma efi_inv_queue: "efi_inv A L s h \<Longrightarrow> \<exists>name. efi_queue_name s = Some name"
  by (auto simp: efi_inv_def fresh_ok_def)

lemma finite_outstanding: "fresh_ok s \<Longrightarrow> finite (outstanding f u s)"
  by (rule finite_subset [of _ "{..<efi_new s}"]) (auto simp: fresh_ok_def outstanding_def)

text \<open>More events that are not requests keep the invariant.\<close>

lemma efi_inv_events:
  assumes "efi_inv A L s h" and "\<forall>e \<in> set es. \<forall>f u. \<not> is_requested f u e"
  shows "efi_inv A L s (h @ es)"
proof -
  have more: "listed (h @ es) x p w" if "listed h x p w" for x p w
    using that by (rule listed_mono) auto
  then have "tx_ok (h @ es) tx" if "tx_ok h tx" for tx
    using that by (simp add: tx_ok_def)
  moreover have "counts_ok s (h @ es)"
    using assms by (simp add: efi_inv_def counts_ok_def filter_empty_conv)
  moreover have "txs_ok A s (h @ es)" using assms(1) calculation(1) by (simp add: efi_inv_def txs_ok_def)
  moreover have "answers_ok s (h @ es)"
    using assms(1) more unfolding efi_inv_def answers_ok_def set_append by blast
  moreover have "owners_ok L s (h @ es)" using assms(1) unfolding efi_inv_def owners_ok_def by auto
  ultimately show ?thesis using assms(1) by (simp add: efi_inv_def)
qed

section \<open>The end of a transaction\<close>

lemma counts_completed:
  assumes "efi_params s p = Some param" and "finite (outstanding f u s)"
  shows "length (filter (is_answer f u) (efi_calls (to_all_completed param r s))) +
       card (outstanding f u ((to_all_completed param r s)\<lparr>efi_params := (efi_params s)(p := None)\<rparr>)) =
     length (filter (is_answer f u) (efi_calls s)) + card (outstanding f u s)"
proof -
  let ?s = "(to_all_completed param r s)\<lparr>efi_params := (efi_params s)(p := None)\<rparr>"
  have rest: "outstanding f u ?s = outstanding f u s - {p}" by (auto simp: outstanding_def)
  show ?thesis
  proof (cases "p \<in> outstanding f u s")
    case True
    then have "to_all_callback param = Some f" "to_all_user_data param = u" using assms(1) by (auto simp: outstanding_def)
    moreover have "Suc (card (outstanding f u s - {p})) = card (outstanding f u s)"
      using True assms(2) by (metis card_Suc_Diff1)
    ultimately show ?thesis unfolding rest by (simp add: to_all_completed_def is_answer_def)
  next
    case False
    then have "\<not> (to_all_callback param = Some f \<and> to_all_user_data param = u)" using assms(1) by (auto simp: outstanding_def)
    with False show ?thesis unfolding rest by (auto simp: to_all_completed_def is_answer_def split: option.split)
  qed
qed

lemma completed_fields [simp]:
  "efi_txs (to_all_completed param r s) = efi_txs s" "efi_params (to_all_completed param r s) = efi_params s"
  "efi_infos (to_all_completed param r s) = efi_infos s" "efi_tx_table (to_all_completed param r s) = efi_tx_table s"
  "efi_new (to_all_completed param r s) = efi_new s" "efi_txid (to_all_completed param r s) = efi_txid s"
  "efi_timers (to_all_completed param r s) = efi_timers s" "efi_queue_name (to_all_completed param r s) = efi_queue_name s"
  "efi_requests_sent (to_all_completed param r s) = efi_requests_sent s"
  by (simp_all add: to_all_completed_def split: option.split)

lemma pending_cong:
  "efi_requests_sent s' = efi_requests_sent s \<Longrightarrow> pending_params s' = pending_params s \<and> pending_infos s' = pending_infos s"
  by (simp add: pending_params_def pending_infos_def sent_params_def)

lemma answers_completed:
  assumes "answers_ok s h" and "efi_params s p = Some param"
    and "r = EFI_OPERATION_SUCCEEDED \<Longrightarrow> \<exists>x. listed h x p (\<lambda>_. False)"
  shows "answers_ok ((to_all_completed param r s)\<lparr>efi_params := (efi_params s)(p := None)\<rparr>) h"
  using assms by (fastforce simp: answers_ok_def to_all_completed_def split: option.splits if_splits)

lemma table_removed:
  assumes "table_ok s" and tx: "efi_txs s a = Some tx" and "efi_tx_table s = Some t"
    and s': "efi_tx_table s' = Some (fst (delete_hash_entry t (tx_txid tx)))" "efi_txs s' = (efi_txs s)(a := None)"
  shows "table_ok s'"
proof -
  have t: "hash_inv compare_uint32 hash_uint32 (\<lambda>_. True) t"
    "\<And>x b. lookup_hash_entry t x = Some b \<longleftrightarrow> (\<exists>tx. efi_txs s b = Some tx \<and> tx_txid tx = x)"
    using assms(1,3) unfolding table_ok_def by auto
  define t' where "t' = fst (delete_hash_entry t (tx_txid tx))"
  have del: "lookup_hash_entry t' x = (if x = tx_txid tx then None else lookup_hash_entry t x)" for x
    using uint32_keys.lookup_delete [OF t(1), of "tx_txid tx" x] by (simp add: t'_def compare_uint32_def)
  have same: "b = a" if "efi_txs s b = Some tx'" "tx_txid tx' = tx_txid tx" for b tx'
    using t(2) [of "tx_txid tx" a] t(2) [of "tx_txid tx" b] tx that by auto
  have "lookup_hash_entry t' x = Some b \<longleftrightarrow> (\<exists>tx'. efi_txs s' b = Some tx' \<and> tx_txid tx' = x)" for x b
  proof (cases "b = a")
    case True
    then show ?thesis using del [of x] t(2) [of x a] tx by (auto simp: s'(2) split: if_splits)
  next
    case False
    then have "efi_txs s' b = efi_txs s b" by (simp add: s'(2))
    then show ?thesis using del [of x] t(2) [of x b] same [of b] False by (cases "x = tx_txid tx") auto
  qed
  then show ?thesis using uint32_keys.delete_tbl [OF t(1)] s'(1) by (simp add: table_ok_def t'_def)
qed

lemma params_removed:
  assumes "params_ok s" and tx: "efi_txs s a = Some tx" and "owners_ok held s h"
    and s': "efi_txs s' = (efi_txs s)(a := None)" "efi_params s' = (efi_params s)(tx_request_param tx := None)"
    "pending_params s' = pending_params s"
  shows "params_ok s'" and "owners_ok held s' h"
proof -
  have "tx_request_param tx \<notin> set (pending_params s)" using assms(1) tx by (auto simp: params_ok_def)
  moreover have "tx_request_param tx' \<noteq> tx_request_param tx" if "efi_txs s b = Some tx'" "b \<noteq> a" for b tx'
    using assms(1) tx that unfolding params_ok_def by blast
  ultimately show "params_ok s'" using assms(1) s' unfolding params_ok_def by auto
  show "owners_ok held s' h"
    unfolding owners_ok_def
  proof
    fix q assume "q \<in> dom (efi_params s') - held"
    then have q: "q \<in> dom (efi_params s) - held" "q \<noteq> tx_request_param tx" by (auto simp: s' split: if_splits)
    have "efi_txs s' b = Some tx'" if "efi_txs s b = Some tx'" "tx_request_param tx' = q" for b tx'
      using that q(2) tx by (auto simp: s')
    then show "q \<in> set (pending_params s') \<or> Lost q \<in> set h \<or> (\<exists>b tx'. efi_txs s' b = Some tx' \<and> tx_request_param tx' = q)"
      using q(1) s'(3) assms(3) unfolding owners_ok_def by metis
  qed
qed

lemma end_tx_ok:
  assumes inv: "efi_inv {a} L s h" and tx: "efi_txs s a = Some tx"
    and success: "tx_result tx = EFI_OPERATION_SUCCEEDED \<Longrightarrow> listed h (tx_txid tx) (tx_request_param tx) (\<lambda>_. False)"
  shows "\<exists>s'. end_tx a s = Ok s' \<and> efi_inv {} L s' h"
proof -
  let ?p = "tx_request_param tx"
  obtain param where p: "efi_params s ?p = Some param"
    using inv tx unfolding efi_inv_def params_ok_def by blast
  obtain t where t: "efi_tx_table s = Some t"
    using inv unfolding efi_inv_def table_ok_def by blast
  define s1 where "s1 = (to_all_completed param (tx_result tx) s)\<lparr>efi_params := (efi_params s)(?p := None)\<rparr>"
  define s' where "s' = s1\<lparr>efi_tx_table := Some (fst (delete_hash_entry t (tx_txid tx))), efi_txs := (efi_txs s)(a := None)\<rparr>"
  have f: "efi_txs s' = (efi_txs s)(a := None)" "efi_params s' = (efi_params s)(?p := None)"
    "efi_tx_table s' = Some (fst (delete_hash_entry t (tx_txid tx)))" "efi_infos s' = efi_infos s"
    "efi_new s' = efi_new s" "efi_txid s' = efi_txid s" "efi_timers s' = efi_timers s" "efi_queue_name s' = efi_queue_name s"
    "efi_calls s' = efi_calls (to_all_completed param (tx_result tx) s)"
    "pending_params s' = pending_params s" "pending_infos s' = pending_infos s" "timed_infos s' = timed_infos s"
    by (simp_all add: pending_params_def pending_infos_def sent_params_def timed_infos_def s'_def s1_def)
  have "end_tx a s = Ok s'"
    using tx p t by (simp add: end_tx_def deref_def with_tx_table_def xfree_all_sw_tx_def
        xfree_event_forward_operation_to_all_request_param_def s'_def s1_def)
  moreover have "counts_ok s' h"
  proof -
    have "outstanding f u s' = outstanding f u s1" for f u by (simp add: outstanding_def s'_def)
    then show ?thesis
      using inv counts_completed [OF p finite_outstanding, of _ _ "tx_result tx"]
      by (simp add: efi_inv_def counts_ok_def s1_def s'_def)
  qed
  moreover have "answers_ok s' h"
  proof -
    have "answers_ok s h" using inv by (simp add: efi_inv_def)
    then have "answers_ok s1 h" unfolding s1_def using success by (intro answers_completed [OF _ p]) auto
    then show ?thesis by (simp add: answers_ok_def s'_def)
  qed
  moreover have "table_ok s'" using inv table_removed [OF _ tx t f(3,1)] by (simp add: efi_inv_def)
  moreover have "params_ok s'" "owners_ok L s' h" using inv params_removed [OF _ tx _ f(1,2,10)] by (auto simp: efi_inv_def)
  moreover have "infos_ok s'" using inv by (simp add: efi_inv_def infos_ok_def f)
  moreover have "fresh_ok s'" using inv unfolding efi_inv_def fresh_ok_def by (auto simp: f)
  moreover have "timed_ok s'" using inv unfolding efi_inv_def timed_ok_def by (simp add: f)
  moreover have "txs_ok {} s' h" using inv unfolding efi_inv_def txs_ok_def by (simp add: f)
  ultimately show ?thesis by (auto simp: efi_inv_def)
qed

section \<open>Steps inside a transaction\<close>

text \<open>A change of the transaction a function works on.  Where it waits for another switch, there is a timer.\<close>

lemma update_tx:
  assumes inv: "efi_inv A L s h" and "A \<subseteq> {a}" and tx: "efi_txs s a = Some tx"
    and same: "tx_txid tx' = tx_txid tx" "tx_request_param tx' = tx_request_param tx" "\<And>d. waits tx' d \<Longrightarrow> waits tx d \<or> (\<exists>i \<in> set (timed_infos s). efi_infos s i = Some \<lparr>ti_dpid = d, ti_txid = tx_txid tx\<rparr>)"
    and s': "s' = s\<lparr>efi_txs := (efi_txs s)(a \<mapsto> tx')\<rparr>"
  shows "efi_inv {a} L s' h"
proof -
  have f: "pending_params s' = pending_params s" "pending_infos s' = pending_infos s" "timed_infos s' = timed_infos s"
    by (simp_all add: pending_params_def pending_infos_def sent_params_def timed_infos_def s')
  have fwd: "efi_txs s' b = Some ty \<Longrightarrow> \<exists>tz. efi_txs s b = Some tz \<and> tx_txid ty = tx_txid tz \<and>
      tx_request_param ty = tx_request_param tz" for b ty
    using tx same by (auto simp: s' split: if_splits)
  have bwd: "efi_txs s b = Some tz \<Longrightarrow> \<exists>ty. efi_txs s' b = Some ty \<and> tx_txid ty = tx_txid tz \<and>
      tx_request_param ty = tx_request_param tz" for b tz
    using tx same by (auto simp: s')
  have "(\<exists>ty. efi_txs s' b = Some ty \<and> tx_txid ty = x) \<longleftrightarrow> (\<exists>tz. efi_txs s b = Some tz \<and> tx_txid tz = x)" for b x
    using fwd [of b] bwd [of b] by fastforce
  then have "table_ok s'" using inv by (simp add: efi_inv_def table_ok_def) (simp add: s')
  moreover have "params_ok s'"
  proof -
    have "params_ok s" using inv by (simp add: efi_inv_def)
    then show ?thesis unfolding params_ok_def f using fwd by (simp add: s') metis
  qed
  moreover have "infos_ok s'" using inv unfolding efi_inv_def infos_ok_def f by (simp add: s')
  moreover have "fresh_ok s'" using inv tx same unfolding efi_inv_def fresh_ok_def by (auto simp: s')
  moreover have "timed_ok s'"
    unfolding timed_ok_def f
  proof (intro allI impI)
    fix b ty d assume b: "efi_txs s' b = Some ty" "waits ty d"
    have "timed_ok s" using inv by (simp add: efi_inv_def)
    then have old: "\<exists>i \<in> set (timed_infos s). efi_infos s i = Some \<lparr>ti_dpid = d, ti_txid = tx_txid tz\<rparr>"
      if "efi_txs s b = Some tz" "waits tz d" for tz
      using that unfolding timed_ok_def by blast
    have "efi_infos s' = efi_infos s" by (simp add: s')
    then show "\<exists>i \<in> set (timed_infos s). efi_infos s' i = Some \<lparr>ti_dpid = d, ti_txid = tx_txid ty\<rparr>"
    proof (cases "b = a")
      case True
      then have "ty = tx'" "tx_txid ty = tx_txid tx" using b(1) same(1) by (simp_all add: s')
      then show ?thesis using same(3) [of d] b(2) old [of tx] tx True \<open>efi_infos s' = efi_infos s\<close> by metis
    next
      case False
      then have "efi_txs s b = Some ty" using b(1) by (simp add: s')
      then show ?thesis using old b(2) \<open>efi_infos s' = efi_infos s\<close> by metis
    qed
  qed
  moreover have "txs_ok {a} s' h" using inv assms(2) unfolding efi_inv_def txs_ok_def by (auto simp: s')
  moreover have "answers_ok s' h" "counts_ok s' h" using inv by (simp_all add: efi_inv_def answers_ok_def counts_ok_def outstanding_def s')
  moreover have "(\<exists>b ty. efi_txs s' b = Some ty \<and> tx_request_param ty = q) \<longleftrightarrow> (\<exists>b tz. efi_txs s b = Some tz \<and> tx_request_param tz = q)" for q
    using fwd bwd by metis
  then have "owners_ok L s' h" using inv by (simp add: efi_inv_def owners_ok_def f) (simp add: s')
  ultimately show ?thesis by (simp add: efi_inv_def)
qed

text \<open>A \<open>txinfo\<close> whose timer is gone, when no transaction waits for its switch.\<close>

lemma forget_info:
  assumes inv: "efi_inv A L s h" and info: "efi_infos s i = Some info"
    and alone: "\<And>a tx. efi_txs s a = Some tx \<Longrightarrow> tx_txid tx = ti_txid info \<Longrightarrow> \<not> waits tx (ti_dpid info)"
    and timers: "timer_callbacks T \<noteq> None" "timed_infos (s\<lparr>efi_timers := T\<rparr>) = remove1 i (timed_infos s)"
    and infos: "infos = efi_infos s \<or> i \<notin> set (pending_infos s) \<and> infos = (efi_infos s)(i := None)"
    and s': "s' = s\<lparr>efi_timers := T, efi_infos := infos\<rparr>"
  shows "efi_inv A L s' h"
proof -
  have f: "pending_params s' = pending_params s" "pending_infos s' = pending_infos s"
    by (simp_all add: pending_params_def pending_infos_def sent_params_def s')
  have old: "infos_ok s" "timed_ok s" using inv by (simp_all add: efi_inv_def)
  have timed: "timed_infos s' = remove1 i (timed_infos s)" using timers(2) by (simp add: timed_infos_def s')
  have "set (remove1 i (timed_infos s)) = set (timed_infos s) - {i}"
    using old(1) by (simp add: infos_ok_def)
  then have "infos_ok s'"
    using old(1) timers(1) infos unfolding infos_ok_def f timed by (auto simp: s' split: if_splits)
  moreover have "timed_ok s'"
    unfolding timed_ok_def
  proof (intro allI impI)
    fix a tx d assume a: "efi_txs s' a = Some tx" "waits tx d"
    then have "efi_txs s a = Some tx" by (simp add: s')
    with a(2) obtain j where j: "j \<in> set (timed_infos s)" "efi_infos s j = Some \<lparr>ti_dpid = d, ti_txid = tx_txid tx\<rparr>"
      using old(2) unfolding timed_ok_def by blast
    have "j \<noteq> i" using j(2) info alone [of a tx] a by (auto simp: s')
    then have "j \<in> set (timed_infos s')" "efi_infos s' j = Some \<lparr>ti_dpid = d, ti_txid = tx_txid tx\<rparr>"
      using j infos unfolding timed by (auto simp: s' in_set_remove1)
    then show "\<exists>j \<in> set (timed_infos s'). efi_infos s' j = Some \<lparr>ti_dpid = d, ti_txid = tx_txid tx\<rparr>" by blast
  qed
  moreover have "dom infos \<subseteq> dom (efi_infos s)" using infos by (auto split: if_splits)
  then have "fresh_ok s'" using inv unfolding efi_inv_def fresh_ok_def s' by simp blast
  moreover have "table_ok s'" "params_ok s'" "txs_ok A s' h" "answers_ok s' h" "counts_ok s' h" "owners_ok L s' h"
    using inv by (simp_all add: efi_inv_def table_ok_def params_ok_def txs_ok_def answers_ok_def counts_ok_def outstanding_def owners_ok_def f)
      (simp_all add: s')
  ultimately show ?thesis by (simp add: efi_inv_def)
qed

section \<open>Requests and replies\<close>

lemma timed_cleared:
  "timed_infos (s\<lparr>efi_timers := snd (delete_timer_event Switch_response_timeout (Some i) (efi_timers s))\<rparr>) = remove1 i (timed_infos s)"
proof -
  have "concat (map timer_info (clear_timer Switch_response_timeout (Some i) cbs)) = remove1 i (concat (map timer_info cbs))" for cbs
  proof (induction cbs)
    case (Cons cb cbs)
    have "tm_function cb = None \<or> tm_function cb = Some Switch_response_timeout"
      using efi_timer.exhaust by (metis (full_types) option.exhaust)
    with Cons show ?case
      by (auto simp: timer_info_def is_timer_def cleared_def split: option.splits)
  qed simp
  then show ?thesis by (simp add: timed_infos_def delete_timer_event_def split: option.split)
qed

lemma insert_timer_splits: "\<exists>ys zs. cbs = ys @ zs \<and> insert_timer_callback cb cbs = ys @ cb # zs"
proof (induction cbs)
  case (Cons c cbs)
  then obtain ys zs where "cbs = ys @ zs" "insert_timer_callback cb cbs = ys @ cb # zs" by blast
  then have "c # cbs = (c # ys) @ zs \<and> c # insert_timer_callback cb cbs = (c # ys) @ cb # zs" by simp
  then show ?case by (metis append_Nil insert_timer_callback.simps(2))
qed simp

lemma sent_params_simps [simp]:
  "sent_params (s\<lparr>efi_requests_sent := xs\<rparr>) = map (\<lambda>(_, _, _, _, param). param) xs"
  by (simp add: sent_params_def)

lemma take_request:
  assumes inv: "efi_inv {} {} s h" and sent: "efi_requests_sent s = xs @ (to, from, tag, data, r) # ys"
    and s': "s' = s\<lparr>efi_requests_sent := xs @ ys\<rparr>"
  shows "efi_inv {} (set (to_all_address r)) s' h"
    and "\<And>p. p \<in> set (to_all_address r) \<Longrightarrow> p \<in> dom (efi_params s') - set (pending_params s') \<and>
      (\<forall>a tx. efi_txs s' a = Some tx \<longrightarrow> tx_request_param tx \<noteq> p)"
    and "\<And>i. i \<in> set (info_address r) \<Longrightarrow> i \<in> dom (efi_infos s') - set (pending_infos s')"
proof -
  have p: "set (pending_params s) = set (to_all_address r) \<union> set (pending_params s')"
    "distinct (pending_params s) \<Longrightarrow> distinct (pending_params s') \<and> set (to_all_address r) \<inter> set (pending_params s') = {}"
    and i: "set (pending_infos s) = set (info_address r) \<union> set (pending_infos s')"
    "distinct (pending_infos s) \<Longrightarrow> distinct (pending_infos s') \<and> set (info_address r) \<inter> set (pending_infos s') = {}"
    by (auto simp: pending_params_def pending_infos_def sent_params_def sent s')
  have t: "timed_infos s' = timed_infos s" by (simp add: timed_infos_def s')
  have ok: "params_ok s" "infos_ok s" "owners_ok {} s h" using inv by (simp_all add: efi_inv_def)
  have "params_ok s'" using ok(1) p unfolding params_ok_def by (auto simp: s')
  moreover have "infos_ok s'" using ok(2) i unfolding infos_ok_def t by (auto simp: s')
  moreover have "owners_ok (set (to_all_address r)) s' h" using ok(3) p(1) unfolding owners_ok_def by (auto simp: s')
  moreover have "table_ok s'" "fresh_ok s'" "timed_ok s'" "txs_ok {} s' h" "answers_ok s' h" "counts_ok s' h"
    using inv by (simp_all add: efi_inv_def table_ok_def fresh_ok_def timed_ok_def txs_ok_def answers_ok_def counts_ok_def outstanding_def t)
      (simp_all add: s')
  ultimately show "efi_inv {} (set (to_all_address r)) s' h" by (simp add: efi_inv_def)
  show "q \<in> dom (efi_params s') - set (pending_params s') \<and> (\<forall>a tx. efi_txs s' a = Some tx \<longrightarrow> tx_request_param tx \<noteq> q)"
    if "q \<in> set (to_all_address r)" for q
    using ok(1) p that unfolding params_ok_def by (auto simp: s')
  show "j \<in> dom (efi_infos s') - set (pending_infos s')" if "j \<in> set (info_address r)" for j
    using ok(2) i that unfolding infos_ok_def by (auto simp: s')
qed

lemma add_request:
  assumes inv: "efi_inv A L s h"
    and p: "\<And>p. p \<in> set (to_all_address r) \<Longrightarrow> p \<in> dom (efi_params s) - set (pending_params s) \<and>
      (\<forall>a tx. efi_txs s a = Some tx \<longrightarrow> tx_request_param tx \<noteq> p)"
    and i: "\<And>i. i \<in> set (info_address r) \<Longrightarrow> i \<in> dom (efi_infos s) - set (pending_infos s)"
    and s': "s' = s\<lparr>efi_requests_sent := efi_requests_sent s @ [(to, from, tag, data, r)]\<rparr>"
  shows "efi_inv A (L - set (to_all_address r)) s' h"
proof -
  have one: "distinct (to_all_address r)" "distinct (info_address r)"
    by (cases r rule: to_all_address.cases; simp) (cases r rule: info_address.cases; simp)
  have f: "pending_params s' = pending_params s @ to_all_address r" "pending_infos s' = pending_infos s @ info_address r"
    "timed_infos s' = timed_infos s"
    by (simp_all add: pending_params_def pending_infos_def sent_params_def timed_infos_def s')
  have ok: "params_ok s" "infos_ok s" "owners_ok L s h" using inv by (simp_all add: efi_inv_def)
  have "params_ok s'" using ok(1) p one(1) unfolding params_ok_def f by (auto simp: s')
  moreover have "infos_ok s'" using ok(2) i one(2) unfolding infos_ok_def f by (auto simp: s')
  moreover have "owners_ok (L - set (to_all_address r)) s' h" using ok(3) unfolding owners_ok_def f by (auto simp: s')
  moreover have "table_ok s'" "fresh_ok s'" "timed_ok s'" "txs_ok A s' h" "answers_ok s' h" "counts_ok s' h"
    using inv by (simp_all add: efi_inv_def table_ok_def fresh_ok_def timed_ok_def txs_ok_def answers_ok_def counts_ok_def outstanding_def f)
      (simp_all add: s')
  ultimately show ?thesis by (simp add: efi_inv_def)
qed

lemma held_lost: "efi_inv A (set ps) s h \<Longrightarrow> efi_inv A {} s (h @ map Lost ps)"
proof -
  assume inv: "efi_inv A (set ps) s h"
  then have "efi_inv A (set ps) s (h @ map Lost ps)" by (rule efi_inv_events) (auto simp: is_requested_def)
  then show ?thesis unfolding efi_inv_def owners_ok_def by auto
qed

end
