(* ===== verification/Event_Forward_Handlers.thy ===== *)
theory Event_Forward_Handlers
  imports Event_Forward_Transactions
begin

text \<open>
  Every handler of the event forward interface keeps the invariant of
  \<open>Event_Forward_Transactions\<close>.
\<close>

section \<open>Dispatching\<close>

lemma fresh_address:
  assumes "efi_inv A L s h"
  shows "efi_new s \<notin> dom (efi_infos s)" "efi_new s \<notin> dom (efi_params s)" "efi_new s \<notin> dom (efi_txs s)"
  using assms unfolding efi_inv_def fresh_ok_def by auto

lemma new_info:
  assumes inv: "efi_inv A L s h"
    and infos: "infos = efi_infos s \<or> infos = (efi_infos s)(efi_new s \<mapsto> info)"
    and s': "s' = s\<lparr>efi_new := efi_new s + 1, efi_infos := infos\<rparr>"
  shows "efi_inv A L s' h"
proof -
  have f: "pending_params s' = pending_params s" "pending_infos s' = pending_infos s" "timed_infos s' = timed_infos s"
    by (simp_all add: pending_params_def pending_infos_def sent_params_def timed_infos_def s')
  have keep: "efi_infos s' j = efi_infos s j" if "j \<in> dom (efi_infos s)" for j
    using infos fresh_address(1) [OF inv] that by (cases "j = efi_new s") (auto simp: s')
  have ok: "infos_ok s" "fresh_ok s" "timed_ok s" using inv by (simp_all add: efi_inv_def)
  have "dom (efi_infos s) \<subseteq> dom (efi_infos s')" using keep by (auto simp: domIff)
  then have "infos_ok s'" using ok(1) unfolding infos_ok_def f by (simp add: s') blast
  moreover have "fresh_ok s'" using ok(2) infos unfolding fresh_ok_def by (auto simp: s' less_Suc_eq subset_iff domIff)
  moreover have "timed_ok s'"
    using ok(3) keep unfolding timed_ok_def f by (simp add: s') (metis domI)
  moreover have "table_ok s'" "params_ok s'" "txs_ok A s' h" "answers_ok s' h" "counts_ok s' h" "owners_ok L s' h"
    using inv by (simp_all add: efi_inv_def table_ok_def params_ok_def txs_ok_def answers_ok_def counts_ok_def outstanding_def owners_ok_def f)
      (simp_all add: s')
  ultimately show ?thesis by (simp add: efi_inv_def)
qed

lemma add_timer:
  assumes inv: "efi_inv A L s h" and i: "i \<in> dom (efi_infos s)" "i \<notin> set (timed_infos s)" and "timer_info cb = [i]"
    and "timer_callbacks (efi_timers s) = Some cbs"
    and T: "timer_callbacks T = Some (insert_timer_callback cb cbs)" and s': "s' = s\<lparr>efi_timers := T\<rparr>"
  shows "efi_inv A L s' h" and "set (timed_infos s') = insert i (set (timed_infos s))"
proof -
  have f: "pending_params s' = pending_params s" "pending_infos s' = pending_infos s"
    by (simp_all add: pending_params_def pending_infos_def sent_params_def s')
  obtain ys zs where "cbs = ys @ zs" "insert_timer_callback cb cbs = ys @ cb # zs" using insert_timer_splits by blast
  then have t: "set (timed_infos s') = insert i (set (timed_infos s))" "distinct (timed_infos s) \<Longrightarrow> distinct (timed_infos s')"
    using assms by (auto simp: timed_infos_def)
  have "infos_ok s'" using inv i(1) t T unfolding efi_inv_def infos_ok_def f by (simp add: s')
  moreover have "timed_ok s'"
    using inv t(1) unfolding efi_inv_def timed_ok_def by (simp add: s')
  moreover have "table_ok s'" "params_ok s'" "fresh_ok s'" "txs_ok A s' h" "answers_ok s' h" "counts_ok s' h" "owners_ok L s' h"
    using inv by (simp_all add: efi_inv_def table_ok_def params_ok_def fresh_ok_def txs_ok_def answers_ok_def counts_ok_def outstanding_def owners_ok_def f)
      (simp_all add: s')
  ultimately show "efi_inv A L s' h" by (simp add: efi_inv_def)
  show "set (timed_infos s') = insert i (set (timed_infos s))" by (rule t(1))
qed

lemma config_request_eq:
  assumes "efi_queue_name s = Some name"
    and "command \<in> {EVENT_FORWARD_ENTRY_ADD, EVENT_FORWARD_ENTRY_DELETE, EVENT_FORWARD_ENTRY_DUMP, EVENT_FORWARD_ENTRY_SET}"
  shows "send_efi_event_config_request accepts (Some service) command type services callback user_data s =
     (accepts, if accepts then s\<lparr>efi_requests_sent := efi_requests_sent s @
        [(service, name, MESSENGER_MANAGEMENT_REQUEST,
          management_application_request command (create_event_forward_operation_request [] type services), Operation_param callback user_data)]\<rparr>
      else s)"
  using assms by (auto simp: send_efi_event_config_request_def maybe_init_event_forward_interface_def send_efi_request_def)

definition dispatching :: "nat \<Rightarrow> 32 word \<Rightarrow> nat \<Rightarrow> 64 word set \<Rightarrow> efi \<Rightarrow> efi_event list \<Rightarrow> bool" where
  "dispatching a x p ds s h \<longleftrightarrow> efi_inv {a} {} s h \<and>
     (\<exists>tx. efi_txs s a = Some tx \<and> tx_txid tx = x \<and> tx_request_param tx = p \<and>
        hash_inv compare_datapath_id hash_datapath_id (\<lambda>_. True) (waiting_dpid tx) \<and>
        tx_result tx \<in> {EFI_OPERATION_SUCCEEDED, EFI_OPERATION_FAILED} \<and>
        (tx_result tx = EFI_OPERATION_SUCCEEDED \<longrightarrow> (\<forall>d \<in> ds. waits tx d)))"

lemma waits_insert:
  assumes "hash_inv compare_datapath_id hash_datapath_id (\<lambda>_. True) t"
  shows "lookup_hash_entry (fst (insert_hash_entry t d d)) d' = (if d' = d then Some d else lookup_hash_entry t d')"
    and "lookup_hash_entry (fst (delete_hash_entry t d)) d' = (if d' = d then None else lookup_hash_entry t d')"
  using datapath_id_keys.lookup_insert [OF assms] datapath_id_keys.lookup_delete [OF assms]
  by (simp_all add: compare_datapath_id_def)

lemma add_timer_result:
  assumes "timer_callbacks T = Some cbs"
  shows "\<exists>set_ok T'. add_timer_event_callback clock zero_time \<lparr>tv_sec = 5, tv_nsec = 0\<rparr> Switch_response_timeout (Some i) T = Ok (set_ok, T') \<and>
     (if set_ok then \<exists>cb. timer_info cb = [i] \<and> timer_callbacks T' = Some (insert_timer_callback cb cbs) else T' = T)"
proof (cases clock)
  case None
  then show ?thesis by (auto simp: add_timer_event_callback_def)
next
  case (Some now)
  define cb where "cb = \<lparr>tm_function = Some Switch_response_timeout, expires_at = ADD_TIMESPEC now \<lparr>tv_sec = 5, tv_nsec = 0\<rparr>,
    tm_interval = zero_time, tm_user_data = Some i\<rparr>"
  have "add_timer_event_callback clock zero_time \<lparr>tv_sec = 5, tv_nsec = 0\<rparr> Switch_response_timeout (Some i) T =
      Ok (True, T\<lparr>timer_callbacks := Some (insert_timer_callback cb cbs)\<rparr>)"
    using assms Some by (simp add: add_timer_event_callback_def new_timer_def VALID_TIMESPEC_def cb_def)
  moreover have "timer_info cb = [i]" by (simp add: cb_def timer_info_def)
  ultimately show ?thesis by (intro exI [of _ True] exI [of _ "T\<lparr>timer_callbacks := Some (insert_timer_callback cb cbs)\<rparr>"]) auto
qed

lemma dispatch_switch_ok:
  assumes "dispatching a x p ds s h"
  shows "\<exists>s'. dispatch_switch accepts clock a p d s = Ok s' \<and> dispatching a x p (insert d ds) s' h"
proof -
  obtain tx where inv: "efi_inv {a} {} s h" and tx: "efi_txs s a = Some tx" "tx_txid tx = x" "tx_request_param tx = p"
    "hash_inv compare_datapath_id hash_datapath_id (\<lambda>_. True) (waiting_dpid tx)"
    "tx_result tx \<in> {EFI_OPERATION_SUCCEEDED, EFI_OPERATION_FAILED}"
    "tx_result tx = EFI_OPERATION_SUCCEEDED \<longrightarrow> (\<forall>d \<in> ds. waits tx d)"
    using assms by (auto simp: dispatching_def)
  define W where "W = fst (insert_hash_entry (waiting_dpid tx) d d)"
  have W: "insert_hash_entry (waiting_dpid tx) d d = (W, lookup_hash_entry (waiting_dpid tx) d)"
    "hash_inv compare_datapath_id hash_datapath_id (\<lambda>_. True) W"
    "hash_inv compare_datapath_id hash_datapath_id (\<lambda>_. True) (fst (delete_hash_entry W d))"
    using insert_hash_entry_fields(5) [of "waiting_dpid tx" d d] datapath_id_keys.insert_tbl [OF tx(4)]
      datapath_id_keys.delete_tbl [OF datapath_id_keys.insert_tbl [OF tx(4)]]
    by (simp_all add: W_def prod_eq_iff)
  have look: "lookup_hash_entry W d' = (if d' = d then Some d else lookup_hash_entry (waiting_dpid tx) d')"
    "lookup_hash_entry (fst (delete_hash_entry W d)) d' = (if d' = d then None else lookup_hash_entry (waiting_dpid tx) d')" for d'
    using waits_insert(1) [OF tx(4)] waits_insert(2) [OF W(2)] by (simp_all add: W_def)
  define tx1 where "tx1 = tx\<lparr>waiting_dpid := W\<rparr>"
  define tx2 where "tx2 = tx\<lparr>waiting_dpid := fst (delete_hash_entry W d), tx_result := EFI_OPERATION_FAILED\<rparr>"
  have fin: "dispatching a x p (insert d ds) s' h" if "efi_inv {a} {} s' h" "efi_txs s' a = Some tx1 \<or> efi_txs s' a = Some tx2" for s'
    using that tx W(2,3) by (auto simp: dispatching_def tx1_def tx2_def look)
  have failed: "efi_inv {a} {} (s1\<lparr>efi_txs := (efi_txs s1)(a \<mapsto> tx2)\<rparr>) h" if "efi_inv {a} {} s1 h" "efi_txs s1 = efi_txs s" for s1
    by (rule update_tx [OF that(1) _ _ _ _ _ refl, of _ tx]) (use tx that(2) in \<open>auto simp: tx2_def look split: if_splits\<close>)
  show ?thesis
  proof (cases "lookup_hash_entry (waiting_dpid tx) d")
    case (Some y)
    have "efi_inv {a} {} (s\<lparr>efi_txs := (efi_txs s)(a \<mapsto> tx1)\<rparr>) h"
      by (rule update_tx [OF inv _ tx(1) _ _ _ refl]) (use Some in \<open>auto simp: tx1_def look split: if_splits\<close>)
    with Some tx(1) show ?thesis by (auto simp: dispatch_switch_def deref_def W(1) tx1_def intro!: fin [unfolded tx1_def])
  next
    case None
    let ?i = "efi_new s" and ?info = "\<lparr>ti_dpid = d, ti_txid = x\<rparr>"
    obtain param where param: "efi_params s p = Some param"
      using inv tx(1,3) unfolding efi_inv_def params_ok_def by blast
    obtain name where name: "efi_queue_name s = Some name" using efi_inv_queue [OF inv] by blast
    define req where "req = management_application_request (if to_all_add param then EVENT_FORWARD_ENTRY_ADD else EVENT_FORWARD_ENTRY_DELETE)
        (create_event_forward_operation_request [] (to_all_type param) [to_all_service_name param])"
    define s1 where "s1 = s\<lparr>efi_new := ?i + 1, efi_infos := (efi_infos s)(?i \<mapsto> ?info)\<rparr>"
    define s2 where "s2 = s1\<lparr>efi_requests_sent := efi_requests_sent s1 @
        [(switch_service d, name, MESSENGER_MANAGEMENT_REQUEST, req, Operation_param (Some Switch_response_handler) ?i)]\<rparr>"
    have new: "?i \<notin> set (pending_infos s1)" "?i \<notin> set (timed_infos s)"
      using inv fresh_address(1) [OF inv] unfolding efi_inv_def infos_ok_def
      by (auto simp: s1_def pending_infos_def sent_params_def)
    have inv1: "efi_inv {a} {} s1 h" by (rule new_info [OF inv _ s1_def]) (rule disjI2, rule refl)
    have inv2: "efi_inv {a} {} s2 h"
      using add_request [OF inv1 _ _ s2_def] new(1) by (simp add: s1_def)
    obtain cbs where cbs: "timer_callbacks (efi_timers s) = Some cbs" using inv unfolding efi_inv_def infos_ok_def by blast
    obtain set_ok T where timer:
      "add_timer_event_callback clock zero_time \<lparr>tv_sec = 5, tv_nsec = 0\<rparr> Switch_response_timeout (Some ?i) (efi_timers s) = Ok (set_ok, T)"
      "if set_ok then \<exists>cb. timer_info cb = [?i] \<and> timer_callbacks T = Some (insert_timer_callback cb cbs) else T = efi_timers s"
      using add_timer_result [OF cbs] by metis
    define s3 where "s3 = s2\<lparr>efi_timers := T\<rparr>"
    have freed: "((efi_infos s)(?i \<mapsto> ?info))(?i := None) = efi_infos s"
      using fresh_address(1) [OF inv] by (auto simp: fun_eq_iff)
    have run: "dispatch_switch accepts clock a p d s =
      Ok (if \<not> accepts then s\<lparr>efi_new := ?i + 1, efi_infos := efi_infos s, efi_txs := (efi_txs s)(a \<mapsto> tx2)\<rparr>
          else if set_ok then s3\<lparr>efi_txs := (efi_txs s)(a \<mapsto> tx1)\<rparr> else s3\<lparr>efi_txs := (efi_txs s)(a \<mapsto> tx2)\<rparr>)"
      using None param name tx(1,2) timer(1) freed
      by (cases "to_all_add param"; cases accepts; cases set_ok)
        (simp_all add: dispatch_switch_def deref_def W(1) add_switch_event_forward_entry_def delete_switch_event_forward_entry_def
          config_request_eq unwait_def Let_def s3_def s2_def s1_def req_def tx1_def tx2_def)
    consider "\<not> accepts" | "accepts" "set_ok" | "accepts" "\<not> set_ok" by blast
    then show ?thesis
    proof cases
      case 1
      have "efi_inv {a} {} (s\<lparr>efi_new := ?i + 1, efi_infos := efi_infos s\<rparr>) h" by (rule new_info [OF inv _ refl]) simp
      from fin [OF failed [OF this]] run 1 show ?thesis by simp
    next
      case 2
      then obtain cb where cb: "timer_info cb = [?i]" "timer_callbacks T = Some (insert_timer_callback cb cbs)" using timer(2) by auto
      have "timer_callbacks (efi_timers s2) = Some cbs" "?i \<in> dom (efi_infos s2)" "?i \<notin> set (timed_infos s2)"
        using cbs new(2) by (auto simp: s2_def s1_def timed_infos_def)
      note t = add_timer [OF inv2 this(2,3) cb(1) this(1) cb(2) s3_def]
      have "efi_inv {a} {} (s3\<lparr>efi_txs := (efi_txs s3)(a \<mapsto> tx1)\<rparr>) h"
        by (rule update_tx [OF t(1) _ _ _ _ _ refl, of _ tx])
          (use tx t(2) in \<open>auto simp: tx1_def look s3_def s2_def s1_def split: if_splits\<close>)
      from fin [OF this] run 2 show ?thesis by (simp add: s3_def s2_def s1_def)
    next
      case 3
      then have "s3 = s2" using timer(2) by (simp add: s3_def s2_def s1_def)
      then show ?thesis using fin [OF failed [OF inv2]] run 3 by (simp add: s2_def s1_def)
    qed
  qed
qed

lemma dispatch_switches_ok:
  "dispatching a x p ds s h \<Longrightarrow> \<exists>s'. dispatch_switches ev n a p dpids s = Ok s' \<and> dispatching a x p (ds \<union> set dpids) s' h"
proof (induction dpids arbitrary: ds s n)
  case (Cons d dpids)
  from dispatch_switch_ok [OF Cons.prems, of "env_accepts ev n" "env_clock ev n" d] obtain s1 where
    "dispatch_switch (env_accepts ev n) (env_clock ev n) a p d s = Ok s1" "dispatching a x p (insert d ds) s1 h" by blast
  with Cons.IH [of "insert d ds" s1 "Suc n"] show ?case by auto
qed simp

lemma close_tx: "efi_inv {a} L s h \<Longrightarrow> efi_txs s a = Some tx \<Longrightarrow> tx_ok h tx \<Longrightarrow> efi_inv {} L s h"
  by (auto simp: efi_inv_def txs_ok_def) (metis option.inject)

lemma next_txid: "x \<noteq> - 1 \<Longrightarrow> y \<le> x \<Longrightarrow> y < x + (1 :: 32 word)"
proof -
  assume "x \<noteq> - 1" "y \<le> x"
  then have "1 + x \<noteq> 0" by (metis add_eq_0_iff minus_equation_iff)
  with \<open>y \<le> x\<close> show ?thesis using unatSuc [of x] by (simp add: word_less_nat_alt word_le_nat_alt add.commute)
qed

text \<open>What holds of the parameter of a request whose reply is being handled.\<close>

definition holds_param :: "nat \<Rightarrow> efi \<Rightarrow> bool" where
  "holds_param p s \<longleftrightarrow> p \<in> dom (efi_params s) - set (pending_params s) \<and>
     (\<forall>a tx. efi_txs s a = Some tx \<longrightarrow> tx_request_param tx \<noteq> p)"

lemma insert_tx_ok:
  assumes inv: "efi_inv {} {p} s h" and p: "holds_param p s" and "efi_txid s \<noteq> - 1"
  shows "\<exists>s'. insert_tx n p s = Ok (efi_new s, s') \<and> efi_inv {efi_new s} {} s' h \<and>
     efi_txs s' (efi_new s) = Some \<lparr>tx_txid = efi_txid s + 1,
       waiting_dpid = create_hash_with_size compare_datapath_id hash_datapath_id (of_nat n),
       tx_result = EFI_OPERATION_SUCCEEDED, tx_request_param = p\<rparr>"
proof -
  let ?x = "efi_txid s + 1" and ?a = "efi_new s"
  define tx where "tx = \<lparr>tx_txid = ?x, waiting_dpid = create_hash_with_size compare_datapath_id hash_datapath_id (of_nat n),
    tx_result = EFI_OPERATION_SUCCEEDED, tx_request_param = p\<rparr>"
  obtain t where t: "efi_tx_table s = Some t" "hash_inv compare_uint32 hash_uint32 (\<lambda>_. True) t"
    "\<And>x b. lookup_hash_entry t x = Some b \<longleftrightarrow> (\<exists>tx. efi_txs s b = Some tx \<and> tx_txid tx = x)"
    using inv unfolding efi_inv_def table_ok_def by blast
  have ok: "params_ok s" "fresh_ok s" "timed_ok s" "owners_ok {p} s h" using inv by (simp_all add: efi_inv_def)
  have below: "tx_txid ty \<le> efi_txid s \<and> tx_txid ty \<noteq> ?x" if "efi_txs s b = Some ty" for b ty
    using ok(2) that next_txid [OF assms(3), of "tx_txid ty"] unfolding fresh_ok_def by auto
  then have none: "lookup_hash_entry t ?x = None" using t(3) [of ?x] by (metis option.exhaust)
  define t' where "t' = fst (insert_hash_entry t ?x ?a)"
  have ins: "insert_hash_entry t ?x ?a = (t', None)"
    using insert_hash_entry_fields(5) [of t ?x ?a] none by (simp add: t'_def prod_eq_iff)
  define s' where "s' = s\<lparr>efi_txid := ?x, efi_new := ?a + 1, efi_txs := (efi_txs s)(?a \<mapsto> tx), efi_tx_table := Some t'\<rparr>"
  have run: "insert_tx n p s = Ok (?a, s')"
    using t(1) ins by (simp add: insert_tx_def get_txid_def with_tx_table_def assert_then_def s'_def tx_def Let_def)
  have f: "pending_params s' = pending_params s" "pending_infos s' = pending_infos s" "timed_infos s' = timed_infos s"
    by (simp_all add: pending_params_def pending_infos_def sent_params_def timed_infos_def s'_def)
  have new: "efi_txs s ?a = None" using fresh_address(3) [OF inv] by (auto simp: domIff)
  have "table_ok s'"
  proof -
    have "lookup_hash_entry t' y = (if y = ?x then Some ?a else lookup_hash_entry t y)" for y
      using uint32_keys.lookup_insert [OF t(2), of ?x ?a y] by (simp add: t'_def compare_uint32_def)
    then have "lookup_hash_entry t' y = Some b \<longleftrightarrow> (\<exists>ty. efi_txs s' b = Some ty \<and> tx_txid ty = y)" for y b
      using t(3) [of y b] below [of b] new none by (cases "b = ?a") (auto simp: s'_def tx_def)
    then show ?thesis using uint32_keys.insert_tbl [OF t(2), of ?x ?a] by (simp add: table_ok_def s'_def t'_def)
  qed
  moreover have "params_ok s'" using ok(1) p new unfolding params_ok_def f holds_param_def by (auto simp: s'_def tx_def)
  moreover have "fresh_ok s'"
    using ok(2) below next_txid [OF assms(3)] unfolding fresh_ok_def
    by (auto simp: s'_def tx_def less_Suc_eq subset_iff domIff intro: less_imp_le)
  moreover have "timed_ok s'"
    using ok(3) unfolding timed_ok_def f by (auto simp: s'_def tx_def datapath_id_keys.lookup_create)
  moreover have "txs_ok {?a} s' h" using inv unfolding efi_inv_def txs_ok_def by (auto simp: s'_def)
  moreover have "owners_ok {} s' h"
    unfolding owners_ok_def f
  proof
    fix q assume "q \<in> dom (efi_params s') - {}"
    then have q: "q \<in> dom (efi_params s)" by (simp add: s'_def)
    show "q \<in> set (pending_params s) \<or> Lost q \<in> set h \<or> (\<exists>b ty. efi_txs s' b = Some ty \<and> tx_request_param ty = q)"
    proof (cases "q = p")
      case True
      then show ?thesis by (auto simp: s'_def tx_def)
    next
      case False
      then have "q \<in> set (pending_params s) \<or> Lost q \<in> set h \<or> (\<exists>b ty. efi_txs s b = Some ty \<and> tx_request_param ty = q)"
        using ok(4) q unfolding owners_ok_def by blast
      moreover have "efi_txs s' b = Some ty" if "efi_txs s b = Some ty" for b ty using that new by (auto simp: s'_def)
      ultimately show ?thesis by blast
    qed
  qed
  moreover have "infos_ok s'" "answers_ok s' h" "counts_ok s' h"
    using inv by (simp_all add: efi_inv_def infos_ok_def answers_ok_def counts_ok_def outstanding_def f) (simp_all add: s'_def)
  ultimately have "efi_inv {?a} {} s' h" by (simp add: efi_inv_def)
  with run show ?thesis by (auto simp: s'_def tx_def)
qed

lemma dispatch_to_all_ok:
  assumes inv: "efi_inv {} {p} s h" and p: "holds_param p s" and x: "efi_txid s \<noteq> - 1"
    and len: "\<And>ds. dpids = Some ds \<Longrightarrow> length ds < 2 ^ 32"
  shows "\<exists>s'. dispatch_to_all_switch ev dpids p s = Ok s' \<and> efi_inv {} {} s' (h @ [Dispatched (efi_txid s + 1) p dpids])"
proof -
  let ?x = "efi_txid s + 1" and ?a = "efi_new s"
  define ds where "ds = (case dpids of None \<Rightarrow> [] | Some ds \<Rightarrow> ds)"
  define h' where "h' = h @ [Dispatched ?x p dpids]"
  have "efi_inv {} {p} s h'" unfolding h'_def by (rule efi_inv_events [OF inv]) (simp add: is_requested_def)
  from insert_tx_ok [OF this p x, of "length ds"] obtain s1 where s1: "insert_tx (length ds) p s = Ok (?a, s1)"
    "efi_inv {?a} {} s1 h'"
    "efi_txs s1 ?a = Some \<lparr>tx_txid = ?x, waiting_dpid = create_hash_with_size compare_datapath_id hash_datapath_id (of_nat (length ds)),
       tx_result = EFI_OPERATION_SUCCEEDED, tx_request_param = p\<rparr>"
    by blast
  have listed: "listed h' ?x p w" if "\<forall>d \<in> set ds. w d" for w
    using that by (auto simp: listed_def h'_def ds_def intro!: exI [of _ dpids])
  show ?thesis
  proof (cases "ds = []")
    case True
    then obtain s' where "end_tx ?a s1 = Ok s'" "efi_inv {} {} s' h'"
      using end_tx_ok [OF s1(2,3)] listed by auto
    then show ?thesis using s1(1,3) True
      by (auto simp: dispatch_to_all_switch_def ds_def [symmetric] deref_def h'_def)
  next
    case False
    have "(of_nat (length ds) :: 32 word) \<noteq> 0"
      using False len by (auto simp: ds_def word_of_nat_eq_0_iff split: option.splits dest: dvd_imp_le)
    then have "dispatching ?a ?x p {} s1 h'"
      using s1(2,3) datapath_id_keys.create_tbl by (auto simp: dispatching_def)
    from dispatch_switches_ok [OF this, of ev 0 ds] obtain s2 tx where s2: "dispatch_switches ev 0 ?a p ds s1 = Ok s2"
      "efi_inv {?a} {} s2 h'" "efi_txs s2 ?a = Some tx" "tx_txid tx = ?x" "tx_request_param tx = p"
      "hash_inv compare_datapath_id hash_datapath_id (\<lambda>_. True) (waiting_dpid tx)"
      "tx_result tx \<in> {EFI_OPERATION_SUCCEEDED, EFI_OPERATION_FAILED}"
      "tx_result tx = EFI_OPERATION_SUCCEEDED \<longrightarrow> (\<forall>d \<in> set ds. waits tx d)"
      by (auto simp: dispatching_def)
    have run: "dispatch_to_all_switch ev dpids p s = (if tx_result tx = EFI_OPERATION_FAILED then end_tx ?a s2 else Ok s2)"
      using s1(1) s2(1,3) False by (simp add: dispatch_to_all_switch_def ds_def [symmetric] deref_def)
    show ?thesis
    proof (cases "tx_result tx = EFI_OPERATION_FAILED")
      case True
      then show ?thesis using end_tx_ok [OF s2(2,3)] run by (auto simp: h'_def)
    next
      case result: False
      then have all: "\<forall>d \<in> set ds. waits tx d" "tx_result tx = EFI_OPERATION_SUCCEEDED" using s2(7,8) by auto
      obtain d0 where "d0 \<in> set ds" using False by (cases ds) auto
      then have "\<exists>d. waits tx d" using all(1) by blast
      moreover have "listed h' (tx_txid tx) (tx_request_param tx) (waits tx)" using listed [OF all(1)] s2(4,5) by simp
      ultimately have "tx_ok h' tx" using s2(6) all(2) by (simp add: tx_ok_def)
      then show ?thesis using close_tx [OF s2(2,3)] run result by (simp add: h'_def)
    qed
  qed
qed

section \<open>Answers and timeouts\<close>

text \<open>The state in which a \<open>txinfo\<close> has lost its timer, before and after its switch is struck off.\<close>

lemma info_resolved:
  assumes inv: "efi_inv {} {} s h" and info: "efi_infos s i = Some info"
    and timers: "timer_callbacks T \<noteq> None" "timed_infos (s\<lparr>efi_timers := T\<rparr>) = remove1 i (timed_infos s)"
    and infos: "infos = efi_infos s \<or> i \<notin> set (pending_infos s) \<and> infos = (efi_infos s)(i := None)"
    and s0: "s0 = s\<lparr>efi_timers := T, efi_infos := infos\<rparr>" and t: "efi_tx_table s = Some t"
  shows "lookup_hash_entry t (ti_txid info) = None \<Longrightarrow> efi_inv {} {} s0 h"
    and "lookup_hash_entry t (ti_txid info) = Some a \<Longrightarrow> \<exists>tx. efi_txs s a = Some tx \<and> tx_ok h tx \<and> tx_txid tx = ti_txid info \<and>
       (\<not> waits tx (ti_dpid info) \<longrightarrow> efi_inv {} {} s0 h) \<and>
       (\<forall>tx'. tx_txid tx' = tx_txid tx \<longrightarrow> tx_request_param tx' = tx_request_param tx \<longrightarrow>
          (\<forall>d. waits tx' d \<longrightarrow> waits tx d \<and> d \<noteq> ti_dpid info) \<longrightarrow> efi_inv {a} {} (s0\<lparr>efi_txs := (efi_txs s)(a \<mapsto> tx')\<rparr>) h)"
proof -
  have table: "lookup_hash_entry t x = Some b \<longleftrightarrow> (\<exists>tx. efi_txs s b = Some tx \<and> tx_txid tx = x)" for x b
    using inv t unfolding efi_inv_def table_ok_def by auto
  note forget = forget_info [OF inv info _ timers infos s0]
  show "efi_inv {} {} s0 h" if "lookup_hash_entry t (ti_txid info) = None"
    by (rule forget) (use table [of "ti_txid info"] that in auto)
  assume "lookup_hash_entry t (ti_txid info) = Some a"
  then obtain tx where tx: "efi_txs s a = Some tx" "tx_txid tx = ti_txid info" using table [of "ti_txid info" a] by auto
  have only: "b = a" if "efi_txs s b = Some ty" "tx_txid ty = ti_txid info" for b ty
    using table [of "ti_txid info" a] table [of "ti_txid info" b] tx that by auto
  have "tx_ok h tx" using inv tx(1) unfolding efi_inv_def txs_ok_def by blast
  moreover have "efi_inv {} {} s0 h" if "\<not> waits tx (ti_dpid info)"
    by (rule forget) (use only tx that in fastforce)
  moreover have "efi_inv {a} {} (s0\<lparr>efi_txs := (efi_txs s)(a \<mapsto> tx')\<rparr>) h"
    if "tx_txid tx' = tx_txid tx" "tx_request_param tx' = tx_request_param tx"
      "\<forall>d. waits tx' d \<longrightarrow> waits tx d \<and> d \<noteq> ti_dpid info" for tx'
  proof -
    define s1 where "s1 = s\<lparr>efi_txs := (efi_txs s)(a \<mapsto> tx')\<rparr>"
    have inv1: "efi_inv {a} {} s1 h" by (rule update_tx [OF inv _ tx(1) that(1,2) _ s1_def]) (use that(3) in auto)
    show ?thesis
    proof (rule forget_info [OF inv1, of i info T infos])
      show "\<not> waits ty (ti_dpid info)" if "efi_txs s1 b = Some ty" "tx_txid ty = ti_txid info" for b ty
        using that only [of b ty] \<open>\<forall>d. waits tx' d \<longrightarrow> waits tx d \<and> d \<noteq> ti_dpid info\<close> by (cases "b = a") (auto simp: s1_def)
    qed (use info timers infos in \<open>simp_all add: s1_def s0 timed_infos_def pending_infos_def sent_params_def\<close>)
  qed
  ultimately show "\<exists>tx. efi_txs s a = Some tx \<and> tx_ok h tx \<and> tx_txid tx = ti_txid info \<and>
       (\<not> waits tx (ti_dpid info) \<longrightarrow> efi_inv {} {} s0 h) \<and>
       (\<forall>tx'. tx_txid tx' = tx_txid tx \<longrightarrow> tx_request_param tx' = tx_request_param tx \<longrightarrow>
          (\<forall>d. waits tx' d \<longrightarrow> waits tx d \<and> d \<noteq> ti_dpid info) \<longrightarrow> efi_inv {a} {} (s0\<lparr>efi_txs := (efi_txs s)(a \<mapsto> tx')\<rparr>) h)"
    using tx by blast
qed

lemma switch_response_timeout_ok:
  assumes inv: "efi_inv {} {} s h" and cbs: "timer_callbacks (efi_timers s) = Some (xs @ cb # ys)"
    and cb: "tm_function cb = Some Switch_response_timeout" "tm_user_data cb = Some i"
    and s0: "s0 = s\<lparr>efi_timers := (efi_timers s)\<lparr>timer_callbacks := Some (xs @ ys)\<rparr>\<rparr>"
  shows "\<exists>s'. switch_response_timeout i s0 = Ok s' \<and> efi_inv {} {} s' h"
proof -
  have ok: "infos_ok s" using inv by (simp add: efi_inv_def)
  have "timed_infos s = concat (map timer_info xs) @ i # concat (map timer_info ys)"
    using cbs cb by (simp add: timed_infos_def timer_info_def)
  moreover from this ok have "i \<notin> set (concat (map timer_info xs))" unfolding infos_ok_def by auto
  ultimately have T: "timed_infos s0 = remove1 i (timed_infos s)" "i \<in> set (timed_infos s)"
    by (auto simp: s0 timed_infos_def remove1_append)
  then obtain info where info: "efi_infos s i = Some info" using ok unfolding infos_ok_def by blast
  obtain t where t: "efi_tx_table s = Some t" using inv unfolding efi_inv_def table_ok_def by blast
  have s0': "s0 = s\<lparr>efi_timers := (efi_timers s)\<lparr>timer_callbacks := Some (xs @ ys)\<rparr>, efi_infos := efi_infos s\<rparr>" by (simp add: s0)
  have T': "timer_callbacks ((efi_timers s)\<lparr>timer_callbacks := Some (xs @ ys)\<rparr>) \<noteq> None"
    "timed_infos (s\<lparr>efi_timers := (efi_timers s)\<lparr>timer_callbacks := Some (xs @ ys)\<rparr>\<rparr>) = remove1 i (timed_infos s)"
    using T(1) by (simp_all add: s0)
  note res = info_resolved [OF inv info T' disjI1 [OF refl] s0' t]
  show ?thesis
  proof (cases "lookup_hash_entry t (ti_txid info)")
    case None
    then show ?thesis using res(1) info t
      by (simp add: switch_response_timeout_def deref_def with_tx_table_def s0 timed_infos_def)
  next
    case (Some a)
    then obtain tx where tx: "efi_txs s a = Some tx" "tx_ok h tx" "\<not> waits tx (ti_dpid info) \<Longrightarrow> efi_inv {} {} s0 h"
      "\<forall>tx'. tx_txid tx' = tx_txid tx \<longrightarrow> tx_request_param tx' = tx_request_param tx \<longrightarrow>
        (\<forall>d. waits tx' d \<longrightarrow> waits tx d \<and> d \<noteq> ti_dpid info) \<longrightarrow> efi_inv {a} {} (s0\<lparr>efi_txs := (efi_txs s)(a \<mapsto> tx')\<rparr>) h"
      using res(2) [OF Some] by blast
    show ?thesis
    proof (cases "waits tx (ti_dpid info)")
      case False
      then show ?thesis using tx info t Some
        by (simp add: switch_response_timeout_def deref_def with_tx_table_def s0 check_tx_result_and_respond_def tx_ok_def)
    next
      case True
      define tx' where "tx' = tx\<lparr>waiting_dpid := fst (delete_hash_entry (waiting_dpid tx) (ti_dpid info)), tx_result := EFI_OPERATION_FAILED\<rparr>"
      define s1 where "s1 = s0\<lparr>efi_txs := (efi_txs s)(a \<mapsto> tx')\<rparr>"
      have "hash_inv compare_datapath_id hash_datapath_id (\<lambda>_. True) (waiting_dpid tx)" using tx(2) by (simp add: tx_ok_def)
      then have "efi_inv {a} {} s1 h"
        unfolding s1_def by (intro tx(4) [rule_format]) (auto simp: tx'_def waits_insert(2) split: if_splits)
      moreover have "efi_txs s1 a = Some tx'" by (simp add: s1_def)
      ultimately obtain s' where "end_tx a s1 = Ok s'" "efi_inv {} {} s' h" using end_tx_ok [of a "{}" s1 h tx'] by (auto simp: tx'_def)
      then show ?thesis using tx(1) info t Some True
        by (simp add: switch_response_timeout_def deref_def with_tx_table_def s0 check_tx_result_and_respond_def unwait_def tx'_def s1_def)
    qed
  qed
qed

lemma hash_table_is_empty_eq:
  assumes "hash_inv compare_datapath_id hash_datapath_id (\<lambda>_. True) t"
  shows "hash_table_is_empty it t = Ok (\<forall>d. lookup_hash_entry t d = None)"
proof -
  obtain it' where it': "init_hash_iterator t it = Ok it'" "it_ok it'" "it_remaining it' = hash_entries t"
    using datapath_id_keys.iterator_start [OF assms] by blast
  obtain it'' where "iterate_hash_next it' = Ok (case hash_entries t of [] \<Rightarrow> None | e # _ \<Rightarrow> Some e, it'')"
    using iterate_hash_next_eq [OF it'(2)] it'(3) by auto
  moreover have "hash_entries t = [] \<longleftrightarrow> (\<forall>d. lookup_hash_entry t d = None)"
  proof
    assume "\<forall>d. lookup_hash_entry t d = None"
    then show "hash_entries t = []"
      using datapath_id_keys.entries_lookup [OF assms, of _ "snd (hd (hash_entries t))"]
      by (cases "hash_entries t") (fastforce simp: compare_datapath_id_def)+
  next
    assume "hash_entries t = []"
    then show "\<forall>d. lookup_hash_entry t d = None"
      using datapath_id_keys.entries_lookup [OF assms] by (metis empty_iff list.set(1) option.exhaust)
  qed
  ultimately show ?thesis using it'(1)
    by (cases "hash_entries t") (auto simp: hash_table_is_empty_def)
qed

definition answer_events :: "event_forward_operation_result \<Rightarrow> txinfo \<Rightarrow> efi_event list" where
  "answer_events r info = (if efr_result r = EFI_OPERATION_SUCCEEDED then [Answered (ti_txid info) (ti_dpid info)] else [])"

lemma switch_response_handler_ok:
  assumes old: "efi_inv {} {} s h" and info: "efi_infos s i = Some info" and i: "i \<notin> set (pending_infos s)"
    and r: "efr_result r \<in> {EFI_OPERATION_SUCCEEDED, EFI_OPERATION_FAILED}"
  shows "\<exists>s'. switch_response_handler it r i s = Ok s' \<and> efi_inv {} {} s' (h @ answer_events r info)"
proof -
  define h' where "h' = h @ answer_events r info"
  define T where "T = snd (delete_timer_event Switch_response_timeout (Some i) (efi_timers s))"
  define s0 where "s0 = s\<lparr>efi_timers := T, efi_infos := (efi_infos s)(i := None)\<rparr>"
  have inv: "efi_inv {} {} s h'" unfolding h'_def
    by (rule efi_inv_events [OF old]) (simp add: answer_events_def is_requested_def)
  have T: "timer_callbacks T \<noteq> None" "timed_infos (s\<lparr>efi_timers := T\<rparr>) = remove1 i (timed_infos s)"
    using inv timed_cleared unfolding efi_inv_def infos_ok_def by (auto simp: T_def delete_timer_event_def split: option.splits)
  obtain t where t: "efi_tx_table s = Some t" using inv unfolding efi_inv_def table_ok_def by blast
  note res = info_resolved [OF inv info T disjI2 [OF conjI [OF i refl]] s0_def t]
  have goal: "?thesis" if "\<exists>s'. switch_response_handler it r i s = Ok s' \<and> efi_inv {} {} s' h'" using that by (simp add: h'_def)
  show ?thesis
  proof (rule goal, cases "lookup_hash_entry t (ti_txid info)")
    case None
    then show "\<exists>s'. switch_response_handler it r i s = Ok s' \<and> efi_inv {} {} s' h'" using res(1) info t
      by (simp add: switch_response_handler_def deref_def with_tx_table_def s0_def T_def)
  next
    case (Some a)
    then obtain tx where tx: "efi_txs s a = Some tx" "tx_ok h' tx" "tx_txid tx = ti_txid info"
      "\<not> waits tx (ti_dpid info) \<Longrightarrow> efi_inv {} {} s0 h'"
      "\<forall>tx'. tx_txid tx' = tx_txid tx \<longrightarrow> tx_request_param tx' = tx_request_param tx \<longrightarrow>
        (\<forall>d. waits tx' d \<longrightarrow> waits tx d \<and> d \<noteq> ti_dpid info) \<longrightarrow> efi_inv {a} {} (s0\<lparr>efi_txs := (efi_txs s)(a \<mapsto> tx')\<rparr>) h'"
      using res(2) [OF Some] by blast
    have w: "hash_inv compare_datapath_id hash_datapath_id (\<lambda>_. True) (waiting_dpid tx)" using tx(2) by (simp add: tx_ok_def)
    show "\<exists>s'. switch_response_handler it r i s = Ok s' \<and> efi_inv {} {} s' h'"
    proof (cases "waits tx (ti_dpid info)")
      case False
      then show ?thesis using tx(1,4) info t Some
        by (simp add: switch_response_handler_def deref_def with_tx_table_def s0_def T_def)
    next
      case True
      define tx' where "tx' = tx\<lparr>waiting_dpid := fst (delete_hash_entry (waiting_dpid tx) (ti_dpid info)),
        tx_result := (if efr_result r = EFI_OPERATION_FAILED then EFI_OPERATION_FAILED else tx_result tx)\<rparr>"
      define s1 where "s1 = s0\<lparr>efi_txs := (efi_txs s)(a \<mapsto> tx')\<rparr>"
      have w': "hash_inv compare_datapath_id hash_datapath_id (\<lambda>_. True) (waiting_dpid tx')"
        "\<And>d. waits tx' d \<longleftrightarrow> d \<noteq> ti_dpid info \<and> waits tx d"
        using datapath_id_keys.delete_tbl [OF w] by (auto simp: tx'_def waits_insert(2) [OF w])
      have same: "tx_txid tx' = tx_txid tx" "tx_request_param tx' = tx_request_param tx" by (simp_all add: tx'_def)
      have inv1: "efi_inv {a} {} s1 h'" unfolding s1_def using tx(5) same w'(2) by blast
      have tx1: "efi_txs s1 a = Some tx'" by (simp add: s1_def)
      have run: "switch_response_handler it r i s =
          (if efr_result r = EFI_OPERATION_FAILED then end_tx a s1
           else if \<forall>d. \<not> waits tx' d then end_tx a s1 else Ok s1)"
      proof -
        have "unwait a (ti_dpid info) (efr_result r = EFI_OPERATION_FAILED) s0 = Ok s1"
          using tx(1) by (simp add: unwait_def deref_def s0_def s1_def tx'_def)
        moreover have "check_tx_result_and_respond a s1 =
            (if efr_result r = EFI_OPERATION_FAILED then bnd (end_tx a s1) (\<lambda>s. Ok (True, s)) else Ok (False, s1))"
          using tx1 tx(2) by (simp add: check_tx_result_and_respond_def deref_def tx'_def tx_ok_def)
        moreover have "efi_txs s0 = efi_txs s" "efi_tx_table s0 = Some t" using t by (simp_all add: s0_def)
        moreover obtain y where "lookup_hash_entry (waiting_dpid tx) (ti_dpid info) = Some y" using True by blast
        ultimately show ?thesis
          using tx(1) tx1 info Some hash_table_is_empty_eq [OF w'(1), of it]
          unfolding switch_response_handler_def T_def [symmetric]
          by (cases "end_tx a s1"; cases "efr_result r = EFI_OPERATION_FAILED") (simp_all add: deref_def with_tx_table_def Let_def s0_def [symmetric])
      qed
      show ?thesis
      proof (cases "efr_result r = EFI_OPERATION_FAILED")
        case True
        then show ?thesis using end_tx_ok [OF inv1 tx1] run by (auto simp: tx'_def)
      next
        case False
        then have answered: "Answered (tx_txid tx) (ti_dpid info) \<in> set h'" using r tx(3) by (simp add: h'_def answer_events_def)
        have "listed h' (tx_txid tx) (tx_request_param tx) (waits tx)" using tx(2) by (simp add: tx_ok_def)
        then have "listed h' (tx_txid tx) (tx_request_param tx) (waits tx')"
        proof (rule listed_mono)
          fix d assume "waits tx d"
          then show "waits tx' d \<or> Answered (tx_txid tx) d \<in> set h'" using w'(2) [of d] answered by (cases "d = ti_dpid info") auto
        qed simp
        then have listed: "listed h' (tx_txid tx') (tx_request_param tx') (waits tx')" unfolding same .
        show ?thesis
        proof (cases "\<forall>d. \<not> waits tx' d")
          case all: True
          then have "listed h' (tx_txid tx') (tx_request_param tx') (\<lambda>_. False)" using listed by simp
          then show ?thesis using end_tx_ok [OF inv1 tx1] run all by auto
        next
          case some: False
          then have "tx_ok h' tx'" using w'(1) listed tx(2) False by (auto simp: tx_ok_def) (auto simp: tx'_def)
          then show ?thesis using close_tx [OF inv1 tx1] run some False by auto
        qed
      qed
    qed
  qed
qed

section \<open>Requests to all switches\<close>

lemma complete_held:
  assumes inv: "efi_inv {} {p} s h" and p: "holds_param p s" and param: "efi_params s p = Some param"
    and s': "s' = (to_all_completed param EFI_OPERATION_FAILED s)\<lparr>efi_params := (efi_params s)(p := None)\<rparr>"
  shows "efi_inv {} {} s' h"
proof -
  have f: "pending_params s' = pending_params s" "pending_infos s' = pending_infos s" "timed_infos s' = timed_infos s"
    by (simp_all add: pending_params_def pending_infos_def sent_params_def timed_infos_def s')
  have ok: "params_ok s" "fresh_ok s" "answers_ok s h" "counts_ok s h" "owners_ok {p} s h" using inv by (simp_all add: efi_inv_def)
  have "params_ok s'" using ok(1) p unfolding params_ok_def f holds_param_def by (auto simp: s')
  moreover have "fresh_ok s'" using ok(2) unfolding fresh_ok_def by (auto simp: s')
  moreover have "answers_ok s' h" unfolding s' by (rule answers_completed [OF ok(3) param]) simp
  moreover have "counts_ok s' h"
    using ok(4) counts_completed [OF param finite_outstanding [OF ok(2)]] by (simp add: counts_ok_def s')
  moreover have "owners_ok {} s' h"
    using ok(5) unfolding owners_ok_def f by (simp add: s')
  moreover have "table_ok s'" "infos_ok s'" "timed_ok s'" "txs_ok {} s' h"
    using inv by (simp_all add: efi_inv_def table_ok_def infos_ok_def timed_ok_def txs_ok_def f) (simp_all add: s')
  ultimately show ?thesis by (simp add: efi_inv_def)
qed

lemma get_switch_list_ok:
  assumes inv: "efi_inv {} {p} s h" and p: "holds_param p s"
  shows "\<exists>s'. get_switch_list_after_swm_succ accepts r p s = Ok s' \<and> efi_inv {} {} s' h"
proof -
  obtain name where name: "efi_queue_name s = Some name" using efi_inv_queue [OF inv] by blast
  obtain param where param: "efi_params s p = Some param" using p by (auto simp: holds_param_def)
  have req: "efi_switch_list_request accepts (Some Dispatch_to_all_switch) p s =
      (accepts, if accepts then s\<lparr>efi_requests_sent := efi_requests_sent s @ [(manager_service, name, MESSENGER_MANAGEMENT_REQUEST,
         management_application_request EFI_GET_SWLIST [], List_param (Some Dispatch_to_all_switch) p)]\<rparr> else s)"
    using name by (simp add: efi_switch_list_request_def maybe_init_event_forward_interface_def send_efi_request_def)
  show ?thesis
  proof (cases "efr_result r = EFI_OPERATION_SUCCEEDED \<and> accepts")
    case True
    have "efi_inv {} ({p} - set (to_all_address (List_param (Some Dispatch_to_all_switch) p)))
        (s\<lparr>efi_requests_sent := efi_requests_sent s @ [(manager_service, name, MESSENGER_MANAGEMENT_REQUEST,
         management_application_request EFI_GET_SWLIST [], List_param (Some Dispatch_to_all_switch) p)]\<rparr>) h"
      by (rule add_request [OF inv _ _ refl]) (use p in \<open>simp_all add: holds_param_def\<close>)
    then show ?thesis using True req by (simp add: get_switch_list_after_swm_succ_def)
  next
    case False
    then have "get_switch_list_after_swm_succ accepts r p s =
        Ok ((to_all_completed param EFI_OPERATION_FAILED s)\<lparr>efi_params := (efi_params s)(p := None)\<rparr>)"
      using req param by (auto simp: get_switch_list_after_swm_succ_def deref_def xfree_event_forward_operation_to_all_request_param_def)
    with complete_held [OF inv p param refl] show ?thesis by blast
  qed
qed

definition request_events :: "bool \<Rightarrow> nat option \<Rightarrow> nat \<Rightarrow> efi \<Rightarrow> efi_event list" where
  "request_events sent callback u s =
     (case callback of None \<Rightarrow> [] | Some f \<Rightarrow> if sent then [Requested (efi_new s) f u] else [])"

lemma new_param:
  assumes inv: "efi_inv {} {} s h"
    and s': "s' = s\<lparr>efi_new := efi_new s + 1, efi_params := (efi_params s)(efi_new s \<mapsto> param)\<rparr>"
  shows "efi_inv {} {efi_new s} s' (h @ request_events True (to_all_callback param) (to_all_user_data param) s)"
    and "holds_param (efi_new s) s'"
proof -
  let ?p = "efi_new s" and ?es = "request_events True (to_all_callback param) (to_all_user_data param) s"
  have f: "pending_params s' = pending_params s" "pending_infos s' = pending_infos s" "timed_infos s' = timed_infos s"
    by (simp_all add: pending_params_def pending_infos_def sent_params_def timed_infos_def s')
  have ok: "params_ok s" "fresh_ok s" "txs_ok {} s h" "answers_ok s h" "counts_ok s h" "owners_ok {} s h" using inv by (simp_all add: efi_inv_def)
  have new: "efi_params s ?p = None" using fresh_address(2) [OF inv] by (auto simp: domIff)
  show "holds_param ?p s'"
    using ok(1) new unfolding holds_param_def params_ok_def f by (auto simp: s') (metis domIff)
  have more: "listed (h @ ?es) x q w" if "listed h x q w" for x q w using that by (rule listed_mono) auto
  have "params_ok s'" using ok(1) unfolding params_ok_def f by (auto simp: s')
  moreover have "fresh_ok s'" using ok(2) unfolding fresh_ok_def by (auto simp: s' less_Suc_eq subset_iff domIff)
  moreover have "txs_ok {} s' (h @ ?es)" using ok(3) more by (simp add: txs_ok_def tx_ok_def s')
  moreover have "answers_ok s' (h @ ?es)"
  proof -
    have "Requested q f (to_all_user_data prm) \<in> set (h @ ?es)"
      if "efi_params s' q = Some prm" "to_all_callback prm = Some f" for q prm f
      using that ok(4) unfolding answers_ok_def by (cases "q = ?p") (auto simp: s' request_events_def)
    moreover have "efi_calls s' = efi_calls s" by (simp add: s')
    ultimately show ?thesis using ok(4) more unfolding answers_ok_def by (metis Un_iff set_append)
  qed
  moreover have "counts_ok s' (h @ ?es)"
  proof -
    have "outstanding f u s' = (if to_all_callback param = Some f \<and> to_all_user_data param = u then insert ?p (outstanding f u s) else outstanding f u s)"
      "?p \<notin> outstanding f u s" for f u
      using new by (auto simp: outstanding_def s')
    then show ?thesis
      using ok(5) finite_outstanding [OF ok(2)]
      by (auto simp: counts_ok_def request_events_def is_requested_def s' split: option.split)
  qed
  moreover have "owners_ok {?p} s' (h @ ?es)"
    using ok(6) unfolding owners_ok_def f by (auto simp: s')
  moreover have "table_ok s'" "infos_ok s'" "timed_ok s'"
    using inv by (simp_all add: efi_inv_def table_ok_def infos_ok_def timed_ok_def f) (simp_all add: s')
  ultimately show "efi_inv {} {?p} s' (h @ ?es)" by (simp add: efi_inv_def)
qed

lemma to_all_request_ok:
  assumes inv: "efi_inv {} {} s h"
    and send: "\<And>s p. efi_queue_name s \<noteq> None \<Longrightarrow> \<exists>to from tag data. send p s =
      (accepts, if accepts then s\<lparr>efi_requests_sent := efi_requests_sent s @ [(to, from, tag, data, Operation_param (Some Get_switch_list_after_swm_succ) p)]\<rparr> else s)"
  shows "\<exists>s'. (let (p, s) = new_to_all_param param s; (sent_ok, s) = send p s
      in bnd (if \<not> sent_ok then xfree_event_forward_operation_to_all_request_param p s else Ok s) (\<lambda>s. Ok (sent_ok, s))) = Ok (accepts, s') \<and>
     efi_inv {} {} s' (h @ request_events accepts (to_all_callback param) (to_all_user_data param) s)"
proof -
  let ?p = "efi_new s"
  define s1 where "s1 = s\<lparr>efi_new := ?p + 1, efi_params := (efi_params s)(?p \<mapsto> param)\<rparr>"
  note new = new_param [OF inv s1_def]
  have "efi_queue_name s1 \<noteq> None" using efi_inv_queue [OF inv] by (auto simp: s1_def)
  then obtain to "from" tag data where req: "send ?p s1 = (accepts, if accepts then s1\<lparr>efi_requests_sent := efi_requests_sent s1 @
      [(to, from, tag, data, Operation_param (Some Get_switch_list_after_swm_succ) ?p)]\<rparr> else s1)"
    using send by blast
  show ?thesis
  proof (cases accepts)
    case True
    have "efi_inv {} ({?p} - set (to_all_address (Operation_param (Some Get_switch_list_after_swm_succ) ?p)))
        (s1\<lparr>efi_requests_sent := efi_requests_sent s1 @ [(to, from, tag, data, Operation_param (Some Get_switch_list_after_swm_succ) ?p)]\<rparr>)
        (h @ request_events True (to_all_callback param) (to_all_user_data param) s)"
      by (rule add_request [OF new(1) _ _ refl]) (use new(2) in \<open>simp_all add: holds_param_def\<close>)
    then show ?thesis using True req by (simp add: new_to_all_param_def s1_def)
  next
    case False
    have freed: "((efi_params s)(?p \<mapsto> param))(?p := None) = efi_params s"
      using fresh_address(2) [OF inv] by (auto simp: fun_eq_iff)
    have "efi_inv {} {} (s\<lparr>efi_new := ?p + 1, efi_infos := efi_infos s\<rparr>) h" by (rule new_info [OF inv _ refl]) simp
    then show ?thesis using False req freed
      by (simp add: new_to_all_param_def s1_def xfree_event_forward_operation_to_all_request_param_def deref_def
          request_events_def option.case_eq_if)
  qed
qed

lemma config_request_shape:
  assumes "efi_queue_name s \<noteq> None"
    and "command \<in> {EVENT_FORWARD_ENTRY_ADD, EVENT_FORWARD_ENTRY_DELETE, EVENT_FORWARD_ENTRY_DUMP, EVENT_FORWARD_ENTRY_SET}"
  shows "\<exists>to from tag data. send_efi_event_config_request accepts (Some service) command type services callback p s =
     (accepts, if accepts then s\<lparr>efi_requests_sent := efi_requests_sent s @ [(to, from, tag, data, Operation_param callback p)]\<rparr> else s)"
  using assms config_request_eq by (metis option.exhaust)

lemma to_all_switches_ok:
  assumes "efi_inv {} {} s h"
  shows "\<exists>s'. add_event_forward_entry_to_all_switches accepts type name callback u s = Ok (accepts, s') \<and>
     efi_inv {} {} s' (h @ request_events accepts callback u s)"
    and "\<exists>s'. delete_event_forward_entry_to_all_switches accepts type name callback u s = Ok (accepts, s') \<and>
     efi_inv {} {} s' (h @ request_events accepts callback u s)"
  using to_all_request_ok [OF assms, of "\<lambda>p. send_efi_event_config_request accepts (Some manager_service) EVENT_FORWARD_ENTRY_ADD type [name] (Some Get_switch_list_after_swm_succ) p"
      accepts "\<lparr>to_all_add = True, to_all_type = type, to_all_service_name = name, to_all_callback = callback, to_all_user_data = u\<rparr>",
      OF config_request_shape]
    to_all_request_ok [OF assms, of "\<lambda>p. send_efi_event_config_request accepts (Some manager_service) EVENT_FORWARD_ENTRY_DELETE type [name] (Some Get_switch_list_after_swm_succ) p"
      accepts "\<lparr>to_all_add = False, to_all_type = type, to_all_service_name = name, to_all_callback = callback, to_all_user_data = u\<rparr>",
      OF config_request_shape]
  by (simp_all add: add_event_forward_entry_to_all_switches_def add_switch_manager_event_forward_entry_def
      delete_event_forward_entry_to_all_switches_def delete_switch_manager_event_forward_entry_def)

end
