(* ===== verification/Event_Forward_Runs.thy ===== *)
theory Event_Forward_Runs
  imports Event_Forward_Handlers
begin

text \<open>
  The runs of a process that uses the event forward interface: sequences of requests of the user, replies
  of other processes, requests that are never answered, and timeouts.  The invariant holds in all of them.
\<close>

section \<open>Runs\<close>

datatype efi_user_request =
  Set_manager_entries "8 word" "bytes list"
| Add_manager_entry "8 word" bytes
| Delete_manager_entry "8 word" bytes
| Dump_manager_entries "8 word"
| Set_switch_entries "64 word" "8 word" "bytes list"
| Add_switch_entry "64 word" "8 word" bytes
| Delete_switch_entry "64 word" "8 word" bytes
| Dump_switch_entries "64 word" "8 word"
| Switch_list

text \<open>The calls of the low level interface, with a callback of the user.\<close>

fun user_request :: "efi_user_request \<Rightarrow> bool \<Rightarrow> nat option \<Rightarrow> nat \<Rightarrow> efi \<Rightarrow> bool \<times> efi" where
  "user_request (Set_manager_entries type services) accepts f u =
     set_switch_manager_event_forward_entries accepts type services (map_option Operation_callback f) u"
| "user_request (Add_manager_entry type name) accepts f u =
     add_switch_manager_event_forward_entry accepts type name (map_option Operation_callback f) u"
| "user_request (Delete_manager_entry type name) accepts f u =
     delete_switch_manager_event_forward_entry accepts type name (map_option Operation_callback f) u"
| "user_request (Dump_manager_entries type) accepts f u =
     dump_switch_manager_event_forward_entries accepts type (map_option Operation_callback f) u"
| "user_request (Set_switch_entries dpid type services) accepts f u =
     set_switch_event_forward_entries accepts dpid type services (map_option Operation_callback f) u"
| "user_request (Add_switch_entry dpid type name) accepts f u =
     add_switch_event_forward_entry accepts dpid type name (map_option Operation_callback f) u"
| "user_request (Delete_switch_entry dpid type name) accepts f u =
     delete_switch_event_forward_entry accepts dpid type name (map_option Operation_callback f) u"
| "user_request (Dump_switch_entries dpid type) accepts f u =
     dump_switch_event_forward_entries accepts dpid type (map_option Operation_callback f) u"
| "user_request Switch_list accepts f u = efi_switch_list_request accepts (map_option List_callback f) u"

text \<open>The replies that reach one of the two handlers; the others leave their request without an answer.\<close>

definition reply_read :: "16 word \<Rightarrow> bytes option \<Rightarrow> nat \<Rightarrow> bool" where
  "reply_read tag data n \<longleftrightarrow> tag = MESSENGER_MANAGEMENT_REPLY \<and> data \<noteq> None \<and> 12 \<le> n \<and>
     rd16 (the data) 0 = Ok MANAGEMENT_APPLICATION_REPLY \<and>
     (\<exists>command. rd32 (the data) 8 = Ok command \<and> command \<in> {EVENT_FORWARD_ENTRY_ADD, EVENT_FORWARD_ENTRY_DELETE,
        EVENT_FORWARD_ENTRY_DUMP, EVENT_FORWARD_ENTRY_SET, EFI_GET_SWLIST})"

text \<open>
  A reply is complete for a request when its bytes are there, with the one behind them that the code
  overwrites, when it is not an answer to a command of the other kind, and when an answer about
  entries has room for its fixed fields.
\<close>

definition entry_commands :: "32 word set" where
  "entry_commands = {EVENT_FORWARD_ENTRY_ADD, EVENT_FORWARD_ENTRY_DELETE, EVENT_FORWARD_ENTRY_DUMP, EVENT_FORWARD_ENTRY_SET}"

definition reply_complete :: "bytes option \<Rightarrow> nat \<Rightarrow> efi_request_param \<Rightarrow> bool" where
  "reply_complete data n param \<longleftrightarrow>
     (\<forall>bs. data = Some bs \<longrightarrow> n < length bs \<and>
       (case param of
          Operation_param _ _ \<Rightarrow> (n < 12 \<or> 20 \<le> n) \<and> rd32 bs 8 \<noteq> Ok EFI_GET_SWLIST
        | List_param _ _ \<Rightarrow> (\<forall>command \<in> entry_commands. rd32 bs 8 \<noteq> Ok command)))"

definition reply_events :: "16 word \<Rightarrow> bytes option \<Rightarrow> nat \<Rightarrow> efi_request_param \<Rightarrow> efi \<Rightarrow> efi_event list" where
  "reply_events tag data n param s =
     (if \<not> reply_read tag data n then map Lost (to_all_address param)
      else case param of
        Operation_param (Some Switch_response_handler) i \<Rightarrow>
          (case operation_result (the data) n of Ok r \<Rightarrow> answer_events r (the (efi_infos s i)) | Fault _ \<Rightarrow> [])
      | List_param (Some Dispatch_to_all_switch) p \<Rightarrow>
          (case switch_list (the data) n of Ok dpids \<Rightarrow> [Dispatched (efi_txid s + 1) p dpids] | Fault _ \<Rightarrow> [])
      | _ \<Rightarrow> [])"

definition efi_unused :: "efi \<Rightarrow> bool" where
  "efi_unused s \<longleftrightarrow> efi_queue_name s = None \<and> efi_txs s = Map.empty \<and> efi_params s = Map.empty \<and> efi_infos s = Map.empty \<and>
     timer_callbacks (efi_timers s) = Some [] \<and> efi_requests_sent s = [] \<and> efi_calls s = []"

text \<open>
  The runs of an interface from its initialization on, as long as it is not finalized.  A reply and a
  request that is never answered take the request out of the messenger's table of contexts.  A timer that has
  fired is no longer in the list.  The runs end before the ids of transactions wrap around, after $2^{32} - 1$ of
  them.
\<close>

inductive efi_run :: "efi \<Rightarrow> efi_event list \<Rightarrow> bool" where
  start: "efi_unused s \<Longrightarrow> init_event_forward_interface s = (True, s') \<Longrightarrow> efi_run s' []"
| add_all: "efi_run s h \<Longrightarrow> add_event_forward_entry_to_all_switches accepts type name callback u s = Ok (sent, s') \<Longrightarrow>
     efi_run s' (h @ request_events sent callback u s)"
| delete_all: "efi_run s h \<Longrightarrow> delete_event_forward_entry_to_all_switches accepts type name callback u s = Ok (sent, s') \<Longrightarrow>
     efi_run s' (h @ request_events sent callback u s)"
| user: "efi_run s h \<Longrightarrow> user_request req accepts f u s = (sent, s') \<Longrightarrow> efi_run s' h"
| reply: "efi_run s h \<Longrightarrow> efi_requests_sent s = xs @ (to, from, tag', req, param) # ys \<Longrightarrow> n < 2 ^ 32 \<Longrightarrow> efi_txid s \<noteq> - 1 \<Longrightarrow>
     handle_efi_reply it ev tag data n param (s\<lparr>efi_requests_sent := xs @ ys\<rparr>) = Ok s' \<Longrightarrow>
     efi_run s' (h @ reply_events tag data n param s)"
| unanswered: "efi_run s h \<Longrightarrow> efi_requests_sent s = xs @ (to, from, tag', req, param) # ys \<Longrightarrow>
     efi_run (s\<lparr>efi_requests_sent := xs @ ys\<rparr>) (h @ map Lost (to_all_address param))"
| timeout: "efi_run s h \<Longrightarrow> timer_callbacks (efi_timers s) = Some (xs @ cb # ys) \<Longrightarrow>
     tm_function cb = Some Switch_response_timeout \<Longrightarrow> tm_user_data cb = Some i \<Longrightarrow>
     switch_response_timeout i (s\<lparr>efi_timers := (efi_timers s)\<lparr>timer_callbacks := Some (xs @ ys)\<rparr>\<rparr>) = Ok s' \<Longrightarrow>
     efi_run s' h"

lemma init_efi_inv: "efi_unused s \<Longrightarrow> init_event_forward_interface s = (True, s') \<Longrightarrow> efi_inv {} {} s' []"
  by (auto simp: efi_unused_def init_event_forward_interface_def efi_inv_def table_ok_def params_ok_def infos_ok_def
      fresh_ok_def timed_ok_def txs_ok_def answers_ok_def counts_ok_def owners_ok_def outstanding_def pending_params_def
      pending_infos_def sent_params_def timed_infos_def create_hash_def default_hash_size_def uint32_keys.create_tbl
      uint32_keys.lookup_create Let_def)

lemma user_request_config:
  assumes "req \<noteq> Switch_list"
  obtains service command type services where "command \<in> {EVENT_FORWARD_ENTRY_ADD, EVENT_FORWARD_ENTRY_DELETE, EVENT_FORWARD_ENTRY_DUMP, EVENT_FORWARD_ENTRY_SET}"
    "user_request req accepts f u s = send_efi_event_config_request accepts (Some service) command type services (map_option Operation_callback f) u s"
  using assms that
  by (cases req) (simp_all add: set_switch_manager_event_forward_entries_def add_switch_manager_event_forward_entry_def
      delete_switch_manager_event_forward_entry_def dump_switch_manager_event_forward_entries_def
      set_switch_event_forward_entries_def add_switch_event_forward_entry_def delete_switch_event_forward_entry_def
      dump_switch_event_forward_entries_def, blast+)

lemma user_request_shape:
  assumes "efi_queue_name s \<noteq> None" and "user_request req accepts f u s = (sent, s')"
  shows "s' = s \<or> (\<exists>to from tag data param. to_all_address param = [] \<and> info_address param = [] \<and>
     s' = s\<lparr>efi_requests_sent := efi_requests_sent s @ [(to, from, tag, data, param)]\<rparr>)"
proof -
  obtain name where name: "efi_queue_name s = Some name" using assms(1) by blast
  have none: "to_all_address (Operation_param (map_option Operation_callback f) u) = []"
    "info_address (Operation_param (map_option Operation_callback f) u) = []"
    "to_all_address (List_param (map_option List_callback f) u) = []" "info_address (List_param (map_option List_callback f) u) = []"
    by (cases f; simp)+
  show ?thesis
  proof (cases "req = Switch_list")
    case True
    then have "s' = s \<or> s' = s\<lparr>efi_requests_sent := efi_requests_sent s @ [(manager_service, name, MESSENGER_MANAGEMENT_REQUEST,
        management_application_request EFI_GET_SWLIST [], List_param (map_option List_callback f) u)]\<rparr>"
      using assms(2) name
      by (auto simp: efi_switch_list_request_def maybe_init_event_forward_interface_def send_efi_request_def split: if_splits)
    then show ?thesis using none by blast
  next
    case False
    obtain service command type services
      where "command \<in> {EVENT_FORWARD_ENTRY_ADD, EVENT_FORWARD_ENTRY_DELETE, EVENT_FORWARD_ENTRY_DUMP, EVENT_FORWARD_ENTRY_SET}"
        "user_request req accepts f u s = send_efi_event_config_request accepts (Some service) command type services (map_option Operation_callback f) u s"
      by (rule user_request_config [OF False])
    with config_request_shape [OF assms(1) this(1), of accepts service type services "map_option Operation_callback f" u] assms(2)
    have "s' = s \<or> (\<exists>to from tag data. s' = s\<lparr>efi_requests_sent := efi_requests_sent s @
        [(to, from, tag, data, Operation_param (map_option Operation_callback f) u)]\<rparr>)"
      by (auto split: if_splits)
    then show ?thesis using none by blast
  qed
qed

lemma user_request_ok:
  assumes inv: "efi_inv {} {} s h" and "user_request req accepts f u s = (sent, s')"
  shows "efi_inv {} {} s' h"
proof -
  have "efi_queue_name s \<noteq> None" using efi_inv_queue [OF inv] by auto
  from user_request_shape [OF this assms(2)] show ?thesis
  proof (elim disjE exE conjE)
    fix to "from" tag data param
    assume none: "to_all_address param = []" "info_address param = []"
      and s': "s' = s\<lparr>efi_requests_sent := efi_requests_sent s @ [(to, from, tag, data, param)]\<rparr>"
    have "efi_inv {} ({} - set (to_all_address param)) s' h" by (rule add_request [OF inv _ _ s']) (simp_all add: none)
    then show ?thesis by simp
  qed (use inv in simp)
qed

lemma length_read_dpids: "read_dpids bs i n = Ok ds \<Longrightarrow> length ds = n"
  by (induction n arbitrary: i ds) (auto simp: bnd_eq_Ok)

lemma rd_cases:
  "rd8 bs i = Fault Out_of_bounds \<or> (\<exists>v. rd8 bs i = Ok v)" "rd16 bs i = Fault Out_of_bounds \<or> (\<exists>v. rd16 bs i = Ok v)"
  "rd32 bs i = Fault Out_of_bounds \<or> (\<exists>v. rd32 bs i = Ok v)" "rd64 bs i = Fault Out_of_bounds \<or> (\<exists>v. rd64 bs i = Ok v)"
  by (simp_all add: rd_def)

lemma read_dpids_cases: "read_dpids bs i n = Fault Out_of_bounds \<or> (\<exists>ds. read_dpids bs i n = Ok ds)"
proof (induction n arbitrary: i)
  case (Suc n)
  then show ?case using rd_cases(4) [of bs i] Suc [of "i + 8"] by (elim disjE exE) simp_all
qed simp

lemma read_dpids_inside: "i + 8 * k \<le> length bs \<Longrightarrow> \<exists>ds. read_dpids bs i k = Ok ds"
proof (induction k arbitrary: i)
  case (Suc k)
  have "(i + 8) + 8 * k \<le> length bs" using Suc.prems by simp
  from Suc.IH [OF this] obtain ds where "read_dpids bs (i + 8) k = Ok ds" ..
  then show ?case using Suc.prems by simp
qed simp

lemma complete_results:
  assumes "n < length bs"
  shows "20 \<le> n \<Longrightarrow> operation_result bs n \<noteq> Fault Out_of_bounds"
    and "12 \<le> n \<Longrightarrow> switch_list bs n \<noteq> Fault Out_of_bounds"
proof -
  show "20 \<le> n \<Longrightarrow> operation_result bs n \<noteq> Fault Out_of_bounds" using assms by (simp add: operation_result_def rd_def)
  assume "12 \<le> n"
  then have "12 + 8 * ((n - 12) div 8) \<le> length bs" using assms by linarith
  then obtain ds where "read_dpids bs 12 ((n - 12) div 8) = Ok ds" using read_dpids_inside by blast
  then show "switch_list bs n \<noteq> Fault Out_of_bounds" using assms \<open>12 \<le> n\<close> by (simp add: switch_list_def rd_def)
qed

lemma operation_result_cases:
  "operation_result bs n = Fault Out_of_bounds \<or>
   (\<exists>r. operation_result bs n = Ok r \<and> efr_result r \<in> {EFI_OPERATION_SUCCEEDED, EFI_OPERATION_FAILED})"
  using rd_cases(3) [of bs 16] rd_cases(1) [of bs 2] rd_cases(1) [of bs 13]
  by (elim disjE exE) (simp_all add: operation_result_def)

lemma switch_list_cases:
  "switch_list bs n = Fault Out_of_bounds \<or>
   (\<exists>dpids. switch_list bs n = Ok dpids \<and> (\<forall>ds. dpids = Some ds \<longrightarrow> length ds \<le> n))"
  using rd_cases(1) [of bs 2] read_dpids_cases [of bs 12 "(n - 12) div 8"] length_read_dpids [of bs 12 "(n - 12) div 8"]
    order_trans [OF div_le_dividend diff_le_self, of n 12 8]
  by (elim disjE exE) (simp_all add: switch_list_def)

lemma other_call:
  assumes "efi_inv A L s h" and "\<And>f r u. c \<noteq> To_all_done f r u" and s': "s' = s\<lparr>efi_calls := efi_calls s @ [c]\<rparr>"
  shows "efi_inv A L s' h"
proof -
  have "pending_params s' = pending_params s" "pending_infos s' = pending_infos s" "timed_infos s' = timed_infos s"
    by (simp_all add: pending_params_def pending_infos_def sent_params_def timed_infos_def s')
  with assms show ?thesis
    by (simp add: efi_inv_def table_ok_def params_ok_def infos_ok_def fresh_ok_def timed_ok_def txs_ok_def answers_ok_def
        counts_ok_def owners_ok_def outstanding_def is_answer_def) metis
qed

lemma list_reply_ok:
  assumes inv: "efi_inv {} (set (to_all_address (List_param callback u))) s0 h" and read: "reply_read tag data n"
    and held: "\<And>p. p \<in> set (to_all_address (List_param callback u)) \<Longrightarrow> holds_param p s0"
    and n: "n < 2 ^ 32" and x: "efi_txid s0 \<noteq> - 1" "efi_txid s0 = efi_txid s" and "data = Some bs"
  shows "switch_list bs n = Fault Out_of_bounds \<and> handle_get_switch_list_reply ev bs n callback u s0 = Fault Out_of_bounds \<or>
     (\<exists>s'. handle_get_switch_list_reply ev bs n callback u s0 = Ok s' \<and> efi_inv {} {} s' (h @ reply_events tag data n (List_param callback u) s))"
  using switch_list_cases [of bs n]
proof (elim disjE exE conjE)
  fix dpids assume dpids: "switch_list bs n = Ok dpids" "\<forall>ds. dpids = Some ds \<longrightarrow> length ds \<le> n"
  have run: "handle_get_switch_list_reply ev bs n callback u s0 = list_completed ev dpids callback u s0"
    using dpids(1) by (simp add: handle_get_switch_list_reply_def)
  show ?thesis
  proof (cases callback)
    case None
    then show ?thesis using inv read run by (simp add: list_completed_def reply_events_def)
  next
    case (Some cb)
    show ?thesis
    proof (cases cb)
      case (List_callback f)
      have "efi_inv {} {} (s0\<lparr>efi_calls := efi_calls s0 @ [List_done f dpids u]\<rparr>) h"
        by (rule other_call [OF _ _ refl]) (use inv Some List_callback in auto)
      then show ?thesis using read run Some List_callback by (simp add: list_completed_def reply_events_def)
    next
      case Dispatch_to_all_switch
      have "efi_inv {} {u} s0 h" "holds_param u s0" using inv held Some Dispatch_to_all_switch by simp_all
      from dispatch_to_all_ok [OF this x(1), of dpids ev] dpids n
      show ?thesis using read run Some Dispatch_to_all_switch assms(7) x(2)
        by (fastforce simp: list_completed_def reply_events_def)
    qed
  qed
qed (simp add: handle_get_switch_list_reply_def)

lemma operation_reply_ok:
  assumes inv: "efi_inv {} (set (to_all_address (Operation_param callback u))) s0 h" and read: "reply_read tag data n"
    and held: "\<And>p. p \<in> set (to_all_address (Operation_param callback u)) \<Longrightarrow> holds_param p s0"
    and info: "\<And>i. i \<in> set (info_address (Operation_param callback u)) \<Longrightarrow> i \<in> dom (efi_infos s0) - set (pending_infos s0)"
    and "efi_infos s0 = efi_infos s" and "data = Some bs"
  shows "operation_result bs n = Fault Out_of_bounds \<and> handle_event_forward_operation_reply it accepts bs n callback u s0 = Fault Out_of_bounds \<or>
     (\<exists>s'. handle_event_forward_operation_reply it accepts bs n callback u s0 = Ok s' \<and>
       efi_inv {} {} s' (h @ reply_events tag data n (Operation_param callback u) s))"
  using operation_result_cases [of bs n]
proof (elim disjE exE conjE)
  fix r assume r: "operation_result bs n = Ok r" "efr_result r \<in> {EFI_OPERATION_SUCCEEDED, EFI_OPERATION_FAILED}"
  have run: "handle_event_forward_operation_reply it accepts bs n callback u s0 = operation_completed it accepts r callback u s0"
    using r(1) by (simp add: handle_event_forward_operation_reply_def)
  show ?thesis
  proof (cases callback)
    case None
    then show ?thesis using inv read run by (simp add: operation_completed_def reply_events_def)
  next
    case (Some cb)
    show ?thesis
    proof (cases cb)
      case (Operation_callback f)
      have "efi_inv {} {} (s0\<lparr>efi_calls := efi_calls s0 @ [Operation_done f r u]\<rparr>) h"
        by (rule other_call [OF _ _ refl]) (use inv Some Operation_callback in auto)
      then show ?thesis using read run Some Operation_callback by (simp add: operation_completed_def reply_events_def)
    next
      case Get_switch_list_after_swm_succ
      have "efi_inv {} {u} s0 h" "holds_param u s0" using inv held Some Get_switch_list_after_swm_succ by simp_all
      from get_switch_list_ok [OF this, of accepts r] show ?thesis using read run Some Get_switch_list_after_swm_succ
        by (auto simp: operation_completed_def reply_events_def)
    next
      case Switch_response_handler
      then obtain ti where "efi_infos s0 u = Some ti" "u \<notin> set (pending_infos s0)" using info Some by auto
      moreover have "efi_inv {} {} s0 h" using inv Some Switch_response_handler by simp
      ultimately show ?thesis
        using switch_response_handler_ok [of s0 h u ti r it] r read run Some Switch_response_handler assms(5,6)
        by (auto simp: operation_completed_def reply_events_def)
    qed
  qed
qed (simp add: handle_event_forward_operation_reply_def)

text \<open>A reply leaves the invariant intact, or is one that is not complete.\<close>

lemma handle_efi_reply_ok:
  assumes inv: "efi_inv {} {} s h" and sent: "efi_requests_sent s = xs @ (to, from, tag', req, param) # ys"
    and n: "n < 2 ^ 32" and x: "efi_txid s \<noteq> - 1" and s0: "s0 = s\<lparr>efi_requests_sent := xs @ ys\<rparr>"
  shows "\<not> reply_complete data n param \<and> handle_efi_reply it ev tag data n param s0 \<in> {Fault Out_of_bounds, Fault Bad_call} \<or>
     (\<exists>s'. handle_efi_reply it ev tag data n param s0 = Ok s' \<and> efi_inv {} {} s' (h @ reply_events tag data n param s))"
proof -
  note take = take_request(1) [OF inv sent s0] take_request(2) [OF inv sent s0, folded holds_param_def]
    take_request(3) [OF inv sent s0]
  have same: "efi_infos s0 = efi_infos s" "efi_txid s0 = efi_txid s" by (simp_all add: s0)
  show ?thesis
  proof (cases "reply_read tag data n")
    case False
    have "efi_inv {} {} s0 (h @ reply_events tag data n param s)"
      using held_lost [OF take(1)] False by (simp add: reply_events_def)
    moreover have "handle_efi_reply it ev tag data n param s0 \<in> {Fault Out_of_bounds, Fault Bad_call, Ok s0}"
      using False rd_cases(2) [of "the data" 0] rd_cases(3) [of "the data" 8]
      by (cases data; elim disjE exE) (auto simp: reply_read_def handle_efi_reply_def)
    moreover have "handle_efi_reply it ev tag data n param s0 = Ok s0" if "reply_complete data n param"
      using False that by (cases data) (auto simp: reply_read_def reply_complete_def handle_efi_reply_def rd_def)
    ultimately show ?thesis by auto
  next
    case True
    then obtain bs command where bs: "data = Some bs" "tag = MESSENGER_MANAGEMENT_REPLY" "12 \<le> n"
      "rd16 bs 0 = Ok MANAGEMENT_APPLICATION_REPLY" "rd32 bs 8 = Ok command"
      "command \<in> {EVENT_FORWARD_ENTRY_ADD, EVENT_FORWARD_ENTRY_DELETE, EVENT_FORWARD_ENTRY_DUMP, EVENT_FORWARD_ENTRY_SET, EFI_GET_SWLIST}"
      by (auto simp: reply_read_def)
    show ?thesis
    proof (cases "command = EFI_GET_SWLIST")
      case swlist: True
      have eq: "handle_efi_reply it ev tag data n param s0 = (case param of Operation_param _ _ \<Rightarrow> Fault Bad_call
          | List_param callback u \<Rightarrow> handle_get_switch_list_reply ev bs n callback u s0)"
        using bs swlist by (simp add: handle_efi_reply_def)
      show ?thesis
      proof (cases param)
        case (List_param callback u)
        note a = take(1,2) [unfolded List_param]
        have "efi_txid s0 \<noteq> - 1" using x same(2) by simp
        have "\<not> reply_complete data n param" if "switch_list bs n = Fault Out_of_bounds"
          using that complete_results(2) [of n bs] bs(1,3) by (auto simp: reply_complete_def)
        with list_reply_ok [OF a(1) True a(2) n \<open>efi_txid s0 \<noteq> - 1\<close> same(2) bs(1), of ev] show ?thesis
          unfolding eq by (auto simp: List_param)
      next
        case (Operation_param callback u)
        then have "\<not> reply_complete data n param" using bs(1,5) swlist by (simp add: reply_complete_def)
        then show ?thesis unfolding eq using Operation_param by simp
      qed
    next
      case False
      have eq: "handle_efi_reply it ev tag data n param s0 = (case param of List_param _ _ \<Rightarrow> Fault Bad_call
          | Operation_param callback u \<Rightarrow> handle_event_forward_operation_reply it (env_accepts ev 0) bs n callback u s0)"
        using bs False by (auto simp: handle_efi_reply_def)
      show ?thesis
      proof (cases param)
        case (Operation_param callback u)
        note a = take [unfolded Operation_param]
        have "\<not> reply_complete data n param" if "operation_result bs n = Fault Out_of_bounds"
          using that complete_results(1) [of n bs] bs(1,3) Operation_param by (auto simp: reply_complete_def)
        with operation_reply_ok [OF a(1) True a(2,3) same(1) bs(1), of it "env_accepts ev 0"] show ?thesis
          unfolding eq by (auto simp: Operation_param)
      next
        case (List_param callback u)
        then have "\<not> reply_complete data n param" using bs(1,5,6) False by (auto simp: reply_complete_def entry_commands_def)
        then show ?thesis unfolding eq using List_param by simp
      qed
    qed
  qed
qed

lemma efi_run_inv: "efi_run s h \<Longrightarrow> efi_inv {} {} s h"
proof (induction rule: efi_run.induct)
  case (reply s h xs to "from" tag' req param ys n it ev tag data s')
  then show ?case using handle_efi_reply_ok [OF reply.IH reply.hyps(2-4) refl, where it = it and ev = ev and tag = tag and data = data] by auto
next
  case (unanswered s h xs to "from" tag' req param ys)
  then show ?case using held_lost [OF take_request(1) [OF unanswered.IH unanswered.hyps(2) refl]] by simp
next
  case (timeout s h xs cb ys i s')
  then show ?case using switch_response_timeout_ok [OF timeout.IH timeout.hyps(2-4) refl] by auto
next
  case (add_all s h accepts type name callback u sent s')
  then show ?case using to_all_switches_ok(1) [OF add_all.IH, of accepts type name callback u] by auto
next
  case (delete_all s h accepts type name callback u sent s')
  then show ?case using to_all_switches_ok(2) [OF delete_all.IH, of accepts type name callback u] by auto
qed (auto intro: init_efi_inv user_request_ok)

end
