(* ===== verification/Event_Forward_Properties.thy ===== *)
theory Event_Forward_Properties
  imports Event_Forward_Runs Switch_Properties
begin

text \<open>
  What the event forward interface promises to a process that uses it, over all runs, and where it departs
  from its intent.
\<close>

section \<open>An example\<close>

text \<open>
  A process asks for an entry at all switches, the switch manager accepts it and lists one switch, and
  the switch answers.
\<close>

definition idle_efi :: efi where
  "idle_efi = \<lparr>efi_trema_name = [100], efi_pid = 1, efi_queue_name = None, efi_tx_table = None, efi_txid = 0,
     efi_txs = Map.empty, efi_params = Map.empty, efi_infos = Map.empty, efi_new = 1,
     efi_timers = \<lparr>timer_callbacks = Some [], timer_calls = []\<rparr>, efi_replied_callbacks = [], efi_requests_sent = [], efi_calls = []\<rparr>"

definition sample_efi_env :: efi_env where
  "sample_efi_env = \<lparr>env_accepts = \<lambda>_. True, env_clock = \<lambda>_. Some \<lparr>tv_sec = 1, tv_nsec = 0\<rparr>\<rparr>"

definition blank_iterator :: "('k, 'v) hash_iterator" where
  "blank_iterator = \<lparr>it_buckets = \<lambda>_. None, it_bucket_index = None, it_next_bucket_index = [], it_element = []\<rparr>"

definition answer_first :: "bytes \<Rightarrow> efi \<Rightarrow> efi res" where
  "answer_first reply s =
     (case efi_requests_sent s of
        [] \<Rightarrow> Fault No_return
      | (to, from, tag, req, param) # ys \<Rightarrow>
          handle_efi_reply blank_iterator sample_efi_env MESSENGER_MANAGEMENT_REPLY (Some (reply @ [0])) (length reply) param
            (s\<lparr>efi_requests_sent := ys\<rparr>))"

definition entry_reply :: bytes where
  "entry_reply = create_management_application_reply MANAGEMENT_REQUEST_SUCCEEDED EVENT_FORWARD_ENTRY_ADD
     (create_event_forward_operation_reply EVENT_FORWARD_TYPE_PACKET_IN EFI_OPERATION_SUCCEEDED [[97]])"

definition list_reply :: bytes where
  "list_reply = create_management_application_reply MANAGEMENT_REQUEST_SUCCEEDED EFI_GET_SWLIST (put64 1)"

definition asked_efi :: "efi res" where
  "asked_efi = bnd (add_event_forward_entry_to_all_switches True EVENT_FORWARD_TYPE_PACKET_IN [97] (Some 5) 6
     (snd (init_event_forward_interface idle_efi))) (\<lambda>(_, s). Ok s)"

definition listing_efi :: "efi res" where
  "listing_efi = bnd asked_efi (answer_first entry_reply)"

definition dispatched_efi :: "efi res" where
  "dispatched_efi = bnd listing_efi (answer_first list_reply)"

definition answered_efi :: "efi res" where
  "answered_efi = bnd dispatched_efi (answer_first entry_reply)"

lemma example_values:
  "bnd asked_efi (\<lambda>s. Ok (efi_txid s)) = Ok 0"
  "bnd listing_efi (\<lambda>s. Ok (efi_txid s, sent_params s, map_option to_all_callback (efi_params s 1))) =
     Ok (0, [List_param (Some Dispatch_to_all_switch) 1], Some (Some 5))"
  "bnd dispatched_efi (\<lambda>s. Ok (efi_txid s, efi_params s 1 \<noteq> None, timed_infos s, map_option (\<lambda>t. length (hash_entries t)) (efi_tx_table s))) =
     Ok (1, True, [3], Some 1)"
  "bnd answered_efi (\<lambda>s. Ok (efi_calls s)) = Ok [To_all_done 5 EFI_OPERATION_SUCCEEDED 6]"
  by code_simp+

lemma example_asked: "\<exists>s. asked_efi = Ok s \<and> efi_run s [Requested 1 5 6]"
proof -
  have "init_event_forward_interface idle_efi = (True, snd (init_event_forward_interface idle_efi))"
    by (simp add: init_event_forward_interface_def idle_efi_def Let_def)
  then have run: "efi_run (snd (init_event_forward_interface idle_efi)) []"
    by (rule efi_run.start [rotated]) (simp add: efi_unused_def idle_efi_def)
  from to_all_switches_ok(1) [OF efi_run_inv [OF run], of True EVENT_FORWARD_TYPE_PACKET_IN "[97]" "Some 5" 6]
  obtain s where "add_event_forward_entry_to_all_switches True EVENT_FORWARD_TYPE_PACKET_IN [97] (Some 5) 6
      (snd (init_event_forward_interface idle_efi)) = Ok (True, s)" by blast
  moreover from efi_run.add_all [OF run this] have "efi_run s [Requested 1 5 6]"
    by (simp add: request_events_def init_event_forward_interface_def idle_efi_def Let_def)
  ultimately show ?thesis by (simp add: asked_efi_def)
qed

lemma answer_first_run:
  assumes "efi_run s h" and "answer_first reply s = Ok s'" and "length reply < 2 ^ 32" and "efi_txid s \<noteq> - 1"
  shows "\<exists>h'. efi_run s' h'"
proof -
  obtain to "from" tag req param ys where sent: "efi_requests_sent s = [] @ (to, from, tag, req, param) # ys"
    using assms(2) by (cases "efi_requests_sent s") (auto simp: answer_first_def)
  then have "handle_efi_reply blank_iterator sample_efi_env MESSENGER_MANAGEMENT_REPLY (Some (reply @ [0])) (length reply) param
      (s\<lparr>efi_requests_sent := [] @ ys\<rparr>) = Ok s'"
    using assms(2) by (simp add: answer_first_def)
  from efi_run.reply [OF assms(1) sent assms(3,4) this] show ?thesis by blast
qed

lemma example_lengths: "length entry_reply < 2 ^ 32" "length list_reply < 2 ^ 32"
  by (simp_all add: entry_reply_def list_reply_def create_management_application_reply_def create_event_forward_operation_reply_def)

lemma example_listing:
  "\<exists>s h. listing_efi = Ok s \<and> efi_run s h \<and> efi_txid s = 0 \<and> map_option to_all_callback (efi_params s 1) = Some (Some 5) \<and>
     sent_params s = [List_param (Some Dispatch_to_all_switch) 1]"
proof -
  obtain s0 where s0: "asked_efi = Ok s0" "efi_run s0 [Requested 1 5 6]" using example_asked by blast
  obtain s where s: "listing_efi = Ok s" "efi_txid s = 0" "map_option to_all_callback (efi_params s 1) = Some (Some 5)"
    "sent_params s = [List_param (Some Dispatch_to_all_switch) 1]"
    using example_values(2) by (auto simp: bnd_eq_Ok)
  moreover have "answer_first entry_reply s0 = Ok s" using s(1) unfolding listing_efi_def s0(1) by simp
  moreover have "efi_txid s0 = 0" using example_values(1) unfolding s0(1) by simp
  ultimately show ?thesis using answer_first_run [OF s0(2) _ example_lengths(1)] by fastforce
qed

lemma example_dispatched:
  "\<exists>s h t. dispatched_efi = Ok s \<and> efi_run s h \<and> efi_txid s = 1 \<and> efi_params s 1 \<noteq> None \<and> timed_infos s = [3] \<and>
     efi_tx_table s = Some t \<and> length (hash_entries t) = 1"
proof -
  obtain s0 h where s0: "listing_efi = Ok s0" "efi_run s0 h" "efi_txid s0 = 0" using example_listing by blast
  obtain s t where s: "dispatched_efi = Ok s" "efi_txid s = 1" "efi_params s 1 \<noteq> None" "timed_infos s = [3]"
    "efi_tx_table s = Some t" "length (hash_entries t) = 1"
    using example_values(3) by (auto simp: bnd_eq_Ok)
  moreover have "answer_first list_reply s0 = Ok s" using s(1) unfolding dispatched_efi_def s0(1) by simp
  ultimately show ?thesis using answer_first_run [OF s0(2) _ example_lengths(2)] s0(3) by fastforce
qed

lemma example_answered: "\<exists>s h. efi_run s h \<and> efi_calls s = [To_all_done 5 EFI_OPERATION_SUCCEEDED 6]"
proof -
  obtain s0 h where s0: "dispatched_efi = Ok s0" "efi_run s0 h" "efi_txid s0 = 1" using example_dispatched by blast
  obtain s where s: "answered_efi = Ok s" "efi_calls s = [To_all_done 5 EFI_OPERATION_SUCCEEDED 6]"
    using example_values(4) by (auto simp: bnd_eq_Ok)
  moreover have "answer_first entry_reply s0 = Ok s" using s(1) unfolding answered_efi_def s0(1) by simp
  ultimately show ?thesis using answer_first_run [OF s0(2) _ example_lengths(1)] s0(3) by fastforce
qed

section \<open>Transactions over all switches\<close>

text \<open>
  C11.  In every run a request to all switches is answered once: for every callback and its data, the
  requests that were accepted are as many as the calls and the requests still under way together.
\<close>

theorem all_switch_requests_answered_once:
  assumes "efi_run s h"
  shows "length (filter (is_requested f u) h) = length (filter (is_answer f u) (efi_calls s)) + card (outstanding f u s)"
  using efi_run_inv [OF assms] by (simp add: efi_inv_def counts_ok_def)


theorem all_switch_requests_answered_once_witness:
  "\<exists>s. efi_run s [Requested 1 5 6] \<and> 1 = length (filter (is_answer 5 6) (efi_calls s)) + card (outstanding 5 6 s)"
proof -
  obtain s where "efi_run s [Requested 1 5 6]" using example_asked by blast
  moreover from all_switch_requests_answered_once [OF this, of 5 6] have "1 = length (filter (is_answer 5 6) (efi_calls s)) + card (outstanding 5 6 s)"
    by (simp add: is_requested_def)
  ultimately show ?thesis by blast
qed
text \<open>
  C12.  A callback is called with success only after every switch of the list that the switch manager sent
  has answered with success, or when the switch manager refused to send a list.
\<close>

theorem success_means_every_switch:
  assumes "efi_run s h" and "To_all_done f EFI_OPERATION_SUCCEEDED u \<in> set (efi_calls s)"
  shows "\<exists>p x dpids. Requested p f u \<in> set h \<and> Dispatched x p dpids \<in> set h \<and>
     (\<forall>ds. dpids = Some ds \<longrightarrow> (\<forall>d \<in> set ds. Answered x d \<in> set h))"
proof -
  obtain p x where "Requested p f u \<in> set h" "listed h x p (\<lambda>_. False)"
    using efi_run_inv [OF assms(1)] assms(2) unfolding efi_inv_def answers_ok_def by blast
  then show ?thesis unfolding listed_def by blast
qed

theorem success_means_every_switch_witness:
  "\<exists>s h p x dpids. efi_run s h \<and> To_all_done 5 EFI_OPERATION_SUCCEEDED 6 \<in> set (efi_calls s) \<and>
     Requested p 5 6 \<in> set h \<and> Dispatched x p dpids \<in> set h"
proof -
  obtain s h where s: "efi_run s h" "efi_calls s = [To_all_done 5 EFI_OPERATION_SUCCEEDED 6]" using example_answered by blast
  then have "To_all_done 5 EFI_OPERATION_SUCCEEDED 6 \<in> set (efi_calls s)" by simp
  with success_means_every_switch [OF s(1) this] s(1) show ?thesis by blast
qed

text \<open>
  C13.  No request is forgotten: a request to all switches that is under way belongs to a request to the
  switch manager that has not been answered, or was left without a readable answer, or every switch it
  waits for has a timer that will fire, and there is one.
\<close>

theorem waiting_requests_have_timers:
  assumes "efi_run s h" and "efi_params s p \<noteq> None"
  shows "p \<in> set (pending_params s) \<or> Lost p \<in> set h \<or>
     (\<exists>a tx d. efi_txs s a = Some tx \<and> tx_request_param tx = p \<and> waits tx d \<and>
        (\<forall>d. waits tx d \<longrightarrow> (\<exists>i \<in> set (timed_infos s). efi_infos s i = Some \<lparr>ti_dpid = d, ti_txid = tx_txid tx\<rparr>)))"
proof -
  have inv: "efi_inv {} {} s h" by (rule efi_run_inv [OF assms(1)])
  then have "p \<in> set (pending_params s) \<or> Lost p \<in> set h \<or> (\<exists>a tx. efi_txs s a = Some tx \<and> tx_request_param tx = p)"
    using assms(2) unfolding efi_inv_def owners_ok_def by blast
  moreover have "\<exists>d. waits tx d" if "efi_txs s a = Some tx" for a tx
    using inv that unfolding efi_inv_def txs_ok_def tx_ok_def by blast
  moreover have "timed_ok s" using inv by (simp add: efi_inv_def)
  ultimately show ?thesis unfolding timed_ok_def by metis
qed

theorem waiting_requests_have_timers_witness:
  "\<exists>s h. efi_run s h \<and> efi_params s 1 \<noteq> None \<and> (1 \<in> set (pending_params s) \<or> Lost 1 \<in> set h \<or>
     (\<exists>a tx d. efi_txs s a = Some tx \<and> tx_request_param tx = 1 \<and> waits tx d))"
proof -
  obtain s h where s: "efi_run s h" "efi_params s 1 \<noteq> None" using example_dispatched by blast
  with waiting_requests_have_timers [OF s] show ?thesis by blast
qed

lemma cleanup_loop_ok:
  assumes "it_ok it" and "length (it_remaining it) < fuel" and "efi_tx_table s \<noteq> None" and "distinct (map snd (it_remaining it))"
    and "\<forall>(x, a) \<in> set (it_remaining it). \<exists>tx. efi_txs s a = Some tx \<and> efi_params s (tx_request_param tx) \<noteq> None"
    and "\<forall>a b tx tx'. efi_txs s a = Some tx \<longrightarrow> efi_txs s b = Some tx' \<longrightarrow> tx_request_param tx = tx_request_param tx' \<longrightarrow> a = b"
  shows "\<exists>s'. cleanup_loop fuel it s = Ok s' \<and> efi_infos s' = efi_infos s \<and> efi_timers s' = efi_timers s"
  using assms
proof (induction fuel arbitrary: it s)
  case (Suc fuel)
  obtain it' where it': "it_ok it'" "it_remaining it' = tl (it_remaining it)"
    "iterate_hash_next it = Ok (case it_remaining it of [] \<Rightarrow> None | e # _ \<Rightarrow> Some e, it')"
    using iterate_hash_next_eq [OF Suc.prems(1)] by blast
  show ?case
  proof (cases "it_remaining it")
    case Nil
    with it' show ?thesis by simp
  next
    case (Cons e es)
    obtain x a where e: "e = (x, a)" by (cases e)
    obtain tx param t where tx: "efi_txs s a = Some tx" "efi_params s (tx_request_param tx) = Some param" "efi_tx_table s = Some t"
      using Suc.prems(3,5) Cons e by auto
    define s1 where "s1 = s\<lparr>efi_tx_table := Some (fst (delete_hash_entry t (tx_txid tx))),
      efi_params := (efi_params s)(tx_request_param tx := None), efi_txs := (efi_txs s)(a := None)\<rparr>"
    have step: "cleanup_loop (Suc fuel) it s = cleanup_loop fuel it' s1"
      using it'(3) Cons e tx by (simp add: deref_def with_tx_table_def xfree_all_sw_tx_def
          xfree_event_forward_operation_to_all_request_param_def s1_def)
    have "\<exists>s'. cleanup_loop fuel it' s1 = Ok s' \<and> efi_infos s' = efi_infos s1 \<and> efi_timers s' = efi_timers s1"
    proof (rule Suc.IH)
      have "b \<noteq> a \<and> (\<exists>tx'. efi_txs s b = Some tx' \<and> efi_params s (tx_request_param tx') \<noteq> None)" if "(y, b) \<in> set es" for y b
        using Suc.prems(4,5) that Cons e by (force simp: image_iff)
      then show "\<forall>(x, a) \<in> set (it_remaining it'). \<exists>tx. efi_txs s1 a = Some tx \<and> efi_params s1 (tx_request_param tx) \<noteq> None"
        using it'(2) Cons Suc.prems(6) tx(1) by (fastforce simp: s1_def)
    qed (use it' Suc.prems Cons in \<open>auto simp: s1_def\<close>)
    then show ?thesis using step by (simp add: s1_def)
  qed
qed simp

text \<open>
  \<open>finalize_event_forward_interface\<close> frees the transactions but leaves their timers: a timer that fires
  afterwards looks its transaction up in a table that is gone and fails an assertion.
\<close>

lemma finalize_leaves_timers:
  assumes "efi_run s h" and "efi_tx_table s = Some t" and "length (hash_entries t) < fuel"
  shows "\<exists>s'. finalize_event_forward_interface fuel it s = Ok (True, s') \<and> timed_infos s' = timed_infos s \<and>
     (\<forall>i \<in> set (timed_infos s'). switch_response_timeout i s' = Fault Assertion)"
proof -
  have inv: "efi_inv {} {} s h" by (rule efi_run_inv [OF assms(1)])
  have t: "hash_inv compare_uint32 hash_uint32 (\<lambda>_. True) t"
    "\<And>x a. lookup_hash_entry t x = Some a \<longleftrightarrow> (\<exists>tx. efi_txs s a = Some tx \<and> tx_txid tx = x)"
    using inv assms(2) unfolding efi_inv_def table_ok_def by auto
  obtain name where name: "efi_queue_name s = Some name" using efi_inv_queue [OF inv] by blast
  define s0 where "s0 = s\<lparr>efi_replied_callbacks := remove1 name (efi_replied_callbacks s), efi_queue_name := None\<rparr>"
  obtain it' where it': "init_hash_iterator t it = Ok it'" "it_ok it'" "it_remaining it' = hash_entries t"
    using uint32_keys.iterator_start [OF t(1)] by blast
  have entry: "\<exists>tx. efi_txs s a = Some tx \<and> tx_txid tx = x" if "(x, a) \<in> set (hash_entries t)" for x a
    using uint32_keys.entries_lookup [OF t(1), of x a] t(2) [of x a] that by (auto simp: compare_uint32_def)
  have ok: "params_ok s" "infos_ok s" using inv by (simp_all add: efi_inv_def)
  have "distinct (map fst (hash_entries t))"
    using keys_apart_distinct [OF uint32_keys.entries_apart [OF t(1)]] by (simp add: compare_uint32_def)
  then have "distinct (map snd (hash_entries t))" using entry by (induction "hash_entries t") (auto simp: distinct_map inj_on_def, (metis option.inject prod.collapse)+)
  then obtain s' where s': "cleanup_loop fuel it' s0 = Ok s'" "efi_infos s' = efi_infos s" "efi_timers s' = efi_timers s"
    using cleanup_loop_ok [OF it'(2), of fuel s0] it'(3) assms(2,3) entry ok(1) unfolding params_ok_def
    by (fastforce simp: s0_def)
  then have "finalize_event_forward_interface fuel it s = Ok (True, s'\<lparr>efi_tx_table := None\<rparr>)"
    using name assms(2) it'(1) by (simp add: finalize_event_forward_interface_def cleanup_tx_table_def with_tx_table_def s0_def)
  moreover have "timed_infos (s'\<lparr>efi_tx_table := None\<rparr>) = timed_infos s" using s'(3) by (simp add: timed_infos_def)
  moreover have "switch_response_timeout i (s'\<lparr>efi_tx_table := None\<rparr>) = Fault Assertion" if "i \<in> set (timed_infos s)" for i
    using ok(2) that s'(2) unfolding infos_ok_def by (auto simp: switch_response_timeout_def deref_def with_tx_table_def)
  ultimately show ?thesis by auto
qed

lemma finalize_leaves_timers_witness:
  "\<exists>s h s'. efi_run s h \<and> finalize_event_forward_interface 2 blank_iterator s = Ok (True, s') \<and>
     timed_infos s' = [3] \<and> switch_response_timeout 3 s' = Fault Assertion"
proof -
  obtain s h t where s: "efi_run s h" "timed_infos s = [3]" "efi_tx_table s = Some t" "length (hash_entries t) = 1"
    using example_dispatched by blast
  with finalize_leaves_timers [OF s(1,3), of 2 blank_iterator] show ?thesis by fastforce
qed

text \<open>
  C33.  The handlers of replies and timeouts, in every run up to the end of the interface.  Every reply that
  is complete for its request and every timeout is handled, without a use of memory that was freed, an access
  outside the reply or a failed assertion; a reply that is not complete leads to nothing worse than a read
  behind its end or a callback of the other kind.  After \<open>finalize_event_forward_interface\<close>, which keeps the
  timers, each timer that is left fails an assertion.
\<close>

theorem transactions_memory_safe:
  assumes "efi_run s h"
  shows "(\<forall>xs to from tag' req param ys it ev tag data n.
       efi_requests_sent s = xs @ (to, from, tag', req, param) # ys \<longrightarrow> n < 2 ^ 32 \<longrightarrow> efi_txid s \<noteq> - 1 \<longrightarrow>
       (if reply_complete data n param then returns (handle_efi_reply it ev tag data n param (s\<lparr>efi_requests_sent := xs @ ys\<rparr>))
        else returns (handle_efi_reply it ev tag data n param (s\<lparr>efi_requests_sent := xs @ ys\<rparr>)) \<or>
          handle_efi_reply it ev tag data n param (s\<lparr>efi_requests_sent := xs @ ys\<rparr>) \<in> {Fault Out_of_bounds, Fault Bad_call})) \<and>
     (\<forall>xs cb ys i. timer_callbacks (efi_timers s) = Some (xs @ cb # ys) \<longrightarrow> tm_function cb = Some Switch_response_timeout \<longrightarrow>
       tm_user_data cb = Some i \<longrightarrow>
       returns (switch_response_timeout i (s\<lparr>efi_timers := (efi_timers s)\<lparr>timer_callbacks := Some (xs @ ys)\<rparr>\<rparr>))) \<and>
     (\<forall>fuel it t. efi_tx_table s = Some t \<longrightarrow> length (hash_entries t) < fuel \<longrightarrow>
       (\<exists>s'. finalize_event_forward_interface fuel it s = Ok (True, s') \<and> timed_infos s' = timed_infos s \<and>
         (\<forall>i \<in> set (timed_infos s'). switch_response_timeout i s' = Fault Assertion)))"
proof (intro conjI allI impI)
  have inv: "efi_inv {} {} s h" by (rule efi_run_inv [OF assms])
  show "if reply_complete data n param then returns (handle_efi_reply it ev tag data n param (s\<lparr>efi_requests_sent := xs @ ys\<rparr>))
        else returns (handle_efi_reply it ev tag data n param (s\<lparr>efi_requests_sent := xs @ ys\<rparr>)) \<or>
          handle_efi_reply it ev tag data n param (s\<lparr>efi_requests_sent := xs @ ys\<rparr>) \<in> {Fault Out_of_bounds, Fault Bad_call}"
    if "efi_requests_sent s = xs @ (to, from, tag', req, param) # ys" "n < 2 ^ 32" "efi_txid s \<noteq> - 1"
    for xs to "from" tag' req param ys it ev tag data n
    using handle_efi_reply_ok [OF inv that refl, where it = it and ev = ev and tag = tag and data = data] by (auto simp: returns_def)
  show "returns (switch_response_timeout i (s\<lparr>efi_timers := (efi_timers s)\<lparr>timer_callbacks := Some (xs @ ys)\<rparr>\<rparr>))"
    if "timer_callbacks (efi_timers s) = Some (xs @ cb # ys)" "tm_function cb = Some Switch_response_timeout" "tm_user_data cb = Some i"
    for xs cb ys i
    using switch_response_timeout_ok [OF inv that refl] by (auto simp: returns_def)
qed (rule finalize_leaves_timers [OF assms])

theorem transactions_memory_safe_witness:
  "\<exists>s h ys. efi_run s h \<and> (\<exists>to from tag req. efi_requests_sent s = (to, from, tag, req, List_param (Some Dispatch_to_all_switch) 1) # ys) \<and>
     returns (handle_efi_reply blank_iterator sample_efi_env MESSENGER_MANAGEMENT_REPLY (Some (list_reply @ [0])) 20
       (List_param (Some Dispatch_to_all_switch) 1) (s\<lparr>efi_requests_sent := ys\<rparr>))"
proof -
  obtain s h where s: "efi_run s h" "efi_txid s = 0" "sent_params s = [List_param (Some Dispatch_to_all_switch) 1]"
    using example_listing by blast
  then obtain to "from" tag req where sent: "efi_requests_sent s = [] @ (to, from, tag, req, List_param (Some Dispatch_to_all_switch) 1) # []"
    by (auto simp: sent_params_def)
  have "rd32 (list_reply @ [0]) 8 = Ok EFI_GET_SWLIST" "length list_reply = 20"
    by (simp_all add: list_reply_def create_management_application_reply_def be_get_put)
  then have "reply_complete (Some (list_reply @ [0])) 20 (List_param (Some Dispatch_to_all_switch) 1)"
    by (simp add: reply_complete_def entry_commands_def)
  then have "returns (handle_efi_reply blank_iterator sample_efi_env MESSENGER_MANAGEMENT_REPLY (Some (list_reply @ [0])) 20
      (List_param (Some Dispatch_to_all_switch) 1) (s\<lparr>efi_requests_sent := [] @ []\<rparr>))"
    using transactions_memory_safe [OF s(1), THEN conjunct1, rule_format, OF sent, of 20 "Some (list_reply @ [0])"] s(2) by simp
  with s(1) sent show ?thesis by auto
qed

section \<open>Answers of a daemon\<close>

definition services_for :: "8 word \<Rightarrow> daemon \<Rightarrow> bytes list" where
  "services_for type d =
     (if type = EVENT_FORWARD_TYPE_VENDOR then vendor_service_name_list d
      else if type = EVENT_FORWARD_TYPE_PACKET_IN then packetin_service_name_list d
      else if type = EVENT_FORWARD_TYPE_PORT_STATUS then portstatus_service_name_list d
      else state_service_name_list d)"

lemma read_names_names:
  "\<forall>name \<in> set names. c_name name \<Longrightarrow> read_names (length names) (concat (map (\<lambda>name. name @ [0]) names)) = names"
proof (induction names)
  case (Cons name names)
  then have "cstring (name @ 0 # rest) = name" for rest by (auto simp: cstring_def c_name_def takeWhile_append)
  moreover have "name \<noteq> []" using Cons.prems by (auto simp: c_name_def)
  ultimately show ?case using Cons by (subst read_names.simps) (simp add: Let_def)
qed (simp add: read_names.simps)

lemma operation_result_reply:
  assumes "\<forall>name \<in> set names. c_name name" and "length names < 2 ^ 32" and "rest \<noteq> []"
    and reply: "reply = create_management_application_reply MANAGEMENT_REQUEST_SUCCEEDED command
      (create_event_forward_operation_reply type EFI_OPERATION_SUCCEEDED names)"
  shows "operation_result (reply @ rest) (length reply) = Ok \<lparr>efr_result = EFI_OPERATION_SUCCEEDED, efr_services = Some names\<rparr>"
proof -
  let ?names = "concat (map (\<lambda>name. name @ [0]) names)"
  have r: "reply = put16 7 @ [0, 0] @ put32 (of_nat (20 + length ?names)) @ put32 command @ [type, 0, 0, 0] @
      put32 (of_nat (length names)) @ ?names"
    by (simp add: reply create_management_application_reply_def create_event_forward_operation_reply_def append_names_eq)
  have "unat (of_nat (length names) :: 32 word) = length names"
    using assms(2) by (simp add: unat_of_nat take_bit_eq_mod)
  moreover have "rd32 (reply @ rest) 16 = Ok (of_nat (length names))" by (simp add: r be_get_put)
  moreover have "rd8 (reply @ rest) 2 = Ok 0" "rd8 (reply @ rest) 13 = Ok 0" by (simp_all add: r be_get_def)
  moreover have "drop 20 reply = ?names" "length reply = 20 + length ?names" by (simp_all add: r)
  ultimately show ?thesis using assms(1,3) read_names_names [of names] by (simp add: operation_result_def)
qed

lemma daemon_reply:
  assumes "management_recv command data d = Ok d'"
    and "command \<in> {EVENT_FORWARD_ENTRY_ADD, EVENT_FORWARD_ENTRY_DELETE, EVENT_FORWARD_ENTRY_DUMP, EVENT_FORWARD_ENTRY_SET}"
    and "rd8 data 0 = Ok type" and "type \<le> EVENT_FORWARD_TYPE_STATE_NOTIFY"
  shows "replies d' = replies d @ [create_management_application_reply MANAGEMENT_REQUEST_SUCCEEDED command
      (create_event_forward_operation_reply type EFI_OPERATION_SUCCEEDED (services_for type d'))]"
proof -
  have "management_event_forward_entry_operation command data d = Ok d'"
    using assms(1,2) by (auto simp: management_recv_def)
  moreover have "type \<in> {EVENT_FORWARD_TYPE_VENDOR, EVENT_FORWARD_TYPE_PACKET_IN, EVENT_FORWARD_TYPE_PORT_STATUS, EVENT_FORWARD_TYPE_STATE_NOTIFY}"
  proof -
    have "unat type \<le> 3" using assms(4) by (simp add: word_le_nat_alt)
    then have "unat type \<in> {0, 1, 2, 3}" by auto
    then show ?thesis by (auto dest: arg_cong [of _ _ "of_nat :: nat \<Rightarrow> 8 word"])
  qed
  ultimately show ?thesis
    using assms(3) by (auto simp: management_event_forward_entry_operation_def bnd_eq_Ok Let_def send_management_reply_def services_for_def)
qed

text \<open>
  C14.  A daemon that was asked to add, delete, set or dump event forward entries answers with its list
  as it is afterwards, and the callback of the client is called with exactly that list.
\<close>

theorem daemon_answers_with_its_list:
  assumes "management_recv command request d = Ok d'"
    and "command \<in> {EVENT_FORWARD_ENTRY_ADD, EVENT_FORWARD_ENTRY_DELETE, EVENT_FORWARD_ENTRY_DUMP, EVENT_FORWARD_ENTRY_SET}"
    and "rd8 request 0 = Ok type" and "type \<le> EVENT_FORWARD_TYPE_STATE_NOTIFY"
    and "\<forall>name \<in> set (services_for type d'). c_name name" and "length (services_for type d') < 2 ^ 32" and "rest \<noteq> []"
  shows "\<exists>reply. replies d' = replies d @ [reply] \<and>
     handle_efi_reply it ev MESSENGER_MANAGEMENT_REPLY (Some (reply @ rest)) (length reply)
       (Operation_param (Some (Operation_callback f)) u) s =
     Ok (s\<lparr>efi_calls := efi_calls s @
       [Operation_done f \<lparr>efr_result = EFI_OPERATION_SUCCEEDED, efr_services = Some (services_for type d')\<rparr> u]\<rparr>)"
proof -
  let ?data = "create_event_forward_operation_reply type EFI_OPERATION_SUCCEEDED (services_for type d')"
  define reply where "reply = create_management_application_reply MANAGEMENT_REQUEST_SUCCEEDED command ?data"
  have "rd16 (reply @ rest) 0 = Ok MANAGEMENT_APPLICATION_REPLY" "rd32 (reply @ rest) 8 = Ok command" "12 \<le> length reply"
    by (simp_all add: reply_def create_management_application_reply_def be_get_put)
  then have "handle_efi_reply it ev MESSENGER_MANAGEMENT_REPLY (Some (reply @ rest)) (length reply)
       (Operation_param (Some (Operation_callback f)) u) s =
     handle_event_forward_operation_reply it (env_accepts ev 0) (reply @ rest) (length reply) (Some (Operation_callback f)) u s"
    using assms(2) by (auto simp: handle_efi_reply_def)
  moreover note operation_result_reply [OF assms(5-7) reply_def]
  moreover have "replies d' = replies d @ [reply]" unfolding reply_def by (rule daemon_reply [OF assms(1-4)])
  ultimately show ?thesis by (simp add: handle_event_forward_operation_reply_def operation_completed_def)
qed

theorem daemon_answers_with_its_list_witness:
  "\<exists>d reply. management_recv EVENT_FORWARD_ENTRY_DUMP [1, 0, 0, 0, 0, 0, 0, 0] sample_daemon = Ok d \<and> replies d = replies sample_daemon @ [reply] \<and>
     handle_efi_reply blank_iterator sample_efi_env MESSENGER_MANAGEMENT_REPLY (Some (reply @ [0])) (length reply)
       (Operation_param (Some (Operation_callback 5)) 6) idle_efi =
     Ok (idle_efi\<lparr>efi_calls := [Operation_done 5 \<lparr>efr_result = EFI_OPERATION_SUCCEEDED, efr_services = Some [[97]]\<rparr> 6]\<rparr>)"
proof -
  have type: "rd8 [1, 0, 0, 0, 0, 0, 0, 0] 0 = Ok EVENT_FORWARD_TYPE_PACKET_IN" by (simp add: be_get_def)
  obtain d where d: "management_recv EVENT_FORWARD_ENTRY_DUMP [1, 0, 0, 0, 0, 0, 0, 0] sample_daemon = Ok d"
    "services_for EVENT_FORWARD_TYPE_PACKET_IN d = [[97]]"
    by (auto simp: management_recv_def management_event_forward_entry_operation_def forward_entry_command_def rd_def be_get_def
        send_management_reply_def services_for_def sample_daemon_def sample_start_def start_switch_daemon_def
        switch_set_timeout_def Let_def service_send_state_def service_send_to_application_def)
  have "\<forall>name \<in> set (services_for EVENT_FORWARD_TYPE_PACKET_IN d). c_name name" "length (services_for EVENT_FORWARD_TYPE_PACKET_IN d) < 2 ^ 32"
    by (simp_all add: d(2) c_name_def)
  from daemon_answers_with_its_list [OF d(1) _ type _ this, of "[0]" blank_iterator sample_efi_env 5 6 idle_efi]
  show ?thesis using d by (auto simp: idle_efi_def)
qed

section \<open>Where the code departs from its intent\<close>

text \<open>
  C34.  When the switch manager reports that the request for the list of switches failed, the caller of
  \<open>add_event_forward_entry_to_all_switches\<close> is told that the operation succeeded, although no switch was asked.
\<close>

theorem failed_switch_list_reported_as_success:
  assumes "efi_run s h" and "efi_requests_sent s = xs @ (to, from, tag', req, List_param (Some Dispatch_to_all_switch) p) # ys"
    and "efi_txid s \<noteq> - 1" and "efi_params s p = Some param" and "to_all_callback param = Some f"
  shows "\<exists>s'. handle_efi_reply it ev MESSENGER_MANAGEMENT_REPLY
       (Some (create_management_application_reply MANAGEMENT_REQUEST_FAILED EFI_GET_SWLIST [] @ rest)) 12
       (List_param (Some Dispatch_to_all_switch) p) (s\<lparr>efi_requests_sent := xs @ ys\<rparr>) = Ok s' \<and>
     efi_calls s' = efi_calls s @ [To_all_done f EFI_OPERATION_SUCCEEDED (to_all_user_data param)] \<and>
     efi_requests_sent s' = xs @ ys"
proof -
  define s0 where "s0 = s\<lparr>efi_requests_sent := xs @ ys\<rparr>"
  let ?m = "create_management_application_reply MANAGEMENT_REQUEST_FAILED EFI_GET_SWLIST [] @ rest"
  have run: "handle_efi_reply it ev MESSENGER_MANAGEMENT_REPLY (Some ?m) 12 (List_param (Some Dispatch_to_all_switch) p) s0 =
      dispatch_to_all_switch ev None p s0"
  proof -
    have "rd16 ?m 0 = Ok MANAGEMENT_APPLICATION_REPLY" "rd32 ?m 8 = Ok EFI_GET_SWLIST"
      by (simp_all add: create_management_application_reply_def be_get_put)
    moreover have "rd8 ?m 2 = Ok MANAGEMENT_REQUEST_FAILED" by (simp add: create_management_application_reply_def be_get_def)
    ultimately show ?thesis
      by (simp add: handle_efi_reply_def handle_get_switch_list_reply_def switch_list_def list_completed_def)
  qed
  have inv: "efi_inv {} {} s h" by (rule efi_run_inv [OF assms(1)])
  note take = take_request(1) [OF inv assms(2) s0_def] take_request(2) [OF inv assms(2) s0_def, folded holds_param_def]
  have x: "efi_txid s0 \<noteq> - 1" using assms(3) by (simp add: s0_def)
  have "efi_inv {} {p} s0 h" "holds_param p s0" using take by simp_all
  from insert_tx_ok [OF this x, of 0] obtain s1 where s1: "insert_tx 0 p s0 = Ok (efi_new s0, s1)" "efi_inv {efi_new s0} {} s1 h"
    "efi_txs s1 (efi_new s0) = Some \<lparr>tx_txid = efi_txid s0 + 1,
       waiting_dpid = create_hash_with_size compare_datapath_id hash_datapath_id (of_nat 0),
       tx_result = EFI_OPERATION_SUCCEEDED, tx_request_param = p\<rparr>" by blast
  have same: "efi_params s1 = efi_params s" "efi_calls s1 = efi_calls s" "efi_requests_sent s1 = xs @ ys"
    using s1(1) by (auto simp: insert_tx_def get_txid_def with_tx_table_def assert_then_def s0_def Let_def split: option.splits prod.splits if_splits)
  obtain t where t: "efi_tx_table s1 = Some t" using s1(2) unfolding efi_inv_def table_ok_def by blast
  have "\<exists>s'. end_tx (efi_new s0) s1 = Ok s' \<and> efi_requests_sent s' = xs @ ys \<and>
      efi_calls s' = efi_calls s @ [To_all_done f EFI_OPERATION_SUCCEEDED (to_all_user_data param)]"
    using s1(3) t same assms(4,5)
    by (simp add: end_tx_def deref_def with_tx_table_def xfree_all_sw_tx_def to_all_completed_def
        xfree_event_forward_operation_to_all_request_param_def)
  then show ?thesis using run s1(1,3) unfolding s0_def [symmetric] by (auto simp: dispatch_to_all_switch_def deref_def)
qed

theorem failed_switch_list_reported_as_success_witness:
  "\<exists>s h s'. efi_run s h \<and> handle_efi_reply blank_iterator sample_efi_env MESSENGER_MANAGEMENT_REPLY
       (Some (create_management_application_reply MANAGEMENT_REQUEST_FAILED EFI_GET_SWLIST [] @ [0])) 12
       (List_param (Some Dispatch_to_all_switch) 1) (s\<lparr>efi_requests_sent := []\<rparr>) = Ok s' \<and>
     (\<exists>u. efi_calls s' = efi_calls s @ [To_all_done 5 EFI_OPERATION_SUCCEEDED u])"
proof -
  obtain s h where s: "efi_run s h" "efi_txid s = 0" "sent_params s = [List_param (Some Dispatch_to_all_switch) 1]"
    "map_option to_all_callback (efi_params s 1) = Some (Some 5)"
    using example_listing by blast
  then obtain to "from" tag req param where sent: "efi_requests_sent s = [] @ (to, from, tag, req, List_param (Some Dispatch_to_all_switch) 1) # []"
    and param: "efi_params s 1 = Some param" "to_all_callback param = Some 5"
    by (auto simp: sent_params_def)
  from failed_switch_list_reported_as_success [OF s(1) sent _ param, of blank_iterator sample_efi_env "[0]"] s
  show ?thesis by auto
qed

end
