(* ===== verification/Spec2Isabelle.thy ===== *)
theory Spec2Isabelle
  imports Ofm_Normalize Match_Table Application_Properties Event_Properties Packetin_Filter_Properties
    Event_Forward_Properties
begin

text \<open>
  A model of trema, a framework for OpenFlow 1.0 controllers written in C, and the properties that make
  it correct.  File names below are relative to \<open>src/src\<close>.

  \<^bold>\<open>The program.\<close>  A controller built on trema is a set of processes.  For every switch that connects, the
  switch manager forks a switch daemon (\<open>switch_manager/switch.c\<close>), which holds the connection, goes
  through the handshake, and relays messages between the switch and the applications.  Applications
  build and check messages with the library (\<open>lib/openflow_message.c\<close>), parse the packets they are
  handed (\<open>lib/packet_parser.c\<close>) and look flows up (\<open>lib/match_table.c\<close>).  The processes exchange messages
  through the messenger (\<open>lib/messenger.c\<close>), driven by an event loop and timers
  (\<open>lib/event_handler.c\<close>, \<open>lib/timer.c\<close>).  The library can also be used on the other side, to build a switch
  (\<open>lib/openflow_switch_interface.c\<close>, \<open>lib/secure_channel.c\<close>).  A packet-in filter (\<open>packetin_filter\<close>) hands packets
  to the applications whose filter matches.  Which events a daemon forwards to which application is edited
  with requests of the event forward interface (\<open>lib/event_forward_interface.c\<close>), to one daemon or to all in a
  transaction.  All use the containers of the library.

  \<^bold>\<open>Conventions.\<close>  An operation that can fail is a function into \<open>'a res\<close> (\<open>Trema_Prelude\<close>): \<open>Ok\<close> with
  the C result, or \<open>Fault\<close> with the reason for which the process ends or leaves defined behaviour: a
  failed assertion, a call of \<open>die\<close>, an access outside an object, a null pointer, a use of memory that was
  freed, a call through a pointer to another type of function, or no return.
  Messages are lists of bytes and structures in host order are records; \<open>rd16\<close>, \<open>put32\<close>, \<open>wr\<close> and the
  like read and write fields in network byte order and fault outside the message.  Machine integers are
  words of their width.  Loops are recursive functions with a termination proof where they always
  end; a loop that follows lengths in a message takes fuel, and running out of it is \<open>Fault No_return\<close>.
  The acceptance properties say how much fuel is enough; two loops for which no fuel is enough are
  shown to run forever.  Log messages, \<open>free\<close> and mutexes are left out.

  \<^bold>\<open>The theories.\<close>
  \<^item> \<open>Trema_Prelude\<close>: outcomes, bytes, words.  \<open>Openflow_Header\<close>: the constants and structures of
    \<open>openflow.h\<close>.
  \<^item> \<open>Linked_List\<close>, \<open>Doubly_Linked_List\<close>, \<open>Hash_Table\<close>, \<open>Message_Queue\<close>, \<open>Buffer\<close>, \<open>Utility\<close>: the
    files of \<open>lib\<close> with these names.  The doubly linked list is a program on a heap of cells; the hash
    table keeps its buckets and the index of those in use.  The contracts of the hash table and of the
    queue are locales, interpreted on the model's operations; the clients use the interpretations.
  \<^item> \<open>Byteorder\<close>, \<open>Ofm_Actions\<close>, \<open>Ofm_Create\<close>, \<open>Ofm_Validate\<close>, \<open>Ofm_Valid_Create\<close>, \<open>Ofm_Errors\<close>,
    \<open>Ofm_Match\<close>, \<open>Ofm_Normalize\<close>: \<open>lib/byteorder.c\<close> and the parts of \<open>lib/openflow_message.c\<close>: action lists and counters,
    constructors, validators, the two against each other, the table of errors, the matches made
    from packets, and what normalization keeps of a match.
  \<^item> \<open>Match\<close>, \<open>Match_Table\<close>: \<open>lib/match.h\<close> and \<open>lib/match_table.c\<close>.
  \<^item> \<open>Packet_Info\<close>, \<open>Packet_Parser\<close>: \<open>lib/packet_info.c\<close> and \<open>lib/packet_parser.c\<close>.
  \<^item> \<open>Xid_Table\<close>, \<open>Cookie_Table\<close>, \<open>Dpid_Table\<close>: the tables of \<open>switch_manager\<close> with these names.  The cookie
    table has a store of entries, because both of its hash tables point to the same ones.
  \<^item> \<open>Secure_Channel\<close>: \<open>secure_channel_receiver.c\<close> and \<open>secure_channel_sender.c\<close>; what \<open>read\<close> and \<open>writev\<close>
    return is an argument, and what \<open>writev\<close> takes of the vector it is given is a result.
  \<^item> \<open>Event_Forward\<close>: \<open>event_forward_entry_manipulation.c\<close> and the messages of
    \<open>lib/event_forward_interface.c\<close>.
  \<^item> \<open>Switch_Session\<close>, \<open>Switch_Recv\<close>: the switch daemon: \<open>switch.c\<close>, \<open>ofpmsg_send.c\<close>, \<open>ofpmsg_recv.c\<close>,
    \<open>service_interface.c\<close>.  The record \<open>daemon\<close> is \<open>struct switch_info\<close> with the other state of the
    process: its tables, its timers, what it asked of the event loop, and what it sent.
  \<^item> \<open>Switch_Invariant\<close>: the events of the daemon as a step relation, the states that can be reached,
    their invariant and its preservation by every handler.  \<open>Switch_Roundtrip\<close>: what happens to a
    request and its reply and to a flow and its removal.  \<open>Switch_Properties\<close>: the properties of the
    daemon.
  \<^item> \<open>Application_Interface\<close>: \<open>lib/openflow_application_interface.c\<close>.  The record \<open>application\<close> is the static
    state of the file, and what the process did: calls of handlers, messages sent, counters.
    \<open>Application_Delivery\<close>: the contract of the message handlers as a locale, interpreted on each of them,
    and what they are called with.  \<open>Application_Properties\<close>: the properties of applications, alone and
    together with the switch daemon.  \<open>Example_Inputs\<close>: inputs the examples share.
  \<^item> \<open>Event_Handler\<close>, \<open>Timer\<close>: \<open>lib/event_handler.c\<close> with the table of descriptors, the sets for \<open>select\<close> and the
    rounds of the loop, and \<open>lib/timer.c\<close> with its sorted list.  What a handler does is an argument, and so
    are the results of \<open>select\<close> and the clock.  \<open>Event_Properties\<close>: their properties.
  \<^item> \<open>Message_Buffer\<close>, \<open>Messenger\<close>: \<open>lib/messenger.c\<close>.  The record \<open>messenger\<close> is the static state of the file
    with the event handler and the timers.  \<open>Messenger_Delivery\<close> has the contracts of the queues,
    \<open>Messenger_Properties\<close> and \<open>Messenger_Watch\<close> the properties: what arrives, and that nothing is left
    lying.
  \<^item> \<open>Switch_Channel\<close>, \<open>Switch_Interface\<close>: \<open>lib/secure_channel.c\<close> and \<open>lib/openflow_switch_interface.c\<close>, the
    connection of a switch to its controller and the dispatch of messages there.  The record
    \<open>switch_interface\<close> extends \<open>secure_channel\<close>.  \<open>Switch_Delivery\<close>: the contract of the handlers as a
    locale, interpreted on each of them, and the contexts of requests.  \<open>Switch_Interface_Properties\<close> and
    \<open>Switch_Channel_Properties\<close>: the properties of the switch side.
  \<^item> \<open>Packetin_Filter\<close>, \<open>Packetin_Filter_Interface\<close>: \<open>packetin_filter/packetin_filter.c\<close> and its client
    \<open>lib/packetin_filter_interface.c\<close>, with the records \<open>packetin_filter\<close> and \<open>filter_client\<close>.
    \<open>Packetin_Filter_Table\<close>: the table of filters as a map from flows to services, and the operations on it.
    \<open>Packetin_Filter_Properties\<close>: the exchanges between client and filter, and what packets do.
  \<^item> \<open>Event_Forward_Interface\<close>: \<open>lib/event_forward_interface.c\<close>.  The record \<open>efi\<close> is the static state of the
    file with stores for the objects that are shared by address.  \<open>Event_Forward_Transactions\<close>: the history of
    a process and the invariant that connects it with the state; \<open>Event_Forward_Handlers\<close>: that every handler
    keeps it; \<open>Event_Forward_Runs\<close>: the runs of a process; \<open>Event_Forward_Properties\<close>: the properties.

  \<^bold>\<open>What is shown.\<close>  The session of a switch keeps its invariant, never goes back and completes its
  handshake; replies and reports of removed flows reach the right application with its own ids,
  and there the registered handler is called once with what the switch sent; framing
  does not depend on how the stream is cut, and what is queued is sent.  The messenger delivers messages in
  order and answers to whoever asked, and every queue with something to send is watched or has a timer, as
  long as the system gives it sockets.
  The event loop calls what is ready, the timers what is due.  Packets in go to the services of the filter for
  their match, and requests for filters take effect and are answered.  A request to all switches is answered
  exactly once, with success only when every switch has answered, and never waits without a timer.  A switch is called with what the
  controller built, and its answers and errors find their way back.  Messages that are built are
  accepted by the validators, and structures survive the conversion to network order and back.  The
  containers and tables refine maps, lists and queues; lookups of flows respect priorities; matches are
  compared by meaning, a match made of a packet admits what agrees with the packet, and normalization
  keeps what a match means.  The packet parser never leaves the frame.  The last groups show where the code
  departs from its intent: messages that end a process, loops that do not end, reads outside a
  message.

  \<^bold>\<open>Bounds.\<close>  The step relation assumes that \<open>writev\<close> of at least one byte does not return 0 and that
  fewer than \<open>2 ^ 64 - 2\<close> cookie entries have been allocated, so that a free cookie exists.  The loops over the
  entries of a queue or a table get one more unit of fuel than there are entries, which is enough.  Queues of
  messages are shorter than \<open>2 ^ 32\<close>, the range of their length.  A list of filters has at most 27 rows, what the
  buffer of 2048 bytes holds.  There are fewer than \<open>2 ^ 32\<close> transactions over all switches, and the runs of
  the event forward interface end when it is finalized.  Fewer than \<open>2 ^ 31\<close> flows share a cookie, the range of
  the count of references.  A frame is shorter than \<open>2 ^ 64\<close> bytes.

  \<^bold>\<open>Not modelled.\<close>  The switch manager process beyond its table of datapaths and the management interface of
  other processes have little state of their own.  Start-up, options, sockets, \<open>fork\<close> and \<open>exec\<close>, logging,
  tremashark, the Ruby binding and the sample controllers are operating system calls, presentation or
  clients.  The parser of options of \<open>switch.c\<close> and the renaming of messenger services have no effect on the
  state modelled.
\<close>

section \<open>Messages that are built are accepted\<close>

lemma appended_ok:
  assumes "\<forall>r \<in> set rs. request_ok r" and "append_requests create_actions rs = Ok acts"
  shows "actions_ok (act_list acts)" and "length (act_list acts) = length rs"
    and "\<forall>a \<in> set (act_list acts). action_wf a"
proof -
  have "actions_ok (act_list create_actions)" "n_actions create_actions = int (length (act_list create_actions))"
    by (simp_all add: create_actions_def create_list_def actions_ok_def)
  from append_requests_ok [OF assms(1) this] assms(2)
  show "actions_ok (act_list acts)" "length (act_list acts) = length rs"
    by (auto simp: create_actions_def create_list_def)
  then show "\<forall>a \<in> set (act_list acts). action_wf a" by (simp add: actions_ok_def)
qed

text \<open>
  A flow modification is accepted end to end: whatever admissible actions a client appends to a
  fresh action list, \<open>create_flow_mod\<close> with that list and arguments in their ranges returns a message
  that \<open>validate_openflow_message\<close> accepts.
\<close>

lemma flow_mod_accepted:
  assumes "\<forall>r \<in> set rs. request_ok r" and "append_requests create_actions rs = Ok acts"
    and "72 + actions_size (act_list acts) < 65536" and "length rs < fuel"
    and "flow_mod_args_ok match command priority out_port flags"
  shows "\<exists>m. create_flow_mod xid match cookie command idle hard priority buffer_id out_port flags (Some acts) = Ok m
           \<and> validate_openflow_message fuel m = Ok 0"
  using appended_ok [OF assms(1,2)] assms(3-5)
    create_flow_mod_eq [of "Some acts" xid match cookie command idle hard priority buffer_id out_port flags]
    validate_created_flow_mod [of match command priority out_port flags "act_list acts" fuel]
  by (simp add: opt_actions_def validate_openflow_message_created)

lemma flow_mod_accepted_witness:
  "\<exists>m. create_flow_mod 7 exact_flow 0 OFPFC_ADD 60 0 0xffff 0xffffffff OFPP_NONE 0 (Some sample_actions) = Ok m
     \<and> validate_openflow_message 3 m = Ok 0"
  by (rule flow_mod_accepted [of "[Req_nw_tos 4, Req_output 1 0xffff]", OF _ sample_append])
    (simp_all add: port_ok_def flow_mod_args_ok_def match_ok_def sample_defs)

text \<open>
  The same for \<open>create_packet_out\<close>: with admissible actions, a valid ingress port and, when no
  buffer is named, a frame of at least 60 bytes, the message is accepted.
\<close>

lemma packet_out_accepted:
  assumes "\<forall>r \<in> set rs. request_ok r" and "append_requests create_actions rs = Ok acts"
    and "16 + actions_size (act_list acts) + length (opt_bytes data) < 65536" and "length rs < fuel"
    and "port_ok port" and "buffer_id = UINT32_MAX \<Longrightarrow> 60 \<le> length (opt_bytes data)"
  shows "\<exists>m. create_packet_out xid buffer_id port (Some acts) data = Ok m
           \<and> validate_openflow_message fuel m = Ok 0"
  using appended_ok [OF assms(1,2)] assms(3-6)
    create_packet_out_eq [of "Some acts" data buffer_id xid port]
    validate_created_packet_out [of "act_list acts" "opt_bytes data" port fuel xid buffer_id]
  by (simp add: opt_actions_def validate_openflow_message_created)

lemma packet_out_accepted_witness:
  "\<exists>m. create_packet_out 7 UINT32_MAX 1 (Some sample_actions) (Some (replicate 60 0)) = Ok m
     \<and> validate_openflow_message 3 m = Ok 0"
  by (rule packet_out_accepted [of "[Req_nw_tos 4, Req_output 1 0xffff]", OF _ sample_append])
    (simp_all add: port_ok_def opt_bytes_def sample_defs)

text \<open>
  What the header check accepts, exactly: at least the 8 bytes of a header, a version the message
  type allows, the expected type, a length field that is the length of the message, and that length
  within the limits of the message type.
\<close>

lemma header_accepted_iff:
  assumes "type \<le> OFPT_QUEUE_GET_CONFIG_REPLY"
  shows "validate_header m type lo hi = Ok 0 \<longleftrightarrow>
     8 \<le> length m \<and> (\<exists>v. rd8 m 0 = Ok v \<and> valid_message_version type v) \<and> rd8 m 1 = Ok type \<and>
     rd16 m 2 = Ok (of_nat (length m)) \<and> length m < 65536 \<and> lo \<le> length m \<and> length m \<le> hi"
  using assms by (rule validate_header_ok)

lemma header_accepted_iff_witness:
  "validate_header [1, 5, 0, 8, 0, 0, 0, 1] OFPT_FEATURES_REQUEST 8 8 = Ok 0 \<and>
   validate_header [1, 5, 0, 9, 0, 0, 0, 1] OFPT_FEATURES_REQUEST 8 8 \<noteq> Ok 0"
  by (subst (1 2) header_accepted_iff)
    (simp_all add: rd_def be_get_def valid_message_version_def)

section \<open>Containers\<close>

text \<open>
  The hash table that maps datapath ids is a finite map: after any sequence of insertions and
  deletions every lookup gives what the map gives.
\<close>

lemma datapath_table_is_map:
  fixes opers :: "(64 word, 'v) hash_op list"
  shows "lookup_hash_entry (foldl run_hash_op (create_hash compare_datapath_id hash_datapath_id) opers) =
     foldl (\<lambda>m oper. case oper of Insert_entry k v \<Rightarrow> m(k \<mapsto> v) | Delete_entry k \<Rightarrow> m(k := None)) Map.empty opers"
proof -
  have step: "map_hash_op compare_datapath_id =
      (\<lambda>m oper. case oper of Insert_entry k v \<Rightarrow> m(k \<mapsto> v) | Delete_entry k \<Rightarrow> m(k := None))"
    by (auto simp: fun_eq_iff compare_datapath_id_def split: hash_op.split)
  have "lookup_hash_entry (create_hash_with_size compare_datapath_id hash_datapath_id n) =
      (Map.empty :: 64 word \<rightharpoonup> 'v)" for n
    by (simp add: fun_eq_iff datapath_id_keys.lookup_create)
  then show ?thesis
    using datapath_id_keys.run_ops [OF datapath_id_keys.create_tbl [of default_hash_size], of opers]
    by (simp add: step create_hash_def default_hash_size_def)
qed

text \<open>
  An iterator over a table that any sequence of operations built visits every entry exactly once
  and then returns \<open>NULL\<close>: the loop of the clients ends, and what it sees is the map.
\<close>

lemma iterator_visits_all:
  fixes opers :: "(64 word, 'v) hash_op list"
  defines "t \<equiv> foldl run_hash_op (create_hash compare_datapath_id hash_datapath_id) opers"
  shows "\<exists>it' es. init_hash_iterator t it = Ok it' \<and> iterate_all (Suc (length es)) it' = Ok es \<and>
     distinct (map fst es) \<and> (\<forall>k v. (k, v) \<in> set es \<longleftrightarrow> lookup_hash_entry t k = Some v)"
proof -
  have t: "hash_inv compare_datapath_id hash_datapath_id (\<lambda>_. True) t"
    using datapath_id_keys.run_ops [OF datapath_id_keys.create_tbl [of default_hash_size], of opers]
    by (simp add: t_def create_hash_def default_hash_size_def)
  have "distinct (map fst es)" if "keys_apart compare_datapath_id es" for es :: "(64 word \<times> 'v) list"
    using that by (induction es) (fastforce simp: find_entry_None compare_datapath_id_def)+
  then show ?thesis
    using datapath_id_keys.iterator_drains [OF t, of "Suc (length (hash_entries t))" it]
      datapath_id_keys.entries_lookup [OF t] datapath_id_keys.entries_apart [OF t]
    by (auto simp: compare_datapath_id_def)
qed

text \<open>
  The message queue is first in, first out: the answers to any sequence of \<open>enqueue_message\<close>,
  \<open>dequeue_message\<close> and \<open>peek_message\<close> are those of a list.
\<close>

lemma message_queue_fifo:
  "run_queue enqueue_message dequeue_message peek_message opers create_message_queue = run_list_queue opers []"
  by (simp add: mq.run_refines mq_create)

text \<open>
  The pointer operations of the doubly linked list do what they do on the list of its cells:
  inserting after a cell and deleting a cell keep the links consistent and leave the data of the other
  cells alone.
\<close>

lemma dlist_operations_refine:
  assumes "dlist h (ys @ x # zs)" and "new \<noteq> 0" and "h new = None"
  shows "\<exists>h' h''. insert_after_dlist h x d new = Ok h' \<and> dlist h' (ys @ x # new # zs) \<and> data_at h' new = Some d \<and>
     (\<forall>y. y \<noteq> new \<longrightarrow> data_at h' y = data_at h y) \<and>
     delete_dlist_element h' x = Ok h'' \<and> dlist h'' (ys @ new # zs) \<and> h'' x = None \<and>
     (\<forall>y. y \<noteq> x \<longrightarrow> data_at h'' y = data_at h' y)"
proof -
  obtain h' where h': "insert_after_dlist h x d new = Ok h'" "dlist h' (ys @ x # new # zs)"
    "data_at h' new = Some d" "\<forall>y. y \<noteq> new \<longrightarrow> data_at h' y = data_at h y"
    using insert_after_dlist_refines [OF assms] by blast
  with delete_dlist_element_refines [OF h'(2)] show ?thesis by blast
qed

definition one_cell :: "nat \<rightharpoonup> nat dlist_cell" where
  "one_cell = [1 \<mapsto> \<lparr>dl_data = Some 5, dl_prev = 0, dl_next = 0\<rparr>]"

lemma dlist_operations_refine_witness:
  "\<exists>h' h''. insert_after_dlist one_cell 1 8 2 = Ok h' \<and> dlist h' [1, 2] \<and> data_at h' 2 = Some 8 \<and>
     (\<forall>y. y \<noteq> 2 \<longrightarrow> data_at h' y = data_at one_cell y) \<and>
     delete_dlist_element h' 1 = Ok h'' \<and> dlist h'' [2] \<and> h'' 1 = None \<and>
     (\<forall>y. y \<noteq> 1 \<longrightarrow> data_at h'' y = data_at h' y)"
  using dlist_operations_refine [of one_cell "[]" 1 "[]" 2 8]
  by (simp add: one_cell_def dlist_def)

text \<open>
  A buffer is a byte queue: chunks appended at the back of an allocated buffer can be taken off
  the front in order, whatever reallocations happen on the way.
\<close>

lemma buffer_stream:
  assumes "[] \<notin> set cs" and "0 < n" and "n \<le> length (concat cs)"
  shows "\<exists>b b'. buf.push_all alloc_buffer cs = Ok b \<and> buf_contents b = concat cs \<and>
     remove_front_buffer b n = Ok b' \<and> buf_contents b' = drop n (concat cs)"
proof -
  obtain b where b: "buf.push_all alloc_buffer cs = Ok b" "buf_inv b" "buf_contents b = concat cs"
    using buf.push_all_ok [of alloc_buffer cs] buf_inv_alloc assms(1) by auto
  then have "n \<le> buf_length b" using length_buf_contents [OF b(2)] assms(3) by simp
  with remove_front_contents [OF b(2) assms(2)] b show ?thesis by auto
qed

lemma buffer_stream_witness:
  "\<exists>b b'. buf.push_all alloc_buffer [[1, 2], [3]] = Ok b \<and> buf_contents b = [1, 2, 3] \<and>
     remove_front_buffer b 2 = Ok b' \<and> buf_contents b' = [3]"
  using buffer_stream [of "[[1, 2], [3]]" 2] by simp

section \<open>Matches and the match table\<close>

text \<open>
  C15.  After any sequence of insertions, updates and deletions the match table answers strict lookups
  as a map from flows: a flow is what the match says and, when it has wildcards, the priority.  An
  insertion of a flow that is present, and an update of one that is not, leave the map unchanged.
\<close>

theorem match_table_is_flow_map:
  "\<exists>t t'. init_match_table None = Ok (Some t) \<and> run_match_ops 1 opers (Some t) = Ok (Some t') \<and>
     (\<forall>m p. lookup_match_strict_entry (Some t') m p = Ok (foldl flow_map_op (\<lambda>_. None) opers (flow_key m p)))"
proof -
  obtain t :: "'a match_table" where t: "init_match_table None = Ok (Some t)" "table_is t (\<lambda>_. None)" "entry_ids t = {}"
    using init_table_is by blast
  then obtain t' where "run_match_ops 1 opers (Some t) = Ok (Some t')"
    "table_is t' (foldl flow_map_op (\<lambda>_. None) opers)"
    using run_match_ops_refines [OF t(2), of 1 opers] by auto
  with t(1) show ?thesis by (auto simp: table_is_def lookup_match_strict_eq)
qed

text \<open>
  A packet lookup in a table any operations built returns the exact entry when there is one, and
  otherwise the data of an entry that matches and has the highest priority among those that do;
  \<open>NULL\<close> only when nothing matches.
\<close>

lemma lookup_by_priority:
  assumes "init_match_table None = Ok (Some t)" and "run_match_ops 1 opers (Some t) = Ok (Some t')"
  shows "\<exists>r. lookup_match_entry (Some t') m = Ok (map_option me_data r) \<and>
     (lookup_hash_entry (exact_table t') m \<noteq> None \<longrightarrow> r = lookup_hash_entry (exact_table t') m) \<and>
     (lookup_hash_entry (exact_table t') m = None \<longrightarrow>
       (case r of
          None \<Rightarrow> \<forall>e \<in> set (wildcards_table t'). \<not> compare_match (me_match e) m
        | Some e \<Rightarrow> e \<in> set (wildcards_table t') \<and> compare_match (me_match e) m \<and>
            (\<forall>x \<in> set (wildcards_table t'). compare_match (me_match x) m \<longrightarrow> me_priority x \<le> me_priority e)))"
proof -
  have t: "table_is t (\<lambda>_. None)" using init_table [OF assms(1)] by (simp add: table_is_def)
  have "entry_ids t = {}"
    using assms(1) by (auto simp: init_match_table_def die_unless_def entry_ids_def create_list_def)
  then have "table_inv t'"
    using run_match_ops_refines [OF t, of 1 opers] assms(2) by (auto simp: table_is_def)
  then show ?thesis by (rule lookup_match_eq)
qed

definition empty_table :: "nat match_table" where
  "empty_table = \<lparr>exact_table = init_exact_match_table, wildcards_table = []\<rparr>"

definition one_entry_table :: "nat match_table" where
  "one_entry_table = empty_table\<lparr>wildcards_table := [allocate_match_entry 1 any_match 5 9]\<rparr>"

lemma lookup_by_priority_witness:
  "run_match_ops 1 [Insert_match any_match 5 9] (Some empty_table) = Ok (Some one_entry_table) \<and>
   lookup_match_entry (Some one_entry_table) exact_flow = Ok (Some 9)"
proof
  show r: "run_match_ops 1 [Insert_match any_match 5 9] (Some empty_table) = Ok (Some one_entry_table)"
    by (simp add: insert_match_entry_def with_table_def exact_match_def insert_wildcards_match_entry_def
        one_entry_table_def empty_table_def any_match_def)
  have i: "init_match_table None = Ok (Some empty_table)"
    by (simp add: init_match_table_def die_unless_def empty_table_def create_list_def)
  have "lookup_hash_entry (exact_table one_entry_table) exact_flow = None"
    by (simp add: one_entry_table_def empty_table_def init_exact_match_table_def create_hash_def
        exact_keys.lookup_create)
  moreover have "compare_match any_match exact_flow"
    by (simp add: compare_match_def create_nw_src_mask_def create_nw_dst_mask_def sample_defs)
  ultimately show "lookup_match_entry (Some one_entry_table) exact_flow = Ok (Some 9)"
    using lookup_by_priority [OF i r, of exact_flow]
    by (auto simp: one_entry_table_def allocate_match_entry_def split: option.splits)
qed

text \<open>
  What the two comparisons of matches mean.  Against a match without wildcards, \<open>compare_match\<close>
  holds exactly when every field is wildcarded or equal and the addresses agree above the bits the
  wildcards hide.  \<open>compare_match_strict\<close> is an equivalence: equality of the wildcard bits, of the
  fields not wildcarded and of the address prefixes.
\<close>

lemma match_comparisons_mean:
  assumes "wildcards p AND OFPFW_ALL = 0"
  shows "(compare_match x p \<longleftrightarrow> admits x p) \<and> (compare_match_strict y z \<longleftrightarrow> strict_key y = strict_key z)"
  using compare_match_exact [OF assms] compare_match_strict_key by blast

lemma match_comparisons_mean_witness:
  "wildcards exact_flow AND OFPFW_ALL = 0 \<and> compare_match any_match exact_flow = admits any_match exact_flow"
  using match_comparisons_mean [of exact_flow any_match] by (simp add: sample_defs)

section \<open>Conversions\<close>

text \<open>
  A flow statistics entry written by \<open>hton_flow_stats\<close> anywhere in a message is read back
  unchanged by \<open>ntoh_flow_stats\<close>, its actions included.
\<close>

lemma flow_stats_round_trip:
  assumes "flow_stats_wf s" and "off + unat (fs_length s) \<le> length m" and "length (fs_actions s) < fuel"
  shows "\<exists>m'. hton_flow_stats s off m = Ok m' \<and> length m' = length m \<and> ntoh_flow_stats fuel m' off = Ok s"
proof -
  let ?b = "hton_flow_stats_fixed s @ enc_actions (fs_actions s)"
  have n: "length ?b = unat (fs_length s)"
    using assms(1) by (simp add: flow_stats_wf_def length_enc_actions)
  have "patch off ?b m = take off m @ ?b @ drop (off + length ?b) m" by (simp add: patch_def)
  moreover have "length (take off m) = off" using assms(2) by simp
  ultimately have "ntoh_flow_stats fuel (patch off ?b m) off = Ok s"
    using ntoh_hton_flow_stats [OF assms(1,3), of "take off m" off] by simp
  then show ?thesis using hton_flow_stats_wf [OF assms(1,2)] n assms(2)
    by (intro exI [of _ "patch off ?b m"]) simp
qed

lemma flow_stats_round_trip_witness:
  "\<exists>m'. hton_flow_stats sample_flow_stats 12 (replicate 116 0) = Ok m' \<and> length m' = 116 \<and>
     ntoh_flow_stats 3 m' 12 = Ok sample_flow_stats"
  using flow_stats_round_trip [of sample_flow_stats 12 "replicate 116 0" 3]
  by (simp add: flow_stats_wf_def action_wf_def sample_flow_stats_def sample_defs)

text \<open>
  The structures survive the trip through network byte order, at any offset: a match (up to its
  padding, which is cleared), a port description, the table, port and queue statistics, and an action
  whose length field fits its structure, vendor actions with their body included.
\<close>

lemma structures_round_trip:
  assumes "length pre = i" and "action_wf a"
  shows "ntoh_match (pre @ hton_match s @ post) i = Ok (s\<lparr>pad1 := 0, pad2 := 0\<rparr>) \<and>
   ntoh_phy_port (pre @ hton_phy_port p @ post) i = Ok p \<and>
   ntoh_table_stats (pre @ hton_table_stats t @ post) i = Ok t \<and>
   ntoh_port_stats (pre @ hton_port_stats q @ post) i = Ok q \<and>
   ntoh_queue_stats (pre @ hton_queue_stats r @ post) i = Ok r \<and>
   (\<exists>bs. hton_action a = Ok bs \<and> length bs = unat (action_len a) \<and> ntoh_action (pre @ bs @ post) i = Ok a)"
  using assms(1) hton_action_wf [OF assms(2)] ntoh_hton_action [OF assms(2,1)]
  by (simp add: ntoh_hton_match ntoh_hton_phy_port ntoh_hton_table_stats ntoh_hton_port_stats ntoh_hton_queue_stats)

lemma structures_round_trip_witness:
  "ntoh_match ([7] @ hton_match exact_flow @ []) 1 = Ok exact_flow \<and>
   ntoh_phy_port ([7] @ hton_phy_port sample_port @ []) 1 = Ok sample_port \<and>
   (\<exists>bs. hton_action (Action_vendor 16 3 (replicate 8 1)) = Ok bs \<and> length bs = 16 \<and>
     ntoh_action ([7] @ bs @ []) 1 = Ok (Action_vendor 16 3 (replicate 8 1)))"
  using structures_round_trip [of "[7]" 1 "Action_vendor 16 3 (replicate 8 1)" exact_flow "[]" sample_port]
  by (simp add: sample_defs action_wf_def)

section \<open>Counters and errors\<close>

text \<open>
  Transaction ids and cookies: whatever number of them are drawn, the upper 16 bits (the process)
  stay; 65536 consecutive ids and \<open>2 ^ 48\<close> consecutive cookies are all different, and then the
  sequence repeats.
\<close>

lemma counters_cycle:
  "drop_bit 16 ((get_transaction_id ^^ n) t) = drop_bit 16 t \<and> (get_transaction_id ^^ 65536) t = t \<and>
   inj_on (\<lambda>i. (get_transaction_id ^^ i) t) {..<65536} \<and>
   drop_bit 48 ((get_cookie ^^ m) c) = drop_bit 48 c \<and> (get_cookie ^^ (2 ^ 48)) c = c \<and>
   inj_on (\<lambda>i. (get_cookie ^^ i) c) {..<2 ^ 48}"
proof -
  have "drop_bit 16 ((get_transaction_id ^^ n) t) = drop_bit 16 t \<and> (get_transaction_id ^^ 65536) t = t \<and>
      inj_on (\<lambda>i. (get_transaction_id ^^ i) t) {..<65536}"
    using low_counter_cycle [of 16, where w = t] by (simp add: get_transaction_id_eq)
  moreover have "drop_bit 48 ((get_cookie ^^ m) c) = drop_bit 48 c \<and> (get_cookie ^^ (2 ^ 48)) c = c \<and>
      inj_on (\<lambda>i. (get_cookie ^^ i) c) {..<2 ^ 48}"
    using low_counter_cycle [of 48, where w = c] by (simp only: get_cookie_eq) simp
  ultimately show ?thesis by blast
qed

text \<open>
  Every failure of the header check has an answer for the peer: for each message type the error
  number is found in the table of error types and codes, and a wrong version is answered as the
  protocol says (hello failed for a hello, bad version otherwise).
\<close>

lemma header_failures_answered:
  assumes "type \<le> OFPT_QUEUE_GET_CONFIG_REPLY" and "validate_header m type lo hi = Ok e" and "e \<noteq> 0"
  shows "\<exists>error_type code. get_error_type_and_code type e = Ok (Some (error_type, code)) \<and>
     (e = ERROR_UNSUPPORTED_VERSION \<longrightarrow>
        (error_type, code) = (if type = OFPT_HELLO then (OFPET_HELLO_FAILED, OFPHFC_INCOMPATIBLE)
                              else (OFPET_BAD_REQUEST, OFPBRC_BAD_VERSION)))"
proof -
  have "e \<in> set header_errors"
    using assms(2,3) unfolding validate_header_def
    by (auto simp: header_errors_def bnd_eq_Ok split: if_splits)
  then have "get_error_type_and_code type e = Ok (header_error_code type e)" "e \<in> set header_errors"
    using header_error_mapped assms(1) by auto
  then show ?thesis by (auto simp: header_errors_def)
qed

lemma header_failures_answered_witness:
  "\<exists>error_type code. get_error_type_and_code OFPT_FEATURES_REPLY ERROR_UNSUPPORTED_VERSION = Ok (Some (error_type, code)) \<and>
     (error_type, code) = (OFPET_BAD_REQUEST, OFPBRC_BAD_VERSION)"
  using header_failures_answered [of OFPT_FEATURES_REPLY "[9, 6, 0, 8, 0, 0, 0, 0]" 32 65535 ERROR_UNSUPPORTED_VERSION]
  by (simp add: validate_header_def rd_def be_get_def valid_message_version_def)

section \<open>Where the code departs from its intent\<close>

text \<open>
  \<open>ERROR_UNDEFINED_FLOW_MOD_COMMAND\<close> is the number 0, the value of success: a flow modification
  with a command that does not exist is accepted, whatever its priority, ports and flags.
\<close>

lemma undefined_command_is_accepted:
  assumes "match_ok match" and "command > OFPFC_DELETE_STRICT"
  shows "\<exists>m. create_flow_mod xid match cookie command idle hard priority buffer_id out_port flags None = Ok m \<and>
     validate_openflow_message fuel m = Ok 0"
proof -
  let ?m = "header_bytes OFPT_FLOW_MOD 72 xid @ hton_match match @ put64 cookie @ put16 command @ put16 idle @
    put16 hard @ put16 priority @ put32 buffer_id @ put16 out_port @ put16 flags"
  have h: "validate_header ?m OFPT_FLOW_MOD 72 65535 = Ok 0" by (intro validate_header_created) auto
  have match: "ntoh_match ?m 8 = Ok (match\<lparr>pad1 := 0, pad2 := 0\<rparr>)" by (intro ntoh_hton_match) simp
  have vm: "validate_match (match\<lparr>pad1 := 0, pad2 := 0\<rparr>) = Ok 0" using assms(1) by (simp add: validate_match_ok)
  have c: "rd16 ?m 56 = Ok command" by (simp add: rd_after_header be_get_put)
  show ?thesis
    using undefined_command_accepted [OF h match vm c assms(2), of fuel]
      create_flow_mod_eq [of None xid match cookie command idle hard priority buffer_id out_port flags]
    by (simp add: opt_actions_def validate_openflow_message_created)
qed

lemma undefined_command_is_accepted_witness:
  "\<exists>m. create_flow_mod 7 any_match 0 9 0 0 0 0 0 0xffff None = Ok m \<and> validate_openflow_message 0 m = Ok 0"
  by (rule undefined_command_is_accepted) (simp_all add: match_ok_def sample_defs)

text \<open>
  The same 0 ends the flow modification row of the error table early: the entries behind it, for
  a bad priority and for bad flags, are in the row and are never found.
\<close>

lemma flow_mod_errors_not_found:
  "(\<exists>t c. (ERROR_INVALID_FLOW_PRIORITY, t, c) \<in> set (snd (error_maps ! unat OFPT_FLOW_MOD))) \<and>
   (\<exists>t c. (ERROR_INVALID_FLOW_MOD_FLAGS, t, c) \<in> set (snd (error_maps ! unat OFPT_FLOW_MOD))) \<and>
   get_error_type_and_code OFPT_FLOW_MOD ERROR_INVALID_FLOW_PRIORITY = Ok None \<and>
   get_error_type_and_code OFPT_FLOW_MOD ERROR_INVALID_FLOW_MOD_FLAGS = Ok None"
  by (simp add: get_error_type_and_code_def error_maps_defs)

text \<open>
  C28.  A flow modification of 88 bytes on which the validation never returns: behind an output action
  stands a vendor action whose length takes the 16-bit offset back to the first one.
\<close>

theorem validation_never_returns:
  assumes "flow_mod_args_ok match command priority out_port flags"
  shows "validate_openflow_message fuel (header_bytes OFPT_FLOW_MOD 88 xid @ hton_match match @ put64 cookie @
     put16 command @ put16 idle @ put16 hard @ put16 priority @ put32 buffer_id @ put16 out_port @ put16 flags @
     enc_action (Action_output 8 1 0) @ put16 OFPAT_VENDOR @ put16 65528 @ put32 vendor) = Fault No_return"
    (is "validate_openflow_message fuel ?m = _")
proof -
  let ?pre = "header_bytes OFPT_FLOW_MOD 88 xid @ hton_match match @ put64 cookie @
     put16 command @ put16 idle @ put16 hard @ put16 priority @ put32 buffer_id @ put16 out_port @ put16 flags"
  let ?vendor = "put16 OFPAT_VENDOR @ put16 65528 @ put32 vendor"
  have wf: "action_wf (Action_output 8 1 0)" "action_args_ok (Action_output 8 1 0)"
    by (simp_all add: action_wf_def port_ok_def)
  have len: "length (enc_action (Action_output 8 1 0)) = 8" using hton_action_wf(2) [OF wf(1)] by simp
  have h: "validate_header ?m OFPT_FLOW_MOD 72 65535 = Ok 0"
    using len by (intro validate_header_created) auto
  have match: "ntoh_match ?m 8 = Ok (match\<lparr>pad1 := 0, pad2 := 0\<rparr>)" by (intro ntoh_hton_match) simp
  have vm: "validate_match (match\<lparr>pad1 := 0, pad2 := 0\<rparr>) = Ok 0"
    using assms by (simp add: validate_match_ok flow_mod_args_ok_def)
  have f: "rd16 ?m 56 = Ok command" "rd16 ?m 62 = Ok priority" "rd16 ?m 68 = Ok out_port"
    "rd16 ?m 70 = Ok flags" "rd16 ?m 2 = Ok 88"
    by (simp_all add: rd_after_header rd_header_fields be_get_put)
  have a0: "validate_action ?m 72 = Ok 0" "rd16 ?m (72 + 2) = Ok 8"
    using validate_action_ok [OF wf, of ?pre 72 ?vendor] by simp_all
  have "rd16 ?m (80 + 2) = Ok 65528" "rd16 ?m 80 = Ok OFPAT_VENDOR"
    using len by (simp_all add: rd_after_header be_get_put)
  then have a1: "validate_action ?m (72 + unat (8 :: 16 word)) = Ok 0" "rd16 ?m (72 + unat (8 :: 16 word) + 2) = Ok 65528"
    by (simp_all add: validate_action_def validate_action_vendor_def)
  have loop: "validate_actions_loop fuel ?m 72 16 0 = Fault No_return"
    using validate_actions_cycle [OF a0 a1, of 16 fuel] by simp
  have port: "validate_phy_port_no out_port = Ok 0"
    if "(command = OFPFC_DELETE \<or> command = OFPFC_DELETE_STRICT) \<and> out_port \<noteq> OFPP_NONE"
    using that assms by (auto simp: validate_phy_port_no_ok flow_mod_args_ok_def)
  show ?thesis
    unfolding validate_openflow_message_created validate_flow_mod_def h match f bnd.simps chk_Ok vm
    using assms loop port by (auto simp: flow_mod_args_ok_def Let_def not_less validate_actions_def)
qed

theorem validation_never_returns_witness:
  "validate_openflow_message 1000000 (header_bytes OFPT_FLOW_MOD 88 7 @ hton_match any_match @ put64 0 @
     put16 OFPFC_ADD @ put16 0 @ put16 0 @ put16 5 @ put32 0 @ put16 OFPP_NONE @ put16 0 @
     enc_action (Action_output 8 1 0) @ put16 OFPAT_VENDOR @ put16 65528 @ put32 1) = Fault No_return"
  by (rule validation_never_returns) (simp add: flow_mod_args_ok_def match_ok_def sample_defs)

text \<open>
  A queue configuration reply with a queue description of length 0 is never finished either: the
  loop that counts the queues does not advance.
\<close>

lemma queue_config_never_returns:
  assumes "port_ok port"
  shows "validate_openflow_message fuel (header_bytes OFPT_QUEUE_GET_CONFIG_REPLY 32 xid @ put16 port @
     replicate 6 0 @ put32 queue_id @ replicate 12 0) = Fault No_return"
    (is "validate_openflow_message fuel ?m = _")
proof -
  have h: "validate_header ?m OFPT_QUEUE_GET_CONFIG_REPLY 24 65535 = Ok 0"
    by (intro validate_header_created) auto
  have f: "rd16 ?m 8 = Ok port" "rd16 ?m 2 = Ok 32"
    by (simp_all add: rd_after_header rd_header_fields be_get_put)
  have "rd16 ?m (16 + 4) = Ok 0"
    by (simp add: rd_after_header be_get_def rd_def numeral_eq_Suc)
  then have c: "count_queues fuel ?m 16 (32 - 16) 0 = Fault No_return"
    by (rule count_queues_stuck) simp
  have p: "validate_phy_port_no port = Ok 0" using assms by (simp add: validate_phy_port_no_ok)
  have "validate_queue_get_config_reply fuel ?m = Fault No_return"
    unfolding validate_queue_get_config_reply_def h f p bnd.simps chk_Ok c by simp
  then show ?thesis unfolding validate_openflow_message_def rd_header_fields bnd.simps by simp
qed

lemma desc_stats_reply_bounds:
  assumes "length mfr = 256" and "length hw = 256" and "length sw = 256" and "length serial = 32"
  shows "create_desc_stats_reply xid flags mfr hw sw serial dp = Fault Out_of_bounds"
proof -
  have "rd_struct 256 mfr 0 = Ok mfr" "rd_struct 256 hw 0 = Ok hw" "rd_struct 256 sw 0 = Ok sw"
    "rd_struct 256 serial 0 = Fault Out_of_bounds"
    using assms by (simp_all add: rd_struct_def)
  moreover have "bnd (create_header xid OFPT_STATS_REPLY 1068) (wrs [(8, put16 OFPST_DESC), (10, put16 flags)]) =
      Ok (header_bytes OFPT_STATS_REPLY 1068 xid @ written [(8, put16 OFPST_DESC), (10, put16 flags)] @ replicate 1056 0)"
    by (rule create_fixed_eq) simp_all
  ultimately show ?thesis
    using assms by (simp add: create_desc_stats_reply_def create_stats_reply_def)
qed

lemma packet_out_bounds:
  assumes "port_ok port" and "0 < n"
  shows "validate_openflow_message (Suc fuel) (header_bytes OFPT_PACKET_OUT 16 xid @ put32 buffer_id @ put16 port @
     put16 n) = Fault Out_of_bounds"
    (is "validate_openflow_message _ ?m = _")
proof -
  have h: "validate_header ?m OFPT_PACKET_OUT 16 65535 = Ok 0" by (intro validate_header_created) auto
  have f: "rd16 ?m 12 = Ok port" "rd16 ?m 14 = Ok n" by (simp_all add: rd_after_header be_get_put)
  have p: "validate_phy_port_no port = Ok 0" using assms(1) by (simp add: validate_phy_port_no_ok)
  have "rd16 ?m (16 + 2) = Fault Out_of_bounds" by (simp add: rd_def)
  then have "validate_actions (Suc fuel) ?m 16 n = Fault Out_of_bounds"
    using assms(2) by (simp add: validate_actions_def validate_action_def)
  then show ?thesis
    unfolding validate_openflow_message_created validate_packet_out_def h f p bnd.simps chk_Ok
    using assms(2) by simp
qed

text \<open>
  Two functions read past the end of what they are given.  \<open>create_desc_stats_reply\<close> copies 256
  bytes of the serial number, whose array has 32.  The validation of a packet out that announces more
  action bytes than it carries reads behind the message.
\<close>

lemma lengths_over_read:
  assumes "length mfr = 256" and "length hw = 256" and "length sw = 256" and "length serial = 32"
    and "port_ok port" and "0 < n"
  shows "create_desc_stats_reply xid flags mfr hw sw serial dp = Fault Out_of_bounds \<and>
    validate_openflow_message (Suc fuel) (header_bytes OFPT_PACKET_OUT 16 xid @ put32 buffer_id @ put16 port @ put16 n) =
      Fault Out_of_bounds"
  using desc_stats_reply_bounds [OF assms(1-4)] packet_out_bounds [OF assms(5,6)] by blast

lemma lengths_over_read_witness:
  "create_desc_stats_reply 7 0 (replicate 256 0) (replicate 256 0) (replicate 256 0) (replicate 32 0) (replicate 256 0) =
     Fault Out_of_bounds \<and>
   validate_openflow_message (Suc 0) (header_bytes OFPT_PACKET_OUT 16 7 @ put32 0 @ put16 1 @ put16 8) = Fault Out_of_bounds"
  by (rule lengths_over_read) (simp_all add: port_ok_def)

section \<open>Frames\<close>

text \<open>
  C29.  The frame parser stays inside the frame: for every sequence of bytes it either returns or
  fails an assertion; it never reads past the end and the loop over nested VLAN tags ends.  What it
  returns points into the frame: every payload begins inside it and ends with it.
\<close>

theorem parser_stays_inside:
  "case parse_packet m of Ok info \<Rightarrow> frame_ok m info | Fault e \<Rightarrow> e = Assertion"
  using parse_packet_ok [of m] by (auto simp: parsed_def)

text \<open>
  The parser reads what a sender wrote: from a TCP, a UDP and an ARP frame it recovers the
  addresses, types, ports and operation, and the position of the payload.
\<close>

lemma parser_reads_headers:
  assumes "frag_off AND IP_OFFMASK = 0"
  shows "(\<exists>info. parse_packet (eth_hdr da sa ETH_ETHTYPE_IPV4 @
        ipv4_hdr tos tot_len ident frag_off ttl IPPROTO_TCP csum saddr daddr @
        tcp_hdr src dst seq ack flags window csum' urgent @ payload) = Ok info \<and>
     format info = ETH_DIX OR NW_IPV4 OR TP_TCP \<and> eth_macsa info = sa \<and> eth_macda info = da \<and>
     eth_type info = ETH_ETHTYPE_IPV4 \<and> ipv4_tos info = tos \<and> ipv4_protocol info = IPPROTO_TCP \<and>
     ipv4_saddr info = saddr \<and> ipv4_daddr info = daddr \<and> tcp_src_port info = src \<and> tcp_dst_port info = dst \<and>
     tcp_flags info = flags \<and> l4_payload info = (if payload = [] then None else Some 54) \<and>
     l4_payload_length info = length payload) \<and>
   (\<exists>info. parse_packet (eth_hdr da sa ETH_ETHTYPE_IPV4 @
        ipv4_hdr tos tot_len ident frag_off ttl IPPROTO_UDP csum saddr daddr @ udp_hdr src dst len csum' @ payload) =
        Ok info \<and>
     format info = ETH_DIX OR NW_IPV4 OR TP_UDP \<and> eth_macsa info = sa \<and> eth_macda info = da \<and>
     eth_type info = ETH_ETHTYPE_IPV4 \<and> ipv4_tos info = tos \<and> ipv4_protocol info = IPPROTO_UDP \<and>
     ipv4_saddr info = saddr \<and> ipv4_daddr info = daddr \<and> udp_src_port info = src \<and> udp_dst_port info = dst \<and>
     l4_payload info = (if payload = [] then None else Some 42) \<and> l4_payload_length info = length payload) \<and>
   (\<exists>info. parse_packet (eth_hdr da sa ETH_ETHTYPE_ARP @ arp_pkt hrd pro hln pln oper sha sip tha tip @ padding) = Ok info \<and>
     format info = ETH_DIX OR NW_ARP \<and> eth_macsa info = sa \<and> eth_macda info = da \<and>
     eth_type info = ETH_ETHTYPE_ARP \<and> arp_ar_op info = oper \<and> arp_sha info = sha \<and> arp_spa info = sip \<and>
     arp_tha info = tha \<and> arp_tpa info = tip)"
  by (intro conjI parse_tcp_frame [OF assms] parse_udp_frame [OF assms] parse_arp_frame)

lemma parser_reads_headers_witness:
  "\<exists>info. parse_packet (eth_hdr 0x0b 0x0a ETH_ETHTYPE_IPV4 @
        ipv4_hdr 0 44 1 0x4000 64 IPPROTO_TCP 0 0x0a000001 0x0a000002 @ tcp_hdr 80 1024 1 2 0x18 8192 0 0 @ [1, 2, 3, 4]) =
        Ok info \<and> tcp_src_port info = 80 \<and> tcp_dst_port info = 1024 \<and> l4_payload info = Some 54"
proof -
  have "0x4000 AND IP_OFFMASK = (0 :: 16 word)" by simp
  from conjunct1 [OF parser_reads_headers [OF this, of "0x0b" "0x0a" 0 44 1 64 0 "0x0a000001" "0x0a000002" 80 1024 1 2
      "0x18" 8192 0 0 "[1, 2, 3, 4]"]]
  show ?thesis by auto
qed

text \<open>
  C30.  A match made from a packet says what the packet says.  Without wildcards it is the header of the
  packet.  With any wildcards, \<open>compare_match\<close> accepts a header exactly when it agrees with that of the packet in
  every field that is not wildcarded, in the bits of the addresses that are not; a field below a wildcarded
  Ethernet type or protocol, at which the function does not look, counts as 0.  When the wildcards hide the
  fields below as well, the match accepts the packet itself.  The validator accepts the match.
\<close>

theorem match_from_packet_sound:
  "set_match_from_packet port 0 info = packet_header port info \<and>
   (\<forall>p. wildcards p AND OFPFW_ALL = 0 \<longrightarrow>
      (compare_match (set_match_from_packet port w info) p \<longleftrightarrow>
       admits ((looked_at w (packet_header port info))\<lparr>wildcards := w\<rparr>) p)) \<and>
   (consistent_wildcards w \<longrightarrow> compare_match (set_match_from_packet port w info) (packet_header port info)) \<and>
   (w AND NOT OFPFW_ALL = 0 \<longrightarrow> validate_match (set_match_from_packet port w info) = Ok 0)"
proof -
  have h: "wildcards (packet_header port info) AND OFPFW_ALL = 0" by (simp add: packet_header_def Let_def)
  have "compare_match (set_match_from_packet port w info) (packet_header port info)" if "consistent_wildcards w"
    unfolding compare_match_exact [OF h] admits_looked_at consistent_looked_at [OF that] by (rule admits_self)
  then show ?thesis
    using exact_match_header admits_looked_at compare_match_exact match_from_packet_ok
    unfolding validate_match_ok by blast
qed

definition tcp_packet :: packet_info where
  "tcp_packet = calloc_packet_info\<lparr>format := ETH_DIX OR NW_IPV4 OR TP_TCP, eth_macsa := 0xa, eth_macda := 0xb,
     eth_type := ETH_ETHTYPE_IPV4, ipv4_protocol := IPPROTO_TCP, ipv4_saddr := 0x0a000001, ipv4_daddr := 0x0a000002,
     tcp_src_port := 80, tcp_dst_port := 1024\<rparr>"

theorem match_from_packet_sound_witness:
  "compare_match (set_match_from_packet 1 OFPFW_TP_SRC tcp_packet) ((packet_header 1 tcp_packet)\<lparr>tp_src := 81\<rparr>) \<and>
   \<not> compare_match (set_match_from_packet 1 OFPFW_TP_SRC tcp_packet) ((packet_header 1 tcp_packet)\<lparr>dl_src := 0xc\<rparr>)"
proof -
  let ?m = "set_match_from_packet 1 OFPFW_TP_SRC tcp_packet"
  have w: "wildcards ((packet_header 1 tcp_packet)\<lparr>tp_src := 81\<rparr>) AND OFPFW_ALL = 0"
    "wildcards ((packet_header 1 tcp_packet)\<lparr>dl_src := 0xc\<rparr>) AND OFPFW_ALL = 0" by (simp_all add: packet_header_def Let_def)
  note c = match_from_packet_sound [of 1 tcp_packet OFPFW_TP_SRC, THEN conjunct2, THEN conjunct1, rule_format]
  show ?thesis
    unfolding c [OF w(1)] c [OF w(2)] by (simp add: admits_def looked_at_def packet_header_def tcp_packet_def Let_def)
qed



end
